(* ===== verification/Prelude.thy ===== *)
theory Prelude
  imports
    Main
    "HOL-Library.AList"
    "HOL-Library.Char_ord"
    "HOL-Library.List_Lexorder"
    "HOL-Library.Product_Lexorder"
begin

text \<open>
  What every component of the gateway model shares.

  \<^item> Time: Go's \<^verbatim>\<open>time.Time\<close> is an \<^typ>\<open>int\<close> (nanoseconds since the zero time) and
    \<^verbatim>\<open>time.Duration\<close> an \<^typ>\<open>int\<close> (nanoseconds); \<^verbatim>\<open>t.IsZero()\<close> is \<open>t = zero_time\<close>.
  \<^item> Go maps whose size or iteration matters are association lists with distinct keys; the
    order of the list stands for Go's unspecified iteration order, so a theorem about such a
    list holds for every order. Maps that are only read and written by key are partial functions.
  \<^item> A method that runs under its object's mutex is one function on the object's state; an
    interleaving of goroutines is a list of such atomic operations, and the locale
    \<open>invariant_machine\<close> lifts a one-step invariant to every interleaving.
\<close>

section \<open>Time\<close>

type_synonym gtime = int
type_synonym duration = int

abbreviation zero_time :: gtime where "zero_time \<equiv> 0"
abbreviation millisecond :: duration where "millisecond \<equiv> 1000000"
abbreviation second :: duration where "second \<equiv> 1000000000"
abbreviation minute :: duration where "minute \<equiv> 60 * second"
abbreviation hour :: duration where "hour \<equiv> 60 * minute"

section \<open>Comparison functions\<close>

text \<open>\<^verbatim>\<open>cmp.Compare\<close> on an ordered type, and \<^verbatim>\<open>cmp.Or\<close>: the first non-zero argument.\<close>

definition go_cmp :: "'a::linorder \<Rightarrow> 'a \<Rightarrow> int" where
  "go_cmp a b = (if a < b then -1 else if a = b then 0 else 1)"

primrec cmp_or :: "int list \<Rightarrow> int" where
  "cmp_or [] = 0"
| "cmp_or (c # cs) = (if c \<noteq> 0 then c else cmp_or cs)"

lemma go_cmp_less_iff [simp]: "go_cmp a b < 0 \<longleftrightarrow> a < b"
  by (auto simp: go_cmp_def)

lemma go_cmp_eq_iff [simp]: "go_cmp a b = 0 \<longleftrightarrow> a = b"
  by (auto simp: go_cmp_def)

lemma cmp_or_go_cmp_less [simp]:
  "cmp_or (go_cmp a b # cs) < 0 \<longleftrightarrow> a < b \<or> (a = b \<and> cmp_or cs < 0)"
  by (auto simp: go_cmp_def)

lemma cmp_or_go_cmp_eq [simp]:
  "cmp_or (go_cmp a b # cs) = 0 \<longleftrightarrow> a = b \<and> cmp_or cs = 0"
  by (auto simp: go_cmp_def)

section \<open>Association lists as Go maps\<close>

named_theorems gomap "facts on association lists standing for Go maps"

definition keys_distinct :: "('k \<times> 'v) list \<Rightarrow> bool" where
  "keys_distinct m \<longleftrightarrow> distinct (map fst m)"

lemma keys_distinct_Nil [simp, intro]: "keys_distinct []"
  by (simp add: keys_distinct_def)

lemma keys_distinct_update [intro, gomap]: "keys_distinct m \<Longrightarrow> keys_distinct (AList.update k v m)"
  by (simp add: keys_distinct_def distinct_update)

lemma keys_distinct_delete [intro, gomap]: "keys_distinct m \<Longrightarrow> keys_distinct (AList.delete k m)"
  by (simp add: keys_distinct_def distinct_delete)

lemma keys_distinct_filter [intro, gomap]: "keys_distinct m \<Longrightarrow> keys_distinct (filter P m)"
  by (simp add: keys_distinct_def distinct_map_filter)

lemma map_of_filter_snd:
  assumes "keys_distinct m"
  shows "map_of (filter (\<lambda>(k, v). P k v) m) k =
    (case map_of m k of None \<Rightarrow> None | Some v \<Rightarrow> if P k v then Some v else None)"
  using assms by (induction m) (auto simp: keys_distinct_def map_of_eq_None_iff split: option.splits)

lemma map_of_in_set [gomap]: "keys_distinct m \<Longrightarrow> map_of m k = Some v \<longleftrightarrow> (k, v) \<in> set m"
  by (simp add: keys_distinct_def)

lemma length_update_alist [gomap]:
  "length (AList.update k v m) = (if map_of m k = None then Suc (length m) else length m)"
  by (induction m) auto

lemma length_delete_less [gomap]: "map_of m k \<noteq> None \<Longrightarrow> length (AList.delete k m) < length m"
proof (induction m)
  case Nil
  then show ?case by simp
next
  case (Cons kv m)
  show ?case
  proof (cases "fst kv = k")
    case True
    then show ?thesis using length_delete_le [of k m] by (cases kv) (simp add: less_Suc_eq_le)
  next
    case False
    with Cons show ?thesis by (cases kv) auto
  qed
qed

lemma set_update_subset [gomap]: "set (AList.update k v m) \<subseteq> insert (k, v) (set m)"
  by (induction m) auto

lemma set_delete_subset [gomap]: "set (AList.delete k m) \<subseteq> set m"
  by (auto simp: AList.delete_eq)

lemma set_update_distinct:
  "keys_distinct m \<Longrightarrow> set (AList.update k v m) = insert (k, v) {p \<in> set m. fst p \<noteq> k}"
  by (induction m) (force simp: keys_distinct_def)+

lemma set_delete_alist [gomap]: "set (AList.delete k m) = {p \<in> set m. fst p \<noteq> k}"
  by (auto simp: AList.delete_eq)

section \<open>Lists\<close>

text \<open>\<^verbatim>\<open>xs[len(xs)-n:]\<close> where the list is at least that long, the whole list otherwise.\<close>

definition last_n :: "nat \<Rightarrow> 'a list \<Rightarrow> 'a list" where
  "last_n n xs = drop (length xs - n) xs"

lemma length_last_n [simp]: "length (last_n n xs) = min n (length xs)"
  by (simp add: last_n_def min_def)

lemma last_n_id: "length xs \<le> n \<Longrightarrow> last_n n xs = xs"
  by (simp add: last_n_def)

lemma set_last_n: "set (last_n n xs) \<subseteq> set xs"
  by (simp add: last_n_def set_drop_subset)

section \<open>Runs of atomic operations\<close>

text \<open>
  A component is a state, a type of operations and a function that performs one of them.
  \<open>run\<close> performs a list of them in order: one interleaving of the goroutines that call the
  component.
\<close>

primrec run :: "('s \<Rightarrow> 'e \<Rightarrow> 's) \<Rightarrow> 's \<Rightarrow> 'e list \<Rightarrow> 's" where
  "run f s [] = s"
| "run f s (e # es) = run f (f s e) es"

lemma run_append [simp]: "run f s (es @ fs) = run f (run f s es) fs"
  by (induction es arbitrary: s) auto

locale invariant_machine =
  fixes step :: "'s \<Rightarrow> 'e \<Rightarrow> 's"
    and inv :: "'s \<Rightarrow> bool"
    and ok :: "'e \<Rightarrow> bool"
  assumes step_inv: "inv s \<Longrightarrow> ok e \<Longrightarrow> inv (step s e)"
begin

lemma run_inv: "inv s \<Longrightarrow> list_all ok es \<Longrightarrow> inv (run step s es)"
  by (induction es arbitrary: s) (auto intro: step_inv)

lemma every_prefix_inv: "inv s \<Longrightarrow> list_all ok es \<Longrightarrow> inv (run step s (take n es))"
  by (rule run_inv) (auto simp: list_all_iff dest: in_set_takeD)

end

end
