(* ===== verification/Turn_Store.thy ===== *)
theory Turn_Store
  imports Prelude
begin

text \<open>
  \<^verbatim>\<open>internal/turns/store.go\<close>: the status of a prompt turn, the classification of a finished
  prompt reply (\<open>outcome\<close>), and the daemon-wide store of finished outcomes with its bound, its
  eviction of the oldest outcome and the merged, sorted snapshot.
\<close>

section \<open>The wire status of a turn\<close>

datatype turn_state = StateRunning | StateSucceeded | StateFailed | StateCancelled | StateUnknown

definition attention_permission :: string where "attention_permission = ''permission''"
definition attention_elicitation :: string where "attention_elicitation = ''elicitation''"

record status =
  st_agent :: string
  st_session :: string
  st_gateway :: string
  st_runtime :: string
  st_state :: turn_state
  st_attention :: "string list"
  st_started :: gtime
  st_changed :: gtime
  st_stop_reason :: string

datatype turn_key = TurnKey (key_agent: string) (key_gateway: string) (key_session: string)

definition status_key :: "status \<Rightarrow> turn_key" where
  "status_key s = TurnKey (st_agent s) (st_gateway s) (st_session s)"

text \<open>
  The stop reasons of the ACP SDK (\<^verbatim>\<open>acp.StopReason\<close>) are strings fixed by the protocol;
  any other string is one the SDK does not know.
\<close>

definition outcome :: "bool \<Rightarrow> string \<Rightarrow> turn_state" where
  "outcome errored reason =
     (if errored then StateFailed
      else if reason = ''end_turn'' then StateSucceeded
      else if reason = ''cancelled'' then StateCancelled
      else if reason = ''max_tokens'' \<or> reason = ''max_turn_requests'' \<or> reason = ''refusal''
        then StateFailed
      else StateUnknown)"

section \<open>Comparison of statuses\<close>

definition compare_age :: "status \<Rightarrow> status \<Rightarrow> int" where
  "compare_age a b = cmp_or [go_cmp (st_changed a) (st_changed b), go_cmp (st_agent a) (st_agent b),
     go_cmp (st_session a) (st_session b), go_cmp (st_gateway a) (st_gateway b)]"

text \<open>The comparison the snapshot is sorted by.\<close>

definition compare_key :: "status \<Rightarrow> status \<Rightarrow> int" where
  "compare_key a b = cmp_or [go_cmp (st_agent a) (st_agent b), go_cmp (st_session a) (st_session b),
     go_cmp (st_gateway a) (st_gateway b)]"

instantiation turn_key :: linorder
begin

definition less_turn_key :: "turn_key \<Rightarrow> turn_key \<Rightarrow> bool" where
  "less_turn_key a b \<longleftrightarrow>
     (key_agent a, key_session a, key_gateway a) < (key_agent b, key_session b, key_gateway b)"

definition less_eq_turn_key :: "turn_key \<Rightarrow> turn_key \<Rightarrow> bool" where
  "less_eq_turn_key a b \<longleftrightarrow>
     (key_agent a, key_session a, key_gateway a) \<le> (key_agent b, key_session b, key_gateway b)"

instance
proof
  fix x y z :: turn_key
  show "x < y \<longleftrightarrow> x \<le> y \<and> \<not> y \<le> x"
    unfolding less_turn_key_def less_eq_turn_key_def by (rule less_le_not_le)
  show "x \<le> x" by (simp add: less_eq_turn_key_def)
  show "x \<le> y \<Longrightarrow> y \<le> z \<Longrightarrow> x \<le> z"
    unfolding less_eq_turn_key_def by (rule order_trans)
  show "x \<le> y \<Longrightarrow> y \<le> x \<Longrightarrow> x = y"
    unfolding less_eq_turn_key_def by (cases x; cases y) (metis order_antisym prod.inject turn_key.sel)
  show "x \<le> y \<or> y \<le> x"
    unfolding less_eq_turn_key_def by (rule linear)
qed

end

lemma compare_key_less [simp]: "compare_key a b < 0 \<longleftrightarrow> status_key a < status_key b"
  by (auto simp: compare_key_def status_key_def less_turn_key_def)

lemma compare_age_less [simp]:
  "compare_age a b < 0 \<longleftrightarrow> (st_changed a, status_key a) < (st_changed b, status_key b)"
  by (auto simp: compare_age_def status_key_def less_turn_key_def)

section \<open>The store\<close>

definition max_outcomes :: nat where "max_outcomes = 4096"

type_synonym turn_store = "(turn_key \<times> status) list"

definition new_store :: turn_store where "new_store = []"

text \<open>
  \<open>oldest\<close> is the loop of \<^verbatim>\<open>oldestLocked\<close>: the candidate is replaced by the first
  entry, then by every entry that compares as older. The zero status of an empty store is
  never reached: eviction runs at the cap only.
\<close>

definition zero_status :: status where
  "zero_status = \<lparr>st_agent = [], st_session = [], st_gateway = [], st_runtime = [],
     st_state = StateUnknown, st_attention = [], st_started = zero_time, st_changed = zero_time,
     st_stop_reason = []\<rparr>"

primrec oldest_from :: "status option \<Rightarrow> (turn_key \<times> status) list \<Rightarrow> status option" where
  "oldest_from best [] = best"
| "oldest_from best (e # es) =
     oldest_from (case best of None \<Rightarrow> Some (snd e)
       | Some b \<Rightarrow> if compare_age (snd e) b < 0 then Some (snd e) else Some b) es"

definition oldest :: "turn_store \<Rightarrow> turn_key" where
  "oldest s = status_key (case oldest_from None s of None \<Rightarrow> zero_status | Some b \<Rightarrow> b)"

definition record_turn :: "turn_store \<Rightarrow> status \<Rightarrow> turn_store" where
  "record_turn s st0 =
     (let st = st0\<lparr>st_attention := []\<rparr>; k = status_key st in
      case map_of s k of
        Some old \<Rightarrow> if st_started st < st_started old then s else AList.update k st s
      | None \<Rightarrow> AList.update k st
          (if max_outcomes \<le> length s then AList.delete (oldest s) s else s))"

text \<open>
  \<open>snapshot_turns\<close> appends the stored outcomes whose chat is not running to the live turns and sorts
  by key. \<open>sort_key\<close> is a stable sort; keys in the result are distinct, so the order of equal
  elements, which \<^verbatim>\<open>slices.SortFunc\<close> leaves open, does not arise.
\<close>

definition snapshot_turns :: "turn_store \<Rightarrow> status list \<Rightarrow> status list" where
  "snapshot_turns s live =
     (let running = map status_key live;
          stored = map snd (filter (\<lambda>(k, st). k \<notin> set running) s)
      in sort_key status_key (live @ stored))"

section \<open>Well-formed stores\<close>

definition store_wf :: "turn_store \<Rightarrow> bool" where
  "store_wf s \<longleftrightarrow> keys_distinct s \<and> length s \<le> max_outcomes \<and>
     (\<forall>(k, st) \<in> set s. k = status_key st \<and> st_attention st = [])"

lemma status_key_attention [simp]: "status_key (st\<lparr>st_attention := a\<rparr>) = status_key st"
  by (simp add: status_key_def)

lemma store_wf_new: "store_wf new_store"
  by (simp add: store_wf_def new_store_def)

lemma oldest_from_mem:
  "oldest_from b es = Some m \<Longrightarrow> Some m = b \<or> m \<in> snd ` set es"
  by (induction es arbitrary: b) (fastforce split: option.splits if_splits)+

lemma oldest_from_some: "es \<noteq> [] \<or> b \<noteq> None \<Longrightarrow> \<exists>m. oldest_from b es = Some m"
  by (induction es arbitrary: b) (auto split: option.splits)

definition age_of :: "status \<Rightarrow> gtime \<times> turn_key" where
  "age_of s = (st_changed s, status_key s)"

lemma oldest_from_least:
  "oldest_from b es = Some m \<Longrightarrow>
     (\<forall>x \<in> snd ` set es. age_of m \<le> age_of x) \<and> (\<forall>x. b = Some x \<longrightarrow> age_of m \<le> age_of x)"
proof (induction es arbitrary: b)
  case Nil
  then show ?case by simp
next
  case (Cons e es)
  let ?b = "case b of None \<Rightarrow> Some (snd e)
    | Some b \<Rightarrow> if compare_age (snd e) b < 0 then Some (snd e) else Some b"
  from Cons.prems have m: "oldest_from ?b es = Some m" by simp
  have "?b \<noteq> None" by (simp split: option.split)
  then obtain c where c: "?b = Some c" by blast
  from Cons.IH [OF m] have ih: "\<forall>x \<in> snd ` set es. age_of m \<le> age_of x" and mc: "age_of m \<le> age_of c"
    using c by auto
  have "age_of c \<le> age_of (snd e) \<and> (\<forall>x. b = Some x \<longrightarrow> age_of c \<le> age_of x)"
    using c by (cases b) (auto simp: age_of_def split: if_splits)
  with ih mc show ?case by (auto intro: order_trans)
qed

lemma oldest_is_key:
  assumes "store_wf s" and "s \<noteq> []"
  shows "\<exists>st. map_of s (oldest s) = Some st \<and> status_key st = oldest s \<and>
           (\<forall>(k, x) \<in> set s. age_of st \<le> age_of x)"
proof -
  from assms(2) obtain m where m: "oldest_from None s = Some m"
    using oldest_from_some [of s None] by auto
  then have mem: "m \<in> snd ` set s" using oldest_from_mem [of None s m] by auto
  then have "(status_key m, m) \<in> set s"
    using assms(1) by (fastforce simp: store_wf_def)
  then have "map_of s (status_key m) = Some m"
    using assms(1) by (auto simp: store_wf_def keys_distinct_def)
  moreover have "oldest s = status_key m" by (simp add: oldest_def m)
  ultimately show ?thesis using oldest_from_least [OF m] by auto
qed

lemma length_record_evict:
  assumes "store_wf s" "max_outcomes \<le> length s"
  shows "length (AList.delete (oldest s) s) < length s"
proof -
  have "s \<noteq> []" using assms(2) by (auto simp: max_outcomes_def)
  with oldest_is_key [OF assms(1)] have "map_of s (oldest s) \<noteq> None" by auto
  then show ?thesis by (rule length_delete_less)
qed

lemma store_wf_record: "store_wf s \<Longrightarrow> store_wf (record_turn s st)"
proof -
  assume wf: "store_wf s"
  let ?st = "st\<lparr>st_attention := []\<rparr>" and ?k = "status_key st"
  have upd: "store_wf (AList.update ?k ?st s')"
    if "store_wf s'" "map_of s' ?k \<noteq> None \<or> length s' < max_outcomes" for s'
    using that set_update_subset [of ?k ?st s']
    by (auto simp: store_wf_def length_update_alist split: if_splits)
  have del: "store_wf (AList.delete k s)" for k
    using wf set_delete_subset [of k s] length_delete_le [of k s] by (auto simp: store_wf_def)
  show ?thesis
    using wf upd [of s] upd [of "AList.delete (oldest s) s"] del length_record_evict [OF wf]
    by (auto simp: record_turn_def Let_def store_wf_def split: option.splits)
qed

interpretation turn_store_machine: invariant_machine record_turn store_wf "\<lambda>_. True"
  by unfold_locales (rule store_wf_record)

section \<open>What the store guarantees\<close>

lemma sum_status_key_update:
  "status_key st = k \<Longrightarrow> map_of (AList.update k st s) = (map_of s)(k \<mapsto> st)"
  by (rule update_conv')

text \<open>
  The reference: the record of a chat that a list of records leaves, when nothing is evicted:
  the last of those with the latest start.
\<close>

definition keep_later :: "status \<Rightarrow> status option \<Rightarrow> status option" where
  "keep_later st acc = (case acc of None \<Rightarrow> Some st
     | Some old \<Rightarrow> if st_started st < st_started old then Some old else Some st)"

primrec latest_of :: "turn_key \<Rightarrow> status option \<Rightarrow> status list \<Rightarrow> status option" where
  "latest_of k acc [] = acc"
| "latest_of k acc (e # es) =
     latest_of k (if status_key e = k then keep_later (e\<lparr>st_attention := []\<rparr>) acc else acc) es"

lemma map_of_record_turn:
  assumes "map_of s (status_key e) \<noteq> None \<or> length s < max_outcomes"
  shows "map_of (record_turn s e) k =
    (if status_key e = k then keep_later (e\<lparr>st_attention := []\<rparr>) (map_of s k) else map_of s k)"
  using assms by (auto simp: record_turn_def keep_later_def Let_def update_conv' split: option.splits)

lemma dom_record_turn:
  assumes "map_of s (status_key e) \<noteq> None \<or> length s < max_outcomes"
  shows "dom (map_of (record_turn s e)) = insert (status_key e) (dom (map_of s))"
proof (rule set_eqI)
  fix k
  show "k \<in> dom (map_of (record_turn s e)) \<longleftrightarrow> k \<in> insert (status_key e) (dom (map_of s))"
    using map_of_record_turn [OF assms, of k]
    by (auto simp: keep_later_def domIff split: option.splits if_splits)
qed

lemma length_card_dom: "keys_distinct m \<Longrightarrow> length m = card (dom (map_of m))"
  unfolding keys_distinct_def dom_map_of_conv_image_fst
  using distinct_card by fastforce

lemma run_record_latest:
  assumes "store_wf s" and "card (dom (map_of s) \<union> status_key ` set es) \<le> max_outcomes"
  shows "map_of (run record_turn s es) k = latest_of k (map_of s k) es"
  using assms
proof (induction es arbitrary: s)
  case Nil
  then show ?case by simp
next
  case (Cons e es)
  let ?D = "dom (map_of s)"
  have fin: "finite (?D \<union> status_key ` set (e # es))" by (simp add: finite_dom_map_of)
  have room: "map_of s (status_key e) \<noteq> None \<or> length s < max_outcomes"
  proof (cases "status_key e \<in> ?D")
    case False
    have "card (insert (status_key e) ?D) \<le> card (?D \<union> status_key ` set (e # es))"
      by (rule card_mono [OF fin]) auto
    with Cons.prems(2) False have "Suc (card ?D) \<le> max_outcomes"
      by (simp add: finite_dom_map_of)
    moreover have "length s = card ?D"
      using Cons.prems(1) by (intro length_card_dom) (simp add: store_wf_def)
    ultimately show ?thesis by simp
  qed (auto simp: domIff)
  have "dom (map_of (record_turn s e)) \<union> status_key ` set es = ?D \<union> status_key ` set (e # es)"
    by (auto simp: dom_record_turn [OF room])
  with Cons.IH [OF store_wf_record [OF Cons.prems(1)], of e] Cons.prems(2) map_of_record_turn [OF room, of k]
  show ?case by simp
qed

lemma latest_of_from_records:
  "latest_of k acc es = Some st \<Longrightarrow>
     acc = Some st \<or> (\<exists>e \<in> set es. status_key e = k \<and> st = e\<lparr>st_attention := []\<rparr>)"
  by (induction es arbitrary: acc)
    (fastforce simp: keep_later_def split: option.splits if_splits)+

lemma latest_of_acc_mono:
  "acc = Some a \<Longrightarrow> \<exists>st. latest_of k acc es = Some st \<and> st_started a \<le> st_started st"
proof (induction es arbitrary: acc a)
  case Nil
  then show ?case by simp
next
  case (Cons e es)
  show ?case
  proof (cases "status_key e = k \<and> \<not> st_started e < st_started a")
    case True
    with Cons.prems Cons.IH [of "Some (e\<lparr>st_attention := []\<rparr>)" "e\<lparr>st_attention := []\<rparr>"]
    show ?thesis by (auto simp: keep_later_def intro: order_trans)
  next
    case False
    with Cons.prems Cons.IH [of "Some a" a] show ?thesis by (auto simp: keep_later_def)
  qed
qed

lemma latest_of_bound:
  "e \<in> set es \<Longrightarrow> status_key e = k \<Longrightarrow>
     \<exists>st. latest_of k acc es = Some st \<and> st_started e \<le> st_started st"
proof (induction es arbitrary: acc)
  case Nil
  then show ?case by simp
next
  case (Cons x es)
  show ?case
  proof (cases "x = e")
    case True
    have "\<exists>b. keep_later (e\<lparr>st_attention := []\<rparr>) acc = Some b \<and> st_started e \<le> st_started b"
      by (cases acc) (auto simp: keep_later_def)
    then obtain b where b: "keep_later (e\<lparr>st_attention := []\<rparr>) acc = Some b" "st_started e \<le> st_started b"
      by blast
    from latest_of_acc_mono [OF b(1), of k es] b(2) True Cons.prems(2) show ?thesis
      by (auto simp: b(1))
  next
    case False
    with Cons show ?thesis by simp
  qed
qed

text \<open>Eviction: a new chat at the cap takes the place of the outcome changed longest ago.\<close>

lemma record_at_cap:
  assumes "store_wf s" "length s = max_outcomes" "map_of s (status_key st) = None"
  shows "map_of (record_turn s st) =
           ((map_of s)(oldest s := None))(status_key st \<mapsto> st\<lparr>st_attention := []\<rparr>)"
  using assms by (simp add: record_turn_def Let_def update_conv' delete_conv')

lemma distinct_map_sort_key: "distinct (map f xs) \<Longrightarrow> distinct (map f (sort_key f xs))"
  by (simp add: distinct_map)

lemma distinct_snapshot_keys:
  assumes "keys_distinct s" "\<forall>(k, st) \<in> set s. k = status_key st" "distinct (map status_key live)"
  shows "distinct (map status_key (snapshot_turns s live))"
proof -
  let ?stored = "filter (\<lambda>(k, st). k \<notin> set (map status_key live)) s"
  have eq: "map status_key (map snd ?stored) = map fst ?stored"
    using assms(2) by auto
  have "distinct (map fst ?stored)"
    using keys_distinct_filter [OF assms(1)] by (simp add: keys_distinct_def)
  moreover have "set (map fst ?stored) \<inter> set (map status_key live) = {}" by auto
  ultimately have "distinct (map status_key live @ map status_key (map snd ?stored))"
    using assms(3) unfolding eq by auto
  then have "distinct (map status_key (live @ map snd ?stored))" by simp
  then have "distinct (map status_key (sort_key status_key (live @ map snd ?stored)))"
    by (rule distinct_map_sort_key)
  then show ?thesis by (simp add: snapshot_turns_def Let_def)
qed

lemma set_snapshot:
  "set (snapshot_turns s live) =
     set live \<union> {st. \<exists>k. (k, st) \<in> set s \<and> k \<notin> status_key ` set live}"
  by (force simp: snapshot_turns_def Let_def)

lemma sorted_snapshot: "sorted (map status_key (snapshot_turns s live))"
  by (simp add: snapshot_turns_def Let_def)

section \<open>Properties\<close>

text \<open>
  Whatever sequence of outcomes is recorded, the store never holds more than 4096 of them, has one
  entry per chat, and every entry is filed under its own key with an empty attention list.
\<close>

theorem turn_store_bounded:
  "length (run record_turn new_store es) \<le> 4096 \<and>
   distinct (map fst (run record_turn new_store es)) \<and>
   list_all (\<lambda>(k, st). k = status_key st \<and> st_attention st = []) (run record_turn new_store es)"
proof -
  have "store_wf (run record_turn new_store es)"
    by (rule turn_store_machine.run_inv [OF store_wf_new]) (simp add: list_all_iff)
  then show ?thesis by (auto simp: store_wf_def keys_distinct_def max_outcomes_def list_all_iff)
qed

text \<open>
  A late reply never hides a newer outcome: while at most 4096 chats have finished a turn, the store
  answers for each chat one of the outcomes recorded for it, and none of them started later.
\<close>

theorem turn_store_keeps_latest_start:
  assumes "card (status_key ` set es) \<le> 4096" and "e \<in> set es"
  shows "\<exists>st e'. map_of (run record_turn new_store es) (status_key e) = Some st \<and>
           e' \<in> set es \<and> status_key e' = status_key e \<and> st = e'\<lparr>st_attention := []\<rparr> \<and>
           st_started e \<le> st_started st"
proof -
  have eq: "map_of (run record_turn new_store es) k = latest_of k None es" for k
    using run_record_latest [OF store_wf_new, of es k] assms(1) by (simp add: new_store_def max_outcomes_def)
  from latest_of_bound [OF assms(2) refl] obtain st where
    st: "latest_of (status_key e) None es = Some st" "st_started e \<le> st_started st" by blast
  from latest_of_from_records [OF st(1)] st eq show ?thesis by auto
qed

definition example_status :: "string \<Rightarrow> gtime \<Rightarrow> status" where
  "example_status chat t = zero_status\<lparr>st_session := chat, st_started := t, st_changed := t + 5\<rparr>"

theorem turn_store_keeps_latest_start_witness:
  "\<exists>st e'. map_of (run record_turn new_store [example_status ''a'' 20, example_status ''a'' 10])
      (status_key (example_status ''a'' 10)) = Some st \<and>
    e' \<in> set [example_status ''a'' 20, example_status ''a'' 10] \<and>
    status_key e' = status_key (example_status ''a'' 10) \<and> st = e'\<lparr>st_attention := []\<rparr> \<and>
    st_started (example_status ''a'' 10) \<le> st_started st"
proof (rule turn_store_keeps_latest_start)
  show "card (status_key ` set [example_status ''a'' 20, example_status ''a'' 10]) \<le> 4096"
    by (simp add: example_status_def zero_status_def status_key_def)
qed simp

text \<open>
  At the cap, recording a new chat removes exactly the outcome changed longest ago (ties by key) and
  keeps every other one.
\<close>

theorem turn_store_evicts_oldest:
  assumes "store_wf s" "length s = 4096" "map_of s (status_key st) = None"
  shows "\<exists>old. map_of s (status_key old) = Some old \<and> list_all (\<lambda>(k, x). age_of old \<le> age_of x) s \<and>
           map_of (record_turn s st) =
             ((map_of s)(status_key old := None))(status_key st \<mapsto> st\<lparr>st_attention := []\<rparr>)"
proof -
  have cap: "length s = max_outcomes" using assms(2) by (simp add: max_outcomes_def)
  then have "s \<noteq> []" by (auto simp: max_outcomes_def)
  from oldest_is_key [OF assms(1) this] obtain old where
    "map_of s (oldest s) = Some old" "status_key old = oldest s" "\<forall>(k, x) \<in> set s. age_of old \<le> age_of x"
    by blast
  with record_at_cap [OF assms(1) cap assms(3)] show ?thesis
    by (intro exI [of _ old]) (auto simp: list_all_iff)
qed

definition full_store :: turn_store where
  "full_store = map (\<lambda>i. let st = example_status (replicate i CHR ''a'') (int i)
     in (status_key st, st)) [0..<4096]"

lemma full_store_wf: "store_wf full_store"
proof -
  have "inj_on (\<lambda>i. TurnKey [] [] (replicate i CHR ''a'')) {0..<4096}"
    by (rule inj_onI) (metis length_replicate turn_key.inject)
  then have "keys_distinct full_store"
    by (simp add: keys_distinct_def full_store_def Let_def comp_def distinct_map status_key_def
        example_status_def zero_status_def)
  then show ?thesis
    by (auto simp: store_wf_def full_store_def Let_def max_outcomes_def example_status_def zero_status_def)
qed

theorem turn_store_evicts_oldest_witness:
  "\<exists>old. map_of full_store (status_key old) = Some old \<and>
     list_all (\<lambda>(k, x). age_of old \<le> age_of x) full_store \<and>
     map_of (record_turn full_store (example_status ''b'' 9000)) =
       ((map_of full_store)(status_key old := None))
         (status_key (example_status ''b'' 9000) \<mapsto> (example_status ''b'' 9000)\<lparr>st_attention := []\<rparr>)"
proof (rule turn_store_evicts_oldest [OF full_store_wf])
  show "length full_store = 4096" by (simp add: full_store_def)
  have "TurnKey [] [] ''b'' \<noteq> TurnKey [] [] (replicate i CHR ''a'')" for i
    by (cases i) auto
  then show "map_of full_store (status_key (example_status ''b'' 9000)) = None"
    by (auto simp: map_of_eq_None_iff full_store_def Let_def status_key_def example_status_def zero_status_def)
qed

text \<open>
  The snapshot holds every live turn and every stored outcome whose chat is not running, each chat
  once, in the order of agent, session and gateway session.
\<close>

theorem snapshot_merges_live_over_stored:
  assumes "store_wf s" and "distinct (map status_key live)"
  shows "sorted (map status_key (snapshot_turns s live)) \<and>
         distinct (map status_key (snapshot_turns s live)) \<and>
         set (snapshot_turns s live) =
           set live \<union> {st. map_of s (status_key st) = Some st \<and> status_key st \<notin> status_key ` set live}"
proof -
  have "(k, st) \<in> set s \<longleftrightarrow> map_of s k = Some st \<and> k = status_key st" for k st
    using assms(1) by (auto simp: store_wf_def keys_distinct_def dest: map_of_SomeD)
  then show ?thesis
    using assms distinct_snapshot_keys [of s live] sorted_snapshot [of s live]
    by (auto simp: store_wf_def set_snapshot)
qed

theorem snapshot_merges_live_over_stored_witness:
  "sorted (map status_key (snapshot_turns full_store [example_status ''a'' 7])) \<and>
   distinct (map status_key (snapshot_turns full_store [example_status ''a'' 7])) \<and>
   set (snapshot_turns full_store [example_status ''a'' 7]) =
     set [example_status ''a'' 7] \<union> {st. map_of full_store (status_key st) = Some st \<and>
       status_key st \<notin> status_key ` set [example_status ''a'' 7]}"
  by (rule snapshot_merges_live_over_stored [OF full_store_wf]) simp

end
