(* ===== verification/Turn_Feed.thy ===== *)
theory Turn_Feed
  imports Turn_Store
begin

text \<open>
  \<^verbatim>\<open>internal/turns/feed.go\<close>: the feed behind \<^verbatim>\<open>GET /v1/turns/stream\<close>. Its single goroutine \<^verbatim>\<open>Run\<close>
  is \<open>feed_step\<close>, one event per case of its \<^verbatim>\<open>select\<close>; a snapshot taken from the session layer is an
  argument of the event that samples it. A subscription's channel is a list bounded by
  \<open>max_queued_changes\<close>; pointers to subscriptions are numbers into \<open>fd_heap\<close>.
\<close>

section \<open>Snapshots and their differences\<close>

record snapshot =
  sn_at :: gtime
  sn_turns :: "status list"

record change =
  ch_at :: gtime
  ch_upserts :: "status list"
  ch_removed :: "turn_key list"

definition same_status :: "status \<Rightarrow> status \<Rightarrow> bool" where
  "same_status a b \<longleftrightarrow>
     st_agent a = st_agent b \<and> st_session a = st_session b \<and>
     st_gateway a = st_gateway b \<and> st_runtime a = st_runtime b \<and>
     st_state a = st_state b \<and> st_stop_reason a = st_stop_reason b \<and>
     st_started a = st_started b \<and> st_changed a = st_changed b \<and>
     st_attention a = st_attention b"

text \<open>The maps \<^verbatim>\<open>previous\<close> and \<^verbatim>\<open>present\<close> are filled in list order, so a later entry wins.\<close>

definition turns_map :: "status list \<Rightarrow> (turn_key \<rightharpoonup> status)" where
  "turns_map sts = fold (\<lambda>st m. m(status_key st \<mapsto> st)) sts Map.empty"

definition diff_turns :: "status list \<Rightarrow> snapshot \<Rightarrow> change" where
  "diff_turns last_turns next_snap =
     (let previous = turns_map last_turns; present = status_key ` set (sn_turns next_snap) in
      \<lparr>ch_at = sn_at next_snap,
       ch_upserts = filter (\<lambda>st. case previous (status_key st) of None \<Rightarrow> True
          | Some old \<Rightarrow> \<not> same_status old st) (sn_turns next_snap),
       ch_removed = map status_key (filter (\<lambda>st. status_key st \<notin> present) last_turns)\<rparr>)"

definition change_empty :: "change \<Rightarrow> bool" where
  "change_empty ch \<longleftrightarrow> ch_upserts ch = [] \<and> ch_removed ch = []"

section \<open>The feed\<close>

definition max_subscriptions :: nat where "max_subscriptions = 256"
definition max_streams_per_device :: nat where "max_streams_per_device = 4"
definition max_queued_changes :: nat where "max_queued_changes = 16"

datatype feed_error = ErrBusy | ErrSlowConsumer | ErrSuperseded | ErrStopped | ErrContext

record subscription =
  sub_device :: string
  sub_changes :: "change list"
  sub_closed :: bool
  sub_pending :: bool
  sub_active :: bool
  sub_base :: "status list"
  sub_err :: "feed_error option"

definition zero_sub :: subscription where
  "zero_sub = \<lparr>sub_device = [], sub_changes = [], sub_closed = False, sub_pending = False,
     sub_active = False, sub_base = [], sub_err = None\<rparr>"

text \<open>
  \<open>fd_by_device\<close> reads the empty list where the Go map has no entry: the code deletes an entry whose
  list becomes empty. \<open>fd_done\<close> says that \<^verbatim>\<open>Run\<close> has returned, \<open>fd_blocked\<close> that it hangs in a channel
  send that found no room.
\<close>

record feed =
  fd_changed :: bool
  fd_window :: bool
  fd_done :: bool
  fd_blocked :: bool
  fd_last :: "status list"
  fd_last_at :: gtime
  fd_subs :: "nat list"
  fd_by_device :: "string \<Rightarrow> nat list"
  fd_heap :: "nat \<Rightarrow> subscription"
  fd_next :: nat
  fd_subscribers :: int
  fd_samples :: nat
  fd_pokes :: nat
  fd_last_sample_at :: gtime

definition new_feed :: feed where
  "new_feed = \<lparr>fd_changed = False, fd_window = False, fd_done = False, fd_blocked = False,
     fd_last = [], fd_last_at = zero_time, fd_subs = [], fd_by_device = (\<lambda>_. []),
     fd_heap = (\<lambda>_. zero_sub), fd_next = 0, fd_subscribers = 0, fd_samples = 0, fd_pokes = 0,
     fd_last_sample_at = 0\<rparr>"

definition set_sub :: "nat \<Rightarrow> subscription \<Rightarrow> feed \<Rightarrow> feed" where
  "set_sub i sub f = f\<lparr>fd_heap := (fd_heap f)(i := sub)\<rparr>"

definition end_sub :: "nat \<Rightarrow> feed_error option \<Rightarrow> feed \<Rightarrow> feed" where
  "end_sub i err f =
     (if i \<notin> set (fd_subs f) then f
      else
        let sub = fd_heap f i;
            f1 = f\<lparr>fd_subs := remove1 i (fd_subs f), fd_subscribers := fd_subscribers f - 1\<rparr>;
            f2 = (if sub_active sub
                  then f1\<lparr>fd_by_device := (fd_by_device f1)(sub_device sub :=
                         filter (\<lambda>j. j \<noteq> i) (fd_by_device f1 (sub_device sub)))\<rparr>
                  else f1);
            f3 = set_sub i (sub\<lparr>sub_pending := False, sub_active := False, sub_base := [],
                   sub_err := err, sub_changes := [], sub_closed := True\<rparr>) f2
        in if fd_subs f3 = [] then f3\<lparr>fd_last := [], fd_last_at := zero_time\<rparr> else f3)"

definition publish :: "change \<Rightarrow> nat \<Rightarrow> feed \<Rightarrow> feed" where
  "publish ch i f =
     (let sub = fd_heap f i in
      if \<not> sub_active sub then f
      else if length (sub_changes sub) < max_queued_changes
        then set_sub i (sub\<lparr>sub_changes := sub_changes sub @ [ch]\<rparr>) f
        else end_sub i (Some ErrSlowConsumer) f)"

definition sample :: "snapshot \<Rightarrow> feed \<Rightarrow> feed" where
  "sample snap f =
     (let ch = diff_turns (fd_last f) snap;
          f1 = f\<lparr>fd_last := sn_turns snap, fd_last_at := sn_at snap,
                 fd_samples := Suc (fd_samples f), fd_last_sample_at := sn_at snap\<rparr>
      in if change_empty ch then f1 else fold (publish ch) (fd_subs f1) f1)"

definition serve_subscribe ::
  "bool \<Rightarrow> string \<Rightarrow> snapshot \<Rightarrow> feed \<Rightarrow> feed \<times> (feed_error + snapshot \<times> nat)" where
  "serve_subscribe cancelled device snap f =
     (if cancelled then (f, Inl ErrContext)
      else if max_subscriptions \<le> length (fd_subs f) then (f, Inl ErrBusy)
      else
        let f1 = sample snap f; i = fd_next f1;
            sub = zero_sub\<lparr>sub_device := device, sub_pending := True, sub_base := sn_turns snap\<rparr>
        in ((set_sub i sub f1)\<lparr>fd_subs := fd_subs f1 @ [i], fd_next := Suc i,
               fd_subscribers := fd_subscribers f1 + 1\<rparr>, Inr (snap, i)))"

text \<open>A send on a full channel would block \<^verbatim>\<open>Run\<close>: the \<open>fd_blocked\<close> branch.\<close>

definition serve_ready :: "nat \<Rightarrow> feed \<Rightarrow> feed" where
  "serve_ready i f =
     (let sub = fd_heap f i in
      if i \<notin> set (fd_subs f) \<or> \<not> sub_pending sub then f
      else
        let ch = diff_turns (sub_base sub) \<lparr>sn_at = fd_last_at f, sn_turns = fd_last f\<rparr>;
            sub1 = sub\<lparr>sub_base := [], sub_pending := False, sub_active := True\<rparr>
        in if \<not> change_empty ch \<and> \<not> length (sub_changes sub1) < max_queued_changes
           then (set_sub i sub1 f)\<lparr>fd_blocked := True\<rparr>
           else
             let sub2 = (if change_empty ch then sub1
                         else sub1\<lparr>sub_changes := sub_changes sub1 @ [ch]\<rparr>);
                 d = sub_device sub;
                 f1 = set_sub i sub2 f;
                 f2 = f1\<lparr>fd_by_device := (fd_by_device f1)(d := fd_by_device f1 d @ [i])\<rparr>;
                 streams = fd_by_device f2 d
             in if max_streams_per_device < length streams
                then end_sub (hd streams) (Some ErrSuperseded) f2 else f2)"

definition serve_close :: "nat \<Rightarrow> feed \<Rightarrow> feed" where
  "serve_close i f = end_sub i None f"

definition serve_poke :: "feed \<Rightarrow> feed" where
  "serve_poke f0 =
     (let f = f0\<lparr>fd_changed := False, fd_pokes := Suc (fd_pokes f0)\<rparr> in
      if fd_subs f = [] then f\<lparr>fd_last := [], fd_last_at := zero_time\<rparr>
      else f\<lparr>fd_window := True\<rparr>)"

definition stop_run :: "feed \<Rightarrow> feed" where
  "stop_run f = (fold (\<lambda>i. end_sub i (Some ErrStopped)) (fd_subs f) f)\<lparr>fd_done := True\<rparr>"

text \<open>
  The events: \<open>Poke\<close> is \<^verbatim>\<open>Changed\<close>, called from anywhere; \<open>Receive\<close> is a stream handler taking the next
  change from its channel; the others are the cases of \<^verbatim>\<open>Run\<close>'s \<^verbatim>\<open>select\<close>.
\<close>

datatype feed_event =
    Poke
  | Receive nat
  | ServePoke
  | WindowFires snapshot
  | BackstopFires snapshot
  | SubscribeReq bool string snapshot
  | ReadyReq nat
  | CloseReq nat
  | StopRun

fun run_step :: "feed \<Rightarrow> feed_event \<Rightarrow> feed" where
  "run_step f ServePoke = (if fd_changed f then serve_poke f else f)"
| "run_step f (WindowFires snap) =
     (if fd_window f then sample snap (f\<lparr>fd_window := False\<rparr>) else f)"
| "run_step f (BackstopFires snap) = (if fd_subs f \<noteq> [] then sample snap f else f)"
| "run_step f (SubscribeReq cancelled device snap) = fst (serve_subscribe cancelled device snap f)"
| "run_step f (ReadyReq i) = serve_ready i f"
| "run_step f (CloseReq i) = serve_close i f"
| "run_step f StopRun = stop_run f"
| "run_step f _ = f"

fun feed_step :: "feed \<Rightarrow> feed_event \<Rightarrow> feed" where
  "feed_step f Poke = f\<lparr>fd_changed := True\<rparr>"
| "feed_step f (Receive i) =
     set_sub i ((fd_heap f i)\<lparr>sub_changes := tl (sub_changes (fd_heap f i))\<rparr>) f"
| "feed_step f e = (if fd_done f \<or> fd_blocked f then f else run_step f e)"

section \<open>Correctness of the difference\<close>

lemma same_status_iff [simp]: "same_status a b \<longleftrightarrow> a = b"
  by (cases a; cases b) (auto simp: same_status_def)

text \<open>What a client does with a change (docs/api.md): apply \<^verbatim>\<open>removed\<close>, then \<^verbatim>\<open>upserts\<close>.\<close>

definition apply_change :: "change \<Rightarrow> (turn_key \<rightharpoonup> status) \<Rightarrow> (turn_key \<rightharpoonup> status)" where
  "apply_change ch m =
     fold (\<lambda>st m. m(status_key st \<mapsto> st)) (ch_upserts ch) (fold (\<lambda>k m. m(k := None)) (ch_removed ch) m)"

abbreviation apply_changes :: "change list \<Rightarrow> (turn_key \<rightharpoonup> status) \<Rightarrow> (turn_key \<rightharpoonup> status)" where
  "apply_changes \<equiv> fold apply_change"

lemma fold_upsert_empty:
  "fold (\<lambda>st m. m(status_key st \<mapsto> st)) sts m =
     m ++ fold (\<lambda>st m. m(status_key st \<mapsto> st)) sts Map.empty"
proof (induction sts arbitrary: m)
  case Nil
  show ?case by simp
next
  case (Cons st sts)
  let ?F = "\<lambda>m. fold (\<lambda>st m. m(status_key st \<mapsto> st)) sts m"
  have "?F (m(status_key st \<mapsto> st)) = m(status_key st \<mapsto> st) ++ ?F Map.empty" by (rule Cons.IH)
  also have "\<dots> = m ++ ([status_key st \<mapsto> st] ++ ?F Map.empty)" by simp
  also have "[status_key st \<mapsto> st] ++ ?F Map.empty = ?F [status_key st \<mapsto> st]" by (rule Cons.IH [symmetric])
  finally show ?case by (simp only: fold_Cons comp_apply)
qed

lemma fold_upsert: "fold (\<lambda>st m. m(status_key st \<mapsto> st)) sts m = m ++ turns_map sts"
  unfolding turns_map_def by (rule fold_upsert_empty)

lemma fold_remove: "fold (\<lambda>k m. m(k := None)) ks m = m |` (- set ks)"
  by (induction ks arbitrary: m) (auto simp: restrict_map_def fun_eq_iff)

lemma turns_map_Some_mem: "turns_map sts k = Some st \<Longrightarrow> st \<in> set sts \<and> status_key st = k"
proof (induction sts)
  case (Cons x sts)
  then show ?case
    using fold_upsert [of sts "[status_key x \<mapsto> x]"]
    by (auto simp: turns_map_def map_add_Some_iff split: if_splits)
qed (simp add: turns_map_def)

lemma turns_map_None: "turns_map sts k = None \<longleftrightarrow> k \<notin> status_key ` set sts"
proof (induction sts)
  case (Cons x sts)
  then show ?case
    using fold_upsert [of sts "[status_key x \<mapsto> x]"] by (auto simp: turns_map_def)
qed (simp add: turns_map_def)

lemma turns_map_distinct:
  "distinct (map status_key sts) \<Longrightarrow> turns_map sts k = Some st \<longleftrightarrow> st \<in> set sts \<and> status_key st = k"
  using turns_map_Some_mem [of sts k] turns_map_None [of sts k]
  by (cases "turns_map sts k") (auto simp: distinct_map inj_on_def)

lemma set_removed:
  "set (ch_removed (diff_turns last_turns next_snap)) =
     status_key ` set last_turns - status_key ` set (sn_turns next_snap)"
  by (auto simp: diff_turns_def Let_def)

lemma apply_diff_turns:
  assumes "distinct (map status_key (sn_turns next_snap))"
  shows "apply_change (diff_turns last_turns next_snap) (turns_map last_turns) = turns_map (sn_turns next_snap)"
proof (rule ext)
  fix k
  let ?N = "sn_turns next_snap" and ?ch = "diff_turns last_turns next_snap"
  have dist_up: "distinct (map status_key (ch_upserts ?ch))"
    using assms by (simp add: diff_turns_def distinct_map_filter)
  have eq: "apply_change ?ch (turns_map last_turns) k =
    (turns_map last_turns |` (- set (ch_removed ?ch)) ++ turns_map (ch_upserts ?ch)) k"
    by (simp add: apply_change_def fold_upsert fold_remove)
  show "apply_change ?ch (turns_map last_turns) k = turns_map ?N k"
  proof (cases "turns_map ?N k")
    case None
    then have notin: "k \<notin> status_key ` set ?N" by (simp add: turns_map_None)
    then have "turns_map (ch_upserts ?ch) k = None"
      by (auto simp: turns_map_None diff_turns_def)
    moreover have "k \<in> set (ch_removed ?ch) \<or> turns_map last_turns k = None"
      using notin by (auto simp: set_removed turns_map_None)
    ultimately show ?thesis using None by (auto simp: eq map_add_def restrict_map_def)
  next
    case (Some st)
    then have st: "st \<in> set ?N" "status_key st = k" by (auto simp: turns_map_distinct [OF assms])
    then have "k \<in> status_key ` set ?N" by blast
    then have kept: "k \<notin> set (ch_removed ?ch)" by (simp add: set_removed)
    show ?thesis
    proof (cases "turns_map last_turns k = Some st")
      case True
      have "turns_map (ch_upserts ?ch) k = None"
      proof (cases "turns_map (ch_upserts ?ch) k")
        case (Some x)
        then have x: "x \<in> set (ch_upserts ?ch)" "status_key x = k" using turns_map_Some_mem by blast+
        then have "x \<in> set ?N" by (simp add: diff_turns_def)
        with x(2) have "turns_map ?N k = Some x" by (simp add: turns_map_distinct [OF assms])
        with \<open>turns_map ?N k = Some st\<close> have "x = st" by simp
        with x True show ?thesis by (simp add: diff_turns_def)
      qed simp
      with True kept Some show ?thesis by (simp add: eq map_add_def)
    next
      case False
      then have "st \<in> set (ch_upserts ?ch)" using st by (auto simp: diff_turns_def split: option.split)
      then have "turns_map (ch_upserts ?ch) k = Some st" using st dist_up by (simp add: turns_map_distinct)
      with Some show ?thesis by (simp add: eq map_add_def)
    qed
  qed
qed

lemma apply_empty_change: "change_empty ch \<Longrightarrow> apply_change ch m = m"
  by (simp add: change_empty_def apply_change_def)

end
