(* ===== verification/Turn_Feed_Proofs.thy ===== *)
theory Turn_Feed_Proofs
  imports Turn_Feed
begin

text \<open>
  The feed's invariants and what a stream client can rely on: bounded subscriptions, streams and
  queues, a \<^verbatim>\<open>Run\<close> goroutine that never blocks on a send, and convergence: a client that applies
  every change of its channel to its snapshot holds what the feed last published.
\<close>

section \<open>The fields each operation writes\<close>

named_theorems feed_fields "effect of a feed operation on one field"

lemma set_sub_fields [feed_fields]:
  "fd_heap (set_sub i s f) = (fd_heap f)(i := s)"
  "fd_subs (set_sub i s f) = fd_subs f"
  "fd_by_device (set_sub i s f) = fd_by_device f"
  "fd_last (set_sub i s f) = fd_last f"
  "fd_last_at (set_sub i s f) = fd_last_at f"
  "fd_next (set_sub i s f) = fd_next f"
  "fd_blocked (set_sub i s f) = fd_blocked f"
  "fd_done (set_sub i s f) = fd_done f"
  "fd_window (set_sub i s f) = fd_window f"
  "fd_subscribers (set_sub i s f) = fd_subscribers f"
  by (simp_all add: set_sub_def)

definition ended_sub :: "feed_error option \<Rightarrow> subscription \<Rightarrow> subscription" where
  "ended_sub err s = s\<lparr>sub_pending := False, sub_active := False, sub_base := [], sub_err := err,
     sub_changes := [], sub_closed := True\<rparr>"

lemma end_sub_fields [feed_fields]:
  "fd_subs (end_sub i err f) = remove1 i (fd_subs f)"
  "fd_heap (end_sub i err f) =
     (if i \<in> set (fd_subs f) then (fd_heap f)(i := ended_sub err (fd_heap f i)) else fd_heap f)"
  "fd_by_device (end_sub i err f) =
     (if i \<in> set (fd_subs f) \<and> sub_active (fd_heap f i)
      then (fd_by_device f)(sub_device (fd_heap f i) :=
             filter (\<lambda>j. j \<noteq> i) (fd_by_device f (sub_device (fd_heap f i))))
      else fd_by_device f)"
  "fd_last (end_sub i err f) =
     (if i \<in> set (fd_subs f) \<and> remove1 i (fd_subs f) = [] then [] else fd_last f)"
  "fd_last_at (end_sub i err f) =
     (if i \<in> set (fd_subs f) \<and> remove1 i (fd_subs f) = [] then zero_time else fd_last_at f)"
  "fd_next (end_sub i err f) = fd_next f"
  "fd_blocked (end_sub i err f) = fd_blocked f"
  "fd_done (end_sub i err f) = fd_done f"
  "fd_window (end_sub i err f) = fd_window f"
  "fd_subscribers (end_sub i err f) =
     (if i \<in> set (fd_subs f) then fd_subscribers f - 1 else fd_subscribers f)"
  by (simp_all add: end_sub_def Let_def set_sub_def ended_sub_def remove1_idem fun_eq_iff)

lemma ended_sub_fields [simp]:
  "sub_pending (ended_sub e s) = False" "sub_active (ended_sub e s) = False"
  "sub_changes (ended_sub e s) = []" "sub_device (ended_sub e s) = sub_device s"
  "sub_closed (ended_sub e s) = True" "sub_err (ended_sub e s) = e" "sub_base (ended_sub e s) = []"
  by (simp_all add: ended_sub_def)

section \<open>The structural invariant\<close>

definition live_sub_ok :: "subscription \<Rightarrow> bool" where
  "live_sub_ok s \<longleftrightarrow> \<not> sub_closed s \<and> sub_pending s \<noteq> sub_active s \<and>
     length (sub_changes s) \<le> max_queued_changes \<and> (sub_pending s \<longrightarrow> sub_changes s = [])"

definition dead_sub_ok :: "subscription \<Rightarrow> bool" where
  "dead_sub_ok s \<longleftrightarrow> \<not> sub_pending s \<and> \<not> sub_active s \<and> sub_changes s = []"

definition registry_inv :: "feed \<Rightarrow> bool" where
  "registry_inv f \<longleftrightarrow>
     distinct (fd_subs f) \<and> length (fd_subs f) \<le> max_subscriptions \<and>
     fd_subscribers f = int (length (fd_subs f)) \<and> \<not> fd_blocked f \<and>
     (\<forall>i \<in> set (fd_subs f). i < fd_next f \<and> live_sub_ok (fd_heap f i)) \<and>
     (\<forall>i. i \<notin> set (fd_subs f) \<longrightarrow> dead_sub_ok (fd_heap f i)) \<and>
     (\<forall>d. distinct (fd_by_device f d) \<and>
        set (fd_by_device f d) =
          {i \<in> set (fd_subs f). sub_active (fd_heap f i) \<and> sub_device (fd_heap f i) = d})"

definition device_bound :: "feed \<Rightarrow> bool" where
  "device_bound f \<longleftrightarrow> (\<forall>d. length (fd_by_device f d) \<le> max_streams_per_device)"

lemma registry_inv_new: "registry_inv new_feed \<and> device_bound new_feed"
  by (simp add: registry_inv_def device_bound_def new_feed_def dead_sub_ok_def zero_sub_def)

lemma registry_end_sub:
  assumes "registry_inv f"
  shows "registry_inv (end_sub i err f)"
proof -
  have len: "i \<in> set (fd_subs f) \<Longrightarrow> int (length (remove1 i (fd_subs f))) = int (length (fd_subs f)) - 1"
    using length_pos_if_in_set [of i "fd_subs f"]
    by (cases "length (fd_subs f)") (auto simp: length_remove1)
  have "length (remove1 i (fd_subs f)) \<le> length (fd_subs f)" by (simp add: length_remove1)
  moreover have "set (remove1 i (fd_subs f)) = set (fd_subs f) - {i}"
    using assms by (simp add: registry_inv_def set_remove1_eq)
  ultimately show ?thesis
    using assms len
    by (auto simp: registry_inv_def feed_fields dead_sub_ok_def remove1_idem)
qed

lemma device_bound_end_sub: "device_bound f \<Longrightarrow> device_bound (end_sub i err f)"
  unfolding device_bound_def feed_fields
  by (auto intro: le_trans [OF length_filter_le])

lemma registry_set_changes:
  assumes "registry_inv f" "i \<in> set (fd_subs f)" "sub_active (fd_heap f i)"
    "length q \<le> max_queued_changes"
  shows "registry_inv (set_sub i ((fd_heap f i)\<lparr>sub_changes := q\<rparr>) f)"
  using assms by (auto simp: registry_inv_def feed_fields live_sub_ok_def)

lemma registry_publish: "registry_inv f \<Longrightarrow> i \<in> set (fd_subs f) \<Longrightarrow> registry_inv (publish ch i f)"
  by (auto simp: publish_def Let_def intro!: registry_set_changes registry_end_sub)

lemma device_bound_publish: "device_bound f \<Longrightarrow> device_bound (publish ch i f)"
  by (auto simp: publish_def Let_def intro: device_bound_end_sub)
    (simp add: device_bound_def feed_fields)

lemma publish_subs_other:
  "j \<noteq> i \<Longrightarrow> j \<in> set (fd_subs (publish ch i f)) \<longleftrightarrow> j \<in> set (fd_subs f)"
  by (auto simp: publish_def Let_def feed_fields notin_set_remove1)

lemma registry_fold_publish:
  "registry_inv f \<Longrightarrow> distinct is \<Longrightarrow> set is \<subseteq> set (fd_subs f) \<Longrightarrow>
     registry_inv (fold (publish ch) is f)"
proof (induction "is" arbitrary: f)
  case (Cons i "is")
  have "x \<in> set (fd_subs (publish ch i f))" if "x \<in> set is" for x
    using that Cons.prems(2,3) publish_subs_other [of x i ch f] by auto
  then have "set is \<subseteq> set (fd_subs (publish ch i f))" by blast
  with Cons.prems have "registry_inv (fold (publish ch) is (publish ch i f))"
    by (intro Cons.IH registry_publish) auto
  then show ?case by simp
qed simp

lemma device_bound_fold_publish: "device_bound f \<Longrightarrow> device_bound (fold (publish ch) is f)"
  by (induction "is" arbitrary: f) (auto intro: device_bound_publish)

lemma registry_record_fields [simp]:
  "registry_inv (f\<lparr>fd_last := a\<rparr>) = registry_inv f"
  "registry_inv (f\<lparr>fd_last_at := t\<rparr>) = registry_inv f"
  "registry_inv (f\<lparr>fd_samples := n\<rparr>) = registry_inv f"
  "registry_inv (f\<lparr>fd_pokes := n\<rparr>) = registry_inv f"
  "registry_inv (f\<lparr>fd_last_sample_at := t\<rparr>) = registry_inv f"
  "registry_inv (f\<lparr>fd_changed := b\<rparr>) = registry_inv f"
  "registry_inv (f\<lparr>fd_window := b\<rparr>) = registry_inv f"
  "registry_inv (f\<lparr>fd_done := b\<rparr>) = registry_inv f"
  by (simp_all add: registry_inv_def)

lemma device_bound_record_fields [simp]:
  "device_bound (f\<lparr>fd_last := a\<rparr>) = device_bound f"
  "device_bound (f\<lparr>fd_last_at := t\<rparr>) = device_bound f"
  "device_bound (f\<lparr>fd_samples := n\<rparr>) = device_bound f"
  "device_bound (f\<lparr>fd_pokes := n\<rparr>) = device_bound f"
  "device_bound (f\<lparr>fd_last_sample_at := t\<rparr>) = device_bound f"
  "device_bound (f\<lparr>fd_changed := b\<rparr>) = device_bound f"
  "device_bound (f\<lparr>fd_window := b\<rparr>) = device_bound f"
  "device_bound (f\<lparr>fd_done := b\<rparr>) = device_bound f"
  by (simp_all add: device_bound_def)

lemma registry_distinct: "registry_inv f \<Longrightarrow> distinct (fd_subs f)"
  by (simp add: registry_inv_def)

lemma registry_sample: "registry_inv f \<Longrightarrow> registry_inv (sample snap f)"
  using registry_distinct [of f]
  by (auto simp: sample_def Let_def intro!: registry_fold_publish)

lemma device_bound_sample: "device_bound f \<Longrightarrow> device_bound (sample snap f)"
  by (auto simp: sample_def Let_def intro!: device_bound_fold_publish)

lemma publish_next [feed_fields]: "fd_next (publish ch i f) = fd_next f"
  by (simp add: publish_def Let_def feed_fields)

lemma fold_publish_next [feed_fields]: "fd_next (fold (publish ch) is f) = fd_next f"
  by (induction "is" arbitrary: f) (auto simp: feed_fields)

lemma sample_next [feed_fields]: "fd_next (sample snap f) = fd_next f"
  by (simp add: sample_def Let_def feed_fields)

lemma publish_subs: "set (fd_subs (publish ch i f)) \<subseteq> set (fd_subs f) \<and>
    length (fd_subs (publish ch i f)) \<le> length (fd_subs f)"
  using set_remove1_subset [of i "fd_subs f"]
  by (auto simp: publish_def Let_def feed_fields length_remove1)

lemma fold_publish_subs: "set (fd_subs (fold (publish ch) is f)) \<subseteq> set (fd_subs f) \<and>
    length (fd_subs (fold (publish ch) is f)) \<le> length (fd_subs f)"
proof (induction "is" arbitrary: f)
  case (Cons i "is")
  from Cons [of "publish ch i f"] publish_subs [of ch i f] show ?case by auto
qed simp

lemma sample_subs: "set (fd_subs (sample snap f)) \<subseteq> set (fd_subs f) \<and>
    length (fd_subs (sample snap f)) \<le> length (fd_subs f)"
  using fold_publish_subs [of "diff_turns (fd_last f) snap" "fd_subs f"
     "f\<lparr>fd_last := sn_turns snap, fd_last_at := sn_at snap, fd_samples := Suc (fd_samples f),
        fd_last_sample_at := sn_at snap\<rparr>"]
  by (simp add: sample_def Let_def)

lemma registry_add_pending:
  assumes "registry_inv f" "length (fd_subs f) < max_subscriptions"
  shows "registry_inv ((set_sub (fd_next f) (zero_sub\<lparr>sub_device := d, sub_pending := True, sub_base := b\<rparr>) f)
    \<lparr>fd_subs := fd_subs f @ [fd_next f], fd_next := Suc (fd_next f),
     fd_subscribers := fd_subscribers f + 1\<rparr>)"
proof -
  have "fd_next f \<notin> set (fd_subs f)" using assms(1) by (auto simp: registry_inv_def)
  moreover have "\<And>i. i \<in> set (fd_subs f) \<Longrightarrow> i < Suc (fd_next f)"
    using assms(1) by (auto simp: registry_inv_def less_Suc_eq)
  ultimately show ?thesis using assms
    by (auto simp: registry_inv_def feed_fields live_sub_ok_def zero_sub_def)
qed

lemma registry_subscribe:
  assumes "registry_inv f"
  shows "registry_inv (fst (serve_subscribe c d snap f))"
proof (cases "c \<or> max_subscriptions \<le> length (fd_subs f)")
  case True
  with assms show ?thesis by (auto simp: serve_subscribe_def)
next
  case False
  then have "length (fd_subs (sample snap f)) < max_subscriptions"
    using sample_subs [of snap f] by linarith
  from registry_add_pending [OF registry_sample [OF assms] this] False show ?thesis
    by (simp add: serve_subscribe_def Let_def)
qed

lemma device_bound_subscribe: "device_bound f \<Longrightarrow> device_bound (fst (serve_subscribe c d snap f))"
  using device_bound_sample [of f snap]
  by (auto simp: serve_subscribe_def Let_def device_bound_def feed_fields)

section \<open>Ready\<close>

text \<open>The state after \<^verbatim>\<open>Ready\<close> before the per-device limit is applied.\<close>

definition readied :: "nat \<Rightarrow> feed \<Rightarrow> feed" where
  "readied i f =
     (let sub = fd_heap f i; d = sub_device sub;
          ch = diff_turns (sub_base sub) \<lparr>sn_at = fd_last_at f, sn_turns = fd_last f\<rparr>;
          f1 = set_sub i (sub\<lparr>sub_base := [], sub_pending := False, sub_active := True,
                 sub_changes := (if change_empty ch then [] else [ch])\<rparr>) f
      in f1\<lparr>fd_by_device := (fd_by_device f1)(d := fd_by_device f1 d @ [i])\<rparr>)"

lemma readied_fields [feed_fields]:
  "fd_subs (readied i f) = fd_subs f"
  "fd_last (readied i f) = fd_last f"
  "fd_by_device (readied i f) = (fd_by_device f)(sub_device (fd_heap f i) :=
     fd_by_device f (sub_device (fd_heap f i)) @ [i])"
  "fd_heap (readied i f) = (fd_heap f)(i := (fd_heap f i)
     \<lparr>sub_base := [], sub_pending := False, sub_active := True, sub_changes :=
       (let ch = diff_turns (sub_base (fd_heap f i)) \<lparr>sn_at = fd_last_at f, sn_turns = fd_last f\<rparr>
        in if change_empty ch then [] else [ch])\<rparr>)"
  "fd_next (readied i f) = fd_next f"
  "fd_done (readied i f) = fd_done f"
  by (simp_all add: readied_def Let_def set_sub_def)

lemma pending_no_changes:
  "registry_inv f \<Longrightarrow> i \<in> set (fd_subs f) \<Longrightarrow> sub_pending (fd_heap f i) \<Longrightarrow>
     sub_changes (fd_heap f i) = [] \<and> \<not> sub_active (fd_heap f i)"
  by (auto simp: registry_inv_def live_sub_ok_def)

lemma serve_ready_eq:
  assumes "registry_inv f"
  shows "serve_ready i f =
    (if i \<in> set (fd_subs f) \<and> sub_pending (fd_heap f i)
     then let streams = fd_by_device (readied i f) (sub_device (fd_heap f i)) in
       if max_streams_per_device < length streams
       then end_sub (hd streams) (Some ErrSuperseded) (readied i f) else readied i f
     else f)"
proof (cases "i \<in> set (fd_subs f) \<and> sub_pending (fd_heap f i)")
  case True
  then have ch: "sub_changes (fd_heap f i) = []" using pending_no_changes [OF assms] by simp
  then have eq: "(fd_heap f i)\<lparr>sub_base := [], sub_pending := False, sub_active := True, sub_changes := []\<rparr> =
      (fd_heap f i)\<lparr>sub_base := [], sub_pending := False, sub_active := True\<rparr>"
    by (cases "fd_heap f i") simp
  with True ch show ?thesis
    by (simp add: eq serve_ready_def readied_def Let_def max_queued_changes_def set_sub_def)
qed (auto simp: serve_ready_def Let_def)

lemma registry_readied:
  assumes "registry_inv f" "i \<in> set (fd_subs f)" "sub_pending (fd_heap f i)"
  shows "registry_inv (readied i f)"
proof -
  have new: "\<not> sub_active (fd_heap f i)" using pending_no_changes [OF assms] by simp
  have "i \<notin> set (fd_by_device f d)" for d using assms(1) new by (auto simp: registry_inv_def)
  with assms new show ?thesis
    by (auto simp: registry_inv_def feed_fields live_sub_ok_def Let_def max_queued_changes_def
        readied_def set_sub_def)
qed

lemma device_bound_readied:
  "device_bound f \<Longrightarrow> length (fd_by_device (readied i f) d) \<le> max_streams_per_device +
     (if d = sub_device (fd_heap f i) then 1 else 0)"
  by (auto simp: device_bound_def feed_fields)

lemma hd_stream_active:
  assumes "registry_inv f" "fd_by_device f d \<noteq> []"
  shows "hd (fd_by_device f d) \<in> set (fd_subs f) \<and> sub_active (fd_heap f (hd (fd_by_device f d))) \<and>
           sub_device (fd_heap f (hd (fd_by_device f d))) = d"
  using assms hd_in_set [OF assms(2)] unfolding registry_inv_def by blast

lemma filter_neq_hd: "distinct xs \<Longrightarrow> xs \<noteq> [] \<Longrightarrow> filter (\<lambda>j. j \<noteq> hd xs) xs = tl xs"
  by (cases xs) (auto simp: filter_id_conv)

lemma end_hd_stream:
  assumes "registry_inv f" "fd_by_device f d \<noteq> []"
  shows "fd_by_device (end_sub (hd (fd_by_device f d)) err f) =
           (fd_by_device f)(d := tl (fd_by_device f d))"
  using hd_stream_active [OF assms] filter_neq_hd [OF _ assms(2)] assms(1)
  by (simp add: feed_fields registry_inv_def)

lemma registry_ready: "registry_inv f \<Longrightarrow> registry_inv (serve_ready i f)"
  by (simp add: serve_ready_eq Let_def registry_readied registry_end_sub)

lemma device_bound_ready:
  assumes "registry_inv f" "device_bound f"
  shows "device_bound (serve_ready i f)"
proof (cases "i \<in> set (fd_subs f) \<and> sub_pending (fd_heap f i)")
  case True
  let ?d = "sub_device (fd_heap f i)" and ?g = "readied i f"
  have reg: "registry_inv ?g" using registry_readied assms(1) True by blast
  note len = device_bound_readied [OF assms(2), of i]
  show ?thesis
  proof (cases "max_streams_per_device < length (fd_by_device ?g ?d)")
    case over: True
    then have "fd_by_device ?g ?d \<noteq> []" by auto
    note tl_hd = end_hd_stream [OF reg this]
    have "length (fd_by_device (end_sub (hd (fd_by_device ?g ?d)) err ?g) d) \<le> max_streams_per_device"
      for d err using len [of d] by (cases "d = ?d") (simp_all add: tl_hd)
    with True over show ?thesis
      by (simp add: serve_ready_eq [OF assms(1)] Let_def device_bound_def)
  next
    case False
    with True len have "device_bound ?g"
      unfolding device_bound_def by (metis add.right_neutral linorder_not_less)
    with True False show ?thesis by (simp add: serve_ready_eq [OF assms(1)] Let_def)
  qed
qed (auto simp: serve_ready_eq [OF assms(1)] assms(2))

section \<open>The other operations, and every step\<close>

lemma registry_poke: "registry_inv f \<Longrightarrow> registry_inv (serve_poke f)"
  by (simp add: serve_poke_def Let_def)

lemma device_bound_poke: "device_bound f \<Longrightarrow> device_bound (serve_poke f)"
  by (simp add: serve_poke_def Let_def)

lemma registry_stop: "registry_inv f \<Longrightarrow> registry_inv (stop_run f)"
proof -
  have "registry_inv f \<Longrightarrow> registry_inv (fold (\<lambda>i. end_sub i (Some ErrStopped)) is f)" for "is"
    by (induction "is" arbitrary: f) (auto intro: registry_end_sub)
  then show "registry_inv f \<Longrightarrow> registry_inv (stop_run f)" by (simp add: stop_run_def)
qed

lemma device_bound_stop: "device_bound f \<Longrightarrow> device_bound (stop_run f)"
proof -
  have "device_bound f \<Longrightarrow> device_bound (fold (\<lambda>i. end_sub i (Some ErrStopped)) is f)" for "is"
    by (induction "is" arbitrary: f) (auto intro: device_bound_end_sub)
  then show "device_bound f \<Longrightarrow> device_bound (stop_run f)" by (simp add: stop_run_def)
qed

lemma registry_receive:
  assumes "registry_inv f"
  shows "registry_inv (set_sub i ((fd_heap f i)\<lparr>sub_changes := tl (sub_changes (fd_heap f i))\<rparr>) f)"
  using assms by (auto simp: registry_inv_def feed_fields live_sub_ok_def dead_sub_ok_def)

definition feed_inv :: "feed \<Rightarrow> bool" where
  "feed_inv f \<longleftrightarrow> registry_inv f \<and> device_bound f"

lemma feed_inv_run_step: "feed_inv f \<Longrightarrow> feed_inv (run_step f e)"
  by (cases e) (auto simp: feed_inv_def serve_close_def registry_poke registry_sample registry_subscribe
      registry_ready registry_end_sub registry_stop device_bound_poke device_bound_sample
      device_bound_subscribe device_bound_ready device_bound_end_sub device_bound_stop)

lemma feed_step_served:
  "e \<noteq> Poke \<Longrightarrow> (\<And>i. e \<noteq> Receive i) \<Longrightarrow>
     feed_step f e = (if fd_done f \<or> fd_blocked f then f else run_step f e)"
  by (cases e) auto

lemma feed_inv_step:
  assumes "feed_inv f"
  shows "feed_inv (feed_step f e)"
proof (cases "e = Poke \<or> (\<exists>i. e = Receive i)")
  case True
  with assms registry_receive [of f] show ?thesis
    by (auto simp: feed_inv_def device_bound_def feed_fields)
next
  case False
  then have "feed_step f e = (if fd_done f \<or> fd_blocked f then f else run_step f e)"
    by (intro feed_step_served) auto
  then show ?thesis using assms feed_inv_run_step [OF assms, of e] by simp
qed

interpretation feed_machine: invariant_machine feed_step feed_inv "\<lambda>_. True"
  by unfold_locales (rule feed_inv_step)

section \<open>Convergence of stream clients\<close>

text \<open>
  A client keeps a table of turns: the snapshot it was handed, then every change it took from its
  channel, applied as docs/api.md says. \<open>feed_sys\<close> is the feed together with the tables of all
  clients; \<open>view_ok\<close> says that an active client's table, once it has applied what is still queued
  for it, is what the feed last published.
\<close>

type_synonym client_views = "nat \<Rightarrow> (turn_key \<rightharpoonup> status)"

fun update_views :: "feed \<Rightarrow> client_views \<Rightarrow> feed_event \<Rightarrow> client_views" where
  "update_views f v (SubscribeReq c d snap) =
     (if fd_done f \<or> fd_blocked f then v
      else case snd (serve_subscribe c d snap f) of
        Inl _ \<Rightarrow> v
      | Inr (sn, i) \<Rightarrow> v(i := turns_map (sn_turns sn)))"
| "update_views f v (Receive i) =
     (case sub_changes (fd_heap f i) of [] \<Rightarrow> v | ch # _ \<Rightarrow> v(i := apply_change ch (v i)))"
| "update_views f v _ = v"

definition sys_step :: "feed \<times> client_views \<Rightarrow> feed_event \<Rightarrow> feed \<times> client_views" where
  "sys_step s e = (feed_step (fst s) e, update_views (fst s) (snd s) e)"

fun event_ok :: "feed_event \<Rightarrow> bool" where
  "event_ok (WindowFires snap) = distinct (map status_key (sn_turns snap))"
| "event_ok (BackstopFires snap) = distinct (map status_key (sn_turns snap))"
| "event_ok (SubscribeReq c d snap) = distinct (map status_key (sn_turns snap))"
| "event_ok _ = True"

definition view_ok :: "(turn_key \<rightharpoonup> status) \<Rightarrow> subscription \<Rightarrow> (turn_key \<rightharpoonup> status) \<Rightarrow> bool" where
  "view_ok published s m \<longleftrightarrow>
     (sub_active s \<longrightarrow> apply_changes (sub_changes s) m = published) \<and>
     (sub_pending s \<longrightarrow> m = turns_map (sub_base s))"

definition sys_inv :: "feed \<times> client_views \<Rightarrow> bool" where
  "sys_inv s \<longleftrightarrow> feed_inv (fst s) \<and> distinct (map status_key (fd_last (fst s))) \<and>
     (\<forall>i \<in> set (fd_subs (fst s)). view_ok (turns_map (fd_last (fst s))) (fd_heap (fst s) i) (snd s i))"

definition views_split :: "client_views \<Rightarrow> nat set \<Rightarrow> (turn_key \<rightharpoonup> status) \<Rightarrow> (turn_key \<rightharpoonup> status) \<Rightarrow> feed \<Rightarrow> bool" where
  "views_split v todo old new f \<longleftrightarrow>
     (\<forall>i \<in> set (fd_subs f). view_ok (if i \<in> todo then old else new) (fd_heap f i) (v i))"

lemma publish_heap_other: "j \<noteq> i \<Longrightarrow> fd_heap (publish ch i f) j = fd_heap f j"
  by (simp add: publish_def Let_def feed_fields)

lemma views_publish:
  assumes "registry_inv f" "views_split v (insert i todo) old new f" "i \<notin> todo" "i \<in> set (fd_subs f)"
    "apply_change ch old = new"
  shows "views_split v todo old new (publish ch i f)"
  unfolding views_split_def
proof
  fix j assume j: "j \<in> set (fd_subs (publish ch i f))"
  show "view_ok (if j \<in> todo then old else new) (fd_heap (publish ch i f) j) (v j)"
  proof (cases "j = i")
    case False
    with j assms(2) show ?thesis
      by (auto simp: views_split_def publish_heap_other publish_subs_other)
  next
    case True
    have old: "view_ok old (fd_heap f i) (v i)" using assms(2,4) by (auto simp: views_split_def)
    have "i \<notin> set (remove1 i (fd_subs f))"
      using registry_distinct [OF assms(1)] by (simp add: set_remove1_eq)
    with True j old assms(3,5) show ?thesis
      by (auto simp: publish_def Let_def feed_fields view_ok_def split: if_splits)
  qed
qed

lemma views_fold_publish:
  assumes "registry_inv f" "distinct is" "set is \<subseteq> set (fd_subs f)"
    "views_split v (set is) old new f" "apply_change ch old = new"
  shows "views_split v {} old new (fold (publish ch) is f)"
  using assms
proof (induction "is" arbitrary: f)
  case (Cons i "is")
  have "x \<in> set (fd_subs (publish ch i f))" if "x \<in> set is" for x
    using that Cons.prems(2,3) publish_subs_other [of x i ch f] by auto
  then have sub: "set is \<subseteq> set (fd_subs (publish ch i f))" by blast
  have "views_split v (set is) old new (publish ch i f)"
    using Cons.prems by (intro views_publish) auto
  with Cons.prems sub have "views_split v {} old new (fold (publish ch) is (publish ch i f))"
    by (intro Cons.IH registry_publish) auto
  then show ?case by simp
qed simp

lemma fold_publish_last:
  "fd_last (fold (publish ch) is f) = fd_last f \<or>
     (fd_last (fold (publish ch) is f) = [] \<and> fd_subs (fold (publish ch) is f) = [])"
proof (induction "is" arbitrary: f)
  case (Cons i "is")
  have p: "fd_last (publish ch i f) = fd_last f \<or> (fd_last (publish ch i f) = [] \<and> fd_subs (publish ch i f) = [])"
    by (auto simp: publish_def Let_def feed_fields)
  have "fd_subs (publish ch i f) = [] \<Longrightarrow> fd_subs (fold (publish ch) is (publish ch i f)) = []"
    using fold_publish_subs [of ch "is" "publish ch i f"] by auto
  with p Cons [of "publish ch i f"] show ?case by auto
qed simp

lemma sample_last:
  assumes "fd_subs (sample snap f) \<noteq> []"
  shows "fd_last (sample snap f) = sn_turns snap"
  using assms fold_publish_last [of "diff_turns (fd_last f) snap" "fd_subs f"
     "f\<lparr>fd_last := sn_turns snap, fd_last_at := sn_at snap, fd_samples := Suc (fd_samples f),
        fd_last_sample_at := sn_at snap\<rparr>"]
  by (auto simp: sample_def Let_def)

lemma sys_inv_sample:
  assumes "sys_inv (f, v)" "distinct (map status_key (sn_turns snap))"
  shows "sys_inv (sample snap f, v)"
proof -
  let ?ch = "diff_turns (fd_last f) snap"
  let ?f = "f\<lparr>fd_last := sn_turns snap, fd_last_at := sn_at snap, fd_samples := Suc (fd_samples f),
        fd_last_sample_at := sn_at snap\<rparr>"
  let ?old = "turns_map (fd_last f)" and ?new = "turns_map (sn_turns snap)"
  have inv: "feed_inv (sample snap f)"
    using assms(1) by (simp add: sys_inv_def feed_inv_def registry_sample device_bound_sample)
  have reg: "registry_inv ?f" using assms(1) by (simp add: sys_inv_def feed_inv_def)
  have new: "apply_change ?ch ?old = ?new" by (rule apply_diff_turns [OF assms(2)])
  have split: "views_split v (set (fd_subs ?f)) ?old ?new ?f"
    using assms(1) by (auto simp: sys_inv_def views_split_def)
  show ?thesis
  proof (cases "change_empty ?ch")
    case True
    then have "?old = ?new" using new by (simp add: apply_empty_change)
    with True assms(1,2) inv show ?thesis by (simp add: sys_inv_def sample_def Let_def)
  next
    case False
    let ?g = "fold (publish ?ch) (fd_subs ?f) ?f"
    have "views_split v {} ?old ?new ?g"
      using views_fold_publish [OF reg registry_distinct [OF reg] _ split new] by simp
    moreover have "fd_last ?g = sn_turns snap \<or> (fd_last ?g = [] \<and> fd_subs ?g = [])"
      using fold_publish_last [of ?ch "fd_subs ?f" ?f] by simp
    ultimately have "distinct (map status_key (fd_last ?g)) \<and>
        (\<forall>i \<in> set (fd_subs ?g). view_ok (turns_map (fd_last ?g)) (fd_heap ?g i) (v i))"
      using assms(2) by (auto simp: views_split_def)
    then show ?thesis using inv False by (simp add: sys_inv_def sample_def Let_def)
  qed
qed

lemma end_sub_views:
  assumes "distinct (fd_subs f)" "distinct (map status_key (fd_last f))"
    "\<forall>j \<in> set (fd_subs f). view_ok (turns_map (fd_last f)) (fd_heap f j) (v j)"
  shows "distinct (map status_key (fd_last (end_sub i err f))) \<and>
    (\<forall>j \<in> set (fd_subs (end_sub i err f)).
       view_ok (turns_map (fd_last (end_sub i err f))) (fd_heap (end_sub i err f) j) (v j))"
proof -
  have eq: "set (remove1 i (fd_subs f)) = set (fd_subs f) - {i}"
    by (simp add: set_remove1_eq assms(1))
  then have "remove1 i (fd_subs f) = [] \<Longrightarrow> set (fd_subs f) - {i} = {}" by simp
  with assms eq show ?thesis by (auto simp: feed_fields)
qed

lemma sys_inv_end_sub: "sys_inv (f, v) \<Longrightarrow> sys_inv (end_sub i err f, v)"
  using end_sub_views [of f v i err] registry_distinct [of f]
  by (simp add: sys_inv_def feed_inv_def registry_end_sub device_bound_end_sub)

lemma sys_inv_fold_end: "sys_inv (f, v) \<Longrightarrow> sys_inv (fold (\<lambda>i. end_sub i err) is f, v)"
  by (induction "is" arbitrary: f) (auto intro: sys_inv_end_sub)

lemma sys_inv_fields [simp]:
  "sys_inv (f\<lparr>fd_changed := b\<rparr>, v) = sys_inv (f, v)"
  "sys_inv (f\<lparr>fd_window := b\<rparr>, v) = sys_inv (f, v)"
  "sys_inv (f\<lparr>fd_done := b\<rparr>, v) = sys_inv (f, v)"
  "sys_inv (f\<lparr>fd_pokes := n\<rparr>, v) = sys_inv (f, v)"
  by (simp_all add: sys_inv_def feed_inv_def)

lemma sys_inv_poke: "sys_inv (f, v) \<Longrightarrow> sys_inv (serve_poke f, v)"
  by (auto simp: serve_poke_def Let_def sys_inv_def feed_inv_def)

lemma sys_inv_subscribe:
  assumes "sys_inv (f, v)" "distinct (map status_key (sn_turns snap))" "\<not> fd_done f"
  shows "sys_inv (fst (serve_subscribe c d snap f),
    case snd (serve_subscribe c d snap f) of Inl _ \<Rightarrow> v | Inr (sn, i) \<Rightarrow> v(i := turns_map (sn_turns sn)))"
proof (cases "c \<or> max_subscriptions \<le> length (fd_subs f)")
  case True
  with assms show ?thesis by (auto simp: serve_subscribe_def)
next
  case False
  have inv: "feed_inv (fst (serve_subscribe c d snap f))"
    using assms(1) by (simp add: sys_inv_def feed_inv_def registry_subscribe device_bound_subscribe)
  have "registry_inv f" using assms(1) by (simp add: sys_inv_def feed_inv_def)
  then have fresh: "\<And>i. i \<in> set (fd_subs (sample snap f)) \<Longrightarrow> i < fd_next f" "\<not> fd_blocked f"
    using sample_subs [of snap f] by (auto simp: registry_inv_def)
  have views: "fd_next f \<notin> set (fd_subs (sample snap f))" using fresh(1) by blast
  from sys_inv_sample [OF assms(1,2)] inv False fresh(2) views assms(3) show ?thesis
    by (auto simp: sys_inv_def serve_subscribe_def Let_def feed_fields view_ok_def zero_sub_def)
qed

lemma sys_inv_readied:
  assumes "sys_inv (f, v)" "i \<in> set (fd_subs f)" "sub_pending (fd_heap f i)"
  shows "\<forall>j \<in> set (fd_subs (readied i f)).
    view_ok (turns_map (fd_last (readied i f))) (fd_heap (readied i f) j) (v j)"
proof
  fix j assume j: "j \<in> set (fd_subs (readied i f))"
  let ?ch = "diff_turns (sub_base (fd_heap f i)) \<lparr>sn_at = fd_last_at f, sn_turns = fd_last f\<rparr>"
  have "apply_change ?ch (turns_map (sub_base (fd_heap f i))) = turns_map (fd_last f)"
    using apply_diff_turns [of "\<lparr>sn_at = fd_last_at f, sn_turns = fd_last f\<rparr>"] assms(1)
    by (simp add: sys_inv_def)
  moreover have "v i = turns_map (sub_base (fd_heap f i))"
    using assms by (auto simp: sys_inv_def view_ok_def)
  ultimately have "view_ok (turns_map (fd_last f)) (fd_heap (readied i f) i) (v i)"
    using apply_empty_change [of ?ch] by (auto simp: view_ok_def feed_fields Let_def)
  with j assms(1) show "view_ok (turns_map (fd_last (readied i f))) (fd_heap (readied i f) j) (v j)"
    by (cases "j = i") (auto simp: sys_inv_def feed_fields)
qed

lemma sys_inv_ready:
  assumes "sys_inv (f, v)"
  shows "sys_inv (serve_ready i f, v)"
proof (cases "i \<in> set (fd_subs f) \<and> sub_pending (fd_heap f i)")
  case False
  then have "serve_ready i f = f" by (auto simp: serve_ready_def Let_def)
  with assms show ?thesis by simp
next
  case True
  have reg: "registry_inv f" "device_bound f" using assms by (simp_all add: sys_inv_def feed_inv_def)
  let ?g = "readied i f"
  have inv: "feed_inv (serve_ready i f)"
    using reg by (simp add: feed_inv_def registry_ready device_bound_ready)
  have views: "\<forall>j \<in> set (fd_subs ?g). view_ok (turns_map (fd_last ?g)) (fd_heap ?g j) (v j)"
    using sys_inv_readied [OF assms] True by blast
  have dist: "distinct (map status_key (fd_last ?g))" using assms by (simp add: sys_inv_def feed_fields)
  have "registry_inv ?g" using registry_readied [OF reg(1)] True by blast
  note ended = end_sub_views [OF registry_distinct [OF this] dist views]
  with inv views dist True show ?thesis
    by (auto simp: sys_inv_def serve_ready_eq [OF reg(1)] Let_def)
qed

lemma sys_inv_receive:
  assumes "sys_inv (f, v)"
  shows "sys_inv (feed_step f (Receive i), update_views f v (Receive i))"
proof -
  have "feed_inv (feed_step f (Receive i))"
    using assms by (intro feed_inv_step) (simp add: sys_inv_def)
  moreover have "sub_pending (fd_heap f i) \<Longrightarrow> sub_changes (fd_heap f i) = []"
    using assms by (cases "i \<in> set (fd_subs f)")
      (auto simp: sys_inv_def feed_inv_def registry_inv_def live_sub_ok_def dead_sub_ok_def)
  ultimately show ?thesis using assms
    by (cases "sub_changes (fd_heap f i)") (auto simp: sys_inv_def feed_fields view_ok_def)
qed

lemma sys_inv_step:
  assumes "sys_inv s" "event_ok e"
  shows "sys_inv (sys_step s e)"
proof -
  obtain f v where s: "s = (f, v)" by (cases s)
  show ?thesis
  proof (cases e)
    case (Receive i)
    then show ?thesis using sys_inv_receive assms(1) by (simp add: s sys_step_def)
  qed (use assms in \<open>auto simp: s sys_step_def sys_inv_poke sys_inv_sample sys_inv_ready sys_inv_end_sub
        serve_close_def stop_run_def sys_inv_fold_end sys_inv_subscribe\<close>)
qed

interpretation stream_machine: invariant_machine sys_step sys_inv event_ok
  by unfold_locales (rule sys_inv_step)

end
