(* ===== verification/Turn_Stream.thy ===== *)
theory Turn_Stream
  imports Turn_Feed_Proofs
begin

text \<open>
  The feed over the snapshot the session layer serves (\<^verbatim>\<open>RuntimeSession.TurnSnapshot\<close> in
  \<^verbatim>\<open>internal/session/lifecycle.go\<close>): the interface between the two components, and the properties of
  the stream as a client sees it.
\<close>

section \<open>The snapshot source\<close>

text \<open>
  \<open>turn_source\<close> is what the feed asks of the function it samples: no chat twice. Its lemmas are the
  feed's contract for every such source.
\<close>

locale turn_source =
  fixes take_snapshot :: "gtime \<Rightarrow> 's \<Rightarrow> snapshot"
    and source_ok :: "'s \<Rightarrow> bool"
  assumes source_distinct: "source_ok s \<Longrightarrow> distinct (map status_key (sn_turns (take_snapshot t s)))"
begin

lemma sampled_event_ok:
  "source_ok s \<Longrightarrow> event_ok (WindowFires (take_snapshot t s))"
  "source_ok s \<Longrightarrow> event_ok (BackstopFires (take_snapshot t s))"
  "source_ok s \<Longrightarrow> event_ok (SubscribeReq c d (take_snapshot t s))"
  by (simp_all add: source_distinct)

lemma active_view_after_sample:
  assumes "sys_inv (f, v)" "source_ok s" "i \<in> set (fd_subs (sample (take_snapshot t s) f))"
    "sub_active (fd_heap (sample (take_snapshot t s) f) i)"
  shows "apply_changes (sub_changes (fd_heap (sample (take_snapshot t s) f) i)) (v i) =
           turns_map (sn_turns (take_snapshot t s))"
proof -
  let ?g = "sample (take_snapshot t s) f"
  have inv: "sys_inv (?g, v)" by (rule sys_inv_sample [OF assms(1) source_distinct [OF assms(2)]])
  have "fd_last ?g = sn_turns (take_snapshot t s)"
    using assms(3) by (intro sample_last) auto
  with inv assms(3,4) show ?thesis by (auto simp: sys_inv_def view_ok_def)
qed

end

text \<open>The live turns of every session's pump, merged over the store of finished outcomes.\<close>

definition turn_snapshot :: "gtime \<Rightarrow> status list \<times> turn_store \<Rightarrow> snapshot" where
  "turn_snapshot t s = \<lparr>sn_at = t, sn_turns = snapshot_turns (snd s) (fst s)\<rparr>"

definition session_turns_ok :: "status list \<times> turn_store \<Rightarrow> bool" where
  "session_turns_ok s \<longleftrightarrow> distinct (map status_key (fst s)) \<and> store_wf (snd s)"

interpretation gateway_turns: turn_source turn_snapshot session_turns_ok
  by unfold_locales
    (auto simp: session_turns_ok_def turn_snapshot_def store_wf_def intro!: distinct_snapshot_keys)

lemma sys_inv_new: "sys_inv (new_feed, \<lambda>_. Map.empty)"
  using registry_inv_new by (simp add: sys_inv_def feed_inv_def) (simp add: new_feed_def)

lemma sys_inv_reachable: "list_all event_ok es \<Longrightarrow> sys_inv (run sys_step (new_feed, \<lambda>_. Map.empty) es)"
  by (rule stream_machine.run_inv [OF sys_inv_new])

section \<open>Properties\<close>

text \<open>
  In every reachable state the feed holds at most 256 subscriptions and counts them right, every
  device has at most 4 active streams (exactly those in its list), no queue is longer than 16 changes,
  and \<^verbatim>\<open>Run\<close> never hangs in a channel send.
\<close>

theorem feed_bounds:
  fixes es
  defines "f \<equiv> run feed_step new_feed es"
  shows "length (fd_subs f) \<le> 256 \<and> fd_subscribers f = int (length (fd_subs f)) \<and>
         (\<forall>d. length (fd_by_device f d) \<le> 4 \<and> distinct (fd_by_device f d) \<and>
            set (fd_by_device f d) =
              {i \<in> set (fd_subs f). sub_active (fd_heap f i) \<and> sub_device (fd_heap f i) = d}) \<and>
         (\<forall>i. length (sub_changes (fd_heap f i)) \<le> 16) \<and> \<not> fd_blocked f"
proof -
  have "feed_inv f"
    unfolding f_def by (rule feed_machine.run_inv) (simp_all add: feed_inv_def registry_inv_new list_all_iff)
  then have reg: "registry_inv f" and dev: "device_bound f" by (simp_all add: feed_inv_def)
  have "length (sub_changes (fd_heap f i)) \<le> 16" for i
    using reg by (cases "i \<in> set (fd_subs f)")
      (auto simp: registry_inv_def live_sub_ok_def dead_sub_ok_def max_queued_changes_def)
  with reg dev show ?thesis
    by (auto simp: registry_inv_def device_bound_def max_subscriptions_def max_streams_per_device_def)
qed

text \<open>
  At every moment, an active client that applies what is queued for it to what it has received holds exactly what
  the feed keeps as its last sample, whatever subscriptions, closes, drops and samples came before. That sample is
  forgotten when the last stream ends, see below for the client that subscribes just then.
\<close>

theorem stream_converges:
  assumes "list_all event_ok es" and "run sys_step (new_feed, \<lambda>_. Map.empty) es = (f, v)"
    and "i \<in> set (fd_subs f)" and "sub_active (fd_heap f i)"
  shows "apply_changes (sub_changes (fd_heap f i)) (v i) = turns_map (fd_last f)"
  using sys_inv_reachable [OF assms(1)] assms(2-4) by (auto simp: sys_inv_def view_ok_def)

definition stream_example :: "feed_event list" where
  "stream_example =
     [SubscribeReq False ''phone'' \<lparr>sn_at = 1, sn_turns = [example_status ''a'' 1]\<rparr>, ReadyReq 0,
      Poke, ServePoke, WindowFires \<lparr>sn_at = 2, sn_turns = [example_status ''b'' 2]\<rparr>]"

theorem stream_converges_witness:
  "apply_changes (sub_changes (fd_heap (fst (run sys_step (new_feed, \<lambda>_. Map.empty) stream_example)) 0))
     (snd (run sys_step (new_feed, \<lambda>_. Map.empty) stream_example) 0) =
   turns_map (fd_last (fst (run sys_step (new_feed, \<lambda>_. Map.empty) stream_example)))"
proof (rule stream_converges)
  show "list_all event_ok stream_example" by (simp add: stream_example_def)
  show "run sys_step (new_feed, \<lambda>_. Map.empty) stream_example =
    (fst (run sys_step (new_feed, \<lambda>_. Map.empty) stream_example),
     snd (run sys_step (new_feed, \<lambda>_. Map.empty) stream_example))" by simp
  have "0 \<in> set (fd_subs (fst (run sys_step (new_feed, \<lambda>_. Map.empty) stream_example))) \<and>
    sub_active (fd_heap (fst (run sys_step (new_feed, \<lambda>_. Map.empty) stream_example)) 0)" by code_simp
  then show "0 \<in> set (fd_subs (fst (run sys_step (new_feed, \<lambda>_. Map.empty) stream_example)))"
    "sub_active (fd_heap (fst (run sys_step (new_feed, \<lambda>_. Map.empty) stream_example)) 0)" by blast+
qed

text \<open>
  C38: A poke is published: while a stream is open, the next sample after a poke leaves every stream that
  stays subscribed and active with the turns the session layer reported at that sample, whatever
  subscriptions, closes, drops and samples came before: the client that applies what is queued for it to what it
  has received holds exactly these turns.
\<close>

theorem poke_is_published:
  assumes "list_all event_ok es" and "run sys_step (new_feed, \<lambda>_. Map.empty) es = (f0, v0)"
    and "fd_subs f0 \<noteq> []" and "\<not> fd_done f0" and "session_turns_ok s"
    and "run sys_step (f0, v0) [Poke, ServePoke, WindowFires (turn_snapshot t s)] = (f, v)"
    and "i \<in> set (fd_subs f)" and "sub_active (fd_heap f i)"
  shows "apply_changes (sub_changes (fd_heap f i)) (v i) = turns_map (snapshot_turns (snd s) (fst s))"
proof -
  have inv: "sys_inv (f0, v0)" using sys_inv_reachable [OF assms(1)] assms(2) by simp
  then have "\<not> fd_blocked f0" by (simp add: sys_inv_def feed_inv_def registry_inv_def)
  then obtain g where g: "f = sample (turn_snapshot t s) g" "v = v0" "sys_inv (g, v0)"
    using assms(3,4,6) inv
    by (auto simp: sys_step_def serve_poke_def Let_def sys_inv_def feed_inv_def)
  from gateway_turns.active_view_after_sample [OF g(3) assms(5)] assms(7,8) g(1,2)
  show ?thesis by (simp add: turn_snapshot_def)
qed

theorem poke_is_published_witness:
  "\<exists>f0 v0 f v. run sys_step (new_feed, \<lambda>_. Map.empty) stream_example = (f0, v0) \<and>
     run sys_step (f0, v0) [Poke, ServePoke, WindowFires (turn_snapshot 5 ([example_status ''c'' 4], []))] = (f, v) \<and>
     apply_changes (sub_changes (fd_heap f 0)) (v 0) = turns_map (snapshot_turns [] [example_status ''c'' 4])"
proof -
  obtain f0 v0 where 0: "run sys_step (new_feed, \<lambda>_. Map.empty) stream_example = (f0, v0)"
    by (cases "run sys_step (new_feed, \<lambda>_. Map.empty) stream_example")
  let ?es = "[Poke, ServePoke, WindowFires (turn_snapshot 5 ([example_status ''c'' 4], []))]"
  obtain f v where 1: "run sys_step (f0, v0) ?es = (f, v)" by (cases "run sys_step (f0, v0) ?es")
  have "fd_subs (fst (run sys_step (new_feed, \<lambda>_. Map.empty) stream_example)) \<noteq> [] \<and>
        \<not> fd_done (fst (run sys_step (new_feed, \<lambda>_. Map.empty) stream_example))" by code_simp
  with 0 have f0: "fd_subs f0 \<noteq> []" "\<not> fd_done f0" by simp_all
  have "0 \<in> set (fd_subs (fst (run sys_step (run sys_step (new_feed, \<lambda>_. Map.empty) stream_example) ?es))) \<and>
        sub_active (fd_heap (fst (run sys_step (run sys_step (new_feed, \<lambda>_. Map.empty) stream_example) ?es)) 0)"
    by code_simp
  with 0 1 have f: "0 \<in> set (fd_subs f)" "sub_active (fd_heap f 0)" by simp_all
  have ok: "session_turns_ok ([example_status ''c'' 4], [])"
    using store_wf_new by (simp add: session_turns_ok_def new_store_def)
  have "list_all event_ok stream_example" by (simp add: stream_example_def)
  from poke_is_published [OF this 0 f0 ok 1 f] 0 1 show ?thesis by auto
qed

text \<open>
  A snapshot can be lost. When a subscribe's sample finds that the only other stream cannot queue the
  change, closing that stream as slow clears the last published sample although the new subscription
  is about to be registered. \<^verbatim>\<open>Ready\<close> then compares the new client's snapshot with nothing and tells
  it that every turn it was just handed is gone.
\<close>

theorem subscribe_snapshot_lost:
  assumes "\<not> fd_done f" "\<not> fd_blocked f" "fd_subs f = [j]" "j \<noteq> fd_next f"
    and "sub_active (fd_heap f j)" and "length (sub_changes (fd_heap f j)) = 16"
    and "\<not> change_empty (diff_turns (fd_last f) snap)" and "sn_turns snap \<noteq> []"
    and "length (fd_by_device f d) < 4"
  shows "sub_changes (fd_heap (run feed_step f [SubscribeReq False d snap, ReadyReq (fd_next f)]) (fd_next f)) =
           [\<lparr>ch_at = zero_time, ch_upserts = [], ch_removed = map status_key (sn_turns snap)\<rparr>]"
proof -
  let ?f1 = "f\<lparr>fd_last := sn_turns snap, fd_last_at := sn_at snap, fd_samples := Suc (fd_samples f),
      fd_last_sample_at := sn_at snap\<rparr>"
  have smp: "sample snap f = end_sub j (Some ErrSlowConsumer) ?f1"
    using assms(3,5,6,7) by (simp add: sample_def Let_def publish_def max_queued_changes_def)
  let ?g = "fst (serve_subscribe False d snap f)" and ?i = "fd_next f"
  have g: "fd_last ?g = []" "fd_last_at ?g = zero_time" "fd_subs ?g = [?i]"
    "fd_heap ?g ?i = zero_sub\<lparr>sub_device := d, sub_pending := True, sub_base := sn_turns snap\<rparr>"
    "fd_done ?g = fd_done f" "fd_blocked ?g = fd_blocked f"
    "length (fd_by_device ?g d) < 4"
    using assms(3,9) le_less_trans [OF length_filter_le, of "fd_by_device f d" 4]
    by (auto simp: serve_subscribe_def Let_def smp feed_fields max_subscriptions_def)
  let ?ch = "diff_turns (sn_turns snap) \<lparr>sn_at = zero_time, sn_turns = []\<rparr>"
  have ch: "?ch = \<lparr>ch_at = zero_time, ch_upserts = [], ch_removed = map status_key (sn_turns snap)\<rparr>"
    by (simp add: diff_turns_def Let_def)
  have ne: "\<not> change_empty ?ch" using assms(8) by (simp add: ch change_empty_def)
  have "sub_changes (fd_heap (serve_ready ?i ?g) ?i) = [?ch]"
    using g ne by (simp add: serve_ready_def Let_def zero_sub_def max_queued_changes_def
        max_streams_per_device_def set_sub_def)
  then show ?thesis using assms(1,2) g(5,6) by (simp add: ch)
qed

definition slow_feed :: feed where
  "slow_feed = new_feed\<lparr>fd_subs := [0], fd_next := 1, fd_subscribers := 1,
     fd_by_device := (\<lambda>_. [])(''tablet'' := [0]), fd_last := [example_status ''a'' 1],
     fd_heap := (\<lambda>_. zero_sub)(0 := zero_sub\<lparr>sub_device := ''tablet'', sub_active := True,
       sub_changes := replicate 16 \<lparr>ch_at = 1, ch_upserts = [example_status ''a'' 1], ch_removed = []\<rparr>\<rparr>)\<rparr>"

theorem subscribe_snapshot_lost_witness:
  "feed_inv slow_feed \<and>
   sub_changes (fd_heap (run feed_step slow_feed
     [SubscribeReq False ''phone'' \<lparr>sn_at = 9, sn_turns = [example_status ''b'' 2]\<rparr>,
      ReadyReq (fd_next slow_feed)]) (fd_next slow_feed)) =
     [\<lparr>ch_at = zero_time, ch_upserts = [], ch_removed = [status_key (example_status ''b'' 2)]\<rparr>]"
proof
  show "feed_inv slow_feed"
    by (auto simp: feed_inv_def registry_inv_def device_bound_def slow_feed_def new_feed_def zero_sub_def
        live_sub_ok_def dead_sub_ok_def max_queued_changes_def max_subscriptions_def max_streams_per_device_def)
  have ne: "\<not> change_empty (diff_turns (fd_last slow_feed) \<lparr>sn_at = 9, sn_turns = [example_status ''b'' 2]\<rparr>)"
    by code_simp
  show "sub_changes (fd_heap (run feed_step slow_feed
     [SubscribeReq False ''phone'' \<lparr>sn_at = 9, sn_turns = [example_status ''b'' 2]\<rparr>,
      ReadyReq (fd_next slow_feed)]) (fd_next slow_feed)) =
     [\<lparr>ch_at = zero_time, ch_upserts = [], ch_removed = [status_key (example_status ''b'' 2)]\<rparr>]"
    using subscribe_snapshot_lost [OF _ _ _ _ _ _ ne, where d = "''phone''" and j = 0]
    by (simp add: slow_feed_def new_feed_def)
qed

end
