(* ===== verification/Attach_Tokens.thy ===== *)
theory Attach_Tokens
  imports Prelude
begin

text \<open>
  \<^verbatim>\<open>internal/session/token.go\<close>: single-use attach tokens. The random token is an argument of
  \<open>mint\<close> (\<open>None\<close> when the random source fails); \<open>validate\<close> reads the clock twice, as the code does.
  The locale \<open>token_issuer\<close> is what the session registry relies on.
\<close>

section \<open>State and operations\<close>

record attach_claim =
  cl_session :: string
  cl_device :: string
  cl_expires :: gtime

record token_service =
  tk_tokens :: "(string \<times> attach_claim) list"
  tk_last_sweep :: gtime

datatype token_error = ErrAttachTokenInvalid | ErrAttachTokenExpired | ErrTokenRandom

definition attach_token_sweep_every :: duration where "attach_token_sweep_every = minute"
definition max_attach_tokens :: nat where "max_attach_tokens = 4096"

definition new_token_service :: token_service where
  "new_token_service = \<lparr>tk_tokens = [], tk_last_sweep = zero_time\<rparr>"

definition sweep_tokens :: "gtime \<Rightarrow> token_service \<Rightarrow> token_service" where
  "sweep_tokens now s = s\<lparr>tk_tokens := filter (\<lambda>(t, c). \<not> cl_expires c < now) (tk_tokens s)\<rparr>"

definition maybe_sweep_tokens :: "gtime \<Rightarrow> token_service \<Rightarrow> token_service" where
  "maybe_sweep_tokens now s =
     (if now - tk_last_sweep s < attach_token_sweep_every then s
      else sweep_tokens now (s\<lparr>tk_last_sweep := now\<rparr>))"

primrec soonest_from :: "(string \<times> gtime) option \<Rightarrow> (string \<times> attach_claim) list \<Rightarrow> (string \<times> gtime) option" where
  "soonest_from best [] = best"
| "soonest_from best (e # es) =
     soonest_from (case best of None \<Rightarrow> Some (fst e, cl_expires (snd e))
       | Some b \<Rightarrow> if cl_expires (snd e) < snd b then Some (fst e, cl_expires (snd e)) else Some b) es"

definition evict_oldest :: "token_service \<Rightarrow> token_service" where
  "evict_oldest s = (case soonest_from None (tk_tokens s) of None \<Rightarrow> s
     | Some (t, _) \<Rightarrow> s\<lparr>tk_tokens := AList.delete t (tk_tokens s)\<rparr>)"

definition mint :: "string option \<Rightarrow> string \<Rightarrow> string \<Rightarrow> duration \<Rightarrow> gtime \<Rightarrow> token_service
    \<Rightarrow> token_service \<times> (token_error + string)" where
  "mint random session device ttl now s =
     (case random of
        None \<Rightarrow> (s, Inl ErrTokenRandom)
      | Some token \<Rightarrow>
          let s1 = maybe_sweep_tokens now s;
              s2 = (if max_attach_tokens \<le> length (tk_tokens s1)
                    then let s' = sweep_tokens now s1
                         in if max_attach_tokens \<le> length (tk_tokens s') then evict_oldest s' else s'
                    else s1)
          in (s2\<lparr>tk_tokens := AList.update token
                \<lparr>cl_session = session, cl_device = device, cl_expires = now + ttl\<rparr> (tk_tokens s2)\<rparr>,
              Inr token))"

definition validate :: "string \<Rightarrow> gtime \<Rightarrow> gtime \<Rightarrow> token_service
    \<Rightarrow> token_service \<times> (token_error + string \<times> string)" where
  "validate token now1 now2 s =
     (let s1 = maybe_sweep_tokens now1 s in
      case map_of (tk_tokens s1) token of
        None \<Rightarrow> (s1, Inl ErrAttachTokenInvalid)
      | Some c \<Rightarrow>
          let s2 = s1\<lparr>tk_tokens := AList.delete token (tk_tokens s1)\<rparr>
          in if cl_expires c < now2 then (s2, Inl ErrAttachTokenExpired)
             else (s2, Inr (cl_session c, cl_device c)))"

definition clear_all :: "token_service \<Rightarrow> token_service" where
  "clear_all s = s\<lparr>tk_tokens := []\<rparr>"

section \<open>Lookups after each operation\<close>

definition tokens_wf :: "token_service \<Rightarrow> bool" where
  "tokens_wf s \<longleftrightarrow> keys_distinct (tk_tokens s) \<and> length (tk_tokens s) \<le> max_attach_tokens"

definition token_claim :: "token_service \<Rightarrow> string \<Rightarrow> attach_claim option" where
  "token_claim s = map_of (tk_tokens s)"

lemma tokens_wf_new: "tokens_wf new_token_service"
  by (simp add: tokens_wf_def new_token_service_def)

lemma tokens_wf_sweep [intro]: "tokens_wf s \<Longrightarrow> tokens_wf (sweep_tokens now s)"
  by (auto simp: tokens_wf_def sweep_tokens_def intro!: keys_distinct_filter le_trans [OF length_filter_le])

lemma tokens_wf_maybe_sweep [intro]: "tokens_wf s \<Longrightarrow> tokens_wf (maybe_sweep_tokens now s)"
  using tokens_wf_sweep [of "s\<lparr>tk_last_sweep := now\<rparr>" now]
  by (simp add: maybe_sweep_tokens_def) (simp add: tokens_wf_def)

lemma claim_sweep:
  "tokens_wf s \<Longrightarrow> token_claim (sweep_tokens now s) t =
     (case token_claim s t of None \<Rightarrow> None | Some c \<Rightarrow> if cl_expires c < now then None else Some c)"
  by (auto simp: tokens_wf_def token_claim_def sweep_tokens_def map_of_filter_snd split: option.split)

lemma claim_maybe_sweep:
  "tokens_wf s \<Longrightarrow> token_claim (maybe_sweep_tokens now s) t =
     (case token_claim s t of None \<Rightarrow> None
      | Some c \<Rightarrow> if attach_token_sweep_every \<le> now - tk_last_sweep s \<and> cl_expires c < now
                  then None else Some c)"
  using claim_sweep [of "s\<lparr>tk_last_sweep := now\<rparr>" now t]
  by (auto simp: maybe_sweep_tokens_def tokens_wf_def token_claim_def split: option.split)

lemma soonest_from_some: "es \<noteq> [] \<or> b \<noteq> None \<Longrightarrow> soonest_from b es \<noteq> None"
  by (induction es arbitrary: b) (auto split: option.splits)

lemma soonest_from_least:
  "soonest_from b es = Some (t, x) \<Longrightarrow>
     (b = Some (t, x) \<or> (\<exists>c. (t, c) \<in> set es \<and> cl_expires c = x)) \<and>
     (\<forall>(t', c) \<in> set es. x \<le> cl_expires c) \<and> (\<forall>t' y. b = Some (t', y) \<longrightarrow> x \<le> y)"
proof (induction es arbitrary: b)
  case Nil
  then show ?case by simp
next
  case (Cons e es)
  let ?b = "case b of None \<Rightarrow> Some (fst e, cl_expires (snd e))
    | Some b \<Rightarrow> if cl_expires (snd e) < snd b then Some (fst e, cl_expires (snd e)) else Some b"
  from Cons.prems have "soonest_from ?b es = Some (t, x)" by simp
  from Cons.IH [OF this] show ?case
    by (cases e; cases b) (force split: if_splits)+
qed

lemma evict_oldest_spec:
  assumes "tokens_wf s" "tk_tokens s \<noteq> []"
  shows "\<exists>t c. token_claim s t = Some c \<and> (\<forall>(t', c') \<in> set (tk_tokens s). cl_expires c \<le> cl_expires c') \<and>
           token_claim (evict_oldest s) = (token_claim s)(t := None) \<and>
           length (tk_tokens (evict_oldest s)) < length (tk_tokens s)"
proof -
  obtain t x where tx: "soonest_from None (tk_tokens s) = Some (t, x)"
    using soonest_from_some [of "tk_tokens s" None] assms(2) by auto
  from soonest_from_least [OF tx] obtain c where c: "(t, c) \<in> set (tk_tokens s)" "cl_expires c = x"
    "\<forall>(t', c') \<in> set (tk_tokens s). x \<le> cl_expires c'" by auto
  then have "token_claim s t = Some c"
    using assms(1) by (simp add: tokens_wf_def token_claim_def map_of_in_set)
  moreover from this have "length (AList.delete t (tk_tokens s)) < length (tk_tokens s)"
    by (intro length_delete_less) (simp add: token_claim_def)
  ultimately show ?thesis using c
    by (intro exI [of _ t] exI [of _ c]) (simp add: evict_oldest_def tx token_claim_def delete_conv')
qed

text \<open>The service \<open>mint\<close> inserts into: swept, and with one entry evicted when it is full.\<close>

definition make_room :: "gtime \<Rightarrow> token_service \<Rightarrow> token_service" where
  "make_room now s =
     (let s1 = maybe_sweep_tokens now s in
      if max_attach_tokens \<le> length (tk_tokens s1)
      then let s' = sweep_tokens now s1
           in if max_attach_tokens \<le> length (tk_tokens s') then evict_oldest s' else s'
      else s1)"

lemma mint_Some: "mint (Some token) session device ttl now s =
    ((make_room now s)\<lparr>tk_tokens := AList.update token
        \<lparr>cl_session = session, cl_device = device, cl_expires = now + ttl\<rparr> (tk_tokens (make_room now s))\<rparr>,
     Inr token)"
  by (simp add: mint_def make_room_def Let_def)

lemma tokens_wf_evict:
  assumes "tokens_wf s"
  shows "tokens_wf (evict_oldest s)"
  using assms by (auto simp: evict_oldest_def tokens_wf_def split: option.split
      intro: le_trans [OF length_delete_le] keys_distinct_delete)

lemma make_room_room:
  assumes "tokens_wf s"
  shows "tokens_wf (make_room now s) \<and> length (tk_tokens (make_room now s)) < max_attach_tokens"
proof -
  let ?s1 = "maybe_sweep_tokens now s"
  let ?s2 = "sweep_tokens now ?s1"
  have wf: "tokens_wf ?s1" "tokens_wf ?s2" using assms by auto
  have "length (tk_tokens (evict_oldest ?s2)) < max_attach_tokens"
    if "max_attach_tokens \<le> length (tk_tokens ?s2)"
  proof -
    from that have "tk_tokens ?s2 \<noteq> []" by (auto simp: max_attach_tokens_def)
    from evict_oldest_spec [OF wf(2) this] wf(2) show ?thesis by (auto simp: tokens_wf_def)
  qed
  then show ?thesis using wf tokens_wf_evict [OF wf(2)] by (auto simp: make_room_def Let_def)
qed

lemma make_room_sub:
  assumes "tokens_wf s" "token_claim (make_room now s) t = Some c"
  shows "token_claim s t = Some c"
proof -
  let ?s1 = "maybe_sweep_tokens now s"
  let ?s2 = "sweep_tokens now ?s1"
  have wf: "tokens_wf ?s1" "tokens_wf ?s2" using assms(1) by auto
  have ev: "token_claim ?s2 t = Some c" if "token_claim (evict_oldest ?s2) t = Some c"
    using that by (auto simp: evict_oldest_def token_claim_def delete_conv' split: option.splits if_splits)
  have s1: "token_claim ?s1 t = Some c \<Longrightarrow> ?thesis"
    using claim_maybe_sweep [OF assms(1), of now t] by (simp split: option.splits if_splits)
  have s2: "token_claim ?s2 t = Some c \<Longrightarrow> ?thesis"
    using claim_sweep [OF wf(1), of now t] s1 by (simp split: option.splits if_splits)
  show ?thesis using assms(2) ev s1 s2 by (simp add: make_room_def Let_def split: if_splits)
qed

lemma tokens_wf_mint: "tokens_wf s \<Longrightarrow> tokens_wf (fst (mint r ses dev ttl now s))"
  using make_room_room [of s now]
  by (cases r) (auto simp: mint_def [of None] mint_Some tokens_wf_def length_update_alist)

lemma tokens_wf_validate: "tokens_wf s \<Longrightarrow> tokens_wf (fst (validate t n1 n2 s))"
  using tokens_wf_maybe_sweep [of s n1]
  by (auto simp: validate_def Let_def tokens_wf_def split: option.split
      intro: le_trans [OF length_delete_le])

lemma claim_mint:
  "token_claim (fst (mint (Some tok) ses dev ttl now s)) =
     (token_claim (make_room now s))(tok \<mapsto> \<lparr>cl_session = ses, cl_device = dev, cl_expires = now + ttl\<rparr>)"
  by (simp add: mint_Some token_claim_def update_conv')

lemma claim_validate:
  "token_claim (fst (validate tok n1 n2 s)) = (token_claim (maybe_sweep_tokens n1 s))(tok := None)"
  by (auto simp: validate_def Let_def token_claim_def delete_conv' fun_eq_iff split: option.split)

lemma validate_result:
  assumes "tokens_wf s"
  shows "snd (validate tok n1 n2 s) = Inr (ses, dev) \<longleftrightarrow>
    (\<exists>c. token_claim (maybe_sweep_tokens n1 s) tok = Some c \<and> \<not> cl_expires c < n2 \<and>
         cl_session c = ses \<and> cl_device c = dev)"
  by (auto simp: validate_def Let_def token_claim_def split: option.split)

section \<open>The interface of the session registry\<close>

locale token_issuer =
  fixes issue :: "string \<Rightarrow> attach_claim \<Rightarrow> 't \<Rightarrow> 't"
    and redeem :: "string \<Rightarrow> gtime \<Rightarrow> 't \<Rightarrow> 't \<times> (token_error + string \<times> string)"
    and claim_at :: "gtime \<Rightarrow> 't \<Rightarrow> string \<Rightarrow> attach_claim option"
    and ok :: "'t \<Rightarrow> bool"
  assumes ok_issue: "ok s \<Longrightarrow> ok (issue tok c s)"
    and ok_redeem: "ok s \<Longrightarrow> ok (fst (redeem tok now s))"
    and issued: "ok s \<Longrightarrow> now \<le> cl_expires c \<Longrightarrow> claim_at now (issue tok c s) tok = Some c"
    and redeem_sound: "ok s \<Longrightarrow> snd (redeem tok now s) = Inr (ses, dev) \<longleftrightarrow>
      (\<exists>c. claim_at now s tok = Some c \<and> now \<le> cl_expires c \<and> cl_session c = ses \<and> cl_device c = dev)"
    and redeem_consumes: "ok s \<Longrightarrow> claim_at now' (fst (redeem tok now s)) tok = None"
begin

lemma redeem_issued:
  assumes "ok s" "now \<le> cl_expires c"
  shows "snd (redeem tok now (issue tok c s)) = Inr (cl_session c, cl_device c)"
  using redeem_sound [OF ok_issue [OF assms(1)], of tok now] issued [OF assms] assms(2) by auto

lemma redeem_twice:
  assumes "ok s"
  shows "snd (redeem tok now' (fst (redeem tok now s))) \<noteq> Inr (ses, dev)"
  using redeem_sound [OF ok_redeem [OF assms], of tok now' tok now] redeem_consumes [OF assms] by auto

end

text \<open>The provider: \<^verbatim>\<open>Mint\<close> at the clock of the claim, \<^verbatim>\<open>Validate\<close> with one clock reading for both uses.\<close>

definition issue_token :: "duration \<Rightarrow> string \<Rightarrow> attach_claim \<Rightarrow> token_service \<Rightarrow> token_service" where
  "issue_token ttl tok c s = fst (mint (Some tok) (cl_session c) (cl_device c) ttl (cl_expires c - ttl) s)"

lemma issue_token_claim:
  "tokens_wf s \<Longrightarrow> token_claim (issue_token ttl tok c s) tok = Some c"
  by (simp add: issue_token_def claim_mint)

interpretation attach_tokens: token_issuer "issue_token ttl" "\<lambda>tok now. validate tok now now"
    "\<lambda>now s. token_claim (maybe_sweep_tokens now s)" tokens_wf for ttl
proof unfold_locales
  fix s tok c assume wf: "tokens_wf s"
  show wf': "tokens_wf (issue_token ttl tok c s)"
    using tokens_wf_mint [OF wf] by (simp add: issue_token_def)
  fix now
  show "tokens_wf (fst (validate tok now now s))" using tokens_wf_validate [OF wf] .
  show "now \<le> cl_expires c \<Longrightarrow> token_claim (maybe_sweep_tokens now (issue_token ttl tok c s)) tok = Some c"
    by (simp add: claim_maybe_sweep [OF wf'] issue_token_claim [OF wf])
  fix now'
  show "token_claim (maybe_sweep_tokens now' (fst (validate tok now now s))) tok = None"
    by (simp add: claim_maybe_sweep [OF tokens_wf_validate [OF wf]] claim_validate)
  fix ses dev
  show "snd (validate tok now now s) = Inr (ses, dev) \<longleftrightarrow>
      (\<exists>c. token_claim (maybe_sweep_tokens now s) tok = Some c \<and> now \<le> cl_expires c \<and>
           cl_session c = ses \<and> cl_device c = dev)"
    by (auto simp: validate_result [OF wf] not_less)
qed

section \<open>Runs of the service\<close>

datatype token_op =
    OpMint "string option" string string duration gtime
  | OpValidate string gtime gtime
  | OpClear

fun token_step :: "token_service \<Rightarrow> token_op \<Rightarrow> token_service" where
  "token_step s (OpMint r ses dev ttl now) = fst (mint r ses dev ttl now s)"
| "token_step s (OpValidate tok n1 n2) = fst (validate tok n1 n2 s)"
| "token_step s OpClear = clear_all s"

lemma tokens_wf_clear: "tokens_wf (clear_all s)"
  by (simp add: clear_all_def tokens_wf_def)

lemma tokens_wf_step: "tokens_wf s \<Longrightarrow> tokens_wf (token_step s e)"
  by (cases e) (simp_all add: tokens_wf_mint tokens_wf_validate tokens_wf_clear)

interpretation token_machine: invariant_machine token_step tokens_wf "\<lambda>_. True"
  by unfold_locales (rule tokens_wf_step)

text \<open>
  The abstract service: an unbounded table of the tokens that were minted and neither presented nor
  cleared since. The code's table is a part of it: sweeps and evictions only drop entries.
\<close>

fun issued_step :: "(string \<rightharpoonup> attach_claim) \<Rightarrow> token_op \<Rightarrow> (string \<rightharpoonup> attach_claim)" where
  "issued_step m (OpMint (Some tok) ses dev ttl now) =
     m(tok \<mapsto> \<lparr>cl_session = ses, cl_device = dev, cl_expires = now + ttl\<rparr>)"
| "issued_step m (OpMint None ses dev ttl now) = m"
| "issued_step m (OpValidate tok n1 n2) = m(tok := None)"
| "issued_step m OpClear = Map.empty"

lemma map_leD: "m \<subseteq>\<^sub>m m' \<Longrightarrow> m k = Some v \<Longrightarrow> m' k = Some v"
  by (force simp: map_le_def dom_def)

lemma map_leI: "(\<And>k v. m k = Some v \<Longrightarrow> m' k = Some v) \<Longrightarrow> m \<subseteq>\<^sub>m m'"
  by (auto simp: map_le_def dom_def)

lemma token_step_refines:
  assumes "tokens_wf s" "token_claim s \<subseteq>\<^sub>m m"
  shows "token_claim (token_step s e) \<subseteq>\<^sub>m issued_step m e"
proof (cases e)
  case (OpMint r ses dev ttl now)
  then show ?thesis using assms make_room_sub [OF assms(1), of now] map_leD [OF assms(2)]
    by (cases r) (auto simp: mint_def [of None] claim_mint intro!: map_leI split: if_splits)
next
  case (OpValidate tok n1 n2)
  then show ?thesis using assms
    by (auto simp: claim_validate claim_maybe_sweep intro!: map_leI dest: map_leD
        split: if_splits option.splits)
qed (simp add: clear_all_def token_claim_def)

lemma run_refines:
  "tokens_wf s \<Longrightarrow> token_claim s \<subseteq>\<^sub>m m \<Longrightarrow>
     token_claim (run token_step s es) \<subseteq>\<^sub>m run issued_step m es"
  by (induction es arbitrary: s m) (auto intro: tokens_wf_step token_step_refines)

fun mints :: "string \<Rightarrow> token_op \<Rightarrow> bool" where
  "mints tok (OpMint (Some t) ses dev ttl now) \<longleftrightarrow> t = tok"
| "mints tok _ \<longleftrightarrow> False"

lemma issued_absent: "m tok = None \<Longrightarrow> list_all (\<lambda>e. \<not> mints tok e) es \<Longrightarrow> run issued_step m es tok = None"
proof (induction es arbitrary: m)
  case (Cons e es)
  then have "issued_step m e tok = None" by (cases "(m, e)" rule: issued_step.cases) auto
  with Cons show ?case by simp
qed simp

lemma tokens_wf_reachable: "tokens_wf (run token_step new_token_service es)"
  by (rule token_machine.run_inv [OF tokens_wf_new]) (simp add: list_all_iff)

section \<open>Properties\<close>

text \<open>
  The bounded table implements the abstract one: after any operations it holds at most 4096 tokens, and
  every token it holds is one that was minted for that session, device and deadline and has been neither
  presented nor cleared since.
\<close>

theorem tokens_refine_issued:
  "length (tk_tokens (run token_step new_token_service es)) \<le> 4096 \<and>
   token_claim (run token_step new_token_service es) \<subseteq>\<^sub>m run issued_step Map.empty es"
  using tokens_wf_reachable [of es] run_refines [OF tokens_wf_new, of Map.empty es]
  by (simp add: tokens_wf_def max_attach_tokens_def) (simp add: token_claim_def new_token_service_def)

text \<open>
  C39: A token authorizes one attach: when it is accepted it was issued for that session and device and its
  deadline has not passed, and from then on, until the same token is minted again, no presentation of
  it is accepted.
\<close>

theorem attach_token_single_use:
  assumes "s = run token_step new_token_service es"
    and "snd (validate tok n1 n2 s) = Inr (ses, dev)"
    and "list_all (\<lambda>e. \<not> mints tok e) later"
  shows "(\<exists>c. run issued_step Map.empty es tok = Some c \<and> cl_session c = ses \<and> cl_device c = dev \<and>
            n2 \<le> cl_expires c) \<and>
         snd (validate tok n3 n4 (run token_step (fst (validate tok n1 n2 s)) later)) = Inl ErrAttachTokenInvalid"
proof
  have wf: "tokens_wf s" using tokens_wf_reachable assms(1) by simp
  have ref: "token_claim s \<subseteq>\<^sub>m run issued_step Map.empty es" using tokens_refine_issued assms(1) by simp
  from assms(2) [unfolded validate_result [OF wf]] obtain c where
    "token_claim (maybe_sweep_tokens n1 s) tok = Some c" and c: "\<not> cl_expires c < n2" "cl_session c = ses"
    "cl_device c = dev" by blast
  then have "token_claim s tok = Some c" by (simp add: claim_maybe_sweep [OF wf] split: option.splits if_splits)
  then show "\<exists>c. run issued_step Map.empty es tok = Some c \<and> cl_session c = ses \<and> cl_device c = dev \<and>
      n2 \<le> cl_expires c" using c map_leD [OF ref] by (intro exI [of _ c]) auto
next
  have wf: "tokens_wf s" using tokens_wf_reachable assms(1) by simp
  let ?s1 = "fst (validate tok n1 n2 s)" and ?m = "run issued_step Map.empty es"
  have wf1: "tokens_wf ?s1" by (rule tokens_wf_validate [OF wf])
  have "token_claim ?s1 \<subseteq>\<^sub>m ?m(tok := None)"
    using token_step_refines [OF wf, of ?m "OpValidate tok n1 n2"] tokens_refine_issued [of es] assms(1) by simp
  from run_refines [OF wf1 this, of later]
  have "token_claim (run token_step ?s1 later) \<subseteq>\<^sub>m run issued_step (?m(tok := None)) later" .
  moreover have "run issued_step (?m(tok := None)) later tok = None"
    by (rule issued_absent [OF _ assms(3)]) simp
  ultimately have "token_claim (run token_step ?s1 later) tok = None"
    by (cases "token_claim (run token_step ?s1 later) tok") (auto dest: map_leD)
  moreover have "tokens_wf (run token_step ?s1 later)"
    by (rule token_machine.run_inv [OF wf1]) (simp add: list_all_iff)
  ultimately have "token_claim (maybe_sweep_tokens n3 (run token_step ?s1 later)) tok = None"
    by (simp add: claim_maybe_sweep)
  then show "snd (validate tok n3 n4 (run token_step ?s1 later)) = Inl ErrAttachTokenInvalid"
    by (simp add: validate_def Let_def token_claim_def)
qed

definition token_example :: "token_op list" where
  "token_example = [OpMint (Some ''t1'') ''sess'' ''dev'' (5 * minute) (100 * minute)]"

theorem attach_token_single_use_witness:
  "(\<exists>c. run issued_step Map.empty token_example ''t1'' = Some c \<and> cl_session c = ''sess'' \<and>
      cl_device c = ''dev'' \<and> 105 * minute \<le> cl_expires c) \<and>
   snd (validate ''t1'' (105 * minute) (105 * minute)
     (run token_step (fst (validate ''t1'' (105 * minute) (105 * minute)
        (run token_step new_token_service token_example))) [])) = Inl ErrAttachTokenInvalid"
proof (rule attach_token_single_use [OF refl])
  show "snd (validate ''t1'' (105 * minute) (105 * minute) (run token_step new_token_service token_example))
    = Inr (''sess'', ''dev'')"
    by (simp add: token_example_def new_token_service_def mint_def validate_def maybe_sweep_tokens_def
        sweep_tokens_def attach_token_sweep_every_def max_attach_tokens_def Let_def)
qed simp

text \<open>
  Minting into a full table evicts one token that expires no later than any other live one, and keeps
  every other token that has not expired.
\<close>

theorem mint_evicts_soonest_expiring:
  assumes "tokens_wf s" "length (tk_tokens (sweep_tokens now s)) = 4096"
    and "token_claim s tok = None"
  shows "\<exists>t c. token_claim s t = Some c \<and> \<not> cl_expires c < now \<and>
    (\<forall>t' c'. token_claim s t' = Some c' \<and> \<not> cl_expires c' < now \<longrightarrow> cl_expires c \<le> cl_expires c' \<and>
       (t' \<noteq> t \<longrightarrow> token_claim (fst (mint (Some tok) ses dev ttl now s)) t' = Some c')) \<and>
    token_claim (fst (mint (Some tok) ses dev ttl now s)) t = None"
proof -
  let ?s1 = "maybe_sweep_tokens now s" and ?s2 = "sweep_tokens now (maybe_sweep_tokens now s)"
  have wf: "tokens_wf ?s1" "tokens_wf ?s2" using assms(1) by auto
  have same: "tk_tokens ?s2 = tk_tokens (sweep_tokens now s)"
    by (simp add: maybe_sweep_tokens_def sweep_tokens_def)
  then have full: "length (tk_tokens ?s2) = max_attach_tokens" using assms(2) by (simp add: max_attach_tokens_def)
  moreover have "length (tk_tokens ?s2) \<le> length (tk_tokens ?s1)" by (simp add: sweep_tokens_def)
  ultimately have room: "make_room now s = evict_oldest ?s2" by (simp add: make_room_def Let_def)
  have cl: "token_claim ?s2 t = Some c \<longleftrightarrow> token_claim s t = Some c \<and> \<not> cl_expires c < now" for t c
    using claim_sweep [OF assms(1), of now t] by (auto simp: token_claim_def same split: option.splits if_splits)
  have "tk_tokens ?s2 \<noteq> []" using full by (auto simp: max_attach_tokens_def)
  from evict_oldest_spec [OF wf(2) this] obtain t c where t: "token_claim ?s2 t = Some c"
    "\<forall>(t', c') \<in> set (tk_tokens ?s2). cl_expires c \<le> cl_expires c'"
    "token_claim (evict_oldest ?s2) = (token_claim ?s2)(t := None)" by blast
  have "cl_expires c \<le> cl_expires c'" if "token_claim ?s2 t' = Some c'" for t' c'
    using that t(2) by (auto simp: token_claim_def dest!: map_of_SomeD)
  moreover have "t \<noteq> tok" using t(1) assms(3) cl by auto
  ultimately show ?thesis using t(1,3) assms(3) cl
    by (intro exI [of _ t] exI [of _ c]) (auto simp: claim_mint room)
qed

definition full_tokens :: token_service where
  "full_tokens = \<lparr>tk_tokens = map (\<lambda>i. (replicate i CHR ''a'',
     \<lparr>cl_session = [], cl_device = [], cl_expires = int i + 10\<rparr>)) [0..<4096], tk_last_sweep = 0\<rparr>"

theorem mint_evicts_soonest_expiring_witness:
  "\<exists>t c. token_claim full_tokens t = Some c \<and> \<not> cl_expires c < 5 \<and>
    (\<forall>t' c'. token_claim full_tokens t' = Some c' \<and> \<not> cl_expires c' < 5 \<longrightarrow> cl_expires c \<le> cl_expires c' \<and>
       (t' \<noteq> t \<longrightarrow> token_claim (fst (mint (Some ''b'') ''s'' ''d'' 300 5 full_tokens)) t' = Some c')) \<and>
    token_claim (fst (mint (Some ''b'') ''s'' ''d'' 300 5 full_tokens)) t = None"
proof (rule mint_evicts_soonest_expiring)
  have "inj_on (\<lambda>i. replicate i CHR ''a'') {0..<4096}"
    by (rule inj_onI) (metis length_replicate)
  then show "tokens_wf full_tokens"
    by (simp add: tokens_wf_def keys_distinct_def full_tokens_def comp_def distinct_map max_attach_tokens_def)
  show "length (tk_tokens (sweep_tokens 5 full_tokens)) = 4096"
    by (simp add: sweep_tokens_def full_tokens_def comp_def)
  have "replicate i CHR ''a'' \<noteq> ''b''" for i by (cases i) auto
  then show "token_claim full_tokens ''b'' = None"
    unfolding token_claim_def map_of_eq_None_iff full_tokens_def by force
qed

end
