(* ===== verification/Json_Frames.thy ===== *)
theory Json_Frames
  imports Prelude
begin

text \<open>
  JSON-RPC frames as the session layer sees them: the single parse of an agent frame
  (\<^verbatim>\<open>frameProbe\<close>) and of a client frame (\<^verbatim>\<open>clientFrame\<close>) of \<^verbatim>\<open>internal/session/pipeline.go\<close>, and the
  helpers that rewrite a frame.

  A line is its text together with what \<^verbatim>\<open>encoding/json\<close> makes of it (\<open>None\<close>: not valid JSON), so a
  frame that is passed on keeps its bytes and a frame that is rewritten gets the text \<open>render\<close>
  produces. Number literals are kept verbatim. Member names are matched exactly.
\<close>

section \<open>Values\<close>

datatype json =
    JNull
  | JBool bool
  | JNum string
  | JStr string
  | JArr "json list"
  | JObj "(string \<times> json) list"

text \<open>\<^verbatim>\<open>strconv.FormatInt(n, 10)\<close> for a non-negative \<open>n\<close>.\<close>

fun dec :: "nat \<Rightarrow> string" where
  "dec n = (if n < 10 then [char_of (48 + n)] else dec (n div 10) @ [char_of (48 + n mod 10)])"

declare dec.simps [simp del]

definition dec_int :: "int \<Rightarrow> string" where
  "dec_int i = (if i < 0 then CHR ''-'' # dec (nat (- i)) else dec (nat i))"

text \<open>\<^verbatim>\<open>json.Marshal\<close> escapes quotes, backslashes, control characters and \<^verbatim>\<open>< > &\<close>.\<close>

definition hex_digit :: "nat \<Rightarrow> char" where
  "hex_digit n = (if n < 10 then char_of (48 + n) else char_of (87 + n))"

definition escape_char :: "char \<Rightarrow> string" where
  "escape_char c =
     (let n = of_char c :: nat in
      if c = CHR 0x22 \<or> c = CHR 0x5C then [CHR 0x5C, c]
      else if n = 8 then [CHR 0x5C, CHR ''b'']
      else if n = 9 then [CHR 0x5C, CHR ''t'']
      else if n = 10 then [CHR 0x5C, CHR ''n'']
      else if n = 12 then [CHR 0x5C, CHR ''f'']
      else if n = 13 then [CHR 0x5C, CHR ''r'']
      else if n < 32 \<or> c \<in> set ''<>&''
        then [CHR 0x5C, CHR ''u'', CHR ''0'', CHR ''0'', hex_digit (n div 16), hex_digit (n mod 16)]
      else [c])"

definition quote_string :: "string \<Rightarrow> string" where
  "quote_string s = [CHR 0x22] @ concat (map escape_char s) @ [CHR 0x22]"

definition sep :: "string list \<Rightarrow> string" where
  "sep xs = (case xs of [] \<Rightarrow> [] | y # ys \<Rightarrow> y @ concat (map (\<lambda>s. CHR '','' # s) ys))"

fun render :: "json \<Rightarrow> string" where
  "render JNull = ''null''"
| "render (JBool b) = (if b then ''true'' else ''false'')"
| "render (JNum s) = s"
| "render (JStr s) = quote_string s"
| "render (JArr xs) = ''['' @ sep (map render xs) @ '']''"
| "render (JObj kvs) = ''{'' @ sep (map (\<lambda>(k, v). quote_string k @ '':'' @ render v) kvs) @ ''}''"

datatype wire = Wire (wire_text: string) (wire_json: "json option")

abbreviation wire_len :: "wire \<Rightarrow> nat" where "wire_len w \<equiv> length (wire_text w)"

definition marshal :: "json \<Rightarrow> wire" where
  "marshal j = Wire (render j) (Some j)"

text \<open>\<^verbatim>\<open>json.Marshal\<close> of a \<^verbatim>\<open>map[string]json.RawMessage\<close> writes the members in key order.\<close>

definition marshal_map :: "(string \<times> json) list \<Rightarrow> wire" where
  "marshal_map m = marshal (JObj (sort_key fst m))"

text \<open>\<^verbatim>\<open>json.Unmarshal\<close> into such a map: only objects; \<^verbatim>\<open>null\<close> leaves the map nil.\<close>

definition fields_of :: "json \<Rightarrow> (string \<times> json) list option" where
  "fields_of j = (case j of JObj kvs \<Rightarrow> Some (fold (\<lambda>(k, v). AList.update k v) kvs []) | _ \<Rightarrow> None)"

definition wire_fields :: "wire \<Rightarrow> (string \<times> json) list option" where
  "wire_fields w = Option.bind (wire_json w) fields_of"

definition member :: "string \<Rightarrow> json \<Rightarrow> json option" where
  "member k j = Option.bind (fields_of j) (\<lambda>m. map_of m k)"

section \<open>Agent frames\<close>

text \<open>
  What the SDK decodes (\<^verbatim>\<open>acp.Usage\<close>, \<^verbatim>\<open>acp.InitializeResponse\<close>) comes from a package outside the
  repository: \<open>sdk\<close> holds its decoders as parameters. \<open>us_json\<close> is the usage re-encoded.
  \<open>sdk_time\<close> is the RFC 3339 text of an instant and \<open>sdk_span\<close> where the \<^verbatim>\<open>jsontext\<close> decoder finds a frame's \<^verbatim>\<open>params.update\<close> and its \<^verbatim>\<open>_meta\<close>.
\<close>

record usage =
  us_total :: int
  us_input :: int
  us_output :: int
  us_json :: json

record init_info =
  in_close :: bool
  in_agent :: "(string \<times> string option) option"

record meta_span =
  ms_start :: nat
  ms_end :: nat
  ms_meta :: "(nat \<times> nat) option"

record sdk =
  sdk_usage :: "json \<Rightarrow> usage option"
  sdk_init :: "json \<Rightarrow> init_info option"
  sdk_span :: "string \<Rightarrow> meta_span option"
  sdk_time :: "gtime \<Rightarrow> string"

text \<open>Decoders that know nothing, for concrete evaluations.\<close>

definition null_sdk :: sdk where
  "null_sdk = \<lparr>sdk_usage = (\<lambda>_. None), sdk_init = (\<lambda>_. None), sdk_span = (\<lambda>_. None), sdk_time = (\<lambda>_. [])\<rparr>"

record probe_result =
  pr_protocol_version :: bool
  pr_session :: string
  pr_stop_reason :: string
  pr_usage :: "usage option"

record probe_update =
  pu_discriminator :: string
  pu_tool_call :: string
  pu_status :: string
  pu_kind :: string

record probe_params =
  pp_session :: string
  pp_request_id :: "json option"
  pp_update :: "probe_update option"

record frame_probe =
  fp_method :: string
  fp_id :: "json option"
  fp_result :: "probe_result option"
  fp_error :: "string option"
  fp_params :: "probe_params option"

definition no_probe :: frame_probe where
  "no_probe = \<lparr>fp_method = [], fp_id = None, fp_result = None, fp_error = None, fp_params = None\<rparr>"

text \<open>
  Typed decoding of a member: absent or \<^verbatim>\<open>null\<close> leaves the zero value, a value of another type is an
  error (\<open>None\<close>), which makes \<^verbatim>\<open>parseFrameProbe\<close> reject the whole frame.
\<close>

definition get_string :: "string \<Rightarrow> json \<Rightarrow> string option" where
  "get_string k j = (case member k j of None \<Rightarrow> Some [] | Some JNull \<Rightarrow> Some []
     | Some (JStr s) \<Rightarrow> Some s | Some _ \<Rightarrow> None)"

definition get_object :: "string \<Rightarrow> (json \<Rightarrow> 'a option) \<Rightarrow> json \<Rightarrow> 'a option option" where
  "get_object k dec_obj j = (case member k j of None \<Rightarrow> Some None | Some JNull \<Rightarrow> Some None
     | Some (JObj kvs) \<Rightarrow> map_option Some (dec_obj (JObj kvs)) | Some _ \<Rightarrow> None)"

definition is_int_literal :: "string \<Rightarrow> bool" where
  "is_int_literal s \<longleftrightarrow> s \<noteq> [] \<and> list_all (\<lambda>c. c \<in> set ''-0123456789'') s"

definition get_int_present :: "string \<Rightarrow> json \<Rightarrow> bool option" where
  "get_int_present k j = (case member k j of None \<Rightarrow> Some False | Some JNull \<Rightarrow> Some False
     | Some (JNum s) \<Rightarrow> if is_int_literal s then Some True else None | Some _ \<Rightarrow> None)"

definition decode_result :: "sdk \<Rightarrow> json \<Rightarrow> probe_result option" where
  "decode_result u j =
     Option.bind (get_int_present ''protocolVersion'' j) (\<lambda>pv.
     Option.bind (get_string ''sessionId'' j) (\<lambda>sid.
     Option.bind (get_string ''stopReason'' j) (\<lambda>sr.
     Option.bind (case member ''usage'' j of None \<Rightarrow> Some None | Some JNull \<Rightarrow> Some None
         | Some v \<Rightarrow> map_option Some (sdk_usage u v)) (\<lambda>us.
     Some \<lparr>pr_protocol_version = pv, pr_session = sid, pr_stop_reason = sr, pr_usage = us\<rparr>))))"

definition decode_update :: "json \<Rightarrow> probe_update option" where
  "decode_update j =
     Option.bind (get_string ''sessionUpdate'' j) (\<lambda>d.
     Option.bind (get_string ''toolCallId'' j) (\<lambda>t.
     Option.bind (get_string ''status'' j) (\<lambda>st.
     Option.bind (get_string ''kind'' j) (\<lambda>k.
     Some \<lparr>pu_discriminator = d, pu_tool_call = t, pu_status = st, pu_kind = k\<rparr>))))"

definition decode_params :: "json \<Rightarrow> probe_params option" where
  "decode_params j =
     Option.bind (get_string ''sessionId'' j) (\<lambda>sid.
     Option.bind (get_object ''update'' decode_update j) (\<lambda>up.
     Some \<lparr>pp_session = sid, pp_request_id = member ''requestId'' j, pp_update = up\<rparr>))"

definition parse_frame_probe :: "sdk \<Rightarrow> wire \<Rightarrow> frame_probe option" where
  "parse_frame_probe u w = (case wire_json w of
       None \<Rightarrow> None
     | Some JNull \<Rightarrow> Some no_probe
     | Some (JObj kvs) \<Rightarrow>
         (let j = JObj kvs in
          Option.bind (get_string ''method'' j) (\<lambda>m.
          Option.bind (get_object ''result'' (decode_result u) j) (\<lambda>r.
          Option.bind (get_object ''error'' (get_string ''message'') j) (\<lambda>e.
          Option.bind (get_object ''params'' decode_params j) (\<lambda>p.
          Some \<lparr>fp_method = m,
                fp_id = (case member ''id'' j of Some JNull \<Rightarrow> None | x \<Rightarrow> x),
                fp_result = r, fp_error = e, fp_params = p\<rparr>)))))
     | Some _ \<Rightarrow> None)"

section \<open>Client frames\<close>

record catch_up_request =
  cu_epoch :: string
  cu_after_seq :: int

record client_params =
  cp_session :: string
  cp_cwd :: string
  cp_request_id :: "json option"
  cp_prompt :: "json list"
  cp_catch_up :: "catch_up_request option"
  cp_client_id :: string

record client_frame =
  cf_raw :: wire
  cf_fields :: "(string \<times> json) list option"
  cf_method :: string
  cf_id :: "json option"
  cf_params :: client_params

definition no_params :: client_params where
  "no_params = \<lparr>cp_session = [], cp_cwd = [], cp_request_id = None, cp_prompt = [], cp_catch_up = None,
     cp_client_id = []\<rparr>"

text \<open>Best effort: a member of an unexpected shape stays zero and the others still decode.\<close>

definition string_or_zero :: "string \<Rightarrow> json \<Rightarrow> string" where
  "string_or_zero k j = (case member k j of Some (JStr s) \<Rightarrow> s | _ \<Rightarrow> [])"

fun int_of_digits :: "int \<Rightarrow> string \<Rightarrow> int" where
  "int_of_digits acc [] = acc"
| "int_of_digits acc (c # cs) = int_of_digits (10 * acc + (int (of_char c) - 48)) cs"

definition int_or_zero :: "string \<Rightarrow> json \<Rightarrow> int" where
  "int_or_zero k j = (case member k j of
     Some (JNum s) \<Rightarrow> if is_int_literal s
       then (case s of c # cs \<Rightarrow> if c = CHR ''-'' then - int_of_digits 0 cs else int_of_digits 0 s | [] \<Rightarrow> 0)
       else 0
   | _ \<Rightarrow> 0)"

definition decode_catch_up :: "json \<Rightarrow> catch_up_request option" where
  "decode_catch_up j = (case j of JNull \<Rightarrow> None
     | _ \<Rightarrow> Some \<lparr>cu_epoch = string_or_zero ''epoch'' j, cu_after_seq = int_or_zero ''afterSeq'' j\<rparr>)"

definition decode_client_params :: "json \<Rightarrow> client_params" where
  "decode_client_params j =
     (let meta = (case member ''_meta'' j of Some m \<Rightarrow> m | None \<Rightarrow> JNull) in
      \<lparr>cp_session = string_or_zero ''sessionId'' j, cp_cwd = string_or_zero ''cwd'' j,
       cp_request_id = member ''requestId'' j,
       cp_prompt = (case member ''prompt'' j of Some (JArr xs) \<Rightarrow> xs | _ \<Rightarrow> []),
       cp_catch_up = Option.bind (member ''ferngeist/catchUp'' meta) decode_catch_up,
       cp_client_id = string_or_zero ''ferngeist/clientId'' meta\<rparr>)"

definition parse_client_frame :: "wire \<Rightarrow> client_frame" where
  "parse_client_frame w = (case wire_fields w of
       None \<Rightarrow> \<lparr>cf_raw = w, cf_fields = None, cf_method = [], cf_id = None, cf_params = no_params\<rparr>
     | Some m \<Rightarrow>
         \<lparr>cf_raw = w, cf_fields = Some m,
          cf_method = (case map_of m ''method'' of Some (JStr s) \<Rightarrow> s | _ \<Rightarrow> []),
          cf_id = map_of m ''id'',
          cf_params = (case map_of m ''params'' of Some p \<Rightarrow> decode_client_params p | None \<Rightarrow> no_params)\<rparr>)"

section \<open>Rewriting\<close>

text \<open>\<^verbatim>\<open>responseIDKey\<close>: the text of a JSON-RPC id.\<close>

definition response_id_key :: "json \<Rightarrow> string" where
  "response_id_key = render"

text \<open>\<^verbatim>\<open>rewriteResponseID\<close>: the response with its id replaced; an absent id leaves the response's own.\<close>

definition rewrite_response_id :: "wire \<Rightarrow> json option \<Rightarrow> wire option" where
  "rewrite_response_id cached i = (case wire_fields cached of
       None \<Rightarrow> None
     | Some m \<Rightarrow> Some (marshal_map (case i of None \<Rightarrow> m | Some j \<Rightarrow> AList.update ''id'' j m)))"

section \<open>Facts\<close>

lemma distinct_fields_of: "fields_of j = Some m \<Longrightarrow> keys_distinct m"
proof -
  have "keys_distinct acc \<Longrightarrow> keys_distinct (fold (\<lambda>(k, v). AList.update k v) kvs acc)"
    for kvs and acc :: "(string \<times> json) list"
    by (induction kvs arbitrary: acc) (auto intro: keys_distinct_update)
  then show "fields_of j = Some m \<Longrightarrow> keys_distinct m"
    by (auto simp: fields_of_def split: json.splits)
qed

lemma map_of_fold_update:
  "map_of (fold (\<lambda>(k, v). AList.update k v) kvs acc) = map_of acc ++ map_of (rev kvs)"
proof (induction kvs arbitrary: acc)
  case (Cons kv kvs)
  then show ?case by (cases kv) (auto simp: update_conv' map_add_def fun_eq_iff split: option.splits)
qed simp

lemma map_of_sort_key: "keys_distinct m \<Longrightarrow> map_of (sort_key fst m) = map_of m"
  using map_of_inject_set [of "sort_key fst m" m]
  by (simp add: keys_distinct_def distinct_map)

lemma member_marshal_map:
  assumes "keys_distinct m"
  shows "Option.bind (wire_json (marshal_map m)) (member k) = map_of m k"
proof -
  have d: "keys_distinct (sort_key fst m)"
    using assms by (simp add: keys_distinct_def distinct_map)
  have "map_of (rev (sort_key fst m)) = map_of (sort_key fst m)"
    using map_of_inject_set [of "rev (sort_key fst m)" "sort_key fst m"] d
    by (simp add: keys_distinct_def rev_map [symmetric])
  then show ?thesis
    by (simp add: marshal_map_def marshal_def member_def fields_of_def map_of_fold_update map_of_sort_key [OF assms])
qed

lemma of_char_digit: "m < 10 \<Longrightarrow> of_char (char_of (48 + m) :: char) = (48 + m :: nat)"
  by (simp add: of_char_of)

lemma dec_digits: "list_all (\<lambda>c. of_char c < (58 :: nat)) (dec n)"
proof (induction n rule: dec.induct)
  case (1 n)
  then show ?case using of_char_digit [of n] of_char_digit [of "n mod 10"]
    by (subst dec.simps) simp
qed

fun undec :: "nat \<Rightarrow> string \<Rightarrow> nat" where
  "undec acc [] = acc"
| "undec acc (c # cs) = undec (10 * acc + (of_char c - 48)) cs"

lemma undec_append: "undec acc (xs @ ys) = undec (undec acc xs) ys"
  by (induction acc xs rule: undec.induct) auto

lemma undec_dec: "undec 0 (dec n) = n"
proof (induction n rule: dec.induct)
  case (1 n)
  show ?case
  proof (cases "n < 10")
    case True
    then show ?thesis by (subst dec.simps) (simp add: of_char_digit)
  next
    case False
    with 1 show ?thesis
      using of_char_digit [of "n mod 10"] by (subst dec.simps) (simp add: undec_append)
  qed
qed

lemma dec_inject [simp]: "dec m = dec n \<longleftrightarrow> m = n"
  by (metis undec_dec)

lemma dec_no_colon: "CHR '':'' \<notin> set (dec n)"
proof
  assume "CHR '':'' \<in> set (dec n)"
  moreover have "\<forall>c \<in> set (dec n). of_char c < (58 :: nat)"
    using dec_digits [of n] by (simp add: list_all_iff)
  ultimately have "of_char (CHR '':'') < (58 :: nat)" by blast
  then show False by simp
qed

end
