(* ===== verification/Request_Ids.thy ===== *)
theory Request_Ids
  imports Json_Frames Turn_Store
begin

text \<open>
  \<^verbatim>\<open>internal/session/request_ids.go\<close>: every client request gets a gateway-unique id on its way to the
  agent and its own id back on the reply; the agent's own unanswered requests are remembered. The
  callback \<^verbatim>\<open>turnsChanged\<close> is the counter \<open>rq_pokes\<close>: how often the turn feed was poked.
\<close>

section \<open>State\<close>

record agent_request =
  ar_key :: string
  ar_frame :: wire
  ar_session :: string
  ar_delivered :: nat
  ar_attention :: string
  ar_attention_session :: string

record pending_request =
  pq_gen :: nat
  pq_client_id :: json
  pq_owner :: string
  pq_method :: string
  pq_prompt_session :: string
  pq_prompt_client :: string
  pq_started :: gtime
  pq_load_session :: string

definition zero_pending :: pending_request where
  "zero_pending = \<lparr>pq_gen = 0, pq_client_id = JNull, pq_owner = [], pq_method = [], pq_prompt_session = [],
     pq_prompt_client = [], pq_started = zero_time, pq_load_session = []\<rparr>"

record request_ids =
  rq_next :: nat
  rq_pending :: "(string \<times> pending_request) list"
  rq_by_owner :: "string \<rightharpoonup> string"
  rq_agent_reqs :: "agent_request list"
  rq_pokes :: nat

definition new_request_ids :: request_ids where
  "new_request_ids = \<lparr>rq_next = 0, rq_pending = [], rq_by_owner = Map.empty, rq_agent_reqs = [],
     rq_pokes = 0\<rparr>"

definition max_pending_agent_requests :: nat where "max_pending_agent_requests = 64"

definition ids_changed :: "request_ids \<Rightarrow> request_ids" where
  "ids_changed r = r\<lparr>rq_pokes := Suc (rq_pokes r)\<rparr>"

definition owner_key :: "nat \<Rightarrow> json \<Rightarrow> string" where
  "owner_key gen client_id = dec gen @ '':'' @ render client_id"

definition turn_ended_method :: string where "turn_ended_method = ''_ferngeist/turn_ended''"
definition elicitation_method :: string where "elicitation_method = ''elicitation/create''"

section \<open>The agent's requests\<close>

text \<open>\<^verbatim>\<open>dropAgentRequestLocked\<close>: the first request with the key goes.\<close>

fun drop_agent_request :: "string \<Rightarrow> agent_request list \<Rightarrow> agent_request list \<times> bool" where
  "drop_agent_request key [] = ([], False)"
| "drop_agent_request key (a # as) =
     (if ar_key a = key then (as, True)
      else let (as', b) = drop_agent_request key as in (a # as', b))"

definition drop_session_agent_requests :: "string \<Rightarrow> agent_request list \<Rightarrow> agent_request list" where
  "drop_session_agent_requests sid =
     filter (\<lambda>a. ar_session a \<noteq> sid \<and> ar_attention_session a \<noteq> sid)"

definition answer_agent_request :: "json \<Rightarrow> request_ids \<Rightarrow> request_ids" where
  "answer_agent_request i r =
     (let (as, b) = drop_agent_request (response_id_key i) (rq_agent_reqs r);
          r' = r\<lparr>rq_agent_reqs := as\<rparr>
      in if b then ids_changed r' else r')"

text \<open>The pending prompt's session of a request id; the zero entry where there is none.\<close>

definition pending_prompt_session :: "request_ids \<Rightarrow> json \<Rightarrow> string" where
  "pending_prompt_session r i =
     (case map_of (rq_pending r) (response_id_key i) of None \<Rightarrow> [] | Some p \<Rightarrow> pq_prompt_session p)"

definition set_attention :: "request_ids \<Rightarrow> frame_probe \<Rightarrow> agent_request \<Rightarrow> agent_request" where
  "set_attention r probe a =
     (if fp_method probe = ''session/request_permission''
      then a\<lparr>ar_attention := attention_permission, ar_attention_session := ar_session a\<rparr>
      else if fp_method probe = elicitation_method
      then
        let s = (if ar_session a = [] then
               (case Option.bind (fp_params probe) pp_request_id of
                  None \<Rightarrow> [] | Some i \<Rightarrow> pending_prompt_session r i)
             else ar_session a)
        in a\<lparr>ar_attention_session := s,
              ar_attention := (if s \<noteq> [] then attention_elicitation else ar_attention a)\<rparr>
      else a)"

text \<open>A repeated id replaces the earlier request; at the cap the oldest goes.\<close>

definition push_agent_request :: "agent_request \<Rightarrow> agent_request list \<Rightarrow> agent_request list" where
  "push_agent_request a as0 =
     (let as = fst (drop_agent_request (ar_key a) as0);
          as' = (if max_pending_agent_requests \<le> length as then tl as else as)
      in as' @ [a])"

definition track_agent_request :: "frame_probe \<Rightarrow> wire \<Rightarrow> nat \<Rightarrow> request_ids \<Rightarrow> request_ids" where
  "track_agent_request probe line delivered_gen r =
     (case fp_id probe of
        None \<Rightarrow> r
      | Some i \<Rightarrow>
          if fp_method probe = [] then r
          else
            let a0 = \<lparr>ar_key = response_id_key i, ar_frame = line,
                   ar_session = (case fp_params probe of None \<Rightarrow> [] | Some p \<Rightarrow> pp_session p),
                   ar_delivered = delivered_gen, ar_attention = [], ar_attention_session = []\<rparr>
            in ids_changed (r\<lparr>rq_agent_reqs :=
                 push_agent_request (set_attention r probe a0) (rq_agent_reqs r)\<rparr>))"

section \<open>Client requests on their way to the agent\<close>

definition origin_of :: "nat \<Rightarrow> json \<Rightarrow> gtime \<Rightarrow> client_frame \<Rightarrow> pending_request" where
  "origin_of gen client_id now f =
     (let o0 = zero_pending\<lparr>pq_gen := gen, pq_client_id := client_id,
            pq_owner := owner_key gen client_id, pq_method := cf_method f\<rparr>
      in if cf_method f = ''session/prompt''
         then o0\<lparr>pq_prompt_session := cp_session (cf_params f),
                 pq_prompt_client := cp_client_id (cf_params f), pq_started := now\<rparr>
         else if cf_method f = ''session/load'' \<or> cf_method f = ''session/resume''
         then o0\<lparr>pq_load_session := cp_session (cf_params f)\<rparr>
         else o0)"

text \<open>\<^verbatim>\<open>retargetCancel\<close>: the rewritten top-level fields, or \<open>None\<close> when nothing is rewritten.\<close>

definition retarget_cancel ::
  "nat \<Rightarrow> client_frame \<Rightarrow> (string \<times> json) list \<Rightarrow> request_ids \<Rightarrow> (string \<times> json) list option" where
  "retarget_cancel gen f members r =
     (case cp_request_id (cf_params f) of
        None \<Rightarrow> None
      | Some i \<Rightarrow>
          (case rq_by_owner r (owner_key gen i) of
             None \<Rightarrow> None
           | Some agent_id \<Rightarrow>
               (case Option.bind (map_of members ''params'') fields_of of
                  None \<Rightarrow> None
                | Some params \<Rightarrow>
                    Some (AList.update ''params''
                      (JObj (sort_key fst (AList.update ''requestId'' (JNum agent_id) params))) members))))"

definition register_request :: "pending_request \<Rightarrow> request_ids \<Rightarrow> request_ids \<times> string" where
  "register_request origin r =
     (let n = Suc (rq_next r); agent_id = dec n in
      (ids_changed (r\<lparr>rq_next := n, rq_pending := AList.update agent_id origin (rq_pending r),
         rq_by_owner := (rq_by_owner r)(pq_owner origin \<mapsto> agent_id)\<rparr>), agent_id))"

definition outbound :: "nat \<Rightarrow> gtime \<Rightarrow> client_frame \<Rightarrow> request_ids \<Rightarrow> request_ids \<times> client_frame" where
  "outbound gen now f r =
     (case cf_fields f of
        None \<Rightarrow> (r, f)
      | Some members \<Rightarrow>
          if cf_method f = [] then
            (case cf_id f of None \<Rightarrow> (r, f) | Some i \<Rightarrow> (answer_agent_request i r, f))
          else
            (case cf_id f of
               None \<Rightarrow>
                 (if cf_method f = ''$/cancel_request'' then
                    (case retarget_cancel gen f members r of
                       None \<Rightarrow> (r, f)
                     | Some members' \<Rightarrow> (r, f\<lparr>cf_fields := Some members', cf_raw := marshal_map members'\<rparr>))
                  else (r, f))
             | Some client_id \<Rightarrow>
                 let (r', agent_id) = register_request (origin_of gen client_id now f) r;
                     members' = AList.update ''id'' (JNum agent_id) members
                 in (r', f\<lparr>cf_id := Some (JNum agent_id), cf_fields := Some members',
                           cf_raw := marshal_map members'\<rparr>)))"

section \<open>Replies\<close>

definition peek :: "frame_probe \<Rightarrow> request_ids \<Rightarrow> pending_request option" where
  "peek probe r =
     (case fp_id probe of
        None \<Rightarrow> None
      | Some i \<Rightarrow> if fp_method probe \<noteq> [] then None else map_of (rq_pending r) (response_id_key i))"

definition forget_pending :: "string \<Rightarrow> pending_request \<Rightarrow> request_ids \<Rightarrow> request_ids" where
  "forget_pending agent_id origin r =
     r\<lparr>rq_pending := AList.delete agent_id (rq_pending r),
       rq_by_owner := (rq_by_owner r)(pq_owner origin := None)\<rparr>"

definition turn_ended_frame :: "string \<Rightarrow> frame_probe \<Rightarrow> wire" where
  "turn_ended_frame sid probe =
     (let stop = (case fp_result probe of None \<Rightarrow> ''end_turn''
            | Some res \<Rightarrow> if pr_stop_reason res \<noteq> [] then pr_stop_reason res else ''end_turn'')
      in marshal (JObj [(''jsonrpc'', JStr ''2.0''), (''method'', JStr turn_ended_method),
           (''params'', JObj [(''sessionId'', JStr sid), (''stopReason'', JStr stop)])]))"

definition milliseconds :: "duration \<Rightarrow> int" where
  "milliseconds d = sgn d * (\<bar>d\<bar> div millisecond)"

definition with_turn_duration :: "wire \<Rightarrow> duration \<Rightarrow> wire" where
  "with_turn_duration frame d =
     (case wire_fields frame of None \<Rightarrow> frame | Some msg \<Rightarrow>
      (case Option.bind (map_of msg ''result'') fields_of of None \<Rightarrow> frame | Some result \<Rightarrow>
       (case (case map_of result ''_meta'' of None \<Rightarrow> Some [] | Some JNull \<Rightarrow> Some []
                | Some m \<Rightarrow> fields_of m) of
          None \<Rightarrow> frame
        | Some meta \<Rightarrow>
            (let meta' = AList.update ''ferngeist''
                   (JObj [(''durationMs'', JNum (dec_int (milliseconds d)))]) meta;
                 result' = AList.update ''_meta'' (JObj (sort_key fst meta')) result
             in marshal_map (AList.update ''result'' (JObj (sort_key fst result')) msg)))))"

definition reply ::
  "nat \<Rightarrow> gtime \<Rightarrow> frame_probe \<Rightarrow> wire list \<Rightarrow> request_ids \<Rightarrow> request_ids \<times> wire list" where
  "reply current_gen now probe frames r =
     (case fp_id probe of
        None \<Rightarrow> (r, frames)
      | Some i \<Rightarrow>
          if fp_method probe \<noteq> [] \<or> frames = [] then (r, frames)
          else
            let agent_id = response_id_key i in
            (case map_of (rq_pending r) agent_id of
               None \<Rightarrow> (r, frames)
             | Some origin \<Rightarrow>
                 let r1 = forget_pending agent_id origin r;
                     r2 = (if pq_prompt_session origin \<noteq> []
                           then r1\<lparr>rq_agent_reqs :=
                             drop_session_agent_requests (pq_prompt_session origin) (rq_agent_reqs r1)\<rparr>
                           else r1);
                     r3 = ids_changed r2
                 in if pq_gen origin \<noteq> current_gen
                    then (r3, if pq_prompt_session origin = [] then []
                              else [turn_ended_frame (pq_prompt_session origin) probe])
                    else
                      let l = last frames;
                          l1 = (case rewrite_response_id l (Some (pq_client_id origin)) of
                                  None \<Rightarrow> l | Some out \<Rightarrow> out);
                          l2 = (if pq_prompt_session origin \<noteq> []
                                then with_turn_duration l1 (now - pq_started origin) else l1)
                      in (r3, butlast frames @ [l2])))"

definition discard :: "json \<Rightarrow> request_ids \<Rightarrow> request_ids" where
  "discard agent_id r =
     (case map_of (rq_pending r) (response_id_key agent_id) of
        None \<Rightarrow> r
      | Some origin \<Rightarrow> ids_changed (forget_pending (response_id_key agent_id) origin r))"

text \<open>\<^verbatim>\<open>takePrompts\<close>: the loop deletes each pending prompt as it meets it.\<close>

fun take_loop :: "(string \<times> pending_request) list \<Rightarrow> request_ids \<Rightarrow> request_ids \<times> pending_request list" where
  "take_loop [] r = (r, [])"
| "take_loop ((k, p) # rest) r =
     (if pq_prompt_session p \<noteq> []
      then let (r', ps) = take_loop rest (forget_pending k p r) in (r', p # ps)
      else take_loop rest r)"

definition take_prompts :: "request_ids \<Rightarrow> request_ids \<times> pending_request list" where
  "take_prompts r =
     (let (r', ps) = take_loop (rq_pending r) r
      in (if ps \<noteq> [] then ids_changed r' else r', ps))"

definition has_agent_requests :: "request_ids \<Rightarrow> bool" where
  "has_agent_requests r \<longleftrightarrow> 0 < length (rq_agent_reqs r)"

text \<open>\<^verbatim>\<open>redeliver\<close> marks what it appends as sent to the connection.\<close>

fun redeliver_loop :: "nat \<Rightarrow> string \<Rightarrow> agent_request list \<Rightarrow> agent_request list \<times> wire list" where
  "redeliver_loop gen sid [] = ([], [])"
| "redeliver_loop gen sid (a # as) =
     (let (as', out) = redeliver_loop gen sid as in
      if ar_session a = sid \<and> ar_delivered a \<noteq> gen
      then (a\<lparr>ar_delivered := gen\<rparr> # as', ar_frame a # out)
      else (a # as', out))"

definition redeliver :: "nat \<Rightarrow> string \<Rightarrow> wire list \<Rightarrow> request_ids \<Rightarrow> request_ids \<times> wire list" where
  "redeliver gen sid frames r =
     (let (as, out) = redeliver_loop gen sid (rq_agent_reqs r)
      in (r\<lparr>rq_agent_reqs := as\<rparr>, frames @ out))"

definition scope_elicitation :: "nat \<Rightarrow> frame_probe \<Rightarrow> wire list \<Rightarrow> request_ids \<Rightarrow> wire list" where
  "scope_elicitation gen probe frames r =
     (case (fp_method probe = elicitation_method, Option.bind (fp_params probe) pp_request_id, frames) of
        (True, Some i, [frame]) \<Rightarrow>
          (case map_of (rq_pending r) (response_id_key i) of
             None \<Rightarrow> frames
           | Some origin \<Rightarrow>
               if pq_gen origin \<noteq> gen then frames
               else
                 (case wire_fields frame of None \<Rightarrow> frames | Some msg \<Rightarrow>
                  (case Option.bind (map_of msg ''params'') fields_of of None \<Rightarrow> frames | Some params \<Rightarrow>
                     [marshal_map (AList.update ''params''
                        (JObj (sort_key fst (AList.update ''requestId'' (pq_client_id origin) params))) msg)])))
      | _ \<Rightarrow> frames)"

section \<open>Running prompts\<close>

definition max_time :: "gtime \<Rightarrow> gtime \<Rightarrow> gtime" where
  "max_time a b = (if a < b then b else a)"

definition prompt_started_at :: "string \<Rightarrow> request_ids \<Rightarrow> gtime option" where
  "prompt_started_at sid r =
     fold (\<lambda>(k, p) acc. if pq_prompt_session p = sid
        then Some (max_time (case acc of None \<Rightarrow> zero_time | Some t \<Rightarrow> t) (pq_started p)) else acc)
       (rq_pending r) None"

definition prompt_running :: "string \<Rightarrow> request_ids \<Rightarrow> bool" where
  "prompt_running sid r \<longleftrightarrow> prompt_started_at sid r \<noteq> None"

record live_turn =
  lt_session :: string
  lt_started :: gtime
  lt_attention :: "string list"

definition live_sessions :: "(string \<times> pending_request) list \<Rightarrow> (string \<times> gtime) list" where
  "live_sessions pending =
     fold (\<lambda>(k, p) acc. if pq_prompt_session p = [] then acc
        else AList.update (pq_prompt_session p)
          (max_time (case map_of acc (pq_prompt_session p) of None \<Rightarrow> zero_time | Some t \<Rightarrow> t) (pq_started p))
          acc) pending []"

definition live_turns :: "request_ids \<Rightarrow> live_turn list" where
  "live_turns r =
     map (\<lambda>(sid, started). \<lparr>lt_session = sid, lt_started = started,
       lt_attention = remdups_adj (sort (map ar_attention
         (filter (\<lambda>a. ar_attention_session a = sid \<and> ar_attention a \<noteq> []) (rq_agent_reqs r))))\<rparr>)
       (live_sessions (rq_pending r))"

end
