(* ===== verification/Request_Ids_Proofs.thy ===== *)
theory Request_Ids_Proofs
  imports Request_Ids
begin

text \<open>
  Invariants and properties of the request-id translation: ids are never reused, replies reach only the
  connection that asked, cancels hit only their own connection's request, and every change a turn
  snapshot can show pokes the feed.
\<close>

section \<open>Runs\<close>

datatype ids_op =
    OpOutbound nat gtime client_frame
  | OpTrack frame_probe wire nat
  | OpReply nat gtime frame_probe "wire list"
  | OpDiscard json
  | OpTakePrompts
  | OpRedeliver nat string

fun ids_step :: "request_ids \<Rightarrow> ids_op \<Rightarrow> request_ids" where
  "ids_step r (OpOutbound gen now f) = fst (outbound gen now f r)"
| "ids_step r (OpTrack probe line gen) = track_agent_request probe line gen r"
| "ids_step r (OpReply gen now probe frames) = fst (reply gen now probe frames r)"
| "ids_step r (OpDiscard i) = discard i r"
| "ids_step r OpTakePrompts = fst (take_prompts r)"
| "ids_step r (OpRedeliver gen sid) = fst (redeliver gen sid [] r)"

section \<open>The invariant\<close>

definition pending_ok :: "nat \<Rightarrow> (string \<times> pending_request) list \<Rightarrow> bool" where
  "pending_ok n pending \<longleftrightarrow> keys_distinct pending \<and>
     (\<forall>(k, p) \<in> set pending. (\<exists>m. 0 < m \<and> m \<le> n \<and> k = dec m) \<and>
        pq_owner p = owner_key (pq_gen p) (pq_client_id p))"

definition owners_ok :: "request_ids \<Rightarrow> bool" where
  "owners_ok r \<longleftrightarrow> (\<forall>w a. rq_by_owner r w = Some a \<longrightarrow>
     (\<exists>p. map_of (rq_pending r) a = Some p \<and> pq_owner p = w))"

definition agent_reqs_ok :: "agent_request list \<Rightarrow> bool" where
  "agent_reqs_ok as \<longleftrightarrow> length as \<le> max_pending_agent_requests \<and> distinct (map ar_key as)"

definition ids_inv :: "request_ids \<Rightarrow> bool" where
  "ids_inv r \<longleftrightarrow> pending_ok (rq_next r) (rq_pending r) \<and> owners_ok r \<and> agent_reqs_ok (rq_agent_reqs r)"

lemma ids_inv_new: "ids_inv new_request_ids"
  by (simp add: ids_inv_def new_request_ids_def pending_ok_def owners_ok_def agent_reqs_ok_def)

lemma ids_inv_changed [simp]: "ids_inv (ids_changed r) = ids_inv r"
  by (simp add: ids_inv_def ids_changed_def owners_ok_def)

lemma pending_fresh: "pending_ok n pending \<Longrightarrow> map_of pending (dec (Suc n)) = None"
  by (fastforce simp: pending_ok_def map_of_eq_None_iff)

lemma pending_ok_delete: "pending_ok n pending \<Longrightarrow> pending_ok n (AList.delete k pending)"
  by (auto simp: pending_ok_def set_delete_alist)

lemma owners_ok_forget:
  assumes "owners_ok r" "map_of (rq_pending r) k = Some p"
  shows "owners_ok (forget_pending k p r)"
  using assms by (fastforce simp: owners_ok_def forget_pending_def delete_conv')

lemma ids_inv_forget:
  "ids_inv r \<Longrightarrow> map_of (rq_pending r) k = Some p \<Longrightarrow> ids_inv (forget_pending k p r)"
  using owners_ok_forget [of r k p]
  by (simp add: ids_inv_def pending_ok_delete) (simp add: forget_pending_def pending_ok_delete)

lemma register_fields:
  "rq_pending (fst (register_request p r)) = AList.update (dec (Suc (rq_next r))) p (rq_pending r)"
  "rq_by_owner (fst (register_request p r)) = (rq_by_owner r)(pq_owner p \<mapsto> dec (Suc (rq_next r)))"
  "rq_next (fst (register_request p r)) = Suc (rq_next r)"
  "rq_agent_reqs (fst (register_request p r)) = rq_agent_reqs r"
  "snd (register_request p r) = dec (Suc (rq_next r))"
  by (simp_all add: register_request_def Let_def ids_changed_def)

lemma ids_inv_register:
  assumes "ids_inv r" "pq_owner p = owner_key (pq_gen p) (pq_client_id p)"
  shows "ids_inv (fst (register_request p r))"
proof -
  let ?n = "Suc (rq_next r)"
  have ok: "pending_ok (rq_next r) (rq_pending r)" "owners_ok r" using assms(1) by (auto simp: ids_inv_def)
  have "\<exists>m. 0 < m \<and> m \<le> ?n \<and> dec ?n = dec m" by (rule exI [of _ ?n]) simp
  then have "pending_ok ?n (AList.update (dec ?n) p (rq_pending r))"
    using ok(1) assms(2) set_update_subset [of "dec ?n" p "rq_pending r"]
    by (auto simp: pending_ok_def keys_distinct_update dest!: subsetD)
  moreover have "owners_ok (fst (register_request p r))"
    unfolding owners_ok_def register_fields
  proof (intro allI impI)
    fix w a assume w: "((rq_by_owner r)(pq_owner p \<mapsto> dec ?n)) w = Some a"
    show "\<exists>q. map_of (AList.update (dec ?n) p (rq_pending r)) a = Some q \<and> pq_owner q = w"
    proof (cases "w = pq_owner p")
      case False
      with w ok(2) obtain q where q: "map_of (rq_pending r) a = Some q" "pq_owner q = w"
        by (auto simp: owners_ok_def)
      then have "a \<noteq> dec ?n" using pending_fresh [OF ok(1)] by auto
      with q show ?thesis by (simp add: update_conv')
    qed (use w in \<open>simp add: update_conv'\<close>)
  qed
  ultimately show ?thesis using assms(1) by (simp add: ids_inv_def register_fields)
qed

lemma origin_owner: "pq_owner (origin_of gen i now f) = owner_key (pq_gen (origin_of gen i now f))
    (pq_client_id (origin_of gen i now f))"
  by (simp add: origin_of_def Let_def)

lemma drop_agent_request_filter:
  "distinct (map ar_key as) \<Longrightarrow> fst (drop_agent_request k as) = filter (\<lambda>a. ar_key a \<noteq> k) as"
  by (induction k as rule: drop_agent_request.induct)
    (force simp: split_beta image_iff intro!: filter_True [symmetric])+

lemma drop_agent_request_found:
  "snd (drop_agent_request k as) \<longleftrightarrow> k \<in> ar_key ` set as"
  by (induction k as rule: drop_agent_request.induct) (auto simp: split_beta)

lemma drop_agent_request_same: "\<not> snd (drop_agent_request k as) \<Longrightarrow> fst (drop_agent_request k as) = as"
  by (induction k as rule: drop_agent_request.induct) (auto simp: split_beta split: if_splits)

lemma agent_reqs_ok_filter [intro]: "agent_reqs_ok as \<Longrightarrow> agent_reqs_ok (filter P as)"
  by (auto simp: agent_reqs_ok_def distinct_map_filter intro: le_trans [OF length_filter_le])

lemma agent_reqs_ok_drop [intro]: "agent_reqs_ok as \<Longrightarrow> agent_reqs_ok (fst (drop_agent_request k as))"
  using agent_reqs_ok_filter [of as] by (simp add: agent_reqs_ok_def drop_agent_request_filter)

lemma ids_inv_agent_reqs: "ids_inv r \<Longrightarrow> agent_reqs_ok as \<Longrightarrow> ids_inv (r\<lparr>rq_agent_reqs := as\<rparr>)"
  by (simp add: ids_inv_def owners_ok_def)

lemma ids_inv_reqs: "ids_inv r \<Longrightarrow> agent_reqs_ok (rq_agent_reqs r)"
  by (simp add: ids_inv_def)

lemma ids_inv_answer: "ids_inv r \<Longrightarrow> ids_inv (answer_agent_request i r)"
  by (auto simp: answer_agent_request_def Let_def split_beta dest: ids_inv_reqs
      intro!: ids_inv_agent_reqs)

lemma agent_reqs_ok_tl: "agent_reqs_ok as \<Longrightarrow> agent_reqs_ok (tl as)"
  by (cases as) (auto simp: agent_reqs_ok_def)

lemma agent_reqs_ok_push:
  assumes "agent_reqs_ok as0"
  shows "agent_reqs_ok (push_agent_request a as0)"
proof -
  let ?as = "fst (drop_agent_request (ar_key a) as0)"
  have ok: "agent_reqs_ok ?as" using assms by auto
  have "ar_key a \<notin> ar_key ` set ?as"
    using assms by (auto simp: drop_agent_request_filter agent_reqs_ok_def)
  moreover have "set (tl ?as) \<subseteq> set ?as" by (cases ?as) auto
  ultimately have "ar_key a \<notin> ar_key ` set ?as" "ar_key a \<notin> ar_key ` set (tl ?as)" by blast+
  with ok agent_reqs_ok_tl [OF ok] show ?thesis
    by (auto simp: agent_reqs_ok_def max_pending_agent_requests_def push_agent_request_def Let_def)
qed

lemma ids_inv_track: "ids_inv r \<Longrightarrow> ids_inv (track_agent_request probe line gen r)"
  by (auto simp: track_agent_request_def Let_def split: option.split dest: ids_inv_reqs
      intro!: ids_inv_agent_reqs agent_reqs_ok_push)

lemma ids_inv_outbound: "ids_inv r \<Longrightarrow> ids_inv (fst (outbound gen now f r))"
  using ids_inv_register [OF _ origin_owner]
  by (auto simp: outbound_def Let_def split_beta ids_inv_answer split: option.split)

lemma ids_inv_reply: "ids_inv r \<Longrightarrow> ids_inv (fst (reply gen now probe frames r))"
proof -
  assume inv: "ids_inv r"
  have "ids_inv (r'\<lparr>rq_agent_reqs := drop_session_agent_requests s (rq_agent_reqs r')\<rparr>)" if "ids_inv r'" for r' s
    using that by (intro ids_inv_agent_reqs) (auto simp: drop_session_agent_requests_def ids_inv_def)
  then show ?thesis using inv
    by (auto simp: reply_def Let_def split: option.split intro: ids_inv_forget)
qed

lemma ids_inv_discard: "ids_inv r \<Longrightarrow> ids_inv (discard i r)"
  by (auto simp: discard_def ids_inv_forget split: option.split)

lemma take_loop_inv:
  "ids_inv r \<Longrightarrow> keys_distinct ps \<Longrightarrow> (\<forall>(k, p) \<in> set ps. map_of (rq_pending r) k = Some p) \<Longrightarrow>
     ids_inv (fst (take_loop ps r))"
proof (induction ps r rule: take_loop.induct)
  case (2 k p rest r)
  show ?case
  proof (cases "pq_prompt_session p \<noteq> []")
    case True
    have "ids_inv (fst (take_loop rest (forget_pending k p r)))"
    proof (rule "2.IH"(1) [OF True])
      show "ids_inv (forget_pending k p r)" using "2.prems" by (auto intro: ids_inv_forget)
      show "\<forall>(k', p') \<in> set rest. map_of (rq_pending (forget_pending k p r)) k' = Some p'"
      proof clarify
        fix k' p' assume rest: "(k', p') \<in> set rest"
        then have "k' \<noteq> k" using "2.prems"(2) by (force simp: keys_distinct_def)
        with rest "2.prems"(3) show "map_of (rq_pending (forget_pending k p r)) k' = Some p'"
          by (force simp: forget_pending_def delete_conv')
      qed
    qed (use "2.prems"(2) in \<open>simp add: keys_distinct_def\<close>)
    with True show ?thesis by (simp add: split_beta)
  next
    case False
    with "2.IH"(2) "2.prems" show ?thesis by (auto simp: keys_distinct_def)
  qed
qed simp

lemma ids_inv_take: "ids_inv r \<Longrightarrow> ids_inv (fst (take_prompts r))"
proof -
  assume inv: "ids_inv r"
  then have "keys_distinct (rq_pending r)" by (simp add: ids_inv_def pending_ok_def)
  then have "\<forall>(k, p) \<in> set (rq_pending r). map_of (rq_pending r) k = Some p"
    by (auto simp: keys_distinct_def)
  from take_loop_inv [OF inv \<open>keys_distinct _\<close> this] show ?thesis
    by (simp add: take_prompts_def Let_def split_beta)
qed

lemma redeliver_loop_keys: "map ar_key (fst (redeliver_loop gen sid as)) = map ar_key as \<and>
    map (\<lambda>a. (ar_attention a, ar_attention_session a)) (fst (redeliver_loop gen sid as)) =
    map (\<lambda>a. (ar_attention a, ar_attention_session a)) as"
  by (induction as) (auto simp: split_beta)

lemma ids_inv_redeliver: "ids_inv r \<Longrightarrow> ids_inv (fst (redeliver gen sid frames r))"
proof -
  assume inv: "ids_inv r"
  have "length (fst (redeliver_loop gen sid as)) = length as" for as
    using redeliver_loop_keys [of gen sid as] by (metis length_map)
  then have "agent_reqs_ok (fst (redeliver_loop gen sid (rq_agent_reqs r)))"
    using inv redeliver_loop_keys [of gen sid "rq_agent_reqs r"] by (simp add: ids_inv_def agent_reqs_ok_def)
  with inv show ?thesis by (simp add: redeliver_def split_beta ids_inv_agent_reqs)
qed

lemma ids_inv_step: "ids_inv r \<Longrightarrow> ids_inv (ids_step r e)"
  by (cases e) (simp_all add: ids_inv_outbound ids_inv_track ids_inv_reply ids_inv_discard ids_inv_take
      ids_inv_redeliver)

interpretation ids_machine: invariant_machine ids_step ids_inv "\<lambda>_. True"
  by unfold_locales (rule ids_inv_step)

lemma ids_inv_reachable: "ids_inv (run ids_step new_request_ids es)"
  by (rule ids_machine.run_inv [OF ids_inv_new]) (simp add: list_all_iff)

section \<open>Owner keys\<close>

lemma dec_colon_inject: "dec g @ CHR '':'' # x = dec g' @ CHR '':'' # y \<Longrightarrow> g = g' \<and> x = y"
proof -
  have split: "takeWhile (\<lambda>c. c \<noteq> CHR '':'') (dec n @ CHR '':'' # z) = dec n" for n z
    using dec_no_colon [of n] by (subst takeWhile_append2) auto
  assume eq: "dec g @ CHR '':'' # x = dec g' @ CHR '':'' # y"
  then have "dec g = dec g'" using split by metis
  with eq show ?thesis by simp
qed

lemma owner_key_inject: "owner_key g i = owner_key g' i' \<longleftrightarrow> g = g' \<and> render i = render i'"
  by (auto simp: owner_key_def dest: dec_colon_inject)

section \<open>What a reply becomes\<close>

definition wire_member :: "string \<Rightarrow> wire \<Rightarrow> json option" where
  "wire_member k w = Option.bind (wire_fields w) (\<lambda>m. map_of m k)"

lemma wire_fields_distinct: "wire_fields w = Some m \<Longrightarrow> keys_distinct m"
  by (auto simp: wire_fields_def bind_eq_Some_conv distinct_fields_of)

lemma fields_marshal_map:
  "keys_distinct m \<Longrightarrow> \<exists>m'. wire_fields (marshal_map m) = Some m' \<and> map_of m' = map_of m"
  using member_marshal_map [of m]
  by (auto simp: wire_fields_def marshal_map_def marshal_def member_def fields_of_def fun_eq_iff)

lemma wire_member_marshal: "keys_distinct m \<Longrightarrow> wire_member k (marshal_map m) = map_of m k"
  using fields_marshal_map [of m] by (auto simp: wire_member_def)

lemma duration_keeps_id: "wire_member ''id'' (with_turn_duration w d) = wire_member ''id'' w"
proof -
  have "keys_distinct m \<Longrightarrow> wire_fields w = Some m \<Longrightarrow>
    wire_member ''id'' (marshal_map (AList.update ''result'' x m)) = wire_member ''id'' w" for m x
    by (simp add: wire_member_marshal keys_distinct_update update_conv') (simp add: wire_member_def)
  then show ?thesis
    by (auto simp: with_turn_duration_def Let_def dest: wire_fields_distinct split: option.splits json.splits)
qed

lemma rewrite_id_member:
  assumes "wire_fields w = Some m"
  shows "\<exists>out. rewrite_response_id w (Some i) = Some out \<and>
           (\<forall>k. wire_member k out = (if k = ''id'' then Some i else map_of m k))"
  using assms
  by (simp add: rewrite_response_id_def wire_member_marshal keys_distinct_update
      wire_fields_distinct update_conv')

lemma reply_pending:
  assumes "fp_id probe = Some i" "fp_method probe = []" "frames \<noteq> []"
    "map_of (rq_pending r) (response_id_key i) = Some p"
  shows "map_of (rq_pending (fst (reply gen now probe frames r))) =
           (map_of (rq_pending r))(response_id_key i := None)"
  using assms by (simp add: reply_def Let_def ids_changed_def forget_pending_def delete_conv')

lemma outbound_request:
  assumes "cf_fields f = Some m" "cf_method f \<noteq> []" "cf_id f = Some cid"
  shows "cf_id (snd (outbound gen now f r)) = Some (JNum (dec (Suc (rq_next r)))) \<and>
    cf_raw (snd (outbound gen now f r)) =
      marshal_map (AList.update ''id'' (JNum (dec (Suc (rq_next r)))) m) \<and>
    map_of (rq_pending (fst (outbound gen now f r))) =
      (map_of (rq_pending r))(dec (Suc (rq_next r)) \<mapsto> origin_of gen cid now f)"
  using assms by (simp add: outbound_def register_request_def Let_def ids_changed_def update_conv')

section \<open>Live turns and pokes\<close>

lemma live_turns_cong:
  assumes "rq_pending r = rq_pending r'"
    "map (\<lambda>a. (ar_attention a, ar_attention_session a)) (rq_agent_reqs r) =
     map (\<lambda>a. (ar_attention a, ar_attention_session a)) (rq_agent_reqs r')"
  shows "live_turns r = live_turns r'"
proof -
  have att: "map ar_attention (filter (\<lambda>a. ar_attention_session a = sid \<and> ar_attention a \<noteq> []) as) =
     map fst (filter (\<lambda>x. snd x = sid \<and> fst x \<noteq> []) (map (\<lambda>a. (ar_attention a, ar_attention_session a)) as))"
    for sid as by (induction as) auto
  show ?thesis unfolding live_turns_def att assms ..
qed

lemma take_loop_no_prompts: "snd (take_loop ps r) = [] \<Longrightarrow> fst (take_loop ps r) = r"
  by (induction ps r rule: take_loop.induct) (auto simp: split_beta split: if_splits)

lemma step_pokes:
  "rq_pokes r < rq_pokes (ids_step r e) \<or> live_turns (ids_step r e) = live_turns r"
proof (cases e)
  case (OpOutbound gen now f)
  then show ?thesis
    by (auto simp: outbound_def answer_agent_request_def register_request_def Let_def split_beta
        ids_changed_def drop_agent_request_same intro!: live_turns_cong split: option.split)
next
  case (OpTrack probe line gen)
  then show ?thesis
    by (auto simp: track_agent_request_def Let_def ids_changed_def split: option.split)
next
  case (OpReply gen now probe frames)
  then show ?thesis
    by (auto simp: reply_def Let_def ids_changed_def forget_pending_def split: option.split)
next
  case (OpDiscard i)
  then show ?thesis by (auto simp: discard_def ids_changed_def forget_pending_def split: option.split)
next
  case OpTakePrompts
  have pokes: "rq_pokes (fst (take_loop ps q)) = rq_pokes q" for ps q
    by (induction ps q rule: take_loop.induct) (auto simp: split_beta forget_pending_def)
  show ?thesis using take_loop_no_prompts [of "rq_pending r" r] pokes [of "rq_pending r" r]
    by (cases "snd (take_loop (rq_pending r) r) = []")
      (auto simp: OpTakePrompts take_prompts_def Let_def split_beta ids_changed_def)
next
  case (OpRedeliver gen sid)
  then show ?thesis using redeliver_loop_keys [of gen sid "rq_agent_reqs r"]
    by (intro disjI2) (auto simp: redeliver_def split_beta intro!: live_turns_cong)
qed

lemma step_pokes_mono: "rq_pokes r \<le> rq_pokes (ids_step r e)"
proof -
  have take: "rq_pokes (fst (take_loop ps q)) = rq_pokes q" for ps q
    by (induction ps q rule: take_loop.induct) (auto simp: split_beta forget_pending_def)
  show ?thesis
    by (cases e) (auto simp: outbound_def answer_agent_request_def register_request_def Let_def split_beta
        ids_changed_def track_agent_request_def reply_def forget_pending_def discard_def take_prompts_def
        take redeliver_def split: option.split)
qed

lemma run_pokes_mono: "rq_pokes r \<le> rq_pokes (run ids_step r es)"
  by (induction es arbitrary: r) (auto intro: order_trans step_pokes_mono)

section \<open>Redelivery\<close>

lemma redeliver_loop_out:
  "snd (redeliver_loop gen sid as) =
     map ar_frame (filter (\<lambda>a. ar_session a = sid \<and> ar_delivered a \<noteq> gen) as)"
  by (induction as) (auto simp: split_beta)

lemma redeliver_loop_again: "snd (redeliver_loop gen sid (fst (redeliver_loop gen sid as))) = []"
  by (induction as) (auto simp: split_beta)

section \<open>Properties\<close>

definition example_params :: client_params where
  "example_params = no_params\<lparr>cp_session := ''ses_1''\<rparr>"

definition example_request :: "string \<Rightarrow> json \<Rightarrow> client_frame" where
  "example_request meth i = \<lparr>cf_raw = marshal (JObj [(''id'', i)]), cf_fields = Some [(''id'', i)],
     cf_method = meth, cf_id = Some i, cf_params = example_params\<rparr>"

definition reply_probe :: "json \<Rightarrow> frame_probe" where
  "reply_probe i = no_probe\<lparr>fp_id := Some i,
     fp_result := Some \<lparr>pr_protocol_version = False, pr_session = [], pr_stop_reason = ''end_turn'',
       pr_usage = None\<rparr>\<rparr>"

text \<open>
  Round trip of a request id: a client request is forwarded under an id no live request has, and the
  agent's reply to that id, while the same connection is current, is delivered with the client's own id
  and its other members unchanged (a prompt's reply gains the turn duration in its result); the
  translation table is then as before.
\<close>

theorem reply_restores_client_id:
  assumes "r = run ids_step new_request_ids es"
    and "cf_fields f = Some m" "cf_method f \<noteq> []" "cf_id f = Some cid"
    and "outbound gen now f r = (r1, f1)" and "cf_id f1 = Some aid"
    and "fp_method probe = []" "fp_id probe = Some aid" and "wire_fields answer = Some am"
    and "reply gen later probe (before @ [answer]) r1 = (r2, out)"
  shows "map_of (rq_pending r) (response_id_key aid) = None \<and>
         (\<exists>frame. out = before @ [frame] \<and> wire_member ''id'' frame = Some cid \<and>
            (cf_method f \<noteq> ''session/prompt'' \<longrightarrow>
               (\<forall>k. k \<noteq> ''id'' \<longrightarrow> wire_member k frame = wire_member k answer))) \<and>
         map_of (rq_pending r2) = map_of (rq_pending r)"
proof -
  have inv: "ids_inv r" using ids_inv_reachable assms(1) by simp
  then have fresh: "map_of (rq_pending r) (dec (Suc (rq_next r))) = None"
    by (intro pending_fresh) (simp add: ids_inv_def)
  note ob = outbound_request [OF assms(2-4), of gen now r]
  have aid: "response_id_key aid = dec (Suc (rq_next r))" using ob assms(5,6) by (simp add: response_id_key_def)
  let ?o = "origin_of gen cid now f"
  have p: "map_of (rq_pending r1) (response_id_key aid) = Some ?o" using ob assms(5) aid by simp
  have o: "pq_gen ?o = gen" "pq_client_id ?o = cid" by (simp_all add: origin_of_def Let_def)
  obtain x where x: "rewrite_response_id answer (Some cid) = Some x"
    "\<And>k. wire_member k x = (if k = ''id'' then Some cid else map_of am k)"
    using rewrite_id_member [OF assms(9), of cid] by auto
  let ?y = "if pq_prompt_session ?o \<noteq> [] then with_turn_duration x (later - pq_started ?o) else x"
  have out: "out = before @ [?y]"
    using assms(7,8,10) p o x(1) by (auto simp: reply_def Let_def)
  have "wire_member ''id'' ?y = Some cid" by (simp add: duration_keeps_id x(2))
  moreover have "wire_member k ?y = wire_member k answer"
    if "cf_method f \<noteq> ''session/prompt''" "k \<noteq> ''id''" for k
    using that x(2) assms(9) by (simp add: origin_of_def Let_def zero_pending_def wire_member_def)
  moreover have "map_of (rq_pending r2) = map_of (rq_pending r)"
    using reply_pending [OF assms(8,7) _ p, of "before @ [answer]" gen later] assms(5,10) ob aid fresh
    by (auto simp: fun_eq_iff)
  ultimately show ?thesis using out fresh aid by auto
qed

theorem reply_restores_client_id_witness:
  "\<exists>r1 f1 r2 out. outbound 1 5 (example_request ''session/list'' (JNum ''7'')) (run ids_step new_request_ids []) = (r1, f1) \<and>
     cf_id f1 = Some (JNum ''1'') \<and>
     reply 1 9 (reply_probe (JNum ''1'')) [marshal_map [(''id'', JNum ''1''), (''result'', JNull)]] r1 = (r2, out) \<and>
     (\<exists>frame. out = [frame] \<and> wire_member ''id'' frame = Some (JNum ''7'') \<and>
        wire_member ''result'' frame = Some JNull)"
proof -
  let ?f = "example_request ''session/list'' (JNum ''7'')" and ?r = "run ids_step new_request_ids []"
  let ?w = "marshal_map [(''id'', JNum ''1''), (''result'', JNull)]"
  obtain r1 f1 where ob: "outbound 1 5 ?f ?r = (r1, f1)" by (cases "outbound 1 5 ?f ?r")
  have "dec (Suc (rq_next new_request_ids)) = ''1''" by code_simp
  then have f1: "cf_id f1 = Some (JNum ''1'')"
    using outbound_request [of ?f "[(''id'', JNum ''7'')]" "JNum ''7''" 1 5 ?r] ob
    by (simp add: example_request_def)
  obtain r2 out where rp: "reply 1 9 (reply_probe (JNum ''1'')) ([] @ [?w]) r1 = (r2, out)"
    by (cases "reply 1 9 (reply_probe (JNum ''1'')) ([] @ [?w]) r1")
  have w: "wire_fields ?w = Some [(''id'', JNum ''1''), (''result'', JNull)]" by code_simp
  have "(\<exists>frame. out = [] @ [frame] \<and> wire_member ''id'' frame = Some (JNum ''7'') \<and>
      (cf_method ?f \<noteq> ''session/prompt'' \<longrightarrow> (\<forall>k. k \<noteq> ''id'' \<longrightarrow> wire_member k frame = wire_member k ?w)))"
    using reply_restores_client_id [OF refl _ _ _ ob f1 _ _ w rp]
    by (simp add: example_request_def reply_probe_def no_probe_def)
  then show ?thesis using ob f1 rp w
    by (intro exI [of _ r1] exI [of _ f1] exI [of _ r2] exI [of _ out])
      (auto simp: example_request_def wire_member_def)
qed

text \<open>
  A reply to a request of an earlier connection never reaches the current one: it is dropped, or, for
  a prompt, replaced by the single notification that the turn ended; either way the request is consumed.
\<close>

theorem stale_reply_withheld:
  assumes "fp_method probe = []" "fp_id probe = Some aid" "frames \<noteq> []"
    and "map_of (rq_pending r) (response_id_key aid) = Some p" "pq_gen p \<noteq> current"
  shows "snd (reply current now probe frames r) =
           (if pq_prompt_session p = [] then [] else [turn_ended_frame (pq_prompt_session p) probe]) \<and>
         wire_member ''id'' (turn_ended_frame (pq_prompt_session p) probe) = None \<and>
         map_of (rq_pending (fst (reply current now probe frames r))) (response_id_key aid) = None"
proof (intro conjI)
  show "snd (reply current now probe frames r) =
      (if pq_prompt_session p = [] then [] else [turn_ended_frame (pq_prompt_session p) probe])"
    using assms by (simp add: reply_def Let_def)
  show "wire_member ''id'' (turn_ended_frame (pq_prompt_session p) probe) = None"
    by (simp add: turn_ended_frame_def Let_def wire_member_def wire_fields_def marshal_def fields_of_def)
  show "map_of (rq_pending (fst (reply current now probe frames r))) (response_id_key aid) = None"
    by (simp add: reply_pending [OF assms(2,1,3,4)])
qed

theorem stale_reply_withheld_witness:
  "\<exists>r p. map_of (rq_pending r) ''1'' = Some p \<and> pq_gen p = 1 \<and>
     snd (reply 2 9 (reply_probe (JNum ''1'')) [marshal_map [(''id'', JNum ''1'')]] r) =
       [turn_ended_frame ''ses_1'' (reply_probe (JNum ''1''))]"
proof -
  let ?f = "example_request ''session/prompt'' (JNum ''7'')"
  let ?r = "fst (outbound 1 5 ?f new_request_ids)" and ?p = "origin_of 1 (JNum ''7'') 5 ?f"
  have dec1: "dec (Suc (rq_next new_request_ids)) = ''1''" by code_simp
  have p: "map_of (rq_pending ?r) (response_id_key (JNum ''1'')) = Some ?p"
    using outbound_request [of ?f "[(''id'', JNum ''7'')]" "JNum ''7''" 1 5 new_request_ids]
    by (simp add: example_request_def response_id_key_def dec1)
  have pv: "pq_gen ?p = 1" "pq_prompt_session ?p = ''ses_1''"
    by (simp_all add: origin_of_def Let_def example_request_def example_params_def)
  have "snd (reply 2 9 (reply_probe (JNum ''1'')) [marshal_map [(''id'', JNum ''1'')]] ?r) =
      [turn_ended_frame ''ses_1'' (reply_probe (JNum ''1''))]"
    using stale_reply_withheld [OF _ _ _ p, of "reply_probe (JNum ''1'')"
        "[marshal_map [(''id'', JNum ''1'')]]" 2 9] pv
    by (simp add: reply_probe_def no_probe_def)
  with p pv show ?thesis
    by (intro exI [of _ ?r] exI [of _ ?p]) (simp add: response_id_key_def)
qed

text \<open>
  A cancel stays on its connection: when \<^verbatim>\<open>$/cancel_request\<close> is pointed at an agent-side id, that id
  belongs to a live request which the same connection sent under the id the cancel names.
\<close>

theorem cancel_hits_own_request:
  assumes "r = run ids_step new_request_ids es"
    and "retarget_cancel gen f members r = Some members'"
  shows "\<exists>i aid p params. cp_request_id (cf_params f) = Some i \<and>
     map_of (rq_pending r) aid = Some p \<and> pq_gen p = gen \<and> render (pq_client_id p) = render i \<and>
     map_of members' ''params'' = Some (JObj params) \<and> map_of params ''requestId'' = Some (JNum aid)"
proof -
  have inv: "ids_inv r" using ids_inv_reachable assms(1) by simp
  from assms(2) obtain i aid params where i: "cp_request_id (cf_params f) = Some i"
    "rq_by_owner r (owner_key gen i) = Some aid" "Option.bind (map_of members ''params'') fields_of = Some params"
    "members' = AList.update ''params'' (JObj (sort_key fst (AList.update ''requestId'' (JNum aid) params))) members"
    by (auto simp: retarget_cancel_def split: option.splits)
  from inv i(2) obtain p where p: "map_of (rq_pending r) aid = Some p" "pq_owner p = owner_key gen i"
    by (auto simp: ids_inv_def owners_ok_def)
  then have "owner_key (pq_gen p) (pq_client_id p) = owner_key gen i"
    using inv by (auto simp: ids_inv_def pending_ok_def dest!: map_of_SomeD)
  then have "pq_gen p = gen" "render (pq_client_id p) = render i" by (simp_all add: owner_key_inject)
  moreover have "keys_distinct params" using i(3) by (auto simp: bind_eq_Some_conv distinct_fields_of)
  then have "map_of (sort_key fst (AList.update ''requestId'' (JNum aid) params)) ''requestId'' = Some (JNum aid)"
    by (simp add: map_of_sort_key keys_distinct_update update_conv')
  ultimately show ?thesis using i p by (auto simp: update_conv')
qed

definition example_cancel :: client_frame where
  "example_cancel = \<lparr>cf_raw = marshal (JObj []), cf_fields = Some [(''params'', JObj [(''requestId'', JNum ''7'')])],
     cf_method = ''$/cancel_request'', cf_id = None, cf_params = no_params\<lparr>cp_request_id := Some (JNum ''7'')\<rparr>\<rparr>"

theorem cancel_hits_own_request_witness:
  "\<exists>aid p params members'. retarget_cancel 1 example_cancel [(''params'', JObj [(''requestId'', JNum ''7'')])]
       (run ids_step new_request_ids [OpOutbound 1 5 (example_request ''session/prompt'' (JNum ''7''))]) = Some members' \<and>
     map_of (rq_pending (run ids_step new_request_ids
       [OpOutbound 1 5 (example_request ''session/prompt'' (JNum ''7''))])) aid = Some p \<and> pq_gen p = 1 \<and>
     map_of members' ''params'' = Some (JObj params) \<and> map_of params ''requestId'' = Some (JNum aid)"
proof -
  let ?r = "run ids_step new_request_ids [OpOutbound 1 5 (example_request ''session/prompt'' (JNum ''7''))]"
  let ?m = "[(''params'', JObj [(''requestId'', JNum ''7'')])]"
  have "retarget_cancel 1 example_cancel ?m ?r \<noteq> None" by code_simp
  then obtain m' where m': "retarget_cancel 1 example_cancel ?m ?r = Some m'" by blast
  from cancel_hits_own_request [OF refl m'] m' show ?thesis by blast
qed

text \<open>
  No missed signal: if the running turns, or the human input they wait on, differ after any sequence of
  operations, the turn feed was poked in between.
\<close>

theorem live_turn_changes_poke:
  "rq_pokes r < rq_pokes (run ids_step r es) \<or> live_turns (run ids_step r es) = live_turns r"
proof (induction es arbitrary: r)
  case (Cons e es)
  from step_pokes [of r e] show ?case
  proof
    assume "rq_pokes r < rq_pokes (ids_step r e)"
    with run_pokes_mono [of "ids_step r e" es] show ?case by simp
  next
    assume "live_turns (ids_step r e) = live_turns r"
    with Cons [of "ids_step r e"] step_pokes_mono [of r e] show ?case by auto
  qed
qed simp

text \<open>
  A load restores what the agent is still waiting for: exactly the unanswered requests of that chat
  that this connection has not been sent are appended, oldest first, and asking again appends none. At
  most 64 requests are remembered, no two with one id.
\<close>

theorem redeliver_once:
  fixes es gen sid frames
  defines "r \<equiv> run ids_step new_request_ids es"
  shows "snd (redeliver gen sid frames r) = frames @ map ar_frame
           (filter (\<lambda>a. ar_session a = sid \<and> ar_delivered a \<noteq> gen) (rq_agent_reqs r)) \<and>
         snd (redeliver gen sid [] (fst (redeliver gen sid frames r))) = [] \<and>
         length (rq_agent_reqs r) \<le> 64 \<and> distinct (map ar_key (rq_agent_reqs r))"
  using ids_inv_reachable [of es]
  by (simp add: r_def redeliver_def split_beta redeliver_loop_out redeliver_loop_again [unfolded redeliver_loop_out]
      ids_inv_def agent_reqs_ok_def max_pending_agent_requests_def)

end
