(* ===== verification/Prompt_Delivery.thy ===== *)
theory Prompt_Delivery
  imports Json_Frames
begin

text \<open>
  \<^verbatim>\<open>internal/session/prompt_ids.go\<close> and \<^verbatim>\<open>internal/session/turn_result.go\<close>: the client ids of the prompts
  last delivered per ACP session, so that a resent prompt is not run twice, and the outcome of a turn
  that finished while no client was attached.
\<close>

section \<open>Delivered prompts\<close>

definition max_delivered_prompts :: nat where "max_delivered_prompts = 32"
definition prompt_delivered_code :: string where "prompt_delivered_code = ''-32050''"

text \<open>An absent session reads as the empty list.\<close>

type_synonym delivered_prompts = "string \<Rightarrow> string list"

definition claim_prompt :: "string \<Rightarrow> string \<Rightarrow> delivered_prompts \<Rightarrow> delivered_prompts \<times> bool" where
  "claim_prompt sid cid d =
     (if cid = [] then (d, True)
      else
        let ids = d sid in
        if cid \<in> set ids then (d, False)
        else let ids' = (if max_delivered_prompts \<le> length ids then tl ids else ids)
             in (d(sid := ids' @ [cid]), True))"

definition release_prompt :: "string \<Rightarrow> string \<Rightarrow> delivered_prompts \<Rightarrow> delivered_prompts" where
  "release_prompt sid cid d = d(sid := filter (\<lambda>i. i \<noteq> cid) (d sid))"

definition prompt_delivered_frame :: "json option \<Rightarrow> string \<Rightarrow> wire" where
  "prompt_delivered_frame i cid =
     marshal (JObj [(''error'', JObj [(''code'', JNum prompt_delivered_code),
         (''data'', JObj [(''clientId'', JStr cid)]), (''message'', JStr ''prompt already delivered'')]),
       (''id'', case i of None \<Rightarrow> JNull | Some j \<Rightarrow> j), (''jsonrpc'', JStr ''2.0'')])"

section \<open>Outcomes of missed turns\<close>

record turn_result =
  tr_stop_reason :: string
  tr_usage :: "usage option"
  tr_duration_ms :: int

type_synonym turn_results = "string \<rightharpoonup> turn_result"

definition store_turn_result :: "string \<Rightarrow> turn_result \<Rightarrow> turn_results \<Rightarrow> turn_results" where
  "store_turn_result sid res m = (if sid = [] then m else m(sid \<mapsto> res))"

definition take_turn_result :: "string \<Rightarrow> turn_results \<Rightarrow> turn_results \<times> turn_result option" where
  "take_turn_result sid m = (m(sid := None), m sid)"

definition clear_turn_result :: "string \<Rightarrow> turn_results \<Rightarrow> turn_results" where
  "clear_turn_result sid m = m(sid := None)"

definition turn_result_method :: string where "turn_result_method = ''_ferngeist/turn_result''"

definition turn_result_frame :: "string \<Rightarrow> turn_result \<Rightarrow> wire" where
  "turn_result_frame sid res =
     marshal (JObj [(''jsonrpc'', JStr ''2.0''), (''method'', JStr turn_result_method),
       (''params'', JObj [(''durationMs'', JNum (dec_int (tr_duration_ms res))),
          (''sessionId'', JStr sid), (''stopReason'', JStr (tr_stop_reason res)),
          (''usage'', case tr_usage res of None \<Rightarrow> JNull | Some u \<Rightarrow> us_json u)])])"

section \<open>Runs of claims and releases\<close>

datatype delivery_op = OpClaim string string | OpRelease string string

fun delivery_step :: "delivered_prompts \<Rightarrow> delivery_op \<Rightarrow> delivered_prompts" where
  "delivery_step d (OpClaim sid cid) = fst (claim_prompt sid cid d)"
| "delivery_step d (OpRelease sid cid) = release_prompt sid cid d"

definition delivered_inv :: "delivered_prompts \<Rightarrow> bool" where
  "delivered_inv d \<longleftrightarrow> (\<forall>sid. length (d sid) \<le> max_delivered_prompts \<and> distinct (d sid) \<and> [] \<notin> set (d sid))"

lemma claim_session:
  "fst (claim_prompt s c d) sid =
     (if s = sid \<and> c \<noteq> [] \<and> c \<notin> set (d sid)
      then (if max_delivered_prompts \<le> length (d sid) then tl (d sid) else d sid) @ [c] else d sid)"
  by (simp add: claim_prompt_def Let_def)

lemma release_session:
  "release_prompt s c d sid = (if s = sid then filter (\<lambda>i. i \<noteq> c) (d sid) else d sid)"
  by (auto simp: release_prompt_def)

lemma in_set_tl: "x \<in> set (tl xs) \<Longrightarrow> x \<in> set xs"
  by (cases xs) auto

lemma length_tl_le32: assumes "\<forall>sid. length (f sid) \<le> 32 \<and> P sid"
  shows "length (f sid) - Suc 0 \<le> 31"
proof -
  have "length (f sid) \<le> 32" using assms by blast
  then show ?thesis by linarith
qed

lemma delivered_inv_step: "delivered_inv d \<Longrightarrow> delivered_inv (delivery_step d e)"
proof (cases e)
  case (OpClaim sid cid)
  assume "delivered_inv d"
  then show ?thesis
    using length_tl_le32 by (auto simp: OpClaim delivered_inv_def claim_session max_delivered_prompts_def
        distinct_tl dest: in_set_tl)
next
  case (OpRelease sid cid)
  assume "delivered_inv d"
  then show ?thesis
    by (auto simp: OpRelease delivered_inv_def release_session intro: le_trans [OF length_filter_le])
qed

interpretation delivery_machine: invariant_machine delivery_step delivered_inv "\<lambda>_. True"
  by unfold_locales (rule delivered_inv_step)

lemma delivered_inv_reachable: "delivered_inv (run delivery_step (\<lambda>_. []) es)"
  by (rule delivery_machine.run_inv) (simp_all add: delivered_inv_def list_all_iff)

text \<open>The id was claimed, and at most \<open>n\<close> others have been claimed since.\<close>

definition after_claim :: "string \<Rightarrow> string list \<Rightarrow> nat \<Rightarrow> bool" where
  "after_claim cid ids n \<longleftrightarrow> (\<exists>xs ys. ids = xs @ cid # ys \<and> length ys \<le> n)"

lemma after_claimI: "length ys \<le> n \<Longrightarrow> after_claim cid (xs @ cid # ys) n"
  by (auto simp: after_claim_def)

fun claim_weight :: "string \<Rightarrow> delivery_op \<Rightarrow> nat" where
  "claim_weight sid (OpClaim s c) = (if s = sid then 1 else 0)"
| "claim_weight sid (OpRelease s c) = 0"

definition claims_of :: "string \<Rightarrow> delivery_op list \<Rightarrow> nat" where
  "claims_of sid es = sum_list (map (claim_weight sid) es)"

lemma after_claim_step:
  assumes "after_claim cid (d sid) n" "e \<noteq> OpRelease sid cid" "n + claim_weight sid e < max_delivered_prompts"
  shows "after_claim cid (delivery_step d e sid) (n + claim_weight sid e)"
proof -
  obtain xs ys where ids: "d sid = xs @ cid # ys" "length ys \<le> n"
    using assms(1) by (auto simp: after_claim_def)
  show ?thesis
  proof (cases e)
    case (OpClaim s c)
    show ?thesis
    proof (cases "s = sid \<and> c \<noteq> [] \<and> c \<notin> set (d sid)")
      case True
      have "max_delivered_prompts \<le> length (d sid) \<Longrightarrow> xs \<noteq> []"
        using ids assms(3) OpClaim True by auto
      then have "\<exists>zs. delivery_step d e sid = zs @ cid # (ys @ [c])"
        using OpClaim True ids by (auto simp: claim_session)
      then obtain zs where "delivery_step d e sid = zs @ cid # (ys @ [c])" by blast
      then show ?thesis using ids(2) OpClaim True after_claimI [of "ys @ [c]" "Suc n" cid zs] by simp
    next
      case False
      then have "delivery_step d e sid = xs @ cid # ys" using OpClaim ids by (auto simp: claim_session)
      then show ?thesis using ids(2) by (auto intro: after_claimI)
    qed
  next
    case (OpRelease s c)
    show ?thesis
    proof (cases "s = sid")
      case True
      then have "delivery_step d e sid = filter (\<lambda>i. i \<noteq> c) xs @ cid # filter (\<lambda>i. i \<noteq> c) ys"
        using OpRelease assms(2) ids(1) by (simp add: release_session)
      then show ?thesis using le_trans [OF length_filter_le ids(2)] by (auto intro: after_claimI trans_le_add1)
    qed (use OpRelease assms(1) in \<open>simp add: release_session\<close>)
  qed
qed

lemma after_claim_run:
  "after_claim cid (d sid) n \<Longrightarrow> OpRelease sid cid \<notin> set es \<Longrightarrow> n + claims_of sid es < max_delivered_prompts \<Longrightarrow>
     after_claim cid (run delivery_step d es sid) (n + claims_of sid es)"
proof (induction es arbitrary: d n)
  case Nil
  then show ?case by (simp add: claims_of_def)
next
  case (Cons e es)
  have count: "n + claims_of sid (e # es) = (n + claim_weight sid e) + claims_of sid es"
    by (simp add: claims_of_def)
  have "after_claim cid (delivery_step d e sid) (n + claim_weight sid e)"
    using Cons.prems count by (intro after_claim_step) auto
  from Cons.IH [of "delivery_step d e", OF this] Cons.prems(2,3) count show ?case by (simp add: add.assoc)
qed

section \<open>Properties\<close>

text \<open>
  A prompt is delivered at most once: after a claim of its id succeeded, a repeated claim is refused as
  long as the id was not released and fewer than 32 prompts were claimed for that session since.
\<close>

theorem prompt_not_delivered_twice:
  assumes "cid \<noteq> []" and "snd (claim_prompt sid cid d)"
    and "OpRelease sid cid \<notin> set later" and "claims_of sid later < 32"
  shows "snd (claim_prompt sid cid (run delivery_step (fst (claim_prompt sid cid d)) later)) = False"
proof -
  let ?d1 = "fst (claim_prompt sid cid d)"
  have "after_claim cid (?d1 sid) 0"
    using assms(1,2) by (auto simp: claim_prompt_def Let_def after_claim_def split: if_splits)
  from after_claim_run [of cid ?d1 sid 0, OF this assms(3)] assms(4)
  have "cid \<in> set (run delivery_step ?d1 later sid)"
    by (auto simp: max_delivered_prompts_def after_claim_def)
  then show ?thesis using assms(1) by (simp add: claim_prompt_def Let_def)
qed

theorem prompt_not_delivered_twice_witness:
  "snd (claim_prompt ''s'' ''p1'' (run delivery_step (fst (claim_prompt ''s'' ''p1'' (\<lambda>_. [])))
     [OpClaim ''s'' ''p2'', OpRelease ''s'' ''p2'', OpClaim ''t'' ''p1''])) = False"
  by (rule prompt_not_delivered_twice)
    (simp_all add: claim_prompt_def claims_of_def)

text \<open>
  A released prompt can be sent again: once the delivery of a prompt failed and its claim was
  released, the next claim of the same id succeeds, and the claims of all other prompts are untouched.
\<close>

theorem released_prompt_claimable:
  "snd (claim_prompt sid cid (release_prompt sid cid d))
   \<and> (other = cid \<or> (other \<in> set (release_prompt sid cid d sid)) = (other \<in> set (d sid)))
   \<and> (s = sid \<or> release_prompt sid cid d s = d s)"
  by (auto simp: claim_prompt_def release_prompt_def Let_def)

end
