(* ===== verification/Acp_State.thy ===== *)
theory Acp_State
  imports Request_Ids
begin

text \<open>
  \<^verbatim>\<open>internal/session/acpstate.go\<close>: what the gateway remembers about the ACP conversation on one agent
  process. Every operation runs under the mutex of \<^verbatim>\<open>acpState\<close>, so it is one function on the record.
\<close>

section \<open>State\<close>

record acp_state =
  ac_init :: "wire option"
  ac_name :: string
  ac_close :: bool
  ac_session :: string
  ac_cwd :: string
  ac_cwd_by_session :: "(string \<times> string) list"
  ac_pending_cwd :: "string \<rightharpoonup> string"
  ac_held :: "string \<Rightarrow> bool"
  ac_turn_active :: bool
  ac_turn_content :: bool
  ac_tool_kinds :: "string \<rightharpoonup> string"

definition new_acp_state :: acp_state where
  "new_acp_state = \<lparr>ac_init = None, ac_name = [], ac_close = False, ac_session = [], ac_cwd = [],
     ac_cwd_by_session = [], ac_pending_cwd = Map.empty, ac_held = (\<lambda>_. False), ac_turn_active = False,
     ac_turn_content = False, ac_tool_kinds = Map.empty\<rparr>"

section \<open>Initialize\<close>

definition typed_init :: "sdk \<Rightarrow> wire \<Rightarrow> init_info option" where
  "typed_init u raw = Option.bind (wire_json raw) (\<lambda>j. Option.bind (member ''result'' j) (sdk_init u))"

definition observe_initialize :: "sdk \<Rightarrow> frame_probe \<Rightarrow> wire \<Rightarrow> acp_state \<Rightarrow> acp_state" where
  "observe_initialize u probe raw s =
     (case fp_result probe of
        None \<Rightarrow> s
      | Some res \<Rightarrow>
          if \<not> pr_protocol_version res \<or> ac_init s \<noteq> None then s
          else
            let s1 = s\<lparr>ac_init := Some raw\<rparr> in
            (case typed_init u raw of
               None \<Rightarrow> s1
             | Some t \<Rightarrow>
                 let s2 = (if in_close t then s1\<lparr>ac_close := True\<rparr> else s1) in
                 (case in_agent t of
                    None \<Rightarrow> s2
                  | Some (name, title) \<Rightarrow>
                      s2\<lparr>ac_name := (case title of Some t \<Rightarrow> if t \<noteq> [] then t else name | None \<Rightarrow> name)\<rparr>)))"

definition acp_name :: "string \<Rightarrow> acp_state \<Rightarrow> string" where
  "acp_name fallback s = (if ac_name s = [] then fallback else ac_name s)"

definition acp_closes :: "acp_state \<Rightarrow> bool" where "acp_closes s = ac_close s"

section \<open>Sessions and their directories\<close>

definition result_session :: "frame_probe \<Rightarrow> string" where
  "result_session probe = (case fp_result probe of None \<Rightarrow> [] | Some res \<Rightarrow> pr_session res)"

definition observe_session_id :: "frame_probe \<Rightarrow> acp_state \<Rightarrow> acp_state" where
  "observe_session_id probe s =
     (if ac_session s \<noteq> [] \<or> result_session probe = [] then s
      else s\<lparr>ac_session := result_session probe\<rparr>)"

definition bind_pending_cwd :: "frame_probe \<Rightarrow> acp_state \<Rightarrow> acp_state" where
  "bind_pending_cwd probe s =
     (case fp_id probe of
        None \<Rightarrow> s
      | Some i \<Rightarrow>
          if fp_method probe \<noteq> [] then s
          else
            (case ac_pending_cwd s (render i) of
               None \<Rightarrow> s
             | Some cwd \<Rightarrow>
                 let s1 = s\<lparr>ac_pending_cwd := (ac_pending_cwd s)(render i := None)\<rparr> in
                 if result_session probe = [] then s1
                 else s1\<lparr>ac_cwd_by_session := AList.update (result_session probe) cwd (ac_cwd_by_session s1)\<rparr>))"

text \<open>\<open>resumed\<close> and the reply's origin are the pipeline's verdict on the frame.\<close>

definition accept_session :: "frame_probe \<Rightarrow> pending_request option \<Rightarrow> bool \<Rightarrow> acp_state \<Rightarrow> acp_state" where
  "accept_session probe origin resumed s =
     (case origin of
        None \<Rightarrow> s
      | Some p \<Rightarrow>
          if \<not> resumed \<and> fp_error probe \<noteq> None then s
          else
            let sid = (if pq_method p = ''session/new'' \<and> fp_result probe \<noteq> None
                       then result_session probe else pq_load_session p)
            in if sid = [] then s else s\<lparr>ac_held := (ac_held s)(sid := True)\<rparr>)"

definition acp_holds :: "string \<Rightarrow> acp_state \<Rightarrow> bool" where "acp_holds sid s = ac_held s sid"

definition observe_inbound :: "client_frame \<Rightarrow> acp_state \<Rightarrow> acp_state" where
  "observe_inbound f s =
     (let s1 = (if cf_method f = ''session/prompt'' then s\<lparr>ac_turn_active := True, ac_turn_content := False\<rparr> else s);
          sid = cp_session (cf_params f);
          s2 = (if sid \<noteq> [] \<and> ac_session s1 = [] then s1\<lparr>ac_session := sid\<rparr> else s1);
          cwd = cp_cwd (cf_params f)
      in if cf_method f \<notin> {''session/new'', ''session/load'', ''session/resume''} \<or> cwd = [] then s2
         else
           let s3 = s2\<lparr>ac_cwd := cwd\<rparr> in
           if cf_method f = ''session/new'' then
             (case cf_id f of None \<Rightarrow> s3
              | Some i \<Rightarrow> s3\<lparr>ac_pending_cwd := (ac_pending_cwd s3)(render i \<mapsto> cwd)\<rparr>)
           else if sid \<noteq> [] then s3\<lparr>ac_cwd_by_session := AList.update sid cwd (ac_cwd_by_session s3)\<rparr>
           else s3)"

definition cwd_for :: "string \<Rightarrow> acp_state \<Rightarrow> string" where
  "cwd_for sid s = (case map_of (ac_cwd_by_session s) sid of None \<Rightarrow> [] | Some c \<Rightarrow> c)"

definition sessions_with_cwd :: "(string \<Rightarrow> bool) \<Rightarrow> acp_state \<Rightarrow> string list" where
  "sessions_with_cwd m s = map fst (filter (\<lambda>(i, cwd). m cwd) (ac_cwd_by_session s))"

section \<open>Turns and tool calls\<close>

definition visible_updates :: "string set" where
  "visible_updates = {''agent_message_chunk'', ''tool_call'', ''tool_call_update''}"

definition frame_update :: "frame_probe \<Rightarrow> probe_update option" where
  "frame_update probe = Option.bind (fp_params probe) pp_update"

definition usage_used :: "probe_result \<Rightarrow> bool" where
  "usage_used res = (case pr_usage res of None \<Rightarrow> False
     | Some u \<Rightarrow> us_total u \<noteq> 0 \<or> us_input u \<noteq> 0 \<or> us_output u \<noteq> 0)"

text \<open>The origin of the reply: \<open>None\<close> for a frame that answers no pending client request.\<close>

definition acp_observe_turn :: "frame_probe \<Rightarrow> pending_request option \<Rightarrow> acp_state \<Rightarrow> acp_state \<times> bool" where
  "acp_observe_turn probe origin s =
     (case frame_update probe of
        Some up \<Rightarrow>
          (if pu_discriminator up \<in> visible_updates then s\<lparr>ac_turn_content := True\<rparr> else s, False)
      | None \<Rightarrow>
          (case (fp_id probe, fp_result probe) of
             (Some _, Some res) \<Rightarrow>
               if \<not> ac_turn_active s \<or> (case origin of Some p \<Rightarrow> pq_method p \<noteq> ''session/prompt'' | None \<Rightarrow> False)
                  \<or> fp_error probe \<noteq> None
               then (s, False)
               else (s\<lparr>ac_turn_active := False\<rparr>,
                 pr_stop_reason res = ''end_turn'' \<and> \<not> usage_used res \<and> \<not> ac_turn_content s)
           | _ \<Rightarrow> (s, False)))"

definition tool_kind_for :: "string \<Rightarrow> string \<Rightarrow> acp_state \<Rightarrow> acp_state \<times> string" where
  "tool_kind_for call kind s =
     (if kind \<noteq> [] then (s\<lparr>ac_tool_kinds := (ac_tool_kinds s)(call \<mapsto> kind)\<rparr>, kind)
      else (s, case ac_tool_kinds s call of None \<Rightarrow> [] | Some k \<Rightarrow> k))"

definition forget_tool :: "string \<Rightarrow> acp_state \<Rightarrow> acp_state" where
  "forget_tool call s = s\<lparr>ac_tool_kinds := (ac_tool_kinds s)(call := None)\<rparr>"

section \<open>Runs\<close>

text \<open>An agent frame passes the three observers and then the turn judgement (\<^verbatim>\<open>observeACPState\<close>).\<close>

datatype acp_op =
    OpAgent frame_probe wire "pending_request option"
  | OpClient client_frame
  | OpAccept frame_probe "pending_request option" bool
  | OpToolKind string string
  | OpForgetTool string

fun acp_step :: "sdk \<Rightarrow> acp_state \<Rightarrow> acp_op \<Rightarrow> acp_state" where
  "acp_step u s (OpAgent probe raw origin) =
     fst (acp_observe_turn probe origin
       (bind_pending_cwd probe (observe_session_id probe (observe_initialize u probe raw s))))"
| "acp_step u s (OpClient f) = observe_inbound f s"
| "acp_step u s (OpAccept probe origin resumed) = accept_session probe origin resumed s"
| "acp_step u s (OpToolKind call kind) = fst (tool_kind_for call kind s)"
| "acp_step u s (OpForgetTool call) = forget_tool call s"

named_theorems acp_frame "which fields the operations on the ACP state leave alone"

lemma observe_initialize_frame [acp_frame]:
  "ac_turn_active (observe_initialize u probe raw s) = ac_turn_active s"
  "ac_turn_content (observe_initialize u probe raw s) = ac_turn_content s"
  "ac_pending_cwd (observe_initialize u probe raw s) = ac_pending_cwd s"
  "ac_cwd_by_session (observe_initialize u probe raw s) = ac_cwd_by_session s"
  "ac_session (observe_initialize u probe raw s) = ac_session s"
  "ac_held (observe_initialize u probe raw s) = ac_held s"
  by (simp_all add: observe_initialize_def Let_def split: option.split)

lemma observe_session_id_frame [acp_frame]:
  "ac_turn_active (observe_session_id probe s) = ac_turn_active s"
  "ac_turn_content (observe_session_id probe s) = ac_turn_content s"
  "ac_pending_cwd (observe_session_id probe s) = ac_pending_cwd s"
  "ac_cwd_by_session (observe_session_id probe s) = ac_cwd_by_session s"
  "ac_init (observe_session_id probe s) = ac_init s"
  "ac_held (observe_session_id probe s) = ac_held s"
  by (simp_all add: observe_session_id_def)

lemma bind_pending_cwd_frame [acp_frame]:
  "ac_turn_active (bind_pending_cwd probe s) = ac_turn_active s"
  "ac_turn_content (bind_pending_cwd probe s) = ac_turn_content s"
  "ac_init (bind_pending_cwd probe s) = ac_init s"
  "ac_session (bind_pending_cwd probe s) = ac_session s"
  "ac_held (bind_pending_cwd probe s) = ac_held s"
  by (simp_all add: bind_pending_cwd_def Let_def split: option.split)

lemma observe_turn_frame [acp_frame]:
  "ac_init (fst (acp_observe_turn probe origin s)) = ac_init s"
  "ac_session (fst (acp_observe_turn probe origin s)) = ac_session s"
  "ac_pending_cwd (fst (acp_observe_turn probe origin s)) = ac_pending_cwd s"
  "ac_cwd_by_session (fst (acp_observe_turn probe origin s)) = ac_cwd_by_session s"
  "ac_held (fst (acp_observe_turn probe origin s)) = ac_held s"
  by (simp_all add: acp_observe_turn_def split: option.split)

lemma accept_session_frame [acp_frame]:
  "ac_turn_active (accept_session probe origin b s) = ac_turn_active s"
  "ac_turn_content (accept_session probe origin b s) = ac_turn_content s"
  "ac_init (accept_session probe origin b s) = ac_init s"
  "ac_session (accept_session probe origin b s) = ac_session s"
  "ac_pending_cwd (accept_session probe origin b s) = ac_pending_cwd s"
  "ac_cwd_by_session (accept_session probe origin b s) = ac_cwd_by_session s"
  by (simp_all add: accept_session_def Let_def split: option.split)

lemma observe_inbound_frame [acp_frame]:
  "ac_init (observe_inbound f s) = ac_init s"
  "ac_held (observe_inbound f s) = ac_held s"
  "ac_turn_active (observe_inbound f s) = (cf_method f = ''session/prompt'' \<or> ac_turn_active s)"
  "ac_turn_content (observe_inbound f s) = (cf_method f \<noteq> ''session/prompt'' \<and> ac_turn_content s)"
  by (simp_all add: observe_inbound_def Let_def split: option.split)

lemma tool_frame [acp_frame]:
  "ac_turn_active (fst (tool_kind_for c k s)) = ac_turn_active s"
  "ac_turn_content (fst (tool_kind_for c k s)) = ac_turn_content s"
  "ac_init (fst (tool_kind_for c k s)) = ac_init s"
  "ac_session (fst (tool_kind_for c k s)) = ac_session s"
  "ac_pending_cwd (fst (tool_kind_for c k s)) = ac_pending_cwd s"
  "ac_turn_active (forget_tool c s) = ac_turn_active s"
  "ac_turn_content (forget_tool c s) = ac_turn_content s"
  "ac_init (forget_tool c s) = ac_init s"
  "ac_session (forget_tool c s) = ac_session s"
  "ac_pending_cwd (forget_tool c s) = ac_pending_cwd s"
  by (simp_all add: tool_kind_for_def forget_tool_def)

section \<open>Properties\<close>

text \<open>What an operation contributes to the current turn.\<close>

definition is_content :: "acp_op \<Rightarrow> bool" where
  "is_content e = (case e of
     OpAgent probe _ _ \<Rightarrow> (case frame_update probe of Some up \<Rightarrow> pu_discriminator up \<in> visible_updates | None \<Rightarrow> False)
   | _ \<Rightarrow> False)"

text \<open>A frame that \<open>acp_observe_turn\<close> takes for the prompt result, and a client frame that starts a turn.\<close>

definition judged :: "frame_probe \<Rightarrow> pending_request option \<Rightarrow> bool" where
  "judged probe origin \<longleftrightarrow> frame_update probe = None \<and> fp_id probe \<noteq> None \<and> fp_result probe \<noteq> None \<and>
     fp_error probe = None \<and> (case origin of Some p \<Rightarrow> pq_method p = ''session/prompt'' | None \<Rightarrow> True)"

definition mid_turn :: "acp_op \<Rightarrow> bool" where
  "mid_turn e = (case e of OpAgent probe _ origin \<Rightarrow> \<not> judged probe origin
     | OpClient f \<Rightarrow> cf_method f \<noteq> ''session/prompt'' | _ \<Rightarrow> True)"

lemma observe_turn_unjudged:
  "\<not> judged probe origin \<Longrightarrow> acp_observe_turn probe origin s =
     (s\<lparr>ac_turn_content := ac_turn_content s \<or> is_content (OpAgent probe raw origin)\<rparr>, False)"
  by (auto simp: judged_def acp_observe_turn_def is_content_def split: option.splits)

lemma observe_turn_judged:
  "judged probe origin \<Longrightarrow> fp_result probe = Some res \<Longrightarrow> ac_turn_active s \<Longrightarrow>
     acp_observe_turn probe origin s = (s\<lparr>ac_turn_active := False\<rparr>,
       pr_stop_reason res = ''end_turn'' \<and> \<not> usage_used res \<and> \<not> ac_turn_content s)"
  by (auto simp: judged_def acp_observe_turn_def split: option.splits)

lemma mid_turn_step:
  assumes "mid_turn e" "ac_turn_active s"
  shows "ac_turn_active (acp_step u s e)"
    "ac_turn_content (acp_step u s e) = (ac_turn_content s \<or> is_content e)"
proof -
  have "ac_turn_active (acp_step u s e) \<and> ac_turn_content (acp_step u s e) = (ac_turn_content s \<or> is_content e)"
  proof (cases e)
    case (OpAgent probe raw origin)
    then have "\<not> judged probe origin" using assms(1) by (simp add: mid_turn_def)
    then show ?thesis using OpAgent assms(2)
      by (simp add: observe_turn_unjudged [where raw = raw] acp_frame)
  qed (use assms in \<open>auto simp: acp_frame mid_turn_def is_content_def\<close>)
  then show "ac_turn_active (acp_step u s e)"
    "ac_turn_content (acp_step u s e) = (ac_turn_content s \<or> is_content e)" by simp_all
qed

lemma mid_turn_run:
  "list_all mid_turn es \<Longrightarrow> ac_turn_active s \<Longrightarrow> ac_turn_active (run (acp_step u) s es) \<and>
     ac_turn_content (run (acp_step u) s es) = (ac_turn_content s \<or> list_ex is_content es)"
proof (induction es arbitrary: s)
  case (Cons e es)
  then show ?case using mid_turn_step [of e s u] Cons.IH [of "acp_step u s e"] by auto
qed simp

text \<open>
  A swallowed model failure is flagged exactly when it happened: after a prompt, a clean prompt result
  is reported as an empty success iff it ends with \<^verbatim>\<open>end_turn\<close>, carries no usage, and no agent message or
  tool call was seen since the prompt, whatever other traffic there was in between.
\<close>

theorem swallowed_failure_flagged:
  assumes "cf_method f = ''session/prompt''" and "list_all mid_turn es"
    and "judged probe origin" and "fp_result probe = Some res"
  shows "snd (acp_observe_turn probe origin (run (acp_step u) (observe_inbound f s) es)) =
    (pr_stop_reason res = ''end_turn'' \<and> \<not> usage_used res \<and> \<not> list_ex is_content es)"
proof -
  have "ac_turn_active (observe_inbound f s)" "\<not> ac_turn_content (observe_inbound f s)"
    using assms(1) by (simp_all add: acp_frame)
  with mid_turn_run [OF assms(2), of "observe_inbound f s" u] show ?thesis
    by (simp add: observe_turn_judged [OF assms(3,4)])
qed

definition ex_prompt :: "string \<Rightarrow> client_frame" where
  "ex_prompt sid = \<lparr>cf_raw = marshal JNull, cf_fields = None, cf_method = ''session/prompt'', cf_id = Some (JNum ''1''),
     cf_params = no_params\<lparr>cp_session := sid\<rparr>\<rparr>"

definition ex_chunk :: "string \<Rightarrow> acp_op" where
  "ex_chunk sid = OpAgent (no_probe\<lparr>fp_method := ''session/update'', fp_params := Some \<lparr>pp_session = sid,
     pp_request_id = None, pp_update = Some \<lparr>pu_discriminator = ''agent_message_chunk'', pu_tool_call = [],
       pu_status = [], pu_kind = []\<rparr>\<rparr>\<rparr>) (marshal JNull) None"

definition ex_end :: frame_probe where
  "ex_end = no_probe\<lparr>fp_id := Some (JNum ''1''), fp_result := Some \<lparr>pr_protocol_version = False, pr_session = [],
     pr_stop_reason = ''end_turn'', pr_usage = None\<rparr>\<rparr>"

theorem swallowed_failure_flagged_witness:
  "snd (acp_observe_turn ex_end None (run (acp_step null_sdk) (observe_inbound (ex_prompt ''a'') new_acp_state)
     [OpToolKind ''c'' ''read''])) = True"
  by (subst swallowed_failure_flagged [where res = "the (fp_result ex_end)"])
    (simp_all add: ex_prompt_def ex_end_def judged_def frame_update_def no_probe_def mid_turn_def
      is_content_def usage_used_def)

text \<open>
  The turn state is one per agent process, not one per chat: when chat \<open>a\<close> has streamed an answer and
  chat \<open>b\<close> then sends a prompt, the successful end of \<open>a\<close>'s turn is flagged as a swallowed failure (and
  the pipeline replaces it by an error), for any agent that reports no usage.
\<close>

theorem concurrent_prompt_hides_content:
  "snd (acp_observe_turn ex_end (Some (zero_pending\<lparr>pq_method := ''session/prompt'', pq_prompt_session := a\<rparr>))
    (run (acp_step u) new_acp_state [OpClient (ex_prompt a), ex_chunk a, OpClient (ex_prompt b)])) = True"
proof -
  let ?o = "Some (zero_pending\<lparr>pq_method := ''session/prompt'', pq_prompt_session := a\<rparr>)"
  have "judged ex_end ?o" "fp_result ex_end = Some (the (fp_result ex_end))"
    by (simp_all add: judged_def ex_end_def no_probe_def frame_update_def)
  from observe_turn_judged [OF this, of "observe_inbound (ex_prompt b) s" for s] show ?thesis
    by (simp add: acp_frame ex_prompt_def ex_end_def usage_used_def)
qed

lemma init_step: "ac_init s = Some w \<Longrightarrow> ac_init (acp_step u s e) = Some w"
  by (cases e) (auto simp: acp_frame observe_initialize_def split: option.split)

lemma session_step: "ac_session s = sid \<Longrightarrow> sid \<noteq> [] \<Longrightarrow> ac_session (acp_step u s e) = sid"
  by (cases e) (auto simp: acp_frame observe_session_id_def observe_inbound_def Let_def split: option.split)

interpretation init_machine: invariant_machine "acp_step u" "\<lambda>s. ac_init s = Some w" "\<lambda>_. True"
  by unfold_locales (rule init_step)

interpretation session_machine: invariant_machine "acp_step u" "\<lambda>s. ac_session s = sid \<and> sid \<noteq> []" "\<lambda>_. True"
  using session_step by unfold_locales blast

text \<open>
  The initialize response and the ACP session id are captured once: whatever the agent and the client
  send later, neither changes, so a reconnecting client is always replayed the same handshake and
  pushes keep naming the same chat.
\<close>

theorem handshake_captured_once:
  "(ac_init s = Some w \<longrightarrow> ac_init (run (acp_step u) s es) = Some w) \<and>
   (ac_session s \<noteq> [] \<longrightarrow> ac_session (run (acp_step u) s es) = ac_session s)"
  using init_machine.run_inv [of s w es u] session_machine.run_inv [of s "ac_session s" es u]
  by (simp add: list_all_iff)

theorem handshake_captured_once_witness:
  "ac_init (run (acp_step null_sdk) (new_acp_state\<lparr>ac_init := Some (Wire ''x'' None), ac_session := ''s''\<rparr>)
     [OpClient (ex_prompt ''t'')]) = Some (Wire ''x'' None)"
  using handshake_captured_once [of "new_acp_state\<lparr>ac_init := Some (Wire ''x'' None), ac_session := ''s''\<rparr>"
      "Wire ''x'' None" null_sdk "[OpClient (ex_prompt ''t'')]"] by simp

text \<open>Nothing between a \<^verbatim>\<open>session/new\<close> and its reply reuses the request id or names the new session.\<close>

definition spares_id :: "json \<Rightarrow> acp_op \<Rightarrow> bool" where
  "spares_id i e = (case e of
     OpAgent probe _ _ \<Rightarrow> (case fp_id probe of Some j \<Rightarrow> fp_method probe \<noteq> [] \<or> render j \<noteq> render i | None \<Rightarrow> True)
   | OpClient f \<Rightarrow> (case cf_id f of Some j \<Rightarrow> render j \<noteq> render i | None \<Rightarrow> True)
   | _ \<Rightarrow> True)"

lemma pending_cwd_step:
  "spares_id i e \<Longrightarrow> ac_pending_cwd (acp_step u s e) (render i) = ac_pending_cwd s (render i)"
  by (cases e) (auto simp: acp_frame spares_id_def bind_pending_cwd_def observe_inbound_def Let_def
      split: option.splits)

lemma pending_cwd_run:
  "list_all (spares_id i) es \<Longrightarrow> ac_pending_cwd (run (acp_step u) s es) (render i) = ac_pending_cwd s (render i)"
  by (induction es arbitrary: s) (simp_all add: pending_cwd_step)

text \<open>
  The directory of a \<^verbatim>\<open>session/new\<close> reaches the session the agent creates for it: whatever happens in
  between, the reply to that request files the directory under the session id the reply assigns, and
  an error reply files nothing.
\<close>

theorem new_session_gets_its_cwd:
  assumes "cf_method f = ''session/new''" "cf_id f = Some i" "cp_cwd (cf_params f) \<noteq> []"
    and "list_all (spares_id i) es"
    and "fp_method probe = []" "fp_id probe = Some j" "render j = render i"
    and "t = run (acp_step u) (observe_inbound f s) es"
  shows "cwd_for sid (acp_step u t (OpAgent probe raw origin)) =
    (if sid = result_session probe \<and> sid \<noteq> [] then cp_cwd (cf_params f) else cwd_for sid t)"
proof -
  have "ac_pending_cwd (observe_inbound f s) (render i) = Some (cp_cwd (cf_params f))"
    using assms(1-3) by (simp add: observe_inbound_def Let_def)
  then have "ac_pending_cwd t (render j) = Some (cp_cwd (cf_params f))"
    using pending_cwd_run [OF assms(4)] assms(7,8) by simp
  then show ?thesis
    using assms(5,6) by (auto simp: cwd_for_def acp_frame bind_pending_cwd_def Let_def update_conv')
qed

definition ex_new :: client_frame where
  "ex_new = (ex_prompt [])\<lparr>cf_method := ''session/new'', cf_params := no_params\<lparr>cp_cwd := ''/p''\<rparr>\<rparr>"

theorem new_session_gets_its_cwd_witness:
  "cwd_for ''ses_9'' (acp_step null_sdk (observe_inbound ex_new new_acp_state) (OpAgent (no_probe\<lparr>fp_id := Some (JNum ''1''),
     fp_result := Some \<lparr>pr_protocol_version = False, pr_session = ''ses_9'', pr_stop_reason = [], pr_usage = None\<rparr>\<rparr>)
     (marshal JNull) None)) = ''/p''"
  by (subst new_session_gets_its_cwd [where f = ex_new and i = "JNum ''1''" and j = "JNum ''1''" and es = "[]"
        and s = new_acp_state and u = null_sdk])
    (simp_all add: ex_new_def ex_prompt_def no_probe_def no_params_def result_session_def)

end
