(* ===== verification/Go_Text.thy ===== *)
theory Go_Text
  imports Prelude "HOL-Library.Sublist"
begin

text \<open>
  The parts of Go's \<^verbatim>\<open>strings\<close>, \<^verbatim>\<open>strconv\<close> and \<^verbatim>\<open>net\<close> packages that several components use, on byte strings.
  What those packages do beyond ASCII (white space and case of other scripts) is not modelled.
\<close>

section \<open>White space, case and substrings\<close>

definition is_space :: "char \<Rightarrow> bool" where
  "is_space c \<longleftrightarrow> of_char c \<in> {9, 10, 11, 12, 13, 32 :: nat}"

definition trim_space :: "string \<Rightarrow> string" where
  "trim_space s = rev (dropWhile is_space (rev (dropWhile is_space s)))"

definition to_lower :: "string \<Rightarrow> string" where
  "to_lower = map (\<lambda>c. let n = of_char c :: nat in if 65 \<le> n \<and> n \<le> 90 then char_of (n + 32) else c)"

definition to_upper :: "string \<Rightarrow> string" where
  "to_upper = map (\<lambda>c. let n = of_char c :: nat in if 97 \<le> n \<and> n \<le> 122 then char_of (n - 32) else c)"

definition equal_fold :: "string \<Rightarrow> string \<Rightarrow> bool" where
  "equal_fold s t \<longleftrightarrow> to_lower s = to_lower t"

definition str_contains :: "string \<Rightarrow> string \<Rightarrow> bool" where
  "str_contains s t = list_ex (\<lambda>i. take (length t) (drop i s) = t) [0..<Suc (length s)]"

definition has_prefix :: "string \<Rightarrow> string \<Rightarrow> bool" where
  "has_prefix s p \<longleftrightarrow> take (length p) s = p"

definition has_suffix :: "string \<Rightarrow> string \<Rightarrow> bool" where
  "has_suffix s p \<longleftrightarrow> length p \<le> length s \<and> drop (length s - length p) s = p"

definition trim_chars :: "char set \<Rightarrow> string \<Rightarrow> string" where
  "trim_chars cs s = rev (dropWhile (\<lambda>c. c \<in> cs) (rev (dropWhile (\<lambda>c. c \<in> cs) s)))"

text \<open>\<^verbatim>\<open>strings.Join\<close>, and \<^verbatim>\<open>strings.Split\<close> at one character.\<close>

fun join_strings :: "string \<Rightarrow> string list \<Rightarrow> string" where
  "join_strings sep [] = []"
| "join_strings sep [x] = x"
| "join_strings sep (x # y # xs) = x @ sep @ join_strings sep (y # xs)"

fun split_at :: "char \<Rightarrow> string \<Rightarrow> string list" where
  "split_at d [] = [[]]"
| "split_at d (c # cs) = (if c = d then [] # split_at d cs
     else (case split_at d cs of [] \<Rightarrow> [[c]] | w # ws \<Rightarrow> (c # w) # ws))"

text \<open>\<^verbatim>\<open>strings.Cut\<close> at one character.\<close>

fun cut_at :: "char \<Rightarrow> string \<Rightarrow> (string \<times> string) option" where
  "cut_at d [] = None"
| "cut_at d (c # cs) = (if c = d then Some ([], cs)
     else (case cut_at d cs of None \<Rightarrow> None | Some (k, v) \<Rightarrow> Some (c # k, v)))"

lemma trim_space_idem [simp]: "trim_space (trim_space s) = trim_space s"
proof -
  have front: "dropWhile P (rev (dropWhile P (rev (dropWhile P s)))) = rev (dropWhile P (rev (dropWhile P s)))" for P :: "char \<Rightarrow> bool" and s
  proof (cases "dropWhile P (rev (dropWhile P s))")
    case (Cons a as)
    have "suffix (a # as) (rev (dropWhile P s))" unfolding Cons [symmetric] by (rule suffix_dropWhile)
    then obtain ys where "rev (dropWhile P s) = ys @ a # as" by (auto simp: suffix_def)
    then have eq: "dropWhile P s = rev as @ a # rev ys" by (metis append.assoc append_Cons append_Nil rev_append rev.simps(2) rev_rev_ident)
    then have "\<not> P (hd (rev as @ [a]))"
      by (metis append_is_Nil_conv hd_append2 hd_dropWhile list.distinct(1) not_Cons_self2 append_Cons append.assoc append_Nil)
    then show ?thesis unfolding Cons by (cases "rev as @ [a]") auto
  next
    case Nil
    then show ?thesis unfolding Nil by simp
  qed
  show ?thesis unfolding trim_space_def by (simp add: front)
qed

lemma split_at_none: "d \<notin> set s \<Longrightarrow> split_at d s = [s]"
  by (induction s) auto

lemma split_at_append: "d \<notin> set s \<Longrightarrow> split_at d (s @ d # t) = s # split_at d t"
  by (induction s) auto

lemma cut_at_append: "d \<notin> set k \<Longrightarrow> cut_at d (k @ d # v) = Some (k, v)"
  by (induction k) auto

lemma cut_at_none: "d \<notin> set s \<Longrightarrow> cut_at d s = None"
  by (induction s) auto

lemma split_join:
  assumes "xs \<noteq> []" "list_all (\<lambda>x. d \<notin> set x) xs"
  shows "split_at d (join_strings [d] xs) = xs"
  using assms
  by (induction "[d]" xs rule: join_strings.induct) (auto simp: split_at_none split_at_append)

section \<open>Integers\<close>

text \<open>\<^verbatim>\<open>int64\<close> arithmetic wraps.\<close>

definition wrap64 :: "int \<Rightarrow> int" where
  "wrap64 n = (n + 2 ^ 63) mod 2 ^ 64 - 2 ^ 63"

lemma wrap64_id: "- (2 ^ 63) \<le> n \<Longrightarrow> n < 2 ^ 63 \<Longrightarrow> wrap64 n = n"
  by (simp add: wrap64_def)

lemma wrap64_range: "- (2 ^ 63) \<le> wrap64 n" "wrap64 n < 2 ^ 63"
  using pos_mod_sign [of "2 ^ 64 :: int" "n + 2 ^ 63"] pos_mod_bound [of "2 ^ 64 :: int" "n + 2 ^ 63"]
  unfolding wrap64_def by (simp_all add: algebra_simps)

definition is_digit :: "char \<Rightarrow> bool" where
  "is_digit c \<longleftrightarrow> 48 \<le> (of_char c :: nat) \<and> (of_char c :: nat) \<le> 57"

fun digits_value :: "int \<Rightarrow> string \<Rightarrow> int" where
  "digits_value acc [] = acc"
| "digits_value acc (c # cs) = digits_value (10 * acc + (of_char c - 48)) cs"

text \<open>\<^verbatim>\<open>strconv.ParseInt(s, 10, 64)\<close>, and \<^verbatim>\<open>Atoi\<close> where \<^verbatim>\<open>int\<close> has 64 bits.\<close>

definition parse_int64 :: "string \<Rightarrow> int option" where
  "parse_int64 s =
     (let (neg, digits) = (case s of [] \<Rightarrow> (False, []) | c # cs \<Rightarrow> if c = CHR ''-'' then (True, cs) else if c = CHR ''+'' then (False, cs) else (False, s));
          v = digits_value 0 digits
      in if digits = [] \<or> \<not> list_all is_digit digits then None
         else if neg then (if v \<le> 2 ^ 63 then Some (- v) else None)
         else (if v < 2 ^ 63 then Some v else None))"

section \<open>Host and port\<close>

text \<open>\<^verbatim>\<open>net.SplitHostPort\<close>.\<close>

definition last_colon :: "string \<Rightarrow> (string \<times> string) option" where
  "last_colon s = map_option (\<lambda>(p, h). (rev h, rev p)) (cut_at (CHR '':'') (rev s))"

definition split_host_port :: "string \<Rightarrow> (string \<times> string) option" where
  "split_host_port s =
     (case last_colon s of
        None \<Rightarrow> None
      | Some (host, port) \<Rightarrow>
          (case s of
             c # cs \<Rightarrow>
               if c = CHR ''['' then
                 (case cut_at (CHR '']'') cs of
                    None \<Rightarrow> None
                  | Some (inside, rest) \<Rightarrow>
                      if rest = CHR '':'' # port \<and> CHR ''['' \<notin> set (inside @ rest) \<and> CHR '']'' \<notin> set rest
                      then Some (inside, port) else None)
               else if CHR '':'' \<in> set host \<or> CHR ''['' \<in> set s \<or> CHR '']'' \<in> set s then None
               else Some (host, port)
           | [] \<Rightarrow> None))"

definition join_host_port :: "string \<Rightarrow> string \<Rightarrow> string" where
  "join_host_port host port =
     (if CHR '':'' \<in> set host then ''['' @ host @ '']:'' @ port else host @ '':'' @ port)"

end
