(* ===== verification/Load_Recovery.thy ===== *)
theory Load_Recovery
  imports Request_Ids Go_Text
begin

text \<open>
  \<^verbatim>\<open>internal/session/load_recovery.go\<close> and the numbering half of \<^verbatim>\<open>internal/session/catch_up.go\<close>: the
  buffered \<^verbatim>\<open>session/update\<close> history, its numbering, its eviction, catch-up, and the recovery of a
  rejected duplicate \<^verbatim>\<open>session/load\<close>.

  \<^verbatim>\<open>LoadRecovery\<close> keeps seven maps keyed by the ACP session id; here they are one function from the
  session id to the record \<open>session_log\<close> of the seven values, an absent key being the zero value.
\<close>

section \<open>State\<close>

definition max_load_history_bytes :: int where "max_load_history_bytes = 8 * 1024 * 1024"

definition seq_meta_key :: string where "seq_meta_key = ''ferngeist/seq''"
definition client_id_meta_key :: string where "client_id_meta_key = ''ferngeist/clientId''"
definition catch_up_meta_key :: string where "catch_up_meta_key = ''ferngeist/catchUp''"

record cursor_range =
  cr_from :: int
  cr_through :: int

record history_frame =
  hf_line :: wire
  hf_user :: bool
  hf_seq :: int
  hf_prompt :: string
  hf_gap :: int

record session_log =
  sl_history :: "history_frame list"
  sl_size :: int
  sl_users :: int
  sl_trimmed :: bool
  sl_seq :: int
  sl_evicted :: int
  sl_rejected :: "cursor_range list"

definition empty_log :: session_log where
  "empty_log = \<lparr>sl_history = [], sl_size = 0, sl_users = 0, sl_trimmed = False, sl_seq = 0, sl_evicted = 0,
     sl_rejected = []\<rparr>"

record load_recovery =
  lr_logs :: "string \<Rightarrow> session_log"
  lr_response :: "string \<rightharpoonup> wire"
  lr_pending_loads :: "string \<rightharpoonup> string"
  lr_epoch :: string

definition new_load_recovery :: "string \<Rightarrow> load_recovery" where
  "new_load_recovery epoch =
     \<lparr>lr_logs = (\<lambda>_. empty_log), lr_response = Map.empty, lr_pending_loads = Map.empty, lr_epoch = epoch\<rparr>"

definition upd_log :: "string \<Rightarrow> (session_log \<Rightarrow> session_log) \<Rightarrow> load_recovery \<Rightarrow> load_recovery" where
  "upd_log sid f r = r\<lparr>lr_logs := (lr_logs r)(sid := f (lr_logs r sid))\<rparr>"

section \<open>Appending and evicting\<close>

definition frame_boundary :: "history_frame \<Rightarrow> int" where
  "frame_boundary f = (if hf_seq f = 0 then hf_gap f else hf_seq f)"

definition drop_oldest :: "session_log \<Rightarrow> session_log" where
  "drop_oldest l =
     (case sl_history l of
        [] \<Rightarrow> l
      | d # rest \<Rightarrow>
          l\<lparr>sl_history := rest, sl_size := sl_size l - int (wire_len (hf_line d)),
            sl_evicted := max (sl_evicted l) (frame_boundary d),
            sl_users := (if hf_user d then sl_users l - 1 else sl_users l)\<rparr>)"

lemma history_drop_oldest [simp]: "sl_history (drop_oldest l) = tl (sl_history l)"
  by (simp add: drop_oldest_def split: list.split)

function evict_to_size :: "session_log \<Rightarrow> session_log" where
  "evict_to_size l =
     (if max_load_history_bytes < sl_size l \<and> 1 < length (sl_history l)
      then evict_to_size (drop_oldest l) else l)"
  by pat_completeness auto
termination by (relation "measure (\<lambda>l. length (sl_history l))") auto

text \<open>
  An empty history ends the second loop; the code would panic there, which the invariant
  \<open>sl_users = number of user frames\<close> excludes.
\<close>

function evict_to_user :: "session_log \<Rightarrow> session_log" where
  "evict_to_user l =
     (if 0 < sl_users l \<and> sl_history l \<noteq> [] \<and> \<not> hf_user (hd (sl_history l))
      then evict_to_user (drop_oldest l) else l)"
  by pat_completeness auto
termination by (relation "measure (\<lambda>l. length (sl_history l))") auto

declare evict_to_size.simps [simp del] evict_to_user.simps [simp del]

text \<open>
  \<^verbatim>\<open>bufferPrompt\<close> sets the frame's prompt id right after appending it; eviction reads no prompt id and
  never drops the frame just appended, so the id is an argument here.
\<close>

definition append_history :: "wire \<Rightarrow> bool \<Rightarrow> int \<Rightarrow> string \<Rightarrow> session_log \<Rightarrow> session_log" where
  "append_history line user seq prompt l =
     (let f = \<lparr>hf_line = line, hf_user = user, hf_seq = seq, hf_prompt = prompt, hf_gap = sl_seq l + 1\<rparr>;
          l1 = l\<lparr>sl_history := sl_history l @ [f], sl_size := sl_size l + int (wire_len line),
                 sl_users := (if user then sl_users l + 1 else sl_users l)\<rparr>;
          evicted = (max_load_history_bytes < sl_size l1 \<and> 1 < length (sl_history l1));
          l2 = evict_to_size l1
      in if evicted then (evict_to_user l2)\<lparr>sl_trimmed := True\<rparr> else l2)"

section \<open>Numbering an update\<close>

definition last_member :: "string \<Rightarrow> (string \<times> json) list \<Rightarrow> json option" where
  "last_member k kvs = map_of (rev kvs) k"

fun put_first :: "string \<Rightarrow> json \<Rightarrow> (string \<times> json) list \<Rightarrow> (string \<times> json) list option" where
  "put_first k v [] = None"
| "put_first k v ((k', v') # kvs) =
     (if k' = k then Some ((k, v) # kvs) else map_option (Cons (k', v')) (put_first k v kvs))"

definition put_last :: "string \<Rightarrow> json \<Rightarrow> (string \<times> json) list \<Rightarrow> (string \<times> json) list" where
  "put_last k v kvs = (case put_first k v (rev kvs) of None \<Rightarrow> kvs @ [(k, v)] | Some xs \<Rightarrow> rev xs)"

text \<open>The update's own keys stay; \<open>None\<close> when \<^verbatim>\<open>_meta\<close> is not an object.\<close>

definition merge_meta :: "json option \<Rightarrow> (string \<times> json) list \<Rightarrow> json option" where
  "merge_meta old add =
     (case (case old of None \<Rightarrow> Some [] | Some JNull \<Rightarrow> Some [] | Some j \<Rightarrow> fields_of j) of
        None \<Rightarrow> None
      | Some m \<Rightarrow> Some (JObj (sort_key fst (fold (\<lambda>(k, v). AList.update k v) add m))))"

definition update_object :: "json \<Rightarrow> (string \<times> json) list option" where
  "update_object j =
     (case j of JObj outer \<Rightarrow>
        (case last_member ''params'' outer of Some (JObj ps) \<Rightarrow>
           (case last_member ''update'' ps of Some (JObj us) \<Rightarrow> Some us | _ \<Rightarrow> None)
         | _ \<Rightarrow> None)
      | _ \<Rightarrow> None)"

definition put_meta :: "json \<Rightarrow> json \<Rightarrow> json" where
  "put_meta meta j =
     (case j of JObj outer \<Rightarrow>
        (case last_member ''params'' outer of Some (JObj ps) \<Rightarrow>
           (case last_member ''update'' ps of Some (JObj us) \<Rightarrow>
              JObj (put_last ''params'' (JObj (put_last ''update'' (JObj (put_last ''_meta'' meta us)) ps)) outer)
            | _ \<Rightarrow> j)
         | _ \<Rightarrow> j)
      | _ \<Rightarrow> j)"

definition is_blank :: "char \<Rightarrow> bool" where
  "is_blank c \<longleftrightarrow> of_char c \<in> {9, 10, 11, 12, 13, 32 :: nat}"

text \<open>The text is spliced, so the rest of the frame keeps its bytes.\<close>

definition splice_meta :: "string \<Rightarrow> meta_span \<Rightarrow> string \<Rightarrow> string" where
  "splice_meta line b raw =
     (case ms_meta b of
        Some (i, j) \<Rightarrow> take i line @ raw @ drop j line
      | None \<Rightarrow>
          let inside = take (ms_end b - 1 - (ms_start b + 1)) (drop (ms_start b + 1) line);
              prefix = (if list_all is_blank inside then [] else '','') @ quote_string ''_meta'' @ '':''
          in take (ms_end b - 1) line @ prefix @ raw @ drop (ms_end b - 1) line)"

definition with_update_meta :: "sdk \<Rightarrow> wire \<Rightarrow> (string \<times> json) list \<Rightarrow> wire option" where
  "with_update_meta u line add =
     (case (wire_json line, sdk_span u (wire_text line)) of
        (Some j, Some b) \<Rightarrow>
          (case update_object j of
             None \<Rightarrow> None
           | Some us \<Rightarrow>
               (case merge_meta (last_member ''_meta'' us) add of
                  None \<Rightarrow> None
                | Some meta \<Rightarrow> Some (Wire (splice_meta (wire_text line) b (render meta)) (Some (put_meta meta j)))))
      | _ \<Rightarrow> None)"

definition update_session :: "frame_probe option \<Rightarrow> string" where
  "update_session probe =
     (case probe of
        None \<Rightarrow> []
      | Some p \<Rightarrow> if fp_method p \<noteq> ''session/update'' then []
          else (case fp_params p of None \<Rightarrow> [] | Some ps \<Rightarrow> pp_session ps))"

definition is_user_update :: "frame_probe option \<Rightarrow> bool" where
  "is_user_update probe =
     (case Option.bind probe (\<lambda>p. Option.bind (fp_params p) pp_update) of
        None \<Rightarrow> False | Some up \<Rightarrow> pu_discriminator up = ''user_message_chunk'')"

text \<open>\<^verbatim>\<open>record\<close> on one session's log: the new log and the line to forward.\<close>

definition record_log :: "sdk \<Rightarrow> wire \<Rightarrow> bool \<Rightarrow> session_log \<Rightarrow> session_log \<times> wire" where
  "record_log u line user l =
     (let seq = sl_seq l + 1 in
      case with_update_meta u line [(seq_meta_key, JNum (dec_int seq))] of
        None \<Rightarrow> (append_history line user 0 [] l, line)
      | Some stamped \<Rightarrow> (append_history stamped user seq [] (l\<lparr>sl_seq := seq\<rparr>), stamped))"

definition record_frame :: "sdk \<Rightarrow> wire \<Rightarrow> frame_probe option \<Rightarrow> load_recovery \<Rightarrow> load_recovery \<times> wire" where
  "record_frame u line probe r =
     (let sid = update_session probe in
      if sid = [] then (r, line)
      else let (l, out) = record_log u line (is_user_update probe) (lr_logs r sid)
           in (upd_log sid (\<lambda>_. l) r, out))"

definition prompt_frame :: "string \<Rightarrow> json \<Rightarrow> int \<Rightarrow> string \<Rightarrow> wire" where
  "prompt_frame sid block seq client_id =
     marshal (JObj [(''jsonrpc'', JStr ''2.0''), (''method'', JStr ''session/update''),
       (''params'', JObj [(''sessionId'', JStr sid),
          (''update'', JObj [(''_meta'', JObj ((if client_id = [] then [] else [(client_id_meta_key, JStr client_id)])
               @ [(seq_meta_key, JNum (dec_int seq))])),
             (''content'', block), (''sessionUpdate'', JStr ''user_message_chunk'')])])])"

definition buffer_block :: "string \<Rightarrow> string \<Rightarrow> string \<Rightarrow> json \<Rightarrow> session_log \<Rightarrow> session_log" where
  "buffer_block sid client_id prompt block l =
     (let seq = sl_seq l + 1
      in append_history (prompt_frame sid block seq client_id) True seq prompt (l\<lparr>sl_seq := seq\<rparr>))"

definition buffer_prompt :: "string \<Rightarrow> json list \<Rightarrow> string \<Rightarrow> string \<Rightarrow> load_recovery \<Rightarrow> load_recovery" where
  "buffer_prompt sid blocks client_id prompt r =
     upd_log sid (fold (buffer_block sid client_id prompt) blocks) r"

definition id_key :: "json option \<Rightarrow> string" where
  "id_key i = (case i of None \<Rightarrow> [] | Some j \<Rightarrow> render j)"

definition on_outbound :: "client_frame \<Rightarrow> load_recovery \<Rightarrow> load_recovery" where
  "on_outbound f r =
     (let sid = cp_session (cf_params f) in
      if cf_method f = ''session/prompt'' \<and> sid \<noteq> []
      then buffer_prompt sid (cp_prompt (cf_params f)) (cp_client_id (cf_params f)) (id_key (cf_id f)) r
      else if cf_method f \<noteq> ''session/load'' \<or> sid = [] \<or> cf_id f = None then r
      else r\<lparr>lr_pending_loads := (lr_pending_loads r)(id_key (cf_id f) \<mapsto> sid)\<rparr>)"

section \<open>Catch-up\<close>

text \<open>The loop over the history; \<open>None\<close> is the early return with a gap.\<close>

fun catch_up_frames :: "int \<Rightarrow> history_frame list \<Rightarrow> wire list option" where
  "catch_up_frames after [] = Some []"
| "catch_up_frames after (f # fs) =
     (if hf_seq f = 0 \<and> after < hf_gap f then None
      else map_option (\<lambda>out. if after < hf_seq f then hf_line f # out else out) (catch_up_frames after fs))"

definition catch_up_log :: "int \<Rightarrow> session_log \<Rightarrow> wire list option" where
  "catch_up_log after l =
     (if after < sl_evicted l \<or> sl_seq l < after then None
      else if list_ex (\<lambda>c. cr_from c \<le> after \<and> after \<le> cr_through c) (sl_rejected l) then None
      else catch_up_frames after (sl_history l))"

definition catch_up :: "string \<Rightarrow> string \<Rightarrow> int \<Rightarrow> load_recovery \<Rightarrow> wire list \<times> int \<times> bool" where
  "catch_up sid epoch after r =
     (let l = lr_logs r sid in
      case (if epoch \<noteq> lr_epoch r then None else catch_up_log after l) of
        None \<Rightarrow> ([], sl_seq l, True)
      | Some frames \<Rightarrow> (frames, sl_seq l, False))"

section \<open>Forgetting a rejected prompt\<close>

text \<open>\<^verbatim>\<open>forgetPrompt\<close>'s first loop: an agent update follows the prompt's frames.\<close>

fun update_follows :: "string \<Rightarrow> bool \<Rightarrow> history_frame list \<Rightarrow> bool" where
  "update_follows prompt found [] = False"
| "update_follows prompt found (f # fs) =
     (let found' = (found \<or> (hf_prompt f = prompt \<and> prompt \<noteq> []))
      in (found' \<and> hf_prompt f = []) \<or> update_follows prompt found' fs)"

fun merge_ranges :: "int \<Rightarrow> cursor_range list \<Rightarrow> int \<times> cursor_range list" where
  "merge_ranges seq [] = (seq, [])"
| "merge_ranges seq (c # rev_ranges) =
     (if seq - 1 \<le> cr_through c then merge_ranges (min seq (cr_from c)) rev_ranges
      else (seq, c # rev_ranges))"

definition invalidate_prompt :: "int \<Rightarrow> session_log \<Rightarrow> session_log" where
  "invalidate_prompt seq l =
     (let ranges = dropWhile (\<lambda>c. cr_through c < sl_evicted l) (sl_rejected l);
          (seq', rev_ranges) = merge_ranges seq (rev ranges)
      in l\<lparr>sl_rejected := rev rev_ranges @ [\<lparr>cr_from = seq', cr_through = sl_seq l\<rparr>]\<rparr>)"

fun remove_prompt :: "string \<Rightarrow> history_frame list \<Rightarrow> session_log \<Rightarrow> session_log \<times> history_frame list" where
  "remove_prompt prompt [] l = (l, [])"
| "remove_prompt prompt (f # fs) l =
     (if hf_prompt f \<noteq> prompt \<or> prompt = []
      then let (l', kept) = remove_prompt prompt fs l in (l', f # kept)
      else remove_prompt prompt fs
             (invalidate_prompt (hf_seq f)
                (l\<lparr>sl_size := sl_size l - int (wire_len (hf_line f)), sl_users := sl_users l - 1\<rparr>)))"

definition forget_log :: "string \<Rightarrow> session_log \<Rightarrow> session_log" where
  "forget_log prompt l =
     (if sl_history l = [] \<or> update_follows prompt False (sl_history l) then l
      else
        let (l', kept) = remove_prompt prompt (sl_history l) l;
            l'' = l'\<lparr>sl_history := kept\<rparr>
        in if length kept < length (sl_history l) then l''\<lparr>sl_seq := sl_seq l'' + 1\<rparr> else l'')"

definition forget_prompt :: "string \<Rightarrow> string \<Rightarrow> load_recovery \<Rightarrow> load_recovery" where
  "forget_prompt sid prompt r = upd_log sid (forget_log prompt) r"

section \<open>Recovering a rejected load\<close>

definition resumed_method :: string where "resumed_method = ''_ferngeist/resumed''"

definition resumed_frame :: "string \<Rightarrow> nat \<Rightarrow> bool \<Rightarrow> wire" where
  "resumed_frame sid replayed truncated =
     marshal (JObj [(''jsonrpc'', JStr ''2.0''), (''method'', JStr resumed_method),
       (''params'', JObj ([(''replayedFrames'', JNum (dec replayed)), (''sessionId'', JStr sid)]
          @ (if truncated then [(''truncated'', JBool True)] else [])))])"

text \<open>\<^verbatim>\<open>json.Unmarshal\<close> of an optional member into a map: absent and \<^verbatim>\<open>null\<close> are the empty map.\<close>

definition submap :: "string \<Rightarrow> (string \<times> json) list \<Rightarrow> (string \<times> json) list option" where
  "submap k m = (case map_of m k of None \<Rightarrow> Some [] | Some JNull \<Rightarrow> Some [] | Some j \<Rightarrow> fields_of j)"

definition cursor_json :: "string \<Rightarrow> int \<Rightarrow> json" where
  "cursor_json epoch head = JObj [(''epoch'', JStr epoch), (''headSeq'', JNum (dec_int head))]"

definition synthesize_load_success :: "wire option \<Rightarrow> json \<Rightarrow> json \<Rightarrow> wire option" where
  "synthesize_load_success cached i cursor =
     Option.bind (case cached of None \<Rightarrow> Some [] | Some w \<Rightarrow> wire_fields w) (\<lambda>resp.
     Option.bind (submap ''result'' resp) (\<lambda>result.
     Option.bind (submap ''_meta'' result) (\<lambda>meta.
       let meta' = AList.update catch_up_meta_key cursor meta;
           result' = AList.update ''_meta'' (JObj (sort_key fst meta')) result;
           resp' = AList.update ''id'' i (AList.update ''jsonrpc'' (JStr ''2.0'')
             (AList.update ''result'' (JObj (sort_key fst result')) resp))
       in Some (marshal_map resp'))))"

definition on_frame ::
  "wire \<Rightarrow> frame_probe option \<Rightarrow> load_recovery \<Rightarrow> load_recovery \<times> wire list option" where
  "on_frame line probe r =
     (case Option.bind probe fp_id of
        None \<Rightarrow> (r, None)
      | Some i \<Rightarrow>
          (case lr_pending_loads r (render i) of
             None \<Rightarrow> (r, None)
           | Some sid \<Rightarrow>
               let r1 = r\<lparr>lr_pending_loads := (lr_pending_loads r)(render i := None)\<rparr> in
               (case Option.bind probe fp_error of
                  None \<Rightarrow> (r1\<lparr>lr_response := (lr_response r1)(sid \<mapsto> line)\<rparr>, None)
                | Some message \<Rightarrow>
                    if \<not> str_contains (to_lower message) ''already loaded'' then (r1, None)
                    else
                      let l = lr_logs r1 sid;
                          frames = resumed_frame sid (length (sl_history l)) (sl_trimmed l) # map hf_line (sl_history l)
                      in (case synthesize_load_success (lr_response r1 sid) i (cursor_json (lr_epoch r1) (sl_seq l)) of
                            None \<Rightarrow> (r1, None)
                          | Some success \<Rightarrow> (r1, Some (frames @ [success]))))))"

end
