(* ===== verification/Load_Recovery_Proofs.thy ===== *)
theory Load_Recovery_Proofs
  imports Load_Recovery
begin

text \<open>
  What the replay buffer promises: a catch-up without a gap returns exactly the updates the client
  misses, numbering is gap-free and increasing, the buffer is bounded, and a recovered load replays it.
  The promise is stated against a ghost log that never evicts.
\<close>

section \<open>Operations on one session's log\<close>

datatype log_op =
    LUpdate wire bool
  | LBlock json string string
  | LForget string

fun log_step :: "sdk \<Rightarrow> string \<Rightarrow> session_log \<Rightarrow> log_op \<Rightarrow> session_log" where
  "log_step u sid l (LUpdate line user) = fst (record_log u line user l)"
| "log_step u sid l (LBlock block client_id prompt) = buffer_block sid client_id prompt block l"
| "log_step u sid l (LForget prompt) = forget_log prompt l"

text \<open>
  The ghost log: every frame ever appended, and for each frame a rejected prompt took out its number
  with the head at that time.
\<close>

record ghost_log =
  gh_log :: session_log
  gh_all :: "history_frame list"
  gh_gone :: "(int \<times> int) list"

definition new_ghost :: ghost_log where
  "new_ghost = \<lparr>gh_log = empty_log, gh_all = [], gh_gone = []\<rparr>"

definition removed_from :: "session_log \<Rightarrow> session_log \<Rightarrow> (int \<times> int) list" where
  "removed_from l l' = map (\<lambda>f. (hf_seq f, sl_seq l)) (filter (\<lambda>f. f \<notin> set (sl_history l')) (sl_history l))"

fun ghost_step :: "sdk \<Rightarrow> string \<Rightarrow> ghost_log \<Rightarrow> log_op \<Rightarrow> ghost_log" where
  "ghost_step u sid g (LForget prompt) =
     (let l' = log_step u sid (gh_log g) (LForget prompt)
      in g\<lparr>gh_log := l', gh_gone := gh_gone g @ removed_from (gh_log g) l'\<rparr>)"
| "ghost_step u sid g e =
     (let l' = log_step u sid (gh_log g) e
      in g\<lparr>gh_log := l', gh_all := gh_all g @ [last (sl_history l')]\<rparr>)"

lemma ghost_log_step: "gh_log (ghost_step u sid g e) = log_step u sid (gh_log g) e"
  by (cases e) (simp_all add: Let_def)

lemma ghost_log_run: "gh_log (run (ghost_step u sid) g es) = run (log_step u sid) (gh_log g) es"
  by (induction es arbitrary: g) (simp_all add: ghost_log_step)

section \<open>The invariant\<close>

abbreviation seq_less :: "history_frame \<Rightarrow> history_frame \<Rightarrow> bool" where
  "seq_less a b \<equiv> hf_seq a < hf_seq b"

definition seqs_increase :: "history_frame list \<Rightarrow> bool" where
  "seqs_increase fs \<longleftrightarrow> sorted_wrt seq_less (filter (\<lambda>f. hf_seq f \<noteq> 0) fs)"

definition covered :: "session_log \<Rightarrow> int \<Rightarrow> bool" where
  "covered l c \<longleftrightarrow> c < sl_evicted l \<or> (\<exists>r \<in> set (sl_rejected l). cr_from r \<le> c \<and> c \<le> cr_through r)"

definition counts_ok :: "session_log \<Rightarrow> bool" where
  "counts_ok l \<longleftrightarrow> sl_size l = (\<Sum>f\<leftarrow>sl_history l. int (wire_len (hf_line f))) \<and>
     sl_users l = int (length (filter hf_user (sl_history l)))"

definition frame_ok :: "int \<Rightarrow> history_frame \<Rightarrow> bool" where
  "frame_ok head f \<longleftrightarrow> 0 \<le> hf_seq f \<and> hf_seq f \<le> head \<and> 0 < hf_gap f \<and>
     (hf_prompt f \<noteq> [] \<longrightarrow> hf_seq f \<noteq> 0 \<and> hf_user f)"

definition log_inv :: "session_log \<Rightarrow> history_frame list \<Rightarrow> (int \<times> int) list \<Rightarrow> bool" where
  "log_inv l all gone \<longleftrightarrow>
     seqs_increase all \<and> seqs_increase (sl_history l) \<and>
     set (sl_history l) \<subseteq> set all \<and>
     (\<forall>f \<in> set all. frame_ok (sl_seq l) f) \<and>
     (\<forall>f \<in> set all. f \<in> set (sl_history l) \<or> frame_boundary f \<le> sl_evicted l \<or>
        (hf_seq f \<noteq> 0 \<and> hf_seq f \<in> fst ` set gone)) \<and>
     (\<forall>f \<in> set (sl_history l). hf_seq f \<notin> fst ` set gone) \<and>
     (\<forall>(s, h) \<in> set gone. 0 < s \<and> s \<le> h \<and> h \<le> sl_seq l \<and> (\<forall>c. s \<le> c \<longrightarrow> c \<le> h \<longrightarrow> covered l c)) \<and>
     (\<forall>r \<in> set (sl_rejected l). cr_through r < sl_seq l) \<and>
     ((\<forall>f \<in> set all. hf_seq f \<noteq> 0) \<longrightarrow> sl_evicted l \<le> sl_seq l) \<and>
     0 \<le> sl_seq l \<and> 0 \<le> sl_evicted l \<and> counts_ok l"

lemma log_inv_empty: "log_inv empty_log [] []"
  by (simp add: log_inv_def empty_log_def seqs_increase_def counts_ok_def)

lemma covered_mono:
  "covered l c \<Longrightarrow> sl_evicted l \<le> sl_evicted l' \<Longrightarrow> sl_rejected l' = sl_rejected l \<Longrightarrow> covered l' c"
  by (auto simp: covered_def)

text \<open>Dropping the oldest frame moves the boundary over it.\<close>

lemma drop_oldest_fields:
  "sl_seq (drop_oldest l) = sl_seq l" "sl_rejected (drop_oldest l) = sl_rejected l"
  "sl_evicted l \<le> sl_evicted (drop_oldest l)" "sl_trimmed (drop_oldest l) = sl_trimmed l"
  by (simp_all add: drop_oldest_def split: list.split)

lemma seqs_increase_tl: "seqs_increase fs \<Longrightarrow> seqs_increase (tl fs)"
  by (cases fs) (auto simp: seqs_increase_def split: if_splits)

lemma counts_drop_oldest: "counts_ok l \<Longrightarrow> counts_ok (drop_oldest l)"
  by (auto simp: counts_ok_def drop_oldest_def split: list.split)

lemma boundary_drop_oldest:
  "f \<in> set (sl_history l) \<Longrightarrow> f \<in> set (sl_history (drop_oldest l)) \<or> frame_boundary f \<le> sl_evicted (drop_oldest l)"
  by (cases "sl_history l") (auto simp: drop_oldest_def)

lemma log_inv_drop_oldest:
  assumes "log_inv l all gone"
  shows "log_inv (drop_oldest l) all gone"
proof -
  note inv = assms [unfolded log_inv_def]
  have hist: "set (tl (sl_history l)) \<subseteq> set (sl_history l)" by (cases "sl_history l") auto
  have kept: "f \<in> set (tl (sl_history l)) \<or> frame_boundary f \<le> sl_evicted (drop_oldest l) \<or>
      hf_seq f \<noteq> 0 \<and> hf_seq f \<in> fst ` set gone" if "f \<in> set all" for f
    using inv that boundary_drop_oldest [of f l] drop_oldest_fields(3) [of l] by fastforce
  have cov: "covered l c \<Longrightarrow> covered (drop_oldest l) c" for c
    using covered_mono drop_oldest_fields by blast
  have head: "sl_evicted (drop_oldest l) \<le> sl_seq l" if "\<forall>f \<in> set all. hf_seq f \<noteq> 0"
  proof (cases "sl_history l")
    case (Cons d rest)
    then have "d \<in> set all" using inv by auto
    then have "hf_seq d \<le> sl_seq l" using inv unfolding frame_ok_def by blast
    moreover have "hf_seq d \<noteq> 0" "sl_evicted l \<le> sl_seq l" using that \<open>d \<in> set all\<close> inv by blast+
    ultimately show ?thesis using Cons by (simp add: drop_oldest_def frame_boundary_def)
  qed (use inv that in \<open>simp add: drop_oldest_def\<close>)
  show ?thesis
    unfolding log_inv_def using inv hist kept cov head counts_drop_oldest [of l] seqs_increase_tl
    by (auto simp: drop_oldest_fields intro: order_trans [OF _ drop_oldest_fields(3)])
qed

lemma log_inv_evict_to_size: "log_inv l all gone \<Longrightarrow> log_inv (evict_to_size l) all gone"
proof (induction l rule: evict_to_size.induct)
  case (1 l)
  then show ?case by (subst evict_to_size.simps) (auto intro: log_inv_drop_oldest)
qed

lemma log_inv_evict_to_user: "log_inv l all gone \<Longrightarrow> log_inv (evict_to_user l) all gone"
proof (induction l rule: evict_to_user.induct)
  case (1 l)
  then show ?case by (subst evict_to_user.simps) (auto intro: log_inv_drop_oldest)
qed

lemma log_inv_trimmed [simp]: "log_inv (l\<lparr>sl_trimmed := b\<rparr>) all gone = log_inv l all gone"
  by (simp add: log_inv_def covered_def counts_ok_def)

section \<open>Appending\<close>

definition pushed :: "wire \<Rightarrow> bool \<Rightarrow> int \<Rightarrow> string \<Rightarrow> session_log \<Rightarrow> history_frame" where
  "pushed line user seq prompt l =
     \<lparr>hf_line = line, hf_user = user, hf_seq = seq, hf_prompt = prompt, hf_gap = sl_seq l + 1\<rparr>"

definition push_log :: "wire \<Rightarrow> bool \<Rightarrow> int \<Rightarrow> string \<Rightarrow> session_log \<Rightarrow> session_log" where
  "push_log line user seq prompt l =
     l\<lparr>sl_history := sl_history l @ [pushed line user seq prompt l], sl_size := sl_size l + int (wire_len line),
       sl_users := (if user then sl_users l + 1 else sl_users l)\<rparr>"

lemma append_history_push:
  "append_history line user seq prompt l =
     (let l1 = push_log line user seq prompt l in
      if max_load_history_bytes < sl_size l1 \<and> 1 < length (sl_history l1)
      then (evict_to_user (evict_to_size l1))\<lparr>sl_trimmed := True\<rparr> else evict_to_size l1)"
  by (simp add: append_history_def push_log_def pushed_def Let_def)

lemma seqs_increase_snoc:
  "seqs_increase fs \<Longrightarrow> hf_seq f = 0 \<or> (\<forall>g \<in> set fs. hf_seq g < hf_seq f) \<Longrightarrow> seqs_increase (fs @ [f])"
  by (auto simp: seqs_increase_def sorted_wrt_append)

lemma log_inv_push:
  assumes "log_inv l all gone"
    and "seq = 0 \<and> prompt = [] \<and> l0 = l \<or> seq = sl_seq l + 1 \<and> (prompt \<noteq> [] \<longrightarrow> user) \<and> l0 = l\<lparr>sl_seq := seq\<rparr>"
  shows "log_inv (push_log line user seq prompt l0) (all @ [pushed line user seq prompt l0]) gone"
proof -
  let ?f = "pushed line user seq prompt l0"
  note inv = assms(1) [unfolded log_inv_def]
  have head: "sl_seq l \<le> sl_seq l0" "sl_rejected l0 = sl_rejected l" "sl_evicted l0 = sl_evicted l"
    "sl_history l0 = sl_history l" "counts_ok l0" "0 \<le> sl_seq l0"
    using assms inv by (auto simp: counts_ok_def)
  have old: "hf_seq g \<le> sl_seq l \<and> 0 \<le> hf_seq g" if "g \<in> set all" for g
    using inv that by (auto simp: frame_ok_def)
  have new: "hf_seq ?f = 0 \<or> (\<forall>g \<in> set all. hf_seq g < hf_seq ?f)"
    using assms(2) old by (force simp: pushed_def)
  have ok: "\<forall>g \<in> set all. frame_ok (sl_seq l0) g" using inv head(1) by (fastforce simp: frame_ok_def)
  have fok: "frame_ok (sl_seq l0) ?f" using assms(2) inv by (auto simp: frame_ok_def pushed_def)
  have gone: "hf_seq ?f \<notin> fst ` set gone"
  proof
    assume "hf_seq ?f \<in> fst ` set gone"
    then obtain h where "(hf_seq ?f, h) \<in> set gone" by auto
    then have "0 < hf_seq ?f" "hf_seq ?f \<le> sl_seq l" using inv by fastforce+
    then show False using assms(2) by (auto simp: pushed_def)
  qed
  have inc: "seqs_increase (all @ [?f])" "seqs_increase (sl_history l @ [?f])"
    using new inv by (auto intro!: seqs_increase_snoc)
  have counts: "counts_ok (push_log line user seq prompt l0)"
    using head(5) by (simp add: counts_ok_def push_log_def pushed_def)
  have fields: "sl_history (push_log line user seq prompt l0) = sl_history l @ [?f]"
    "sl_seq (push_log line user seq prompt l0) = sl_seq l0"
    "sl_evicted (push_log line user seq prompt l0) = sl_evicted l"
    "sl_rejected (push_log line user seq prompt l0) = sl_rejected l"
    by (simp_all add: push_log_def head)
  have cov: "covered (push_log line user seq prompt l0) c = covered l c" for c
    by (simp add: covered_def fields)
  have gone': "\<forall>(s, h) \<in> set gone. 0 < s \<and> s \<le> h \<and> h \<le> sl_seq l0 \<and> (\<forall>c. s \<le> c \<longrightarrow> c \<le> h \<longrightarrow> covered l c)"
    using inv head(1) by fastforce
  have rej: "\<forall>r \<in> set (sl_rejected l). cr_through r < sl_seq l0" using inv head(1) by fastforce
  show ?thesis
    unfolding log_inv_def fields cov
    using inv inc ok fok gone gone' rej head(1,6) counts by auto
qed

lemma log_inv_append:
  assumes "log_inv l all gone"
    and "seq = 0 \<and> prompt = [] \<and> l0 = l \<or> seq = sl_seq l + 1 \<and> (prompt \<noteq> [] \<longrightarrow> user) \<and> l0 = l\<lparr>sl_seq := seq\<rparr>"
  shows "log_inv (append_history line user seq prompt l0) (all @ [pushed line user seq prompt l0]) gone"
  using log_inv_push [OF assms, of line] unfolding append_history_push Let_def
  by (auto intro: log_inv_evict_to_size log_inv_evict_to_user)

lemma last_drop_oldest:
  "1 < length (sl_history l) \<Longrightarrow> last (sl_history (drop_oldest l)) = last (sl_history l)"
  by (cases "sl_history l") auto

lemma evict_to_size_stop:
  "\<not> (max_load_history_bytes < sl_size l \<and> 1 < length (sl_history l)) \<Longrightarrow> evict_to_size l = l"
  by (subst evict_to_size.simps) (simp only: if_False)

lemma evict_to_size_step:
  "max_load_history_bytes < sl_size l \<and> 1 < length (sl_history l) \<Longrightarrow>
     evict_to_size l = evict_to_size (drop_oldest l)"
  by (subst evict_to_size.simps) simp

lemma evict_to_user_stop:
  "\<not> (0 < sl_users l \<and> sl_history l \<noteq> [] \<and> \<not> hf_user (hd (sl_history l))) \<Longrightarrow> evict_to_user l = l"
  by (subst evict_to_user.simps) auto

lemma evict_to_user_step:
  "0 < sl_users l \<and> sl_history l \<noteq> [] \<and> \<not> hf_user (hd (sl_history l)) \<Longrightarrow>
     evict_to_user l = evict_to_user (drop_oldest l)"
  by (subst evict_to_user.simps) simp

lemma drop_oldest_nonempty: "1 < length (sl_history l) \<Longrightarrow> sl_history (drop_oldest l) \<noteq> []"
  by (cases "sl_history l") auto

lemma last_evict_to_size:
  "sl_history l \<noteq> [] \<Longrightarrow> sl_history (evict_to_size l) \<noteq> [] \<and>
     last (sl_history (evict_to_size l)) = last (sl_history l)"
proof (induction l rule: evict_to_size.induct)
  case (1 l)
  show ?case
  proof (cases "max_load_history_bytes < sl_size l \<and> 1 < length (sl_history l)")
    case True
    then have len: "1 < length (sl_history l)" by simp
    from 1(1) [OF True drop_oldest_nonempty [OF len]] last_drop_oldest [OF len]
    show ?thesis by (simp only: evict_to_size_step [OF True]) simp
  qed (simp add: evict_to_size_stop 1(2))
qed

lemma users_last:
  assumes "0 < sl_users l" "counts_ok l" "\<not> hf_user (hd (sl_history l))"
  shows "1 < length (sl_history l)"
proof -
  have "filter hf_user (sl_history l) \<noteq> []" using assms(1,2) by (auto simp: counts_ok_def)
  then show ?thesis using assms(3) by (cases "sl_history l" rule: list.exhaust; cases "tl (sl_history l)") auto
qed

lemma last_evict_to_user:
  "sl_history l \<noteq> [] \<Longrightarrow> counts_ok l \<Longrightarrow> sl_history (evict_to_user l) \<noteq> [] \<and>
     last (sl_history (evict_to_user l)) = last (sl_history l) \<and>
     (sl_users (evict_to_user l) \<le> 0 \<or> hf_user (hd (sl_history (evict_to_user l))))"
proof (induction l rule: evict_to_user.induct)
  case (1 l)
  show ?case
  proof (cases "0 < sl_users l \<and> sl_history l \<noteq> [] \<and> \<not> hf_user (hd (sl_history l))")
    case True
    then have len: "1 < length (sl_history l)" using users_last 1(3) by blast
    from 1(1) [OF True drop_oldest_nonempty [OF len] counts_drop_oldest [OF 1(3)]] last_drop_oldest [OF len]
    show ?thesis by (simp only: evict_to_user_step [OF True]) simp
  next
    case False
    then show ?thesis using 1(2) by (auto simp: evict_to_user_stop)
  qed
qed

lemma counts_push: "counts_ok l \<Longrightarrow> counts_ok (push_log line user seq prompt l)"
  by (simp add: counts_ok_def push_log_def pushed_def)

lemma counts_evict_to_size: "counts_ok l \<Longrightarrow> counts_ok (evict_to_size l)"
proof (induction l rule: evict_to_size.induct)
  case (1 l)
  then show ?case by (subst evict_to_size.simps) (auto intro: counts_drop_oldest)
qed

lemma last_append:
  assumes "counts_ok l"
  shows "last (sl_history (append_history line user seq prompt l)) = pushed line user seq prompt l"
proof -
  let ?l = "push_log line user seq prompt l"
  have ne: "sl_history ?l \<noteq> []" and la: "last (sl_history ?l) = pushed line user seq prompt l"
    by (simp_all add: push_log_def)
  note a = last_evict_to_size [OF ne] counts_evict_to_size [OF counts_push [OF assms]]
  show ?thesis using a la last_evict_to_user [OF conjunct1 [OF a(1)] a(2)]
    by (simp add: append_history_push Let_def)
qed

section \<open>Forgetting a prompt\<close>

abbreviation of_prompt :: "string \<Rightarrow> history_frame \<Rightarrow> bool" where
  "of_prompt prompt f \<equiv> hf_prompt f = prompt \<and> prompt \<noteq> []"

lemma merge_ranges_spec:
  "merge_ranges s rs = (s', rs') \<Longrightarrow>
     s' \<le> s \<and> set rs' \<subseteq> set rs \<and> (\<forall>r \<in> set rs. r \<in> set rs' \<or> s' \<le> cr_from r)"
proof (induction s rs rule: merge_ranges.induct)
  case (2 s c rs)
  show ?case
  proof (cases "s - 1 \<le> cr_through c")
    case True
    then have "merge_ranges (min s (cr_from c)) rs = (s', rs')" using 2(2) by simp
    with 2(1) [OF True this] show ?thesis by auto
  qed (use 2(2) in auto)
qed simp

lemma invalidate_fields:
  "sl_history (invalidate_prompt s l) = sl_history l" "sl_seq (invalidate_prompt s l) = sl_seq l"
  "sl_evicted (invalidate_prompt s l) = sl_evicted l" "sl_size (invalidate_prompt s l) = sl_size l"
  "sl_users (invalidate_prompt s l) = sl_users l" "sl_trimmed (invalidate_prompt s l) = sl_trimmed l"
  by (simp_all add: invalidate_prompt_def split_beta Let_def)

lemma dropWhile_rest: "x \<in> set xs \<Longrightarrow> x \<in> set (dropWhile P xs) \<or> P x"
  by (induction xs) auto

lemma invalidate_rejected:
  assumes "\<forall>r \<in> set (sl_rejected l). cr_through r \<le> sl_seq l"
  shows "\<forall>r \<in> set (sl_rejected (invalidate_prompt s l)). cr_through r \<le> sl_seq l"
    and "covered l c \<Longrightarrow> covered (invalidate_prompt s l) c"
    and "s \<le> c \<Longrightarrow> c \<le> sl_seq l \<Longrightarrow> covered (invalidate_prompt s l) c"
proof -
  let ?d = "dropWhile (\<lambda>c. cr_through c < sl_evicted l) (sl_rejected l)"
  obtain s' rs' where m: "merge_ranges s (rev ?d) = (s', rs')" by (cases "merge_ranges s (rev ?d)")
  note spec = merge_ranges_spec [OF m]
  have rej: "sl_rejected (invalidate_prompt s l) = rev rs' @ [\<lparr>cr_from = s', cr_through = sl_seq l\<rparr>]"
    by (simp add: invalidate_prompt_def m)
  have sub: "set ?d \<subseteq> set (sl_rejected l)" by (auto dest: set_dropWhileD)
  show "\<forall>r \<in> set (sl_rejected (invalidate_prompt s l)). cr_through r \<le> sl_seq l"
    using spec sub assms by (auto simp: rej)
  have dropped: "r \<in> set ?d \<or> cr_through r < sl_evicted l" if "r \<in> set (sl_rejected l)" for r
    using dropWhile_rest [OF that] .
  show "covered (invalidate_prompt s l) c" if cv: "covered l c"
  proof (cases "c < sl_evicted l")
    case False
    then obtain r where r: "r \<in> set (sl_rejected l)" "cr_from r \<le> c" "c \<le> cr_through r"
      using cv by (auto simp: covered_def)
    then have "r \<in> set ?d" using dropped [OF r(1)] False by auto
    then have "r \<in> set rs' \<or> s' \<le> cr_from r" using spec by auto
    then show ?thesis using r assms by (fastforce simp: covered_def rej)
  qed (simp add: covered_def invalidate_fields)
  show "covered (invalidate_prompt s l) c" if "s \<le> c" "c \<le> sl_seq l"
    using that spec by (auto simp: covered_def rej)
qed

lemma remove_prompt_kept: "snd (remove_prompt prompt fs l) = filter (\<lambda>f. \<not> of_prompt prompt f) fs"
  by (induction prompt fs l rule: remove_prompt.induct) (auto simp: split_beta)

lemma remove_prompt_fields:
  "sl_history (fst (remove_prompt prompt fs l)) = sl_history l \<and> sl_seq (fst (remove_prompt prompt fs l)) = sl_seq l \<and>
   sl_evicted (fst (remove_prompt prompt fs l)) = sl_evicted l"
  by (induction prompt fs l rule: remove_prompt.induct) (auto simp: split_beta invalidate_fields)

lemma remove_prompt_counts:
  "\<forall>f \<in> set fs. hf_prompt f \<noteq> [] \<longrightarrow> hf_user f \<Longrightarrow>
     sl_size (fst (remove_prompt prompt fs l)) - (\<Sum>f\<leftarrow>filter (\<lambda>f. \<not> of_prompt prompt f) fs. int (wire_len (hf_line f)))
       = sl_size l - (\<Sum>f\<leftarrow>fs. int (wire_len (hf_line f))) \<and>
     sl_users (fst (remove_prompt prompt fs l)) - int (length (filter hf_user (filter (\<lambda>f. \<not> of_prompt prompt f) fs)))
       = sl_users l - int (length (filter hf_user fs))"
  by (induction prompt fs l rule: remove_prompt.induct) (auto simp: split_beta invalidate_fields)

lemma remove_prompt_covers:
  "\<forall>r \<in> set (sl_rejected l). cr_through r \<le> sl_seq l \<Longrightarrow>
     (\<forall>r \<in> set (sl_rejected (fst (remove_prompt prompt fs l))). cr_through r \<le> sl_seq l) \<and>
     (\<forall>c. covered l c \<longrightarrow> covered (fst (remove_prompt prompt fs l)) c) \<and>
     (\<forall>f \<in> set fs. of_prompt prompt f \<longrightarrow>
        (\<forall>c. hf_seq f \<le> c \<longrightarrow> c \<le> sl_seq l \<longrightarrow> covered (fst (remove_prompt prompt fs l)) c))"
proof (induction prompt fs l rule: remove_prompt.induct)
  case (2 prompt f fs l)
  show ?case
  proof (cases "of_prompt prompt f")
    case False
    with 2 show ?thesis by (auto simp: split_beta)
  next
    case True
    let ?l1 = "l\<lparr>sl_size := sl_size l - int (wire_len (hf_line f)), sl_users := sl_users l - 1\<rparr>"
    have rej1: "\<forall>r \<in> set (sl_rejected ?l1). cr_through r \<le> sl_seq ?l1" using 2(3) by simp
    have cov1: "covered ?l1 c = covered l c" for c by (simp add: covered_def)
    note inv = invalidate_rejected [OF rej1, where s = "hf_seq f"]
    have rej2: "\<forall>r \<in> set (sl_rejected (invalidate_prompt (hf_seq f) ?l1)). cr_through r \<le> sl_seq (invalidate_prompt (hf_seq f) ?l1)"
      using inv(1) by (simp add: invalidate_fields)
    have step: "fst (remove_prompt prompt (f # fs) l) = fst (remove_prompt prompt fs (invalidate_prompt (hf_seq f) ?l1))"
      using True by simp
    have "\<not> (hf_prompt f \<noteq> prompt \<or> prompt = [])" using True by simp
    note ih = 2(2) [OF this rej2]
    let ?m = "invalidate_prompt (hf_seq f) ?l1"
    have c1: "covered ?m c" if "covered l c" for c using inv(2) [where c = c] cov1 that by simp
    have c2: "covered ?m c" if "hf_seq f \<le> c" "c \<le> sl_seq l" for c using inv(3) [where c = c] that by simp
    have seq: "sl_seq ?m = sl_seq l" by (simp add: invalidate_fields)
    show ?thesis unfolding step using ih c1 c2 unfolding seq by auto
  qed
qed simp

lemma seqs_increase_filter: "seqs_increase fs \<Longrightarrow> seqs_increase (filter P fs)"
proof -
  have eq: "filter (\<lambda>f. hf_seq f \<noteq> 0) (filter P fs) = filter P (filter (\<lambda>f. hf_seq f \<noteq> 0) fs)"
    by (induction fs) auto
  show "seqs_increase fs \<Longrightarrow> seqs_increase (filter P fs)"
    unfolding seqs_increase_def eq by (rule sorted_wrt_filter)
qed

lemma seqs_inject:
  "seqs_increase fs \<Longrightarrow> f \<in> set fs \<Longrightarrow> g \<in> set fs \<Longrightarrow> hf_seq f = hf_seq g \<Longrightarrow> hf_seq f \<noteq> 0 \<Longrightarrow> f = g"
  by (induction fs) (auto simp: seqs_increase_def split: if_splits)

lemma filter_shorter_iff: "length (filter P xs) < length xs \<longleftrightarrow> \<not> list_all P xs"
proof (induction xs)
  case (Cons x xs)
  then show ?case using length_filter_le [of P xs] by (cases "P x") (auto simp: less_Suc_eq_le)
qed simp

lemma remove_none: "list_all (\<lambda>f. \<not> of_prompt prompt f) fs \<Longrightarrow> fst (remove_prompt prompt fs m) = m"
  by (induction prompt fs m rule: remove_prompt.induct) (auto simp: split_beta)

lemma forget_log_cases:
  obtains (same) "forget_log prompt l = l"
  | (removed) l' where "fst (remove_prompt prompt (sl_history l) l) = l'"
      "forget_log prompt l = l'\<lparr>sl_history := filter (\<lambda>f. \<not> of_prompt prompt f) (sl_history l), sl_seq := sl_seq l + 1\<rparr>"
proof (cases "sl_history l = [] \<or> update_follows prompt False (sl_history l)")
  case True
  then show thesis using same by (auto simp: forget_log_def)
next
  case False
  let ?l' = "fst (remove_prompt prompt (sl_history l) l)" and ?keep = "filter (\<lambda>f. \<not> of_prompt prompt f) (sl_history l)"
  have fl: "forget_log prompt l = (if length ?keep < length (sl_history l)
      then ?l'\<lparr>sl_history := ?keep, sl_seq := sl_seq ?l' + 1\<rparr> else ?l'\<lparr>sl_history := ?keep\<rparr>)"
    using False unfolding forget_log_def split_beta Let_def remove_prompt_kept by simp
  show thesis
  proof (cases "list_all (\<lambda>f. \<not> of_prompt prompt f) (sl_history l)")
    case True
    then have "?l' = l" by (rule remove_none)
    moreover have "?keep = sl_history l" using True by (intro filter_True) (simp add: list_all_iff)
    ultimately show thesis using fl by (intro same) simp
  next
    case False
    then have "length ?keep < length (sl_history l)" by (simp only: filter_shorter_iff not_False_eq_True)
    with fl show thesis using remove_prompt_fields [of prompt "sl_history l" l]
      by (intro removed [OF refl]) simp
  qed
qed

lemma log_inv_forget:
  assumes "log_inv l all gone"
  shows "log_inv (forget_log prompt l) all (gone @ removed_from l (forget_log prompt l))"
proof (cases rule: forget_log_cases [of prompt l])
  case same
  then have "removed_from l (forget_log prompt l) = []" by (auto simp: removed_from_def)
  then show ?thesis using assms same by simp
next
  case (removed l')
  let ?keep = "filter (\<lambda>f. \<not> of_prompt prompt f) (sl_history l)"
  let ?l = "l'\<lparr>sl_history := ?keep, sl_seq := sl_seq l + 1\<rparr>"
  note inv = assms [unfolded log_inv_def]
  have gone: "removed_from l (forget_log prompt l) =
      map (\<lambda>f. (hf_seq f, sl_seq l)) (filter (of_prompt prompt) (sl_history l))"
    unfolding removed_from_def removed(2) by (rule arg_cong [where f = "map _"], rule filter_cong) auto
  have flds: "sl_seq l' = sl_seq l" "sl_evicted l' = sl_evicted l"
    using remove_prompt_fields [of prompt "sl_history l" l] removed(1) by auto
  have "\<forall>r \<in> set (sl_rejected l). cr_through r \<le> sl_seq l" using inv by fastforce
  note cov = remove_prompt_covers [OF this, of prompt "sl_history l", unfolded removed(1)]
  have cov': "covered ?l c = covered l' c" for c by (simp add: covered_def)
  have ok: "\<forall>f \<in> set all. frame_ok (sl_seq l) f" using inv by blast
  have okh: "\<forall>f \<in> set (sl_history l). frame_ok (sl_seq l) f" using inv ok by blast
  then have "\<forall>f \<in> set (sl_history l). hf_prompt f \<noteq> [] \<longrightarrow> hf_user f" by (auto simp: frame_ok_def)
  note counts = remove_prompt_counts [OF this, of prompt l, unfolded removed(1)]
  have c: "counts_ok ?l" using counts inv by (auto simp: counts_ok_def)
  have ok': "\<forall>f \<in> set all. frame_ok (sl_seq l + 1) f" using ok by (fastforce simp: frame_ok_def)
  let ?gone = "set gone \<union> (\<lambda>f. (hf_seq f, sl_seq l)) ` {f \<in> set (sl_history l). of_prompt prompt f}"
  have keep_seq: "hf_seq f \<notin> fst ` ?gone" if f: "f \<in> set ?keep" for f
  proof
    assume "hf_seq f \<in> fst ` ?gone"
    moreover have "hf_seq f \<notin> fst ` set gone" using inv f by auto
    ultimately obtain g where g: "g \<in> set (sl_history l)" "of_prompt prompt g" "hf_seq f = hf_seq g" by auto
    have nz: "hf_seq g \<noteq> 0" using okh g by (auto simp: frame_ok_def)
    have "f = g" using seqs_inject [of "sl_history l" f g] inv f g nz by auto
    then show False using f g by auto
  qed
  have hist: "f \<in> set ?keep \<or> frame_boundary f \<le> sl_evicted l \<or> hf_seq f \<noteq> 0 \<and> hf_seq f \<in> fst ` ?gone"
    if "f \<in> set all" for f
  proof (cases "f \<in> set (sl_history l) \<and> of_prompt prompt f")
    case True
    then have "hf_seq f \<noteq> 0" using okh by (auto simp: frame_ok_def)
    moreover have "hf_seq f \<in> fst ` ?gone" using True by (intro image_eqI [of _ _ "(hf_seq f, sl_seq l)"]) auto
    ultimately show ?thesis by blast
  next
    case False
    have "f \<in> set (sl_history l) \<or> frame_boundary f \<le> sl_evicted l \<or> hf_seq f \<noteq> 0 \<and> hf_seq f \<in> fst ` set gone"
      using inv that by blast
    moreover have "f \<in> set (sl_history l) \<Longrightarrow> f \<in> set ?keep" using False by simp
    ultimately show ?thesis by auto
  qed
  have goneok: "\<forall>(s, h) \<in> ?gone. 0 < s \<and> s \<le> h \<and> h \<le> sl_seq l + 1 \<and> (\<forall>c. s \<le> c \<longrightarrow> c \<le> h \<longrightarrow> covered l' c)"
  proof -
    have old: "0 < s \<and> s \<le> h \<and> h \<le> sl_seq l + 1 \<and> (\<forall>c. s \<le> c \<longrightarrow> c \<le> h \<longrightarrow> covered l' c)"
      if "(s, h) \<in> set gone" for s h
    proof -
      have "\<forall>(s, h) \<in> set gone. 0 < s \<and> s \<le> h \<and> h \<le> sl_seq l \<and> (\<forall>c. s \<le> c \<longrightarrow> c \<le> h \<longrightarrow> covered l c)"
        using inv by blast
      with that have "0 < s \<and> s \<le> h \<and> h \<le> sl_seq l \<and> (\<forall>c. s \<le> c \<longrightarrow> c \<le> h \<longrightarrow> covered l c)" by blast
      then show ?thesis using cov by auto
    qed
    have new: "0 < hf_seq f \<and> hf_seq f \<le> sl_seq l \<and> (\<forall>c. hf_seq f \<le> c \<longrightarrow> c \<le> sl_seq l \<longrightarrow> covered l' c)"
      if "f \<in> set (sl_history l)" "of_prompt prompt f" for f
    proof -
      have "frame_ok (sl_seq l) f" using okh that(1) by blast
      then have "0 < hf_seq f" "hf_seq f \<le> sl_seq l" using that(2) by (auto simp: frame_ok_def)
      then show ?thesis using cov that by blast
    qed
    show ?thesis using old new by fastforce
  qed
  have lf: "sl_history ?l = ?keep" "sl_seq ?l = sl_seq l + 1" "sl_evicted ?l = sl_evicted l"
    "sl_rejected ?l = sl_rejected l'" by (simp_all add: flds)
  have goneset: "set (gone @ map (\<lambda>f. (hf_seq f, sl_seq l)) (filter (of_prompt prompt) (sl_history l))) = ?gone"
    by auto
  show ?thesis
    unfolding gone unfolding removed(2) log_inv_def cov' goneset
  proof (intro conjI)
    show "seqs_increase all" using inv by blast
    show "seqs_increase (sl_history ?l)" using inv seqs_increase_filter unfolding lf by blast
    show "set (sl_history ?l) \<subseteq> set all" unfolding lf using inv by auto
    show "\<forall>f \<in> set all. frame_ok (sl_seq ?l) f" unfolding lf using ok' .
    show "\<forall>f \<in> set all. f \<in> set (sl_history ?l) \<or> frame_boundary f \<le> sl_evicted ?l \<or>
        (hf_seq f \<noteq> 0 \<and> hf_seq f \<in> fst ` ?gone)" unfolding lf using hist by blast
    show "\<forall>f \<in> set (sl_history ?l). hf_seq f \<notin> fst ` ?gone" unfolding lf using keep_seq by blast
    show "\<forall>(s, h) \<in> ?gone. 0 < s \<and> s \<le> h \<and> h \<le> sl_seq ?l \<and> (\<forall>c. s \<le> c \<longrightarrow> c \<le> h \<longrightarrow> covered l' c)"
      unfolding lf using goneok .
    show "\<forall>r \<in> set (sl_rejected ?l). cr_through r < sl_seq ?l" unfolding lf using cov by fastforce
    show "(\<forall>f \<in> set all. hf_seq f \<noteq> 0) \<longrightarrow> sl_evicted ?l \<le> sl_seq ?l"
      unfolding lf using inv by (meson order_trans zle_add1_eq_le less_imp_le zless_add1_eq)
    show "0 \<le> sl_seq ?l" unfolding lf using inv by simp
    show "0 \<le> sl_evicted ?l" unfolding lf using inv by simp
    show "counts_ok ?l" by (rule c)
  qed
qed

section \<open>Every operation keeps the invariant\<close>

definition ghost_inv :: "ghost_log \<Rightarrow> bool" where
  "ghost_inv g \<longleftrightarrow> log_inv (gh_log g) (gh_all g) (gh_gone g)"

lemma counts_of_inv: "log_inv l all gone \<Longrightarrow> counts_ok l"
  by (simp add: log_inv_def)

lemma record_log_last:
  assumes "log_inv l all gone"
  shows "log_inv (fst (record_log u line user l)) (all @ [last (sl_history (fst (record_log u line user l)))]) gone"
proof -
  have c: "counts_ok l" "counts_ok (l\<lparr>sl_seq := n\<rparr>)" for n
    using counts_of_inv [OF assms] by (simp_all add: counts_ok_def)
  show ?thesis
    using log_inv_append [OF assms, of 0 "[]" l] log_inv_append [OF assms, of "sl_seq l + 1" "[]" "l\<lparr>sl_seq := sl_seq l + 1\<rparr>" user]
    by (auto simp: record_log_def Let_def last_append [OF c(1)] last_append [OF c(2)] split: option.split)
qed

lemma buffer_block_last:
  assumes "log_inv l all gone"
  shows "log_inv (buffer_block sid cid prompt b l) (all @ [last (sl_history (buffer_block sid cid prompt b l))]) gone"
proof -
  have c: "counts_ok (l\<lparr>sl_seq := n\<rparr>)" for n
    using counts_of_inv [OF assms] by (simp add: counts_ok_def)
  show ?thesis
    using log_inv_append [OF assms, of "sl_seq l + 1" prompt "l\<lparr>sl_seq := sl_seq l + 1\<rparr>" True]
    by (simp add: buffer_block_def Let_def last_append [OF c])
qed

lemma ghost_inv_step: "ghost_inv g \<Longrightarrow> ghost_inv (ghost_step u sid g e)"
  by (cases e) (simp_all add: ghost_inv_def Let_def record_log_last buffer_block_last log_inv_forget)

interpretation log_machine: invariant_machine "ghost_step u sid" ghost_inv "\<lambda>_. True"
  by unfold_locales (rule ghost_inv_step)

lemma ghost_inv_run: "ghost_inv (run (ghost_step u sid) new_ghost es)"
  by (rule log_machine.run_inv) (simp_all add: ghost_inv_def new_ghost_def log_inv_empty list_all_iff)

section \<open>Operations on the whole buffer\<close>

datatype lr_op =
    OpOut client_frame
  | OpIn wire "frame_probe option"
  | OpRecord wire "frame_probe option"
  | OpForget string string

fun lr_step :: "sdk \<Rightarrow> load_recovery \<Rightarrow> lr_op \<Rightarrow> load_recovery" where
  "lr_step u r (OpOut f) = on_outbound f r"
| "lr_step u r (OpIn line probe) = fst (on_frame line probe r)"
| "lr_step u r (OpRecord line probe) = fst (record_frame u line probe r)"
| "lr_step u r (OpForget sid prompt) = forget_prompt sid prompt r"

text \<open>The operations on the log of one session.\<close>

fun log_ops :: "string \<Rightarrow> lr_op \<Rightarrow> log_op list" where
  "log_ops sid (OpOut f) =
     (if cf_method f = ''session/prompt'' \<and> cp_session (cf_params f) = sid \<and> sid \<noteq> []
      then map (\<lambda>b. LBlock b (cp_client_id (cf_params f)) (id_key (cf_id f))) (cp_prompt (cf_params f)) else [])"
| "log_ops sid (OpIn line probe) = []"
| "log_ops sid (OpRecord line probe) =
     (if update_session probe = sid \<and> sid \<noteq> [] then [LUpdate line (is_user_update probe)] else [])"
| "log_ops sid (OpForget s prompt) = (if s = sid then [LForget prompt] else [])"

lemma run_blocks: "run (log_step u sid) l (map (\<lambda>b. LBlock b cid prompt) bs) = fold (buffer_block sid cid prompt) bs l"
  by (induction bs arbitrary: l) simp_all

lemma upd_log_apply [simp]: "lr_logs (upd_log s f r) sid = (if s = sid then f (lr_logs r sid) else lr_logs r sid)"
  by (simp add: upd_log_def)

lemma lr_step_log: "lr_logs (lr_step u r e) sid = run (log_step u sid) (lr_logs r sid) (log_ops sid e)"
proof (cases e)
  case (OpIn line probe)
  then show ?thesis by (auto simp: on_frame_def Let_def split: option.split)
next
  case (OpOut f)
  then show ?thesis by (auto simp: on_outbound_def buffer_prompt_def Let_def run_blocks)
qed (auto simp: record_frame_def forget_prompt_def Let_def split_beta)

lemma lr_step_epoch: "lr_epoch (lr_step u r e) = lr_epoch r"
  by (cases e) (auto simp: on_frame_def on_outbound_def buffer_prompt_def record_frame_def forget_prompt_def
      upd_log_def Let_def split_beta split: option.split)

lemma lr_run_epoch: "lr_epoch (run (lr_step u) r es) = lr_epoch r"
  by (induction es arbitrary: r) (simp_all add: lr_step_epoch)

lemma lr_run_log:
  "lr_logs (run (lr_step u) r es) sid = run (log_step u sid) (lr_logs r sid) (concat (map (log_ops sid) es))"
  by (induction es arbitrary: r) (simp_all add: lr_step_log)

text \<open>What ever happened to one session, never evicted.\<close>

definition session_trace :: "sdk \<Rightarrow> string \<Rightarrow> lr_op list \<Rightarrow> ghost_log" where
  "session_trace u sid es = run (ghost_step u sid) new_ghost (concat (map (log_ops sid) es))"

lemma trace_log: "gh_log (session_trace u sid es) = lr_logs (run (lr_step u) (new_load_recovery ep) es) sid"
  by (simp add: session_trace_def ghost_log_run lr_run_log new_load_recovery_def new_ghost_def)

lemma trace_inv:
  "log_inv (lr_logs (run (lr_step u) (new_load_recovery ep) es) sid) (gh_all (session_trace u sid es))
     (gh_gone (session_trace u sid es))"
  using ghost_inv_run [of u sid "concat (map (log_ops sid) es)"] trace_log [of u sid es ep]
  by (simp add: ghost_inv_def session_trace_def)

section \<open>Catch-up\<close>

lemma catch_up_frames_spec:
  "catch_up_frames after fs = Some out \<longleftrightarrow>
     list_all (\<lambda>f. hf_seq f = 0 \<longrightarrow> hf_gap f \<le> after) fs \<and> out = map hf_line (filter (\<lambda>f. after < hf_seq f) fs)"
  by (induction fs arbitrary: out) auto

lemma seqs_increase_unique:
  "seqs_increase xs \<Longrightarrow> seqs_increase ys \<Longrightarrow> set xs = set ys \<Longrightarrow> 0 \<notin> hf_seq ` set xs \<Longrightarrow> xs = ys"
proof -
  assume a: "seqs_increase xs" "seqs_increase ys" "set xs = set ys" "0 \<notin> hf_seq ` set xs"
  have full: "filter (\<lambda>f. hf_seq f \<noteq> 0) xs = xs" "filter (\<lambda>f. hf_seq f \<noteq> 0) ys = ys"
    using a(3,4) by (auto simp: filter_id_conv)
  then have s: "sorted_wrt (<) (map hf_seq xs)" "sorted_wrt (<) (map hf_seq ys)"
    using a(1,2) by (simp_all add: seqs_increase_def sorted_wrt_map)
  have "set (map hf_seq ys) = set (map hf_seq xs)" using a(3) by simp
  from strict_sorted_equal [OF s(1) s(2) this] have eq: "map hf_seq xs = map hf_seq ys" by simp
  have "inj_on hf_seq (set xs)"
  proof (rule inj_onI)
    fix f g assume fg: "f \<in> set xs" "g \<in> set xs" "hf_seq f = hf_seq g"
    have "hf_seq f \<noteq> 0" using a(4) fg(1) by (metis image_eqI)
    with seqs_inject [OF a(1) fg] show "f = g" by simp
  qed
  then have "inj_on hf_seq (set xs \<union> set ys)" using a(3) by simp
  from map_inj_on [OF eq this] show "xs = ys" .
qed

lemma catch_up_log_exact:
  assumes inv: "log_inv l all gone" and c: "catch_up_log after l = Some frames"
  shows "frames = map hf_line (filter (\<lambda>f. after < hf_seq f \<and> hf_seq f \<notin> fst ` set gone) all)"
    and "list_all (\<lambda>f. hf_seq f = 0 \<longrightarrow> hf_gap f \<le> after) all"
    and "list_all (\<lambda>(s, h). \<not> (s \<le> after \<and> after \<le> h)) gone"
proof -
  note inv' = inv [unfolded log_inv_def]
  have bound: "sl_evicted l \<le> after" "after \<le> sl_seq l" and uncovered: "\<not> covered l after"
    using c by (auto simp: catch_up_log_def covered_def list_ex_iff split: if_splits)
  have cf: "list_all (\<lambda>f. hf_seq f = 0 \<longrightarrow> hf_gap f \<le> after) (sl_history l)"
    "frames = map hf_line (filter (\<lambda>f. after < hf_seq f) (sl_history l))"
    using c by (auto simp: catch_up_log_def catch_up_frames_spec split: if_splits)
  have split: "f \<in> set (sl_history l) \<or> frame_boundary f \<le> after \<or> hf_seq f \<noteq> 0 \<and> hf_seq f \<in> fst ` set gone"
    if "f \<in> set all" for f
    using inv' that bound(1) by (meson order_trans)
  have all0: "0 \<le> after" using inv' bound by linarith
  let ?a = "filter (\<lambda>f. after < hf_seq f \<and> hf_seq f \<notin> fst ` set gone) all"
  let ?h = "filter (\<lambda>f. after < hf_seq f) (sl_history l)"
  have "set ?h = set ?a"
  proof (intro set_eqI iffI)
    fix f assume "f \<in> set ?h"
    then show "f \<in> set ?a" using inv' by auto
  next
    fix f assume f: "f \<in> set ?a"
    then have "\<not> frame_boundary f \<le> after" using all0 by (auto simp: frame_boundary_def)
    then show "f \<in> set ?h" using f split [of f] by auto
  qed
  moreover have "seqs_increase ?h" "seqs_increase ?a" using inv' by (simp_all add: seqs_increase_filter)
  moreover have "0 \<notin> hf_seq ` set ?h" using all0 by auto
  ultimately have "?h = ?a" by (intro seqs_increase_unique)
  then show "frames = map hf_line ?a" using cf(2) by simp
  show "list_all (\<lambda>f. hf_seq f = 0 \<longrightarrow> hf_gap f \<le> after) all"
    using split cf(1) by (fastforce simp: list_all_iff frame_boundary_def)
  have "\<forall>(s, h) \<in> set gone. \<forall>c. s \<le> c \<longrightarrow> c \<le> h \<longrightarrow> covered l c" using inv' by blast
  then show "list_all (\<lambda>(s, h). \<not> (s \<le> after \<and> after \<le> h)) gone"
    using uncovered by (fastforce simp: list_all_iff)
qed

text \<open>
  C1: Catch-up is exact. When the gateway answers a catch-up without a gap, the client receives precisely
  the updates of that chat numbered after its cursor, in order, less the rejected prompts; nothing it
  misses was evicted or could not be numbered, and its cursor lies in no range in which it might hold
  a prompt that was rejected since.
\<close>

theorem catch_up_exact:
  assumes "r = run (lr_step u) (new_load_recovery ep) ops"
    and "catch_up sid ep after r = (frames, head, False)"
    and "g = session_trace u sid ops"
  shows "frames = map hf_line (filter (\<lambda>f. after < hf_seq f \<and> hf_seq f \<notin> fst ` set (gh_gone g)) (gh_all g)) \<and>
    seqs_increase (gh_all g) \<and>
    list_all (\<lambda>f. hf_seq f = 0 \<longrightarrow> hf_gap f \<le> after) (gh_all g) \<and>
    list_all (\<lambda>(s, h). \<not> (s \<le> after \<and> after \<le> h)) (gh_gone g)"
proof -
  have inv: "log_inv (lr_logs r sid) (gh_all g) (gh_gone g)" using trace_inv assms(1,3) by simp
  have "lr_epoch r = ep" using assms(1) by (simp add: lr_run_epoch new_load_recovery_def)
  then have "catch_up_log after (lr_logs r sid) = Some frames"
    using assms(2) by (auto simp: catch_up_def Let_def split: option.splits)
  note e = catch_up_log_exact [OF inv this]
  moreover have "seqs_increase (gh_all g)" using inv by (simp add: log_inv_def)
  ultimately show ?thesis by blast
qed

definition ex_prompt_frame :: client_frame where
  "ex_prompt_frame = \<lparr>cf_raw = marshal JNull, cf_fields = None, cf_method = ''session/prompt'', cf_id = Some (JNum ''3''),
     cf_params = no_params\<lparr>cp_session := ''s'', cp_prompt := [JStr ''hi'']\<rparr>\<rparr>"

theorem catch_up_exact_witness:
  "fst (catch_up ''s'' ''e'' 1 (run (lr_step null_sdk) (new_load_recovery ''e'') [OpOut ex_prompt_frame, OpOut ex_prompt_frame]))
   = map hf_line (filter (\<lambda>f. 1 < hf_seq f \<and> hf_seq f \<notin> fst ` set (gh_gone (session_trace null_sdk ''s'' [OpOut ex_prompt_frame, OpOut ex_prompt_frame])))
       (gh_all (session_trace null_sdk ''s'' [OpOut ex_prompt_frame, OpOut ex_prompt_frame])))"
proof -
  let ?r = "run (lr_step null_sdk) (new_load_recovery ''e'') [OpOut ex_prompt_frame, OpOut ex_prompt_frame]"
  have "snd (snd (catch_up ''s'' ''e'' 1 ?r)) = False"
    unfolding run.simps lr_step.simps by code_simp
  then obtain frames head where "catch_up ''s'' ''e'' 1 ?r = (frames, head, False)"
    by (cases "catch_up ''s'' ''e'' 1 ?r") auto
  from catch_up_exact [OF refl this refl] this show ?thesis by simp
qed

text \<open>
  A client that holds everything never has to reload: as long as every update of the chat could be
  numbered, a catch-up from the current head is answered without a gap and sends nothing.
\<close>

theorem caught_up_needs_no_load:
  assumes "r = run (lr_step u) (new_load_recovery ep) ops"
    and "list_all (\<lambda>f. hf_seq f \<noteq> 0) (gh_all (session_trace u sid ops))"
  shows "catch_up sid ep (sl_seq (lr_logs r sid)) r = ([], sl_seq (lr_logs r sid), False)"
proof -
  let ?l = "lr_logs r sid"
  have inv: "log_inv ?l (gh_all (session_trace u sid ops)) (gh_gone (session_trace u sid ops))"
    using trace_inv assms(1) by simp
  note inv' = inv [unfolded log_inv_def]
  have ev: "sl_evicted ?l \<le> sl_seq ?l" using inv' assms(2) unfolding list_all_iff by blast
  have rej: "\<not> list_ex (\<lambda>c. cr_from c \<le> sl_seq ?l \<and> sl_seq ?l \<le> cr_through c) (sl_rejected ?l)"
    using inv' by (fastforce simp: list_ex_iff)
  have h: "\<forall>f \<in> set (sl_history ?l). hf_seq f \<noteq> 0 \<and> hf_seq f \<le> sl_seq ?l"
    using inv' assms(2) by (fastforce simp: frame_ok_def list_all_iff)
  then have "filter (\<lambda>f. sl_seq ?l < hf_seq f) (sl_history ?l) = []"
    by (auto simp: filter_empty_conv)
  moreover have "list_all (\<lambda>f. hf_seq f = 0 \<longrightarrow> hf_gap f \<le> sl_seq ?l) (sl_history ?l)"
    using h by (simp add: list_all_iff)
  ultimately have "catch_up_log (sl_seq ?l) ?l = Some []"
    using ev rej catch_up_frames_spec [of "sl_seq ?l" "sl_history ?l" "[]"] by (simp add: catch_up_log_def)
  moreover have "lr_epoch r = ep" using assms(1) by (simp add: lr_run_epoch new_load_recovery_def)
  ultimately show ?thesis by (simp add: catch_up_def Let_def)
qed

theorem caught_up_needs_no_load_witness:
  "catch_up ''t'' ''e'' (sl_seq (lr_logs (run (lr_step null_sdk) (new_load_recovery ''e'') [OpOut ex_prompt_frame]) ''t''))
     (run (lr_step null_sdk) (new_load_recovery ''e'') [OpOut ex_prompt_frame]) =
   ([], sl_seq (lr_logs (run (lr_step null_sdk) (new_load_recovery ''e'') [OpOut ex_prompt_frame]) ''t''), False)"
  by (rule caught_up_needs_no_load [OF refl]) (simp add: session_trace_def ex_prompt_frame_def new_ghost_def no_params_def)

section \<open>Bounds\<close>

lemma evict_to_size_bound:
  "sl_size (evict_to_size l) \<le> max_load_history_bytes \<or> length (sl_history (evict_to_size l)) \<le> 1"
proof (induction l rule: evict_to_size.induct)
  case (1 l)
  show ?case
  proof (cases "max_load_history_bytes < sl_size l \<and> 1 < length (sl_history l)")
    case True
    then show ?thesis using 1 by (simp only: evict_to_size_step [OF True])
  qed (auto simp: evict_to_size_stop)
qed

lemma drop_oldest_shrinks:
  "sl_size (drop_oldest l) \<le> sl_size l" "length (sl_history (drop_oldest l)) \<le> length (sl_history l)"
  by (auto simp: drop_oldest_def split: list.split)

lemma evict_to_user_shrinks:
  "sl_size (evict_to_user l) \<le> sl_size l \<and> length (sl_history (evict_to_user l)) \<le> length (sl_history l)"
proof (induction l rule: evict_to_user.induct)
  case (1 l)
  show ?case
  proof (cases "0 < sl_users l \<and> sl_history l \<noteq> [] \<and> \<not> hf_user (hd (sl_history l))")
    case True
    with 1 [OF True] drop_oldest_shrinks [of l] show ?thesis
      by (simp only: evict_to_user_step [OF True]) linarith
  qed (auto simp: evict_to_user_stop)
qed

text \<open>
  The replay buffer of a chat stays within 8 MiB (or holds the one frame that is larger), the frame
  just appended is always kept, its counters are exact, and an append that evicted leaves a buffer
  that opens with a user message, unless no user message is left in it.
\<close>

theorem history_bounded:
  fixes l line user seq prompt
  defines "l' \<equiv> append_history line user seq prompt l"
  assumes "counts_ok l"
  shows "(sl_size l' \<le> 8 * 1024 * 1024 \<or> length (sl_history l') = 1) \<and> counts_ok l' \<and>
    hf_line (last (sl_history l')) = line \<and> sl_history l' \<noteq> [] \<and>
    (length (sl_history l') \<le> length (sl_history l) \<longrightarrow> sl_users l' = 0 \<or> hf_user (hd (sl_history l')))"
proof -
  let ?p = "push_log line user seq prompt l" and ?e = "evict_to_size (push_log line user seq prompt l)"
  have ne: "sl_history ?p \<noteq> []" by (simp add: push_log_def)
  note e = last_evict_to_size [OF ne] counts_evict_to_size [OF counts_push [OF assms(2)]]
  note f = last_evict_to_user [OF conjunct1 [OF e(1)] e(2)]
  note sh = evict_to_user_shrinks [of ?e] and b = evict_to_size_bound [of ?p]
  have cu: "counts_ok (evict_to_user m)" if "counts_ok m" for m
    using that
  proof (induction m rule: evict_to_user.induct)
    case (1 m)
    then show ?case by (subst evict_to_user.simps) (auto intro: counts_drop_oldest)
  qed
  have ct: "counts_ok (m\<lparr>sl_trimmed := t\<rparr>) = counts_ok m" for m t by (simp add: counts_ok_def)
  have nonneg: "counts_ok m \<Longrightarrow> 0 \<le> sl_users m" for m by (simp add: counts_ok_def)
  have lastl: "last (sl_history l') = pushed line user seq prompt l"
    unfolding l'_def by (rule last_append [OF assms(2)])
  show ?thesis
  proof (cases "max_load_history_bytes < sl_size ?p \<and> 1 < length (sl_history ?p)")
    case True
    then have l': "l' = (evict_to_user ?e)\<lparr>sl_trimmed := True\<rparr>" by (simp add: l'_def append_history_push Let_def)
    have "sl_history (evict_to_user ?e) \<noteq> []" using f by blast
    then have one: "length (sl_history (evict_to_user ?e)) \<le> 1 \<longrightarrow> length (sl_history (evict_to_user ?e)) = 1"
      by (cases "sl_history (evict_to_user ?e)") auto
    have size: "sl_size l' \<le> 8 * 1024 * 1024 \<or> length (sl_history l') = 1"
      using sh b one unfolding l' by (auto simp: max_load_history_bytes_def)
    have users: "sl_users l' = 0 \<or> hf_user (hd (sl_history l'))"
      using f nonneg [OF cu [OF e(2)], of line user seq prompt] unfolding l' by force
    have "counts_ok l'" "sl_history l' \<noteq> []" using cu [OF e(2)] f unfolding l' ct by simp_all
    then show ?thesis using size users lastl by (simp add: pushed_def)
  next
    case False
    then have l': "l' = ?p" by (auto simp: l'_def append_history_push Let_def evict_to_size_stop)
    have "sl_size ?p \<le> max_load_history_bytes \<or> length (sl_history ?p) = 1"
      using False by (auto simp: push_log_def)
    then show ?thesis using counts_push [OF assms(2), of line user seq prompt] unfolding l'
      by (auto simp: push_log_def pushed_def max_load_history_bytes_def)
  qed
qed

theorem history_bounded_witness:
  "sl_history (append_history (Wire ''x'' None) False 1 [] empty_log) \<noteq> []"
  using history_bounded [of empty_log "Wire ''x'' None" False 1 "[]"] by (simp add: counts_ok_def empty_log_def)

section \<open>Recovered loads\<close>

text \<open>
  A duplicate load that the agent rejects as already loaded is answered from the buffer: the client gets
  the \<^verbatim>\<open>_ferngeist/resumed\<close> notice, every buffered update in order, and a success under its own id that
  carries the cursor at the head; the pending load is consumed.
\<close>

theorem rejected_load_replayed:
  assumes "fp_id probe = Some i" "lr_pending_loads r (render i) = Some sid"
    and "fp_error probe = Some message" "str_contains (to_lower message) ''already loaded''"
    and "lr_response r sid = None"
  shows "\<exists>success. snd (on_frame line (Some probe) r) = Some (resumed_frame sid (length (sl_history (lr_logs r sid)))
        (sl_trimmed (lr_logs r sid)) # map hf_line (sl_history (lr_logs r sid)) @ [success]) \<and>
     Option.bind (wire_json success) (member ''id'') = Some i \<and>
     Option.bind (wire_json success) (member ''result'') = Some (JObj [(''_meta'', JObj [(catch_up_meta_key,
        cursor_json (lr_epoch r) (sl_seq (lr_logs r sid)))])]) \<and>
     lr_pending_loads (fst (on_frame line (Some probe) r)) (render i) = None"
proof -
  let ?c = "cursor_json (lr_epoch r) (sl_seq (lr_logs r sid))"
  let ?m = "[(''result'', JObj [(''_meta'', JObj [(catch_up_meta_key, ?c)])]), (''jsonrpc'', JStr ''2.0''), (''id'', i)]"
  have s: "synthesize_load_success None i ?c = Some (marshal_map ?m)"
    by (simp add: synthesize_load_success_def submap_def Let_def)
  have d: "keys_distinct ?m" by (simp add: keys_distinct_def)
  show ?thesis
    using assms s member_marshal_map [OF d, of "''id''"] member_marshal_map [OF d, of "''result''"]
    by (auto simp: on_frame_def Let_def)
qed

definition ex_rejection :: frame_probe where
  "ex_rejection = no_probe\<lparr>fp_id := Some (JNum ''4''), fp_error := Some ''Session is Already Loaded''\<rparr>"

theorem rejected_load_replayed_witness:
  "\<exists>success. snd (on_frame (marshal JNull) (Some ex_rejection) ((new_load_recovery ''e'')\<lparr>lr_pending_loads := [''4'' \<mapsto> ''s'']\<rparr>))
     = Some [resumed_frame ''s'' 0 False, success]"
proof -
  have "str_contains (to_lower ''Session is Already Loaded'') ''already loaded''" by code_simp
  then show ?thesis
    using rejected_load_replayed [of ex_rejection "JNum ''4''" "(new_load_recovery ''e'')\<lparr>lr_pending_loads := [''4'' \<mapsto> ''s'']\<rparr>" "''s''"
        "''Session is Already Loaded''" "marshal JNull"]
    by (auto simp: ex_rejection_def no_probe_def new_load_recovery_def empty_log_def)
qed

text \<open>
  An agent request takes a pending load with it: the agent numbers its requests on its own, and when it
  sends one whose id equals that of a load still in flight, the buffer takes the request for the load's
  success, so the load's rejection that follows is not recovered.
\<close>

theorem agent_request_consumes_pending_load:
  assumes "fp_method request \<noteq> []" "fp_id request = Some i" "fp_error request = None"
    and "fp_id rejection = Some i" "lr_pending_loads r (render i) = Some sid"
  shows "lr_response (fst (on_frame line (Some request) r)) sid = Some line \<and>
    snd (on_frame line' (Some rejection) (fst (on_frame line (Some request) r))) = None"
  using assms by (auto simp: on_frame_def Let_def split: option.split)

theorem agent_request_consumes_pending_load_witness:
  "snd (on_frame (marshal JNull) (Some ex_rejection) (fst (on_frame (marshal JNull)
      (Some (no_probe\<lparr>fp_method := ''fs/read_text_file'', fp_id := Some (JNum ''4'')\<rparr>))
      ((new_load_recovery ''e'')\<lparr>lr_pending_loads := [''4'' \<mapsto> ''s'']\<rparr>)))) = None"
  using agent_request_consumes_pending_load [of "no_probe\<lparr>fp_method := ''fs/read_text_file'', fp_id := Some (JNum ''4'')\<rparr>"
      "JNum ''4''" ex_rejection "(new_load_recovery ''e'')\<lparr>lr_pending_loads := [''4'' \<mapsto> ''s'']\<rparr>" "''s''" "marshal JNull" "marshal JNull"]
  by (simp add: ex_rejection_def no_probe_def)

end
