(* ===== verification/Client_Link.thy ===== *)
theory Client_Link
  imports Json_Frames
begin

text \<open>
  The client side of \<^verbatim>\<open>internal/session/pump.go\<close>: the outbound queue, the attach/bind/detach protocol
  with its generations, and the writer goroutine that drains the queue to the WebSocket.

  A connection is a number. A writer that was cancelled (or replaced) keeps the queue object it was
  started with and flushes it; it is one of \<open>ln_old\<close>. \<open>ln_sent\<close> is what reached the network and
  \<open>ln_closed_conns\<close> the connections that were closed; a write to a closed connection fails, and a
  failed write closes its connection, as \<^verbatim>\<open>coder/websocket\<close> documents.
\<close>

section \<open>The queue\<close>

definition max_client_queue_bytes :: nat where "max_client_queue_bytes = 128 * 1024 * 1024"

record client_queue =
  q_frames :: "wire list"
  q_bytes :: nat

definition new_client_queue :: client_queue where
  "new_client_queue = \<lparr>q_frames = [], q_bytes = 0\<rparr>"

definition queue_push :: "wire \<Rightarrow> client_queue \<Rightarrow> client_queue option" where
  "queue_push f q =
     (if q_frames q \<noteq> [] \<and> max_client_queue_bytes < q_bytes q + wire_len f then None
      else Some \<lparr>q_frames = q_frames q @ [f], q_bytes = q_bytes q + wire_len f\<rparr>)"

definition queue_take :: "client_queue \<Rightarrow> client_queue \<times> wire list" where
  "queue_take q = (new_client_queue, q_frames q)"

section \<open>The link\<close>

record writer =
  wr_conn :: nat
  wr_queue :: client_queue
  wr_taken :: "wire list"
  wr_flushing :: bool

record link =
  ln_client :: "nat option"
  ln_gen :: nat
  ln_writer :: "writer option"
  ln_old :: "writer list"
  ln_closed :: bool
  ln_dropped :: nat
  ln_closed_conns :: "nat list"
  ln_sent :: "(nat \<times> wire) list"
  ln_last_write :: gtime

definition new_link :: link where
  "new_link = \<lparr>ln_client = None, ln_gen = 0, ln_writer = None, ln_old = [], ln_closed = False, ln_dropped = 0,
     ln_closed_conns = [], ln_sent = [], ln_last_write = zero_time\<rparr>"

definition close_conn :: "nat option \<Rightarrow> link \<Rightarrow> link" where
  "close_conn c l = (case c of None \<Rightarrow> l | Some c \<Rightarrow> l\<lparr>ln_closed_conns := c # ln_closed_conns l\<rparr>)"

definition stop_writer :: "link \<Rightarrow> link" where
  "stop_writer l = l\<lparr>ln_writer := None, ln_old := ln_old l @ (case ln_writer l of None \<Rightarrow> [] | Some w \<Rightarrow> [w])\<rparr>"

definition start_writer :: "nat \<Rightarrow> link \<Rightarrow> link" where
  "start_writer conn l =
     (stop_writer l)\<lparr>ln_writer := Some \<lparr>wr_conn = conn, wr_queue = new_client_queue, wr_taken = [], wr_flushing = False\<rparr>\<rparr>"

text \<open>The generation the new client must pass on; its predecessor is closed after the lock.\<close>

definition attach :: "link \<Rightarrow> link \<times> nat" where
  "attach l =
     (let l1 = (stop_writer (l\<lparr>ln_client := None\<rparr>))\<lparr>ln_gen := Suc (ln_gen l)\<rparr>
      in (close_conn (ln_client l) l1, ln_gen l1))"

definition bind_conn :: "nat \<Rightarrow> nat \<Rightarrow> link \<Rightarrow> link \<times> bool" where
  "bind_conn conn gen l =
     (if ln_closed l \<or> ln_gen l \<noteq> gen then (l, False)
      else (start_writer conn (l\<lparr>ln_client := Some conn\<rparr>), True))"

definition detach :: "nat \<Rightarrow> link \<Rightarrow> link \<times> bool" where
  "detach gen l = (if ln_gen l \<noteq> gen then (l, False) else (stop_writer (l\<lparr>ln_client := None\<rparr>), True))"

definition bound :: "link \<Rightarrow> bool" where
  "bound l \<longleftrightarrow> ln_client l \<noteq> None \<and> ln_writer l \<noteq> None"

text \<open>
  \<^verbatim>\<open>queueLocked\<close>; the callers check that a writer is there. The connection to close once the lock is
  released is the second component.
\<close>

fun queue_locked :: "wire list \<Rightarrow> link \<Rightarrow> link \<times> nat option" where
  "queue_locked [] l = (l, None)"
| "queue_locked (f # fs) l =
     (case ln_writer l of
        None \<Rightarrow> (l, None)
      | Some w \<Rightarrow>
          (case queue_push f (wr_queue w) of
             Some q \<Rightarrow> queue_locked fs (l\<lparr>ln_writer := Some (w\<lparr>wr_queue := q\<rparr>)\<rparr>)
           | None \<Rightarrow>
               (stop_writer (l\<lparr>ln_dropped := ln_dropped l + length (f # fs), ln_client := None\<rparr>), ln_client l)))"

definition queue_and_close :: "wire list \<Rightarrow> link \<Rightarrow> link" where
  "queue_and_close frames l = (let (l', evict) = queue_locked frames l in close_conn evict l')"

definition reply_wanted :: "nat \<Rightarrow> link \<Rightarrow> bool" where
  "reply_wanted gen l \<longleftrightarrow> gen = ln_gen l \<and> bound l"

text \<open>\<^verbatim>\<open>queueClientReply\<close> with the frames its \<^verbatim>\<open>build\<close> callback returns.\<close>

definition queue_client_reply :: "nat \<Rightarrow> wire list \<Rightarrow> link \<Rightarrow> link" where
  "queue_client_reply gen frames l = (if reply_wanted gen l then queue_and_close frames l else l)"

text \<open>The end of \<^verbatim>\<open>StdoutDrainLoop\<close>: no new client may bind, the writer flushes and stops.\<close>

definition drain_stop :: "link \<Rightarrow> link" where
  "drain_stop l = stop_writer (l\<lparr>ln_closed := True\<rparr>)"

section \<open>The writer goroutine\<close>

definition writer_take :: "bool \<Rightarrow> writer \<Rightarrow> writer" where
  "writer_take cancelled w =
     (if wr_taken w \<noteq> [] then w
      else let (q, fs) = queue_take (wr_queue w)
           in w\<lparr>wr_queue := q, wr_taken := fs, wr_flushing := cancelled\<rparr>)"

text \<open>
  One write by a writer: the link with the frame sent, and what remains of the writer. A failed write
  ends it (closing the connection), unless it is flushing: then the failure is ignored.
\<close>

definition writer_write :: "bool \<Rightarrow> gtime \<Rightarrow> writer \<Rightarrow> link \<Rightarrow> link \<times> writer option" where
  "writer_write ok now w l =
     (case wr_taken w of
        [] \<Rightarrow> (l, Some w)
      | f # fs \<Rightarrow>
          if ok \<and> wr_conn w \<notin> set (ln_closed_conns l) then
            (l\<lparr>ln_sent := ln_sent l @ [(wr_conn w, f)],
               ln_last_write := (if wr_flushing w then ln_last_write l else now)\<rparr>, Some (w\<lparr>wr_taken := fs\<rparr>))
          else if wr_flushing w then (close_conn (Some (wr_conn w)) l, Some (w\<lparr>wr_taken := fs\<rparr>))
          else
            ((close_conn (Some (wr_conn w)) (if ln_client l = Some (wr_conn w) then l\<lparr>ln_client := None\<rparr> else l)), None))"

datatype link_event =
    LAttach
  | LBind nat nat
  | LDetach nat
  | LQueue "wire list"
  | LReply nat "wire list"
  | LDrainStop
  | LClose nat
  | LTake
  | LWrite bool gtime
  | LOldTake nat
  | LOldWrite nat bool gtime

fun link_step :: "link \<Rightarrow> link_event \<Rightarrow> link" where
  "link_step l LAttach = fst (attach l)"
| "link_step l (LBind conn gen) = fst (bind_conn conn gen l)"
| "link_step l (LDetach gen) = fst (detach gen l)"
| "link_step l (LQueue frames) = (if bound l then queue_and_close frames l else l)"
| "link_step l (LReply gen frames) = queue_client_reply gen frames l"
| "link_step l LDrainStop = drain_stop l"
| "link_step l (LClose conn) = close_conn (Some conn) l"
| "link_step l LTake = l\<lparr>ln_writer := map_option (writer_take False) (ln_writer l)\<rparr>"
| "link_step l (LWrite ok now) =
     (case ln_writer l of None \<Rightarrow> l
      | Some w \<Rightarrow> let (l', w') = writer_write ok now w l in l'\<lparr>ln_writer := w'\<rparr>)"
| "link_step l (LOldTake i) =
     (if i < length (ln_old l) then l\<lparr>ln_old := (ln_old l)[i := writer_take True (ln_old l ! i)]\<rparr> else l)"
| "link_step l (LOldWrite i ok now) =
     (if i < length (ln_old l)
      then let (l', w') = writer_write ok now (ln_old l ! i) l
           in l'\<lparr>ln_old := take i (ln_old l) @ (case w' of None \<Rightarrow> [] | Some w \<Rightarrow> [w]) @ drop (Suc i) (ln_old l)\<rparr>
      else l)"

end
