(* ===== verification/Client_Link_Proofs.thy ===== *)
theory Client_Link_Proofs
  imports Client_Link "HOL-Library.Sublist"
begin

text \<open>
  Delivery to the client: in order, without holes, within the byte cap, and fenced by the attach
  generation. The ghost state remembers every frame handed to the link while a connection was bound (whether
  or not its queue took it) and every connection ever bound.
\<close>

section \<open>Ghost state\<close>

record link_ghost =
  lg_link :: link
  lg_offered :: "(nat \<times> wire) list"
  lg_bound :: "nat list"

definition new_link_ghost :: link_ghost where
  "new_link_ghost = \<lparr>lg_link = new_link, lg_offered = [], lg_bound = []\<rparr>"

fun accepted :: "wire list \<Rightarrow> client_queue \<Rightarrow> wire list" where
  "accepted [] q = []"
| "accepted (f # fs) q = (case queue_push f q of None \<Rightarrow> [] | Some q' \<Rightarrow> f # accepted fs q')"

text \<open>The frames handed over for the bound connection, all of them: what the queue does plays no part.\<close>

definition offered_frames :: "wire list \<Rightarrow> link \<Rightarrow> (nat \<times> wire) list" where
  "offered_frames frames l = (case ln_client l of None \<Rightarrow> [] | Some c \<Rightarrow> map (Pair c) frames)"

text \<open>A connection is bound once: \<^verbatim>\<open>Bind\<close> gets the connection its handler just accepted.\<close>

fun ghost_link_step :: "link_ghost \<Rightarrow> link_event \<Rightarrow> link_ghost" where
  "ghost_link_step g (LQueue frames) =
     g\<lparr>lg_link := link_step (lg_link g) (LQueue frames),
       lg_offered := lg_offered g @ (if bound (lg_link g) then offered_frames frames (lg_link g) else [])\<rparr>"
| "ghost_link_step g (LReply gen frames) =
     g\<lparr>lg_link := link_step (lg_link g) (LReply gen frames),
       lg_offered := lg_offered g @ (if reply_wanted gen (lg_link g) then offered_frames frames (lg_link g) else [])\<rparr>"
| "ghost_link_step g (LBind conn gen) =
     (if conn \<in> set (lg_bound g) then g
      else g\<lparr>lg_link := link_step (lg_link g) (LBind conn gen), lg_bound := conn # lg_bound g\<rparr>)"
| "ghost_link_step g e = g\<lparr>lg_link := link_step (lg_link g) e\<rparr>"

definition frames_of :: "nat \<Rightarrow> (nat \<times> wire) list \<Rightarrow> wire list" where
  "frames_of c xs = map snd (filter (\<lambda>p. fst p = c) xs)"

lemma frames_of_simps [simp]:
  "frames_of c [] = []" "frames_of c (xs @ ys) = frames_of c xs @ frames_of c ys"
  "frames_of c ((d, f) # xs) = (if d = c then f # frames_of c xs else frames_of c xs)"
  by (simp_all add: frames_of_def)

lemma frames_of_pairs [simp]: "frames_of c (map (Pair d) fs) = (if c = d then fs else [])"
  by (simp add: frames_of_def filter_map comp_def)

definition writers :: "link \<Rightarrow> writer list" where
  "writers l = ln_old l @ (case ln_writer l of None \<Rightarrow> [] | Some w \<Rightarrow> [w])"

definition backlog :: "writer \<Rightarrow> wire list" where
  "backlog w = wr_taken w @ q_frames (wr_queue w)"

definition pending_for :: "nat \<Rightarrow> writer list \<Rightarrow> wire list" where
  "pending_for c ws = concat (map backlog (filter (\<lambda>w. wr_conn w = c) ws))"

lemma pending_for_append [simp]: "pending_for c (xs @ ys) = pending_for c xs @ pending_for c ys"
  by (simp add: pending_for_def)

lemma pending_for_Cons [simp]:
  "pending_for c (w # ws) = (if wr_conn w = c then backlog w @ pending_for c ws else pending_for c ws)"
  by (simp add: pending_for_def)

lemma pending_for_Nil [simp]: "pending_for c [] = []"
  by (simp add: pending_for_def)

lemma pending_for_none: "c \<notin> wr_conn ` set ws \<Longrightarrow> pending_for c ws = []"
  by (auto simp: pending_for_def)

section \<open>The invariant\<close>

definition queue_ok :: "client_queue \<Rightarrow> bool" where
  "queue_ok q \<longleftrightarrow> q_bytes q = sum_list (map wire_len (q_frames q)) \<and>
     (q_bytes q \<le> max_client_queue_bytes \<or> length (q_frames q) = 1)"

definition link_inv :: "link_ghost \<Rightarrow> bool" where
  "link_inv g \<longleftrightarrow>
     (let l = lg_link g in
      distinct (map wr_conn (writers l)) \<and> wr_conn ` set (writers l) \<subseteq> set (lg_bound g) \<and>
      fst ` set (lg_offered g) \<subseteq> set (lg_bound g) \<and>
      (\<forall>w \<in> set (writers l). queue_ok (wr_queue w)) \<and>
      (\<forall>w. ln_writer l = Some w \<longrightarrow> ln_client l = Some (wr_conn w)) \<and>
      (\<forall>c. c \<notin> set (ln_closed_conns l) \<longrightarrow>
         frames_of c (lg_offered g) = frames_of c (ln_sent l) @ pending_for c (writers l)) \<and>
      (\<forall>c. prefix (frames_of c (ln_sent l)) (frames_of c (lg_offered g))))"

lemma link_inv_new: "link_inv new_link_ghost"
  by (simp add: link_inv_def new_link_ghost_def new_link_def writers_def)

lemma queue_ok_new [simp]: "queue_ok new_client_queue"
  by (simp add: queue_ok_def new_client_queue_def)

lemma queue_push_Some:
  "queue_push f q = Some q' \<Longrightarrow> q_frames q' = q_frames q @ [f] \<and> (queue_ok q \<longrightarrow> queue_ok q')"
  by (auto simp: queue_push_def queue_ok_def split: if_splits)

text \<open>Operations that leave the ghost and the sent frames alone, and only move or close.\<close>

lemma link_inv_quiet:
  assumes "link_inv g"
    and "writers l' = writers (lg_link g)" "ln_sent l' = ln_sent (lg_link g)"
    and "set (ln_closed_conns (lg_link g)) \<subseteq> set (ln_closed_conns l')"
    and "\<forall>w. ln_writer l' = Some w \<longrightarrow> ln_client l' = Some (wr_conn w)"
  shows "link_inv (g\<lparr>lg_link := l'\<rparr>)"
  using assms by (auto simp: link_inv_def Let_def)

lemma writers_stop [simp]: "writers (stop_writer l) = writers l"
  by (simp add: writers_def stop_writer_def)

lemma writers_same:
  "writers (l\<lparr>ln_client := c\<rparr>) = writers l" "writers (l\<lparr>ln_dropped := d\<rparr>) = writers l"
  "writers (l\<lparr>ln_closed := b\<rparr>) = writers l" "writers (l\<lparr>ln_gen := n\<rparr>) = writers l"
  "writers (l\<lparr>ln_sent := s\<rparr>) = writers l" "writers (l\<lparr>ln_last_write := t\<rparr>) = writers l"
  "writers (close_conn k l) = writers l"
  by (simp_all add: writers_def close_conn_def split: option.split)

lemma stop_fields:
  "ln_sent (stop_writer l) = ln_sent l" "ln_closed_conns (stop_writer l) = ln_closed_conns l"
  "ln_writer (stop_writer l) = None" "ln_client (stop_writer l) = ln_client l" "ln_gen (stop_writer l) = ln_gen l"
  "ln_closed (stop_writer l) = ln_closed l"
  by (simp_all add: stop_writer_def)

lemma close_fields:
  "ln_sent (close_conn k l) = ln_sent l" "set (ln_closed_conns l) \<subseteq> set (ln_closed_conns (close_conn k l))"
  "ln_writer (close_conn k l) = ln_writer l" "ln_client (close_conn k l) = ln_client l"
  "ln_gen (close_conn k l) = ln_gen l" "ln_closed (close_conn k l) = ln_closed l" "ln_old (close_conn k l) = ln_old l"
  by (auto simp: close_conn_def split: option.split)

lemmas link_fields = writers_same stop_fields close_fields

text \<open>Pushing frames extends the current writer's queue by the accepted ones.\<close>

text \<open>A batch of which something was left out closes the connection.\<close>

lemma queue_locked_all_or_evict:
  assumes "ln_writer l = Some w"
  shows "accepted fs (wr_queue w) = fs \<or> snd (queue_locked fs l) = ln_client l"
  using assms
proof (induction fs arbitrary: l w)
  case (Cons f fs)
  show ?case
  proof (cases "queue_push f (wr_queue w)")
    case (Some q)
    then show ?thesis using Cons.prems Cons.IH [of "l\<lparr>ln_writer := Some (w\<lparr>wr_queue := q\<rparr>)\<rparr>"] by simp
  qed (use Cons.prems in simp)
qed simp

lemma queue_locked_spec:
  assumes "ln_writer l = Some w"
  shows "\<exists>q. (queue_ok (wr_queue w) \<longrightarrow> queue_ok q) \<and> q_frames q = q_frames (wr_queue w) @ accepted fs (wr_queue w) \<and>
     writers (fst (queue_locked fs l)) = ln_old l @ [w\<lparr>wr_queue := q\<rparr>] \<and>
     ln_sent (fst (queue_locked fs l)) = ln_sent l \<and>
     ln_closed_conns (fst (queue_locked fs l)) = ln_closed_conns l \<and>
     (ln_writer (fst (queue_locked fs l)) = None \<or>
        ln_writer (fst (queue_locked fs l)) = Some (w\<lparr>wr_queue := q\<rparr>) \<and> ln_client (fst (queue_locked fs l)) = ln_client l)"
  using assms
proof (induction fs arbitrary: l w)
  case Nil
  then show ?case by (intro exI [of _ "wr_queue w"]) (simp add: writers_def)
next
  case (Cons f fs)
  show ?case
  proof (cases "queue_push f (wr_queue w)")
    case None
    then show ?thesis using Cons.prems
      by (intro exI [of _ "wr_queue w"]) (simp add: link_fields, simp add: writers_def)
  next
    case (Some q)
    have "ln_writer (l\<lparr>ln_writer := Some (w\<lparr>wr_queue := q\<rparr>)\<rparr>) = Some (w\<lparr>wr_queue := q\<rparr>)" by simp
    from Cons.IH [OF this] obtain q' where q':
      "queue_ok (wr_queue (w\<lparr>wr_queue := q\<rparr>)) \<longrightarrow> queue_ok q'"
      "q_frames q' = q_frames (wr_queue (w\<lparr>wr_queue := q\<rparr>)) @ accepted fs (wr_queue (w\<lparr>wr_queue := q\<rparr>))"
      "writers (fst (queue_locked fs (l\<lparr>ln_writer := Some (w\<lparr>wr_queue := q\<rparr>)\<rparr>))) =
         ln_old (l\<lparr>ln_writer := Some (w\<lparr>wr_queue := q\<rparr>)\<rparr>) @ [w\<lparr>wr_queue := q, wr_queue := q'\<rparr>]"
      "ln_sent (fst (queue_locked fs (l\<lparr>ln_writer := Some (w\<lparr>wr_queue := q\<rparr>)\<rparr>))) = ln_sent l"
      "ln_closed_conns (fst (queue_locked fs (l\<lparr>ln_writer := Some (w\<lparr>wr_queue := q\<rparr>)\<rparr>))) = ln_closed_conns l"
      "ln_writer (fst (queue_locked fs (l\<lparr>ln_writer := Some (w\<lparr>wr_queue := q\<rparr>)\<rparr>))) = None \<or>
        ln_writer (fst (queue_locked fs (l\<lparr>ln_writer := Some (w\<lparr>wr_queue := q\<rparr>)\<rparr>))) = Some (w\<lparr>wr_queue := q, wr_queue := q'\<rparr>) \<and>
        ln_client (fst (queue_locked fs (l\<lparr>ln_writer := Some (w\<lparr>wr_queue := q\<rparr>)\<rparr>))) = ln_client l"
      by auto
    have step: "queue_locked (f # fs) l = queue_locked fs (l\<lparr>ln_writer := Some (w\<lparr>wr_queue := q\<rparr>)\<rparr>)"
      using Cons.prems Some by simp
    show ?thesis unfolding step
      using q' queue_push_Some [OF Some] Some by (intro exI [of _ q']) auto
  qed
qed

lemma link_inv_push:
  assumes "link_inv g" "bound (lg_link g)"
  shows "link_inv (g\<lparr>lg_link := queue_and_close fs (lg_link g),
     lg_offered := lg_offered g @ offered_frames fs (lg_link g)\<rparr>)"
proof -
  let ?l = "lg_link g" and ?l' = "queue_and_close fs (lg_link g)"
  obtain w where w: "ln_writer ?l = Some w" using assms(2) by (auto simp: bound_def)
  note inv = assms(1) [unfolded link_inv_def Let_def]
  obtain q where q: "queue_ok (wr_queue w) \<longrightarrow> queue_ok q"
     "q_frames q = q_frames (wr_queue w) @ accepted fs (wr_queue w)"
     "writers (fst (queue_locked fs ?l)) = ln_old ?l @ [w\<lparr>wr_queue := q\<rparr>]"
     "ln_sent (fst (queue_locked fs ?l)) = ln_sent ?l"
     "ln_closed_conns (fst (queue_locked fs ?l)) = ln_closed_conns ?l"
     "ln_writer (fst (queue_locked fs ?l)) = None \<or>
        ln_writer (fst (queue_locked fs ?l)) = Some (w\<lparr>wr_queue := q\<rparr>) \<and> ln_client (fst (queue_locked fs ?l)) = ln_client ?l"
    using queue_locked_spec [OF w, of fs] by blast
  have ws: "writers ?l = ln_old ?l @ [w]" using w by (simp add: writers_def)
  have l': "writers ?l' = ln_old ?l @ [w\<lparr>wr_queue := q\<rparr>]" "ln_sent ?l' = ln_sent ?l"
    "set (ln_closed_conns ?l) \<subseteq> set (ln_closed_conns ?l')"
    "ln_writer ?l' = None \<or> ln_writer ?l' = Some (w\<lparr>wr_queue := q\<rparr>) \<and> ln_client ?l' = ln_client ?l"
    using q close_fields(2) [of "fst (queue_locked fs ?l)" "snd (queue_locked fs ?l)"]
    by (auto simp: queue_and_close_def split_beta link_fields)
  have cl: "ln_client ?l = Some (wr_conn w)" using inv w by blast
  have off: "offered_frames fs ?l = map (Pair (wr_conn w)) fs"
    using cl by (simp add: offered_frames_def)
  have whole: "accepted fs (wr_queue w) = fs \<or> wr_conn w \<in> set (ln_closed_conns ?l')"
    using queue_locked_all_or_evict [OF w, of fs] cl by (auto simp: queue_and_close_def split_beta close_conn_def)
  have d: "wr_conn w \<notin> wr_conn ` set (ln_old ?l)" using inv unfolding ws by auto
  have bl: "backlog (w\<lparr>wr_queue := q\<rparr>) = backlog w @ accepted fs (wr_queue w)"
    using q(2) by (simp add: backlog_def)
  have flow: "frames_of c (lg_offered g @ offered_frames fs ?l) = frames_of c (ln_sent ?l') @ pending_for c (writers ?l')"
    if "c \<notin> set (ln_closed_conns ?l')" for c
  proof -
    have "c \<notin> set (ln_closed_conns ?l)" using that l'(3) by blast
    then have "frames_of c (lg_offered g) = frames_of c (ln_sent ?l) @ pending_for c (writers ?l)"
      using inv by blast
    then show ?thesis using whole that unfolding l' off ws using d by (auto simp: bl)
  qed
  have pre: "prefix (frames_of c (ln_sent ?l')) (frames_of c (lg_offered g @ offered_frames fs ?l))" for c
    unfolding l' using inv by (simp add: prefix_append)
  have qok: "\<forall>v \<in> set (writers ?l'). queue_ok (wr_queue v)" using inv q(1) unfolding l' ws by auto
  have conns: "distinct (map wr_conn (writers ?l'))" "wr_conn ` set (writers ?l') \<subseteq> set (lg_bound g)"
    "fst ` set (lg_offered g @ offered_frames fs ?l) \<subseteq> set (lg_bound g)"
    using inv cl unfolding l' ws off by auto
  show ?thesis unfolding link_inv_def Let_def using conns qok flow pre l'(4) cl by auto
qed

lemma link_inv_take:
  assumes "link_inv g" "writers l' = (writers (lg_link g))[i := writer_take b (writers (lg_link g) ! i)]"
    and "i < length (writers (lg_link g))" "ln_sent l' = ln_sent (lg_link g)"
    and "ln_closed_conns l' = ln_closed_conns (lg_link g)"
    and "\<forall>w. ln_writer l' = Some w \<longrightarrow> ln_client l' = Some (wr_conn w)"
  shows "link_inv (g\<lparr>lg_link := l'\<rparr>)"
proof -
  let ?ws = "writers (lg_link g)"
  have bl: "backlog (writer_take b w) = backlog w" and conn: "wr_conn (writer_take b w) = wr_conn w"
    and ok: "queue_ok (wr_queue w) \<Longrightarrow> queue_ok (wr_queue (writer_take b w))" for w
    by (auto simp: writer_take_def backlog_def queue_take_def new_client_queue_def Let_def queue_ok_def)
  have split: "?ws = take i ?ws @ ?ws ! i # drop (Suc i) ?ws" using assms(3) by (rule id_take_nth_drop)
  have upd: "writers l' = take i ?ws @ writer_take b (?ws ! i) # drop (Suc i) ?ws"
    using assms(2,3) by (simp add: upd_conv_take_nth_drop)
  have "map wr_conn (writers l') = map wr_conn ?ws" unfolding upd using split conn
    by (metis (no_types, lifting) list.simps(9) map_append)
  moreover have "pending_for c (writers l') = pending_for c ?ws" for c
    unfolding upd by (subst (4) split) (simp add: bl conn)
  moreover have "\<forall>w \<in> set (writers l'). queue_ok (wr_queue w)"
  proof -
    have "\<forall>w \<in> set ?ws. queue_ok (wr_queue w)" using assms(1) by (simp add: link_inv_def Let_def)
    then show ?thesis using assms(3) unfolding assms(2)
      by (auto dest!: set_update_subset_insert [THEN subsetD] intro: ok)
  qed
  ultimately show ?thesis using assms unfolding link_inv_def Let_def by (auto simp flip: set_map)
qed

lemma link_inv_write:
  assumes "link_inv g" "writers (lg_link g) = xs @ w # ys"
    and "writer_write ok now w (lg_link g) = (l1, w')"
    and "writers l2 = xs @ (case w' of None \<Rightarrow> [] | Some v \<Rightarrow> [v]) @ ys" "ln_sent l2 = ln_sent l1"
    and "ln_closed_conns l2 = ln_closed_conns l1"
    and "\<forall>v. ln_writer l2 = Some v \<longrightarrow> ln_client l2 = Some (wr_conn v)"
  shows "link_inv (g\<lparr>lg_link := l2\<rparr>)"
proof -
  let ?l = "lg_link g"
  note inv = assms(1) [unfolded link_inv_def Let_def assms(2)]
  have flow: "frames_of c (lg_offered g) = frames_of c (ln_sent ?l) @ pending_for c (xs @ w # ys)"
    if "c \<notin> set (ln_closed_conns ?l)" for c using inv that by blast
  have d: "wr_conn w \<notin> wr_conn ` set xs" "wr_conn w \<notin> wr_conn ` set ys" using inv by auto
  have "distinct (map wr_conn (writers l2)) \<and> wr_conn ` set (writers l2) \<subseteq> set (lg_bound g) \<and>
    (\<forall>w \<in> set (writers l2). queue_ok (wr_queue w)) \<and>
    (\<forall>c. c \<notin> set (ln_closed_conns l2) \<longrightarrow>
         frames_of c (lg_offered g) = frames_of c (ln_sent l2) @ pending_for c (writers l2)) \<and>
    (\<forall>c. prefix (frames_of c (ln_sent l2)) (frames_of c (lg_offered g)))"
  proof (cases "wr_taken w")
    case Nil
    then have "l1 = ?l" "w' = Some w" using assms(3) by (simp_all add: writer_write_def)
    then show ?thesis using inv assms(4-6) by simp
  next
    case (Cons f fs)
    let ?w = "w\<lparr>wr_taken := fs\<rparr>"
    show ?thesis
    proof (cases "ok \<and> wr_conn w \<notin> set (ln_closed_conns ?l)")
      case True
      then have l1: "ln_sent l1 = ln_sent ?l @ [(wr_conn w, f)]" "ln_closed_conns l1 = ln_closed_conns ?l" "w' = Some ?w"
        using assms(3) Cons by (auto simp: writer_write_def)
      have fl: "frames_of c (lg_offered g) = frames_of c (ln_sent l1) @ pending_for c (xs @ ?w # ys)"
        if "c \<notin> set (ln_closed_conns ?l)" for c
        using flow [OF that] d unfolding l1 by (auto simp: backlog_def Cons pending_for_none)
      have pre: "prefix (frames_of c (ln_sent l1)) (frames_of c (lg_offered g))" for c
      proof (cases "c = wr_conn w")
        case True
        then show ?thesis using fl [of c] \<open>ok \<and> wr_conn w \<notin> set (ln_closed_conns ?l)\<close> by (auto simp: prefix_def)
      next
        case False
        then show ?thesis using inv unfolding l1 by auto
      qed
      have "writers l2 = xs @ ?w # ys" using assms(4) l1 by simp
      then show ?thesis using inv fl pre assms(5,6) l1(2) by auto
    next
      case False
      have l1: "ln_sent l1 = ln_sent ?l" "set (ln_closed_conns l1) = insert (wr_conn w) (set (ln_closed_conns ?l))"
        "w' = None \<or> w' = Some ?w"
        using assms(3) Cons False by (auto simp: writer_write_def close_conn_def split: if_splits)
      have ws: "writers l2 = xs @ ys \<or> writers l2 = xs @ ?w # ys" using assms(4) l1(3) by auto
      have fl: "frames_of c (lg_offered g) = frames_of c (ln_sent l1) @ pending_for c (writers l2)"
        if "c \<notin> set (ln_closed_conns l1)" for c
      proof -
        have "c \<noteq> wr_conn w" "c \<notin> set (ln_closed_conns ?l)" using that l1(2) by auto
        with flow [of c] ws show ?thesis unfolding l1 by auto
      qed
      from ws show ?thesis using inv fl assms(5,6) l1(1) by (elim disjE) (auto simp: image_subset_iff)
    qed
  qed
  then show ?thesis using inv assms(7) unfolding link_inv_def Let_def by auto
qed

lemma link_inv_bind:
  assumes "link_inv g" "conn \<notin> set (lg_bound g)"
  shows "link_inv (g\<lparr>lg_link := start_writer conn ((lg_link g)\<lparr>ln_client := Some conn\<rparr>), lg_bound := conn # lg_bound g\<rparr>)"
proof -
  let ?w = "\<lparr>wr_conn = conn, wr_queue = new_client_queue, wr_taken = [], wr_flushing = False\<rparr>"
  let ?l = "start_writer conn ((lg_link g)\<lparr>ln_client := Some conn\<rparr>)"
  note inv = assms(1) [unfolded link_inv_def Let_def]
  have ws: "writers ?l = writers (lg_link g) @ [?w]"
    by (simp add: start_writer_def stop_writer_def writers_def)
  have f: "ln_sent ?l = ln_sent (lg_link g)" "ln_closed_conns ?l = ln_closed_conns (lg_link g)"
    "ln_writer ?l = Some ?w" "ln_client ?l = Some conn"
    by (simp_all add: start_writer_def stop_writer_def)
  have new: "conn \<notin> wr_conn ` set (writers (lg_link g))" "conn \<notin> fst ` set (lg_offered g)" using inv assms(2) by auto
  have bl: "backlog ?w = []" by (simp add: backlog_def new_client_queue_def)
  have pend: "pending_for c (writers ?l) = pending_for c (writers (lg_link g))" for c
    unfolding ws by (cases "c = conn") (simp_all add: bl)
  have q: "\<forall>w \<in> set (writers ?l). queue_ok (wr_queue w)" using inv unfolding ws by auto
  have d: "distinct (map wr_conn (writers ?l))" "wr_conn ` set (writers ?l) \<subseteq> insert conn (set (lg_bound g))"
    using inv new unfolding ws by auto
  show ?thesis unfolding link_inv_def Let_def using inv q d by (auto simp: pend f)
qed

lemma link_inv_step: "link_inv g \<Longrightarrow> link_inv (ghost_link_step g e)"
proof (cases e)
  case LAttach
  assume "link_inv g"
  moreover have "set (ln_closed_conns l) \<subseteq> set (ln_closed_conns (fst (attach l)))" for l
    using close_fields(2) [of "(stop_writer (l\<lparr>ln_client := None\<rparr>))\<lparr>ln_gen := Suc (ln_gen l)\<rparr>" "ln_client l"]
    by (simp add: attach_def Let_def link_fields)
  ultimately show ?thesis using LAttach link_inv_quiet [of g "fst (attach (lg_link g))"]
    by (simp add: attach_def Let_def link_fields)
next
  case (LBind conn gen)
  assume inv: "link_inv g"
  have quiet: "link_inv (g\<lparr>lg_bound := conn # lg_bound g\<rparr>)" using inv by (auto simp: link_inv_def Let_def)
  show ?thesis using LBind inv link_inv_bind [OF inv] quiet by (simp add: bind_conn_def)
next
  case (LDetach gen)
  assume "link_inv g"
  then show ?thesis using LDetach link_inv_quiet [of g "stop_writer ((lg_link g)\<lparr>ln_client := None\<rparr>)"]
    by (auto simp: detach_def link_fields)
next
  case (LQueue fs)
  assume "link_inv g"
  then show ?thesis using LQueue link_inv_push [of g fs] by auto
next
  case (LReply gen fs)
  assume "link_inv g"
  then show ?thesis using LReply link_inv_push [of g fs] by (auto simp: queue_client_reply_def reply_wanted_def)
next
  case LDrainStop
  assume "link_inv g"
  then show ?thesis using LDrainStop link_inv_quiet [of g "drain_stop (lg_link g)"]
    by (simp add: drain_stop_def link_fields)
next
  case (LClose c)
  assume inv: "link_inv g"
  have "\<forall>w. ln_writer (lg_link g) = Some w \<longrightarrow> ln_client (lg_link g) = Some (wr_conn w)"
    using inv by (simp add: link_inv_def Let_def)
  then show ?thesis using LClose link_inv_quiet [OF inv, of "close_conn (Some c) (lg_link g)"] close_fields(2)
    by (simp add: link_fields)
next
  case LTake
  assume inv: "link_inv g"
  show ?thesis
  proof (cases "ln_writer (lg_link g)")
    case None
    then have same: "(lg_link g)\<lparr>ln_writer := None\<rparr> = lg_link g" by (intro link.equality) simp_all
    show ?thesis using LTake inv by (simp add: None same)
  next
    case (Some w)
    have c: "ln_client (lg_link g) = Some (wr_conn w)" using inv Some by (simp add: link_inv_def Let_def)
    have "wr_conn (writer_take False w) = wr_conn w" by (simp add: writer_take_def split_beta Let_def)
    then have "link_inv (g\<lparr>lg_link := link_step (lg_link g) LTake\<rparr>)"
      using Some c by (intro link_inv_take [OF inv, where i = "length (ln_old (lg_link g))" and b = False])
        (auto simp: writers_def)
    then show ?thesis using LTake by simp
  qed
next
  case (LWrite ok now)
  assume inv: "link_inv g"
  show ?thesis
  proof (cases "ln_writer (lg_link g)")
    case None
    then show ?thesis using LWrite inv by simp
  next
    case (Some w)
    obtain l1 w' where ww: "writer_write ok now w (lg_link g) = (l1, w')" by (cases "writer_write ok now w (lg_link g)")
    have c: "ln_client (lg_link g) = Some (wr_conn w)" using inv Some by (simp add: link_inv_def Let_def)
    have old: "ln_old l1 = ln_old (lg_link g)" and keep: "w' \<noteq> None \<longrightarrow> ln_client l1 = ln_client (lg_link g)"
      and conn: "w' = Some v \<Longrightarrow> wr_conn v = wr_conn w" for v
      using ww by (auto simp: writer_write_def link_fields split: list.splits if_splits)
    have "link_inv (g\<lparr>lg_link := l1\<lparr>ln_writer := w'\<rparr>\<rparr>)"
    proof (rule link_inv_write [OF inv _ ww, of "ln_old (lg_link g)" "[]"])
      show "writers (lg_link g) = ln_old (lg_link g) @ [w]" using Some by (simp add: writers_def)
      show "writers (l1\<lparr>ln_writer := w'\<rparr>) = ln_old (lg_link g) @ (case w' of None \<Rightarrow> [] | Some v \<Rightarrow> [v]) @ []"
        by (simp add: writers_def old)
      show "\<forall>v. ln_writer (l1\<lparr>ln_writer := w'\<rparr>) = Some v \<longrightarrow> ln_client (l1\<lparr>ln_writer := w'\<rparr>) = Some (wr_conn v)"
      proof (intro allI impI)
        fix v assume "ln_writer (l1\<lparr>ln_writer := w'\<rparr>) = Some v"
        then have v: "w' = Some v" by simp
        show "ln_client (l1\<lparr>ln_writer := w'\<rparr>) = Some (wr_conn v)"
          using keep c v by (simp add: conn [OF v])
      qed
      show "ln_sent (l1\<lparr>ln_writer := w'\<rparr>) = ln_sent l1" by simp
      show "ln_closed_conns (l1\<lparr>ln_writer := w'\<rparr>) = ln_closed_conns l1" by simp
    qed
    then show ?thesis using LWrite Some ww by simp
  qed
next
  case (LOldTake i)
  assume inv: "link_inv g"
  show ?thesis
  proof (cases "i < length (ln_old (lg_link g))")
    case True
    then have "link_inv (g\<lparr>lg_link := link_step (lg_link g) (LOldTake i)\<rparr>)"
      using inv by (intro link_inv_take [OF inv, where i = i and b = True])
        (auto simp: writers_def nth_append list_update_append link_inv_def Let_def)
    then show ?thesis using LOldTake by simp
  qed (use LOldTake inv in simp)
next
  case (LOldWrite i ok now)
  assume inv: "link_inv g"
  show ?thesis
  proof (cases "i < length (ln_old (lg_link g))")
    case True
    let ?w = "ln_old (lg_link g) ! i"
    let ?xs = "take i (ln_old (lg_link g))" and ?ys = "drop (Suc i) (ln_old (lg_link g))"
    let ?cur = "case ln_writer (lg_link g) of None \<Rightarrow> [] | Some w \<Rightarrow> [w]"
    obtain l1 w' where ww: "writer_write ok now ?w (lg_link g) = (l1, w')" by (cases "writer_write ok now ?w (lg_link g)")
    let ?l2 = "l1\<lparr>ln_old := ?xs @ (case w' of None \<Rightarrow> [] | Some w \<Rightarrow> [w]) @ ?ys\<rparr>"
    have ws: "writers (lg_link g) = ?xs @ ?w # (?ys @ ?cur)"
      using id_take_nth_drop [OF True] by (simp add: writers_def)
    have cur: "ln_writer l1 = ln_writer (lg_link g)"
      using ww by (auto simp: writer_write_def link_fields split: list.splits if_splits)
    have conn: "wr_conn v \<noteq> wr_conn ?w" if "ln_writer (lg_link g) = Some v" for v
      using inv that unfolding link_inv_def Let_def ws by auto
    have cl: "ln_client (lg_link g) = Some (wr_conn v)" if "ln_writer (lg_link g) = Some v" for v
      using inv that by (simp add: link_inv_def Let_def)
    have "ln_client l1 = ln_client (lg_link g) \<or> ln_client (lg_link g) = Some (wr_conn ?w)"
      using ww by (auto simp: writer_write_def link_fields close_conn_def split: list.splits if_splits)
    then have keep: "\<forall>v. ln_writer l1 = Some v \<longrightarrow> ln_client l1 = Some (wr_conn v)"
      using cur conn cl by fastforce
    have "link_inv (g\<lparr>lg_link := ?l2\<rparr>)"
    proof (rule link_inv_write [OF inv ws ww])
      show "writers ?l2 = ?xs @ (case w' of None \<Rightarrow> [] | Some v \<Rightarrow> [v]) @ ?ys @ ?cur"
        using cur by (simp add: writers_def)
      show "\<forall>v. ln_writer ?l2 = Some v \<longrightarrow> ln_client ?l2 = Some (wr_conn v)" using keep by simp
      show "ln_sent ?l2 = ln_sent l1" by simp
      show "ln_closed_conns ?l2 = ln_closed_conns l1" by simp
    qed
    then show ?thesis using LOldWrite True ww by simp
  qed (use LOldWrite inv in simp)
qed

interpretation link_machine: invariant_machine ghost_link_step link_inv "\<lambda>_. True"
  by unfold_locales (rule link_inv_step)

lemma link_inv_run: "link_inv (run ghost_link_step new_link_ghost es)"
  by (rule link_machine.run_inv [OF link_inv_new]) (simp add: list_all_iff)

section \<open>Properties\<close>

text \<open>
  C2: A client gets a stream without holes. Take every frame handed to the link while a connection was
  bound, as replies and notifications come, whatever the queue did with it. Whatever the interleaving of
  attaches, batches, writes and failures, what reached the connection is a prefix of those frames, in
  order; and unless the connection was closed, every one of them was sent or still waits in its writer:
  a batch that does not fit closes the connection, it never leaves a gap. The frames waiting in a
  writer's queue never exceed 128 MiB (or are the one frame that is larger).
\<close>

theorem client_stream_lossless:
  assumes "g = run ghost_link_step new_link_ghost es"
  shows "prefix (frames_of c (ln_sent (lg_link g))) (frames_of c (lg_offered g)) \<and>
    (c \<notin> set (ln_closed_conns (lg_link g)) \<longrightarrow>
       frames_of c (lg_offered g) = frames_of c (ln_sent (lg_link g)) @ pending_for c (writers (lg_link g))) \<and>
    list_all (\<lambda>w. sum_list (map wire_len (q_frames (wr_queue w))) \<le> 128 * 1024 * 1024 \<or>
       length (q_frames (wr_queue w)) = 1) (writers (lg_link g))"
  using link_inv_run [of es] unfolding assms link_inv_def Let_def list_all_iff queue_ok_def max_client_queue_bytes_def
  by auto

theorem client_stream_lossless_witness:
  "frames_of 7 (lg_offered (run ghost_link_step new_link_ghost
     [LAttach, LBind 7 1, LQueue [Wire ''a'' None, Wire ''b'' None], LTake, LWrite True 5])) =
   [Wire ''a'' None] @ pending_for 7 (writers (lg_link (run ghost_link_step new_link_ghost
     [LAttach, LBind 7 1, LQueue [Wire ''a'' None, Wire ''b'' None], LTake, LWrite True 5])))"
proof -
  let ?g = "run ghost_link_step new_link_ghost
     [LAttach, LBind 7 1, LQueue [Wire ''a'' None, Wire ''b'' None], LTake, LWrite True 5]"
  have "frames_of 7 (ln_sent (lg_link ?g)) = [Wire ''a'' None]" "7 \<notin> set (ln_closed_conns (lg_link ?g))"
    by (simp_all add: new_link_ghost_def new_link_def attach_def bind_conn_def start_writer_def stop_writer_def
        close_conn_def queue_and_close_def queue_push_def new_client_queue_def bound_def writer_take_def
        queue_take_def writer_write_def Let_def max_client_queue_bytes_def)
  with client_stream_lossless [OF refl, of 7] show ?thesis by metis
qed

lemma gen_close: "ln_gen (close_conn k l) = ln_gen l"
  by (simp add: link_fields)

lemma gen_queue_locked: "ln_gen (fst (queue_locked fs l)) = ln_gen l"
  by (induction fs l rule: queue_locked.induct) (auto simp: link_fields split: option.split)

lemma gen_write: "ln_gen (fst (writer_write ok now w l)) = ln_gen l"
  by (simp add: writer_write_def link_fields split: list.split)

lemma gen_step: "ln_gen l \<le> ln_gen (link_step l e)"
  by (cases e) (simp_all add: attach_def bind_conn_def start_writer_def detach_def queue_client_reply_def
      queue_and_close_def drain_stop_def split_beta Let_def link_fields gen_queue_locked gen_write split: option.split)

lemma gen_run: "ln_gen l \<le> ln_gen (run link_step l es)"
  by (induction es arbitrary: l) (auto intro: order_trans gen_step)

text \<open>
  Generations fence off superseded connections: once a newer client has attached, the old connection's
  bind, detach and every reply built for it leave the pump's client state unchanged, at any later time.
\<close>

theorem superseded_connection_inert:
  assumes "attach l = (l1, gen)" and "old < gen" and "l2 = run link_step l1 es"
  shows "link_step l2 (LBind conn old) = l2 \<and> link_step l2 (LDetach old) = l2 \<and> link_step l2 (LReply old frames) = l2"
proof -
  have "ln_gen l1 = gen" using assms(1) by (auto simp: attach_def Let_def link_fields)
  then have "old < ln_gen l2" using assms(2,3) gen_run [of l1 es] by simp
  then show ?thesis by (simp add: bind_conn_def detach_def queue_client_reply_def reply_wanted_def)
qed

theorem superseded_connection_inert_witness:
  "link_step (run link_step (fst (attach new_link)) [LAttach, LBind 8 2]) (LDetach 0) =
     run link_step (fst (attach new_link)) [LAttach, LBind 8 2]"
  using superseded_connection_inert [of new_link "fst (attach new_link)" 1 0 "run link_step (fst (attach new_link)) [LAttach, LBind 8 2]"
      "[LAttach, LBind 8 2]" 0 "[]"]
  by (simp add: attach_def new_link_def)

end
