(* ===== verification/Pump.thy ===== *)
theory Pump
  imports Acp_State Load_Recovery Prompt_Delivery Client_Link
begin

text \<open>
  \<^verbatim>\<open>StdioPump\<close>: the composition of the session components. The agent's stdout lines run through the
  ordered stages of \<^verbatim>\<open>pipeline.go\<close> and \<^verbatim>\<open>notify.go\<close>, the client's frames through \<^verbatim>\<open>WriteToAgent\<close> of
  \<^verbatim>\<open>pump.go\<close> with the interceptions of \<^verbatim>\<open>acpstate.go\<close>, \<^verbatim>\<open>catch_up.go\<close> and \<^verbatim>\<open>prompt_ids.go\<close>.

  The callbacks are logs: \<open>pm_pushes\<close> (\<^verbatim>\<open>onPushNotification\<close>), \<open>pm_outcomes\<close> (\<^verbatim>\<open>onTurnFinished\<close>) and
  \<open>pm_stdin\<close> (what was written to the agent). One handler reads the clock once. The frame log and
  \<^verbatim>\<open>slog\<close> are left out.
\<close>

section \<open>State\<close>

record pump_config =
  pc_runtime :: string
  pc_session :: string
  pc_agent :: string
  pc_interval :: duration
  pc_push :: bool
  pc_finish :: bool

record push_event =
  pe_session :: string
  pe_acp :: string
  pe_category :: string
  pe_title :: string
  pe_body :: string

record progress_state =
  ps_at :: gtime
  ps_summary :: string
  ps_pending :: string
  ps_timer :: "gtime option"

record pump =
  pm_acp :: acp_state
  pm_ids :: request_ids
  pm_prompts :: delivered_prompts
  pm_lr :: "load_recovery option"
  pm_results :: turn_results
  pm_link :: link
  pm_progress :: "string \<rightharpoonup> progress_state"
  pm_pushes :: "push_event list"
  pm_outcomes :: "status list"
  pm_stdin :: "wire list"
  pm_last_stdout :: gtime

definition new_pump :: "load_recovery option \<Rightarrow> pump" where
  "new_pump lr = \<lparr>pm_acp = new_acp_state, pm_ids = new_request_ids, pm_prompts = (\<lambda>_. []), pm_lr = lr,
     pm_results = Map.empty, pm_link = new_link, pm_progress = Map.empty, pm_pushes = [], pm_outcomes = [],
     pm_stdin = [], pm_last_stdout = zero_time\<rparr>"

text \<open>The origin of a frame that answers nothing is Go's zero \<^verbatim>\<open>pendingRequest\<close>.\<close>

definition origin_or_zero :: "pending_request option \<Rightarrow> pending_request" where
  "origin_or_zero og = (case og of None \<Rightarrow> zero_pending | Some p \<Rightarrow> p)"

section \<open>Notifications\<close>

definition category_turn_complete :: string where "category_turn_complete = ''turn_complete''"
definition category_permission_request :: string where "category_permission_request = ''permission_request''"
definition category_error :: string where "category_error = ''agent_error''"
definition category_progress :: string where "category_progress = ''progress''"

definition emit_push :: "pump_config \<Rightarrow> string \<Rightarrow> string \<Rightarrow> string \<Rightarrow> string \<Rightarrow> pump \<Rightarrow> pump" where
  "emit_push c acp cat title body pm =
     pm\<lparr>pm_pushes := pm_pushes pm @ [\<lparr>pe_session = pc_session c, pe_acp = acp, pe_category = cat,
        pe_title = title, pe_body = body\<rparr>]\<rparr>"

definition agent_name :: "string \<Rightarrow> pump \<Rightarrow> string" where
  "agent_name fallback pm = acp_name fallback (pm_acp pm)"

definition push_acp_session :: "frame_probe \<Rightarrow> pending_request option \<Rightarrow> pump \<Rightarrow> string" where
  "push_acp_session probe origin pm =
     (case fp_params probe of
        Some ps \<Rightarrow> if pp_session ps \<noteq> [] then pp_session ps
          else if pq_prompt_session (origin_or_zero origin) \<noteq> [] then pq_prompt_session (origin_or_zero origin)
          else ac_session (pm_acp pm)
      | None \<Rightarrow> if pq_prompt_session (origin_or_zero origin) \<noteq> [] then pq_prompt_session (origin_or_zero origin)
          else ac_session (pm_acp pm))"

definition verb_for_kind :: "string \<Rightarrow> string" where
  "verb_for_kind kind =
     (if kind = ''read'' then ''Reading a file'' else if kind = ''edit'' then ''Editing a file''
      else if kind = ''delete'' then ''Deleting a file'' else if kind = ''move'' then ''Moving a file''
      else if kind = ''search'' then ''Searching'' else if kind = ''execute'' then ''Running a command''
      else if kind = ''think'' then ''Thinking'' else if kind = ''fetch'' then ''Fetching a URL''
      else if kind = ''switch_mode'' then ''Switching mode'' else ''Using a tool'')"

definition format_push_duration :: "duration \<Rightarrow> string" where
  "format_push_duration d =
     (let s = d div second; m = s div 60 in
      if s < 60 then dec_int s @ ''s''
      else if m < 60 then dec_int m @ ''m''
      else if 0 < m mod 60 then dec_int (m div 60) @ ''h '' @ dec_int (m mod 60) @ ''m''
      else dec_int (m div 60) @ ''h'')"

definition turn_complete_body :: "gtime \<Rightarrow> pending_request option \<Rightarrow> pump \<Rightarrow> string" where
  "turn_complete_body now origin pm =
     (let started = pq_started (origin_or_zero origin) in
      if started \<noteq> zero_time \<and> 10 * second \<le> now - started
      then agent_name ''Your agent'' pm @ '' finished in '' @ format_push_duration (now - started) @ ''.''
      else agent_name ''Your agent'' pm @ '' has finished processing.'')"

text \<open>\<^verbatim>\<open>sendProgressLocked\<close>, with the entry of the session it was called for.\<close>

definition send_progress :: "pump_config \<Rightarrow> gtime \<Rightarrow> string \<Rightarrow> progress_state \<Rightarrow> string \<Rightarrow> pump \<Rightarrow> pump" where
  "send_progress c now acp st summary pm =
     (let st1 = st\<lparr>ps_pending := []\<rparr> in
      if summary = ps_summary st then pm\<lparr>pm_progress := (pm_progress pm)(acp \<mapsto> st1)\<rparr>
      else emit_push c acp category_progress (agent_name ''Agent'' pm @ '' working'') summary
             (pm\<lparr>pm_progress := (pm_progress pm)(acp \<mapsto> st1\<lparr>ps_at := now, ps_summary := summary\<rparr>)\<rparr>))"

definition end_progress :: "string \<Rightarrow> pump \<Rightarrow> pump" where
  "end_progress acp pm = pm\<lparr>pm_progress := (pm_progress pm)(acp := None)\<rparr>"

definition progress_event_from_probe :: "frame_probe \<Rightarrow> probe_update option" where
  "progress_event_from_probe probe =
     (if fp_method probe \<noteq> ''session/update'' then None
      else (case frame_update probe of
              None \<Rightarrow> None
            | Some up \<Rightarrow> if pu_discriminator up \<in> {''tool_call'', ''tool_call_update''} then Some up else None))"

definition maybe_notify_progress :: "pump_config \<Rightarrow> gtime \<Rightarrow> string \<Rightarrow> probe_update \<Rightarrow> pump \<Rightarrow> pump" where
  "maybe_notify_progress c now acp0 ev pm =
     (let acp = (if acp0 = [] then ac_session (pm_acp pm) else acp0);
          (a, kind) = tool_kind_for (pu_tool_call ev) (pu_kind ev) (pm_acp pm);
          pm1 = pm\<lparr>pm_acp := a\<rparr>
      in if pu_status ev = ''completed'' \<or> pu_status ev = ''failed''
         then pm1\<lparr>pm_acp := forget_tool (pu_tool_call ev) a\<rparr>
         else if pu_status ev \<noteq> ''in_progress'' then pm1
         else
           let st = (case pm_progress pm1 acp of
                  None \<Rightarrow> \<lparr>ps_at = zero_time, ps_summary = [], ps_pending = [], ps_timer = None\<rparr> | Some st \<Rightarrow> st);
               summary = verb_for_kind kind;
               wait = pc_interval c - (now - ps_at st)
           in if pc_interval c \<le> 0 \<or> wait \<le> 0 then send_progress c now acp st summary pm1
              else pm1\<lparr>pm_progress := (pm_progress pm1)(acp \<mapsto> st\<lparr>ps_pending := summary,
                     ps_timer := (case ps_timer st of None \<Rightarrow> Some (now + wait) | Some t \<Rightarrow> Some t)\<rparr>)\<rparr>)"

text \<open>The timer armed for a session goes off; a timer stopped by \<open>end_progress\<close> does nothing.\<close>

definition progress_timer :: "pump_config \<Rightarrow> gtime \<Rightarrow> string \<Rightarrow> pump \<Rightarrow> pump" where
  "progress_timer c now acp pm =
     (case pm_progress pm acp of
        None \<Rightarrow> pm
      | Some st \<Rightarrow>
          (case ps_timer st of
             None \<Rightarrow> pm
           | Some t \<Rightarrow> if now < t then pm
               else send_progress c now acp (st\<lparr>ps_timer := None\<rparr>) (ps_pending st) pm))"

definition notify_swallowed_failure ::
  "pump_config \<Rightarrow> frame_probe \<Rightarrow> pending_request option \<Rightarrow> pump \<Rightarrow> pump" where
  "notify_swallowed_failure c probe origin pm =
     (if \<not> pc_push c then pm
      else emit_push c (push_acp_session probe origin pm) category_error ''Agent Error''
        (agent_name ''The agent'' pm @ '' finished without producing anything. This usually means the model call failed (rate limit or invalid setting). Check the gateway logs for details.'') pm)"

section \<open>Frames in the pipeline\<close>

record frame =
  fr_line :: wire
  fr_probe :: frame_probe
  fr_ok :: bool
  fr_origin :: "pending_request option"
  fr_out :: "wire list"
  fr_replaced :: bool
  fr_resumed :: bool

abbreviation fr_parsed :: "frame \<Rightarrow> frame_probe option" where
  "fr_parsed f \<equiv> (if fr_ok f then Some (fr_probe f) else None)"

definition notify_frame :: "pump_config \<Rightarrow> gtime \<Rightarrow> frame \<Rightarrow> pump \<Rightarrow> pump" where
  "notify_frame c now f pm =
     (if \<not> pc_push c \<or> \<not> fr_ok f \<or> fr_replaced f then pm
      else
        let probe = fr_probe f; acp = push_acp_session probe (fr_origin f) pm;
            stop = (case fp_result probe of None \<Rightarrow> [] | Some res \<Rightarrow> pr_stop_reason res)
        in if stop \<noteq> [] then
             let pm1 = end_progress acp pm in
             if stop \<noteq> ''cancelled''
             then emit_push c acp category_turn_complete ''Turn Complete'' (turn_complete_body now (fr_origin f) pm1) pm1
             else pm1
           else if fp_method probe = ''session/request_permission'' then
             emit_push c acp category_permission_request ''Permission Required''
               (agent_name ''Your agent'' pm @ '' needs approval to run a tool.'') pm
           else if fp_method probe = elicitation_method then
             emit_push c acp category_permission_request ''Input Required''
               (agent_name ''Your agent'' pm @ '' needs your input.'') pm
           else if fp_error probe \<noteq> None then
             (if (case fr_origin f of Some p \<Rightarrow> pq_method p = ''session/prompt'' | None \<Rightarrow> False)
              then emit_push c acp category_error ''Agent Error''
                     (agent_name ''Your agent'' (end_progress acp pm) @ '' encountered an unexpected error.'')
                     (end_progress acp pm)
              else pm)
           else
             (case progress_event_from_probe probe of
                None \<Rightarrow> pm
              | Some ev \<Rightarrow> if prompt_running acp (pm_ids pm) then maybe_notify_progress c now acp ev pm else pm))"

section \<open>The stages\<close>

definition pump_forget_prompt :: "string \<Rightarrow> string \<Rightarrow> string \<Rightarrow> pump \<Rightarrow> pump" where
  "pump_forget_prompt sid client_id request_id pm =
     pm\<lparr>pm_prompts := release_prompt sid client_id (pm_prompts pm),
        pm_lr := map_option (forget_prompt sid request_id) (pm_lr pm)\<rparr>"

definition swallowed_message :: string where
  "swallowed_message = ''Agent produced no output for this turn. The model call likely failed (rate limit or invalid model setting); see the gateway logs for details.''"

definition swallowed_failure_frame :: "frame_probe \<Rightarrow> wire option" where
  "swallowed_failure_frame probe =
     (case fp_id probe of
        None \<Rightarrow> None
      | Some i \<Rightarrow> Some (marshal (JObj [
          (''error'', JObj [(''code'', JNum ''-32000''), (''message'', JStr swallowed_message)]),
          (''id'', i), (''jsonrpc'', JStr ''2.0'')])))"

definition replace_frame :: "sdk \<Rightarrow> wire \<Rightarrow> frame \<Rightarrow> frame" where
  "replace_frame u w f =
     (let f1 = f\<lparr>fr_line := w, fr_out := [w], fr_replaced := True\<rparr>
      in case parse_frame_probe u w of None \<Rightarrow> f1 | Some p \<Rightarrow> f1\<lparr>fr_probe := p, fr_ok := True\<rparr>)"

text \<open>A prompt the agent rejects with an error is forgotten.\<close>

definition forget_rejected :: "frame \<Rightarrow> pump \<Rightarrow> pump" where
  "forget_rejected f pm =
     (case (fr_origin f, fp_error (fr_probe f), fp_id (fr_probe f)) of
        (Some p, Some _, Some i) \<Rightarrow>
          if pq_method p = ''session/prompt''
          then pump_forget_prompt (pq_prompt_session p) (pq_prompt_client p) (response_id_key i) pm
          else pm
      | _ \<Rightarrow> pm)"

definition observe_frame :: "sdk \<Rightarrow> frame \<Rightarrow> acp_state \<Rightarrow> acp_state \<times> bool" where
  "observe_frame u f a =
     acp_observe_turn (fr_probe f) (fr_origin f)
       (bind_pending_cwd (fr_probe f) (observe_session_id (fr_probe f)
          (observe_initialize u (fr_probe f) (fr_line f) a)))"

definition observe_acp_state :: "sdk \<Rightarrow> pump_config \<Rightarrow> frame \<Rightarrow> pump \<Rightarrow> pump \<times> frame" where
  "observe_acp_state u c f pm =
     (let pm1 = forget_rejected f pm;
          (a, swallowed) = observe_frame u f (pm_acp pm1);
          pm2 = pm1\<lparr>pm_acp := a\<rparr>
      in if \<not> swallowed then (pm2, f)
         else
           let pm3 = notify_swallowed_failure c (fr_probe f) (fr_origin f) pm2 in
           (case swallowed_failure_frame (fr_probe f) of None \<Rightarrow> (pm3, f) | Some w \<Rightarrow> (pm3, replace_frame u w f)))"

definition turn_status :: "pump_config \<Rightarrow> string \<Rightarrow> gtime \<Rightarrow> turn_state \<Rightarrow> gtime \<Rightarrow> status" where
  "turn_status c acp started state now =
     \<lparr>st_agent = pc_agent c, st_session = acp, st_gateway = pc_session c, st_runtime = pc_runtime c,
      st_state = state, st_attention = [], st_started = started, st_changed = now, st_stop_reason = []\<rparr>"

definition record_outcome :: "pump_config \<Rightarrow> gtime \<Rightarrow> frame \<Rightarrow> pump \<Rightarrow> pump" where
  "record_outcome c now f pm =
     (case fr_origin f of
        None \<Rightarrow> pm
      | Some p \<Rightarrow>
          if \<not> pc_finish c \<or> pq_prompt_session p = [] then pm
          else
            let reason = (case fp_result (fr_probe f) of None \<Rightarrow> [] | Some res \<Rightarrow> pr_stop_reason res);
                errored = (fp_error (fr_probe f) \<noteq> None);
                st = turn_status c (pq_prompt_session p) (pq_started p) (outcome errored reason) now
            in pm\<lparr>pm_outcomes := pm_outcomes pm @ [if errored then st else st\<lparr>st_stop_reason := reason\<rparr>]\<rparr>)"

definition apply_load_recovery :: "frame \<Rightarrow> pump \<Rightarrow> pump \<times> frame" where
  "apply_load_recovery f pm =
     (case pm_lr pm of
        None \<Rightarrow> (pm, f)
      | Some lr \<Rightarrow>
          let (lr', replay) = on_frame (fr_line f) (fr_parsed f) lr in
          (pm\<lparr>pm_lr := Some lr'\<rparr>,
           case replay of None \<Rightarrow> f | Some out \<Rightarrow> f\<lparr>fr_out := out, fr_resumed := True\<rparr>))"

text \<open>\<^verbatim>\<open>restoreLocked\<close>: the reply is the last of \<open>out\<close>.\<close>

definition restore_locked :: "string \<Rightarrow> wire list \<Rightarrow> pump \<Rightarrow> pump \<times> wire list" where
  "restore_locked sid out pm =
     (let (ids, out1) = redeliver (ln_gen (pm_link pm)) sid out (pm_ids pm);
          pm1 = pm\<lparr>pm_ids := ids\<rparr>
      in if out = [] then (pm1, out1)
         else
           let (results, res) = take_turn_result sid (pm_results pm1) in
           (case res of
              None \<Rightarrow> (pm1, out1)
            | Some r \<Rightarrow> (pm1\<lparr>pm_results := results\<rparr>,
                butlast out @ turn_result_frame sid r # last out # drop (length out) out1)))"

definition number_frame :: "sdk \<Rightarrow> frame \<Rightarrow> pump \<Rightarrow> pump \<times> frame" where
  "number_frame u f pm =
     (case pm_lr pm of
        None \<Rightarrow> (pm, f)
      | Some lr \<Rightarrow>
          let (lr', line) = record_frame u (fr_line f) (fr_parsed f) lr in
          (pm\<lparr>pm_lr := Some lr'\<rparr>, if wire_text line \<noteq> wire_text (fr_line f) then f\<lparr>fr_line := line, fr_out := [line]\<rparr> else f))"

definition keep_turn_result :: "gtime \<Rightarrow> frame \<Rightarrow> pump \<Rightarrow> pump" where
  "keep_turn_result now f pm =
     (case (fr_origin f, fp_result (fr_probe f)) of
        (Some p, Some res) \<Rightarrow>
          if \<not> bound (pm_link pm) \<and> pq_method p = ''session/prompt'' \<and> pq_gen p = ln_gen (pm_link pm)
          then pm\<lparr>pm_results := store_turn_result (pq_prompt_session p)
                 \<lparr>tr_stop_reason = pr_stop_reason res, tr_usage = pr_usage res,
                  tr_duration_ms = milliseconds (now - pq_started p)\<rparr> (pm_results pm)\<rparr>
          else pm
      | _ \<Rightarrow> pm)"

definition restores :: "frame \<Rightarrow> pump \<Rightarrow> bool" where
  "restores f pm =
     (case fr_origin f of
        None \<Rightarrow> False
      | Some p \<Rightarrow> (pq_method p = ''session/load'' \<or> pq_method p = ''session/resume'') \<and>
          pq_gen p = ln_gen (pm_link pm) \<and> bound (pm_link pm) \<and> (fr_resumed f \<or> fp_error (fr_probe f) = None))"

definition forward :: "sdk \<Rightarrow> gtime \<Rightarrow> frame \<Rightarrow> pump \<Rightarrow> pump" where
  "forward u now f0 pm0 =
     (let (pm, f) = number_frame u f0 pm0;
          gen = ln_gen (pm_link pm);
          (ids, out) = reply gen now (fr_probe f) (fr_out f) (pm_ids pm);
          pm1 = keep_turn_result now f (pm\<lparr>pm_ids := ids\<rparr>);
          (pm2, out2) = (if restores f pm1 then restore_locked (pq_load_session (origin_or_zero (fr_origin f))) out pm1
                         else (pm1, out));
          is_bound = bound (pm_link pm2);
          pm3 = pm2\<lparr>pm_ids := track_agent_request (fr_probe f) (fr_line f) (if is_bound then gen else 0) (pm_ids pm2)\<rparr>
      in if is_bound
         then pm3\<lparr>pm_link := queue_and_close (scope_elicitation gen (fr_probe f) out2 (pm_ids pm3)) (pm_link pm3)\<rparr>
         else pm3)"

definition new_frame :: "sdk \<Rightarrow> wire \<Rightarrow> pump \<Rightarrow> frame" where
  "new_frame u line pm =
     (let parsed = parse_frame_probe u line;
          probe = (case parsed of None \<Rightarrow> no_probe | Some p \<Rightarrow> p)
      in \<lparr>fr_line = line, fr_probe = probe, fr_ok = (parsed \<noteq> None), fr_origin = peek probe (pm_ids pm),
          fr_out = [line], fr_replaced = False, fr_resumed = False\<rparr>)"

text \<open>
  The stages before \<^verbatim>\<open>forward\<close> only look up which request a reply answers; \<^verbatim>\<open>forward\<close> takes the request off the table. No
  lock is held across the stages, so another handler can run between the two.
\<close>

definition judge_line :: "sdk \<Rightarrow> pump_config \<Rightarrow> gtime \<Rightarrow> wire \<Rightarrow> pump \<Rightarrow> pump \<times> frame" where
  "judge_line u c now line pm0 =
     (let pm = pm0\<lparr>pm_last_stdout := now\<rparr>;
          f = new_frame u line pm;
          (pm1, f1) = observe_acp_state u c f pm;
          pm2 = record_outcome c now f1 pm1;
          (pm3, f2) = apply_load_recovery f1 pm2;
          pm4 = pm3\<lparr>pm_acp := accept_session (fr_probe f2) (fr_origin f2) (fr_resumed f2) (pm_acp pm3)\<rparr>
      in (notify_frame c now f2 pm4, f2))"

definition handle_stdout_line :: "sdk \<Rightarrow> pump_config \<Rightarrow> gtime \<Rightarrow> wire \<Rightarrow> pump \<Rightarrow> pump" where
  "handle_stdout_line u c now line pm0 = (case judge_line u c now line pm0 of (pm, f) \<Rightarrow> forward u now f pm)"

section \<open>Client frames\<close>

definition pump_reply :: "nat \<Rightarrow> wire list \<Rightarrow> pump \<Rightarrow> pump" where
  "pump_reply gen frames pm = pm\<lparr>pm_link := queue_client_reply gen frames (pm_link pm)\<rparr>"

definition replay_initialize :: "nat \<Rightarrow> client_frame \<Rightarrow> pump \<Rightarrow> pump \<times> bool" where
  "replay_initialize gen f pm =
     (if cf_method f \<noteq> ''initialize'' then (pm, False)
      else (case ac_init (pm_acp pm) of
              None \<Rightarrow> (pm, False)
            | Some cached \<Rightarrow>
                (case rewrite_response_id cached (cf_id f) of
                   None \<Rightarrow> (pm, False)
                 | Some out \<Rightarrow> (pump_reply gen [out] pm, True))))"

definition catch_up_reply_frame :: "json \<Rightarrow> json \<Rightarrow> wire" where
  "catch_up_reply_frame i res =
     marshal (JObj [(''id'', i), (''jsonrpc'', JStr ''2.0''),
       (''result'', JObj [(''_meta'', JObj [(catch_up_meta_key, res)])])])"

definition catch_up_result :: "sdk \<Rightarrow> string \<Rightarrow> int \<Rightarrow> gtime option \<Rightarrow> bool \<Rightarrow> json" where
  "catch_up_result u epoch head started gap =
     JObj ([(''epoch'', JStr epoch), (''headSeq'', JNum (dec_int head)), (''turnActive'', JBool (started \<noteq> None))]
       @ (case started of None \<Rightarrow> [] | Some t \<Rightarrow> [(''turnStartedAt'', JStr (sdk_time u t))]) @ [(''gap'', JBool gap)])"

text \<open>The reply is built only for the current connection.\<close>

definition catch_up_answer :: "sdk \<Rightarrow> json \<Rightarrow> string \<Rightarrow> catch_up_request \<Rightarrow> load_recovery \<Rightarrow> pump \<Rightarrow> pump \<times> wire list" where
  "catch_up_answer u i sid req lr pm =
     (let (frames, head, gap) = catch_up sid (cu_epoch req) (cu_after_seq req) lr;
          out = frames @ [catch_up_reply_frame i (catch_up_result u (lr_epoch lr) head (prompt_started_at sid (pm_ids pm)) gap)]
      in if gap then (pm, out) else restore_locked sid out pm)"

definition answer_catch_up :: "sdk \<Rightarrow> nat \<Rightarrow> client_frame \<Rightarrow> pump \<Rightarrow> pump \<times> bool" where
  "answer_catch_up u gen f pm =
     (case (cp_catch_up (cf_params f), cf_id f, pm_lr pm) of
        (Some req, Some i, Some lr) \<Rightarrow>
          let sid = cp_session (cf_params f) in
          if cf_method f \<noteq> ''session/resume'' \<or> \<not> acp_holds sid (pm_acp pm) then (pm, False)
          else
            let pm1 = pm\<lparr>pm_acp := observe_inbound f (pm_acp pm)\<rparr> in
            if \<not> reply_wanted gen (pm_link pm1) then (pm1, True)
            else
              let (pm2, out) = catch_up_answer u i sid req lr pm1
              in (pm2\<lparr>pm_link := queue_and_close out (pm_link pm2)\<rparr>, True)
      | _ \<Rightarrow> (pm, False))"

definition drop_duplicate_prompt :: "nat \<Rightarrow> client_frame \<Rightarrow> pump \<Rightarrow> pump \<times> bool" where
  "drop_duplicate_prompt gen f pm =
     (if cf_method f \<noteq> ''session/prompt'' \<or> cf_id f = None then (pm, False)
      else
        let (prompts, new) = claim_prompt (cp_session (cf_params f)) (cp_client_id (cf_params f)) (pm_prompts pm);
            pm1 = pm\<lparr>pm_prompts := prompts\<rparr>
        in if new then (pm1, False)
           else (pump_reply gen [prompt_delivered_frame (cf_id f) (cp_client_id (cf_params f))] pm1, True))"

definition prepare_outbound :: "nat \<Rightarrow> gtime \<Rightarrow> client_frame \<Rightarrow> pump \<Rightarrow> pump \<times> client_frame" where
  "prepare_outbound gen now f0 pm =
     (let (ids, f) = outbound gen now f0 (pm_ids pm);
          pm1 = pm\<lparr>pm_ids := ids, pm_acp := observe_inbound f (pm_acp pm)\<rparr>;
          pm2 = (if cf_method f = ''session/prompt''
                 then pm1\<lparr>pm_results := clear_turn_result (cp_session (cf_params f)) (pm_results pm1)\<rparr> else pm1)
      in (pm2\<lparr>pm_lr := map_option (on_outbound f) (pm_lr pm2)\<rparr>, f))"

text \<open>A failed write takes back the request and the prompt.\<close>

definition undo_write :: "client_frame \<Rightarrow> pump \<Rightarrow> pump" where
  "undo_write f pm =
     (let pm1 = (case cf_id f of
            Some i \<Rightarrow> if cf_method f \<noteq> [] then pm\<lparr>pm_ids := discard i (pm_ids pm)\<rparr> else pm
          | None \<Rightarrow> pm)
      in if cf_method f = ''session/prompt''
         then pump_forget_prompt (cp_session (cf_params f)) (cp_client_id (cf_params f)) (id_key (cf_id f)) pm1
         else pm1)"

definition write_to_agent :: "sdk \<Rightarrow> nat \<Rightarrow> gtime \<Rightarrow> wire \<Rightarrow> bool \<Rightarrow> pump \<Rightarrow> pump \<times> bool" where
  "write_to_agent u gen now payload ok pm0 =
     (let f = parse_client_frame payload;
          (pm1, replayed) = replay_initialize gen f pm0
      in if replayed then (pm1, True)
         else
           let (pm2, caught_up) = answer_catch_up u gen f pm1 in
           if caught_up then (pm2, True)
           else
             let (pm3, dropped) = drop_duplicate_prompt gen f pm2 in
             if dropped then (pm3, True)
             else
               let (pm4, f') = prepare_outbound gen now f pm3 in
               if ok then (pm4\<lparr>pm_stdin := pm_stdin pm4 @ [cf_raw f']\<rparr>, True)
               else (undo_write f' pm4, False))"

definition write_session_close :: "wire \<Rightarrow> bool \<Rightarrow> pump \<Rightarrow> pump" where
  "write_session_close payload ok pm = (if ok then pm\<lparr>pm_stdin := pm_stdin pm @ [payload]\<rparr> else pm)"

section \<open>What the session layer asks\<close>

definition pump_live_turns :: "pump_config \<Rightarrow> gtime \<Rightarrow> pump \<Rightarrow> status list" where
  "pump_live_turns c now pm =
     map (\<lambda>t. (turn_status c (lt_session t) (lt_started t) StateRunning now)
            \<lparr>st_attention := lt_attention t, st_changed := lt_started t\<rparr>) (live_turns (pm_ids pm))"

definition finish_pending_turns :: "pump_config \<Rightarrow> gtime \<Rightarrow> turn_state \<Rightarrow> pump \<Rightarrow> pump" where
  "finish_pending_turns c now state pm =
     (if \<not> pc_finish c then pm
      else
        let (ids, ps) = take_prompts (pm_ids pm) in
        pm\<lparr>pm_ids := ids, pm_outcomes := pm_outcomes pm @
             map (\<lambda>p. turn_status c (pq_prompt_session p) (pq_started p) state now) ps\<rparr>)"

definition awaiting_client :: "pump \<Rightarrow> bool" where
  "awaiting_client pm = has_agent_requests (pm_ids pm)"

end
