(* ===== verification/Pump_Proofs.thy ===== *)
theory Pump_Proofs
  imports Pump Request_Ids_Proofs
begin

text \<open>
  Properties of the composed pump, over every sequence of agent output, client frames, attaches, writer
  steps, timers and teardown, each handler running to its end before the next: each prompt handed to the
  agent is accounted for exactly once, and the agent is initialized once. What handlers that overlap can
  break is shown by an example.
\<close>

section \<open>Runs\<close>

datatype pump_event =
    EvStdout gtime wire
  | EvWrite nat gtime wire bool
  | EvLink link_event
  | EvTimer gtime string
  | EvFinish gtime turn_state
  | EvClose wire bool

fun pump_step :: "sdk \<Rightarrow> pump_config \<Rightarrow> pump \<Rightarrow> pump_event \<Rightarrow> pump" where
  "pump_step u c pm (EvStdout now line) = handle_stdout_line u c now line pm"
| "pump_step u c pm (EvWrite gen now payload ok) = fst (write_to_agent u gen now payload ok pm)"
| "pump_step u c pm (EvLink e) = pm\<lparr>pm_link := link_step (pm_link pm) e\<rparr>"
| "pump_step u c pm (EvTimer now acp) = progress_timer c now acp pm"
| "pump_step u c pm (EvFinish now state) = finish_pending_turns c now state pm"
| "pump_step u c pm (EvClose payload ok) = write_session_close payload ok pm"

section \<open>Pending prompts\<close>

definition is_prompt :: "string \<times> pending_request \<Rightarrow> bool" where
  "is_prompt kp \<longleftrightarrow> pq_prompt_session (snd kp) \<noteq> []"

definition prompts_pending :: "request_ids \<Rightarrow> nat" where
  "prompts_pending r = length (filter is_prompt (rq_pending r))"

lemma count_delete:
  "keys_distinct m \<Longrightarrow> map_of m k = Some p \<Longrightarrow>
     length (filter is_prompt m) = length (filter is_prompt (AList.delete k m)) + (if pq_prompt_session p \<noteq> [] then 1 else 0)"
proof (induction m)
  case (Cons kp m)
  show ?case
  proof (cases "fst kp = k")
    case True
    then have "k \<notin> fst ` set m" using Cons.prems(1) by (auto simp: keys_distinct_def)
    then have "AList.delete k m = m" by (simp add: delete_id)
    with True Cons.prems(2) show ?thesis by (cases kp) (auto simp: is_prompt_def)
  next
    case False
    with Cons show ?thesis by (cases kp) (auto simp: keys_distinct_def)
  qed
qed simp

lemma count_update_fresh:
  "map_of m k = None \<Longrightarrow> length (filter is_prompt (AList.update k p m)) =
     length (filter is_prompt m) + (if pq_prompt_session p \<noteq> [] then 1 else 0)"
  by (induction m) (auto simp: is_prompt_def)

lemma ids_inv_keys: "ids_inv r \<Longrightarrow> keys_distinct (rq_pending r)"
  by (simp add: ids_inv_def pending_ok_def)

lemma pending_changed [simp]: "prompts_pending (ids_changed r) = prompts_pending r"
  by (simp add: prompts_pending_def ids_changed_def)

lemma pending_agent_reqs [simp]: "prompts_pending (r\<lparr>rq_agent_reqs := as\<rparr>) = prompts_pending r"
  by (simp add: prompts_pending_def)

lemma pending_forget:
  "ids_inv r \<Longrightarrow> map_of (rq_pending r) k = Some p \<Longrightarrow>
     prompts_pending r = prompts_pending (forget_pending k p r) + (if pq_prompt_session p \<noteq> [] then 1 else 0)"
  using count_delete [OF ids_inv_keys] by (simp add: prompts_pending_def forget_pending_def)

lemma pending_track [simp]: "prompts_pending (track_agent_request probe line gen r) = prompts_pending r"
  by (simp add: track_agent_request_def Let_def split: option.split)

lemma pending_redeliver [simp]: "prompts_pending (fst (redeliver gen sid fs r)) = prompts_pending r"
  by (simp add: redeliver_def split_beta)

lemma pending_answer [simp]: "prompts_pending (answer_agent_request i r) = prompts_pending r"
  by (simp add: answer_agent_request_def Let_def split_beta)

definition origin_weight :: "pending_request option \<Rightarrow> nat" where
  "origin_weight og = (case og of None \<Rightarrow> 0 | Some p \<Rightarrow> if pq_prompt_session p \<noteq> [] then 1 else 0)"

text \<open>A reply consumes exactly the request \<open>peek\<close> saw.\<close>

lemma pending_reply:
  assumes "ids_inv r" "frames \<noteq> []"
  shows "prompts_pending r = prompts_pending (fst (reply gen now probe frames r)) + origin_weight (peek probe r)"
  using assms pending_forget [OF assms(1)]
  by (auto simp: reply_def peek_def origin_weight_def Let_def split: option.split)

lemma pending_discard:
  assumes "ids_inv r"
  shows "prompts_pending r = prompts_pending (discard i r) + origin_weight (map_of (rq_pending r) (response_id_key i))"
  using pending_forget [OF assms] by (auto simp: discard_def origin_weight_def split: option.split)

lemma pending_take_loop:
  "ids_inv r \<Longrightarrow> keys_distinct ps \<Longrightarrow> (\<forall>(k, p) \<in> set ps. map_of (rq_pending r) k = Some p) \<Longrightarrow>
     prompts_pending r = prompts_pending (fst (take_loop ps r)) + length (snd (take_loop ps r))"
proof (induction ps r rule: take_loop.induct)
  case (2 k p rest r)
  show ?case
  proof (cases "pq_prompt_session p \<noteq> []")
    case True
    have kp: "map_of (rq_pending r) k = Some p" using "2.prems"(3) by simp
    have rest: "\<forall>(k', p') \<in> set rest. map_of (rq_pending (forget_pending k p r)) k' = Some p'"
      using "2.prems"(2,3) by (force simp: keys_distinct_def forget_pending_def delete_conv')
    have kd: "keys_distinct rest" using "2.prems"(2) by (simp add: keys_distinct_def)
    from "2.IH"(1) [OF True ids_inv_forget [OF "2.prems"(1) kp] kd rest] pending_forget [OF "2.prems"(1) kp] True
    show ?thesis by (simp add: split_beta)
  next
    case False
    with "2.IH"(2) "2.prems" show ?thesis by (auto simp: keys_distinct_def)
  qed
qed simp

lemma pending_take:
  assumes "ids_inv r"
  shows "prompts_pending r = prompts_pending (fst (take_prompts r)) + length (snd (take_prompts r))"
proof -
  have kd: "keys_distinct (rq_pending r)" using assms by (rule ids_inv_keys)
  then have "\<forall>(k, p) \<in> set (rq_pending r). map_of (rq_pending r) k = Some p" by (auto simp: keys_distinct_def)
  from pending_take_loop [OF assms kd this] show ?thesis
    by (simp add: take_prompts_def Let_def split_beta)
qed

text \<open>What a client frame adds to the pending prompts, and what undoing it takes back.\<close>

definition prompt_request :: "client_frame \<Rightarrow> bool" where
  "prompt_request f \<longleftrightarrow> cf_method f = ''session/prompt'' \<and> cf_id f \<noteq> None \<and> cp_session (cf_params f) \<noteq> []"

lemma origin_prompt:
  "(pq_prompt_session (origin_of gen i now f) \<noteq> []) = (cf_method f = ''session/prompt'' \<and> cp_session (cf_params f) \<noteq> [])"
  by (simp add: origin_of_def Let_def zero_pending_def)

lemma outbound_frame:
  "cf_method (snd (outbound gen now f r)) = cf_method f" "cf_params (snd (outbound gen now f r)) = cf_params f"
  "(cf_id (snd (outbound gen now f r)) = None) = (cf_id f = None)"
  by (auto simp: outbound_def Let_def split_beta split: option.split)

lemma pending_register:
  assumes "ids_inv r"
  shows "prompts_pending (fst (register_request p r)) = prompts_pending r + (if pq_prompt_session p \<noteq> [] then 1 else 0)"
proof -
  have "map_of (rq_pending r) (dec (Suc (rq_next r))) = None"
    using assms by (intro pending_fresh) (simp add: ids_inv_def)
  then show ?thesis by (simp add: prompts_pending_def register_fields count_update_fresh)
qed

lemma pending_outbound:
  assumes "ids_inv r" "cf_fields f \<noteq> None"
  shows "prompts_pending (fst (outbound gen now f r)) = prompts_pending r + (if prompt_request f then 1 else 0)"
  using assms pending_register [OF assms(1)]
  by (auto simp: outbound_def Let_def split_beta prompt_request_def origin_prompt split: option.split)

lemma pending_outbound_discard:
  assumes "ids_inv r" "cf_fields f \<noteq> None" "cf_method f \<noteq> []" "cf_id (snd (outbound gen now f r)) = Some i"
  shows "prompts_pending (discard i (fst (outbound gen now f r))) = prompts_pending r"
proof -
  obtain m j where f: "cf_fields f = Some m" "cf_id f = Some j"
    using assms by (auto simp: outbound_def Let_def split: option.splits if_splits)
  let ?p = "origin_of gen j now f"
  have i: "response_id_key i = dec (Suc (rq_next r))"
    using assms(3,4) f by (auto simp: outbound_def Let_def split_beta register_fields response_id_key_def)
  have out: "fst (outbound gen now f r) = fst (register_request ?p r)"
    using assms(3) f by (simp add: outbound_def Let_def split_beta)
  have inv: "ids_inv (fst (register_request ?p r))" using ids_inv_register [OF assms(1) origin_owner] .
  have "map_of (rq_pending (fst (register_request ?p r))) (response_id_key i) = Some ?p"
    by (simp add: register_fields i update_conv')
  with pending_discard [OF inv, of i] pending_register [OF assms(1), of ?p] show ?thesis
    by (simp add: out origin_weight_def split: if_splits)
qed

lemma parse_prompt_fields: "cf_fields (parse_client_frame w) = None \<Longrightarrow>
    cf_method (parse_client_frame w) = [] \<and> cf_id (parse_client_frame w) = None"
  by (auto simp: parse_client_frame_def split: option.splits)

section \<open>The stages leave the request ids alone\<close>

named_theorems stage "which components a stage of the pipeline leaves alone"

lemma emit_push_stage [stage]:
  "pm_ids (emit_push c a b d e pm) = pm_ids pm" "pm_outcomes (emit_push c a b d e pm) = pm_outcomes pm"
  "pm_acp (emit_push c a b d e pm) = pm_acp pm" "pm_stdin (emit_push c a b d e pm) = pm_stdin pm"
  "pm_link (emit_push c a b d e pm) = pm_link pm" "pm_lr (emit_push c a b d e pm) = pm_lr pm"
  by (simp_all add: emit_push_def)

lemma end_progress_stage [stage]:
  "pm_ids (end_progress a pm) = pm_ids pm" "pm_outcomes (end_progress a pm) = pm_outcomes pm"
  "pm_acp (end_progress a pm) = pm_acp pm" "pm_stdin (end_progress a pm) = pm_stdin pm"
  by (simp_all add: end_progress_def)

lemma send_progress_stage [stage]:
  "pm_ids (send_progress c now a st s pm) = pm_ids pm" "pm_outcomes (send_progress c now a st s pm) = pm_outcomes pm"
  "pm_acp (send_progress c now a st s pm) = pm_acp pm" "pm_stdin (send_progress c now a st s pm) = pm_stdin pm"
  by (simp_all add: send_progress_def Let_def emit_push_stage)

lemma progress_timer_stage [stage]:
  "pm_ids (progress_timer c now a pm) = pm_ids pm" "pm_outcomes (progress_timer c now a pm) = pm_outcomes pm"
  "pm_acp (progress_timer c now a pm) = pm_acp pm" "pm_stdin (progress_timer c now a pm) = pm_stdin pm"
  by (simp_all add: progress_timer_def send_progress_stage split: option.split)

lemma maybe_notify_stage [stage]:
  "pm_ids (maybe_notify_progress c now a ev pm) = pm_ids pm"
  "pm_outcomes (maybe_notify_progress c now a ev pm) = pm_outcomes pm"
  "pm_stdin (maybe_notify_progress c now a ev pm) = pm_stdin pm"
  "ac_init (pm_acp (maybe_notify_progress c now a ev pm)) = ac_init (pm_acp pm)"
  by (simp_all add: maybe_notify_progress_def Let_def split_beta send_progress_stage acp_frame)

lemma notify_frame_stage [stage]:
  "pm_ids (notify_frame c now f pm) = pm_ids pm" "pm_outcomes (notify_frame c now f pm) = pm_outcomes pm"
  "pm_stdin (notify_frame c now f pm) = pm_stdin pm"
  "ac_init (pm_acp (notify_frame c now f pm)) = ac_init (pm_acp pm)"
  by (simp_all add: notify_frame_def Let_def emit_push_stage end_progress_stage maybe_notify_stage split: option.split)

lemma swallowed_stage [stage]:
  "pm_ids (notify_swallowed_failure c p og pm) = pm_ids pm"
  "pm_outcomes (notify_swallowed_failure c p og pm) = pm_outcomes pm"
  "pm_stdin (notify_swallowed_failure c p og pm) = pm_stdin pm"
  "pm_acp (notify_swallowed_failure c p og pm) = pm_acp pm"
  by (simp_all add: notify_swallowed_failure_def emit_push_stage)

lemma forget_prompt_stage [stage]:
  "pm_ids (pump_forget_prompt s i q pm) = pm_ids pm" "pm_outcomes (pump_forget_prompt s i q pm) = pm_outcomes pm"
  "pm_stdin (pump_forget_prompt s i q pm) = pm_stdin pm" "pm_acp (pump_forget_prompt s i q pm) = pm_acp pm"
  by (simp_all add: pump_forget_prompt_def)

lemma forget_rejected_stage [stage]:
  "pm_ids (forget_rejected f pm) = pm_ids pm" "pm_outcomes (forget_rejected f pm) = pm_outcomes pm"
  "pm_stdin (forget_rejected f pm) = pm_stdin pm" "pm_acp (forget_rejected f pm) = pm_acp pm"
  by (simp_all add: forget_rejected_def stage split: option.split)

lemma observe_stage [stage]:
  "pm_ids (fst (observe_acp_state u c f pm)) = pm_ids pm"
  "pm_outcomes (fst (observe_acp_state u c f pm)) = pm_outcomes pm"
  "pm_stdin (fst (observe_acp_state u c f pm)) = pm_stdin pm"
  "pm_acp (fst (observe_acp_state u c f pm)) = fst (observe_frame u f (pm_acp pm))"
  by (simp_all add: observe_acp_state_def Let_def split_beta stage split: option.split)

lemma recovery_stage [stage]:
  "pm_ids (fst (apply_load_recovery f pm)) = pm_ids pm"
  "pm_outcomes (fst (apply_load_recovery f pm)) = pm_outcomes pm"
  "pm_stdin (fst (apply_load_recovery f pm)) = pm_stdin pm" "pm_acp (fst (apply_load_recovery f pm)) = pm_acp pm"
  by (simp_all add: apply_load_recovery_def Let_def split_beta split: option.split)

lemma number_stage [stage]:
  "pm_ids (fst (number_frame u f pm)) = pm_ids pm" "pm_outcomes (fst (number_frame u f pm)) = pm_outcomes pm"
  "pm_stdin (fst (number_frame u f pm)) = pm_stdin pm" "pm_acp (fst (number_frame u f pm)) = pm_acp pm"
  by (simp_all add: number_frame_def Let_def split_beta split: option.split)

lemma keep_result_stage [stage]:
  "pm_ids (keep_turn_result now f pm) = pm_ids pm" "pm_outcomes (keep_turn_result now f pm) = pm_outcomes pm"
  "pm_stdin (keep_turn_result now f pm) = pm_stdin pm" "pm_acp (keep_turn_result now f pm) = pm_acp pm"
  "pm_link (keep_turn_result now f pm) = pm_link pm"
  by (simp_all add: keep_turn_result_def split: option.split)

lemma restore_stage [stage]:
  "pm_ids (fst (restore_locked sid out pm)) = fst (redeliver (ln_gen (pm_link pm)) sid out (pm_ids pm))"
  "pm_outcomes (fst (restore_locked sid out pm)) = pm_outcomes pm"
  "pm_stdin (fst (restore_locked sid out pm)) = pm_stdin pm" "pm_acp (fst (restore_locked sid out pm)) = pm_acp pm"
  "pm_link (fst (restore_locked sid out pm)) = pm_link pm"
  by (simp_all add: restore_locked_def Let_def split_beta split: option.split)

lemma forward_stage [stage]:
  "pm_outcomes (forward u now f pm) = pm_outcomes pm" "pm_stdin (forward u now f pm) = pm_stdin pm"
  "pm_acp (forward u now f pm) = pm_acp pm"
  by (simp_all add: forward_def Let_def split_beta stage)

text \<open>The ids after the last stage: the reply, then redelivery and tracking.\<close>

lemma forward_ids:
  assumes "ids_inv (pm_ids pm)" "fr_out f \<noteq> []"
  shows "ids_inv (pm_ids (forward u now f pm))"
    and "prompts_pending (pm_ids pm) =
      prompts_pending (pm_ids (forward u now f pm)) + origin_weight (peek (fr_probe f) (pm_ids pm))"
proof -
  have keep: "fr_probe (snd (number_frame u f pm)) = fr_probe f" "fr_out (snd (number_frame u f pm)) \<noteq> []"
    using assms(2) by (simp_all add: number_frame_def Let_def split_beta split: option.split)
  show "ids_inv (pm_ids (forward u now f pm))"
    using assms(1) by (simp add: forward_def Let_def split_beta stage ids_inv_track ids_inv_redeliver ids_inv_reply)
  show "prompts_pending (pm_ids pm) =
      prompts_pending (pm_ids (forward u now f pm)) + origin_weight (peek (fr_probe f) (pm_ids pm))"
    using pending_reply [OF assms(1) keep(2), of "ln_gen (pm_link (fst (number_frame u f pm)))" now "fr_probe f"]
    by (simp add: forward_def Let_def split_beta stage keep(1))
qed

section \<open>One agent line\<close>

text \<open>A JSON-RPC frame is a request or a response, not both.\<close>

definition proper_line :: "sdk \<Rightarrow> wire \<Rightarrow> bool" where
  "proper_line u line \<longleftrightarrow> (case parse_frame_probe u line of None \<Rightarrow> True | Some p \<Rightarrow> fp_method p = [] \<or> fp_result p = None)"

lemma parse_id_not_null: "parse_frame_probe u line = Some p \<Longrightarrow> fp_id p \<noteq> Some JNull"
  by (auto simp: parse_frame_probe_def no_probe_def Let_def bind_eq_Some_conv split: option.splits json.splits)

lemma parse_swallowed:
  assumes "swallowed_failure_frame probe = Some w" "fp_id probe \<noteq> Some JNull"
  shows "\<exists>p. parse_frame_probe u w = Some p \<and> fp_id p = fp_id probe \<and> fp_method p = []"
proof -
  obtain i where i: "fp_id probe = Some i" using assms(1) by (cases "fp_id probe") (simp_all add: swallowed_failure_frame_def)
  let ?err = "JObj [(''code'', JNum ''-32000''), (''message'', JStr swallowed_message)]"
  let ?kvs = "[(''error'', ?err), (''id'', i), (''jsonrpc'', JStr ''2.0'')]"
  have w: "wire_json w = Some (JObj ?kvs)"
    using assms(1) i by (auto simp: swallowed_failure_frame_def marshal_def)
  have m: "member k (JObj ?kvs) = map_of ?kvs k" for k by (simp add: member_def fields_of_def)
  have e: "get_string ''message'' ?err = Some swallowed_message"
    by (simp add: get_string_def member_def fields_of_def)
  have g: "get_string ''method'' (JObj ?kvs) = Some []" "get_object ''result'' (decode_result u) (JObj ?kvs) = Some None"
    "get_object ''params'' decode_params (JObj ?kvs) = Some None"
    "get_object ''error'' (get_string ''message'') (JObj ?kvs) = Some (Some swallowed_message)"
    unfolding get_string_def [of "''method''"] get_object_def m using e by simp_all
  have id: "(case member ''id'' (JObj ?kvs) of Some JNull \<Rightarrow> None | x \<Rightarrow> x) = Some i"
    unfolding m using assms(2) i by (cases i) simp_all
  show ?thesis unfolding parse_frame_probe_def w option.case json.case Let_def g id by (simp add: i)
qed

lemma observe_turn_swallowed: "snd (acp_observe_turn probe og a) \<Longrightarrow> fp_result probe \<noteq> None"
  by (auto simp: acp_observe_turn_def split: option.splits)

lemma observe_swallowed_result:
  "snd (observe_acp_state u c f pm) = f \<or>
   (\<exists>w. swallowed_failure_frame (fr_probe f) = Some w \<and> snd (observe_acp_state u c f pm) = replace_frame u w f \<and>
      fp_result (fr_probe f) \<noteq> None)"
proof (cases "snd (observe_frame u f (pm_acp (forget_rejected f pm)))")
  case True
  then have "fp_result (fr_probe f) \<noteq> None" unfolding observe_frame_def by (rule observe_turn_swallowed)
  with True show ?thesis by (simp add: observe_acp_state_def Let_def split_beta split: option.split)
qed (simp add: observe_acp_state_def Let_def split_beta)

lemma peek_cong: "fp_id p = fp_id q \<Longrightarrow> fp_method p = fp_method q \<Longrightarrow> peek p r = peek q r"
  by (simp add: peek_def split: option.split)

lemma observe_keeps:
  assumes "f = new_frame u line pm0" "proper_line u line"
  shows "fr_origin (snd (observe_acp_state u c f pm)) = fr_origin f \<and>
    fr_out (snd (observe_acp_state u c f pm)) \<noteq> [] \<and>
    peek (fr_probe (snd (observe_acp_state u c f pm))) r = peek (fr_probe f) r"
  using observe_swallowed_result [of u c f pm]
proof
  assume "snd (observe_acp_state u c f pm) = f"
  then show ?thesis using assms(1) by (simp add: new_frame_def Let_def)
next
  assume "\<exists>w. swallowed_failure_frame (fr_probe f) = Some w \<and> snd (observe_acp_state u c f pm) = replace_frame u w f \<and>
      fp_result (fr_probe f) \<noteq> None"
  then obtain w where w: "swallowed_failure_frame (fr_probe f) = Some w"
    "snd (observe_acp_state u c f pm) = replace_frame u w f" "fp_result (fr_probe f) \<noteq> None" by blast
  have "parse_frame_probe u line = Some (fr_probe f)" using assms(1) w(3)
    by (auto simp: new_frame_def Let_def no_probe_def split: option.splits)
  then have "fp_id (fr_probe f) \<noteq> Some JNull" "fp_method (fr_probe f) = []"
    using parse_id_not_null assms(2) w(3) by (auto simp: proper_line_def)
  with parse_swallowed [OF w(1), of u] obtain p where
    "parse_frame_probe u w = Some p" "fp_id p = fp_id (fr_probe f)" "fp_method p = fp_method (fr_probe f)" by auto
  then show ?thesis unfolding w(2) using peek_cong [of p "fr_probe f"] by (simp add: replace_frame_def Let_def)
qed

lemma recovery_frame:
  "fr_origin (snd (apply_load_recovery f pm)) = fr_origin f" "fr_probe (snd (apply_load_recovery f pm)) = fr_probe f"
  "fr_out f \<noteq> [] \<Longrightarrow> fr_out (snd (apply_load_recovery f pm)) \<noteq> []"
  by (auto simp: apply_load_recovery_def on_frame_def Let_def split_beta split: option.splits)

lemma record_outcome_stage [stage]:
  "pm_ids (record_outcome c now f pm) = pm_ids pm" "pm_stdin (record_outcome c now f pm) = pm_stdin pm"
  "pm_acp (record_outcome c now f pm) = pm_acp pm"
  by (simp_all add: record_outcome_def Let_def split: option.split)

lemma record_outcome_count:
  "pc_finish c \<Longrightarrow> length (pm_outcomes (record_outcome c now f pm)) = length (pm_outcomes pm) + origin_weight (fr_origin f)"
  by (simp add: record_outcome_def origin_weight_def Let_def split: option.split)

lemma handle_line:
  assumes "ids_inv (pm_ids pm)" "proper_line u line" "pc_finish c"
  shows "ids_inv (pm_ids (handle_stdout_line u c now line pm))"
    and "length (pm_outcomes (handle_stdout_line u c now line pm)) + prompts_pending (pm_ids (handle_stdout_line u c now line pm))
         = length (pm_outcomes pm) + prompts_pending (pm_ids pm)"
    and "pm_stdin (handle_stdout_line u c now line pm) = pm_stdin pm"
proof -
  let ?pm = "pm\<lparr>pm_last_stdout := now\<rparr>"
  define f where "f = new_frame u line ?pm"
  define f1 where "f1 = snd (observe_acp_state u c f ?pm)"
  define pm1 where "pm1 = fst (observe_acp_state u c f ?pm)"
  define pm2 where "pm2 = record_outcome c now f1 pm1"
  define f2 where "f2 = snd (apply_load_recovery f1 pm2)"
  define pm5 where "pm5 = notify_frame c now f2 (fst (apply_load_recovery f1 pm2)\<lparr>pm_acp :=
     accept_session (fr_probe f2) (fr_origin f2) (fr_resumed f2) (pm_acp (fst (apply_load_recovery f1 pm2)))\<rparr>)"
  have h: "handle_stdout_line u c now line pm = forward u now f2 pm5"
    by (simp add: handle_stdout_line_def judge_line_def Let_def split_beta f_def f1_def pm1_def pm2_def f2_def pm5_def)
  have ids: "pm_ids pm5 = pm_ids pm" by (simp add: pm5_def pm2_def pm1_def stage)
  note k = observe_keeps [OF f_def assms(2), of c ?pm "pm_ids pm", folded f1_def]
  have out: "fr_out f2 \<noteq> []" using k recovery_frame(3) by (simp add: f2_def)
  have org: "peek (fr_probe f2) (pm_ids pm) = fr_origin f1"
    using k by (simp add: f2_def recovery_frame) (simp add: f_def new_frame_def Let_def)
  note fw = forward_ids [of pm5 f2 u now, unfolded ids org, OF assms(1) out]
  show "ids_inv (pm_ids (handle_stdout_line u c now line pm))" unfolding h by (rule fw(1))
  have "length (pm_outcomes pm5) = length (pm_outcomes pm) + origin_weight (fr_origin f1)"
    by (simp add: pm5_def pm2_def stage record_outcome_count [OF assms(3)]) (simp add: pm1_def stage)
  then show "length (pm_outcomes (handle_stdout_line u c now line pm)) + prompts_pending (pm_ids (handle_stdout_line u c now line pm))
         = length (pm_outcomes pm) + prompts_pending (pm_ids pm)"
    using fw(2) unfolding h by (simp add: stage)
  show "pm_stdin (handle_stdout_line u c now line pm) = pm_stdin pm"
    unfolding h by (simp add: stage pm5_def pm2_def pm1_def)
qed

section \<open>One client frame\<close>

lemma replay_stage [stage]:
  "pm_ids (fst (replay_initialize gen f pm)) = pm_ids pm" "pm_outcomes (fst (replay_initialize gen f pm)) = pm_outcomes pm"
  "pm_stdin (fst (replay_initialize gen f pm)) = pm_stdin pm" "pm_acp (fst (replay_initialize gen f pm)) = pm_acp pm"
  by (simp_all add: replay_initialize_def pump_reply_def split: option.split)

lemma duplicate_stage [stage]:
  "pm_ids (fst (drop_duplicate_prompt gen f pm)) = pm_ids pm"
  "pm_outcomes (fst (drop_duplicate_prompt gen f pm)) = pm_outcomes pm"
  "pm_stdin (fst (drop_duplicate_prompt gen f pm)) = pm_stdin pm" "pm_acp (fst (drop_duplicate_prompt gen f pm)) = pm_acp pm"
  by (simp_all add: drop_duplicate_prompt_def pump_reply_def Let_def split_beta)

lemma catch_up_answer_stage [stage]:
  "pm_outcomes (fst (catch_up_answer u i sid req lr pm)) = pm_outcomes pm"
  "pm_stdin (fst (catch_up_answer u i sid req lr pm)) = pm_stdin pm" "pm_acp (fst (catch_up_answer u i sid req lr pm)) = pm_acp pm"
  "prompts_pending (pm_ids (fst (catch_up_answer u i sid req lr pm))) = prompts_pending (pm_ids pm)"
  by (simp_all add: catch_up_answer_def Let_def split_beta stage)

lemma catch_up_answer_inv: "ids_inv (pm_ids pm) \<Longrightarrow> ids_inv (pm_ids (fst (catch_up_answer u i sid req lr pm)))"
  by (simp add: catch_up_answer_def Let_def split_beta stage ids_inv_redeliver)

lemma answer_catch_up_stage [stage]:
  "pm_outcomes (fst (answer_catch_up u gen f pm)) = pm_outcomes pm"
  "pm_stdin (fst (answer_catch_up u gen f pm)) = pm_stdin pm"
  "prompts_pending (pm_ids (fst (answer_catch_up u gen f pm))) = prompts_pending (pm_ids pm)"
  "ac_init (pm_acp (fst (answer_catch_up u gen f pm))) = ac_init (pm_acp pm)"
  by (simp_all add: answer_catch_up_def Let_def split_beta stage acp_frame split: option.split)

lemma answer_catch_up_inv: "ids_inv (pm_ids pm) \<Longrightarrow> ids_inv (pm_ids (fst (answer_catch_up u gen f pm)))"
  by (auto simp: answer_catch_up_def Let_def split_beta catch_up_answer_inv split: option.split)

lemma prepare_stage [stage]:
  "pm_outcomes (fst (prepare_outbound gen now f pm)) = pm_outcomes pm"
  "pm_stdin (fst (prepare_outbound gen now f pm)) = pm_stdin pm"
  "pm_ids (fst (prepare_outbound gen now f pm)) = fst (outbound gen now f (pm_ids pm))"
  "snd (prepare_outbound gen now f pm) = snd (outbound gen now f (pm_ids pm))"
  "ac_init (pm_acp (fst (prepare_outbound gen now f pm))) = ac_init (pm_acp pm)"
  by (simp_all add: prepare_outbound_def Let_def split_beta acp_frame)

lemma undo_stage [stage]:
  "pm_outcomes (undo_write f pm) = pm_outcomes pm" "pm_stdin (undo_write f pm) = pm_stdin pm"
  "pm_acp (undo_write f pm) = pm_acp pm"
  "pm_ids (undo_write f pm) = (case cf_id f of Some i \<Rightarrow> if cf_method f \<noteq> [] then discard i (pm_ids pm) else pm_ids pm
     | None \<Rightarrow> pm_ids pm)"
  by (simp_all add: undo_write_def Let_def stage split: option.split)

text \<open>A prompt request counts as delivered when its frame is written to the agent.\<close>

definition delivers_prompt :: "sdk \<Rightarrow> pump_config \<Rightarrow> pump \<Rightarrow> pump_event \<Rightarrow> nat" where
  "delivers_prompt u c pm e =
     (case e of
        EvWrite gen now payload ok \<Rightarrow>
          if prompt_request (parse_client_frame payload) \<and>
             length (pm_stdin (pump_step u c pm e)) = Suc (length (pm_stdin pm)) then 1 else 0
      | _ \<Rightarrow> 0)"

lemma write_accounts:
  assumes inv: "ids_inv (pm_ids pm)"
  shows "ids_inv (pm_ids (fst (write_to_agent u gen now payload ok pm)))"
    and "length (pm_outcomes (fst (write_to_agent u gen now payload ok pm)))
           + prompts_pending (pm_ids (fst (write_to_agent u gen now payload ok pm)))
         = length (pm_outcomes pm) + prompts_pending (pm_ids pm) + delivers_prompt u c pm (EvWrite gen now payload ok)"
proof -
  define f where "f = parse_client_frame payload"
  define pm1 where "pm1 = fst (replay_initialize gen f pm)"
  define pm2 where "pm2 = fst (answer_catch_up u gen f pm1)"
  define pm3 where "pm3 = fst (drop_duplicate_prompt gen f pm2)"
  define r where "r = pm_ids pm3"
  define f' where "f' = snd (outbound gen now f r)"
  let ?w = "fst (write_to_agent u gen now payload ok pm)"
  have inv2: "ids_inv (pm_ids pm2)" using inv by (simp add: pm2_def pm1_def answer_catch_up_inv stage)
  have inv3: "ids_inv r" using inv2 by (simp add: r_def pm3_def stage)
  have pend: "prompts_pending (pm_ids pm1) = prompts_pending (pm_ids pm)"
    "prompts_pending (pm_ids pm2) = prompts_pending (pm_ids pm)" "prompts_pending r = prompts_pending (pm_ids pm)"
    by (simp_all add: r_def pm3_def pm2_def pm1_def stage)
  have outc: "pm_outcomes pm1 = pm_outcomes pm" "pm_outcomes pm2 = pm_outcomes pm" "pm_outcomes pm3 = pm_outcomes pm"
    "pm_stdin pm1 = pm_stdin pm" "pm_stdin pm2 = pm_stdin pm" "pm_stdin pm3 = pm_stdin pm"
    by (simp_all add: pm3_def pm2_def pm1_def stage)
  consider (handled) "?w \<in> {pm1, pm2, pm3}"
    | (sent) "?w = (fst (prepare_outbound gen now f pm3))\<lparr>pm_stdin := pm_stdin pm3 @ [cf_raw f']\<rparr>"
    | (failed) "?w = undo_write f' (fst (prepare_outbound gen now f pm3))"
    by (cases "snd (replay_initialize gen f pm)"; cases "snd (answer_catch_up u gen f pm1)";
        cases "snd (drop_duplicate_prompt gen f pm2)"; cases ok)
      (auto simp: write_to_agent_def Let_def split_beta f_def pm1_def pm2_def pm3_def f'_def r_def stage)
  then have "ids_inv (pm_ids ?w) \<and> length (pm_outcomes ?w) + prompts_pending (pm_ids ?w)
         = length (pm_outcomes pm) + prompts_pending (pm_ids pm) + delivers_prompt u c pm (EvWrite gen now payload ok)"
  proof cases
    case handled
    then have "length (pm_stdin ?w) = length (pm_stdin pm)" using outc by auto
    then have "delivers_prompt u c pm (EvWrite gen now payload ok) = 0" by (simp add: delivers_prompt_def)
    moreover have "ids_inv (pm_ids ?w)" using handled inv inv2 inv3 by (auto simp: pm1_def stage r_def)
    ultimately show ?thesis using handled pend outc by (auto simp: r_def)
  next
    case sent
    have d: "delivers_prompt u c pm (EvWrite gen now payload ok) = (if prompt_request f then 1 else 0)"
      using outc by (simp add: delivers_prompt_def sent f_def)
    show ?thesis
    proof (cases "cf_fields f")
      case None
      then have "cf_method f = []" "fst (outbound gen now f r) = r"
        using parse_prompt_fields by (simp_all add: f_def outbound_def)
      then show ?thesis using d inv3 pend outc unfolding sent by (simp add: stage r_def [symmetric] prompt_request_def)
    next
      case (Some m)
      then show ?thesis using d pending_outbound [OF inv3, of f gen now] ids_inv_outbound [OF inv3] pend outc
        unfolding sent by (simp add: stage r_def [symmetric])
    qed
  next
    case failed
    have d: "delivers_prompt u c pm (EvWrite gen now payload ok) = 0"
      using outc by (simp add: delivers_prompt_def failed stage)
    show ?thesis
    proof (cases "cf_fields f = None \<or> cf_method f = [] \<or> cf_id f' = None")
      case True
      have "prompts_pending (fst (outbound gen now f r)) = prompts_pending r"
      proof (cases "cf_fields f")
        case (Some m)
        then have "\<not> prompt_request f"
          using True outbound_frame [of gen now f r] by (auto simp: prompt_request_def f'_def)
        then show ?thesis using pending_outbound [OF inv3, of f gen now] Some by simp
      qed (simp add: outbound_def)
      moreover have "cf_method f' = [] \<or> cf_id f' = None"
        using True parse_prompt_fields [of payload] outbound_frame [of gen now f r] by (auto simp: f_def f'_def)
      ultimately show ?thesis using d pend outc ids_inv_outbound [OF inv3] unfolding failed
        by (auto simp: stage r_def [symmetric] split: option.split)
    next
      case False
      then obtain i where i: "cf_id f' = Some i" "cf_fields f \<noteq> None" "cf_method f \<noteq> []" "cf_method f' \<noteq> []"
        using outbound_frame [of gen now f r] by (auto simp: f'_def)
      have "prompts_pending (discard i (fst (outbound gen now f r))) = prompts_pending r"
        using i by (intro pending_outbound_discard [OF inv3]) (auto simp: f'_def)
      then show ?thesis using d pend outc i ids_inv_outbound [OF inv3] ids_inv_discard unfolding failed
        by (simp add: stage r_def [symmetric])
    qed
  qed
  then show "ids_inv (pm_ids ?w)" "length (pm_outcomes ?w) + prompts_pending (pm_ids ?w)
         = length (pm_outcomes pm) + prompts_pending (pm_ids pm) + delivers_prompt u c pm (EvWrite gen now payload ok)"
    by blast+
qed

section \<open>The pump invariant\<close>

definition pump_inv :: "pump \<Rightarrow> bool" where
  "pump_inv pm \<longleftrightarrow> ids_inv (pm_ids pm) \<and>
     (case ac_init (pm_acp pm) of None \<Rightarrow> True | Some w \<Rightarrow> wire_fields w \<noteq> None)"

definition proper_event :: "sdk \<Rightarrow> pump_event \<Rightarrow> bool" where
  "proper_event u e \<longleftrightarrow> (case e of EvStdout now line \<Rightarrow> proper_line u line | _ \<Rightarrow> True)"

lemma finish_accounts:
  assumes "ids_inv (pm_ids pm)"
  shows "ids_inv (pm_ids (finish_pending_turns c now state pm))"
    and "pc_finish c \<Longrightarrow> length (pm_outcomes (finish_pending_turns c now state pm))
        + prompts_pending (pm_ids (finish_pending_turns c now state pm)) = length (pm_outcomes pm) + prompts_pending (pm_ids pm)"
  using pending_take [OF assms] ids_inv_take [OF assms] assms
  by (simp_all add: finish_pending_turns_def split_beta Let_def)

lemma parse_result_fields:
  "parse_frame_probe u w = Some p \<Longrightarrow> fp_result p \<noteq> None \<Longrightarrow> wire_fields w \<noteq> None"
  by (auto simp: parse_frame_probe_def no_probe_def wire_fields_def fields_of_def split: option.splits json.splits)

lemma handle_init:
  "ac_init (pm_acp (handle_stdout_line u c now line pm)) =
     ac_init (observe_initialize u (fr_probe (new_frame u line (pm\<lparr>pm_last_stdout := now\<rparr>))) line (pm_acp pm))"
proof -
  have "fr_line (new_frame u line (pm\<lparr>pm_last_stdout := now\<rparr>)) = line" by (simp add: new_frame_def Let_def)
  then show ?thesis by (simp add: handle_stdout_line_def judge_line_def Let_def split_beta stage acp_frame observe_frame_def)
qed

lemma observe_initialize_fields:
  assumes "case ac_init a of None \<Rightarrow> True | Some w \<Rightarrow> wire_fields w \<noteq> None"
    and "fp_result probe \<noteq> None \<Longrightarrow> wire_fields line \<noteq> None"
  shows "case ac_init (observe_initialize u probe line a) of None \<Rightarrow> True | Some w \<Rightarrow> wire_fields w \<noteq> None"
proof (cases "ac_init (observe_initialize u probe line a) = ac_init a")
  case False
  then have "ac_init (observe_initialize u probe line a) = Some line" "fp_result probe \<noteq> None"
    by (auto simp: observe_initialize_def Let_def split: option.splits if_splits)
  then show ?thesis using assms(2) by simp
qed (use assms(1) in simp)

lemma link_event_fields:
  "pm_ids (pm\<lparr>pm_link := l\<rparr>) = pm_ids pm" "pm_outcomes (pm\<lparr>pm_link := l\<rparr>) = pm_outcomes pm"
  by simp_all

lemma write_init: "ac_init (pm_acp (fst (write_to_agent u gen now payload ok pm))) = ac_init (pm_acp pm)"
  by (simp add: write_to_agent_def Let_def split_beta stage)

lemma pump_inv_step: "pump_inv pm \<Longrightarrow> proper_event u e \<Longrightarrow> pc_finish c \<Longrightarrow> pump_inv (pump_step u c pm e)"
proof (cases e)
  case (EvStdout now line)
  assume inv: "pump_inv pm" and "proper_event u e" and fin: "pc_finish c"
  then have pl: "proper_line u line" using EvStdout by (simp add: proper_event_def)
  have res: "fp_result (fr_probe (new_frame u line pm')) \<noteq> None \<Longrightarrow> wire_fields line \<noteq> None" for pm'
    by (cases "parse_frame_probe u line")
      (auto simp: new_frame_def Let_def no_probe_def dest: parse_result_fields)
  have "ids_inv (pm_ids pm)" using inv by (simp add: pump_inv_def)
  from handle_line(1) [OF this pl fin] observe_initialize_fields [OF _ res] inv show ?thesis
    by (simp add: EvStdout pump_inv_def handle_init)
next
  case (EvWrite gen now payload ok)
  assume "pump_inv pm"
  then show ?thesis using write_accounts(1) by (simp add: EvWrite pump_inv_def write_init)
next
  case (EvTimer now acp)
  assume "pump_inv pm"
  then show ?thesis by (simp add: EvTimer pump_inv_def stage)
next
  case (EvFinish now state)
  assume "pump_inv pm"
  then show ?thesis using finish_accounts(1) by (auto simp: EvFinish pump_inv_def finish_pending_turns_def split_beta Let_def ids_inv_take)
qed (simp_all add: pump_inv_def write_session_close_def)

lemma pump_inv_new: "pump_inv (new_pump lr)"
  by (simp add: pump_inv_def new_pump_def ids_inv_new new_acp_state_def)

interpretation pump_machine: invariant_machine "pump_step u c" pump_inv "\<lambda>e. proper_event u e \<and> pc_finish c"
  by unfold_locales (auto intro: pump_inv_step)

lemma pump_inv_run: "list_all (proper_event u) es \<Longrightarrow> pc_finish c \<Longrightarrow> pump_inv (run (pump_step u c) (new_pump lr) es)"
  by (rule pump_machine.run_inv [OF pump_inv_new]) (simp add: list_all_iff)

section \<open>Properties\<close>

fun prompts_delivered :: "sdk \<Rightarrow> pump_config \<Rightarrow> pump \<Rightarrow> pump_event list \<Rightarrow> nat" where
  "prompts_delivered u c pm [] = 0"
| "prompts_delivered u c pm (e # es) = delivers_prompt u c pm e + prompts_delivered u c (pump_step u c pm e) es"

lemma step_accounts:
  assumes "pump_inv pm" "proper_event u e" "pc_finish c"
  shows "length (pm_outcomes (pump_step u c pm e)) + prompts_pending (pm_ids (pump_step u c pm e))
    = length (pm_outcomes pm) + prompts_pending (pm_ids pm) + delivers_prompt u c pm e"
proof (cases e)
  case (EvStdout now line)
  then have "proper_line u line" using assms(2) by (simp add: proper_event_def)
  with handle_line(2) [OF _ this assms(3)] assms(1) show ?thesis
    by (simp add: EvStdout pump_inv_def delivers_prompt_def)
next
  case (EvWrite gen now payload ok)
  then show ?thesis using write_accounts(2) [of pm u gen now payload ok c] assms(1) by (simp add: pump_inv_def)
next
  case (EvFinish now state)
  then show ?thesis using finish_accounts(2) assms(1,3) by (simp add: pump_inv_def delivers_prompt_def)
qed (simp_all add: delivers_prompt_def stage write_session_close_def)

lemma run_accounts:
  "pump_inv pm \<Longrightarrow> list_all (proper_event u) es \<Longrightarrow> pc_finish c \<Longrightarrow>
     length (pm_outcomes (run (pump_step u c) pm es)) + prompts_pending (pm_ids (run (pump_step u c) pm es))
     = length (pm_outcomes pm) + prompts_pending (pm_ids pm) + prompts_delivered u c pm es"
proof (induction es arbitrary: pm)
  case (Cons e es)
  then have "pump_inv (pump_step u c pm e)" by (intro pump_inv_step) auto
  from Cons.IH [OF this] Cons.prems step_accounts [of pm u e c] show ?case by simp
qed simp

text \<open>
  Every prompt is accounted for exactly once while the handlers run one after the other: after any sequence of
  agent output, client frames, reconnects, failed writes and teardown, the prompts that were handed to the agent
  are those still awaiting their reply plus those whose outcome was reported, one report each; a prompt whose
  write failed or that was refused as a repeat leaves neither.
\<close>

theorem prompt_outcomes_balance:
  assumes "list_all (proper_event u) es" and "pc_finish c"
  shows "length (pm_outcomes (run (pump_step u c) (new_pump lr) es))
      + prompts_pending (pm_ids (run (pump_step u c) (new_pump lr) es))
    = prompts_delivered u c (new_pump lr) es"
  using run_accounts [OF pump_inv_new assms] by (simp add: new_pump_def new_request_ids_def prompts_pending_def)

definition ex_config :: pump_config where
  "ex_config = \<lparr>pc_runtime = ''r'', pc_session = ''g'', pc_agent = ''a'', pc_interval = 0, pc_push = True, pc_finish = True\<rparr>"

definition ex_prompt_payload :: wire where
  "ex_prompt_payload = marshal (JObj [(''id'', JNum ''7''), (''method'', JStr ''session/prompt''),
     (''params'', JObj [(''sessionId'', JStr ''s'')])])"

definition ex_prompt_answer :: wire where
  "ex_prompt_answer = marshal (JObj [(''id'', JNum ''1''), (''result'', JObj [(''stopReason'', JStr ''cancelled'')])])"

theorem prompt_outcomes_balance_witness:
  "length (pm_outcomes (run (pump_step null_sdk ex_config) (new_pump None)
       [EvWrite 0 5 ex_prompt_payload True, EvStdout 9 ex_prompt_answer]))
    + prompts_pending (pm_ids (run (pump_step null_sdk ex_config) (new_pump None)
       [EvWrite 0 5 ex_prompt_payload True, EvStdout 9 ex_prompt_answer]))
   = prompts_delivered null_sdk ex_config (new_pump None) [EvWrite 0 5 ex_prompt_payload True, EvStdout 9 ex_prompt_answer]"
proof (rule prompt_outcomes_balance)
  have "proper_line null_sdk ex_prompt_answer" by code_simp
  then show "list_all (proper_event null_sdk) [EvWrite 0 5 ex_prompt_payload True, EvStdout 9 ex_prompt_answer]"
    by (simp add: proper_event_def)
qed (simp add: ex_config_def)

text \<open>
  When the handlers overlap, a turn may be reported twice: the session is torn down while a reply is between the
  stage that reports its outcome and the one that takes its request off the table.
\<close>

theorem turn_reported_twice:
  "(case judge_line null_sdk ex_config 9 ex_prompt_answer (run (pump_step null_sdk ex_config) (new_pump None) [EvWrite 0 5 ex_prompt_payload True]) of
      (pm, f) \<Rightarrow> map (\<lambda>st. (st_session st, st_state st)) (pm_outcomes (forward null_sdk 9 f (finish_pending_turns ex_config 9 StateFailed pm))))
   = [(''s'', StateCancelled), (''s'', StateFailed)]"
  by code_simp

text \<open>
  The agent is initialized once: from the moment its initialize response passed through the pump, a
  client's \<^verbatim>\<open>initialize\<close> never reaches it again; the current connection is answered with the cached
  response under its own request id, all other members unchanged.
\<close>

theorem duplicate_initialize_answered:
  assumes "list_all (proper_event u) es" "pc_finish c" and "pm = run (pump_step u c) (new_pump lr) es"
    and "ac_init (pm_acp pm) = Some cached"
    and "cf_method (parse_client_frame payload) = ''initialize''"
  shows "\<exists>out. write_to_agent u gen now payload ok pm = (pump_reply gen [out] pm, True) \<and>
    pm_stdin (pump_reply gen [out] pm) = pm_stdin pm \<and>
    (\<forall>k. wire_member k out = (if k = ''id'' \<and> cf_id (parse_client_frame payload) \<noteq> None
        then cf_id (parse_client_frame payload) else wire_member k cached))"
proof -
  let ?f = "parse_client_frame payload"
  have "pump_inv pm" using pump_inv_run [OF assms(1,2)] assms(3) by simp
  then obtain m where m: "wire_fields cached = Some m" using assms(4) by (auto simp: pump_inv_def)
  have "\<exists>out. rewrite_response_id cached (cf_id ?f) = Some out \<and>
    (\<forall>k. wire_member k out = (if k = ''id'' \<and> cf_id ?f \<noteq> None then cf_id ?f else wire_member k cached))"
  proof (cases "cf_id ?f")
    case None
    have "keys_distinct m" using m by (auto dest: wire_fields_distinct)
    then show ?thesis using m by (auto simp: None rewrite_response_id_def wire_member_marshal) (simp add: wire_member_def)
  next
    case (Some i)
    have "wire_member k cached = map_of m k" for k using m by (simp add: wire_member_def)
    then show ?thesis using rewrite_id_member [OF m, of i] by (auto simp: Some)
  qed
  then obtain out where out: "rewrite_response_id cached (cf_id ?f) = Some out"
    "\<forall>k. wire_member k out = (if k = ''id'' \<and> cf_id ?f \<noteq> None then cf_id ?f else wire_member k cached)" by blast
  have "write_to_agent u gen now payload ok pm = (pump_reply gen [out] pm, True)"
    using assms(4,5) out(1) by (simp add: write_to_agent_def replay_initialize_def Let_def)
  then show ?thesis using out(2) by (intro exI [of _ out]) (simp add: pump_reply_def)
qed

definition ex_init_answer :: wire where
  "ex_init_answer = marshal (JObj [(''id'', JNum ''1''), (''result'', JObj [(''protocolVersion'', JNum ''1'')])])"

definition ex_init_payload :: wire where
  "ex_init_payload = marshal (JObj [(''id'', JNum ''4''), (''method'', JStr ''initialize'')])"

theorem duplicate_initialize_answered_witness:
  "pm_stdin (fst (write_to_agent null_sdk 0 9 ex_init_payload True
      (run (pump_step null_sdk ex_config) (new_pump None) [EvStdout 5 ex_init_answer]))) = []"
proof -
  let ?pm = "run (pump_step null_sdk ex_config) (new_pump None) [EvStdout 5 ex_init_answer]"
  have "fp_method (the (parse_frame_probe null_sdk ex_init_answer)) = []"
    "map_option (\<lambda>p. map_option pr_protocol_version (fp_result p)) (parse_frame_probe null_sdk ex_init_answer) = Some (Some True)"
    "cf_method (parse_client_frame ex_init_payload) = ''initialize''"
    by code_simp+
  then obtain p where p: "parse_frame_probe null_sdk ex_init_answer = Some p" "fp_method p = []"
    "map_option pr_protocol_version (fp_result p) = Some True" by auto
  have "ac_init (pm_acp ?pm) = Some ex_init_answer"
    using p(1,3) by (auto simp: handle_init new_frame_def observe_initialize_def new_pump_def new_acp_state_def
        Let_def typed_init_def null_sdk_def bind_eq_None_conv split: option.splits)
  moreover have "list_all (proper_event null_sdk) [EvStdout 5 ex_init_answer]" "pc_finish ex_config"
    using p by (simp_all add: proper_event_def proper_line_def ex_config_def)
  moreover have "pm_stdin ?pm = []"
    using handle_line(3) [of "new_pump None" null_sdk ex_init_answer ex_config 5] p
    by (simp add: new_pump_def ids_inv_new proper_line_def ex_config_def)
  ultimately show ?thesis
    using duplicate_initialize_answered [OF _ _ refl, of null_sdk "[EvStdout 5 ex_init_answer]" ex_config None
        ex_init_answer ex_init_payload 0 9 True] \<open>cf_method (parse_client_frame ex_init_payload) = _\<close> by auto
qed

text \<open>
  A turn that finishes while nobody is attached is not lost: the reply's outcome is kept for its chat,
  and the next load or resume that restores the chat delivers it immediately before its reply, once.
\<close>

theorem missed_turn_delivered_once:
  assumes "fr_origin f = Some p" "pq_method p = ''session/prompt''" "pq_prompt_session p = sid" "sid \<noteq> []"
    and "fp_result (fr_probe f) = Some res"
    and "\<not> bound (pm_link pm)" "pq_gen p = ln_gen (pm_link pm)"
    and "later = forward u now f pm"
  shows "snd (restore_locked sid (before @ [answer]) later) =
      before @ turn_result_frame sid \<lparr>tr_stop_reason = pr_stop_reason res, tr_usage = pr_usage res,
          tr_duration_ms = milliseconds (now - pq_started p)\<rparr>
      # answer # map ar_frame (filter (\<lambda>a. ar_session a = sid \<and> ar_delivered a \<noteq> ln_gen (pm_link pm)) (rq_agent_reqs (pm_ids later))) \<and>
    pm_results (fst (restore_locked sid (before @ [answer]) later)) sid = None"
proof -
  have nf: "fr_origin (snd (number_frame u f pm)) = fr_origin f" "fr_probe (snd (number_frame u f pm)) = fr_probe f"
    "pm_link (fst (number_frame u f pm)) = pm_link pm"
    by (simp_all add: number_frame_def Let_def split_beta split: option.split)
  have "restores (snd (number_frame u f pm)) pm' = False" for pm' using assms(1,2) nf by (simp add: restores_def)
  then have res: "pm_results later sid = Some \<lparr>tr_stop_reason = pr_stop_reason res, tr_usage = pr_usage res,
          tr_duration_ms = milliseconds (now - pq_started p)\<rparr>" and link: "pm_link later = pm_link pm"
    using assms nf by (auto simp: forward_def keep_turn_result_def Let_def split_beta store_turn_result_def)
  show ?thesis
    using res by (simp add: restore_locked_def Let_def split_beta take_turn_result_def redeliver_def redeliver_loop_out link)
qed

definition ex_finished :: frame where
  "ex_finished = \<lparr>fr_line = Wire ''x'' None, fr_probe = ex_end, fr_ok = True,
     fr_origin = Some (zero_pending\<lparr>pq_method := ''session/prompt'', pq_prompt_session := ''s''\<rparr>),
     fr_out = [Wire ''x'' None], fr_replaced = False, fr_resumed = False\<rparr>"

theorem missed_turn_delivered_once_witness:
  "\<exists>rest. snd (restore_locked ''s'' [Wire ''load'' None] (forward null_sdk 5000000 ex_finished (new_pump None))) =
     turn_result_frame ''s'' \<lparr>tr_stop_reason = ''end_turn'', tr_usage = None, tr_duration_ms = 5\<rparr> # Wire ''load'' None # rest"
  using missed_turn_delivered_once [of ex_finished "zero_pending\<lparr>pq_method := ''session/prompt'', pq_prompt_session := ''s''\<rparr>"
      "''s''" "the (fp_result ex_end)" "new_pump None" "forward null_sdk 5000000 ex_finished (new_pump None)" null_sdk 5000000
      "[]" "Wire ''load'' None"]
  by (simp add: ex_finished_def ex_end_def new_pump_def new_link_def bound_def zero_pending_def milliseconds_def)

text \<open>
  A progress timer that goes off late pushes an empty notification: when a tool call starts at the moment
  the throttle window ends and takes the lock before the timer does, its push clears the pending summary
  but leaves the timer armed, and the timer then pushes the empty text.
\<close>

theorem late_progress_timer_pushes_nothing:
  assumes "pm_progress pm acp = Some st" "ps_timer st = Some t" "t \<le> now" "acp \<noteq> []"
    and "0 < pc_interval c" "pc_interval c \<le> now - ps_at st"
    and "pu_status ev = ''in_progress''" "verb_for_kind (snd (tool_kind_for (pu_tool_call ev) (pu_kind ev) (pm_acp pm))) \<noteq> ps_summary st"
  shows "pe_body (last (pm_pushes (progress_timer c now acp (maybe_notify_progress c now acp ev pm)))) = [] \<and>
    length (pm_pushes (progress_timer c now acp (maybe_notify_progress c now acp ev pm))) = length (pm_pushes pm) + 2"
proof -
  have verb: "verb_for_kind k \<noteq> []" for k by (simp add: verb_for_kind_def)
  show ?thesis
    using assms verb [of "snd (tool_kind_for (pu_tool_call ev) (pu_kind ev) (pm_acp pm))"]
    by (simp add: maybe_notify_progress_def send_progress_def progress_timer_def emit_push_def Let_def split_beta)
qed

theorem late_progress_timer_pushes_nothing_witness:
  "pe_body (last (pm_pushes (progress_timer (ex_config\<lparr>pc_interval := 10\<rparr>) 20 ''s''
     (maybe_notify_progress (ex_config\<lparr>pc_interval := 10\<rparr>) 20 ''s''
       \<lparr>pu_discriminator = ''tool_call'', pu_tool_call = ''c'', pu_status = ''in_progress'', pu_kind = ''read''\<rparr>
       ((new_pump None)\<lparr>pm_progress := [''s'' \<mapsto> \<lparr>ps_at = 10, ps_summary = ''Searching'', ps_pending = ''Thinking'',
          ps_timer = Some 20\<rparr>]\<rparr>))))) = []"
  using late_progress_timer_pushes_nothing [of "(new_pump None)\<lparr>pm_progress := [''s'' \<mapsto> \<lparr>ps_at = 10,
      ps_summary = ''Searching'', ps_pending = ''Thinking'', ps_timer = Some 20\<rparr>]\<rparr>" "''s''"
      "\<lparr>ps_at = 10, ps_summary = ''Searching'', ps_pending = ''Thinking'', ps_timer = Some 20\<rparr>" 20 20
      "ex_config\<lparr>pc_interval := 10\<rparr>"
      "\<lparr>pu_discriminator = ''tool_call'', pu_tool_call = ''c'', pu_status = ''in_progress'', pu_kind = ''read''\<rparr>"]
  by (simp add: ex_config_def tool_kind_for_def verb_for_kind_def)

end
