(* ===== verification/Agent_Stdout.thy ===== *)
theory Agent_Stdout
  imports Prelude
begin

text \<open>
  \<^verbatim>\<open>readStdoutFrame\<close> of \<^verbatim>\<open>internal/session/pump.go\<close>: one newline-delimited line of agent output, kept up to
  a cap. \<^verbatim>\<open>bufio.Reader.ReadSlice\<close> hands out the line in fragments: full buffers, then the fragment
  that ends in the newline, or what was left when the read failed.
\<close>

definition max_agent_frame_bytes :: nat where "max_agent_frame_bytes = 64 * 1024 * 1024"

datatype read_err = ReadOk | BufferFull | ReadFailed

type_synonym fragment = "string \<times> read_err"

definition newline :: char where "newline = CHR 0x0A"

definition fragment_payload :: "string \<Rightarrow> string" where
  "fragment_payload frag = (if frag \<noteq> [] \<and> last frag = newline then butlast frag else frag)"

definition keep_fragment :: "nat \<Rightarrow> string \<Rightarrow> string \<Rightarrow> bool \<Rightarrow> string \<times> bool" where
  "keep_fragment cap frag buf dropped =
     (if dropped then (buf, True)
      else
        let payload = fragment_payload frag; room = cap - length buf
        in if room < length payload then ([], True) else (buf @ payload, False))"

text \<open>
  The frame, whether it was dropped, and whether the read failed; running out of fragments is a
  reader that never returns, which a list ended by \<open>ReadOk\<close> or \<open>ReadFailed\<close> excludes.
\<close>

fun read_frame :: "nat \<Rightarrow> fragment list \<Rightarrow> string \<Rightarrow> bool \<Rightarrow> (string \<times> bool \<times> bool) option" where
  "read_frame cap [] buf dropped = None"
| "read_frame cap ((frag, err) # rest) buf dropped =
     (let (buf', dropped') = keep_fragment cap frag buf dropped in
      case err of
        BufferFull \<Rightarrow> read_frame cap rest buf' dropped'
      | ReadFailed \<Rightarrow> Some (if dropped' then ([], True, True) else (buf', False, True))
      | ReadOk \<Rightarrow> Some (if dropped' then ([], True, False) else (buf', False, False)))"

definition read_stdout_frame :: "nat \<Rightarrow> fragment list \<Rightarrow> (string \<times> bool \<times> bool) option" where
  "read_stdout_frame cap frags = read_frame cap frags [] False"

text \<open>How \<^verbatim>\<open>ReadSlice\<close> cuts a line: full buffers without a newline, then the end of the line or of the input.\<close>

fun cuts_line :: "fragment list \<Rightarrow> bool" where
  "cuts_line [] = False"
| "cuts_line ((frag, err) # rest) =
     (case err of
        BufferFull \<Rightarrow> newline \<notin> set frag \<and> cuts_line rest
      | ReadFailed \<Rightarrow> newline \<notin> set frag \<and> rest = []
      | ReadOk \<Rightarrow> frag \<noteq> [] \<and> last frag = newline \<and> newline \<notin> set (butlast frag) \<and> rest = [])"

definition line_text :: "fragment list \<Rightarrow> string" where
  "line_text frags = concat (map (fragment_payload \<circ> fst) frags)"

lemma read_frame_spec:
  assumes "cuts_line frags" "dropped \<or> length buf \<le> cap"
  shows "read_frame cap frags buf dropped =
     Some (if dropped \<or> cap < length buf + length (line_text frags) then ([], True, snd (last frags) = ReadFailed)
           else (buf @ line_text frags, False, snd (last frags) = ReadFailed))"
  using assms
proof (induction cap frags buf dropped rule: read_frame.induct)
  case (2 cap frag err rest buf dropped)
  show ?case
  proof (cases err)
    case BufferFull
    obtain buf' dropped' where k: "keep_fragment cap frag buf dropped = (buf', dropped')"
      by (cases "keep_fragment cap frag buf dropped")
    have c: "cuts_line rest" "rest \<noteq> []" using "2.prems" BufferFull by auto
    have "dropped' \<or> length buf' \<le> cap"
      using k "2.prems"(2) by (auto simp: keep_fragment_def Let_def split: if_splits)
    from "2.IH" [OF k [symmetric] refl BufferFull c(1) this] k "2.prems"(2) BufferFull c(2) show ?thesis
      by (auto simp: keep_fragment_def Let_def line_text_def split: if_splits)
  qed (use "2.prems" in \<open>auto simp: keep_fragment_def Let_def line_text_def\<close>)
qed simp

text \<open>
  A line of agent output is delivered whole or not at all: however the reader cuts it, a line of at most
  the cap comes back byte for byte without its newline, a longer one is dropped and never returned in
  part, and what was kept in memory never exceeds the cap.
\<close>

theorem stdout_frame_whole_or_dropped:
  assumes "cuts_line frags"
  shows "read_stdout_frame cap frags =
     Some (if cap < length (line_text frags) then [] else line_text frags,
           cap < length (line_text frags), snd (last frags) = ReadFailed) \<and>
    length (fst (the (read_stdout_frame cap frags))) \<le> cap"
  using read_frame_spec [OF assms, of False "[]" cap] by (simp add: read_stdout_frame_def)

theorem stdout_frame_whole_or_dropped_witness:
  "read_stdout_frame 4 [(''ab'', BufferFull), (''cd'' @ [newline], ReadOk)] = Some (''abcd'', False, False)"
  using stdout_frame_whole_or_dropped [of "[(''ab'', BufferFull), (''cd'' @ [newline], ReadOk)]" 4]
  by (simp add: line_text_def fragment_payload_def newline_def)

end
