(* ===== verification/Pairing.thy ===== *)
theory Pairing
  imports Go_Text
begin

text \<open>
  \<^verbatim>\<open>internal/pairing/service.go\<close>: pairing challenges, device credentials, their rotation, expiry, grace
  and revocation, and the copy of them in \<^verbatim>\<open>internal/storage/pairing.go\<close>.

  The clock reading and the random values an operation draws are arguments. \<open>digest\<close> is the text of the
  SHA-256 of a token. A store call for a device fails when \<open>io\<close> says so. The three SQLite tables that
  make up a pairing are written in one transaction, so they are one row.
\<close>

section \<open>Data\<close>

definition default_challenge_ttl :: duration where "default_challenge_ttl = 2 * minute"
definition default_arm_ttl :: duration where "default_arm_ttl = 2 * minute"
definition default_token_ttl :: duration where "default_token_ttl = 7 * 24 * hour"
definition default_grace_period :: duration where "default_grace_period = 90 * 24 * hour"
definition challenge_history_ttl :: duration where "challenge_history_ttl = 10 * minute"
definition default_rotation_overlap :: duration where "default_rotation_overlap = 48 * hour"

datatype pairing_error =
    ErrChallengeNotFound
  | ErrChallengeExpired
  | ErrCodeMismatch
  | ErrInvalidDeviceName
  | ErrDeviceNotFound
  | ErrCredentialMissing
  | ErrCredentialInvalid
  | ErrCredentialExpired
  | ErrCredentialGraceExpired
  | ErrCredentialScope
  | ErrPairingNotArmed
  | ErrStore

definition scope_read :: string where "scope_read = ''gateway.read''"
definition scope_control :: string where "scope_control = ''gateway.control''"
definition scope_diagnostics_export :: string where "scope_diagnostics_export = ''gateway.diagnostics.export''"
definition scope_runtime_restart_env :: string where "scope_runtime_restart_env = ''gateway.runtime.restart_env''"

datatype challenge_state = ChallengeActive | ChallengeCompleted | ChallengeCancelled | ChallengeExpired

record challenge =
  ch_id :: string
  ch_code :: string
  ch_expires :: gtime

record credential =
  cd_device :: string
  cd_name :: string
  cd_token :: string
  cd_hash :: string
  cd_expires :: gtime
  cd_scopes :: "string list"
  cd_proof :: string
  cd_expired :: "gtime option"

record completed_device =
  co_device :: string
  co_name :: string
  co_expires :: gtime

record challenge_status =
  cs_id :: string
  cs_code :: string
  cs_expires :: gtime
  cs_state :: challenge_state
  cs_completed :: "completed_device option"

record challenge_record =
  cc_challenge :: challenge
  cc_state :: challenge_state
  cc_completed :: "completed_device option"
  cc_changed :: gtime

record retired_token =
  rt_device :: string
  rt_until :: gtime

record pairing_record =
  pg_device :: string
  pg_name :: string
  pg_token :: string
  pg_expires :: gtime
  pg_scopes :: "string list"
  pg_proof :: string
  pg_retired :: string
  pg_retired_until :: gtime

record pairing_service =
  pv_arm_ttl :: duration
  pv_token_ttl :: duration
  pv_grace :: duration
  pv_base_scopes :: "string list"
  pv_active :: string
  pv_armed_until :: gtime
  pv_challenges :: "(string \<times> challenge_record) list"
  pv_credentials :: "(string \<times> credential) list"
  pv_by_hash :: "string \<rightharpoonup> string"
  pv_retired :: "(string \<times> retired_token) list"
  pv_store :: "(string \<times> pairing_record) list option"

record pairing_options =
  po_arm_ttl :: duration
  po_token_ttl :: duration
  po_grace :: duration
  po_diagnostics :: bool
  po_restart_env :: bool

section \<open>The store\<close>

definition save_pairing :: "pairing_record \<Rightarrow> (string \<times> pairing_record) list \<Rightarrow> (string \<times> pairing_record) list" where
  "save_pairing r st = AList.update (pg_device r) r st"

definition delete_pairing :: "string \<Rightarrow> (string \<times> pairing_record) list \<Rightarrow> (string \<times> pairing_record) list" where
  "delete_pairing dev st = AList.delete dev st"

section \<open>Token hashes\<close>

definition credential_hash_prefix :: string where "credential_hash_prefix = ''sha256:''"

definition hash_token :: "(string \<Rightarrow> string) \<Rightarrow> string \<Rightarrow> string" where
  "hash_token digest token = credential_hash_prefix @ digest token"

definition is_hashed_token :: "string \<Rightarrow> bool" where
  "is_hashed_token v \<longleftrightarrow> take (length credential_hash_prefix) (trim_space v) = credential_hash_prefix"

definition stored_hash :: "(string \<Rightarrow> string) \<Rightarrow> string \<Rightarrow> string" where
  "stored_hash digest v = (if is_hashed_token v then trim_space v else hash_token digest v)"

section \<open>Scopes\<close>

definition default_scopes :: "bool \<Rightarrow> bool \<Rightarrow> string list" where
  "default_scopes diagnostics restart_env =
     [scope_read, scope_control] @ (if diagnostics then [scope_diagnostics_export] else [])
       @ (if restart_env then [scope_runtime_restart_env] else [])"

definition fallback_scopes :: "string list \<Rightarrow> string list \<Rightarrow> string list" where
  "fallback_scopes scopes fallback = (if scopes \<noteq> [] then scopes else fallback)"

definition has_scope :: "string \<Rightarrow> credential \<Rightarrow> bool" where
  "has_scope scope c \<longleftrightarrow> scope \<in> set (cd_scopes c)"

definition require_scope :: "string \<Rightarrow> credential \<Rightarrow> pairing_error option" where
  "require_scope scope c = (if has_scope scope c then None else Some ErrCredentialScope)"

section \<open>Expiry\<close>

definition expire_challenge :: "string \<Rightarrow> challenge_record \<Rightarrow> pairing_service \<Rightarrow> pairing_service" where
  "expire_challenge cid r s =
     s\<lparr>pv_challenges := AList.update cid
         (r\<lparr>cc_state := ChallengeExpired, cc_changed := ch_expires (cc_challenge r)\<rparr>) (pv_challenges s),
       pv_active := (if pv_active s = cid then [] else pv_active s)\<rparr>"

definition index_credential :: "credential \<Rightarrow> pairing_service \<Rightarrow> pairing_service" where
  "index_credential c s = (if cd_hash c = [] then s else s\<lparr>pv_by_hash := (pv_by_hash s)(cd_hash c \<mapsto> cd_device c)\<rparr>)"

definition prune_retired :: "gtime \<Rightarrow> pairing_service \<Rightarrow> pairing_service" where
  "prune_retired now s = s\<lparr>pv_retired := filter (\<lambda>(h, e). \<not> rt_until e < now) (pv_retired s)\<rparr>"

definition delete_credential :: "(string \<Rightarrow> bool) \<Rightarrow> string \<Rightarrow> pairing_service \<Rightarrow> pairing_service" where
  "delete_credential io dev s =
     (let hashes = (case map_of (pv_credentials s) dev of
            None \<Rightarrow> pv_by_hash s
          | Some c \<Rightarrow> if cd_hash c \<noteq> [] \<and> pv_by_hash s (cd_hash c) = Some dev
              then (pv_by_hash s)(cd_hash c := None) else pv_by_hash s)
      in s\<lparr>pv_by_hash := hashes,
           pv_credentials := AList.delete dev (pv_credentials s),
           pv_retired := filter (\<lambda>(h, e). rt_device e \<noteq> dev) (pv_retired s),
           pv_store := (if io dev then map_option (delete_pairing dev) (pv_store s) else pv_store s)\<rparr>)"

definition should_reap :: "duration \<Rightarrow> gtime \<Rightarrow> gtime \<Rightarrow> bool" where
  "should_reap grace expires now \<longleftrightarrow> expires < now \<and> (grace \<le> 0 \<or> grace < now - expires)"

definition prune_credentials :: "(string \<Rightarrow> bool) \<Rightarrow> gtime \<Rightarrow> pairing_service \<Rightarrow> pairing_service" where
  "prune_credentials io now s =
     prune_retired now
       (fold (\<lambda>(dev, c) s. if should_reap (pv_grace s) (cd_expires c) now then delete_credential io dev s else s)
          (pv_credentials s) s)"

definition prune_challenge :: "gtime \<Rightarrow> string \<times> challenge_record \<Rightarrow> pairing_service \<Rightarrow> pairing_service" where
  "prune_challenge now e s =
     (case e of (cid, r) \<Rightarrow>
        if cc_state r = ChallengeActive then
          (if ch_expires (cc_challenge r) < now then expire_challenge cid r s else s)
        else if challenge_history_ttl < now - cc_changed r
             then s\<lparr>pv_challenges := AList.delete cid (pv_challenges s)\<rparr> else s)"

definition prune_expired :: "(string \<Rightarrow> bool) \<Rightarrow> gtime \<Rightarrow> pairing_service \<Rightarrow> pairing_service" where
  "prune_expired io now s = prune_credentials io now (fold (prune_challenge now) (pv_challenges s) s)"

section \<open>Challenges\<close>

definition to_status :: "challenge_record \<Rightarrow> challenge_status" where
  "to_status r = \<lparr>cs_id = ch_id (cc_challenge r), cs_code = ch_code (cc_challenge r),
     cs_expires = ch_expires (cc_challenge r), cs_state = cc_state r, cs_completed = cc_completed r\<rparr>"

definition active_challenge :: "pairing_service \<Rightarrow> pairing_service \<times> challenge_record option" where
  "active_challenge s =
     (if pv_active s = [] then (s, None)
      else (case map_of (pv_challenges s) (pv_active s) of
              None \<Rightarrow> (s\<lparr>pv_active := []\<rparr>, None)
            | Some r \<Rightarrow> if cc_state r \<noteq> ChallengeActive then (s\<lparr>pv_active := []\<rparr>, None) else (s, Some r)))"

definition is_armed :: "gtime \<Rightarrow> pairing_service \<Rightarrow> pairing_service \<times> bool" where
  "is_armed now s =
     (if pv_armed_until s = zero_time then (s, False)
      else if pv_armed_until s < now then (s\<lparr>pv_armed_until := zero_time\<rparr>, False)
      else (s, True))"

text \<open>\<open>cid\<close> and \<open>code\<close> are the random id and code.\<close>

definition start_pairing ::
  "(string \<Rightarrow> bool) \<Rightarrow> gtime \<Rightarrow> string \<Rightarrow> string \<Rightarrow> pairing_service \<Rightarrow> pairing_service \<times> (pairing_error + challenge)" where
  "start_pairing io now cid code s =
     (let (s1, active) = active_challenge (prune_expired io now s) in
      case active of
        Some r \<Rightarrow> (s1, Inr (cc_challenge r))
      | None \<Rightarrow>
          let (s2, armed) = is_armed now s1 in
          if \<not> armed then (s2, Inl ErrPairingNotArmed)
          else
            let ch = \<lparr>ch_id = cid, ch_code = code, ch_expires = now + default_challenge_ttl\<rparr> in
            (s2\<lparr>pv_active := cid, pv_challenges := AList.update cid
               \<lparr>cc_challenge = ch, cc_state = ChallengeActive, cc_completed = None, cc_changed = now\<rparr>
               (pv_challenges s2)\<rparr>, Inr ch))"

text \<open>
  The code takes the lock once to open the approval window and again to start the pairing; the two sections are one step here.
  An operation in between could use the approval up, in which case the start is refused.
\<close>

definition start_with_approval ::
  "(string \<Rightarrow> bool) \<Rightarrow> gtime \<Rightarrow> string \<Rightarrow> string \<Rightarrow> pairing_service \<Rightarrow> pairing_service \<times> (pairing_error + challenge)" where
  "start_with_approval io now cid code s =
     start_pairing io now cid code (s\<lparr>pv_armed_until := now + pv_arm_ttl s\<rparr>)"

definition active_status :: "(string \<Rightarrow> bool) \<Rightarrow> gtime \<Rightarrow> pairing_service \<Rightarrow> pairing_service \<times> challenge_status option" where
  "active_status io now s = (let (s1, r) = active_challenge (prune_expired io now s) in (s1, map_option to_status r))"

definition get_status ::
  "(string \<Rightarrow> bool) \<Rightarrow> gtime \<Rightarrow> string \<Rightarrow> pairing_service \<Rightarrow> pairing_service \<times> (pairing_error + challenge_status)" where
  "get_status io now cid s =
     (let s1 = prune_expired io now s
      in (s1, case map_of (pv_challenges s1) cid of None \<Rightarrow> Inl ErrChallengeNotFound | Some r \<Rightarrow> Inr (to_status r)))"

definition cancel_challenge ::
  "(string \<Rightarrow> bool) \<Rightarrow> gtime \<Rightarrow> string \<Rightarrow> pairing_service \<Rightarrow> pairing_service \<times> (pairing_error + challenge_status)" where
  "cancel_challenge io now cid0 s =
     (let s1 = prune_expired io now s;
          cid = (if cid0 = [] then pv_active s1 else cid0)
      in if cid = [] then (s1, Inl ErrChallengeNotFound)
         else (case map_of (pv_challenges s1) cid of
                 None \<Rightarrow> (s1, Inl ErrChallengeNotFound)
               | Some r \<Rightarrow>
                   if cc_state r = ChallengeActive then
                     let r' = r\<lparr>cc_state := ChallengeCancelled, cc_changed := now\<rparr> in
                     (s1\<lparr>pv_challenges := AList.update cid r' (pv_challenges s1),
                         pv_active := (if pv_active s1 = cid then [] else pv_active s1)\<rparr>, Inr (to_status r'))
                   else (s1, Inr (to_status r))))"

definition resolve_challenge ::
  "string \<Rightarrow> gtime \<Rightarrow> pairing_service \<Rightarrow> pairing_service \<times> (pairing_error + string \<times> challenge_record)" where
  "resolve_challenge cid now s =
     (if cid \<noteq> [] then
        (case map_of (pv_challenges s) cid of
           None \<Rightarrow> (s, Inl ErrChallengeNotFound)
         | Some r \<Rightarrow>
             if cc_state r \<noteq> ChallengeActive
             then (s, Inl (if cc_state r = ChallengeExpired then ErrChallengeExpired else ErrChallengeNotFound))
             else if ch_expires (cc_challenge r) < now then (expire_challenge cid r s, Inl ErrChallengeExpired)
             else (s, Inr (cid, r)))
      else
        (let (s1, active) = active_challenge s in
         case active of
           None \<Rightarrow> (s1, Inl ErrChallengeNotFound)
         | Some r \<Rightarrow>
             if ch_expires (cc_challenge r) < now
             then (expire_challenge (ch_id (cc_challenge r)) r s1, Inl ErrChallengeExpired)
             else (s1, Inr (ch_id (cc_challenge r), r))))"

definition new_credential ::
  "(string \<Rightarrow> string) \<Rightarrow> gtime \<Rightarrow> string \<Rightarrow> string \<Rightarrow> string \<Rightarrow> string \<Rightarrow> pairing_service \<Rightarrow> credential" where
  "new_credential digest now dev token name proof_key s =
     \<lparr>cd_device = dev, cd_name = name, cd_token = token, cd_hash = hash_token digest token,
      cd_expires = now + pv_token_ttl s, cd_scopes = pv_base_scopes s, cd_proof = proof_key, cd_expired = None\<rparr>"

definition record_of :: "credential \<Rightarrow> pairing_record" where
  "record_of c = \<lparr>pg_device = cd_device c, pg_name = cd_name c, pg_token = cd_hash c, pg_expires = cd_expires c,
     pg_scopes = cd_scopes c, pg_proof = cd_proof c, pg_retired = [], pg_retired_until = zero_time\<rparr>"

definition persist :: "(string \<Rightarrow> bool) \<Rightarrow> pairing_record \<Rightarrow> pairing_service \<Rightarrow> pairing_service" where
  "persist io r s = (if io (pg_device r) then s\<lparr>pv_store := map_option (save_pairing r) (pv_store s)\<rparr> else s)"

text \<open>\<open>dev\<close> and \<open>token\<close> are the random device id and token.\<close>

definition complete_pairing ::
  "(string \<Rightarrow> string) \<Rightarrow> (string \<Rightarrow> bool) \<Rightarrow> gtime \<Rightarrow> string \<Rightarrow> string \<Rightarrow> string \<Rightarrow> string \<Rightarrow> string \<Rightarrow> string \<Rightarrow>
     pairing_service \<Rightarrow> pairing_service \<times> (pairing_error + credential)" where
  "complete_pairing digest io now dev token cid code name proof_key s =
     (if name = [] then (s, Inl ErrInvalidDeviceName)
      else
        let (s1, res) = resolve_challenge cid now (prune_credentials io now s) in
        case res of
          Inl e \<Rightarrow> (s1, Inl e)
        | Inr (rid, r) \<Rightarrow>
            if code \<noteq> ch_code (cc_challenge r) then (s1, Inl ErrCodeMismatch)
            else
              let c = new_credential digest now dev token name proof_key s1;
                  s2 = index_credential c (s1\<lparr>pv_credentials := AList.update dev c (pv_credentials s1)\<rparr>);
                  s3 = persist io (record_of c) s2;
                  r' = r\<lparr>cc_state := ChallengeCompleted, cc_changed := now,
                     cc_completed := Some \<lparr>co_device = dev, co_name = name, co_expires = cd_expires c\<rparr>\<rparr>
              in (s3\<lparr>pv_challenges := AList.update rid r' (pv_challenges s3),
                     pv_active := (if pv_active s3 = rid then [] else pv_active s3),
                     pv_armed_until := zero_time\<rparr>, Inr c))"

section \<open>Credentials\<close>

definition active_device_count :: "(string \<Rightarrow> bool) \<Rightarrow> gtime \<Rightarrow> pairing_service \<Rightarrow> pairing_service \<times> nat" where
  "active_device_count io now s = (let s1 = prune_credentials io now s in (s1, length (pv_credentials s1)))"

text \<open>The scan for tokens stored before hashing.\<close>

definition legacy_device :: "string \<Rightarrow> pairing_service \<Rightarrow> string option" where
  "legacy_device token s =
     map_option fst (List.find (\<lambda>(dev, c). cd_hash c = [] \<and> cd_token c = token) (pv_credentials s))"

definition zero_credential :: credential where
  "zero_credential = \<lparr>cd_device = [], cd_name = [], cd_token = [], cd_hash = [], cd_expires = zero_time, cd_scopes = [],
     cd_proof = [], cd_expired = None\<rparr>"

definition credential_at :: "string \<Rightarrow> pairing_service \<Rightarrow> credential" where
  "credential_at dev s = (case map_of (pv_credentials s) dev of None \<Rightarrow> zero_credential | Some c \<Rightarrow> c)"

definition validate_device ::
  "(string \<Rightarrow> bool) \<Rightarrow> gtime \<Rightarrow> string \<Rightarrow> pairing_service \<Rightarrow> pairing_service \<times> (pairing_error + credential)" where
  "validate_device io now dev s =
     (let c = credential_at dev s in
      if \<not> cd_expires c < now then (s, Inr c)
      else if pv_grace s \<le> 0 then (delete_credential io dev s, Inl ErrCredentialExpired)
      else (s\<lparr>pv_credentials := AList.update dev (c\<lparr>cd_expired := Some now\<rparr>) (pv_credentials s)\<rparr>, Inl ErrCredentialExpired))"

definition validate_credential ::
  "(string \<Rightarrow> string) \<Rightarrow> (string \<Rightarrow> bool) \<Rightarrow> gtime \<Rightarrow> string \<Rightarrow> pairing_service \<Rightarrow> pairing_service \<times> (pairing_error + credential)" where
  "validate_credential digest io now token s =
     (if token = [] then (s, Inl ErrCredentialMissing)
      else (case pv_by_hash s (hash_token digest token) of
              Some dev \<Rightarrow> validate_device io now dev s
            | None \<Rightarrow>
                (case legacy_device token s of
                   Some dev \<Rightarrow> validate_device io now dev s
                 | None \<Rightarrow> (prune_credentials io now s, Inl ErrCredentialInvalid))))"

definition retired_device :: "(string \<Rightarrow> string) \<Rightarrow> string \<Rightarrow> gtime \<Rightarrow> pairing_service \<Rightarrow> retired_token option" where
  "retired_device digest token now s =
     (case map_of (pv_retired s) (hash_token digest token) of
        None \<Rightarrow> None
      | Some e \<Rightarrow> if rt_until e < now \<or> map_of (pv_credentials s) (rt_device e) = None then None else Some e)"

text \<open>The rotation of device \<open>dev\<close>'s credential to \<open>fresh\<close>; \<open>presented\<close> is the retired entry the caller came in on.\<close>

definition rotate_credential ::
  "(string \<Rightarrow> string) \<Rightarrow> (string \<Rightarrow> bool) \<Rightarrow> gtime \<Rightarrow> string \<Rightarrow> string \<Rightarrow> retired_token option \<Rightarrow> string \<Rightarrow>
     pairing_service \<Rightarrow> pairing_service \<times> (pairing_error + credential)" where
  "rotate_credential digest io now fresh token presented dev s =
     (let c = credential_at dev s;
          old_hash = cd_hash c;
          new_hash = hash_token digest fresh;
          expires = now + pv_token_ttl s;
          r0 = (record_of c)\<lparr>pg_token := new_hash, pg_expires := expires\<rparr>;
          r = (case presented of
                 Some e \<Rightarrow> r0\<lparr>pg_retired := hash_token digest token, pg_retired_until := rt_until e\<rparr>
               | None \<Rightarrow> if old_hash \<noteq> []
                   then r0\<lparr>pg_retired := old_hash, pg_retired_until := now + default_rotation_overlap\<rparr> else r0)
      in if pv_store s \<noteq> None \<and> \<not> io (cd_device c) then (s, Inl ErrStore)
         else
           let s1 = persist io r s;
               c' = c\<lparr>cd_token := fresh, cd_hash := new_hash, cd_expires := expires, cd_expired := None\<rparr>;
               s2 = s1\<lparr>pv_credentials := AList.update dev c' (pv_credentials s1)\<rparr>;
               s3 = (if old_hash \<noteq> [] \<and> old_hash \<noteq> new_hash
                     then s2\<lparr>pv_by_hash := (pv_by_hash s2)(old_hash := None),
                             pv_retired := AList.update old_hash
                               \<lparr>rt_device = cd_device c, rt_until = now + default_rotation_overlap\<rparr> (pv_retired s2)\<rparr>
                     else s2)
           in (index_credential c' (prune_retired now s3), Inr c'))"

definition refresh_credential ::
  "(string \<Rightarrow> string) \<Rightarrow> (string \<Rightarrow> bool) \<Rightarrow> gtime \<Rightarrow> string \<Rightarrow> string \<Rightarrow> pairing_service \<Rightarrow>
     pairing_service \<times> (pairing_error + credential)" where
  "refresh_credential digest io now fresh token s =
     (if token = [] then (s, Inl ErrCredentialMissing)
      else
        let live = (case pv_by_hash s (hash_token digest token) of Some dev \<Rightarrow> Some dev | None \<Rightarrow> legacy_device token s);
            presented = (case live of Some _ \<Rightarrow> None | None \<Rightarrow> retired_device digest token now s)
        in case (live, presented) of
             (None, None) \<Rightarrow> (prune_credentials io now s, Inl ErrCredentialInvalid)
           | _ \<Rightarrow>
               let dev = (case live of Some d \<Rightarrow> d | None \<Rightarrow> rt_device (the presented));
                   c = credential_at dev s
               in if live = None \<and> cd_token c \<noteq> [] \<and> now < cd_expires c then (s, Inr c)
                  else if cd_expires c < now \<and> pv_grace s \<le> 0
                       then (delete_credential io dev s, Inl ErrCredentialExpired)
                  else if cd_expires c < now \<and> pv_grace s < now - cd_expires c
                       then (delete_credential io dev s, Inl ErrCredentialGraceExpired)
                  else rotate_credential digest io now fresh token presented dev s)"

definition lookup_credential ::
  "(string \<Rightarrow> string) \<Rightarrow> gtime \<Rightarrow> string \<Rightarrow> pairing_service \<Rightarrow> pairing_error + credential" where
  "lookup_credential digest now token s =
     (if token = [] then Inl ErrCredentialMissing
      else (case Option.bind (pv_by_hash s (hash_token digest token)) (map_of (pv_credentials s)) of
              Some c \<Rightarrow> Inr c
            | None \<Rightarrow>
                (case legacy_device token s of
                   Some dev \<Rightarrow> Inr (credential_at dev s)
                 | None \<Rightarrow>
                     (case retired_device digest token now s of
                        Some e \<Rightarrow> Inr (credential_at (rt_device e) s)
                      | None \<Rightarrow> Inl ErrCredentialInvalid))))"

definition list_devices :: "(string \<Rightarrow> bool) \<Rightarrow> gtime \<Rightarrow> pairing_service \<Rightarrow> pairing_service \<times> credential list" where
  "list_devices io now s =
     (let s1 = prune_credentials io now s
      in (s1, sort_key (\<lambda>c. (cd_name c, cd_device c)) (map snd (pv_credentials s1))))"

definition revoke_device ::
  "(string \<Rightarrow> bool) \<Rightarrow> string \<Rightarrow> pairing_service \<Rightarrow> pairing_service \<times> (pairing_error + credential)" where
  "revoke_device io dev s =
     (case map_of (pv_credentials s) dev of
        None \<Rightarrow> (s, Inl ErrDeviceNotFound)
      | Some c \<Rightarrow> (delete_credential io dev s, Inr c))"

section \<open>Starting from the store\<close>

definition load_record ::
  "(string \<Rightarrow> string) \<Rightarrow> (string \<Rightarrow> bool) \<Rightarrow> gtime \<Rightarrow> string \<times> pairing_record \<Rightarrow> pairing_service \<Rightarrow> pairing_service" where
  "load_record digest io now e s =
     (let r = snd e in
      if should_reap (pv_grace s) (pg_expires r) now
      then (if io (pg_device r) then s\<lparr>pv_store := map_option (delete_pairing (pg_device r)) (pv_store s)\<rparr> else s)
      else
        let hash = stored_hash digest (pg_token r);
            scopes = fallback_scopes (pg_scopes r) (pv_base_scopes s);
            c = \<lparr>cd_device = pg_device r, cd_name = pg_name r, cd_token = [], cd_hash = hash, cd_expires = pg_expires r,
                 cd_scopes = scopes, cd_proof = pg_proof r,
                 cd_expired = (if pg_expires r < now \<and> 0 < pv_grace s then Some (pg_expires r) else None)\<rparr>;
            s1 = index_credential c (s\<lparr>pv_credentials := AList.update (pg_device r) c (pv_credentials s)\<rparr>);
            s2 = (if pg_retired r \<noteq> [] \<and> now < pg_retired_until r
                  then s1\<lparr>pv_retired := AList.update (pg_retired r)
                         \<lparr>rt_device = pg_device r, rt_until = pg_retired_until r\<rparr> (pv_retired s1)\<rparr>
                  else s1)
        in if is_hashed_token (pg_token r) then s2
           else persist io (r\<lparr>pg_token := hash, pg_scopes := scopes\<rparr>) s2)"

text \<open>\<open>NewServiceWithOptions\<close>; the list of the store's rows is read once.\<close>

definition new_service ::
  "(string \<Rightarrow> string) \<Rightarrow> (string \<Rightarrow> bool) \<Rightarrow> gtime \<Rightarrow> pairing_options \<Rightarrow> (string \<times> pairing_record) list option \<Rightarrow> pairing_service" where
  "new_service digest io now opts store =
     fold (load_record digest io now) (case store of None \<Rightarrow> [] | Some rows \<Rightarrow> rows)
       \<lparr>pv_arm_ttl = (if po_arm_ttl opts \<le> 0 then default_arm_ttl else po_arm_ttl opts),
        pv_token_ttl = (if po_token_ttl opts \<le> 0 then default_token_ttl else po_token_ttl opts),
        pv_grace = (if po_grace opts < 0 then default_grace_period else po_grace opts),
        pv_base_scopes = default_scopes (po_diagnostics opts) (po_restart_env opts),
        pv_active = [], pv_armed_until = zero_time, pv_challenges = [], pv_credentials = [],
        pv_by_hash = Map.empty, pv_retired = [], pv_store = store\<rparr>"

end
