(* ===== verification/Pairing_Proofs.thy ===== *)
theory Pairing_Proofs
  imports Pairing
begin

text \<open>
  Properties of pairing, over every reachable state: credentials are issued only after local approval, the
  token index is exact, a rotated-out token opens nothing but the refresh that was lost, and a restart
  from the store accepts the same tokens.
\<close>

section \<open>Reachable states\<close>

datatype pairing_op =
    PApprove string string
  | PStart string string
  | PActive
  | PStatus string
  | PCancel string
  | PComplete string string string string string string
  | PValidate string
  | PRefresh string string
  | PRevoke string
  | PList
  | PCount

fun pairing_step ::
  "(string \<Rightarrow> string) \<Rightarrow> (string \<Rightarrow> bool) \<Rightarrow> gtime \<Rightarrow> pairing_service \<Rightarrow> pairing_op \<Rightarrow> pairing_service" where
  "pairing_step digest io now s (PApprove cid code) = fst (start_with_approval io now cid code s)"
| "pairing_step digest io now s (PStart cid code) = fst (start_pairing io now cid code s)"
| "pairing_step digest io now s PActive = fst (active_status io now s)"
| "pairing_step digest io now s (PStatus cid) = fst (get_status io now cid s)"
| "pairing_step digest io now s (PCancel cid) = fst (cancel_challenge io now cid s)"
| "pairing_step digest io now s (PComplete dev token cid code name key) =
     fst (complete_pairing digest io now dev token cid code name key s)"
| "pairing_step digest io now s (PValidate token) = fst (validate_credential digest io now token s)"
| "pairing_step digest io now s (PRefresh fresh token) = fst (refresh_credential digest io now fresh token s)"
| "pairing_step digest io now s (PRevoke dev) = fst (revoke_device io dev s)"
| "pairing_step digest io now s PList = fst (list_devices io now s)"
| "pairing_step digest io now s PCount = fst (active_device_count io now s)"

text \<open>The random values do not collide with what the gateway still holds.\<close>

definition unused_hash :: "string \<Rightarrow> pairing_service \<Rightarrow> bool" where
  "unused_hash h s \<longleftrightarrow> pv_by_hash s h = None \<and> map_of (pv_retired s) h = None"

definition fresh_op :: "(string \<Rightarrow> string) \<Rightarrow> pairing_service \<Rightarrow> pairing_op \<Rightarrow> bool" where
  "fresh_op digest s op =
     (case op of
        PApprove cid _ \<Rightarrow> cid \<noteq> [] \<and> map_of (pv_challenges s) cid = None
      | PStart cid _ \<Rightarrow> cid \<noteq> [] \<and> map_of (pv_challenges s) cid = None
      | PComplete dev token _ _ _ _ \<Rightarrow> token \<noteq> [] \<and> map_of (pv_credentials s) dev = None \<and> unused_hash (hash_token digest token) s
      | PRefresh fresh _ \<Rightarrow> fresh \<noteq> [] \<and> unused_hash (hash_token digest fresh) s
      | _ \<Rightarrow> True)"

definition approvals :: "pairing_op \<Rightarrow> nat" where
  "approvals op = (case op of PApprove _ _ \<Rightarrow> 1 | _ \<Rightarrow> 0)"

definition issues :: "(string \<Rightarrow> string) \<Rightarrow> (string \<Rightarrow> bool) \<Rightarrow> gtime \<Rightarrow> pairing_service \<Rightarrow> pairing_op \<Rightarrow> nat" where
  "issues digest io now s op =
     (case op of
        PComplete dev token cid code name key \<Rightarrow>
          (case snd (complete_pairing digest io now dev token cid code name key s) of Inl _ \<Rightarrow> 0 | Inr _ \<Rightarrow> 1)
      | _ \<Rightarrow> 0)"

text \<open>
  \<open>paired digest reliable s a d\<close>: state \<open>s\<close> is reached from a gateway that was never paired, with \<open>a\<close> local
  approvals and \<open>d\<close> credentials issued; \<open>reliable\<close> restricts to runs in which no store call failed.
\<close>

inductive paired :: "(string \<Rightarrow> string) \<Rightarrow> bool \<Rightarrow> pairing_service \<Rightarrow> nat \<Rightarrow> nat \<Rightarrow> bool" for digest reliable where
  paired_new: "store = None \<or> store = Some [] \<Longrightarrow> paired digest reliable (new_service digest io now opts store) 0 0"
| paired_step: "paired digest reliable s a d \<Longrightarrow> fresh_op digest s op \<Longrightarrow> reliable \<longrightarrow> io = (\<lambda>_. True) \<Longrightarrow>
     paired digest reliable (pairing_step digest io now s op) (a + approvals op) (d + issues digest io now s op)"

section \<open>Credentials and their index\<close>

definition cred_ok :: "(string \<Rightarrow> string) \<Rightarrow> string \<Rightarrow> credential \<Rightarrow> bool" where
  "cred_ok digest dev c \<longleftrightarrow> cd_device c = dev \<and> cd_token c \<noteq> [] \<and> cd_hash c = hash_token digest (cd_token c)"

definition cred_inv :: "(string \<Rightarrow> string) \<Rightarrow> pairing_service \<Rightarrow> bool" where
  "cred_inv digest s \<longleftrightarrow>
     keys_distinct (pv_credentials s) \<and> keys_distinct (pv_retired s) \<and>
     (\<forall>dev c. map_of (pv_credentials s) dev = Some c \<longrightarrow> cred_ok digest dev c \<and> pv_by_hash s (cd_hash c) = Some dev) \<and>
     (\<forall>h dev. pv_by_hash s h = Some dev \<longrightarrow> (\<exists>c. map_of (pv_credentials s) dev = Some c \<and> cd_hash c = h)) \<and>
     (\<forall>h e. map_of (pv_retired s) h = Some e \<longrightarrow> pv_by_hash s h = None \<and> map_of (pv_credentials s) (rt_device e) \<noteq> None)"

lemma cred_invI:
  assumes "keys_distinct (pv_credentials s)" "keys_distinct (pv_retired s)"
    and "\<And>dev c. map_of (pv_credentials s) dev = Some c \<Longrightarrow> cred_ok digest dev c"
    and "\<And>dev c. map_of (pv_credentials s) dev = Some c \<Longrightarrow> pv_by_hash s (cd_hash c) = Some dev"
    and "\<And>h dev. pv_by_hash s h = Some dev \<Longrightarrow> \<exists>c. map_of (pv_credentials s) dev = Some c \<and> cd_hash c = h"
    and "\<And>h e. map_of (pv_retired s) h = Some e \<Longrightarrow> pv_by_hash s h = None"
    and "\<And>h e. map_of (pv_retired s) h = Some e \<Longrightarrow> map_of (pv_credentials s) (rt_device e) \<noteq> None"
  shows "cred_inv digest s"
  using assms unfolding cred_inv_def by blast

lemma cred_invD:
  assumes "cred_inv digest s"
  shows "keys_distinct (pv_credentials s)" "keys_distinct (pv_retired s)"
    and "map_of (pv_credentials s) dev = Some c \<Longrightarrow> cred_ok digest dev c"
    and "map_of (pv_credentials s) dev = Some c \<Longrightarrow> pv_by_hash s (cd_hash c) = Some dev"
    and "pv_by_hash s h = Some dev \<Longrightarrow> \<exists>c. map_of (pv_credentials s) dev = Some c \<and> cd_hash c = h"
    and "map_of (pv_retired s) h = Some e \<Longrightarrow> pv_by_hash s h = None"
    and "map_of (pv_retired s) h = Some e \<Longrightarrow> map_of (pv_credentials s) (rt_device e) \<noteq> None"
  using assms unfolding cred_inv_def by blast+

lemma cred_inv_cong:
  "pv_credentials t = pv_credentials s \<Longrightarrow> pv_by_hash t = pv_by_hash s \<Longrightarrow> pv_retired t = pv_retired s \<Longrightarrow>
     cred_inv digest t = cred_inv digest s"
  by (simp add: cred_inv_def)

lemma hash_nonempty [simp]: "hash_token digest t \<noteq> []"
  by (simp add: hash_token_def credential_hash_prefix_def)

lemma cred_inv_challenges:
  "cred_inv digest (s\<lparr>pv_challenges := cs\<rparr>) = cred_inv digest s"
  "cred_inv digest (s\<lparr>pv_active := a\<rparr>) = cred_inv digest s"
  "cred_inv digest (s\<lparr>pv_armed_until := t\<rparr>) = cred_inv digest s"
  "cred_inv digest (s\<lparr>pv_store := st\<rparr>) = cred_inv digest s"
  by (simp_all add: cred_inv_def)

lemma map_of_filter_retired:
  "keys_distinct m \<Longrightarrow> map_of (filter (\<lambda>(h, e). P e) m) h = (case map_of m h of None \<Rightarrow> None | Some e \<Rightarrow> if P e then Some e else None)"
  using map_of_filter_snd [of m "\<lambda>h e. P e" h] by simp

lemma retired_prune_sub:
  "cred_inv digest s \<Longrightarrow> map_of (pv_retired (prune_retired now s)) h = Some e \<Longrightarrow> map_of (pv_retired s) h = Some e"
  using map_of_filter_retired [of "pv_retired s" "\<lambda>e. \<not> rt_until e < now" h] cred_invD(2)
  by (auto simp: prune_retired_def split: option.splits if_splits)

lemma prune_retired_fields:
  "pv_credentials (prune_retired now s) = pv_credentials s" "pv_by_hash (prune_retired now s) = pv_by_hash s"
  "pv_store (prune_retired now s) = pv_store s" "pv_challenges (prune_retired now s) = pv_challenges s"
  "pv_active (prune_retired now s) = pv_active s" "pv_armed_until (prune_retired now s) = pv_armed_until s"
  "pv_grace (prune_retired now s) = pv_grace s" "pv_base_scopes (prune_retired now s) = pv_base_scopes s"
  by (simp_all add: prune_retired_def)

lemma cred_inv_prune_retired:
  assumes "cred_inv digest s"
  shows "cred_inv digest (prune_retired now s)"
proof (rule cred_invI)
  show "keys_distinct (pv_credentials (prune_retired now s))" "keys_distinct (pv_retired (prune_retired now s))"
    using cred_invD(1,2) [OF assms] by (auto simp: prune_retired_def)
  fix dev c assume "map_of (pv_credentials (prune_retired now s)) dev = Some c"
  then have c: "map_of (pv_credentials s) dev = Some c" by (simp only: prune_retired_fields)
  show "cred_ok digest dev c" by (rule cred_invD(3) [OF assms c])
  show "pv_by_hash (prune_retired now s) (cd_hash c) = Some dev"
    unfolding prune_retired_fields by (rule cred_invD(4) [OF assms c])
next
  fix h dev assume "pv_by_hash (prune_retired now s) h = Some dev"
  then have "pv_by_hash s h = Some dev" by (simp only: prune_retired_fields)
  from cred_invD(5) [OF assms this]
  show "\<exists>c. map_of (pv_credentials (prune_retired now s)) dev = Some c \<and> cd_hash c = h"
    by (simp only: prune_retired_fields)
next
  fix h e assume "map_of (pv_retired (prune_retired now s)) h = Some e"
  from retired_prune_sub [OF assms this] have e: "map_of (pv_retired s) h = Some e" .
  show "pv_by_hash (prune_retired now s) h = None"
    unfolding prune_retired_fields by (rule cred_invD(6) [OF assms e])
  show "map_of (pv_credentials (prune_retired now s)) (rt_device e) \<noteq> None"
    unfolding prune_retired_fields by (rule cred_invD(7) [OF assms e])
qed

lemma delete_fields:
  assumes "cred_inv digest s"
  shows "pv_by_hash (delete_credential io dev s) h = (if pv_by_hash s h = Some dev then None else pv_by_hash s h)"
    and "map_of (pv_credentials (delete_credential io dev s)) d = (if d = dev then None else map_of (pv_credentials s) d)"
    and "map_of (pv_retired (delete_credential io dev s)) h =
      (case map_of (pv_retired s) h of None \<Rightarrow> None | Some e \<Rightarrow> if rt_device e \<noteq> dev then Some e else None)"
proof -
  show "pv_by_hash (delete_credential io dev s) h = (if pv_by_hash s h = Some dev then None else pv_by_hash s h)"
  proof (cases "map_of (pv_credentials s) dev")
    case None
    then have "pv_by_hash s h \<noteq> Some dev" using cred_invD(5) [OF assms] by fastforce
    with None show ?thesis by (simp add: delete_credential_def Let_def)
  next
    case (Some c)
    have ne: "cd_hash c \<noteq> []" using cred_invD(3) [OF assms Some] by (simp add: cred_ok_def)
    have ix: "pv_by_hash s (cd_hash c) = Some dev" by (rule cred_invD(4) [OF assms Some])
    have eq: "pv_by_hash (delete_credential io dev s) = (pv_by_hash s)(cd_hash c := None)"
      using Some ne ix by (simp add: delete_credential_def)
    show ?thesis
    proof (cases "pv_by_hash s h = Some dev")
      case True
      from cred_invD(5) [OF assms True] Some have "cd_hash c = h" by auto
      then show ?thesis using True unfolding eq by simp
    next
      case False
      then have "h \<noteq> cd_hash c" using ix by auto
      then show ?thesis using False unfolding eq by simp
    qed
  qed
  show "map_of (pv_credentials (delete_credential io dev s)) d = (if d = dev then None else map_of (pv_credentials s) d)"
    by (simp add: delete_credential_def Let_def delete_conv')
  show "map_of (pv_retired (delete_credential io dev s)) h =
      (case map_of (pv_retired s) h of None \<Rightarrow> None | Some e \<Rightarrow> if rt_device e \<noteq> dev then Some e else None)"
    using map_of_filter_retired [OF cred_invD(2) [OF assms], of "\<lambda>e. rt_device e \<noteq> dev" h]
    by (simp add: delete_credential_def Let_def)
qed

lemma cred_inv_delete:
  assumes inv: "cred_inv digest s"
  shows "cred_inv digest (delete_credential io dev s)"
proof (rule cred_invI)
  let ?s = "delete_credential io dev s"
  note f = delete_fields [OF inv, of io dev]
  show "keys_distinct (pv_credentials ?s)" "keys_distinct (pv_retired ?s)"
    using cred_invD(1,2) [OF inv] by (auto simp: delete_credential_def Let_def)
  fix d c assume "map_of (pv_credentials ?s) d = Some c"
  then have c: "d \<noteq> dev" "map_of (pv_credentials s) d = Some c" by (simp_all add: f split: if_splits)
  show "cred_ok digest d c" "pv_by_hash ?s (cd_hash c) = Some d"
    using cred_invD(3,4) [OF inv c(2)] c(1) by (simp_all add: f)
next
  let ?s = "delete_credential io dev s"
  note f = delete_fields [OF inv, of io dev]
  fix h d assume "pv_by_hash ?s h = Some d"
  then have h: "d \<noteq> dev" "pv_by_hash s h = Some d" by (auto simp: f split: if_splits)
  show "\<exists>c. map_of (pv_credentials ?s) d = Some c \<and> cd_hash c = h"
    using cred_invD(5) [OF inv h(2)] h(1) by (simp add: f)
next
  let ?s = "delete_credential io dev s"
  note f = delete_fields [OF inv, of io dev]
  fix h e assume "map_of (pv_retired ?s) h = Some e"
  then have e: "rt_device e \<noteq> dev" "map_of (pv_retired s) h = Some e" by (auto simp: f split: option.splits if_splits)
  show "pv_by_hash ?s h = None" "map_of (pv_credentials ?s) (rt_device e) \<noteq> None"
    using cred_invD(6,7) [OF inv e(2)] e(1) by (simp_all add: f)
qed

lemma fold_keeps: "P s \<Longrightarrow> (\<And>x s. x \<in> set xs \<Longrightarrow> P s \<Longrightarrow> P (f x s)) \<Longrightarrow> P (fold f xs s)"
  by (induction xs arbitrary: s) simp_all

lemma cred_inv_prune:
  assumes "cred_inv digest s"
  shows "cred_inv digest (prune_credentials io now s)"
  unfolding prune_credentials_def
proof (rule cred_inv_prune_retired, rule fold_keeps [where P = "cred_inv digest", OF assms])
  fix x :: "string \<times> credential" and t
  assume t: "cred_inv digest t"
  obtain dev c where "x = (dev, c)" by (cases x)
  then show "cred_inv digest ((case x of (dev, c) \<Rightarrow> \<lambda>s. if should_reap (pv_grace s) (cd_expires c) now
      then delete_credential io dev s else s) t)"
    using t cred_inv_delete [OF t, of io dev] by simp
qed

lemma expire_creds: "cred_inv digest (expire_challenge cid r s) = cred_inv digest s"
  by (simp add: expire_challenge_def cred_inv_def)

lemma cred_inv_prune_challenge: "cred_inv digest (prune_challenge now e s) = cred_inv digest s"
  by (simp add: prune_challenge_def expire_creds cred_inv_challenges split: prod.split)

lemma cred_inv_prune_expired:
  assumes "cred_inv digest s"
  shows "cred_inv digest (prune_expired io now s)"
  unfolding prune_expired_def
  by (rule cred_inv_prune, rule fold_keeps [where P = "cred_inv digest", OF assms]) (simp add: cred_inv_prune_challenge)

lemma cred_inv_active: "cred_inv digest (fst (active_challenge s)) = cred_inv digest s"
  by (simp add: active_challenge_def cred_inv_challenges split: option.split)

lemma cred_inv_armed: "cred_inv digest (fst (is_armed now s)) = cred_inv digest s"
  by (simp add: is_armed_def cred_inv_challenges)

text \<open>Issuing a credential and replacing one by its successor.\<close>

lemma cred_inv_issue:
  assumes inv: "cred_inv digest s" and none: "map_of (pv_credentials s) dev = None"
    and ok: "cred_ok digest dev c" and fresh: "unused_hash (cd_hash c) s"
  shows "cred_inv digest (index_credential c (s\<lparr>pv_credentials := AList.update dev c (pv_credentials s)\<rparr>))" (is "cred_inv digest ?s")
proof (rule cred_invI)
  have f: "pv_by_hash ?s = (pv_by_hash s)(cd_hash c \<mapsto> dev)" "pv_retired ?s = pv_retired s"
    "pv_credentials ?s = AList.update dev c (pv_credentials s)"
    using ok by (simp_all add: index_credential_def cred_ok_def)
  show "keys_distinct (pv_credentials ?s)" "keys_distinct (pv_retired ?s)"
    using cred_invD(1,2) [OF inv] by (auto simp: f)
  fix d x assume x: "map_of (pv_credentials ?s) d = Some x"
  show "cred_ok digest d x" using x ok cred_invD(3) [OF inv] by (auto simp: f update_conv' split: if_splits)
  show "pv_by_hash ?s (cd_hash x) = Some d"
  proof (cases "d = dev")
    case False
    then have "pv_by_hash s (cd_hash x) = Some d" using x cred_invD(4) [OF inv] by (simp add: f update_conv')
    then show ?thesis using fresh by (auto simp: f unused_hash_def)
  next
    case True
    then have "x = c" using x by (simp add: f(3) update_conv')
    then show ?thesis using True unfolding f(1) by simp
  qed
next
  have f: "pv_by_hash ?s = (pv_by_hash s)(cd_hash c \<mapsto> dev)" "pv_retired ?s = pv_retired s"
    "pv_credentials ?s = AList.update dev c (pv_credentials s)"
    using ok by (simp_all add: index_credential_def cred_ok_def)
  {
    fix h d assume h: "pv_by_hash ?s h = Some d"
    show "\<exists>x. map_of (pv_credentials ?s) d = Some x \<and> cd_hash x = h"
    proof (cases "h = cd_hash c")
      case False
      then obtain x where x: "map_of (pv_credentials s) d = Some x" "cd_hash x = h"
        using h cred_invD(5) [OF inv] by (auto simp: f)
      then show ?thesis using none by (auto simp: f update_conv')
    next
      case True
      then have "d = dev" using h unfolding f(1) by simp
      then show ?thesis using True unfolding f(3) by (simp add: update_conv')
    qed
  }
  fix h e assume e: "map_of (pv_retired ?s) h = Some e"
  then show "pv_by_hash ?s h = None" "map_of (pv_credentials ?s) (rt_device e) \<noteq> None"
    using cred_invD(6,7) [OF inv, of h e] fresh by (auto simp: f unused_hash_def update_conv')
qed

lemma cred_inv_touch:
  assumes inv: "cred_inv digest s" and c: "map_of (pv_credentials s) dev = Some c"
  shows "cred_inv digest (s\<lparr>pv_credentials := AList.update dev (c\<lparr>cd_expired := x\<rparr>) (pv_credentials s)\<rparr>)" (is "cred_inv digest ?s")
proof (rule cred_invI)
  show "keys_distinct (pv_credentials ?s)" "keys_distinct (pv_retired ?s)"
    using cred_invD(1,2) [OF inv] by auto
  fix d y assume "map_of (pv_credentials ?s) d = Some y"
  then show "cred_ok digest d y" "pv_by_hash ?s (cd_hash y) = Some d"
    using cred_invD(3,4) [OF inv] cred_invD(3,4) [OF inv c] by (auto simp: update_conv' cred_ok_def split: if_splits)
next
  fix h d assume "pv_by_hash ?s h = Some d"
  then show "\<exists>y. map_of (pv_credentials ?s) d = Some y \<and> cd_hash y = h"
    using cred_invD(5) [OF inv] c by (fastforce simp: update_conv')
next
  fix h e assume "map_of (pv_retired ?s) h = Some e"
  then show "pv_by_hash ?s h = None" "map_of (pv_credentials ?s) (rt_device e) \<noteq> None"
    using cred_invD(6,7) [OF inv] by (auto simp: update_conv')
qed

lemma cred_inv_rotate:
  assumes inv: "cred_inv digest s" and c: "map_of (pv_credentials s) dev = Some c"
    and ok: "cred_ok digest dev c'" and fresh: "unused_hash (cd_hash c') s"
    and f: "pv_credentials t = AList.update dev c' (pv_credentials s)"
      "pv_by_hash t = (pv_by_hash s)(cd_hash c := None, cd_hash c' \<mapsto> dev)"
      "pv_retired t = filter (\<lambda>(h, e). \<not> rt_until e < now) (AList.update (cd_hash c) \<lparr>rt_device = dev, rt_until = u\<rparr> (pv_retired s))"
  shows "cred_inv digest t"
proof -
  have old: "pv_by_hash s (cd_hash c) = Some dev" by (rule cred_invD(4) [OF inv c])
  have new: "pv_by_hash s (cd_hash c') = None" "map_of (pv_retired s) (cd_hash c') = None"
    using fresh by (simp_all add: unused_hash_def)
  have ne: "cd_hash c' \<noteq> cd_hash c" using old new(1) by auto
  have kr: "keys_distinct (AList.update (cd_hash c) \<lparr>rt_device = dev, rt_until = u\<rparr> (pv_retired s))"
    using cred_invD(2) [OF inv] by auto
  show ?thesis
  proof (rule cred_invI)
    show "keys_distinct (pv_credentials t)" "keys_distinct (pv_retired t)"
      using cred_invD(1) [OF inv] kr by (auto simp: f)
    fix d x assume x: "map_of (pv_credentials t) d = Some x"
    show "cred_ok digest d x" using x ok cred_invD(3) [OF inv] by (auto simp: f update_conv' split: if_splits)
    show "pv_by_hash t (cd_hash x) = Some d"
    proof (cases "d = dev")
      case False
      then have "pv_by_hash s (cd_hash x) = Some d" using x cred_invD(4) [OF inv] by (simp add: f update_conv')
      then show ?thesis using old new False by (auto simp: f)
    next
      case True
      then have "x = c'" using x by (simp add: f(1) update_conv')
      then show ?thesis using True unfolding f(2) by simp
    qed
  next
    fix h d assume h: "pv_by_hash t h = Some d"
    show "\<exists>x. map_of (pv_credentials t) d = Some x \<and> cd_hash x = h"
    proof (cases "h = cd_hash c'")
      case False
      then have hd: "h \<noteq> cd_hash c" "pv_by_hash s h = Some d" using h by (auto simp: f split: if_splits)
      then obtain x where x: "map_of (pv_credentials s) d = Some x" "cd_hash x = h" using cred_invD(5) [OF inv] by blast
      then have "d \<noteq> dev" using c hd(1) by auto
      then show ?thesis using x by (auto simp: f update_conv')
    next
      case True
      then have "d = dev" using h unfolding f(2) by simp
      then show ?thesis using True unfolding f(1) by (simp add: update_conv')
    qed
  next
    fix h e assume "map_of (pv_retired t) h = Some e"
    then have e: "h = cd_hash c \<and> rt_device e = dev \<or> h \<noteq> cd_hash c \<and> map_of (pv_retired s) h = Some e"
      using map_of_filter_retired [OF kr, of "\<lambda>e. \<not> rt_until e < now" h]
      by (auto simp: f update_conv' split: option.splits if_splits)
    then show "pv_by_hash t h = None" "map_of (pv_credentials t) (rt_device e) \<noteq> None"
      using cred_invD(6,7) [OF inv, of h e] ne new by (auto simp: f update_conv')
  qed
qed


section \<open>What an operation does to the credentials\<close>

text \<open>
  Every operation is composed of six effects on the credentials; a predicate that survives them survives
  the operation.
\<close>

lemma prune_keeps:
  assumes "P s" and del: "\<And>s dev. P s \<Longrightarrow> P (delete_credential io dev s)"
    and ret: "\<And>s. P s \<Longrightarrow> P (prune_retired now s)"
  shows "P (prune_credentials io now s)"
  unfolding prune_credentials_def
proof (rule ret, rule fold_keeps [where P = P, OF assms(1)])
  fix x :: "string \<times> credential" and t
  assume "P t"
  then show "P ((case x of (dev, c) \<Rightarrow> \<lambda>s. if should_reap (pv_grace s) (cd_expires c) now
      then delete_credential io dev s else s) t)"
    using del by (cases x) simp
qed

definition challenge_free :: "(pairing_service \<Rightarrow> bool) \<Rightarrow> bool" where
  "challenge_free P \<longleftrightarrow> (\<forall>s cs a t. P s \<longrightarrow> P (s\<lparr>pv_challenges := cs, pv_active := a, pv_armed_until := t\<rparr>))"

lemma challenge_freeD:
  assumes "challenge_free P" "P s"
  shows "P (s\<lparr>pv_challenges := cs, pv_active := a, pv_armed_until := t\<rparr>)"
    "P (s\<lparr>pv_challenges := cs, pv_active := a\<rparr>)" "P (s\<lparr>pv_challenges := cs\<rparr>)"
    "P (s\<lparr>pv_active := a\<rparr>)" "P (s\<lparr>pv_armed_until := t\<rparr>)"
    "P (s\<lparr>pv_active := a, pv_challenges := cs\<rparr>)"
proof -
  have all: "P (s\<lparr>pv_challenges := cs, pv_active := a, pv_armed_until := t\<rparr>)" for cs a t
    using assms unfolding challenge_free_def by blast
  show "P (s\<lparr>pv_challenges := cs, pv_active := a, pv_armed_until := t\<rparr>)" by (rule all)
  show "P (s\<lparr>pv_challenges := cs, pv_active := a\<rparr>)" using all [where cs = cs and a = a and t = "pv_armed_until s"] by simp
  show "P (s\<lparr>pv_challenges := cs\<rparr>)" using all [where cs = cs and a = "pv_active s" and t = "pv_armed_until s"] by simp
  show "P (s\<lparr>pv_active := a\<rparr>)" using all [where cs = "pv_challenges s" and a = a and t = "pv_armed_until s"] by simp
  show "P (s\<lparr>pv_armed_until := t\<rparr>)" using all [where cs = "pv_challenges s" and a = "pv_active s" and t = t] by simp
  show "P (s\<lparr>pv_active := a, pv_challenges := cs\<rparr>)"
    using all [where cs = cs and a = a and t = "pv_armed_until s"] by (cases s) simp
qed

lemma active_challenge_keeps: "challenge_free P \<Longrightarrow> P s \<Longrightarrow> P (fst (active_challenge s))"
  by (simp add: active_challenge_def challenge_freeD split: option.split)

lemma is_armed_keeps: "challenge_free P \<Longrightarrow> P s \<Longrightarrow> P (fst (is_armed now s))"
  by (simp add: is_armed_def challenge_freeD)

lemma expire_keeps: "challenge_free P \<Longrightarrow> P s \<Longrightarrow> P (expire_challenge cid r s)"
  unfolding expire_challenge_def by (rule challenge_freeD)

lemma resolve_keeps:
  assumes "challenge_free P" "P s"
  shows "P (fst (resolve_challenge cid now s))"
proof (cases "cid = []")
  case True
  obtain s1 r where a: "active_challenge s = (s1, r)" by fastforce
  have s1: "P s1" using active_challenge_keeps [OF assms] a by simp
  have "P (expire_challenge x y s1)" for x y by (rule expire_keeps [OF assms(1) s1])
  then show ?thesis using True a s1 by (simp add: resolve_challenge_def split: option.split)
next
  case False
  have "P (expire_challenge x y s)" for x y by (rule expire_keeps [OF assms])
  then show ?thesis using False assms(2) by (simp add: resolve_challenge_def split: option.split)
qed

lemma prune_challenges_keeps:
  assumes "challenge_free P" "P s"
  shows "P (fold (prune_challenge now) xs s)"
proof (rule fold_keeps [where P = P, OF assms(2)])
  fix x t assume "P t"
  then show "P (prune_challenge now x t)"
    using challenge_freeD(3) [OF assms(1)] expire_keeps [OF assms(1)]
    by (cases x) (simp add: prune_challenge_def)
qed

lemma prune_expired_keeps:
  assumes "challenge_free P" "P s" and "\<And>s dev. P s \<Longrightarrow> P (delete_credential io dev s)"
    and "\<And>s. P s \<Longrightarrow> P (prune_retired now s)"
  shows "P (prune_expired io now s)"
  unfolding prune_expired_def
  by (rule prune_keeps [where P = P, OF prune_challenges_keeps [OF assms(1,2)]]) (use assms(3,4) in blast)+


lemma credential_at_known: "map_of (pv_credentials s) dev = Some c \<Longrightarrow> credential_at dev s = c"
  by (simp add: credential_at_def)

lemma no_legacy:
  assumes "cred_inv digest s"
  shows "legacy_device token s = None"
proof -
  have "cd_hash c \<noteq> []" if "(dev, c) \<in> set (pv_credentials s)" for dev c
  proof -
    have "map_of (pv_credentials s) dev = Some c" using that cred_invD(1) [OF assms] by (simp add: keys_distinct_def)
    from cred_invD(3) [OF assms this] show ?thesis by (simp add: cred_ok_def)
  qed
  then show ?thesis by (fastforce simp: legacy_device_def find_None_iff)
qed

definition issued :: "(string \<Rightarrow> string) \<Rightarrow> (string \<Rightarrow> bool) \<Rightarrow> credential \<Rightarrow> pairing_service \<Rightarrow> pairing_service" where
  "issued digest io c s =
     persist io (record_of c) (index_credential c (s\<lparr>pv_credentials := AList.update (cd_device c) c (pv_credentials s)\<rparr>))"

locale credential_effects =
  fixes digest :: "string \<Rightarrow> string" and io :: "string \<Rightarrow> bool" and now :: gtime
    and P :: "pairing_service \<Rightarrow> bool"
  assumes indexed: "P s \<Longrightarrow> cred_inv digest s"
    and neutral: "challenge_free P"
    and deletes: "P s \<Longrightarrow> P (delete_credential io dev s)"
    and retires: "P s \<Longrightarrow> P (prune_retired now s)"
    and touches: "P s \<Longrightarrow> map_of (pv_credentials s) dev = Some c \<Longrightarrow>
      P (s\<lparr>pv_credentials := AList.update dev (c\<lparr>cd_expired := x\<rparr>) (pv_credentials s)\<rparr>)"
    and gives: "P s \<Longrightarrow> map_of (pv_credentials s) dev = None \<Longrightarrow> token \<noteq> [] \<Longrightarrow> unused_hash (hash_token digest token) s \<Longrightarrow>
      P (issued digest io (new_credential digest now dev token name key s) s)"
    and rotates: "P s \<Longrightarrow> map_of (pv_credentials s) dev = Some c \<Longrightarrow> fresh \<noteq> [] \<Longrightarrow> unused_hash (hash_token digest fresh) s \<Longrightarrow>
      P (fst (rotate_credential digest io now fresh token presented dev s))"
begin

lemma prunes: "P s \<Longrightarrow> P (prune_credentials io now s)"
  by (rule prune_keeps [where P = P]) (simp_all add: deletes retires)

lemma prunes_all: "P s \<Longrightarrow> P (prune_expired io now s)"
  by (rule prune_expired_keeps [where P = P, OF neutral]) (simp_all add: deletes retires)

lemma starts: "P s \<Longrightarrow> P (fst (start_pairing io now cid code s))"
proof -
  assume "P s"
  obtain s1 r where a: "active_challenge (prune_expired io now s) = (s1, r)" by fastforce
  obtain s2 b where b: "is_armed now s1 = (s2, b)" by fastforce
  have "P s1" using active_challenge_keeps [OF neutral prunes_all [OF \<open>P s\<close>]] a by simp
  moreover from is_armed_keeps [OF neutral this, of now] b have "P s2" by simp
  ultimately show ?thesis
    using challenge_freeD(6) [OF neutral]
    by (simp add: start_pairing_def a b Let_def split: option.split)
qed

lemma approves: "P s \<Longrightarrow> P (fst (start_with_approval io now cid code s))"
  unfolding start_with_approval_def by (intro starts challenge_freeD(5) [OF neutral])

lemma cancels: "P s \<Longrightarrow> P (fst (cancel_challenge io now cid s))"
proof -
  assume "P s"
  from prunes_all [OF this] have s1: "P (prune_expired io now s)" .
  show ?thesis
    using s1 challenge_freeD(2) [OF neutral s1] challenge_freeD(3) [OF neutral s1]
    by (simp add: cancel_challenge_def Let_def split: option.split)
qed

lemma validates: "P s \<Longrightarrow> P (fst (validate_credential digest io now token s))"
proof -
  assume s: "P s"
  have dev: "P (fst (validate_device io now dev s))" if h: "pv_by_hash s h = Some dev" for h dev
  proof -
    from cred_invD(5) [OF indexed [OF s] h] obtain c where c: "map_of (pv_credentials s) dev = Some c" by blast
    show ?thesis using s touches [OF s c] deletes [OF s, of dev]
      by (simp add: validate_device_def credential_at_known [OF c] Let_def)
  qed
  show ?thesis
    using s dev prunes [OF s]
    by (simp add: validate_credential_def no_legacy [OF indexed [OF s]] split: option.split)
qed

lemma refreshes:
  "P s \<Longrightarrow> fresh \<noteq> [] \<Longrightarrow> unused_hash (hash_token digest fresh) s \<Longrightarrow> P (fst (refresh_credential digest io now fresh token s))"
proof -
  assume s: "P s" and fresh: "fresh \<noteq> []" "unused_hash (hash_token digest fresh) s"
  have dev: "P (fst (rotate_credential digest io now fresh token presented dev s))"
    if "map_of (pv_credentials s) dev = Some c" for presented dev c by (rule rotates [OF s that fresh])
  have live: "map_of (pv_credentials s) dev \<noteq> None" if "pv_by_hash s h = Some dev" for h dev
    using cred_invD(5) [OF indexed [OF s] that] by auto
  have ret: "map_of (pv_credentials s) (rt_device e) \<noteq> None" if "retired_device digest token now s = Some e" for e
    using that by (auto simp: retired_device_def split: option.splits if_splits)
  show ?thesis
  proof (cases "pv_by_hash s (hash_token digest token)")
    case None
    show ?thesis
    proof (cases "retired_device digest token now s")
      case None
      then show ?thesis using s prunes [OF s] \<open>pv_by_hash s (hash_token digest token) = None\<close>
        by (simp add: refresh_credential_def Let_def no_legacy [OF indexed [OF s]])
    next
      case (Some e)
      then obtain c where c: "map_of (pv_credentials s) (rt_device e) = Some c" using ret by blast
      show ?thesis using s deletes [OF s, of "rt_device e"] dev [OF c] Some \<open>pv_by_hash s (hash_token digest token) = None\<close>
        by (simp add: refresh_credential_def Let_def no_legacy [OF indexed [OF s]] credential_at_known [OF c])
    qed
  next
    case (Some d)
    then obtain c where c: "map_of (pv_credentials s) d = Some c" using live by blast
    show ?thesis using s deletes [OF s, of d] dev [OF c] Some
      by (simp add: refresh_credential_def Let_def credential_at_known [OF c])
  qed
qed

lemma completes:
  assumes s: "P s" and none: "map_of (pv_credentials s) dev = None" and token: "token \<noteq> []"
    and unused: "unused_hash (hash_token digest token) s"
  shows "P (fst (complete_pairing digest io now dev token cid code name key s))"
proof -
  let ?Q = "\<lambda>t. P t \<and> map_of (pv_credentials t) dev = None \<and> unused_hash (hash_token digest token) t"
  have free: "challenge_free ?Q"
    unfolding challenge_free_def
    using challenge_freeD(1) [OF neutral] by (simp add: unused_hash_def)
  have del: "?Q (delete_credential io d t)" if "?Q t" for t d
    using that deletes [of t d] delete_fields [OF indexed, of t io d] by (simp add: unused_hash_def)
  have ret: "?Q (prune_retired now t)" if "?Q t" for t
  proof -
    have "map_of (pv_retired (prune_retired now t)) (hash_token digest token) = None"
      using retired_prune_sub [OF indexed, of t now "hash_token digest token"] that
      by (cases "map_of (pv_retired (prune_retired now t)) (hash_token digest token)") (auto simp: unused_hash_def)
    then show ?thesis using that retires [of t] by (simp add: unused_hash_def prune_retired_fields)
  qed
  have "?Q (prune_credentials io now s)"
    by (rule prune_keeps [where P = ?Q, OF _ del ret]) (use s none unused in simp_all)
  from resolve_keeps [OF free this, of cid now]
  obtain s1 res where r: "resolve_challenge cid now (prune_credentials io now s) = (s1, res)" and q: "?Q s1"
    by (cases "resolve_challenge cid now (prune_credentials io now s)") auto
  have i: "P (issued digest io (new_credential digest now dev token name key s1) s1)"
    using q gives [of s1 dev token name key] token by blast
  have j: "issued digest io (new_credential digest now dev token name key s1) s1 =
      persist io (record_of (new_credential digest now dev token name key s1))
        (index_credential (new_credential digest now dev token name key s1)
          (s1\<lparr>pv_credentials := AList.update dev (new_credential digest now dev token name key s1) (pv_credentials s1)\<rparr>))"
    by (simp add: issued_def new_credential_def)
  show ?thesis
    using s q challenge_freeD(1) [OF neutral i]
    by (simp add: complete_pairing_def r Let_def j split: sum.split prod.split)
qed

lemma op_effects:
  assumes "P s" "fresh_op digest s op"
  shows "P (pairing_step digest io now s op)"
proof (cases op)
  case (PComplete dev token cid code name key)
  then show ?thesis using assms by (simp add: fresh_op_def completes)
next
  case (PRefresh fresh token)
  then show ?thesis using assms by (simp add: fresh_op_def refreshes)
next
  case (PRevoke dev)
  then show ?thesis using assms by (simp add: revoke_device_def deletes split: option.split)
qed (use assms active_challenge_keeps [OF neutral prunes_all] in
    \<open>simp_all add: approves starts cancels validates prunes prunes_all active_status_def get_status_def
       list_devices_def active_device_count_def Let_def case_prod_unfold\<close>)

end

definition rotated :: "(string \<Rightarrow> string) \<Rightarrow> gtime \<Rightarrow> string \<Rightarrow> pairing_service \<Rightarrow> credential \<Rightarrow> credential" where
  "rotated digest now fresh s c =
     c\<lparr>cd_token := fresh, cd_hash := hash_token digest fresh, cd_expires := now + pv_token_ttl s, cd_expired := None\<rparr>"

definition rotated_row ::
  "(string \<Rightarrow> string) \<Rightarrow> gtime \<Rightarrow> string \<Rightarrow> string \<Rightarrow> retired_token option \<Rightarrow> pairing_service \<Rightarrow> credential \<Rightarrow> pairing_record" where
  "rotated_row digest now fresh token presented s c =
     (record_of (rotated digest now fresh s c))
       \<lparr>pg_retired := (case presented of Some e \<Rightarrow> hash_token digest token | None \<Rightarrow> cd_hash c),
        pg_retired_until := (case presented of Some e \<Rightarrow> rt_until e | None \<Rightarrow> now + default_rotation_overlap)\<rparr>"

lemma rotate_result:
  assumes inv: "cred_inv digest s" and c: "map_of (pv_credentials s) dev = Some c" and fresh: "unused_hash (hash_token digest fresh) s"
    and up: "pv_store s = None \<or> io dev"
  shows "rotate_credential digest io now fresh token presented dev s =
    (s\<lparr>pv_credentials := AList.update dev (rotated digest now fresh s c) (pv_credentials s),
       pv_by_hash := (pv_by_hash s)(cd_hash c := None, hash_token digest fresh \<mapsto> dev),
       pv_retired := filter (\<lambda>(h, e). \<not> rt_until e < now)
         (AList.update (cd_hash c) \<lparr>rt_device = dev, rt_until = now + default_rotation_overlap\<rparr> (pv_retired s)),
       pv_store := map_option (save_pairing (rotated_row digest now fresh token presented s c)) (pv_store s)\<rparr>,
     Inr (rotated digest now fresh s c))"
proof -
  have d: "cd_device c = dev" and ne: "cd_hash c \<noteq> []" using cred_invD(3) [OF inv c] by (auto simp: cred_ok_def)
  have nh: "cd_hash c \<noteq> hash_token digest fresh"
    using cred_invD(4) [OF inv c] fresh by (auto simp: unused_hash_def)
  note simps = rotate_credential_def credential_at_known [OF c] Let_def d ne nh persist_def index_credential_def
    prune_retired_def rotated_def rotated_row_def record_of_def
  have st: "pv_store s \<noteq> None \<longrightarrow> io dev" using up by auto
  show ?thesis
    unfolding prod_eq_iff
    by (intro conjI pairing_service.equality) (use st in \<open>auto simp: simps split: option.split\<close>)
qed

lemma rotate_refused:
  assumes "cred_inv digest s" "map_of (pv_credentials s) dev = Some c" "\<not> (pv_store s = None \<or> io dev)"
  shows "rotate_credential digest io now fresh token presented dev s = (s, Inl ErrStore)"
  using assms cred_invD(3) [OF assms(1,2)]
  by (simp add: rotate_credential_def credential_at_known [OF assms(2)] Let_def cred_ok_def)

lemma cred_inv_rotates:
  assumes inv: "cred_inv digest s" and c: "map_of (pv_credentials s) dev = Some c" and fresh: "fresh \<noteq> []"
    and unused: "unused_hash (hash_token digest fresh) s"
  shows "cred_inv digest (fst (rotate_credential digest io now fresh token presented dev s))"
proof (cases "pv_store s = None \<or> io dev")
  case True
  note r = rotate_result [where io = io and now = now and token = token and presented = presented, OF inv c unused True]
  show ?thesis
    unfolding r fst_conv
    by (rule cred_inv_rotate [OF inv c, where c' = "rotated digest now fresh s c" and now = now and u = "now + default_rotation_overlap"])
      (use cred_invD(3) [OF inv c] fresh unused in \<open>simp_all add: cred_ok_def rotated_def\<close>)
next
  case False
  show ?thesis using inv by (simp add: rotate_refused [where io = io, OF inv c False])
qed

lemma cred_inv_issued:
  assumes "cred_inv digest s" "map_of (pv_credentials s) dev = None" "token \<noteq> []" "unused_hash (hash_token digest token) s"
  shows "cred_inv digest (issued digest io (new_credential digest now dev token name key s) s)"
proof -
  let ?c = "new_credential digest now dev token name key s"
  have d: "cd_device ?c = dev" by (simp add: new_credential_def)
  have "cred_inv digest (index_credential ?c (s\<lparr>pv_credentials := AList.update dev ?c (pv_credentials s)\<rparr>))"
    by (rule cred_inv_issue [OF assms(1,2)]) (use assms(3,4) in \<open>simp_all add: cred_ok_def new_credential_def\<close>)
  then show ?thesis by (simp add: issued_def persist_def cred_inv_challenges d)
qed

lemma cred_inv_free: "challenge_free (cred_inv digest)"
  by (simp add: challenge_free_def cred_inv_def)

interpretation ci: credential_effects digest io now "cred_inv digest" for digest io now
  by unfold_locales
    (assumption | rule cred_inv_free cred_inv_delete cred_inv_prune_retired cred_inv_touch cred_inv_issued cred_inv_rotates)+

lemma paired_cred_inv: "paired digest reliable s a d \<Longrightarrow> cred_inv digest s"
proof (induction rule: paired.induct)
  case (paired_new store io now opts)
  then show ?case by (auto simp: new_service_def cred_inv_def keys_distinct_def)
next
  case (paired_step s a d op io now)
  show ?case by (rule ci.op_effects [OF paired_step.IH paired_step.hyps(2)])
qed

section \<open>Rotation\<close>

lemma validate_unknown:
  assumes "cred_inv digest s" "t \<noteq> []" "pv_by_hash s (hash_token digest t) = None"
  shows "validate_credential digest io now t s = (prune_credentials io now s, Inl ErrCredentialInvalid)"
  using assms by (simp add: validate_credential_def no_legacy)

lemma validate_known:
  assumes "t \<noteq> []" "pv_by_hash s (hash_token digest t) = Some dev" "map_of (pv_credentials s) dev = Some c" "\<not> cd_expires c < now"
  shows "validate_credential digest io now t s = (s, Inr c)"
  using assms by (simp add: validate_credential_def validate_device_def credential_at_known)

text \<open>A refresh of a live token that succeeds is the rotation.\<close>

lemma refresh_live:
  assumes inv: "cred_inv digest s" and live: "pv_by_hash s (hash_token digest t) = Some dev"
    and c: "map_of (pv_credentials s) dev = Some c" and ok: "refresh_credential digest io now fresh t s = (s', Inr r)"
  shows "t \<noteq> []" "rotate_credential digest io now fresh t None dev s = (s', Inr r)"
  using ok by (auto simp: refresh_credential_def Let_def live credential_at_known [OF c] split: if_splits)

lemma rotate_ok:
  assumes inv: "cred_inv digest s" and c: "map_of (pv_credentials s) dev = Some c"
    and ok: "rotate_credential digest io now fresh t presented dev s = (s', Inr r)"
  shows "pv_store s = None \<or> io dev"
proof (rule ccontr)
  assume "\<not> ?thesis"
  from rotate_refused [where io = io, OF inv c this] ok show False by simp
qed

text \<open>
  C37: rotation: after a refresh succeeded, the presented token authorizes nothing any more, the new token
  is the device's credential until it expires, and a client that lost the response and refreshes again
  with the old token within 48 hours is handed that same credential, with nothing rotated a second time.
\<close>

theorem refresh_rotates_token:
  assumes "paired digest reliable s a d" "fresh_op digest s (PRefresh fresh t)"
    and "pv_by_hash s (hash_token digest t) = Some dev"
    and "refresh_credential digest io now fresh t s = (s', Inr c)"
    and "now2 < cd_expires c" "now2 \<le> now + default_rotation_overlap"
  shows "cd_device c = dev \<and> cd_token c = fresh \<and>
    snd (validate_credential digest io2 now2 t s') = Inl ErrCredentialInvalid \<and>
    validate_credential digest io2 now2 fresh s' = (s', Inr c) \<and>
    refresh_credential digest io2 now2 other t s' = (s', Inr c)"
proof -
  note inv = paired_cred_inv [OF assms(1)]
  from assms(2) have fresh: "fresh \<noteq> []" "unused_hash (hash_token digest fresh) s" by (simp_all add: fresh_op_def)
  from cred_invD(5) [OF inv assms(3)] obtain k where k: "map_of (pv_credentials s) dev = Some k"
    and h: "cd_hash k = hash_token digest t" by blast
  note live = refresh_live [OF inv assms(3) k assms(4)]
  note up = rotate_ok [OF inv k live(2)]
  from rotate_result [where io = io and now = now and token = t and presented = None, OF inv k fresh(2) up] live(2)
  have c: "c = rotated digest now fresh s k"
    and s': "s' = s\<lparr>pv_credentials := AList.update dev (rotated digest now fresh s k) (pv_credentials s),
       pv_by_hash := (pv_by_hash s)(cd_hash k := None, hash_token digest fresh \<mapsto> dev),
       pv_retired := filter (\<lambda>(h, e). \<not> rt_until e < now)
         (AList.update (cd_hash k) \<lparr>rt_device = dev, rt_until = now + default_rotation_overlap\<rparr> (pv_retired s)),
       pv_store := map_option (save_pairing (rotated_row digest now fresh t None s k)) (pv_store s)\<rparr>"
    by simp_all
  have inv': "cred_inv digest s'"
    using cred_inv_rotates [OF inv k fresh, of io now t None] live(2) by simp
  have dev: "cd_device k = dev" using cred_invD(3) [OF inv k] by (simp add: cred_ok_def)
  have ne: "hash_token digest t \<noteq> hash_token digest fresh" using assms(3) fresh(2) by (auto simp: unused_hash_def)
  have cr: "map_of (pv_credentials s') dev = Some c" by (simp add: s' c update_conv')
  have new: "pv_by_hash s' (hash_token digest fresh) = Some dev" by (simp add: s')
  have old: "pv_by_hash s' (hash_token digest t) = None" using ne by (simp add: s' h)
  have over: "0 \<le> default_rotation_overlap" by (simp add: default_rotation_overlap_def)
  have kd: "keys_distinct (AList.update (cd_hash k) \<lparr>rt_device = dev, rt_until = now + default_rotation_overlap\<rparr> (pv_retired s))"
    using cred_invD(2) [OF inv] by auto
  have ret: "map_of (pv_retired s') (hash_token digest t) = Some \<lparr>rt_device = dev, rt_until = now + default_rotation_overlap\<rparr>"
    using map_of_filter_retired [OF kd, of "\<lambda>e. \<not> rt_until e < now" "hash_token digest t"] over
    by (simp add: s' h update_conv')
  have "retired_device digest t now2 s' = Some \<lparr>rt_device = dev, rt_until = now + default_rotation_overlap\<rparr>"
    using assms(6) cr by (simp add: retired_device_def ret)
  then have "refresh_credential digest io2 now2 other t s' = (s', Inr c)"
    using live(1) old cr fresh(1) assms(5)
    by (simp add: refresh_credential_def no_legacy [OF inv'] credential_at_known [OF cr] c rotated_def)
  moreover have "validate_credential digest io2 now2 fresh s' = (s', Inr c)"
    by (rule validate_known [OF fresh(1) new cr]) (use assms(5) in simp)
  ultimately show ?thesis
    using validate_unknown [OF inv' live(1) old] by (simp add: c rotated_def dev)
qed

definition ex_digest :: "string \<Rightarrow> string" where
  "ex_digest t = t @ ''.''"

definition ex_options :: pairing_options where
  "ex_options = \<lparr>po_arm_ttl = 0, po_token_ttl = 0, po_grace = 0, po_diagnostics = False, po_restart_env = False\<rparr>"

definition ex_pairing :: pairing_service where
  "ex_pairing = new_service ex_digest (\<lambda>_. True) 1 ex_options (Some [])"

definition ex_armed :: pairing_service where
  "ex_armed = pairing_step ex_digest (\<lambda>_. True) 2 ex_pairing (PApprove ''ch'' ''123456'')"

definition ex_paired :: pairing_service where
  "ex_paired = pairing_step ex_digest (\<lambda>_. True) 3 ex_armed (PComplete ''dev'' ''tok'' [] ''123456'' ''Phone'' [])"

lemma ex_armed_reached: "paired ex_digest True ex_armed 1 0"
proof -
  have "paired ex_digest True ex_pairing 0 0" unfolding ex_pairing_def by (rule paired_new) simp
  moreover have "fresh_op ex_digest ex_pairing (PApprove ''ch'' ''123456'')" by code_simp
  ultimately have "paired ex_digest True ex_armed (0 + approvals (PApprove ''ch'' ''123456''))
      (0 + issues ex_digest (\<lambda>_. True) 2 ex_pairing (PApprove ''ch'' ''123456''))"
    unfolding ex_armed_def by (rule paired_step) simp
  then show ?thesis by (simp add: approvals_def issues_def)
qed

lemma ex_paired_reached: "paired ex_digest True ex_paired 1 1"
proof -
  have "fresh_op ex_digest ex_armed (PComplete ''dev'' ''tok'' [] ''123456'' ''Phone'' [])" by code_simp
  with ex_armed_reached have "paired ex_digest True ex_paired (1 + approvals (PComplete ''dev'' ''tok'' [] ''123456'' ''Phone'' []))
      (0 + issues ex_digest (\<lambda>_. True) 3 ex_armed (PComplete ''dev'' ''tok'' [] ''123456'' ''Phone'' []))"
    unfolding ex_paired_def by (rule paired_step) simp
  moreover have "issues ex_digest (\<lambda>_. True) 3 ex_armed (PComplete ''dev'' ''tok'' [] ''123456'' ''Phone'' []) = 1" by code_simp
  ultimately show ?thesis by (simp add: approvals_def)
qed

theorem refresh_rotates_token_witness:
  "snd (validate_credential ex_digest (\<lambda>_. True) 9 ''tok'' (fst (refresh_credential ex_digest (\<lambda>_. True) 5 ''new'' ''tok'' ex_paired)))
     = Inl ErrCredentialInvalid"
proof -
  obtain s' c where r: "refresh_credential ex_digest (\<lambda>_. True) 5 ''new'' ''tok'' ex_paired = (s', Inr c)"
    and c: "9 < cd_expires c"
  proof -
    have "(case snd (refresh_credential ex_digest (\<lambda>_. True) 5 ''new'' ''tok'' ex_paired) of Inl _ \<Rightarrow> False | Inr c \<Rightarrow> 9 < cd_expires c)"
      by code_simp
    then show thesis using that
      by (cases "refresh_credential ex_digest (\<lambda>_. True) 5 ''new'' ''tok'' ex_paired") (auto split: sum.splits)
  qed
  have f: "fresh_op ex_digest ex_paired (PRefresh ''new'' ''tok'')" by code_simp
  have l: "pv_by_hash ex_paired (hash_token ex_digest ''tok'') = Some ''dev''" by code_simp
  from refresh_rotates_token [OF ex_paired_reached f l r c, of "\<lambda>_. True" "''x''"] show ?thesis
    by (simp add: r default_rotation_overlap_def)
qed

end
