(* ===== verification/Pairing_Restart.thy ===== *)
theory Pairing_Restart
  imports Pairing_Proofs
begin

text \<open>
  Memory and store of the pairing service agree while no store call fails, so a restart accepts the same
  tokens; and what a failed delete leaves behind.
\<close>

section \<open>Memory and store\<close>

definition row_of :: "credential \<Rightarrow> pairing_record \<Rightarrow> bool" where
  "row_of c r \<longleftrightarrow> pg_device r = cd_device c \<and> pg_name r = cd_name c \<and> pg_token r = cd_hash c \<and> pg_expires r = cd_expires c \<and>
     pg_scopes r = cd_scopes c \<and> pg_proof r = cd_proof c \<and> cd_scopes c \<noteq> []"

definition mirrored :: "pairing_service \<Rightarrow> bool" where
  "mirrored s \<longleftrightarrow> pv_base_scopes s \<noteq> [] \<and>
     (case pv_store s of None \<Rightarrow> True
      | Some rows \<Rightarrow> keys_distinct rows \<and> (\<forall>dev. rel_option row_of (map_of (pv_credentials s) dev) (map_of rows dev)))"

definition mirror_inv :: "(string \<Rightarrow> string) \<Rightarrow> pairing_service \<Rightarrow> bool" where
  "mirror_inv digest s \<longleftrightarrow> cred_inv digest s \<and> mirrored s"

lemma mirrored_cong:
  "pv_base_scopes t = pv_base_scopes s \<Longrightarrow> pv_credentials t = pv_credentials s \<Longrightarrow> pv_store t = pv_store s \<Longrightarrow>
     mirrored t = mirrored s"
  by (simp add: mirrored_def split: option.split)

lemma mirror_free: "challenge_free (mirror_inv digest)"
proof -
  have "mirrored (s\<lparr>pv_challenges := cs, pv_active := a, pv_armed_until := t\<rparr>) = mirrored s" for s cs a t
    by (rule mirrored_cong) simp_all
  then show ?thesis using cred_inv_free [of digest] by (simp add: challenge_free_def mirror_inv_def)
qed

lemma mirror_indexed: "mirror_inv digest s \<Longrightarrow> cred_inv digest s"
  by (simp add: mirror_inv_def)

lemma mirror_delete:
  assumes "mirror_inv digest s"
  shows "mirror_inv digest (delete_credential (\<lambda>_. True) dev s)"
  using assms cred_inv_delete [of digest s "\<lambda>_. True" dev]
  by (auto simp: mirror_inv_def mirrored_def delete_credential_def delete_pairing_def delete_conv' Let_def split: option.splits)

lemma mirror_prune_retired: "mirror_inv digest s \<Longrightarrow> mirror_inv digest (prune_retired now s)"
  using cred_inv_prune_retired [of digest s now] mirrored_cong [of "prune_retired now s" s]
  by (simp add: mirror_inv_def prune_retired_fields)

lemma mirror_touch:
  assumes "mirror_inv digest s" and c: "map_of (pv_credentials s) dev = Some c"
  shows "mirror_inv digest (s\<lparr>pv_credentials := AList.update dev (c\<lparr>cd_expired := x\<rparr>) (pv_credentials s)\<rparr>)"
proof -
  have "rel_option row_of (map_of (AList.update dev (c\<lparr>cd_expired := x\<rparr>) (pv_credentials s)) d) (map_of rows d)"
    if "\<And>d. rel_option row_of (map_of (pv_credentials s) d) (map_of rows d)" for rows d
    using that [of d] c by (auto simp: update_conv' row_of_def option_rel_Some1)
  then show ?thesis using assms cred_inv_touch [of digest s dev c x]
    by (simp add: mirror_inv_def mirrored_def split: option.splits)
qed

lemma mirror_put:
  assumes "mirrored s" and "row_of c r" "cd_device c = dev"
    and "pv_base_scopes t = pv_base_scopes s" "pv_credentials t = AList.update dev c (pv_credentials s)"
    and "pv_store t = map_option (save_pairing r) (pv_store s)"
  shows "mirrored t"
  using assms by (auto simp: mirrored_def save_pairing_def row_of_def update_conv' split: option.splits)

lemma mirror_issued:
  assumes "mirror_inv digest s" "map_of (pv_credentials s) dev = None" "token \<noteq> []" "unused_hash (hash_token digest token) s"
  shows "mirror_inv digest (issued digest (\<lambda>_. True) (new_credential digest now dev token name key s) s)"
proof -
  have inv: "cred_inv digest s" "mirrored s" using assms(1) by (simp_all add: mirror_inv_def)
  from inv(2) have "pv_base_scopes s \<noteq> []" by (simp add: mirrored_def)
  then have "mirrored (issued digest (\<lambda>_. True) (new_credential digest now dev token name key s) s)"
    by (intro mirror_put [OF inv(2), of "new_credential digest now dev token name key s"
          "record_of (new_credential digest now dev token name key s)" dev])
      (simp_all add: issued_def new_credential_def record_of_def row_of_def persist_def index_credential_def)
  with cred_inv_issued [OF inv(1) assms(2-4), of "\<lambda>_. True" now name key] show ?thesis by (simp add: mirror_inv_def)
qed

lemma mirror_rotates:
  assumes "mirror_inv digest s" and c: "map_of (pv_credentials s) dev = Some c" and fresh: "fresh \<noteq> []"
    and unused: "unused_hash (hash_token digest fresh) s"
  shows "mirror_inv digest (fst (rotate_credential digest (\<lambda>_. True) now fresh token presented dev s))"
proof -
  have inv: "cred_inv digest s" "mirrored s" using assms(1) by (simp_all add: mirror_inv_def)
  note r = rotate_result [where io = "\<lambda>_. True" and now = now and token = token and presented = presented, OF inv(1) c unused]
  have d: "cd_device c = dev" using cred_invD(3) [OF inv(1) c] by (simp add: cred_ok_def)
  have "mirrored (fst (rotate_credential digest (\<lambda>_. True) now fresh token presented dev s))"
  proof (cases "pv_store s")
    case None
    then show ?thesis using inv(2) by (simp add: r mirrored_def)
  next
    case (Some rows)
    have "rel_option row_of (map_of (pv_credentials s) dev) (map_of rows dev)"
      using inv(2) Some unfolding mirrored_def by simp
    then have "cd_scopes c \<noteq> []" using c by (auto simp: row_of_def option_rel_Some1)
    then show ?thesis
      by (intro mirror_put [OF inv(2), of "rotated digest now fresh s c" "rotated_row digest now fresh token presented s c" dev])
        (simp_all add: r row_of_def rotated_row_def rotated_def record_of_def d)
  qed
  with cred_inv_rotates [OF inv(1) c fresh unused, of "\<lambda>_. True" now token presented] show ?thesis
    by (simp add: mirror_inv_def)
qed

interpretation mi: credential_effects digest "\<lambda>_. True" now "mirror_inv digest" for digest now
  by unfold_locales
    (assumption
     | rule mirror_free mirror_delete mirror_prune_retired mirror_touch mirror_issued mirror_rotates
     | erule mirror_indexed)+

lemma paired_mirror: "paired digest reliable s a d \<Longrightarrow> reliable \<Longrightarrow> mirror_inv digest s"
proof (induction rule: paired.induct)
  case (paired_new store io now opts)
  then show ?case
    by (auto simp: new_service_def cred_inv_def mirror_inv_def mirrored_def default_scopes_def)
next
  case (paired_step s a d op io now)
  then have io: "io = (\<lambda>_. True)" by simp
  show ?case unfolding io by (rule mi.op_effects [OF paired_step.IH [OF paired_step.prems] paired_step.hyps(2)])
qed

section \<open>Restarting from the store\<close>

text \<open>The token texts of SHA-256 end in no white space, so the store's rows are read back as written.\<close>

definition plain_digest :: "(string \<Rightarrow> string) \<Rightarrow> bool" where
  "plain_digest digest \<longleftrightarrow> (\<forall>t. digest t \<noteq> [] \<and> \<not> is_space (last (digest t)))"

lemma stored_hash_plain:
  assumes "plain_digest digest"
  shows "stored_hash digest (hash_token digest t) = hash_token digest t" "is_hashed_token (hash_token digest t)"
proof -
  have d: "digest t \<noteq> []" "\<not> is_space (last (digest t))" using assms by (simp_all add: plain_digest_def)
  have h: "\<not> is_space (CHR ''s'')" by (simp add: is_space_def)
  have "trim_space (hash_token digest t) = hash_token digest t"
  proof -
    have l: "dropWhile is_space (hash_token digest t) = hash_token digest t"
      using h by (simp add: hash_token_def credential_hash_prefix_def)
    have "rev (hash_token digest t) = last (digest t) # rev (butlast (digest t)) @ rev credential_hash_prefix"
      using d(1) by (simp add: hash_token_def)
    then have "dropWhile is_space (rev (hash_token digest t)) = rev (hash_token digest t)" using d(2) by simp
    then show ?thesis by (simp add: trim_space_def l)
  qed
  then show "is_hashed_token (hash_token digest t)" "stored_hash digest (hash_token digest t) = hash_token digest t"
    by (simp_all add: is_hashed_token_def stored_hash_def hash_token_def)
qed

definition loaded :: "gtime \<Rightarrow> duration \<Rightarrow> string list \<Rightarrow> pairing_record \<Rightarrow> credential" where
  "loaded now grace base r =
     \<lparr>cd_device = pg_device r, cd_name = pg_name r, cd_token = [], cd_hash = pg_token r, cd_expires = pg_expires r,
      cd_scopes = fallback_scopes (pg_scopes r) base, cd_proof = pg_proof r,
      cd_expired = (if pg_expires r < now \<and> 0 < grace then Some (pg_expires r) else None)\<rparr>"

definition plain_row :: "(string \<Rightarrow> string) \<Rightarrow> pairing_record \<Rightarrow> bool" where
  "plain_row digest r \<longleftrightarrow> (\<exists>t. pg_token r = hash_token digest t)"

lemma load_one:
  assumes "plain_digest digest" "plain_row digest r"
  shows "pv_credentials (load_record digest io now (dev, r) s) =
      (if should_reap (pv_grace s) (pg_expires r) now then pv_credentials s
       else AList.update (pg_device r) (loaded now (pv_grace s) (pv_base_scopes s) r) (pv_credentials s))"
    "pv_by_hash (load_record digest io now (dev, r) s) =
      (if should_reap (pv_grace s) (pg_expires r) now then pv_by_hash s else (pv_by_hash s)(pg_token r \<mapsto> pg_device r))"
    "pv_grace (load_record digest io now (dev, r) s) = pv_grace s"
    "pv_base_scopes (load_record digest io now (dev, r) s) = pv_base_scopes s"
proof -
  obtain t where t: "pg_token r = hash_token digest t" using assms(2) by (auto simp: plain_row_def)
  note h = stored_hash_plain [OF assms(1), of t]
  show "pv_credentials (load_record digest io now (dev, r) s) =
      (if should_reap (pv_grace s) (pg_expires r) now then pv_credentials s
       else AList.update (pg_device r) (loaded now (pv_grace s) (pv_base_scopes s) r) (pv_credentials s))"
    "pv_by_hash (load_record digest io now (dev, r) s) =
      (if should_reap (pv_grace s) (pg_expires r) now then pv_by_hash s else (pv_by_hash s)(pg_token r \<mapsto> pg_device r))"
    "pv_grace (load_record digest io now (dev, r) s) = pv_grace s"
    "pv_base_scopes (load_record digest io now (dev, r) s) = pv_base_scopes s"
    by (simp_all add: load_record_def Let_def t h loaded_def index_credential_def)
qed

text \<open>Loading rows with their own keys and distinct tokens.\<close>

definition good_rows :: "(string \<Rightarrow> string) \<Rightarrow> (string \<times> pairing_record) list \<Rightarrow> bool" where
  "good_rows digest rows \<longleftrightarrow> keys_distinct rows \<and>
     (\<forall>dev r. (dev, r) \<in> set rows \<longrightarrow> pg_device r = dev \<and> plain_row digest r) \<and>
     (\<forall>dev r dev' r'. (dev, r) \<in> set rows \<longrightarrow> (dev', r') \<in> set rows \<longrightarrow> pg_token r = pg_token r' \<longrightarrow> dev = dev')"

lemma good_rows_Cons:
  assumes "good_rows digest ((dev, r) # rows)"
  shows "good_rows digest rows" "pg_device r = dev" "plain_row digest r" "map_of rows dev = None"
    "\<And>d x. (d, x) \<in> set rows \<Longrightarrow> pg_token x \<noteq> pg_token r"
proof -
  have k: "keys_distinct ((dev, r) # rows)"
    and own: "\<And>d x. (d, x) \<in> set ((dev, r) # rows) \<Longrightarrow> pg_device x = d \<and> plain_row digest x"
    and inj: "\<And>d x d' x'. (d, x) \<in> set ((dev, r) # rows) \<Longrightarrow> (d', x') \<in> set ((dev, r) # rows) \<Longrightarrow>
        pg_token x = pg_token x' \<Longrightarrow> d = d'"
    using assms unfolding good_rows_def by blast+
  have kr: "keys_distinct rows" and nd: "dev \<notin> fst ` set rows" using k by (simp_all add: keys_distinct_def)
  show "pg_device r = dev" "plain_row digest r" using own [of dev r] by simp_all
  show "map_of rows dev = None" using nd by (simp add: map_of_eq_None_iff)
  have own': "pg_device x = d \<and> plain_row digest x" if "(d, x) \<in> set rows" for d x by (rule own) (use that in simp)
  have inj': "d = d'" if "(d, x) \<in> set rows" "(d', x') \<in> set rows" "pg_token x = pg_token x'" for d x d' x'
    by (rule inj [OF _ _ that(3)]) (use that in simp_all)
  show "good_rows digest rows" unfolding good_rows_def using kr own' inj' by blast
  fix d x assume dx: "(d, x) \<in> set rows"
  show "pg_token x \<noteq> pg_token r"
  proof
    assume "pg_token x = pg_token r"
    then have "d = dev" by (rule inj [rotated 2]) (use dx in simp_all)
    then show False using dx nd by (force simp: image_iff)
  qed
qed

lemma load_rows:
  assumes "plain_digest digest" "good_rows digest rows"
  shows "map_of (pv_credentials (fold (load_record digest io now) rows s)) d =
      (case map_of rows d of None \<Rightarrow> map_of (pv_credentials s) d
       | Some r \<Rightarrow> if should_reap (pv_grace s) (pg_expires r) now then map_of (pv_credentials s) d else Some (loaded now (pv_grace s) (pv_base_scopes s) r)) \<and>
    pv_by_hash (fold (load_record digest io now) rows s) h =
      (case List.find (\<lambda>(d, r). pg_token r = h \<and> \<not> should_reap (pv_grace s) (pg_expires r) now) rows of
         None \<Rightarrow> pv_by_hash s h | Some (d, r) \<Rightarrow> Some d)"
  using assms(2)
proof (induction rows arbitrary: s)
  case Nil
  then show ?case by simp
next
  case (Cons e rows)
  obtain dev r where e: "e = (dev, r)" by (cases e)
  note g = good_rows_Cons [OF Cons.prems [unfolded e]]
  note l = load_one [OF assms(1) g(3), of io now dev s]
  have none: "List.find (\<lambda>(d, x). pg_token x = pg_token r \<and> \<not> should_reap (pv_grace s) (pg_expires x) now) rows = None"
    using g(5) by (auto simp: find_None_iff)
  let ?t = "load_record digest io now (dev, r) s"
  note IH = Cons.IH [OF g(1), of ?t, unfolded l(3,4)]
  have fe: "fold (load_record digest io now) (e # rows) s = fold (load_record digest io now) rows ?t" by (simp add: e)
  have creds: "map_of (pv_credentials (fold (load_record digest io now) (e # rows) s)) d =
      (case map_of (e # rows) d of None \<Rightarrow> map_of (pv_credentials s) d
       | Some r \<Rightarrow> if should_reap (pv_grace s) (pg_expires r) now then map_of (pv_credentials s) d
           else Some (loaded now (pv_grace s) (pv_base_scopes s) r))"
    unfolding fe IH [THEN conjunct1] l(1) using g(2,4)
    by (cases "d = dev") (simp_all add: e update_conv' split: option.split)
  have hashes: "pv_by_hash (fold (load_record digest io now) (e # rows) s) h =
      (case List.find (\<lambda>(d, r). pg_token r = h \<and> \<not> should_reap (pv_grace s) (pg_expires r) now) (e # rows) of
         None \<Rightarrow> pv_by_hash s h | Some (d, r) \<Rightarrow> Some d)"
  proof (cases "pg_token r = h")
    case True
    then show ?thesis unfolding fe IH [THEN conjunct2] l(2) using g(2) none by (simp add: e)
  next
    case False
    then show ?thesis unfolding fe IH [THEN conjunct2] l(2) by (simp add: e split: option.split)
  qed
  show ?case using creds hashes by blast
qed

lemma find_SomeD: "List.find P xs = Some x \<Longrightarrow> x \<in> set xs \<and> P x"
  by (auto simp: find_Some_iff)

lemma find_row:
  assumes "good_rows digest rows" "(dev, r) \<in> set rows" "pg_token r = h" "\<not> should_reap g (pg_expires r) now"
  shows "List.find (\<lambda>(d, r). pg_token r = h \<and> \<not> should_reap g (pg_expires r) now) rows = Some (dev, r)"
proof -
  let ?P = "\<lambda>(d, r). pg_token r = h \<and> \<not> should_reap g (pg_expires r) now"
  obtain d x where f: "List.find ?P rows = Some (d, x)"
    using assms(2-4) by (cases "List.find ?P rows") (auto simp: find_None_iff)
  have x: "(d, x) \<in> set rows" "pg_token x = h" using find_SomeD [OF f] by simp_all
  then have "d = dev" using assms(1-3) unfolding good_rows_def by blast
  then have "x = r" using x(1) assms(1,2) unfolding good_rows_def keys_distinct_def by (metis map_of_is_SomeI option.inject)
  then show ?thesis using f \<open>d = dev\<close> by simp
qed

text \<open>What a token opens: the device and the grants of its credential.\<close>

definition grant :: "credential \<Rightarrow> string \<times> string \<times> gtime \<times> string list \<times> string" where
  "grant c = (cd_device c, cd_name c, cd_expires c, cd_scopes c, cd_proof c)"

definition accepted ::
  "(string \<Rightarrow> string) \<Rightarrow> gtime \<Rightarrow> string \<Rightarrow> pairing_service \<Rightarrow> (string \<times> string \<times> gtime \<times> string list \<times> string) option" where
  "accepted digest now t s =
     (case snd (validate_credential digest (\<lambda>_. True) now t s) of Inl _ \<Rightarrow> None | Inr c \<Rightarrow> Some (grant c))"

lemma accepted_indexed:
  assumes "legacy_device t s = None"
    and "\<And>dev. pv_by_hash s (hash_token digest t) = Some dev \<Longrightarrow> map_of (pv_credentials s) dev \<noteq> None"
  shows "accepted digest now t s =
    (if t = [] then None
     else (case pv_by_hash s (hash_token digest t) of
             None \<Rightarrow> None
           | Some dev \<Rightarrow> let c = the (map_of (pv_credentials s) dev) in if cd_expires c < now then None else Some (grant c)))"
  using assms
  by (auto simp: accepted_def validate_credential_def validate_device_def credential_at_def Let_def split: option.split)

definition start_service :: "pairing_options \<Rightarrow> (string \<times> pairing_record) list option \<Rightarrow> pairing_service" where
  "start_service opts store = new_service (\<lambda>t. t) (\<lambda>_. True) zero_time opts None\<lparr>pv_store := store\<rparr>"

lemma new_service_rows:
  "new_service digest io start opts (Some rows) = fold (load_record digest io start) rows (start_service opts (Some rows))"
  by (simp add: new_service_def start_service_def)

lemma start_service_empty [simp]:
  "pv_credentials (start_service opts st) = []" "pv_by_hash (start_service opts st) = Map.empty"
  "pv_retired (start_service opts st) = []" "pv_store (start_service opts st) = st"
  by (simp_all add: start_service_def new_service_def)

lemma loaded_no_legacy:
  assumes "plain_digest digest" "good_rows digest rows"
  shows "legacy_device t (new_service digest io start opts (Some rows)) = None"
proof -
  let ?P = "\<lambda>x. keys_distinct (pv_credentials x) \<and> (\<forall>e\<in>set (pv_credentials x). cd_hash (snd e) \<noteq> [])"
  have "?P (fold (load_record digest io start) rows (start_service opts (Some rows)))"
  proof (rule fold_keeps [where P = ?P])
    fix e and x :: pairing_service
    assume e: "e \<in> set rows" and x: "?P x"
    obtain dev r where er: "e = (dev, r)" by (cases e)
    with e assms(2) have plain: "plain_row digest r" unfolding good_rows_def by blast
    then have "pg_token r \<noteq> []" unfolding plain_row_def by (metis hash_nonempty)
    then show "?P (load_record digest io start e x)"
      using x by (auto simp: er load_one [OF assms(1) plain] set_update_distinct loaded_def)
  qed simp
  then show ?thesis by (fastforce simp: new_service_rows legacy_device_def find_None_iff)
qed

lemma mirror_good_rows:
  assumes "mirror_inv digest s" "pv_store s = Some rows"
  shows "good_rows digest rows"
    and "map_of rows dev = Some r \<Longrightarrow> \<exists>c. map_of (pv_credentials s) dev = Some c \<and> row_of c r"
    and "map_of (pv_credentials s) dev = Some c \<Longrightarrow> \<exists>r. map_of rows dev = Some r \<and> row_of c r"
proof -
  have inv: "cred_inv digest s" and k: "keys_distinct rows"
    and rel: "\<And>dev. rel_option row_of (map_of (pv_credentials s) dev) (map_of rows dev)"
    using assms by (simp_all add: mirror_inv_def mirrored_def)
  show known: "\<exists>c. map_of (pv_credentials s) dev = Some c \<and> row_of c r" if "map_of rows dev = Some r" for dev r
    using rel [of dev] that by (auto simp: option_rel_Some2)
  show "\<exists>r. map_of rows dev = Some r \<and> row_of c r" if "map_of (pv_credentials s) dev = Some c"
    using rel [of dev] that by (auto simp: option_rel_Some1)
  have row: "pg_device r = dev \<and> plain_row digest r \<and> pv_by_hash s (pg_token r) = Some dev" if "(dev, r) \<in> set rows" for dev r
  proof -
    have "map_of rows dev = Some r" using that k by (simp add: keys_distinct_def)
    from known [OF this] obtain c where c: "map_of (pv_credentials s) dev = Some c" "row_of c r" by blast
    then show ?thesis using cred_invD(3,4) [OF inv c(1)] by (auto simp: row_of_def cred_ok_def plain_row_def)
  qed
  have one: "dev = dev'" if "(dev, r) \<in> set rows" "(dev', r') \<in> set rows" "pg_token r = pg_token r'" for dev r dev' r'
    using row [OF that(1)] row [OF that(2)] that(3) by simp
  show "good_rows digest rows" unfolding good_rows_def using k row one by blast
qed

lemma restart_same:
  assumes "plain_digest digest" "paired digest True s a d" "pv_store s = Some rows" "start \<le> now"
  shows "accepted digest now t (new_service digest io start opts (Some rows)) = accepted digest now t s"
proof -
  have m: "mirror_inv digest s" by (rule paired_mirror [OF assms(2)]) simp
  note inv = mirror_indexed [OF m] and g = mirror_good_rows [OF m assms(3)]
  let ?x = "new_service digest io start opts (Some rows)" and ?h = "hash_token digest t"
  let ?g = "pv_grace (start_service opts (Some rows))" and ?b = "pv_base_scopes (start_service opts (Some rows))"
  note l = load_rows [OF assms(1) g(1), of io start "start_service opts (Some rows)", folded new_service_rows]
  have rows: "map_of rows dev = Some r" if "(dev, r) \<in> set rows" for dev r
    using that g(1) by (simp add: good_rows_def keys_distinct_def)
  have found: "map_of rows dev = Some r \<and> pg_token r = h \<and> \<not> should_reap ?g (pg_expires r) start"
    if "List.find (\<lambda>(d, r). pg_token r = h \<and> \<not> should_reap ?g (pg_expires r) start) rows = Some (dev, r)" for dev r h
    using find_SomeD [OF that] rows [of dev r] by simp
  have live: "map_of (pv_credentials ?x) dev = Some (loaded start ?g ?b r)"
    if "map_of rows dev = Some r" "\<not> should_reap ?g (pg_expires r) start" for dev r
    using l [THEN conjunct1, of dev] that by simp
  have ix: "map_of (pv_credentials ?x) dev \<noteq> None" if "pv_by_hash ?x ?h = Some dev" for dev
  proof (cases "List.find (\<lambda>(d, r). pg_token r = ?h \<and> \<not> should_reap ?g (pg_expires r) start) rows")
    case None
    then show ?thesis using that l [THEN conjunct2, of ?h] by simp
  next
    case (Some e)
    obtain d r where e: "e = (d, r)" by (cases e)
    have "d = dev" using that Some l [THEN conjunct2, of ?h] by (simp add: e)
    with Some e have "List.find (\<lambda>(d, r). pg_token r = ?h \<and> \<not> should_reap ?g (pg_expires r) start) rows = Some (dev, r)"
      by simp
    from found [OF this] live show ?thesis by simp
  qed
  have own: "map_of (pv_credentials s) dev \<noteq> None" if "pv_by_hash s ?h = Some dev" for dev
    using cred_invD(5) [OF inv that] by auto
  note ax = accepted_indexed [of t ?x digest now, OF loaded_no_legacy [OF assms(1) g(1)], OF ix, simplified]
    and ay = accepted_indexed [of t s digest now, OF no_legacy [OF inv], OF own, simplified]
  show ?thesis
  proof (cases "pv_by_hash s ?h")
    case None
    have "List.find (\<lambda>(d, r). pg_token r = ?h \<and> \<not> should_reap ?g (pg_expires r) start) rows = None" (is "?f = None")
    proof (rule ccontr)
      assume "?f \<noteq> None"
      then obtain dev r where "?f = Some (dev, r)" by (cases ?f) auto
      from found [OF this] have r: "map_of rows dev = Some r" "pg_token r = ?h" by simp_all
      from g(2) [OF r(1)] obtain c where c: "map_of (pv_credentials s) dev = Some c" "row_of c r" by blast
      from cred_invD(4) [OF inv c(1)] c(2) r(2) None show False by (simp add: row_of_def)
    qed
    then have "pv_by_hash ?x ?h = None" using l [THEN conjunct2, of ?h] by simp
    then show ?thesis unfolding ax ay using None by simp
  next
    case (Some dev)
    from cred_invD(5) [OF inv this] obtain c where c: "map_of (pv_credentials s) dev = Some c" "cd_hash c = ?h" by blast
    from g(3) [OF c(1)] obtain r where r: "map_of rows dev = Some r" "row_of c r" by blast
    have e: "pg_expires r = cd_expires c" and p: "pg_token r = ?h" using r(2) c(2) by (simp_all add: row_of_def)
    show ?thesis
    proof (cases "should_reap ?g (pg_expires r) start")
      case True
      then have late: "cd_expires c < now" using assms(4) e by (simp add: should_reap_def)
      have "List.find (\<lambda>(d, r). pg_token r = ?h \<and> \<not> should_reap ?g (pg_expires r) start) rows = None" (is "?f = None")
      proof (rule ccontr)
        assume "?f \<noteq> None"
        then obtain dev' r' where f: "?f = Some (dev', r')" by (cases ?f) auto
        from found [OF f] have r': "map_of rows dev' = Some r'" "pg_token r' = ?h" "\<not> should_reap ?g (pg_expires r') start" by simp_all
        have "dev' = dev" using g(1) map_of_SomeD [OF r(1)] map_of_SomeD [OF r'(1)] p r'(2) unfolding good_rows_def by metis
        then show False using r r' True by simp
      qed
      then have "pv_by_hash ?x ?h = None" using l [THEN conjunct2, of ?h] by simp
      then show ?thesis unfolding ax ay using Some c(1) late by simp
    next
      case False
      have "pv_by_hash ?x ?h = Some dev"
        using l [THEN conjunct2, of ?h] find_row [OF g(1) map_of_SomeD [OF r(1)] p False] by simp
      moreover have "grant (loaded start ?g ?b r) = grant c" "cd_expires (loaded start ?g ?b r) = cd_expires c"
        using r(2) cred_invD(3) [OF inv c(1)] by (simp_all add: grant_def loaded_def row_of_def fallback_scopes_def)
      ultimately show ?thesis unfolding ax ay using Some c(1) live [OF r(1) False] by simp
    qed
  qed
qed

text \<open>
  C4: A restart forgets no paired device and revives no revoked one, as long as the store works. Let a
  service that was started on an empty store have gone through any operations, with random device ids and
  tokens that were not in use, and with every store call succeeding; and let the token texts of the hash
  function end in no white space. Then a service started from that store accepts, at any later moment,
  exactly the tokens the running one accepts, for the same device with the same name, expiry, scopes and
  proof key; whatever the new grace period and token lifetime are. Without the condition on the store
  calls this is false: \<open>revoked_device_returns\<close> below.
\<close>

theorem restart_accepts_same_tokens:
  assumes "plain_digest digest" "paired digest True s a d" "pv_store s = Some rows" "start \<le> now"
  shows "accepted digest now t (new_service digest io start opts (Some rows)) = accepted digest now t s"
  by (rule restart_same [OF assms])

lemma ex_digest_plain: "plain_digest ex_digest"
  by (simp add: plain_digest_def ex_digest_def is_space_def)

theorem restart_accepts_same_tokens_witness:
  "\<exists>rows. pv_store ex_paired = Some rows \<and>
     accepted ex_digest 9 ''tok'' (new_service ex_digest (\<lambda>_. True) 4 ex_options (Some rows)) = accepted ex_digest 9 ''tok'' ex_paired"
proof -
  have "pv_store ex_paired \<noteq> None" by code_simp
  then obtain rows where r: "pv_store ex_paired = Some rows" by blast
  from restart_accepts_same_tokens [OF ex_digest_plain ex_paired_reached r, of 4 9] r show ?thesis by simp
qed

text \<open>
  Revocation does not survive a failing store: when deleting the device's row fails, the revocation is
  still reported as done and the token is refused, but the next start of the service reads the row back
  and the revoked token opens the gateway again, with the grants it had.
\<close>

theorem revoked_device_returns:
  assumes "plain_digest digest" "paired digest True s a d" "pv_store s = Some rows"
    and "map_of (pv_credentials s) dev = Some c" "cd_hash c = hash_token digest t" "t \<noteq> []"
    and "\<not> io dev" "start \<le> now" "now \<le> cd_expires c"
  shows "snd (revoke_device io dev s) = Inr c \<and>
    accepted digest now t (fst (revoke_device io dev s)) = None \<and>
    accepted digest now t (new_service digest io2 start opts (Some rows)) = Some (grant c) \<and>
    pv_store (fst (revoke_device io dev s)) = Some rows"
proof -
  have inv: "cred_inv digest s" by (rule paired_cred_inv [OF assms(2)])
  have ix: "pv_by_hash s (hash_token digest t) = Some dev" using cred_invD(4) [OF inv assms(4)] assms(5) by simp
  note rev = revoke_device_def [of io dev s, unfolded assms(4) option.case]
  have gone: "pv_by_hash (delete_credential io dev s) (hash_token digest t) = None"
    using delete_fields(1) [OF inv, of io dev] ix by simp
  have "accepted digest now t (delete_credential io dev s) = None"
    unfolding accepted_def validate_unknown [OF cred_inv_delete [OF inv] assms(6) gone] by simp
  moreover have "accepted digest now t s = Some (grant c)"
    unfolding accepted_def validate_known [OF assms(6) ix assms(4), of now, simplified not_less, OF assms(9)] by simp
  moreover have "pv_store (delete_credential io dev s) = Some rows"
    using assms(3,7) by (simp add: delete_credential_def Let_def)
  ultimately show ?thesis
    using restart_same [OF assms(1-3,8)] by (simp add: rev)
qed

theorem revoked_device_returns_witness:
  "\<exists>rows c. accepted ex_digest 9 ''tok'' (fst (revoke_device (\<lambda>_. False) ''dev'' ex_paired)) = None \<and>
     accepted ex_digest 9 ''tok'' (new_service ex_digest (\<lambda>_. True) 8 ex_options (Some rows)) = Some (grant c) \<and>
     pv_store (fst (revoke_device (\<lambda>_. False) ''dev'' ex_paired)) = Some rows"
proof -
  have "pv_store ex_paired \<noteq> None" by code_simp
  then obtain rows where r: "pv_store ex_paired = Some rows" by blast
  have "(case map_of (pv_credentials ex_paired) ''dev'' of None \<Rightarrow> False
      | Some c \<Rightarrow> cd_hash c = hash_token ex_digest ''tok'' \<and> 9 \<le> cd_expires c)" by code_simp
  then obtain c where c: "map_of (pv_credentials ex_paired) ''dev'' = Some c" "cd_hash c = hash_token ex_digest ''tok''"
    "9 \<le> cd_expires c" by (auto split: option.splits)
  from revoked_device_returns [OF ex_digest_plain ex_paired_reached r c(1,2) _ _ _ c(3), of "\<lambda>_. False" 8 "\<lambda>_. True" ex_options]
  show ?thesis by auto
qed

end
