(* ===== verification/Pairing_Approval.thy ===== *)
theory Pairing_Approval
  imports Pairing_Proofs
begin

text \<open>
  Pairing challenges: at most one is active, and every credential that is issued uses up a local approval
  of its own.
\<close>

section \<open>Challenges\<close>

definition chal_ok :: "pairing_service \<Rightarrow> string \<Rightarrow> challenge_record \<Rightarrow> bool" where
  "chal_ok s cid r \<longleftrightarrow> ch_id (cc_challenge r) = cid \<and> (cc_state r = ChallengeActive \<longrightarrow> cid \<noteq> [] \<and> pv_active s = cid)"

definition chal_inv :: "pairing_service \<Rightarrow> bool" where
  "chal_inv s \<longleftrightarrow> keys_distinct (pv_challenges s) \<and> (\<forall>cid r. map_of (pv_challenges s) cid = Some r \<longrightarrow> chal_ok s cid r)"

text \<open>An approval that can still become a credential: the open window or the active challenge.\<close>

definition has_active :: "pairing_service \<Rightarrow> bool" where
  "has_active s \<longleftrightarrow> (case map_of (pv_challenges s) (pv_active s) of None \<Rightarrow> False | Some r \<Rightarrow> cc_state r = ChallengeActive)"

definition pending :: "pairing_service \<Rightarrow> nat" where
  "pending s = (if pv_armed_until s \<noteq> zero_time \<or> has_active s then 1 else 0)"

text \<open>\<open>t\<close> has no approval that \<open>s\<close> had not.\<close>

definition wanes :: "pairing_service \<Rightarrow> pairing_service \<Rightarrow> bool" where
  "wanes s t \<longleftrightarrow> chal_inv t \<and> (pv_armed_until t \<noteq> zero_time \<longrightarrow> pv_armed_until s \<noteq> zero_time) \<and> (has_active t \<longrightarrow> has_active s)"

lemma wanes_refl: "chal_inv s \<Longrightarrow> wanes s s"
  by (simp add: wanes_def)

lemma wanes_trans: "wanes s t \<Longrightarrow> wanes t u \<Longrightarrow> wanes s u"
  by (simp add: wanes_def)

lemma wanes_pending: "wanes s t \<Longrightarrow> pending t \<le> pending s"
  by (auto simp: wanes_def pending_def)

lemma wanes_same:
  assumes "chal_inv s" "pv_challenges t = pv_challenges s" "pv_active t = pv_active s" "pv_armed_until t = pv_armed_until s"
  shows "wanes s t"
  using assms by (simp add: wanes_def chal_inv_def chal_ok_def has_active_def)

lemma delete_same:
  "pv_challenges (delete_credential io dev s) = pv_challenges s" "pv_active (delete_credential io dev s) = pv_active s"
  "pv_armed_until (delete_credential io dev s) = pv_armed_until s"
  by (simp_all add: delete_credential_def Let_def)

lemma prune_same:
  "pv_challenges (prune_credentials io now s) = pv_challenges s \<and> pv_active (prune_credentials io now s) = pv_active s \<and>
    pv_armed_until (prune_credentials io now s) = pv_armed_until s"
  by (rule prune_keeps [where P = "\<lambda>t. pv_challenges t = pv_challenges s \<and> pv_active t = pv_active s \<and>
      pv_armed_until t = pv_armed_until s"]) (simp_all add: delete_same prune_retired_fields)

lemma wanes_prune: "chal_inv s \<Longrightarrow> wanes s (prune_credentials io now s)"
  using prune_same [of io now s] by (intro wanes_same) simp_all

text \<open>Replacing a challenge by one that is not active, or dropping it.\<close>

lemma wanes_close:
  assumes "chal_inv s" "map_of (pv_challenges s) cid = Some r" "cc_state r' \<noteq> ChallengeActive"
    and "cc_challenge r' = cc_challenge r"
    and f: "pv_challenges t = AList.update cid r' (pv_challenges s)" "pv_armed_until t = pv_armed_until s"
      "pv_active t = (if pv_active s = cid then [] else pv_active s)"
  shows "wanes s t"
proof -
  have k: "keys_distinct (pv_challenges s)" and ok: "\<And>c x. map_of (pv_challenges s) c = Some x \<Longrightarrow> chal_ok s c x"
    using assms(1) by (auto simp: chal_inv_def)
  have "chal_ok t c x" if "map_of (pv_challenges t) c = Some x" for c x
    using that ok [of c x] ok [OF assms(2)] assms(3,4) by (auto simp: f update_conv' chal_ok_def split: if_splits)
  moreover have "has_active s" if "has_active t"
  proof (rule ccontr)
    assume n: "\<not> has_active s"
    have "pv_active s \<noteq> cid \<Longrightarrow> False" using that n by (simp add: has_active_def f update_conv')
    moreover have "pv_active s = cid \<Longrightarrow> False"
      using that ok [of "[]"] assms(3)
      by (auto simp: has_active_def f update_conv' chal_ok_def split: option.splits if_splits)
    ultimately show False by blast
  qed
  ultimately show ?thesis using k by (auto simp: wanes_def chal_inv_def f)
qed

lemma wanes_drop:
  assumes "chal_inv s" "t = s\<lparr>pv_challenges := AList.delete cid (pv_challenges s)\<rparr>"
  shows "wanes s t"
  using assms by (auto simp: wanes_def chal_inv_def chal_ok_def has_active_def delete_conv' split: option.splits if_splits)

lemma wanes_expire:
  assumes "chal_inv s" "map_of (pv_challenges s) cid = Some r"
  shows "wanes s (expire_challenge cid r s)"
  by (rule wanes_close [OF assms, of "r\<lparr>cc_state := ChallengeExpired, cc_changed := ch_expires (cc_challenge r)\<rparr>"])
    (simp_all add: expire_challenge_def)

lemma wanes_deactivate:
  assumes "chal_inv s" "\<not> has_active s"
  shows "wanes s (s\<lparr>pv_active := []\<rparr>)"
proof -
  have ok: "\<And>c x. map_of (pv_challenges s) c = Some x \<Longrightarrow> chal_ok s c x" and k: "keys_distinct (pv_challenges s)"
    using assms(1) by (auto simp: chal_inv_def)
  have "cc_state x \<noteq> ChallengeActive" if "map_of (pv_challenges s) c = Some x" for c x
    using ok [OF that] that assms(2) by (auto simp: chal_ok_def has_active_def)
  then show ?thesis using ok k by (auto simp: wanes_def chal_inv_def chal_ok_def has_active_def split: option.splits)
qed

lemma active_challenge_spec:
  assumes "chal_inv s"
  shows "wanes s (fst (active_challenge s))"
    "snd (active_challenge s) = None \<Longrightarrow> \<not> has_active (fst (active_challenge s))"
    "snd (active_challenge s) = Some r \<Longrightarrow> fst (active_challenge s) = s \<and> has_active s \<and>
       map_of (pv_challenges s) (pv_active s) = Some r \<and> pv_active s = ch_id (cc_challenge r) \<and> cc_state r = ChallengeActive"
proof -
  have ok: "\<And>c x. map_of (pv_challenges s) c = Some x \<Longrightarrow> chal_ok s c x" using assms by (auto simp: chal_inv_def)
  have e: "map_of (pv_challenges s) [] = Some x \<Longrightarrow> cc_state x \<noteq> ChallengeActive" for x
    using ok [of "[]" x] by (auto simp: chal_ok_def)
  have d: "\<not> has_active (s\<lparr>pv_active := []\<rparr>)" using e by (simp add: has_active_def split: option.split)
  show "wanes s (fst (active_challenge s))"
  proof (cases "has_active s")
    case True
    then have "fst (active_challenge s) = s"
      using e by (auto simp: active_challenge_def has_active_def split: option.splits)
    then show ?thesis using wanes_refl [OF assms] by simp
  next
    case False
    then have "fst (active_challenge s) = s\<lparr>pv_active := []\<rparr>"
      by (auto simp: active_challenge_def has_active_def split: option.splits)
    then show ?thesis using wanes_deactivate [OF assms False] by simp
  qed
  show "snd (active_challenge s) = None \<Longrightarrow> \<not> has_active (fst (active_challenge s))"
    using d by (auto simp: active_challenge_def has_active_def split: option.splits if_splits)
  show "snd (active_challenge s) = Some r \<Longrightarrow> fst (active_challenge s) = s \<and> has_active s \<and>
       map_of (pv_challenges s) (pv_active s) = Some r \<and> pv_active s = ch_id (cc_challenge r) \<and> cc_state r = ChallengeActive"
    using ok [of "pv_active s" r] by (auto simp: active_challenge_def has_active_def chal_ok_def split: option.splits if_splits)
qed

lemma wanes_prune_challenge:
  assumes "chal_inv s" "map_of (pv_challenges s) cid = Some r"
  shows "wanes s (prune_challenge now (cid, r) s)"
  using wanes_expire [OF assms] wanes_drop [OF assms(1) refl] wanes_refl [OF assms(1)]
  by (simp add: prune_challenge_def)

lemma prune_challenge_other:
  "c \<noteq> cid \<Longrightarrow> map_of (pv_challenges (prune_challenge now (cid, r) s)) c = map_of (pv_challenges s) c"
  by (simp add: prune_challenge_def expire_challenge_def update_conv' delete_conv')

lemma wanes_prune_challenges:
  assumes "chal_inv s" "keys_distinct xs" "\<And>cid r. (cid, r) \<in> set xs \<Longrightarrow> map_of (pv_challenges s) cid = Some r"
  shows "wanes s (fold (prune_challenge now) xs s)"
  using assms
proof (induction xs arbitrary: s)
  case Nil
  then show ?case by (simp add: wanes_refl)
next
  case (Cons e xs)
  obtain cid r where e: "e = (cid, r)" by (cases e)
  let ?t = "prune_challenge now e s"
  have w: "wanes s ?t" unfolding e by (rule wanes_prune_challenge) (use Cons.prems e in simp_all)
  have k: "keys_distinct xs" "cid \<notin> fst ` set xs" using Cons.prems(2) e by (simp_all add: keys_distinct_def)
  have "map_of (pv_challenges ?t) c = Some x" if "(c, x) \<in> set xs" for c x
  proof -
    have "c \<noteq> cid" using that k(2) by force
    then show ?thesis using Cons.prems(3) [of c x] that by (simp add: e prune_challenge_other)
  qed
  from Cons.IH [OF _ k(1) this] w have "wanes ?t (fold (prune_challenge now) xs ?t)" by (simp add: wanes_def)
  then show ?case using wanes_trans [OF w] by simp
qed

lemma wanes_prune_expired:
  assumes "chal_inv s"
  shows "wanes s (prune_expired io now s)"
proof -
  have "wanes s (fold (prune_challenge now) (pv_challenges s) s)"
    by (rule wanes_prune_challenges [OF assms]) (use assms in \<open>auto simp: chal_inv_def keys_distinct_def\<close>)
  then show ?thesis unfolding prune_expired_def
    using wanes_prune wanes_trans by (metis wanes_def)
qed

lemma wanes_armed: "chal_inv s \<Longrightarrow> wanes s (fst (is_armed now s))"
  by (simp add: is_armed_def wanes_def chal_inv_def chal_ok_def has_active_def)

section \<open>Operations\<close>

lemma challenges_shrink:
  "map_of (pv_challenges s) cid = None \<Longrightarrow> map_of (pv_challenges (prune_expired io now s)) cid = None"
proof -
  assume none: "map_of (pv_challenges s) cid = None"
  have ne: "c \<noteq> cid" if "(c, r) \<in> set (pv_challenges s)" for c r
    using that none by (force simp: map_of_eq_None_iff)
  have "map_of (pv_challenges (fold (prune_challenge now) (pv_challenges s) s)) cid = None"
  proof (rule fold_keeps [where P = "\<lambda>t. map_of (pv_challenges t) cid = None", OF none])
    fix e and t :: pairing_service
    assume e: "e \<in> set (pv_challenges s)" and t: "map_of (pv_challenges t) cid = None"
    obtain c r where c: "e = (c, r)" by (cases e)
    have "cid \<noteq> c" using ne e c by blast
    show "map_of (pv_challenges (prune_challenge now e t)) cid = None"
      unfolding c prune_challenge_other [OF \<open>cid \<noteq> c\<close>] by (rule t)
  qed
  then show ?thesis unfolding prune_expired_def using prune_same [of io now] by simp
qed

lemma start_effect:
  assumes "chal_inv s" "cid \<noteq> []" "map_of (pv_challenges s) cid = None"
  shows "chal_inv (fst (start_pairing io now cid code s))" "pending (fst (start_pairing io now cid code s)) \<le> pending s"
proof -
  let ?p = "prune_expired io now s"
  have p: "wanes s ?p" by (rule wanes_prune_expired [OF assms(1)])
  then have pi: "chal_inv ?p" by (simp add: wanes_def)
  obtain s1 res where a: "active_challenge ?p = (s1, res)" by fastforce
  have s1: "wanes s s1" using wanes_trans [OF p active_challenge_spec(1) [OF pi]] a by simp
  have free: "map_of (pv_challenges s1) cid = None"
  proof -
    have "pv_challenges s1 = pv_challenges ?p" using a by (auto simp: active_challenge_def split: option.splits if_splits)
    then show ?thesis using challenges_shrink [OF assms(3)] by simp
  qed
  show "chal_inv (fst (start_pairing io now cid code s))" "pending (fst (start_pairing io now cid code s)) \<le> pending s"
  proof -
    have "chal_inv (fst (start_pairing io now cid code s)) \<and> pending (fst (start_pairing io now cid code s)) \<le> pending s"
    proof (cases res)
      case (Some r)
      then have "fst (start_pairing io now cid code s) = s1" by (simp add: start_pairing_def a)
      then show ?thesis using s1 wanes_pending [OF s1] by (simp add: wanes_def)
    next
      case None
      obtain s2 b where b: "is_armed now s1 = (s2, b)" by fastforce
      have s2: "wanes s s2" using wanes_trans [OF s1 wanes_armed] s1 b by (metis fst_conv wanes_def)
      show ?thesis
      proof (cases b)
        case False
        then have "fst (start_pairing io now cid code s) = s2" by (simp add: start_pairing_def a None b)
        then show ?thesis using s2 wanes_pending [OF s2] by (simp add: wanes_def)
      next
        case True
        then have e: "s2 = s1" "pv_armed_until s1 \<noteq> zero_time" using b by (auto simp: is_armed_def split: if_splits)
        have i1: "chal_inv s1" using s1 by (simp add: wanes_def)
        have "\<not> has_active s1" using active_challenge_spec(2) [OF pi] a None by simp
        then have dead: "cc_state x \<noteq> ChallengeActive" if "map_of (pv_challenges s1) c = Some x" for c x
          using that i1 by (auto simp: chal_inv_def chal_ok_def has_active_def)
        let ?t = "fst (start_pairing io now cid code s)"
        have t: "pv_challenges ?t = AList.update cid \<lparr>cc_challenge = \<lparr>ch_id = cid, ch_code = code, ch_expires = now + default_challenge_ttl\<rparr>,
            cc_state = ChallengeActive, cc_completed = None, cc_changed = now\<rparr> (pv_challenges s1)"
          "pv_active ?t = cid" "pv_armed_until ?t = pv_armed_until s1"
          using True e by (simp_all add: start_pairing_def a None b Let_def)
        have "chal_inv ?t"
          using i1 dead assms(2) by (auto simp: chal_inv_def chal_ok_def t update_conv')
        moreover have "pending s = 1" using e(2) s1 by (simp add: wanes_def pending_def)
        ultimately show ?thesis by (simp add: pending_def)
      qed
    qed
    then show "chal_inv (fst (start_pairing io now cid code s))" "pending (fst (start_pairing io now cid code s)) \<le> pending s"
      by simp_all
  qed
qed

lemma resolve_spec:
  assumes "chal_inv s" "resolve_challenge cid now s = (t, res)"
  shows "wanes s t"
    "res = Inr (rid, r) \<Longrightarrow> t = s \<and> map_of (pv_challenges s) rid = Some r \<and> cc_state r = ChallengeActive \<and> has_active s \<and> pv_active s = rid"
proof -
  note a = active_challenge_spec [OF assms(1)]
  have ok: "\<And>c x. map_of (pv_challenges s) c = Some x \<Longrightarrow> chal_ok s c x" using assms(1) by (auto simp: chal_inv_def)
  have "wanes s t \<and> (res = Inr (rid, r) \<longrightarrow> t = s \<and> map_of (pv_challenges s) rid = Some r \<and> cc_state r = ChallengeActive \<and>
      has_active s \<and> pv_active s = rid)"
  proof (cases "cid = []")
    case True
    obtain s1 k where k: "active_challenge s = (s1, k)" by fastforce
    show ?thesis
    proof (cases k)
      case None
      then show ?thesis using True assms(2) a(1) by (auto simp: resolve_challenge_def k)
    next
      case (Some x)
      have x: "s1 = s" "has_active s" "map_of (pv_challenges s) (ch_id (cc_challenge x)) = Some x"
        "pv_active s = ch_id (cc_challenge x)" "cc_state x = ChallengeActive"
        using a(3) [of x] k Some by auto
      then have "wanes s (expire_challenge (ch_id (cc_challenge x)) x s)" using wanes_expire [OF assms(1)] by metis
      then show ?thesis using True assms(2) x wanes_refl [OF assms(1)]
        by (auto simp: resolve_challenge_def k Some split: if_splits)
    qed
  next
    case False
    show ?thesis
    proof (cases "map_of (pv_challenges s) cid")
      case None
      then show ?thesis using False assms(2) wanes_refl [OF assms(1)] by (auto simp: resolve_challenge_def)
    next
      case (Some x)
      then show ?thesis using False assms(2) wanes_refl [OF assms(1)] wanes_expire [OF assms(1) Some] ok [OF Some]
        by (auto simp: resolve_challenge_def chal_ok_def has_active_def split: if_splits)
    qed
  qed
  then show "wanes s t" "res = Inr (rid, r) \<Longrightarrow> t = s \<and> map_of (pv_challenges s) rid = Some r \<and> cc_state r = ChallengeActive \<and>
      has_active s \<and> pv_active s = rid" by simp_all
qed

lemma complete_effect:
  assumes "chal_inv s"
  shows "chal_inv (fst (complete_pairing digest io now dev token cid code name key s)) \<and>
    pending (fst (complete_pairing digest io now dev token cid code name key s)) +
      issues digest io now s (PComplete dev token cid code name key) \<le> pending s"
proof (cases "name = []")
  case True
  then show ?thesis using assms by (simp add: complete_pairing_def issues_def)
next
  case False
  let ?p = "prune_credentials io now s"
  have p: "wanes s ?p" by (rule wanes_prune [OF assms])
  then have pi: "chal_inv ?p" by (simp add: wanes_def)
  obtain t res where r: "resolve_challenge cid now ?p = (t, res)" by fastforce
  have t: "wanes s t" using wanes_trans [OF p resolve_spec(1) [OF pi r]] .
  let ?c = "complete_pairing digest io now dev token cid code name key s"
  show ?thesis
  proof (cases "\<exists>rid x. res = Inr (rid, x) \<and> code = ch_code (cc_challenge x)")
    case False2: False
    then have "fst ?c = t" "\<exists>e. snd ?c = Inl e"
      using False by (auto simp: complete_pairing_def r Let_def split: sum.splits prod.splits)
    then show ?thesis using t wanes_pending [OF t] by (auto simp: wanes_def issues_def)
  next
    case True
    then obtain rid x where x: "res = Inr (rid, x)" "code = ch_code (cc_challenge x)" by blast
    from resolve_spec(2) [OF pi r x(1)] have y: "t = ?p" "map_of (pv_challenges ?p) rid = Some x" "cc_state x = ChallengeActive"
      "has_active ?p" "pv_active ?p = rid" by simp_all
    let ?x = "x\<lparr>cc_state := ChallengeCompleted, cc_changed := now,
       cc_completed := Some \<lparr>co_device = dev, co_name = name, co_expires = now + pv_token_ttl t\<rparr>\<rparr>"
    have f: "pv_challenges (fst ?c) = AList.update rid ?x (pv_challenges t)" "pv_armed_until (fst ?c) = zero_time"
      "pv_active (fst ?c) = []" and ok: "\<exists>k. snd ?c = Inr k"
      using False x y(1,5) by (simp_all add: complete_pairing_def r Let_def persist_def index_credential_def new_credential_def)
    let ?u = "t\<lparr>pv_challenges := AList.update rid ?x (pv_challenges t), pv_active := []\<rparr>"
    have "wanes t ?u"
      by (rule wanes_close [of t rid x ?x]) (use pi y in simp_all)
    then have u: "chal_inv ?u" by (simp add: wanes_def)
    then have c: "chal_inv (fst ?c)" by (simp add: chal_inv_def chal_ok_def f)
    have "\<not> has_active (fst ?c)"
      using c by (auto simp: chal_inv_def chal_ok_def has_active_def f(3) split: option.splits)
    then have "pending (fst ?c) = 0" by (simp add: pending_def f)
    moreover have "pending s = 1" using y(4) p by (simp add: wanes_def pending_def)
    ultimately show ?thesis using c ok by (auto simp: issues_def)
  qed
qed

lemma cancel_effect:
  assumes "chal_inv s"
  shows "wanes s (fst (cancel_challenge io now cid0 s))"
proof -
  let ?p = "prune_expired io now s"
  define cid where "cid = (if cid0 = [] then pv_active ?p else cid0)"
  have p: "wanes s ?p" by (rule wanes_prune_expired [OF assms])
  then have pi: "chal_inv ?p" by (simp add: wanes_def)
  have "wanes ?p (fst (cancel_challenge io now cid0 s))"
  proof (cases "cid = [] \<or> map_of (pv_challenges ?p) cid = None")
    case True
    then show ?thesis using wanes_refl [OF pi]
      unfolding cancel_challenge_def Let_def cid_def [symmetric] by auto
  next
    case False
    then obtain r where r: "map_of (pv_challenges ?p) cid = Some r" by blast
    have "wanes ?p (?p\<lparr>pv_challenges := AList.update cid (r\<lparr>cc_state := ChallengeCancelled, cc_changed := now\<rparr>) (pv_challenges ?p),
        pv_active := (if pv_active ?p = cid then [] else pv_active ?p)\<rparr>)"
      by (rule wanes_close [OF pi r, of "r\<lparr>cc_state := ChallengeCancelled, cc_changed := now\<rparr>"]) simp_all
    then show ?thesis using False r wanes_refl [OF pi]
      unfolding cancel_challenge_def Let_def cid_def [symmetric] by simp
  qed
  then show ?thesis by (rule wanes_trans [OF p])
qed

lemma credential_op_wanes:
  assumes "chal_inv s"
  shows "wanes s (fst (validate_credential digest io now t s))" "wanes s (fst (refresh_credential digest io now fresh t s))"
    "wanes s (fst (revoke_device io dev s))"
proof -
  let ?P = "\<lambda>u. pv_challenges u = pv_challenges s \<and> pv_active u = pv_active s \<and> pv_armed_until u = pv_armed_until s"
  have rot: "?P (fst (rotate_credential digest io now fresh t presented d s))" for presented d
    by (simp add: rotate_credential_def Let_def index_credential_def prune_retired_def persist_def)
  have "?P (fst (validate_credential digest io now t s))"
    using prune_same [of io now s] delete_same [of io _ s]
    by (simp add: validate_credential_def validate_device_def Let_def split: option.split)
  then show "wanes s (fst (validate_credential digest io now t s))" using wanes_same [OF assms] by blast
  have "?P (fst (refresh_credential digest io now fresh t s))"
    using prune_same [of io now s] delete_same [of io _ s] rot
    by (simp add: refresh_credential_def Let_def split: option.split)
  then show "wanes s (fst (refresh_credential digest io now fresh t s))" using wanes_same [OF assms] by blast
  show "wanes s (fst (revoke_device io dev s))"
    using wanes_same [OF assms] delete_same [of io dev s] wanes_refl [OF assms]
    by (simp add: revoke_device_def split: option.split)
qed

section \<open>The property\<close>

lemma approved_step:
  assumes "chal_inv s" "fresh_op digest s op"
  shows "chal_inv (pairing_step digest io now s op) \<and>
    pending (pairing_step digest io now s op) + issues digest io now s op \<le> pending s + approvals op"
proof -
  have keep: ?thesis if "wanes s (pairing_step digest io now s op)" "issues digest io now s op = 0"
    using that wanes_pending [OF that(1)] by (simp add: wanes_def)
  note p = wanes_prune_expired [OF assms(1), of io now]
  have pi: "chal_inv (prune_expired io now s)" using p by (simp add: wanes_def)
  show ?thesis
  proof (cases op)
    case (PApprove cid code)
    let ?s = "s\<lparr>pv_armed_until := now + pv_arm_ttl s\<rparr>"
    have "chal_inv ?s" using assms(1) by (simp add: chal_inv_def chal_ok_def)
    from start_effect [OF this, of cid io now code] assms(2) show ?thesis
      by (simp add: PApprove fresh_op_def start_with_approval_def issues_def approvals_def pending_def split: if_splits)
  next
    case (PStart cid code)
    from start_effect [OF assms(1), of cid io now code] assms(2) show ?thesis
      by (simp add: PStart fresh_op_def issues_def approvals_def)
  next
    case (PComplete dev token cid code name key)
    then show ?thesis using complete_effect [OF assms(1)] by (simp add: approvals_def)
  next
    case PActive
    show ?thesis by (rule keep) (use wanes_trans [OF p active_challenge_spec(1) [OF pi]] in
        \<open>simp_all add: PActive active_status_def Let_def case_prod_unfold issues_def\<close>)
  next
    case (PCancel cid)
    show ?thesis by (rule keep) (simp_all add: PCancel cancel_effect [OF assms(1)] issues_def)
  next
    case (PStatus cid)
    show ?thesis by (rule keep) (use p in \<open>simp_all add: PStatus get_status_def Let_def issues_def\<close>)
  next
    case (PValidate t)
    show ?thesis by (rule keep) (simp_all add: PValidate credential_op_wanes [OF assms(1)] issues_def)
  next
    case (PRefresh fresh t)
    show ?thesis by (rule keep) (simp_all add: PRefresh credential_op_wanes [OF assms(1)] issues_def)
  next
    case (PRevoke dev)
    show ?thesis by (rule keep) (simp_all add: PRevoke credential_op_wanes [OF assms(1)] issues_def)
  next
    case PList
    show ?thesis by (rule keep) (simp_all add: PList list_devices_def Let_def wanes_prune [OF assms(1)] issues_def)
  next
    case PCount
    show ?thesis by (rule keep) (simp_all add: PCount active_device_count_def Let_def wanes_prune [OF assms(1)] issues_def)
  qed
qed

text \<open>
  C3: No device is paired without its own local approval: over every history of approvals, remote
  start requests, completions, cancellations, refreshes and revocations, with or without failing store
  calls, the credentials issued never outnumber the approvals given on the gateway; and an approval that is
  still open or has an active challenge is not counted twice.
\<close>

theorem every_pairing_approved:
  assumes "paired digest reliable s approved given"
  shows "given + pending s \<le> approved"
proof -
  have "chal_inv s \<and> given + pending s \<le> approved"
    using assms
  proof (induction rule: paired.induct)
    case (paired_new store io now opts)
    then show ?case
      by (auto simp: new_service_def chal_inv_def keys_distinct_def pending_def has_active_def)
  next
    case (paired_step s a d op io now)
    then have "chal_inv s" "d + pending s \<le> a" by simp_all
    with approved_step [OF this(1) paired_step.hyps(2), of io now] show ?case by linarith
  qed
  then show ?thesis ..
qed

theorem every_pairing_approved_witness: "1 + pending ex_paired \<le> 1"
  using every_pairing_approved [OF ex_paired_reached] by simp

end
