(* ===== verification/Sessions.thy ===== *)
theory Sessions
  imports Pump Attach_Tokens Turn_Store
begin

text \<open>
  The session layer: \<^verbatim>\<open>internal/session/session.go\<close>, \<^verbatim>\<open>lifecycle.go\<close> and \<^verbatim>\<open>attach.go\<close>, with the
  \<^verbatim>\<open>gateway_sessions\<close> table of \<^verbatim>\<open>internal/storage/sessions.go\<close>.

  A method that releases \<^verbatim>\<open>rs.mu\<close> or \<^verbatim>\<open>sess.mu\<close> and goes on is one definition per locked section; what it
  carries from one to the next is kept in the state (\<open>rs_creating\<close>, \<open>rs_saving\<close>, \<open>rs_closing\<close>,
  \<open>rs_exiting\<close>, \<open>rs_to_close\<close>), so that other goroutines may run in between. \<open>rs_heap\<close> holds the
  \<^verbatim>\<open>Session\<close> objects (a goroutine may still hold one that left the registry), \<open>rs_registry\<close> the keys of
  \<^verbatim>\<open>rs.sessions\<close>. The supervisor is its effects: \<open>rs_running\<close> and \<open>rs_stopped\<close> are the runtimes whose
  process is alive and those \<^verbatim>\<open>Stop\<close> was called on, \<open>rs_watched\<close> the runtimes a \<^verbatim>\<open>watchProcess\<close> was
  started for, \<open>rs_exits\<close> the exits it was told of.
\<close>

section \<open>Data\<close>

datatype session_status = SessActive | SessDisconnected | SessClosing | SessFailed

datatype session_error =
    ErrSessionNotFound
  | ErrSessionNotActive
  | ErrAttachToken
  | ErrSessionLimitReached
  | ErrDeviceMismatch
  | ErrCwdUnknown
  | ErrSessionStore
  | ErrMint

definition default_max_disconnected :: duration where "default_max_disconnected = 15 * minute"
definition default_reaper_interval :: duration where "default_reaper_interval = 30 * second"
definition default_progress_interval :: duration where "default_progress_interval = 15 * second"
definition awaiting_client_grace :: duration where "awaiting_client_grace = 24 * hour"
definition attach_token_ttl :: duration where "attach_token_ttl = 5 * minute"

record session_config =
  sc_max_disconnected :: duration
  sc_max_per_device :: int
  sc_reaper_interval :: duration
  sc_progress_interval :: duration
  sc_push :: bool

record session_record =
  rc_session :: string
  rc_runtime :: string
  rc_device :: string
  rc_agent :: string
  rc_status :: session_status
  rc_created :: gtime
  rc_connected :: "gtime option"
  rc_disconnected :: "gtime option"
  rc_since :: "gtime option"

record session =
  se_id :: string
  se_runtime :: string
  se_device :: string
  se_agent :: string
  se_status :: session_status
  se_created :: gtime
  se_disconnected :: "gtime option"
  se_pump :: pump
  se_stopping :: bool
  se_inbound_seq :: int

record session_summary =
  su_session :: string
  su_runtime :: string
  su_agent :: string
  su_status :: session_status
  su_created :: gtime
  su_acp :: "string list"

datatype create_stage = Reserved | Launched string | Saved string gtime

record creating =
  cr_device :: string
  cr_agent :: string
  cr_replaces :: string
  cr_stage :: create_stage

datatype close_stage = CloseMarked | CloseUnregistered | CloseStopped

datatype saving = SaveAttach session_record | SaveDetach session_record

record inbound_writer =
  iw_queue :: "(string \<times> int \<times> string) list"
  iw_closed :: bool
  iw_log :: "(string \<times> int \<times> string) list"

record session_push =
  sp_device :: string
  sp_acp :: string
  sp_cwd :: string
  sp_title :: string
  sp_body :: string
  sp_category :: string

record runtime_session =
  rs_heap :: "string \<rightharpoonup> session"
  rs_registry :: "string list"
  rs_closed :: bool
  rs_launching :: "string \<Rightarrow> nat"
  rs_tokens :: token_service
  rs_store :: "(string \<times> session_record) list"
  rs_outcomes :: turn_store
  rs_creating :: "(string \<times> creating) list"
  rs_saving :: "saving list"
  rs_to_close :: "string list"
  rs_closing :: "(string \<times> close_stage) list"
  rs_exiting :: "(string \<times> bool) list"
  rs_running :: "string list"
  rs_watched :: "string list"
  rs_stopped :: "string list"
  rs_exits :: "(string \<times> bool \<times> bool) list"
  rs_pushes :: "session_push list"
  rs_shutting :: "string list"
  rs_inbound :: inbound_writer

definition new_runtime_session :: runtime_session where
  "new_runtime_session = \<lparr>rs_heap = Map.empty, rs_registry = [], rs_closed = False, rs_launching = (\<lambda>_. 0),
     rs_tokens = new_token_service, rs_store = [], rs_outcomes = new_store, rs_creating = [], rs_saving = [],
     rs_to_close = [], rs_closing = [], rs_exiting = [], rs_running = [], rs_watched = [], rs_stopped = [], rs_exits = [],
     rs_pushes = [], rs_shutting = [], rs_inbound = \<lparr>iw_queue = [], iw_closed = False, iw_log = []\<rparr>\<rparr>"

text \<open>The defaults \<^verbatim>\<open>NewRuntimeSession\<close> puts in place of values that are not positive.\<close>

definition normal_config :: "session_config \<Rightarrow> session_config" where
  "normal_config c = c\<lparr>
     sc_max_disconnected := (if sc_max_disconnected c \<le> 0 then default_max_disconnected else sc_max_disconnected c),
     sc_reaper_interval := (if sc_reaper_interval c \<le> 0 then default_reaper_interval else sc_reaper_interval c),
     sc_progress_interval := (if sc_progress_interval c \<le> 0 then default_progress_interval else sc_progress_interval c)\<rparr>"

section \<open>The table of sessions\<close>

text \<open>\<^verbatim>\<open>SaveSession\<close>: the conflict clause leaves runtime, device, agent and creation time of the row alone.\<close>

definition save_session :: "session_record \<Rightarrow> (string \<times> session_record) list \<Rightarrow> (string \<times> session_record) list" where
  "save_session r rows =
     (case map_of rows (rc_session r) of
        None \<Rightarrow> AList.update (rc_session r) r rows
      | Some old \<Rightarrow> AList.update (rc_session r)
          (old\<lparr>rc_status := rc_status r, rc_connected := rc_connected r, rc_disconnected := rc_disconnected r,
               rc_since := rc_since r\<rparr>) rows)"

definition delete_session :: "string \<Rightarrow> (string \<times> session_record) list \<Rightarrow> (string \<times> session_record) list" where
  "delete_session sid rows = AList.delete sid rows"

definition sessions_by_device :: "string \<Rightarrow> (string \<times> session_record) list \<Rightarrow> session_record list" where
  "sessions_by_device dev rows = sort_key (\<lambda>r. - rc_created r) (filter (\<lambda>r. rc_device r = dev) (map snd rows))"

definition reconcile_sessions :: "gtime \<Rightarrow> (string \<times> session_record) list \<Rightarrow> (string \<times> session_record) list" where
  "reconcile_sessions now rows =
     map (\<lambda>(k, r). (k, if rc_status r = SessActive \<or> rc_status r = SessDisconnected
        then r\<lparr>rc_status := SessFailed, rc_disconnected := Some now\<rparr> else r)) rows"

definition record_for :: "session \<Rightarrow> session_status \<Rightarrow> session_record" where
  "record_for s status = \<lparr>rc_session = se_id s, rc_runtime = se_runtime s, rc_device = se_device s, rc_agent = se_agent s,
     rc_status = status, rc_created = se_created s, rc_connected = None, rc_disconnected = None, rc_since = None\<rparr>"

section \<open>Looking sessions up\<close>

definition registered :: "string \<Rightarrow> runtime_session \<Rightarrow> session option" where
  "registered sid rs = (if sid \<in> set (rs_registry rs) then rs_heap rs sid else None)"

definition sessions :: "runtime_session \<Rightarrow> session list" where
  "sessions rs = List.map_filter (rs_heap rs) (rs_registry rs)"

definition is_live :: "session \<Rightarrow> bool" where
  "is_live s \<longleftrightarrow> se_status s = SessActive \<or> se_status s = SessDisconnected"

definition put_session :: "session \<Rightarrow> runtime_session \<Rightarrow> runtime_session" where
  "put_session s rs = rs\<lparr>rs_heap := (rs_heap rs)(se_id s \<mapsto> s)\<rparr>"

definition unregister :: "string \<Rightarrow> runtime_session \<Rightarrow> runtime_session" where
  "unregister sid rs = rs\<lparr>rs_registry := removeAll sid (rs_registry rs)\<rparr>"

text \<open>\<^verbatim>\<open>liveSessionsLocked\<close>; no session id is empty, so an empty \<open>replaces\<close> leaves nothing out.\<close>

definition live_sessions_of :: "string \<Rightarrow> string \<Rightarrow> runtime_session \<Rightarrow> nat" where
  "live_sessions_of dev replaces rs =
     rs_launching rs dev +
     length (filter (\<lambda>s. se_device s = dev \<and> se_id s \<noteq> replaces \<and> is_live s) (sessions rs))"

definition release_launch_slot :: "string \<Rightarrow> runtime_session \<Rightarrow> runtime_session" where
  "release_launch_slot dev rs = rs\<lparr>rs_launching := (rs_launching rs)(dev := rs_launching rs dev - 1)\<rparr>"

definition session_by_runtime :: "string \<Rightarrow> runtime_session \<Rightarrow> session option" where
  "session_by_runtime rid rs = List.find (\<lambda>s. se_runtime s = rid) (sessions rs)"

definition find_reconnectable :: "string \<Rightarrow> string \<Rightarrow> runtime_session \<Rightarrow> string option" where
  "find_reconnectable rid dev rs =
     map_option se_id (List.find (\<lambda>s. se_runtime s = rid \<and> se_device s = dev \<and> is_live s) (sessions rs))"

definition working_dir :: "string \<Rightarrow> string \<Rightarrow> runtime_session \<Rightarrow> session_error + string" where
  "working_dir rid acp rs =
     (case session_by_runtime rid rs of
        None \<Rightarrow> Inl ErrSessionNotFound
      | Some s \<Rightarrow>
          let cwd = (if acp \<noteq> [] then cwd_for acp (pm_acp (se_pump s)) else ac_cwd (pm_acp (se_pump s)))
          in if cwd = [] then Inl ErrCwdUnknown else Inr cwd)"

definition chats_using :: "(string \<Rightarrow> bool) \<Rightarrow> runtime_session \<Rightarrow> string list" where
  "chats_using m rs = sort (concat (map (\<lambda>s. sessions_with_cwd m (pm_acp (se_pump s))) (filter is_live (sessions rs))))"

definition list_by_device :: "string \<Rightarrow> runtime_session \<Rightarrow> session_summary list" where
  "list_by_device dev rs =
     map (\<lambda>r. \<lparr>su_session = rc_session r, su_runtime = rc_runtime r, su_agent = rc_agent r, su_status = rc_status r,
         su_created = rc_created r,
         su_acp = (case registered (rc_session r) rs of None \<Rightarrow> []
           | Some s \<Rightarrow> sort (sessions_with_cwd (\<lambda>_. True) (pm_acp (se_pump s))))\<rparr>)
       (sessions_by_device dev (rs_store rs))"

definition session_status_of :: "string \<Rightarrow> runtime_session \<Rightarrow> session_error + session_status" where
  "session_status_of sid rs = (case registered sid rs of None \<Rightarrow> Inl ErrSessionNotFound | Some s \<Rightarrow> Inr (se_status s))"

text \<open>\<^verbatim>\<open>holding\<close>: a later candidate replaces the current one only when it is newer.\<close>

definition holding :: "string \<Rightarrow> string \<Rightarrow> string \<Rightarrow> runtime_session \<Rightarrow> session option" where
  "holding agent dev acp rs =
     (if acp = [] then None
      else fold (\<lambda>s best.
             if se_agent s = agent \<and> se_device s = dev \<and> is_live s \<and> acp_holds acp (pm_acp (se_pump s)) \<and>
                (case best of None \<Rightarrow> True | Some b \<Rightarrow> se_created b < se_created s)
             then Some s else best) (sessions rs) None)"

section \<open>Callbacks of the pump\<close>

definition send_push :: "session_config \<Rightarrow> session_push \<Rightarrow> runtime_session \<Rightarrow> runtime_session" where
  "send_push c p rs = (if sc_push c then rs\<lparr>rs_pushes := rs_pushes rs @ [p]\<rparr> else rs)"

text \<open>\<^verbatim>\<open>onPushNotification\<close>: only a registered session of a device is notified.\<close>

definition on_push :: "session_config \<Rightarrow> push_event \<Rightarrow> runtime_session \<Rightarrow> runtime_session" where
  "on_push c e rs =
     (case registered (pe_session e) rs of
        None \<Rightarrow> rs
      | Some s \<Rightarrow> if se_device s = [] then rs
          else send_push c \<lparr>sp_device = se_device s, sp_acp = pe_acp e, sp_cwd = cwd_for (pe_acp e) (pm_acp (se_pump s)),
             sp_title = pe_title e, sp_body = pe_body e, sp_category = pe_category e\<rparr> rs)"

definition session_pump_config :: "session_config \<Rightarrow> session \<Rightarrow> pump_config" where
  "session_pump_config c s = \<lparr>pc_runtime = se_runtime s, pc_session = se_id s, pc_agent = se_agent s,
     pc_interval = sc_progress_interval c, pc_push = True, pc_finish = True\<rparr>"

text \<open>The pump of a session moves on: its new outcomes are recorded, its new notifications sent.\<close>

definition set_pump :: "session_config \<Rightarrow> session \<Rightarrow> pump \<Rightarrow> runtime_session \<Rightarrow> runtime_session" where
  "set_pump c s pm rs =
     (let rs1 = put_session (s\<lparr>se_pump := pm\<rparr>) rs;
          rs2 = rs1\<lparr>rs_outcomes := fold (\<lambda>st acc. record_turn acc st) (drop (length (pm_outcomes (se_pump s))) (pm_outcomes pm))
                  (rs_outcomes rs1)\<rparr>
      in fold (on_push c) (drop (length (pm_pushes (se_pump s))) (pm_pushes pm)) rs2)"

section \<open>Creating a session\<close>

definition reserve ::
  "session_config \<Rightarrow> string \<Rightarrow> string \<Rightarrow> string \<Rightarrow> string \<Rightarrow> runtime_session \<Rightarrow> runtime_session \<times> session_error option" where
  "reserve c sid dev agent replaces rs =
     (if rs_closed rs then (rs, Some ErrSessionNotActive)
      else if 0 < sc_max_per_device c \<and> sc_max_per_device c \<le> int (live_sessions_of dev replaces rs)
           then (rs, Some ErrSessionLimitReached)
      else (rs\<lparr>rs_launching := (rs_launching rs)(dev := Suc (rs_launching rs dev)),
               rs_creating := AList.update sid
                 \<lparr>cr_device = dev, cr_agent = agent, cr_replaces = replaces, cr_stage = Reserved\<rparr> (rs_creating rs)\<rparr>, None))"

definition end_create :: "string \<Rightarrow> creating \<Rightarrow> runtime_session \<Rightarrow> runtime_session" where
  "end_create sid cr rs =
     release_launch_slot (cr_device cr) (rs\<lparr>rs_creating := AList.delete sid (rs_creating rs)\<rparr>)"

definition abandon :: "string \<Rightarrow> runtime_session \<Rightarrow> runtime_session" where
  "abandon rid rs = rs\<lparr>rs_stopped := rid # rs_stopped rs, rs_exits := rs_exits rs @ [(rid, False, True)]\<rparr>"

text \<open>The launch of the agent, which failed when there is no runtime.\<close>

definition launch_result :: "string \<Rightarrow> string option \<Rightarrow> runtime_session \<Rightarrow> runtime_session" where
  "launch_result sid runtime rs =
     (case map_of (rs_creating rs) sid of
        Some cr \<Rightarrow>
          (case (cr_stage cr, runtime) of
             (Reserved, None) \<Rightarrow> end_create sid cr rs
           | (Reserved, Some rid) \<Rightarrow>
               rs\<lparr>rs_creating := AList.update sid (cr\<lparr>cr_stage := Launched rid\<rparr>) (rs_creating rs),
                  rs_running := rid # rs_running rs\<rparr>
           | _ \<Rightarrow> rs)
      | None \<Rightarrow> rs)"

definition save_created :: "string \<Rightarrow> gtime \<Rightarrow> bool \<Rightarrow> runtime_session \<Rightarrow> runtime_session" where
  "save_created sid now ok rs =
     (case map_of (rs_creating rs) sid of
        Some cr \<Rightarrow>
          (case cr_stage cr of
             Launched rid \<Rightarrow>
               if ok then
                 rs\<lparr>rs_store := save_session \<lparr>rc_session = sid, rc_runtime = rid, rc_device = cr_device cr, rc_agent = cr_agent cr,
                      rc_status = SessDisconnected, rc_created = now, rc_connected = None, rc_disconnected = None,
                      rc_since = Some now\<rparr> (rs_store rs),
                    rs_creating := AList.update sid (cr\<lparr>cr_stage := Saved rid now\<rparr>) (rs_creating rs)\<rparr>
               else end_create sid cr (abandon rid rs)
           | _ \<Rightarrow> rs)
      | None \<Rightarrow> rs)"

definition new_session :: "string \<Rightarrow> string \<Rightarrow> creating \<Rightarrow> string \<Rightarrow> gtime \<Rightarrow> session" where
  "new_session sid epoch cr rid now =
     \<lparr>se_id = sid, se_runtime = rid, se_device = cr_device cr, se_agent = cr_agent cr, se_status = SessDisconnected,
      se_created = now, se_disconnected = Some now, se_pump = new_pump (Some (new_load_recovery epoch)),
      se_stopping = False, se_inbound_seq = 0\<rparr>"

text \<open>The registration, and the best-effort mint of the attach token that follows it.\<close>

definition register_created ::
  "string \<Rightarrow> string \<Rightarrow> string option \<Rightarrow> gtime \<Rightarrow> runtime_session \<Rightarrow> runtime_session \<times> (session_error + string)" where
  "register_created sid epoch random now rs =
     (case map_of (rs_creating rs) sid of
        Some cr \<Rightarrow>
          (case cr_stage cr of
             Saved rid created \<Rightarrow>
               let rs1 = end_create sid cr rs in
               if rs_closed rs1
               then ((abandon rid rs1)\<lparr>rs_store := delete_session sid (rs_store rs1)\<rparr>, Inl ErrSessionNotActive)
               else
                 let s = new_session sid epoch cr rid created;
                     (tokens, minted) = mint random sid (cr_device cr) attach_token_ttl now (rs_tokens rs1)
                 in ((put_session s rs1)\<lparr>rs_registry := sid # rs_registry rs1, rs_watched := rid # rs_watched rs1, rs_tokens := tokens,
                        rs_to_close := (if cr_replaces cr = [] then rs_to_close rs1 else cr_replaces cr # rs_to_close rs1)\<rparr>,
                     Inr (case minted of Inl _ \<Rightarrow> [] | Inr t \<Rightarrow> t))
           | _ \<Rightarrow> (rs, Inl ErrSessionNotActive))
      | None \<Rightarrow> (rs, Inl ErrSessionNotActive))"

section \<open>Attaching a client\<close>

definition resume ::
  "string \<Rightarrow> string \<Rightarrow> string option \<Rightarrow> gtime \<Rightarrow> runtime_session \<Rightarrow> runtime_session \<times> (session_error + string)" where
  "resume sid dev random now rs =
     (case registered sid rs of
        None \<Rightarrow> (rs, Inl ErrSessionNotFound)
      | Some s \<Rightarrow>
          if se_device s \<noteq> dev then (rs, Inl ErrDeviceMismatch)
          else if \<not> is_live s then (rs, Inl ErrSessionNotActive)
          else
            let (tokens, minted) = mint random sid dev attach_token_ttl now (rs_tokens rs)
            in (rs\<lparr>rs_tokens := tokens\<rparr>, case minted of Inl _ \<Rightarrow> Inl ErrMint | Inr t \<Rightarrow> Inr t))"

text \<open>\<^verbatim>\<open>AttachACP\<close>: the held session and its token, or \<open>None\<close> when a launch was started under \<open>sid\<close>.\<close>

definition attach_acp ::
  "session_config \<Rightarrow> string \<Rightarrow> string \<Rightarrow> string \<Rightarrow> string \<Rightarrow> string option \<Rightarrow> gtime \<Rightarrow> runtime_session \<Rightarrow>
     runtime_session \<times> (session_error + (string \<times> string) option)" where
  "attach_acp c sid agent dev acp random now rs =
     (case holding agent dev acp rs of
        Some held \<Rightarrow>
          let (tokens, minted) = mint random (se_id held) dev attach_token_ttl now (rs_tokens rs)
          in (rs\<lparr>rs_tokens := tokens\<rparr>, case minted of Inl _ \<Rightarrow> Inl ErrMint | Inr t \<Rightarrow> Inr (Some (se_id held, t)))
      | None \<Rightarrow>
          (case reserve c sid dev agent [] rs of
             (rs', Some e) \<Rightarrow> (rs', Inl e)
           | (rs', None) \<Rightarrow> (rs', Inr None)))"

text \<open>\<^verbatim>\<open>AttachClient\<close> up to the release of \<^verbatim>\<open>sess.mu\<close>; its row is saved later.\<close>

definition attach_client ::
  "string \<Rightarrow> string \<Rightarrow> gtime \<Rightarrow> gtime \<Rightarrow> runtime_session \<Rightarrow> runtime_session \<times> (session_error + string \<times> nat)" where
  "attach_client sid token now1 now2 rs0 =
     (let (tokens, res) = validate token now1 now2 (rs_tokens rs0); rs = rs0\<lparr>rs_tokens := tokens\<rparr> in
      case res of
        Inl _ \<Rightarrow> (rs, Inl ErrAttachToken)
      | Inr (claimed, dev) \<Rightarrow>
          if claimed \<noteq> sid then (rs, Inl ErrAttachToken)
          else (case registered sid rs of
             None \<Rightarrow> (rs, Inl ErrSessionNotFound)
           | Some s \<Rightarrow>
               if se_device s \<noteq> dev then (rs, Inl ErrDeviceMismatch)
               else if se_status s = SessFailed \<or> se_status s = SessClosing then (rs, Inl ErrSessionNotActive)
               else
                 let (l, gen) = attach (pm_link (se_pump s));
                     s' = s\<lparr>se_pump := (se_pump s)\<lparr>pm_link := l\<rparr>, se_status := SessActive, se_disconnected := None\<rparr>
                 in ((put_session s' rs)\<lparr>rs_saving := rs_saving rs @
                       [SaveAttach ((record_for s' SessActive)\<lparr>rc_connected := Some now2\<rparr>)]\<rparr>,
                     Inr (se_runtime s, gen))))"

definition bind_client :: "string \<Rightarrow> nat \<Rightarrow> nat \<Rightarrow> runtime_session \<Rightarrow> runtime_session \<times> bool" where
  "bind_client sid conn gen rs =
     (case registered sid rs of
        None \<Rightarrow> (rs, False)
      | Some s \<Rightarrow>
          let (l, ok) = bind_conn conn gen (pm_link (se_pump s))
          in (put_session (s\<lparr>se_pump := (se_pump s)\<lparr>pm_link := l\<rparr>\<rparr>) rs, ok))"

text \<open>\<^verbatim>\<open>DetachClient\<close>: the transition, then the save under the registry lock.\<close>

definition detach_mark :: "string \<Rightarrow> nat \<Rightarrow> gtime \<Rightarrow> runtime_session \<Rightarrow> runtime_session \<times> session_error option" where
  "detach_mark sid gen now rs =
     (case registered sid rs of
        None \<Rightarrow> (rs, Some ErrSessionNotFound)
      | Some s \<Rightarrow>
          let (l, ok) = detach gen (pm_link (se_pump s)) in
          if \<not> ok then (rs, None)
          else
            let s' = s\<lparr>se_pump := (se_pump s)\<lparr>pm_link := l\<rparr>, se_status := SessDisconnected, se_disconnected := Some now\<rparr>
            in ((put_session s' rs)\<lparr>rs_saving := rs_saving rs @
                  [SaveDetach ((record_for s' SessDisconnected)\<lparr>rc_disconnected := Some now, rc_since := Some now\<rparr>)]\<rparr>, None))"

text \<open>The saves; the \<open>i\<close>-th one that is outstanding reaches the store, or fails.\<close>

definition save_row :: "nat \<Rightarrow> bool \<Rightarrow> runtime_session \<Rightarrow> runtime_session \<times> session_error option" where
  "save_row i ok rs =
     (if length (rs_saving rs) \<le> i then (rs, None)
      else
        let rs1 = rs\<lparr>rs_saving := take i (rs_saving rs) @ drop (Suc i) (rs_saving rs)\<rparr> in
        case rs_saving rs ! i of
          SaveAttach r \<Rightarrow>
            if ok then (rs1\<lparr>rs_store := save_session r (rs_store rs1)\<rparr>, None) else (rs1, Some ErrSessionStore)
        | SaveDetach r \<Rightarrow>
            if registered (rc_session r) rs1 = None then (rs1, Some ErrSessionNotFound)
            else if ok then (rs1\<lparr>rs_store := save_session r (rs_store rs1)\<rparr>, None) else (rs1, Some ErrSessionStore))"

section \<open>Closing\<close>

definition close_request :: "string \<Rightarrow> string \<Rightarrow> runtime_session \<Rightarrow> runtime_session \<times> session_error option" where
  "close_request sid dev rs =
     (case registered sid rs of
        None \<Rightarrow> (rs, Some ErrSessionNotFound)
      | Some s \<Rightarrow> if se_device s \<noteq> dev then (rs, Some ErrDeviceMismatch)
          else (rs\<lparr>rs_to_close := sid # rs_to_close rs\<rparr>, None))"

definition restart ::
  "session_config \<Rightarrow> string \<Rightarrow> string \<Rightarrow> string \<Rightarrow> string \<Rightarrow> runtime_session \<Rightarrow> runtime_session \<times> session_error option" where
  "restart c sid rid dev agent rs =
     (case session_by_runtime rid rs of
        None \<Rightarrow> (rs, Some ErrSessionNotFound)
      | Some s \<Rightarrow> if se_device s \<noteq> dev then (rs, Some ErrDeviceMismatch) else reserve c sid dev agent (se_id s) rs)"

definition stop_by_agent :: "string \<Rightarrow> string \<Rightarrow> runtime_session \<Rightarrow> runtime_session \<times> (session_error + string)" where
  "stop_by_agent agent dev rs =
     (let targets = sort_key (\<lambda>s. - se_created s) (filter (\<lambda>s. se_agent s = agent \<and> se_device s = dev) (sessions rs))
      in if targets = [] then (rs, Inl ErrSessionNotFound)
         else (rs\<lparr>rs_to_close := map se_id targets @ rs_to_close rs\<rparr>, Inr (se_runtime (hd targets))))"

text \<open>\<^verbatim>\<open>closeSession\<close>, step 1: only the first close goes on; the others wait for it.\<close>

definition close_begin :: "string \<Rightarrow> bool \<Rightarrow> runtime_session \<Rightarrow> runtime_session" where
  "close_begin sid ok rs0 =
     (if sid \<notin> set (rs_to_close rs0) then rs0
      else
        let rs = rs0\<lparr>rs_to_close := remove1 sid (rs_to_close rs0)\<rparr> in
        case rs_heap rs sid of
          None \<Rightarrow> rs
        | Some s \<Rightarrow>
            if se_stopping s then rs
            else
              let s' = s\<lparr>se_stopping := True, se_status := SessClosing\<rparr>; rs1 = put_session s' rs in
              rs1\<lparr>rs_closing := AList.update sid CloseMarked (rs_closing rs1),
                  rs_store := (if ok then save_session (record_for s' SessClosing) (rs_store rs1) else rs_store rs1)\<rparr>)"

text \<open>Steps 2 and 3: the running prompts are cancelled, the registry drops the session.\<close>

definition close_unregister :: "session_config \<Rightarrow> string \<Rightarrow> gtime \<Rightarrow> runtime_session \<Rightarrow> runtime_session" where
  "close_unregister c sid now rs =
     (case (map_of (rs_closing rs) sid, rs_heap rs sid) of
        (Some CloseMarked, Some s) \<Rightarrow>
          (unregister sid (set_pump c s (finish_pending_turns (session_pump_config c s) now StateCancelled (se_pump s)) rs))
            \<lparr>rs_closing := AList.update sid CloseUnregistered (rs_closing rs)\<rparr>
      | _ \<Rightarrow> rs)"

definition close_frame :: "session \<Rightarrow> wire" where
  "close_frame s =
     (let acp = (if ac_session (pm_acp (se_pump s)) = [] then se_id s else ac_session (pm_acp (se_pump s)))
      in marshal (JObj [(''jsonrpc'', JStr ''2.0''), (''method'', JStr ''session/close''),
           (''id'', JStr (''gw-close-'' @ se_id s)), (''params'', JObj [(''sessionId'', JStr acp)])]))"

text \<open>Steps 4 and 5: the close request, when the agent takes one in time, and the stop of the process.\<close>

definition close_stop :: "string \<Rightarrow> bool \<Rightarrow> runtime_session \<Rightarrow> runtime_session" where
  "close_stop sid written rs =
     (case (map_of (rs_closing rs) sid, rs_heap rs sid) of
        (Some CloseUnregistered, Some s) \<Rightarrow>
          (put_session (if acp_closes (pm_acp (se_pump s))
             then s\<lparr>se_pump := write_session_close (close_frame s) written (se_pump s)\<rparr> else s) rs)
            \<lparr>rs_closing := AList.update sid CloseStopped (rs_closing rs), rs_stopped := se_runtime s # rs_stopped rs\<rparr>
      | _ \<Rightarrow> rs)"

text \<open>Step 6, once the exit was recorded or waiting for it timed out.\<close>

definition close_finish :: "string \<Rightarrow> bool \<Rightarrow> runtime_session \<Rightarrow> runtime_session" where
  "close_finish sid ok rs =
     (if map_of (rs_closing rs) sid = Some CloseStopped
      then rs\<lparr>rs_closing := AList.delete sid (rs_closing rs),
             rs_store := (if ok then delete_session sid (rs_store rs) else rs_store rs)\<rparr>
      else rs)"

section \<open>The end of a process\<close>

text \<open>\<^verbatim>\<open>watchProcess\<close>: the exit is recorded with what \<^verbatim>\<open>stopping\<close> says, then the session is reclaimed.\<close>

definition exit_record :: "string \<Rightarrow> bool \<Rightarrow> runtime_session \<Rightarrow> runtime_session" where
  "exit_record sid failed rs =
     (case rs_heap rs sid of
        None \<Rightarrow> rs
      | Some s \<Rightarrow>
          if se_runtime s \<notin> set (rs_running rs) then rs
          else rs\<lparr>rs_running := removeAll (se_runtime s) (rs_running rs),
                 rs_exits := rs_exits rs @ [(se_runtime s, failed, se_stopping s)],
                 rs_exiting := AList.update sid (se_stopping s) (rs_exiting rs)\<rparr>)"

definition agent_crash :: string where "agent_crash = ''agent_crash''"

definition crash_push :: "session \<Rightarrow> session_push" where
  "crash_push s =
     (let acp = ac_session (pm_acp (se_pump s)) in
      \<lparr>sp_device = se_device s, sp_acp = acp, sp_cwd = cwd_for acp (pm_acp (se_pump s)), sp_title = ''Agent Crashed'',
       sp_body = agent_name ''Your agent'' (se_pump s) @ '' has stopped unexpectedly.'', sp_category = agent_crash\<rparr>)"

definition handle_process_exit ::
  "session_config \<Rightarrow> string \<Rightarrow> bool \<Rightarrow> gtime \<Rightarrow> bool \<Rightarrow> runtime_session \<Rightarrow> runtime_session" where
  "handle_process_exit c sid intentional now ok rs =
     (case registered sid rs of
        None \<Rightarrow> rs
      | Some s \<Rightarrow>
          if se_status s = SessClosing then rs
          else
            let s1 = s\<lparr>se_status := SessFailed\<rparr>;
                rs1 = set_pump c s1 (finish_pending_turns (session_pump_config c s) now StateFailed (se_pump s)) rs;
                rs2 = (unregister sid rs1)\<lparr>rs_store := (if ok then delete_session sid (rs_store rs1) else rs_store rs1)\<rparr>
            in if \<not> intentional \<and> se_device s \<noteq> [] then send_push c (crash_push s) rs2 else rs2)"

definition exit_reclaim :: "session_config \<Rightarrow> string \<Rightarrow> gtime \<Rightarrow> bool \<Rightarrow> runtime_session \<Rightarrow> runtime_session" where
  "exit_reclaim c sid now ok rs =
     (case map_of (rs_exiting rs) sid of
        None \<Rightarrow> rs
      | Some intentional \<Rightarrow>
          handle_process_exit c sid intentional now ok (rs\<lparr>rs_exiting := AList.delete sid (rs_exiting rs)\<rparr>))"

text \<open>The exit of a process that no session watches.\<close>

definition unwatched_exit :: "string \<Rightarrow> runtime_session \<Rightarrow> runtime_session" where
  "unwatched_exit rid rs =
     (if rid \<in> set (rs_watched rs) then rs
      else rs\<lparr>rs_running := removeAll rid (rs_running rs)\<rparr>)"

section \<open>The reaper\<close>

definition reap_grace :: "duration \<Rightarrow> session \<Rightarrow> duration" where
  "reap_grace max_disc s = (if awaiting_client (se_pump s) then max max_disc awaiting_client_grace else max_disc)"

definition reap_since :: "gtime \<Rightarrow> session \<Rightarrow> gtime" where
  "reap_since disc s =
     (let out = pm_last_stdout (se_pump s) in if out \<noteq> zero_time \<and> disc < out then out else disc)"

definition reap_due :: "duration \<Rightarrow> gtime \<Rightarrow> session \<Rightarrow> bool" where
  "reap_due max_disc now s =
     (case (se_status s, se_disconnected s) of
        (SessDisconnected, Some disc) \<Rightarrow> reap_grace max_disc s < now - reap_since disc s
      | _ \<Rightarrow> False)"

definition reap_expired :: "duration \<Rightarrow> gtime \<Rightarrow> runtime_session \<Rightarrow> runtime_session" where
  "reap_expired max_disc now rs =
     (let due = filter (\<lambda>sid. case rs_heap rs sid of None \<Rightarrow> False | Some s \<Rightarrow> reap_due max_disc now s) (rs_registry rs)
      in rs\<lparr>rs_heap := (\<lambda>sid. if sid \<in> set due then map_option (\<lambda>s. s\<lparr>se_status := SessClosing\<rparr>) (rs_heap rs sid)
               else rs_heap rs sid),
            rs_to_close := due @ rs_to_close rs\<rparr>)"

section \<open>Shutting down\<close>

definition shutdown :: "runtime_session \<Rightarrow> runtime_session" where
  "shutdown rs = rs\<lparr>rs_closed := True, rs_shutting := rs_registry rs @ rs_shutting rs, rs_registry := []\<rparr>"

definition shutdown_stop :: "string \<Rightarrow> runtime_session \<Rightarrow> runtime_session" where
  "shutdown_stop sid rs =
     (if sid \<notin> set (rs_shutting rs) then rs
      else
        let rs1 = rs\<lparr>rs_shutting := removeAll sid (rs_shutting rs)\<rparr> in
        case rs_heap rs sid of
          None \<Rightarrow> rs1
        | Some s \<Rightarrow> if se_stopping s then rs1
            else (put_session (s\<lparr>se_stopping := True\<rparr>) rs1)\<lparr>rs_stopped := se_runtime s # rs_stopped rs1\<rparr>)"

section \<open>The audit of client frames\<close>

definition inbound_chan_size :: nat where "inbound_chan_size = 256"

definition inbound_send :: "string \<times> int \<times> string \<Rightarrow> inbound_writer \<Rightarrow> inbound_writer \<times> bool" where
  "inbound_send d w =
     (if iw_closed w then (w, False)
      else if length (iw_queue w) < inbound_chan_size then (w\<lparr>iw_queue := iw_queue w @ [d]\<rparr>, True)
      else (w, False))"

definition inbound_drain :: "inbound_writer \<Rightarrow> inbound_writer" where
  "inbound_drain w = (case iw_queue w of [] \<Rightarrow> w | d # ds \<Rightarrow> w\<lparr>iw_queue := ds, iw_log := iw_log w @ [d]\<rparr>)"

definition inbound_stop :: "inbound_writer \<Rightarrow> inbound_writer" where
  "inbound_stop w = w\<lparr>iw_closed := True\<rparr>"

definition log_inbound :: "string \<Rightarrow> string \<Rightarrow> runtime_session \<Rightarrow> runtime_session" where
  "log_inbound sid payload rs =
     (case registered sid rs of
        None \<Rightarrow> rs
      | Some s \<Rightarrow>
          let s' = s\<lparr>se_inbound_seq := se_inbound_seq s + 1\<rparr>; rs1 = put_session s' rs
          in rs1\<lparr>rs_inbound := fst (inbound_send (sid, se_inbound_seq s', payload) (rs_inbound rs1))\<rparr>)"

section \<open>Steps\<close>

text \<open>One atomic step of any goroutine; the results the callers see are dropped.\<close>

datatype session_event =
    SeReserve string string string
  | SeRestart string string string string
  | SeLaunch string "string option"
  | SeSaveNew string gtime bool
  | SeRegister string string "string option" gtime
  | SeAttachAcp string string string string "string option" gtime
  | SeResume string string "string option" gtime
  | SeAttach string string gtime gtime
  | SeBind string nat nat
  | SeDetach string nat gtime
  | SeSave nat bool
  | SeClose string string
  | SeStopAgent string string
  | SeCloseBegin string bool
  | SeCloseUnregister string gtime
  | SeCloseStop string bool
  | SeCloseFinish string bool
  | SeExit string bool
  | SeReclaim string gtime bool
  | SeUnwatched string
  | SeReap gtime
  | SeShutdown
  | SeShutdownStop string
  | SeStdout string gtime wire
  | SeWrite string nat gtime wire bool
  | SeInbound string string
  | SeDrain

definition on_pump :: "session_config \<Rightarrow> string \<Rightarrow> (pump_config \<Rightarrow> pump \<Rightarrow> pump) \<Rightarrow> runtime_session \<Rightarrow> runtime_session" where
  "on_pump c sid f rs =
     (case rs_heap rs sid of None \<Rightarrow> rs | Some s \<Rightarrow> set_pump c s (f (session_pump_config c s) (se_pump s)) rs)"

fun session_step :: "sdk \<Rightarrow> session_config \<Rightarrow> runtime_session \<Rightarrow> session_event \<Rightarrow> runtime_session" where
  "session_step u c rs (SeReserve sid dev agent) = fst (reserve c sid dev agent [] rs)"
| "session_step u c rs (SeRestart sid rid dev agent) = fst (restart c sid rid dev agent rs)"
| "session_step u c rs (SeLaunch sid rid) = launch_result sid rid rs"
| "session_step u c rs (SeSaveNew sid now ok) = save_created sid now ok rs"
| "session_step u c rs (SeRegister sid epoch random now) = fst (register_created sid epoch random now rs)"
| "session_step u c rs (SeAttachAcp sid agent dev acp random now) = fst (attach_acp c sid agent dev acp random now rs)"
| "session_step u c rs (SeResume sid dev random now) = fst (resume sid dev random now rs)"
| "session_step u c rs (SeAttach sid token now1 now2) = fst (attach_client sid token now1 now2 rs)"
| "session_step u c rs (SeBind sid conn gen) = fst (bind_client sid conn gen rs)"
| "session_step u c rs (SeDetach sid gen now) = fst (detach_mark sid gen now rs)"
| "session_step u c rs (SeSave i ok) = fst (save_row i ok rs)"
| "session_step u c rs (SeClose sid dev) = fst (close_request sid dev rs)"
| "session_step u c rs (SeStopAgent agent dev) = fst (stop_by_agent agent dev rs)"
| "session_step u c rs (SeCloseBegin sid ok) = close_begin sid ok rs"
| "session_step u c rs (SeCloseUnregister sid now) = close_unregister c sid now rs"
| "session_step u c rs (SeCloseStop sid written) = close_stop sid written rs"
| "session_step u c rs (SeCloseFinish sid ok) = close_finish sid ok rs"
| "session_step u c rs (SeExit sid failed) = exit_record sid failed rs"
| "session_step u c rs (SeReclaim sid now ok) = exit_reclaim c sid now ok rs"
| "session_step u c rs (SeUnwatched rid) = unwatched_exit rid rs"
| "session_step u c rs (SeReap now) = reap_expired (sc_max_disconnected c) now rs"
| "session_step u c rs SeShutdown = shutdown rs"
| "session_step u c rs (SeShutdownStop sid) = shutdown_stop sid rs"
| "session_step u c rs (SeStdout sid now line) = on_pump c sid (\<lambda>pc. handle_stdout_line u pc now line) rs"
| "session_step u c rs (SeWrite sid gen now payload ok) = on_pump c sid (\<lambda>pc pm. fst (write_to_agent u gen now payload ok pm)) rs"
| "session_step u c rs (SeInbound sid payload) = log_inbound sid payload rs"
| "session_step u c rs SeDrain = rs\<lparr>rs_inbound := inbound_drain (rs_inbound rs)\<rparr>"

text \<open>Session ids and runtime ids are drawn fresh.\<close>

definition fresh_session :: "string \<Rightarrow> runtime_session \<Rightarrow> bool" where
  "fresh_session sid rs \<longleftrightarrow> sid \<noteq> [] \<and> rs_heap rs sid = None \<and> map_of (rs_creating rs) sid = None"

definition fresh_runtime :: "string \<Rightarrow> runtime_session \<Rightarrow> bool" where
  "fresh_runtime rid rs \<longleftrightarrow>
     rid \<notin> set (rs_running rs) \<and> rid \<notin> set (rs_watched rs) \<and> rid \<notin> set (rs_stopped rs) \<and>
     (\<forall>sid cr. map_of (rs_creating rs) sid = Some cr \<longrightarrow> cr_stage cr \<noteq> Launched rid \<and> (\<forall>t. cr_stage cr \<noteq> Saved rid t))"

definition fresh_event :: "runtime_session \<Rightarrow> session_event \<Rightarrow> bool" where
  "fresh_event rs e =
     (case e of
        SeReserve sid _ _ \<Rightarrow> fresh_session sid rs
      | SeRestart sid _ _ _ \<Rightarrow> fresh_session sid rs
      | SeAttachAcp sid _ _ _ _ _ \<Rightarrow> fresh_session sid rs
      | SeLaunch _ (Some rid) \<Rightarrow> fresh_runtime rid rs
      | _ \<Rightarrow> True)"

inductive reachable :: "sdk \<Rightarrow> session_config \<Rightarrow> runtime_session \<Rightarrow> bool" for u c where
  reach_new: "reachable u c new_runtime_session"
| reach_step: "reachable u c rs \<Longrightarrow> fresh_event rs e \<Longrightarrow> reachable u c (session_step u c rs e)"

end
