(* ===== verification/Sessions_Proofs.thy ===== *)
theory Sessions_Proofs
  imports Sessions
begin

text \<open>
  Invariants of the session layer over every interleaving of its locked sections: the registry is
  well-formed, a device stays within its quota, and no agent process is left without an owner.
\<close>

section \<open>Helpers\<close>

named_theorems sess "fields of the session registry after an update"

lemma on_push_fields [sess]:
  "rs_heap (on_push c e rs) = rs_heap rs" "rs_registry (on_push c e rs) = rs_registry rs"
  "rs_closed (on_push c e rs) = rs_closed rs" "rs_launching (on_push c e rs) = rs_launching rs"
  "rs_tokens (on_push c e rs) = rs_tokens rs" "rs_store (on_push c e rs) = rs_store rs"
  "rs_outcomes (on_push c e rs) = rs_outcomes rs"
  "rs_creating (on_push c e rs) = rs_creating rs" "rs_saving (on_push c e rs) = rs_saving rs"
  "rs_to_close (on_push c e rs) = rs_to_close rs" "rs_closing (on_push c e rs) = rs_closing rs"
  "rs_exiting (on_push c e rs) = rs_exiting rs" "rs_running (on_push c e rs) = rs_running rs"
  "rs_watched (on_push c e rs) = rs_watched rs" "rs_stopped (on_push c e rs) = rs_stopped rs"
  "rs_shutting (on_push c e rs) = rs_shutting rs"
  by (simp_all add: on_push_def send_push_def split: option.split)

lemma fold_field: "(\<And>e r. g (f e r) = g r) \<Longrightarrow> g (fold f es r) = g r"
  by (induction es arbitrary: r) simp_all

lemma set_pump_fields [sess]:
  "rs_heap (set_pump c s pm rs) = (rs_heap rs)(se_id s \<mapsto> s\<lparr>se_pump := pm\<rparr>)"
  "rs_registry (set_pump c s pm rs) = rs_registry rs"
  "rs_closed (set_pump c s pm rs) = rs_closed rs" "rs_launching (set_pump c s pm rs) = rs_launching rs"
  "rs_tokens (set_pump c s pm rs) = rs_tokens rs" "rs_store (set_pump c s pm rs) = rs_store rs"
  "rs_creating (set_pump c s pm rs) = rs_creating rs" "rs_saving (set_pump c s pm rs) = rs_saving rs"
  "rs_to_close (set_pump c s pm rs) = rs_to_close rs" "rs_closing (set_pump c s pm rs) = rs_closing rs"
  "rs_exiting (set_pump c s pm rs) = rs_exiting rs" "rs_running (set_pump c s pm rs) = rs_running rs"
  "rs_watched (set_pump c s pm rs) = rs_watched rs" "rs_stopped (set_pump c s pm rs) = rs_stopped rs"
  "rs_shutting (set_pump c s pm rs) = rs_shutting rs"
  by (simp_all add: set_pump_def Let_def put_session_def fold_field [where f = "on_push c"] on_push_fields)

lemmas plain_defs = put_session_def unregister_def release_launch_slot_def end_create_def abandon_def send_push_def

lemma length_filter_mono: "(\<And>x. x \<in> set xs \<Longrightarrow> P x \<Longrightarrow> Q x) \<Longrightarrow> length (filter P xs) \<le> length (filter Q xs)"
  by (induction xs) auto

lemma length_filter_one_more:
  assumes "distinct xs" "\<And>x. x \<in> set xs \<Longrightarrow> P x \<Longrightarrow> Q x \<or> x = r"
  shows "length (filter P xs) \<le> Suc (length (filter Q xs))"
  using assms
proof (induction xs)
  case (Cons x xs)
  show ?case
  proof (cases "x = r")
    case True
    then have "length (filter P xs) \<le> length (filter Q xs)"
      using Cons.prems by (intro length_filter_mono) auto
    then show ?thesis by simp
  next
    case False
    then show ?thesis using Cons.IH Cons.prems by fastforce
  qed
qed simp

section \<open>The core of the registry\<close>

definition core :: "session \<Rightarrow> string \<times> string \<times> string \<times> bool" where
  "core s = (se_id s, se_runtime s, se_device s, se_stopping s)"

definition core_eq :: "runtime_session \<Rightarrow> runtime_session \<Rightarrow> bool" where
  "core_eq rs t \<longleftrightarrow>
     (\<forall>sid. rel_option (\<lambda>s s'. core s' = core s \<and> (is_live s \<longrightarrow> is_live s')) (rs_heap rs sid) (rs_heap t sid)) \<and>
     rs_registry t = rs_registry rs \<and> rs_launching t = rs_launching rs \<and> rs_creating t = rs_creating rs \<and>
     rs_to_close t = rs_to_close rs \<and> rs_closing t = rs_closing rs \<and> rs_exiting t = rs_exiting rs \<and>
     rs_running t = rs_running rs \<and> rs_watched t = rs_watched rs \<and> rs_stopped t = rs_stopped rs \<and>
     rs_shutting t = rs_shutting rs"

definition launches :: "string \<Rightarrow> creating \<Rightarrow> bool" where
  "launches rid cr \<longleftrightarrow> cr_stage cr = Launched rid \<or> (\<exists>t. cr_stage cr = Saved rid t)"

definition tearing :: "close_stage option \<Rightarrow> bool" where
  "tearing st \<longleftrightarrow> st = Some CloseMarked \<or> st = Some CloseUnregistered"

text \<open>A running process is accounted for.\<close>

definition owned :: "runtime_session \<Rightarrow> string \<Rightarrow> bool" where
  "owned rs rid \<longleftrightarrow>
     rid \<in> set (rs_stopped rs) \<or>
     (\<exists>sid cr. map_of (rs_creating rs) sid = Some cr \<and> launches rid cr) \<or>
     (\<exists>sid s. rs_heap rs sid = Some s \<and> se_runtime s = rid \<and>
        (sid \<in> set (rs_registry rs) \<or> tearing (map_of (rs_closing rs) sid) \<or>
         (sid \<in> set (rs_shutting rs) \<and> \<not> se_stopping s)))"

lemma ownedE:
  assumes "owned rs rid"
  obtains "rid \<in> set (rs_stopped rs)"
    | sid cr where "map_of (rs_creating rs) sid = Some cr" "launches rid cr"
    | sid s where "rs_heap rs sid = Some s" "se_runtime s = rid" "sid \<in> set (rs_registry rs)"
    | sid s where "rs_heap rs sid = Some s" "se_runtime s = rid" "tearing (map_of (rs_closing rs) sid)"
    | sid s where "rs_heap rs sid = Some s" "se_runtime s = rid" "sid \<in> set (rs_shutting rs)" "\<not> se_stopping s"
  using assms unfolding owned_def by auto

lemma ownedI:
  "rid \<in> set (rs_stopped rs) \<Longrightarrow> owned rs rid"
  "map_of (rs_creating rs) sid = Some cr \<Longrightarrow> launches rid cr \<Longrightarrow> owned rs rid"
  "rs_heap rs sid = Some s \<Longrightarrow> se_runtime s = rid \<Longrightarrow> sid \<in> set (rs_registry rs) \<Longrightarrow> owned rs rid"
  "rs_heap rs sid = Some s \<Longrightarrow> se_runtime s = rid \<Longrightarrow> tearing (map_of (rs_closing rs) sid) \<Longrightarrow> owned rs rid"
  "rs_heap rs sid = Some s \<Longrightarrow> se_runtime s = rid \<Longrightarrow> sid \<in> set (rs_shutting rs) \<Longrightarrow> \<not> se_stopping s \<Longrightarrow> owned rs rid"
  unfolding owned_def by blast+

text \<open>What counts against a device: launches in flight and sessions that are neither being replaced nor torn down.\<close>

definition replaced :: "runtime_session \<Rightarrow> string set" where
  "replaced rs = {r. \<exists>sid cr. map_of (rs_creating rs) sid = Some cr \<and> cr_replaces cr = r}"

definition counts :: "runtime_session \<Rightarrow> string \<Rightarrow> string \<Rightarrow> bool" where
  "counts rs dev sid \<longleftrightarrow> sid \<notin> set (rs_to_close rs) \<and> sid \<notin> replaced rs \<and>
     (case rs_heap rs sid of None \<Rightarrow> False | Some s \<Rightarrow> se_device s = dev \<and> \<not> se_stopping s)"

definition quota_count :: "string \<Rightarrow> runtime_session \<Rightarrow> nat" where
  "quota_count dev rs = rs_launching rs dev + length (filter (counts rs dev) (rs_registry rs))"

definition launching_count :: "runtime_session \<Rightarrow> string \<Rightarrow> nat" where
  "launching_count rs dev = length (filter (\<lambda>e. cr_device (snd e) = dev) (rs_creating rs))"

definition heap_ok :: "runtime_session \<Rightarrow> bool" where
  "heap_ok rs \<longleftrightarrow>
     (\<forall>sid s. rs_heap rs sid = Some s \<longrightarrow> se_id s = sid \<and> sid \<noteq> [] \<and> se_runtime s \<in> set (rs_watched rs)) \<and>
     (\<forall>sid s sid' s'. rs_heap rs sid = Some s \<longrightarrow> rs_heap rs sid' = Some s' \<longrightarrow> se_runtime s = se_runtime s' \<longrightarrow> sid = sid') \<and>
     distinct (rs_registry rs) \<and> (\<forall>sid. sid \<in> set (rs_registry rs) \<longrightarrow> rs_heap rs sid \<noteq> None)"

definition creating_ok :: "runtime_session \<Rightarrow> bool" where
  "creating_ok rs \<longleftrightarrow> keys_distinct (rs_creating rs) \<and>
     (\<forall>sid cr. map_of (rs_creating rs) sid = Some cr \<longrightarrow> rs_heap rs sid = None \<and> sid \<noteq> [] \<and>
        (\<forall>s. rs_heap rs (cr_replaces cr) = Some s \<longrightarrow> se_device s = cr_device cr) \<and>
        (\<forall>rid. launches rid cr \<longrightarrow> rid \<notin> set (rs_watched rs)) \<and>
        (cr_replaces cr \<noteq> [] \<longrightarrow> rs_heap rs (cr_replaces cr) \<noteq> None)) \<and>
     (\<forall>sid cr sid' cr' rid. map_of (rs_creating rs) sid = Some cr \<longrightarrow> map_of (rs_creating rs) sid' = Some cr' \<longrightarrow>
        launches rid cr \<longrightarrow> launches rid cr' \<longrightarrow> sid = sid') \<and>
     (\<forall>dev. rs_launching rs dev = launching_count rs dev)"

definition teardown_ok :: "runtime_session \<Rightarrow> bool" where
  "teardown_ok rs \<longleftrightarrow>
     (\<forall>sid s. rs_heap rs sid = Some s \<longrightarrow> sid \<in> set (rs_registry rs) \<longrightarrow> \<not> se_stopping s \<longrightarrow> sid \<notin> set (rs_to_close rs) \<longrightarrow> is_live s) \<and>
     (\<forall>sid s. rs_heap rs sid = Some s \<longrightarrow> se_stopping s \<longrightarrow>
        tearing (map_of (rs_closing rs) sid) \<or> se_runtime s \<in> set (rs_stopped rs)) \<and>
     (\<forall>sid i. map_of (rs_exiting rs) sid = Some i \<longrightarrow> (\<exists>s. rs_heap rs sid = Some s \<and> se_runtime s \<notin> set (rs_running rs)))"

definition sess_inv :: "session_config \<Rightarrow> runtime_session \<Rightarrow> bool" where
  "sess_inv c rs \<longleftrightarrow> heap_ok rs \<and> creating_ok rs \<and> teardown_ok rs \<and>
     (\<forall>rid. rid \<in> set (rs_running rs) \<longrightarrow> owned rs rid) \<and>
     (0 < sc_max_per_device c \<longrightarrow> (\<forall>dev. int (quota_count dev rs) \<le> sc_max_per_device c))"

lemma core_eq_heap:
  assumes "core_eq rs t"
  shows "rs_heap t sid = Some s' \<Longrightarrow> \<exists>s. rs_heap rs sid = Some s \<and> core s' = core s \<and> (is_live s \<longrightarrow> is_live s')"
    and "rs_heap rs sid = Some s \<Longrightarrow> \<exists>s'. rs_heap t sid = Some s' \<and> core s' = core s \<and> (is_live s \<longrightarrow> is_live s')"
    and "rs_heap t sid = None \<longleftrightarrow> rs_heap rs sid = None"
proof -
  have r: "rel_option (\<lambda>s s'. core s' = core s \<and> (is_live s \<longrightarrow> is_live s')) (rs_heap rs sid) (rs_heap t sid)"
    using assms by (simp add: core_eq_def)
  show "rs_heap t sid = Some s' \<Longrightarrow> \<exists>s. rs_heap rs sid = Some s \<and> core s' = core s \<and> (is_live s \<longrightarrow> is_live s')"
    using r by (cases "rs_heap rs sid") auto
  show "rs_heap rs sid = Some s \<Longrightarrow> \<exists>s'. rs_heap t sid = Some s' \<and> core s' = core s \<and> (is_live s \<longrightarrow> is_live s')"
    using r by (cases "rs_heap t sid") auto
  show "rs_heap t sid = None \<longleftrightarrow> rs_heap rs sid = None" using r by (cases "rs_heap t sid"; cases "rs_heap rs sid") auto
qed

lemma core_eq_counts: "core_eq rs t \<Longrightarrow> counts t dev sid = counts rs dev sid"
proof -
  assume e: "core_eq rs t"
  then have "replaced t = replaced rs" "rs_to_close t = rs_to_close rs" by (simp_all add: core_eq_def replaced_def)
  moreover have "(case rs_heap t sid of None \<Rightarrow> False | Some s \<Rightarrow> se_device s = dev \<and> \<not> se_stopping s) =
      (case rs_heap rs sid of None \<Rightarrow> False | Some s \<Rightarrow> se_device s = dev \<and> \<not> se_stopping s)"
    using core_eq_heap [OF e, of sid] by (cases "rs_heap rs sid") (auto simp: core_def)
  ultimately show ?thesis by (simp add: counts_def)
qed

lemma core_eq_inv:
  assumes e: "core_eq rs t" and inv: "sess_inv c rs"
  shows "sess_inv c t"
proof -
  have f: "rs_registry t = rs_registry rs" "rs_launching t = rs_launching rs" "rs_creating t = rs_creating rs"
    "rs_to_close t = rs_to_close rs" "rs_closing t = rs_closing rs" "rs_exiting t = rs_exiting rs"
    "rs_running t = rs_running rs" "rs_watched t = rs_watched rs" "rs_stopped t = rs_stopped rs"
    "rs_shutting t = rs_shutting rs"
    using e by (simp_all add: core_eq_def)
  note h = core_eq_heap [OF e]
  have ho: "heap_ok rs" and co: "creating_ok rs" and te: "teardown_ok rs" using inv by (simp_all add: sess_inv_def)
  have "heap_ok t"
    unfolding heap_ok_def f
  proof (intro conjI allI impI)
    fix sid s assume "rs_heap t sid = Some s"
    from h(1) [OF this] obtain x where "rs_heap rs sid = Some x" "core s = core x" by blast
    then show "se_id s = sid" "sid \<noteq> []" "se_runtime s \<in> set (rs_watched rs)"
      using ho unfolding heap_ok_def core_def by auto
  next
    fix sid s sid' s'
    assume "rs_heap t sid = Some s" "rs_heap t sid' = Some s'" and r: "se_runtime s = se_runtime s'"
    with h(1) obtain x x' where "rs_heap rs sid = Some x" "core s = core x" "rs_heap rs sid' = Some x'" "core s' = core x'" by meson
    then show "sid = sid'" using ho r unfolding heap_ok_def core_def by (metis prod.inject)
  next
    show "distinct (rs_registry rs)" using ho by (simp add: heap_ok_def)
    fix sid assume "sid \<in> set (rs_registry rs)"
    then show "rs_heap t sid \<noteq> None" using ho h(3) by (simp add: heap_ok_def)
  qed
  moreover have "creating_ok t"
  proof -
    have lc: "launching_count t dev = launching_count rs dev" for dev by (simp add: launching_count_def f)
    have dev: "se_device s = cr_device cr" if "rs_heap t (cr_replaces cr) = Some s" "map_of (rs_creating rs) sid = Some cr" for sid cr s
      using h(1) [OF that(1)] co that(2) unfolding creating_ok_def core_def by (metis prod.inject)
    show ?thesis using co dev unfolding creating_ok_def f lc h(3) by blast
  qed
  moreover have "teardown_ok t"
    unfolding teardown_ok_def f
  proof (intro conjI allI impI)
    fix sid s assume s: "rs_heap t sid = Some s"
    from h(1) [OF this] obtain x where x: "rs_heap rs sid = Some x" "core s = core x" "is_live x \<longrightarrow> is_live s" by blast
    { assume "sid \<in> set (rs_registry rs)" "\<not> se_stopping s" "sid \<notin> set (rs_to_close rs)"
      then show "is_live s" using te x unfolding teardown_ok_def core_def by auto }
    { assume "se_stopping s"
      then show "tearing (map_of (rs_closing rs) sid) \<or> se_runtime s \<in> set (rs_stopped rs)"
        using te x unfolding teardown_ok_def core_def by auto }
  next
    fix sid i assume "map_of (rs_exiting rs) sid = Some i"
    then obtain x where "rs_heap rs sid = Some x" "se_runtime x \<notin> set (rs_running rs)" using te unfolding teardown_ok_def by blast
    with h(2) [OF this(1)] show "\<exists>s. rs_heap t sid = Some s \<and> se_runtime s \<notin> set (rs_running rs)" by (auto simp: core_def)
  qed
  moreover have "owned t rid" if "owned rs rid" for rid
    using that
  proof (cases rule: ownedE)
    case 1
    then show ?thesis by (intro ownedI(1)) (simp add: f)
  next
    case (2 sid cr)
    then show ?thesis by (intro ownedI(2) [of t sid cr]) (simp_all add: f)
  next
    case (3 sid x)
    from h(2) [OF 3(1)] obtain s where "rs_heap t sid = Some s" "core s = core x" by blast
    then show ?thesis using 3 by (intro ownedI(3) [of t sid s]) (simp_all add: f core_def)
  next
    case (4 sid x)
    from h(2) [OF 4(1)] obtain s where "rs_heap t sid = Some s" "core s = core x" by blast
    then show ?thesis using 4 by (intro ownedI(4) [of t sid s]) (simp_all add: f core_def)
  next
    case (5 sid x)
    from h(2) [OF 5(1)] obtain s where "rs_heap t sid = Some s" "core s = core x" by blast
    then show ?thesis using 5 by (intro ownedI(5) [of t sid s]) (simp_all add: f core_def)
  qed
  moreover have "quota_count dev t = quota_count dev rs" for dev
    using core_eq_counts [OF e] by (simp add: quota_count_def f cong: filter_cong)
  ultimately show ?thesis using inv by (simp add: sess_inv_def f)
qed

lemma core_eq_refl [simp]: "core_eq rs rs"
  by (simp add: core_eq_def option.rel_refl)

text \<open>Changing one session without touching what \<open>core\<close> shows.\<close>

lemma core_eq_put:
  assumes "rs_heap rs sid = Some s" "rs_heap t = (rs_heap rs)(sid \<mapsto> s')" "core s' = core s" "is_live s \<Longrightarrow> is_live s'"
    and "rs_registry t = rs_registry rs" "rs_launching t = rs_launching rs" "rs_creating t = rs_creating rs"
      "rs_to_close t = rs_to_close rs" "rs_closing t = rs_closing rs" "rs_exiting t = rs_exiting rs"
      "rs_running t = rs_running rs" "rs_watched t = rs_watched rs" "rs_stopped t = rs_stopped rs"
      "rs_shutting t = rs_shutting rs"
  shows "core_eq rs t"
  using assms by (simp add: core_eq_def option.rel_refl)

lemma core_eq_same_heap:
  assumes "rs_heap t = rs_heap rs"
    and "rs_registry t = rs_registry rs" "rs_launching t = rs_launching rs" "rs_creating t = rs_creating rs"
      "rs_to_close t = rs_to_close rs" "rs_closing t = rs_closing rs" "rs_exiting t = rs_exiting rs"
      "rs_running t = rs_running rs" "rs_watched t = rs_watched rs" "rs_stopped t = rs_stopped rs"
      "rs_shutting t = rs_shutting rs"
  shows "core_eq rs t"
  using assms by (simp add: core_eq_def option.rel_refl)

lemma registered_heap: "registered sid rs = Some s \<Longrightarrow> rs_heap rs sid = Some s \<and> sid \<in> set (rs_registry rs)"
  by (simp add: registered_def split: if_splits)

lemma inv_id: "sess_inv c rs \<Longrightarrow> rs_heap rs sid = Some s \<Longrightarrow> se_id s = sid"
  by (auto simp: sess_inv_def heap_ok_def)

lemma core_eq_on_pump: "sess_inv c rs \<Longrightarrow> core_eq rs (on_pump cf sid f rs)"
proof (cases "rs_heap rs sid")
  case (Some s)
  assume "sess_inv c rs"
  from inv_id [OF this Some] have "se_id s = sid" .
  then show ?thesis unfolding on_pump_def Some option.case
    by (intro core_eq_put [OF Some, where s' = "s\<lparr>se_pump := f (session_pump_config cf s) (se_pump s)\<rparr>"])
      (simp_all add: sess core_def is_live_def)
qed (simp add: on_pump_def)

lemma core_eq_quiet:
  assumes inv: "sess_inv c rs"
  shows "core_eq rs (fst (resume sid dev random now rs))"
    "core_eq rs (fst (attach_client sid token now1 now2 rs))"
    "core_eq rs (fst (bind_client sid conn gen rs))"
    "core_eq rs (fst (detach_mark sid gen now rs))"
    "core_eq rs (fst (save_row i ok rs))"
    "core_eq rs (log_inbound sid payload rs)"
    "core_eq rs (rs\<lparr>rs_inbound := w\<rparr>)"
proof -
  have live: "is_live (s\<lparr>se_pump := p, se_status := SessActive, se_disconnected := d\<rparr>)"
    "is_live (s\<lparr>se_pump := p, se_status := SessDisconnected, se_disconnected := d\<rparr>)" for s p d by (simp_all add: is_live_def)
  show "core_eq rs (fst (resume sid dev random now rs))"
    by (rule core_eq_same_heap) (simp_all add: resume_def Let_def split: option.split prod.split)
  show "core_eq rs (fst (save_row i ok rs))"
    by (rule core_eq_same_heap) (simp_all add: save_row_def Let_def split: saving.split)
  show "core_eq rs (rs\<lparr>rs_inbound := w\<rparr>)" by (rule core_eq_same_heap) simp_all
  show "core_eq rs (log_inbound sid payload rs)"
  proof (cases "registered sid rs")
    case (Some s)
    note r = registered_heap [OF Some]
    then have "se_id s = sid" using inv_id [OF inv] by blast
    with r show ?thesis unfolding log_inbound_def Some option.case Let_def
      by (intro core_eq_put [of rs sid s, where s' = "s\<lparr>se_inbound_seq := se_inbound_seq s + 1\<rparr>"])
        (simp_all add: put_session_def core_def is_live_def)
  qed (simp add: log_inbound_def)
  show "core_eq rs (fst (bind_client sid conn gen rs))"
  proof (cases "registered sid rs")
    case (Some s)
    note r = registered_heap [OF Some]
    then have "se_id s = sid" using inv_id [OF inv] by blast
    with r show ?thesis unfolding bind_client_def Some option.case Let_def case_prod_unfold fst_conv
      by (intro core_eq_put [of rs sid s, where s' = "s\<lparr>se_pump := (se_pump s)\<lparr>pm_link := fst (bind_conn conn gen (pm_link (se_pump s)))\<rparr>\<rparr>"])
        (simp_all add: put_session_def core_def is_live_def)
  qed (simp add: bind_client_def)
  show "core_eq rs (fst (detach_mark sid gen now rs))"
  proof (cases "registered sid rs")
    case (Some s)
    note r = registered_heap [OF Some]
    then have "se_id s = sid" using inv_id [OF inv] by blast
    with r show ?thesis unfolding detach_mark_def Some option.case Let_def case_prod_unfold
      by (cases "snd (detach gen (pm_link (se_pump s)))")
        (auto intro!: core_eq_put [of rs sid s] simp: put_session_def core_def is_live_def)
  qed (simp add: detach_mark_def)
  show "core_eq rs (fst (attach_client sid token now1 now2 rs))"
  proof -
    obtain tk res where v: "validate token now1 now2 (rs_tokens rs) = (tk, res)" by fastforce
    let ?rs = "rs\<lparr>rs_tokens := tk\<rparr>"
    have quiet: "core_eq rs ?rs" by (rule core_eq_same_heap) simp_all
    show ?thesis
    proof (cases "registered sid ?rs")
      case None
      then show ?thesis using quiet unfolding attach_client_def v Let_def by (simp split: sum.split prod.split)
    next
      case (Some s)
      then have r: "rs_heap rs sid = Some s" using registered_heap [OF Some] by simp
      then have id: "se_id s = sid" using inv_id [OF inv] by blast
      show ?thesis using quiet
        unfolding attach_client_def v Let_def case_prod_unfold
        by (auto simp: Some split: sum.split intro!: core_eq_put [OF r] simp: put_session_def id core_def is_live_def)
    qed
  qed
qed

section \<open>Counting\<close>

lemma count_update_new:
  "map_of m k = None \<Longrightarrow> length (filter P (AList.update k v m)) = length (filter P m) + (if P (k, v) then 1 else 0)"
  by (induction m) (auto split: if_splits)

lemma count_update_same:
  "keys_distinct m \<Longrightarrow> map_of m k = Some w \<Longrightarrow> P (k, v) = P (k, w) \<Longrightarrow>
     length (filter P (AList.update k v m)) = length (filter P m)"
  by (induction m) (auto simp: keys_distinct_def split: if_splits)

lemma count_remove:
  "keys_distinct m \<Longrightarrow> map_of m k = Some w \<Longrightarrow>
     length (filter P m) = length (filter P (AList.delete k m)) + (if P (k, w) then 1 else 0)"
proof (induction m)
  case (Cons e m)
  obtain k' v where e: "e = (k', v)" by (cases e)
  have d: "keys_distinct m" "k' \<notin> fst ` set m" using Cons.prems(1) by (simp_all add: keys_distinct_def e)
  show ?case
  proof (cases "k' = k")
    case True
    then have "AList.delete k m = m" using d(2) by (simp add: delete_id)
    then show ?thesis using True Cons.prems(2) by (simp add: e)
  next
    case False
    then show ?thesis using Cons.IH [OF d(1)] Cons.prems(2) by (simp add: e)
  qed
qed simp

lemma inv_parts:
  assumes "sess_inv c rs"
  shows "heap_ok rs" "creating_ok rs" "teardown_ok rs" "rid \<in> set (rs_running rs) \<Longrightarrow> owned rs rid"
    "0 < sc_max_per_device c \<Longrightarrow> int (quota_count dev rs) \<le> sc_max_per_device c"
  using assms by (simp_all add: sess_inv_def)

lemma sess_invI:
  assumes "heap_ok rs" "creating_ok rs" "teardown_ok rs" "\<And>rid. rid \<in> set (rs_running rs) \<Longrightarrow> owned rs rid"
    "\<And>dev. 0 < sc_max_per_device c \<Longrightarrow> int (quota_count dev rs) \<le> sc_max_per_device c"
  shows "sess_inv c rs"
  using assms by (simp add: sess_inv_def)

lemma creatingD:
  assumes "creating_ok rs" "map_of (rs_creating rs) sid = Some cr"
  shows "rs_heap rs sid = None" "sid \<noteq> []" "rs_heap rs (cr_replaces cr) = Some s \<Longrightarrow> se_device s = cr_device cr"
    "launches rid cr \<Longrightarrow> rid \<notin> set (rs_watched rs)"
    "map_of (rs_creating rs) sid' = Some cr' \<Longrightarrow> launches rid cr \<Longrightarrow> launches rid cr' \<Longrightarrow> sid = sid'"
    "cr_replaces cr \<noteq> [] \<Longrightarrow> rs_heap rs (cr_replaces cr) \<noteq> None"
  using assms unfolding creating_ok_def by blast+

lemma creating_counts: "creating_ok rs \<Longrightarrow> keys_distinct (rs_creating rs) \<and> rs_launching rs dev = launching_count rs dev"
  by (simp add: creating_ok_def)

section \<open>Launches\<close>

lemma stop_inv:
  assumes inv: "sess_inv c rs"
  shows "sess_inv c (abandon rid rs)"
proof (rule sess_invI)
  note i = inv_parts [OF inv]
  show "heap_ok (abandon rid rs)" using i(1) by (simp add: heap_ok_def abandon_def)
  show "creating_ok (abandon rid rs)" using i(2) by (simp add: creating_ok_def abandon_def launching_count_def)
  show "teardown_ok (abandon rid rs)" using i(3) by (auto simp: teardown_ok_def abandon_def)
  show "owned (abandon rid rs) x" if "x \<in> set (rs_running (abandon rid rs))" for x
    using i(4) [of x] that by (auto simp: owned_def abandon_def)
  show "int (quota_count dev (abandon rid rs)) \<le> sc_max_per_device c" if "0 < sc_max_per_device c" for dev
    using i(5) [OF that, of dev] by (simp add: quota_count_def abandon_def counts_def replaced_def cong: filter_cong)
qed

lemma end_create_inv:
  assumes inv: "sess_inv c rs" and cr: "map_of (rs_creating rs) sid = Some cr"
    and fin: "\<And>rid. launches rid cr \<Longrightarrow> rid \<in> set (rs_stopped rs)"
  shows "sess_inv c (end_create sid cr rs)"
proof (rule sess_invI)
  let ?t = "end_create sid cr rs"
  note i = inv_parts [OF inv] and cc = creating_counts [OF inv_parts(2) [OF inv]]
  have f: "rs_heap ?t = rs_heap rs" "rs_registry ?t = rs_registry rs" "rs_to_close ?t = rs_to_close rs"
    "rs_closing ?t = rs_closing rs" "rs_exiting ?t = rs_exiting rs" "rs_running ?t = rs_running rs"
    "rs_watched ?t = rs_watched rs" "rs_stopped ?t = rs_stopped rs" "rs_shutting ?t = rs_shutting rs"
    "rs_creating ?t = AList.delete sid (rs_creating rs)"
    "rs_launching ?t = (rs_launching rs)(cr_device cr := rs_launching rs (cr_device cr) - 1)"
    by (simp_all add: end_create_def release_launch_slot_def)
  have sub: "map_of (rs_creating rs) x = Some y" if "map_of (AList.delete sid (rs_creating rs)) x = Some y" for x y
    using that by (simp add: delete_conv' split: if_splits)
  have lc: "launching_count rs dev = launching_count ?t dev + (if cr_device cr = dev then 1 else 0)" for dev
    using count_remove [OF conjunct1 [OF cc] cr, of "\<lambda>e. cr_device (snd e) = dev"] by (simp add: launching_count_def f)
  have la: "rs_launching ?t dev = launching_count ?t dev" for dev
    using lc [of dev] cc [of dev] by (cases "cr_device cr = dev") (auto simp: f)
  show "heap_ok ?t" using i(1) by (simp add: heap_ok_def f)
  show "creating_ok ?t"
    unfolding creating_ok_def f(1-10)
  proof (intro conjI allI impI)
    show "keys_distinct (AList.delete sid (rs_creating rs))" using cc by auto
    fix x y assume "map_of (AList.delete sid (rs_creating rs)) x = Some y"
    from creatingD [OF i(2) sub [OF this]] show "rs_heap rs x = None" "x \<noteq> []"
      "\<And>s. rs_heap rs (cr_replaces y) = Some s \<Longrightarrow> se_device s = cr_device y"
      "\<And>rid. launches rid y \<Longrightarrow> rid \<notin> set (rs_watched rs)" "cr_replaces y \<noteq> [] \<Longrightarrow> rs_heap rs (cr_replaces y) \<noteq> None"
      by blast+
  next
    fix x y x' y' rid
    assume "map_of (AList.delete sid (rs_creating rs)) x = Some y" "map_of (AList.delete sid (rs_creating rs)) x' = Some y'"
      "launches rid y" "launches rid y'"
    then show "x = x'" using creatingD(5) [OF i(2)] sub by blast
  next
    fix dev show "rs_launching ?t dev = launching_count ?t dev" by (rule la)
  qed
  show "teardown_ok ?t" using i(3) by (simp add: teardown_ok_def f)
  show "owned ?t x" if "x \<in> set (rs_running ?t)" for x
  proof -
    have "owned rs x" using i(4) that by (simp add: f)
    then show ?thesis
    proof (cases rule: ownedE)
      case (2 y d)
      show ?thesis
      proof (cases "y = sid")
        case True
        with 2(1) cr have "cr = d" by simp
        with fin 2(2) have "x \<in> set (rs_stopped rs)" by simp
        then show ?thesis by (simp add: owned_def f)
      next
        case False
        then show ?thesis using 2 by (intro ownedI(2) [of ?t y d]) (simp_all add: f delete_conv')
      qed
    qed (simp_all add: owned_def f, blast+)
  qed
  show "int (quota_count dev ?t) \<le> sc_max_per_device c" if "0 < sc_max_per_device c" for dev
  proof -
    have step: "counts rs dev y \<or> y = cr_replaces cr" if "counts ?t dev y" for y
    proof (cases "y \<in> replaced rs")
      case True
      then obtain x d where d: "map_of (rs_creating rs) x = Some d" "cr_replaces d = y" by (auto simp: replaced_def)
      have "y \<notin> replaced ?t" using that by (simp add: counts_def)
      then have "map_of (AList.delete sid (rs_creating rs)) x \<noteq> Some d" using d(2) unfolding replaced_def f(10) by blast
      then have "x = sid" using d(1) by (simp add: delete_conv' split: if_splits)
      then show ?thesis using d cr by simp
    next
      case False
      then show ?thesis using that by (simp add: counts_def f)
    qed
    have "quota_count dev ?t \<le> quota_count dev rs"
    proof (cases "cr_device cr = dev")
      case True
      have "length (filter (counts ?t dev) (rs_registry rs)) \<le> Suc (length (filter (counts rs dev) (rs_registry rs)))"
        by (rule length_filter_one_more) (use i(1) step in \<open>auto simp: heap_ok_def\<close>)
      moreover have "rs_launching rs dev = Suc (rs_launching ?t dev)" using True lc [of dev] la [of dev] cc [of dev] by simp
      ultimately show ?thesis by (simp add: quota_count_def f(2))
    next
      case False
      have "length (filter (counts ?t dev) (rs_registry rs)) \<le> length (filter (counts rs dev) (rs_registry rs))"
      proof (rule length_filter_mono)
        fix y assume y: "counts ?t dev y"
        have "y \<noteq> cr_replaces cr"
        proof
          assume e: "y = cr_replaces cr"
          show False
          proof (cases "rs_heap rs y")
            case None
            then show False using y by (simp add: counts_def f(1))
          next
            case (Some s)
            then have "se_device s = dev" using y by (simp add: counts_def f(1))
            with creatingD(3) [OF i(2) cr, of s] Some e False show False by simp
          qed
        qed
        then show "counts rs dev y" using step [OF y] by blast
      qed
      then show ?thesis using False by (simp add: quota_count_def f)
    qed
    then show ?thesis using i(5) [OF that, of dev] by linarith
  qed
qed

lemma length_filter_sessions:
  "length (filter P (sessions rs)) = length (filter (\<lambda>sid. case rs_heap rs sid of None \<Rightarrow> False | Some s \<Rightarrow> P s) (rs_registry rs))"
proof -
  have "length (filter P (List.map_filter h xs)) = length (filter (\<lambda>x. case h x of None \<Rightarrow> False | Some s \<Rightarrow> P s) xs)"
    for h :: "string \<Rightarrow> session option" and xs
    by (induction xs) (simp_all add: map_filter_simps split: option.split)
  then show ?thesis by (simp add: sessions_def)
qed

lemma reserve_inv:
  assumes inv: "sess_inv c rs" and fr: "fresh_session sid rs"
    and dev: "\<And>s. rs_heap rs replaces = Some s \<Longrightarrow> se_device s = dev"
    and there: "replaces \<noteq> [] \<Longrightarrow> rs_heap rs replaces \<noteq> None"
  shows "sess_inv c (fst (reserve c sid dev agent replaces rs))"
proof (cases "snd (reserve c sid dev agent replaces rs)")
  case (Some e)
  then have "fst (reserve c sid dev agent replaces rs) = rs" by (auto simp: reserve_def split: if_splits)
  with inv show ?thesis by simp
next
  case None
  define cr where "cr = \<lparr>cr_device = dev, cr_agent = agent, cr_replaces = replaces, cr_stage = Reserved\<rparr>"
  define t where "t = rs\<lparr>rs_launching := (rs_launching rs)(dev := Suc (rs_launching rs dev)),
     rs_creating := AList.update sid cr (rs_creating rs)\<rparr>"
  from None have t: "fst (reserve c sid dev agent replaces rs) = t"
    and room: "0 < sc_max_per_device c \<Longrightarrow> int (live_sessions_of dev replaces rs) < sc_max_per_device c"
    by (auto simp: reserve_def t_def cr_def split: if_splits)
  note i = inv_parts [OF inv] and cc = creating_counts [OF inv_parts(2) [OF inv]]
  have new: "rs_heap rs sid = None" "map_of (rs_creating rs) sid = None" "sid \<noteq> []"
    using fr by (simp_all add: fresh_session_def)
  have nl: "\<not> launches rid cr" for rid by (simp add: launches_def cr_def)
  have lc: "launching_count t d = launching_count rs d + (if d = dev then 1 else 0)" for d
    using count_update_new [OF new(2), of "\<lambda>e. cr_device (snd e) = d" cr] by (simp add: launching_count_def t_def cr_def)
  have tm: "map_of (rs_creating t) x = (if x = sid then Some cr else map_of (rs_creating rs) x)" for x
    by (simp add: t_def update_conv')
  have rep: "replaced t = insert replaces (replaced rs)"
  proof -
    have r: "cr_replaces cr = replaces" by (simp add: cr_def)
    show ?thesis
    proof (intro equalityI subsetI)
      fix r assume "r \<in> replaced t"
      then show "r \<in> insert replaces (replaced rs)" using r by (auto simp: replaced_def tm split: if_splits)
    next
      fix r assume "r \<in> insert replaces (replaced rs)"
      then consider "r = replaces" | x y where "map_of (rs_creating rs) x = Some y" "cr_replaces y = r" by (auto simp: replaced_def)
      then show "r \<in> replaced t"
      proof cases
        case 1
        then show ?thesis using r tm [of sid] unfolding replaced_def by auto
      next
        case (2 x y)
        then have "map_of (rs_creating t) x = Some y" using new(2) tm [of x] by auto
        with 2(2) show ?thesis unfolding replaced_def by blast
      qed
    qed
  qed
  show ?thesis
    unfolding t
  proof (rule sess_invI)
    show "heap_ok t" using i(1) by (simp add: heap_ok_def t_def)
    show "creating_ok t"
      unfolding creating_ok_def
    proof (intro conjI allI impI)
      show "keys_distinct (rs_creating t)" using cc by (auto simp: t_def)
      fix x y assume m: "map_of (rs_creating t) x = Some y"
      have "rs_heap rs x = None \<and> x \<noteq> [] \<and> (\<forall>s. rs_heap rs (cr_replaces y) = Some s \<longrightarrow> se_device s = cr_device y) \<and>
          (\<forall>rid. launches rid y \<longrightarrow> rid \<notin> set (rs_watched rs)) \<and> (cr_replaces y \<noteq> [] \<longrightarrow> rs_heap rs (cr_replaces y) \<noteq> None)"
      proof (cases "x = sid")
        case True
        then have "y = cr" using m tm [of x] by simp
        then show ?thesis using True new dev nl there by (simp add: cr_def)
      next
        case False
        then have 2: "map_of (rs_creating rs) x = Some y" using m tm [of x] by simp
        then show ?thesis using creatingD [OF i(2) 2] by simp
      qed
      then show "rs_heap t x = None" "x \<noteq> []" "\<And>s. rs_heap t (cr_replaces y) = Some s \<Longrightarrow> se_device s = cr_device y"
        "\<And>rid. launches rid y \<Longrightarrow> rid \<notin> set (rs_watched t)" "cr_replaces y \<noteq> [] \<Longrightarrow> rs_heap t (cr_replaces y) \<noteq> None"
        by (simp_all add: t_def)
    next
      fix x y x' y' rid
      assume "map_of (rs_creating t) x = Some y" "map_of (rs_creating t) x' = Some y'" "launches rid y" "launches rid y'"
      then show "x = x'" using creatingD(5) [OF i(2), of x y x' y' rid] nl tm [of x] tm [of x'] by (simp split: if_splits)
    next
      fix d show "rs_launching t d = launching_count t d" using lc [of d] cc [of d] by (auto simp: t_def)
    qed
    show "teardown_ok t" using i(3) by (simp add: teardown_ok_def t_def)
    show "owned t rid" if "rid \<in> set (rs_running t)" for rid
    proof -
      have "owned rs rid" using i(4) that by (simp add: t_def)
      then show ?thesis
      proof (cases rule: ownedE)
        case (2 x y)
        then show ?thesis using new(2) by (intro ownedI(2) [of t x y]) (auto simp: tm)
      qed (simp_all add: owned_def t_def, blast+)
    qed
    fix d assume pos: "0 < sc_max_per_device c"
    show "int (quota_count d t) \<le> sc_max_per_device c"
    proof (cases "d = dev")
      case True
      have reg: "rs_registry t = rs_registry rs" by (simp add: t_def)
      have "length (filter (counts t dev) (rs_registry t)) \<le>
          length (filter (\<lambda>s. se_device s = dev \<and> se_id s \<noteq> replaces \<and> is_live s) (sessions rs))"
        unfolding length_filter_sessions reg
      proof (rule length_filter_mono)
        fix y assume y: "y \<in> set (rs_registry rs)" and "counts t dev y"
        from this(2) obtain s where s: "rs_heap rs y = Some s" "se_device s = dev" "\<not> se_stopping s" "y \<notin> set (rs_to_close rs)" "y \<noteq> replaces"
          using rep by (cases "rs_heap rs y") (auto simp: counts_def t_def)
        then show "case rs_heap rs y of None \<Rightarrow> False | Some s \<Rightarrow> se_device s = dev \<and> se_id s \<noteq> replaces \<and> is_live s"
          using i(3) y inv_id [OF inv s(1)] unfolding teardown_ok_def by simp
      qed
      then show ?thesis using room [OF pos] True by (simp add: quota_count_def live_sessions_of_def t_def)
    next
      case False
      have "length (filter (counts t d) (rs_registry rs)) \<le> length (filter (counts rs d) (rs_registry rs))"
      proof (rule length_filter_mono)
        fix y assume "counts t d y"
        then show "counts rs d y" unfolding counts_def rep by (simp add: t_def)
      qed
      then show ?thesis using i(5) [OF pos, of d] False by (simp add: quota_count_def t_def)
    qed
  qed
qed

text \<open>A creation moves to its next stage.\<close>

lemma stage_inv:
  assumes inv: "sess_inv c rs" and cr: "map_of (rs_creating rs) sid = Some cr"
    and cr': "cr_device cr' = cr_device cr" "cr_replaces cr' = cr_replaces cr"
    and fresh: "\<And>r. launches r cr' \<Longrightarrow> r \<notin> set (rs_watched rs)"
      "\<And>r x y. launches r cr' \<Longrightarrow> map_of (rs_creating rs) x = Some y \<Longrightarrow> launches r y \<Longrightarrow> x = sid"
    and keep: "\<And>r. launches r cr \<Longrightarrow> launches r cr'"
    and t: "t = rs\<lparr>rs_creating := AList.update sid cr' (rs_creating rs), rs_running := procs, rs_store := st\<rparr>"
    and run: "\<And>r. r \<in> set procs \<Longrightarrow> r \<in> set (rs_running rs) \<or> launches r cr'"
    and ex: "\<And>x s i. map_of (rs_exiting rs) x = Some i \<Longrightarrow> rs_heap rs x = Some s \<Longrightarrow> se_runtime s \<notin> set procs"
  shows "sess_inv c t"
proof -
  note i = inv_parts [OF inv] and cc = creating_counts [OF inv_parts(2) [OF inv]]
  have tm: "map_of (rs_creating t) x = (if x = sid then Some cr' else map_of (rs_creating rs) x)" for x
    by (simp add: t update_conv')
  have lc: "launching_count t d = launching_count rs d" for d
    using count_update_same [OF conjunct1 [OF cc] cr, of "\<lambda>e. cr_device (snd e) = d" cr'] cr' by (simp add: launching_count_def t)
  have old: "\<exists>y'. map_of (rs_creating rs) x = Some y' \<and> cr_device y' = cr_device y \<and> cr_replaces y' = cr_replaces y"
    if "map_of (rs_creating t) x = Some y" for x y
    using that cr cr' tm [of x] by (auto split: if_splits)
  have rep: "replaced t = replaced rs"
  proof (intro equalityI subsetI)
    fix r assume "r \<in> replaced t"
    then show "r \<in> replaced rs" using old unfolding replaced_def by fastforce
  next
    fix r assume "r \<in> replaced rs"
    then obtain x y where x: "map_of (rs_creating rs) x = Some y" "cr_replaces y = r" by (auto simp: replaced_def)
    then have "\<exists>y. map_of (rs_creating t) x = Some y \<and> cr_replaces y = r" using cr cr' tm [of x] by auto
    then show "r \<in> replaced t" by (auto simp: replaced_def)
  qed
  show ?thesis
  proof (rule sess_invI)
    show "heap_ok t" using i(1) by (simp add: heap_ok_def t)
    show "creating_ok t"
      unfolding creating_ok_def
    proof (intro conjI allI impI)
      show "keys_distinct (rs_creating t)" using cc by (auto simp: t)
      fix x y assume m: "map_of (rs_creating t) x = Some y"
      from old [OF this] obtain y' where y': "map_of (rs_creating rs) x = Some y'" "cr_device y' = cr_device y" "cr_replaces y' = cr_replaces y"
        by blast
      show "rs_heap t x = None" "x \<noteq> []" using creatingD(1,2) [OF i(2) y'(1)] by (simp_all add: t)
      show "se_device s = cr_device y" if "rs_heap t (cr_replaces y) = Some s" for s
        using creatingD(3) [OF i(2) y'(1), of s] y' that by (simp add: t)
      show "rs_heap t (cr_replaces y) \<noteq> None" if "cr_replaces y \<noteq> []" using creatingD(6) [OF i(2) y'(1)] y' that by (simp add: t)
      show "rid \<notin> set (rs_watched t)" if "launches rid y" for rid
        using creatingD(4) [OF i(2) y'(1), of rid] fresh(1) [of rid] that m y'(1) tm [of x] by (simp add: t split: if_splits)
    next
      fix x y x' y' rid
      assume a: "map_of (rs_creating t) x = Some y" "map_of (rs_creating t) x' = Some y'" "launches rid y" "launches rid y'"
      show "x = x'"
      proof (cases "x = sid \<or> x' = sid")
        case True
        then show ?thesis using a fresh(2) [of rid x y] fresh(2) [of rid x' y'] tm [of x] tm [of x'] by (auto split: if_splits)
      next
        case False
        then show ?thesis using a creatingD(5) [OF i(2), of x y x' y' rid] tm [of x] tm [of x'] by simp
      qed
    next
      fix d show "rs_launching t d = launching_count t d" using lc [of d] cc [of d] by (simp add: t)
    qed
    show "teardown_ok t" using i(3) ex unfolding teardown_ok_def by (simp add: t) blast
    show "owned t r" if "r \<in> set (rs_running t)" for r
    proof (cases "launches r cr'")
      case True
      then show ?thesis using tm [of sid] by (intro ownedI(2) [of t sid cr']) simp_all
    next
      case False
      then have "owned rs r" using that run [of r] i(4) [of r] by (simp add: t)
      then show ?thesis
      proof (cases rule: ownedE)
        case (2 x y)
        then have "x \<noteq> sid" using False keep [of r] cr by auto
        then show ?thesis using 2 tm [of x] by (intro ownedI(2) [of t x y]) simp_all
      qed (simp_all add: owned_def t, blast+)
    qed
    have "counts t d = counts rs d" for d unfolding counts_def rep by (simp add: t)
    moreover have "rs_registry t = rs_registry rs" "rs_launching t = rs_launching rs" by (simp_all add: t)
    ultimately have "quota_count d t = quota_count d rs" for d by (simp add: quota_count_def)
    then show "int (quota_count d t) \<le> sc_max_per_device c" if "0 < sc_max_per_device c" for d using i(5) [OF that] by simp
  qed
qed

lemma launch_result_inv:
  assumes inv: "sess_inv c rs" and fr: "\<And>r. rid = Some r \<Longrightarrow> fresh_runtime r rs"
  shows "sess_inv c (launch_result sid rid rs)"
proof (cases "map_of (rs_creating rs) sid")
  case (Some cr)
  show ?thesis
  proof (cases "cr_stage cr = Reserved")
    case True
    then have nl: "\<not> launches r cr" for r by (simp add: launches_def)
    show ?thesis
    proof (cases rid)
      case None
      have "sess_inv c (end_create sid cr rs)" by (rule end_create_inv [OF inv Some]) (use nl in blast)
      then show ?thesis using Some True None by (simp add: launch_result_def)
    next
      case (Some r)
      then have f: "fresh_runtime r rs" using fr by simp
      let ?cr = "cr\<lparr>cr_stage := Launched r\<rparr>"
      have one: "launches q ?cr \<longleftrightarrow> q = r" for q by (auto simp: launches_def)
      have w: "r \<notin> set (rs_watched rs)" using f by (simp add: fresh_runtime_def)
      have "sess_inv c (rs\<lparr>rs_creating := AList.update sid ?cr (rs_creating rs), rs_running := r # rs_running rs, rs_store := rs_store rs\<rparr>)"
      proof (rule stage_inv [OF inv \<open>map_of (rs_creating rs) sid = Some cr\<close>, where cr' = ?cr, OF _ _ _ _ _ refl])
        show "x = sid" if "launches q ?cr" "map_of (rs_creating rs) x = Some y" "launches q y" for q x y
          using that f one [of q] unfolding fresh_runtime_def launches_def by blast
        show "se_runtime s \<notin> set (r # rs_running rs)" if "map_of (rs_exiting rs) x = Some e" "rs_heap rs x = Some s" for x s e
        proof -
          from inv_parts(3) [OF inv] that(1) obtain s' where "rs_heap rs x = Some s'" "se_runtime s' \<notin> set (rs_running rs)"
            unfolding teardown_ok_def by blast
          moreover have "se_runtime s \<in> set (rs_watched rs)" using inv_parts(1) [OF inv] that(2) unfolding heap_ok_def by blast
          ultimately show ?thesis using w that(2) by auto
        qed
        show "q \<notin> set (rs_watched rs)" if "launches q ?cr" for q using that w by (simp add: one)
        show "q \<in> set (rs_running rs) \<or> launches q ?cr" if "q \<in> set (r # rs_running rs)" for q using that by (auto simp: one)
      qed (simp_all add: nl)
      then show ?thesis using \<open>map_of (rs_creating rs) sid = Some cr\<close> True \<open>rid = Some r\<close> by (simp add: launch_result_def)
    qed
  next
    case False
    then have "launch_result sid rid rs = rs" using Some by (simp add: launch_result_def split: create_stage.split option.split)
    with inv show ?thesis by simp
  qed
qed (simp add: launch_result_def inv)

lemma save_created_inv:
  assumes inv: "sess_inv c rs"
  shows "sess_inv c (save_created sid now ok rs)"
proof (cases "\<exists>cr r. map_of (rs_creating rs) sid = Some cr \<and> cr_stage cr = Launched r")
  case True
  then obtain cr r where cr: "map_of (rs_creating rs) sid = Some cr" and st: "cr_stage cr = Launched r" by blast
  have one: "launches q cr \<longleftrightarrow> q = r" for q by (auto simp: launches_def st)
  show ?thesis
  proof (cases ok)
    case False
    have "sess_inv c (end_create sid cr (abandon r rs))"
      by (rule end_create_inv [OF stop_inv [OF inv]]) (simp_all add: cr abandon_def one)
    then show ?thesis using cr st False by (simp add: save_created_def)
  next
    case True
    let ?cr = "cr\<lparr>cr_stage := Saved r now\<rparr>"
    have two: "launches q ?cr \<longleftrightarrow> q = r" for q by (auto simp: launches_def)
    let ?st = "rs_store (save_created sid now ok rs)"
    have "sess_inv c (rs\<lparr>rs_creating := AList.update sid ?cr (rs_creating rs), rs_running := rs_running rs, rs_store := ?st\<rparr>)"
    proof (rule stage_inv [OF inv cr, where cr' = ?cr, OF _ _ _ _ _ refl])
      note c = creatingD [OF inv_parts(2) [OF inv] cr]
      show "q \<notin> set (rs_watched rs)" if "launches q ?cr" for q using c(4) [of q] that by (simp add: one two)
      show "x = sid" if "launches q ?cr" "map_of (rs_creating rs) x = Some y" "launches q y" for q x y
        using c(5) [of x y q] that by (simp add: one two)
      show "se_runtime s \<notin> set (rs_running rs)" if "map_of (rs_exiting rs) x = Some e" "rs_heap rs x = Some s" for x s e
        using inv_parts(3) [OF inv] that unfolding teardown_ok_def by fastforce
    qed (simp_all add: one two)
    moreover have "save_created sid now ok rs =
        rs\<lparr>rs_creating := AList.update sid ?cr (rs_creating rs), rs_running := rs_running rs, rs_store := ?st\<rparr>"
      using True cr st by (simp add: save_created_def)
    ultimately show ?thesis by simp
  qed
next
  case False
  then have "save_created sid now ok rs = rs"
    by (auto simp: save_created_def split: option.split create_stage.split)
  with inv show ?thesis by simp
qed

text \<open>A session enters the registry in place of its launch.\<close>

lemma enter_inv:
  assumes inv: "sess_inv c rs" and cr: "map_of (rs_creating rs) sid = Some cr" and l: "launches rid cr"
    and s: "se_id s = sid" "se_runtime s = rid" "se_device s = cr_device cr" "is_live s" "\<not> se_stopping s"
    and t: "rs_heap t = (rs_heap rs)(sid \<mapsto> s)" "rs_registry t = sid # rs_registry rs" "rs_watched t = rid # rs_watched rs"
      "rs_creating t = AList.delete sid (rs_creating rs)"
      "rs_launching t = (rs_launching rs)(cr_device cr := rs_launching rs (cr_device cr) - 1)"
      "rs_to_close t = (if cr_replaces cr = [] then rs_to_close rs else cr_replaces cr # rs_to_close rs)"
      "rs_closing t = rs_closing rs" "rs_exiting t = rs_exiting rs" "rs_running t = rs_running rs"
      "rs_stopped t = rs_stopped rs" "rs_shutting t = rs_shutting rs"
  shows "sess_inv c t"
proof -
  note i = inv_parts [OF inv] and cc = creating_counts [OF inv_parts(2) [OF inv]] and cd = creatingD [OF inv_parts(2) [OF inv] cr]
  have tm: "map_of (rs_creating t) x = (if x = sid then None else map_of (rs_creating rs) x)" for x
    by (simp add: t delete_conv')
  have lc: "launching_count rs d = launching_count t d + (if cr_device cr = d then 1 else 0)" for d
    using count_remove [OF conjunct1 [OF cc] cr, of "\<lambda>e. cr_device (snd e) = d"] by (simp add: launching_count_def t)
  have la: "rs_launching t d = launching_count t d" for d
    using lc [of d] cc [of d] by (cases "cr_device cr = d") (auto simp: t)
  have nr: "sid \<notin> set (rs_registry rs)" using i(1) cd(1) by (auto simp: heap_ok_def)
  have only: "se_runtime x \<noteq> rid" if "rs_heap rs y = Some x" for x y
    using cd(4) [OF l] i(1) that by (auto simp: heap_ok_def)
  show ?thesis
  proof (rule sess_invI)
    show "heap_ok t"
      unfolding heap_ok_def t(1-3)
    proof (intro conjI allI impI)
      fix y x assume h: "((rs_heap rs)(sid \<mapsto> s)) y = Some x"
      show "se_id x = y" "y \<noteq> []" "se_runtime x \<in> set (rid # rs_watched rs)"
        using h s cd(2) i(1) by (auto simp: heap_ok_def split: if_splits)
    next
      fix y x y' x'
      assume "((rs_heap rs)(sid \<mapsto> s)) y = Some x" "((rs_heap rs)(sid \<mapsto> s)) y' = Some x'" "se_runtime x = se_runtime x'"
      then show "y = y'" using i(1) only [of y x] only [of y' x'] s unfolding heap_ok_def by (auto split: if_splits)
    next
      show "distinct (sid # rs_registry rs)" using nr i(1) by (simp add: heap_ok_def)
      fix y assume "y \<in> set (sid # rs_registry rs)"
      then show "((rs_heap rs)(sid \<mapsto> s)) y \<noteq> None" using i(1) by (auto simp: heap_ok_def)
    qed
    show "creating_ok t"
      unfolding creating_ok_def
    proof (intro conjI allI impI)
      show "keys_distinct (rs_creating t)" using cc by (auto simp: t)
      fix x y assume m: "map_of (rs_creating t) x = Some y"
      then have x: "x \<noteq> sid" "map_of (rs_creating rs) x = Some y" using tm [of x] by (simp_all split: if_splits)
      note d = creatingD [OF i(2) x(2)]
      show "rs_heap t x = None" "x \<noteq> []" using d x by (simp_all add: t)
      show "se_device z = cr_device y" if "rs_heap t (cr_replaces y) = Some z" for z
      proof -
        have "cr_replaces y \<noteq> sid" using d(6) cd(1,2) by auto
        then show ?thesis using d(3) [of z] that by (simp add: t)
      qed
      show "rs_heap t (cr_replaces y) \<noteq> None" if "cr_replaces y \<noteq> []" using d(6) that by (simp add: t)
      show "r \<notin> set (rs_watched t)" if "launches r y" for r
      proof -
        have "r \<noteq> rid" using cd(5) [of x y r] x that l by auto
        then show ?thesis using d(4) [OF that] by (simp add: t)
      qed
    next
      fix x y x' y' r
      assume "map_of (rs_creating t) x = Some y" "map_of (rs_creating t) x' = Some y'" "launches r y" "launches r y'"
      then show "x = x'" using creatingD(5) [OF i(2), of x y x' y' r] tm [of x] tm [of x'] by (simp split: if_splits)
    qed (rule la)
    show "teardown_ok t"
    proof -
      have a: "is_live x" if "rs_heap t y = Some x" "y \<in> set (rs_registry t)" "\<not> se_stopping x" "y \<notin> set (rs_to_close t)" for y x
        using that s i(3) unfolding teardown_ok_def t by (auto split: if_splits)
      have b: "tearing (map_of (rs_closing t) y) \<or> se_runtime x \<in> set (rs_stopped t)" if "rs_heap t y = Some x" "se_stopping x" for y x
        using that s i(3) unfolding teardown_ok_def t by (auto split: if_splits)
      have e: "\<exists>x. rs_heap t y = Some x \<and> se_runtime x \<notin> set (rs_running t)" if "map_of (rs_exiting t) y = Some e" for y e
      proof -
        from that have "map_of (rs_exiting rs) y = Some e" by (simp add: t)
        with i(3) obtain x where "rs_heap rs y = Some x" "se_runtime x \<notin> set (rs_running rs)" unfolding teardown_ok_def by blast
        then show ?thesis using cd(1) by (auto simp: t)
      qed
      show ?thesis unfolding teardown_ok_def using a b e by blast
    qed
    show "owned t r" if "r \<in> set (rs_running t)" for r
    proof -
      have "owned rs r" using i(4) that by (simp add: t)
      then show ?thesis
      proof (cases rule: ownedE)
        case 1
        then show ?thesis by (intro ownedI(1)) (simp add: t)
      next
        case (2 x y)
        show ?thesis
        proof (cases "x = sid")
          case True
          then have "launches r cr" using 2 cr by simp
          then have "r = rid" using l by (auto simp: launches_def)
          then show ?thesis by (intro ownedI(3) [of t sid s]) (simp_all add: t s)
        next
          case False
          then show ?thesis using 2 tm [of x] by (intro ownedI(2) [of t x y]) simp_all
        qed
      next
        case (3 x z)
        then have "x \<noteq> sid" using cd(1) by auto
        then show ?thesis using 3 by (intro ownedI(3) [of t x z]) (simp_all add: t)
      next
        case (4 x z)
        then have "x \<noteq> sid" using cd(1) by auto
        then show ?thesis using 4 by (intro ownedI(4) [of t x z]) (simp_all add: t)
      next
        case (5 x z)
        then have "x \<noteq> sid" using cd(1) by auto
        then show ?thesis using 5 by (intro ownedI(5) [of t x z]) (simp_all add: t)
      qed
    qed
    have sub: "counts rs d y" if y: "counts t d y" "y \<noteq> sid" for d y
    proof -
      have n: "y \<noteq> []" using y i(1) by (auto simp: counts_def t heap_ok_def split: option.splits)
      have "y \<notin> replaced rs"
      proof
        assume "y \<in> replaced rs"
        then obtain x z where x: "map_of (rs_creating rs) x = Some z" "cr_replaces z = y" by (auto simp: replaced_def)
        show False
        proof (cases "x = sid")
          case True
          then have "y = cr_replaces cr" using x cr by simp
          then show False using y(1) n by (simp add: counts_def t)
        next
          case False
          then have "y \<in> replaced t" using x tm [of x] unfolding replaced_def by auto
          then show False using y(1) by (simp add: counts_def)
        qed
      qed
      then show ?thesis using y by (simp add: counts_def t split: if_splits)
    qed
    fix d assume pos: "0 < sc_max_per_device c"
    have le: "length (filter (counts t d) (rs_registry rs)) \<le> length (filter (counts rs d) (rs_registry rs))"
      by (rule length_filter_mono) (use sub nr in auto)
    have "counts t d sid \<Longrightarrow> d = cr_device cr" by (simp add: counts_def t s)
    then have "quota_count d t \<le> quota_count d rs"
      using le la [of d] lc [of d] cc [of d] unfolding quota_count_def t(2) by auto
    then show "int (quota_count d t) \<le> sc_max_per_device c" using i(5) [OF pos, of d] by linarith
  qed
qed

lemma abandon_end_create: "abandon r (end_create sid cr rs) = end_create sid cr (abandon r rs)"
  by (simp add: plain_defs)

lemma register_created_inv:
  assumes inv: "sess_inv c rs"
  shows "sess_inv c (fst (register_created sid epoch random now rs))"
proof (cases "\<exists>cr r created. map_of (rs_creating rs) sid = Some cr \<and> cr_stage cr = Saved r created")
  case True
  then obtain cr r created where cr: "map_of (rs_creating rs) sid = Some cr" and st: "cr_stage cr = Saved r created" by blast
  have one: "launches q cr \<longleftrightarrow> q = r" for q by (auto simp: launches_def st)
  show ?thesis
  proof (cases "rs_closed rs")
    case True
    have "sess_inv c (end_create sid cr (abandon r rs))"
      by (rule end_create_inv [OF stop_inv [OF inv]]) (simp_all add: cr abandon_def one)
    then have "sess_inv c (abandon r (end_create sid cr rs))" by (simp add: abandon_end_create)
    then have "sess_inv c ((abandon r (end_create sid cr rs))\<lparr>rs_store := st'\<rparr>)" for st'
      by (rule core_eq_inv [rotated]) (rule core_eq_same_heap, simp_all)
    then show ?thesis using cr st True by (simp add: register_created_def end_create_def release_launch_slot_def)
  next
    case False
    have l: "launches r cr" by (simp add: one)
    show ?thesis
      by (rule enter_inv [OF inv cr l, where s = "new_session sid epoch cr r created"])
        (use cr st False in \<open>auto simp: register_created_def plain_defs new_session_def is_live_def Let_def split: prod.split\<close>)
  qed
next
  case False
  then have "fst (register_created sid epoch random now rs) = rs"
    by (auto simp: register_created_def split: option.split create_stage.split)
  with inv show ?thesis by simp
qed

section \<open>Tearing down\<close>

text \<open>An operation that creates nothing keeps the invariant when what it tears down stays accounted for.\<close>

lemma teardown_inv:
  assumes inv: "sess_inv c rs"
    and same: "rs_creating t = rs_creating rs" "rs_launching t = rs_launching rs" "rs_watched t = rs_watched rs"
    and heap: "\<And>y. rel_option (\<lambda>s s'. se_id s' = se_id s \<and> se_runtime s' = se_runtime s \<and> se_device s' = se_device s \<and>
      (se_stopping s \<longrightarrow> se_stopping s')) (rs_heap rs y) (rs_heap t y)"
    and reg: "rs_registry t = filter P (rs_registry rs)"
    and closing: "\<And>y s'. rs_heap t y = Some s' \<Longrightarrow> \<not> se_stopping s' \<Longrightarrow> y \<notin> set (rs_to_close t) \<Longrightarrow> y \<notin> set (rs_to_close rs)"
    and te: "teardown_ok t"
    and ow: "\<And>r. r \<in> set (rs_running t) \<Longrightarrow> owned t r"
  shows "sess_inv c t"
proof -
  note i = inv_parts [OF inv] and cc = creating_counts [OF inv_parts(2) [OF inv]]
  have h: "\<exists>s. rs_heap rs y = Some s \<and> se_id s' = se_id s \<and> se_runtime s' = se_runtime s \<and> se_device s' = se_device s \<and>
      (se_stopping s \<longrightarrow> se_stopping s')" if "rs_heap t y = Some s'" for y s'
    using heap [of y] that by (cases "rs_heap rs y") auto
  have none: "rs_heap t y = None \<longleftrightarrow> rs_heap rs y = None" for y
    using heap [of y] by (cases "rs_heap rs y"; cases "rs_heap t y") auto
  show ?thesis
  proof (rule sess_invI [OF _ _ te ow])
    show "heap_ok t"
      unfolding heap_ok_def same reg
    proof (intro conjI allI impI)
      fix y s assume s: "rs_heap t y = Some s"
      from h [OF s] obtain x where "rs_heap rs y = Some x" "se_id s = se_id x" "se_runtime s = se_runtime x" by blast
      then show "se_id s = y" "y \<noteq> []" "se_runtime s \<in> set (rs_watched rs)" using i(1) by (auto simp: heap_ok_def)
    next
      fix y s y' s' assume a: "rs_heap t y = Some s" "rs_heap t y' = Some s'" "se_runtime s = se_runtime s'"
      from h [OF a(1)] h [OF a(2)] obtain x x' where
        "rs_heap rs y = Some x" "se_runtime s = se_runtime x" "rs_heap rs y' = Some x'" "se_runtime s' = se_runtime x'" by blast
      then show "y = y'" using i(1) a(3) unfolding heap_ok_def by auto
    next
      show "distinct (filter P (rs_registry rs))" using i(1) by (simp add: heap_ok_def)
      fix y assume "y \<in> set (filter P (rs_registry rs))"
      then show "rs_heap t y \<noteq> None" using i(1) none [of y] by (simp add: heap_ok_def)
    qed
    show "creating_ok t"
      unfolding creating_ok_def same launching_count_def
    proof (intro conjI allI impI)
      show "keys_distinct (rs_creating rs)" using cc by blast
      fix x y assume m: "map_of (rs_creating rs) x = Some y"
      note d = creatingD [OF i(2) m]
      show "rs_heap t x = None" "x \<noteq> []" using d none by simp_all
      show "se_device z = cr_device y" if "rs_heap t (cr_replaces y) = Some z" for z using h [OF that] d(3) by auto
      show "r \<notin> set (rs_watched rs)" if "launches r y" for r using d(4) [OF that] .
      show "rs_heap t (cr_replaces y) \<noteq> None" if "cr_replaces y \<noteq> []" using d(6) [OF that] none by simp
    next
      fix x y x' y' r
      assume "map_of (rs_creating rs) x = Some y" "map_of (rs_creating rs) x' = Some y'" "launches r y" "launches r y'"
      then show "x = x'" by (rule creatingD(5) [OF i(2)])
    next
      fix d show "rs_launching rs d = length (filter (\<lambda>e. cr_device (snd e) = d) (rs_creating rs))"
        using cc [of d] by (simp add: launching_count_def)
    qed
    have rep: "replaced t = replaced rs" by (simp add: replaced_def same)
    have sub: "counts rs d y" if "counts t d y" for d y
    proof -
      from that obtain s' where s': "rs_heap t y = Some s'" "se_device s' = d" "\<not> se_stopping s'" "y \<notin> set (rs_to_close t)" "y \<notin> replaced rs"
        unfolding counts_def rep by (cases "rs_heap t y") auto
      with closing h [OF s'(1)] show ?thesis by (auto simp: counts_def)
    qed
    fix d assume pos: "0 < sc_max_per_device c"
    have "length (filter (counts t d) (filter P (rs_registry rs))) \<le> length (filter (counts t d) (rs_registry rs))"
      unfolding filter_filter by (rule length_filter_mono) blast
    also have "\<dots> \<le> length (filter (counts rs d) (rs_registry rs))" by (rule length_filter_mono) (use sub in blast)
    finally have "quota_count d t \<le> quota_count d rs" by (simp add: quota_count_def same reg)
    then show "int (quota_count d t) \<le> sc_max_per_device c" using i(5) [OF pos, of d] by linarith
  qed
qed

text \<open>Where the owner of a process can go.\<close>

lemma owned_moves:
  assumes "owned rs r"
    and "set (rs_stopped rs) \<subseteq> set (rs_stopped t)" "rs_creating t = rs_creating rs"
    and "\<And>y s. rs_heap rs y = Some s \<Longrightarrow> se_runtime s = r \<Longrightarrow>
      y \<in> set (rs_registry rs) \<or> tearing (map_of (rs_closing rs) y) \<or> y \<in> set (rs_shutting rs) \<and> \<not> se_stopping s \<Longrightarrow>
      r \<in> set (rs_stopped t) \<or> (\<exists>s'. rs_heap t y = Some s' \<and> se_runtime s' = r \<and>
        (y \<in> set (rs_registry t) \<or> tearing (map_of (rs_closing t) y) \<or> y \<in> set (rs_shutting t) \<and> \<not> se_stopping s'))"
  shows "owned t r"
  using assms(1)
proof (cases rule: ownedE)
  case 1
  then show ?thesis using assms(2) by (intro ownedI(1)) blast
next
  case (2 x y)
  then show ?thesis using assms(3) by (intro ownedI(2) [of t x y]) simp_all
next
  case (3 x z)
  then show ?thesis using assms(4) [of x z] unfolding owned_def by blast
next
  case (4 x z)
  then show ?thesis using assms(4) [of x z] unfolding owned_def by blast
next
  case (5 x z)
  then show ?thesis using assms(4) [of x z] unfolding owned_def by blast
qed

lemma teardown_parts:
  assumes "sess_inv c rs"
  shows "rs_heap rs y = Some s \<Longrightarrow> y \<in> set (rs_registry rs) \<Longrightarrow> \<not> se_stopping s \<Longrightarrow> y \<notin> set (rs_to_close rs) \<Longrightarrow> is_live s"
    "rs_heap rs y = Some s \<Longrightarrow> se_stopping s \<Longrightarrow> tearing (map_of (rs_closing rs) y) \<or> se_runtime s \<in> set (rs_stopped rs)"
    "map_of (rs_exiting rs) y = Some i \<Longrightarrow> \<exists>s. rs_heap rs y = Some s \<and> se_runtime s \<notin> set (rs_running rs)"
  using inv_parts(3) [OF assms] unfolding teardown_ok_def by blast+

lemma teardownI:
  assumes "\<And>y s. rs_heap t y = Some s \<Longrightarrow> y \<in> set (rs_registry t) \<Longrightarrow> \<not> se_stopping s \<Longrightarrow> y \<notin> set (rs_to_close t) \<Longrightarrow> is_live s"
    "\<And>y s. rs_heap t y = Some s \<Longrightarrow> se_stopping s \<Longrightarrow> tearing (map_of (rs_closing t) y) \<or> se_runtime s \<in> set (rs_stopped t)"
    "\<And>y i. map_of (rs_exiting t) y = Some i \<Longrightarrow> \<exists>s. rs_heap t y = Some s \<and> se_runtime s \<notin> set (rs_running t)"
  shows "teardown_ok t"
  using assms unfolding teardown_ok_def by blast

lemma to_close_inv:
  assumes inv: "sess_inv c rs" and t: "t = rs\<lparr>rs_to_close := xs @ rs_to_close rs\<rparr>"
  shows "sess_inv c t"
proof (rule teardown_inv [OF inv, where P = "\<lambda>_. True"])
  show "teardown_ok t" by (rule teardownI) (use teardown_parts [OF inv] in \<open>auto simp: t\<close>)
  show "owned t r" if "r \<in> set (rs_running t)" for r
    using inv_parts(4) [OF inv, of r] that by (simp add: t owned_def)
qed (simp_all add: t option.rel_refl)

text \<open>One session is torn down a step further.\<close>

lemma teardown_at_inv:
  assumes inv: "sess_inv c rs" and s: "rs_heap rs sid = Some s"
    and heap: "rs_heap t = (rs_heap rs)(sid \<mapsto> s')" "se_id s' = se_id s" "se_runtime s' = se_runtime s" "se_device s' = se_device s"
      "se_stopping s \<Longrightarrow> se_stopping s'"
    and same: "rs_creating t = rs_creating rs" "rs_launching t = rs_launching rs" "rs_watched t = rs_watched rs"
    and reg: "rs_registry t = filter P (rs_registry rs)" "\<And>y. y \<noteq> sid \<Longrightarrow> P y"
    and others: "\<And>y. y \<noteq> sid \<Longrightarrow> y \<in> set (rs_to_close t) \<longleftrightarrow> y \<in> set (rs_to_close rs)"
      "\<And>y. y \<noteq> sid \<Longrightarrow> map_of (rs_closing t) y = map_of (rs_closing rs) y"
      "\<And>y. y \<noteq> sid \<Longrightarrow> y \<in> set (rs_shutting t) \<longleftrightarrow> y \<in> set (rs_shutting rs)"
      "set (rs_stopped rs) \<subseteq> set (rs_stopped t)" "set (rs_running t) \<subseteq> set (rs_running rs)"
      "\<And>y e. y \<noteq> sid \<Longrightarrow> map_of (rs_exiting t) y = Some e \<Longrightarrow> map_of (rs_exiting rs) y = Some e"
    and here: "\<And>e. map_of (rs_exiting t) sid = Some e \<Longrightarrow> se_runtime s \<notin> set (rs_running t)"
      "\<not> se_stopping s' \<Longrightarrow> sid \<notin> set (rs_to_close t) \<Longrightarrow> sid \<notin> set (rs_to_close rs)"
      "sid \<in> set (rs_registry t) \<Longrightarrow> \<not> se_stopping s' \<Longrightarrow> sid \<notin> set (rs_to_close t) \<Longrightarrow> is_live s'"
      "se_stopping s' \<Longrightarrow> tearing (map_of (rs_closing t) sid) \<or> se_runtime s \<in> set (rs_stopped t)"
      "se_runtime s \<in> set (rs_running t) \<Longrightarrow>
        sid \<in> set (rs_registry rs) \<or> tearing (map_of (rs_closing rs) sid) \<or> sid \<in> set (rs_shutting rs) \<and> \<not> se_stopping s \<Longrightarrow>
        se_runtime s \<in> set (rs_stopped t) \<or> sid \<in> set (rs_registry t) \<or> tearing (map_of (rs_closing t) sid) \<or>
        sid \<in> set (rs_shutting t) \<and> \<not> se_stopping s'"
  shows "sess_inv c t"
proof (rule teardown_inv [OF inv same _ reg(1)])
  show "rel_option (\<lambda>s s'. se_id s' = se_id s \<and> se_runtime s' = se_runtime s \<and> se_device s' = se_device s \<and>
      (se_stopping s \<longrightarrow> se_stopping s')) (rs_heap rs y) (rs_heap t y)" for y
    using heap s by (simp add: option.rel_refl)
  show "y \<notin> set (rs_to_close rs)" if "rs_heap t y = Some z" "\<not> se_stopping z" "y \<notin> set (rs_to_close t)" for y z
    using that others(1) [of y] here(2) heap(1) by (cases "y = sid") simp_all
  show "teardown_ok t"
  proof (rule teardownI)
    fix y z assume a: "rs_heap t y = Some z" "y \<in> set (rs_registry t)" "\<not> se_stopping z" "y \<notin> set (rs_to_close t)"
    show "is_live z"
    proof (cases "y = sid")
      case True
      then show ?thesis using a here(3) heap(1) by simp
    next
      case False
      then show ?thesis using a others(1) [of y] heap(1) reg(1) teardown_parts(1) [OF inv, of y z] by simp
    qed
  next
    fix y z assume a: "rs_heap t y = Some z" "se_stopping z"
    show "tearing (map_of (rs_closing t) y) \<or> se_runtime z \<in> set (rs_stopped t)"
    proof (cases "y = sid")
      case True
      then show ?thesis using a here(4) heap(1,3) by simp
    next
      case False
      then have "tearing (map_of (rs_closing rs) y) \<or> se_runtime z \<in> set (rs_stopped rs)"
        using a heap(1) teardown_parts(2) [OF inv, of y z] by simp
      then show ?thesis using others(2) [OF False] others(4) by auto
    qed
  next
    fix y e assume a: "map_of (rs_exiting t) y = Some e"
    show "\<exists>z. rs_heap t y = Some z \<and> se_runtime z \<notin> set (rs_running t)"
    proof (cases "y = sid")
      case True
      then show ?thesis using a here(1) heap(1,3) by simp
    next
      case False
      from teardown_parts(3) [OF inv others(6) [OF False a]] obtain z where
        "rs_heap rs y = Some z" "se_runtime z \<notin> set (rs_running rs)" by blast
      then show ?thesis using False heap(1) others(5) by auto
    qed
  qed
  show "owned t r" if r: "r \<in> set (rs_running t)" for r
  proof (rule owned_moves [OF inv_parts(4) [OF inv] others(4) same(1)])
    show "r \<in> set (rs_running rs)" using r others(5) by blast
    fix y z assume z: "rs_heap rs y = Some z" "se_runtime z = r"
      and w: "y \<in> set (rs_registry rs) \<or> tearing (map_of (rs_closing rs) y) \<or> y \<in> set (rs_shutting rs) \<and> \<not> se_stopping z"
    show "r \<in> set (rs_stopped t) \<or> (\<exists>s'. rs_heap t y = Some s' \<and> se_runtime s' = r \<and>
        (y \<in> set (rs_registry t) \<or> tearing (map_of (rs_closing t) y) \<or> y \<in> set (rs_shutting t) \<and> \<not> se_stopping s'))"
    proof (cases "y = sid")
      case True
      with z s have "z = s" by simp
      then show ?thesis using here(5) w z r heap(1,3) True by simp
    next
      case False
      then have "rs_heap t y = Some z" using z heap(1) by simp
      then show ?thesis using z w reg(2) [OF False] others(2,3) [OF False] by (auto simp: reg(1))
    qed
  qed
qed

lemma close_begin_inv:
  assumes inv: "sess_inv c rs"
  shows "sess_inv c (close_begin sid ok rs)"
proof (cases "sid \<in> set (rs_to_close rs)")
  case there: True
  have less: "y \<in> set (remove1 sid (rs_to_close rs)) \<longleftrightarrow> y \<in> set (rs_to_close rs)" if "y \<noteq> sid" for y
    using that by (metis in_set_remove1)
  show ?thesis
  proof (cases "\<exists>s. rs_heap rs sid = Some s \<and> \<not> se_stopping s")
    case False
    let ?t = "rs\<lparr>rs_to_close := remove1 sid (rs_to_close rs)\<rparr>"
    have t: "close_begin sid ok rs = ?t" using there False by (cases "rs_heap rs sid") (simp_all add: close_begin_def Let_def)
    have quiet: "y \<notin> set (rs_to_close rs)" if "rs_heap rs y = Some s" "\<not> se_stopping s" "y \<notin> set (remove1 sid (rs_to_close rs))" for y s
      using that False less [of y] by (cases "y = sid") auto
    show ?thesis
      unfolding t
    proof (rule teardown_inv [OF inv, where P = "\<lambda>_. True"])
      show "teardown_ok ?t" by (rule teardownI) (use teardown_parts [OF inv] quiet in auto)
      show "owned ?t r" if "r \<in> set (rs_running ?t)" for r using inv_parts(4) [OF inv, of r] that by (simp add: owned_def)
    qed (use quiet in \<open>simp_all add: option.rel_refl\<close>)
  next
    case True
    then obtain s where s: "rs_heap rs sid = Some s" "\<not> se_stopping s" by blast
    let ?s = "s\<lparr>se_stopping := True, se_status := SessClosing\<rparr>" and ?t = "close_begin sid ok rs"
    have i: "se_id s = sid" by (rule inv_id [OF inv s(1)])
    have f: "rs_heap ?t = (rs_heap rs)(sid \<mapsto> ?s)" "rs_registry ?t = rs_registry rs" "rs_creating ?t = rs_creating rs"
      "rs_launching ?t = rs_launching rs" "rs_watched ?t = rs_watched rs" "rs_to_close ?t = remove1 sid (rs_to_close rs)"
      "rs_closing ?t = AList.update sid CloseMarked (rs_closing rs)" "rs_exiting ?t = rs_exiting rs"
      "rs_running ?t = rs_running rs" "rs_stopped ?t = rs_stopped rs" "rs_shutting ?t = rs_shutting rs"
      using there s i by (simp_all add: close_begin_def Let_def put_session_def)
    show ?thesis
      by (rule teardown_at_inv [OF inv s(1), where s' = ?s and P = "\<lambda>_. True"])
        (use s less teardown_parts(3) [OF inv, of sid] in \<open>auto simp: f update_conv' tearing_def\<close>)
  qed
qed (simp add: close_begin_def inv)

lemma close_unregister_inv:
  assumes inv: "sess_inv c rs"
  shows "sess_inv c (close_unregister cf sid now rs)"
proof (cases "\<exists>s. map_of (rs_closing rs) sid = Some CloseMarked \<and> rs_heap rs sid = Some s")
  case True
  then obtain s where m: "map_of (rs_closing rs) sid = Some CloseMarked" and s: "rs_heap rs sid = Some s" by blast
  define pm where "pm = finish_pending_turns (session_pump_config cf s) now StateCancelled (se_pump s)"
  let ?t = "close_unregister cf sid now rs"
  have i: "se_id s = sid" by (rule inv_id [OF inv s])
  have f: "rs_heap ?t = (rs_heap rs)(sid \<mapsto> s\<lparr>se_pump := pm\<rparr>)" "rs_registry ?t = filter (\<lambda>y. y \<noteq> sid) (rs_registry rs)"
    "rs_creating ?t = rs_creating rs" "rs_launching ?t = rs_launching rs" "rs_watched ?t = rs_watched rs"
    "rs_to_close ?t = rs_to_close rs" "rs_closing ?t = AList.update sid CloseUnregistered (rs_closing rs)"
    "rs_exiting ?t = rs_exiting rs" "rs_running ?t = rs_running rs" "rs_stopped ?t = rs_stopped rs"
    "rs_shutting ?t = rs_shutting rs"
    unfolding close_unregister_def m s pm_def
    by (simp_all add: sess unregister_def i removeAll_filter_not_eq eq_commute [of sid])
  show ?thesis
    by (rule teardown_at_inv [OF inv s, where s' = "s\<lparr>se_pump := pm\<rparr>" and P = "\<lambda>y. y \<noteq> sid"])
      (use s teardown_parts(3) [OF inv, of sid] in \<open>auto simp: f update_conv' tearing_def\<close>)
next
  case False
  then have "close_unregister cf sid now rs = rs" by (auto simp: close_unregister_def split: option.split close_stage.split)
  with inv show ?thesis by simp
qed

lemma close_stop_inv:
  assumes inv: "sess_inv c rs"
  shows "sess_inv c (close_stop sid written rs)"
proof (cases "\<exists>s. map_of (rs_closing rs) sid = Some CloseUnregistered \<and> rs_heap rs sid = Some s")
  case True
  then obtain s where m: "map_of (rs_closing rs) sid = Some CloseUnregistered" and s: "rs_heap rs sid = Some s" by blast
  define s' where "s' = (if acp_closes (pm_acp (se_pump s))
    then s\<lparr>se_pump := write_session_close (close_frame s) written (se_pump s)\<rparr> else s)"
  have same: "se_id s' = se_id s" "se_runtime s' = se_runtime s" "se_device s' = se_device s" "se_stopping s' = se_stopping s"
    "is_live s' = is_live s" by (simp_all add: s'_def is_live_def)
  let ?t = "close_stop sid written rs"
  have i: "se_id s' = sid" using inv_id [OF inv s] same by simp
  have f: "rs_heap ?t = (rs_heap rs)(sid \<mapsto> s')" "rs_registry ?t = rs_registry rs"
    "rs_creating ?t = rs_creating rs" "rs_launching ?t = rs_launching rs" "rs_watched ?t = rs_watched rs"
    "rs_to_close ?t = rs_to_close rs" "rs_closing ?t = AList.update sid CloseStopped (rs_closing rs)"
    "rs_exiting ?t = rs_exiting rs" "rs_running ?t = rs_running rs" "rs_stopped ?t = se_runtime s # rs_stopped rs"
    "rs_shutting ?t = rs_shutting rs"
    using inv_id [OF inv s] by (simp_all add: close_stop_def m s s'_def put_session_def)
  show ?thesis
    by (rule teardown_at_inv [OF inv s, where s' = s' and P = "\<lambda>_. True"])
      (use s same teardown_parts(1) [OF inv s] teardown_parts(3) [OF inv, of sid] in \<open>auto simp: f update_conv'\<close>)
next
  case False
  then have "close_stop sid written rs = rs" by (auto simp: close_stop_def split: option.split close_stage.split)
  with inv show ?thesis by simp
qed

lemma close_finish_inv:
  assumes inv: "sess_inv c rs"
  shows "sess_inv c (close_finish sid ok rs)"
proof (cases "map_of (rs_closing rs) sid = Some CloseStopped")
  case True
  let ?t = "close_finish sid ok rs"
  have f: "rs_heap ?t = rs_heap rs" "rs_registry ?t = rs_registry rs"
    "rs_creating ?t = rs_creating rs" "rs_launching ?t = rs_launching rs" "rs_watched ?t = rs_watched rs"
    "rs_to_close ?t = rs_to_close rs" "rs_closing ?t = AList.delete sid (rs_closing rs)"
    "rs_exiting ?t = rs_exiting rs" "rs_running ?t = rs_running rs" "rs_stopped ?t = rs_stopped rs"
    "rs_shutting ?t = rs_shutting rs" using True by (simp_all add: close_finish_def)
  have c: "tearing (map_of (rs_closing ?t) y) = tearing (map_of (rs_closing rs) y)" for y
    using True by (simp add: f delete_conv' tearing_def)
  show ?thesis
  proof (rule teardown_inv [OF inv f(3,4,5), where P = "\<lambda>_. True"])
    show "teardown_ok ?t"
      using inv_parts(3) [OF inv] unfolding teardown_ok_def c unfolding f .
    show "owned ?t r" if "r \<in> set (rs_running ?t)" for r
      using inv_parts(4) [OF inv, of r] that unfolding owned_def c unfolding f .
  qed (simp_all add: f option.rel_refl)
qed (simp add: close_finish_def inv)

lemma exit_record_inv:
  assumes inv: "sess_inv c rs"
  shows "sess_inv c (exit_record sid failed rs)"
proof (cases "\<exists>s. rs_heap rs sid = Some s \<and> se_runtime s \<in> set (rs_running rs)")
  case True
  then obtain s where s: "rs_heap rs sid = Some s" and r: "se_runtime s \<in> set (rs_running rs)" by blast
  let ?t = "exit_record sid failed rs"
  have f: "rs_heap ?t = (rs_heap rs)(sid \<mapsto> s)" "rs_registry ?t = rs_registry rs"
    "rs_creating ?t = rs_creating rs" "rs_launching ?t = rs_launching rs" "rs_watched ?t = rs_watched rs"
    "rs_to_close ?t = rs_to_close rs" "rs_closing ?t = rs_closing rs"
    "rs_exiting ?t = AList.update sid (se_stopping s) (rs_exiting rs)" "rs_running ?t = removeAll (se_runtime s) (rs_running rs)"
    "rs_stopped ?t = rs_stopped rs" "rs_shutting ?t = rs_shutting rs"
    using s r by (simp_all add: exit_record_def fun_upd_idem)
  show ?thesis
    by (rule teardown_at_inv [OF inv s, where s' = s and P = "\<lambda>_. True"])
      (use s teardown_parts(1,2) [OF inv s] in \<open>auto simp: f update_conv'\<close>)
next
  case False
  then have "exit_record sid failed rs = rs" by (auto simp: exit_record_def split: option.split)
  with inv show ?thesis by simp
qed

lemma exit_reclaim_inv:
  assumes inv: "sess_inv c rs"
  shows "sess_inv c (exit_reclaim cf sid now ok rs)"
proof (cases "map_of (rs_exiting rs) sid")
  case (Some intentional)
  from teardown_parts(3) [OF inv Some] obtain s where s: "rs_heap rs sid = Some s" and r: "se_runtime s \<notin> set (rs_running rs)" by blast
  let ?r = "rs\<lparr>rs_exiting := AList.delete sid (rs_exiting rs)\<rparr>" and ?t = "exit_reclaim cf sid now ok rs"
  have i: "se_id s = sid" by (rule inv_id [OF inv s])
  have t: "?t = handle_process_exit cf sid intentional now ok ?r" by (simp add: exit_reclaim_def Some)
  show ?thesis
  proof (cases "sid \<in> set (rs_registry rs) \<and> se_status s \<noteq> SessClosing")
    case True
    define s' where "s' = s\<lparr>se_status := SessFailed,
      se_pump := finish_pending_turns (session_pump_config cf s) now StateFailed (se_pump s)\<rparr>"
    have same: "se_id s' = se_id s" "se_runtime s' = se_runtime s" "se_device s' = se_device s" "se_stopping s' = se_stopping s"
      by (simp_all add: s'_def)
    have reg: "registered sid ?r = Some s" using True s by (simp add: registered_def)
    have f: "rs_heap ?t = (rs_heap rs)(sid \<mapsto> s')" "rs_registry ?t = filter (\<lambda>y. y \<noteq> sid) (rs_registry rs)"
      "rs_creating ?t = rs_creating rs" "rs_launching ?t = rs_launching rs" "rs_watched ?t = rs_watched rs"
      "rs_to_close ?t = rs_to_close rs" "rs_closing ?t = rs_closing rs" "rs_exiting ?t = AList.delete sid (rs_exiting rs)"
      "rs_running ?t = rs_running rs" "rs_stopped ?t = rs_stopped rs" "rs_shutting ?t = rs_shutting rs"
      using True unfolding t handle_process_exit_def reg option.case Let_def s'_def
      by (simp_all add: sess unregister_def send_push_def i removeAll_filter_not_eq eq_commute [of sid])
    show ?thesis
      by (rule teardown_at_inv [OF inv s, where s' = s' and P = "\<lambda>y. y \<noteq> sid"])
        (use s same r teardown_parts(2) [OF inv s] in \<open>auto simp: f delete_conv' split: if_splits\<close>)
  next
    case False
    have "registered sid ?r = None \<or> registered sid ?r = Some s \<and> se_status s = SessClosing" using False s by (auto simp: registered_def)
    then have t': "?t = ?r" unfolding t handle_process_exit_def by auto
    have f: "rs_heap ?t = (rs_heap rs)(sid \<mapsto> s)" using s by (simp add: t' fun_upd_idem)
    show ?thesis
      by (rule teardown_at_inv [OF inv s f, where P = "\<lambda>_. True"])
        (use r teardown_parts(1,2) [OF inv s] in \<open>auto simp: t' delete_conv' split: if_splits\<close>)
  qed
qed (simp add: exit_reclaim_def inv)

lemma unwatched_exit_inv:
  assumes inv: "sess_inv c rs"
  shows "sess_inv c (unwatched_exit rid rs)"
proof (cases "rid \<in> set (rs_watched rs)")
  case False
  let ?t = "rs\<lparr>rs_running := removeAll rid (rs_running rs)\<rparr>"
  have "sess_inv c ?t"
  proof (rule teardown_inv [OF inv, where P = "\<lambda>_. True"])
    show "teardown_ok ?t" by (rule teardownI) (use teardown_parts [OF inv] in fastforce)+
    show "owned ?t r" if "r \<in> set (rs_running ?t)" for r using inv_parts(4) [OF inv, of r] that by (simp add: owned_def)
  qed (simp_all add: option.rel_refl)
  then show ?thesis using False by (simp add: unwatched_exit_def)
qed (simp add: unwatched_exit_def inv)

lemma reap_expired_inv:
  assumes inv: "sess_inv c rs"
  shows "sess_inv c (reap_expired d now rs)"
proof (rule teardown_inv [OF inv, where P = "\<lambda>_. True"])
  let ?t = "reap_expired d now rs"
  let ?due = "filter (\<lambda>sid. case rs_heap rs sid of None \<Rightarrow> False | Some s \<Rightarrow> reap_due d now s) (rs_registry rs)"
  have f: "rs_heap ?t y = (if y \<in> set ?due then map_option (\<lambda>s. s\<lparr>se_status := SessClosing\<rparr>) (rs_heap rs y) else rs_heap rs y)"
    "rs_to_close ?t = ?due @ rs_to_close rs" for y
    by (simp_all add: reap_expired_def Let_def)
  have g: "rs_registry ?t = rs_registry rs" "rs_closing ?t = rs_closing rs" "rs_exiting ?t = rs_exiting rs"
    "rs_running ?t = rs_running rs" "rs_stopped ?t = rs_stopped rs" "rs_shutting ?t = rs_shutting rs"
    by (simp_all add: reap_expired_def Let_def)
  have same: "\<exists>s. rs_heap rs y = Some s \<and> se_runtime z = se_runtime s \<and> se_stopping z = se_stopping s \<and> (y \<notin> set ?due \<longrightarrow> z = s)"
    if "rs_heap ?t y = Some z" for y z
    using that unfolding f(1) by (cases "rs_heap rs y") (auto split: if_splits)
  have there: "\<exists>z. rs_heap ?t y = Some z \<and> se_runtime z = se_runtime s \<and> se_stopping z = se_stopping s"
    if "rs_heap rs y = Some s" for y s
    using that unfolding f(1) by auto
  show "rel_option (\<lambda>s s'. se_id s' = se_id s \<and> se_runtime s' = se_runtime s \<and> se_device s' = se_device s \<and>
      (se_stopping s \<longrightarrow> se_stopping s')) (rs_heap rs y) (rs_heap ?t y)" for y
    unfolding f(1) by (cases "rs_heap rs y") (auto simp: option.rel_refl)
  show "teardown_ok ?t"
  proof (rule teardownI)
    fix y z assume z: "rs_heap ?t y = Some z"
    from same [OF z] obtain s where s: "rs_heap rs y = Some s" "se_runtime z = se_runtime s" "se_stopping z = se_stopping s"
      "y \<notin> set ?due \<Longrightarrow> z = s" by blast
    show "is_live z" if "y \<in> set (rs_registry ?t)" "\<not> se_stopping z" "y \<notin> set (rs_to_close ?t)"
      using teardown_parts(1) [OF inv s(1)] that s unfolding f g by auto
    show "tearing (map_of (rs_closing ?t) y) \<or> se_runtime z \<in> set (rs_stopped ?t)" if "se_stopping z"
      using teardown_parts(2) [OF inv s(1)] that s unfolding g by auto
  next
    fix y e assume "map_of (rs_exiting ?t) y = Some e"
    with teardown_parts(3) [OF inv, of y e] obtain s where "rs_heap rs y = Some s" "se_runtime s \<notin> set (rs_running rs)" by (auto simp: g)
    with there [OF this(1)] show "\<exists>z. rs_heap ?t y = Some z \<and> se_runtime z \<notin> set (rs_running ?t)" by (auto simp: g)
  qed
  show "owned ?t r" if "r \<in> set (rs_running ?t)" for r
  proof (rule owned_moves [OF inv_parts(4) [OF inv]])
    show "r \<in> set (rs_running rs)" using that by (simp add: g)
    show "rs_creating ?t = rs_creating rs" by (simp add: reap_expired_def Let_def)
    fix y s assume "rs_heap rs y = Some s" "se_runtime s = r"
      "y \<in> set (rs_registry rs) \<or> tearing (map_of (rs_closing rs) y) \<or> y \<in> set (rs_shutting rs) \<and> \<not> se_stopping s"
    with there [OF this(1)] show "r \<in> set (rs_stopped ?t) \<or> (\<exists>s'. rs_heap ?t y = Some s' \<and> se_runtime s' = r \<and>
        (y \<in> set (rs_registry ?t) \<or> tearing (map_of (rs_closing ?t) y) \<or> y \<in> set (rs_shutting ?t) \<and> \<not> se_stopping s'))"
      unfolding g by auto
  qed (simp add: g)
  show "y \<notin> set (rs_to_close rs)" if "y \<notin> set (rs_to_close ?t)" for y using that by (simp add: f(2))
qed (simp_all add: reap_expired_def Let_def)

lemma shutdown_inv:
  assumes inv: "sess_inv c rs"
  shows "sess_inv c (shutdown rs)"
proof (rule teardown_inv [OF inv, where P = "\<lambda>_. False"])
  show "teardown_ok (shutdown rs)"
    by (rule teardownI) (use teardown_parts(2,3) [OF inv] in \<open>simp_all add: shutdown_def\<close>)
  show "owned (shutdown rs) r" if "r \<in> set (rs_running (shutdown rs))" for r
  proof (rule owned_moves [OF inv_parts(4) [OF inv]])
    show "r \<in> set (rs_running rs)" using that by (simp add: shutdown_def)
    fix y s assume "rs_heap rs y = Some s" "se_runtime s = r"
      "y \<in> set (rs_registry rs) \<or> tearing (map_of (rs_closing rs) y) \<or> y \<in> set (rs_shutting rs) \<and> \<not> se_stopping s"
    then show "r \<in> set (rs_stopped (shutdown rs)) \<or> (\<exists>s'. rs_heap (shutdown rs) y = Some s' \<and> se_runtime s' = r \<and>
        (y \<in> set (rs_registry (shutdown rs)) \<or> tearing (map_of (rs_closing (shutdown rs)) y) \<or>
         y \<in> set (rs_shutting (shutdown rs)) \<and> \<not> se_stopping s'))"
      using teardown_parts(2) [OF inv, of y s] by (auto simp: shutdown_def)
  qed (simp_all add: shutdown_def)
qed (simp_all add: shutdown_def option.rel_refl)

lemma shutdown_stop_inv:
  assumes inv: "sess_inv c rs"
  shows "sess_inv c (shutdown_stop sid rs)"
proof (cases "sid \<in> set (rs_shutting rs)")
  case there: True
  show ?thesis
  proof (cases "rs_heap rs sid")
    case None
    let ?t = "rs\<lparr>rs_shutting := removeAll sid (rs_shutting rs)\<rparr>"
    have "sess_inv c ?t"
    proof (rule teardown_inv [OF inv, where P = "\<lambda>_. True"])
      show "teardown_ok ?t" by (rule teardownI) (use teardown_parts [OF inv] in simp_all)
      show "owned ?t r" if "r \<in> set (rs_running ?t)" for r
        by (rule owned_moves [OF inv_parts(4) [OF inv]]) (use that None in auto)
    qed (simp_all add: option.rel_refl)
    then show ?thesis using None there by (simp add: shutdown_stop_def)
  next
    case (Some s)
    have i: "se_id s = sid" by (rule inv_id [OF inv Some])
    show ?thesis
    proof (cases "se_stopping s")
      case True
      let ?t = "rs\<lparr>rs_shutting := removeAll sid (rs_shutting rs)\<rparr>"
      have "sess_inv c ?t"
        by (rule teardown_at_inv [OF inv Some, where s' = s and P = "\<lambda>_. True"])
          (use Some True teardown_parts(2,3) [OF inv, of sid] in \<open>auto simp: fun_upd_idem\<close>)
      then show ?thesis using Some there True by (simp add: shutdown_stop_def)
    next
      case False
      let ?t = "shutdown_stop sid rs" and ?s = "s\<lparr>se_stopping := True\<rparr>"
      have f: "rs_heap ?t = (rs_heap rs)(sid \<mapsto> ?s)" "rs_registry ?t = rs_registry rs"
        "rs_creating ?t = rs_creating rs" "rs_launching ?t = rs_launching rs" "rs_watched ?t = rs_watched rs"
        "rs_to_close ?t = rs_to_close rs" "rs_closing ?t = rs_closing rs" "rs_exiting ?t = rs_exiting rs"
        "rs_running ?t = rs_running rs" "rs_stopped ?t = se_runtime s # rs_stopped rs"
        "rs_shutting ?t = removeAll sid (rs_shutting rs)"
        using there Some False i by (simp_all add: shutdown_stop_def put_session_def)
      show ?thesis
        by (rule teardown_at_inv [OF inv Some, where s' = ?s and P = "\<lambda>_. True"])
          (use Some teardown_parts(3) [OF inv, of sid] in \<open>auto simp: f\<close>)
    qed
  qed
qed (simp add: shutdown_stop_def inv)

section \<open>Every reachable state\<close>

lemma session_by_runtime_heap:
  assumes inv: "sess_inv c rs" and "session_by_runtime rid rs = Some s"
  shows "rs_heap rs (se_id s) = Some s \<and> se_id s \<in> set (rs_registry rs)"
proof -
  have "s \<in> set (sessions rs)" using assms(2) unfolding session_by_runtime_def find_Some_iff by (metis nth_mem)
  then obtain y where "y \<in> set (rs_registry rs)" "rs_heap rs y = Some s" unfolding sessions_def map_filter_def by auto
  with inv_id [OF inv this(2)] show ?thesis by simp
qed

lemma no_replacement: "sess_inv c rs \<Longrightarrow> rs_heap rs [] = None"
  using inv_parts(1) unfolding heap_ok_def by (metis not_None_eq)

lemma session_step_inv:
  assumes inv: "sess_inv c rs" and fr: "fresh_event rs e"
  shows "sess_inv c (session_step u c rs e)"
proof -
  note q = core_eq_inv [OF core_eq_quiet(1) [OF inv] inv] core_eq_inv [OF core_eq_quiet(2) [OF inv] inv]
    core_eq_inv [OF core_eq_quiet(3) [OF inv] inv] core_eq_inv [OF core_eq_quiet(4) [OF inv] inv]
    core_eq_inv [OF core_eq_quiet(5) [OF inv] inv] core_eq_inv [OF core_eq_quiet(6) [OF inv] inv]
    core_eq_inv [OF core_eq_quiet(7) [OF inv] inv] core_eq_inv [OF core_eq_on_pump [OF inv] inv]
  have res: "sess_inv c (fst (reserve c sid dev agent [] rs))" if "fresh_session sid rs" for sid dev agent
    by (rule reserve_inv [OF inv that]) (simp_all add: no_replacement [OF inv])
  show ?thesis
  proof (cases e)
    case (SeReserve sid dev agent)
    then show ?thesis using fr res by (simp add: fresh_event_def)
  next
    case (SeRestart sid rid dev agent)
    then have new: "fresh_session sid rs" using fr by (simp add: fresh_event_def)
    have "sess_inv c (fst (restart c sid rid dev agent rs))"
    proof (cases "session_by_runtime rid rs")
      case (Some s)
      note s = session_by_runtime_heap [OF inv Some]
      show ?thesis
      proof (cases "se_device s = dev")
        case True
        then show ?thesis using s Some by (auto simp: restart_def intro!: reserve_inv [OF inv new])
      qed (simp add: restart_def Some inv)
    qed (simp add: restart_def inv)
    then show ?thesis by (simp add: SeRestart)
  next
    case (SeAttachAcp sid agent dev acp random now)
    then have new: "fresh_session sid rs" using fr by (simp add: fresh_event_def)
    have "sess_inv c (fst (attach_acp c sid agent dev acp random now rs))"
    proof (cases "holding agent dev acp rs")
      case None
      have "fst (attach_acp c sid agent dev acp random now rs) = fst (reserve c sid dev agent [] rs)"
        by (simp add: attach_acp_def None split: prod.split option.split)
      then show ?thesis using res [OF new] by simp
    next
      case (Some h)
      show ?thesis
        by (rule core_eq_inv [OF core_eq_same_heap inv]) (simp_all add: attach_acp_def Some Let_def split: prod.split)
    qed
    then show ?thesis by (simp add: SeAttachAcp)
  next
    case (SeLaunch sid rid)
    then show ?thesis using fr by (auto simp: fresh_event_def intro!: launch_result_inv [OF inv])
  next
    case (SeClose sid dev)
    have "sess_inv c (fst (close_request sid dev rs))"
      by (auto simp: close_request_def inv split: option.split intro!: to_close_inv [OF inv, where xs = "[sid]"])
    then show ?thesis by (simp add: SeClose)
  next
    case (SeStopAgent agent dev)
    have "sess_inv c (fst (stop_by_agent agent dev rs))"
      by (auto simp: stop_by_agent_def Let_def inv intro!: to_close_inv [OF inv refl])
    then show ?thesis by (simp add: SeStopAgent)
  qed (simp_all add: inv q save_created_inv register_created_inv close_begin_inv close_unregister_inv close_stop_inv
    close_finish_inv exit_record_inv exit_reclaim_inv unwatched_exit_inv reap_expired_inv shutdown_inv shutdown_stop_inv)
qed

lemma new_inv: "sess_inv c new_runtime_session"
  by (simp add: sess_inv_def new_runtime_session_def heap_ok_def creating_ok_def teardown_ok_def launching_count_def
    quota_count_def counts_def)

lemma reachable_inv: "reachable u c rs \<Longrightarrow> sess_inv c rs"
  by (induction rule: reachable.induct) (auto intro: new_inv session_step_inv)

end
