(* ===== verification/Session_Safety.thy ===== *)
theory Session_Safety
  imports Sessions_Proofs
begin

text \<open>
  What the session layer promises in every state its goroutines can reach: the quota of a device, an
  owner for every agent process, a shutdown that leaves no agent unstopped, attach tokens that open
  only their own session, the clean-up after a crash; and what the saves of \<^verbatim>\<open>AttachClient\<close> break.
\<close>

section \<open>The registry after a shutdown\<close>

lemma sessions_empty: "rs_registry rs = [] \<Longrightarrow> sessions rs = []"
  by (simp add: sessions_def map_filter_simps)

lemma registered_empty: "rs_registry rs = [] \<Longrightarrow> registered sid rs = None"
  by (simp add: registered_def)

lemma reserve_frame:
  "rs_registry (fst (reserve c sid dev agent r rs)) = rs_registry rs" "rs_closed (fst (reserve c sid dev agent r rs)) = rs_closed rs"
  "rs_heap (fst (reserve c sid dev agent r rs)) = rs_heap rs" "rs_tokens (fst (reserve c sid dev agent r rs)) = rs_tokens rs"
  by (simp_all add: reserve_def)

lemma launch_frame:
  "rs_registry (launch_result sid rid rs) = rs_registry rs" "rs_closed (launch_result sid rid rs) = rs_closed rs"
  "rs_heap (launch_result sid rid rs) = rs_heap rs" "rs_tokens (launch_result sid rid rs) = rs_tokens rs"
  by (simp_all add: launch_result_def plain_defs split: option.split create_stage.split)

lemma save_created_frame:
  "rs_registry (save_created sid now ok rs) = rs_registry rs" "rs_closed (save_created sid now ok rs) = rs_closed rs"
  "rs_heap (save_created sid now ok rs) = rs_heap rs" "rs_tokens (save_created sid now ok rs) = rs_tokens rs"
  by (simp_all add: save_created_def plain_defs split: option.split create_stage.split)

lemma on_pump_frame:
  "rs_registry (on_pump c sid f rs) = rs_registry rs" "rs_closed (on_pump c sid f rs) = rs_closed rs"
  "rs_tokens (on_pump c sid f rs) = rs_tokens rs"
  by (simp_all add: on_pump_def sess split: option.split)

lemma save_row_frame:
  "rs_registry (fst (save_row i ok rs)) = rs_registry rs" "rs_closed (fst (save_row i ok rs)) = rs_closed rs"
  "rs_heap (fst (save_row i ok rs)) = rs_heap rs" "rs_tokens (fst (save_row i ok rs)) = rs_tokens rs"
  by (simp_all add: save_row_def Let_def split: saving.split)

lemma close_frames:
  "rs_closed (close_begin sid ok rs) = rs_closed rs" "rs_registry (close_begin sid ok rs) = rs_registry rs"
  "rs_tokens (close_begin sid ok rs) = rs_tokens rs"
  "rs_closed (close_unregister c sid now rs) = rs_closed rs"
  "rs_tokens (close_unregister c sid now rs) = rs_tokens rs"
  "rs_closed (close_stop sid w rs) = rs_closed rs" "rs_registry (close_stop sid w rs) = rs_registry rs"
  "rs_tokens (close_stop sid w rs) = rs_tokens rs"
  "rs_closed (close_finish sid ok rs) = rs_closed rs" "rs_registry (close_finish sid ok rs) = rs_registry rs"
  "rs_tokens (close_finish sid ok rs) = rs_tokens rs" "rs_heap (close_finish sid ok rs) = rs_heap rs"
  by (simp_all add: close_begin_def close_unregister_def close_stop_def close_finish_def plain_defs sess Let_def
      split: option.split close_stage.split)

lemma exit_frames:
  "rs_closed (exit_record sid failed rs) = rs_closed rs" "rs_registry (exit_record sid failed rs) = rs_registry rs"
  "rs_tokens (exit_record sid failed rs) = rs_tokens rs" "rs_heap (exit_record sid failed rs) = rs_heap rs"
  "rs_closed (handle_process_exit c sid i now ok rs) = rs_closed rs" "rs_tokens (handle_process_exit c sid i now ok rs) = rs_tokens rs"
  "rs_closed (exit_reclaim c sid now ok rs) = rs_closed rs" "rs_tokens (exit_reclaim c sid now ok rs) = rs_tokens rs"
  "rs_closed (unwatched_exit rid rs) = rs_closed rs" "rs_registry (unwatched_exit rid rs) = rs_registry rs"
  "rs_tokens (unwatched_exit rid rs) = rs_tokens rs" "rs_heap (unwatched_exit rid rs) = rs_heap rs"
  by (simp_all add: exit_record_def exit_reclaim_def handle_process_exit_def unwatched_exit_def plain_defs sess Let_def
      split: option.split)

lemma stays_closed:
  assumes "rs_closed rs \<longrightarrow> rs_registry rs = []"
  shows "rs_closed (session_step u c rs e) \<longrightarrow> rs_registry (session_step u c rs e) = []"
proof (cases e)
  case (SeRegister sid epoch random now)
  then show ?thesis using assms
    by (auto simp: register_created_def plain_defs Let_def split: option.split create_stage.split prod.split)
next
  case (SeRestart sid rid dev agent)
  then show ?thesis using assms by (auto simp: restart_def reserve_frame split: option.split)
next
  case (SeAttachAcp sid agent dev acp random now)
  have "attach_acp c sid agent dev acp random now rs = r \<Longrightarrow> rs_closed (fst r) = rs_closed rs \<and> rs_registry (fst r) = rs_registry rs" for r
    using reserve_frame(1,2) [of c sid dev agent "[]" rs]
    by (auto simp: attach_acp_def Let_def split: option.splits prod.splits)
  then show ?thesis using SeAttachAcp assms by auto
next
  case (SeResume sid dev random now)
  then show ?thesis using assms by (auto simp: resume_def Let_def split: option.split prod.split)
next
  case (SeAttach sid token now1 now2)
  then show ?thesis using assms
    by (auto simp: attach_client_def Let_def plain_defs split: option.split prod.split sum.split)
next
  case (SeBind sid conn gen)
  then show ?thesis using assms by (auto simp: bind_client_def plain_defs split: option.split prod.split)
next
  case (SeDetach sid gen now)
  then show ?thesis using assms by (auto simp: detach_mark_def Let_def plain_defs split: option.split prod.split)
next
  case (SeClose sid dev)
  then show ?thesis using assms by (auto simp: close_request_def split: option.split)
next
  case (SeStopAgent agent dev)
  then show ?thesis using assms by (auto simp: stop_by_agent_def Let_def)
next
  case (SeCloseUnregister sid now)
  then show ?thesis using assms
    by (auto simp: close_unregister_def unregister_def sess split: option.split close_stage.split)
next
  case (SeReclaim sid now ok)
  then show ?thesis using assms
    by (auto simp: exit_reclaim_def handle_process_exit_def registered_empty plain_defs sess Let_def split: option.split)
next
  case (SeShutdownStop sid)
  then show ?thesis using assms by (auto simp: shutdown_stop_def plain_defs Let_def split: option.split)
next
  case (SeInbound sid payload)
  then show ?thesis using assms by (auto simp: log_inbound_def plain_defs Let_def split: option.split)
qed (use assms in \<open>simp_all add: reserve_frame launch_frame save_created_frame on_pump_frame save_row_frame close_frames exit_frames
  reap_expired_def shutdown_def Let_def\<close>)

lemma reachable_closed: "reachable u c rs \<Longrightarrow> rs_closed rs \<longrightarrow> rs_registry rs = []"
proof (induction rule: reachable.induct)
  case reach_new
  then show ?case by (simp add: new_runtime_session_def)
next
  case (reach_step rs e)
  then show ?case by (intro stays_closed)
qed

section \<open>Whom a token lets in\<close>

lemma tokens_shrink:
  "set (tk_tokens (maybe_sweep_tokens now s)) \<subseteq> set (tk_tokens s)" "set (tk_tokens (sweep_tokens now s)) \<subseteq> set (tk_tokens s)"
  "set (tk_tokens (evict_oldest s)) \<subseteq> set (tk_tokens s)"
  by (auto simp: maybe_sweep_tokens_def sweep_tokens_def evict_oldest_def set_delete_alist split: option.split)

lemma mint_tokens:
  "set (tk_tokens (fst (mint random sid dev ttl now s))) \<subseteq>
     set (tk_tokens s) \<union> {(t, c). cl_session c = sid \<and> cl_device c = dev}"
proof (cases random)
  case (Some tok)
  define s1 where "s1 = maybe_sweep_tokens now s"
  define s2 where "s2 = (if max_attach_tokens \<le> length (tk_tokens s1)
    then let s' = sweep_tokens now s1 in if max_attach_tokens \<le> length (tk_tokens s') then evict_oldest s' else s' else s1)"
  have "set (tk_tokens s2) \<subseteq> set (tk_tokens s1)"
    unfolding s2_def Let_def using tokens_shrink(2) [of now s1] tokens_shrink(3) [of "sweep_tokens now s1"] by (auto split: if_splits)
  moreover have "set (tk_tokens s1) \<subseteq> set (tk_tokens s)" unfolding s1_def by (rule tokens_shrink)
  moreover have "tk_tokens (fst (mint random sid dev ttl now s)) =
      AList.update tok \<lparr>cl_session = sid, cl_device = dev, cl_expires = now + ttl\<rparr> (tk_tokens s2)"
    by (simp add: mint_def Some s1_def s2_def Let_def)
  ultimately show ?thesis using set_update_subset [of tok _ "tk_tokens s2"] by fastforce
qed (auto simp: mint_def)

lemma validate_tokens: "set (tk_tokens (fst (validate tok n1 n2 s))) \<subseteq> set (tk_tokens s)"
  using tokens_shrink(1) [of n1 s] by (auto simp: validate_def Let_def set_delete_alist split: option.split)

lemma validate_claim:
  assumes "snd (validate tok n1 n2 s) = Inr (sid, dev)"
  shows "\<exists>c. (tok, c) \<in> set (tk_tokens s) \<and> cl_session c = sid \<and> cl_device c = dev \<and> n2 \<le> cl_expires c"
proof -
  from assms obtain c where "map_of (tk_tokens (maybe_sweep_tokens n1 s)) tok = Some c"
    "cl_session c = sid" "cl_device c = dev" "n2 \<le> cl_expires c"
    by (auto simp: validate_def Let_def split: option.splits if_splits)
  then show ?thesis using tokens_shrink(1) [of n1 s] by (blast dest: map_of_SomeD)
qed

definition tokens_match :: "runtime_session \<Rightarrow> bool" where
  "tokens_match rs \<longleftrightarrow> (\<forall>t c. (t, c) \<in> set (tk_tokens (rs_tokens rs)) \<longrightarrow>
     (\<exists>s. rs_heap rs (cl_session c) = Some s \<and> se_device s = cl_device c))"

definition heap_grows :: "runtime_session \<Rightarrow> runtime_session \<Rightarrow> bool" where
  "heap_grows rs t \<longleftrightarrow> (\<forall>y s. rs_heap rs y = Some s \<longrightarrow> (\<exists>s'. rs_heap t y = Some s' \<and> se_device s' = se_device s))"

lemma heap_growsI: "rs_heap t = rs_heap rs \<Longrightarrow> heap_grows rs t"
  by (simp add: heap_grows_def)

lemma heap_grows_put: "rs_heap rs sid = Some s \<Longrightarrow> rs_heap t = (rs_heap rs)(sid \<mapsto> s') \<Longrightarrow> se_device s' = se_device s \<Longrightarrow> heap_grows rs t"
  by (simp add: heap_grows_def)

lemma core_eq_grows: "core_eq rs t \<Longrightarrow> heap_grows rs t"
  using core_eq_heap(2) unfolding heap_grows_def core_def by fastforce

lemma tokens_match_keep:
  assumes "tokens_match rs" "heap_grows rs t" "set (tk_tokens (rs_tokens t)) \<subseteq> set (tk_tokens (rs_tokens rs))"
  shows "tokens_match t"
  unfolding tokens_match_def
proof (intro allI impI)
  fix tok c assume "(tok, c) \<in> set (tk_tokens (rs_tokens t))"
  then obtain s where "rs_heap rs (cl_session c) = Some s" "se_device s = cl_device c"
    using assms(1,3) unfolding tokens_match_def by blast
  then show "\<exists>s. rs_heap t (cl_session c) = Some s \<and> se_device s = cl_device c" using assms(2) unfolding heap_grows_def by metis
qed

lemma tokens_match_mint:
  assumes "tokens_match rs" "heap_grows rs t" "rs_tokens t = fst (mint random sid dev ttl now (rs_tokens rs))"
    and "rs_heap t sid = Some s" "se_device s = dev"
  shows "tokens_match t"
  unfolding tokens_match_def
proof (intro allI impI)
  fix tok c assume "(tok, c) \<in> set (tk_tokens (rs_tokens t))"
  with mint_tokens [of random sid dev ttl now "rs_tokens rs"]
  consider "(tok, c) \<in> set (tk_tokens (rs_tokens rs))" | "cl_session c = sid" "cl_device c = dev" unfolding assms(3) by auto
  then show "\<exists>s. rs_heap t (cl_session c) = Some s \<and> se_device s = cl_device c"
  proof cases
    case 1
    then obtain x where "rs_heap rs (cl_session c) = Some x" "se_device x = cl_device c" using assms(1) unfolding tokens_match_def by blast
    then show ?thesis using assms(2) unfolding heap_grows_def by metis
  next
    case 2
    then show ?thesis using assms(4,5) by simp
  qed
qed

lemma handle_exit_grows: "sess_inv c' rs \<Longrightarrow> heap_grows rs (handle_process_exit c sid i now ok rs)"
proof (cases "registered sid rs")
  case (Some s)
  assume inv: "sess_inv c' rs"
  note h = registered_heap [OF Some]
  have "se_id s = sid" using inv_id [OF inv] h by blast
  then show ?thesis
    by (cases "se_status s = SessClosing")
      (use h Some in \<open>auto simp: handle_process_exit_def Let_def plain_defs sess heap_grows_def\<close>)
qed (simp add: handle_process_exit_def heap_grows_def)

lemma step_grows:
  assumes inv: "sess_inv c rs" and fr: "fresh_event rs e"
  shows "heap_grows rs (session_step u c rs e)"
proof (cases e)
  case (SeRegister sid epoch random now)
  have new: "map_of (rs_creating rs) sid = Some cr \<Longrightarrow> rs_heap rs sid = None" for cr
    using creatingD(1) [OF inv_parts(2) [OF inv]] .
  then show ?thesis
    by (auto simp: SeRegister register_created_def plain_defs heap_grows_def Let_def new_session_def
        split: option.split create_stage.split prod.split)
next
  case (SeRestart sid rid dev agent)
  then show ?thesis by (auto simp: restart_def reserve_frame split: option.split intro!: heap_growsI)
next
  case (SeAttachAcp sid agent dev acp random now)
  have "attach_acp c sid agent dev acp random now rs = r \<Longrightarrow> rs_heap (fst r) = rs_heap rs" for r
    using reserve_frame(3) [of c sid dev agent "[]" rs] by (auto simp: attach_acp_def Let_def split: option.splits prod.splits)
  then show ?thesis using SeAttachAcp by (auto intro!: heap_growsI)
next
  case (SeClose sid dev)
  then show ?thesis by (auto simp: close_request_def heap_grows_def split: option.split)
next
  case (SeStopAgent agent dev)
  then show ?thesis by (auto simp: stop_by_agent_def Let_def heap_grows_def)
next
  case (SeCloseBegin sid ok)
  have "heap_grows rs (close_begin sid ok rs)"
    using inv_id [OF inv] by (auto simp: close_begin_def Let_def plain_defs heap_grows_def split: option.split)
  then show ?thesis by (simp add: SeCloseBegin)
next
  case (SeCloseUnregister sid now)
  have "heap_grows rs (close_unregister c sid now rs)"
    using inv_id [OF inv] by (auto simp: close_unregister_def unregister_def sess heap_grows_def split: option.split close_stage.split)
  then show ?thesis by (simp add: SeCloseUnregister)
next
  case (SeCloseStop sid written)
  have "heap_grows rs (close_stop sid written rs)"
    using inv_id [OF inv] by (auto simp: close_stop_def plain_defs heap_grows_def split: option.split close_stage.split)
  then show ?thesis by (simp add: SeCloseStop)
next
  case (SeReclaim sid now ok)
  show ?thesis
  proof (cases "map_of (rs_exiting rs) sid")
    case (Some i)
    let ?r = "rs\<lparr>rs_exiting := AList.delete sid (rs_exiting rs)\<rparr>"
    have "sess_inv c ?r"
      by (rule teardown_inv [OF inv, where P = "\<lambda>_. True"])
        (use inv_parts(3,4) [OF inv] in \<open>auto simp: option.rel_refl teardown_ok_def owned_def delete_conv' split: if_splits\<close>)
    from handle_exit_grows [OF this] show ?thesis by (simp add: SeReclaim exit_reclaim_def Some heap_grows_def)
  qed (simp add: SeReclaim exit_reclaim_def heap_grows_def)
next
  case (SeReap now)
  then show ?thesis by (auto simp: reap_expired_def Let_def heap_grows_def)
next
  case (SeShutdownStop sid)
  have "heap_grows rs (shutdown_stop sid rs)"
    using inv_id [OF inv] by (auto simp: shutdown_stop_def Let_def plain_defs heap_grows_def split: option.split)
  then show ?thesis by (simp add: SeShutdownStop)
qed (simp_all add: reserve_frame launch_frame save_row_frame save_created_frame close_frames exit_frames shutdown_def heap_growsI
    core_eq_grows core_eq_quiet [OF inv] core_eq_on_pump [OF inv])

lemma holding_some:
  assumes "holding agent dev acp rs = Some s"
  shows "s \<in> set (sessions rs) \<and> se_agent s = agent \<and> se_device s = dev \<and> is_live s \<and> acp_holds acp (pm_acp (se_pump s))"
proof -
  let ?ok = "\<lambda>s. se_agent s = agent \<and> se_device s = dev \<and> is_live s \<and> acp_holds acp (pm_acp (se_pump s))"
  have "fold (\<lambda>s best. if se_agent s = agent \<and> se_device s = dev \<and> is_live s \<and> acp_holds acp (pm_acp (se_pump s)) \<and>
      (case best of None \<Rightarrow> True | Some b \<Rightarrow> se_created b < se_created s) then Some s else best) xs b = Some r \<Longrightarrow>
      r \<in> set xs \<and> ?ok r \<or> b = Some r" for xs b r
    by (induction xs arbitrary: b) (auto split: if_splits)
  from this [of "sessions rs" None s] assms show ?thesis by (auto simp: holding_def split: if_splits)
qed

lemma sessions_heap: "sess_inv c rs \<Longrightarrow> s \<in> set (sessions rs) \<Longrightarrow> rs_heap rs (se_id s) = Some s \<and> se_id s \<in> set (rs_registry rs)"
  using inv_id unfolding sessions_def map_filter_def by fastforce

lemma close_tokens:
  "rs_tokens (fst (close_request sid dev rs)) = rs_tokens rs" "rs_tokens (fst (stop_by_agent agent dev rs)) = rs_tokens rs"
  "rs_tokens (reap_expired d now rs) = rs_tokens rs" "rs_tokens (shutdown rs) = rs_tokens rs"
  "rs_tokens (shutdown_stop sid rs) = rs_tokens rs" "rs_tokens (log_inbound sid payload rs) = rs_tokens rs"
  "rs_tokens (fst (bind_client sid conn gen rs)) = rs_tokens rs" "rs_tokens (fst (detach_mark sid gen now rs)) = rs_tokens rs"
  "rs_tokens (fst (restart c sid rid dev agent rs)) = rs_tokens rs"
  by (simp_all add: close_request_def stop_by_agent_def reap_expired_def shutdown_def shutdown_stop_def log_inbound_def
      bind_client_def detach_mark_def restart_def reserve_frame put_session_def Let_def split: option.split prod.split)

lemma register_tokens:
  fixes rs sid epoch random now
  defines "t \<equiv> fst (register_created sid epoch random now rs)"
  shows "rs_tokens t = rs_tokens rs \<or>
    (\<exists>s. rs_tokens t = fst (mint random sid (se_device s) attach_token_ttl now (rs_tokens rs)) \<and> rs_heap t sid = Some s)"
proof (cases "map_of (rs_creating rs) sid")
  case (Some cr)
  show ?thesis
  proof (cases "cr_stage cr")
    case (Saved r created)
    show ?thesis
    proof (cases "rs_closed rs")
      case True
      then show ?thesis by (simp add: t_def register_created_def Some Saved plain_defs Let_def)
    next
      case False
      have "rs_tokens t = fst (mint random sid (cr_device cr) attach_token_ttl now (rs_tokens rs))"
        "rs_heap t sid = Some (new_session sid epoch cr r created)"
        using False by (simp_all add: t_def register_created_def Some Saved plain_defs Let_def new_session_def split: prod.split)
      moreover have "se_device (new_session sid epoch cr r created) = cr_device cr" by (simp add: new_session_def)
      ultimately show ?thesis by metis
    qed
  qed (simp_all add: t_def register_created_def Some)
qed (simp add: t_def register_created_def)

lemma step_tokens_match:
  assumes inv: "sess_inv c rs" and fr: "fresh_event rs e" and m: "tokens_match rs"
  shows "tokens_match (session_step u c rs e)"
proof -
  note g = step_grows [OF inv fr, of u]
  have plain: ?thesis if "rs_tokens (session_step u c rs e) = rs_tokens rs"
    by (rule tokens_match_keep [OF m g]) (simp add: that)
  show ?thesis
  proof (cases e)
    case (SeRegister sid epoch random now)
    let ?t = "session_step u c rs e"
    from register_tokens [of sid epoch random now rs]
    consider "rs_tokens ?t = rs_tokens rs" | s where "rs_tokens ?t = fst (mint random sid (se_device s) attach_token_ttl now (rs_tokens rs))"
        "rs_heap ?t sid = Some s"
      unfolding SeRegister session_step.simps by blast
    then show ?thesis
    proof cases
      case (2 s)
      then show ?thesis by (intro tokens_match_mint [OF m g _ _ refl])
    qed (rule plain)
  next
    case (SeAttachAcp sid agent dev acp random now)
    let ?t = "session_step u c rs e"
    show ?thesis
    proof (cases "holding agent dev acp rs")
      case None
      then have "rs_tokens ?t = rs_tokens rs"
        using reserve_frame(4) [of c sid dev agent "[]" rs] by (auto simp: SeAttachAcp attach_acp_def split: prod.split option.split)
      then show ?thesis by (rule plain)
    next
      case (Some h)
      from holding_some [OF Some] sessions_heap [OF inv, of h] have h: "rs_heap rs (se_id h) = Some h" "se_device h = dev" by blast+
      have "rs_tokens ?t = fst (mint random (se_id h) dev attach_token_ttl now (rs_tokens rs))" "rs_heap ?t = rs_heap rs"
        by (simp_all add: SeAttachAcp attach_acp_def Some Let_def split: prod.split)
      then show ?thesis using h
        by (intro tokens_match_mint [OF m g, where random = random and sid = "se_id h" and dev = dev and s = h]) simp_all
    qed
  next
    case (SeResume sid dev random now)
    let ?t = "session_step u c rs e"
    show ?thesis
    proof (cases "\<exists>s. registered sid rs = Some s \<and> se_device s = dev \<and> is_live s")
      case True
      then obtain s where s: "registered sid rs = Some s" "se_device s = dev" "is_live s" by blast
      have "rs_tokens ?t = fst (mint random sid dev attach_token_ttl now (rs_tokens rs))" "rs_heap ?t = rs_heap rs"
        by (simp_all add: SeResume resume_def s Let_def split: prod.split)
      then show ?thesis using registered_heap [OF s(1)] s(2)
        by (intro tokens_match_mint [OF m g, where random = random and sid = sid and dev = dev and s = s]) simp_all
    next
      case False
      then have "rs_tokens ?t = rs_tokens rs" by (auto simp: SeResume resume_def split: option.split)
      then show ?thesis by (rule plain)
    qed
  next
    case (SeAttach sid token now1 now2)
    have "rs_tokens (session_step u c rs e) = fst (validate token now1 now2 (rs_tokens rs))"
      by (simp add: SeAttach attach_client_def Let_def put_session_def split: prod.split sum.split option.split)
    then show ?thesis using validate_tokens by (intro tokens_match_keep [OF m g]) simp
  qed (rule plain, simp add: reserve_frame launch_frame save_row_frame save_created_frame close_frames exit_frames close_tokens
    on_pump_frame)+
qed

lemma reachable_tokens: "reachable u c rs \<Longrightarrow> tokens_match rs"
proof (induction rule: reachable.induct)
  case reach_new
  then show ?case by (simp add: tokens_match_def new_runtime_session_def new_token_service_def)
next
  case (reach_step rs e)
  then show ?case by (intro step_tokens_match reachable_inv)
qed

section \<open>Concrete runs\<close>

text \<open>Freshness as it is evaluated on a concrete run.\<close>

definition fresh_check :: "runtime_session \<Rightarrow> session_event \<Rightarrow> bool" where
  "fresh_check rs e =
     (case e of
        SeReserve sid _ _ \<Rightarrow> sid \<noteq> [] \<and> rs_heap rs sid = None \<and> map_of (rs_creating rs) sid = None
      | SeRestart sid _ _ _ \<Rightarrow> sid \<noteq> [] \<and> rs_heap rs sid = None \<and> map_of (rs_creating rs) sid = None
      | SeAttachAcp sid _ _ _ _ _ \<Rightarrow> sid \<noteq> [] \<and> rs_heap rs sid = None \<and> map_of (rs_creating rs) sid = None
      | SeLaunch _ (Some rid) \<Rightarrow> rid \<notin> set (rs_running rs) \<and> rid \<notin> set (rs_watched rs) \<and> rid \<notin> set (rs_stopped rs) \<and>
          list_all (\<lambda>e. case cr_stage (snd e) of Reserved \<Rightarrow> True | Launched r \<Rightarrow> r \<noteq> rid | Saved r _ \<Rightarrow> r \<noteq> rid) (rs_creating rs)
      | _ \<Rightarrow> True)"

primrec fresh_run :: "sdk \<Rightarrow> session_config \<Rightarrow> runtime_session \<Rightarrow> session_event list \<Rightarrow> bool" where
  "fresh_run u c rs [] = True"
| "fresh_run u c rs (e # es) = (fresh_check rs e \<and> fresh_run u c (session_step u c rs e) es)"

lemma fresh_check_event: "fresh_check rs e \<Longrightarrow> fresh_event rs e"
proof (cases e)
  case (SeLaunch sid rid)
  assume ch: "fresh_check rs e"
  show ?thesis
  proof (cases rid)
    case (Some r)
    have "fresh_runtime r rs"
      using ch unfolding fresh_runtime_def
      by (fastforce simp: SeLaunch Some fresh_check_def list_all_iff dest!: map_of_SomeD)
    then show ?thesis by (simp add: fresh_event_def SeLaunch Some)
  qed (simp add: fresh_event_def SeLaunch)
qed (simp_all add: fresh_check_def fresh_event_def fresh_session_def)

lemma reachable_run: "reachable u c rs \<Longrightarrow> fresh_run u c rs es \<Longrightarrow> reachable u c (run (session_step u c) rs es)"
  by (induction es arbitrary: rs) (auto intro: reach_step fresh_check_event)

definition small_config :: session_config where
  "small_config = \<lparr>sc_max_disconnected = default_max_disconnected, sc_max_per_device = 1, sc_reaper_interval = default_reaper_interval,
     sc_progress_interval = default_progress_interval, sc_push = True\<rparr>"

definition started :: "session_event list" where
  "started = [SeReserve ''s'' ''d'' ''a'', SeLaunch ''s'' (Some ''r''), SeSaveNew ''s'' 1 True, SeRegister ''s'' [] None 2]"

definition after_events :: "session_event list \<Rightarrow> runtime_session" where
  "after_events es = run (session_step null_sdk small_config) new_runtime_session es"

lemma after_events_reachable:
  "fresh_run null_sdk small_config new_runtime_session es \<Longrightarrow> reachable null_sdk small_config (after_events es)"
  unfolding after_events_def by (rule reachable_run [OF reach_new])

section \<open>Properties\<close>

text \<open>
  C31: A device never has more agents than its limit: the launches in flight plus the registered sessions that
  are neither being torn down nor about to be replaced stay within \<^verbatim>\<open>MaxSessionsPerDevice\<close>, whatever order
  creations, restarts, closes, crashes and the reaper run in.\<close>

theorem session_quota:
  assumes "reachable u c rs" "0 < sc_max_per_device c"
  shows "int (rs_launching rs dev + length (filter (counts rs dev) (rs_registry rs))) \<le> sc_max_per_device c"
  using inv_parts(5) [OF reachable_inv [OF assms(1)] assms(2)] by (simp add: quota_count_def)

theorem session_quota_witness:
  "int (rs_launching (after_events (started @ [SeRestart ''t'' ''r'' ''d'' ''a'', SeReserve ''x'' ''d'' ''a''])) ''d'' +
     length (filter (counts (after_events (started @ [SeRestart ''t'' ''r'' ''d'' ''a'', SeReserve ''x'' ''d'' ''a''])) ''d'')
       (rs_registry (after_events (started @ [SeRestart ''t'' ''r'' ''d'' ''a'', SeReserve ''x'' ''d'' ''a'']))))) \<le> 1 \<and>
   rs_launching (after_events (started @ [SeRestart ''t'' ''r'' ''d'' ''a'', SeReserve ''x'' ''d'' ''a''])) ''d'' = 1"
proof -
  let ?es = "started @ [SeRestart ''t'' ''r'' ''d'' ''a'', SeReserve ''x'' ''d'' ''a'']"
  have "fresh_run null_sdk small_config new_runtime_session ?es" by code_simp
  then have r: "reachable null_sdk small_config (after_events ?es)" by (rule after_events_reachable)
  have "rs_launching (after_events ?es) ''d'' = 1" by code_simp
  with session_quota [OF r, of "''d''"] show ?thesis by (simp add: small_config_def)
qed

text \<open>
  C5: The service loses track of no agent process: in every reachable state each running process was stopped
  already, or it is the process of a creation in flight, of a session that is still in the registry (where
  \<^verbatim>\<open>CloseSession\<close>, \<^verbatim>\<open>RestartSession\<close>, the reaper and \<^verbatim>\<open>Shutdown\<close> find it), or of a session whose close is between
  its marking and its stop or that the shutdown has collected and not stopped yet. Failed saves, a shutdown
  during a creation and crashes are among the steps. That a registered session is ever closed is not said:
  \<open>failed_attach_never_reaped\<close> below shows one the reaper never takes.\<close>

theorem no_orphan_process:
  assumes "reachable u c rs" "rid \<in> set (rs_running rs)"
  shows "rid \<in> set (rs_stopped rs) \<or>
     (\<exists>sid cr. map_of (rs_creating rs) sid = Some cr \<and> (cr_stage cr = Launched rid \<or> (\<exists>t. cr_stage cr = Saved rid t))) \<or>
     (\<exists>sid s. rs_heap rs sid = Some s \<and> se_runtime s = rid \<and>
        (sid \<in> set (rs_registry rs) \<or> map_of (rs_closing rs) sid = Some CloseMarked \<or> map_of (rs_closing rs) sid = Some CloseUnregistered \<or>
         (sid \<in> set (rs_shutting rs) \<and> \<not> se_stopping s)))"
  using inv_parts(4) [OF reachable_inv [OF assms(1)] assms(2)] unfolding owned_def launches_def tearing_def by blast

theorem no_orphan_process_witness:
  "''r'' \<in> set (rs_running (after_events (started @ [SeClose ''s'' ''d'', SeCloseBegin ''s'' False, SeCloseUnregister ''s'' 5]))) \<and>
   (let rs = after_events (started @ [SeClose ''s'' ''d'', SeCloseBegin ''s'' False, SeCloseUnregister ''s'' 5]) in
     ''r'' \<in> set (rs_stopped rs) \<or>
     (\<exists>sid cr. map_of (rs_creating rs) sid = Some cr \<and> (cr_stage cr = Launched ''r'' \<or> (\<exists>t. cr_stage cr = Saved ''r'' t))) \<or>
     (\<exists>sid s. rs_heap rs sid = Some s \<and> se_runtime s = ''r'' \<and>
        (sid \<in> set (rs_registry rs) \<or> map_of (rs_closing rs) sid = Some CloseMarked \<or> map_of (rs_closing rs) sid = Some CloseUnregistered \<or>
         (sid \<in> set (rs_shutting rs) \<and> \<not> se_stopping s))))"
proof -
  let ?es = "started @ [SeClose ''s'' ''d'', SeCloseBegin ''s'' False, SeCloseUnregister ''s'' 5]"
  have "fresh_run null_sdk small_config new_runtime_session ?es" by code_simp
  then have r: "reachable null_sdk small_config (after_events ?es)" by (rule after_events_reachable)
  have m: "''r'' \<in> set (rs_running (after_events ?es))" by code_simp
  from no_orphan_process [OF r m] m show ?thesis unfolding Let_def by blast
qed

text \<open>
  C32: A shutdown leaves no agent behind: once \<^verbatim>\<open>Shutdown\<close> has marked the service closed, every running process was
  stopped as soon as no creation is in flight, the sessions it drained are stopped and the closes under way have
  reached their stop.\<close>

theorem shutdown_leaves_no_agent:
  assumes "reachable u c rs" "rs_closed rs" "rs_creating rs = []" "rs_shutting rs = []"
    and "list_all (\<lambda>e. snd e = CloseStopped) (rs_closing rs)"
  shows "list_all (\<lambda>rid. rid \<in> set (rs_stopped rs)) (rs_running rs)"
  unfolding list_all_iff
proof
  fix rid assume "rid \<in> set (rs_running rs)"
  from inv_parts(4) [OF reachable_inv [OF assms(1)] this] show "rid \<in> set (rs_stopped rs)"
  proof (cases rule: ownedE)
    case (3 sid s)
    then show ?thesis using reachable_closed [OF assms(1)] assms(2) by simp
  next
    case (4 sid s)
    then obtain st where "(sid, st) \<in> set (rs_closing rs)" "st \<noteq> CloseStopped" by (auto simp: tearing_def dest: map_of_SomeD)
    then show ?thesis using assms(5) by (auto simp: list_all_iff)
  qed (use assms(3,4) in auto)
qed

definition stopped_down :: "session_event list" where
  "stopped_down = started @ [SeShutdown, SeShutdownStop ''s'', SeReserve ''x'' ''e'' ''a'']"

theorem shutdown_leaves_no_agent_witness:
  "rs_running (after_events stopped_down) = [''r''] \<and>
   list_all (\<lambda>rid. rid \<in> set (rs_stopped (after_events stopped_down))) (rs_running (after_events stopped_down))"
proof -
  have "fresh_run null_sdk small_config new_runtime_session stopped_down" by code_simp
  then have r: "reachable null_sdk small_config (after_events stopped_down)" by (rule after_events_reachable)
  have "rs_closed (after_events stopped_down)" "rs_creating (after_events stopped_down) = []" "rs_shutting (after_events stopped_down) = []"
    "rs_closing (after_events stopped_down) = []" "rs_running (after_events stopped_down) = [''r'']" by code_simp+
  with shutdown_leaves_no_agent [OF r] show ?thesis by simp
qed

text \<open>
  An attach token opens only the session it was minted for: \<^verbatim>\<open>AttachClient\<close> never finds a token of another device's
  session (its device check cannot fail), and when it succeeds the presented token was minted for this session and the
  session's own device, is in time, is gone afterwards, and the session is registered and neither failed nor closing.\<close>

theorem attach_opens_own_session:
  assumes "reachable u c rs" "attach_client sid token now1 now2 rs = (t, res)"
  shows "res \<noteq> Inl ErrDeviceMismatch \<and>
    (\<forall>rid gen. res = Inr (rid, gen) \<longrightarrow>
       (\<exists>cl s. (token, cl) \<in> set (tk_tokens (rs_tokens rs)) \<and> cl_session cl = sid \<and> now2 \<le> cl_expires cl \<and>
          registered sid rs = Some s \<and> se_device s = cl_device cl \<and> se_runtime s = rid \<and> is_live s \<and>
          map_of (tk_tokens (rs_tokens t)) token = None))"
proof -
  obtain tk r where v: "validate token now1 now2 (rs_tokens rs) = (tk, r)" by fastforce
  have gone: "map_of tk' token = None" if "fst (validate token now1 now2 (rs_tokens rs)) = tks" "tk_tokens tks = tk'" for tks tk'
    using claim_validate [of token now1 now2 "rs_tokens rs"] that by (auto simp: token_claim_def dest: fun_cong [of _ _ token])
  have reg: "registered sid (rs\<lparr>rs_tokens := tk\<rparr>) = registered sid rs" by (simp add: registered_def)
  show ?thesis
  proof (cases "\<exists>dev. r = Inr (sid, dev)")
    case False
    then have "res = Inl ErrAttachToken"
      using assms(2) by (auto simp: attach_client_def v Let_def split: sum.splits prod.splits if_splits)
    then show ?thesis by simp
  next
    case True
    then obtain dev where r: "r = Inr (sid, dev)" by blast
    from validate_claim [of token now1 now2 "rs_tokens rs" sid dev] obtain cl where
      cl: "(token, cl) \<in> set (tk_tokens (rs_tokens rs))" "cl_session cl = sid" "cl_device cl = dev" "now2 \<le> cl_expires cl"
      by (auto simp: v r)
    from reachable_tokens [OF assms(1)] cl obtain s0 where s0: "rs_heap rs sid = Some s0" "se_device s0 = dev"
      unfolding tokens_match_def by metis
    show ?thesis
    proof (cases "registered sid rs")
      case None
      then have "res = Inl ErrSessionNotFound" using assms(2) by (simp add: attach_client_def v r reg)
      then show ?thesis by simp
    next
      case (Some s)
      then have "s = s0" using s0 registered_heap [OF Some] by simp
      then have dev: "se_device s = dev" using s0 by simp
      have tk: "map_of (tk_tokens tk) token = None" by (rule gone [of tk]) (simp_all add: v)
      show ?thesis
      proof (cases "se_status s = SessFailed \<or> se_status s = SessClosing")
        case True
        then have "res = Inl ErrSessionNotActive" using assms(2) by (auto simp: attach_client_def v r reg Some dev)
        then show ?thesis by simp
      next
        case False
        then have "is_live s" by (cases "se_status s") (auto simp: is_live_def)
        moreover have "rs_tokens t = tk" "\<exists>gen. res = Inr (se_runtime s, gen)"
          using assms(2) False by (auto simp: attach_client_def v r reg Some dev Let_def put_session_def split: prod.splits)
        ultimately show ?thesis using cl dev Some tk by auto
      qed
    qed
  qed
qed

definition attachable :: "session_event list" where
  "attachable = [SeReserve ''s'' ''d'' ''a'', SeLaunch ''s'' (Some ''r''), SeSaveNew ''s'' 1 True, SeRegister ''s'' [] (Some ''k'') 2]"

theorem attach_opens_own_session_witness:
  "snd (attach_client ''s'' ''k'' 3 3 (after_events attachable)) = Inr (''r'', 1) \<and>
   (\<exists>cl s. (''k'', cl) \<in> set (tk_tokens (rs_tokens (after_events attachable))) \<and> cl_session cl = ''s'' \<and> 3 \<le> cl_expires cl \<and>
     registered ''s'' (after_events attachable) = Some s \<and> se_device s = cl_device cl \<and> se_runtime s = ''r'' \<and> is_live s \<and>
     map_of (tk_tokens (rs_tokens (fst (attach_client ''s'' ''k'' 3 3 (after_events attachable))))) ''k'' = None)"
proof -
  have "fresh_run null_sdk small_config new_runtime_session attachable" by code_simp
  then have r: "reachable null_sdk small_config (after_events attachable)" by (rule after_events_reachable)
  have a: "snd (attach_client ''s'' ''k'' 3 3 (after_events attachable)) = Inr (''r'', 1)" by code_simp
  from attach_opens_own_session [OF r surjective_pairing] a show ?thesis by blast
qed

text \<open>
  A crash is cleaned up once: when the process of a session that is not closing ended, the session leaves the
  registry, its row is deleted, every prompt the agent had not answered is recorded as failed, and the device is told
  of it by one notification unless the end was intended; other sessions keep their place and their rows.\<close>

theorem crash_reclaims:
  assumes "reachable u c rs" "map_of (rs_exiting rs) sid = Some intentional"
    and "registered sid rs = Some s" "se_status s \<noteq> SessClosing"
  shows "let t = exit_reclaim c sid now True rs;
      failed = map (\<lambda>p. turn_status (session_pump_config c s) (pq_prompt_session p) (pq_started p) StateFailed now)
        (snd (take_prompts (pm_ids (se_pump s))))
    in registered sid t = None \<and> map_of (rs_store t) sid = None \<and> map_of (rs_exiting t) sid = None \<and>
       rs_outcomes t = foldl record_turn (rs_outcomes rs) failed \<and>
       rs_pushes t = rs_pushes rs @ (if \<not> intentional \<and> se_device s \<noteq> [] \<and> sc_push c then [crash_push s] else []) \<and>
       (other \<noteq> sid \<longrightarrow> registered other t = registered other rs \<and> map_of (rs_store t) other = map_of (rs_store rs) other)"
proof -
  define r where "r = rs\<lparr>rs_exiting := AList.delete sid (rs_exiting rs)\<rparr>"
  define pm where "pm = finish_pending_turns (session_pump_config c s) now StateFailed (se_pump s)"
  define failed where "failed = map (\<lambda>p. turn_status (session_pump_config c s) (pq_prompt_session p) (pq_started p) StateFailed now)
    (snd (take_prompts (pm_ids (se_pump s))))"
  define u1 where "u1 = set_pump c (s\<lparr>se_status := SessFailed\<rparr>) pm r"
  have id: "se_id s = sid" using inv_id [OF reachable_inv [OF assms(1)]] registered_heap [OF assms(3)] by blast
  have reg: "registered sid r = Some s" using assms(3) by (simp add: registered_def r_def split: if_splits)
  have pm: "pm_outcomes pm = pm_outcomes (se_pump s) @ failed" "pm_pushes pm = pm_pushes (se_pump s)"
    by (simp_all add: pm_def failed_def finish_pending_turns_def session_pump_config_def split_beta Let_def)
  have u1: "rs_outcomes u1 = foldl record_turn (rs_outcomes rs) failed" "rs_pushes u1 = rs_pushes rs"
    "rs_heap u1 = (rs_heap rs)(sid \<mapsto> s\<lparr>se_status := SessFailed, se_pump := pm\<rparr>)" "rs_registry u1 = rs_registry rs"
    "rs_store u1 = rs_store rs" "rs_exiting u1 = AList.delete sid (rs_exiting rs)"
    by (simp_all add: u1_def set_pump_def Let_def pm put_session_def r_def id foldl_conv_fold)
  have t: "exit_reclaim c sid now True rs =
      (let rs2 = (unregister sid u1)\<lparr>rs_store := delete_session sid (rs_store u1)\<rparr>
       in if \<not> intentional \<and> se_device s \<noteq> [] then send_push c (crash_push s) rs2 else rs2)"
    using assms(2,4) reg by (simp add: exit_reclaim_def handle_process_exit_def r_def [symmetric] u1_def pm_def Let_def)
  show ?thesis
    unfolding t Let_def failed_def [symmetric]
    using u1 by (auto simp: unregister_def send_push_def registered_def delete_session_def delete_conv' crash_push_def
      agent_name_def)
qed

theorem crash_reclaims_witness:
  "registered ''s'' (exit_reclaim small_config ''s'' 9 True (after_events (started @ [SeExit ''s'' True]))) = None \<and>
   rs_pushes (exit_reclaim small_config ''s'' 9 True (after_events (started @ [SeExit ''s'' True]))) =
     rs_pushes (after_events (started @ [SeExit ''s'' True])) @
     [crash_push (the (registered ''s'' (after_events (started @ [SeExit ''s'' True]))))]"
proof -
  let ?rs = "after_events (started @ [SeExit ''s'' True])"
  have "fresh_run null_sdk small_config new_runtime_session (started @ [SeExit ''s'' True])" by code_simp
  then have r: "reachable null_sdk small_config ?rs" by (rule after_events_reachable)
  have e: "map_of (rs_exiting ?rs) ''s'' = Some False" by code_simp
  have s: "map_option se_status (registered ''s'' ?rs) = Some SessDisconnected" "map_option se_device (registered ''s'' ?rs) = Some ''d''"
    by code_simp+
  then obtain s where "registered ''s'' ?rs = Some s" "se_status s \<noteq> SessClosing" "se_device s = ''d''" by auto
  with crash_reclaims [OF r e this(1,2)] show ?thesis by (simp add: Let_def small_config_def)
qed

text \<open>
  A close can be undone in the table: \<^verbatim>\<open>AttachClient\<close> writes its row after it released the session, without looking
  whether the session is still registered (\<^verbatim>\<open>DetachClient\<close> looks). There is a reachable state in which the session is
  closed, its agent gone and nothing is left to do, while its row says that it is active.\<close>

theorem closed_session_row_active:
  "\<exists>rs r. reachable null_sdk small_config rs \<and> rs_registry rs = [] \<and> rs_running rs = [] \<and> rs_to_close rs = [] \<and>
     rs_closing rs = [] \<and> rs_exiting rs = [] \<and> rs_saving rs = [] \<and>
     map_of (rs_store rs) ''s'' = Some r \<and> rc_status r = SessActive"
proof -
  let ?es = "attachable @ [SeAttach ''s'' ''k'' 3 3, SeClose ''s'' ''d'', SeCloseBegin ''s'' True, SeCloseUnregister ''s'' 4,
     SeCloseStop ''s'' True, SeExit ''s'' False, SeReclaim ''s'' 5 True, SeCloseFinish ''s'' True, SeSave 0 True]"
  have "fresh_run null_sdk small_config new_runtime_session ?es" by code_simp
  then have "reachable null_sdk small_config (after_events ?es)" by (rule after_events_reachable)
  moreover have "rs_registry (after_events ?es) = []" "rs_running (after_events ?es) = []" "rs_to_close (after_events ?es) = []"
    "rs_closing (after_events ?es) = []" "rs_exiting (after_events ?es) = []" "rs_saving (after_events ?es) = []"
    "map_option rc_status (map_of (rs_store (after_events ?es)) ''s'') = Some SessActive" by code_simp+
  ultimately show ?thesis by auto
qed

text \<open>
  A failed save leaks an attach: when \<^verbatim>\<open>AttachClient\<close> claimed the session but its row could not be saved, the caller
  gets an error and no connection generation to detach, the session stays active without a client, and the reaper never
  takes it, at whatever time it runs.\<close>

theorem failed_attach_never_reaped:
  assumes "reachable u c rs" "snd (attach_client sid token now1 now2 rs) = Inr (rid, gen)" "sid \<notin> set (rs_to_close rs)"
  defines "t \<equiv> fst (attach_client sid token now1 now2 rs)"
  shows "snd (save_row (length (rs_saving rs)) False t) = Some ErrSessionStore \<and>
    (\<exists>s. registered sid (fst (save_row (length (rs_saving rs)) False t)) = Some s \<and> se_status s = SessActive \<and>
       ln_client (pm_link (se_pump s)) = None) \<and>
    sid \<notin> set (rs_to_close (reap_expired d now (fst (save_row (length (rs_saving rs)) False t))))"
proof -
  obtain tk r where v: "validate token now1 now2 (rs_tokens rs) = (tk, r)" by fastforce
  have reg: "registered sid (rs\<lparr>rs_tokens := tk\<rparr>) = registered sid rs" by (simp add: registered_def)
  obtain dev s where r: "r = Inr (sid, dev)" "registered sid rs = Some s" "se_device s = dev"
      "\<not> (se_status s = SessFailed \<or> se_status s = SessClosing)"
    using assms(2) by (auto simp: attach_client_def v Let_def reg split: sum.splits prod.splits if_splits option.splits)
  have id: "se_id s = sid" using inv_id [OF reachable_inv [OF assms(1)]] registered_heap [OF r(2)] by blast
  define s' where "s' = s\<lparr>se_pump := (se_pump s)\<lparr>pm_link := fst (attach (pm_link (se_pump s)))\<rparr>, se_status := SessActive, se_disconnected := None\<rparr>"
  define t' where "t' = fst (save_row (length (rs_saving rs)) False t)"
  have saving: "\<exists>row. rs_saving t = rs_saving rs @ [SaveAttach row]" and heap: "rs_heap t = (rs_heap rs)(sid \<mapsto> s')"
    and more: "rs_registry t = rs_registry rs" "rs_to_close t = rs_to_close rs"
    using r id by (simp_all add: t_def attach_client_def v reg Let_def split_beta put_session_def s'_def)
  from saving obtain row where row: "rs_saving t = rs_saving rs @ [SaveAttach row]" ..
  then have save: "save_row (length (rs_saving rs)) False t = (t\<lparr>rs_saving := rs_saving rs\<rparr>, Some ErrSessionStore)"
    by (simp add: save_row_def Let_def)
  then have t': "rs_heap t' = (rs_heap rs)(sid \<mapsto> s')" "rs_registry t' = rs_registry rs" "rs_to_close t' = rs_to_close rs"
    using heap more by (simp_all add: t'_def)
  have "\<not> reap_due d now s'" by (simp add: reap_due_def s'_def)
  then have "sid \<notin> set (rs_to_close (reap_expired d now t'))" using assms(3) t' by (simp add: reap_expired_def Let_def)
  moreover have "registered sid t' = Some s'" using registered_heap [OF r(2)] t' by (simp add: registered_def)
  moreover have "ln_client (pm_link (se_pump s')) = None"
    by (simp add: s'_def attach_def Let_def close_conn_def stop_writer_def split: option.split)
  ultimately show ?thesis using save by (auto simp: t'_def s'_def)
qed

theorem failed_attach_never_reaped_witness:
  "snd (save_row 0 False (fst (attach_client ''s'' ''k'' 3 3 (after_events attachable)))) = Some ErrSessionStore \<and>
   ''s'' \<notin> set (rs_to_close (reap_expired minute (1000 * hour)
     (fst (save_row 0 False (fst (attach_client ''s'' ''k'' 3 3 (after_events attachable)))))))"
proof -
  have "fresh_run null_sdk small_config new_runtime_session attachable" by code_simp
  then have r: "reachable null_sdk small_config (after_events attachable)" by (rule after_events_reachable)
  have a: "snd (attach_client ''s'' ''k'' 3 3 (after_events attachable)) = Inr (''r'', 1)" by code_simp
  have n: "''s'' \<notin> set (rs_to_close (after_events attachable))" "length (rs_saving (after_events attachable)) = 0" by code_simp+
  from failed_attach_never_reaped [OF r a n(1)] n(2) show ?thesis by simp
qed

end
