(* ===== verification/Supervisor.thy ===== *)
theory Supervisor
  imports Go_Text
begin

text \<open>
  The runtime supervisor: \<^verbatim>\<open>internal/runtime/supervisor.go\<close> and \<^verbatim>\<open>spare.go\<close>, with the \<^verbatim>\<open>runtimes\<close> and
  \<^verbatim>\<open>runtime_failures\<close> tables of \<^verbatim>\<open>internal/storage/runtimes.go\<close>.

  \<open>sv_procs\<close> holds the \<^verbatim>\<open>Process\<close> objects under the random runtime id they were spawned with. A goroutine
  the supervisor starts is in the state while it runs: \<open>sv_booting\<close> for \<^verbatim>\<open>refillSpare\<close>, \<open>sv_discarding\<close> for
  \<^verbatim>\<open>Discard\<close>. \<open>sv_handed\<close>, \<open>sv_lent\<close> and \<open>sv_stopped\<close> record what \<^verbatim>\<open>Launch\<close> and \<^verbatim>\<open>Spawn\<close> returned and what was stopped.
  The operating system (paths, \<^verbatim>\<open>LookPath\<close>, the environment) and the installer are arguments; the clock, the
  random ids, whether a process starts and whether a write reaches the store are arguments of the steps.
\<close>

section \<open>Data\<close>

datatype supervisor_error =
    ErrRuntimeNotFound
  | ErrAgentNotDetected
  | ErrRemoteStartNotAllowed
  | ErrUnsupportedLaunch
  | ErrExecutableNotFound string
  | ErrRuntimeNotRunning
  | ErrInstall string
  | ErrSpawn

datatype runtime_status = RunStarting | RunRunning | RunStopped | RunFailed

definition stopped_runtime_retention :: duration where "stopped_runtime_retention = 10 * minute"
definition max_log_message_bytes :: nat where "max_log_message_bytes = 8 * 1024"
definition max_log_entries :: nat where "max_log_entries = 200"
definition max_runtime_failure_records :: nat where "max_runtime_failure_records = 200"

record launch_config =
  lc_mode :: string
  lc_command :: string
  lc_args :: "string list"

record agent =
  ag_id :: string
  ag_name :: string
  ag_detected :: bool
  ag_remote :: bool
  ag_launch :: launch_config

record runtime =
  rt_id :: string
  rt_agent :: string
  rt_name :: string
  rt_status :: runtime_status
  rt_created :: gtime
  rt_pid :: int
  rt_command :: string
  rt_last_error :: string
  rt_detected :: bool
  rt_mode :: string
  rt_failure_at :: gtime
  rt_stopped_at :: gtime

record log_entry =
  le_time :: gtime
  le_stream :: string
  le_message :: string

record failure_summary =
  fs_runtime :: string
  fs_agent :: string
  fs_name :: string
  fs_error :: string
  fs_created :: gtime
  fs_failed :: gtime
  fs_lines :: "log_entry list"
  fs_clean :: bool

record summary =
  sm_total :: nat
  sm_starting :: nat
  sm_running :: nat
  sm_stopped :: nat
  sm_failed :: nat
  sm_failures :: "failure_summary list"

record connect_descriptor =
  cd_runtime :: string
  cd_agent :: string
  cd_protocol :: string
  cd_path :: string

record process =
  pr_runtime :: runtime
  pr_dir :: string
  pr_args :: "string list"
  pr_env :: "string list"
  pr_key :: string
  pr_done :: bool

record spare =
  sp_ident :: nat
  sp_proc :: "string option"

record runtime_record =
  rr_runtime :: string
  rr_agent :: string
  rr_name :: string
  rr_status :: runtime_status
  rr_command :: string
  rr_pid :: int
  rr_error :: string
  rr_created :: gtime

text \<open>The log preview of a row is JSON text: blank, decodable, or something else.\<close>

datatype log_preview = PreviewBlank | PreviewLines "log_entry list" | PreviewGarbled

record failure_record =
  fr_runtime :: string
  fr_agent :: string
  fr_name :: string
  fr_error :: string
  fr_created :: gtime
  fr_failed :: gtime
  fr_preview :: log_preview
  fr_clean :: bool

record runtime_tables =
  tb_runtimes :: "(string \<times> runtime_record) list"
  tb_failures :: "failure_record list"

record supervisor =
  sv_runtimes :: "(string \<times> runtime) list"
  sv_logs :: "(string \<times> log_entry list) list"
  sv_store :: "runtime_tables option"
  sv_spares :: "(string \<times> spare) list option"
  sv_closed :: bool
  sv_procs :: "string \<rightharpoonup> process"
  sv_booting :: "(nat \<times> agent) list"
  sv_discarding :: "string list"
  sv_handed :: "string list"
  sv_lent :: "string list"
  sv_stopped :: "string list"
  sv_next :: nat

definition new_supervisor :: "runtime_tables option \<Rightarrow> supervisor" where
  "new_supervisor store = \<lparr>sv_runtimes = [], sv_logs = [], sv_store = store, sv_spares = None, sv_closed = False,
     sv_procs = Map.empty, sv_booting = [], sv_discarding = [], sv_handed = [], sv_lent = [], sv_stopped = [], sv_next = 0\<rparr>"

section \<open>The operating system and the installer\<close>

record os_env =
  os_abs :: "string \<Rightarrow> bool"
  os_base :: string
  os_join :: "string \<Rightarrow> string \<Rightarrow> string"
  os_make_abs :: "string \<Rightarrow> string option"
  os_dir :: "string \<Rightarrow> string"
  os_exists :: "string \<Rightarrow> bool"
  os_look_path :: "string \<Rightarrow> string option"
  os_cwd :: "string option"
  os_environ :: "string list"

record installer =
  in_ensure :: "agent \<Rightarrow> string + agent"
  in_npm :: "agent \<Rightarrow> agent"

definition prepare_agent :: "installer option \<Rightarrow> agent \<Rightarrow> supervisor_error + agent" where
  "prepare_agent ins a =
     (let acquired = (case ins of
          Some i \<Rightarrow> if ag_detected a then Inr a else (case in_ensure i a of Inl e \<Rightarrow> Inl (ErrInstall e) | Inr b \<Rightarrow> Inr b)
        | None \<Rightarrow> Inr a)
      in case acquired of
          Inl e \<Rightarrow> Inl e
        | Inr b \<Rightarrow>
            let c = (case ins of Some i \<Rightarrow> in_npm i b | None \<Rightarrow> b) in
            if \<not> ag_detected c then Inl ErrAgentNotDetected
            else if \<not> ag_remote c then Inl ErrRemoteStartNotAllowed
            else if lc_mode (ag_launch c) \<noteq> ''process'' \<and> lc_mode (ag_launch c) \<noteq> ''external'' then Inl ErrUnsupportedLaunch
            else Inr c)"

definition resolve_command_path :: "os_env \<Rightarrow> string \<Rightarrow> string" where
  "resolve_command_path os command =
     (if os_abs os command then command
      else let resolved = os_join os (os_base os) command
           in case os_make_abs os resolved of None \<Rightarrow> resolved | Some p \<Rightarrow> p)"

definition resolve_launch :: "os_env \<Rightarrow> launch_config \<Rightarrow> supervisor_error + string \<times> string" where
  "resolve_launch os l =
     (if lc_mode l = ''process'' then
        (let path = resolve_command_path os (lc_command l)
         in if os_exists os path then Inr (path, os_dir os path) else Inl (ErrExecutableNotFound path))
      else if lc_mode l = ''external'' then
        (case os_look_path os (lc_command l) of
           None \<Rightarrow> Inl (ErrExecutableNotFound (lc_command l))
         | Some path \<Rightarrow> Inr (path, case os_cwd os of None \<Rightarrow> ''.'' | Some d \<Rightarrow> d))
      else Inl ErrUnsupportedLaunch)"

definition spare_key :: "string \<Rightarrow> string \<Rightarrow> string list \<Rightarrow> string" where
  "spare_key command dir args = join_strings [CHR 0x00] (command # dir # args)"

definition base_env :: "string list \<Rightarrow> (string \<times> string) list" where
  "base_env base = fold (\<lambda>e m. case cut_at (CHR ''='') e of None \<Rightarrow> m | Some (k, v) \<Rightarrow> AList.update k v m) base []"

definition merge_process_env :: "string list \<Rightarrow> (string \<times> string) list \<Rightarrow> string list" where
  "merge_process_env base overrides =
     (if overrides = [] then base
      else sort (map (\<lambda>(k, v). k @ ''='' @ v) (fold (\<lambda>(k, v). AList.update k v) overrides (base_env base))))"

section \<open>The store\<close>

definition save_runtime :: "runtime_record \<Rightarrow> runtime_tables \<Rightarrow> runtime_tables" where
  "save_runtime r t = t\<lparr>tb_runtimes := AList.update (rr_runtime r) r (tb_runtimes t)\<rparr>"

text \<open>
  Rows are kept in the order of their ids, oldest first; the ordering by \<^verbatim>\<open>failed_at\<close> ranks a later row before
  an earlier one of the same time.\<close>

definition newest_first :: "failure_record list \<Rightarrow> failure_record list" where
  "newest_first rows = sort_key (\<lambda>r. - fr_failed r) (rev rows)"

definition save_runtime_failure :: "failure_record \<Rightarrow> runtime_tables \<Rightarrow> runtime_tables" where
  "save_runtime_failure r t =
     (let rows = zip [0..<Suc (length (tb_failures t))] (tb_failures t @ [r]);
          kept = map fst (take max_runtime_failure_records (sort_key (\<lambda>(i, r). - fr_failed r) (rev rows)))
      in t\<lparr>tb_failures := map snd (filter (\<lambda>(i, r). i \<in> set kept) rows)\<rparr>)"

definition list_failure_records :: "int \<Rightarrow> bool \<Rightarrow> runtime_tables \<Rightarrow> failure_record list" where
  "list_failure_records limit clean t =
     take (nat (if limit \<le> 0 then 5 else limit)) (newest_first (filter (\<lambda>r. clean \<or> \<not> fr_clean r) (tb_failures t)))"

definition list_recent_failures :: "int \<Rightarrow> runtime_tables \<Rightarrow> failure_record list" where
  "list_recent_failures limit t = list_failure_records limit False t"

definition persist_runtime :: "bool \<Rightarrow> runtime \<Rightarrow> supervisor \<Rightarrow> supervisor" where
  "persist_runtime ok rt s =
     (case sv_store s of
        None \<Rightarrow> s
      | Some t \<Rightarrow> if \<not> ok then s
          else s\<lparr>sv_store := Some (save_runtime \<lparr>rr_runtime = rt_id rt, rr_agent = rt_agent rt, rr_name = rt_name rt,
                 rr_status = rt_status rt, rr_command = rt_command rt, rr_pid = rt_pid rt, rr_error = rt_last_error rt,
                 rr_created = rt_created rt\<rparr> t)\<rparr>)"

definition persist_failure :: "bool \<Rightarrow> string \<Rightarrow> runtime \<Rightarrow> log_entry list \<Rightarrow> gtime \<Rightarrow> supervisor \<Rightarrow> supervisor" where
  "persist_failure ok rid rt entries at s =
     (case sv_store s of
        None \<Rightarrow> s
      | Some t \<Rightarrow> if \<not> ok then s
          else s\<lparr>sv_store := Some (save_runtime_failure \<lparr>fr_runtime = rid, fr_agent = rt_agent rt, fr_name = rt_name rt,
                 fr_error = rt_last_error rt, fr_created = rt_created rt, fr_failed = at, fr_preview = PreviewLines entries,
                 fr_clean = False\<rparr> t)\<rparr>)"

definition persist_clean_exit :: "bool \<Rightarrow> string \<Rightarrow> runtime \<Rightarrow> log_entry list \<Rightarrow> gtime \<Rightarrow> supervisor \<Rightarrow> supervisor" where
  "persist_clean_exit ok rid rt entries at s =
     (case sv_store s of
        None \<Rightarrow> s
      | Some t \<Rightarrow> if \<not> ok then s
          else s\<lparr>sv_store := Some (save_runtime_failure \<lparr>fr_runtime = rid, fr_agent = rt_agent rt, fr_name = rt_name rt,
                 fr_error = ''exit status 0 (clean)'', fr_created = rt_created rt, fr_failed = at,
                 fr_preview = PreviewLines entries, fr_clean = True\<rparr> t)\<rparr>)"

section \<open>Logs\<close>

text \<open>The suffix is the UTF-8 ellipsis followed by the word in brackets.\<close>

definition truncation_mark :: string where
  "truncation_mark = [CHR 0xE2, CHR 0x80, CHR 0xA6] @ ''[truncated]''"

definition cap_entry :: "log_entry \<Rightarrow> log_entry" where
  "cap_entry e =
     (if max_log_message_bytes < length (le_message e)
      then e\<lparr>le_message := take max_log_message_bytes (le_message e) @ truncation_mark\<rparr> else e)"

definition log_ring :: "string \<Rightarrow> supervisor \<Rightarrow> log_entry list" where
  "log_ring rid s = (case map_of (sv_logs s) rid of None \<Rightarrow> [] | Some es \<Rightarrow> es)"

definition append_entry :: "string \<Rightarrow> log_entry \<Rightarrow> supervisor \<Rightarrow> supervisor" where
  "append_entry rid e s =
     (let entries = log_ring rid s @ [cap_entry e];
          entries' = (if max_log_entries < length entries then drop (length entries - max_log_entries) entries else entries)
      in s\<lparr>sv_logs := AList.update rid entries' (sv_logs s)\<rparr>)"

definition append_log :: "string \<Rightarrow> string \<Rightarrow> string \<Rightarrow> gtime \<Rightarrow> supervisor \<Rightarrow> supervisor" where
  "append_log rid stream message now s =
     (if list_all is_space rid then s
      else append_entry rid \<lparr>le_time = now, le_stream = stream, le_message = message\<rparr> s)"

definition last_log_entries :: "log_entry list \<Rightarrow> int \<Rightarrow> log_entry list" where
  "last_log_entries es limit =
     (if limit \<le> 0 \<or> es = [] then [] else if limit < int (length es) then drop (length es - nat limit) es else es)"

definition recent_logs :: "string \<Rightarrow> int \<Rightarrow> supervisor \<Rightarrow> log_entry list" where
  "recent_logs rid limit s = last_log_entries (log_ring rid s) limit"

text \<open>
  \<^verbatim>\<open>captureLogs\<close> over the lines of the stream, each with the clock when it is read: \<^verbatim>\<open>bufio.Scanner\<close> drops one
  carriage return at the end of a line and gives up at a line that does not fit its buffer.\<close>

definition max_scan_bytes :: nat where "max_scan_bytes = 1024 * 1024"

definition drop_cr :: "string \<Rightarrow> string" where
  "drop_cr line = (if line \<noteq> [] \<and> last line = CHR 0x0D then butlast line else line)"

fun capture_logs :: "string \<Rightarrow> string \<Rightarrow> (string \<times> gtime) list \<Rightarrow> supervisor \<Rightarrow> supervisor" where
  "capture_logs rid stream [] s = s"
| "capture_logs rid stream ((line, now) # lines) s =
     (if max_scan_bytes \<le> length line
      then append_entry rid \<lparr>le_time = now, le_stream = stream, le_message = ''log stream error: bufio.Scanner: token too long''\<rparr> s
      else capture_logs rid stream lines (append_entry rid \<lparr>le_time = now, le_stream = stream, le_message = drop_cr line\<rparr> s))"

section \<open>Processes\<close>

definition put_process :: "process \<Rightarrow> supervisor \<Rightarrow> supervisor" where
  "put_process p s = s\<lparr>sv_procs := (sv_procs s)(rt_id (pr_runtime p) \<mapsto> p)\<rparr>"

text \<open>\<^verbatim>\<open>spawn\<close>: \<open>started\<close> is the id drawn and the pid, or \<open>None\<close> when a pipe or the start fails.\<close>

definition spawn ::
  "os_env \<Rightarrow> (string \<times> int) option \<Rightarrow> agent \<Rightarrow> (string \<times> string) list \<Rightarrow> supervisor \<Rightarrow> supervisor \<times> (supervisor_error + string)" where
  "spawn os started a env s =
     (case resolve_launch os (ag_launch a) of
        Inl e \<Rightarrow> (s, Inl e)
      | Inr (command, dir) \<Rightarrow>
          (case started of
             None \<Rightarrow> (s, Inl ErrSpawn)
           | Some (rid, pid) \<Rightarrow>
               (put_process
                  \<lparr>pr_runtime = \<lparr>rt_id = rid, rt_agent = ag_id a, rt_name = ag_name a, rt_status = RunStarting,
                     rt_created = zero_time, rt_pid = pid, rt_command = command, rt_last_error = [], rt_detected = ag_detected a,
                     rt_mode = lc_mode (ag_launch a), rt_failure_at = zero_time, rt_stopped_at = zero_time\<rparr>,
                   pr_dir = dir, pr_args = lc_args (ag_launch a), pr_env = merge_process_env (os_environ os) env,
                   pr_key = spare_key command dir (lc_args (ag_launch a)), pr_done = False\<rparr> s, Inr rid)))"

text \<open>\<^verbatim>\<open>register\<close>; between its two locked sections the runtime is listed as starting.\<close>

definition register :: "string \<Rightarrow> gtime \<Rightarrow> bool \<times> bool \<Rightarrow> supervisor \<Rightarrow> supervisor" where
  "register rid now ok s =
     (case sv_procs s rid of
        None \<Rightarrow> s
      | Some p \<Rightarrow>
          let rt1 = (pr_runtime p)\<lparr>rt_status := RunStarting, rt_created := now\<rparr>;
              s1 = persist_runtime (fst ok) rt1 (s\<lparr>sv_runtimes := AList.update rid rt1 (sv_runtimes s)\<rparr>);
              rt2 = rt1\<lparr>rt_status := RunRunning\<rparr>;
              s2 = persist_runtime (snd ok) rt2 (s1\<lparr>sv_runtimes := AList.update rid rt2 (sv_runtimes s1)\<rparr>)
          in put_process (p\<lparr>pr_runtime := rt2\<rparr>) s2)"

definition hand_over :: "string \<Rightarrow> supervisor \<Rightarrow> supervisor" where
  "hand_over rid s = s\<lparr>sv_handed := rid # sv_handed s\<rparr>"

definition launch_process ::
  "os_env \<Rightarrow> (string \<times> int) option \<Rightarrow> agent \<Rightarrow> (string \<times> string) list \<Rightarrow> gtime \<Rightarrow> bool \<times> bool \<Rightarrow> supervisor \<Rightarrow>
     supervisor \<times> (supervisor_error + string)" where
  "launch_process os started a env now ok s =
     (case spawn os started a env s of
        (s1, Inl e) \<Rightarrow> (s1, Inl e)
      | (s1, Inr rid) \<Rightarrow> (hand_over rid (register rid now ok s1), Inr rid))"

section \<open>Spares\<close>

definition enable_spares :: "supervisor \<Rightarrow> supervisor" where
  "enable_spares s = (if sv_spares s = None then s\<lparr>sv_spares := Some []\<rparr> else s)"

definition spare_of :: "string \<Rightarrow> supervisor \<Rightarrow> spare option" where
  "spare_of agent_id s = (case sv_spares s of None \<Rightarrow> None | Some m \<Rightarrow> map_of m agent_id)"

definition drop_spare :: "string \<Rightarrow> supervisor \<Rightarrow> supervisor" where
  "drop_spare agent_id s = s\<lparr>sv_spares := map_option (AList.delete agent_id) (sv_spares s)\<rparr>"

definition start_discard :: "string \<Rightarrow> supervisor \<Rightarrow> supervisor" where
  "start_discard rid s = s\<lparr>sv_discarding := rid # sv_discarding s\<rparr>"

definition claim_spare :: "os_env \<Rightarrow> agent \<Rightarrow> gtime \<Rightarrow> bool \<times> bool \<Rightarrow> supervisor \<Rightarrow> supervisor \<times> string option" where
  "claim_spare os a now ok s =
     (case resolve_launch os (ag_launch a) of
        Inl _ \<Rightarrow> (s, None)
      | Inr (command, dir) \<Rightarrow>
          (case spare_of (ag_id a) s of
             None \<Rightarrow> (s, None)
           | Some sp \<Rightarrow>
               (case sp_proc sp of
                  None \<Rightarrow> (s, None)
                | Some rid \<Rightarrow>
                    let s1 = drop_spare (ag_id a) s in
                    case sv_procs s1 rid of
                      None \<Rightarrow> (s1, None)
                    | Some p \<Rightarrow>
                        if \<not> pr_done p \<and> pr_key p = spare_key command dir (lc_args (ag_launch a))
                        then (hand_over rid (register rid now ok
                               (put_process (p\<lparr>pr_runtime := (pr_runtime p)\<lparr>rt_name := ag_name a\<rparr>\<rparr>) s1)), Some rid)
                        else (start_discard rid s1, None))))"

definition refill_spare :: "agent \<Rightarrow> supervisor \<Rightarrow> supervisor" where
  "refill_spare a s =
     (case sv_spares s of
        None \<Rightarrow> s
      | Some m \<Rightarrow>
          if sv_closed s \<or> map_of m (ag_id a) \<noteq> None then s
          else s\<lparr>sv_spares := Some (AList.update (ag_id a) \<lparr>sp_ident = sv_next s, sp_proc = None\<rparr> m),
                 sv_booting := (sv_next s, a) # sv_booting s, sv_next := Suc (sv_next s)\<rparr>)"

text \<open>The end of the goroutine of \<^verbatim>\<open>refillSpare\<close>: its process started, or did not.\<close>

definition spare_booted :: "os_env \<Rightarrow> nat \<Rightarrow> (string \<times> int) option \<Rightarrow> supervisor \<Rightarrow> supervisor" where
  "spare_booted os ident started s =
     (case map_of (sv_booting s) ident of
        None \<Rightarrow> s
      | Some a \<Rightarrow>
          let s0 = s\<lparr>sv_booting := AList.delete ident (sv_booting s)\<rparr>;
              (s1, res) = spawn os started a [] s0;
              own = (case spare_of (ag_id a) s1 of None \<Rightarrow> False | Some sp \<Rightarrow> sp_ident sp = ident)
          in case res of
               Inl _ \<Rightarrow> if own then drop_spare (ag_id a) s1 else s1
             | Inr rid \<Rightarrow>
                 if sv_closed s1 \<or> \<not> own
                 then start_discard rid (if own then drop_spare (ag_id a) s1 else s1)
                 else s1\<lparr>sv_spares := map_option (AList.update (ag_id a) \<lparr>sp_ident = ident, sp_proc = Some rid\<rparr>) (sv_spares s1)\<rparr>)"

text \<open>The timer of a spare, armed when its process was up, fires.\<close>

definition spare_expired :: "string \<Rightarrow> nat \<Rightarrow> supervisor \<Rightarrow> supervisor" where
  "spare_expired agent_id ident s =
     (case spare_of agent_id s of
        None \<Rightarrow> s
      | Some sp \<Rightarrow> if sp_ident sp \<noteq> ident then s
          else (case sp_proc sp of None \<Rightarrow> s | Some rid \<Rightarrow> start_discard rid (drop_spare agent_id s)))"

text \<open>\<^verbatim>\<open>Discard\<close>: stop, then drop the log ring.\<close>

definition discard_process :: "string \<Rightarrow> supervisor \<Rightarrow> supervisor" where
  "discard_process rid s =
     s\<lparr>sv_discarding := removeAll rid (sv_discarding s), sv_stopped := rid # sv_stopped s, sv_logs := AList.delete rid (sv_logs s)\<rparr>"

definition close_supervisor :: "supervisor \<Rightarrow> supervisor" where
  "close_supervisor s =
     s\<lparr>sv_closed := True, sv_spares := None,
       sv_discarding := (case sv_spares s of None \<Rightarrow> [] | Some m \<Rightarrow> List.map_filter (\<lambda>e. sp_proc (snd e)) m) @ sv_discarding s\<rparr>"

section \<open>Launching\<close>

definition launch ::
  "os_env \<Rightarrow> installer option \<Rightarrow> agent \<Rightarrow> (string \<times> string) list \<Rightarrow> (string \<times> int) option \<Rightarrow> gtime \<Rightarrow> bool \<times> bool \<Rightarrow>
     supervisor \<Rightarrow> supervisor \<times> (supervisor_error + string)" where
  "launch os ins a env started now ok s =
     (case prepare_agent ins a of
        Inl e \<Rightarrow> (s, Inl e)
      | Inr prepared \<Rightarrow>
          if env \<noteq> [] then launch_process os started prepared env now ok s
          else
            let (s1, claimed) = claim_spare os prepared now ok s in
            case claimed of
              Some rid \<Rightarrow> (refill_spare prepared s1, Inr rid)
            | None \<Rightarrow>
                (case launch_process os started prepared [] now ok s1 of
                   (s2, Inl e) \<Rightarrow> (s2, Inl e)
                 | (s2, Inr rid) \<Rightarrow> (refill_spare prepared s2, Inr rid)))"

definition spawn_untracked ::
  "os_env \<Rightarrow> installer option \<Rightarrow> agent \<Rightarrow> (string \<times> int) option \<Rightarrow> supervisor \<Rightarrow> supervisor \<times> (supervisor_error + string)" where
  "spawn_untracked os ins a started s =
     (case prepare_agent ins a of
        Inl e \<Rightarrow> (s, Inl e)
      | Inr prepared \<Rightarrow>
          (case spawn os started prepared [] s of
             (s1, Inl e) \<Rightarrow> (s1, Inl e)
           | (s1, Inr rid) \<Rightarrow> (s1\<lparr>sv_lent := rid # sv_lent s1\<rparr>, Inr rid)))"

text \<open>The wait goroutine sees the process end.\<close>

definition process_ended :: "string \<Rightarrow> supervisor \<Rightarrow> supervisor" where
  "process_ended rid s =
     (case sv_procs s rid of None \<Rightarrow> s | Some p \<Rightarrow> put_process (p\<lparr>pr_done := True\<rparr>) s)"

section \<open>The end of a runtime\<close>

definition record_exit :: "string \<Rightarrow> string option \<Rightarrow> bool \<Rightarrow> gtime \<Rightarrow> bool \<times> bool \<Rightarrow> supervisor \<Rightarrow> supervisor" where
  "record_exit rid err intentional now ok s =
     (case map_of (sv_runtimes s) rid of
        None \<Rightarrow> s
      | Some rt \<Rightarrow>
          if intentional then
            let rt' = rt\<lparr>rt_status := RunStopped, rt_pid := 0, rt_stopped_at := now\<rparr>
            in persist_runtime (fst ok) rt' (s\<lparr>sv_runtimes := AList.update rid rt' (sv_runtimes s)\<rparr>)
          else (case err of
            Some e \<Rightarrow>
              let rt' = rt\<lparr>rt_status := RunFailed, rt_last_error := e, rt_pid := 0, rt_stopped_at := zero_time, rt_failure_at := now\<rparr>;
                  s1 = persist_runtime (fst ok) rt' (s\<lparr>sv_runtimes := AList.update rid rt' (sv_runtimes s)\<rparr>);
                  s2 = append_entry rid \<lparr>le_time = now, le_stream = ''gateway'', le_message = ''agent process exited unexpectedly: '' @ e\<rparr> s1
              in persist_failure (snd ok) rid rt' (recent_logs rid 5 s2) now s2
          | None \<Rightarrow>
              let rt' = rt\<lparr>rt_status := RunStopped, rt_pid := 0, rt_stopped_at := now\<rparr>;
                  s1 = persist_runtime (fst ok) rt' (s\<lparr>sv_runtimes := AList.update rid rt' (sv_runtimes s)\<rparr>);
                  s2 = append_entry rid \<lparr>le_time = now, le_stream = ''gateway'', le_message = ''agent process exited cleanly (exit code 0)''\<rparr> s1
              in persist_clean_exit (snd ok) rid rt' (recent_logs rid 5 s2) now s2))"

definition prunable :: "gtime \<Rightarrow> runtime \<Rightarrow> bool" where
  "prunable now rt =
     (let cutoff = now - stopped_runtime_retention in
      case rt_status rt of
        RunStopped \<Rightarrow> \<not> (rt_stopped_at rt = zero_time \<or> cutoff < rt_stopped_at rt)
      | RunFailed \<Rightarrow>
          let at = (if rt_failure_at rt = zero_time then rt_created rt else rt_failure_at rt)
          in \<not> (at = zero_time \<or> cutoff < at)
      | _ \<Rightarrow> False)"

definition prune_stopped :: "gtime \<Rightarrow> supervisor \<Rightarrow> supervisor" where
  "prune_stopped now s =
     (let gone = map fst (filter (\<lambda>e. prunable now (snd e)) (sv_runtimes s))
      in s\<lparr>sv_runtimes := filter (\<lambda>e. \<not> prunable now (snd e)) (sv_runtimes s),
           sv_logs := filter (\<lambda>e. fst e \<notin> set gone) (sv_logs s)\<rparr>)"

section \<open>Views\<close>

definition list_runtimes :: "gtime \<Rightarrow> supervisor \<Rightarrow> supervisor \<times> runtime list" where
  "list_runtimes now s =
     (let s1 = prune_stopped now s
      in (s1, sort_key (\<lambda>rt. (- rt_created rt, rt_id rt)) (map snd (sv_runtimes s1))))"

definition get_runtime :: "string \<Rightarrow> gtime \<Rightarrow> supervisor \<Rightarrow> supervisor \<times> (supervisor_error + runtime)" where
  "get_runtime rid now s =
     (let s1 = prune_stopped now s
      in (s1, case map_of (sv_runtimes s1) rid of None \<Rightarrow> Inl ErrRuntimeNotFound | Some rt \<Rightarrow> Inr rt))"

definition connect :: "string \<Rightarrow> gtime \<Rightarrow> supervisor \<Rightarrow> supervisor \<times> (supervisor_error + connect_descriptor)" where
  "connect rid now s =
     (let s1 = prune_stopped now s
      in (s1, case map_of (sv_runtimes s1) rid of
          None \<Rightarrow> Inl ErrRuntimeNotFound
        | Some rt \<Rightarrow> if rt_status rt \<noteq> RunRunning then Inl ErrRuntimeNotRunning
            else Inr \<lparr>cd_runtime = rt_id rt, cd_agent = rt_agent rt, cd_protocol = ''acp'', cd_path = ''/v1/acp/'' @ rt_id rt\<rparr>))"

definition runtime_logs :: "string \<Rightarrow> gtime \<Rightarrow> supervisor \<Rightarrow> supervisor \<times> (supervisor_error + log_entry list)" where
  "runtime_logs rid now s =
     (let s1 = prune_stopped now s
      in (s1, case map_of (sv_logs s1) rid of
          None \<Rightarrow> if map_of (sv_runtimes s1) rid \<noteq> None then Inr [] else Inl ErrRuntimeNotFound
        | Some es \<Rightarrow> Inr es))"

definition failure_sort_time :: "failure_summary \<Rightarrow> gtime" where
  "failure_sort_time f = (if fs_failed f \<noteq> zero_time then fs_failed f else fs_created f)"

definition failure_summary_from_record :: "failure_record \<Rightarrow> failure_summary" where
  "failure_summary_from_record r =
     \<lparr>fs_runtime = fr_runtime r, fs_agent = fr_agent r, fs_name = fr_name r, fs_error = fr_error r, fs_created = fr_created r,
      fs_failed = fr_failed r,
      fs_lines = (case fr_preview r of
          PreviewBlank \<Rightarrow> []
        | PreviewLines es \<Rightarrow> es
        | PreviewGarbled \<Rightarrow> [\<lparr>le_time = fr_failed r, le_stream = ''gateway'', le_message = ''failed to decode persisted log preview''\<rparr>]),
      fs_clean = fr_clean r\<rparr>"

definition live_failure :: "supervisor \<Rightarrow> string \<Rightarrow> runtime \<Rightarrow> failure_summary" where
  "live_failure s rid rt =
     \<lparr>fs_runtime = rid, fs_agent = rt_agent rt, fs_name = rt_name rt, fs_error = rt_last_error rt, fs_created = rt_created rt,
      fs_failed = rt_created rt, fs_lines = last_log_entries (log_ring rid s) 5, fs_clean = False\<rparr>"

definition count_status :: "(runtime_status \<Rightarrow> bool) \<Rightarrow> supervisor \<Rightarrow> nat" where
  "count_status P s = length (filter (\<lambda>e. P (rt_status (snd e))) (sv_runtimes s))"

text \<open>\<open>readable\<close>: the rows could be loaded.\<close>

definition summarize :: "gtime \<Rightarrow> bool \<Rightarrow> supervisor \<Rightarrow> supervisor \<times> summary" where
  "summarize now readable s =
     (let s1 = prune_stopped now s;
          live = map (\<lambda>(rid, rt). (rid, live_failure s1 rid rt)) (filter (\<lambda>e. rt_status (snd e) = RunFailed) (sv_runtimes s1));
          rows = (case sv_store s1 of None \<Rightarrow> [] | Some t \<Rightarrow> if readable then list_recent_failures 5 t else []);
          merged = fold (\<lambda>r m. if fr_clean r \<or> map_of m (fr_runtime r) \<noteq> None then m
                       else m @ [(fr_runtime r, failure_summary_from_record r)]) rows live;
          failures = sort_key (\<lambda>f. - failure_sort_time f) (map snd merged)
      in (s1, \<lparr>sm_total = length (sv_runtimes s1), sm_starting = count_status (\<lambda>st. st = RunStarting) s1,
               sm_running = count_status (\<lambda>st. st = RunRunning) s1, sm_stopped = count_status (\<lambda>st. st = RunStopped) s1,
               sm_failed = count_status (\<lambda>st. st = RunFailed) s1, sm_failures = take 5 failures\<rparr>))"

section \<open>Steps\<close>

datatype supervisor_event =
    SvEnable
  | SvLaunch agent "(string \<times> string) list" "(string \<times> int) option" gtime "bool \<times> bool"
  | SvSpawn agent "(string \<times> int) option"
  | SvBooted nat "(string \<times> int) option"
  | SvExpired string nat
  | SvDiscard string
  | SvRelease string
  | SvClose
  | SvEnded string
  | SvExit string "string option" bool gtime "bool \<times> bool"
  | SvLog string string string gtime
  | SvPrune gtime

text \<open>\<open>SvRelease\<close>: the caller of \<^verbatim>\<open>Spawn\<close> discards what it was handed.\<close>

fun supervisor_step :: "os_env \<Rightarrow> installer option \<Rightarrow> supervisor \<Rightarrow> supervisor_event \<Rightarrow> supervisor" where
  "supervisor_step os ins s SvEnable = enable_spares s"
| "supervisor_step os ins s (SvLaunch a env started now ok) = fst (launch os ins a env started now ok s)"
| "supervisor_step os ins s (SvSpawn a started) = fst (spawn_untracked os ins a started s)"
| "supervisor_step os ins s (SvBooted ident started) = spare_booted os ident started s"
| "supervisor_step os ins s (SvExpired agent_id ident) = spare_expired agent_id ident s"
| "supervisor_step os ins s (SvDiscard rid) = (if rid \<in> set (sv_discarding s) then discard_process rid s else s)"
| "supervisor_step os ins s (SvRelease rid) =
     (if rid \<in> set (sv_lent s) then discard_process rid s else s)"
| "supervisor_step os ins s SvClose = close_supervisor s"
| "supervisor_step os ins s (SvEnded rid) = process_ended rid s"
| "supervisor_step os ins s (SvExit rid err intentional now ok) = record_exit rid err intentional now ok s"
| "supervisor_step os ins s (SvLog rid stream message now) = append_log rid stream message now s"
| "supervisor_step os ins s (SvPrune now) = prune_stopped now s"

end
