(* ===== verification/Supervisor_Proofs.thy ===== *)
theory Supervisor_Proofs
  imports Supervisor
begin

text \<open>
  The supervisor over every interleaving of launches, booting spares, expiring timers, exits and shutdown: who owns
  a process, what a claimed spare is, how long a runtime is listed, what the log rings and the environment hold.
\<close>

section \<open>Freshness and runs\<close>

definition new_id :: "supervisor \<Rightarrow> (string \<times> int) option \<Rightarrow> bool" where
  "new_id s started \<longleftrightarrow> (case started of None \<Rightarrow> True | Some (rid, _) \<Rightarrow> sv_procs s rid = None)"

text \<open>The ids of processes are drawn fresh.\<close>

definition fresh_start :: "supervisor \<Rightarrow> supervisor_event \<Rightarrow> bool" where
  "fresh_start s e =
     (case e of SvLaunch _ _ started _ _ \<Rightarrow> new_id s started | SvSpawn _ started \<Rightarrow> new_id s started
      | SvBooted _ started \<Rightarrow> new_id s started | _ \<Rightarrow> True)"

primrec fresh_starts :: "os_env \<Rightarrow> installer option \<Rightarrow> supervisor \<Rightarrow> supervisor_event list \<Rightarrow> bool" where
  "fresh_starts os ins s [] = True"
| "fresh_starts os ins s (e # es) = (fresh_start s e \<and> fresh_starts os ins (supervisor_step os ins s e) es)"

section \<open>Ownership of processes\<close>

definition spare_map :: "supervisor \<Rightarrow> (string \<times> spare) list" where
  "spare_map s = (case sv_spares s of None \<Rightarrow> [] | Some m \<Rightarrow> m)"

lemma spare_of_map: "spare_of a s = map_of (spare_map s) a"
  by (simp add: spare_of_def spare_map_def split: option.split)

text \<open>What holds one process each: the spares, the discards under way, and the three logs.\<close>

definition held :: "supervisor \<Rightarrow> string \<Rightarrow> bool" where
  "held s rid \<longleftrightarrow> (\<exists>a sp. map_of (spare_map s) a = Some sp \<and> sp_proc sp = Some rid)"

definition released :: "supervisor \<Rightarrow> string set" where
  "released s = set (sv_discarding s) \<union> set (sv_stopped s)"

definition procs_ok :: "supervisor \<Rightarrow> bool" where
  "procs_ok s \<longleftrightarrow>
     (\<forall>rid p. sv_procs s rid = Some p \<longrightarrow> rt_id (pr_runtime p) = rid \<and>
        pr_key p = spare_key (rt_command (pr_runtime p)) (pr_dir p) (pr_args p)) \<and>
     (\<forall>rid rt. map_of (sv_runtimes s) rid = Some rt \<longrightarrow> sv_procs s rid \<noteq> None)"

text \<open>Every process has one owner; those in \<open>loose\<close> are between two owners.\<close>

definition owner_ok :: "string set \<Rightarrow> supervisor \<Rightarrow> bool" where
  "owner_ok loose s \<longleftrightarrow>
     (\<forall>rid. rid \<in> loose \<union> set (sv_handed s) \<union> set (sv_lent s) \<union> released s \<or> held s rid \<longleftrightarrow> sv_procs s rid \<noteq> None) \<and>
     distinct (sv_handed s) \<and>
     (\<forall>rid. rid \<in> set (sv_handed s) \<longrightarrow> rid \<notin> loose \<union> set (sv_lent s) \<union> released s) \<and>
     (\<forall>rid. held s rid \<longrightarrow> rid \<notin> loose \<union> set (sv_handed s) \<union> set (sv_lent s) \<union> released s) \<and>
     (\<forall>rid. rid \<in> loose \<longrightarrow> rid \<notin> set (sv_lent s) \<union> released s)"

definition spares_ok :: "os_env \<Rightarrow> supervisor \<Rightarrow> bool" where
  "spares_ok os s \<longleftrightarrow> keys_distinct (spare_map s) \<and> keys_distinct (sv_booting s) \<and>
     (sv_closed s \<longrightarrow> spare_map s = []) \<and>
     (\<forall>a sp. map_of (spare_map s) a = Some sp \<longrightarrow> sp_ident sp < sv_next s \<and>
        (sp_proc sp = None \<longrightarrow> (\<exists>b. map_of (sv_booting s) (sp_ident sp) = Some b \<and> ag_id b = a)) \<and>
        (sp_proc sp \<noteq> None \<longrightarrow> map_of (sv_booting s) (sp_ident sp) = None) \<and>
        (\<forall>rid. sp_proc sp = Some rid \<longrightarrow>
           (\<exists>p. sv_procs s rid = Some p \<and> rt_agent (pr_runtime p) = a \<and> pr_env p = os_environ os))) \<and>
     (\<forall>i a. map_of (sv_booting s) i = Some a \<longrightarrow> i < sv_next s) \<and>
     (\<forall>a a' sp sp'. map_of (spare_map s) a = Some sp \<longrightarrow> map_of (spare_map s) a' = Some sp' \<longrightarrow>
        (sp_ident sp = sp_ident sp' \<or> sp_proc sp \<noteq> None \<and> sp_proc sp = sp_proc sp') \<longrightarrow> a = a')"

definition sup_inv :: "os_env \<Rightarrow> string set \<Rightarrow> supervisor \<Rightarrow> bool" where
  "sup_inv os loose s \<longleftrightarrow> procs_ok s \<and> owner_ok loose s \<and> spares_ok os s"

lemma sup_inv_same:
  assumes "sup_inv os loose s"
    and "sv_procs t = sv_procs s" "sv_handed t = sv_handed s" "sv_lent t = sv_lent s" "released t = released s"
    and "sv_spares t = sv_spares s" "sv_booting t = sv_booting s" "sv_closed t = sv_closed s" "sv_next t = sv_next s"
    and "\<And>rid. map_of (sv_runtimes t) rid \<noteq> None \<Longrightarrow> map_of (sv_runtimes s) rid \<noteq> None \<or> sv_procs s rid \<noteq> None"
  shows "sup_inv os loose t"
proof -
  have eqs: "spare_map t = spare_map s" "held t = held s" using assms(6) by (auto simp: spare_map_def held_def fun_eq_iff)
  have "procs_ok t" using assms(1,2,10) unfolding sup_inv_def procs_ok_def by (metis option.exhaust option.distinct(1))
  moreover have "owner_ok loose t = owner_ok loose s" by (simp only: owner_ok_def eqs assms(2-9))
  moreover have "spares_ok os t = spares_ok os s" by (simp only: spares_ok_def eqs assms(2-9))
  ultimately show ?thesis using assms(1) by (simp add: sup_inv_def)
qed

text \<open>A process is replaced by one that was started alike.\<close>

lemma sup_inv_put:
  assumes "sup_inv os loose s" "sv_procs s rid = Some p"
    and "rt_id (pr_runtime p') = rid" "rt_command (pr_runtime p') = rt_command (pr_runtime p)" "rt_agent (pr_runtime p') = rt_agent (pr_runtime p)"
      "pr_dir p' = pr_dir p" "pr_args p' = pr_args p" "pr_env p' = pr_env p" "pr_key p' = pr_key p"
  shows "sup_inv os loose (put_process p' s)"
proof -
  let ?t = "put_process p' s"
  have f: "sv_procs ?t = (sv_procs s)(rid \<mapsto> p')" "spare_map ?t = spare_map s" "held ?t = held s" "released ?t = released s"
    using assms(3) by (auto simp: put_process_def spare_map_def held_def released_def fun_eq_iff)
  have g: "sv_handed ?t = sv_handed s" "sv_lent ?t = sv_lent s" "sv_booting ?t = sv_booting s" "sv_closed ?t = sv_closed s"
    "sv_next ?t = sv_next s" "sv_runtimes ?t = sv_runtimes s" by (simp_all add: put_process_def)
  have dom: "sv_procs ?t x \<noteq> None \<longleftrightarrow> sv_procs s x \<noteq> None" for x using assms(2) by (simp add: f)
  have "procs_ok ?t" using assms unfolding sup_inv_def procs_ok_def f g by auto
  moreover have "owner_ok loose ?t" using assms(1) unfolding sup_inv_def owner_ok_def f(3,4) g dom by blast
  moreover have "spares_ok os ?t"
  proof -
    have "\<exists>q. sv_procs ?t x = Some q \<and> rt_agent (pr_runtime q) = a \<and> pr_env q = os_environ os"
      if "\<exists>q. sv_procs s x = Some q \<and> rt_agent (pr_runtime q) = a \<and> pr_env q = os_environ os" for x a
      using that assms by (cases "x = rid") (auto simp: f)
    then show ?thesis using assms(1) unfolding sup_inv_def spares_ok_def f(2) g by blast
  qed
  ultimately show ?thesis by (simp add: sup_inv_def)
qed

lemma spawn_cases:
  obtains (failed) e where "spawn os started a env s = (s, Inl e)"
    | (up) rid pid command dir p where "started = Some (rid, pid)" "resolve_launch os (ag_launch a) = Inr (command, dir)"
      "spawn os started a env s = (put_process p s, Inr rid)" "rt_id (pr_runtime p) = rid" "rt_agent (pr_runtime p) = ag_id a"
      "rt_command (pr_runtime p) = command" "pr_dir p = dir" "pr_args p = lc_args (ag_launch a)"
      "pr_env p = merge_process_env (os_environ os) env" "pr_key p = spare_key command dir (lc_args (ag_launch a))" "\<not> pr_done p"
      "rt_name (pr_runtime p) = ag_name a"
proof (cases "resolve_launch os (ag_launch a)")
  case (Inl e)
  then show thesis using failed by (simp add: spawn_def)
next
  case (Inr r)
  obtain command dir where r: "r = (command, dir)" by (cases r)
  show thesis
  proof (cases started)
    case None
    then show thesis using failed Inr r by (simp add: spawn_def)
  next
    case (Some q)
    obtain rid pid where q: "q = (rid, pid)" by (cases q)
    show thesis using up [of rid pid command dir] Inr r Some q by (simp add: spawn_def)
  qed
qed

lemma sup_inv_spawn:
  assumes inv: "sup_inv os {} s" and new: "sv_procs s rid = None"
    and p: "rt_id (pr_runtime p) = rid" "pr_key p = spare_key (rt_command (pr_runtime p)) (pr_dir p) (pr_args p)"
  shows "sup_inv os {rid} (put_process p s)"
proof -
  let ?t = "put_process p s"
  have f: "sv_procs ?t = (sv_procs s)(rid \<mapsto> p)" "spare_map ?t = spare_map s" "held ?t = held s" "released ?t = released s"
    using p(1) by (auto simp: put_process_def spare_map_def held_def released_def fun_eq_iff)
  have g: "sv_handed ?t = sv_handed s" "sv_lent ?t = sv_lent s" "sv_booting ?t = sv_booting s" "sv_closed ?t = sv_closed s"
    "sv_next ?t = sv_next s" "sv_runtimes ?t = sv_runtimes s" by (simp_all add: put_process_def)
  have "procs_ok ?t" using inv p unfolding sup_inv_def procs_ok_def f g by auto
  moreover have "owner_ok {rid} ?t"
  proof -
    have o: "owner_ok {} s" using inv by (simp add: sup_inv_def)
    have nobody: "rid \<notin> set (sv_handed s) \<union> set (sv_lent s) \<union> released s" "\<not> held s rid"
      using o new unfolding owner_ok_def by blast+
    show ?thesis using o nobody unfolding owner_ok_def f g by auto
  qed
  moreover have "spares_ok os ?t"
  proof -
    have "\<exists>q. sv_procs ?t x = Some q \<and> rt_agent (pr_runtime q) = a \<and> pr_env q = os_environ os"
      if "\<exists>q. sv_procs s x = Some q \<and> rt_agent (pr_runtime q) = a \<and> pr_env q = os_environ os" for x a
      using that new by (auto simp: f)
    then show ?thesis using inv unfolding sup_inv_def spares_ok_def f(2) g by blast
  qed
  ultimately show ?thesis by (simp add: sup_inv_def)
qed

lemma persist_fields [simp]:
  "sv_procs (persist_runtime ok rt s) = sv_procs s" "sv_handed (persist_runtime ok rt s) = sv_handed s"
  "sv_lent (persist_runtime ok rt s) = sv_lent s" "sv_discarding (persist_runtime ok rt s) = sv_discarding s"
  "sv_stopped (persist_runtime ok rt s) = sv_stopped s" "sv_spares (persist_runtime ok rt s) = sv_spares s"
  "sv_booting (persist_runtime ok rt s) = sv_booting s" "sv_closed (persist_runtime ok rt s) = sv_closed s"
  "sv_next (persist_runtime ok rt s) = sv_next s" "sv_runtimes (persist_runtime ok rt s) = sv_runtimes s"
  "sv_logs (persist_runtime ok rt s) = sv_logs s"
  by (simp_all add: persist_runtime_def split: option.split)

lemma persist_exit_fields [simp]:
  "sv_procs (persist_failure ok rid rt es at s) = sv_procs s" "sv_handed (persist_failure ok rid rt es at s) = sv_handed s"
  "sv_lent (persist_failure ok rid rt es at s) = sv_lent s" "sv_discarding (persist_failure ok rid rt es at s) = sv_discarding s"
  "sv_stopped (persist_failure ok rid rt es at s) = sv_stopped s" "sv_spares (persist_failure ok rid rt es at s) = sv_spares s"
  "sv_booting (persist_failure ok rid rt es at s) = sv_booting s" "sv_closed (persist_failure ok rid rt es at s) = sv_closed s"
  "sv_next (persist_failure ok rid rt es at s) = sv_next s" "sv_runtimes (persist_failure ok rid rt es at s) = sv_runtimes s"
  "sv_procs (persist_clean_exit ok rid rt es at s) = sv_procs s" "sv_handed (persist_clean_exit ok rid rt es at s) = sv_handed s"
  "sv_lent (persist_clean_exit ok rid rt es at s) = sv_lent s" "sv_discarding (persist_clean_exit ok rid rt es at s) = sv_discarding s"
  "sv_stopped (persist_clean_exit ok rid rt es at s) = sv_stopped s" "sv_spares (persist_clean_exit ok rid rt es at s) = sv_spares s"
  "sv_booting (persist_clean_exit ok rid rt es at s) = sv_booting s" "sv_closed (persist_clean_exit ok rid rt es at s) = sv_closed s"
  "sv_next (persist_clean_exit ok rid rt es at s) = sv_next s" "sv_runtimes (persist_clean_exit ok rid rt es at s) = sv_runtimes s"
  by (simp_all add: persist_failure_def persist_clean_exit_def split: option.split)

lemma append_entry_fields [simp]:
  "sv_procs (append_entry rid e s) = sv_procs s" "sv_handed (append_entry rid e s) = sv_handed s"
  "sv_lent (append_entry rid e s) = sv_lent s" "sv_discarding (append_entry rid e s) = sv_discarding s"
  "sv_stopped (append_entry rid e s) = sv_stopped s" "sv_spares (append_entry rid e s) = sv_spares s"
  "sv_booting (append_entry rid e s) = sv_booting s" "sv_closed (append_entry rid e s) = sv_closed s"
  "sv_next (append_entry rid e s) = sv_next s" "sv_runtimes (append_entry rid e s) = sv_runtimes s"
  by (simp_all add: append_entry_def Let_def)

definition registered_as :: "runtime \<Rightarrow> gtime \<Rightarrow> runtime" where
  "registered_as rt now = rt\<lparr>rt_created := now, rt_status := RunRunning\<rparr>"

lemma register_some:
  assumes "sv_procs s rid = Some p"
  shows "sv_procs (register rid now ok s) = (sv_procs s)(rt_id (pr_runtime p) \<mapsto> p\<lparr>pr_runtime := registered_as (pr_runtime p) now\<rparr>)"
    "map_of (sv_runtimes (register rid now ok s)) x =
       (if x = rid then Some (registered_as (pr_runtime p) now) else map_of (sv_runtimes s) x)"
    "sv_handed (register rid now ok s) = sv_handed s" "sv_lent (register rid now ok s) = sv_lent s"
    "released (register rid now ok s) = released s" "sv_spares (register rid now ok s) = sv_spares s"
    "sv_booting (register rid now ok s) = sv_booting s" "sv_closed (register rid now ok s) = sv_closed s"
    "sv_next (register rid now ok s) = sv_next s"
  using assms by (simp_all add: register_def Let_def put_process_def released_def update_conv' registered_as_def)

lemma released_put: "released (s\<lparr>sv_procs := m\<rparr>) = released s"
  by (simp add: released_def)

lemma sup_inv_register:
  assumes inv: "sup_inv os loose s" and p: "sv_procs s rid = Some p"
  shows "sup_inv os loose (register rid now ok s)"
proof -
  have id: "rt_id (pr_runtime p) = rid" using inv p by (simp add: sup_inv_def procs_ok_def)
  let ?q = "p\<lparr>pr_runtime := registered_as (pr_runtime p) now\<rparr>"
  have put: "sup_inv os loose (put_process ?q s)"
    by (rule sup_inv_put [OF inv p]) (simp_all add: registered_as_def id)
  show ?thesis
    by (rule sup_inv_same [OF put])
      (use p in \<open>simp_all add: register_some [OF p] put_process_def registered_as_def id released_put split: if_splits\<close>)
qed

lemma sup_inv_hand: "sup_inv os {rid} s \<Longrightarrow> sup_inv os {} (hand_over rid s)"
proof -
  assume inv: "sup_inv os {rid} s"
  let ?t = "hand_over rid s"
  have f: "sv_procs ?t = sv_procs s" "spare_map ?t = spare_map s" "held ?t = held s" "released ?t = released s"
    "sv_handed ?t = rid # sv_handed s" "sv_lent ?t = sv_lent s" "sv_booting ?t = sv_booting s" "sv_closed ?t = sv_closed s"
    "sv_next ?t = sv_next s" "sv_runtimes ?t = sv_runtimes s"
    by (auto simp: hand_over_def spare_map_def held_def released_def fun_eq_iff)
  have o: "owner_ok {rid} s" using inv by (simp add: sup_inv_def)
  then have "owner_ok {} ?t" unfolding owner_ok_def f by auto
  moreover have "procs_ok ?t = procs_ok s" "spares_ok os ?t = spares_ok os s" by (simp_all only: procs_ok_def spares_ok_def f)
  ultimately show ?thesis using inv by (simp add: sup_inv_def)
qed

lemma sup_inv_lend: "sup_inv os {rid} s \<Longrightarrow> sup_inv os {} (s\<lparr>sv_lent := rid # sv_lent s\<rparr>)"
proof -
  assume inv: "sup_inv os {rid} s"
  let ?t = "s\<lparr>sv_lent := rid # sv_lent s\<rparr>"
  have f: "sv_procs ?t = sv_procs s" "spare_map ?t = spare_map s" "held ?t = held s" "released ?t = released s"
    "sv_handed ?t = sv_handed s" "sv_lent ?t = rid # sv_lent s" "sv_booting ?t = sv_booting s" "sv_closed ?t = sv_closed s"
    "sv_next ?t = sv_next s" "sv_runtimes ?t = sv_runtimes s"
    by (auto simp: spare_map_def held_def released_def fun_eq_iff)
  have o: "owner_ok {rid} s" using inv by (simp add: sup_inv_def)
  then have "owner_ok {} ?t" unfolding owner_ok_def f by auto
  moreover have "procs_ok ?t = procs_ok s" "spares_ok os ?t = spares_ok os s" by (simp_all only: procs_ok_def spares_ok_def f)
  ultimately show ?thesis using inv by (simp add: sup_inv_def)
qed

lemma sup_inv_discard: "sup_inv os {rid} s \<Longrightarrow> sup_inv os {} (start_discard rid s)"
proof -
  assume inv: "sup_inv os {rid} s"
  let ?t = "start_discard rid s"
  have f: "sv_procs ?t = sv_procs s" "spare_map ?t = spare_map s" "held ?t = held s" "released ?t = insert rid (released s)"
    "sv_handed ?t = sv_handed s" "sv_lent ?t = sv_lent s" "sv_booting ?t = sv_booting s" "sv_closed ?t = sv_closed s"
    "sv_next ?t = sv_next s" "sv_runtimes ?t = sv_runtimes s"
    by (auto simp: start_discard_def spare_map_def held_def released_def fun_eq_iff)
  have o: "owner_ok {rid} s" using inv by (simp add: sup_inv_def)
  then have "owner_ok {} ?t" unfolding owner_ok_def f by auto
  moreover have "procs_ok ?t = procs_ok s" "spares_ok os ?t = spares_ok os s" by (simp_all only: procs_ok_def spares_ok_def f)
  ultimately show ?thesis using inv by (simp add: sup_inv_def)
qed

lemma spare_map_drop: "spare_map (drop_spare a s) = AList.delete a (spare_map s)"
  by (cases "sv_spares s") (simp_all add: spare_map_def drop_spare_def)

lemma spares_parts:
  assumes "spares_ok os s"
  shows "keys_distinct (spare_map s)" "keys_distinct (sv_booting s)" "sv_closed s \<Longrightarrow> spare_map s = []"
    "map_of (spare_map s) a = Some sp \<Longrightarrow> sp_ident sp < sv_next s"
    "map_of (spare_map s) a = Some sp \<Longrightarrow> sp_proc sp = None \<Longrightarrow> \<exists>b. map_of (sv_booting s) (sp_ident sp) = Some b \<and> ag_id b = a"
    "map_of (spare_map s) a = Some sp \<Longrightarrow> sp_proc sp \<noteq> None \<Longrightarrow> map_of (sv_booting s) (sp_ident sp) = None"
    "map_of (spare_map s) a = Some sp \<Longrightarrow> sp_proc sp = Some rid \<Longrightarrow>
      \<exists>p. sv_procs s rid = Some p \<and> rt_agent (pr_runtime p) = a \<and> pr_env p = os_environ os"
    "map_of (sv_booting s) i = Some b \<Longrightarrow> i < sv_next s"
    "map_of (spare_map s) a = Some sp \<Longrightarrow> map_of (spare_map s) a' = Some sp' \<Longrightarrow> sp_ident sp = sp_ident sp' \<Longrightarrow> a = a'"
    "map_of (spare_map s) a = Some sp \<Longrightarrow> map_of (spare_map s) a' = Some sp' \<Longrightarrow> sp_proc sp = Some rid \<Longrightarrow> sp_proc sp' = Some rid \<Longrightarrow> a = a'"
proof -
  note u = assms [unfolded spares_ok_def]
  show "keys_distinct (spare_map s)" "keys_distinct (sv_booting s)" "sv_closed s \<Longrightarrow> spare_map s = []" using u by simp_all
  show "map_of (spare_map s) a = Some sp \<Longrightarrow> sp_ident sp < sv_next s" using u by simp
  show "map_of (spare_map s) a = Some sp \<Longrightarrow> sp_proc sp = None \<Longrightarrow> \<exists>b. map_of (sv_booting s) (sp_ident sp) = Some b \<and> ag_id b = a"
    using u by simp
  show "map_of (spare_map s) a = Some sp \<Longrightarrow> sp_proc sp \<noteq> None \<Longrightarrow> map_of (sv_booting s) (sp_ident sp) = None" using u by simp
  show "map_of (spare_map s) a = Some sp \<Longrightarrow> sp_proc sp = Some rid \<Longrightarrow>
      \<exists>p. sv_procs s rid = Some p \<and> rt_agent (pr_runtime p) = a \<and> pr_env p = os_environ os" using u by simp
  show "map_of (sv_booting s) i = Some b \<Longrightarrow> i < sv_next s" using u by simp
  show "map_of (spare_map s) a = Some sp \<Longrightarrow> map_of (spare_map s) a' = Some sp' \<Longrightarrow> sp_ident sp = sp_ident sp' \<Longrightarrow> a = a'"
    using u by blast
  show "map_of (spare_map s) a = Some sp \<Longrightarrow> map_of (spare_map s) a' = Some sp' \<Longrightarrow> sp_proc sp = Some rid \<Longrightarrow> sp_proc sp' = Some rid \<Longrightarrow> a = a'"
    using u by (metis option.distinct(1))
qed

lemma spares_okI:
  assumes "keys_distinct (spare_map s)" "keys_distinct (sv_booting s)" "sv_closed s \<Longrightarrow> spare_map s = []"
    and "\<And>a sp. map_of (spare_map s) a = Some sp \<Longrightarrow> sp_ident sp < sv_next s"
    and "\<And>a sp. map_of (spare_map s) a = Some sp \<Longrightarrow> sp_proc sp = None \<Longrightarrow> \<exists>b. map_of (sv_booting s) (sp_ident sp) = Some b \<and> ag_id b = a"
    and "\<And>a sp. map_of (spare_map s) a = Some sp \<Longrightarrow> sp_proc sp \<noteq> None \<Longrightarrow> map_of (sv_booting s) (sp_ident sp) = None"
    and "\<And>a sp rid. map_of (spare_map s) a = Some sp \<Longrightarrow> sp_proc sp = Some rid \<Longrightarrow>
      \<exists>p. sv_procs s rid = Some p \<and> rt_agent (pr_runtime p) = a \<and> pr_env p = os_environ os"
    and "\<And>i b. map_of (sv_booting s) i = Some b \<Longrightarrow> i < sv_next s"
    and "\<And>a a' sp sp'. map_of (spare_map s) a = Some sp \<Longrightarrow> map_of (spare_map s) a' = Some sp' \<Longrightarrow>
      sp_ident sp = sp_ident sp' \<Longrightarrow> a = a'"
    and "\<And>a a' sp sp' rid. map_of (spare_map s) a = Some sp \<Longrightarrow> map_of (spare_map s) a' = Some sp' \<Longrightarrow>
      sp_proc sp = Some rid \<Longrightarrow> sp_proc sp' = Some rid \<Longrightarrow> a = a'"
  shows "spares_ok os s"
  unfolding spares_ok_def
proof (intro conjI allI impI)
  fix a a' sp sp' assume a: "map_of (spare_map s) a = Some sp" "map_of (spare_map s) a' = Some sp'"
    "sp_ident sp = sp_ident sp' \<or> sp_proc sp \<noteq> None \<and> sp_proc sp = sp_proc sp'"
  from a(3) show "a = a'"
  proof
    assume "sp_ident sp = sp_ident sp'"
    then show ?thesis by (rule assms(9) [OF a(1,2)])
  next
    assume p: "sp_proc sp \<noteq> None \<and> sp_proc sp = sp_proc sp'"
    from conjunct1 [OF p] obtain rid where r: "sp_proc sp = Some rid" by blast
    with p have "sp_proc sp' = Some rid" by simp
    then show ?thesis by (rule assms(10) [OF a(1,2) r])
  qed
qed (use assms(1-8) in simp_all)

lemma spares_ok_sub:
  assumes ok: "spares_ok os s"
    and f: "sv_procs t = sv_procs s" "sv_booting t = sv_booting s" "sv_closed t = sv_closed s" "sv_next t = sv_next s"
    and k: "keys_distinct (spare_map t)" and c: "sv_closed s \<longrightarrow> spare_map t = []"
    and sub: "\<And>x y. map_of (spare_map t) x = Some y \<Longrightarrow> map_of (spare_map s) x = Some y"
  shows "spares_ok os t"
proof (rule spares_okI)
  note p = spares_parts [OF ok]
  show "keys_distinct (sv_booting t)" using p(2) f by simp
  show "sp_ident sp < sv_next t" if "map_of (spare_map t) a = Some sp" for a sp using p(4) [OF sub [OF that]] f by simp
  show "\<exists>b. map_of (sv_booting t) (sp_ident sp) = Some b \<and> ag_id b = a" if "map_of (spare_map t) a = Some sp" "sp_proc sp = None" for a sp
    using p(5) [OF sub [OF that(1)] that(2)] f by simp
  show "map_of (sv_booting t) (sp_ident sp) = None" if "map_of (spare_map t) a = Some sp" "sp_proc sp \<noteq> None" for a sp
    using p(6) [OF sub [OF that(1)] that(2)] f by simp
  show "\<exists>p. sv_procs t rid = Some p \<and> rt_agent (pr_runtime p) = a \<and> pr_env p = os_environ os"
    if "map_of (spare_map t) a = Some sp" "sp_proc sp = Some rid" for a sp rid using p(7) [OF sub [OF that(1)] that(2)] f by simp
  show "i < sv_next t" if "map_of (sv_booting t) i = Some b" for i b using p(8) that f by simp
  show "a = a'" if "map_of (spare_map t) a = Some sp" "map_of (spare_map t) a' = Some sp'" "sp_ident sp = sp_ident sp'" for a a' sp sp'
    using p(9) [OF sub [OF that(1)] sub [OF that(2)] that(3)] .
  show "a = a'" if "map_of (spare_map t) a = Some sp" "map_of (spare_map t) a' = Some sp'" "sp_proc sp = Some rid" "sp_proc sp' = Some rid"
    for a a' sp sp' rid using p(10) [OF sub [OF that(1)] sub [OF that(2)] that(3,4)] .
qed (use k c f in simp_all)

lemma sup_inv_drop:
  assumes inv: "sup_inv os {} s" and sp: "spare_of a s = Some sp"
  shows "sup_inv os (set_option (sp_proc sp)) (drop_spare a s)"
proof -
  let ?t = "drop_spare a s"
  have f: "sv_procs ?t = sv_procs s" "released ?t = released s"
    "sv_handed ?t = sv_handed s" "sv_lent ?t = sv_lent s" "sv_booting ?t = sv_booting s" "sv_closed ?t = sv_closed s"
    "sv_next ?t = sv_next s" "sv_runtimes ?t = sv_runtimes s"
    by (simp_all add: drop_spare_def released_def)
  have m: "map_of (spare_map ?t) x = (if x = a then None else map_of (spare_map s) x)" for x
    by (simp add: spare_map_drop delete_conv')
  have o: "owner_ok {} s" and so: "spares_ok os s" using inv by (simp_all add: sup_inv_def)
  have sp': "map_of (spare_map s) a = Some sp" using sp by (simp add: spare_of_map)
  have one: "x = a" if "map_of (spare_map s) x = Some y" "sp_proc y = Some rid" "sp_proc sp = Some rid" for x y rid
    using so sp' that unfolding spares_ok_def by (metis option.distinct(1))
  have h: "held ?t rid \<longleftrightarrow> held s rid \<and> sp_proc sp \<noteq> Some rid" for rid
  proof
    assume "held ?t rid"
    then obtain x y where x: "x \<noteq> a" "map_of (spare_map s) x = Some y" "sp_proc y = Some rid"
      unfolding held_def m by (auto split: if_splits)
    then show "held s rid \<and> sp_proc sp \<noteq> Some rid" using one [OF x(2,3)] unfolding held_def by blast
  next
    assume r: "held s rid \<and> sp_proc sp \<noteq> Some rid"
    then obtain x y where x: "map_of (spare_map s) x = Some y" "sp_proc y = Some rid" unfolding held_def by blast
    then have "x \<noteq> a" using r sp' by auto
    then have "map_of (spare_map ?t) x = Some y" using x m by simp
    then show "held ?t rid" using x(2) unfolding held_def by blast
  qed
  have mine: "held s rid" if "sp_proc sp = Some rid" for rid using sp' that unfolding held_def by blast
  have "owner_ok (set_option (sp_proc sp)) ?t"
  proof (cases "sp_proc sp")
    case None
    then have "held ?t = held s" using h by (simp add: fun_eq_iff)
    then show ?thesis using o None by (simp add: owner_ok_def f)
  next
    case (Some r)
    then have h': "held ?t x \<longleftrightarrow> held s x \<and> x \<noteq> r" for x using h by auto
    have r: "held s r" by (rule mine [OF Some])
    then have "r \<notin> set (sv_handed s)" "r \<notin> set (sv_lent s)" "r \<notin> released s" "sv_procs s r \<noteq> None"
      using o unfolding owner_ok_def by blast+
    then show ?thesis using o unfolding owner_ok_def f h' Some by auto
  qed
  moreover have "spares_ok os ?t"
  proof -
    have k: "keys_distinct (spare_map ?t)" using so by (auto simp: spares_ok_def spare_map_drop)
    have c: "sv_closed s \<longrightarrow> spare_map ?t = []" using so by (simp add: spares_ok_def spare_map_drop)
    have sub: "map_of (spare_map s) x = Some y" if "map_of (spare_map ?t) x = Some y" for x y using that m [of x] by (simp split: if_splits)
    show ?thesis by (rule spares_ok_sub [OF so f(1,5-7) k c sub])
  qed
  moreover have "procs_ok ?t = procs_ok s" by (simp only: procs_ok_def f)
  ultimately show ?thesis using inv by (simp add: sup_inv_def)
qed

section \<open>Every operation keeps it\<close>

lemma sup_inv_parts: "sup_inv os loose s \<Longrightarrow> procs_ok s \<and> owner_ok loose s \<and> spares_ok os s"
  by (simp add: sup_inv_def)

lemma launch_process_inv:
  assumes inv: "sup_inv os {} s" and new: "new_id s started"
  shows "sup_inv os {} (fst (launch_process os started a env now ok s))"
proof (cases rule: spawn_cases [of os started a env s])
  case (failed e)
  then show ?thesis using inv by (simp add: launch_process_def)
next
  case (up rid pid command dir p)
  have n: "sv_procs s rid = None" using new up(1) by (simp add: new_id_def)
  have "sup_inv os {rid} (put_process p s)" by (rule sup_inv_spawn [OF inv n]) (simp_all add: up)
  then have "sup_inv os {rid} (register rid now ok (put_process p s))"
    by (rule sup_inv_register [where p = p]) (simp add: put_process_def up)
  then show ?thesis using up(3) by (simp add: launch_process_def sup_inv_hand)
qed

lemma claim_spare_inv:
  assumes inv: "sup_inv os {} s"
  shows "sup_inv os {} (fst (claim_spare os a now ok s))"
proof (cases "\<exists>command dir sp rid p. resolve_launch os (ag_launch a) = Inr (command, dir) \<and> spare_of (ag_id a) s = Some sp \<and>
    sp_proc sp = Some rid \<and> sv_procs s rid = Some p")
  case True
  then obtain command dir sp rid p where c: "resolve_launch os (ag_launch a) = Inr (command, dir)" "spare_of (ag_id a) s = Some sp"
    "sp_proc sp = Some rid" "sv_procs s rid = Some p" by blast
  let ?s = "drop_spare (ag_id a) s"
  have p: "sv_procs ?s rid = Some p" using c(4) by (simp add: drop_spare_def)
  have loose: "sup_inv os {rid} ?s" using sup_inv_drop [OF inv c(2)] c(3) by simp
  have id: "rt_id (pr_runtime p) = rid" using inv c(4) by (simp add: sup_inv_def procs_ok_def)
  let ?p = "p\<lparr>pr_runtime := (pr_runtime p)\<lparr>rt_name := ag_name a\<rparr>\<rparr>"
  have "sup_inv os {rid} (put_process ?p ?s)" by (rule sup_inv_put [OF loose p]) (simp_all add: id)
  then have "sup_inv os {rid} (register rid now ok (put_process ?p ?s))"
    by (rule sup_inv_register [where p = ?p]) (simp add: put_process_def id)
  then show ?thesis using c p sup_inv_hand sup_inv_discard [OF loose] by (auto simp: claim_spare_def Let_def)
next
  case False
  have "sv_procs s rid \<noteq> None" if "spare_of (ag_id a) s = Some sp" "sp_proc sp = Some rid" for sp rid
    using spares_parts(7) [of os s "ag_id a" sp rid] that inv by (auto simp: sup_inv_def spare_of_map)
  then have "fst (claim_spare os a now ok s) = s"
  proof (cases "resolve_launch os (ag_launch a)")
    case (Inr r)
    obtain command dir where r: "r = (command, dir)" by (cases r)
    show ?thesis
    proof (cases "spare_of (ag_id a) s")
      case (Some sp)
      then have "sp_proc sp = None"
        using False Inr r \<open>\<And>sp rid. \<lbrakk>spare_of (ag_id a) s = Some sp; sp_proc sp = Some rid\<rbrakk> \<Longrightarrow> sv_procs s rid \<noteq> None\<close>
        by (cases "sp_proc sp") (simp, blast)
      then show ?thesis using Inr r Some by (simp add: claim_spare_def)
    qed (simp add: claim_spare_def Inr r)
  qed (simp add: claim_spare_def)
  then show ?thesis using inv by simp
qed

lemma held_changed:
  assumes "\<And>x. map_of (spare_map t) x = (if x = a then new else map_of (spare_map s) x)"
  shows "held t rid \<longleftrightarrow> (\<exists>sp. new = Some sp \<and> sp_proc sp = Some rid) \<or>
    (\<exists>x y. x \<noteq> a \<and> map_of (spare_map s) x = Some y \<and> sp_proc y = Some rid)"
proof
  assume "held t rid"
  then obtain x y where "map_of (spare_map t) x = Some y" "sp_proc y = Some rid" unfolding held_def by blast
  then show "(\<exists>sp. new = Some sp \<and> sp_proc sp = Some rid) \<or>
    (\<exists>x y. x \<noteq> a \<and> map_of (spare_map s) x = Some y \<and> sp_proc y = Some rid)"
    using assms [of x] by (auto split: if_splits)
next
  assume "(\<exists>sp. new = Some sp \<and> sp_proc sp = Some rid) \<or>
    (\<exists>x y. x \<noteq> a \<and> map_of (spare_map s) x = Some y \<and> sp_proc y = Some rid)"
  then obtain x y where "map_of (spare_map t) x = Some y" "sp_proc y = Some rid" using assms by metis
  then show "held t rid" unfolding held_def by blast
qed

lemma refill_spare_inv:
  assumes inv: "sup_inv os loose s"
  shows "sup_inv os loose (refill_spare a s)"
proof (cases "sv_spares s = None \<or> sv_closed s \<or> spare_of (ag_id a) s \<noteq> None")
  case True
  then have "refill_spare a s = s" by (auto simp: refill_spare_def spare_of_def split: option.splits)
  then show ?thesis using inv by simp
next
  case False
  then obtain m where m: "sv_spares s = Some m" "\<not> sv_closed s" "map_of m (ag_id a) = None"
    by (auto simp: spare_of_def split: option.splits)
  let ?sp = "\<lparr>sp_ident = sv_next s, sp_proc = None\<rparr>" and ?t = "refill_spare a s"
  have f: "sv_procs ?t = sv_procs s" "released ?t = released s" "sv_handed ?t = sv_handed s" "sv_lent ?t = sv_lent s"
    "sv_booting ?t = (sv_next s, a) # sv_booting s" "sv_closed ?t = False" "sv_next ?t = Suc (sv_next s)" "sv_runtimes ?t = sv_runtimes s"
    "spare_map ?t = AList.update (ag_id a) ?sp (spare_map s)"
    using m by (simp_all add: refill_spare_def released_def spare_map_def)
  have sm: "map_of (spare_map ?t) x = (if x = ag_id a then Some ?sp else map_of (spare_map s) x)" for x by (simp add: f update_conv')
  have none: "map_of (spare_map s) (ag_id a) = None" using m by (simp add: spare_map_def)
  have h: "held ?t = held s"
  proof
    fix rid
    have "x \<noteq> ag_id a" if "map_of (spare_map s) x = Some y" for x y using that none by auto
    then show "held ?t rid = held s rid" unfolding held_changed [OF sm] by (auto simp: held_def)
  qed
  note i = sup_inv_parts [OF inv]
  note p = spares_parts [OF conjunct2 [OF conjunct2 [OF i]]]
  have nb: "map_of (sv_booting s) (sv_next s) = None" using p(8) [of "sv_next s"] by (cases "map_of (sv_booting s) (sv_next s)") auto
  have old: "map_of (spare_map s) x = Some y" if "map_of (spare_map ?t) x = Some y" "y \<noteq> ?sp \<or> x \<noteq> ag_id a" for x y
    using that sm [of x] by (auto split: if_splits)
  have "spares_ok os ?t"
  proof (rule spares_okI)
    show "keys_distinct (spare_map ?t)" unfolding f by (rule keys_distinct_update) (rule p(1))
    show "keys_distinct (sv_booting ?t)" using p(2) nb by (simp add: f keys_distinct_def map_of_eq_None_iff)
    show "sv_closed ?t \<Longrightarrow> spare_map ?t = []" by (simp add: f)
    fix x y assume y: "map_of (spare_map ?t) x = Some y"
    show "sp_ident y < sv_next ?t" using y p(4) [of x y] sm [of x] by (auto simp: f split: if_splits)
    show "\<exists>b. map_of (sv_booting ?t) (sp_ident y) = Some b \<and> ag_id b = x" if "sp_proc y = None"
      using y p(4,5) [of x y] that sm [of x] by (auto simp: f split: if_splits)
    show "map_of (sv_booting ?t) (sp_ident y) = None" if "sp_proc y \<noteq> None"
      using y p(4,6) [of x y] that sm [of x] by (auto simp: f split: if_splits)
    show "\<exists>p. sv_procs ?t rid = Some p \<and> rt_agent (pr_runtime p) = x \<and> pr_env p = os_environ os" if "sp_proc y = Some rid" for rid
      using y p(7) [of x y rid] that sm [of x] by (auto simp: f split: if_splits)
  next
    show "i < sv_next ?t" if "map_of (sv_booting ?t) i = Some b" for i b
      using that p(8) [of i] by (auto simp: f split: if_splits)
  next
    fix x x' y y' assume y: "map_of (spare_map ?t) x = Some y" "map_of (spare_map ?t) x' = Some y'"
    show "x = x'" if "sp_ident y = sp_ident y'"
      using y that p(4) [of x y] p(4) [of x' y'] p(9) [of x y x' y'] sm [of x] sm [of x'] by (auto split: if_splits)
    show "x = x'" if "sp_proc y = Some rid" "sp_proc y' = Some rid" for rid
      using y that p(10) [of x y x' y' rid] sm [of x] sm [of x'] by (auto split: if_splits)
  qed
  moreover have "owner_ok loose ?t = owner_ok loose s" by (simp only: owner_ok_def f h)
  moreover have "procs_ok ?t = procs_ok s" by (simp only: procs_ok_def f)
  ultimately show ?thesis using i by (simp add: sup_inv_def)
qed

text \<open>A booting goroutine ends.\<close>

lemma end_boot_inv:
  assumes inv: "sup_inv os loose s" and own: "\<And>a sp. map_of (spare_map s) a = Some sp \<Longrightarrow> sp_ident sp \<noteq> ident"
  shows "sup_inv os loose (s\<lparr>sv_booting := AList.delete ident (sv_booting s)\<rparr>)"
proof -
  let ?t = "s\<lparr>sv_booting := AList.delete ident (sv_booting s)\<rparr>"
  have f: "spare_map ?t = spare_map s" "held ?t = held s" "released ?t = released s"
    by (auto simp: spare_map_def held_def released_def fun_eq_iff)
  note i = sup_inv_parts [OF inv]
  note p = spares_parts [OF conjunct2 [OF conjunct2 [OF i]]]
  have b: "map_of (sv_booting ?t) x = (if x = ident then None else map_of (sv_booting s) x)" for x by (simp add: delete_conv')
  have "spares_ok os ?t"
  proof (rule spares_okI)
    show "keys_distinct (sv_booting ?t)" using p(2) by (auto intro: keys_distinct_delete)
    show "\<exists>b. map_of (sv_booting ?t) (sp_ident y) = Some b \<and> ag_id b = x" if "map_of (spare_map ?t) x = Some y" "sp_proc y = None" for x y
      using p(5) [of x y] own [of x y] that unfolding b f by simp
    show "map_of (sv_booting ?t) (sp_ident y) = None" if "map_of (spare_map ?t) x = Some y" "sp_proc y \<noteq> None" for x y
      using p(6) [of x y] that unfolding b f by simp
    show "k < sv_next ?t" if "map_of (sv_booting ?t) k = Some a" for k a using p(8) that unfolding b by (auto split: if_splits)
    show "x = x'" if "map_of (spare_map ?t) x = Some y" "map_of (spare_map ?t) x' = Some y'" "sp_proc y = Some rid" "sp_proc y' = Some rid"
      for x x' y y' rid using p(10) [of x y x' y' rid] that unfolding f by simp
    show "x = x'" if "map_of (spare_map ?t) x = Some y" "map_of (spare_map ?t) x' = Some y'" "sp_ident y = sp_ident y'" for x x' y y'
      using p(9) [of x y x' y'] that unfolding f by simp
  qed (use p(1,3,4,7) in \<open>simp_all add: f\<close>)
  moreover have "owner_ok loose ?t = owner_ok loose s" unfolding owner_ok_def f by simp
  moreover have "procs_ok ?t = procs_ok s" by (simp add: procs_ok_def)
  ultimately show ?thesis using i by (simp add: sup_inv_def)
qed

definition spare_is :: "string \<Rightarrow> nat \<Rightarrow> supervisor \<Rightarrow> bool" where
  "spare_is a ident s \<longleftrightarrow> (case spare_of a s of None \<Rightarrow> False | Some sp \<Rightarrow> sp_ident sp = ident)"

lemma boot_owner:
  assumes inv: "sup_inv os loose s" and b: "map_of (sv_booting s) ident = Some a"
    and sp: "map_of (spare_map s) x = Some sp" "sp_ident sp = ident"
  shows "x = ag_id a" "sp_proc sp = None"
proof -
  note p = spares_parts [OF conjunct2 [OF conjunct2 [OF sup_inv_parts [OF inv]]]]
  show "sp_proc sp = None" using p(6) [OF sp(1)] sp(2) b by (cases "sp_proc sp") simp_all
  from p(5) [OF sp(1) this] sp(2) b show "x = ag_id a" by auto
qed

lemma boot_failed_inv:
  assumes inv: "sup_inv os {} s" and b: "map_of (sv_booting s) ident = Some a"
  defines "s0 \<equiv> s\<lparr>sv_booting := AList.delete ident (sv_booting s)\<rparr>"
  shows "sup_inv os {} (if spare_is (ag_id a) ident s then drop_spare (ag_id a) s0 else s0)"
proof (cases "spare_is (ag_id a) ident s")
  case True
  then obtain sp where sp: "spare_of (ag_id a) s = Some sp" "sp_ident sp = ident" by (auto simp: spare_is_def split: option.splits)
  then have m: "map_of (spare_map s) (ag_id a) = Some sp" by (simp add: spare_of_map)
  have none: "sp_proc sp = None" by (rule boot_owner(2) [OF inv b m sp(2)])
  have d: "sup_inv os {} (drop_spare (ag_id a) s)" using sup_inv_drop [OF inv sp(1)] none by simp
  have "sup_inv os {} ((drop_spare (ag_id a) s)\<lparr>sv_booting := AList.delete ident (sv_booting (drop_spare (ag_id a) s))\<rparr>)"
  proof (rule end_boot_inv [OF d])
    fix x y assume y: "map_of (spare_map (drop_spare (ag_id a) s)) x = Some y"
    then have "x \<noteq> ag_id a" "map_of (spare_map s) x = Some y" by (simp_all add: spare_map_drop delete_conv' split: if_splits)
    then show "sp_ident y \<noteq> ident" using boot_owner(1) [OF inv b] by blast
  qed
  moreover have "(drop_spare (ag_id a) s)\<lparr>sv_booting := AList.delete ident (sv_booting (drop_spare (ag_id a) s))\<rparr> = drop_spare (ag_id a) s0"
    by (simp add: drop_spare_def s0_def)
  ultimately show ?thesis using True by simp
next
  case False
  have "sup_inv os {} s0"
    unfolding s0_def
  proof (rule end_boot_inv [OF inv])
    fix x sp assume sp: "map_of (spare_map s) x = Some sp"
    show "sp_ident sp \<noteq> ident"
    proof
      assume i: "sp_ident sp = ident"
      from boot_owner(1) [OF inv b sp i] show False using sp i False by (simp add: spare_is_def spare_of_map)
    qed
  qed
  then show ?thesis using False by simp
qed

lemma boot_ready_inv:
  assumes inv: "sup_inv os {} s" and b: "map_of (sv_booting s) ident = Some a" and own: "spare_is (ag_id a) ident s"
    and open_still: "\<not> sv_closed s" and new: "sv_procs s rid = None"
    and p: "rt_id (pr_runtime p) = rid" "pr_key p = spare_key (rt_command (pr_runtime p)) (pr_dir p) (pr_args p)"
      "rt_agent (pr_runtime p) = ag_id a" "pr_env p = os_environ os"
    and t: "sv_procs t = (sv_procs s)(rid \<mapsto> p)" "released t = released s" "sv_handed t = sv_handed s" "sv_lent t = sv_lent s"
      "sv_booting t = AList.delete ident (sv_booting s)" "sv_closed t = sv_closed s" "sv_next t = sv_next s" "sv_runtimes t = sv_runtimes s"
      "spare_map t = AList.update (ag_id a) \<lparr>sp_ident = ident, sp_proc = Some rid\<rparr> (spare_map s)"
  shows "sup_inv os {} t"
proof -
  let ?sp = "\<lparr>sp_ident = ident, sp_proc = Some rid\<rparr>"
  note i = sup_inv_parts [OF inv]
  note q = spares_parts [OF conjunct2 [OF conjunct2 [OF i]]]
  have sm: "map_of (spare_map t) x = (if x = ag_id a then Some ?sp else map_of (spare_map s) x)" for x by (simp add: t update_conv')
  have bm: "map_of (sv_booting t) x = (if x = ident then None else map_of (sv_booting s) x)" for x by (simp add: t delete_conv')
  obtain sp where sp: "map_of (spare_map s) (ag_id a) = Some sp" "sp_ident sp = ident"
    using own by (auto simp: spare_is_def spare_of_map split: option.splits)
  have spn: "sp_proc sp = None" by (rule boot_owner(2) [OF inv b sp])
  have other: "sp_ident y \<noteq> ident" if "map_of (spare_map s) x = Some y" "x \<noteq> ag_id a" for x y
    using boot_owner(1) [OF inv b that(1)] that(2) by blast
  have fresh: "sp_proc y \<noteq> Some rid" if "map_of (spare_map s) x = Some y" for x y using q(7) [OF that, of rid] new by auto
  have h: "held t x \<longleftrightarrow> held s x \<or> x = rid" for x
  proof -
    have "y \<noteq> ag_id a" if "map_of (spare_map s) y = Some z" "sp_proc z = Some x" for y z using that sp spn by auto
    then show ?thesis unfolding held_changed [OF sm] by (auto simp: held_def)
  qed
  have "spares_ok os t"
  proof (rule spares_okI)
    show "keys_distinct (spare_map t)" unfolding t by (rule keys_distinct_update) (rule q(1))
    show "keys_distinct (sv_booting t)" unfolding t by (rule keys_distinct_delete) (rule q(2))
    show "sv_closed t \<Longrightarrow> spare_map t = []" using open_still by (simp add: t)
    fix x y assume y: "map_of (spare_map t) x = Some y"
    show "sp_ident y < sv_next t" using y q(4) [of x y] q(8) [OF b] sm [of x] by (auto simp: t split: if_splits)
    show "\<exists>b. map_of (sv_booting t) (sp_ident y) = Some b \<and> ag_id b = x" if "sp_proc y = None"
      using y q(5) [of x y] other [of x y] that sm [of x] unfolding bm by (auto split: if_splits)
    show "map_of (sv_booting t) (sp_ident y) = None" if "sp_proc y \<noteq> None"
      using y q(6) [of x y] that sm [of x] unfolding bm by (auto split: if_splits)
    show "\<exists>p. sv_procs t r = Some p \<and> rt_agent (pr_runtime p) = x \<and> pr_env p = os_environ os" if "sp_proc y = Some r" for r
      using y q(7) [of x y r] fresh [of x y] that sm [of x] p by (auto simp: t split: if_splits)
  next
    show "k < sv_next t" if "map_of (sv_booting t) k = Some c" for k c using that q(8) [of k c] unfolding bm by (simp add: t split: if_splits)
  next
    fix x x' y y' assume y: "map_of (spare_map t) x = Some y" "map_of (spare_map t) x' = Some y'"
    show "x = x'" if "sp_ident y = sp_ident y'"
      using y that other [of x y] other [of x' y'] q(9) [of x y x' y'] sm [of x] sm [of x'] by (auto split: if_splits)
    show "x = x'" if "sp_proc y = Some r" "sp_proc y' = Some r" for r
      using y that fresh [of x y] fresh [of x' y'] q(10) [of x y x' y' r] sm [of x] sm [of x'] by (auto split: if_splits)
  qed
  moreover have "owner_ok {} t"
  proof -
    have o: "owner_ok {} s" using i by blast
    then have "rid \<notin> set (sv_handed s)" "rid \<notin> set (sv_lent s)" "rid \<notin> released s" "\<not> held s rid"
      using new unfolding owner_ok_def by blast+
    then show ?thesis using o unfolding owner_ok_def t(1-4) h by auto
  qed
  moreover have "procs_ok t" using i p unfolding procs_ok_def t by auto
  ultimately show ?thesis by (simp add: sup_inv_def)
qed

lemma spare_booted_inv:
  assumes inv: "sup_inv os {} s" and new: "new_id s started"
  shows "sup_inv os {} (spare_booted os ident started s)"
proof (cases "map_of (sv_booting s) ident")
  case (Some a)
  let ?s0 = "s\<lparr>sv_booting := AList.delete ident (sv_booting s)\<rparr>"
  have is0: "spare_of x ?s0 = spare_of x s" for x by (simp add: spare_of_def)
  show ?thesis
  proof (cases rule: spawn_cases [of os started a "[]" ?s0])
    case (failed e)
    then have "spare_booted os ident started s = (if spare_is (ag_id a) ident s then drop_spare (ag_id a) ?s0 else ?s0)"
      by (simp add: spare_booted_def Some Let_def spare_is_def is0)
    then show ?thesis using boot_failed_inv [OF inv Some] by simp
  next
    case (up rid pid command dir p)
    let ?s1 = "put_process p ?s0"
    have is1: "spare_of x ?s1 = spare_of x s" for x by (simp add: spare_of_def put_process_def)
    have n: "sv_procs s rid = None" using new up(1) by (simp add: new_id_def)
    have closed: "\<not> spare_is (ag_id a) ident s" if "sv_closed s"
      using spares_parts(3) [OF conjunct2 [OF conjunct2 [OF sup_inv_parts [OF inv]]] that] by (simp add: spare_is_def spare_of_map)
    show ?thesis
    proof (cases "spare_is (ag_id a) ident s")
      case False
      have "sup_inv os {} ?s0" using boot_failed_inv [OF inv Some] False by simp
      then have "sup_inv os {rid} ?s1"
        by (rule sup_inv_spawn) (simp_all add: n up)
      from sup_inv_discard [OF this] have "sup_inv os {} (start_discard rid ?s1)" .
      moreover have "spare_booted os ident started s = start_discard rid ?s1"
        using False up(3) by (simp add: spare_booted_def Some Let_def spare_is_def is1)
      ultimately show ?thesis by simp
    next
      case True
      then have oc: "\<not> sv_closed s" using closed by blast
      let ?t = "?s1\<lparr>sv_spares := map_option (AList.update (ag_id a) \<lparr>sp_ident = ident, sp_proc = Some rid\<rparr>) (sv_spares ?s1)\<rparr>"
      have "sup_inv os {} ?t"
      proof (rule boot_ready_inv [OF inv Some True oc n, where p = p])
        show "spare_map ?t = AList.update (ag_id a) \<lparr>sp_ident = ident, sp_proc = Some rid\<rparr> (spare_map s)"
          using True by (simp add: spare_map_def put_process_def spare_is_def spare_of_def split: option.splits)
      qed (simp_all add: up put_process_def released_def merge_process_env_def)
      moreover have "spare_booted os ident started s = ?t"
      proof -
        have "sv_closed ?s1 = sv_closed s" by (simp add: put_process_def)
        then show ?thesis using True up(3) oc by (simp add: spare_booted_def Some Let_def spare_is_def is1)
      qed
      ultimately show ?thesis by simp
    qed
  qed
qed (simp add: spare_booted_def inv)

lemma spare_expired_inv:
  assumes inv: "sup_inv os {} s"
  shows "sup_inv os {} (spare_expired agent_id ident s)"
proof (cases "spare_of agent_id s")
  case (Some sp)
  show ?thesis
  proof (cases "sp_proc sp")
    case (Some rid)
    have "sup_inv os {rid} (drop_spare agent_id s)" using sup_inv_drop [OF inv \<open>spare_of agent_id s = Some sp\<close>] Some by simp
    from sup_inv_discard [OF this] show ?thesis using inv \<open>spare_of agent_id s = Some sp\<close> Some by (simp add: spare_expired_def)
  qed (simp add: spare_expired_def Some inv)
qed (simp add: spare_expired_def inv)

lemma discard_process_inv:
  assumes inv: "sup_inv os {} s" and r: "rid \<in> set (sv_discarding s) \<union> set (sv_lent s)"
  shows "sup_inv os {} (discard_process rid s)"
proof -
  let ?t = "discard_process rid s"
  have f: "sv_procs ?t = sv_procs s" "spare_map ?t = spare_map s" "held ?t = held s" "released ?t = insert rid (released s)"
    "sv_handed ?t = sv_handed s" "sv_lent ?t = sv_lent s" "sv_booting ?t = sv_booting s" "sv_closed ?t = sv_closed s"
    "sv_next ?t = sv_next s" "sv_runtimes ?t = sv_runtimes s"
    by (auto simp: discard_process_def spare_map_def held_def released_def fun_eq_iff)
  have o: "owner_ok {} s" using inv by (simp add: sup_inv_def)
  have "rid \<notin> set (sv_handed s)" "\<not> held s rid" "sv_procs s rid \<noteq> None"
    using o r unfolding owner_ok_def released_def by blast+
  then have "owner_ok {} ?t" using o unfolding owner_ok_def f by auto
  moreover have "procs_ok ?t = procs_ok s" "spares_ok os ?t = spares_ok os s" by (simp_all only: procs_ok_def spares_ok_def f)
  ultimately show ?thesis using inv by (simp add: sup_inv_def)
qed

lemma close_supervisor_inv:
  assumes inv: "sup_inv os {} s"
  shows "sup_inv os {} (close_supervisor s)"
proof -
  let ?t = "close_supervisor s"
  note i = sup_inv_parts [OF inv]
  note q = spares_parts [OF conjunct2 [OF conjunct2 [OF i]]]
  have set_held: "set (List.map_filter (\<lambda>e. sp_proc (snd e)) (spare_map s)) = {rid. held s rid}"
  proof -
    have "rid \<in> set (List.map_filter f xs) \<longleftrightarrow> (\<exists>x\<in>set xs. f x = Some rid)" for rid and f :: "string \<times> spare \<Rightarrow> string option" and xs
      by (induction xs) (auto simp: List.map_filter_simps split: option.split)
    then show ?thesis using q(1) by (auto simp: held_def map_of_in_set) force+
  qed
  have f: "sv_procs ?t = sv_procs s" "spare_map ?t = []" "held ?t = (\<lambda>_. False)" "released ?t = {rid. held s rid} \<union> released s"
    "sv_handed ?t = sv_handed s" "sv_lent ?t = sv_lent s" "sv_booting ?t = sv_booting s" "sv_closed ?t = True"
    "sv_next ?t = sv_next s" "sv_runtimes ?t = sv_runtimes s"
  proof -
    have m: "(case sv_spares s of None \<Rightarrow> [] | Some m \<Rightarrow> List.map_filter (\<lambda>e. sp_proc (snd e)) m) = List.map_filter (\<lambda>e. sp_proc (snd e)) (spare_map s)"
      by (simp add: spare_map_def List.map_filter_simps split: option.split)
    show "released ?t = {rid. held s rid} \<union> released s" using set_held by (simp add: released_def close_supervisor_def m Un_assoc)
  qed (auto simp: close_supervisor_def spare_map_def held_def fun_eq_iff)
  have o: "owner_ok {} s" using i by blast
  then have "owner_ok {} ?t" unfolding owner_ok_def f by auto
  moreover have "spares_ok os ?t"
    by (rule spares_okI) (use q(2,8) in \<open>simp_all add: f\<close>)
  moreover have "procs_ok ?t = procs_ok s" by (simp only: procs_ok_def f)
  ultimately show ?thesis using i by (simp add: sup_inv_def)
qed

lemma enable_spares_inv: "sup_inv os {} s \<Longrightarrow> sup_inv os {} (enable_spares s)"
proof -
  assume inv: "sup_inv os {} s"
  have eqs: "spare_map (enable_spares s) = spare_map s" "sv_procs (enable_spares s) = sv_procs s" "released (enable_spares s) = released s"
    "sv_handed (enable_spares s) = sv_handed s" "sv_lent (enable_spares s) = sv_lent s" "sv_booting (enable_spares s) = sv_booting s"
    "sv_closed (enable_spares s) = sv_closed s" "sv_next (enable_spares s) = sv_next s" "sv_runtimes (enable_spares s) = sv_runtimes s"
    by (simp_all add: enable_spares_def spare_map_def released_def)
  have h: "held (enable_spares s) = held s" by (simp add: held_def eqs fun_eq_iff)
  show ?thesis using inv unfolding sup_inv_def procs_ok_def owner_ok_def spares_ok_def eqs h .
qed

lemma launch_inv:
  assumes inv: "sup_inv os {} s" and new: "new_id s started"
  shows "sup_inv os {} (fst (launch os ins a env started now ok s))"
proof (cases "prepare_agent ins a")
  case (Inr b)
  have lp: "sup_inv os {} (fst (launch_process os started b e now ok u))"
    if "sup_inv os {} u" "sv_procs u = sv_procs s" for e u
    by (rule launch_process_inv [OF that(1)]) (use new that(2) in \<open>auto simp: new_id_def split: option.splits\<close>)
  show ?thesis
  proof (cases "env = []")
    case False
    then show ?thesis using lp [OF inv] by (simp add: launch_def Inr)
  next
    case True
    obtain s1 claimed where c: "claim_spare os b now ok s = (s1, claimed)" by (cases "claim_spare os b now ok s")
    have i1: "sup_inv os {} s1" using claim_spare_inv [OF inv, of b now ok] by (simp add: c)
    show ?thesis
    proof (cases claimed)
      case (Some rid)
      then show ?thesis using True refill_spare_inv [OF i1] by (simp add: launch_def Inr c)
    next
      case None
      have same: "sv_procs s1 = sv_procs s"
        using c None by (auto simp: claim_spare_def Let_def drop_spare_def start_discard_def split: sum.splits option.splits if_splits prod.splits)
      have i2: "sup_inv os {} (fst (launch_process os started b [] now ok s1))" by (rule lp [OF i1]) (simp add: same)
      obtain s2 res where l: "launch_process os started b [] now ok s1 = (s2, res)" by (cases "launch_process os started b [] now ok s1")
      show ?thesis using True None i2 refill_spare_inv [of os "{}" s2 b]
        by (cases res) (simp_all add: launch_def Inr c l)
    qed
  qed
qed (simp add: launch_def inv)

lemma record_exit_fields:
  "sv_procs (record_exit rid err i now ok s) = sv_procs s" "sv_handed (record_exit rid err i now ok s) = sv_handed s"
  "sv_lent (record_exit rid err i now ok s) = sv_lent s" "released (record_exit rid err i now ok s) = released s"
  "sv_spares (record_exit rid err i now ok s) = sv_spares s" "sv_booting (record_exit rid err i now ok s) = sv_booting s"
  "sv_closed (record_exit rid err i now ok s) = sv_closed s" "sv_next (record_exit rid err i now ok s) = sv_next s"
  "map_of (sv_runtimes (record_exit rid err i now ok s)) x \<noteq> None \<longleftrightarrow> map_of (sv_runtimes s) x \<noteq> None"
  by (simp_all add: record_exit_def released_def Let_def update_conv' split: option.split)

lemma supervisor_step_inv:
  assumes inv: "sup_inv os {} s" and fr: "fresh_start s e"
  shows "sup_inv os {} (supervisor_step os ins s e)"
proof (cases e)
  case SvEnable
  then show ?thesis by (simp add: enable_spares_inv inv)
next
  case (SvLaunch a env started now ok)
  then show ?thesis using fr by (simp add: fresh_start_def launch_inv inv)
next
  case (SvSpawn a started)
  then have new: "new_id s started" using fr by (simp add: fresh_start_def)
  show ?thesis
  proof (cases "prepare_agent ins a")
    case (Inr b)
    show ?thesis
    proof (cases rule: spawn_cases [of os started b "[]" s])
      case (failed err)
      then show ?thesis by (simp add: SvSpawn spawn_untracked_def Inr inv)
    next
      case (up rid pid command dir p)
      have n: "sv_procs s rid = None" using new up(1) by (simp add: new_id_def)
      have "sup_inv os {rid} (put_process p s)" by (rule sup_inv_spawn [OF inv n]) (simp_all add: up)
      from sup_inv_lend [OF this] show ?thesis using up(3) by (simp add: SvSpawn spawn_untracked_def Inr)
    qed
  qed (simp add: SvSpawn spawn_untracked_def inv)
next
  case (SvBooted ident started)
  then show ?thesis using fr by (simp add: fresh_start_def spare_booted_inv inv)
next
  case (SvEnded rid)
  show ?thesis
  proof (cases "sv_procs s rid")
    case (Some p)
    have id: "rt_id (pr_runtime p) = rid" using inv Some by (simp add: sup_inv_def procs_ok_def)
    have "sup_inv os {} (put_process (p\<lparr>pr_done := True\<rparr>) s)" by (rule sup_inv_put [OF inv Some]) (simp_all add: id)
    then show ?thesis by (simp add: SvEnded process_ended_def Some)
  qed (simp add: SvEnded process_ended_def inv)
next
  case (SvExit rid err i now ok)
  have "sup_inv os {} (record_exit rid err i now ok s)"
    by (rule sup_inv_same [OF inv]) (simp_all only: record_exit_fields simp_thms)
  then show ?thesis by (simp add: SvExit)
next
  case (SvLog rid stream message now)
  have "sup_inv os {} (append_log rid stream message now s)"
    by (rule sup_inv_same [OF inv]) (simp_all add: append_log_def released_def split: if_splits)
  then show ?thesis by (simp add: SvLog)
next
  case (SvPrune now)
  have "sup_inv os {} (prune_stopped now s)"
  proof (rule sup_inv_same [OF inv])
    fix rid assume "map_of (sv_runtimes (prune_stopped now s)) rid \<noteq> None"
    then obtain rt where "map_of (filter (\<lambda>e. \<not> prunable now (snd e)) (sv_runtimes s)) rid = Some rt"
      by (auto simp: prune_stopped_def Let_def)
    then have "(rid, rt) \<in> set (sv_runtimes s)" by (auto dest!: map_of_SomeD)
    then show "map_of (sv_runtimes s) rid \<noteq> None \<or> sv_procs s rid \<noteq> None" by (metis map_of_eq_None_iff fst_conv image_eqI)
  qed (simp_all add: prune_stopped_def Let_def released_def)
  then show ?thesis by (simp add: SvPrune)
qed (simp_all add: spare_expired_inv discard_process_inv close_supervisor_inv inv)

lemma new_supervisor_inv: "sup_inv os {} (new_supervisor store)"
  by (simp add: sup_inv_def procs_ok_def owner_ok_def spares_ok_def new_supervisor_def released_def held_def spare_map_def)

lemma fresh_run_inv: "sup_inv os {} s \<Longrightarrow> fresh_starts os ins s es \<Longrightarrow> sup_inv os {} (run (supervisor_step os ins) s es)"
  by (induction es arbitrary: s) (simp_all add: supervisor_step_inv)

text \<open>The supervisor after a run from its start.\<close>

definition after_run :: "os_env \<Rightarrow> installer option \<Rightarrow> runtime_tables option \<Rightarrow> supervisor_event list \<Rightarrow> supervisor" where
  "after_run os ins store es = run (supervisor_step os ins) (new_supervisor store) es"

lemma after_run_inv: "fresh_starts os ins (new_supervisor store) es \<Longrightarrow> sup_inv os {} (after_run os ins store es)"
  unfolding after_run_def by (rule fresh_run_inv [OF new_supervisor_inv])

section \<open>Concrete agents\<close>

definition plain_os :: os_env where
  "plain_os = \<lparr>os_abs = (\<lambda>p. p \<noteq> [] \<and> hd p = CHR ''/''), os_base = ''/opt'', os_join = (\<lambda>a b. a @ ''/'' @ b), os_make_abs = (\<lambda>p. Some p),
     os_dir = (\<lambda>p. rev (tl (dropWhile (\<lambda>c. c \<noteq> CHR ''/'') (rev p)))), os_exists = (\<lambda>_. True), os_look_path = (\<lambda>c. Some (''/bin/'' @ c)),
     os_cwd = Some ''/home'', os_environ = [''PATH=/bin'', ''HOME=/root'']\<rparr>"

definition plain_agent :: agent where
  "plain_agent = \<lparr>ag_id = ''a'', ag_name = ''A'', ag_detected = True, ag_remote = True,
     ag_launch = \<lparr>lc_mode = ''external'', lc_command = ''a'', lc_args = [''--acp'']\<rparr>\<rparr>"

definition spare_run :: "supervisor_event list" where
  "spare_run = [SvEnable, SvLaunch plain_agent [] (Some (''r'', 7)) 5 (True, True), SvBooted 0 (Some (''q'', 8))]"

section \<open>Properties\<close>

text \<open>
  A process has one owner: after any run, what \<^verbatim>\<open>Launch\<close> handed out was handed out once and is never stopped by
  the supervisor, whatever spares expire, change or are closed meanwhile; every process ever started is handed out, lent
  to a caller of \<^verbatim>\<open>Spawn\<close>, waiting as a spare, or being discarded or stopped; and after a shutdown no spare waits.\<close>

theorem processes_have_one_owner:
  assumes "fresh_starts os ins (new_supervisor store) es"
  defines "s \<equiv> after_run os ins store es"
  shows "distinct (sv_handed s) \<and>
    (rid \<in> set (sv_handed s) \<longrightarrow> rid \<notin> set (sv_stopped s) \<and> rid \<notin> set (sv_discarding s)) \<and>
    (sv_procs s rid \<noteq> None \<longrightarrow> rid \<in> set (sv_handed s) \<or> rid \<in> set (sv_lent s) \<or> rid \<in> set (sv_discarding s) \<or> rid \<in> set (sv_stopped s) \<or>
      (\<not> sv_closed s \<and> (\<exists>a sp. spare_of a s = Some sp \<and> sp_proc sp = Some rid)))"
proof -
  have i: "sup_inv os {} s" unfolding s_def by (rule after_run_inv [OF assms(1)])
  then have o: "owner_ok {} s" and so: "spares_ok os s" by (simp_all add: sup_inv_def)
  have h: "held s x \<Longrightarrow> \<not> sv_closed s" for x using spares_parts(3) [OF so] by (auto simp: held_def)
  show ?thesis
    using o h unfolding owner_ok_def released_def held_def spare_of_map by blast
qed

theorem processes_have_one_owner_witness:
  "(let s = after_run plain_os None None spare_run in
     distinct (sv_handed s) \<and> ''r'' \<notin> set (sv_stopped s) \<and> (\<exists>a sp. spare_of a s = Some sp \<and> sp_proc sp = Some ''q''))"
proof -
  let ?s = "after_run plain_os None None spare_run"
  have fr: "fresh_starts plain_os None (new_supervisor None) spare_run" by code_simp
  have c: "''r'' \<in> set (sv_handed ?s)" "map_option pr_done (sv_procs ?s ''q'') = Some False" "''q'' \<notin> set (sv_handed ?s)" "''q'' \<notin> set (sv_lent ?s)"
    "''q'' \<notin> set (sv_discarding ?s)" "''q'' \<notin> set (sv_stopped ?s)" by code_simp+
  from processes_have_one_owner [OF fr, of "''r''"] processes_have_one_owner [OF fr, of "''q''"] c show ?thesis
    unfolding Let_def by (metis option.map_disc_iff option.distinct(1))
qed

text \<open>The launch key tells launches apart: no path and no argument of a process contains a zero byte.\<close>

definition nul_free :: "string \<Rightarrow> bool" where
  "nul_free x \<longleftrightarrow> CHR 0x00 \<notin> set x"

lemma nul_split: "nul_free x \<Longrightarrow> nul_free y \<Longrightarrow> x @ CHR 0x00 # r = y @ CHR 0x00 # r' \<longleftrightarrow> x = y \<and> r = r'"
  unfolding nul_free_def
proof (induction x arbitrary: y)
  case Nil
  then show ?case by (cases y) auto
next
  case (Cons c x)
  then show ?case by (cases y) auto
qed

lemma join_cons: "xs \<noteq> [] \<Longrightarrow> join_strings sep (x # xs) = x @ sep @ join_strings sep xs"
  by (cases xs) simp_all

lemma join_nul_inj:
  "list_all nul_free xs \<Longrightarrow> list_all nul_free ys \<Longrightarrow> xs \<noteq> [] \<Longrightarrow> ys \<noteq> [] \<Longrightarrow>
     join_strings [CHR 0x00] xs = join_strings [CHR 0x00] ys \<Longrightarrow> xs = ys"
proof (induction xs arbitrary: ys)
  case (Cons x xs)
  obtain y ys' where ys: "ys = y # ys'" using Cons.prems(4) by (cases ys) auto
  have n: "nul_free x" "nul_free y" using Cons.prems(1,2) ys by simp_all
  show ?case
  proof (cases "xs = [] \<or> ys' = []")
    case True
    have "xs = [] \<and> ys' = []"
    proof (rule ccontr)
      assume "\<not> (xs = [] \<and> ys' = [])"
      with True consider "xs = []" "ys' \<noteq> []" | "xs \<noteq> []" "ys' = []" by blast
      then show False
      proof cases
        case 1
        then have "x = y @ CHR 0x00 # join_strings [CHR 0x00] ys'" using Cons.prems(5) ys by (simp add: join_cons)
        then show False using n(1) by (simp add: nul_free_def)
      next
        case 2
        then have "y = x @ CHR 0x00 # join_strings [CHR 0x00] xs" using Cons.prems(5) ys by (simp add: join_cons)
        then show False using n(2) by (simp add: nul_free_def)
      qed
    qed
    then show ?thesis using Cons.prems(5) ys by simp
  next
    case False
    then have "x @ CHR 0x00 # join_strings [CHR 0x00] xs = y @ CHR 0x00 # join_strings [CHR 0x00] ys'"
      using Cons.prems(5) ys by (simp add: join_cons)
    then have "x = y" "join_strings [CHR 0x00] xs = join_strings [CHR 0x00] ys'" using nul_split [OF n] by simp_all
    then show ?thesis using Cons.IH [of ys'] Cons.prems(1,2) ys False by simp
  qed
qed simp

lemma spare_key_inj:
  assumes "spare_key c d as = spare_key c' d' as'" "list_all nul_free (c # d # as)" "list_all nul_free (c' # d' # as')"
  shows "c = c'" "d = d'" "as = as'"
  using join_nul_inj [OF assms(2,3)] assms(1) by (simp_all add: spare_key_def)

lemma refill_keeps: "sv_procs (refill_spare a s) = sv_procs s" "sv_runtimes (refill_spare a s) = sv_runtimes s"
  by (simp_all add: refill_spare_def split: option.split)

definition launched_as :: "os_env \<Rightarrow> agent \<Rightarrow> (string \<times> string) list \<Rightarrow> string \<Rightarrow> string \<Rightarrow> gtime \<Rightarrow> supervisor \<Rightarrow> string \<Rightarrow> bool" where
  "launched_as os b env command dir now t rid \<longleftrightarrow>
     (\<exists>p. sv_procs t rid = Some p \<and> \<not> pr_done p \<and> rt_command (pr_runtime p) = command \<and> pr_dir p = dir \<and>
        pr_args p = lc_args (ag_launch b) \<and> pr_env p = merge_process_env (os_environ os) env \<and>
        rt_agent (pr_runtime p) = ag_id b \<and> rt_name (pr_runtime p) = ag_name b \<and> rt_status (pr_runtime p) = RunRunning \<and>
        rt_created (pr_runtime p) = now \<and> map_of (sv_runtimes t) rid = Some (pr_runtime p))"

lemma register_launched:
  assumes "sv_procs s rid = Some p" "rt_id (pr_runtime p) = rid" "\<not> pr_done p" "rt_command (pr_runtime p) = command" "pr_dir p = dir"
    "pr_args p = lc_args (ag_launch b)" "pr_env p = merge_process_env (os_environ os) env" "rt_agent (pr_runtime p) = ag_id b"
    "rt_name (pr_runtime p) = ag_name b"
  shows "launched_as os b env command dir now (hand_over rid (register rid now ok s)) rid"
proof -
  have "sv_procs (register rid now ok s) rid = Some (p\<lparr>pr_runtime := registered_as (pr_runtime p) now\<rparr>)"
    using register_some(1) [OF assms(1)] assms(2) by simp
  moreover have "map_of (sv_runtimes (register rid now ok s)) rid = Some (registered_as (pr_runtime p) now)"
    using register_some(2) [OF assms(1)] by simp
  ultimately show ?thesis using assms(3-9) by (auto simp: launched_as_def hand_over_def registered_as_def)
qed

lemma launched_as_refill: "launched_as os b env command dir now (refill_spare a t) rid = launched_as os b env command dir now t rid"
  by (simp add: launched_as_def refill_keeps)

lemma launch_process_launched:
  assumes "launch_process os started b env now ok s = (t, Inr rid)" "resolve_launch os (ag_launch b) = Inr (command, dir)"
  shows "launched_as os b env command dir now t rid"
proof (cases rule: spawn_cases [of os started b env s])
  case (failed e)
  then show ?thesis using assms(1) by (simp add: launch_process_def)
next
  case (up rid' pid command' dir' p)
  then have t: "t = hand_over rid' (register rid' now ok (put_process p s))" "rid = rid'" using assms(1) by (auto simp: launch_process_def)
  show ?thesis unfolding t by (rule register_launched [where p = p]) (use up assms(2) in \<open>simp_all add: put_process_def\<close>)
qed

text \<open>
  C33: Whatever process \<^verbatim>\<open>Launch\<close> returns, a waiting spare or a new one, it is what was asked for: the executable,
  working directory and arguments the agent resolves to now, on the daemon's environment with the given overrides, alive
  when it was picked, and listed as running under its own id with the agent's current name.\<close>

theorem launch_gives_what_was_asked:
  assumes "fresh_starts os ins (new_supervisor store) es" "s = after_run os ins store es"
    and "prepare_agent ins a = Inr b" "resolve_launch os (ag_launch b) = Inr (command, dir)"
    and "launch os ins a env started now ok s = (t, Inr rid)"
    and "list_all nul_free (command # dir # lc_args (ag_launch b))"
    and "\<And>x p. sv_procs s x = Some p \<Longrightarrow> list_all nul_free (rt_command (pr_runtime p) # pr_dir p # pr_args p)"
  shows "\<exists>p. sv_procs t rid = Some p \<and> \<not> pr_done p \<and> rt_command (pr_runtime p) = command \<and> pr_dir p = dir \<and>
    pr_args p = lc_args (ag_launch b) \<and> pr_env p = merge_process_env (os_environ os) env \<and>
    rt_agent (pr_runtime p) = ag_id b \<and> rt_name (pr_runtime p) = ag_name b \<and> rt_status (pr_runtime p) = RunRunning \<and>
    rt_created (pr_runtime p) = now \<and> map_of (sv_runtimes t) rid = Some (pr_runtime p)"
proof -
  have i: "sup_inv os {} s" unfolding assms(2) by (rule after_run_inv [OF assms(1)])
  have "launched_as os b env command dir now t rid"
  proof (cases "env = []")
    case False
    then show ?thesis using assms(3,5) by (intro launch_process_launched [OF _ assms(4)]) (simp add: launch_def)
  next
    case True
    obtain s1 claimed where c: "claim_spare os b now ok s = (s1, claimed)" by (cases "claim_spare os b now ok s")
    show ?thesis
    proof (cases claimed)
      case None
      obtain s2 res where l: "launch_process os started b [] now ok s1 = (s2, res)" by (cases "launch_process os started b [] now ok s1")
      then have "res = Inr rid" "t = refill_spare b s2" using assms(3,5) True c None by (cases res; simp add: launch_def)+
      then show ?thesis using launch_process_launched [OF _ assms(4)] l True by (simp add: launched_as_refill)
    next
      case (Some r)
      then have r: "r = rid" "t = refill_spare b s1" using assms(3,5) True c by (simp_all add: launch_def)
      obtain sp p where sp: "spare_of (ag_id b) s = Some sp" "sp_proc sp = Some rid" "sv_procs s rid = Some p" "\<not> pr_done p"
        "pr_key p = spare_key command dir (lc_args (ag_launch b))"
        and s1: "s1 = hand_over rid (register rid now ok
          (put_process (p\<lparr>pr_runtime := (pr_runtime p)\<lparr>rt_name := ag_name b\<rparr>\<rparr>) (drop_spare (ag_id b) s)))"
        using c Some r by (auto simp: claim_spare_def assms(4) Let_def drop_spare_def split: option.splits if_splits)
      have po: "procs_ok s" "spares_ok os s" using i by (simp_all add: sup_inv_def)
      have id: "rt_id (pr_runtime p) = rid" "pr_key p = spare_key (rt_command (pr_runtime p)) (pr_dir p) (pr_args p)"
        using po sp(3) by (simp_all add: procs_ok_def)
      have key: "rt_command (pr_runtime p) = command" "pr_dir p = dir" "pr_args p = lc_args (ag_launch b)"
        using spare_key_inj [of "rt_command (pr_runtime p)" "pr_dir p" "pr_args p" command dir "lc_args (ag_launch b)"]
          id(2) sp(5) assms(6) assms(7) [OF sp(3)] by simp_all
      have "rt_agent (pr_runtime p) = ag_id b" "pr_env p = os_environ os"
        using spares_parts(7) [OF po(2), of "ag_id b" sp rid] sp by (simp_all add: spare_of_map)
      then have "launched_as os b [] command dir now s1 rid"
        unfolding s1 by (intro register_launched [where p = "p\<lparr>pr_runtime := (pr_runtime p)\<lparr>rt_name := ag_name b\<rparr>\<rparr>"])
          (use sp id key in \<open>simp_all add: put_process_def merge_process_env_def\<close>)
      then show ?thesis using r True by (simp add: launched_as_refill)
    qed
  qed
  then show ?thesis by (simp add: launched_as_def)
qed

end
