(* ===== verification/Supervisor_Records.thy ===== *)
theory Supervisor_Records
  imports Supervisor_Proofs "HOL-Library.Multiset" "HOL-Library.Sublist"
begin

text \<open>
  What the supervisor shows and keeps: the listing of a runtime until it has been gone for ten minutes, the log rings,
  the environment of a process, the table of failures and the summary built from it.
\<close>

section \<open>A launched spare, concretely\<close>

lemma nul_free_code: "nul_free x \<longleftrightarrow> list_all (\<lambda>c. c \<noteq> CHR 0x00) x"
  by (induction x) (auto simp: nul_free_def)

theorem launch_gives_what_was_asked_witness:
  "\<exists>p. sv_procs (fst (launch plain_os None plain_agent [] (Some (''x'', 9)) 60 (True, True) (after_run plain_os None None spare_run))) ''q'' = Some p \<and>
     rt_command (pr_runtime p) = ''/bin/a'' \<and> pr_args p = [''--acp''] \<and> rt_created (pr_runtime p) = 60"
proof -
  let ?s = "after_run plain_os None None spare_run"
  have fr: "fresh_starts plain_os None (new_supervisor None) spare_run" by code_simp
  have prep: "prepare_agent None plain_agent = Inr plain_agent" by code_simp
  have res: "resolve_launch plain_os (ag_launch plain_agent) = Inr (''/bin/a'', ''/home'')" by code_simp
  have l: "snd (launch plain_os None plain_agent [] (Some (''x'', 9)) 60 (True, True) ?s) = Inr ''q''" by code_simp
  have nul: "list_all nul_free (''/bin/a'' # ''/home'' # lc_args (ag_launch plain_agent))" unfolding nul_free_code by code_simp
  have procs: "list_all nul_free (rt_command (pr_runtime p) # pr_dir p # pr_args p)" if "sv_procs ?s x = Some p" for x p
  proof -
    have dom: "x = ''r'' \<or> x = ''q''"
    proof (rule ccontr)
      assume "\<not> (x = ''r'' \<or> x = ''q'')"
      moreover have "sv_handed ?s = [''r'']" "sv_lent ?s = []" "sv_discarding ?s = []" "sv_stopped ?s = []"
        "map (sp_proc \<circ> snd) (spare_map ?s) = [Some ''q'']" by code_simp+
      moreover have "owner_ok {} ?s" using after_run_inv [OF fr] by (simp add: sup_inv_def)
      then have "x \<in> {} \<union> set (sv_handed ?s) \<union> set (sv_lent ?s) \<union> released ?s \<or> held ?s x" unfolding owner_ok_def using that by blast
      then have "x \<in> set (sv_handed ?s) \<or> x \<in> set (sv_lent ?s) \<or> x \<in> set (sv_discarding ?s) \<or> x \<in> set (sv_stopped ?s) \<or>
          (\<exists>a sp. map_of (spare_map ?s) a = Some sp \<and> sp_proc sp = Some x)" unfolding released_def held_def by blast
      ultimately show False by (auto dest!: map_of_SomeD)
    qed
    have "list_all (\<lambda>k. case sv_procs ?s k of None \<Rightarrow> True | Some p \<Rightarrow>
        list_all (list_all (\<lambda>c. c \<noteq> CHR 0x00)) (rt_command (pr_runtime p) # pr_dir p # pr_args p)) [''r'', ''q'']" by code_simp
    then show ?thesis using dom that unfolding nul_free_code by auto
  qed
  have "launch plain_os None plain_agent [] (Some (''x'', 9)) 60 (True, True) ?s =
      (fst (launch plain_os None plain_agent [] (Some (''x'', 9)) 60 (True, True) ?s), Inr ''q'')"
    by (rule prod_eqI) (simp_all add: l)
  note r = launch_gives_what_was_asked [OF fr refl prep res this nul]
  show ?thesis by (rule exE [OF r], erule procs) (auto simp: plain_agent_def)
qed

section \<open>Log rings\<close>

lemma last_n_append: "last_n n (last_n n xs @ ys) = last_n n (xs @ ys)"
proof (cases "length xs \<le> n")
  case False
  then have "drop (length ys) (drop (length xs - n) xs) = drop (length xs + length ys - n) xs" by (simp add: add.commute)
  then show ?thesis using False by (simp add: last_n_def)
qed (simp add: last_n_id)

lemma log_ring_append:
  "log_ring r (append_entry rid e s) = (if r = rid then last_n max_log_entries (log_ring rid s @ [cap_entry e]) else log_ring r s)"
  by (auto simp: log_ring_def append_entry_def Let_def update_conv' last_n_def)

lemma cap_entry_bytes: "length (le_message (cap_entry e)) \<le> max_log_message_bytes + length truncation_mark"
  by (simp add: cap_entry_def)

text \<open>
  The log of a runtime is the latest 200 entries: however the entries of several runtimes are appended, the ring of one
  holds exactly the last 200 of its own, in order, each cut to 8 KiB and a mark of 14 bytes.\<close>

theorem log_ring_keeps_latest:
  fixes es :: "(string \<times> log_entry) list"
  assumes "length (log_ring rid s) \<le> max_log_entries"
  defines "t \<equiv> fold (\<lambda>(r, e). append_entry r e) es s"
  shows "log_ring rid t = last_n max_log_entries (log_ring rid s @ map (cap_entry \<circ> snd) (filter (\<lambda>x. fst x = rid) es)) \<and>
    length (log_ring rid t) \<le> max_log_entries \<and>
    list_all (\<lambda>x. length (le_message (cap_entry (snd x))) \<le> 8 * 1024 + 14) es"
proof -
  have "log_ring rid (fold (\<lambda>(r, e). append_entry r e) es s) =
      last_n max_log_entries (log_ring rid s @ map (cap_entry \<circ> snd) (filter (\<lambda>x. fst x = rid) es))"
    using assms(1)
  proof (induction es arbitrary: s)
    case Nil
    then show ?case by (simp add: last_n_id)
  next
    case (Cons x es)
    obtain r e where x: "x = (r, e)" by (cases x)
    have "length (log_ring rid (append_entry r e s)) \<le> max_log_entries" using Cons.prems by (simp add: log_ring_append)
    from Cons.IH [OF this] show ?case
      using last_n_append [of max_log_entries "log_ring rid s @ [cap_entry e]" "map (cap_entry \<circ> snd) (filter (\<lambda>x. fst x = rid) es)"]
      by (auto simp: x log_ring_append o_def)
  qed
  moreover have "length (le_message (cap_entry e)) \<le> 8 * 1024 + 14" for e
    using cap_entry_bytes [of e] by (simp add: max_log_message_bytes_def truncation_mark_def)
  ultimately show ?thesis by (simp add: t_def list_all_iff)
qed

theorem log_ring_keeps_latest_witness:
  "log_ring ''r'' (fold (\<lambda>(r, e). append_entry r e) [(''r'', \<lparr>le_time = 1, le_stream = ''stderr'', le_message = ''x''\<rparr>)] (new_supervisor None)) =
     [\<lparr>le_time = 1, le_stream = ''stderr'', le_message = ''x''\<rparr>]"
  using log_ring_keeps_latest [of "''r''" "new_supervisor None" "[(''r'', \<lparr>le_time = 1, le_stream = ''stderr'', le_message = ''x''\<rparr>)]"]
  by (simp add: log_ring_def new_supervisor_def last_n_def max_log_entries_def cap_entry_def max_log_message_bytes_def)

text \<open>
  One long line ends the capture: \<^verbatim>\<open>captureLogs\<close> stops reading at the first line of 1 MiB, records an error and
  leaves the rest of the stream unread, so nothing drains the pipe of that process any more.\<close>

theorem capture_stops_at_long_line:
  assumes "list_all (\<lambda>x. length (fst x) < 1024 * 1024) before" "1024 * 1024 \<le> length line"
  shows "capture_logs rid stream (before @ (line, now) # rest) s =
    append_entry rid \<lparr>le_time = now, le_stream = stream, le_message = ''log stream error: bufio.Scanner: token too long''\<rparr>
      (capture_logs rid stream before s)"
  using assms
proof (induction before arbitrary: s)
  case (Cons x before)
  then show ?case by (cases x) (simp add: max_scan_bytes_def)
qed (simp add: max_scan_bytes_def)

theorem capture_stops_at_long_line_witness:
  "capture_logs ''r'' ''stderr'' [(''a'', 1), (replicate (1024 * 1024) CHR ''x'', 2), (''b'', 3)] (new_supervisor None) =
     append_entry ''r'' \<lparr>le_time = 2, le_stream = ''stderr'', le_message = ''log stream error: bufio.Scanner: token too long''\<rparr>
       (append_entry ''r'' \<lparr>le_time = 1, le_stream = ''stderr'', le_message = ''a''\<rparr> (new_supervisor None))"
  using capture_stops_at_long_line [of "[(''a'', 1)]" "replicate (1024 * 1024) CHR ''x''" "''r''" "''stderr''" 2 "[(''b'', 3)]" "new_supervisor None"]
  by (simp add: max_scan_bytes_def drop_cr_def)

section \<open>The environment\<close>

lemma cut_env_join: "CHR ''='' \<notin> set k \<Longrightarrow> cut_at (CHR ''='') (k @ CHR ''='' # v) = Some (k, v)"
  by (induction k) auto

lemma cut_env_some: "cut_at (CHR ''='') e = Some (k, v) \<Longrightarrow> e = k @ CHR ''='' # v \<and> CHR ''='' \<notin> set k"
  by (induction e arbitrary: k) (auto split: if_splits option.splits)

definition base_lookup :: "string list \<Rightarrow> string \<Rightarrow> string option" where
  "base_lookup base = map_of (rev (List.map_filter (cut_at (CHR ''='')) base))"

lemma base_env_lookup: "map_of (base_env base) = base_lookup base" "keys_distinct (base_env base)"
proof -
  have "map_of (fold (\<lambda>e m. case cut_at (CHR ''='') e of None \<Rightarrow> m | Some (k, v) \<Rightarrow> AList.update k v m) base m) k =
      (case map_of (rev (List.map_filter (cut_at (CHR ''='')) base)) k of None \<Rightarrow> map_of m k | Some v \<Rightarrow> Some v)" for k m
    by (induction base arbitrary: m) (auto simp: List.map_filter_simps update_conv' map_add_def split: option.splits)
  from this [of "[]"] show "map_of (base_env base) = base_lookup base"
    by (auto simp: base_env_def base_lookup_def fun_eq_iff split: option.splits)
  have "keys_distinct m \<Longrightarrow> keys_distinct (fold (\<lambda>e m. case cut_at (CHR ''='') e of None \<Rightarrow> m | Some (k, v) \<Rightarrow> AList.update k v m) base m)" for m
    by (induction base arbitrary: m) (auto split: option.split intro: keys_distinct_update)
  then show "keys_distinct (base_env base)" by (simp add: base_env_def)
qed

lemma fold_update_lookup:
  "keys_distinct m \<Longrightarrow> keys_distinct os \<Longrightarrow>
     keys_distinct (fold (\<lambda>(k, v). AList.update k v) os m) \<and>
     map_of (fold (\<lambda>(k, v). AList.update k v) os m) k = (case map_of os k of None \<Rightarrow> map_of m k | Some v \<Rightarrow> Some v)"
proof (induction os arbitrary: m)
  case (Cons x os)
  obtain a b where x: "x = (a, b)" by (cases x)
  have "keys_distinct (AList.update a b m)" using Cons.prems(1) by (rule keys_distinct_update)
  moreover have "keys_distinct os" "map_of os a = None" using Cons.prems(2) by (simp_all add: x keys_distinct_def map_of_eq_None_iff)
  ultimately show ?case using Cons.IH [of "AList.update a b m"] by (auto simp: x update_conv' split: option.split)
qed simp

text \<open>
  The environment of a process is the daemon's with the overrides on top: a name without an equals sign is set in the
  merged list exactly to its override when it has one and to its last value in the daemon's environment otherwise, each name
  occurs once, and the list is sorted.\<close>

theorem merged_env_is_overridden_base:
  assumes "overrides \<noteq> []" "keys_distinct overrides" "list_all (\<lambda>x. CHR ''='' \<notin> set (fst x)) overrides" "CHR ''='' \<notin> set k"
  shows "sorted (merge_process_env base overrides) \<and>
    (k @ ''='' @ v \<in> set (merge_process_env base overrides) \<longleftrightarrow>
      (case map_of overrides k of Some w \<Rightarrow> v = w | None \<Rightarrow> map_of (rev (List.map_filter (cut_at (CHR ''='')) base)) k = Some v))"
proof -
  let ?m = "fold (\<lambda>(k, v). AList.update k v) overrides (base_env base)"
  have d: "keys_distinct ?m" and l: "map_of ?m x = (case map_of overrides x of None \<Rightarrow> base_lookup base x | Some v \<Rightarrow> Some v)" for x
    using fold_update_lookup [OF base_env_lookup(2) [of base] assms(2)] unfolding base_env_lookup(1) by blast+
  have eq: "merge_process_env base overrides = sort (map (\<lambda>(k, v). k @ ''='' @ v) ?m)" using assms(1) by (simp add: merge_process_env_def)
  have clean: "CHR ''='' \<notin> set a" if "(a, b) \<in> set ?m" for a b
  proof -
    have "map_of ?m a = Some b" using that d by (simp add: map_of_in_set)
    then consider "map_of overrides a \<noteq> None" | "base_lookup base a = Some b" using l [of a] by (auto split: option.splits)
    then show ?thesis
    proof cases
      case 1
      then show ?thesis using assms(3) by (auto simp: list_all_iff dest!: map_of_SomeD)
    next
      case 2
      then have "(a, b) \<in> set (List.map_filter (cut_at (CHR ''='')) base)" by (auto simp: base_lookup_def dest!: map_of_SomeD)
      then obtain e where "cut_at (CHR ''='') e = Some (a, b)" by (auto simp: List.map_filter_def)
      then show ?thesis by (simp add: cut_env_some)
    qed
  qed
  have "k @ ''='' @ v \<in> set (merge_process_env base overrides) \<longleftrightarrow> (k, v) \<in> set ?m"
  proof
    assume "k @ ''='' @ v \<in> set (merge_process_env base overrides)"
    then obtain a b where ab: "(a, b) \<in> set ?m" "k @ CHR ''='' # v = a @ CHR ''='' # b" by (auto simp: eq)
    have "Some (k, v) = Some (a, b)"
      using cut_env_join [OF assms(4), of v] cut_env_join [OF clean [OF ab(1)], of b] unfolding ab(2) by (rule trans [OF sym])
    with ab(1) show "(k, v) \<in> set ?m" by simp
  next
    assume "(k, v) \<in> set ?m"
    then show "k @ ''='' @ v \<in> set (merge_process_env base overrides)" by (force simp: eq)
  qed
  also have "\<dots> \<longleftrightarrow> map_of ?m k = Some v" using d by (simp add: map_of_in_set)
  finally show ?thesis by (auto simp: eq l base_lookup_def split: option.splits)
qed

theorem merged_env_is_overridden_base_witness:
  "''HOME'' @ ''='' @ ''/b'' \<in> set (merge_process_env [''HOME=/a'', ''=odd'', ''X=1''] [(''HOME'', ''/b'')]) \<and>
   ''X'' @ ''='' @ ''1'' \<in> set (merge_process_env [''HOME=/a'', ''=odd'', ''X=1''] [(''HOME'', ''/b'')])"
  using merged_env_is_overridden_base [of "[(''HOME'', ''/b'')]" "''HOME''" "[''HOME=/a'', ''=odd'', ''X=1'']" "''/b''"]
    merged_env_is_overridden_base [of "[(''HOME'', ''/b'')]" "''X''" "[''HOME=/a'', ''=odd'', ''X=1'']" "''1''"]
  by (simp add: keys_distinct_def List.map_filter_simps)

section \<open>How long a runtime is listed\<close>

text \<open>What takes a runtime off the list or changes its record: its own exit, and pruning once it is due.\<close>

definition touches :: "string \<Rightarrow> runtime \<Rightarrow> supervisor_event \<Rightarrow> bool" where
  "touches rid rt e = (case e of SvExit r _ _ _ _ \<Rightarrow> r = rid | SvPrune now \<Rightarrow> prunable now rt | _ \<Rightarrow> False)"

lemma launch_process_keeps:
  fixes os a env now ok
  assumes inv: "sup_inv os {} s" and new: "new_id s started" and rid: "rid \<in> set (sv_handed s)" "map_of (sv_runtimes s) rid = Some rt"
  defines "t \<equiv> fst (launch_process os started a env now ok s)"
  shows "rid \<in> set (sv_handed t) \<and> map_of (sv_runtimes t) rid = Some rt"
proof (cases rule: spawn_cases [of os started a env s])
  case (failed e)
  then show ?thesis using rid by (simp add: t_def launch_process_def)
next
  case (up r pid command dir p)
  have "sv_procs s rid \<noteq> None" using inv rid(2) by (simp add: sup_inv_def procs_ok_def)
  then have ne: "rid \<noteq> r" using new up(1) by (auto simp: new_id_def)
  have p: "sv_procs (put_process p s) r = Some p" using up by (simp add: put_process_def)
  have "t = hand_over r (register r now ok (put_process p s))" using up(3) by (simp add: t_def launch_process_def)
  then show ?thesis using rid ne register_some(2,3) [OF p] by (simp add: hand_over_def put_process_def)
qed

lemma claim_spare_keeps:
  fixes os a now ok
  assumes inv: "sup_inv os {} s" and rid: "rid \<in> set (sv_handed s)" "map_of (sv_runtimes s) rid = Some rt"
  defines "t \<equiv> fst (claim_spare os a now ok s)"
  shows "rid \<in> set (sv_handed t) \<and> map_of (sv_runtimes t) rid = Some rt"
proof (cases "snd (claim_spare os a now ok s)")
  case None
  then have "sv_handed t = sv_handed s \<and> sv_runtimes t = sv_runtimes s"
    by (auto simp: t_def claim_spare_def Let_def drop_spare_def start_discard_def split: sum.splits option.splits if_splits prod.splits)
  then show ?thesis using rid by simp
next
  case (Some r)
  then obtain command dir sp p where c: "spare_of (ag_id a) s = Some sp" "sp_proc sp = Some r" "sv_procs s r = Some p"
    and t: "t = hand_over r (register r now ok (put_process (p\<lparr>pr_runtime := (pr_runtime p)\<lparr>rt_name := ag_name a\<rparr>\<rparr>) (drop_spare (ag_id a) s)))"
    by (auto simp: t_def claim_spare_def Let_def drop_spare_def split: sum.splits option.splits if_splits prod.splits)
  have "held s r" using c by (auto simp: held_def spare_of_map)
  then have ne: "rid \<noteq> r" using inv rid(1) unfolding sup_inv_def owner_ok_def by blast
  have id: "rt_id (pr_runtime p) = r" using inv c(3) by (simp add: sup_inv_def procs_ok_def)
  let ?p = "p\<lparr>pr_runtime := (pr_runtime p)\<lparr>rt_name := ag_name a\<rparr>\<rparr>"
  have p: "sv_procs (put_process ?p (drop_spare (ag_id a) s)) r = Some ?p" by (simp add: put_process_def id)
  show ?thesis unfolding t using rid ne register_some(2,3) [OF p] by (simp add: hand_over_def put_process_def drop_spare_def)
qed

lemma refill_handed: "sv_handed (refill_spare a s) = sv_handed s"
  by (simp add: refill_spare_def split: option.split)

lemma launch_keeps:
  assumes inv: "sup_inv os {} s" and new: "new_id s started" and rid: "rid \<in> set (sv_handed s)" "map_of (sv_runtimes s) rid = Some rt"
  shows "rid \<in> set (sv_handed (fst (launch os ins a env started now ok s))) \<and>
    map_of (sv_runtimes (fst (launch os ins a env started now ok s))) rid = Some rt"
proof (cases "prepare_agent ins a")
  case (Inr b)
  show ?thesis
  proof (cases "env = []")
    case False
    then show ?thesis using launch_process_keeps [OF inv new rid] by (simp add: launch_def Inr)
  next
    case True
    obtain s1 claimed where c: "claim_spare os b now ok s = (s1, claimed)" by (cases "claim_spare os b now ok s")
    have i1: "sup_inv os {} s1" using claim_spare_inv [OF inv, of b now ok] by (simp add: c)
    have k1: "rid \<in> set (sv_handed s1)" "map_of (sv_runtimes s1) rid = Some rt" using claim_spare_keeps [OF inv rid, of b now ok] by (simp_all add: c)
    show ?thesis
    proof (cases claimed)
      case (Some r)
      then show ?thesis using True k1 by (simp add: launch_def Inr c refill_keeps refill_handed)
    next
      case None
      have same: "sv_procs s1 = sv_procs s"
        using c None by (auto simp: claim_spare_def Let_def drop_spare_def start_discard_def split: sum.splits option.splits if_splits prod.splits)
      have n1: "new_id s1 started" using new by (auto simp: new_id_def same split: option.splits)
      obtain s2 res where l: "launch_process os started b [] now ok s1 = (s2, res)" by (cases "launch_process os started b [] now ok s1")
      have "rid \<in> set (sv_handed s2)" "map_of (sv_runtimes s2) rid = Some rt"
        using launch_process_keeps [OF i1 n1 k1, of b "[]" now ok] by (simp_all add: l)
      then show ?thesis using True None by (cases res) (simp_all add: launch_def Inr c l refill_keeps refill_handed)
    qed
  qed
qed (simp add: launch_def rid)

lemma step_keeps_listed:
  assumes inv: "sup_inv os {} s" and fr: "fresh_start s e" and rid: "rid \<in> set (sv_handed s)" "map_of (sv_runtimes s) rid = Some rt"
    and t: "\<not> touches rid rt e"
  shows "rid \<in> set (sv_handed (supervisor_step os ins s e)) \<and> map_of (sv_runtimes (supervisor_step os ins s e)) rid = Some rt"
proof (cases e)
  case (SvLaunch a env started now ok)
  then show ?thesis using launch_keeps [OF inv _ rid] fr by (simp add: fresh_start_def)
next
  case (SvSpawn a started)
  then show ?thesis using rid
    by (simp add: spawn_untracked_def spawn_def put_process_def split: sum.split option.split prod.split)
next
  case (SvBooted ident started)
  have "sv_handed (spare_booted os ident started s) = sv_handed s \<and> sv_runtimes (spare_booted os ident started s) = sv_runtimes s"
    by (simp add: spare_booted_def Let_def spawn_def put_process_def drop_spare_def start_discard_def split: sum.split option.split prod.split)
  then show ?thesis using rid by (simp add: SvBooted)
next
  case (SvExpired a ident)
  then show ?thesis using rid by (simp add: spare_expired_def drop_spare_def start_discard_def split: option.split)
next
  case (SvExit r err i now ok)
  then have "r \<noteq> rid" using t by (simp add: touches_def)
  then show ?thesis using rid by (simp add: SvExit record_exit_def Let_def update_conv' split: option.split)
next
  case (SvPrune now)
  then have n: "\<not> prunable now rt" using t by (simp add: touches_def)
  have "map_of (filter (\<lambda>e. \<not> prunable now (snd e)) m) rid = Some rt" if "map_of m rid = Some rt" for m
    using that n by (induction m) (auto split: if_splits)
  then show ?thesis using rid by (simp add: SvPrune prune_stopped_def Let_def)
next
  case (SvEnded r)
  then show ?thesis using rid by (simp add: process_ended_def put_process_def split: option.split)
qed (use rid in \<open>simp_all add: enable_spares_def discard_process_def close_supervisor_def append_log_def\<close>)

lemma run_keeps_listed:
  assumes "sup_inv os {} s" "fresh_starts os ins s es" "rid \<in> set (sv_handed s)" "map_of (sv_runtimes s) rid = Some rt"
    and "list_all (\<lambda>e. \<not> touches rid rt e) es"
  shows "map_of (sv_runtimes (run (supervisor_step os ins) s es)) rid = Some rt"
  using assms
proof (induction es arbitrary: s)
  case (Cons e es)
  have "rid \<in> set (sv_handed (supervisor_step os ins s e)) \<and> map_of (sv_runtimes (supervisor_step os ins s e)) rid = Some rt"
    using Cons.prems by (intro step_keeps_listed) simp_all
  then show ?case using Cons.IH [OF supervisor_step_inv] Cons.prems by simp
qed simp

lemma handed_listed:
  assumes inv: "sup_inv os {} s" and l: "launch os ins a env started now ok s = (t, Inr rid)" and new: "new_id s started"
  shows "rid \<in> set (sv_handed t) \<and> (\<exists>rt. map_of (sv_runtimes t) rid = Some rt \<and> rt_status rt = RunRunning)"
proof -
  have lp: "rid' \<in> set (sv_handed t') \<and> (\<exists>rt. map_of (sv_runtimes t') rid' = Some rt \<and> rt_status rt = RunRunning)"
    if "launch_process os started b env now ok s' = (t', Inr rid')" for b env s' t' rid'
  proof (cases rule: spawn_cases [of os started b env s'])
    case (up r pid command dir p)
    then have t': "t' = hand_over rid' (register rid' now ok (put_process p s'))" "r = rid'" using that by (auto simp: launch_process_def)
    have p: "sv_procs (put_process p s') rid' = Some p" using up t'(2) by (simp add: put_process_def)
    show ?thesis unfolding t'(1) using register_some(2) [OF p] by (simp add: hand_over_def registered_as_def)
  qed (use that in \<open>simp add: launch_process_def\<close>)
  obtain b where b: "prepare_agent ins a = Inr b" using l by (cases "prepare_agent ins a") (auto simp: launch_def)
  show ?thesis
  proof (cases "env = []")
    case False
    then show ?thesis using l b lp by (simp add: launch_def)
  next
    case True
    obtain s1 claimed where c: "claim_spare os b now ok s = (s1, claimed)" by (cases "claim_spare os b now ok s")
    show ?thesis
    proof (cases claimed)
      case None
      obtain s2 res where r: "launch_process os started b [] now ok s1 = (s2, res)" by (cases "launch_process os started b [] now ok s1")
      then have "res = Inr rid" "t = refill_spare b s2" using l b True c None by (cases res; simp add: launch_def)+
      then show ?thesis using lp r by (simp add: refill_keeps refill_handed)
    next
      case (Some r)
      then have r: "r = rid" "t = refill_spare b s1" using l b True c by (simp_all add: launch_def)
      obtain p sp where p: "sv_procs s rid = Some p" and s1: "s1 = hand_over rid (register rid now ok
          (put_process (p\<lparr>pr_runtime := (pr_runtime p)\<lparr>rt_name := ag_name b\<rparr>\<rparr>) (drop_spare (ag_id b) s)))"
        using c Some r by (auto simp: claim_spare_def Let_def drop_spare_def split: sum.splits option.splits if_splits prod.splits)
      have id: "rt_id (pr_runtime p) = rid" using inv p by (simp add: sup_inv_def procs_ok_def)
      let ?p = "p\<lparr>pr_runtime := (pr_runtime p)\<lparr>rt_name := ag_name b\<rparr>\<rparr>"
      have q: "sv_procs (put_process ?p (drop_spare (ag_id b) s)) rid = Some ?p" by (simp add: put_process_def id)
      show ?thesis using r register_some(2) [OF q] by (simp add: s1 refill_keeps refill_handed hand_over_def registered_as_def)
    qed
  qed
qed

text \<open>
  A runtime stays listed: from its launch until its exit is recorded it is listed as running, whatever else is launched,
  ends, expires or is pruned; and after its exit it stays listed, as stopped or failed, through every pruning less than ten
  minutes later.\<close>

theorem runtime_listed_until_retention:
  assumes "fresh_starts os ins (new_supervisor store) es" "s = after_run os ins store es"
    and "new_id s started" "launch os ins a env started now ok s = (t, Inr rid)" and "at \<noteq> zero_time"
    and "fresh_starts os ins t (before @ SvExit rid err intentional at ok' # after)"
    and "list_all (\<lambda>e. case e of SvExit r _ _ _ _ \<Rightarrow> r \<noteq> rid | _ \<Rightarrow> True) before"
    and "list_all (\<lambda>e. case e of SvExit r _ _ _ _ \<Rightarrow> r \<noteq> rid | SvPrune clock \<Rightarrow> clock < at + 10 * minute | _ \<Rightarrow> True) after"
  shows "(\<exists>rt. map_of (sv_runtimes (run (supervisor_step os ins) t before)) rid = Some rt \<and> rt_status rt = RunRunning) \<and>
    (\<exists>rt. map_of (sv_runtimes (run (supervisor_step os ins) t (before @ SvExit rid err intentional at ok' # after))) rid = Some rt \<and>
       rt_status rt = (if \<not> intentional \<and> err \<noteq> None then RunFailed else RunStopped))"
proof -
  have i: "sup_inv os {} s" unfolding assms(2) by (rule after_run_inv [OF assms(1)])
  have it: "sup_inv os {} t" using launch_inv [OF i assms(3), of ins a env now ok] assms(4) by simp
  obtain rt where rt: "rid \<in> set (sv_handed t)" "map_of (sv_runtimes t) rid = Some rt" "rt_status rt = RunRunning"
    using handed_listed [OF i assms(4,3)] by blast
  have split: "fresh_starts os ins t (xs @ ys) \<longleftrightarrow> fresh_starts os ins t xs \<and> fresh_starts os ins (run (supervisor_step os ins) t xs) ys"
    for xs ys t by (induction xs arbitrary: t) simp_all
  let ?b = "run (supervisor_step os ins) t before"
  have fb: "fresh_starts os ins t before" and fa: "fresh_starts os ins ?b (SvExit rid err intentional at ok' # after)"
    using assms(6) split by blast+
  have q: "list_all (\<lambda>e. \<not> touches rid rt e) before"
    using assms(7) by (rule list.pred_mono_strong) (use rt(3) in \<open>auto simp: touches_def prunable_def Let_def split: supervisor_event.splits\<close>)
  have b: "map_of (sv_runtimes ?b) rid = Some rt" by (rule run_keeps_listed [OF it fb rt(1,2) q])
  have ib: "sup_inv os {} ?b" by (rule fresh_run_inv [OF it fb])
  have hb: "rid \<in> set (sv_handed ?b)"
  proof -
    have "sup_inv os {} u \<Longrightarrow> fresh_starts os ins u xs \<Longrightarrow> rid \<in> set (sv_handed u) \<Longrightarrow> map_of (sv_runtimes u) rid = Some rt \<Longrightarrow>
        list_all (\<lambda>e. \<not> touches rid rt e) xs \<Longrightarrow> rid \<in> set (sv_handed (run (supervisor_step os ins) u xs))" for u xs
    proof (induction xs arbitrary: u)
      case (Cons e xs)
      then have "rid \<in> set (sv_handed (supervisor_step os ins u e)) \<and> map_of (sv_runtimes (supervisor_step os ins u e)) rid = Some rt"
        by (intro step_keeps_listed) simp_all
      then show ?case using Cons.IH [OF supervisor_step_inv] Cons.prems by simp
    qed simp
    then show ?thesis using it fb rt(1,2) q by blast
  qed
  let ?x = "record_exit rid err intentional at ok' ?b"
  have ix: "sup_inv os {} ?x" using supervisor_step_inv [OF ib, of "SvExit rid err intentional at ok'" ins] fa by simp
  obtain rt' where rt': "map_of (sv_runtimes ?x) rid = Some rt'" "rt_status rt' = (if \<not> intentional \<and> err \<noteq> None then RunFailed else RunStopped)"
    "rt_status rt' = RunFailed \<Longrightarrow> rt_failure_at rt' = at" "rt_status rt' = RunStopped \<Longrightarrow> rt_stopped_at rt' = at"
    using b by (cases err; cases intentional) (auto simp: record_exit_def Let_def update_conv')
  have q': "list_all (\<lambda>e. \<not> touches rid rt' e) after"
  proof -
    have "\<not> prunable clock rt'" if "clock < at + 10 * minute" for clock
    proof (cases "rt_status rt'")
      case RunStopped
      then show ?thesis using that rt'(4) by (simp add: prunable_def Let_def stopped_runtime_retention_def)
    next
      case RunFailed
      then show ?thesis using that rt'(3) assms(5) by (simp add: prunable_def Let_def stopped_runtime_retention_def)
    qed (simp_all add: prunable_def Let_def)
    then show ?thesis
      by (intro list.pred_mono_strong [OF assms(8)]) (auto simp: touches_def split: supervisor_event.splits)
  qed
  have "map_of (sv_runtimes (run (supervisor_step os ins) ?x after)) rid = Some rt'"
    by (rule run_keeps_listed [OF ix _ _ rt'(1) q']) (use fa hb in \<open>simp_all add: record_exit_fields\<close>)
  then show ?thesis using b rt(3) rt'(2) by auto
qed

text \<open>A launch that claims the waiting spare, a crash, and nine minutes and a pruning later.\<close>

theorem runtime_listed_until_retention_witness:
  "\<exists>rt. map_of (sv_runtimes (run (supervisor_step plain_os None)
      (fst (launch plain_os None plain_agent [] (Some (''x'', 9)) 60 (True, True) (after_run plain_os None None spare_run)))
      ([SvPrune 70] @ SvExit ''q'' (Some ''exit status 1'') False 100 (True, True) # [SvEnded ''q'', SvPrune (100 + 9 * minute)]))) ''q'' = Some rt \<and>
    rt_status rt = RunFailed"
proof -
  let ?s = "after_run plain_os None None spare_run"
  let ?t = "fst (launch plain_os None plain_agent [] (Some (''x'', 9)) 60 (True, True) ?s)"
  have fr: "fresh_starts plain_os None (new_supervisor None) spare_run" by code_simp
  have new: "new_id ?s (Some (''x'', 9))" by code_simp
  have l: "launch plain_os None plain_agent [] (Some (''x'', 9)) 60 (True, True) ?s = (?t, Inr ''q'')"
    by (rule prod_eqI, simp) code_simp
  have z: "(100::gtime) \<noteq> zero_time" by code_simp
  have fr': "fresh_starts plain_os None ?t
      ([SvPrune 70] @ SvExit ''q'' (Some ''exit status 1'') False 100 (True, True) # [SvEnded ''q'', SvPrune (100 + 9 * minute)])"
    by code_simp
  note r = runtime_listed_until_retention [OF fr refl new l z fr']
  show ?thesis by (rule conjunct2 [OF r, simplified if_True if_False simp_thms option.simps], code_simp, code_simp)
qed

section \<open>The table of failures\<close>

lemma kept_by_index:
  assumes "map fst rows = [0..<length rows]" "set is \<subseteq> set rows" "distinct is"
  shows "mset (map snd (filter (\<lambda>(i, r). i \<in> set (map fst is)) rows)) = mset (map snd is)"
proof -
  have d: "distinct rows" using assms(1) by (metis distinct_map distinct_upt)
  have "(i, r) \<in> set is" if ir: "(i, r) \<in> set rows" "i \<in> set (map fst is)" for i r
  proof -
    obtain r' where r': "(i, r') \<in> set is" using ir(2) by auto
    then have "(i, r') \<in> set rows" using assms(2) by blast
    moreover have "distinct (map fst rows)" using assms(1) by simp
    ultimately show ?thesis using r' ir(1) by (metis eq_key_imp_eq_value)
  qed
  then have "set (filter (\<lambda>(i, r). i \<in> set (map fst is)) rows) = set is" using assms(2) by (auto simp: image_iff) force
  then have "mset (filter (\<lambda>(i, r). i \<in> set (map fst is)) rows) = mset is"
    using d assms(3) by (intro set_eq_iff_mset_eq_distinct [THEN iffD1]) (auto simp: distinct_filter)
  then show ?thesis by (metis mset_map)
qed

text \<open>
  The table of failures is bounded and keeps the newest: a write leaves at most two hundred rows, all of them rows that
  were there or the new one, in the order they were written; and no row it drops is newer than one it keeps.\<close>

theorem failure_table_keeps_newest:
  "length (tb_failures (save_runtime_failure r t)) = min max_runtime_failure_records (Suc (length (tb_failures t))) \<and>
   subseq (tb_failures (save_runtime_failure r t)) (tb_failures t @ [r]) \<and>
   set (tb_failures (save_runtime_failure r t)) \<times> set_mset (mset (tb_failures t @ [r]) - mset (tb_failures (save_runtime_failure r t)))
     \<subseteq> {(kept, dropped). fr_failed dropped \<le> fr_failed kept} \<and>
   tb_runtimes (save_runtime_failure r t) = tb_runtimes t"
proof -
  define rows where "rows = zip [0..<Suc (length (tb_failures t))] (tb_failures t @ [r])"
  define sorted_rows where "sorted_rows = sort_key (\<lambda>(i, r). - fr_failed r) (rev rows)"
  define best where "best = take max_runtime_failure_records sorted_rows"
  have len: "length rows = Suc (length (tb_failures t))" by (simp add: rows_def)
  have fst_rows: "map fst rows = [0..<length rows]" and snd_rows: "map snd rows = tb_failures t @ [r]"
    unfolding len by (simp_all add: rows_def del: upt_Suc zip_append)
  have m: "mset sorted_rows = mset rows" by (simp add: sorted_rows_def)
  have d: "distinct sorted_rows" using fst_rows m by (metis distinct_map distinct_upt mset_eq_imp_distinct_iff)
  have sub: "set best \<subseteq> set rows" using m by (metis best_def set_mset_mset set_take_subset)
  have kept: "tb_failures (save_runtime_failure r t) = map snd (filter (\<lambda>(i, r). i \<in> set (map fst best)) rows)"
    by (simp add: save_runtime_failure_def Let_def rows_def sorted_rows_def best_def del: upt_Suc zip_append)
  have mk: "mset (tb_failures (save_runtime_failure r t)) = mset (map snd best)"
    unfolding kept using d by (intro kept_by_index [OF fst_rows sub]) (simp add: best_def)
  have l: "length (tb_failures (save_runtime_failure r t)) = min max_runtime_failure_records (Suc (length (tb_failures t)))"
    using mset_eq_length [OF mk] mset_eq_length [OF m] len by (simp add: best_def)
  have s: "subseq (tb_failures (save_runtime_failure r t)) (tb_failures t @ [r])"
    unfolding kept snd_rows [symmetric] by (intro subseq_map subseq_filter_left)
  have split: "mset (tb_failures t @ [r]) = mset (map snd best) + mset (map snd (drop max_runtime_failure_records sorted_rows))"
    unfolding snd_rows [symmetric] mset_map m [symmetric] best_def by (metis append_take_drop_id image_mset_union mset_append)
  have "fr_failed y \<le> fr_failed x" if "x \<in># mset (map snd best)" "y \<in># mset (map snd (drop max_runtime_failure_records sorted_rows))" for x y
  proof -
    have "sorted (map (\<lambda>(i, r). - fr_failed r) (best @ drop max_runtime_failure_records sorted_rows))"
      by (simp add: best_def sorted_rows_def)
    then show ?thesis using that by (fastforce simp: sorted_append)
  qed
  then have "set_mset (mset (tb_failures (save_runtime_failure r t))) \<times>
      set_mset (mset (tb_failures t @ [r]) - mset (tb_failures (save_runtime_failure r t))) \<subseteq> {(x, y). fr_failed y \<le> fr_failed x}"
    unfolding mk split by auto
  then show ?thesis using l s by (simp add: save_runtime_failure_def Let_def)
qed

section \<open>The summary\<close>

definition late_crash_run :: "supervisor_event list" where
  "late_crash_run = SvLaunch plain_agent [] (Some (''old'', 1)) 10 (True, True) #
     concat (map (\<lambda>(rid, at). [SvLaunch plain_agent [] (Some (rid, 2)) at (True, True), SvExit rid (Some ''exit status 1'') False (at + 1) (True, True)])
       [(''r1'', 20), (''r2'', 30), (''r3'', 40), (''r4'', 50), (''r5'', 60)]) @
     [SvExit ''old'' (Some ''exit status 2'') False 70 (True, True)]"

text \<open>
  The summary can miss the latest failure: it dates a failed runtime that is still listed by its launch, so a runtime that
  crashes after five that were launched later is not among the five most recent failures, although it failed last
  and the table of failures says so.\<close>

theorem summary_misses_latest_failure:
  "fresh_starts plain_os None (new_supervisor (Some \<lparr>tb_runtimes = [], tb_failures = []\<rparr>)) late_crash_run \<and>
   (let s = after_run plain_os None (Some \<lparr>tb_runtimes = [], tb_failures = []\<rparr>) late_crash_run in
      map fs_runtime (sm_failures (snd (summarize 80 True s))) = [''r5'', ''r4'', ''r3'', ''r2'', ''r1''] \<and>
      map_option (\<lambda>t. map (\<lambda>r. (fr_runtime r, fr_failed r)) (list_recent_failures 1 t)) (sv_store s) = Some [(''old'', 70)])"
  by (rule conjI; code_simp)

end
