(* ===== verification/Http_Proof.thy ===== *)
theory Http_Proof
  imports Go_Text
begin

text \<open>
  Proof of possession (\<^verbatim>\<open>internal/api/proof.go\<close>): the signed message of a request, the replay tracker and the
  verification of the proof a request carries.

  The cryptography is the record \<open>crypto\<close>: the digest of a body, the two base64 decodings, the parsing of a PKIX
  key and the verification of a signature over a message.
\<close>

section \<open>Requests\<close>

text \<open>A body is absent, can be read, or breaks while it is read.\<close>

datatype request_body = NoBody | Body string | BrokenBody

record http_request =
  rq_method :: string
  rq_path :: string
  rq_query :: string
  rq_header :: "string \<rightharpoonup> string"
  rq_body :: request_body
  rq_remote :: string

definition header :: "http_request \<Rightarrow> string \<Rightarrow> string" where
  "header r k = (case rq_header r k of None \<Rightarrow> [] | Some v \<Rightarrow> v)"

datatype pkix_key = EcdsaKey string | OtherKey

record crypto =
  cy_body_digest :: "string \<Rightarrow> string"
  cy_raw_url :: "string \<Rightarrow> string option"
  cy_std :: "string \<Rightarrow> string option"
  cy_pkix :: "string \<Rightarrow> pkix_key option"
  cy_verify :: "string \<Rightarrow> string \<Rightarrow> string \<Rightarrow> bool"

definition json_body_limit :: nat where "json_body_limit = 16 * 1024"
definition proof_skew_window :: duration where "proof_skew_window = 5 * minute"
definition proof_replay_window :: duration where "proof_replay_window = 10 * minute"
definition proof_domain :: string where "proof_domain = ''FERNGEIST-HTTP-PROOF-V1''"
definition proof_header_timestamp :: string where "proof_header_timestamp = ''X-Ferngeist-Proof-Timestamp''"
definition proof_header_nonce :: string where "proof_header_nonce = ''X-Ferngeist-Proof-Nonce''"
definition proof_header_signature :: string where "proof_header_signature = ''X-Ferngeist-Proof-Signature''"
definition max_proof_nonces :: nat where "max_proof_nonces = 16384"

definition proof_required :: string where "proof_required = ''proof_required''"
definition proof_invalid :: string where "proof_invalid = ''proof_invalid''"
definition proof_expired :: string where "proof_expired = ''proof_expired''"
definition proof_replayed :: string where "proof_replayed = ''proof_replayed''"

section \<open>The signed message\<close>

definition newline :: char where "newline = CHR 0x0A"

definition build_proof_message :: "string \<Rightarrow> string \<Rightarrow> string \<Rightarrow> string \<Rightarrow> string \<Rightarrow> string \<Rightarrow> string" where
  "build_proof_message meth path_with_query token timestamp nonce body_hash =
     join_strings [newline] [proof_domain, to_upper (trim_space meth), path_with_query, token, timestamp, nonce, body_hash]"

definition request_path_with_raw_query :: "http_request \<Rightarrow> string" where
  "request_path_with_raw_query r = (if rq_query r = [] then rq_path r else rq_path r @ ''?'' @ rq_query r)"

definition request_body_hash :: "crypto \<Rightarrow> http_request \<Rightarrow> nat \<Rightarrow> string option" where
  "request_body_hash cy r max_bytes =
     (case rq_body r of
        NoBody \<Rightarrow> Some (cy_body_digest cy [])
      | BrokenBody \<Rightarrow> None
      | Body b \<Rightarrow> if 0 < max_bytes \<and> max_bytes < length b then None else Some (cy_body_digest cy b))"

definition decode_proof_base64 :: "crypto \<Rightarrow> string \<Rightarrow> string option" where
  "decode_proof_base64 cy value =
     (case cy_raw_url cy (trim_space value) of Some d \<Rightarrow> Some d | None \<Rightarrow> cy_std cy (trim_space value))"

definition parse_proof_public_key :: "crypto \<Rightarrow> string \<Rightarrow> string option" where
  "parse_proof_public_key cy encoded =
     (case decode_proof_base64 cy encoded of
        None \<Rightarrow> None
      | Some d \<Rightarrow> (case cy_pkix cy d of Some (EcdsaKey k) \<Rightarrow> Some k | _ \<Rightarrow> None))"

section \<open>Replay tracker and key cache\<close>

record nonce_tracker =
  nt_nonces :: "(string \<times> gtime) list"
  nt_last_sweep :: gtime

definition new_nonce_tracker :: nonce_tracker where
  "new_nonce_tracker = \<lparr>nt_nonces = [], nt_last_sweep = zero_time\<rparr>"

text \<open>The eviction deletes entries in iteration order until the cap is met.\<close>

definition sweep_nonces :: "gtime \<Rightarrow> nonce_tracker \<Rightarrow> nonce_tracker" where
  "sweep_nonces now t =
     (if minute \<le> now - nt_last_sweep t then
        (let live = filter (\<lambda>(k, expires). now < expires) (nt_nonces t)
         in t\<lparr>nt_last_sweep := now,
              nt_nonces := (if max_proof_nonces < length live then drop (length live - max_proof_nonces) live else live)\<rparr>)
      else t)"

definition seen_nonce :: "string \<Rightarrow> gtime \<Rightarrow> nonce_tracker \<Rightarrow> bool" where
  "seen_nonce key now t = (case map_of (nt_nonces t) key of None \<Rightarrow> False | Some expires \<Rightarrow> now < expires)"

definition use_nonce :: "string \<Rightarrow> gtime \<Rightarrow> nonce_tracker \<Rightarrow> nonce_tracker \<times> bool" where
  "use_nonce key now t =
     (if key = [] then (t, False)
      else
        let t1 = sweep_nonces now t in
        if seen_nonce key now t1 then (t1, False)
        else (t1\<lparr>nt_nonces := AList.update key (now + proof_replay_window) (nt_nonces t1)\<rparr>, True))"

type_synonym key_cache = "string \<rightharpoonup> string"

definition cached_proof_public_key :: "crypto \<Rightarrow> string \<Rightarrow> key_cache \<Rightarrow> key_cache \<times> string option" where
  "cached_proof_public_key cy encoded cache =
     (case cache encoded of
        Some k \<Rightarrow> (cache, Some k)
      | None \<Rightarrow> (case parse_proof_public_key cy encoded of None \<Rightarrow> (cache, None) | Some k \<Rightarrow> (cache(encoded \<mapsto> k), Some k)))"

section \<open>Verification\<close>

record proof_state =
  ph_nonces :: nonce_tracker
  ph_keys :: key_cache

definition unix_epoch :: int where "unix_epoch = 62135596800"

definition nonce_key :: "string \<Rightarrow> string \<Rightarrow> string" where
  "nonce_key device nonce = device @ '':'' @ nonce"

text \<open>
  The rejection code, if any. \<open>device\<close> and \<open>public_key\<close> are those of the credential; \<open>verify_signature\<close> is the part
  up to the signature, which changes only the key cache.\<close>

definition verify_signature ::
  "crypto \<Rightarrow> gtime \<Rightarrow> http_request \<Rightarrow> string \<Rightarrow> string \<Rightarrow> string \<Rightarrow> proof_state \<Rightarrow> proof_state \<times> string option" where
  "verify_signature cy now r token device public_key s =
     (let timestamp_text = trim_space (header r proof_header_timestamp);
          nonce = trim_space (header r proof_header_nonce);
          signature_text = trim_space (header r proof_header_signature)
      in if timestamp_text = [] \<or> nonce = [] \<or> signature_text = [] then (s, Some proof_required)
         else (case parse_int64 timestamp_text of
            None \<Rightarrow> (s, Some proof_invalid)
          | Some seconds \<Rightarrow>
              let timestamp = wrap64 (seconds + unix_epoch) * second in
              if timestamp < now - proof_skew_window \<or> now + proof_skew_window < timestamp then (s, Some proof_expired)
              else if seen_nonce (nonce_key device nonce) now (ph_nonces s) then (s, Some proof_replayed)
              else (case request_body_hash cy r json_body_limit of
                 None \<Rightarrow> (s, Some proof_invalid)
               | Some body_hash \<Rightarrow>
                   let (cache, key) = cached_proof_public_key cy public_key (ph_keys s);
                       s1 = s\<lparr>ph_keys := cache\<rparr>;
                       message = build_proof_message (rq_method r) (request_path_with_raw_query r) token timestamp_text nonce body_hash
                   in (case key of
                         None \<Rightarrow> (s1, Some proof_invalid)
                       | Some k \<Rightarrow>
                           (case decode_proof_base64 cy signature_text of
                              None \<Rightarrow> (s1, Some proof_invalid)
                            | Some signature \<Rightarrow> if cy_verify cy k message signature then (s1, None) else (s1, Some proof_invalid))))))"

definition verify_credential_proof ::
  "crypto \<Rightarrow> gtime \<Rightarrow> http_request \<Rightarrow> string \<Rightarrow> string \<Rightarrow> string \<Rightarrow> proof_state \<Rightarrow> proof_state \<times> string option" where
  "verify_credential_proof cy now r token device public_key s =
     (if trim_space public_key = [] then (s, None)
      else (case verify_signature cy now r token device public_key s of
          (s1, Some code) \<Rightarrow> (s1, Some code)
        | (s1, None) \<Rightarrow>
            let (t, fresh) = use_nonce (nonce_key device (trim_space (header r proof_header_nonce))) now (ph_nonces s1)
            in if fresh then (s1\<lparr>ph_nonces := t\<rparr>, None) else (s1\<lparr>ph_nonces := t\<rparr>, Some proof_replayed)))"

end
