(* ===== verification/Config.thy ===== *)
theory Config
  imports Go_Text
begin

text \<open>
  The gateway's configuration: \<^verbatim>\<open>internal/config/config.go\<close>, and how the daemon and the API server harden it
  (\<^verbatim>\<open>newRemoteAccess\<close> in \<^verbatim>\<open>internal/daemon/daemon.go\<close>, \<^verbatim>\<open>normalizeSecurityConfig\<close> in \<^verbatim>\<open>internal/api/server.go\<close>).

  The process environment is a map; the machine's host name, home directory and operating system, and how it joins
  paths, are the record \<open>machine\<close>.
\<close>

section \<open>Defaults\<close>

definition default_listen_addr :: string where "default_listen_addr = ''127.0.0.1:5788''"
definition default_admin_addr :: string where "default_admin_addr = ''127.0.0.1:5789''"
definition default_log_level :: string where "default_log_level = ''info''"
definition default_log_dir :: string where "default_log_dir = ''logs''"
definition default_log_max_size :: int where "default_log_max_size = 1024 * 1024"
definition default_log_backups :: int where "default_log_backups = 3"
definition default_pairing_arm_ttl :: duration where "default_pairing_arm_ttl = 2 * minute"
definition default_pairing_lockout_window :: duration where "default_pairing_lockout_window = 2 * minute"
definition default_pairing_start_refill :: duration where "default_pairing_start_refill = 5 * second"
definition default_pairing_complete_refill :: duration where "default_pairing_complete_refill = 2 * second"
definition default_pairing_max_attempts :: int where "default_pairing_max_attempts = 5"
definition default_pairing_burst_per_ip :: int where "default_pairing_burst_per_ip = 5"
definition default_pairing_burst_global :: int where "default_pairing_burst_global = 30"
definition default_credential_ttl :: duration where "default_credential_ttl = 7 * 24 * hour"
definition default_credential_grace_period :: duration where "default_credential_grace_period = 90 * 24 * hour"
definition default_session_max_disconnected :: duration where "default_session_max_disconnected = 15 * minute"
definition default_max_sessions_per_device :: int where "default_max_sessions_per_device = 5"
definition default_config_progress_interval :: duration where "default_config_progress_interval = 15 * second"
definition default_update_check_interval :: duration where "default_update_check_interval = 24 * hour"

record config =
  cf_listen_addr :: string
  cf_admin_addr :: string
  cf_log_level :: string
  cf_log_dir :: string
  cf_log_max_size :: int
  cf_log_max_backups :: int
  cf_registry_url :: string
  cf_public_url :: string
  cf_enable_lan :: bool
  cf_state_db :: string
  cf_gateway_name :: string
  cf_managed_bin_dir :: string
  cf_arm_ttl :: duration
  cf_max_attempts :: int
  cf_lockout_window :: duration
  cf_start_refill :: duration
  cf_complete_refill :: duration
  cf_burst_per_ip :: int
  cf_burst_global :: int
  cf_credential_ttl :: duration
  cf_grace_period :: duration
  cf_diagnostics_export :: bool
  cf_restart_env :: bool
  cf_require_proof :: bool
  cf_allow_legacy :: bool
  cf_max_disconnected :: duration
  cf_max_sessions :: int
  cf_progress_interval :: duration
  cf_frame_log :: bool
  cf_gateway_id :: string
  cf_vapid_public_key :: string
  cf_update_check :: bool
  cf_update_interval :: duration
  cf_keep_awake :: bool
  cf_tailscale_mode :: string
  cf_tailscale_auth_key :: string
  cf_tailscale_hostname :: string
  cf_tailscale_private :: bool
  cf_js_runtime :: string

record persisted_settings =
  ps_registry_url :: string
  ps_public_url :: string
  ps_enable_lan :: "bool option"
  ps_gateway_name :: string

record machine =
  mc_hostname :: "string option"
  mc_home :: "string option"
  mc_os :: string
  mc_join :: "string list \<Rightarrow> string"

type_synonym environment = "string \<rightharpoonup> string"

section \<open>Reading the environment\<close>

text \<open>\<^verbatim>\<open>os.Getenv\<close>: an unset variable reads as the empty string.\<close>

definition getenv :: "environment \<Rightarrow> string \<Rightarrow> string" where
  "getenv env key = (case env key of None \<Rightarrow> [] | Some v \<Rightarrow> v)"

definition has_env :: "environment \<Rightarrow> string \<Rightarrow> bool" where
  "has_env env key \<longleftrightarrow> env key \<noteq> None"

definition env_or_default :: "environment \<Rightarrow> string \<Rightarrow> string \<Rightarrow> string" where
  "env_or_default env key fallback = (if getenv env key = [] then fallback else getenv env key)"

definition env_int64_or_default :: "environment \<Rightarrow> string \<Rightarrow> int \<Rightarrow> int" where
  "env_int64_or_default env key fallback =
     (let value = getenv env key in
      if value = [] then fallback
      else (case parse_int64 value of None \<Rightarrow> fallback | Some n \<Rightarrow> if n \<le> 0 then fallback else n))"

definition env_int_or_default :: "environment \<Rightarrow> string \<Rightarrow> int \<Rightarrow> int" where
  "env_int_or_default env key fallback =
     (let value = getenv env key in
      if value = [] then fallback
      else (case parse_int64 value of None \<Rightarrow> fallback | Some n \<Rightarrow> if n \<le> 0 then fallback else n))"

definition env_duration_seconds_or_default :: "environment \<Rightarrow> string \<Rightarrow> duration \<Rightarrow> duration" where
  "env_duration_seconds_or_default env key fallback =
     (let value = trim_space (getenv env key) in
      if value = [] then fallback
      else (case parse_int64 value of None \<Rightarrow> fallback | Some n \<Rightarrow> if n \<le> 0 then fallback else wrap64 (n * second)))"

definition credential_grace_period_or_default :: "environment \<Rightarrow> duration" where
  "credential_grace_period_or_default env =
     (let value = trim_space (getenv env ''FERNGEIST_GATEWAY_CREDENTIAL_GRACE_SECONDS'') in
      if value = [] then default_credential_grace_period
      else (case parse_int64 value of None \<Rightarrow> default_credential_grace_period
            | Some n \<Rightarrow> if n < 0 then default_credential_grace_period else wrap64 (n * second)))"

definition env_bool :: "environment \<Rightarrow> string \<Rightarrow> bool" where
  "env_bool env key = (let value = trim_space (to_lower (getenv env key)) in value = ''1'' \<or> value = ''true'' \<or> value = ''yes'')"

definition env_bool_default_true :: "environment \<Rightarrow> string \<Rightarrow> bool" where
  "env_bool_default_true env key =
     (case env key of None \<Rightarrow> True
      | Some v \<Rightarrow> trim_space v \<noteq> [] \<and> v \<noteq> ''0'' \<and> \<not> equal_fold v ''false'')"

definition hostname_or_default :: "machine \<Rightarrow> string \<Rightarrow> string" where
  "hostname_or_default m fallback =
     (case mc_hostname m of None \<Rightarrow> fallback | Some name \<Rightarrow> if name = [] then fallback else name)"

definition normalize_tailscale_mode :: "string \<Rightarrow> string" where
  "normalize_tailscale_mode value =
     (let v = to_lower (trim_space value) in if v = ''auto'' \<or> v = ''cli'' \<or> v = ''tsnet'' then v else ''off'')"

definition normalize_js_runtime :: "string \<Rightarrow> string" where
  "normalize_js_runtime value =
     (let v = to_lower (trim_space value) in if v = ''bun'' \<or> v = ''node'' \<or> v = ''npm'' then v else ''auto'')"

definition default_managed_bin_dir :: "machine \<Rightarrow> environment \<Rightarrow> string" where
  "default_managed_bin_dir m env =
     (case mc_home m of
        None \<Rightarrow> ''managed-bin''
      | Some home \<Rightarrow>
          if trim_space home = [] then ''managed-bin''
          else if mc_os m = ''windows'' then
            (let appdata = trim_space (getenv env ''LocalAppData'') in
             if appdata \<noteq> [] then mc_join m [appdata, ''FerngeistGateway'', ''bin'']
             else mc_join m [home, ''AppData'', ''Local'', ''FerngeistGateway'', ''bin''])
          else if mc_os m = ''darwin'' then mc_join m [home, ''Library'', ''Application Support'', ''Ferngeist Gateway'', ''bin'']
          else mc_join m [home, ''.local'', ''share'', ''ferngeist-gateway'', ''bin''])"

section \<open>Security defaults\<close>

definition require_proof_env :: string where "require_proof_env = ''FERNGEIST_GATEWAY_REQUIRE_PROOF_OF_POSSESSION''"
definition allow_legacy_env :: string where "allow_legacy_env = ''FERNGEIST_GATEWAY_ALLOW_LEGACY_BEARER_CREDENTIALS''"

definition apply_security_defaults :: "environment \<Rightarrow> config \<Rightarrow> config" where
  "apply_security_defaults env c =
     (let public_mode = trim_space (cf_public_url c) \<noteq> [];
          remote_exposed = cf_tailscale_mode c \<noteq> [] \<and> cf_tailscale_mode c \<noteq> ''off''
      in c\<lparr>cf_require_proof := (if \<not> has_env env require_proof_env then public_mode \<or> remote_exposed else env_bool env require_proof_env),
           cf_allow_legacy := (if \<not> has_env env allow_legacy_env then \<not> public_mode \<and> \<not> remote_exposed else env_bool env allow_legacy_env)\<rparr>)"

definition load_config :: "machine \<Rightarrow> environment \<Rightarrow> config" where
  "load_config m env =
     apply_security_defaults env
       \<lparr>cf_listen_addr = env_or_default env ''FERNGEIST_GATEWAY_LISTEN_ADDR'' default_listen_addr,
        cf_admin_addr = env_or_default env ''FERNGEIST_GATEWAY_ADMIN_ADDR'' default_admin_addr,
        cf_log_level = env_or_default env ''FERNGEIST_GATEWAY_LOG_LEVEL'' default_log_level,
        cf_log_dir = env_or_default env ''FERNGEIST_GATEWAY_LOG_DIR'' default_log_dir,
        cf_log_max_size = env_int64_or_default env ''FERNGEIST_GATEWAY_LOG_MAX_BYTES'' default_log_max_size,
        cf_log_max_backups = env_int_or_default env ''FERNGEIST_GATEWAY_LOG_MAX_BACKUPS'' default_log_backups,
        cf_registry_url = env_or_default env ''FERNGEIST_GATEWAY_REGISTRY_URL''
          ''https://cdn.agentclientprotocol.com/registry/v1/latest/registry.json'',
        cf_public_url = trim_space (getenv env ''FERNGEIST_GATEWAY_PUBLIC_BASE_URL''),
        cf_enable_lan = (getenv env ''FERNGEIST_GATEWAY_ENABLE_LAN'' = ''1''),
        cf_state_db = env_or_default env ''FERNGEIST_GATEWAY_STATE_DB'' ''ferngeist-gateway.db'',
        cf_gateway_name = env_or_default env ''FERNGEIST_GATEWAY_NAME'' (hostname_or_default m ''ferngeist-gateway''),
        cf_managed_bin_dir = env_or_default env ''FERNGEIST_GATEWAY_MANAGED_BIN_DIR'' (default_managed_bin_dir m env),
        cf_arm_ttl = env_duration_seconds_or_default env ''FERNGEIST_GATEWAY_PAIRING_ARM_TTL_SECONDS'' default_pairing_arm_ttl,
        cf_max_attempts = env_int_or_default env ''FERNGEIST_GATEWAY_PAIRING_MAX_ATTEMPTS'' default_pairing_max_attempts,
        cf_lockout_window = env_duration_seconds_or_default env ''FERNGEIST_GATEWAY_PAIRING_LOCKOUT_SECONDS'' default_pairing_lockout_window,
        cf_start_refill = env_duration_seconds_or_default env ''FERNGEIST_GATEWAY_PAIRING_START_REFILL_SECONDS'' default_pairing_start_refill,
        cf_complete_refill = env_duration_seconds_or_default env ''FERNGEIST_GATEWAY_PAIRING_COMPLETE_REFILL_SECONDS'' default_pairing_complete_refill,
        cf_burst_per_ip = env_int_or_default env ''FERNGEIST_GATEWAY_PAIRING_BURST_PER_IP'' default_pairing_burst_per_ip,
        cf_burst_global = env_int_or_default env ''FERNGEIST_GATEWAY_PAIRING_BURST_GLOBAL'' default_pairing_burst_global,
        cf_credential_ttl = env_duration_seconds_or_default env ''FERNGEIST_GATEWAY_CREDENTIAL_TTL_SECONDS'' default_credential_ttl,
        cf_grace_period = credential_grace_period_or_default env,
        cf_diagnostics_export = env_bool env ''FERNGEIST_GATEWAY_ALLOW_REMOTE_DIAGNOSTICS_EXPORT'',
        cf_restart_env = env_bool env ''FERNGEIST_GATEWAY_ALLOW_REMOTE_RUNTIME_RESTART_ENV'',
        cf_require_proof = False, cf_allow_legacy = False,
        cf_max_disconnected = env_duration_seconds_or_default env ''FERNGEIST_GATEWAY_SESSION_MAX_DISCONNECTED_SECONDS'' default_session_max_disconnected,
        cf_max_sessions = env_int_or_default env ''FERNGEIST_GATEWAY_MAX_SESSIONS_PER_DEVICE'' default_max_sessions_per_device,
        cf_progress_interval = env_duration_seconds_or_default env ''FERNGEIST_GATEWAY_PROGRESS_INTERVAL_SECONDS'' default_config_progress_interval,
        cf_frame_log = env_bool env ''FERNGEIST_GATEWAY_FRAME_LOG'',
        cf_gateway_id = [], cf_vapid_public_key = [],
        cf_update_check = env_bool_default_true env ''FERNGEIST_GATEWAY_UPDATE_CHECK_ENABLED'',
        cf_update_interval = env_duration_seconds_or_default env ''FERNGEIST_GATEWAY_UPDATE_CHECK_INTERVAL_SECONDS'' default_update_check_interval,
        cf_keep_awake = env_bool_default_true env ''FERNGEIST_GATEWAY_KEEP_AWAKE'',
        cf_tailscale_mode = normalize_tailscale_mode (env_or_default env ''FERNGEIST_GATEWAY_TAILSCALE_MODE'' ''off''),
        cf_tailscale_auth_key = trim_space (getenv env ''FERNGEIST_GATEWAY_TAILSCALE_AUTH_KEY''),
        cf_tailscale_hostname = env_or_default env ''FERNGEIST_GATEWAY_TAILSCALE_HOSTNAME'' ''ferngeist-gateway'',
        cf_tailscale_private = env_bool env ''FERNGEIST_GATEWAY_TAILSCALE_PRIVATE'',
        cf_js_runtime = normalize_js_runtime (getenv env ''FERNGEIST_GATEWAY_JS_RUNTIME'')\<rparr>"

definition apply_persisted_settings :: "environment \<Rightarrow> persisted_settings \<Rightarrow> config \<Rightarrow> config" where
  "apply_persisted_settings env p c =
     (let c1 = (if \<not> has_env env ''FERNGEIST_GATEWAY_REGISTRY_URL'' \<and> trim_space (ps_registry_url p) \<noteq> []
                then c\<lparr>cf_registry_url := trim_space (ps_registry_url p)\<rparr> else c);
          c2 = (if \<not> has_env env ''FERNGEIST_GATEWAY_PUBLIC_BASE_URL'' \<and> trim_space (ps_public_url p) \<noteq> [] \<and> cf_tailscale_mode c1 \<noteq> ''off''
                then c1\<lparr>cf_public_url := trim_space (ps_public_url p)\<rparr> else c1);
          c3 = (case ps_enable_lan p of
                  Some lan \<Rightarrow> if \<not> has_env env ''FERNGEIST_GATEWAY_ENABLE_LAN'' then c2\<lparr>cf_enable_lan := lan\<rparr> else c2
                | None \<Rightarrow> c2);
          c4 = (if \<not> has_env env ''FERNGEIST_GATEWAY_NAME'' \<and> trim_space (ps_gateway_name p) \<noteq> []
                then c3\<lparr>cf_gateway_name := trim_space (ps_gateway_name p)\<rparr> else c3)
      in apply_security_defaults env c4)"

text \<open>The daemon's start: settings from the store when they could be read, then the URL that provisioning with an
  auth key obtained.\<close>

definition persisted_or_seeded :: "environment \<Rightarrow> persisted_settings option \<Rightarrow> config \<Rightarrow> config" where
  "persisted_or_seeded env stored c = (case stored of None \<Rightarrow> c | Some p \<Rightarrow> apply_persisted_settings env p c)"

definition new_remote_access :: "string option \<Rightarrow> bool \<Rightarrow> config \<Rightarrow> config" where
  "new_remote_access provisioned port_ok c =
     (if cf_tailscale_mode c = ''off'' \<or> \<not> port_ok then c
      else if cf_tailscale_auth_key c \<noteq> [] then (case provisioned of None \<Rightarrow> c | Some url \<Rightarrow> c\<lparr>cf_public_url := url\<rparr>)
      else c)"

definition normalize_security_config :: "config \<Rightarrow> config" where
  "normalize_security_config c =
     (if trim_space (cf_public_url c) \<noteq> [] then
        (let c1 = (if \<not> cf_require_proof c then c\<lparr>cf_require_proof := True\<rparr> else c)
         in if \<not> cf_allow_legacy c1 then c1\<lparr>cf_allow_legacy := False\<rparr> else c1)
      else if \<not> cf_require_proof c \<and> \<not> cf_allow_legacy c then c\<lparr>cf_allow_legacy := True\<rparr> else c)"

definition server_config :: "machine \<Rightarrow> environment \<Rightarrow> persisted_settings option \<Rightarrow> string option \<Rightarrow> bool \<Rightarrow> config" where
  "server_config m env stored provisioned port_ok =
     normalize_security_config (new_remote_access provisioned port_ok (persisted_or_seeded env stored (load_config m env)))"

end
