(* ===== verification/Pairing_Limits.thy ===== *)
theory Pairing_Limits
  imports Config Complex_Main
begin

text \<open>
  The protection of the pairing endpoints: the lockout after wrong codes (\<^verbatim>\<open>internal/api/pairing_attempt.go\<close>) and the
  token buckets (\<^verbatim>\<open>internal/api/pairing_ratelimit.go\<close>).

  The number of tokens of a bucket is a float64 in the code and a rational here: rounding is not modelled.
\<close>

definition pairing_max_attempts :: int where "pairing_max_attempts = 5"
definition pairing_lockout_window :: duration where "pairing_lockout_window = 2 * minute"
definition pairing_start_refill :: duration where "pairing_start_refill = 5 * second"
definition pairing_complete_refill :: duration where "pairing_complete_refill = 2 * second"
definition pairing_burst_per_ip :: int where "pairing_burst_per_ip = 5"
definition pairing_burst_global :: int where "pairing_burst_global = 30"
definition pairing_bucket_sweep_every :: duration where "pairing_bucket_sweep_every = minute"
definition pairing_max_ip_buckets :: nat where "pairing_max_ip_buckets = 4096"

section \<open>Failed attempts\<close>

record attempt_state =
  as_failures :: int
  as_locked_until :: gtime

record attempt_tracker =
  at_ip :: "string \<rightharpoonup> attempt_state"
  at_challenge :: "string \<rightharpoonup> attempt_state"
  at_max :: int
  at_window :: duration

definition new_attempt_tracker :: "config \<Rightarrow> attempt_tracker" where
  "new_attempt_tracker cfg =
     \<lparr>at_ip = Map.empty, at_challenge = Map.empty,
      at_max = (if cf_max_attempts cfg \<le> 0 then pairing_max_attempts else cf_max_attempts cfg),
      at_window = (if cf_lockout_window cfg \<le> 0 then pairing_lockout_window else cf_lockout_window cfg)\<rparr>"

definition known_ip :: "string \<Rightarrow> string" where
  "known_ip ip = (if ip = [] then ''unknown'' else ip)"

definition next_attempt_state :: "attempt_state option \<Rightarrow> gtime \<Rightarrow> int \<Rightarrow> duration \<Rightarrow> attempt_state" where
  "next_attempt_state st now limit window =
     (let s = (case st of None \<Rightarrow> \<lparr>as_failures = 0, as_locked_until = zero_time\<rparr> | Some s \<Rightarrow> s);
          s1 = s\<lparr>as_failures := as_failures s + 1\<rparr>
      in if limit \<le> as_failures s1 then s1\<lparr>as_locked_until := now + window, as_failures := 0\<rparr> else s1)"

definition record_failure :: "string \<Rightarrow> string \<Rightarrow> gtime \<Rightarrow> attempt_tracker \<Rightarrow> attempt_tracker" where
  "record_failure ip key now t =
     (let ip' = known_ip ip;
          t1 = t\<lparr>at_ip := (at_ip t)(ip' \<mapsto> next_attempt_state (at_ip t ip') now (at_max t) (at_window t))\<rparr>
      in if key = [] then t1
         else t1\<lparr>at_challenge := (at_challenge t1)(key \<mapsto> next_attempt_state (at_challenge t1 key) now (at_max t) (at_window t))\<rparr>)"

text \<open>\<^verbatim>\<open>attemptLocked\<close>: whether the key is locked, and the map without a lockout that has passed.\<close>

definition attempt_locked :: "(string \<rightharpoonup> attempt_state) \<Rightarrow> string \<Rightarrow> gtime \<Rightarrow> (string \<rightharpoonup> attempt_state) \<times> bool" where
  "attempt_locked m key now =
     (case m key of
        None \<Rightarrow> (m, False)
      | Some s \<Rightarrow> if as_locked_until s = zero_time then (m, False)
          else if as_locked_until s < now then (m(key := None), False) else (m, True))"

definition is_locked :: "string \<Rightarrow> string \<Rightarrow> gtime \<Rightarrow> attempt_tracker \<Rightarrow> attempt_tracker \<times> bool" where
  "is_locked ip key now t =
     (let (m, locked) = attempt_locked (at_ip t) (known_ip ip) now;
          t1 = t\<lparr>at_ip := m\<rparr>
      in if locked then (t1, True)
         else if key = [] then (t1, False)
         else (let (c, locked') = attempt_locked (at_challenge t1) key now in (t1\<lparr>at_challenge := c\<rparr>, locked')))"

definition reset_attempts :: "string \<Rightarrow> string \<Rightarrow> attempt_tracker \<Rightarrow> attempt_tracker" where
  "reset_attempts ip key t =
     (let t1 = t\<lparr>at_ip := (at_ip t)(known_ip ip := None)\<rparr>
      in if key = [] then t1 else t1\<lparr>at_challenge := (at_challenge t1)(key := None)\<rparr>)"

definition pairing_attempt_key :: "string \<Rightarrow> string" where
  "pairing_attempt_key challenge_id = (let c = trim_space challenge_id in if c = [] then ''active'' else c)"

definition request_source_ip :: "string \<Rightarrow> string" where
  "request_source_ip remote =
     (case split_host_port (trim_space remote) of Some (host, _) \<Rightarrow> host | None \<Rightarrow> trim_space remote)"

text \<open>
  \<^verbatim>\<open>handlePairComplete\<close> takes the tracker's lock for the check and again for recording a wrong code or clearing the counts;
  in between it checks the proof key and has the pairing service look at the code. So completions overlap: a request that
  passed the check stays open until its code turned out wrong or right, or it ended otherwise (a refused proof key or
  name, an unknown or expired challenge, a failure), which leaves the counts alone. The logs say which wrong codes were
  recorded since the address or the challenge was last cleared; the flag tells the requests that arrived during the run.
\<close>

record completing =
  cg_tracker :: attempt_tracker
  cg_open :: "(string \<times> string \<times> bool) list"
  cg_ip_log :: "string list"
  cg_key_log :: "string list"

datatype completing_event = Arrive string string gtime | Wrong_Code nat gtime | Given_Up nat | Right_Code nat

definition close_open :: "nat \<Rightarrow> completing \<Rightarrow> completing" where
  "close_open n c = c\<lparr>cg_open := take n (cg_open c) @ drop (Suc n) (cg_open c)\<rparr>"

definition completing_step :: "completing \<Rightarrow> completing_event \<Rightarrow> completing" where
  "completing_step c ev =
     (case ev of
        Arrive ip key now \<Rightarrow>
          (case is_locked ip key now (cg_tracker c) of
             (t, True) \<Rightarrow> c\<lparr>cg_tracker := t\<rparr>
           | (t, False) \<Rightarrow> c\<lparr>cg_tracker := t, cg_open := cg_open c @ [(ip, key, True)]\<rparr>)
      | Wrong_Code n now \<Rightarrow>
          if n < length (cg_open c) then
            (case cg_open c ! n of
               (ip, key, new) \<Rightarrow>
                 (close_open n c)\<lparr>cg_tracker := record_failure ip key now (cg_tracker c),
                   cg_ip_log := cg_ip_log c @ (if new then [known_ip ip] else []), cg_key_log := cg_key_log c @ (if new then [key] else [])\<rparr>)
          else c
      | Given_Up n \<Rightarrow> if n < length (cg_open c) then close_open n c else c
      | Right_Code n \<Rightarrow>
          if n < length (cg_open c) then
            (case cg_open c ! n of
               (ip, key, new) \<Rightarrow>
                 (close_open n c)\<lparr>cg_tracker := reset_attempts ip key (cg_tracker c),
                   cg_ip_log := filter (\<lambda>i. i \<noteq> known_ip ip) (cg_ip_log c), cg_key_log := filter (\<lambda>k. k \<noteq> key) (cg_key_log c)\<rparr>)
          else c)"

section \<open>Token buckets\<close>

record token_bucket =
  tk_tokens :: rat
  tk_last :: gtime

definition take_token :: "gtime \<Rightarrow> int \<Rightarrow> duration \<Rightarrow> token_bucket \<Rightarrow> token_bucket \<times> bool" where
  "take_token now capacity refill b =
     (let b1 = (if tk_last b = zero_time then \<lparr>tk_tokens = of_int capacity, tk_last = now\<rparr> else b);
          elapsed = now - tk_last b1;
          b2 = (if 0 < refill \<and> 0 < elapsed
                then \<lparr>tk_tokens = min (of_int capacity) (tk_tokens b1 + of_int elapsed / of_int refill), tk_last = now\<rparr>
                else b1)
      in if tk_tokens b2 < 1 then (b2, False) else (b2\<lparr>tk_tokens := tk_tokens b2 - 1\<rparr>, True))"

type_synonym buckets = "(string \<times> token_bucket) list"

record rate_limiter =
  rl_ip_start :: buckets
  rl_ip_done :: buckets
  rl_global_start :: token_bucket
  rl_global_done :: token_bucket
  rl_burst_ip :: int
  rl_burst_global :: int
  rl_start_refill :: duration
  rl_complete_refill :: duration
  rl_last_sweep :: gtime

definition new_rate_limiter :: "config \<Rightarrow> gtime \<Rightarrow> rate_limiter" where
  "new_rate_limiter cfg now =
     (let global = (if cf_burst_global cfg \<le> 0 then pairing_burst_global else cf_burst_global cfg) in
      \<lparr>rl_ip_start = [], rl_ip_done = [],
       rl_global_start = \<lparr>tk_tokens = of_int global, tk_last = now\<rparr>,
       rl_global_done = \<lparr>tk_tokens = of_int global, tk_last = now\<rparr>,
       rl_burst_ip = (if cf_burst_per_ip cfg \<le> 0 then pairing_burst_per_ip else cf_burst_per_ip cfg),
       rl_burst_global = global,
       rl_start_refill = (if cf_start_refill cfg \<le> 0 then pairing_start_refill else cf_start_refill cfg),
       rl_complete_refill = (if cf_complete_refill cfg \<le> 0 then pairing_complete_refill else cf_complete_refill cfg),
       rl_last_sweep = now\<rparr>)"

definition bucket_idle_ttl :: "int \<Rightarrow> duration \<Rightarrow> duration" where
  "bucket_idle_ttl capacity refill = (if capacity \<le> 0 \<or> refill \<le> 0 then 0 else 2 * capacity * refill)"

text \<open>One of the two loops of \<^verbatim>\<open>sweepBuckets\<close>.\<close>

definition drop_idle :: "gtime \<Rightarrow> int \<Rightarrow> duration \<Rightarrow> buckets \<Rightarrow> buckets" where
  "drop_idle now capacity refill bs =
     (let ttl = bucket_idle_ttl capacity refill in
      if 0 < ttl then filter (\<lambda>(ip, b). \<not> ttl \<le> now - tk_last b) bs else bs)"

definition sweep_buckets :: "gtime \<Rightarrow> rate_limiter \<Rightarrow> rate_limiter" where
  "sweep_buckets now l =
     l\<lparr>rl_ip_start := drop_idle now (rl_burst_ip l) (rl_start_refill l) (rl_ip_start l),
       rl_ip_done := drop_idle now (rl_burst_ip l) (rl_complete_refill l) (rl_ip_done l)\<rparr>"

definition maybe_sweep_buckets :: "gtime \<Rightarrow> rate_limiter \<Rightarrow> rate_limiter" where
  "maybe_sweep_buckets now l =
     (if now - rl_last_sweep l < pairing_bucket_sweep_every then l else sweep_buckets now (l\<lparr>rl_last_sweep := now\<rparr>))"

definition new_bucket :: token_bucket where "new_bucket = \<lparr>tk_tokens = 0, tk_last = zero_time\<rparr>"

definition buckets_of :: "bool \<Rightarrow> rate_limiter \<Rightarrow> buckets" where
  "buckets_of start l = (if start then rl_ip_start l else rl_ip_done l)"

definition put_bucket :: "bool \<Rightarrow> string \<Rightarrow> token_bucket \<Rightarrow> rate_limiter \<Rightarrow> rate_limiter" where
  "put_bucket start ip b l =
     (if start then l\<lparr>rl_ip_start := AList.update ip b (rl_ip_start l)\<rparr> else l\<lparr>rl_ip_done := AList.update ip b (rl_ip_done l)\<rparr>)"

definition load_bucket :: "bool \<Rightarrow> string \<Rightarrow> gtime \<Rightarrow> rate_limiter \<Rightarrow> rate_limiter \<times> token_bucket \<times> bool" where
  "load_bucket start ip now l =
     (case map_of (buckets_of start l) ip of
        Some b \<Rightarrow> (l, b, True)
      | None \<Rightarrow>
          if pairing_max_ip_buckets \<le> length (buckets_of start l) then
            (let l1 = sweep_buckets now l in
             case map_of (buckets_of start l1) ip of
               Some b \<Rightarrow> (l1, b, True)
             | None \<Rightarrow> if pairing_max_ip_buckets \<le> length (buckets_of start l1) then (l1, new_bucket, False) else (l1, new_bucket, True))
          else (l, new_bucket, True))"

definition take_global :: "bool \<Rightarrow> gtime \<Rightarrow> rate_limiter \<Rightarrow> rate_limiter \<times> bool" where
  "take_global start now l =
     (if start then
        (let (g, ok) = take_token now (rl_burst_global l) (rl_start_refill l) (rl_global_start l) in (l\<lparr>rl_global_start := g\<rparr>, ok))
      else
        (let (g, ok) = take_token now (rl_burst_global l) (rl_complete_refill l) (rl_global_done l) in (l\<lparr>rl_global_done := g\<rparr>, ok)))"

definition refill_of :: "bool \<Rightarrow> rate_limiter \<Rightarrow> duration" where
  "refill_of start l = (if start then rl_start_refill l else rl_complete_refill l)"

definition allow_request :: "string \<Rightarrow> bool \<Rightarrow> gtime \<Rightarrow> rate_limiter \<Rightarrow> rate_limiter \<times> bool" where
  "allow_request ip start now l =
     (let (l1, b, stored) = load_bucket start (known_ip ip) now (maybe_sweep_buckets now l);
          (b1, ok) = take_token now (rl_burst_ip l1) (refill_of start l1) b;
          l2 = (if stored then put_bucket start (known_ip ip) b1 l1 else l1)
      in if ok then take_global start now l2 else (l2, False))"

end
