(* ===== verification/Http_Auth.thy ===== *)
theory Http_Auth
  imports Http_Proof Pairing_Limits Pairing
begin

text \<open>
  The authentication gate of the control API (\<^verbatim>\<open>internal/api/auth.go\<close>) and the pairing handlers
  (\<^verbatim>\<open>internal/api/pairing_handlers.go\<close>), over the pairing service, the proof verification and the limits.

  A handler gets the decoded body of its request; the random values and the clock are arguments as in the components.
\<close>

section \<open>The gateway as the handlers see it\<close>

record gateway =
  gw_config :: config
  gw_pairing :: pairing_service
  gw_proofs :: proof_state
  gw_limiter :: rate_limiter
  gw_attempts :: attempt_tracker

definition credential_missing :: string where "credential_missing = ''credential_missing''"
definition credential_invalid :: string where "credential_invalid = ''credential_invalid''"
definition credential_expired :: string where "credential_expired = ''credential_expired''"
definition credential_grace_expired :: string where "credential_grace_expired = ''credential_grace_expired''"
definition credential_scope :: string where "credential_scope = ''credential_scope''"
definition legacy_credentials_disabled :: string where "legacy_credentials_disabled = ''legacy_credentials_disabled''"

text \<open>What a handler answers: an auth rejection with its code, another error, or a result.\<close>

datatype reply =
    AuthRejected nat string
  | Refused nat string
  | IssuedCredential credential
  | StartedChallenge string gtime
  | PairingStatus challenge_status
  | DeviceList "credential list"

definition auth_error_code :: "pairing_error \<Rightarrow> string" where
  "auth_error_code e =
     (case e of
        ErrCredentialMissing \<Rightarrow> credential_missing
      | ErrCredentialInvalid \<Rightarrow> credential_invalid
      | ErrCredentialExpired \<Rightarrow> credential_expired
      | ErrCredentialGraceExpired \<Rightarrow> credential_grace_expired
      | ErrCredentialScope \<Rightarrow> credential_scope
      | _ \<Rightarrow> [])"

definition bearer_token :: "http_request \<Rightarrow> string" where
  "bearer_token r =
     (let auth = trim_space (header r ''Authorization'') in
      if auth = [] then []
      else if \<not> has_prefix auth ''Bearer '' then []
      else trim_space (drop (length ''Bearer '') auth))"

section \<open>The gate\<close>

definition legacy_refused :: "credential \<Rightarrow> gateway \<Rightarrow> bool" where
  "legacy_refused c g \<longleftrightarrow> trim_space (cd_proof c) = [] \<and> \<not> cf_allow_legacy (gw_config g)"

definition check_proof :: "crypto \<Rightarrow> gtime \<Rightarrow> http_request \<Rightarrow> credential \<Rightarrow> gateway \<Rightarrow> gateway \<times> string option" where
  "check_proof cy now r c g =
     (let (p, code) = verify_credential_proof cy now r (bearer_token r) (cd_device c) (cd_proof c) (gw_proofs g)
      in (g\<lparr>gw_proofs := p\<rparr>, code))"

definition require_gateway_credential ::
  "crypto \<Rightarrow> (string \<Rightarrow> string) \<Rightarrow> (string \<Rightarrow> bool) \<Rightarrow> gtime \<Rightarrow> http_request \<Rightarrow> gateway \<Rightarrow> gateway \<times> (reply + credential)" where
  "require_gateway_credential cy digest io now r g =
     (let (ps, res) = validate_credential digest io now (bearer_token r) (gw_pairing g);
          g1 = g\<lparr>gw_pairing := ps\<rparr>
      in case res of
           Inl e \<Rightarrow> (g1, Inl (AuthRejected 401 (auth_error_code e)))
         | Inr c \<Rightarrow>
             if legacy_refused c g1 then (g1, Inl (AuthRejected 401 legacy_credentials_disabled))
             else (case check_proof cy now r c g1 of
                 (g2, Some code) \<Rightarrow> (g2, Inl (AuthRejected 401 code))
               | (g2, None) \<Rightarrow> (g2, Inr c)))"

definition require_gateway_scope ::
  "crypto \<Rightarrow> (string \<Rightarrow> string) \<Rightarrow> (string \<Rightarrow> bool) \<Rightarrow> gtime \<Rightarrow> string \<Rightarrow> http_request \<Rightarrow> gateway \<Rightarrow> gateway \<times> (reply + credential)" where
  "require_gateway_scope cy digest io now scope r g =
     (case require_gateway_credential cy digest io now r g of
        (g1, Inl e) \<Rightarrow> (g1, Inl e)
      | (g1, Inr c) \<Rightarrow>
          (case require_scope scope c of
             Some e \<Rightarrow> (g1, Inl (AuthRejected 403 (auth_error_code e)))
           | None \<Rightarrow> (g1, Inr c)))"

definition handle_auth_refresh ::
  "crypto \<Rightarrow> (string \<Rightarrow> string) \<Rightarrow> (string \<Rightarrow> bool) \<Rightarrow> gtime \<Rightarrow> string \<Rightarrow> http_request \<Rightarrow> gateway \<Rightarrow> gateway \<times> reply" where
  "handle_auth_refresh cy digest io now fresh r g =
     (case lookup_credential digest now (bearer_token r) (gw_pairing g) of
        Inl e \<Rightarrow> (g, AuthRejected 401 (auth_error_code e))
      | Inr c \<Rightarrow>
          if legacy_refused c g then (g, AuthRejected 401 legacy_credentials_disabled)
          else (case check_proof cy now r c g of
              (g1, Some code) \<Rightarrow> (g1, AuthRejected 401 code)
            | (g1, None) \<Rightarrow>
                (case refresh_credential digest io now fresh (bearer_token r) (gw_pairing g1) of
                   (ps, Inr c') \<Rightarrow> (g1\<lparr>gw_pairing := ps\<rparr>, IssuedCredential c')
                 | (ps, Inl e) \<Rightarrow>
                     (g1\<lparr>gw_pairing := ps\<rparr>,
                      if e \<in> {ErrCredentialMissing, ErrCredentialInvalid, ErrCredentialExpired, ErrCredentialGraceExpired}
                      then AuthRejected 401 (auth_error_code e) else Refused 500 ''failed to refresh gateway credential''))))"

section \<open>Pairing\<close>

definition allow_pairing_request :: "http_request \<Rightarrow> bool \<Rightarrow> gtime \<Rightarrow> gateway \<Rightarrow> gateway \<times> bool" where
  "allow_pairing_request r start now g =
     (let (l, ok) = allow_request (request_source_ip (rq_remote r)) start now (gw_limiter g) in (g\<lparr>gw_limiter := l\<rparr>, ok))"

definition handle_pair_start ::
  "(string \<Rightarrow> bool) \<Rightarrow> gtime \<Rightarrow> string \<Rightarrow> string \<Rightarrow> http_request \<Rightarrow> gateway \<Rightarrow> gateway \<times> reply" where
  "handle_pair_start io now cid code r g =
     (if rq_method r \<noteq> ''POST'' then (g, Refused 405 ''method not allowed'')
      else (case allow_pairing_request r True now g of
          (g1, False) \<Rightarrow> (g1, Refused 429 ''pairing temporarily rate-limited'')
        | (g1, True) \<Rightarrow>
            (case start_pairing io now cid code (gw_pairing g1) of
               (ps, Inl e) \<Rightarrow> (g1\<lparr>gw_pairing := ps\<rparr>,
                  if e = ErrPairingNotArmed then Refused 403 ''pairing not armed'' else Refused 500 ''failed to start pairing'')
             | (ps, Inr ch) \<Rightarrow> (g1\<lparr>gw_pairing := ps\<rparr>, StartedChallenge (ch_id ch) (ch_expires ch)))))"

record pair_complete_request =
  pc_challenge :: string
  pc_code :: string
  pc_device :: string
  pc_proof_key :: string

text \<open>\<open>body\<close> is the decoded body, \<open>None\<close> when it is too large or not of the form; \<open>dev\<close> and \<open>token\<close> are random.\<close>

definition handle_pair_complete ::
  "crypto \<Rightarrow> (string \<Rightarrow> string) \<Rightarrow> (string \<Rightarrow> bool) \<Rightarrow> gtime \<Rightarrow> string \<Rightarrow> string \<Rightarrow> pair_complete_request option \<Rightarrow> http_request \<Rightarrow>
     gateway \<Rightarrow> gateway \<times> reply" where
  "handle_pair_complete cy digest io now dev token body r g =
     (if rq_method r \<noteq> ''POST'' then (g, Refused 405 ''method not allowed'')
      else (case allow_pairing_request r False now g of
          (g1, False) \<Rightarrow> (g1, Refused 429 ''pairing temporarily rate-limited'')
        | (g1, True) \<Rightarrow>
            (case body of
               None \<Rightarrow> (g1, Refused 400 ''invalid request body'')
             | Some q \<Rightarrow>
                 let source = request_source_ip (rq_remote r);
                     key = pairing_attempt_key (pc_challenge q);
                     proof_key = trim_space (pc_proof_key q);
                     (tr, locked) = is_locked source key now (gw_attempts g1);
                     g2 = g1\<lparr>gw_attempts := tr\<rparr>
                 in if locked then (g2, Refused 429 ''pairing temporarily locked'')
                    else if cf_require_proof (gw_config g2) \<and> proof_key = [] then (g2, Refused 400 ''proof public key required'')
                    else if proof_key \<noteq> [] \<and> parse_proof_public_key cy proof_key = None then (g2, Refused 400 ''invalid proof public key'')
                    else
                      (case complete_pairing digest io now dev token (pc_challenge q) (pc_code q) (pc_device q) proof_key (gw_pairing g2) of
                         (ps, Inr c) \<Rightarrow>
                           (g2\<lparr>gw_pairing := ps, gw_attempts := reset_attempts source key (gw_attempts g2)\<rparr>, IssuedCredential c)
                       | (ps, Inl e) \<Rightarrow>
                           let g3 = g2\<lparr>gw_pairing := ps\<rparr> in
                           (case e of
                              ErrInvalidDeviceName \<Rightarrow> (g3, Refused 400 ''invalid device name'')
                            | ErrCodeMismatch \<Rightarrow> (g3\<lparr>gw_attempts := record_failure source key now (gw_attempts g3)\<rparr>, Refused 401 ''pairing failed'')
                            | ErrChallengeNotFound \<Rightarrow> (g3, Refused 401 ''pairing failed'')
                            | ErrChallengeExpired \<Rightarrow> (g3, Refused 401 ''pairing failed'')
                            | _ \<Rightarrow> (g3, Refused 500 ''failed to complete pairing''))))))"

text \<open>The state of a challenge and the admin handlers.\<close>

definition handle_pair_status :: "(string \<Rightarrow> bool) \<Rightarrow> gtime \<Rightarrow> string \<Rightarrow> gateway \<Rightarrow> gateway \<times> reply" where
  "handle_pair_status io now cid g =
     (case get_status io now cid (gw_pairing g) of
        (ps, Inl _) \<Rightarrow> (g\<lparr>gw_pairing := ps\<rparr>, Refused 404 ''pairing challenge not found'')
      | (ps, Inr st) \<Rightarrow> (g\<lparr>gw_pairing := ps\<rparr>, PairingStatus (st\<lparr>cs_code := []\<rparr>)))"

definition handle_admin_pairing_start ::
  "(string \<Rightarrow> bool) \<Rightarrow> gtime \<Rightarrow> string \<Rightarrow> string \<Rightarrow> gateway \<Rightarrow> gateway \<times> reply" where
  "handle_admin_pairing_start io now cid code g =
     (case start_with_approval io now cid code (gw_pairing g) of
        (ps, Inl _) \<Rightarrow> (g\<lparr>gw_pairing := ps\<rparr>, Refused 500 ''failed to start pairing'')
      | (ps, Inr ch) \<Rightarrow> (g\<lparr>gw_pairing := ps\<rparr>, PairingStatus
          \<lparr>cs_id = ch_id ch, cs_code = ch_code ch, cs_expires = ch_expires ch, cs_state = ChallengeActive, cs_completed = None\<rparr>))"

definition handle_admin_pairing_status :: "(string \<Rightarrow> bool) \<Rightarrow> gtime \<Rightarrow> string \<Rightarrow> gateway \<Rightarrow> gateway \<times> reply" where
  "handle_admin_pairing_status io now cid g =
     (case get_status io now cid (gw_pairing g) of
        (ps, Inl _) \<Rightarrow> (g\<lparr>gw_pairing := ps\<rparr>, Refused 404 ''pairing challenge not found'')
      | (ps, Inr st) \<Rightarrow> (g\<lparr>gw_pairing := ps\<rparr>, PairingStatus st))"

definition handle_admin_pairing_cancel :: "(string \<Rightarrow> bool) \<Rightarrow> gtime \<Rightarrow> string \<Rightarrow> gateway \<Rightarrow> gateway \<times> reply" where
  "handle_admin_pairing_cancel io now cid g =
     (case cancel_challenge io now cid (gw_pairing g) of
        (ps, Inl _) \<Rightarrow> (g\<lparr>gw_pairing := ps\<rparr>, Refused 404 ''pairing challenge not found'')
      | (ps, Inr st) \<Rightarrow> (g\<lparr>gw_pairing := ps\<rparr>, PairingStatus st))"

definition handle_admin_devices :: "(string \<Rightarrow> bool) \<Rightarrow> gtime \<Rightarrow> gateway \<Rightarrow> gateway \<times> reply" where
  "handle_admin_devices io now g = (case list_devices io now (gw_pairing g) of (ps, ds) \<Rightarrow> (g\<lparr>gw_pairing := ps\<rparr>, DeviceList ds))"

definition handle_admin_device_revoke :: "(string \<Rightarrow> bool) \<Rightarrow> string \<Rightarrow> gateway \<Rightarrow> gateway \<times> reply" where
  "handle_admin_device_revoke io dev g =
     (case revoke_device io dev (gw_pairing g) of
        (ps, Inr c) \<Rightarrow> (g\<lparr>gw_pairing := ps\<rparr>, DeviceList [c])
      | (ps, Inl e) \<Rightarrow> (g\<lparr>gw_pairing := ps\<rparr>,
          if e = ErrDeviceNotFound then Refused 404 ''device not found'' else Refused 500 ''failed to revoke paired device''))"

section \<open>Reachability of the gateway\<close>

text \<open>\<open>is_ip\<close>, \<open>is_loopback\<close> and \<open>is_unspecified\<close> are those of \<^verbatim>\<open>net.ParseIP\<close>; \<open>lan_host\<close> is the first address of the
  machine's interfaces; \<open>public_url\<close> is the effective public URL with the scheme and host it parses into.\<close>

record host_kind =
  hk_ip :: "string \<Rightarrow> bool"
  hk_loopback :: "string \<Rightarrow> bool"
  hk_unspecified :: "string \<Rightarrow> bool"

definition bare_host :: "string \<Rightarrow> string" where
  "bare_host host = trim_chars {CHR ''['', CHR '']''} (trim_space host)"

definition is_routable_host :: "host_kind \<Rightarrow> string \<Rightarrow> bool" where
  "is_routable_host hk host0 =
     (let host = bare_host host0 in
      if host = [] then False
      else if equal_fold host ''localhost'' then False
      else if hk_ip hk host then \<not> hk_loopback hk host \<and> \<not> hk_unspecified hk host
      else True)"

definition is_loopback_host :: "host_kind \<Rightarrow> string \<Rightarrow> bool" where
  "is_loopback_host hk host0 = (let host = bare_host host0 in hk_ip hk host \<and> hk_loopback hk host)"

datatype target_error = PublicUrlInvalid | ListenAddressInvalid | LocalOnly | LoopbackListen | NoLanAddress

definition pairing_target_of ::
  "host_kind \<Rightarrow> string option \<Rightarrow> (string \<Rightarrow> (string \<times> string) option) \<Rightarrow> string \<Rightarrow> config \<Rightarrow> target_error + string \<times> string" where
  "pairing_target_of hk lan_host parse_url public_url cfg =
     (if public_url \<noteq> [] then
        (case parse_url public_url of
           Some (scheme, host) \<Rightarrow> if scheme = [] \<or> host = [] then Inl PublicUrlInvalid else Inr (scheme, host)
         | None \<Rightarrow> Inl PublicUrlInvalid)
      else (case split_host_port (cf_listen_addr cfg) of
          None \<Rightarrow> Inl ListenAddressInvalid
        | Some (listen_host, port) \<Rightarrow>
            let host = bare_host listen_host in
            if trim_space port = [] then Inl ListenAddressInvalid
            else if is_routable_host hk host then Inr (''http'', join_host_port host port)
            else if \<not> cf_enable_lan cfg then Inl LocalOnly
            else if host \<noteq> [] \<and> (equal_fold host ''localhost'' \<or> is_loopback_host hk host) then Inl LoopbackListen
            else (case lan_host of None \<Rightarrow> Inl NoLanAddress | Some h \<Rightarrow> Inr (''http'', join_host_port h port))))"

text \<open>\<^verbatim>\<open>requireLocalAdminRequest\<close>.\<close>

definition is_ip_or_localhost :: "host_kind \<Rightarrow> string \<Rightarrow> bool" where
  "is_ip_or_localhost hk hostport =
     (let host = trim_chars {CHR ''['', CHR '']''} (case split_host_port hostport of Some (h, _) \<Rightarrow> h | None \<Rightarrow> hostport)
      in equal_fold host ''localhost'' \<or> hk_ip hk host)"

definition admin_request_allowed :: "host_kind \<Rightarrow> string \<Rightarrow> http_request \<Rightarrow> bool" where
  "admin_request_allowed hk host r \<longleftrightarrow> \<not> (header r ''Origin'' \<noteq> [] \<or> \<not> is_ip_or_localhost hk host)"

section \<open>Remote access in the status\<close>

record remote_status =
  rs_configured :: bool
  rs_mode :: string
  rs_scope :: string
  rs_healthy :: bool
  rs_warning :: string
  rs_public_url :: string
  rs_auth_required :: bool
  rs_auth_url :: string

record setup_snapshot =
  ss_auth_required :: bool
  ss_auth_url :: string
  ss_hint :: string
  ss_last_err :: string

definition is_private_hostname :: "string \<Rightarrow> bool" where
  "is_private_hostname host \<longleftrightarrow> host = ''localhost'' \<or> host = ''127.0.0.1'' \<or> host = ''::1'' \<or>
     has_suffix host ''.local'' \<or> has_suffix host ''.internal'' \<or> has_suffix host ''.lan''"

text \<open>\<open>parsed\<close>: the scheme, host and host name of the URL.\<close>

definition classify_remote_url :: "(string \<times> string \<times> string) option \<Rightarrow> string \<times> string \<times> string \<times> bool" where
  "classify_remote_url parsed =
     (case parsed of
        None \<Rightarrow> (''configured'', ''unknown'', ''public base URL is invalid'', False)
      | Some (scheme, hostport, hostname) \<Rightarrow>
          if scheme = [] \<or> hostport = [] then (''configured'', ''unknown'', ''public base URL is invalid'', False)
          else
            let host = to_lower hostname;
                (mode, scope) =
                  (if has_suffix host ''.ts.net'' \<or> str_contains host ''tailscale'' then (''tailscale'', ''private'')
                   else if has_suffix host ''.trycloudflare.com'' \<or> str_contains host ''cloudflare'' then (''cloudflare_tunnel'', ''public'')
                   else if is_private_hostname host then (''manual_reverse_proxy'', ''private'')
                   else (''manual_reverse_proxy'', ''public''))
            in (mode, scope, if scheme \<noteq> ''https'' then ''remote access should use HTTPS'' else [], True))"

definition remote_security_warning :: "config \<Rightarrow> string \<Rightarrow> string" where
  "remote_security_warning cfg scope =
     (if trim_space scope \<noteq> ''public'' then []
      else join_strings ''; ''
        ((if \<not> cf_require_proof cfg then [''public mode should require proof-of-possession pairing''] else []) @
         (if cf_allow_legacy cfg then [''legacy bearer credentials are still allowed''] else [])))"

text \<open>A warning is added with the separator also when there was none before.\<close>

definition add_warning :: "string \<Rightarrow> string \<Rightarrow> string" where
  "add_warning warning w = trim_space (join_strings ''; '' [warning, w])"

definition remote_status_of ::
  "config \<Rightarrow> (string \<Rightarrow> (string \<times> string \<times> string) option) \<Rightarrow> string \<Rightarrow> setup_snapshot option \<Rightarrow> bool \<Rightarrow> remote_status" where
  "remote_status_of cfg parse_url public_url setup include_url =
     (let s0 = \<lparr>rs_configured = (public_url \<noteq> []), rs_mode = [], rs_scope = [], rs_healthy = True, rs_warning = [],
                rs_public_url = [], rs_auth_required = False, rs_auth_url = []\<rparr>;
          s1 = (if public_url \<noteq> [] then
                  (let (mode, scope, warning, healthy) = classify_remote_url (parse_url public_url);
                       extra = remote_security_warning cfg scope
                   in s0\<lparr>rs_mode := mode, rs_scope := scope, rs_healthy := healthy,
                         rs_warning := (if extra \<noteq> [] then add_warning warning extra else warning),
                         rs_public_url := (if include_url then public_url else [])\<rparr>)
                else if cf_enable_lan cfg then s0\<lparr>rs_mode := ''lan_direct'', rs_scope := ''lan''\<rparr>
                else s0\<lparr>rs_mode := ''local_only'', rs_scope := ''local''\<rparr>)
      in case setup of
           None \<Rightarrow> s1
         | Some snap \<Rightarrow>
             let s2 = (if ss_auth_required snap
                       then s1\<lparr>rs_mode := ''tsnet'', rs_scope := (if cf_tailscale_private cfg then ''private'' else ''public''),
                               rs_healthy := False, rs_auth_required := True, rs_auth_url := ss_auth_url snap\<rparr>
                       else s1);
                 hint = trim_space (ss_hint snap);
                 s3 = (if hint \<noteq> [] then s2\<lparr>rs_warning := add_warning (rs_warning s2) hint\<rparr> else s2);
                 err = trim_space (ss_last_err snap)
             in if err \<noteq> [] then s3\<lparr>rs_warning := add_warning (rs_warning s3) (''setup issue: '' @ err)\<rparr> else s3)"

end
