(* ===== verification/Http_Proof_Proofs.thy ===== *)
theory Http_Proof_Proofs
  imports Http_Proof
begin

text \<open>
  What a proof of possession gives: the signed message determines the request, a proof is accepted once, and the key
  cache changes no verdict.
\<close>

section \<open>The signed message\<close>

lemma split_left: "d \<notin> set x \<Longrightarrow> d \<notin> set y \<Longrightarrow> x @ d # r = y @ d # r' \<longleftrightarrow> x = y \<and> r = r'"
proof (induction x arbitrary: y)
  case Nil
  then show ?case by (cases y) auto
next
  case (Cons c x)
  then show ?case by (cases y) auto
qed

lemma split_right:
  assumes "d \<notin> set x" "d \<notin> set y"
  shows "r @ d # x = r' @ d # y \<longleftrightarrow> r = r' \<and> x = y"
proof -
  have "r @ d # x = r' @ d # y \<longleftrightarrow> rev x @ d # rev r = rev y @ d # rev r'"
    by (metis append.assoc append_Cons append_Nil rev.simps(2) rev_append rev_rev_ident)
  then show ?thesis using split_left [of d "rev x" "rev y" "rev r" "rev r'"] assms by auto
qed

definition one_line :: "string \<Rightarrow> bool" where
  "one_line s \<longleftrightarrow> list_all (\<lambda>c. c \<noteq> newline) s"

lemma one_line_iff: "one_line s \<longleftrightarrow> newline \<notin> set s"
  by (auto simp: one_line_def list_all_iff)

text \<open>
  C8: A signed message determines every field that was put into it: two requests with the same message have the same
  method (trimmed, in capitals), the same request target, that is the one string path?query the message holds, the same
  token, timestamp and nonce, and the same body digest. Nothing but the target may contain a line break; a target
  with one cannot shift the other fields. Where the path ends inside the target the message does not say:
  \<open>path_and_query_confused\<close> below.\<close>

theorem proof_message_binds_request:
  assumes "list_all one_line [to_upper (trim_space m), token, ts, nonce, hash, to_upper (trim_space m'), token', ts', nonce', hash']"
    and "build_proof_message m (request_path_with_raw_query r) token ts nonce hash =
      build_proof_message m' (request_path_with_raw_query r') token' ts' nonce' hash'"
  shows "to_upper (trim_space m) = to_upper (trim_space m') \<and> request_path_with_raw_query r = request_path_with_raw_query r' \<and>
    token = token' \<and> ts = ts' \<and> nonce = nonce' \<and> hash = hash'"
proof -
  let ?M = "to_upper (trim_space m)" and ?M' = "to_upper (trim_space m')"
  let ?p = "request_path_with_raw_query r" and ?p' = "request_path_with_raw_query r'"
  note nl = assms(1) [unfolded list.pred_inject one_line_iff]
  have "?M @ newline # ?p @ newline # token @ newline # ts @ newline # nonce @ newline # hash =
      ?M' @ newline # ?p' @ newline # token' @ newline # ts' @ newline # nonce' @ newline # hash'"
    using assms(2) by (simp add: build_proof_message_def)
  then have m: "?M = ?M'" and rest: "(((?p @ newline # token) @ newline # ts) @ newline # nonce) @ newline # hash =
      (((?p' @ newline # token') @ newline # ts') @ newline # nonce') @ newline # hash'"
    using nl by (simp_all add: split_left)
  have right: "(r @ newline # x = r' @ newline # y) = (r = r' \<and> x = y)"
    if "(x, y) \<in> {(token, token'), (ts, ts'), (nonce, nonce'), (hash, hash')}" for r r' x y
    using split_right [of newline x y r r'] that nl by auto
  show ?thesis using m rest unfolding right [of hash hash', simplified] right [of nonce nonce', simplified]
      right [of ts ts', simplified] right [of token token', simplified] by blast
qed

theorem proof_message_binds_request_witness:
  "build_proof_message ''GET'' ''/v1/status?a=1'' ''t'' ''5'' ''n'' ''h'' = build_proof_message ''get '' ''/v1/status?a=1'' ''t'' ''5'' ''n'' ''h'' \<and>
   to_upper (trim_space ''GET'') = to_upper (trim_space ''get '')"
proof -
  let ?r = "\<lparr>rq_method = ''GET'', rq_path = ''/v1/status'', rq_query = ''a=1'', rq_header = Map.empty, rq_body = NoBody, rq_remote = []\<rparr>"
  have l: "list_all one_line [to_upper (trim_space ''GET''), ''t'', ''5'', ''n'', ''h'', to_upper (trim_space ''get ''), ''t'', ''5'', ''n'', ''h'']"
    by code_simp
  have e: "build_proof_message ''GET'' (request_path_with_raw_query ?r) ''t'' ''5'' ''n'' ''h'' =
      build_proof_message ''get '' (request_path_with_raw_query ?r) ''t'' ''5'' ''n'' ''h''" by code_simp
  show ?thesis using proof_message_binds_request [OF l e] e by (simp add: request_path_with_raw_query_def)
qed

text \<open>
  The signature does not say where the path ends: a request for a path that contains a question mark and one for
  the shorter path with a query have the same signed message.\<close>

theorem path_and_query_confused:
  assumes "r' = r\<lparr>rq_path := rq_path r @ ''?'' @ rq_query r, rq_query := []\<rparr>" "rq_query r \<noteq> []"
  shows "r' \<noteq> r \<and> build_proof_message (rq_method r) (request_path_with_raw_query r) token ts nonce hash =
    build_proof_message (rq_method r') (request_path_with_raw_query r') token ts nonce hash"
proof -
  have "rq_query r' \<noteq> rq_query r" using assms by simp
  then have "r' \<noteq> r" by auto
  then show ?thesis using assms by (simp add: request_path_with_raw_query_def)
qed

theorem path_and_query_confused_witness:
  "build_proof_message ''GET'' ''/files?path=x'' ''t'' ''5'' ''n'' ''h'' =
   build_proof_message ''GET'' (request_path_with_raw_query
     \<lparr>rq_method = ''GET'', rq_path = ''/files?path=x'', rq_query = [], rq_header = Map.empty, rq_body = NoBody, rq_remote = []\<rparr>) ''t'' ''5'' ''n'' ''h''"
proof -
  let ?r = "\<lparr>rq_method = ''GET'', rq_path = ''/files'', rq_query = ''path=x'', rq_header = Map.empty, rq_body = NoBody, rq_remote = []\<rparr> :: http_request"
  have "rq_query ?r \<noteq> []" by simp
  from path_and_query_confused [OF refl this, of "''t''" "''5''" "''n''" "''h''"] show ?thesis
    by (simp add: request_path_with_raw_query_def)
qed

section \<open>Replay\<close>

text \<open>The nonces consumed by other requests, each with the clock it read.\<close>

definition use_step :: "nonce_tracker \<Rightarrow> string \<times> gtime \<Rightarrow> nonce_tracker" where
  "use_step t e = fst (use_nonce (fst e) (snd e) t)"

lemma sweep_keeps:
  assumes "keys_distinct (nt_nonces t)" "length (nt_nonces t) \<le> max_proof_nonces" "map_of (nt_nonces t) k = Some e" "now < e"
  shows "map_of (nt_nonces (sweep_nonces now t)) k = Some e"
proof -
  have "length (filter (\<lambda>(k, expires). now < expires) (nt_nonces t)) \<le> max_proof_nonces"
    using assms(2) length_filter_le le_trans by blast
  then show ?thesis using assms map_of_filter_snd [OF assms(1), of "\<lambda>k expires. now < expires" k]
    by (simp add: sweep_nonces_def Let_def)
qed

lemma sweep_sub: "keys_distinct (nt_nonces t) \<Longrightarrow> keys_distinct (nt_nonces (sweep_nonces now t))"
  "length (nt_nonces (sweep_nonces now t)) \<le> length (nt_nonces t)"
proof -
  show "length (nt_nonces (sweep_nonces now t)) \<le> length (nt_nonces t)"
    by (auto simp: sweep_nonces_def Let_def intro: order.trans [OF less_imp_le length_filter_le])
  assume "keys_distinct (nt_nonces t)"
  then have "keys_distinct (filter P (nt_nonces t))" "keys_distinct (drop n (filter P (nt_nonces t)))" for P n
    by (auto simp: keys_distinct_def distinct_map_filter drop_map [symmetric] intro: distinct_drop)
  then show "keys_distinct (nt_nonces (sweep_nonces now t))" using \<open>keys_distinct (nt_nonces t)\<close>
    by (simp add: sweep_nonces_def Let_def)
qed

lemma use_nonce_ok:
  "keys_distinct (nt_nonces t) \<Longrightarrow> keys_distinct (nt_nonces (fst (use_nonce k now t)))"
  "length (nt_nonces (fst (use_nonce k now t))) \<le> Suc (length (nt_nonces t))"
  using sweep_sub(1) [of t now] sweep_sub(2) [of now t] by (auto simp: use_nonce_def Let_def keys_distinct_update length_update_alist)

lemma use_nonce_fresh: "snd (use_nonce k now t) \<Longrightarrow> map_of (nt_nonces (fst (use_nonce k now t))) k = Some (now + proof_replay_window)"
  by (auto simp: use_nonce_def Let_def update_conv' split: if_splits)

lemma use_nonce_keeps:
  assumes "keys_distinct (nt_nonces t)" "length (nt_nonces t) \<le> max_proof_nonces" "map_of (nt_nonces t) k = Some e" "now < e"
  shows "map_of (nt_nonces (fst (use_nonce k' now t))) k = Some e"
  using sweep_keeps [OF assms] assms by (auto simp: use_nonce_def Let_def seen_nonce_def update_conv')

lemma uses_keep:
  assumes "keys_distinct (nt_nonces t)" "length (nt_nonces t) + length es \<le> max_proof_nonces" "map_of (nt_nonces t) k = Some e"
    and "list_all (\<lambda>u. snd u < e) es"
  shows "map_of (nt_nonces (run use_step t es)) k = Some e"
  using assms
proof (induction es arbitrary: t)
  case (Cons u es)
  have "length (nt_nonces (use_step t u)) + length es \<le> max_proof_nonces"
    using Cons.prems(2) use_nonce_ok(2) [of "fst u" "snd u" t] by (simp add: use_step_def)
  moreover have "map_of (nt_nonces (use_step t u)) k = Some e"
    unfolding use_step_def by (rule use_nonce_keeps) (use Cons.prems in simp_all)
  ultimately show ?case using Cons.IH [of "use_step t u"] Cons.prems use_nonce_ok(1) [of t "fst u" "snd u"] by (simp add: use_step_def)
qed simp

definition proof_time :: "http_request \<Rightarrow> gtime option" where
  "proof_time r = map_option (\<lambda>n. wrap64 (n + unix_epoch) * second) (parse_int64 (trim_space (header r proof_header_timestamp)))"

lemma verify_signature_time:
  assumes "snd (verify_signature cy now r token dev pk s) = None"
  shows "\<exists>ts. proof_time r = Some ts \<and> now - proof_skew_window \<le> ts \<and> ts \<le> now + proof_skew_window"
  using assms
  by (cases "parse_int64 (trim_space (header r proof_header_timestamp))")
    (auto simp: verify_signature_def Let_def proof_time_def not_less split: if_splits)

lemma verify_signature_seen:
  assumes "seen_nonce (nonce_key dev (trim_space (header r proof_header_nonce))) now (ph_nonces s)"
  shows "snd (verify_signature cy now r token dev pk s) \<noteq> None"
  using assms by (auto simp: verify_signature_def Let_def split: option.split)

lemma verify_signature_nonces: "ph_nonces (fst (verify_signature cy now r token dev pk s)) = ph_nonces s"
  by (simp add: verify_signature_def Let_def split: option.split prod.split)

lemma accepted_once:
  assumes "verify_credential_proof cy now r token dev pk s = (s1, None)" "trim_space pk \<noteq> []"
  shows "snd (verify_signature cy now r token dev pk s) = None"
    "map_of (nt_nonces (ph_nonces s1)) (nonce_key dev (trim_space (header r proof_header_nonce))) = Some (now + proof_replay_window)"
    "\<exists>t. ph_nonces s1 = fst (use_nonce (nonce_key dev (trim_space (header r proof_header_nonce))) now (ph_nonces s))"
proof -
  let ?k = "nonce_key dev (trim_space (header r proof_header_nonce))"
  obtain s0 where v: "verify_signature cy now r token dev pk s = (s0, None)"
    using assms by (auto simp: verify_credential_proof_def split: prod.splits option.splits)
  have n: "ph_nonces s0 = ph_nonces s" using verify_signature_nonces [of cy now r token dev pk s] by (simp add: v)
  have u: "snd (use_nonce ?k now (ph_nonces s))" "ph_nonces s1 = fst (use_nonce ?k now (ph_nonces s))"
    using assms by (auto simp: verify_credential_proof_def v n Let_def split: prod.splits if_splits)
  show "snd (verify_signature cy now r token dev pk s) = None" by (simp add: v)
  show "map_of (nt_nonces (ph_nonces s1)) ?k = Some (now + proof_replay_window)" unfolding u(2) by (rule use_nonce_fresh [OF u(1)])
  show "\<exists>t. ph_nonces s1 = fst (use_nonce ?k now (ph_nonces s))" using u(2) by blast
qed

text \<open>
  C7: A proof is accepted once: presented again, whatever other requests were verified meanwhile, it is refused, unless
  more nonces were consumed than the tracker keeps or it comes back exactly at the end of the replay window.\<close>

theorem proof_replay_refused:
  assumes "verify_credential_proof cy now1 r token dev pk s = (s1, None)" "trim_space pk \<noteq> []"
    and "keys_distinct (nt_nonces (ph_nonces s))"
    and "ph_nonces s2 = run use_step (ph_nonces s1) uses" "list_all (\<lambda>u. snd u \<le> now2) uses"
    and "length (nt_nonces (ph_nonces s1)) + length uses \<le> max_proof_nonces"
    and "now1 \<le> now2" "now2 \<noteq> now1 + proof_replay_window"
  shows "snd (verify_credential_proof cy now2 r token dev pk s2) \<noteq> None"
proof -
  let ?k = "nonce_key dev (trim_space (header r proof_header_nonce))"
  note acc = accepted_once [OF assms(1,2)]
  obtain ts where ts: "proof_time r = Some ts" "ts \<le> now1 + proof_skew_window"
    using verify_signature_time [OF acc(1)] by blast
  have "snd (verify_signature cy now2 r token dev pk s2) \<noteq> None"
  proof (cases "now2 < now1 + proof_replay_window")
    case True
    have d: "keys_distinct (nt_nonces (ph_nonces s1))" using acc(3) use_nonce_ok(1) [OF assms(3)] by auto
    have "list_all (\<lambda>u. snd u < now1 + proof_replay_window) uses" using assms(5) by (rule list.pred_mono_strong) (use True in simp)
    from uses_keep [OF d assms(6) acc(2) this] have "map_of (nt_nonces (ph_nonces s2)) ?k = Some (now1 + proof_replay_window)"
      by (simp add: assms(4))
    then show ?thesis by (intro verify_signature_seen) (simp add: seen_nonce_def True)
  next
    case False
    then have "ts < now2 - proof_skew_window" using ts(2) assms(8) by (simp add: proof_replay_window_def proof_skew_window_def)
    then show ?thesis using verify_signature_time [of cy now2 r token dev pk s2] ts(1) by fastforce
  qed
  then show ?thesis using assms(2) by (auto simp: verify_credential_proof_def split: prod.splits option.splits)
qed

definition plain_crypto :: crypto where
  "plain_crypto = \<lparr>cy_body_digest = (\<lambda>_. ''d''), cy_raw_url = Some, cy_std = (\<lambda>_. None), cy_pkix = (\<lambda>k. Some (EcdsaKey k)),
     cy_verify = (\<lambda>_ _ sig. sig = ''sig'')\<rparr>"

definition proved_request :: http_request where
  "proved_request = \<lparr>rq_method = ''GET'', rq_path = ''/v1/agents'', rq_query = [],
     rq_header = [''X-Ferngeist-Proof-Timestamp'' \<mapsto> ''1000'', ''X-Ferngeist-Proof-Nonce'' \<mapsto> ''n'', ''X-Ferngeist-Proof-Signature'' \<mapsto> ''sig''],
     rq_body = NoBody, rq_remote = []\<rparr>"

definition unix_second :: "int \<Rightarrow> gtime" where
  "unix_second n = (n + unix_epoch) * second"

definition fresh_proofs :: proof_state where
  "fresh_proofs = \<lparr>ph_nonces = new_nonce_tracker, ph_keys = Map.empty\<rparr>"

theorem proof_replay_refused_witness:
  "snd (verify_credential_proof plain_crypto (unix_second 1200) proved_request ''t'' ''dev'' ''key''
     (let s1 = fst (verify_credential_proof plain_crypto (unix_second 900) proved_request ''t'' ''dev'' ''key'' fresh_proofs)
      in s1\<lparr>ph_nonces := run use_step (ph_nonces s1) [(''dev:other'', unix_second 1100)]\<rparr>)) \<noteq> None"
proof -
  let ?v = "verify_credential_proof plain_crypto (unix_second 900) proved_request ''t'' ''dev'' ''key'' fresh_proofs"
  have "snd ?v = None" by code_simp
  then have v: "?v = (fst ?v, None)" by (metis prod.collapse)
  have pk: "trim_space ''key'' \<noteq> []" by code_simp
  have d: "keys_distinct (nt_nonces (ph_nonces fresh_proofs))" by (simp add: fresh_proofs_def new_nonce_tracker_def)
  have l: "list_all (\<lambda>u. snd u \<le> unix_second 1200) [(''dev:other'', unix_second 1100)]" by (simp add: unix_second_def)
  have "length (nt_nonces (ph_nonces (fst ?v))) \<le> 1"
    using accepted_once(3) [OF v pk] use_nonce_ok(2) [of _ "unix_second 900" "ph_nonces fresh_proofs"]
    by (auto simp: fresh_proofs_def new_nonce_tracker_def)
  then have n: "length (nt_nonces (ph_nonces (fst ?v))) + length [(''dev:other'', unix_second 1100)] \<le> max_proof_nonces"
    by (simp add: max_proof_nonces_def)
  show ?thesis unfolding Let_def
    by (rule proof_replay_refused [OF v pk d _ l n]) (simp_all add: unix_second_def proof_replay_window_def)
qed

text \<open>
  A proof is accepted twice at the edge: signed five minutes ahead of the gateway's clock and presented again exactly
  ten minutes later, it is within the skew both times and its nonce has just expired.\<close>

theorem proof_replayed_at_edge:
  "(let first = verify_credential_proof plain_crypto (unix_second 700) proved_request ''t'' ''dev'' ''key'' fresh_proofs;
        second_time = verify_credential_proof plain_crypto (unix_second 1300) proved_request ''t'' ''dev'' ''key'' (fst first)
    in snd first = None \<and> snd second_time = None)"
  by code_simp

section \<open>The key cache\<close>

definition cache_ok :: "crypto \<Rightarrow> key_cache \<Rightarrow> bool" where
  "cache_ok cy cache \<longleftrightarrow> (\<forall>encoded k. cache encoded = Some k \<longrightarrow> parse_proof_public_key cy encoded = Some k)"

text \<open>
  The cache of parsed keys changes no verdict: it starts and stays right, and from a right cache a proof is judged as
  it would be by parsing the key every time.\<close>

theorem key_cache_transparent:
  assumes "cache_ok cy cache"
  shows "cache_ok cy Map.empty \<and> snd (cached_proof_public_key cy encoded cache) = parse_proof_public_key cy encoded \<and>
    cache_ok cy (fst (cached_proof_public_key cy encoded cache))"
  using assms by (auto simp: cache_ok_def cached_proof_public_key_def split: option.splits)

theorem key_cache_transparent_witness:
  "snd (cached_proof_public_key plain_crypto ''k'' Map.empty) = parse_proof_public_key plain_crypto ''k''"
proof -
  have "cache_ok plain_crypto Map.empty" by (simp add: cache_ok_def)
  from key_cache_transparent [OF this, of "''k''"] show ?thesis by blast
qed

end
