(* ===== verification/Pairing_Limits_Proofs.thy ===== *)
theory Pairing_Limits_Proofs
  imports Pairing_Limits
begin

text \<open>
  What the lockout and the token buckets bound: wrong codes per address and per challenge, requests let through, and
  that dropping idle buckets changes no answer.
\<close>

section \<open>Wrong codes\<close>

definition failures_ok :: "int \<Rightarrow> (string \<rightharpoonup> attempt_state) \<Rightarrow> bool" where
  "failures_ok limit m \<longleftrightarrow> (\<forall>k s. m k = Some s \<longrightarrow> 0 \<le> as_failures s \<and> as_failures s < limit)"


text \<open>How many more codes can be looked at for a key until \<open>limit_time\<close>.\<close>

definition room :: "int \<Rightarrow> gtime \<Rightarrow> attempt_state option \<Rightarrow> int" where
  "room limit until st =
     (case st of None \<Rightarrow> limit
      | Some s \<Rightarrow> if as_locked_until s \<noteq> zero_time \<and> until \<le> as_locked_until s then 0
          else if as_locked_until s \<noteq> zero_time then limit else limit - as_failures s)"





lemma room_used:
  assumes "failures_ok limit m" "until \<le> now + w" "0 < limit" "\<not> snd (attempt_locked m k now)" "now + w \<noteq> zero_time"
  shows "room limit until (Some (next_attempt_state (fst (attempt_locked m k now) k) now limit w)) + 1 \<le>
    room limit until (fst (attempt_locked m k now) k)"
proof (cases "m k")
  case None
  then show ?thesis using assms by (simp add: attempt_locked_def room_def next_attempt_state_def Let_def)
next
  case (Some s)
  then have "0 \<le> as_failures s" "as_failures s < limit" using assms(1) by (auto simp: failures_ok_def)
  then show ?thesis using assms Some
    by (auto simp: attempt_locked_def room_def next_attempt_state_def Let_def split: if_splits)
qed










section \<open>Overlapping completions\<close>


definition times_in :: "string \<Rightarrow> string list \<Rightarrow> int" where
  "times_in x xs = int (length (filter (\<lambda>y. y = x) xs))"

lemma times_in_simps [simp]: "times_in x [] = 0" "times_in x (xs @ ys) = times_in x xs + times_in x ys" "0 \<le> times_in x xs"
  "times_in x (if b then [y] else []) = (if b \<and> y = x then 1 else 0)"
  by (simp_all add: times_in_def)





















definition some_tracker :: attempt_tracker where
  "some_tracker = \<lparr>at_ip = Map.empty, at_challenge = Map.empty, at_max = 5, at_window = 2 * minute\<rparr>"

definition no_completion :: completing where
  "no_completion = \<lparr>cg_tracker = some_tracker, cg_open = [], cg_ip_log = [], cg_key_log = []\<rparr>"

text \<open>Seven wrong codes one after the other; and the same seven sent at once.\<close>

definition one_after_the_other :: "string \<Rightarrow> string \<Rightarrow> nat \<Rightarrow> completing_event list" where
  "one_after_the_other ip key n = concat (replicate n [Arrive ip key (hour + second), Wrong_Code 0 (hour + second)])"

definition all_at_once :: "string \<Rightarrow> string \<Rightarrow> nat \<Rightarrow> completing_event list" where
  "all_at_once ip key n = replicate n (Arrive ip key (hour + second)) @ replicate n (Wrong_Code 0 (hour + second))"


text \<open>
  The check and the counting are apart: seven requests sent at once all pass the check, and seven wrong codes are looked at
  although five lock the address and the challenge.\<close>

theorem overlapping_codes_exceed_maximum:
  "length (cg_key_log (foldl completing_step no_completion (all_at_once ''10.0.0.1'' ''c'' 7))) = 7"
  by code_simp

text \<open>
  The limit of one challenge is two limits: a request may leave the challenge's id out, and wrong codes for the same
  challenge are then counted under another key, so that twice the maximal number is looked at in the window.\<close>

theorem unnamed_challenge_counted_apart:
  "pairing_attempt_key [] \<noteq> pairing_attempt_key ''c'' \<and>
   length (cg_key_log (foldl completing_step no_completion
     (one_after_the_other ''10.0.0.1'' (pairing_attempt_key ''c'') 7 @ one_after_the_other ''10.0.0.2'' (pairing_attempt_key []) 7))) = 10"
  by (rule conjI; code_simp)

section \<open>Requests let through\<close>

text \<open>
  The tokens a bucket held at the time \<open>from\<close>, counting those refilled later as taken in advance.\<close>

definition holds :: "gtime \<Rightarrow> int \<Rightarrow> duration \<Rightarrow> token_bucket \<Rightarrow> rat" where
  "holds from capacity refill b =
     (if tk_last b \<le> from then min (of_int capacity) (tk_tokens b + of_int (from - tk_last b) / of_int refill)
      else tk_tokens b - of_int (tk_last b - from) / of_int refill)"

definition bucket_ok :: "gtime \<Rightarrow> int \<Rightarrow> token_bucket \<Rightarrow> bool" where
  "bucket_ok until capacity b \<longleftrightarrow> tk_last b \<noteq> zero_time \<and> tk_last b \<le> until \<and> 0 \<le> tk_tokens b \<and> tk_tokens b \<le> of_int capacity"

lemma take_token_ok:
  assumes "0 \<le> capacity" "bucket_ok until capacity b" "zero_time < now" "now \<le> until"
  shows "bucket_ok until capacity (fst (take_token now capacity refill b))"
proof -
  have "0 \<le> (of_int x / of_int refill :: rat)" if "0 < x" "0 < refill" for x using that by simp
  then show ?thesis using assms by (auto simp: take_token_def bucket_ok_def Let_def min_def not_less)
qed

lemma take_token_holds:
  assumes "0 < refill" "bucket_ok until capacity b" "from \<le> now"
  shows "holds from capacity refill (fst (take_token now capacity refill b)) + (if snd (take_token now capacity refill b) then 1 else 0)
      \<le> holds from capacity refill b"
proof -
  let ?r = "of_int refill :: rat"
  have r: "0 < ?r" using assms(1) by simp
  have b: "tk_last b \<noteq> zero_time" "tk_tokens b \<le> of_int capacity" using assms(2) by (simp_all add: bucket_ok_def)
  have mono: "a \<le> c \<Longrightarrow> of_int a / ?r \<le> of_int c / ?r" for a c using r by (simp add: divide_right_mono)
  show ?thesis
  proof (cases "tk_last b < now")
    case True
    let ?n = "min (of_int capacity) (tk_tokens b + of_int (now - tk_last b) / ?r)"
    have t: "take_token now capacity refill b = (if ?n < 1 then (\<lparr>tk_tokens = ?n, tk_last = now\<rparr>, False) else (\<lparr>tk_tokens = ?n - 1, tk_last = now\<rparr>, True))"
      using True assms(1) b(1) by (simp add: take_token_def Let_def)
    have "?n - of_int (now - from) / ?r \<le> holds from capacity refill b"
      using mono [OF assms(3)] mono [of "tk_last b" now] mono [of "tk_last b" "from"] mono [of "from" "tk_last b"] b(2) True
      by (auto simp: holds_def diff_divide_distrib min_def split: if_splits)
    then show ?thesis unfolding t using assms(3) by (cases "from = now") (auto simp: holds_def min_def split: if_splits)
  next
    case False
    then have t: "take_token now capacity refill b = (if tk_tokens b < 1 then (b, False) else (b\<lparr>tk_tokens := tk_tokens b - 1\<rparr>, True))"
      using b(1) by (auto simp: take_token_def Let_def)
    show ?thesis unfolding t using assms(3) False b(2) by (cases "tk_last b = from") (auto simp: holds_def min_def)
  qed
qed

lemma holds_bounds:
  assumes "0 < refill" "bucket_ok until capacity b" "from \<le> until" "0 \<le> capacity"
  shows "- (of_int (until - from) / of_int refill) \<le> holds from capacity refill b"
    and "tk_last b \<le> from \<Longrightarrow> holds from capacity refill b \<le> of_int capacity"
proof -
  have "of_int (tk_last b - from) / of_int refill \<le> (of_int (until - from) / of_int refill :: rat)"
    using assms(1,2) by (intro divide_right_mono) (simp_all add: bucket_ok_def)
  moreover have "0 \<le> (of_int (until - from) / of_int refill :: rat)" "tk_last b \<le> from \<Longrightarrow> 0 \<le> (of_int (from - tk_last b) / of_int refill :: rat)"
    using assms(1,3) by simp_all
  ultimately show "- (of_int (until - from) / of_int refill) \<le> holds from capacity refill b"
    using assms(2,4) by (auto simp: holds_def bucket_ok_def min_def)
qed (simp add: holds_def)

definition global_of :: "bool \<Rightarrow> rate_limiter \<Rightarrow> token_bucket" where
  "global_of start l = (if start then rl_global_start l else rl_global_done l)"

lemma limiter_settings:
  "rl_burst_global (fst (allow_request ip st now l)) = rl_burst_global l"
  "refill_of start (fst (allow_request ip st now l)) = refill_of start l"
  by (simp_all add: allow_request_def load_bucket_def maybe_sweep_buckets_def sweep_buckets_def put_bucket_def take_global_def refill_of_def
    Let_def split_def split: option.split)

lemma global_step:
  "global_of start (fst (allow_request ip st now l)) = global_of start l \<and> \<not> (snd (allow_request ip st now l) \<and> st = start) \<or>
   global_of start (fst (allow_request ip st now l)) = fst (take_token now (rl_burst_global l) (refill_of start l) (global_of start l)) \<and>
   (snd (allow_request ip st now l) \<longrightarrow> snd (take_token now (rl_burst_global l) (refill_of start l) (global_of start l)))"
proof -
  define l1 where "l1 = fst (load_bucket st (known_ip ip) now (maybe_sweep_buckets now l))"
  define b where "b = snd (load_bucket st (known_ip ip) now (maybe_sweep_buckets now l))"
  define l2 where "l2 = (if snd b then put_bucket st (known_ip ip) (fst (take_token now (rl_burst_ip l1) (refill_of st l1) (fst b))) l1 else l1)"
  have a: "allow_request ip st now l = (if snd (take_token now (rl_burst_ip l1) (refill_of st l1) (fst b)) then take_global st now l2 else (l2, False))"
    by (simp add: allow_request_def l1_def l2_def b_def split_def Let_def)
  have l1: "global_of start l1 = global_of start l \<and> rl_burst_global l1 = rl_burst_global l \<and> refill_of start l1 = refill_of start l"
    by (simp add: l1_def load_bucket_def maybe_sweep_buckets_def sweep_buckets_def global_of_def refill_of_def Let_def split: option.split)
  have l2: "global_of start l2 = global_of start l \<and> rl_burst_global l2 = rl_burst_global l \<and> refill_of start l2 = refill_of start l"
    using l1 by (cases start) (simp_all add: l2_def put_bucket_def global_of_def refill_of_def)
  show ?thesis unfolding a using l2 by (cases start; cases st) (auto simp: take_global_def global_of_def refill_of_def Let_def split_def)
qed

fun allowed_count :: "bool \<Rightarrow> rate_limiter \<Rightarrow> (string \<times> bool \<times> gtime) list \<Rightarrow> nat" where
  "allowed_count start l [] = 0"
| "allowed_count start l ((ip, st, now) # es) =
     (case allow_request ip st now l of (l1, ok) \<Rightarrow> (if ok \<and> st = start then 1 else 0) + allowed_count start l1 es)"

text \<open>
  However many addresses take part, the requests of one phase let through in a stretch of time are at most the global
  burst plus one per refill interval.\<close>

theorem pairing_requests_bounded:
  assumes "0 < refill_of start l" "0 < rl_burst_global l" "bucket_ok from (rl_burst_global l) (global_of start l)"
    and "zero_time < from" "from \<le> until" "list_all (\<lambda>(ip, st, now). from \<le> now \<and> now \<le> until) es"
  shows "of_nat (allowed_count start l es) \<le> (of_int (rl_burst_global l) + of_int (until - from) / of_int (refill_of start l) :: rat)"
proof -
  let ?r = "refill_of start l" and ?c = "rl_burst_global l"
  have "of_nat (allowed_count start u es) \<le> holds from ?c ?r (global_of start u) + of_int (until - from) / of_int ?r"
    if "bucket_ok until ?c (global_of start u)" "rl_burst_global u = ?c" "refill_of start u = ?r"
      "list_all (\<lambda>(ip, st, now). from \<le> now \<and> now \<le> until) es" for u
    using that
  proof (induction es arbitrary: u)
    case Nil
    then show ?case using holds_bounds(1) [of ?r until ?c "global_of start u" "from"] assms(1,2,5) by simp
  next
    case (Cons e es)
    obtain ip st now where e: "e = (ip, st, now)" by (cases e)
    have now: "from \<le> now" "now \<le> until" "zero_time < now" using Cons.prems(4) assms(4) by (simp_all add: e)
    let ?v = "fst (allow_request ip st now u)"
    have t: "bucket_ok until ?c (fst (take_token now ?c ?r (global_of start u)))"
      using take_token_ok [OF _ Cons.prems(1) now(3,2)] assms(2) by simp
    note h = take_token_holds [OF assms(1) Cons.prems(1) now(1)]
    have ok: "bucket_ok until ?c (global_of start ?v)"
      using global_step [of start ip st now u] t Cons.prems(1-3) by auto
    have "holds from ?c ?r (global_of start ?v) + (if snd (allow_request ip st now u) \<and> st = start then 1 else 0) \<le> holds from ?c ?r (global_of start u)"
      using global_step [of start ip st now u] h Cons.prems(2,3) by (auto split: if_splits)
    moreover have "of_nat (allowed_count start ?v es) \<le> holds from ?c ?r (global_of start ?v) + of_int (until - from) / of_int ?r"
      using Cons.IH [OF ok] Cons.prems(2-4) by (simp add: limiter_settings)
    ultimately show ?case by (auto simp: e split: prod.splits if_splits)
  qed
  moreover have "bucket_ok until ?c (global_of start l)" using assms(3,5) by (simp add: bucket_ok_def)
  moreover have "holds from ?c ?r (global_of start l) \<le> of_int ?c" using assms(3) by (simp add: holds_def bucket_ok_def)
  ultimately show ?thesis using assms(6) by (smt (verit) add_right_mono order_trans)
qed

definition some_limiter :: rate_limiter where
  "some_limiter = \<lparr>rl_ip_start = [], rl_ip_done = [], rl_global_start = \<lparr>tk_tokens = 2, tk_last = hour\<rparr>,
     rl_global_done = \<lparr>tk_tokens = 2, tk_last = hour\<rparr>, rl_burst_ip = 1, rl_burst_global = 2, rl_start_refill = 5 * second,
     rl_complete_refill = 2 * second, rl_last_sweep = hour\<rparr>"

definition four_addresses :: "(string \<times> bool \<times> gtime) list" where
  "four_addresses = [(''a'', True, hour + second), (''b'', True, hour + 2 * second), (''c'', True, hour + 3 * second), (''d'', True, hour + 6 * second)]"

theorem pairing_requests_bounded_witness:
  "of_nat (allowed_count True some_limiter four_addresses) \<le> (2 + of_int (10 * second) / of_int (5 * second) :: rat) \<and>
   allowed_count True some_limiter four_addresses = 3"
proof -
  have r: "0 < refill_of True some_limiter" "0 < rl_burst_global some_limiter" by (simp_all add: some_limiter_def refill_of_def)
  have b: "bucket_ok hour (rl_burst_global some_limiter) (global_of True some_limiter)" by (simp add: some_limiter_def bucket_ok_def global_of_def)
  have t: "zero_time < hour" "hour \<le> hour + 10 * second" by simp_all
  have e: "list_all (\<lambda>(ip, st, now). hour \<le> now \<and> now \<le> hour + 10 * second) four_addresses" by (simp add: four_addresses_def)
  have three: "allowed_count True some_limiter four_addresses = 3" by code_simp
  show ?thesis using pairing_requests_bounded [OF r b t e] three by (simp add: some_limiter_def refill_of_def)
qed

section \<open>Dropping idle buckets\<close>

definition bucket_at :: "buckets \<Rightarrow> string \<Rightarrow> token_bucket" where
  "bucket_at bs ip = (case map_of bs ip of None \<Rightarrow> new_bucket | Some b \<Rightarrow> b)"

definition buckets_ok :: "buckets \<Rightarrow> bool" where
  "buckets_ok bs \<longleftrightarrow> keys_distinct bs \<and> list_all (\<lambda>(ip, b). tk_last b \<noteq> zero_time \<and> 0 \<le> tk_tokens b) bs"

lemma idle_bucket_full:
  assumes "0 < capacity" "0 < refill" "tk_last b \<noteq> zero_time" "0 \<le> tk_tokens b" "2 * capacity * refill \<le> now - tk_last b" "now \<le> now'"
  shows "take_token now' capacity refill b = take_token now' capacity refill new_bucket"
proof -
  have pos: "0 < capacity * refill" using assms(1,2) by simp
  have idle: "2 * (capacity * refill) \<le> now' - tk_last b" using assms(5,6) by (simp add: mult.assoc)
  have "of_int capacity * of_int refill \<le> (of_int (now' - tk_last b) :: rat)"
  proof -
    have "capacity * refill \<le> now' - tk_last b" using pos idle by linarith
    then show ?thesis by (metis of_int_le_iff of_int_mult)
  qed
  then have "of_int capacity \<le> (of_int (now' - tk_last b) / of_int refill :: rat)" using assms(2) by (simp add: pos_le_divide_eq)
  then have full: "min (of_int capacity) (tk_tokens b + of_int (now' - tk_last b) / of_int refill) = of_int capacity"
    using assms(4) by (simp add: min_def)
  have "0 < now' - tk_last b" using pos idle by linarith
  then show ?thesis using full assms(2,3) by (simp add: take_token_def new_bucket_def Let_def)
qed

lemma drop_idle_neutral:
  assumes "buckets_ok bs" "0 < capacity" "0 < refill" "now \<le> now'"
  shows "take_token now' capacity refill (bucket_at (drop_idle now capacity refill bs) ip) = take_token now' capacity refill (bucket_at bs ip)"
proof (cases "map_of bs ip")
  case None
  then have "map_of (filter P bs) ip = None" for P by (auto simp: map_of_eq_None_iff)
  then show ?thesis using None by (simp add: drop_idle_def bucket_at_def Let_def)
next
  case (Some b)
  then have b: "tk_last b \<noteq> zero_time" "0 \<le> tk_tokens b" using assms(1) by (auto simp: buckets_ok_def list_all_iff dest!: map_of_SomeD)
  have d: "keys_distinct bs" using assms(1) by (simp add: buckets_ok_def)
  have "0 < bucket_idle_ttl capacity refill" "bucket_idle_ttl capacity refill = 2 * capacity * refill"
    using assms(2,3) by (simp_all add: bucket_idle_ttl_def)
  then have "bucket_at (drop_idle now capacity refill bs) ip = (if 2 * capacity * refill \<le> now - tk_last b then new_bucket else b)"
    using map_of_filter_snd [OF d, of "\<lambda>ip b. \<not> 2 * capacity * refill \<le> now - tk_last b" ip] Some
    by (simp add: drop_idle_def bucket_at_def Let_def)
  then show ?thesis using idle_bucket_full [OF assms(2,3) b _ assms(4)] Some by (simp add: bucket_at_def)
qed

lemma drop_idle_again:
  assumes "now \<le> now'"
  shows "drop_idle now' capacity refill (drop_idle now capacity refill bs) = drop_idle now' capacity refill bs"
  using assms by (auto simp: drop_idle_def Let_def intro!: filter_cong)

text \<open>Below the cap, the answer depends on the caller's bucket and the global one.\<close>

lemma allow_answer:
  assumes "length (buckets_of start l) < pairing_max_ip_buckets"
  shows "snd (allow_request ip start now l) \<longleftrightarrow>
    snd (take_token now (rl_burst_ip l) (refill_of start l) (bucket_at (buckets_of start (maybe_sweep_buckets now l)) (known_ip ip))) \<and>
    snd (take_token now (rl_burst_global l) (refill_of start l) (global_of start l))"
proof -
  have m: "rl_burst_ip (maybe_sweep_buckets now l) = rl_burst_ip l" "rl_burst_global (maybe_sweep_buckets now l) = rl_burst_global l"
    "refill_of start (maybe_sweep_buckets now l) = refill_of start l" "global_of start (maybe_sweep_buckets now l) = global_of start l"
    by (simp_all add: maybe_sweep_buckets_def sweep_buckets_def refill_of_def global_of_def)
  have "length (drop_idle now c r bs) \<le> length bs" for c r bs by (simp add: drop_idle_def Let_def)
  then have "length (buckets_of start (maybe_sweep_buckets now l)) \<le> length (buckets_of start l)"
    by (simp add: maybe_sweep_buckets_def sweep_buckets_def buckets_of_def)
  then have "load_bucket start (known_ip ip) now (maybe_sweep_buckets now l) =
      (maybe_sweep_buckets now l, bucket_at (buckets_of start (maybe_sweep_buckets now l)) (known_ip ip), True)"
    using assms by (simp add: load_bucket_def bucket_at_def split: option.split)
  then show ?thesis by (cases start) (simp_all add: allow_request_def m put_bucket_def take_global_def global_of_def refill_of_def split_def Let_def,
      use m in \<open>auto simp: global_of_def refill_of_def\<close>)
qed

text \<open>
  Sweeping forgets nothing that matters: as long as fewer addresses are known than the cap, a limiter answers every
  later request as one that was never swept.\<close>

theorem sweep_changes_no_answer:
  assumes "buckets_ok (buckets_of start l)" "0 < rl_burst_ip l" "0 < refill_of start l" "now \<le> now'"
    and "length (buckets_of start l) < pairing_max_ip_buckets"
  shows "snd (allow_request ip start now' (sweep_buckets now l)) = snd (allow_request ip start now' l)"
proof -
  let ?s = "sweep_buckets now l"
  have s: "rl_burst_ip ?s = rl_burst_ip l" "rl_burst_global ?s = rl_burst_global l" "refill_of start ?s = refill_of start l"
    "global_of start ?s = global_of start l" "rl_last_sweep ?s = rl_last_sweep l"
    "buckets_of start ?s = drop_idle now (rl_burst_ip l) (refill_of start l) (buckets_of start l)"
    by (simp_all add: sweep_buckets_def refill_of_def global_of_def buckets_of_def)
  have len: "length (buckets_of start ?s) < pairing_max_ip_buckets"
    using assms(5) unfolding s(6) drop_idle_def Let_def by (auto intro: le_less_trans [OF length_filter_le])
  have "take_token now' (rl_burst_ip l) (refill_of start l) (bucket_at (buckets_of start (maybe_sweep_buckets now' ?s)) (known_ip ip)) =
      take_token now' (rl_burst_ip l) (refill_of start l) (bucket_at (buckets_of start (maybe_sweep_buckets now' l)) (known_ip ip))"
  proof (cases "now' - rl_last_sweep l < pairing_bucket_sweep_every")
    case True
    then show ?thesis using drop_idle_neutral [OF assms(1,2,3,4)] by (simp add: maybe_sweep_buckets_def s)
  next
    case False
    have swept: "buckets_of start (sweep_buckets now' u) = drop_idle now' (rl_burst_ip u) (refill_of start u) (buckets_of start u)" for u
      by (simp add: sweep_buckets_def buckets_of_def refill_of_def)
    show ?thesis using False drop_idle_again [OF assms(4)]
      by (simp add: maybe_sweep_buckets_def s swept) (simp add: sweep_buckets_def buckets_of_def refill_of_def drop_idle_again [OF assms(4)])
  qed
  then show ?thesis by (simp add: allow_answer [OF len] allow_answer [OF assms(5)] s)
qed

theorem sweep_changes_no_answer_witness:
  "snd (allow_request ''a'' True (hour + 11 * second) (sweep_buckets (hour + 11 * second) (put_bucket True ''a'' \<lparr>tk_tokens = 0, tk_last = hour\<rparr> some_limiter)))"
proof -
  let ?l = "put_bucket True ''a'' \<lparr>tk_tokens = 0, tk_last = hour\<rparr> some_limiter"
  have "buckets_ok (buckets_of True ?l)" "0 < rl_burst_ip ?l" "0 < refill_of True ?l" "hour + 11 * second \<le> hour + 11 * second"
    "length (buckets_of True ?l) < pairing_max_ip_buckets"
    by (simp_all add: put_bucket_def some_limiter_def buckets_ok_def buckets_of_def refill_of_def pairing_max_ip_buckets_def keys_distinct_def)
  note r = sweep_changes_no_answer [OF this, of "''a''"]
  have "snd (allow_request ''a'' True (hour + 11 * second) ?l)" by code_simp
  then show ?thesis unfolding r .
qed

end
