(* ===== verification/Config_Proofs.thy ===== *)
theory Config_Proofs
  imports Config
begin

text \<open>
  What the gateway runs with: every setting within its type and range, the environment before the store, and the
  security settings of an exposed gateway.
\<close>

section \<open>Stages\<close>

text \<open>No later stage changes what the environment fixed, apart from the security settings and the public URL.\<close>

lemma defaults_keep:
  "cf_tailscale_mode (apply_security_defaults env c) = cf_tailscale_mode c"
  "cf_public_url (apply_security_defaults env c) = cf_public_url c"
  "cf_registry_url (apply_security_defaults env c) = cf_registry_url c"
  "cf_enable_lan (apply_security_defaults env c) = cf_enable_lan c"
  "cf_gateway_name (apply_security_defaults env c) = cf_gateway_name c"
  "cf_tailscale_auth_key (apply_security_defaults env c) = cf_tailscale_auth_key c"
  by (simp_all add: apply_security_defaults_def Let_def)

lemma normalize_keep:
  "cf_tailscale_mode (normalize_security_config c) = cf_tailscale_mode c"
  "cf_public_url (normalize_security_config c) = cf_public_url c"
  "cf_registry_url (normalize_security_config c) = cf_registry_url c"
  "cf_enable_lan (normalize_security_config c) = cf_enable_lan c"
  "cf_gateway_name (normalize_security_config c) = cf_gateway_name c"
  by (simp_all add: normalize_security_config_def Let_def)

lemma remote_keep:
  "cf_tailscale_mode (new_remote_access u ok c) = cf_tailscale_mode c"
  "cf_require_proof (new_remote_access u ok c) = cf_require_proof c"
  "cf_allow_legacy (new_remote_access u ok c) = cf_allow_legacy c"
  "cf_registry_url (new_remote_access u ok c) = cf_registry_url c"
  "cf_enable_lan (new_remote_access u ok c) = cf_enable_lan c"
  "cf_gateway_name (new_remote_access u ok c) = cf_gateway_name c"
  by (simp_all add: new_remote_access_def split: option.split)

lemma persisted_keep: "cf_tailscale_mode (persisted_or_seeded env stored c) = cf_tailscale_mode c"
  by (simp add: persisted_or_seeded_def apply_persisted_settings_def Let_def defaults_keep split: option.split)

text \<open>The security settings are those of the URL and the mode the daemon had when it applied them.\<close>

lemma settings_defaulted: "\<exists>c0. persisted_or_seeded env stored (load_config m env) = apply_security_defaults env c0"
proof -
  have loaded: "\<exists>c0. load_config m env = apply_security_defaults env c0" unfolding load_config_def by (rule exI, rule refl)
  have applied: "\<exists>c0. apply_persisted_settings env p c = apply_security_defaults env c0" for p c
    unfolding apply_persisted_settings_def Let_def by (rule exI, rule refl)
  show ?thesis by (cases stored) (simp_all add: persisted_or_seeded_def loaded applied)
qed

lemma loaded_ttl:
  "cf_credential_ttl (load_config m env) = env_duration_seconds_or_default env ''FERNGEIST_GATEWAY_CREDENTIAL_TTL_SECONDS'' default_credential_ttl"
  by (simp add: load_config_def apply_security_defaults_def Let_def)

text \<open>Provisioning changes the public URL only when remote access is on.\<close>

lemma url_or_mode:
  "cf_public_url (new_remote_access u ok c) = cf_public_url c \<or> cf_tailscale_mode c \<noteq> ''off''"
  by (simp add: new_remote_access_def split: option.split)

lemma load_mode: "cf_tailscale_mode (load_config m env) \<in> {''off'', ''auto'', ''cli'', ''tsnet''}"
  by (simp add: load_config_def defaults_keep normalize_tailscale_mode_def Let_def)

section \<open>Properties\<close>

text \<open>The numbers the environment may set: the variable, the setting, and its value when the variable gives no positive number.\<close>

definition duration_settings :: "(string \<times> (config \<Rightarrow> duration) \<times> duration) list" where
  "duration_settings =
     [(''FERNGEIST_GATEWAY_PAIRING_ARM_TTL_SECONDS'', cf_arm_ttl, default_pairing_arm_ttl),
      (''FERNGEIST_GATEWAY_PAIRING_LOCKOUT_SECONDS'', cf_lockout_window, default_pairing_lockout_window),
      (''FERNGEIST_GATEWAY_PAIRING_START_REFILL_SECONDS'', cf_start_refill, default_pairing_start_refill),
      (''FERNGEIST_GATEWAY_PAIRING_COMPLETE_REFILL_SECONDS'', cf_complete_refill, default_pairing_complete_refill),
      (''FERNGEIST_GATEWAY_CREDENTIAL_TTL_SECONDS'', cf_credential_ttl, default_credential_ttl),
      (''FERNGEIST_GATEWAY_SESSION_MAX_DISCONNECTED_SECONDS'', cf_max_disconnected, default_session_max_disconnected),
      (''FERNGEIST_GATEWAY_PROGRESS_INTERVAL_SECONDS'', cf_progress_interval, default_config_progress_interval),
      (''FERNGEIST_GATEWAY_UPDATE_CHECK_INTERVAL_SECONDS'', cf_update_interval, default_update_check_interval)]"

definition count_settings :: "(string \<times> (config \<Rightarrow> int) \<times> int) list" where
  "count_settings =
     [(''FERNGEIST_GATEWAY_LOG_MAX_BYTES'', cf_log_max_size, default_log_max_size),
      (''FERNGEIST_GATEWAY_LOG_MAX_BACKUPS'', cf_log_max_backups, default_log_backups),
      (''FERNGEIST_GATEWAY_PAIRING_MAX_ATTEMPTS'', cf_max_attempts, default_pairing_max_attempts),
      (''FERNGEIST_GATEWAY_PAIRING_BURST_PER_IP'', cf_burst_per_ip, default_pairing_burst_per_ip),
      (''FERNGEIST_GATEWAY_PAIRING_BURST_GLOBAL'', cf_burst_global, default_pairing_burst_global),
      (''FERNGEIST_GATEWAY_MAX_SESSIONS_PER_DEVICE'', cf_max_sessions, default_max_sessions_per_device)]"

definition positive_number :: "string \<Rightarrow> int option" where
  "positive_number v = (case parse_int64 v of None \<Rightarrow> None | Some n \<Rightarrow> if 0 < n then Some n else None)"

definition seconds_fit :: "environment \<Rightarrow> string \<Rightarrow> bool" where
  "seconds_fit env k = (case parse_int64 (trim_space (getenv env k)) of None \<Rightarrow> True | Some n \<Rightarrow> n \<le> 9223372036)"

lemma parse_int64_empty [simp]: "parse_int64 [] = None"
  by code_simp

lemma duration_read:
  assumes "seconds_fit env k"
  shows "env_duration_seconds_or_default env k d =
    (case positive_number (trim_space (getenv env k)) of None \<Rightarrow> d | Some n \<Rightarrow> n * second)"
  using assms wrap64_id
  by (auto simp: env_duration_seconds_or_default_def positive_number_def seconds_fit_def Let_def split: option.splits)

lemma count_read: "env_int_or_default env k d = (case positive_number (getenv env k) of None \<Rightarrow> d | Some n \<Rightarrow> n)"
  "env_int64_or_default env k d = (case positive_number (getenv env k) of None \<Rightarrow> d | Some n \<Rightarrow> n)"
  by (auto simp: env_int_or_default_def env_int64_or_default_def positive_number_def Let_def split: option.splits)

lemma positive_number_pos: "positive_number v = Some n \<Longrightarrow> 0 < n"
  by (auto simp: positive_number_def split: option.splits if_splits)

lemma grace_read:
  assumes "seconds_fit env ''FERNGEIST_GATEWAY_CREDENTIAL_GRACE_SECONDS''"
  shows "0 \<le> credential_grace_period_or_default env"
  using assms wrap64_id
  by (auto simp: credential_grace_period_or_default_def seconds_fit_def default_credential_grace_period_def Let_def split: option.splits)

text \<open>
  C40: The settings the environment gives (\<^verbatim>\<open>config.Load\<close>) are what was asked for. Every count is the number its variable
  holds, if that is a positive one, and its default otherwise; so is every duration, in seconds, as long as no
  variable asks for more than 9223372036 seconds (what an int64 of nanoseconds holds). So counts and durations are
  positive, the grace period is not negative, the two modes are of their enumerations, and the API has an address.
\<close>

theorem loaded_settings_well_formed:
  assumes "list_all (seconds_fit env) (''FERNGEIST_GATEWAY_CREDENTIAL_GRACE_SECONDS'' # map fst duration_settings)"
  shows "list_all (\<lambda>(k, get, d). 0 < get (load_config m env) \<and>
      get (load_config m env) = (case positive_number (trim_space (getenv env k)) of None \<Rightarrow> d | Some n \<Rightarrow> n * second)) duration_settings \<and>
    list_all (\<lambda>(k, get, d). 0 < get (load_config m env) \<and>
      get (load_config m env) = (case positive_number (getenv env k) of None \<Rightarrow> d | Some n \<Rightarrow> n)) count_settings \<and>
    0 \<le> cf_grace_period (load_config m env) \<and>
    cf_tailscale_mode (load_config m env) \<in> {''off'', ''auto'', ''cli'', ''tsnet''} \<and>
    cf_js_runtime (load_config m env) \<in> {''auto'', ''bun'', ''node'', ''npm''} \<and> cf_listen_addr (load_config m env) \<noteq> []"
proof -
  have pos: "0 < d \<Longrightarrow> 0 < (case positive_number v of None \<Rightarrow> d | Some n \<Rightarrow> n * second)"
    "0 < d \<Longrightarrow> 0 < (case positive_number v of None \<Rightarrow> d | Some n \<Rightarrow> n)" for d v
    using positive_number_pos by (auto split: option.split)
  have durations: "list_all (\<lambda>(k, get, d). 0 < d \<and> get (load_config m env) = env_duration_seconds_or_default env k d) duration_settings"
    by (simp add: duration_settings_def load_config_def apply_security_defaults_def Let_def default_pairing_arm_ttl_def
        default_pairing_lockout_window_def default_pairing_start_refill_def default_pairing_complete_refill_def default_credential_ttl_def
        default_session_max_disconnected_def default_config_progress_interval_def default_update_check_interval_def)
  have "list_all (\<lambda>(k, get, d). 0 < get (load_config m env) \<and>
      get (load_config m env) = (case positive_number (trim_space (getenv env k)) of None \<Rightarrow> d | Some n \<Rightarrow> n * second)) duration_settings"
    unfolding list_all_iff
  proof (clarify)
    fix k get d assume s: "(k, get, d) \<in> set duration_settings"
    then have "seconds_fit env k" using assms by (force simp: list_all_iff)
    then show "0 < get (load_config m env) \<and>
        get (load_config m env) = (case positive_number (trim_space (getenv env k)) of None \<Rightarrow> d | Some n \<Rightarrow> n * second)"
      using durations s pos by (auto simp: list_all_iff duration_read)
  qed
  moreover have "list_all (\<lambda>(k, get, d). 0 < get (load_config m env) \<and>
      get (load_config m env) = (case positive_number (getenv env k) of None \<Rightarrow> d | Some n \<Rightarrow> n)) count_settings"
    by (simp add: count_settings_def load_config_def apply_security_defaults_def Let_def count_read pos default_log_max_size_def
        default_log_backups_def default_pairing_max_attempts_def default_pairing_burst_per_ip_def default_pairing_burst_global_def
        default_max_sessions_per_device_def)
  moreover have "0 \<le> cf_grace_period (load_config m env)"
    using assms grace_read by (simp add: load_config_def apply_security_defaults_def Let_def)
  moreover have "cf_js_runtime (load_config m env) \<in> {''auto'', ''bun'', ''node'', ''npm''}"
    by (simp add: load_config_def apply_security_defaults_def normalize_js_runtime_def Let_def)
  moreover have "cf_listen_addr (load_config m env) \<noteq> []"
    by (simp add: load_config_def apply_security_defaults_def env_or_default_def default_listen_addr_def Let_def)
  ultimately show ?thesis using load_mode [of m env] by blast
qed

definition plain_machine :: machine where
  "plain_machine = \<lparr>mc_hostname = Some ''box'', mc_home = Some ''/root'', mc_os = ''linux'', mc_join = concat\<rparr>"

theorem loaded_settings_well_formed_witness:
  "cf_lockout_window (load_config plain_machine [''FERNGEIST_GATEWAY_PAIRING_LOCKOUT_SECONDS'' \<mapsto> '' 90 '']) = 90 * second \<and>
   cf_max_sessions (load_config plain_machine [''FERNGEIST_GATEWAY_MAX_SESSIONS_PER_DEVICE'' \<mapsto> ''-3'']) = 5"
proof -
  let ?e = "[''FERNGEIST_GATEWAY_PAIRING_LOCKOUT_SECONDS'' \<mapsto> '' 90 ''] :: environment"
  let ?f = "[''FERNGEIST_GATEWAY_MAX_SESSIONS_PER_DEVICE'' \<mapsto> ''-3''] :: environment"
  have e: "list_all (seconds_fit ?e) (''FERNGEIST_GATEWAY_CREDENTIAL_GRACE_SECONDS'' # map fst duration_settings)" by code_simp
  have f: "list_all (seconds_fit ?f) (''FERNGEIST_GATEWAY_CREDENTIAL_GRACE_SECONDS'' # map fst duration_settings)" by code_simp
  have n: "positive_number (trim_space (getenv ?e ''FERNGEIST_GATEWAY_PAIRING_LOCKOUT_SECONDS'')) = Some 90"
    "positive_number (getenv ?f ''FERNGEIST_GATEWAY_MAX_SESSIONS_PER_DEVICE'') = None" by code_simp+
  show ?thesis using loaded_settings_well_formed [OF e, of plain_machine] loaded_settings_well_formed [OF f, of plain_machine] n
    by (simp add: duration_settings_def count_settings_def default_max_sessions_per_device_def)
qed

text \<open>
  A gateway reachable from outside is hardened: whenever the API server has a public URL it requires proof of
  possession, and unless the environment says otherwise, a gateway with a public URL or with remote access switched
  on requires proof and refuses legacy bearer credentials, however the URL was obtained.\<close>

theorem exposed_gateway_hardened:
  fixes m env stored provisioned port_ok
  defines "c \<equiv> server_config m env stored provisioned port_ok"
  assumes "trim_space (cf_public_url c) \<noteq> [] \<or> cf_tailscale_mode c \<noteq> ''off''"
  shows "(trim_space (cf_public_url c) \<noteq> [] \<longrightarrow> cf_require_proof c) \<and>
    (\<not> has_env env require_proof_env \<longrightarrow> cf_require_proof c) \<and>
    (\<not> has_env env allow_legacy_env \<and> (\<not> has_env env require_proof_env \<or> trim_space (cf_public_url c) \<noteq> []) \<longrightarrow> \<not> cf_allow_legacy c)"
proof -
  obtain c0 where c0: "persisted_or_seeded env stored (load_config m env) = apply_security_defaults env c0"
    using settings_defaulted by blast
  let ?r = "new_remote_access provisioned port_ok (apply_security_defaults env c0)"
  have c: "c = normalize_security_config ?r" by (simp add: c_def server_config_def c0)
  have mode: "cf_tailscale_mode c = cf_tailscale_mode c0" "cf_tailscale_mode c0 \<noteq> []"
    using persisted_keep [of env stored "load_config m env"] load_mode [of m env] by (auto simp: c normalize_keep remote_keep defaults_keep c0)
  have url: "cf_public_url c = cf_public_url c0 \<or> cf_tailscale_mode c \<noteq> ''off''"
    using url_or_mode [of provisioned port_ok "apply_security_defaults env c0"] by (simp add: c normalize_keep remote_keep defaults_keep)
  have exposed: "trim_space (cf_public_url c0) \<noteq> [] \<or> cf_tailscale_mode c0 \<noteq> ''off''" using assms(2) url mode by auto
  have hard: "\<not> has_env env require_proof_env \<Longrightarrow> cf_require_proof ?r" and legacy: "\<not> has_env env allow_legacy_env \<Longrightarrow> \<not> cf_allow_legacy ?r"
    using exposed mode(2) by (simp_all add: remote_keep apply_security_defaults_def Let_def)
  show ?thesis using hard legacy by (auto simp: c normalize_security_config_def Let_def)
qed

theorem exposed_gateway_hardened_witness:
  "cf_require_proof (server_config plain_machine [''FERNGEIST_GATEWAY_TAILSCALE_MODE'' \<mapsto> ''auto''] None (Some ''https://a.ts.net'') True) \<and>
   \<not> cf_allow_legacy (server_config plain_machine [''FERNGEIST_GATEWAY_TAILSCALE_MODE'' \<mapsto> ''auto''] None (Some ''https://a.ts.net'') True)"
proof -
  let ?e = "[''FERNGEIST_GATEWAY_TAILSCALE_MODE'' \<mapsto> ''auto''] :: environment"
  have "cf_tailscale_mode (server_config plain_machine ?e None (Some ''https://a.ts.net'') True) = ''auto''" by code_simp
  then have "cf_tailscale_mode (server_config plain_machine ?e None (Some ''https://a.ts.net'') True) \<noteq> ''off''" by simp
  from exposed_gateway_hardened [OF disjI2 [OF this]] show ?thesis
    by (simp add: has_env_def require_proof_env_def allow_legacy_env_def)
qed

text \<open>
  Banning legacy bearer credentials does not take effect on a gateway that is not exposed: when only that variable
  is set, to whatever refuses them, the API server allows them again.\<close>

theorem legacy_ban_ignored:
  assumes "has_env env allow_legacy_env" "\<not> env_bool env allow_legacy_env" "\<not> has_env env require_proof_env"
    and "trim_space (cf_public_url (server_config m env stored provisioned port_ok)) = []"
    and "cf_tailscale_mode (server_config m env stored provisioned port_ok) = ''off''"
  shows "\<not> cf_allow_legacy (new_remote_access provisioned port_ok (persisted_or_seeded env stored (load_config m env))) \<and>
    cf_allow_legacy (server_config m env stored provisioned port_ok)"
proof -
  obtain c0 where c0: "persisted_or_seeded env stored (load_config m env) = apply_security_defaults env c0"
    using settings_defaulted by blast
  let ?r = "new_remote_access provisioned port_ok (apply_security_defaults env c0)"
  have mode: "cf_tailscale_mode c0 = ''off''" using assms(5) by (simp add: server_config_def c0 normalize_keep remote_keep defaults_keep)
  have url: "trim_space (cf_public_url ?r) = []" using assms(4) by (simp add: server_config_def c0 normalize_keep)
  then have "trim_space (cf_public_url c0) = []"
    using url_or_mode [of provisioned port_ok "apply_security_defaults env c0"] mode by (simp add: defaults_keep)
  then have "\<not> cf_require_proof ?r" "\<not> cf_allow_legacy ?r"
    using assms(1-3) mode by (simp_all add: remote_keep apply_security_defaults_def Let_def)
  then show ?thesis using url by (simp add: server_config_def c0 normalize_security_config_def)
qed

theorem legacy_ban_ignored_witness:
  "cf_allow_legacy (server_config plain_machine [''FERNGEIST_GATEWAY_ALLOW_LEGACY_BEARER_CREDENTIALS'' \<mapsto> ''0''] None None True)"
proof -
  let ?e = "[''FERNGEIST_GATEWAY_ALLOW_LEGACY_BEARER_CREDENTIALS'' \<mapsto> ''0''] :: environment"
  have "has_env ?e allow_legacy_env" "\<not> env_bool ?e allow_legacy_env" "\<not> has_env ?e require_proof_env"
    "trim_space (cf_public_url (server_config plain_machine ?e None None True)) = []"
    "cf_tailscale_mode (server_config plain_machine ?e None None True) = ''off''" by code_simp+
  from legacy_ban_ignored [OF this] show ?thesis by blast
qed

text \<open>
  The environment wins over the settings in the store: a variable that is set keeps its setting whatever was
  persisted, and a persisted public URL is used only when remote access is switched on.\<close>

theorem environment_beats_store:
  "(has_env env ''FERNGEIST_GATEWAY_REGISTRY_URL'' \<longrightarrow>
      cf_registry_url (persisted_or_seeded env stored (load_config m env)) = cf_registry_url (load_config m env)) \<and>
   (has_env env ''FERNGEIST_GATEWAY_PUBLIC_BASE_URL'' \<or> cf_tailscale_mode (load_config m env) = ''off'' \<longrightarrow>
      cf_public_url (persisted_or_seeded env stored (load_config m env)) = cf_public_url (load_config m env)) \<and>
   (has_env env ''FERNGEIST_GATEWAY_ENABLE_LAN'' \<longrightarrow>
      cf_enable_lan (persisted_or_seeded env stored (load_config m env)) = cf_enable_lan (load_config m env)) \<and>
   (has_env env ''FERNGEIST_GATEWAY_NAME'' \<longrightarrow>
      cf_gateway_name (persisted_or_seeded env stored (load_config m env)) = cf_gateway_name (load_config m env))"
proof (cases stored)
  case (Some p)
  let ?c = "load_config m env"
  have "has_env env ''FERNGEIST_GATEWAY_REGISTRY_URL'' \<Longrightarrow> cf_registry_url (apply_persisted_settings env p ?c) = cf_registry_url ?c"
    "has_env env ''FERNGEIST_GATEWAY_PUBLIC_BASE_URL'' \<or> cf_tailscale_mode ?c = ''off'' \<Longrightarrow> cf_public_url (apply_persisted_settings env p ?c) = cf_public_url ?c"
    "has_env env ''FERNGEIST_GATEWAY_ENABLE_LAN'' \<Longrightarrow> cf_enable_lan (apply_persisted_settings env p ?c) = cf_enable_lan ?c"
    "has_env env ''FERNGEIST_GATEWAY_NAME'' \<Longrightarrow> cf_gateway_name (apply_persisted_settings env p ?c) = cf_gateway_name ?c"
    by (auto simp: apply_persisted_settings_def Let_def defaults_keep split: option.split)
  then show ?thesis by (simp add: Some persisted_or_seeded_def)
qed (simp add: persisted_or_seeded_def)

theorem environment_beats_store_witness:
  "cf_registry_url (persisted_or_seeded [''FERNGEIST_GATEWAY_REGISTRY_URL'' \<mapsto> ''r'']
     (Some \<lparr>ps_registry_url = ''other'', ps_public_url = [], ps_enable_lan = None, ps_gateway_name = []\<rparr>)
     (load_config plain_machine [''FERNGEIST_GATEWAY_REGISTRY_URL'' \<mapsto> ''r''])) = ''r''"
proof -
  let ?e = "[''FERNGEIST_GATEWAY_REGISTRY_URL'' \<mapsto> ''r''] :: environment"
  have "has_env ?e ''FERNGEIST_GATEWAY_REGISTRY_URL''" by code_simp
  then have "cf_registry_url (persisted_or_seeded ?e
      (Some \<lparr>ps_registry_url = ''other'', ps_public_url = [], ps_enable_lan = None, ps_gateway_name = []\<rparr>)
      (load_config plain_machine ?e)) = cf_registry_url (load_config plain_machine ?e)"
    using environment_beats_store by blast
  then show ?thesis by code_simp
qed

text \<open>
  A number of seconds too large for an int64 of nanoseconds is not refused but wraps: the credential lifetime of
  18446744074 seconds is less than a third of a second.\<close>

theorem credential_ttl_wraps:
  "cf_credential_ttl (load_config plain_machine [''FERNGEIST_GATEWAY_CREDENTIAL_TTL_SECONDS'' \<mapsto> ''18446744074'']) = 290448384"
proof -
  have "parse_int64 (trim_space ''18446744074'') = Some 18446744074" "trim_space ''18446744074'' \<noteq> []" by code_simp+
  then show ?thesis by (simp add: loaded_ttl env_duration_seconds_or_default_def getenv_def Let_def wrap64_def)
qed

end
