(* ===== verification/Http_Auth_Proofs.thy ===== *)
theory Http_Auth_Proofs
  imports Http_Auth Http_Proof_Proofs Pairing_Limits_Proofs Config_Proofs
begin

text \<open>
  What the gate and the pairing handlers let through, and what the status says of remote access.
\<close>

section \<open>The gate\<close>

text \<open>The request carries a signature by the credential's key over itself, made within the skew of the clock.\<close>

definition signed_request :: "crypto \<Rightarrow> gtime \<Rightarrow> http_request \<Rightarrow> credential \<Rightarrow> bool" where
  "signed_request cy now r c \<longleftrightarrow>
     (\<exists>key signature hash ts.
        parse_proof_public_key cy (cd_proof c) = Some key \<and> request_body_hash cy r json_body_limit = Some hash \<and>
        decode_proof_base64 cy (trim_space (header r proof_header_signature)) = Some signature \<and>
        cy_verify cy key (build_proof_message (rq_method r) (request_path_with_raw_query r) (bearer_token r)
          (trim_space (header r proof_header_timestamp)) (trim_space (header r proof_header_nonce)) hash) signature \<and>
        proof_time r = Some ts \<and> now - proof_skew_window \<le> ts \<and> ts \<le> now + proof_skew_window)"

definition request_nonce :: "http_request \<Rightarrow> credential \<Rightarrow> string" where
  "request_nonce r c = nonce_key (cd_device c) (trim_space (header r proof_header_nonce))"

lemma verified_signed:
  assumes "snd (verify_signature cy now r (bearer_token r) (cd_device c) (cd_proof c) s) = None" "cache_ok cy (ph_keys s)"
  shows "signed_request cy now r c"
proof -
  obtain n where n: "parse_int64 (trim_space (header r proof_header_timestamp)) = Some n"
    using assms(1) by (auto simp: verify_signature_def Let_def split: if_splits option.splits)
  obtain hash where h: "request_body_hash cy r json_body_limit = Some hash"
    using assms(1) n by (auto simp: verify_signature_def Let_def split: if_splits option.splits)
  have key: "snd (cached_proof_public_key cy (cd_proof c) (ph_keys s)) = parse_proof_public_key cy (cd_proof c)"
    using assms(2) by (auto simp: cache_ok_def cached_proof_public_key_def split: option.splits)
  obtain ts where ts: "proof_time r = Some ts" "now - proof_skew_window \<le> ts" "ts \<le> now + proof_skew_window"
    using verify_signature_time [OF assms(1)] by blast
  obtain k sig where "parse_proof_public_key cy (cd_proof c) = Some k"
    "decode_proof_base64 cy (trim_space (header r proof_header_signature)) = Some sig"
    "cy_verify cy k (build_proof_message (rq_method r) (request_path_with_raw_query r) (bearer_token r)
      (trim_space (header r proof_header_timestamp)) (trim_space (header r proof_header_nonce)) hash) sig"
    using assms(1) n h key by (auto simp: verify_signature_def Let_def split_def split: if_splits option.splits)
  then show ?thesis using ts h unfolding signed_request_def by blast
qed

lemma proof_checked:
  assumes "check_proof cy now r c g = (g', None)" "cache_ok cy (ph_keys (gw_proofs g))" "trim_space (cd_proof c) \<noteq> []"
  shows "signed_request cy now r c \<and> seen_nonce (request_nonce r c) now (ph_nonces (gw_proofs g'))"
proof -
  obtain p where v: "verify_credential_proof cy now r (bearer_token r) (cd_device c) (cd_proof c) (gw_proofs g) = (p, None)"
    and g': "gw_proofs g' = p" using assms(1) by (auto simp: check_proof_def Let_def split: prod.splits)
  note acc = accepted_once [OF v assms(3)]
  show ?thesis using verified_signed [OF acc(1) assms(2)] acc(2)
    by (simp add: g' seen_nonce_def request_nonce_def proof_replay_window_def)
qed

text \<open>
  C6: Every request the gate lets through is its device's: the token is that of a live credential with the scope the
  route asks for, and unless the credential has no key and legacy credentials are allowed, the request is signed by the
  device's key over its method, path, body and time, and its nonce is spent.\<close>

theorem authenticated_request_proved:
  assumes "require_gateway_scope cy digest io now scope r g = (g', Inr c)" "cache_ok cy (ph_keys (gw_proofs g))"
  shows "snd (validate_credential digest io now (bearer_token r) (gw_pairing g)) = Inr c \<and> has_scope scope c \<and>
    (trim_space (cd_proof c) = [] \<and> cf_allow_legacy (gw_config g) \<or>
     signed_request cy now r c \<and> seen_nonce (request_nonce r c) now (ph_nonces (gw_proofs g')))"
proof -
  obtain ps where v: "validate_credential digest io now (bearer_token r) (gw_pairing g) = (ps, Inr c)"
    and l: "\<not> legacy_refused c (g\<lparr>gw_pairing := ps\<rparr>)" and p: "check_proof cy now r c (g\<lparr>gw_pairing := ps\<rparr>) = (g', None)" and s: "has_scope scope c"
    using assms(1) by (auto simp: require_gateway_scope_def require_gateway_credential_def Let_def require_scope_def
        split: prod.splits sum.splits if_splits option.splits)
  show ?thesis using v s l proof_checked [OF p] assms(2) by (cases "trim_space (cd_proof c) = []") (auto simp: legacy_refused_def)
qed

definition ex_gateway :: gateway where
  "ex_gateway = \<lparr>gw_config = server_config plain_machine [''FERNGEIST_GATEWAY_TAILSCALE_MODE'' \<mapsto> ''auto''] None None True,
     gw_pairing = new_service (\<lambda>t. t) (\<lambda>_. True) (unix_second 0) \<lparr>po_arm_ttl = 0, po_token_ttl = 0, po_grace = 0, po_diagnostics = False, po_restart_env = False\<rparr>
       (Some [(''dev'', \<lparr>pg_device = ''dev'', pg_name = ''Phone'', pg_token = ''sha256:tok'', pg_expires = unix_second 5000, pg_scopes = [],
         pg_proof = ''key'', pg_retired = [], pg_retired_until = zero_time\<rparr>)]),
     gw_proofs = fresh_proofs, gw_limiter = some_limiter, gw_attempts = some_tracker\<rparr>"

definition ex_request :: http_request where
  "ex_request = proved_request\<lparr>rq_method := ''POST'', rq_remote := ''10.0.0.1:5000'', rq_header := (rq_header proved_request)(''Authorization'' \<mapsto> ''Bearer tok'')\<rparr>"

theorem authenticated_request_proved_witness:
  "\<exists>c. snd (require_gateway_scope plain_crypto (\<lambda>t. t) (\<lambda>_. True) (unix_second 900) scope_control ex_request ex_gateway) = Inr c \<and>
     signed_request plain_crypto (unix_second 900) ex_request c"
proof -
  let ?q = "require_gateway_scope plain_crypto (\<lambda>t. t) (\<lambda>_. True) (unix_second 900) scope_control ex_request ex_gateway"
  have "(case snd ?q of Inl _ \<Rightarrow> False | Inr c \<Rightarrow> trim_space (cd_proof c) \<noteq> [])" by code_simp
  then obtain c where c: "snd ?q = Inr c" "trim_space (cd_proof c) \<noteq> []" by (auto split: sum.splits)
  then have q: "?q = (fst ?q, Inr c)" by (metis prod.collapse)
  have k: "cache_ok plain_crypto (ph_keys (gw_proofs ex_gateway))" by (simp add: ex_gateway_def fresh_proofs_def cache_ok_def)
  from authenticated_request_proved [OF q k] c show ?thesis by blast
qed

text \<open>
  A new token is issued only against the same proof: whoever refreshes a credential, live, expired but within its
  grace, or by a token already rotated away, has signed the request with the device's key, unless the credential has none
  and legacy credentials are allowed.\<close>

theorem refresh_needs_proof:
  assumes "handle_auth_refresh cy digest io now fresh r g = (g', IssuedCredential c')" "cache_ok cy (ph_keys (gw_proofs g))"
  shows "\<exists>c. lookup_credential digest now (bearer_token r) (gw_pairing g) = Inr c \<and>
    (trim_space (cd_proof c) = [] \<and> cf_allow_legacy (gw_config g) \<or>
     signed_request cy now r c \<and> seen_nonce (request_nonce r c) now (ph_nonces (gw_proofs g')))"
proof -
  obtain c g1 ps where l: "lookup_credential digest now (bearer_token r) (gw_pairing g) = Inr c" "\<not> legacy_refused c g"
    and p: "check_proof cy now r c g = (g1, None)" and g': "g' = g1\<lparr>gw_pairing := ps\<rparr>"
    using assms(1) by (auto simp: handle_auth_refresh_def split: prod.splits sum.splits if_splits option.splits)
  show ?thesis
    using l proof_checked [OF p assms(2)] by (cases "trim_space (cd_proof c) = []") (auto simp: legacy_refused_def g')
qed

theorem refresh_needs_proof_witness:
  "\<exists>c. lookup_credential (\<lambda>t. t) (unix_second 900) ''tok'' (gw_pairing ex_gateway) = Inr c \<and> signed_request plain_crypto (unix_second 900) ex_request c"
proof -
  let ?h = "handle_auth_refresh plain_crypto (\<lambda>t. t) (\<lambda>_. True) (unix_second 900) ''new'' ex_request ex_gateway"
  have "(case snd ?h of IssuedCredential _ \<Rightarrow> True | _ \<Rightarrow> False)" by code_simp
  then obtain c' where "snd ?h = IssuedCredential c'" by (auto split: reply.splits)
  then have h: "?h = (fst ?h, IssuedCredential c')" by (metis prod.collapse)
  have k: "cache_ok plain_crypto (ph_keys (gw_proofs ex_gateway))" by (simp add: ex_gateway_def fresh_proofs_def cache_ok_def)
  have legacy: "\<not> cf_allow_legacy (gw_config ex_gateway)" by code_simp
  have b: "bearer_token ex_request = ''tok''" by code_simp
  from refresh_needs_proof [OF h k] legacy b show ?thesis by auto
qed

section \<open>Pairing\<close>

text \<open>
  An address or a challenge that is locked out learns nothing: its requests are answered alike whatever code they
  carry, and leave the pairing service as it was.\<close>

theorem locked_out_learns_nothing:
  assumes "snd (is_locked (request_source_ip (rq_remote r)) (pairing_attempt_key (pc_challenge q)) now (gw_attempts g))"
  shows "handle_pair_complete cy digest io now dev token (Some (q\<lparr>pc_code := guess\<rparr>)) r g = handle_pair_complete cy digest io now dev token (Some q) r g \<and>
    gw_pairing (fst (handle_pair_complete cy digest io now dev token (Some q) r g)) = gw_pairing g \<and>
    (\<exists>status message. snd (handle_pair_complete cy digest io now dev token (Some q) r g) = Refused status message)"
proof -
  have a: "gw_attempts (fst (allow_pairing_request r False now g)) = gw_attempts g" "gw_pairing (fst (allow_pairing_request r False now g)) = gw_pairing g"
    by (simp_all add: allow_pairing_request_def Let_def split_def)
  obtain g1 ok where g1: "allow_pairing_request r False now g = (g1, ok)" by (cases "allow_pairing_request r False now g")
  show ?thesis using assms a by (simp add: handle_pair_complete_def g1 Let_def split_def split: bool.split)
qed

definition ex_completion :: pair_complete_request where
  "ex_completion = \<lparr>pc_challenge = ''c'', pc_code = ''000000'', pc_device = ''Phone'', pc_proof_key = ''key''\<rparr>"

theorem locked_out_learns_nothing_witness:
  "(let g = ex_gateway\<lparr>gw_attempts := some_tracker\<lparr>at_challenge := [''c'' \<mapsto> \<lparr>as_failures = 0, as_locked_until = hour + minute\<rparr>]\<rparr>\<rparr> in
    snd (handle_pair_complete plain_crypto (\<lambda>t. t) (\<lambda>_. True) hour ''d'' ''t'' (Some (ex_completion\<lparr>pc_code := ''123456''\<rparr>)) ex_request g) =
      Refused 429 ''pairing temporarily locked'' \<and>
    gw_pairing (fst (handle_pair_complete plain_crypto (\<lambda>t. t) (\<lambda>_. True) hour ''d'' ''t'' (Some ex_completion) ex_request g)) = gw_pairing g)"
proof -
  let ?g = "ex_gateway\<lparr>gw_attempts := some_tracker\<lparr>at_challenge := [''c'' \<mapsto> \<lparr>as_failures = 0, as_locked_until = hour + minute\<rparr>]\<rparr>\<rparr>"
  have l: "snd (is_locked (request_source_ip (rq_remote ex_request)) (pairing_attempt_key (pc_challenge ex_completion)) hour (gw_attempts ?g))"
    by code_simp
  have "snd (handle_pair_complete plain_crypto (\<lambda>t. t) (\<lambda>_. True) hour ''d'' ''t'' (Some ex_completion) ex_request ?g) =
      Refused 429 ''pairing temporarily locked''" by code_simp
  then show ?thesis using locked_out_learns_nothing [OF l, of plain_crypto "\<lambda>t. t" "\<lambda>_. True" "''d''" "''t''" "''123456''"]
    unfolding Let_def by simp
qed

text \<open>
  Where proof of possession is required, every device that pairs can prove itself: the credential it gets holds a key
  the gateway can parse, and its failed attempts are forgotten.\<close>

theorem paired_device_can_prove:
  assumes "handle_pair_complete cy digest io now dev token body r g = (g', IssuedCredential c)" "cf_require_proof (gw_config g)"
  shows "trim_space (cd_proof c) \<noteq> [] \<and> parse_proof_public_key cy (cd_proof c) \<noteq> None \<and> cd_device c = dev \<and> cd_token c = token \<and>
    at_ip (gw_attempts g') (known_ip (request_source_ip (rq_remote r))) = None"
proof -
  obtain g1 where g1: "allow_pairing_request r False now g = (g1, True)" "rq_method r = ''POST''"
    using assms(1) by (auto simp: handle_pair_complete_def split: prod.splits bool.splits if_splits)
  then have cfg: "cf_require_proof (gw_config g1)" using assms(2) by (auto simp: allow_pairing_request_def Let_def split: prod.splits)
  obtain q where q: "body = Some q" using assms(1) g1 by (cases body) (auto simp: handle_pair_complete_def)
  let ?key = "trim_space (pc_proof_key q)" and ?src = "request_source_ip (rq_remote r)"
  obtain tr where lk: "is_locked ?src (pairing_attempt_key (pc_challenge q)) now (gw_attempts g1) = (tr, False)"
    using assms(1) g1 q by (auto simp: handle_pair_complete_def Let_def split: prod.splits if_splits)
  have key: "?key \<noteq> []" "parse_proof_public_key cy ?key \<noteq> None"
    using assms(1) cfg by (auto simp: handle_pair_complete_def g1 q lk Let_def split: if_splits)
  obtain ps where fin: "complete_pairing digest io now dev token (pc_challenge q) (pc_code q) (pc_device q) ?key (gw_pairing g1) = (ps, Inr c)"
    and g': "gw_attempts g' = reset_attempts ?src (pairing_attempt_key (pc_challenge q)) tr"
    using assms(1) cfg key by (auto simp: handle_pair_complete_def g1 q lk Let_def split: prod.splits sum.splits pairing_error.splits)
  have "cd_proof c = ?key \<and> cd_device c = dev \<and> cd_token c = token"
    using fin by (auto simp: complete_pairing_def Let_def new_credential_def split: if_splits prod.splits sum.splits)
  then show ?thesis using key by (simp add: g' reset_attempts_def Let_def)
qed

section \<open>Remote access\<close>

text \<open>
  A public URL without TLS is reported healthy, with a warning only: the health the status gives never depends on the
  scheme.\<close>

theorem insecure_url_reported_healthy:
  assumes "parse_url public_url = Some (scheme, hostport, hostname)" "scheme \<noteq> []" "hostport \<noteq> []" "public_url \<noteq> []"
  shows "rs_healthy (remote_status_of cfg parse_url public_url None include_url)"
  using assms by (simp add: remote_status_of_def classify_remote_url_def Let_def split_def)

theorem insecure_url_reported_healthy_witness:
  "rs_healthy (remote_status_of (gw_config ex_gateway) (\<lambda>_. Some (''http'', ''a.example'', ''a.example'')) ''http://a.example'' None True) \<and>
   rs_scope (remote_status_of (gw_config ex_gateway) (\<lambda>_. Some (''http'', ''a.example'', ''a.example'')) ''http://a.example'' None True) = ''public''"
proof -
  have u: "(\<lambda>_ :: string. Some (''http'', ''a.example'', ''a.example'')) ''http://a.example'' = Some (''http'', ''a.example'', ''a.example'')" by simp
  have n: "''http'' \<noteq> []" "''a.example'' \<noteq> []" "''http://a.example'' \<noteq> []" by simp_all
  have "rs_scope (remote_status_of (gw_config ex_gateway) (\<lambda>_. Some (''http'', ''a.example'', ''a.example'')) ''http://a.example'' None True) = ''public''"
    by code_simp
  then show ?thesis using insecure_url_reported_healthy [OF u n, of "gw_config ex_gateway" True] by blast
qed

end
