(* ===== verification/Http_Query.thy ===== *)
theory Http_Query
  imports Go_Text
begin

text \<open>
  Query strings as \<^verbatim>\<open>net/url\<close> reads and writes them, what \<^verbatim>\<open>internal/api/server.go\<close> writes of a request's path into
  the log, and the deep link a pairing code is handed out in (\<^verbatim>\<open>buildPairingPayload\<close> in
  \<^verbatim>\<open>internal/api/pairing_handlers.go\<close>).
\<close>

section \<open>Escaping\<close>

definition unreserved :: "char \<Rightarrow> bool" where
  "unreserved c = (let n = of_char c :: nat in
     (48 \<le> n \<and> n \<le> 57) \<or> (65 \<le> n \<and> n \<le> 90) \<or> (97 \<le> n \<and> n \<le> 122) \<or> n = 45 \<or> n = 46 \<or> n = 95 \<or> n = 126)"

definition hex_digit :: "nat \<Rightarrow> char" where
  "hex_digit n = char_of (if n < 10 then 48 + n else 55 + n)"

definition unhex :: "char \<Rightarrow> nat option" where
  "unhex c = (let n = of_char c in
     if 48 \<le> n \<and> n \<le> 57 then Some (n - 48)
     else if 97 \<le> n \<and> n \<le> 102 then Some (n - 87)
     else if 65 \<le> n \<and> n \<le> 70 then Some (n - 55) else None)"

definition escape_char :: "char \<Rightarrow> string" where
  "escape_char c =
     (if unreserved c then [c] else if c = CHR '' '' then ''+''
      else [CHR ''%'', hex_digit (of_char c div 16), hex_digit (of_char c mod 16)])"

definition query_escape :: "string \<Rightarrow> string" where
  "query_escape s = concat (map escape_char s)"

fun query_unescape :: "string \<Rightarrow> string option" where
  "query_unescape [] = Some []"
| "query_unescape (c # cs) =
     (if c = CHR ''%'' then
        (case cs of
           a # b # rest \<Rightarrow>
             (case (unhex a, unhex b) of
                (Some h, Some l) \<Rightarrow> map_option ((#) (char_of (16 * h + l))) (query_unescape rest)
              | _ \<Rightarrow> None)
         | _ \<Rightarrow> None)
      else map_option ((#) (if c = CHR ''+'' then CHR '' '' else c)) (query_unescape cs))"

section \<open>Query strings\<close>

type_synonym query_values = "(string \<times> string list) list"

definition add_value :: "string \<Rightarrow> string \<Rightarrow> query_values \<Rightarrow> query_values" where
  "add_value k v m = AList.update k ((case map_of m k of None \<Rightarrow> [] | Some vs \<Rightarrow> vs) @ [v]) m"

text \<open>The values read, and whether a part of the query was malformed.\<close>

definition parse_part :: "string \<Rightarrow> query_values \<times> bool \<Rightarrow> query_values \<times> bool" where
  "parse_part part acc =
     (if CHR '';'' \<in> set part then (fst acc, True)
      else if part = [] then acc
      else
        let (k, v) = (case cut_at (CHR ''='') part of None \<Rightarrow> (part, []) | Some kv \<Rightarrow> kv)
        in case (query_unescape k, query_unescape v) of
             (Some k', Some v') \<Rightarrow> (add_value k' v' (fst acc), snd acc)
           | _ \<Rightarrow> (fst acc, True))"

definition parse_query :: "string \<Rightarrow> query_values \<times> bool" where
  "parse_query q = fold parse_part (split_at (CHR ''&'') q) ([], False)"

definition encode_pair :: "string \<Rightarrow> string \<Rightarrow> string" where
  "encode_pair k v = query_escape k @ ''='' @ query_escape v"

definition encode_query :: "query_values \<Rightarrow> string" where
  "encode_query m = join_strings ''&'' (concat (map (\<lambda>(k, vs). map (encode_pair k) vs) (sort_key fst m)))"

section \<open>Request paths in the log\<close>

definition is_sensitive_query_key :: "string \<Rightarrow> bool" where
  "is_sensitive_query_key key =
     (let k = to_lower (trim_space key) in k = ''access_token'' \<or> k = ''token'' \<or> k = ''authorization'')"

definition sanitize_raw_query :: "string \<Rightarrow> string" where
  "sanitize_raw_query raw =
     (let (values, malformed) = parse_query raw in
      if malformed then raw
      else encode_query (map (\<lambda>(k, vs). (k, if is_sensitive_query_key k then [''redacted''] else vs)) values))"

definition request_path :: "string \<Rightarrow> string \<Rightarrow> string" where
  "request_path path raw = (if raw = [] then path else path @ ''?'' @ sanitize_raw_query raw)"

section \<open>The pairing deep link\<close>

record pairing_target =
  pt_scheme :: string
  pt_host :: string

definition build_pairing_payload :: "pairing_target \<Rightarrow> string \<Rightarrow> string \<Rightarrow> string" where
  "build_pairing_payload target challenge_id code =
     ''ferngeist-gateway://pair?'' @
       encode_query [(''scheme'', [pt_scheme target]), (''host'', [pt_host target]), (''challengeId'', [challenge_id]), (''code'', [code])]"

section \<open>Reading back what was written\<close>

lemma char_ne_iff: "c \<noteq> d \<longleftrightarrow> of_char c \<noteq> (of_char d :: nat)"
  by simp

lemma unhex_digit: "n < 16 \<Longrightarrow> unhex (hex_digit n) = Some n"
  by (simp add: unhex_def hex_digit_def Let_def of_char_of)

lemma byte_split: "char_of (16 * (of_char c div 16) + of_char c mod (16 :: nat)) = c"
  by (simp add: mult.commute)

lemma byte_bound: "of_char c div 16 < (16 :: nat)"
  using nat_of_char_less_256 [of c] by (simp add: div_less_iff_less_mult)

lemma unescape_escape_char: "query_unescape (escape_char c @ rest) = map_option ((#) c) (query_unescape rest)"
proof (cases "unreserved c \<or> c = CHR '' ''")
  case True
  then show ?thesis by (auto simp: escape_char_def unreserved_def Let_def)
next
  case False
  then show ?thesis
    using unhex_digit [OF byte_bound [of c]] unhex_digit [of "of_char c mod 16"]
    by (simp add: escape_char_def byte_split)
qed

lemma unescape_escape: "query_unescape (query_escape s) = Some s"
  by (induction s) (simp_all add: query_escape_def unescape_escape_char del: query_unescape.simps(2))

text \<open>What an escaped string never contains.\<close>

lemma hex_digit_plain: "n < 16 \<Longrightarrow> unreserved (hex_digit n)"
  by (simp add: unreserved_def hex_digit_def Let_def of_char_of)

lemma escape_chars: "d \<in> set (query_escape s) \<Longrightarrow> unreserved d \<or> d = CHR ''+'' \<or> d = CHR ''%''"
  using hex_digit_plain byte_bound
  by (fastforce simp: query_escape_def escape_char_def split: if_splits)

lemma escape_free: "CHR ''&'' \<notin> set (query_escape s)" "CHR ''='' \<notin> set (query_escape s)" "CHR '';'' \<notin> set (query_escape s)"
  by (auto simp: unreserved_def Let_def dest!: escape_chars)

lemma parse_encoded: "parse_part (encode_pair k v) (m, e) = (add_value k v m, e)"
  by (simp add: parse_part_def encode_pair_def escape_free cut_at_append unescape_escape)

lemma fold_encoded:
  "fold parse_part (map (\<lambda>(k, v). encode_pair k v) ps) (m, e) = (fold (\<lambda>(k, v). add_value k v) ps m, e)"
  by (induction ps arbitrary: m) (auto simp: parse_encoded)

lemma fold_add_value:
  "map_of (fold (\<lambda>(k, v). add_value k v) ps m) k =
     (let vs = map snd (filter (\<lambda>p. fst p = k) ps) in
      case map_of m k of None \<Rightarrow> if vs = [] then None else Some vs | Some ws \<Rightarrow> Some (ws @ vs))"
  by (induction ps arbitrary: m) (auto simp: add_value_def update_conv' Let_def split: option.splits if_splits)

definition pairs_of :: "query_values \<Rightarrow> (string \<times> string) list" where
  "pairs_of m = concat (map (\<lambda>(k, vs). map (Pair k) vs) m)"

lemma pairs_of_key: "keys_distinct m \<Longrightarrow> map snd (filter (\<lambda>p. fst p = k) (pairs_of m)) = (case map_of m k of None \<Rightarrow> [] | Some vs \<Rightarrow> vs)"
proof (induction m)
  case (Cons e m)
  have none: "filter (\<lambda>p. fst p = k) (pairs_of m) = []" if "k \<notin> fst ` set m" using that by (force simp: pairs_of_def filter_empty_conv)
  have "filter (\<lambda>p. fst p = k) (pairs_of (e # m)) = (if fst e = k then map (Pair k) (snd e) else []) @ filter (\<lambda>p. fst p = k) (pairs_of m)"
    by (cases e) (auto simp: pairs_of_def filter_empty_conv intro: filter_True)
  moreover have "map snd (map (Pair k) vs) = vs" for vs :: "string list" by (simp add: comp_def)
  ultimately show ?case using Cons none by (cases e) (auto simp: keys_distinct_def map_of_eq_None_iff)
qed (simp add: pairs_of_def)

lemma encode_pairs: "encode_query m = join_strings ''&'' (map (\<lambda>(k, v). encode_pair k v) (pairs_of (sort_key fst m)))"
  by (simp add: encode_query_def pairs_of_def map_concat comp_def split_def)

lemma parse_encode:
  assumes "keys_distinct m" "list_all (\<lambda>(k, vs). vs \<noteq> []) m"
  shows "\<exists>m'. parse_query (encode_query m) = (m', False) \<and> map_of m' = map_of m"
proof -
  let ?ps = "pairs_of (sort_key fst m)"
  have parts: "list_all (\<lambda>x. CHR ''&'' \<notin> set x) (map (\<lambda>(k, v). encode_pair k v) ?ps)"
    by (auto simp: list_all_iff encode_pair_def escape_free)
  have "parse_query (encode_query m) = (fold (\<lambda>(k, v). add_value k v) ?ps [], False)"
  proof (cases "?ps = []")
    case True
    then show ?thesis by (simp add: parse_query_def encode_pairs parse_part_def)
  next
    case False
    then show ?thesis unfolding parse_query_def encode_pairs by (subst split_join) (use parts in \<open>simp_all add: fold_encoded\<close>)
  qed
  moreover have "map_of (fold (\<lambda>(k, v). add_value k v) ?ps []) k = map_of m k" for k
  proof -
    have d: "keys_distinct (sort_key fst m)" using assms(1) by (simp add: keys_distinct_def distinct_map)
    have "map_of (sort_key fst m) k = Some v \<longleftrightarrow> map_of m k = Some v" for v
      by (simp add: map_of_in_set [OF d] map_of_in_set [OF assms(1)])
    then have s: "map_of (sort_key fst m) k = map_of m k" by (metis not_Some_eq)
    have "map_of m k = Some vs \<Longrightarrow> vs \<noteq> []" for vs using assms(2) by (auto simp: list_all_iff dest!: map_of_SomeD)
    then show ?thesis by (auto simp: fold_add_value pairs_of_key [OF d] s Let_def split: option.split)
  qed
  ultimately show ?thesis by (metis ext)
qed

lemma add_value_ok:
  assumes "keys_distinct m \<and> list_all (\<lambda>(k, vs). vs \<noteq> []) m"
  shows "keys_distinct (add_value k v m) \<and> list_all (\<lambda>(k, vs). vs \<noteq> []) (add_value k v m)"
proof
  show "keys_distinct (add_value k v m)" unfolding add_value_def using assms by (intro keys_distinct_update) simp
  have "list_all P (AList.update k w m)" if "list_all P m" "P (k, w)" for P :: "string \<times> string list \<Rightarrow> bool" and w
    using that set_update_subset [of k w m] unfolding list_all_iff by blast
  then show "list_all (\<lambda>(k, vs). vs \<noteq> []) (add_value k v m)" unfolding add_value_def using assms by simp
qed

lemma parsed_ok: "keys_distinct (fst (parse_query q)) \<and> list_all (\<lambda>(k, vs). vs \<noteq> []) (fst (parse_query q))"
proof -
  have "keys_distinct (fst (fold parse_part ps acc)) \<and> list_all (\<lambda>(k, vs). vs \<noteq> []) (fst (fold parse_part ps acc))"
    if "keys_distinct (fst acc) \<and> list_all (\<lambda>(k, vs). vs \<noteq> []) (fst acc)" for ps acc
    using that
  proof (induction ps arbitrary: acc)
    case (Cons p ps)
    have "keys_distinct (fst (parse_part p acc)) \<and> list_all (\<lambda>(k, vs). vs \<noteq> []) (fst (parse_part p acc))"
      using Cons.prems add_value_ok [of "fst acc"]
      by (simp add: parse_part_def split: prod.split option.split)
    then show ?case using Cons.IH by simp
  qed simp
  then show ?thesis by (simp add: parse_query_def)
qed

section \<open>Properties\<close>

text \<open>
  The deep link of a pairing carries its target, challenge and code whatever characters they contain: reading its
  query gives each of the four back.\<close>

theorem pairing_payload_roundtrip:
  "\<exists>m. parse_query (drop (length ''ferngeist-gateway://pair?'') (build_pairing_payload target challenge_id code)) = (m, False) \<and>
     map_of m = [''scheme'' \<mapsto> [pt_scheme target], ''host'' \<mapsto> [pt_host target], ''challengeId'' \<mapsto> [challenge_id], ''code'' \<mapsto> [code]]"
proof -
  let ?m = "[(''scheme'', [pt_scheme target]), (''host'', [pt_host target]), (''challengeId'', [challenge_id]), (''code'', [code])]"
  have "keys_distinct ?m" "list_all (\<lambda>(k, vs). vs \<noteq> []) ?m" by (simp_all add: keys_distinct_def)
  from parse_encode [OF this] obtain m where m: "parse_query (encode_query ?m) = (m, False)" "map_of m = map_of ?m" by blast
  have "drop (length ''ferngeist-gateway://pair?'') (build_pairing_payload target challenge_id code) = encode_query ?m"
    by (simp add: build_pairing_payload_def)
  moreover have "map_of ?m = [''scheme'' \<mapsto> [pt_scheme target], ''host'' \<mapsto> [pt_host target], ''challengeId'' \<mapsto> [challenge_id], ''code'' \<mapsto> [code]]"
    by (auto simp: fun_eq_iff)
  ultimately show ?thesis using m by simp
qed

text \<open>
  The log shows no credential of a well-formed query: reading back what is logged gives the same parameters, with
  every sensitive one replaced.\<close>

theorem logged_query_redacted:
  assumes "parse_query raw = (m, False)"
  shows "\<exists>m'. parse_query (sanitize_raw_query raw) = (m', False) \<and>
    map_of m' k = (if is_sensitive_query_key k then map_option (\<lambda>_. [''redacted'']) (map_of m k) else map_of m k)"
proof -
  let ?r = "map (\<lambda>(k, vs). (k, if is_sensitive_query_key k then [''redacted''] else vs)) m"
  have ok: "keys_distinct m" "list_all (\<lambda>(k, vs). vs \<noteq> []) m" using parsed_ok [of raw] by (simp_all add: assms)
  have "map fst ?r = map fst m" by (simp add: comp_def case_prod_beta)
  then have "keys_distinct ?r" using ok(1) by (simp only: keys_distinct_def)
  moreover have "list_all (\<lambda>(k, vs). vs \<noteq> []) ?r" using ok(2) by (induction m) (auto split: if_splits)
  ultimately obtain m' where m': "parse_query (encode_query ?r) = (m', False)" "map_of m' = map_of ?r" using parse_encode by blast
  have "map_of ?r k = (if is_sensitive_query_key k then map_option (\<lambda>_. [''redacted'']) (map_of m k) else map_of m k)"
    by (induction m) auto
  then show ?thesis using m' by (simp add: sanitize_raw_query_def assms)
qed

theorem logged_query_redacted_witness:
  "\<exists>m'. parse_query (sanitize_raw_query ''access_token=s%26cret&cwd=%2Ftmp'') = (m', False) \<and> map_of m' ''access_token'' = Some [''redacted'']"
proof -
  have "parse_query ''access_token=s%26cret&cwd=%2Ftmp'' = ([(''access_token'', [''s&cret'']), (''cwd'', [''/tmp''])], False)" by code_simp
  from logged_query_redacted [OF this, of "''access_token''"] show ?thesis
    by (simp add: is_sensitive_query_key_def to_lower_def trim_space_def is_space_def Let_def)
qed

text \<open>
  A malformed query is logged as it came: one bad escape after a credential and the credential is in the log.\<close>

theorem malformed_query_logged:
  assumes "snd (parse_query raw)"
  shows "request_path path raw = path @ ''?'' @ raw"
  using assms by (cases "raw = []") (auto simp: request_path_def sanitize_raw_query_def parse_query_def parse_part_def split: prod.splits)

theorem malformed_query_logged_witness:
  "request_path ''/v1/acp/r'' ''access_token=secret&x=%zz'' = ''/v1/acp/r?access_token=secret&x=%zz''"
proof -
  have "snd (parse_query ''access_token=secret&x=%zz'')" by code_simp
  from malformed_query_logged [OF this, of "''/v1/acp/r''"] show ?thesis by simp
qed

end
