(* ===== verification/Go_Paths.thy ===== *)
theory Go_Paths
  imports Go_Text
begin

text \<open>
  More of Go's \<^verbatim>\<open>strings\<close> package, and \<^verbatim>\<open>path/filepath\<close> as it works on Unix: a path is a byte string, its
  components are what lies between slashes, and \<^verbatim>\<open>Clean\<close> works on the list of components. The functions are
  pure: what the file system holds (symbolic links) is an argument of the models that ask it.
\<close>

section \<open>Strings\<close>

definition trim_prefix :: "string \<Rightarrow> string \<Rightarrow> string" where
  "trim_prefix p s = (if has_prefix s p then drop (length p) s else s)"

definition trim_suffix :: "string \<Rightarrow> string \<Rightarrow> string" where
  "trim_suffix p s = (if has_suffix s p then take (length s - length p) s else s)"

definition cut_prefix :: "string \<Rightarrow> string \<Rightarrow> string option" where
  "cut_prefix s p = (if has_prefix s p then Some (drop (length p) s) else None)"

definition trim_right :: "char set \<Rightarrow> string \<Rightarrow> string" where
  "trim_right cs s = rev (dropWhile (\<lambda>c. c \<in> cs) (rev s))"

definition contains_any :: "string \<Rightarrow> string \<Rightarrow> bool" where
  "contains_any s cs = list_ex (\<lambda>c. c \<in> set cs) s"

text \<open>\<^verbatim>\<open>strings.Fields\<close>: the words between runs of white space.\<close>

fun words_of :: "string \<Rightarrow> string list" where
  "words_of [] = [[]]"
| "words_of (c # cs) = (if is_space c then [] # words_of cs
     else (case words_of cs of [] \<Rightarrow> [[c]] | w # ws \<Rightarrow> (c # w) # ws))"

definition str_fields :: "string \<Rightarrow> string list" where
  "str_fields s = filter (\<lambda>w. w \<noteq> []) (words_of s)"

text \<open>\<^verbatim>\<open>strings.SplitN\<close> at one character: at most \<open>n\<close> parts, the last one holding the rest.\<close>

fun split_n :: "nat \<Rightarrow> char \<Rightarrow> string \<Rightarrow> string list" where
  "split_n 0 d s = []"
| "split_n (Suc 0) d s = [s]"
| "split_n (Suc (Suc n)) d s =
     (case cut_at d s of None \<Rightarrow> [s] | Some (k, rest) \<Rightarrow> k # split_n (Suc n) d rest)"

text \<open>\<^verbatim>\<open>strings.ReplaceAll\<close> for an old string that is not empty.\<close>

function replace_all :: "string \<Rightarrow> string \<Rightarrow> string \<Rightarrow> string" where
  "replace_all old new [] = []"
| "replace_all old new (c # cs) =
     (if old \<noteq> [] \<and> has_prefix (c # cs) old then new @ replace_all old new (drop (length old) (c # cs))
      else c # replace_all old new cs)"
  by pat_completeness auto
termination by (relation "measure (\<lambda>(old, new, s). length s)") auto

text \<open>
  The number of characters of a text: Go counts and maps over runes, which in valid UTF-8 start at every byte
  that is not a continuation byte.
\<close>

definition continuation_byte :: "char \<Rightarrow> bool" where
  "continuation_byte c \<longleftrightarrow> 128 \<le> (of_char c :: nat) \<and> (of_char c :: nat) < 192"

definition rune_count :: "string \<Rightarrow> nat" where
  "rune_count s = length (filter (\<lambda>c. \<not> continuation_byte c) s)"

lemma has_prefix_iff: "has_prefix s p \<longleftrightarrow> prefix p s"
proof
  assume "has_prefix s p"
  then have "s = p @ drop (length p) s" unfolding has_prefix_def by (metis append_take_drop_id)
  then show "prefix p s" by (metis prefixI)
next
  assume "prefix p s"
  then show "has_prefix s p" unfolding has_prefix_def by (auto simp: prefix_def)
qed

lemma has_prefix_append [simp]: "has_prefix (p @ s) p"
  by (simp add: has_prefix_def)

lemma trim_prefix_append [simp]: "trim_prefix p (p @ s) = s"
  by (simp add: trim_prefix_def)

lemma cut_at_some: "cut_at d s = Some (k, v) \<Longrightarrow> s = k @ d # v \<and> d \<notin> set k"
  by (induction s arbitrary: k) (auto split: if_splits option.splits)

lemma cut_at_is_none: "cut_at d s = None \<longleftrightarrow> d \<notin> set s"
  by (induction s) (auto split: option.splits)

lemma split_at_nonempty [simp]: "split_at d s \<noteq> []"
  by (induction s) (auto split: list.splits)

lemma split_at_parts: "x \<in> set (split_at d s) \<Longrightarrow> d \<notin> set x"
proof (induction s arbitrary: x)
  case (Cons c s)
  then show ?case by (cases "split_at d s") (auto split: if_splits)
qed simp

lemma split_n_join:
  "list_all (\<lambda>k. d \<notin> set k) ks \<Longrightarrow> split_n (Suc (length ks)) d (concat (map (\<lambda>k. k @ [d]) ks) @ s) = ks @ [s]"
  by (induction ks) (auto simp: cut_at_append)

section \<open>Decimal numbers\<close>

text \<open>\<^verbatim>\<open>strconv.Itoa\<close> and \<^verbatim>\<open>%d\<close> of a number that is not negative.\<close>

fun decimal :: "nat \<Rightarrow> string" where
  "decimal n = (if n < 10 then [char_of (48 + n)] else decimal (n div 10) @ [char_of (48 + n mod 10)])"

declare decimal.simps [simp del]

lemma of_char_of_nat_int: "k < 256 \<Longrightarrow> (of_char (char_of k :: char) :: int) = int k"
proof -
  assume "k < 256"
  then have "(of_char (char_of k :: char) :: nat) = k" by (simp add: of_char_of)
  then show ?thesis by (metis of_nat_of_char)
qed

lemma digits_value_append: "digits_value acc (s @ [c]) = 10 * digits_value acc s + (of_char c - 48)"
  by (induction s arbitrary: acc) auto

lemma digits_value_decimal: "digits_value 0 (decimal n) = int n"
proof (induction n rule: decimal.induct)
  case (1 n)
  show ?case
  proof (cases "n < 10")
    case True
    then have "(of_char (char_of (48 + n) :: char) :: int) = 48 + int n"
      using True by (subst of_char_of_nat_int) auto
    then show ?thesis using True by (simp add: decimal.simps [of n])
  next
    case False
    have "(of_char (char_of (48 + n mod 10) :: char) :: int) = 48 + int (n mod 10)"
      by (subst of_char_of_nat_int) auto
    moreover have "10 * int (n div 10) + int (n mod 10) = int n" by presburger
    ultimately show ?thesis using False 1 by (simp add: decimal.simps [of n] digits_value_append)
  qed
qed

lemma decimal_inject [simp]: "decimal m = decimal n \<longleftrightarrow> m = n"
  using digits_value_decimal [of m] digits_value_decimal [of n] by (metis of_nat_eq_iff)

section \<open>Paths\<close>

abbreviation slash :: char where "slash \<equiv> CHR ''/''"

definition path_is_abs :: "string \<Rightarrow> bool" where
  "path_is_abs p = has_prefix p ''/''"

text \<open>
  \<^verbatim>\<open>filepath.Clean\<close>. The components read so far are kept in reverse; \<^verbatim>\<open>..\<close> removes one that is not itself
  \<^verbatim>\<open>..\<close>, is dropped at the root and kept elsewhere.
\<close>

fun clean_step :: "bool \<Rightarrow> string \<Rightarrow> string list \<Rightarrow> string list" where
  "clean_step rooted c acc =
     (if c = [] \<or> c = ''.'' then acc
      else if c = ''..'' then
        (case acc of [] \<Rightarrow> (if rooted then [] else [''..''])
         | a # rest \<Rightarrow> (if a = ''..'' then ''..'' # acc else rest))
      else c # acc)"

definition clean_parts :: "string \<Rightarrow> string list" where
  "clean_parts p = rev (fold (clean_step (path_is_abs p)) (split_at slash p) [])"

definition path_of_parts :: "bool \<Rightarrow> string list \<Rightarrow> string" where
  "path_of_parts rooted parts =
     (if rooted then ''/'' @ join_strings ''/'' parts else if parts = [] then ''.'' else join_strings ''/'' parts)"

definition path_clean :: "string \<Rightarrow> string" where
  "path_clean p = path_of_parts (path_is_abs p) (clean_parts p)"

definition path_join :: "string list \<Rightarrow> string" where
  "path_join ps = (let qs = filter (\<lambda>p. p \<noteq> []) ps in if qs = [] then [] else path_clean (join_strings ''/'' qs))"

definition path_dir :: "string \<Rightarrow> string" where
  "path_dir p = path_clean (rev (dropWhile (\<lambda>c. c \<noteq> slash) (rev p)))"

definition path_base :: "string \<Rightarrow> string" where
  "path_base p =
     (if p = [] then ''.''
      else let q = trim_right {slash} p; b = rev (takeWhile (\<lambda>c. c \<noteq> slash) (rev q))
           in if b = [] then ''/'' else b)"

text \<open>
  \<^verbatim>\<open>filepath.Rel\<close>, and \<^verbatim>\<open>SubpathOf\<close> of \<^verbatim>\<open>internal/workspace/git.go\<close>: both paths are cleaned, the elements they
  share are dropped, and the way up is one \<^verbatim>\<open>..\<close> for each element the base has left.
\<close>

definition path_elements :: "string \<Rightarrow> string list" where
  "path_elements p = (if p = ''/'' then [[]] else split_at slash p)"

fun drop_common :: "string list \<Rightarrow> string list \<Rightarrow> string list \<times> string list" where
  "drop_common (b # bs) (t # ts) = (if b = t then drop_common bs ts else (b # bs, t # ts))"
| "drop_common bs ts = (bs, ts)"

definition path_rel :: "string \<Rightarrow> string \<Rightarrow> string option" where
  "path_rel base targ =
     (let b = path_clean base; t = path_clean targ
      in if b = t then Some ''.''
         else if path_is_abs b \<noteq> path_is_abs t then None
         else
           let (bs, ts) = drop_common (if b = ''.'' then [] else path_elements b) (path_elements t)
           in case bs of
                [] \<Rightarrow> Some (join_strings ''/'' ts)
              | e # es \<Rightarrow> (if e = ''..'' then None
                  else Some (join_strings ''/'' (replicate (length bs) ''..'' @ ts))))"

definition subpath_of :: "string \<Rightarrow> string \<Rightarrow> bool" where
  "subpath_of child parent =
     (case path_rel parent child of
        None \<Rightarrow> False
      | Some rel \<Rightarrow> rel = ''.'' \<or> (rel \<noteq> ''..'' \<and> \<not> has_prefix rel ''../''))"

subsection \<open>What cleaning leaves\<close>

text \<open>A component of a cleaned absolute path.\<close>

definition plain_part :: "string \<Rightarrow> bool" where
  "plain_part c \<longleftrightarrow> c \<noteq> [] \<and> c \<noteq> ''.'' \<and> c \<noteq> ''..'' \<and> slash \<notin> set c"

lemma clean_fold_plain:
  assumes "list_all plain_part acc" "\<forall>c \<in> set cs. slash \<notin> set c"
  shows "list_all plain_part (fold (clean_step True) cs acc)"
  using assms
proof (induction cs arbitrary: acc)
  case (Cons c cs)
  have "list_all plain_part (clean_step True c acc)"
    using Cons.prems by (cases acc) (auto simp: plain_part_def list_all_iff)
  then show ?case using Cons by (simp del: clean_step.simps)
qed simp

lemma clean_parts_plain: "path_is_abs p \<Longrightarrow> list_all plain_part (clean_parts p)"
  unfolding clean_parts_def using clean_fold_plain [of "[]" "split_at slash p"]
  by (auto simp: list_all_iff split_at_parts simp del: clean_step.simps)

lemma join_slash: "join_strings ''/'' = join_strings [slash]"
  by simp

lemma split_join_slash: "xs \<noteq> [] \<Longrightarrow> list_all plain_part xs \<Longrightarrow> split_at slash (join_strings ''/'' xs) = xs"
  by (rule split_join) (auto simp: list_all_iff plain_part_def)

lemma path_clean_abs: "path_is_abs p \<Longrightarrow> path_clean p = ''/'' @ join_strings ''/'' (clean_parts p)"
  by (simp add: path_clean_def path_of_parts_def)

lemma elements_of_clean_abs:
  assumes "path_is_abs p"
  shows "path_elements (path_clean p) = [] # clean_parts p"
proof (cases "clean_parts p")
  case Nil
  then show ?thesis using assms by (simp add: path_clean_abs path_elements_def)
next
  case (Cons c cs)
  have plain: "list_all plain_part (clean_parts p)" by (rule clean_parts_plain [OF assms])
  then have "join_strings ''/'' (clean_parts p) \<noteq> []" unfolding Cons by (cases cs) (auto simp: plain_part_def)
  then show ?thesis
    using assms plain Cons split_join_slash [of "clean_parts p"] by (simp add: path_clean_abs path_elements_def)
qed

lemma abs_clean_eq_iff:
  assumes "path_is_abs p" "path_is_abs q"
  shows "path_clean p = path_clean q \<longleftrightarrow> clean_parts p = clean_parts q"
  using elements_of_clean_abs [OF assms(1)] elements_of_clean_abs [OF assms(2)] assms
  by (metis list.inject path_clean_abs)

lemma path_is_abs_clean: "path_is_abs p \<Longrightarrow> path_is_abs (path_clean p)"
  by (simp add: path_clean_abs) (simp add: path_is_abs_def has_prefix_def)

lemma drop_common_prefix: "prefix bs ts \<Longrightarrow> drop_common bs ts = ([], drop (length bs) ts)"
proof (induction bs ts rule: drop_common.induct)
  case (1 b bs t ts)
  then show ?case by simp
qed (auto simp: prefix_def)

lemma drop_common_not_prefix: "\<not> prefix bs ts \<Longrightarrow> \<exists>b bs' ts'. drop_common bs ts = (b # bs', ts') \<and> b \<in> set bs"
proof (induction bs ts rule: drop_common.induct)
  case (1 b bs t ts)
  then show ?case by (cases "b = t") auto
qed (auto simp: neq_Nil_conv elim: drop_common.elims)

text \<open>On absolute paths, \<open>subpath_of\<close> is the prefix relation on the components of the cleaned paths.\<close>

lemma subpath_of_abs:
  assumes "path_is_abs child" "path_is_abs parent"
  shows "subpath_of child parent \<longleftrightarrow> prefix (clean_parts parent) (clean_parts child)"
proof (cases "clean_parts parent = clean_parts child")
  case True
  then show ?thesis using assms abs_clean_eq_iff [of parent child] by (simp add: subpath_of_def path_rel_def Let_def)
next
  case False
  let ?b = "clean_parts parent" and ?t = "clean_parts child"
  have neq: "path_clean parent \<noteq> path_clean child" using False assms abs_clean_eq_iff by blast
  have nodot: "path_clean parent \<noteq> ''.''" using path_is_abs_clean [OF assms(2)] by (auto simp: path_is_abs_def has_prefix_def)
  have plain: "list_all plain_part ?b" "list_all plain_part ?t" using assms by (simp_all add: clean_parts_plain)
  have rel: "path_rel parent child =
      (let (bs, ts) = drop_common ([] # ?b) ([] # ?t)
       in case bs of [] \<Rightarrow> Some (join_strings ''/'' ts)
          | e # es \<Rightarrow> (if e = ''..'' then None else Some (join_strings ''/'' (replicate (length bs) ''..'' @ ts))))"
    unfolding path_rel_def
    using neq nodot path_is_abs_clean [OF assms(1)] path_is_abs_clean [OF assms(2)]
    by (simp add: Let_def elements_of_clean_abs assms)
  show ?thesis
  proof (cases "prefix ?b ?t")
    case True
    then obtain zs where zs: "?t = ?b @ zs" by (auto simp: prefix_def)
    with False have "zs \<noteq> []" by auto
    then obtain z zs' where z: "zs = z # zs'" by (cases zs) auto
    have pz: "plain_part z" using plain(2) unfolding zs z by simp
    have res: "path_rel parent child = Some (join_strings ''/'' zs)"
      unfolding rel using drop_common_prefix [OF True] by (simp add: zs)
    have start: "split_at slash (join_strings ''/'' zs) = zs"
      using split_join_slash [of zs] plain(2) \<open>zs \<noteq> []\<close> unfolding zs by simp
    have "join_strings ''/'' zs \<noteq> ''..''"
    proof
      assume "join_strings ''/'' zs = ''..''"
      with start have "zs = [''..'']" by simp
      with z pz show False by (simp add: plain_part_def)
    qed
    moreover have "\<not> has_prefix (join_strings ''/'' zs) ''../''"
    proof
      assume "has_prefix (join_strings ''/'' zs) ''../''"
      then obtain r where "join_strings ''/'' zs = ''..'' @ slash # r" by (auto simp: has_prefix_iff prefix_def)
      then have "hd (split_at slash (join_strings ''/'' zs)) = ''..''" by simp
      with start z pz show False by (simp add: plain_part_def)
    qed
    ultimately show ?thesis using True by (simp add: subpath_of_def res)
  next
    case False
    then obtain b bs' ts' where d: "drop_common ?b ?t = (b # bs', ts')" "b \<in> set ?b"
      using drop_common_not_prefix [of ?b ?t] by blast
    have "b \<noteq> ''..''" using d(2) plain(1) by (auto simp: list_all_iff plain_part_def)
    then have res: "path_rel parent child = Some (join_strings ''/'' (''..'' # replicate (length bs') ''..'' @ ts'))"
      unfolding rel using d(1) by simp
    have "join_strings ''/'' (''..'' # xs) = ''..'' \<or> has_prefix (join_strings ''/'' (''..'' # xs)) ''../''" for xs
      by (cases xs) (auto simp: has_prefix_def)
    moreover have "join_strings ''/'' (''..'' # xs) \<noteq> ''.''" for xs by (cases xs) auto
    ultimately have "\<not> subpath_of child parent" unfolding subpath_of_def res by (simp del: join_strings.simps)
    then show ?thesis using False by simp
  qed
qed

lemma subpath_of_refl: "path_is_abs p \<Longrightarrow> subpath_of p p"
  by (simp add: subpath_of_abs)

lemma subpath_of_trans:
  "path_is_abs p \<Longrightarrow> path_is_abs q \<Longrightarrow> path_is_abs r \<Longrightarrow> subpath_of p q \<Longrightarrow> subpath_of q r \<Longrightarrow> subpath_of p r"
  using prefix_order.trans by (auto simp: subpath_of_abs)

end
