(* ===== verification/Release_Update.thy ===== *)
theory Release_Update
  imports Go_Paths Http_Query
begin

text \<open>
  How the gateway replaces its own binary: the versions and checksums of \<^verbatim>\<open>internal/update/update.go\<close>, its
  staged download, extraction and swap, and the \<^verbatim>\<open>update\<close> command of \<^verbatim>\<open>cmd/ferngeist/update.go\<close> that puts
  them together. The disk is a map from paths to contents; a fault is an operation on a path that the
  operating system refuses, and every step says what it does then. The network's answers, SHA-256, the
  decoding of tar and zip archives, \<^verbatim>\<open>url.Parse\<close> and the names \<^verbatim>\<open>os.CreateTemp\<close> picks are parameters. What a failed
  write leaves in a temporary file that then cannot be removed is not modelled.
\<close>

section \<open>Versions\<close>

definition version_number :: "string \<Rightarrow> int" where
  "version_number p = fold (\<lambda>c n. wrap64 (n * 10 + (of_char c - 48))) p 0"

definition parse_version :: "string \<Rightarrow> int list option" where
  "parse_version v =
     (let ps = split_at (CHR ''.'') (takeWhile (\<lambda>c. c \<noteq> CHR ''-'' \<and> c \<noteq> CHR ''+'') v)
      in if list_all (\<lambda>p. p \<noteq> [] \<and> list_all is_digit p) ps then Some (map version_number ps) else None)"

text \<open>The loop of \<^verbatim>\<open>IsNewer\<close>: a part that is missing counts as zero.\<close>

fun newer_parts :: "int list \<Rightarrow> int list \<Rightarrow> bool" where
  "newer_parts [] [] = False"
| "newer_parts (a # as) [] = (if a \<noteq> 0 then a > 0 else newer_parts as [])"
| "newer_parts [] (b # bs) = (if 0 \<noteq> b then 0 > b else newer_parts [] bs)"
| "newer_parts (a # as) (b # bs) = (if a \<noteq> b then a > b else newer_parts as bs)"

definition is_newer :: "string \<Rightarrow> string \<Rightarrow> bool" where
  "is_newer a b =
     (case (parse_version a, parse_version b) of
        (Some ap, Some bp) \<Rightarrow> newer_parts ap bp
      | _ \<Rightarrow> False)"

definition valid_version :: "string \<Rightarrow> bool" where
  "valid_version v = (parse_version (trim_prefix ''v'' v) \<noteq> None)"

section \<open>Releases\<close>

record asset =
  asset_name :: string
  download_url :: string

record release =
  tag_name :: string
  assets :: "asset list"

text \<open>An answer of the network: no answer, or a status with the body as it was read, when it could be.\<close>

datatype 'a http_answer = Unreachable | Replied int "'a option"

datatype update_error =
    Foreign_Channel | No_Release | No_Asset | Checksums_Unreachable | No_Checksum | Bad_Checksum
  | Service_Unknown | No_Service_Path | No_Executable | Staging_Failed | Download_Failed | Checksum_Mismatch
  | Extract_Failed | Stop_Failed | Swap_Failed | Restart_Failed

definition latest_stable :: "release http_answer \<Rightarrow> release option" where
  "latest_stable answer =
     (case answer of
        Replied status (Some r) \<Rightarrow> if status = 200 \<and> tag_name r \<noteq> [] then Some r else None
      | _ \<Rightarrow> None)"

definition asset_for :: "release \<Rightarrow> string \<Rightarrow> string \<Rightarrow> asset option" where
  "asset_for r goos goarch =
     (let ext = (if goos = ''windows'' then ''zip'' else ''tar.gz'');
          want = ''ferngeist-gateway_'' @ trim_prefix ''v'' (tag_name r) @ ''_'' @ goos @ ''_'' @ goarch @ ''.'' @ ext
      in List.find (\<lambda>a. asset_name a = want) (assets r))"

text \<open>\<^verbatim>\<open>url.Parse\<close> gives what stands before the path, the path, and what stands after it.\<close>

type_synonym url_parser = "string \<Rightarrow> (string \<times> string \<times> string) option"

fun asset_base_url :: "url_parser \<Rightarrow> asset list \<Rightarrow> string" where
  "asset_base_url parse [] = []"
| "asset_base_url parse (a # as) =
     (if download_url a = [] then asset_base_url parse as
      else case parse (download_url a) of
             None \<Rightarrow> asset_base_url parse as
           | Some (before, p, after) \<Rightarrow> before @ path_dir p @ after)"

text \<open>\<^verbatim>\<open>hex.DecodeString\<close>, and the digest \<^verbatim>\<open>SHA256SUMS\<close> lists for a file.\<close>

fun hex_decode :: "string \<Rightarrow> string option" where
  "hex_decode [] = Some []"
| "hex_decode [c] = None"
| "hex_decode (a # b # s) =
     (case (unhex a, unhex b, hex_decode s) of
        (Some h, Some l, Some t) \<Rightarrow> Some (char_of (16 * h + l) # t)
      | _ \<Rightarrow> None)"

fun checksum_line :: "string \<Rightarrow> string list \<Rightarrow> update_error + string" where
  "checksum_line name [] = Inl No_Checksum"
| "checksum_line name (l # ls) =
     (let fs = str_fields l
      in if length fs < 2 \<or> fs ! 1 \<noteq> name then checksum_line name ls
         else case hex_decode (fs ! 0) of
                None \<Rightarrow> Inl Bad_Checksum
              | Some d \<Rightarrow> if length d \<noteq> 32 then Inl Bad_Checksum else Inr d)"

definition checksum_for :: "string \<Rightarrow> string \<Rightarrow> update_error + string" where
  "checksum_for sums name = checksum_line name (split_at (CHR ''\<newline>'') sums)"

section \<open>The disk\<close>

type_synonym files = "string \<rightharpoonup> string"

datatype disk_op = Mkdir string | Create string | Write string | Close string | Chmod string
  | Rename string string | Remove string

type_synonym faults = "disk_op \<Rightarrow> bool"

datatype renamed = Done | Missing | Refused

definition remove_file :: "faults \<Rightarrow> string \<Rightarrow> files \<Rightarrow> files" where
  "remove_file w p fs = (if w (Remove p) then fs else fs(p := None))"

definition rename_file :: "faults \<Rightarrow> string \<Rightarrow> string \<Rightarrow> files \<Rightarrow> renamed \<times> files" where
  "rename_file w src dst fs =
     (if w (Rename src dst) then (Refused, fs)
      else case fs src of None \<Rightarrow> (Missing, fs) | Some b \<Rightarrow> (Done, fs(src := None, dst := Some b)))"

text \<open>Writing contents to a fresh temporary file, as the download and the extraction both do.\<close>

definition write_temp :: "faults \<Rightarrow> string \<Rightarrow> string option \<Rightarrow> files \<Rightarrow> bool \<times> files" where
  "write_temp w tmp body fs =
     (if w (Create tmp) then (False, fs)
      else case body of
             None \<Rightarrow> (False, remove_file w tmp (fs(tmp \<mapsto> [])))
           | Some b \<Rightarrow>
               if w (Write tmp) then (False, remove_file w tmp (fs(tmp \<mapsto> [])))
               else if w (Close tmp) then (False, remove_file w tmp (fs(tmp \<mapsto> b)))
               else (True, fs(tmp \<mapsto> b)))"

definition download_and_verify ::
  "faults \<Rightarrow> (string \<Rightarrow> string) \<Rightarrow> string http_answer \<Rightarrow> string \<Rightarrow> string \<Rightarrow> string \<Rightarrow> files \<Rightarrow> update_error option \<times> files" where
  "download_and_verify w sha answer want tmp dest fs =
     (case answer of
        Unreachable \<Rightarrow> (Some Download_Failed, fs)
      | Replied status body \<Rightarrow>
          if status \<noteq> 200 then (Some Download_Failed, fs)
          else
            let (ok, fs1) = write_temp w tmp body fs
            in if \<not> ok then (Some Download_Failed, fs1)
               else if sha (the (fs1 tmp)) \<noteq> want then (Some Checksum_Mismatch, remove_file w tmp fs1)
               else if w (Chmod tmp) then (Some Download_Failed, remove_file w tmp fs1)
               else case rename_file w tmp dest fs1 of
                      (Done, fs2) \<Rightarrow> (None, fs2)
                    | (_, fs2) \<Rightarrow> (Some Download_Failed, remove_file w tmp fs2))"

section \<open>Archives\<close>

text \<open>The entries of an archive in order; a tar stream may break off.\<close>

datatype archive_entry = Entry string bool "string option" | Broken

fun find_entry :: "string \<Rightarrow> archive_entry list \<Rightarrow> string option" where
  "find_entry bin [] = None"
| "find_entry bin (Broken # es) = None"
| "find_entry bin (Entry name regular contents # es) =
     (if path_base name \<noteq> bin \<or> \<not> regular then find_entry bin es else contents)"

type_synonym unpacker = "string \<Rightarrow> archive_entry list option"

definition extract_archive :: "unpacker \<Rightarrow> string \<Rightarrow> string \<Rightarrow> string option" where
  "extract_archive unpack data bin = (case unpack data of None \<Rightarrow> None | Some es \<Rightarrow> find_entry bin es)"

text \<open>The format is told from the first bytes.\<close>

definition archive_contents :: "unpacker \<Rightarrow> unpacker \<Rightarrow> string \<Rightarrow> string \<Rightarrow> string option" where
  "archive_contents untar unzip data bin =
     (if has_prefix data [char_of (31::nat), char_of (139::nat)] then extract_archive untar data bin
      else if has_prefix data (''PK'' @ [char_of (3::nat), char_of (4::nat)]) then extract_archive unzip data bin
      else None)"

definition stage_extract ::
  "faults \<Rightarrow> unpacker \<Rightarrow> unpacker \<Rightarrow> string \<Rightarrow> string \<Rightarrow> string \<Rightarrow> string \<Rightarrow> files \<Rightarrow> string option \<times> files" where
  "stage_extract w untar unzip data bin tmp dest fs =
     (if w (Mkdir (path_dir dest)) then (None, fs)
      else case archive_contents untar unzip data bin of
             None \<Rightarrow> (None, fs)
           | Some contents \<Rightarrow>
               let (ok, fs1) = write_temp w tmp (Some contents) fs
               in if \<not> ok then (None, fs1)
                  else if w (Chmod tmp) then (None, remove_file w tmp fs1)
                  else (Some tmp, fs1))"

definition old_path :: "string \<Rightarrow> string" where
  "old_path dest = dest @ ''.old''"

definition swap_binary :: "faults \<Rightarrow> bool \<Rightarrow> string \<Rightarrow> string \<Rightarrow> files \<Rightarrow> bool \<times> files" where
  "swap_binary w aside staged dest fs =
     (if \<not> aside then (let (r, fs1) = rename_file w staged dest fs in (r = Done, fs1))
      else
        let old = old_path dest;
            fs1 = remove_file w old fs
        in case rename_file w dest old fs1 of
             (Refused, fs2) \<Rightarrow> (False, fs2)
           | (Missing, fs2) \<Rightarrow> (let (r, fs3) = rename_file w staged dest fs2 in (r = Done, fs3))
           | (Done, fs2) \<Rightarrow>
               (case rename_file w staged dest fs2 of
                  (Done, fs3) \<Rightarrow> (True, fs3)
                | (_, fs3) \<Rightarrow> (False, snd (rename_file w old dest fs3))))"

definition cleanup_old :: "faults \<Rightarrow> string \<Rightarrow> files \<Rightarrow> files" where
  "cleanup_old w dest fs = remove_file w (old_path dest) fs"

section \<open>The update command\<close>

datatype service_status = Managed bool | Unsupported | Status_Failed

record update_env =
  channel :: string
  build_version :: string
  goos :: string
  goarch :: string
  latest :: "release http_answer"
  body_at :: "string \<Rightarrow> string http_answer"
  parse_url :: url_parser
  sha :: "string \<Rightarrow> string"
  untar :: unpacker
  unzip :: unpacker
  refuses :: faults
  temp_beside :: "string \<Rightarrow> string"
  archive_temp :: string
  service_status :: service_status
  service_path :: "string option"
  executable :: "string option"
  same_file :: "string \<Rightarrow> string \<Rightarrow> bool"
  stop_fails :: bool
  after_failed_stop :: "string option \<Rightarrow> string option"
  restart_fails :: bool
  after_failed_restart :: "string option \<Rightarrow> string option"

text \<open>The machine: its files, and the contents of the binary the daemon that runs was started from.\<close>

record update_machine =
  disk :: files
  daemon :: "string option"

datatype update_outcome = Up_To_Date | Updated string | Failed update_error

definition cleanup_leftovers :: "update_env \<Rightarrow> files \<Rightarrow> files" where
  "cleanup_leftovers e fs =
     (let fs1 = (case service_path e of None \<Rightarrow> fs | Some p \<Rightarrow> cleanup_old (refuses e) p fs)
      in case executable e of None \<Rightarrow> fs1 | Some p \<Rightarrow> cleanup_old (refuses e) p fs1)"

definition same_file_as_any :: "update_env \<Rightarrow> files \<Rightarrow> string \<Rightarrow> string list \<Rightarrow> bool" where
  "same_file_as_any e fs p others \<longleftrightarrow> fs p \<noteq> None \<and> list_ex (\<lambda>q. fs q \<noteq> None \<and> same_file e p q) others"

definition update_targets :: "update_env \<Rightarrow> files \<Rightarrow> bool \<Rightarrow> update_error + string list" where
  "update_targets e fs managed =
     (if managed \<and> service_path e = None then Inl No_Service_Path
      else
        let ts = (if managed then [the (service_path e)] else [])
        in case executable e of
             Some x \<Rightarrow> Inr (if same_file_as_any e fs x ts then ts else ts @ [x])
           | None \<Rightarrow> if ts = [] then Inl No_Executable else Inr ts)"

text \<open>
  What the command decides before it touches anything: nothing to do, or the archive's address, the digest it
  must have, the binaries to replace and whether a service runs one of them.
\<close>

record update_plan =
  plan_tag :: string
  plan_url :: string
  plan_digest :: string
  plan_targets :: "string list"
  plan_managed :: bool

definition plan_update :: "update_env \<Rightarrow> files \<Rightarrow> update_error + update_plan option" where
  "plan_update e fs =
     (case latest_stable (latest e) of
        None \<Rightarrow> Inl No_Release
      | Some r \<Rightarrow>
          let newest = trim_prefix ''v'' (tag_name r);
              current = trim_prefix ''v'' (build_version e)
          in if valid_version current \<and> \<not> is_newer newest current then Inr None
             else
               case asset_for r (goos e) (goarch e) of
                 None \<Rightarrow> Inl No_Asset
               | Some a \<Rightarrow>
                   (case body_at e (asset_base_url (parse_url e) (assets r) @ ''/SHA256SUMS'') of
                      Replied status (Some sums) \<Rightarrow>
                        if status \<noteq> 200 then Inl Checksums_Unreachable
                        else
                          (case checksum_for sums (asset_name a) of
                             Inl err \<Rightarrow> Inl err
                           | Inr digest \<Rightarrow>
                               (if service_status e = Status_Failed then Inl Service_Unknown
                                else
                                  let managed = (service_status e = Managed True)
                                  in case update_targets e fs managed of
                                       Inl err \<Rightarrow> Inl err
                                     | Inr ts \<Rightarrow> Inr (Some \<lparr>plan_tag = tag_name r, plan_url = download_url a, plan_digest = digest,
                                                       plan_targets = ts, plan_managed = managed\<rparr>)))
                    | _ \<Rightarrow> Inl Checksums_Unreachable))"

text \<open>Staging every new binary, and swapping them in one after the other until one swap fails.\<close>

fun stage_all :: "update_env \<Rightarrow> string list \<Rightarrow> files \<Rightarrow> string list option \<times> string list \<times> files" where
  "stage_all e [] fs = (Some [], [], fs)"
| "stage_all e (t # ts) fs =
     (case fs (archive_temp e) of
        None \<Rightarrow> (None, [], fs)
      | Some data \<Rightarrow>
          (case stage_extract (refuses e) (untar e) (unzip e) data (path_base t) (temp_beside e t) t fs of
             (None, fs1) \<Rightarrow> (None, [], fs1)
           | (Some s, fs1) \<Rightarrow>
               (case stage_all e ts fs1 of
                  (r, made, fs2) \<Rightarrow> (map_option ((#) s) r, s # made, fs2))))"

fun swap_all :: "update_env \<Rightarrow> (string \<times> string) list \<Rightarrow> files \<Rightarrow> bool \<times> files" where
  "swap_all e [] fs = (True, fs)"
| "swap_all e ((s, t) # sts) fs =
     (case swap_binary (refuses e) (goos e = ''windows'') s t fs of
        (True, fs1) \<Rightarrow> swap_all e sts fs1
      | (False, fs1) \<Rightarrow> (False, fs1))"

text \<open>
  A \<^verbatim>\<open>Stop\<close> or \<^verbatim>\<open>Restart\<close> of the service manager that reports an error may have had its effect all the same;
  what runs after it is up to the environment.
\<close>

definition stop_daemon :: "update_env \<Rightarrow> update_machine \<Rightarrow> bool \<times> update_machine" where
  "stop_daemon e m =
     (if stop_fails e then (False, m\<lparr>daemon := after_failed_stop e (daemon m)\<rparr>) else (True, m\<lparr>daemon := None\<rparr>))"

definition restart_daemon :: "update_env \<Rightarrow> update_machine \<Rightarrow> bool \<times> update_machine" where
  "restart_daemon e m =
     (if restart_fails e then (False, m\<lparr>daemon := after_failed_restart e (daemon m)\<rparr>)
      else (True, m\<lparr>daemon := (case service_path e of None \<Rightarrow> None | Some p \<Rightarrow> disk m p)\<rparr>))"

definition install_staged :: "update_env \<Rightarrow> update_plan \<Rightarrow> string list \<Rightarrow> update_machine \<Rightarrow> update_outcome \<times> update_machine" where
  "install_staged e p staged m =
     (let (stopped, m1) = (if plan_managed p then stop_daemon e m else (True, m))
      in if \<not> stopped then (Failed Stop_Failed, m1)
         else
           let (swapped, fs) = swap_all e (zip staged (plan_targets p)) (disk m1);
               (restarted, m2) = (if plan_managed p then restart_daemon e (m1\<lparr>disk := fs\<rparr>) else (True, m1\<lparr>disk := fs\<rparr>))
           in (if \<not> swapped then Failed Swap_Failed else if \<not> restarted then Failed Restart_Failed
               else Updated (plan_tag p), m2))"

definition on_disk :: "(files \<Rightarrow> files) \<Rightarrow> update_machine \<Rightarrow> update_machine" where
  "on_disk f m = m\<lparr>disk := f (disk m)\<rparr>"

definition apply_update :: "update_env \<Rightarrow> update_plan \<Rightarrow> update_machine \<Rightarrow> update_outcome \<times> update_machine" where
  "apply_update e p m =
     (let w = refuses e; tmp = archive_temp e
      in if w (Create tmp) then (Failed Staging_Failed, m)
         else
           let (err, fs1) = download_and_verify w (sha e) (body_at e (plan_url p)) (plan_digest p) (temp_beside e tmp) tmp ((disk m)(tmp \<mapsto> []))
           in case err of
                Some x \<Rightarrow> (Failed x, m\<lparr>disk := remove_file w tmp fs1\<rparr>)
              | None \<Rightarrow>
                  let (r, made, fs2) = stage_all e (plan_targets p) fs1;
                      (out, m1) = (case r of
                         None \<Rightarrow> (Failed Extract_Failed, m\<lparr>disk := fs2\<rparr>)
                       | Some staged \<Rightarrow> install_staged e p staged (m\<lparr>disk := fs2\<rparr>))
                  in (out, on_disk (\<lambda>fs. remove_file w tmp (fold (remove_file w) made fs)) m1))"

definition run_update :: "update_env \<Rightarrow> update_machine \<Rightarrow> update_outcome \<times> update_machine" where
  "run_update e m =
     (if channel e \<noteq> [] \<and> channel e \<noteq> ''self'' then (Failed Foreign_Channel, m)
      else
        let m1 = on_disk (cleanup_leftovers e) m
        in case plan_update e (disk m1) of
             Inl err \<Rightarrow> (Failed err, m1)
           | Inr None \<Rightarrow> (Up_To_Date, m1)
           | Inr (Some p) \<Rightarrow> apply_update e p m1)"

end
