(* ===== verification/Push_Dispatch.thy ===== *)
theory Push_Dispatch
  imports Release_Update
begin

text \<open>
  Push notifications on their way to a device, and the one the updater sends: the token table of
  \<^verbatim>\<open>internal/storage/push.go\<close>, the dispatcher of \<^verbatim>\<open>internal/push/dispatcher.go\<close>, the Web Push provider's reading
  of tokens, options and answers (\<^verbatim>\<open>internal/push/webpush.go\<close>), and \<^verbatim>\<open>CheckAndNotify\<close> of
  \<^verbatim>\<open>internal/update/notifier.go\<close>. The push service, the database's failures, \<^verbatim>\<open>url.Parse\<close>, SHA-256 and the JSON form of a
  subscription are parameters.
\<close>

section \<open>Tokens and providers\<close>

record notification =
  n_title :: string
  n_body :: string
  n_category :: string
  n_server :: string
  n_session :: string
  n_cwd :: string
  n_branch :: string

text \<open>The token table, and the operations of the database that fail.\<close>

record token_store =
  tokens :: "string \<rightharpoonup> string \<times> string"
  get_fails :: bool
  save_fails :: bool
  delete_fails :: bool

definition save_push_token :: "string \<Rightarrow> string \<Rightarrow> string \<Rightarrow> token_store \<Rightarrow> bool \<times> token_store" where
  "save_push_token dev tok platform st =
     (if save_fails st then (False, st) else (True, st\<lparr>tokens := (tokens st)(dev \<mapsto> (tok, platform))\<rparr>))"

definition get_push_token :: "string \<Rightarrow> token_store \<Rightarrow> (string \<times> string) option" where
  "get_push_token dev st =
     (if get_fails st then None
      else case tokens st dev of None \<Rightarrow> Some ([], []) | Some tp \<Rightarrow> Some tp)"

definition delete_push_token :: "string \<Rightarrow> token_store \<Rightarrow> bool \<times> token_store" where
  "delete_push_token dev st =
     (if delete_fails st then (False, st) else (True, st\<lparr>tokens := (tokens st)(dev := None)\<rparr>))"

datatype sent = Sent | Token_Unregistered | Send_Error

type_synonym provider = "string \<Rightarrow> notification \<Rightarrow> sent"
type_synonym providers = "string \<rightharpoonup> provider"

section \<open>The dispatcher\<close>

datatype notify_error = Lookup_Failed | Delivery_Failed

text \<open>One notification: the error, the token and platform it was sent to (if it was), the store afterwards.\<close>

definition push_notify ::
  "providers \<Rightarrow> string \<Rightarrow> notification \<Rightarrow> token_store \<Rightarrow> notify_error option \<times> (string \<times> string) option \<times> token_store" where
  "push_notify provs dev n st =
     (case get_push_token dev st of
        None \<Rightarrow> (Some Lookup_Failed, None, st)
      | Some (tok, platform) \<Rightarrow>
          if tok = [] then (None, None, st)
          else case provs platform of
                 None \<Rightarrow> (None, None, st)
               | Some send \<Rightarrow>
                   (case send tok n of
                      Token_Unregistered \<Rightarrow> (None, Some (tok, platform), snd (delete_push_token dev st))
                    | Send_Error \<Rightarrow> (Some Delivery_Failed, Some (tok, platform), st)
                    | Sent \<Rightarrow> (None, Some (tok, platform), st)))"

record push_subscription =
  sub_endpoint :: string
  sub_p256dh :: string
  sub_auth :: string

record registration =
  reg_token :: string
  reg_platform :: string
  reg_subscription :: "push_subscription option"

datatype register_result = Registered | Rejected string | Save_Failed

text \<open>\<^verbatim>\<open>url.Parse\<close> gives scheme and host; \<open>marshal\<close> writes a subscription as JSON.\<close>

definition push_register ::
  "(string \<Rightarrow> (string \<times> string) option) \<Rightarrow> (push_subscription \<Rightarrow> string) \<Rightarrow> string \<Rightarrow> registration \<Rightarrow> token_store \<Rightarrow> register_result \<times> token_store" where
  "push_register parse marshal dev reg st =
     (let save = (\<lambda>tok platform. (case save_push_token dev tok platform st of (ok, st') \<Rightarrow> (if ok then Registered else Save_Failed, st')))
      in case reg_subscription reg of
           Some sub \<Rightarrow>
             (case parse (sub_endpoint sub) of
                Some (scheme, host) \<Rightarrow>
                  if scheme \<noteq> ''https'' \<or> host = [] then (Rejected ''subscription.endpoint must be an https URL'', st)
                  else if sub_p256dh sub = [] \<or> sub_auth sub = [] then (Rejected ''subscription.keys.p256dh and subscription.keys.auth are required'', st)
                  else save (marshal sub) ''webpush''
              | None \<Rightarrow> (Rejected ''subscription.endpoint must be an https URL'', st))
         | None \<Rightarrow>
             (let tok = trim_space (reg_token reg); platform = trim_space (reg_platform reg)
              in if tok = [] then (Rejected ''token is required'', st)
                 else save tok (if platform = [] then ''android'' else platform)))"

text \<open>The handler: the status a registration is answered with.\<close>

definition handle_register_push_token ::
  "(string \<Rightarrow> (string \<times> string) option) \<Rightarrow> (push_subscription \<Rightarrow> string) \<Rightarrow> string option \<Rightarrow> registration option \<Rightarrow> token_store \<Rightarrow> int \<times> token_store" where
  "handle_register_push_token parse marshal credential body st =
     (case credential of
        None \<Rightarrow> (401, st)
      | Some dev \<Rightarrow>
          (case body of
             None \<Rightarrow> (400, st)
           | Some reg \<Rightarrow>
               (case push_register parse marshal dev reg st of
                  (Registered, st') \<Rightarrow> (204, st')
                | (Rejected msg, st') \<Rightarrow> (400, st')
                | (Save_Failed, st') \<Rightarrow> (500, st'))))"

section \<open>Web Push\<close>

record push_options =
  opt_ttl :: int
  opt_urgency :: string
  opt_topic :: string

definition progress_topic :: "(string \<Rightarrow> string) \<Rightarrow> string \<Rightarrow> string" where
  "progress_topic sha256hex session = take 32 (sha256hex (''progress:'' @ session))"

definition push_options_for :: "(string \<Rightarrow> string) \<Rightarrow> notification \<Rightarrow> push_options" where
  "push_options_for sha256hex n =
     (let opts = \<lparr>opt_ttl = 24 * 60 * 60, opt_urgency = ''high'', opt_topic = []\<rparr>
      in if n_category n = ''progress''
         then \<lparr>opt_ttl = 5 * 60, opt_urgency = ''normal'', opt_topic = progress_topic sha256hex (n_session n)\<rparr>
         else if n_category n = ''gateway_update'' then opts\<lparr>opt_urgency := ''normal''\<rparr>
         else opts)"

text \<open>\<open>unmarshal\<close> reads the token's JSON, \<open>post\<close> is the push service: the status it answers, if it does.\<close>

definition web_push_send ::
  "(string \<Rightarrow> string) \<Rightarrow> (string \<Rightarrow> push_subscription option) \<Rightarrow> (push_options \<Rightarrow> push_subscription \<Rightarrow> notification \<Rightarrow> int option) \<Rightarrow> provider" where
  "web_push_send sha256hex unmarshal post tok n =
     (case unmarshal tok of
        None \<Rightarrow> Token_Unregistered
      | Some sub \<Rightarrow>
          if sub_endpoint sub = [] then Token_Unregistered
          else case post (push_options_for sha256hex n) sub n of
                 None \<Rightarrow> Send_Error
               | Some status \<Rightarrow>
                   if 200 \<le> status \<and> status < 300 then Sent
                   else if status = 404 \<or> status = 410 then Token_Unregistered
                   else Send_Error)"

section \<open>The update notifier\<close>

text \<open>The notifier remembers the tag it pushed last; \<open>pushed\<close> logs the device and tag of each push, in order.\<close>

record notifier =
  last_notified :: string
  pushed :: "(string \<times> string) list"

record release_check =
  chk_release :: "release http_answer"
  chk_devices :: "string list option"

datatype check_error = Check_Failed | Devices_Failed

definition check_and_notify :: "string \<Rightarrow> release_check \<Rightarrow> notifier \<Rightarrow> check_error option \<times> notifier" where
  "check_and_notify version c s =
     (case latest_stable (chk_release c) of
        None \<Rightarrow> (Some Check_Failed, s)
      | Some r \<Rightarrow>
          let newest = trim_prefix ''v'' (tag_name r); current = trim_prefix ''v'' version
          in if newest = [] \<or> newest = current then (None, s)
             else if \<not> is_newer newest current then (None, s)
             else if last_notified s = tag_name r then (None, s)
             else case chk_devices c of
                    None \<Rightarrow> (Some Devices_Failed, s)
                  | Some devs \<Rightarrow>
                      (None, \<lparr>last_notified = (if devs \<noteq> [] then tag_name r else last_notified s),
                              pushed = pushed s @ map (\<lambda>d. (d, tag_name r)) devs\<rparr>))"

definition notifier_step :: "string \<Rightarrow> notifier \<Rightarrow> release_check \<Rightarrow> notifier" where
  "notifier_step version s c = snd (check_and_notify version c s)"

definition new_notifier :: notifier where
  "new_notifier = \<lparr>last_notified = [], pushed = []\<rparr>"

section \<open>What reaches a device\<close>

text \<open>
  A notification goes to the token its device registered last and to nobody else, through the provider of the
  platform stored with it (\<^verbatim>\<open>Dispatcher.Notify\<close>); the only change to the token table is that a token the provider
  calls dead is dropped from its own device, so other devices keep theirs.
\<close>

theorem push_reaches_registered_token:
  assumes "push_notify provs dev n st = (err, dest, st')"
  shows "(dest = None \<or> (\<exists>tok platform send. dest = Some (tok, platform) \<and> tokens st dev = Some (tok, platform) \<and> tok \<noteq> [] \<and> provs platform = Some send \<and>
      (send tok n = Token_Unregistered \<longleftrightarrow> err = None \<and> send tok n \<noteq> Sent) \<and>
      (tokens st' dev = None \<longleftrightarrow> send tok n = Token_Unregistered \<and> \<not> delete_fails st))) \<and>
    (\<forall>d. d \<noteq> dev \<longrightarrow> tokens st' d = tokens st d) \<and> tokens st' dev \<in> {tokens st dev, None}"
  using assms
  by (auto simp: push_notify_def get_push_token_def delete_push_token_def split: if_splits option.splits prod.splits sent.splits)

definition some_providers :: providers where
  "some_providers = [''android'' \<mapsto> (\<lambda>tok n. if tok = ''dead'' then Token_Unregistered else Sent)]"

definition some_notification :: notification where
  "some_notification = \<lparr>n_title = ''x'', n_body = ''x'', n_category = ''x'', n_server = ''x'', n_session = ''x'', n_cwd = ''x'', n_branch = ''x''\<rparr>"

theorem push_reaches_registered_token_witness:
  "tokens (snd (snd (push_notify some_providers ''phone'' some_notification
     \<lparr>tokens = [''phone'' \<mapsto> (''dead'', ''android''), ''tablet'' \<mapsto> (''t2'', ''android'')], get_fails = False, save_fails = False, delete_fails = False\<rparr>))) ''tablet''
     = Some (''t2'', ''android'')"
proof -
  let ?st = "\<lparr>tokens = [''phone'' \<mapsto> (''dead'', ''android''), ''tablet'' \<mapsto> (''t2'', ''android'')], get_fails = False, save_fails = False, delete_fails = False\<rparr>"
  obtain err dest st' where r: "push_notify some_providers ''phone'' some_notification ?st = (err, dest, st')" by (cases "push_notify some_providers ''phone'' some_notification ?st") auto
  show ?thesis unfolding r using push_reaches_registered_token [OF r] by simp
qed

section \<open>Update notifications\<close>

lemma newer_parts_irrefl [simp]: "\<not> newer_parts xs xs"
  by (induction xs) auto

lemma notifier_prefix: "\<exists>more. pushed (notifier_step version s c) = pushed s @ more"
  by (auto simp: notifier_step_def check_and_notify_def Let_def split: option.splits)

lemma notifier_steady:
  assumes "list_all (\<lambda>c. latest_stable (chk_release c) \<in> {None, Some r}) cs" "last_notified s = tag_name r"
  shows "run (notifier_step version) s cs = s"
  using assms
proof (induction cs)
  case (Cons c cs)
  then have "notifier_step version s c = s"
    by (auto simp: notifier_step_def check_and_notify_def Let_def)
  with Cons show ?case by simp
qed simp

text \<open>
  While one release is the latest, every paired device hears of it at most once per process
  (\<^verbatim>\<open>CheckAndNotify\<close>): after a check that found devices, no number of further checks pushes again, also when some of
  them fail; and no push is ever sent for a release that is not newer than the running version.
\<close>

theorem update_announced_once:
  assumes "latest_stable (chk_release c) = Some r" "chk_devices c = Some devs" "devs \<noteq> []"
    and "list_all (\<lambda>c. latest_stable (chk_release c) \<in> {None, Some r}) cs"
    and "last_notified s \<noteq> tag_name r"
  shows "pushed (run (notifier_step version) s (c # cs)) =
    pushed s @ (if trim_prefix ''v'' (tag_name r) \<noteq> [] \<and> is_newer (trim_prefix ''v'' (tag_name r)) (trim_prefix ''v'' version)
      then map (\<lambda>d. (d, tag_name r)) devs else [])"
proof (cases "is_newer (trim_prefix ''v'' (tag_name r)) (trim_prefix ''v'' version) \<and> trim_prefix ''v'' (tag_name r) \<noteq> []")
  case True
  let ?s = "notifier_step version s c"
  have "trim_prefix ''v'' (tag_name r) \<noteq> trim_prefix ''v'' version"
    using True by (auto simp: is_newer_def newer_parts_irrefl split: option.splits)
  then have "?s = \<lparr>last_notified = tag_name r, pushed = pushed s @ map (\<lambda>d. (d, tag_name r)) devs\<rparr>"
    using True assms by (simp add: notifier_step_def check_and_notify_def Let_def)
  then show ?thesis using True notifier_steady [OF assms(4), of ?s version] by simp
next
  case False
  have still: "notifier_step version s x = s" if "latest_stable (chk_release x) \<in> {None, Some r}" for x
    using that False by (auto simp: notifier_step_def check_and_notify_def Let_def)
  have "run (notifier_step version) s cs = s"
    using assms(4) by (induction cs) (auto simp: still)
  then show ?thesis using False still [of c] assms(1) by auto
qed

theorem update_announced_once_witness:
  "pushed (run (notifier_step ''v0.1.9'') new_notifier
     (replicate 2 \<lparr>chk_release = Replied 200 (Some \<lparr>tag_name = ''v0.2.0'', assets = []\<rparr>), chk_devices = Some [''phone'', ''tablet'']\<rparr>))
     = [(''phone'', ''v0.2.0''), (''tablet'', ''v0.2.0'')]"
proof -
  let ?c = "\<lparr>chk_release = Replied 200 (Some \<lparr>tag_name = ''v0.2.0'', assets = []\<rparr>), chk_devices = Some [''phone'', ''tablet'']\<rparr>"
  have newer: "is_newer (trim_prefix ''v'' ''v0.2.0'') (trim_prefix ''v'' ''v0.1.9'') \<and> trim_prefix ''v'' ''v0.2.0'' \<noteq> []" by code_simp
  have "pushed (run (notifier_step ''v0.1.9'') new_notifier (?c # [?c])) =
    pushed new_notifier @ (if trim_prefix ''v'' (tag_name \<lparr>tag_name = ''v0.2.0'', assets = []\<rparr>) \<noteq> [] \<and> is_newer (trim_prefix ''v'' (tag_name \<lparr>tag_name = ''v0.2.0'', assets = []\<rparr>)) (trim_prefix ''v'' ''v0.1.9'')
      then map (\<lambda>d. (d, tag_name \<lparr>tag_name = ''v0.2.0'', assets = []\<rparr>)) [''phone'', ''tablet''] else [])"
    by (rule update_announced_once) (simp_all add: latest_stable_def new_notifier_def)
  then show ?thesis using newer by (simp add: new_notifier_def numeral_2_eq_2)
qed

text \<open>
  Only the last tag is remembered: when a release is withdrawn for a check and comes back, every device hears of it a
  second time in the same process, although the comment says once per tag.
\<close>

theorem withdrawn_release_announced_again:
  "pushed (run (notifier_step ''0.1'') new_notifier (map (\<lambda>t. \<lparr>chk_release = Replied 200 (Some \<lparr>tag_name = t, assets = []\<rparr>), chk_devices = Some [''phone'']\<rparr>)
     [''0.3'', ''0.2'', ''0.3''])) = [(''phone'', ''0.3''), (''phone'', ''0.2''), (''phone'', ''0.3'')]"
  by code_simp

end
