(* ===== verification/Release_Update_Proofs.thy ===== *)
theory Release_Update_Proofs
  imports Release_Update
begin

text \<open>
  What the updater promises: versions compare as lists of numbers, only an archive with the listed digest is
  ever unpacked over a binary, a target that is there stays there on systems that rename over a running
  file, and a run that has nothing newer to install changes nothing.
\<close>

section \<open>Versions\<close>

definition zero_padded :: "nat \<Rightarrow> int list \<Rightarrow> int list" where
  "zero_padded n xs = xs @ replicate (n - length xs) 0"

lemma newer_parts_padded:
  "length as \<le> n \<Longrightarrow> length bs \<le> n \<Longrightarrow> newer_parts as bs \<longleftrightarrow> zero_padded n bs < zero_padded n as"
proof (induction as bs arbitrary: n rule: newer_parts.induct)
  case (2 a as)
  then obtain k where "n = Suc k" by (cases n) auto
  with 2 show ?case by (auto simp: zero_padded_def Cons_less_Cons)
next
  case (3 b bs)
  then obtain k where "n = Suc k" by (cases n) auto
  with 3 show ?case by (auto simp: zero_padded_def Cons_less_Cons)
next
  case (4 a as b bs)
  then obtain k where "n = Suc k" by (cases n) auto
  with 4 show ?case by (auto simp: zero_padded_def Cons_less_Cons)
qed (simp add: zero_padded_def)

lemma newer_parts_order:
  "newer_parts as bs \<longleftrightarrow>
     zero_padded (max (length as) (length bs)) bs < zero_padded (max (length as) (length bs)) as"
  by (rule newer_parts_padded) auto

text \<open>
  \<^verbatim>\<open>IsNewer\<close> (\<^verbatim>\<open>internal/update/update.go\<close>) is the strict lexicographic order on the numbers of two versions, the
  shorter one filled up with zeros: a version is newer than another exactly when both parse and the other's
  filled list is smaller. So no two versions are each newer than the other, and a version that does not
  parse is neither newer nor older than anything.
\<close>

theorem newer_is_lexicographic:
  "is_newer a b \<longleftrightarrow>
     (\<exists>as bs. parse_version a = Some as \<and> parse_version b = Some bs \<and>
       zero_padded (max (length as) (length bs)) bs < zero_padded (max (length as) (length bs)) as)"
  by (auto simp: is_newer_def newer_parts_order split: option.splits)

text \<open>A number past the range of \<^verbatim>\<open>int\<close> wraps around, and the newer version is taken for the older one.\<close>

theorem huge_version_taken_for_older: "is_newer ''0.1'' ''0.18446744073709551616''"
  by code_simp

section \<open>What each step touches\<close>

definition agree_outside :: "string set \<Rightarrow> files \<Rightarrow> files \<Rightarrow> bool" where
  "agree_outside S fs fs' \<longleftrightarrow> (\<forall>p. p \<notin> S \<longrightarrow> fs' p = fs p)"

lemma agree_refl [simp, intro]: "agree_outside S fs fs"
  by (simp add: agree_outside_def)

lemma agree_trans: "agree_outside S fs fs1 \<Longrightarrow> agree_outside S fs1 fs2 \<Longrightarrow> agree_outside S fs fs2"
  by (simp add: agree_outside_def)

lemma agree_mono: "agree_outside S fs fs' \<Longrightarrow> S \<subseteq> T \<Longrightarrow> agree_outside T fs fs'"
  by (auto simp: agree_outside_def)

lemma agreeD: "agree_outside S fs fs' \<Longrightarrow> p \<notin> S \<Longrightarrow> fs' p = fs p"
  by (simp add: agree_outside_def)

lemma agree_upd [intro]: "p \<in> S \<Longrightarrow> agree_outside S fs (fs(p := v))"
  by (auto simp: agree_outside_def)

lemma agree_remove [intro]: "p \<in> S \<Longrightarrow> agree_outside S fs (remove_file w p fs)"
  by (auto simp: agree_outside_def remove_file_def)

lemma agree_remove_all: "set ps \<subseteq> S \<Longrightarrow> agree_outside S fs (fold (remove_file w) ps fs)"
proof (induction ps arbitrary: fs)
  case (Cons p ps)
  then show ?case using agree_trans [OF agree_remove [of p S fs w] Cons.IH [of "remove_file w p fs"]] by auto
qed simp

lemma write_temp_agree: "agree_outside {tmp} fs (snd (write_temp w tmp body fs))"
  by (auto simp: write_temp_def agree_outside_def remove_file_def split: option.splits)

lemma write_temp_ok: "fst (write_temp w tmp body fs) \<Longrightarrow> snd (write_temp w tmp body fs) tmp = body \<and> body \<noteq> None"
  by (auto simp: write_temp_def split: option.splits if_splits)

lemma download_agree: "agree_outside {tmp, dest} fs (snd (download_and_verify w h answer want tmp dest fs))"
proof (cases answer)
  case (Replied status body)
  obtain ok fs1 where wt: "write_temp w tmp body fs = (ok, fs1)" by (cases "write_temp w tmp body fs") auto
  have "agree_outside {tmp, dest} fs fs1" using write_temp_agree [of tmp fs w body] unfolding wt by (auto simp: agree_outside_def)
  then show ?thesis
    unfolding Replied download_and_verify_def
    by (auto simp: wt rename_file_def agree_outside_def remove_file_def split: option.splits renamed.splits)
qed (simp add: download_and_verify_def)

lemma download_ok:
  assumes "download_and_verify w h answer want tmp dest fs = (None, fs')"
  shows "\<exists>b. fs' dest = Some b \<and> h b = want \<and> answer = Replied 200 (Some b)"
proof (cases answer)
  case (Replied status body)
  obtain ok fs1 where wt: "write_temp w tmp body fs = (ok, fs1)" by (cases "write_temp w tmp body fs") auto
  have "ok" using assms unfolding Replied download_and_verify_def by (auto simp: wt split: if_splits)
  then obtain b where b: "fs1 tmp = Some b" "body = Some b" using write_temp_ok [of w tmp body fs] unfolding wt by auto
  show ?thesis
    using assms \<open>ok\<close> unfolding Replied download_and_verify_def
    by (auto simp: wt [unfolded b(2)] b rename_file_def split: if_splits renamed.splits)
qed (use assms in \<open>simp add: download_and_verify_def\<close>)

text \<open>
  A download becomes visible only when its contents have the digest the release lists
  (\<^verbatim>\<open>DownloadAndVerify\<close>). Whatever the network answers and whichever step the disk refuses, the destination
  holds what it held before or contents with that digest, no other path but the temporary one changes, and
  the call succeeds exactly when the destination now holds the body the server sent.
\<close>

theorem unverified_download_stays_invisible:
  assumes "download_and_verify w h answer want tmp dest fs = (err, fs')"
    and "tmp \<noteq> dest"
  shows "(fs' dest = fs dest \<or> (\<exists>b. fs' dest = Some b \<and> h b = want)) \<and>
    (p \<notin> {tmp, dest} \<longrightarrow> fs' p = fs p) \<and>
    (err = None \<longrightarrow> (\<exists>b. fs' dest = Some b \<and> h b = want \<and> answer = Replied 200 (Some b)))"
proof (intro conjI impI)
  show "p \<notin> {tmp, dest} \<Longrightarrow> fs' p = fs p"
    using agreeD [OF download_agree [of tmp dest fs w h answer want], of p] assms(1) by simp
  show three: "\<exists>b. fs' dest = Some b \<and> h b = want \<and> answer = Replied 200 (Some b)" if "err = None"
    using download_ok assms(1) that by blast
  show "fs' dest = fs dest \<or> (\<exists>b. fs' dest = Some b \<and> h b = want)"
  proof (cases err)
    case None
    with three show ?thesis by blast
  next
    case (Some x)
    show ?thesis
    proof (cases answer)
      case (Replied status body)
      obtain ok fs1 where wt: "write_temp w tmp body fs = (ok, fs1)" by (cases "write_temp w tmp body fs") auto
      have "fs1 dest = fs dest" using agreeD [OF write_temp_agree [of tmp fs w body], of dest] assms(2) unfolding wt by simp
      then show ?thesis
        using assms Some unfolding Replied download_and_verify_def
        by (auto simp: wt rename_file_def remove_file_def split: if_splits option.splits renamed.splits)
    qed (use assms Some in \<open>simp add: download_and_verify_def\<close>)
  qed
qed

theorem unverified_download_stays_invisible_witness:
  "(let (err, fs) = download_and_verify (\<lambda>op. False) (\<lambda>b. ''digest of '' @ b) (Replied 200 (Some ''tampered''))
       ''digest of genuine'' ''/tmp/.update-1'' ''/tmp/archive'' (Map.empty(''/tmp/archive'' \<mapsto> []))
    in err = Some Checksum_Mismatch \<and> fs ''/tmp/archive'' = Some [] \<and> fs ''/tmp/.update-1'' = None)"
proof -
  let ?fs = "Map.empty(''/tmp/archive'' \<mapsto> []) :: files"
  let ?r = "download_and_verify (\<lambda>op. False) (\<lambda>b. ''digest of '' @ b) (Replied 200 (Some ''tampered''))
       ''digest of genuine'' ''/tmp/.update-1'' ''/tmp/archive'' ?fs"
  obtain err fs where r: "?r = (err, fs)" by (cases ?r) auto
  have err: "err = Some Checksum_Mismatch" "fs ''/tmp/.update-1'' = None"
    using r by (auto simp: download_and_verify_def write_temp_def remove_file_def)
  have "fs ''/tmp/archive'' = ?fs ''/tmp/archive'' \<or> (\<exists>b. fs ''/tmp/archive'' = Some b \<and> ''digest of '' @ b = ''digest of genuine'')"
    using unverified_download_stays_invisible [OF r] by simp
  moreover have "fs ''/tmp/archive'' = Some []"
    using r by (auto simp: download_and_verify_def write_temp_def remove_file_def)
  ultimately show ?thesis unfolding r using err by simp
qed

lemma stage_extract_agree: "agree_outside {tmp} fs (snd (stage_extract w ut uz data bin tmp dest fs))"
proof -
  have "agree_outside {tmp} fs (snd (write_temp w tmp (Some c) fs))" for c by (rule write_temp_agree)
  then show ?thesis
    by (auto simp: stage_extract_def split_def Let_def intro: agree_trans agree_remove split: option.splits)
qed

lemma stage_extract_ok:
  assumes "stage_extract w ut uz data bin tmp dest fs = (Some s, fs')"
  shows "s = tmp \<and> fs' tmp = archive_contents ut uz data bin \<and> archive_contents ut uz data bin \<noteq> None"
proof (cases "archive_contents ut uz data bin")
  case None
  with assms show ?thesis by (simp add: stage_extract_def split: if_splits)
next
  case (Some c)
  obtain ok fs1 where wt: "write_temp w tmp (Some c) fs = (ok, fs1)" by (cases "write_temp w tmp (Some c) fs") auto
  then show ?thesis
    using assms write_temp_ok [of w tmp "Some c" fs] by (auto simp: stage_extract_def Some split: if_splits)
qed

section \<open>Swapping and staging\<close>

lemma rename_agree: "agree_outside {src, dst} fs (snd (rename_file w src dst fs))"
  by (auto simp: rename_file_def agree_outside_def split: option.splits)

lemma old_path_neq [simp]: "old_path p \<noteq> p" "p \<noteq> old_path p"
  by (simp_all add: old_path_def)

lemma swap_agree: "agree_outside {staged, dest, old_path dest} fs (snd (swap_binary w aside staged dest fs))"
  by (auto simp: swap_binary_def rename_file_def remove_file_def agree_outside_def Let_def split_def split: option.splits renamed.splits)

text \<open>A swap leaves the old binary, the new one, or (only when it is moved aside first) none.\<close>

lemma swap_content:
  assumes "staged \<noteq> dest" "staged \<noteq> old_path dest"
  shows "snd (swap_binary w aside staged dest fs) dest \<in> {fs dest, fs staged} \<or>
    (aside \<and> snd (swap_binary w aside staged dest fs) dest = None)"
  using assms
  by (auto simp: swap_binary_def rename_file_def remove_file_def Let_def split_def split: option.splits renamed.splits)

lemma swap_present:
  assumes "fs dest \<noteq> None" "staged \<noteq> dest"
  shows "snd (swap_binary w False staged dest fs) dest \<noteq> None"
  using assms by (auto simp: swap_binary_def rename_file_def split: option.splits)

lemma stage_all_agree: "stage_all e ts fs = (r, made, fs') \<Longrightarrow> agree_outside (temp_beside e ` set ts) fs fs'"
proof (induction ts arbitrary: fs r made fs')
  case (Cons t ts)
  show ?case
  proof (cases "fs (archive_temp e)")
    case None
    with Cons.prems show ?thesis by simp
  next
    case (Some data)
    obtain s fs1 where se: "stage_extract (refuses e) (untar e) (unzip e) data (path_base t) (temp_beside e t) t fs = (s, fs1)" by fastforce
    have a1: "agree_outside (temp_beside e ` set (t # ts)) fs fs1"
      using agree_mono [OF stage_extract_agree [of "temp_beside e t" fs "refuses e" "untar e" "unzip e" data "path_base t" t]] unfolding se by auto
    show ?thesis
    proof (cases s)
      case None
      with a1 Cons.prems Some se show ?thesis by auto
    next
      case s: (Some s')
      obtain r2 made2 fs2 where rec: "stage_all e ts fs1 = (r2, made2, fs2)" by (cases "stage_all e ts fs1") auto
      have "agree_outside (temp_beside e ` set (t # ts)) fs1 fs2"
        using agree_mono [OF Cons.IH [OF rec]] by auto
      then show ?thesis using agree_trans [OF a1] Cons.prems Some se s rec by auto
    qed
  qed
qed simp

lemma stage_all_made: "stage_all e ts fs = (r, made, fs') \<Longrightarrow> set made \<subseteq> temp_beside e ` set ts"
proof (induction ts arbitrary: fs r made fs')
  case (Cons t ts)
  then show ?case
    by (auto split: option.splits prod.splits dest!: stage_extract_ok dest: subsetD [OF Cons.IH])
qed simp

text \<open>The binary that stands in an archive with the planned digest, under the name of the target.\<close>

definition verified_binary :: "update_env \<Rightarrow> update_plan \<Rightarrow> string \<Rightarrow> string \<Rightarrow> bool" where
  "verified_binary e p t b \<longleftrightarrow>
     (case body_at e (plan_url p) of
        Replied status (Some data) \<Rightarrow> status = 200 \<and> sha e data = plan_digest p \<and>
          archive_contents (untar e) (unzip e) data (path_base t) = Some b
      | _ \<Rightarrow> False)"

lemma stage_all_ok:
  assumes "stage_all e ts fs = (Some staged, made, fs')"
    and "fs (archive_temp e) = Some data"
    and "distinct (map (temp_beside e) ts)" "archive_temp e \<notin> temp_beside e ` set ts"
  shows "staged = map (temp_beside e) ts \<and>
    list_all (\<lambda>t. fs' (temp_beside e t) = archive_contents (untar e) (unzip e) data (path_base t)) ts"
  using assms
proof (induction ts arbitrary: fs staged made fs')
  case (Cons t ts)
  obtain s fs1 where se: "stage_extract (refuses e) (untar e) (unzip e) data (path_base t) (temp_beside e t) t fs = (s, fs1)" by fastforce
  then obtain s' where s': "s = Some s'" using Cons.prems by (cases s) auto
  note ok = stage_extract_ok [OF se [unfolded s']]
  have keep: "fs1 (archive_temp e) = Some data"
    using agreeD [OF stage_extract_agree [of "temp_beside e t" fs "refuses e" "untar e" "unzip e" data "path_base t" t], of "archive_temp e"]
      Cons.prems unfolding se by auto
  obtain r2 made2 fs2 where rec: "stage_all e ts fs1 = (r2, made2, fs2)" by (cases "stage_all e ts fs1") auto
  obtain st where eq: "r2 = Some st" "fs' = fs2" "staged = s' # st"
    using Cons.prems se s' rec by auto
  have ih: "st = map (temp_beside e) ts \<and>
    list_all (\<lambda>t. fs2 (temp_beside e t) = archive_contents (untar e) (unzip e) data (path_base t)) ts"
    using Cons.IH [OF rec [unfolded eq(1)] keep] Cons.prems by auto
  have "fs2 (temp_beside e t) = fs1 (temp_beside e t)"
    using agreeD [OF stage_all_agree [OF rec], of "temp_beside e t"] Cons.prems(3) by auto
  then show ?case unfolding eq using ih ok by simp
qed simp

lemma stage_all_present:
  "stage_all e ts fs = (Some staged, made, fs') \<Longrightarrow> distinct (map (temp_beside e) ts) \<Longrightarrow>
    list_all (\<lambda>t. fs' (temp_beside e t) \<noteq> None) ts"
proof (induction ts arbitrary: fs staged made fs')
  case (Cons t ts)
  obtain data where data: "fs (archive_temp e) = Some data" using Cons.prems by (cases "fs (archive_temp e)") auto
  obtain s fs1 where se: "stage_extract (refuses e) (untar e) (unzip e) data (path_base t) (temp_beside e t) t fs = (s, fs1)" by fastforce
  then obtain s' where s': "s = Some s'" using Cons.prems data by (cases s) auto
  obtain r2 made2 fs2 where rec: "stage_all e ts fs1 = (r2, made2, fs2)" by (cases "stage_all e ts fs1") auto
  obtain st where eq: "r2 = Some st" "fs' = fs2" using Cons.prems data se s' rec by auto
  have "fs2 (temp_beside e t) = fs1 (temp_beside e t)"
    using agreeD [OF stage_all_agree [OF rec], of "temp_beside e t"] Cons.prems(2) by auto
  then show ?case using Cons.IH [OF rec [unfolded eq(1)]] Cons.prems(2) stage_extract_ok [OF se [unfolded s']] unfolding eq by simp
qed simp

section \<open>The names a run uses\<close>

text \<open>\<^verbatim>\<open>os.CreateTemp\<close> gives names that nothing else has.\<close>

definition run_temps :: "update_env \<Rightarrow> update_plan \<Rightarrow> string list" where
  "run_temps e p = archive_temp e # temp_beside e (archive_temp e) # map (temp_beside e) (plan_targets p)"

definition fresh_names :: "update_env \<Rightarrow> update_plan \<Rightarrow> bool" where
  "fresh_names e p \<longleftrightarrow>
     distinct (run_temps e p @ map old_path (plan_targets p) @ plan_targets p)"

lemma swap_all_content:
  assumes "distinct (map (temp_beside e) ts @ map old_path ts @ ts)"
    and "swap_all e (zip (map (temp_beside e) ts) ts) fs = (ok, fs')"
    and "q \<notin> temp_beside e ` set ts \<union> old_path ` set ts"
  shows "fs' q = fs q \<or> (q \<in> set ts \<and> (fs' q = fs (temp_beside e q) \<or> (goos e = ''windows'' \<and> fs' q = None)))"
  using assms
proof (induction ts arbitrary: fs ok fs')
  case (Cons t ts)
  let ?sw = "swap_binary (refuses e) (goos e = ''windows'') (temp_beside e t) t fs"
  obtain ok1 fs1 where sw: "?sw = (ok1, fs1)" by (cases ?sw) auto
  have agree: "agree_outside {temp_beside e t, t, old_path t} fs fs1"
    using swap_agree [of "temp_beside e t" t fs "refuses e" "goos e = ''windows''"] unfolding sw by simp
  have here: "fs1 t \<in> {fs t, fs (temp_beside e t)} \<or> (goos e = ''windows'' \<and> fs1 t = None)"
    using swap_content [of "temp_beside e t" t "refuses e" "goos e = ''windows''" fs] Cons.prems(1) unfolding sw by auto
  show ?case
  proof (cases ok1)
    case False
    with Cons.prems(2) sw have "fs' = fs1" by simp
    then show ?thesis using here agreeD [OF agree, of q] Cons.prems(3) by (cases "q = t") auto
  next
    case True
    with Cons.prems(2) sw have rest: "swap_all e (zip (map (temp_beside e) ts) ts) fs1 = (ok, fs')" by simp
    have ih: "fs' q = fs1 q \<or> (q \<in> set ts \<and> (fs' q = fs1 (temp_beside e q) \<or> (goos e = ''windows'' \<and> fs' q = None)))"
      using Cons.IH [OF _ rest] Cons.prems(1,3) by auto
    show ?thesis
    proof (cases "q = t")
      case True
      then have "q \<notin> set ts" using Cons.prems(1) by auto
      with ih here True show ?thesis by auto
    next
      case False
      then have "fs1 q = fs q" using agreeD [OF agree, of q] Cons.prems(3) by auto
      moreover have "fs1 x = fs x" if "x \<in> temp_beside e ` set ts" for x
      proof -
        have "t \<notin> temp_beside e ` set ts" "old_path t \<notin> temp_beside e ` set ts" "temp_beside e t \<notin> temp_beside e ` set ts"
          using Cons.prems(1) by auto
        with that have "x \<notin> {temp_beside e t, t, old_path t}" by blast
        then show ?thesis by (rule agreeD [OF agree])
      qed
      ultimately show ?thesis using ih by auto
    qed
  qed
qed simp

section \<open>The update command\<close>

lemma install_disk:
  "disk (snd (install_staged e p staged m)) \<in> {disk m, snd (swap_all e (zip staged (plan_targets p)) (disk m))}"
  by (auto simp: install_staged_def stop_daemon_def restart_daemon_def Let_def split_def)

lemma install_daemon:
  assumes "\<not> restart_fails e" "service_path e = Some sp"
  shows "fst (install_staged e p staged m) = Failed Stop_Failed \<and>
       daemon (snd (install_staged e p staged m)) = after_failed_stop e (daemon m) \<or>
     daemon (snd (install_staged e p staged m)) \<in> {daemon m, disk (snd (install_staged e p staged m)) sp}"
  using assms by (auto simp: install_staged_def stop_daemon_def restart_daemon_def Let_def split_def)

text \<open>What a run that has something to install does to a path, and to the daemon.\<close>

lemma apply_update_effect:
  assumes fresh: "fresh_names e p"
    and q: "q \<notin> set (run_temps e p) \<union> old_path ` set (plan_targets p)"
  shows "disk (snd (apply_update e p m)) q = disk m q \<or>
    (q \<in> set (plan_targets p) \<and>
      ((\<exists>b. disk (snd (apply_update e p m)) q = Some b \<and> verified_binary e p q b) \<or>
       (goos e = ''windows'' \<and> disk (snd (apply_update e p m)) q = None)))"
proof (cases "refuses e (Create (archive_temp e))")
  case True
  then show ?thesis by (simp add: apply_update_def)
next
  case False
  let ?tmp = "archive_temp e" and ?w = "refuses e" and ?ts = "plan_targets p"
  let ?dl = "download_and_verify ?w (sha e) (body_at e (plan_url p)) (plan_digest p) (temp_beside e ?tmp) ?tmp ((disk m)(?tmp \<mapsto> []))"
  obtain err fs1 where dl: "?dl = (err, fs1)" by (cases ?dl) auto
  have qn: "q \<noteq> ?tmp" "q \<noteq> temp_beside e ?tmp" "q \<notin> temp_beside e ` set ?ts" "q \<notin> old_path ` set ?ts"
    using q by (auto simp: run_temps_def)
  have fs1q: "fs1 q = disk m q"
    using agreeD [OF download_agree [of "temp_beside e ?tmp" ?tmp "(disk m)(?tmp \<mapsto> [])" ?w "sha e" "body_at e (plan_url p)" "plan_digest p"], of q]
      qn unfolding dl by simp
  have cleaned: "remove_file ?w ?tmp (fold (remove_file ?w) made fs) q = fs q" if "set made \<subseteq> temp_beside e ` set ?ts" for made fs
    using agreeD [OF agree_remove_all [OF that, of fs ?w], of q] qn by (auto simp: remove_file_def)
  show ?thesis
  proof (cases err)
    case (Some x)
    then show ?thesis using False dl fs1q qn by (simp add: apply_update_def Let_def remove_file_def)
  next
    case None
    obtain data where data: "fs1 ?tmp = Some data" "sha e data = plan_digest p" "body_at e (plan_url p) = Replied 200 (Some data)"
      using download_ok [OF dl [unfolded None]] by blast
    obtain r made fs2 where st: "stage_all e ?ts fs1 = (r, made, fs2)" by (cases "stage_all e ?ts fs1") auto
    note made = stage_all_made [OF st]
    have fs2q: "fs2 q = disk m q" using agreeD [OF stage_all_agree [OF st], of q] qn fs1q by simp
    show ?thesis
    proof (cases r)
      case None
      then show ?thesis using False dl \<open>err = None\<close> st cleaned [OF made] fs2q by (simp add: apply_update_def Let_def on_disk_def)
    next
      case (Some staged)
      let ?in = "install_staged e p staged (m\<lparr>disk := fs2\<rparr>)"
      have final: "disk (snd (apply_update e p m)) q = disk (snd ?in) q"
        using False dl \<open>err = None\<close> st Some cleaned [OF made] by (simp add: apply_update_def Let_def on_disk_def split_def)
      have dist: "distinct (map (temp_beside e) ?ts @ map old_path ?ts @ ?ts)" "distinct (map (temp_beside e) ?ts)" "?tmp \<notin> temp_beside e ` set ?ts"
        using fresh by (auto simp: fresh_names_def run_temps_def)
      have staged: "staged = map (temp_beside e) ?ts"
        "list_all (\<lambda>t. fs2 (temp_beside e t) = archive_contents (untar e) (unzip e) data (path_base t)) ?ts"
        using stage_all_ok [OF st [unfolded Some] data(1) dist(2,3)] by auto
      obtain ok fs3 where sw: "swap_all e (zip (map (temp_beside e) ?ts) ?ts) fs2 = (ok, fs3)" by fastforce
      have "fs3 q = fs2 q \<or> (q \<in> set ?ts \<and> (fs3 q = fs2 (temp_beside e q) \<or> (goos e = ''windows'' \<and> fs3 q = None)))"
        by (rule swap_all_content [OF dist(1) sw]) (use qn in auto)
      moreover have "disk (snd ?in) q = fs2 q \<or> disk (snd ?in) q = fs3 q"
        using install_disk [of e p staged "m\<lparr>disk := fs2\<rparr>"] unfolding staged(1) by (auto simp: sw)
      moreover have "fs2 (temp_beside e q) = None \<or> (\<exists>b. fs2 (temp_beside e q) = Some b \<and> verified_binary e p q b)" if "q \<in> set ?ts"
        using staged(2) that data by (cases "fs2 (temp_beside e q)") (auto simp: list_all_iff verified_binary_def)
      moreover have "fs2 (temp_beside e q) \<noteq> None" if "q \<in> set ?ts"
        using stage_all_present [OF st [unfolded Some] dist(2)] that by (auto simp: list_all_iff)
      ultimately show ?thesis unfolding final using fs2q by metis
    qed
  qed
qed

lemma run_update_planned:
  assumes "plan_update e (cleanup_leftovers e (disk m)) = Inr (Some p)" "channel e = [] \<or> channel e = ''self''"
  shows "run_update e m = apply_update e p (on_disk (cleanup_leftovers e) m)"
  using assms by (auto simp: run_update_def on_disk_def Let_def)

text \<open>
  C9: The \<^verbatim>\<open>update\<close> command (\<^verbatim>\<open>runUpdate\<close> in \<^verbatim>\<open>cmd/ferngeist/update.go\<close>) puts nothing unverified in the place of a
  binary. Whatever the network answers and whatever the disk refuses, a file that is neither temporary nor a
  \<^verbatim>\<open>.old\<close> copy holds afterwards what it held before, or it is one of the binaries to replace and holds the
  archive entry of its name, out of an archive whose SHA-256 is the one the release lists.
\<close>

theorem update_installs_only_verified:
  assumes "plan_update e (cleanup_leftovers e (disk m)) = Inr (Some p)"
    and "channel e = [] \<or> channel e = ''self''"
    and "fresh_names e p"
    and "q \<notin> set (run_temps e p) \<union> old_path ` set (plan_targets p)"
    and "disk (snd (run_update e m)) q = Some b"
  shows "cleanup_leftovers e (disk m) q = Some b \<or> (q \<in> set (plan_targets p) \<and> verified_binary e p q b)"
  using apply_update_effect [OF assms(3,4), of "on_disk (cleanup_leftovers e) m"] assms(5)
  unfolding run_update_planned [OF assms(1,2)] by (auto simp: on_disk_def)

lemma apply_update_daemon:
  assumes fresh: "fresh_names e p"
    and sp: "service_path e = Some sp" "sp \<notin> set (run_temps e p) \<union> old_path ` set (plan_targets p)"
    and works: "\<not> restart_fails e"
  shows "fst (apply_update e p m) = Failed Stop_Failed \<and>
       daemon (snd (apply_update e p m)) = after_failed_stop e (daemon m) \<or>
     daemon (snd (apply_update e p m)) \<in> {daemon m, disk (snd (apply_update e p m)) sp}"
proof -
  let ?out = "snd (apply_update e p m)"
  let ?w = "refuses e" and ?tmp = "archive_temp e"
  let ?dl = "download_and_verify ?w (sha e) (body_at e (plan_url p)) (plan_digest p) (temp_beside e ?tmp) ?tmp ((disk m)(?tmp \<mapsto> []))"
  obtain err fs1 where dl: "?dl = (err, fs1)" by (cases ?dl) auto
  obtain r made fs2 where st: "stage_all e (plan_targets p) fs1 = (r, made, fs2)" by (cases "stage_all e (plan_targets p) fs1") auto
  have keep: "remove_file ?w ?tmp (fold (remove_file ?w) made fs) sp = fs sp" for fs
    using agreeD [OF agree_remove_all [OF stage_all_made [OF st], of fs ?w], of sp] sp(2)
    by (auto simp: remove_file_def run_temps_def)
  show ?thesis
  proof (cases "refuses e (Create ?tmp) \<or> err \<noteq> None \<or> r = None")
    case True
    then show ?thesis using dl st by (cases err) (auto simp: apply_update_def Let_def on_disk_def split_def)
  next
    case False
    then obtain staged where r: "r = Some staged" by auto
    let ?in = "install_staged e p staged (m\<lparr>disk := fs2\<rparr>)"
    have "daemon ?out = daemon (snd ?in)" "disk ?out sp = disk (snd ?in) sp" "fst (apply_update e p m) = fst ?in"
      using False dl st r keep by (auto simp: apply_update_def Let_def on_disk_def split_def)
    then show ?thesis
      using install_daemon [OF works sp(1), of p staged "m\<lparr>disk := fs2\<rparr>"] by auto
  qed
qed

text \<open>
  C10: On a system that renames over a running file (anything but Windows), an update that fails half-way leaves
  the service running. Let the daemon run, its binary be on the disk, the temporary names be new and
  \<^verbatim>\<open>Restart\<close> work. Whichever download, check, extraction or swap then fails, the daemon runs after the
  command: it is the one that ran before, or it runs the binary that now stands at the service's path, and
  that is the old one or the entry of an archive with the digest the release lists. The one exception is a
  \<^verbatim>\<open>Stop\<close> that reports an error: the command ends there, and whether the daemon survived is up to \<^verbatim>\<open>Stop\<close>.
\<close>

theorem update_keeps_daemon_running:
  assumes "plan_update e (cleanup_leftovers e (disk m)) = Inr (Some p)"
    and "channel e = [] \<or> channel e = ''self''"
    and "fresh_names e p"
    and "service_path e = Some sp" "sp \<notin> set (run_temps e p) \<union> old_path ` set (plan_targets p)"
    and "cleanup_leftovers e (disk m) sp = Some old"
    and "goos e \<noteq> ''windows''" "\<not> restart_fails e" "daemon m = Some running"
    and "run_update e m = (out, m')"
  shows "(out = Failed Stop_Failed \<and> daemon m' = after_failed_stop e (Some running)) \<or>
    daemon m' = Some running \<or>
    (daemon m' = disk m' sp \<and> (\<exists>b. disk m' sp = Some b \<and> (b = old \<or> verified_binary e p sp b)))"
proof -
  define m1 where "m1 = on_disk (cleanup_leftovers e) m"
  have m1: "daemon m1 = Some running" "disk m1 sp = Some old" using assms(6,9) by (simp_all add: m1_def on_disk_def)
  have run: "apply_update e p m1 = (out, m')" using assms(10) run_update_planned [OF assms(1,2)] by (simp add: m1_def)
  have "disk m' sp = Some old \<or> (\<exists>b. disk m' sp = Some b \<and> verified_binary e p sp b)"
    using apply_update_effect [OF assms(3,5), of m1] m1(2) assms(7) by (auto simp: run)
  then show ?thesis using apply_update_daemon [OF assms(3-5,8), of m1] by (auto simp: run m1(1))
qed

text \<open>
  The command never installs an older release. When the running version parses and the latest stable one is
  not newer, the daemon is left alone and no file changes, but for the \<^verbatim>\<open>.old\<close> copies of an earlier swap.
\<close>

theorem update_never_downgrades:
  assumes "latest_stable (latest e) = Some r"
    and "valid_version (trim_prefix ''v'' (build_version e))"
    and "\<not> is_newer (trim_prefix ''v'' (tag_name r)) (trim_prefix ''v'' (build_version e))"
  shows "(\<exists>out. out \<in> {Up_To_Date, Failed Foreign_Channel} \<and> fst (run_update e m) = out) \<and>
    daemon (snd (run_update e m)) = daemon m \<and>
    agree_outside {p. \<exists>t. p = old_path t \<and> Some t \<in> {service_path e, executable e}} (disk m) (disk (snd (run_update e m)))"
proof -
  let ?S = "{p. \<exists>t. p = old_path t \<and> Some t \<in> {service_path e, executable e}}"
  have plan: "plan_update e fs = Inr None" for fs
    using assms by (simp add: plan_update_def Let_def)
  have "agree_outside ?S (disk m) (cleanup_leftovers e (disk m))"
    by (auto simp: cleanup_leftovers_def cleanup_old_def Let_def agree_outside_def remove_file_def split: option.splits)
  then show ?thesis by (auto simp: run_update_def plan on_disk_def Let_def)
qed

section \<open>The last copy of the binary\<close>

text \<open>
  Where the old binary is moved aside first (Windows), two refused renames leave it only as the \<^verbatim>\<open>.old\<close> copy, and
  the next run of the command removes that copy before it has looked for a release.
\<close>

theorem cleanup_removes_last_copy:
  assumes "w (Rename staged dest)" "w (Rename (old_path dest) dest)"
    and "\<not> w (Rename dest (old_path dest))" "\<not> w (Remove (old_path dest))"
    and "fs dest = Some b"
  shows "(case swap_binary w True staged dest fs of
     (ok, fs1) \<Rightarrow> \<not> ok \<and> fs1 dest = None \<and> fs1 (old_path dest) = Some b \<and>
       (\<forall>e m. service_path e = Some dest \<and> disk m = fs1 \<and> channel e = [] \<and> latest e = Unreachable \<and> \<not> refuses e (Remove (old_path dest)) \<longrightarrow>
          disk (snd (run_update e m)) dest = None \<and> disk (snd (run_update e m)) (old_path dest) = None))"
  using assms
  by (auto simp: swap_binary_def rename_file_def remove_file_def Let_def run_update_def plan_update_def latest_stable_def
      on_disk_def cleanup_leftovers_def cleanup_old_def split: option.splits)

section \<open>A run that installs a release\<close>

definition some_asset :: string where
  "some_asset = ''ferngeist-gateway_0.2.0_linux_amd64.tar.gz''"

definition some_sums :: string where
  "some_sums = concat (replicate 32 ''61'') @ ''  '' @ some_asset"

definition some_updater :: update_env where
  "some_updater = \<lparr>channel = [], build_version = ''v0.1.9'', goos = ''linux'', goarch = ''amd64'',
     latest = Replied 200 (Some \<lparr>tag_name = ''v0.2.0'', assets = [\<lparr>asset_name = some_asset, download_url = ''https://h/d/a''\<rparr>]\<rparr>),
     body_at = (\<lambda>u. if u = ''https://h/d/SHA256SUMS'' then Replied 200 (Some some_sums)
       else Replied 200 (Some [char_of (31::nat), char_of (139::nat)])),
     parse_url = (\<lambda>u. Some (''https://h'', ''/d/a'', [])),
     sha = (\<lambda>b. replicate 32 CHR ''a''),
     untar = (\<lambda>b. Some [Entry ''dist/gateway'' True (Some ''new'')]), unzip = (\<lambda>b. None),
     refuses = (\<lambda>f. False), temp_beside = (\<lambda>p. p @ ''.update-1''), archive_temp = ''/tmp/u'',
     service_status = Managed True, service_path = Some ''/s/gateway'', executable = Some ''/b/gateway'',
     same_file = (\<lambda>p q. p = q), stop_fails = False,
     after_failed_stop = (\<lambda>d. None), restart_fails = False, after_failed_restart = (\<lambda>d. None)\<rparr>"

definition some_machine :: update_machine where
  "some_machine = \<lparr>disk = [''/s/gateway'' \<mapsto> ''old'', ''/b/gateway'' \<mapsto> ''old''], daemon = Some ''old''\<rparr>"

definition some_plan :: update_plan where
  "some_plan = \<lparr>plan_tag = ''v0.2.0'', plan_url = ''https://h/d/a'', plan_digest = replicate 32 CHR ''a'',
     plan_targets = [''/s/gateway'', ''/b/gateway''], plan_managed = True\<rparr>"

lemma some_plan_made: "plan_update some_updater (cleanup_leftovers some_updater (disk some_machine)) = Inr (Some some_plan)"
  by code_simp

lemma some_names_fresh: "fresh_names some_updater some_plan" "channel some_updater = []"
  by code_simp+

theorem update_installs_only_verified_witness:
  "disk (snd (run_update some_updater some_machine)) ''/b/gateway'' = Some ''new'' \<and>
   verified_binary some_updater some_plan ''/b/gateway'' ''new''"
proof -
  have new: "disk (snd (run_update some_updater some_machine)) ''/b/gateway'' = Some ''new''" by code_simp
  have "cleanup_leftovers some_updater (disk some_machine) ''/b/gateway'' = Some ''new'' \<or>
    (''/b/gateway'' \<in> set (plan_targets some_plan) \<and> verified_binary some_updater some_plan ''/b/gateway'' ''new'')"
    by (rule update_installs_only_verified [OF some_plan_made _ some_names_fresh(1) _ new]) (code_simp, code_simp)
  moreover have "cleanup_leftovers some_updater (disk some_machine) ''/b/gateway'' = Some ''old''" by code_simp
  ultimately show ?thesis using new by simp
qed

theorem update_keeps_daemon_running_witness:
  "daemon (snd (run_update some_updater some_machine)) = Some ''new'' \<and> verified_binary some_updater some_plan ''/s/gateway'' ''new''"
proof -
  let ?r = "run_update some_updater some_machine"
  have p: "fst ?r = Updated ''v0.2.0''" "daemon (snd ?r) = Some ''new''" by code_simp+
  have "(fst ?r = Failed Stop_Failed \<and> daemon (snd ?r) = after_failed_stop some_updater (Some ''old'')) \<or>
    daemon (snd ?r) = Some ''old'' \<or>
    (daemon (snd ?r) = disk (snd ?r) ''/s/gateway'' \<and>
      (\<exists>b. disk (snd ?r) ''/s/gateway'' = Some b \<and> (b = ''old'' \<or> verified_binary some_updater some_plan ''/s/gateway'' b)))"
    by (rule update_keeps_daemon_running [OF some_plan_made _ some_names_fresh(1), where out = "fst ?r" and m' = "snd ?r"])
      (code_simp, simp add: some_updater_def, code_simp, code_simp, simp_all add: some_updater_def some_machine_def)
  then show ?thesis using p by auto
qed

theorem update_never_downgrades_witness:
  "fst (run_update (some_updater\<lparr>build_version := ''v0.3.0''\<rparr>) some_machine) = Up_To_Date \<and>
   daemon (snd (run_update (some_updater\<lparr>build_version := ''v0.3.0''\<rparr>) some_machine)) = Some ''old''"
proof -
  let ?e = "some_updater\<lparr>build_version := ''v0.3.0''\<rparr>"
  have hyps: "latest_stable (latest ?e) = Some \<lparr>tag_name = ''v0.2.0'', assets = [\<lparr>asset_name = some_asset, download_url = ''https://h/d/a''\<rparr>]\<rparr>"
    by (simp add: some_updater_def latest_stable_def)
  have v: "valid_version (trim_prefix ''v'' (build_version ?e))" "\<not> is_newer (trim_prefix ''v'' ''v0.2.0'') (trim_prefix ''v'' (build_version ?e))"
    by code_simp+
  note r = update_never_downgrades [OF hyps v(1), of some_machine]
  have "fst (run_update ?e some_machine) \<in> {Up_To_Date, Failed Foreign_Channel} \<and> daemon (snd (run_update ?e some_machine)) = daemon some_machine"
    using r v(2) by auto
  moreover have "fst (run_update ?e some_machine) \<noteq> Failed Foreign_Channel" by code_simp
  ultimately show ?thesis by (auto simp: some_machine_def)
qed

end
