(* ===== verification/Agent_Registry.thy ===== *)
theory Agent_Registry
  imports Go_Paths
begin

text \<open>
  The ACP registry as the gateway reads it (\<^verbatim>\<open>internal/registry/registry.go\<close>): what it keeps of each entry, and the
  client that fetches the document once in the foreground and refreshes it in the background afterwards. The
  document arrives decoded: a distribution is \<open>None\<close> when the entry lacks it or its JSON has another shape.
\<close>

section \<open>Entries\<close>

record binary_target =
  bt_platform :: string
  bt_archive :: string
  bt_command :: string
  bt_name :: string
  bt_args :: "string list"

record registry_entry =
  re_id :: string
  re_name :: string
  re_version :: string
  re_repository :: string
  re_website :: string
  re_icon :: string
  re_kinds :: "string list"
  re_targets :: "string \<rightharpoonup> binary_target"
  re_binary :: "binary_target option"
  re_npx :: string
  re_npx_args :: "string list"
  re_uvx :: string
  re_uvx_args :: "string list"

record binary_document =
  bd_archive :: string
  bd_cmd :: string
  bd_args :: "string list"

record registry_agent_document =
  rd_id :: string
  rd_name :: string
  rd_version :: string
  rd_repository :: string
  rd_website :: string
  rd_icon :: string
  rd_kinds :: "string list"
  rd_binary :: "(string \<rightharpoonup> binary_document) option"
  rd_npx :: "(string \<times> string list) option"
  rd_uvx :: "(string \<times> string list) option"

definition normalize_architecture :: "string \<Rightarrow> string" where
  "normalize_architecture arch = (if arch = ''amd64'' then ''x86_64'' else if arch = ''arm64'' then ''aarch64'' else arch)"

definition current_platform_key :: "string \<Rightarrow> string \<Rightarrow> string" where
  "current_platform_key goos goarch = goos @ ''-'' @ normalize_architecture goarch"

text \<open>\<^verbatim>\<open>strings.TrimSuffix(base, filepath.Ext(base))\<close> drops the four bytes of an extension that reads \<^verbatim>\<open>.exe\<close>.\<close>

definition normalize_binary_command_name :: "string \<Rightarrow> string" where
  "normalize_binary_command_name command =
     (let base = path_base (map (\<lambda>c. if c = char_of (92::nat) then slash else c) (trim_space command))
      in if has_suffix (to_lower base) ''.exe'' then take (length base - 4) base else base)"

definition binary_target_of :: "string \<Rightarrow> binary_document \<Rightarrow> binary_target" where
  "binary_target_of platform d =
     \<lparr>bt_platform = platform, bt_archive = bd_archive d, bt_command = bd_cmd d,
      bt_name = normalize_binary_command_name (bd_cmd d), bt_args = bd_args d\<rparr>"

definition parse_binary_targets :: "(string \<rightharpoonup> binary_document) option \<Rightarrow> string \<rightharpoonup> binary_target" where
  "parse_binary_targets doc = (case doc of None \<Rightarrow> Map.empty | Some m \<Rightarrow> (\<lambda>p. map_option (binary_target_of p) (m p)))"

definition parse_package :: "(string \<times> string list) option \<Rightarrow> string \<times> string list" where
  "parse_package doc = (case doc of None \<Rightarrow> ([], []) | Some (pkg, args) \<Rightarrow> (trim_space pkg, args))"

definition entry_of_document :: "string \<Rightarrow> registry_agent_document \<Rightarrow> registry_entry" where
  "entry_of_document platform d =
     \<lparr>re_id = rd_id d, re_name = rd_name d, re_version = rd_version d, re_repository = rd_repository d,
      re_website = rd_website d, re_icon = rd_icon d, re_kinds = sort (rd_kinds d),
      re_targets = parse_binary_targets (rd_binary d), re_binary = parse_binary_targets (rd_binary d) platform,
      re_npx = fst (parse_package (rd_npx d)), re_npx_args = snd (parse_package (rd_npx d)),
      re_uvx = fst (parse_package (rd_uvx d)), re_uvx_args = snd (parse_package (rd_uvx d))\<rparr>"

section \<open>The client\<close>

text \<open>A snapshot keeps one entry per id, the last one in the document.\<close>

record registry_snapshot =
  rs_version :: string
  rs_agents :: "(string \<times> registry_entry) list"
  rs_fetched :: gtime

definition snapshot_of :: "string \<Rightarrow> gtime \<Rightarrow> string \<times> registry_agent_document list \<Rightarrow> registry_snapshot" where
  "snapshot_of platform now doc =
     \<lparr>rs_version = fst doc,
      rs_agents = fold (\<lambda>d. AList.update (rd_id d) (entry_of_document platform d)) (snd doc) [],
      rs_fetched = now\<rparr>"

text \<open>
  \<open>rc_in_flight\<close> counts the fetches that run; the code has no such field. A fetch ends with an error message or
  the decoded document.
\<close>

record registry_client =
  rc_url :: string
  rc_ttl :: duration
  rc_cached :: registry_snapshot
  rc_cached_at :: gtime
  rc_last_error :: string
  rc_fetched :: bool
  rc_refreshing :: bool
  rc_in_flight :: nat

type_synonym fetch_result = "string + (string \<times> registry_agent_document list)"

definition empty_snapshot :: registry_snapshot where
  "empty_snapshot = \<lparr>rs_version = [], rs_agents = [], rs_fetched = zero_time\<rparr>"

definition new_registry_client :: "string \<Rightarrow> duration \<Rightarrow> registry_client" where
  "new_registry_client url ttl =
     \<lparr>rc_url = (if url = [] then ''https://cdn.agentclientprotocol.com/registry/v1/latest/registry.json'' else url),
      rc_ttl = (if ttl \<le> 0 then 6 * hour else ttl), rc_cached = empty_snapshot, rc_cached_at = zero_time,
      rc_last_error = [], rc_fetched = False, rc_refreshing = False, rc_in_flight = 0\<rparr>"

definition record_error :: "string \<Rightarrow> registry_client \<Rightarrow> registry_client" where
  "record_error err c = c\<lparr>rc_last_error := err\<rparr>"

definition refresh_ends :: "string \<Rightarrow> gtime \<Rightarrow> fetch_result \<Rightarrow> registry_client \<Rightarrow> registry_client" where
  "refresh_ends platform now r c =
     (case r of
        Inl err \<Rightarrow> record_error err c
      | Inr doc \<Rightarrow>
          let snap = snapshot_of platform now doc
          in c\<lparr>rc_cached := snap, rc_cached_at := now, rc_last_error := []\<rparr>)"

text \<open>
  \<^verbatim>\<open>Snapshot\<close> up to its first blocking point: it waits for a fetch of its own, or answers at once and may have
  started a background refresh.
\<close>

datatype snapshot_answer = Wait_Fetch | Answer "string + registry_snapshot"

definition registry_stale :: "gtime \<Rightarrow> registry_client \<Rightarrow> bool" where
  "registry_stale now c \<longleftrightarrow> rc_cached_at c = zero_time \<or> now > rc_cached_at c + rc_ttl c"

definition snapshot_begin :: "gtime \<Rightarrow> registry_client \<Rightarrow> snapshot_answer \<times> registry_client" where
  "snapshot_begin now c =
     (if \<not> rc_fetched c
      then (Wait_Fetch, c\<lparr>rc_fetched := True, rc_refreshing := True, rc_in_flight := rc_in_flight c + 1\<rparr>)
      else
        (Answer (if rc_cached_at c = zero_time
                 then Inl (if rc_last_error c \<noteq> [] then rc_last_error c else ''registry fetch in progress'')
                 else Inr (rc_cached c)),
         if registry_stale now c \<and> \<not> rc_refreshing c
         then c\<lparr>rc_refreshing := True, rc_in_flight := rc_in_flight c + 1\<rparr> else c))"

text \<open>The end of a fetch, of the first caller's or of the background one: \<^verbatim>\<open>refresh\<close>, then the flag.\<close>

definition fetch_ends :: "string \<Rightarrow> gtime \<Rightarrow> fetch_result \<Rightarrow> registry_client \<Rightarrow> registry_client" where
  "fetch_ends platform now r c =
     (if rc_in_flight c = 0 then c
      else (refresh_ends platform now r c)\<lparr>rc_refreshing := False, rc_in_flight := rc_in_flight c - 1\<rparr>)"

record registry_status =
  st_url :: string
  st_state :: string
  st_version :: string
  st_count :: nat
  st_fetched :: gtime
  st_error :: string

definition registry_status_of :: "gtime \<Rightarrow> registry_client \<Rightarrow> registry_status" where
  "registry_status_of now c =
     (let blank = \<lparr>st_url = rc_url c, st_state = [], st_version = [], st_count = 0, st_fetched = zero_time, st_error = []\<rparr>
      in if rc_cached_at c = zero_time \<and> rc_last_error c = [] then blank\<lparr>st_state := ''idle''\<rparr>
         else
           let s1 = (if rc_cached_at c \<noteq> zero_time
                     then blank\<lparr>st_version := rs_version (rc_cached c), st_count := length (rs_agents (rc_cached c)),
                                st_fetched := rc_cached_at c,
                                st_state := (if now > rc_cached_at c + rc_ttl c then ''stale'' else ''ready'')\<rparr>
                     else blank);
               s2 = (if rc_last_error c \<noteq> []
                     then s1\<lparr>st_error := rc_last_error c,
                             st_state := (if st_state s1 = [] \<or> st_state s1 = ''idle'' then ''error'' else st_state s1)\<rparr>
                     else s1)
           in if st_state s2 = [] then s2\<lparr>st_state := ''idle''\<rparr> else s2)"

datatype registry_event = Ask gtime | Fetched gtime fetch_result

definition registry_step :: "string \<Rightarrow> registry_client \<Rightarrow> registry_event \<Rightarrow> registry_client" where
  "registry_step platform c ev =
     (case ev of
        Ask now \<Rightarrow> snd (snapshot_begin now c)
      | Fetched now r \<Rightarrow> fetch_ends platform now r c)"

section \<open>At most one fetch\<close>

definition registry_wf :: "registry_client \<Rightarrow> bool" where
  "registry_wf c \<longleftrightarrow>
     (rc_in_flight c = (if rc_refreshing c then 1 else 0)) \<and>
     (rc_refreshing c \<longrightarrow> rc_fetched c) \<and>
     list_all (\<lambda>(k, e). re_id e = k) (rs_agents (rc_cached c)) \<and> keys_distinct (rs_agents (rc_cached c)) \<and>
     (rc_cached_at c = zero_time \<longrightarrow> rc_cached c = empty_snapshot)"

lemma snapshot_of_wf:
  "list_all (\<lambda>(k, e). re_id e = k) (rs_agents (snapshot_of platform now doc)) \<and> keys_distinct (rs_agents (snapshot_of platform now doc))"
proof -
  have "list_all (\<lambda>(k, e). re_id e = k) m \<and> keys_distinct m \<Longrightarrow>
    list_all (\<lambda>(k, e). re_id e = k) (fold (\<lambda>d. AList.update (rd_id d) (entry_of_document platform d)) ds m) \<and>
    keys_distinct (fold (\<lambda>d. AList.update (rd_id d) (entry_of_document platform d)) ds m)" for ds m
  proof (induction ds arbitrary: m)
    case (Cons d ds)
    have "list_all (\<lambda>(k, e). re_id e = k) (AList.update (rd_id d) (entry_of_document platform d) m)"
      using Cons.prems set_update_subset [of "rd_id d" "entry_of_document platform d" m]
      by (auto simp: list_all_iff entry_of_document_def)
    then show ?case using Cons by (simp add: keys_distinct_update)
  qed simp
  then show ?thesis by (simp add: snapshot_of_def)
qed

definition registry_event_ok :: "registry_event \<Rightarrow> bool" where
  "registry_event_ok ev = (case ev of Ask now \<Rightarrow> now > zero_time | Fetched now r \<Rightarrow> now > zero_time)"

interpretation registry: invariant_machine "registry_step platform" registry_wf registry_event_ok for platform
  by unfold_locales
    (auto simp: registry_step_def registry_wf_def registry_event_ok_def snapshot_begin_def fetch_ends_def refresh_ends_def
      record_error_def snapshot_of_wf [THEN conjunct1] snapshot_of_wf [THEN conjunct2] Let_def split: registry_event.splits sum.splits if_splits)

lemma new_registry_client_wf: "registry_wf (new_registry_client url ttl)"
  by (simp add: registry_wf_def new_registry_client_def empty_snapshot_def)

text \<open>Once a snapshot was fetched, every later answer is a snapshot, whatever fails afterwards.\<close>

lemma registry_keeps_snapshot_step:
  "rc_fetched c \<and> rc_cached_at c > zero_time \<Longrightarrow> registry_event_ok ev \<Longrightarrow>
    rc_fetched (registry_step p c ev) \<and> rc_cached_at (registry_step p c ev) > zero_time"
  by (auto simp: registry_step_def registry_event_ok_def snapshot_begin_def fetch_ends_def refresh_ends_def record_error_def Let_def
      split: registry_event.splits sum.splits)

interpretation has_snapshot: invariant_machine "registry_step platform" "\<lambda>c. rc_fetched c \<and> rc_cached_at c > zero_time" registry_event_ok for platform
  by unfold_locales (rule registry_keeps_snapshot_step)

lemma registry_fetched_step: "rc_fetched c \<Longrightarrow> rc_fetched (registry_step p c ev)"
  by (auto simp: registry_step_def snapshot_begin_def fetch_ends_def refresh_ends_def record_error_def Let_def
      split: registry_event.splits sum.splits)

interpretation asked: invariant_machine "registry_step platform" rc_fetched "\<lambda>ev. True" for platform
  by unfold_locales (rule registry_fetched_step)

text \<open>
  The registry never stalls the API after its first answer (\<^verbatim>\<open>Client.Snapshot\<close>). In every interleaving of requests
  and fetches, at most one fetch runs, only the very first request waits for it, and once a document was read every
  request is answered at once with a snapshot whose entries sit under their own distinct ids, however many later
  fetches fail.
\<close>

theorem registry_answers_at_once:
  assumes "list_all registry_event_ok evs" "evs \<noteq> []" "hd evs = Ask t0"
  shows "rc_in_flight (run (registry_step p) (new_registry_client url ttl) evs) \<le> 1 \<and>
    fst (snapshot_begin now (run (registry_step p) (new_registry_client url ttl) evs)) \<noteq> Wait_Fetch \<and>
    (rc_cached_at (run (registry_step p) (new_registry_client url ttl) evs) > zero_time \<longrightarrow> list_all registry_event_ok later \<longrightarrow>
      (\<exists>snap. fst (snapshot_begin now (run (registry_step p) (new_registry_client url ttl) (evs @ later))) = Answer (Inr snap) \<and>
        list_all (\<lambda>(k, e). re_id e = k) (rs_agents snap) \<and> keys_distinct (rs_agents snap)))"
proof (intro conjI impI)
  let ?c = "run (registry_step p) (new_registry_client url ttl) evs"
  have wf: "registry_wf ?c" by (rule registry.run_inv [OF new_registry_client_wf assms(1)])
  show "rc_in_flight ?c \<le> 1" using wf by (simp add: registry_wf_def)
  obtain rest where evs: "evs = Ask t0 # rest" using assms(2,3) by (cases evs) auto
  have "rc_fetched (registry_step p (new_registry_client url ttl) (Ask t0))"
    by (simp add: registry_step_def snapshot_begin_def new_registry_client_def)
  then have fetched: "rc_fetched ?c" unfolding evs using asked.run_inv [where es = rest] by (simp add: list_all_iff)
  then show "fst (snapshot_begin now ?c) \<noteq> Wait_Fetch" by (simp add: snapshot_begin_def)
  assume "rc_cached_at ?c > zero_time" "list_all registry_event_ok later"
  then have "rc_fetched (run (registry_step p) ?c later) \<and> rc_cached_at (run (registry_step p) ?c later) > zero_time"
    using has_snapshot.run_inv [of ?c later p] fetched by simp
  moreover have "registry_wf (run (registry_step p) ?c later)" by (rule registry.run_inv [OF wf \<open>list_all registry_event_ok later\<close>])
  ultimately show "\<exists>snap. fst (snapshot_begin now (run (registry_step p) (new_registry_client url ttl) (evs @ later))) = Answer (Inr snap) \<and>
        list_all (\<lambda>(k, e). re_id e = k) (rs_agents snap) \<and> keys_distinct (rs_agents snap)"
    by (auto simp: snapshot_begin_def registry_wf_def)
qed

theorem registry_answers_at_once_witness:
  "\<exists>snap. fst (snapshot_begin 9 (run (registry_step ''linux-x86_64'') (new_registry_client [] 0)
     ([Ask 1, Fetched 2 (Inr (''1'', []))] @ [Ask 3, Fetched 4 (Inl ''offline'')]))) = Answer (Inr snap)"
proof -
  have "list_all registry_event_ok [Ask 1, Fetched 2 (Inr (''1'', []))]" "list_all registry_event_ok [Ask 3, Fetched 4 (Inl ''offline'')]"
    by (simp_all add: registry_event_ok_def)
  moreover have "rc_cached_at (run (registry_step ''linux-x86_64'') (new_registry_client [] 0) [Ask 1, Fetched 2 (Inr (''1'', []))]) > zero_time"
    by (simp add: registry_step_def new_registry_client_def snapshot_begin_def fetch_ends_def refresh_ends_def)
  ultimately show ?thesis
    using registry_answers_at_once [of "[Ask 1, Fetched 2 (Inr (''1'', []))]" 1 "''linux-x86_64''" "[]" 0 9 "[Ask 3, Fetched 4 (Inl ''offline'')]"]
    by auto
qed

end
