(* ===== verification/Catalog.thy ===== *)
theory Catalog
  imports Agent_Registry
begin

text \<open>
  The agent catalog (\<^verbatim>\<open>internal/catalog/catalog.go\<close>): bundled manifests, registry entries and custom agents merged
  into one list, validated and probed on the host, cached for half a minute. The host is a record: the
  operating system, which executables \<^verbatim>\<open>exec.LookPath\<close> finds, which files exist. The manifests arrive decoded; the
  bundled logos are a parameter.
\<close>

section \<open>Agents\<close>

record detection_config =
  dt_mode :: string
  dt_command :: string
  dt_path :: string

record launch_plan =
  la_mode :: string
  la_command :: string
  la_args :: "string list"

record security_config =
  se_curated :: bool
  se_remote :: bool
  se_fields :: "string list"

record registry_info =
  ri_required :: bool
  ri_status :: string
  ri_name :: string
  ri_version :: string
  ri_repository :: string
  ri_website :: string
  ri_icon :: string
  ri_kinds :: "string list"
  ri_binary_path :: string
  ri_binary_url :: string
  ri_binary_command :: string
  ri_binary_args :: "string list"
  ri_npx :: string
  ri_npx_args :: "string list"
  ri_uvx :: string
  ri_uvx_args :: "string list"

datatype catalog_error =
    Id_Required | Name_Required | Protocol_Required | Unsupported_Protocol string | Platforms_Required
  | Empty_Capability | Not_Curated | Local_Path_Required | Detection_Control_Chars | Unsafe_Detection name_error
  | Unsupported_Detection string | Process_Command_Required | Unsafe_Launch name_error | Launch_Control_Chars
  | Unsupported_Mode string | Empty_Argument | Argument_Control_Chars | Local_Needs_Process | Path_Needs_External
  | Path_Mismatch | Command_Mismatch | Not_In_Registry
and name_error = Command_Required | Path_Separators | Not_One_Name

record catalog_agent =
  ca_id :: string
  ca_source :: string
  ca_name :: string
  ca_icon :: string
  ca_quota :: string
  ca_protocol :: string
  ca_platforms :: "string list"
  ca_detection :: detection_config
  ca_launch :: launch_plan
  ca_capabilities :: "string list"
  ca_security :: security_config
  ca_registry :: registry_info
  ca_detected :: bool
  ca_valid :: bool
  ca_error :: "catalog_error option"
  ca_hint :: string

record custom_agent =
  cu_id :: string
  cu_name :: string
  cu_command :: string
  cu_args :: "string list"
  cu_hint :: string

record host =
  h_goos :: string
  h_look_path :: "string \<Rightarrow> bool"
  h_is_file :: "string \<Rightarrow> bool"
  h_base_dir :: string

definition no_detection :: detection_config where
  "no_detection = \<lparr>dt_mode = [], dt_command = [], dt_path = []\<rparr>"

definition no_launch :: launch_plan where
  "no_launch = \<lparr>la_mode = [], la_command = [], la_args = []\<rparr>"

definition blank_info :: registry_info where
  "blank_info = \<lparr>ri_required = False, ri_status = [], ri_name = [], ri_version = [], ri_repository = [], ri_website = [],
     ri_icon = [], ri_kinds = [], ri_binary_path = [], ri_binary_url = [], ri_binary_command = [], ri_binary_args = [],
     ri_npx = [], ri_npx_args = [], ri_uvx = [], ri_uvx_args = []\<rparr>"

definition all_platforms :: "string list" where
  "all_platforms = [''windows'', ''darwin'', ''linux'', ''android'']"

definition custom_to_agent :: "custom_agent \<Rightarrow> catalog_agent" where
  "custom_to_agent c =
     \<lparr>ca_id = cu_id c, ca_source = ''custom'', ca_name = cu_name c, ca_icon = [], ca_quota = [], ca_protocol = ''acp'',
      ca_platforms = all_platforms, ca_detection = \<lparr>dt_mode = ''path_lookup'', dt_command = cu_command c, dt_path = []\<rparr>,
      ca_launch = \<lparr>la_mode = ''external'', la_command = cu_command c, la_args = cu_args c\<rparr>,
      ca_capabilities = [], ca_security = \<lparr>se_curated = True, se_remote = True, se_fields = []\<rparr>,
      ca_registry = blank_info\<lparr>ri_status := ''not_required''\<rparr>, ca_detected = False, ca_valid = False, ca_error = None,
      ca_hint = cu_hint c\<rparr>"

section \<open>Ids of custom agents\<close>

definition slug_char :: "char \<Rightarrow> bool" where
  "slug_char c \<longleftrightarrow> (let n = of_char c :: nat in (97 \<le> n \<and> n \<le> 122) \<or> (48 \<le> n \<and> n \<le> 57))"

fun slug_runs :: "bool \<Rightarrow> string \<Rightarrow> string" where
  "slug_runs prev_dash [] = []"
| "slug_runs prev_dash (c # cs) =
     (if slug_char c then c # slug_runs False cs
      else if \<not> prev_dash then CHR ''-'' # slug_runs True cs
      else slug_runs prev_dash cs)"

definition slug_custom_id :: "string \<Rightarrow> string" where
  "slug_custom_id name =
     (let slug = trim_chars {CHR ''-''} (trim_space (slug_runs True (to_lower (trim_space name))));
          short = (if length slug > 48 then trim_chars {CHR ''-''} (take 48 slug) else slug)
      in ''custom-'' @ (if short = [] then ''agent'' else short))"

section \<open>Manifests\<close>

definition mock_agent_executable_name :: "string \<Rightarrow> string" where
  "mock_agent_executable_name goos = (if goos = ''windows'' then ''mock-stdio-agent.exe'' else ''mock-stdio-agent'')"

definition normalize_manifest_placeholders :: "string \<Rightarrow> catalog_agent \<Rightarrow> catalog_agent" where
  "normalize_manifest_placeholders goos a =
     (let r = replace_all ''__MOCK_AGENT_EXECUTABLE__'' (mock_agent_executable_name goos)
      in a\<lparr>ca_detection := (ca_detection a)\<lparr>dt_path := r (dt_path (ca_detection a))\<rparr>,
           ca_launch := (ca_launch a)\<lparr>la_command := r (la_command (ca_launch a))\<rparr>\<rparr>)"

text \<open>A file of the embedded directory: its name, whether it is a directory, the manifest it decodes to.\<close>

type_synonym manifest_file = "string \<times> bool \<times> catalog_agent option"

fun load_embedded :: "string \<Rightarrow> manifest_file list \<Rightarrow> catalog_agent list option" where
  "load_embedded goos [] = Some []"
| "load_embedded goos ((name, is_dir, doc) # fs) =
     (if is_dir \<or> \<not> has_suffix name ''.json'' then load_embedded goos fs
      else case doc of
             None \<Rightarrow> None
           | Some a \<Rightarrow> map_option ((#) ((normalize_manifest_placeholders goos a)\<lparr>ca_source := ''embedded''\<rparr>)) (load_embedded goos fs))"

definition load_embedded_agents :: "string \<Rightarrow> manifest_file list \<Rightarrow> catalog_agent list option" where
  "load_embedded_agents goos fs = load_embedded goos (sort_key fst fs)"

section \<open>Validation\<close>

text \<open>\<^verbatim>\<open>unicode.IsControl\<close> on UTF-8: the C0 controls, DEL, and the C1 controls, which are written in two bytes.\<close>

fun contains_control_chars :: "string \<Rightarrow> bool" where
  "contains_control_chars [] = False"
| "contains_control_chars (c # cs) =
     ((of_char c :: nat) < 32 \<or> (of_char c :: nat) = 127 \<or>
      ((of_char c :: nat) = 194 \<and> (case cs of [] \<Rightarrow> False | d # _ \<Rightarrow> 128 \<le> (of_char d :: nat) \<and> (of_char d :: nat) < 160)) \<or>
      contains_control_chars cs)"

definition is_absolute_executable :: "string \<Rightarrow> bool" where
  "is_absolute_executable command = path_is_abs (trim_space command)"

definition validate_executable_name :: "string \<Rightarrow> name_error option" where
  "validate_executable_name command =
     (let c = trim_space command
      in if c = [] then Some Command_Required
         else if slash \<in> set c \<or> char_of (92::nat) \<in> set c then Some Path_Separators
         else if contains_control_chars c \<or> CHR '' '' \<in> set c \<or> char_of (9::nat) \<in> set c then Some Not_One_Name
         else None)"

definition validate_detection :: "detection_config \<Rightarrow> catalog_error option" where
  "validate_detection d =
     (if dt_mode d = ''local_file'' then (if trim_space (dt_path d) = [] then Some Local_Path_Required else None)
      else if dt_mode d = ''path_lookup'' then
        (if is_absolute_executable (dt_command d)
         then (if contains_control_chars (dt_command d) then Some Detection_Control_Chars else None)
         else map_option Unsafe_Detection (validate_executable_name (dt_command d)))
      else Some (Unsupported_Detection (dt_mode d)))"

fun validate_args :: "string list \<Rightarrow> catalog_error option" where
  "validate_args [] = None"
| "validate_args (a # as) =
     (if trim_space a = [] then Some Empty_Argument
      else if contains_control_chars a then Some Argument_Control_Chars
      else validate_args as)"

definition validate_launch :: "launch_plan \<Rightarrow> catalog_error option" where
  "validate_launch l =
     (let mode_error =
        (if la_mode l = ''process'' then (if trim_space (la_command l) = [] then Some Process_Command_Required else None)
         else if la_mode l = ''external'' then
           (if \<not> is_absolute_executable (la_command l) then map_option Unsafe_Launch (validate_executable_name (la_command l))
            else if contains_control_chars (la_command l) then Some Launch_Control_Chars else None)
         else Some (Unsupported_Mode (la_mode l)))
      in case mode_error of
           Some err \<Rightarrow> Some err
         | None \<Rightarrow>
             (case validate_args (la_args l) of
                Some err \<Rightarrow> Some err
              | None \<Rightarrow> if contains_control_chars (la_command l) then Some Launch_Control_Chars else None))"

definition validate_pair :: "detection_config \<Rightarrow> launch_plan \<Rightarrow> catalog_error option" where
  "validate_pair d l =
     (if dt_mode d = ''local_file'' \<and> la_mode l \<noteq> ''process'' then Some Local_Needs_Process
      else if dt_mode d = ''path_lookup'' \<and> la_mode l \<noteq> ''external'' then Some Path_Needs_External
      else if dt_mode d = ''local_file'' \<and> path_clean (dt_path d) \<noteq> path_clean (la_command l) then Some Path_Mismatch
      else if dt_mode d = ''path_lookup'' \<and> dt_command d \<noteq> la_command l then Some Command_Mismatch
      else None)"

text \<open>The first error of a list of checks.\<close>

fun first_error :: "'e option list \<Rightarrow> 'e option" where
  "first_error [] = None"
| "first_error (c # cs) = (case c of Some e \<Rightarrow> Some e | None \<Rightarrow> first_error cs)"

definition validate_agent :: "catalog_agent \<Rightarrow> catalog_error option" where
  "validate_agent a = first_error
     [if trim_space (ca_id a) = [] then Some Id_Required else None,
      if trim_space (ca_name a) = [] then Some Name_Required else None,
      if trim_space (ca_protocol a) = [] then Some Protocol_Required else None,
      if ca_protocol a \<noteq> ''acp'' then Some (Unsupported_Protocol (ca_protocol a)) else None,
      if ca_platforms a = [] then Some Platforms_Required else None,
      if list_ex (\<lambda>c. trim_space c = []) (ca_capabilities a) then Some Empty_Capability else None,
      if \<not> se_curated (ca_security a) then Some Not_Curated else None,
      validate_detection (ca_detection a),
      validate_launch (ca_launch a),
      validate_pair (ca_detection a) (ca_launch a)]"

section \<open>Detection\<close>

definition is_platform_supported :: "string list \<Rightarrow> string \<Rightarrow> bool" where
  "is_platform_supported supported target = list_ex (\<lambda>p. equal_fold (trim_space p) target) supported"

definition detection_path :: "host \<Rightarrow> string \<Rightarrow> string" where
  "detection_path h p = (if path_is_abs p then p else path_join [h_base_dir h, p])"

definition detect :: "host \<Rightarrow> catalog_agent \<Rightarrow> bool" where
  "detect h a =
     (is_platform_supported (ca_platforms a) (h_goos h) \<and>
      (if dt_mode (ca_detection a) = ''local_file'' then h_is_file h (detection_path h (dt_path (ca_detection a)))
       else if dt_mode (ca_detection a) = ''path_lookup'' then h_look_path h (dt_command (ca_detection a))
       else False))"

definition detect_package :: "host \<Rightarrow> string \<Rightarrow> string \<Rightarrow> bool" where
  "detect_package h runner pkg \<longleftrightarrow> trim_space pkg \<noteq> [] \<and> h_look_path h runner"

section \<open>Registry launches\<close>

definition external_plan :: "string \<Rightarrow> string list \<Rightarrow> launch_plan \<times> detection_config" where
  "external_plan command args =
     (\<lparr>la_mode = ''external'', la_command = command, la_args = args\<rparr>, \<lparr>dt_mode = ''path_lookup'', dt_command = command, dt_path = []\<rparr>)"

text \<open>\<open>resolve\<close> is the npm resolver; the catalog's refresh runs without one.\<close>

definition build_registry_launch_plan ::
  "host \<Rightarrow> (string \<Rightarrow> string list) option \<Rightarrow> registry_entry \<Rightarrow> launch_plan \<times> detection_config" where
  "build_registry_launch_plan h resolve e =
     (let named = (case re_binary e of Some b \<Rightarrow> if trim_space (bt_name b) \<noteq> [] then Some b else None | None \<Rightarrow> None);
          resolved = (case resolve of None \<Rightarrow> None
            | Some f \<Rightarrow> if re_npx e \<noteq> [] then List.find (h_look_path h) (f (re_npx e)) else None)
      in if (case named of Some b \<Rightarrow> h_look_path h (bt_name b) | None \<Rightarrow> False)
         then external_plan (bt_name (the named)) (bt_args (the named))
         else if h_look_path h (re_id e) then external_plan (re_id e) []
         else if resolved \<noteq> None then external_plan (the resolved) (re_npx_args e)
         else if detect_package h ''npm'' (re_npx e)
         then external_plan ''npm'' ([''exec'', ''--yes'', re_npx e, ''--''] @ re_npx_args e)
         else if detect_package h ''uvx'' (re_uvx e) then external_plan ''uvx'' (re_uvx e # re_uvx_args e)
         else case named of
                Some b \<Rightarrow> external_plan (bt_name b) (bt_args b)
              | None \<Rightarrow> (no_launch, no_detection))"

definition registry_info_from_entry :: "registry_entry \<Rightarrow> registry_info" where
  "registry_info_from_entry e =
     (let info = blank_info\<lparr>ri_status := ''matched'', ri_name := re_name e, ri_version := re_version e,
            ri_repository := re_repository e, ri_website := re_website e, ri_icon := re_icon e, ri_kinds := re_kinds e,
            ri_npx := re_npx e, ri_npx_args := re_npx_args e, ri_uvx := re_uvx e, ri_uvx_args := re_uvx_args e\<rparr>
      in case re_binary e of
           None \<Rightarrow> info
         | Some b \<Rightarrow> info\<lparr>ri_binary_command := bt_name b, ri_binary_path := bt_command b,
                         ri_binary_url := bt_archive b, ri_binary_args := bt_args b\<rparr>)"

definition registry_entry_to_agent :: "host \<Rightarrow> (string \<Rightarrow> string list) option \<Rightarrow> registry_entry \<Rightarrow> catalog_agent" where
  "registry_entry_to_agent h resolve e =
     (let plan = build_registry_launch_plan h resolve e;
          launchable = (la_mode (fst plan) \<noteq> [])
      in \<lparr>ca_id = re_id e, ca_source = ''registry'',
          ca_name = (if trim_space (re_name e) = [] then re_id e else trim_space (re_name e)),
          ca_icon = [], ca_quota = [], ca_protocol = ''acp'', ca_platforms = all_platforms,
          ca_detection = (if launchable then snd plan else no_detection),
          ca_launch = (if launchable then fst plan else no_launch),
          ca_capabilities = [''acp''], ca_security = \<lparr>se_curated = True, se_remote = launchable, se_fields = []\<rparr>,
          ca_registry = registry_info_from_entry e, ca_detected = False, ca_valid = False, ca_error = None,
          ca_hint = (if launchable
            then ''Detected from the ACP registry and launchable with the gateway's generic ACP runtime policy.''
            else ''Detected from the ACP registry, but no supported launch distribution is available yet.'')\<rparr>)"

definition merge_adapter :: "catalog_agent \<Rightarrow> catalog_agent \<Rightarrow> catalog_agent" where
  "merge_adapter base a =
     (let b = base\<lparr>ca_source := (if ca_source a \<noteq> [] then ca_source a else ca_source base), ca_name := ca_name a,
            ca_protocol := ca_protocol a, ca_platforms := ca_platforms a, ca_detection := ca_detection a,
            ca_launch := ca_launch a, ca_capabilities := ca_capabilities a, ca_security := ca_security a, ca_hint := ca_hint a\<rparr>
      in if ri_required (ca_registry a) \<or> ri_status (ca_registry a) \<noteq> []
         then b\<lparr>ca_registry := (ca_registry b)\<lparr>ri_required := ri_required (ca_registry a),
                  ri_status := (if ri_status (ca_registry a) \<noteq> [] then ri_status (ca_registry a) else ri_status (ca_registry b))\<rparr>\<rparr>
         else b)"

definition normalize_executable_name :: "string \<Rightarrow> string" where
  "normalize_executable_name command = trim_suffix ''.EXE'' (trim_suffix ''.exe'' (trim_space command))"

definition same_executable_name :: "string \<Rightarrow> string \<Rightarrow> bool" where
  "same_executable_name l r \<longleftrightarrow> normalize_executable_name l = normalize_executable_name r \<and> normalize_executable_name l \<noteq> []"

definition synthesize_registry_launch :: "catalog_agent \<Rightarrow> launch_plan \<times> detection_config \<Rightarrow> catalog_agent" where
  "synthesize_registry_launch a plan =
     (let use = a\<lparr>ca_detection := snd plan, ca_launch := fst plan\<rparr>
      in if la_mode (ca_launch a) \<noteq> ''external'' \<or> la_mode (fst plan) = [] then a
         else if normalize_executable_name (la_command (fst plan)) \<in> {''npm'', ''uvx''} then use
         else if same_executable_name (la_command (ca_launch a)) (la_command (fst plan)) then use
         else a)"

text \<open>The registry as the catalog sees it: absent, failing, or a snapshot's entries.\<close>

datatype registry_view = No_Registry | Registry_Failed | Registry_Has "(string \<times> registry_entry) list"

definition apply_registry_info ::
  "host \<Rightarrow> (string \<Rightarrow> string list) option \<Rightarrow> catalog_agent \<Rightarrow> registry_view \<Rightarrow> catalog_agent" where
  "apply_registry_info h resolve a view =
     (let base = ca_registry a
      in if \<not> ri_required base then a\<lparr>ca_registry := base\<lparr>ri_status := ''not_required''\<rparr>\<rparr>
         else case view of
                Registry_Has entries \<Rightarrow>
                  (case map_of entries (ca_id a) of
                     None \<Rightarrow> a\<lparr>ca_registry := base\<lparr>ri_status := ''missing''\<rparr>\<rparr>
                   | Some e \<Rightarrow>
                       (synthesize_registry_launch a (build_registry_launch_plan h resolve e))
                         \<lparr>ca_registry := (registry_info_from_entry e)\<lparr>ri_required := ri_required base\<rparr>\<rparr>)
              | _ \<Rightarrow> a\<lparr>ca_registry := base\<lparr>ri_status := ''unavailable''\<rparr>\<rparr>)"

section \<open>The merged list\<close>

definition quota_provider_of :: "string \<Rightarrow> string" where
  "quota_provider_of i =
     (case map_of [(''amp-acp'', ''amp''), (''antigravity-acp'', ''antigravity''), (''claude-acp'', ''claude''),
        (''codex-acp'', ''codex''), (''cursor'', ''cursor''), (''factory-droid'', ''factory''), (''gemini'', ''gemini''),
        (''github-copilot-cli'', ''copilot''), (''kimi'', ''kimi'')] i of None \<Rightarrow> [] | Some p \<Rightarrow> p)"

text \<open>\<^verbatim>\<open>bundledLogo\<close>; \<open>logos\<close> holds the data URLs of the bundled images and the default one.\<close>

definition bundled_logo :: "(string \<rightharpoonup> string) \<times> string \<Rightarrow> string \<Rightarrow> string" where
  "bundled_logo logos i =
     (let k = trim_prefix ''custom-'' (to_lower i);
          name = (if k = ''commandcode'' then ''command-code'' else if k = ''omp'' then ''oh-my-pi''
            else if k = ''dsh'' then ''deepseek-harness'' else if k = ''hermes-agent'' then ''hermes'' else k)
      in case fst logos name of None \<Rightarrow> snd logos | Some l \<Rightarrow> if l \<noteq> [] then l else snd logos)"

definition enrich_agent :: "(string \<rightharpoonup> string) \<times> string \<Rightarrow> catalog_agent \<Rightarrow> catalog_agent" where
  "enrich_agent logos a =
     a\<lparr>ca_quota := (if ca_source a \<noteq> ''custom'' then quota_provider_of (ca_id a) else ca_quota a),
       ca_icon := (if ca_icon a = [] \<and> ri_icon (ca_registry a) = [] then bundled_logo logos (ca_id a) else ca_icon a)\<rparr>"

text \<open>A registry entry, merged with the bundled manifest of the same id.\<close>

definition registry_row :: "host \<Rightarrow> catalog_agent list \<Rightarrow> (string \<times> registry_entry) list \<Rightarrow> registry_entry \<Rightarrow> catalog_agent" where
  "registry_row h adapters entries e =
     (let from_registry = registry_entry_to_agent h None e;
          agent = (case map_of (rev (map (\<lambda>a. (ca_id a, a)) adapters)) (re_id e) of
            None \<Rightarrow> from_registry\<lparr>ca_valid := True\<rparr>
          | Some ad \<Rightarrow>
              (case validate_agent ad of
                 Some err \<Rightarrow> from_registry\<lparr>ca_valid := False, ca_error := Some err\<rparr>
               | None \<Rightarrow> apply_registry_info h None (merge_adapter from_registry ad) (Registry_Has entries)))
      in agent\<lparr>ca_detected := detect h agent\<rparr>)"

definition adapter_row :: "host \<Rightarrow> registry_view \<Rightarrow> catalog_agent \<Rightarrow> catalog_agent" where
  "adapter_row h view ad =
     (let agent = apply_registry_info h None ad view;
          err = (case validate_agent ad of
            Some e \<Rightarrow> Some e
          | None \<Rightarrow> if ri_required (ca_registry agent) \<and> ri_status (ca_registry agent) = ''missing'' then Some Not_In_Registry else None)
      in agent\<lparr>ca_valid := (err = None), ca_error := err, ca_detected := (err = None \<and> detect h agent)\<rparr>)"

definition custom_row :: "host \<Rightarrow> custom_agent \<Rightarrow> catalog_agent" where
  "custom_row h c =
     (let a = custom_to_agent c
      in case validate_agent a of
           Some err \<Rightarrow> a\<lparr>ca_valid := False, ca_error := Some err, ca_detected := False\<rparr>
         | None \<Rightarrow> a\<lparr>ca_valid := True, ca_detected := detect h a\<rparr>)"

text \<open>A custom agent replaces the first row of its id, or comes last.\<close>

fun place_custom :: "catalog_agent \<Rightarrow> catalog_agent list \<Rightarrow> catalog_agent list" where
  "place_custom a [] = [a]"
| "place_custom a (v # vs) = (if ca_id v = ca_id a then a # vs else v # place_custom a vs)"

definition visible_agents ::
  "host \<Rightarrow> (string \<rightharpoonup> string) \<times> string \<Rightarrow> registry_view \<Rightarrow> catalog_agent list \<Rightarrow> custom_agent list \<Rightarrow> catalog_agent list" where
  "visible_agents h logos view adapters customs =
     (let entries = (case view of Registry_Has es \<Rightarrow> es | _ \<Rightarrow> []);
          from_registry = map (registry_row h adapters entries \<circ> snd) (sort_key fst entries);
          from_adapters = map (adapter_row h view) (filter (\<lambda>ad. ca_id ad \<notin> set (map fst entries)) adapters);
          placed = fold (\<lambda>c. place_custom (custom_row h c)) customs (from_registry @ from_adapters)
      in sort_key ca_id (map (enrich_agent logos) placed))"

section \<open>The service\<close>

record catalog =
  ct_adapters :: "catalog_agent list"
  ct_agents :: "catalog_agent list"
  ct_refreshed :: gtime
  ct_npm_bins :: "string \<rightharpoonup> string list"
  ct_resolver :: "(string \<Rightarrow> string list option) option"

text \<open>What a refresh reads: the host, the registry, the stored custom agents, the clock.\<close>

record surroundings =
  su_host :: host
  su_logos :: "(string \<rightharpoonup> string) \<times> string"
  su_registry :: registry_view
  su_customs :: "custom_agent list option"
  su_now :: gtime

definition catalog_refresh_interval :: duration where "catalog_refresh_interval = 30 * second"

definition refresh_locked :: "surroundings \<Rightarrow> catalog \<Rightarrow> catalog" where
  "refresh_locked su ct =
     ct\<lparr>ct_agents := visible_agents (su_host su) (su_logos su) (su_registry su) (ct_adapters ct)
          (case su_customs su of None \<Rightarrow> [] | Some cs \<Rightarrow> cs),
        ct_refreshed := su_now su\<rparr>"

definition catalog_stale :: "gtime \<Rightarrow> catalog \<Rightarrow> bool" where
  "catalog_stale now ct \<longleftrightarrow> now - ct_refreshed ct \<ge> catalog_refresh_interval \<or> ct_refreshed ct = zero_time"

definition catalog_fresh :: "surroundings \<Rightarrow> catalog \<Rightarrow> catalog" where
  "catalog_fresh su ct = (if catalog_stale (su_now su) ct then refresh_locked su ct else ct)"

definition new_catalog :: "surroundings \<Rightarrow> catalog_agent list \<Rightarrow> catalog" where
  "new_catalog su adapters = refresh_locked su
     \<lparr>ct_adapters = adapters, ct_agents = [], ct_refreshed = zero_time, ct_npm_bins = Map.empty, ct_resolver = None\<rparr>"

definition invalidate_catalog :: "catalog \<Rightarrow> catalog" where
  "invalidate_catalog ct = ct\<lparr>ct_refreshed := zero_time\<rparr>"

definition set_npm_resolver :: "(string \<Rightarrow> string list option) option \<Rightarrow> catalog \<Rightarrow> catalog" where
  "set_npm_resolver f ct = ct\<lparr>ct_resolver := f, ct_npm_bins := Map.empty, ct_refreshed := zero_time\<rparr>"

definition is_custom_id :: "surroundings \<Rightarrow> string \<Rightarrow> bool" where
  "is_custom_id su i = (case su_customs su of None \<Rightarrow> False | Some cs \<Rightarrow> list_ex (\<lambda>c. cu_id c = i) cs)"

definition catalog_list :: "surroundings \<Rightarrow> catalog \<Rightarrow> catalog_agent list \<times> catalog" where
  "catalog_list su ct = (let ct' = catalog_fresh su ct in (ct_agents ct', ct'))"

text \<open>\<^verbatim>\<open>npmBinaryNames\<close>: a failed lookup (\<^verbatim>\<open>nil\<close>) is not remembered.\<close>

definition npm_binary_names :: "string \<Rightarrow> (string \<Rightarrow> string list option) \<Rightarrow> catalog \<Rightarrow> string list \<times> catalog" where
  "npm_binary_names pkg resolve ct =
     (case ct_npm_bins ct pkg of
        Some names \<Rightarrow> (names, ct)
      | None \<Rightarrow>
          (case resolve pkg of
             None \<Rightarrow> ([], ct)
           | Some names \<Rightarrow> (names, ct\<lparr>ct_npm_bins := (ct_npm_bins ct)(pkg \<mapsto> names)\<rparr>)))"

definition catalog_get :: "surroundings \<Rightarrow> string \<Rightarrow> catalog \<Rightarrow> catalog_agent option \<times> catalog" where
  "catalog_get su i ct =
     (let ct1 = catalog_fresh su ct
      in case List.find (\<lambda>a. ca_id a = i) (ct_agents ct1) of
           None \<Rightarrow> (None, ct1)
         | Some a \<Rightarrow>
             if ca_id a = [] then (None, ct1)
             else
               (case ct_resolver ct1 of
                  None \<Rightarrow> (Some a, ct1)
                | Some f \<Rightarrow>
                    if la_command (ca_launch a) = ''npm'' \<and> ri_npx (ca_registry a) \<noteq> []
                    then (case npm_binary_names (ri_npx (ca_registry a)) f ct1 of
                            (names, ct2) \<Rightarrow>
                              (case List.find (h_look_path (su_host su)) names of
                                 None \<Rightarrow> (Some a, ct2)
                               | Some n \<Rightarrow>
                                   (Some (a\<lparr>ca_launch := (ca_launch a)\<lparr>la_command := n, la_args := ri_npx_args (ca_registry a)\<rparr>,
                                            ca_detection := \<lparr>dt_mode = ''path_lookup'', dt_command = n, dt_path = []\<rparr>\<rparr>), ct2)))
                    else (Some a, ct1)))"

end
