(* ===== verification/Catalog_Proofs.thy ===== *)
theory Catalog_Proofs
  imports Catalog
begin

text \<open>
  What the catalog promises: one row per id, in order; an agent that is reported detected can be launched as it was
  detected; a custom agent passes validation before it is offered and shadows what had its id; ids of custom agents
  have one shape.
\<close>

section \<open>Rows keep their ids\<close>

named_theorems row_id "how the steps of a refresh treat an agent's id"

lemma synthesize_id [row_id]: "ca_id (synthesize_registry_launch a plan) = ca_id a"
  by (simp add: synthesize_registry_launch_def Let_def)

lemma apply_registry_id [row_id]: "ca_id (apply_registry_info h r a view) = ca_id a"
  by (simp add: apply_registry_info_def Let_def synthesize_id split: registry_view.splits option.splits)

lemma merge_adapter_id [row_id]: "ca_id (merge_adapter b a) = ca_id b"
  by (simp add: merge_adapter_def Let_def)

lemma registry_entry_id [row_id]: "ca_id (registry_entry_to_agent h r e) = re_id e"
  by (simp add: registry_entry_to_agent_def Let_def)

lemma registry_row_id [row_id]: "ca_id (registry_row h ads es e) = re_id e"
  by (simp add: registry_row_def Let_def row_id split: option.splits)

lemma adapter_row_id [row_id]: "ca_id (adapter_row h view ad) = ca_id ad"
  by (simp add: adapter_row_def Let_def row_id)

lemma custom_row_id [row_id]: "ca_id (custom_row h c) = cu_id c"
  by (simp add: custom_row_def custom_to_agent_def Let_def split: option.splits)

lemma enrich_id [row_id]: "ca_id (enrich_agent logos a) = ca_id a"
  by (simp add: enrich_agent_def)

lemma place_custom_ids: "map ca_id (place_custom a vs) = (if ca_id a \<in> set (map ca_id vs) then map ca_id vs else map ca_id vs @ [ca_id a])"
  by (induction vs) auto

lemma place_custom_set: "set (place_custom a vs) \<subseteq> insert a (set vs)"
  by (induction vs) auto

lemma place_custom_mem: "a \<in> set (place_custom a vs)"
  by (induction vs) auto

lemma place_custom_keeps: "v \<in> set vs \<Longrightarrow> ca_id v \<noteq> ca_id a \<Longrightarrow> v \<in> set (place_custom a vs)"
  by (induction vs) auto

lemma place_customs_distinct: "distinct (map ca_id vs) \<Longrightarrow> distinct (map ca_id (fold (\<lambda>c. place_custom (custom_row h c)) cs vs))"
  by (induction cs arbitrary: vs) (simp_all add: place_custom_ids)

lemma place_customs_set: "set (fold (\<lambda>c. place_custom (custom_row h c)) cs vs) \<subseteq> set vs \<union> custom_row h ` set cs"
proof (induction cs arbitrary: vs)
  case (Cons c cs)
  then show ?case using Cons.IH [of "place_custom (custom_row h c) vs"] place_custom_set [of "custom_row h c" vs] by auto
qed simp

lemma place_customs_keep:
  "v \<in> set vs \<Longrightarrow> ca_id v \<notin> cu_id ` set cs \<Longrightarrow> v \<in> set (fold (\<lambda>c. place_custom (custom_row h c)) cs vs)"
proof (induction cs arbitrary: vs)
  case (Cons c cs)
  then show ?case using Cons.IH [of "place_custom (custom_row h c) vs"] place_custom_keeps [of v vs "custom_row h c"] by (simp add: row_id)
qed simp

lemma place_customs_mem:
  assumes "c \<in> set cs" "distinct (map cu_id cs)"
  shows "custom_row h c \<in> set (fold (\<lambda>c. place_custom (custom_row h c)) cs vs)"
  using assms
proof (induction cs arbitrary: vs)
  case (Cons d cs)
  show ?case
  proof (cases "c = d")
    case True
    then have "ca_id (custom_row h c) \<notin> cu_id ` set cs" using Cons.prems by (auto simp: row_id)
    then show ?thesis using True place_customs_keep [OF place_custom_mem] by simp
  next
    case False
    then show ?thesis using Cons by auto
  qed
qed simp

text \<open>What the registry client and the embedded manifests guarantee of the lists a refresh merges.\<close>

definition registry_view_ok :: "registry_view \<Rightarrow> bool" where
  "registry_view_ok view = (case view of Registry_Has es \<Rightarrow> keys_distinct es \<and> list_all (\<lambda>(k, e). re_id e = k) es | _ \<Rightarrow> True)"

lemma sort_key_distinct_strict:
  assumes "distinct (map f xs)"
  shows "sorted_wrt (<) (map f (sort_key f xs))"
proof -
  have "distinct (map f (sort_key f xs))"
    using assms by (metis distinct_map distinct_sort set_sort)
  then show ?thesis using sorted_sort_key [of f xs] strict_sorted_iff by blast
qed

lemma visible_sorted:
  assumes "registry_view_ok view" "distinct (map ca_id adapters)"
  shows "sorted_wrt (<) (map ca_id (visible_agents h logos view adapters customs))"
proof -
  define entries where "entries = (case view of Registry_Has es \<Rightarrow> es | _ \<Rightarrow> [])"
  have ok: "keys_distinct entries" "list_all (\<lambda>(k, e). re_id e = k) entries"
    using assms(1) by (auto simp: entries_def registry_view_ok_def split: registry_view.splits)
  let ?reg = "map (registry_row h adapters entries \<circ> snd) (sort_key fst entries)"
  let ?ada = "map (adapter_row h view) (filter (\<lambda>ad. ca_id ad \<notin> set (map fst entries)) adapters)"
  have reg_ids: "map ca_id ?reg = map fst (sort_key fst entries)"
    using ok(2) by (auto simp: row_id list_all_iff)
  have "distinct (map ca_id ?reg)"
    unfolding reg_ids using ok(1) unfolding keys_distinct_def by (metis distinct_map distinct_sort set_sort)
  moreover have ada_ids: "map ca_id ?ada = filter (\<lambda>i. i \<notin> set (map fst entries)) (map ca_id adapters)"
    by (simp add: row_id comp_def filter_map)
  moreover have "distinct (map ca_id ?ada)" unfolding ada_ids using assms(2) by simp
  moreover have "set (map ca_id ?reg) \<inter> set (map ca_id ?ada) = {}"
    unfolding reg_ids ada_ids by auto
  ultimately have "distinct (map ca_id (?reg @ ?ada))" by (simp only: map_append distinct_append)
  then have "distinct (map ca_id (map (enrich_agent logos) (fold (\<lambda>c. place_custom (custom_row h c)) customs (?reg @ ?ada))))"
    using place_customs_distinct [of "?reg @ ?ada"] by (simp add: row_id comp_def)
  then show ?thesis
    unfolding visible_agents_def Let_def entries_def [symmetric] by (rule sort_key_distinct_strict)
qed

lemma visible_members:
  assumes "a \<in> set (visible_agents h logos view adapters customs)"
  obtains (registry) entries e where "view = Registry_Has entries" "e \<in> snd ` set entries" "a = enrich_agent logos (registry_row h adapters entries e)"
  | (adapter) ad where "ad \<in> set adapters" "a = enrich_agent logos (adapter_row h view ad)"
  | (custom) c where "c \<in> set customs" "a = enrich_agent logos (custom_row h c)"
proof -
  define entries where "entries = (case view of Registry_Has es \<Rightarrow> es | _ \<Rightarrow> [])"
  obtain b where b: "a = enrich_agent logos b"
    "b \<in> set (fold (\<lambda>c. place_custom (custom_row h c)) customs
      (map (registry_row h adapters entries \<circ> snd) (sort_key fst entries) @
       map (adapter_row h view) (filter (\<lambda>ad. ca_id ad \<notin> set (map fst entries)) adapters)))"
    using assms unfolding visible_agents_def Let_def entries_def by auto
  then consider "b \<in> (registry_row h adapters entries \<circ> snd) ` set entries" | "b \<in> adapter_row h view ` set adapters" | "b \<in> custom_row h ` set customs"
    using place_customs_set [of h customs] by fastforce
  then show thesis
  proof cases
    case 1
    then obtain x where x: "x \<in> set entries" "b = registry_row h adapters entries (snd x)" by auto
    then have "view = Registry_Has entries" unfolding entries_def by (cases view) auto
    then show thesis using x b(1) registry by blast
  next
    case 2
    then show thesis using b(1) adapter by blast
  next
    case 3
    then show thesis using b(1) custom by blast
  qed
qed

lemma strict_distinct: "sorted_wrt (<) (xs :: 'a::linorder list) \<Longrightarrow> distinct xs"
  by (simp add: strict_sorted_iff)

section \<open>Detected means launchable\<close>

definition launch_paired :: "catalog_agent \<Rightarrow> bool" where
  "launch_paired a \<longleftrightarrow>
     (dt_mode (ca_detection a) = ''path_lookup'' \<and> la_mode (ca_launch a) = ''external'' \<and> dt_command (ca_detection a) = la_command (ca_launch a)) \<or>
     (dt_mode (ca_detection a) = ''local_file'' \<and> la_mode (ca_launch a) = ''process'' \<and>
        path_clean (dt_path (ca_detection a)) = path_clean (la_command (ca_launch a))) \<or>
     dt_mode (ca_detection a) \<notin> {''path_lookup'', ''local_file''}"

lemma validate_agent_ok:
  assumes "validate_agent a = None"
  shows "validate_detection (ca_detection a) = None" "validate_launch (ca_launch a) = None" "validate_pair (ca_detection a) (ca_launch a) = None"
  using assms by (auto simp: validate_agent_def split: option.splits if_splits)

lemma validated_paired: "validate_agent a = None \<Longrightarrow> launch_paired a"
  using validate_agent_ok [of a] by (auto simp: launch_paired_def validate_pair_def validate_detection_def split: if_splits)

lemma plan_paired:
  "la_mode (fst (build_registry_launch_plan h r e)) = [] \<or>
   (\<exists>cmd args. build_registry_launch_plan h r e = external_plan cmd args)"
  unfolding build_registry_launch_plan_def Let_def by (auto simp: no_launch_def split: option.splits)

lemma synthesize_paired: "launch_paired a \<Longrightarrow> launch_paired (synthesize_registry_launch a (build_registry_launch_plan h r e))"
  using plan_paired [of h r e]
  by (auto simp: synthesize_registry_launch_def Let_def launch_paired_def external_plan_def)

lemma apply_registry_paired: "launch_paired a \<Longrightarrow> launch_paired (apply_registry_info h r a view)"
  using synthesize_paired [of a]
  by (auto simp: apply_registry_info_def Let_def launch_paired_def split: registry_view.splits option.splits)

lemma entry_paired: "launch_paired (registry_entry_to_agent h r e)"
  using plan_paired [of h r e]
  by (auto simp: registry_entry_to_agent_def Let_def launch_paired_def external_plan_def no_detection_def)

lemma merge_paired: "launch_paired a \<Longrightarrow> launch_paired (merge_adapter b a)"
  by (simp add: launch_paired_def merge_adapter_def Let_def)

lemma detect_upd [simp]: "detect h (a\<lparr>ca_detected := d\<rparr>) = detect h a" "detect h (a\<lparr>ca_valid := v\<rparr>) = detect h a"
  "detect h (a\<lparr>ca_error := x\<rparr>) = detect h a"
  by (simp_all add: detect_def)

lemma paired_upd [simp]: "launch_paired (a\<lparr>ca_detected := d\<rparr>) = launch_paired a" "launch_paired (a\<lparr>ca_valid := v\<rparr>) = launch_paired a"
  "launch_paired (a\<lparr>ca_error := x\<rparr>) = launch_paired a" "launch_paired (enrich_agent logos a) = launch_paired a" "detect h (enrich_agent logos a) = detect h a"
  "ca_detected (enrich_agent logos a) = ca_detected a" "validate_agent (enrich_agent logos a) = validate_agent a"
  by (simp_all add: launch_paired_def enrich_agent_def detect_def validate_agent_def)

lemma row_detected:
  assumes "a \<in> set (visible_agents h logos view adapters customs)" "ca_detected a"
  shows "detect h a \<and> launch_paired a"
  using assms(1)
proof (cases rule: visible_members)
  case (registry entries e)
  let ?b = "registry_row h adapters entries e"
  have "launch_paired ?b"
  proof -
    have "launch_paired (apply_registry_info h None (merge_adapter (registry_entry_to_agent h None e) ad) (Registry_Has entries))"
      if "validate_agent ad = None" for ad
      by (rule apply_registry_paired, rule merge_paired, rule validated_paired [OF that])
    then show ?thesis unfolding registry_row_def Let_def by (auto simp: entry_paired split: option.splits)
  qed
  moreover have "ca_detected ?b = detect h ?b" by (simp add: registry_row_def Let_def)
  ultimately show ?thesis using registry assms(2) by simp
next
  case (adapter ad)
  let ?b = "adapter_row h view ad"
  have b: "validate_agent ad = None" "detect h (apply_registry_info h None ad view)"
    using assms(2) unfolding adapter by (auto simp: adapter_row_def Let_def split: option.splits if_splits)
  then have "launch_paired ?b" by (simp add: adapter_row_def Let_def apply_registry_paired validated_paired)
  moreover have "detect h ?b" using b(2) by (simp add: adapter_row_def Let_def)
  ultimately show ?thesis using adapter by simp
next
  case (custom c)
  let ?b = "custom_row h c"
  have v: "validate_agent (custom_to_agent c) = None"
    using assms(2) unfolding custom by (auto simp: custom_row_def Let_def split: option.splits)
  then have "?b = (custom_to_agent c)\<lparr>ca_valid := True, ca_detected := detect h (custom_to_agent c)\<rparr>"
    by (simp add: custom_row_def Let_def)
  moreover have "ca_detected ?b" using assms(2) custom by simp
  ultimately show ?thesis using validated_paired [OF v] custom by simp
qed

text \<open>
  C34: An agent listed as detected can be launched as it was detected (\<^verbatim>\<open>refreshLocked\<close> in \<^verbatim>\<open>internal/catalog/catalog.go\<close>).
  Whichever of the three sources it comes from and however they were merged, the probe that succeeded was for the
  executable the launch names: the command is on the path and is the launch command, or the file exists and is the
  launch path; and its platform list names this operating system.
\<close>

theorem detected_agent_launchable:
  assumes "a \<in> set (visible_agents h logos view adapters customs)" "ca_detected a"
  shows "is_platform_supported (ca_platforms a) (h_goos h) \<and>
    ((la_mode (ca_launch a) = ''external'' \<and> dt_command (ca_detection a) = la_command (ca_launch a) \<and> h_look_path h (la_command (ca_launch a))) \<or>
     (la_mode (ca_launch a) = ''process'' \<and> path_clean (dt_path (ca_detection a)) = path_clean (la_command (ca_launch a)) \<and>
      h_is_file h (detection_path h (dt_path (ca_detection a)))))"
  using row_detected [OF assms] by (auto simp: detect_def launch_paired_def split: if_splits)

text \<open>
  The catalog has one row per id, in increasing order, for every registry answer, every set of bundled manifests
  with distinct ids and every list of custom agents, also when ids collide across the three sources.
\<close>

theorem catalog_rows_unique:
  assumes "registry_view_ok (su_registry su)" "distinct (map ca_id (ct_adapters ct))"
  shows "sorted_wrt (<) (map ca_id (ct_agents (refresh_locked su ct))) \<and> distinct (map ca_id (ct_agents (refresh_locked su ct)))"
  using visible_sorted [OF assms] by (simp add: refresh_locked_def strict_distinct)

section \<open>Custom agents in the catalog\<close>

lemma custom_row_listed:
  assumes "c \<in> set customs" "distinct (map cu_id customs)"
  shows "enrich_agent logos (custom_row h c) \<in> set (visible_agents h logos view adapters customs)"
  using place_customs_mem [OF assms] by (simp add: visible_agents_def Let_def)

lemma find_by_id:
  "distinct (map ca_id xs) \<Longrightarrow> a \<in> set xs \<Longrightarrow> List.find (\<lambda>b. ca_id b = ca_id a) xs = Some a"
  by (induction xs) (auto simp: image_iff)

lemma find_no_id: "i \<notin> ca_id ` set xs \<Longrightarrow> List.find (\<lambda>b. ca_id b = i) xs = None"
  by (induction xs) auto

text \<open>A custom agent is what \<^verbatim>\<open>Get\<close> answers for its id: it shadows the other sources and npm is never resolved for it.\<close>

lemma catalog_get_custom:
  assumes "su_customs su = Some customs" "c \<in> set customs" "distinct (map cu_id customs)" "cu_id c \<noteq> []"
    and "registry_view_ok (su_registry su)" "distinct (map ca_id (ct_adapters ct))" "catalog_stale (su_now su) ct"
  shows "fst (catalog_get su (cu_id c) ct) = Some (enrich_agent (su_logos su) (custom_row (su_host su) c))"
proof -
  let ?a = "enrich_agent (su_logos su) (custom_row (su_host su) c)"
  have d: "distinct (map ca_id (ct_agents (refresh_locked su ct)))"
    using strict_distinct [OF visible_sorted [OF assms(5,6)]] by (simp add: refresh_locked_def)
  have m: "?a \<in> set (ct_agents (refresh_locked su ct))"
    using custom_row_listed [OF assms(2,3)] assms(1) by (simp add: refresh_locked_def)
  have i: "ca_id ?a = cu_id c" by (simp add: row_id)
  have f: "List.find (\<lambda>b. ca_id b = cu_id c) (ct_agents (refresh_locked su ct)) = Some ?a"
    using find_by_id [OF d m] unfolding i .
  have "ri_npx (ca_registry ?a) = []"
    by (simp add: enrich_agent_def custom_row_def custom_to_agent_def blank_info_def Let_def split: option.splits)
  then show ?thesis using assms(4,7) f i by (auto simp: catalog_get_def catalog_fresh_def Let_def split: option.splits)
qed

section \<open>Slugs\<close>

text \<open>Lower-case letters, digits and single dashes between them, at most 48 bytes.\<close>

definition slug_shape :: "string \<Rightarrow> bool" where
  "slug_shape s \<longleftrightarrow> s \<noteq> [] \<and> length s \<le> 48 \<and> list_all (\<lambda>c. slug_char c \<or> c = CHR ''-'') s \<and>
     hd s \<noteq> CHR ''-'' \<and> last s \<noteq> CHR ''-'' \<and> successively (\<lambda>a b. a \<noteq> CHR ''-'' \<or> b \<noteq> CHR ''-'') s"

lemma trim_chars_infix: "\<exists>pre suf. s = pre @ trim_chars cs s @ suf"
proof -
  let ?P = "\<lambda>c. c \<in> cs" and ?t = "dropWhile (\<lambda>c. c \<in> cs) s"
  have "s = takeWhile ?P s @ ?t" by simp
  moreover have "rev ?t = takeWhile ?P (rev ?t) @ dropWhile ?P (rev ?t)" by simp
  then have "?t = trim_chars cs s @ rev (takeWhile ?P (rev ?t))"
    unfolding trim_chars_def by (metis rev_append rev_rev_ident)
  ultimately show ?thesis by metis
qed

lemma trim_chars_ends:
  assumes "trim_chars cs s \<noteq> []"
  shows "hd (trim_chars cs s) \<notin> cs" "last (trim_chars cs s) \<notin> cs"
proof -
  let ?P = "\<lambda>c. c \<in> cs" and ?t = "dropWhile (\<lambda>c. c \<in> cs) s"
  have ne: "dropWhile ?P (rev ?t) \<noteq> []" using assms by (simp add: trim_chars_def)
  have "last (trim_chars cs s) = hd (dropWhile ?P (rev ?t))" using ne by (simp add: trim_chars_def last_rev)
  then show "last (trim_chars cs s) \<notin> cs" using hd_dropWhile [OF ne] by simp
  have "rev ?t = takeWhile ?P (rev ?t) @ dropWhile ?P (rev ?t)" by simp
  then have t: "?t = trim_chars cs s @ rev (takeWhile ?P (rev ?t))"
    unfolding trim_chars_def by (metis rev_append rev_rev_ident)
  then have "?t \<noteq> []" by (metis Nil_is_append_conv assms)
  have "hd (trim_chars cs s) = hd ?t" using t assms by (metis hd_append2)
  then show "hd (trim_chars cs s) \<notin> cs" using hd_dropWhile [OF \<open>?t \<noteq> []\<close>] by simp
qed

lemma trim_space_id: "list_all (\<lambda>c. \<not> is_space c) s \<Longrightarrow> trim_space s = s"
proof -
  assume a: "list_all (\<lambda>c. \<not> is_space c) s"
  have "dropWhile is_space xs = xs" if "list_all (\<lambda>c. \<not> is_space c) xs" for xs using that by (cases xs) auto
  moreover have "list_all (\<lambda>c. \<not> is_space c) (rev s)" using a by (simp add: list_all_iff)
  ultimately show ?thesis using a by (simp add: trim_space_def)
qed

definition slug_like :: "string \<Rightarrow> bool" where
  "slug_like s \<longleftrightarrow> list_all (\<lambda>c. slug_char c \<or> c = CHR ''-'') s \<and> successively (\<lambda>a b. a \<noteq> CHR ''-'' \<or> b \<noteq> CHR ''-'') s"

lemma slug_like_infix: "slug_like (pre @ s @ suf) \<Longrightarrow> slug_like s"
  by (auto simp: slug_like_def successively_append_iff)

lemma slug_like_trim: "slug_like s \<Longrightarrow> slug_like (trim_chars cs s)"
  using trim_chars_infix [of s cs] slug_like_infix by metis

lemma slug_like_take: "slug_like s \<Longrightarrow> slug_like (take n s)"
  using slug_like_infix [of "[]" "take n s" "drop n s"] by simp

lemma slug_like_no_space: "slug_like s \<Longrightarrow> trim_space s = s"
  by (rule trim_space_id) (auto simp: slug_like_def list_all_iff slug_char_def is_space_def Let_def)

lemma slug_runs_like: "slug_like (slug_runs b s) \<and> (b \<longrightarrow> slug_runs b s = [] \<or> hd (slug_runs b s) \<noteq> CHR ''-'')"
proof (induction b s rule: slug_runs.induct)
  case (2 prev_dash c cs)
  have "slug_char c \<Longrightarrow> c \<noteq> CHR ''-''" by (auto simp: slug_char_def Let_def)
  with 2 show ?case by (auto simp: slug_like_def successively_Cons)
qed (simp add: slug_like_def)

lemma slug_shapeI:
  assumes "slug_like s" "trim_chars {CHR ''-''} s \<noteq> []" "length (trim_chars {CHR ''-''} s) \<le> 48"
  shows "slug_shape (trim_chars {CHR ''-''} s)"
  using slug_like_trim [OF assms(1)] trim_chars_ends [OF assms(2)] assms(2,3) by (auto simp: slug_shape_def slug_like_def)

text \<open>
  The id of a custom agent (\<^verbatim>\<open>SlugCustomID\<close>) has one shape for every display name: \<^verbatim>\<open>custom-\<close> and one to 48 lower-case
  letters, digits and single inner dashes, so it is safe in a URL path and in a file name, and no name is without an id.
\<close>

theorem custom_id_shape: "\<exists>s. slug_custom_id name = ''custom-'' @ s \<and> slug_shape s"
proof -
  let ?r = "slug_runs True (to_lower (trim_space name))"
  let ?s = "trim_chars {CHR ''-''} (trim_space ?r)"
  have like: "slug_like (trim_space ?r)" using slug_runs_like [of True] slug_like_no_space by simp
  have short: "length (trim_chars cs xs) \<le> length xs" for cs and xs :: string
    using trim_chars_infix [of xs cs] by (metis le_add1 le_add2 length_append order_trans)
  have agent: "slug_shape ''agent''" by code_simp
  show ?thesis
  proof (cases "length ?s > 48")
    case True
    let ?t = "trim_chars {CHR ''-''} (take 48 ?s)"
    have "length ?t \<le> 48" using short [of "{CHR ''-''}" "take 48 ?s"] by simp
    then have "?t = [] \<or> slug_shape ?t" using slug_shapeI [OF slug_like_take [OF slug_like_trim [OF like]]] by blast
    then show ?thesis using True agent by (auto simp: slug_custom_id_def Let_def)
  next
    case False
    then have "?s = [] \<or> slug_shape ?s" using slug_shapeI [OF like] by auto
    then show ?thesis using False agent by (auto simp: slug_custom_id_def Let_def)
  qed
qed

section \<open>Where the catalog does not do what it says\<close>

named_theorems row_valid "how the steps of a refresh treat the verdict on an agent"

lemma synthesize_valid [row_valid]:
  "ca_valid (synthesize_registry_launch a plan) = ca_valid a" "ca_error (synthesize_registry_launch a plan) = ca_error a"
  by (simp_all add: synthesize_registry_launch_def Let_def)

lemma apply_registry_valid [row_valid]:
  "ca_valid (apply_registry_info h r a view) = ca_valid a" "ca_error (apply_registry_info h r a view) = ca_error a"
  by (simp_all add: apply_registry_info_def Let_def synthesize_valid split: registry_view.splits option.splits)

lemma merge_adapter_valid [row_valid]: "ca_valid (merge_adapter b a) = ca_valid b" "ca_error (merge_adapter b a) = ca_error b"
  by (simp_all add: merge_adapter_def Let_def)

lemma registry_entry_valid [row_valid]: "\<not> ca_valid (registry_entry_to_agent h r e)" "ca_error (registry_entry_to_agent h r e) = None"
  by (simp_all add: registry_entry_to_agent_def Let_def)

text \<open>
  A bundled manifest that is valid and also in the registry is listed as an invalid one without an error: the merged
  copy starts from the registry's row, on which \<^verbatim>\<open>ManifestValid\<close> was never set.
\<close>

theorem valid_manifest_listed_invalid:
  assumes "map_of (rev (map (\<lambda>a. (ca_id a, a)) adapters)) (re_id e) = Some ad" "validate_agent ad = None"
  shows "\<not> ca_valid (registry_row h adapters entries e) \<and> ca_error (registry_row h adapters entries e) = None"
  using assms by (simp add: registry_row_def Let_def row_valid)

definition some_entry :: registry_entry where
  "some_entry = \<lparr>re_id = ''tool'', re_name = [], re_version = [], re_repository = [], re_website = [], re_icon = [], re_kinds = [],
     re_targets = Map.empty, re_binary = None, re_npx = [], re_npx_args = [], re_uvx = [], re_uvx_args = []\<rparr>"

definition some_manifest :: catalog_agent where
  "some_manifest = (custom_to_agent \<lparr>cu_id = ''tool'', cu_name = ''Tool'', cu_command = ''tool'', cu_args = [], cu_hint = []\<rparr>)\<lparr>ca_source := ''embedded''\<rparr>"

definition some_host :: host where
  "some_host = \<lparr>h_goos = ''linux'', h_look_path = (\<lambda>c. c = ''tool''), h_is_file = (\<lambda>p. False), h_base_dir = ''/srv''\<rparr>"

theorem valid_manifest_listed_invalid_witness:
  "\<not> ca_valid (registry_row some_host [some_manifest] [(''tool'', some_entry)] some_entry)"
proof -
  have "map_of (rev (map (\<lambda>a. (ca_id a, a)) [some_manifest])) (re_id some_entry) = Some some_manifest" "validate_agent some_manifest = None"
    by (simp add: some_manifest_def some_entry_def custom_to_agent_def) code_simp
  from valid_manifest_listed_invalid [OF this] show ?thesis by blast
qed

text \<open>
  The launch rules are never applied to an entry that comes from the registry alone: an argument with control
  characters is listed as valid and detected, although validation of the same agent fails.
\<close>

theorem registry_entry_not_validated:
  "(let e = some_entry\<lparr>re_binary := Some \<lparr>bt_platform = ''linux-x86_64'', bt_archive = [], bt_command = ''tool'', bt_name = ''tool'',
        bt_args = [[char_of (10::nat)]]\<rparr>\<rparr>;
      a = registry_row some_host [] [(''tool'', e)] e
    in ca_valid a \<and> ca_detected a \<and> validate_agent a \<noteq> None)"
  by code_simp

text \<open>A registry binary that names no command is offered as launchable with the command \<^verbatim>\<open>.\<close>, which is what \<^verbatim>\<open>filepath.Base\<close> makes of it.\<close>

theorem nameless_binary_launches_dot:
  "(let e = some_entry\<lparr>re_id := ''other'', re_binary := Some (binary_target_of ''linux-x86_64'' \<lparr>bd_archive = [], bd_cmd = [], bd_args = []\<rparr>)\<rparr>
    in fst (build_registry_launch_plan some_host None e) = \<lparr>la_mode = ''external'', la_command = ''.'', la_args = []\<rparr>)"
  by code_simp

theorem detected_agent_launchable_witness:
  "list_all (\<lambda>a. ca_detected a \<and> h_look_path some_host (la_command (ca_launch a)))
     (visible_agents some_host (Map.empty, []) No_Registry [some_manifest] [])"
proof -
  have one: "visible_agents some_host (Map.empty, []) No_Registry [some_manifest] [] = [enrich_agent (Map.empty, []) (adapter_row some_host No_Registry some_manifest)]"
    by (simp add: visible_agents_def)
  let ?a = "enrich_agent (Map.empty, []) (adapter_row some_host No_Registry some_manifest)"
  have d: "ca_detected ?a" "la_mode (ca_launch ?a) \<noteq> ''process''" by code_simp+
  have "?a \<in> set (visible_agents some_host (Map.empty, []) No_Registry [some_manifest] [])" unfolding one by simp
  from detected_agent_launchable [OF this d(1)] d show ?thesis unfolding one by auto
qed

theorem catalog_rows_unique_witness:
  "distinct (map ca_id (ct_agents (refresh_locked
     \<lparr>su_host = some_host, su_logos = (Map.empty, []), su_registry = Registry_Has [(''tool'', some_entry)],
      su_customs = Some [\<lparr>cu_id = ''tool'', cu_name = ''Mine'', cu_command = ''/bin/mine'', cu_args = [], cu_hint = []\<rparr>], su_now = 1\<rparr>
     \<lparr>ct_adapters = [some_manifest], ct_agents = [], ct_refreshed = 0, ct_npm_bins = Map.empty, ct_resolver = None\<rparr>)))"
  using catalog_rows_unique [of "\<lparr>su_host = some_host, su_logos = (Map.empty, []), su_registry = Registry_Has [(''tool'', some_entry)],
      su_customs = Some [\<lparr>cu_id = ''tool'', cu_name = ''Mine'', cu_command = ''/bin/mine'', cu_args = [], cu_hint = []\<rparr>], su_now = 1\<rparr>"
    "\<lparr>ct_adapters = [some_manifest], ct_agents = [], ct_refreshed = 0, ct_npm_bins = Map.empty, ct_resolver = None\<rparr>"]
  by (simp add: registry_view_ok_def some_entry_def keys_distinct_def)

end
