(* ===== verification/Custom_Agents.thy ===== *)
theory Custom_Agents
  imports Catalog_Proofs
begin

text \<open>
  Custom agents: the rows of \<^verbatim>\<open>internal/storage/custom_agents.go\<close>, the write policy of
  \<^verbatim>\<open>internal/customagents/service.go\<close> over the store and the catalog, and what the handlers of
  \<^verbatim>\<open>internal/api/custom_agents.go\<close> make of a request. Every call of the database may fail; a failed call changes nothing.
\<close>

section \<open>The store\<close>

record custom_record =
  cr_id :: string
  cr_name :: string
  cr_command :: string
  cr_args :: "string list"
  cr_hint :: string
  cr_created :: gtime

text \<open>The table keeps one row per id; the calls the service makes of it, told apart so that each may fail.\<close>

type_synonym custom_table = "(string \<times> custom_record) list"

datatype store_call = Call_Count | Call_Get string | Call_Save | Call_List | Call_Delete | Call_Undo

definition save_custom :: "custom_record \<Rightarrow> custom_table \<Rightarrow> custom_table" where
  "save_custom r t =
     (case map_of t (cr_id r) of
        None \<Rightarrow> AList.update (cr_id r) r t
      | Some old \<Rightarrow> AList.update (cr_id r) (r\<lparr>cr_created := cr_created old\<rparr>) t)"

definition list_customs :: "custom_table \<Rightarrow> custom_record list" where
  "list_customs t = map snd (sort_key fst t)"

text \<open>\<^verbatim>\<open>customAgentProvider\<close> of \<^verbatim>\<open>internal/daemon/daemon.go\<close>: a failed listing serves no custom agents.\<close>

definition custom_of_record :: "custom_record \<Rightarrow> custom_agent" where
  "custom_of_record r = \<lparr>cu_id = cr_id r, cu_name = cr_name r, cu_command = cr_command r, cu_args = cr_args r, cu_hint = cr_hint r\<rparr>"

definition custom_provider :: "bool \<Rightarrow> custom_table \<Rightarrow> custom_agent list" where
  "custom_provider fails t = (if fails then [] else map custom_of_record (list_customs t))"

section \<open>The service\<close>

datatype custom_error = Rejected int string | Invalid_Agent "catalog_error option" | Agent_Not_Found | Store_Error

record custom_env =
  ce_host :: host
  ce_logos :: "(string \<rightharpoonup> string) \<times> string"
  ce_registry :: registry_view
  ce_now :: gtime
  ce_fails :: "store_call \<Rightarrow> bool"
  ce_runtimes :: "(string \<times> bool) list"

text \<open>\<open>cs_table\<close> is \<open>None\<close> in a server without storage; a runtime is its agent and whether it is live.\<close>

record custom_state =
  cs_table :: "custom_table option"
  cs_catalog :: catalog

definition surroundings_of :: "custom_env \<Rightarrow> custom_table \<Rightarrow> surroundings" where
  "surroundings_of e t = \<lparr>su_host = ce_host e, su_logos = ce_logos e, su_registry = ce_registry e,
     su_customs = Some (custom_provider (ce_fails e Call_List) t), su_now = ce_now e\<rparr>"

definition max_agents :: nat where "max_agents = 50"
definition max_name_len :: nat where "max_name_len = 80"
definition max_slug_tries :: nat where "max_slug_tries = 100"
definition max_cmd_len :: nat where "max_cmd_len = 1024"
definition max_args :: nat where "max_args = 20"
definition max_arg_len :: nat where "max_arg_len = 1024"

definition validate_custom_agent_fields :: "string \<Rightarrow> string \<Rightarrow> string list \<Rightarrow> custom_error option" where
  "validate_custom_agent_fields name command args =
     (if name = [] then Some (Rejected 400 ''displayName is required'')
      else if rune_count name > max_name_len then Some (Rejected 400 ''displayName must be at most 80 characters'')
      else if command = [] then Some (Rejected 400 ''command is required'')
      else if rune_count command > max_cmd_len then Some (Rejected 400 ''command must be at most 1024 characters'')
      else if length args > max_args then Some (Rejected 400 ''args must have at most 20 entries'')
      else if list_ex (\<lambda>a. rune_count a > max_arg_len) args then Some (Rejected 400 ''each arg must be at most 1024 characters'')
      else None)"

definition slug_attempt :: "string \<Rightarrow> nat \<Rightarrow> string" where
  "slug_attempt base n = (if n > 1 then base @ ''-'' @ decimal n else base)"

text \<open>The loop of \<^verbatim>\<open>allocateCustomAgentID\<close> over the attempts that are left; reading the catalog may refresh it.\<close>

fun allocate_from :: "custom_env \<Rightarrow> custom_table \<Rightarrow> string \<Rightarrow> nat list \<Rightarrow> catalog \<Rightarrow> (custom_error + string) \<times> catalog" where
  "allocate_from e t base [] ct = (Inl (Rejected 409 ''no free custom agent id''), ct)"
| "allocate_from e t base (n # ns) ct =
     (let i = slug_attempt base n
      in if ce_fails e (Call_Get i) then (Inl Store_Error, ct)
         else if map_of t i \<noteq> None then allocate_from e t base ns ct
         else case catalog_get (surroundings_of e t) i ct of
                (Some _, ct1) \<Rightarrow> allocate_from e t base ns ct1
              | (None, ct1) \<Rightarrow> (Inr i, ct1))"

definition allocate_custom_agent_id :: "custom_env \<Rightarrow> custom_table \<Rightarrow> string \<Rightarrow> catalog \<Rightarrow> (custom_error + string) \<times> catalog" where
  "allocate_custom_agent_id e t name ct = allocate_from e t (slug_custom_id name) [1..<Suc max_slug_tries] ct"

definition custom_agent_from_catalog :: "custom_env \<Rightarrow> custom_table \<Rightarrow> string \<Rightarrow> catalog \<Rightarrow> (custom_error + catalog_agent) \<times> catalog" where
  "custom_agent_from_catalog e t i ct =
     (case catalog_get (surroundings_of e t) i ct of
        (None, ct1) \<Rightarrow> (Inl Agent_Not_Found, ct1)
      | (Some a, ct1) \<Rightarrow> (if ca_valid a then Inr a else Inl (Invalid_Agent (ca_error a)), ct1))"

record custom_create =
  cc_name :: string
  cc_command :: string
  cc_args :: "string list"
  cc_hint :: string

text \<open>
  Each call of the store and of the catalog holds its own lock, and nothing is held between them: the comment in
  \<^verbatim>\<open>Create\<close> says that the cap and the id are not checked in one transaction with the save. So a request falls into parts,
  between which other requests may run: the checks, the save and the reading back. \<open>create_custom_agent\<close> is a request that
  nothing interrupts; \<open>Custom_Agents_Races\<close> interleaves the parts.
\<close>

definition check_create :: "custom_env \<Rightarrow> custom_create \<Rightarrow> custom_state \<Rightarrow> (custom_error + custom_record) \<times> custom_state" where
  "check_create e req st =
     (case cs_table st of
        None \<Rightarrow> (Inl (Rejected 503 ''custom agent storage not available''), st)
      | Some t \<Rightarrow>
          let name = trim_space (cc_name req); command = trim_space (cc_command req)
          in case validate_custom_agent_fields name command (cc_args req) of
               Some err \<Rightarrow> (Inl err, st)
             | None \<Rightarrow>
                 if ce_fails e Call_Count then (Inl Store_Error, st)
                 else if length t \<ge> max_agents then (Inl (Rejected 409 ''custom agent limit reached (50)''), st)
                 else
                   (case allocate_custom_agent_id e t name (cs_catalog st) of
                      (Inl err, ct1) \<Rightarrow> (Inl err, st\<lparr>cs_catalog := ct1\<rparr>)
                    | (Inr i, ct1) \<Rightarrow>
                        (Inr \<lparr>cr_id = i, cr_name = name, cr_command = command, cr_args = cc_args req, cr_hint = cc_hint req, cr_created = ce_now e\<rparr>,
                         st\<lparr>cs_catalog := ct1\<rparr>)))"

text \<open>The save, and the catalog told that it is out of date.\<close>

definition store_custom :: "custom_env \<Rightarrow> custom_record \<Rightarrow> custom_state \<Rightarrow> custom_error option \<times> custom_state" where
  "store_custom e r st =
     (case cs_table st of
        None \<Rightarrow> (Some Store_Error, st)
      | Some t \<Rightarrow>
          if ce_fails e Call_Save then (Some Store_Error, st)
          else (None, \<lparr>cs_table = Some (save_custom r t), cs_catalog = invalidate_catalog (cs_catalog st)\<rparr>))"

text \<open>A new row that the catalog rejects is deleted again.\<close>

definition read_created :: "custom_env \<Rightarrow> string \<Rightarrow> custom_state \<Rightarrow> (custom_error + catalog_agent) \<times> custom_state" where
  "read_created e i st =
     (case cs_table st of
        None \<Rightarrow> (Inl Store_Error, st)
      | Some t \<Rightarrow>
          (case custom_agent_from_catalog e t i (cs_catalog st) of
             (Inr a, ct2) \<Rightarrow> (Inr a, st\<lparr>cs_catalog := ct2\<rparr>)
           | (Inl err, ct2) \<Rightarrow>
               (Inl err,
                if ce_fails e Call_Undo then st\<lparr>cs_catalog := ct2\<rparr>
                else \<lparr>cs_table = Some (AList.delete i t), cs_catalog = invalidate_catalog ct2\<rparr>)))"

definition create_custom_agent :: "custom_env \<Rightarrow> custom_create \<Rightarrow> custom_state \<Rightarrow> (custom_error + catalog_agent) \<times> custom_state" where
  "create_custom_agent e req st =
     (case check_create e req st of
        (Inl err, st1) \<Rightarrow> (Inl err, st1)
      | (Inr r, st1) \<Rightarrow>
          (case store_custom e r st1 of
             (Some err, st2) \<Rightarrow> (Inl err, st2)
           | (None, st2) \<Rightarrow> read_created e (cr_id r) st2))"

record custom_update =
  cp_name :: "string option"
  cp_command :: "string option"
  cp_args :: "string list option"
  cp_hint :: "string option"

definition or_keep :: "'a option \<Rightarrow> 'a \<Rightarrow> 'a" where
  "or_keep v old = (case v of None \<Rightarrow> old | Some x \<Rightarrow> x)"

text \<open>The record as it is and as it is to be; an edit that the catalog rejects is replaced by the former again.\<close>

definition check_update :: "custom_env \<Rightarrow> string \<Rightarrow> custom_update \<Rightarrow> custom_state \<Rightarrow> custom_error + custom_record \<times> custom_record" where
  "check_update e i up st =
     (case cs_table st of
        None \<Rightarrow> Inl (Rejected 503 ''custom agent storage not available'')
      | Some t \<Rightarrow>
          if ce_fails e (Call_Get i) then Inl Store_Error
          else case map_of t i of
            None \<Rightarrow> Inl (Rejected 404 ''unknown custom agent'')
          | Some existing \<Rightarrow>
              let updated = existing\<lparr>cr_name := or_keep (cp_name up) (cr_name existing),
                    cr_command := or_keep (cp_command up) (cr_command existing),
                    cr_args := or_keep (cp_args up) (cr_args existing), cr_hint := or_keep (cp_hint up) (cr_hint existing)\<rparr>
              in case validate_custom_agent_fields (cr_name updated) (cr_command updated) (cr_args updated) of
                   Some err \<Rightarrow> Inl err
                 | None \<Rightarrow> Inr (existing, updated))"

definition read_updated :: "custom_env \<Rightarrow> string \<Rightarrow> custom_record \<Rightarrow> custom_state \<Rightarrow> (custom_error + catalog_agent) \<times> custom_state" where
  "read_updated e i existing st =
     (case cs_table st of
        None \<Rightarrow> (Inl Store_Error, st)
      | Some t \<Rightarrow>
          (case custom_agent_from_catalog e t i (cs_catalog st) of
             (Inr a, ct2) \<Rightarrow> (Inr a, st\<lparr>cs_catalog := ct2\<rparr>)
           | (Inl err, ct2) \<Rightarrow>
               (Inl err,
                if ce_fails e Call_Undo then st\<lparr>cs_catalog := ct2\<rparr>
                else \<lparr>cs_table = Some (save_custom existing t), cs_catalog = invalidate_catalog ct2\<rparr>)))"

definition update_custom_agent :: "custom_env \<Rightarrow> string \<Rightarrow> custom_update \<Rightarrow> custom_state \<Rightarrow> (custom_error + catalog_agent) \<times> custom_state" where
  "update_custom_agent e i up st =
     (case check_update e i up st of
        Inl err \<Rightarrow> (Inl err, st)
      | Inr (existing, updated) \<Rightarrow>
          (case store_custom e updated st of
             (Some err, st1) \<Rightarrow> (Inl err, st1)
           | (None, st1) \<Rightarrow> read_updated e i existing st1))"

definition delete_custom_agent :: "custom_env \<Rightarrow> string \<Rightarrow> custom_state \<Rightarrow> custom_error option \<times> custom_state" where
  "delete_custom_agent e i st =
     (case cs_table st of
        None \<Rightarrow> (Some (Rejected 503 ''custom agent storage not available''), st)
      | Some t \<Rightarrow>
          if \<not> is_custom_id (surroundings_of e t) i then (Some (Rejected 404 ''unknown custom agent''), st)
          else if list_ex (\<lambda>(a, live). a = i \<and> live) (ce_runtimes e) then (Some (Rejected 409 ''agent has running runtimes''), st)
          else if ce_fails e Call_Delete then (Some Store_Error, st)
          else if map_of t i = None then (Some (Rejected 404 ''unknown custom agent''), st)
          else (None, \<lparr>cs_table = Some (AList.delete i t), cs_catalog = invalidate_catalog (cs_catalog st)\<rparr>))"

section \<open>Requests\<close>

record custom_request =
  cq_name :: string
  cq_command :: string
  cq_args :: "string list option"
  cq_hint :: string

definition create_of_request :: "custom_request \<Rightarrow> custom_create" where
  "create_of_request q = \<lparr>cc_name = cq_name q, cc_command = cq_command q, cc_args = or_keep (cq_args q) [], cc_hint = cq_hint q\<rparr>"

definition update_of_request :: "custom_request \<Rightarrow> custom_update" where
  "update_of_request q =
     \<lparr>cp_name = (if trim_space (cq_name q) \<noteq> [] then Some (trim_space (cq_name q)) else None),
      cp_command = (if trim_space (cq_command q) \<noteq> [] then Some (trim_space (cq_command q)) else None),
      cp_args = cq_args q, cp_hint = Some (cq_hint q)\<rparr>"

definition custom_error_status :: "custom_error \<Rightarrow> int" where
  "custom_error_status err =
     (case err of Rejected status msg \<Rightarrow> status | Invalid_Agent _ \<Rightarrow> 400 | Agent_Not_Found \<Rightarrow> 404 | Store_Error \<Rightarrow> 500)"

definition handle_custom_agent_create :: "custom_env \<Rightarrow> custom_request option \<Rightarrow> custom_state \<Rightarrow> int \<times> custom_state" where
  "handle_custom_agent_create e body st =
     (case body of
        None \<Rightarrow> (400, st)
      | Some q \<Rightarrow> (case create_custom_agent e (create_of_request q) st of
          (Inr a, st1) \<Rightarrow> (201, st1) | (Inl err, st1) \<Rightarrow> (custom_error_status err, st1)))"

definition handle_custom_agent_update :: "custom_env \<Rightarrow> string \<Rightarrow> custom_request option \<Rightarrow> custom_state \<Rightarrow> int \<times> custom_state" where
  "handle_custom_agent_update e i body st =
     (case body of
        None \<Rightarrow> (400, st)
      | Some q \<Rightarrow> (case update_custom_agent e i (update_of_request q) st of
          (Inr a, st1) \<Rightarrow> (200, st1) | (Inl err, st1) \<Rightarrow> (custom_error_status err, st1)))"

definition handle_custom_agent_delete :: "custom_env \<Rightarrow> string \<Rightarrow> custom_state \<Rightarrow> int \<times> custom_state" where
  "handle_custom_agent_delete e i st =
     (case delete_custom_agent e i st of (None, st1) \<Rightarrow> (200, st1) | (Some err, st1) \<Rightarrow> (custom_error_status err, st1))"

end
