(* ===== verification/Custom_Agents_Proofs.thy ===== *)
theory Custom_Agents_Proofs
  imports Custom_Agents
begin

text \<open>
  What the custom agent service promises: the stored agents stay valid and distinct, and few while requests do not overlap; a new agent gets an id that
  nothing else has, and the search for one ends; what was created is what the catalog then answers with.
\<close>

section \<open>Requests that nothing interrupts\<close>

lemma create_at_once:
  "create_custom_agent e req st =
     (case cs_table st of
        None \<Rightarrow> (Inl (Rejected 503 ''custom agent storage not available''), st)
      | Some t \<Rightarrow>
          let name = trim_space (cc_name req); command = trim_space (cc_command req)
          in case validate_custom_agent_fields name command (cc_args req) of
               Some err \<Rightarrow> (Inl err, st)
             | None \<Rightarrow>
                 if ce_fails e Call_Count then (Inl Store_Error, st)
                 else if length t \<ge> max_agents then (Inl (Rejected 409 ''custom agent limit reached (50)''), st)
                 else
                   (case allocate_custom_agent_id e t name (cs_catalog st) of
                      (Inl err, ct1) \<Rightarrow> (Inl err, st\<lparr>cs_catalog := ct1\<rparr>)
                    | (Inr i, ct1) \<Rightarrow>
                        if ce_fails e Call_Save then (Inl Store_Error, st\<lparr>cs_catalog := ct1\<rparr>)
                        else
                          let t1 = save_custom \<lparr>cr_id = i, cr_name = name, cr_command = command, cr_args = cc_args req,
                                     cr_hint = cc_hint req, cr_created = ce_now e\<rparr> t
                          in case custom_agent_from_catalog e t1 i (invalidate_catalog ct1) of
                               (Inr a, ct2) \<Rightarrow> (Inr a, \<lparr>cs_table = Some t1, cs_catalog = ct2\<rparr>)
                             | (Inl err, ct2) \<Rightarrow>
                                 (Inl err,
                                  if ce_fails e Call_Undo then \<lparr>cs_table = Some t1, cs_catalog = ct2\<rparr>
                                  else \<lparr>cs_table = Some (AList.delete i t1), cs_catalog = invalidate_catalog ct2\<rparr>)))"
  by (simp add: create_custom_agent_def check_create_def store_custom_def read_created_def Let_def invalidate_catalog_def
      split: option.split sum.split prod.split)

lemma update_at_once:
  "update_custom_agent e i up st =
     (case cs_table st of
        None \<Rightarrow> (Inl (Rejected 503 ''custom agent storage not available''), st)
      | Some t \<Rightarrow>
          if ce_fails e (Call_Get i) then (Inl Store_Error, st)
          else case map_of t i of
            None \<Rightarrow> (Inl (Rejected 404 ''unknown custom agent''), st)
          | Some existing \<Rightarrow>
              let updated = existing\<lparr>cr_name := or_keep (cp_name up) (cr_name existing),
                    cr_command := or_keep (cp_command up) (cr_command existing),
                    cr_args := or_keep (cp_args up) (cr_args existing), cr_hint := or_keep (cp_hint up) (cr_hint existing)\<rparr>
              in case validate_custom_agent_fields (cr_name updated) (cr_command updated) (cr_args updated) of
                   Some err \<Rightarrow> (Inl err, st)
                 | None \<Rightarrow>
                     if ce_fails e Call_Save then (Inl Store_Error, st)
                     else
                       let t1 = save_custom updated t
                       in case custom_agent_from_catalog e t1 i (invalidate_catalog (cs_catalog st)) of
                            (Inr a, ct2) \<Rightarrow> (Inr a, \<lparr>cs_table = Some t1, cs_catalog = ct2\<rparr>)
                          | (Inl err, ct2) \<Rightarrow>
                              (Inl err,
                               if ce_fails e Call_Undo then \<lparr>cs_table = Some t1, cs_catalog = ct2\<rparr>
                               else \<lparr>cs_table = Some (save_custom existing t1), cs_catalog = invalidate_catalog ct2\<rparr>))"
  by (simp add: update_custom_agent_def check_update_def store_custom_def read_updated_def Let_def
      split: option.split sum.split prod.split)

section \<open>Reading the catalog\<close>

lemma npm_names_shape: "\<exists>m. snd (npm_binary_names p f ct) = ct\<lparr>ct_npm_bins := m\<rparr>"
proof (cases "ct_npm_bins ct p = None \<and> f p \<noteq> None")
  case True
  then obtain names where "f p = Some names" by auto
  with True show ?thesis by (auto simp: npm_binary_names_def)
next
  case False
  then have "snd (npm_binary_names p f ct) = ct" by (auto simp: npm_binary_names_def split: option.splits)
  then show ?thesis by (intro exI [of _ "ct_npm_bins ct"]) simp
qed

lemma catalog_get_shape: "\<exists>m. snd (catalog_get su i ct) = (catalog_fresh su ct)\<lparr>ct_npm_bins := m\<rparr>"
proof -
  define c where "c = catalog_fresh su ct"
  have same: "\<exists>m. c = c\<lparr>ct_npm_bins := m\<rparr>" by (intro exI [of _ "ct_npm_bins c"]) simp
  have "snd (catalog_get su i ct) = c \<or> (\<exists>p f. snd (catalog_get su i ct) = snd (npm_binary_names p f c))"
  proof (cases "List.find (\<lambda>a. ca_id a = i) (ct_agents c)")
    case None
    then show ?thesis by (simp add: catalog_get_def Let_def c_def)
  next
    case (Some a)
    then show ?thesis
      by (cases "ct_resolver c") (auto simp: catalog_get_def Let_def c_def [symmetric] split_def split: option.splits)
  qed
  then show ?thesis unfolding c_def [symmetric] using npm_names_shape same by metis
qed

lemma catalog_get_state:
  "ct_adapters (snd (catalog_get su i ct)) = ct_adapters ct"
  "ct_agents (snd (catalog_get su i ct)) = ct_agents (catalog_fresh su ct)"
  "ct_refreshed (snd (catalog_get su i ct)) = ct_refreshed (catalog_fresh su ct)"
proof -
  obtain m where m: "snd (catalog_get su i ct) = (catalog_fresh su ct)\<lparr>ct_npm_bins := m\<rparr>" using catalog_get_shape by blast
  show "ct_adapters (snd (catalog_get su i ct)) = ct_adapters ct" "ct_agents (snd (catalog_get su i ct)) = ct_agents (catalog_fresh su ct)"
    "ct_refreshed (snd (catalog_get su i ct)) = ct_refreshed (catalog_fresh su ct)"
    unfolding m by (simp_all add: catalog_fresh_def refresh_locked_def)
qed

lemma catalog_get_none: "fst (catalog_get su i ct) = None \<longleftrightarrow> i = [] \<or> i \<notin> ca_id ` set (ct_agents (catalog_fresh su ct))"
proof -
  define c where "c = catalog_fresh su ct"
  show ?thesis
  proof (cases "List.find (\<lambda>a. ca_id a = i) (ct_agents c)")
    case None
    then have "i \<notin> ca_id ` set (ct_agents c)" by (auto simp: find_None_iff)
    moreover have "fst (catalog_get su i ct) = None" using None by (simp add: catalog_get_def Let_def c_def [symmetric])
    ultimately show ?thesis by (simp add: c_def)
  next
    case (Some a)
    then have a: "ca_id a = i" "i \<in> ca_id ` set (ct_agents c)" by (auto simp: find_Some_iff)
    have "fst (catalog_get su i ct) = None \<longleftrightarrow> i = []"
      using Some a(1)
      by (cases "ct_resolver c") (auto simp: catalog_get_def Let_def c_def [symmetric] split_def split: option.splits)
    then show ?thesis using a(2) by (simp add: c_def)
  qed
qed

lemma catalog_fresh_again:
  assumes "su_now su > zero_time"
  shows "ct_agents (catalog_fresh su (snd (catalog_get su i ct))) = ct_agents (catalog_fresh su ct)"
proof -
  have "\<not> catalog_stale (su_now su) (snd (catalog_get su i ct))"
    using assms catalog_get_state(3) [of su i ct]
    by (auto simp: catalog_stale_def catalog_fresh_def refresh_locked_def catalog_refresh_interval_def split: if_splits)
  then show ?thesis using catalog_get_state(2) [of su i ct] by (simp add: catalog_fresh_def)
qed

section \<open>Allocating an id\<close>

definition taken_ids :: "custom_env \<Rightarrow> custom_table \<Rightarrow> catalog \<Rightarrow> string set" where
  "taken_ids e t ct = set (map fst t) \<union> ca_id ` set (ct_agents (catalog_fresh (surroundings_of e t) ct))"

lemma slug_attempt_inject: "inj_on (slug_attempt base) {1..}"
proof (rule inj_onI)
  fix m n :: nat assume mn: "m \<in> {1..}" "n \<in> {1..}" and eq: "slug_attempt base m = slug_attempt base n"
  show "m = n"
  proof (cases "m > 1 \<and> n > 1")
    case True
    with eq show ?thesis by (simp add: slug_attempt_def)
  next
    case False
    then show ?thesis using mn eq by (auto simp: slug_attempt_def split: if_splits)
  qed
qed

lemma slug_attempt_nonempty: "base \<noteq> [] \<Longrightarrow> slug_attempt base n \<noteq> []"
  by (simp add: slug_attempt_def)

lemma allocate_from_cases:
  assumes "ce_now e > zero_time" "list_all (\<lambda>n. \<not> ce_fails e (Call_Get (slug_attempt base n))) ns" "base \<noteq> []"
  shows "(case fst (allocate_from e t base ns ct) of
      Inr i \<Rightarrow> i \<in> slug_attempt base ` set ns \<and> i \<notin> taken_ids e t ct
    | Inl err \<Rightarrow> slug_attempt base ` set ns \<subseteq> taken_ids e t ct) \<and>
    ct_agents (catalog_fresh (surroundings_of e t) (snd (allocate_from e t base ns ct))) = ct_agents (catalog_fresh (surroundings_of e t) ct) \<and>
    ct_adapters (snd (allocate_from e t base ns ct)) = ct_adapters ct"
  using assms
proof (induction ns arbitrary: ct)
  case (Cons n ns)
  let ?i = "slug_attempt base n" and ?su = "surroundings_of e t"
  have now: "su_now ?su > zero_time" using Cons.prems(1) by (simp add: surroundings_of_def)
  show ?case
  proof (cases "map_of t ?i")
    case (Some r)
    then have "?i \<in> taken_ids e t ct" by (auto simp: taken_ids_def dest: map_of_SomeD intro: rev_image_eqI)
    then show ?thesis using Cons.IH [of ct] Cons.prems Some by (auto simp: Let_def split: sum.splits)
  next
    case None
    obtain a ct1 where get: "catalog_get ?su ?i ct = (a, ct1)" by fastforce
    have fresh: "ct_agents (catalog_fresh ?su ct1) = ct_agents (catalog_fresh ?su ct)"
      using catalog_fresh_again [OF now, of ?i ct] unfolding get by simp
    have same: "taken_ids e t ct1 = taken_ids e t ct" "ct_adapters ct1 = ct_adapters ct"
      using fresh catalog_get_state(1) [of ?su ?i ct] unfolding get by (simp_all add: taken_ids_def)
    have free: "a = None \<longleftrightarrow> ?i \<notin> taken_ids e t ct"
      using catalog_get_none [of ?su ?i ct] None slug_attempt_nonempty [OF Cons.prems(3), of n] unfolding get
      by (simp add: taken_ids_def map_of_eq_None_iff)
    show ?thesis
      using Cons.IH [of ct1] Cons.prems None get free same fresh by (cases a) (auto simp: Let_def split: sum.splits)
  qed
qed simp

text \<open>
  C11: The search for an id ends with one (\<^verbatim>\<open>allocateCustomAgentID\<close>): as long as fewer ids are in use than the hundred
  attempts it makes, and the store answers, it returns an id that is derived from the display name and that neither the
  store nor any row of the catalog has, so a new custom agent never shadows another agent.
\<close>

theorem id_search_ends:
  assumes "ce_now e > zero_time" "\<forall>i. \<not> ce_fails e (Call_Get i)" "card (taken_ids e t ct) < max_slug_tries"
  shows "\<exists>i n. fst (allocate_custom_agent_id e t name ct) = Inr i \<and> i = slug_attempt (slug_custom_id name) n \<and>
    1 \<le> n \<and> n \<le> max_slug_tries \<and> i \<notin> taken_ids e t ct"
proof -
  let ?base = "slug_custom_id name" and ?ns = "[1..<Suc max_slug_tries]"
  have ne: "?base \<noteq> []" using custom_id_shape [of name] by auto
  have r: "case fst (allocate_from e t ?base ?ns ct) of
      Inr i \<Rightarrow> i \<in> slug_attempt ?base ` set ?ns \<and> i \<notin> taken_ids e t ct
    | Inl err \<Rightarrow> slug_attempt ?base ` set ?ns \<subseteq> taken_ids e t ct"
    using allocate_from_cases [OF assms(1) _ ne, of ?ns t ct] assms(2) by (simp add: list_all_iff)
  have "set ?ns = {1..max_slug_tries}" by auto
  then have "card (slug_attempt ?base ` set ?ns) = max_slug_tries"
    by (subst card_image) (auto intro: inj_on_subset [OF slug_attempt_inject])
  note card = this
  have fin: "finite (taken_ids e t ct)" by (simp add: taken_ids_def)
  have "\<not> slug_attempt ?base ` set ?ns \<subseteq> taken_ids e t ct"
  proof
    assume "slug_attempt ?base ` set ?ns \<subseteq> taken_ids e t ct"
    from card_mono [OF fin this] show False unfolding card using assms(3) by simp
  qed
  with r obtain i where "fst (allocate_from e t ?base ?ns ct) = Inr i" "i \<in> slug_attempt ?base ` set ?ns" "i \<notin> taken_ids e t ct"
    by (cases "fst (allocate_from e t ?base ?ns ct)") auto
  then show ?thesis unfolding allocate_custom_agent_id_def by auto
qed

theorem id_search_ends_witness:
  "\<exists>i n. fst (allocate_custom_agent_id
      \<lparr>ce_host = some_host, ce_logos = (Map.empty, []), ce_registry = No_Registry, ce_now = 1, ce_fails = (\<lambda>c. False), ce_runtimes = []\<rparr>
      [] ''My Tool''
      \<lparr>ct_adapters = [], ct_agents = [], ct_refreshed = 0, ct_npm_bins = Map.empty, ct_resolver = None\<rparr>) = Inr i \<and> n \<le> (100::nat)"
proof -
  let ?e = "\<lparr>ce_host = some_host, ce_logos = (Map.empty, []), ce_registry = No_Registry, ce_now = 1, ce_fails = (\<lambda>c. False), ce_runtimes = []\<rparr>"
  let ?ct = "\<lparr>ct_adapters = [], ct_agents = [], ct_refreshed = 0, ct_npm_bins = Map.empty, ct_resolver = None\<rparr>"
  have "taken_ids ?e [] ?ct = {}"
    by (simp add: taken_ids_def catalog_fresh_def catalog_stale_def refresh_locked_def surroundings_of_def visible_agents_def
        custom_provider_def list_customs_def)
  then have "card (taken_ids ?e [] ?ct) < max_slug_tries" by (simp add: max_slug_tries_def)
  from id_search_ends [OF _ _ this, of "''My Tool''"] show ?thesis by (auto simp: max_slug_tries_def)
qed

section \<open>What is stored stays valid\<close>

definition custom_row_ok :: "string \<times> custom_record \<Rightarrow> bool" where
  "custom_row_ok p \<longleftrightarrow> cr_id (snd p) = fst p \<and> fst p \<noteq> [] \<and> validate_agent (custom_to_agent (custom_of_record (snd p))) = None"

definition custom_inv :: "custom_state \<Rightarrow> bool" where
  "custom_inv st \<longleftrightarrow>
     distinct (map ca_id (ct_adapters (cs_catalog st))) \<and>
     (case cs_table st of None \<Rightarrow> True
      | Some t \<Rightarrow> keys_distinct t \<and> list_all custom_row_ok t \<and> length t \<le> max_agents)"

datatype custom_event = Do_Create custom_env custom_create | Do_Update custom_env string custom_update | Do_Delete custom_env string

definition custom_step :: "custom_state \<Rightarrow> custom_event \<Rightarrow> custom_state" where
  "custom_step st ev =
     (case ev of
        Do_Create e req \<Rightarrow> snd (create_custom_agent e req st)
      | Do_Update e i up \<Rightarrow> snd (update_custom_agent e i up st)
      | Do_Delete e i \<Rightarrow> snd (delete_custom_agent e i st))"

definition custom_env_ok :: "custom_env \<Rightarrow> bool" where
  "custom_env_ok e \<longleftrightarrow> registry_view_ok (ce_registry e) \<and> ce_now e > zero_time \<and> \<not> ce_fails e Call_List \<and> \<not> ce_fails e Call_Undo"

definition custom_event_ok :: "custom_event \<Rightarrow> bool" where
  "custom_event_ok ev = (case ev of Do_Create e _ \<Rightarrow> custom_env_ok e | Do_Update e _ _ \<Rightarrow> custom_env_ok e | Do_Delete e _ \<Rightarrow> custom_env_ok e)"

definition custom_table_wf :: "custom_table \<Rightarrow> bool" where
  "custom_table_wf t \<longleftrightarrow> keys_distinct t \<and> list_all (\<lambda>(k, r). cr_id r = k) t"

lemma custom_provider_ids:
  assumes "custom_table_wf t"
  shows "distinct (map cu_id (custom_provider False t))" "(i, r) \<in> set t \<Longrightarrow> custom_of_record r \<in> set (custom_provider False t)"
proof -
  have key: "fst p = cr_id (snd p)" if "p \<in> set t" for p using assms that by (auto simp: custom_table_wf_def list_all_iff)
  have "map cu_id (custom_provider False t) = map (\<lambda>p. cr_id (snd p)) (sort_key fst t)"
    by (simp add: custom_provider_def list_customs_def custom_of_record_def)
  also have "\<dots> = map fst (sort_key fst t)" using key by simp
  finally have ids: "map cu_id (custom_provider False t) = map fst (sort_key fst t)" .
  have "distinct (map fst (sort_key fst t))"
    using assms unfolding custom_table_wf_def keys_distinct_def by (metis distinct_map distinct_sort set_sort)
  then show "distinct (map cu_id (custom_provider False t))" unfolding ids .
  show "(i, r) \<in> set t \<Longrightarrow> custom_of_record r \<in> set (custom_provider False t)"
    by (force simp: custom_provider_def list_customs_def)
qed

text \<open>Reading a stored record back is what validates it.\<close>

lemma read_back:
  assumes "custom_env_ok e" "custom_table_wf t" "map_of t i = Some r" "i \<noteq> []"
    and "distinct (map ca_id (ct_adapters ct))" "ct_refreshed ct = zero_time"
  shows "fst (custom_agent_from_catalog e t i ct) =
      (if validate_agent (custom_to_agent (custom_of_record r)) = None
       then Inr (enrich_agent (ce_logos e) (custom_row (ce_host e) (custom_of_record r)))
       else Inl (Invalid_Agent (validate_agent (custom_to_agent (custom_of_record r)))))"
    and "ct_adapters (snd (custom_agent_from_catalog e t i ct)) = ct_adapters ct"
proof -
  let ?su = "surroundings_of e t" and ?c = "custom_of_record r"
  have mem: "(i, r) \<in> set t" using assms(3) by (rule map_of_SomeD)
  have idr: "cu_id ?c = i" using mem assms(2) by (auto simp: custom_table_wf_def list_all_iff custom_of_record_def)
  have "fst (catalog_get ?su (cu_id ?c) ct) = Some (enrich_agent (su_logos ?su) (custom_row (su_host ?su) ?c))"
  proof (rule catalog_get_custom)
    show "su_customs ?su = Some (custom_provider False t)" using assms(1) by (simp add: surroundings_of_def custom_env_ok_def)
    show "?c \<in> set (custom_provider False t)" "distinct (map cu_id (custom_provider False t))" using custom_provider_ids [OF assms(2)] mem by auto
    show "cu_id ?c \<noteq> []" using idr assms(4) by simp
    show "registry_view_ok (su_registry ?su)" using assms(1) by (simp add: surroundings_of_def custom_env_ok_def)
    show "distinct (map ca_id (ct_adapters ct))" by (rule assms(5))
    show "catalog_stale (su_now ?su) ct" using assms(6) by (simp add: catalog_stale_def)
  qed
  then have get: "fst (catalog_get ?su i ct) = Some (enrich_agent (ce_logos e) (custom_row (ce_host e) ?c))"
    unfolding idr by (simp add: surroundings_of_def)
  obtain a ct1 where g: "catalog_get ?su i ct = (a, ct1)" by fastforce
  show "fst (custom_agent_from_catalog e t i ct) =
      (if validate_agent (custom_to_agent ?c) = None then Inr (enrich_agent (ce_logos e) (custom_row (ce_host e) ?c))
       else Inl (Invalid_Agent (validate_agent (custom_to_agent ?c))))"
    using get unfolding g custom_agent_from_catalog_def
    by (cases "validate_agent (custom_to_agent ?c)") (simp_all add: custom_row_def Let_def enrich_agent_def)
  show "ct_adapters (snd (custom_agent_from_catalog e t i ct)) = ct_adapters ct"
    using catalog_get_state(1) [of ?su i ct] unfolding g custom_agent_from_catalog_def by (auto split: option.splits)
qed

lemma allocate_from_fresh:
  "allocate_from e t base ns ct = (r, ct') \<Longrightarrow>
    ct_adapters ct' = ct_adapters ct \<and> (\<forall>i. r = Inr i \<longrightarrow> map_of t i = None \<and> (\<exists>n. i = slug_attempt base n))"
proof (induction ns arbitrary: ct)
  case (Cons n ns)
  obtain a ct1 where get: "catalog_get (surroundings_of e t) (slug_attempt base n) ct = (a, ct1)" by fastforce
  have "ct_adapters ct1 = ct_adapters ct" using catalog_get_state(1) [of "surroundings_of e t" "slug_attempt base n" ct] unfolding get by simp
  then show ?case using Cons.IH [of ct] Cons.IH [of ct1] Cons.prems get
    by (auto simp: Let_def split: if_splits option.splits)
qed auto

lemma save_new:
  assumes "map_of t (cr_id r) = None"
  shows "save_custom r t = AList.update (cr_id r) r t"
  using assms by (simp add: save_custom_def)

lemma rows_update:
  assumes "keys_distinct t" "list_all P t" "P (k, v)"
  shows "keys_distinct (AList.update k v t) \<and> list_all P (AList.update k v t)"
  using assms set_update_subset [of k v t] by (auto simp: list_all_iff keys_distinct_update)

lemma rows_delete:
  assumes "keys_distinct t" "list_all P t"
  shows "keys_distinct (AList.delete k t) \<and> list_all P (AList.delete k t) \<and> length (AList.delete k t) \<le> length t"
  using assms set_delete_subset [of k t] by (auto simp: list_all_iff keys_distinct_delete length_delete_le)

lemma custom_row_ok_wf: "keys_distinct t \<Longrightarrow> list_all custom_row_ok t \<Longrightarrow> custom_table_wf t"
  by (auto simp: custom_table_wf_def custom_row_ok_def list_all_iff)

lemma create_cases:
  assumes "custom_inv st" "custom_env_ok e" "cs_table st = Some t" "create_custom_agent e req st = (res, st')"
  shows "distinct (map ca_id (ct_adapters (cs_catalog st'))) \<and>
    (case res of
       Inl err \<Rightarrow> cs_table st' = Some t \<or> (\<exists>i. map_of t i = None \<and> cs_table st' = Some (AList.delete i t))
     | Inr a \<Rightarrow> \<exists>r. map_of t (cr_id r) = None \<and> cr_id r \<noteq> [] \<and> length t < max_agents \<and>
         cr_command r = trim_space (cc_command req) \<and> cr_args r = cc_args req \<and>
         a = enrich_agent (ce_logos e) (custom_row (ce_host e) (custom_of_record r)) \<and>
         validate_agent (custom_to_agent (custom_of_record r)) = None \<and>
         cs_table st' = Some (AList.update (cr_id r) r t))"
proof -
  have t: "keys_distinct t" "list_all custom_row_ok t" "length t \<le> max_agents" "distinct (map ca_id (ct_adapters (cs_catalog st)))"
    using assms(1,3) by (auto simp: custom_inv_def)
  let ?name = "trim_space (cc_name req)" and ?command = "trim_space (cc_command req)"
  obtain r ct1 where al: "allocate_custom_agent_id e t ?name (cs_catalog st) = (r, ct1)" by fastforce
  have keep: "ct_adapters ct1 = ct_adapters (cs_catalog st)"
    using allocate_from_fresh [OF al [unfolded allocate_custom_agent_id_def]] by simp
  show ?thesis
  proof (cases "validate_custom_agent_fields ?name ?command (cc_args req) = None \<and> \<not> ce_fails e Call_Count \<and> length t < max_agents \<and>
      (\<exists>i. r = Inr i) \<and> \<not> ce_fails e Call_Save")
    case False
    then have "\<exists>err. (res, st') = (Inl err, st) \<or> (res, st') = (Inl err, st\<lparr>cs_catalog := ct1\<rparr>)"
      using al assms(3) unfolding assms(4) [symmetric]
      by (cases r) (auto simp: create_at_once Let_def not_le split: option.splits)
    then show ?thesis using assms(3) t(4) keep by auto
  next
    case True
    then obtain i where i: "r = Inr i" by blast
    have fresh: "map_of t i = None" "i \<noteq> []"
      using allocate_from_fresh [OF al [unfolded allocate_custom_agent_id_def]] custom_id_shape [of ?name] i
      by (auto simp: slug_attempt_def split: if_splits)
    let ?r = "\<lparr>cr_id = i, cr_name = ?name, cr_command = ?command, cr_args = cc_args req, cr_hint = cc_hint req, cr_created = ce_now e\<rparr>"
    let ?t1 = "save_custom ?r t"
    have t1: "?t1 = AList.update i ?r t" using save_new [of t ?r] fresh by simp
    have wf1: "custom_table_wf ?t1"
      unfolding t1 using rows_update [of t "\<lambda>(k, r). cr_id r = k" i ?r] custom_row_ok_wf [OF t(1,2)] by (simp add: custom_table_wf_def)
    have found: "map_of ?t1 i = Some ?r" unfolding t1 by (simp add: update_conv)
    have adapters: "distinct (map ca_id (ct_adapters (invalidate_catalog ct1)))" "ct_refreshed (invalidate_catalog ct1) = zero_time"
      using keep t(4) by (simp_all add: invalidate_catalog_def)
    note rb = read_back [OF assms(2) wf1 found fresh(2) adapters]
    obtain got ct2 where cf: "custom_agent_from_catalog e ?t1 i (invalidate_catalog ct1) = (got, ct2)" by fastforce
    have ad2: "distinct (map ca_id (ct_adapters ct2))" using rb(2) adapters(1) unfolding cf by simp
    have result: "(res, st') =
        (case got of Inr a \<Rightarrow> (Inr a, \<lparr>cs_table = Some ?t1, cs_catalog = ct2\<rparr>)
         | Inl err \<Rightarrow> (Inl err, \<lparr>cs_table = Some (AList.delete i ?t1), cs_catalog = invalidate_catalog ct2\<rparr>))"
      using True al i assms(3) cf assms(2) unfolding assms(4) [symmetric]
      by (auto simp: create_at_once custom_env_ok_def Let_def split: sum.splits)
    show ?thesis
    proof (cases got)
      case (Inr a)
      then have "validate_agent (custom_to_agent (custom_of_record ?r)) = None"
        "a = enrich_agent (ce_logos e) (custom_row (ce_host e) (custom_of_record ?r))"
        using rb(1) unfolding cf by (simp_all split: if_splits)
      then show ?thesis using result Inr True fresh ad2 t1 by (auto intro!: exI [of _ ?r])
    next
      case (Inl err)
      have "AList.delete i ?t1 = AList.delete i t" unfolding t1 by (rule delete_update_same)
      then show ?thesis using result Inl ad2 fresh by (auto simp: invalidate_catalog_def)
    qed
  qed
qed

lemma create_inv:
  assumes "custom_inv st" "custom_env_ok e"
  shows "custom_inv (snd (create_custom_agent e req st))"
proof (cases "cs_table st")
  case None
  then show ?thesis using assms by (simp add: create_at_once)
next
  case (Some t)
  have t: "keys_distinct t" "list_all custom_row_ok t" "length t \<le> max_agents" using assms(1) Some by (auto simp: custom_inv_def)
  obtain res st' where c: "create_custom_agent e req st = (res, st')" by fastforce
  note cases = create_cases [OF assms Some c]
  show ?thesis
  proof (cases res)
    case (Inl err)
    have "keys_distinct (AList.delete k t) \<and> list_all custom_row_ok (AList.delete k t) \<and> length (AList.delete k t) \<le> max_agents" for k
      using rows_delete [OF t(1,2), of k] t(3) by simp
    then show ?thesis using Inl cases t unfolding c by (auto simp: custom_inv_def)
  next
    case (Inr a)
    then obtain r where r: "map_of t (cr_id r) = None" "cr_id r \<noteq> []" "length t < max_agents"
      "validate_agent (custom_to_agent (custom_of_record r)) = None" "cs_table st' = Some (AList.update (cr_id r) r t)"
      using cases by auto
    have "custom_row_ok (cr_id r, r)" using r by (simp add: custom_row_ok_def)
    then show ?thesis using cases r rows_update [OF t(1,2)] unfolding c by (simp add: custom_inv_def length_update_alist)
  qed
qed

lemma update_inv:
  assumes "custom_inv st" "custom_env_ok e"
  shows "custom_inv (snd (update_custom_agent e i up st))"
proof (cases "cs_table st")
  case None
  then show ?thesis using assms by (simp add: update_at_once)
next
  case (Some t)
  have t: "keys_distinct t" "list_all custom_row_ok t" "length t \<le> max_agents" "distinct (map ca_id (ct_adapters (cs_catalog st)))"
    using assms(1) Some by (auto simp: custom_inv_def)
  show ?thesis
  proof (cases "map_of t i")
    case None
    then show ?thesis using Some assms(1) by (simp add: update_at_once)
  next
    case ex: (Some existing)
    let ?u = "existing\<lparr>cr_name := or_keep (cp_name up) (cr_name existing), cr_command := or_keep (cp_command up) (cr_command existing),
       cr_args := or_keep (cp_args up) (cr_args existing), cr_hint := or_keep (cp_hint up) (cr_hint existing)\<rparr>"
    have row: "custom_row_ok (i, existing)" using ex t(2) by (auto simp: list_all_iff dest: map_of_SomeD)
    then have ids: "cr_id existing = i" "i \<noteq> []" by (simp_all add: custom_row_ok_def)
    let ?t1 = "save_custom ?u t"
    have t1: "?t1 = AList.update i ?u t" using ex ids by (simp add: save_custom_def)
    have wf1: "custom_table_wf ?t1"
      unfolding t1 using rows_update [of t "\<lambda>(k, r). cr_id r = k" i ?u] custom_row_ok_wf [OF t(1,2)] ids by (simp add: custom_table_wf_def)
    have found: "map_of ?t1 i = Some ?u" unfolding t1 by (simp add: update_conv)
    have len: "length ?t1 = length t" unfolding t1 using ex by (simp add: length_update_alist)
    have adapters: "distinct (map ca_id (ct_adapters (invalidate_catalog (cs_catalog st))))" "ct_refreshed (invalidate_catalog (cs_catalog st)) = zero_time"
      using t(4) by (simp_all add: invalidate_catalog_def)
    note rb = read_back [OF assms(2) wf1 found ids(2) adapters]
    obtain res ct2 where cf: "custom_agent_from_catalog e ?t1 i (invalidate_catalog (cs_catalog st)) = (res, ct2)" by fastforce
    have ad2: "distinct (map ca_id (ct_adapters ct2))" using rb(2) adapters(1) unfolding cf by simp
    have undone: "save_custom existing ?t1 = AList.update i existing t"
    proof -
      have "save_custom existing ?t1 = AList.update i existing ?t1"
        unfolding save_custom_def [of existing] ids(1) found by simp
      then show ?thesis unfolding t1 by simp
    qed
    have result: "snd (update_custom_agent e i up st) \<in>
        {st, (case res of Inr a \<Rightarrow> \<lparr>cs_table = Some ?t1, cs_catalog = ct2\<rparr>
         | Inl err \<Rightarrow> \<lparr>cs_table = Some (save_custom existing ?t1), cs_catalog = invalidate_catalog ct2\<rparr>)}"
      using Some ex cf assms(2) by (auto simp: update_at_once custom_env_ok_def Let_def split: sum.splits option.splits)
    have "custom_inv (case res of Inr a \<Rightarrow> \<lparr>cs_table = Some ?t1, cs_catalog = ct2\<rparr>
         | Inl err \<Rightarrow> \<lparr>cs_table = Some (save_custom existing ?t1), cs_catalog = invalidate_catalog ct2\<rparr>)"
    proof (cases res)
      case (Inr a)
      then have "validate_agent (custom_to_agent (custom_of_record ?u)) = None" using rb(1) unfolding cf by (simp split: if_splits)
      then have "custom_row_ok (i, ?u)" using ids by (simp add: custom_row_ok_def)
      then have "keys_distinct ?t1 \<and> list_all custom_row_ok ?t1" unfolding t1 using rows_update [OF t(1,2)] by blast
      then show ?thesis using Inr len t(3) ad2 by (simp add: custom_inv_def)
    next
      case (Inl err)
      have "keys_distinct (AList.update i existing t) \<and> list_all custom_row_ok (AList.update i existing t)" using rows_update [OF t(1,2) row] .
      moreover have "length (AList.update i existing t) = length t" using ex by (simp add: length_update_alist)
      ultimately show ?thesis using Inl ad2 t(3) by (simp add: custom_inv_def invalidate_catalog_def undone)
    qed
    then show ?thesis using result assms(1) by auto
  qed
qed

lemma delete_inv:
  assumes "custom_inv st"
  shows "custom_inv (snd (delete_custom_agent e i st))"
  using assms rows_delete [of _ custom_row_ok i]
  by (auto simp: delete_custom_agent_def custom_inv_def invalidate_catalog_def split: option.splits intro: le_trans)

interpretation custom: invariant_machine custom_step custom_inv custom_event_ok
  by unfold_locales (auto simp: custom_step_def custom_event_ok_def create_inv update_inv delete_inv split: custom_event.splits)

text \<open>
  Requests handled one after the other leave nothing invalid behind: whichever of the store's calls but the listing and
  the undoing fail, the table holds at most fifty agents under distinct ids, each of which passes the catalog's validation;
  an edit or a new agent that the catalog rejects is taken back. What holds of overlapping requests is in
  \<open>Custom_Agents_Races\<close>.
\<close>

theorem custom_agents_stay_valid:
  assumes "list_all custom_event_ok evs" "distinct (map ca_id adapters)"
  shows "(case cs_table (run custom_step \<lparr>cs_table = Some [], cs_catalog = new_catalog su adapters\<rparr> evs) of
      None \<Rightarrow> True
    | Some t \<Rightarrow> length t \<le> 50 \<and> distinct (map fst t) \<and>
        list_all (\<lambda>(i, r). cr_id r = i \<and> validate_agent (custom_to_agent (custom_of_record r)) = None) t)"
proof -
  have "custom_inv \<lparr>cs_table = Some [], cs_catalog = new_catalog su adapters\<rparr>"
    using assms(2) by (simp add: custom_inv_def new_catalog_def refresh_locked_def)
  from custom.run_inv [OF this assms(1)] show ?thesis
    by (auto simp: custom_inv_def custom_row_ok_def max_agents_def keys_distinct_def list_all_iff split: option.splits)
qed

definition some_custom_env :: custom_env where
  "some_custom_env = \<lparr>ce_host = some_host, ce_logos = (Map.empty, []), ce_registry = No_Registry, ce_now = 1, ce_fails = (\<lambda>c. False), ce_runtimes = []\<rparr>"

theorem custom_agents_stay_valid_witness:
  "(case cs_table (run custom_step \<lparr>cs_table = Some [], cs_catalog = new_catalog (surroundings_of some_custom_env []) []\<rparr>
      [Do_Create some_custom_env \<lparr>cc_name = ''Mine'', cc_command = ''/bin/mine'', cc_args = [], cc_hint = []\<rparr>,
       Do_Update some_custom_env ''custom-mine'' \<lparr>cp_name = None, cp_command = Some ''rm -rf'', cp_args = None, cp_hint = None\<rparr>]) of
      None \<Rightarrow> True
    | Some t \<Rightarrow> length t \<le> 50 \<and> distinct (map fst t) \<and>
        list_all (\<lambda>(i, r). cr_id r = i \<and> validate_agent (custom_to_agent (custom_of_record r)) = None) t)"
  by (rule custom_agents_stay_valid) (simp_all add: custom_event_ok_def custom_env_ok_def some_custom_env_def registry_view_ok_def)

text \<open>
  A request to create a custom agent either stores one new agent or leaves the table as it was. When it answers with an
  agent, that agent is stored under an id no stored agent had, launches the requested command with the requested
  arguments, and every other row is untouched; when it answers with an error, every id still maps to what it did.
\<close>

theorem create_stores_one_or_nothing:
  assumes "custom_inv st" "custom_env_ok e" "cs_table st = Some t" "create_custom_agent e req st = (res, st')"
  shows "\<exists>t'. cs_table st' = Some t' \<and>
    (case res of
       Inl err \<Rightarrow> map_of t' = map_of t
     | Inr a \<Rightarrow> map_of t (ca_id a) = None \<and> ca_source a = ''custom'' \<and> ca_valid a \<and>
         la_command (ca_launch a) = trim_space (cc_command req) \<and> la_args (ca_launch a) = cc_args req \<and>
         (\<exists>r. map_of t' = (map_of t)(ca_id a \<mapsto> r) \<and> cr_command r = trim_space (cc_command req) \<and> cr_args r = cc_args req))"
proof (cases res)
  case (Inl err)
  then show ?thesis using create_cases [OF assms] by (auto simp: delete_conv' fun_upd_idem)
next
  case (Inr a)
  then obtain r where r: "map_of t (cr_id r) = None" "cr_command r = trim_space (cc_command req)" "cr_args r = cc_args req"
      "a = enrich_agent (ce_logos e) (custom_row (ce_host e) (custom_of_record r))"
      "validate_agent (custom_to_agent (custom_of_record r)) = None" "cs_table st' = Some (AList.update (cr_id r) r t)"
    using create_cases [OF assms] by auto
  have "ca_id a = cr_id r" unfolding r(4) by (simp add: row_id custom_of_record_def)
  moreover have "ca_source a = ''custom'' \<and> ca_valid a \<and> la_command (ca_launch a) = cr_command r \<and> la_args (ca_launch a) = cr_args r"
    unfolding r(4) using r(5) by (simp add: enrich_agent_def custom_row_def custom_to_agent_def custom_of_record_def Let_def)
  ultimately show ?thesis using r Inr by (auto simp: update_conv')
qed

theorem create_stores_one_or_nothing_witness:
  "\<exists>t'. cs_table (snd (create_custom_agent some_custom_env \<lparr>cc_name = ''Mine'', cc_command = ''sh -c x'', cc_args = [], cc_hint = []\<rparr>
     \<lparr>cs_table = Some [], cs_catalog = new_catalog (surroundings_of some_custom_env []) []\<rparr>)) = Some t' \<and> map_of t' = Map.empty"
proof -
  let ?st = "\<lparr>cs_table = Some [], cs_catalog = new_catalog (surroundings_of some_custom_env []) []\<rparr>"
  let ?req = "\<lparr>cc_name = ''Mine'', cc_command = ''sh -c x'', cc_args = [], cc_hint = []\<rparr>"
  have inv: "custom_inv ?st" by (simp add: custom_inv_def new_catalog_def refresh_locked_def)
  have env: "custom_env_ok some_custom_env" by (simp add: custom_env_ok_def some_custom_env_def registry_view_ok_def)
  obtain res st' where c: "create_custom_agent some_custom_env ?req ?st = (res, st')" by fastforce
  have rejected: "\<forall>a. res \<noteq> Inr a"
  proof (intro allI notI)
    fix a assume "res = Inr a"
    then obtain r where r: "cr_command r = trim_space ''sh -c x''" "validate_agent (custom_to_agent (custom_of_record r)) = None"
      using create_cases [OF inv env _ c, of "[]"] by auto
    have "validate_detection (ca_detection (custom_to_agent (custom_of_record r))) = None" by (rule validate_agent_ok [OF r(2)])
    moreover have "validate_detection \<lparr>dt_mode = ''path_lookup'', dt_command = trim_space ''sh -c x'', dt_path = []\<rparr> \<noteq> None" by code_simp
    ultimately show False using r(1) by (simp add: custom_to_agent_def custom_of_record_def)
  qed
  have "\<exists>t'. cs_table st' = Some t' \<and> (case res of Inl err \<Rightarrow> map_of t' = map_of [] | Inr a \<Rightarrow> True)"
    using create_stores_one_or_nothing [OF inv env _ c, of "[]"] by (auto split: sum.splits)
  then show ?thesis unfolding c using rejected by (cases res) auto
qed

end
