(* ===== verification/Custom_Agents_Races.thy ===== *)
theory Custom_Agents_Races
  imports Custom_Agents_Proofs
begin

text \<open>
  Requests for custom agents that overlap (\<^verbatim>\<open>internal/customagents/service.go\<close>). Between its checks, its save and its reading
  back a request holds no lock, so any number of others may run. A request that has begun is in \<open>ra_pending\<close> with the part
  it has come to; any of them may take its next step at any time.
\<close>

section \<open>Overlapping requests\<close>

datatype custom_pending = Creating custom_record | Created string | Updating custom_record custom_record | Updated custom_record

record custom_races =
  ra_state :: custom_state
  ra_pending :: "custom_pending list"

datatype custom_race = Race_Create custom_env custom_create | Race_Update custom_env string custom_update | Race_Delete custom_env string
  | Race_Go custom_env nat

definition begin_custom :: "custom_pending option \<times> custom_state \<Rightarrow> custom_races \<Rightarrow> custom_races" where
  "begin_custom ps m = \<lparr>ra_state = snd ps, ra_pending = ra_pending m @ (case fst ps of None \<Rightarrow> [] | Some p \<Rightarrow> [p])\<rparr>"

text \<open>The next part of a request, and what is left of it.\<close>

definition go_custom :: "custom_env \<Rightarrow> custom_pending \<Rightarrow> custom_state \<Rightarrow> custom_pending option \<times> custom_state" where
  "go_custom e p st =
     (case p of
        Creating r \<Rightarrow> (case store_custom e r st of (Some _, st1) \<Rightarrow> (None, st1) | (None, st1) \<Rightarrow> (Some (Created (cr_id r)), st1))
      | Created i \<Rightarrow> (None, snd (read_created e i st))
      | Updating old new \<Rightarrow> (case store_custom e new st of (Some _, st1) \<Rightarrow> (None, st1) | (None, st1) \<Rightarrow> (Some (Updated old), st1))
      | Updated old \<Rightarrow> (None, snd (read_updated e (cr_id old) old st)))"

definition race_step :: "custom_races \<Rightarrow> custom_race \<Rightarrow> custom_races" where
  "race_step m ev =
     (case ev of
        Race_Create e req \<Rightarrow>
          (case check_create e req (ra_state m) of
             (Inl _, st) \<Rightarrow> begin_custom (None, st) m
           | (Inr r, st) \<Rightarrow> begin_custom (Some (Creating r), st) m)
      | Race_Update e i up \<Rightarrow>
          (case check_update e i up (ra_state m) of
             Inl _ \<Rightarrow> m
           | Inr (old, new) \<Rightarrow> begin_custom (Some (Updating old new), ra_state m) m)
      | Race_Delete e i \<Rightarrow> m\<lparr>ra_state := snd (delete_custom_agent e i (ra_state m))\<rparr>
      | Race_Go e n \<Rightarrow>
          if n < length (ra_pending m) then
            (case go_custom e (ra_pending m ! n) (ra_state m) of
               (p, st) \<Rightarrow>
                 \<lparr>ra_state = st,
                  ra_pending = take n (ra_pending m) @ (case p of None \<Rightarrow> [] | Some p \<Rightarrow> [p]) @ drop (Suc n) (ra_pending m)\<rparr>)
          else m)"

section \<open>How many agents there can be\<close>

text \<open>The ids an edit in progress may still write, and the new agents about to be written.\<close>

definition edited_id :: "custom_pending \<Rightarrow> string set" where
  "edited_id p = (case p of Updating old new \<Rightarrow> {cr_id old} | Updated old \<Rightarrow> {cr_id old} | _ \<Rightarrow> {})"

definition about_to_add :: "custom_pending \<Rightarrow> bool" where
  "about_to_add p = (case p of Creating _ \<Rightarrow> True | _ \<Rightarrow> False)"

definition reserved_ids :: "custom_table \<Rightarrow> custom_pending list \<Rightarrow> string set" where
  "reserved_ids t ps = fst ` set t \<union> (\<Union>p \<in> set ps. edited_id p)"

definition reserved :: "custom_table \<Rightarrow> custom_pending list \<Rightarrow> nat" where
  "reserved t ps = card (reserved_ids t ps) + length (filter about_to_add ps)"

definition fields_ok :: "custom_record \<Rightarrow> bool" where
  "fields_ok r \<longleftrightarrow> validate_custom_agent_fields (cr_name r) (cr_command r) (cr_args r) = None"

definition part_ok :: "custom_pending \<Rightarrow> bool" where
  "part_ok p =
     (case p of
        Creating r \<Rightarrow> fields_ok r
      | Created _ \<Rightarrow> True
      | Updating old new \<Rightarrow> fields_ok old \<and> fields_ok new \<and> cr_id new = cr_id old
      | Updated old \<Rightarrow> fields_ok old)"

definition races_ok :: "nat \<Rightarrow> custom_races \<Rightarrow> bool" where
  "races_ok k m \<longleftrightarrow>
     (case cs_table (ra_state m) of
        None \<Rightarrow> False
      | Some t \<Rightarrow> keys_distinct t \<and> list_all (\<lambda>(i, r). cr_id r = i \<and> fields_ok r) t \<and> list_all part_ok (ra_pending m) \<and>
          reserved t (ra_pending m) < max_agents + k)"

lemma finite_reserved [simp]: "finite (reserved_ids t ps)"
  by (auto simp: reserved_ids_def edited_id_def split: custom_pending.split)

lemma reserved_append: "reserved_ids t (xs @ ys) = reserved_ids t xs \<union> reserved_ids [] ys"
  by (auto simp: reserved_ids_def)

lemma reserved_Cons: "reserved_ids t (p # ps) = edited_id p \<union> reserved_ids t ps"
  by (auto simp: reserved_ids_def)

lemma reserved_mono: "reserved_ids t ps \<subseteq> reserved_ids t' ps' \<Longrightarrow> length (filter about_to_add ps) \<le> length (filter about_to_add ps') \<Longrightarrow>
    reserved t ps \<le> reserved t' ps'"
  using card_mono [of "reserved_ids t' ps'" "reserved_ids t ps"] by (simp add: reserved_def)

lemma reserved_ids_card: "card (reserved_ids t ps) \<le> length t + length (filter (\<lambda>p. \<not> about_to_add p) ps)"
proof (induction ps)
  case Nil
  then show ?case using card_length [of "map fst t"] by (simp add: reserved_ids_def)
next
  case (Cons p ps)
  have "card (edited_id p) \<le> (if about_to_add p then 0 else 1)" by (simp add: edited_id_def about_to_add_def split: custom_pending.split)
  then show ?case using Cons.IH card_Un_le [of "edited_id p" "reserved_ids t ps"] unfolding reserved_Cons by (simp split: if_splits)
qed

lemma reserved_le: "reserved t ps \<le> length t + length ps"
  using reserved_ids_card [of t ps] sum_length_filter_compl [of about_to_add ps] by (simp add: reserved_def)

text \<open>The table after the parts of a request.\<close>

lemma table_after [simp]:
  "cs_table (snd (check_create e req st)) = cs_table st"
  by (auto simp: check_create_def Let_def split: option.split sum.split prod.split)

lemma check_create_ok:
  assumes "check_create e req st = (Inr r, st')" "cs_table st = Some t"
  shows "fields_ok r \<and> length t < max_agents"
  using assms by (auto simp: check_create_def fields_ok_def Let_def split: option.splits sum.splits prod.splits if_splits)

lemma store_custom_table:
  assumes "store_custom e r st = (err, st')" "cs_table st = Some t"
  shows "cs_table st' = (if err = None then Some (save_custom r t) else Some t)"
  using assms by (auto simp: store_custom_def split: if_splits)

lemma read_created_table: "cs_table st = Some t \<Longrightarrow> cs_table (snd (read_created e i st)) \<in> {Some t, Some (AList.delete i t)}"
  by (simp add: read_created_def split: sum.split prod.split)

lemma read_updated_table: "cs_table st = Some t \<Longrightarrow> cs_table (snd (read_updated e i old st)) \<in> {Some t, Some (save_custom old t)}"
  by (simp add: read_updated_def split: sum.split prod.split)

lemma delete_custom_table: "cs_table st = Some t \<Longrightarrow> cs_table (snd (delete_custom_agent e i st)) \<in> {Some t, Some (AList.delete i t)}"
  by (simp add: delete_custom_agent_def)

lemma save_custom_keys: "fst ` set (save_custom r t) = insert (cr_id r) (fst ` set t)"
  by (simp add: save_custom_def dom_update split: option.split)

lemma delete_keys: "fst ` set (AList.delete i t) = fst ` set t - {i}"
  by (auto simp: AList.delete_eq)

definition rows_fit :: "custom_table \<Rightarrow> bool" where
  "rows_fit t \<longleftrightarrow> keys_distinct t \<and> list_all (\<lambda>(i, r). cr_id r = i \<and> fields_ok r) t"

lemma rows_fit_save:
  assumes "rows_fit t" "fields_ok r"
  shows "rows_fit (save_custom r t)"
proof -
  have "keys_distinct (AList.update (cr_id r) x t) \<and> list_all (\<lambda>(i, r). cr_id r = i \<and> fields_ok r) (AList.update (cr_id r) x t)"
    if "cr_id x = cr_id r" "fields_ok x" for x
    using rows_update [of t "\<lambda>(i, r). cr_id r = i \<and> fields_ok r" "cr_id r" x] assms(1) that by (simp add: rows_fit_def)
  then show ?thesis using assms(2) by (auto simp: save_custom_def rows_fit_def fields_ok_def split: option.split)
qed

lemma rows_fit_delete: "rows_fit t \<Longrightarrow> rows_fit (AList.delete i t)"
  using rows_delete [of t "\<lambda>(i, r). cr_id r = i \<and> fields_ok r" i] by (simp add: rows_fit_def)

lemma races_ok_iff:
  "races_ok k m \<longleftrightarrow> (\<exists>t. cs_table (ra_state m) = Some t \<and> rows_fit t \<and> list_all part_ok (ra_pending m) \<and>
     reserved t (ra_pending m) < max_agents + k)"
  by (auto simp: races_ok_def rows_fit_def split: option.split)

lemma reserved_split:
  "reserved_ids t (xs @ p # ys) = edited_id p \<union> reserved_ids t (xs @ ys)"
  by (auto simp: reserved_ids_def)

text \<open>One part of a pending request keeps what is reserved.\<close>

lemma go_custom_keeps:
  assumes "cs_table st = Some t" "rows_fit t" "list_all part_ok (xs @ p # ys)" "go_custom e p st = (q, st')"
  shows "\<exists>t'. cs_table st' = Some t' \<and> rows_fit t' \<and> list_all part_ok (xs @ (case q of None \<Rightarrow> [] | Some q \<Rightarrow> [q]) @ ys) \<and>
    reserved t' (xs @ (case q of None \<Rightarrow> [] | Some q \<Rightarrow> [q]) @ ys) \<le> reserved t (xs @ p # ys)"
proof -
  have p: "part_ok p" and rest: "list_all part_ok (xs @ ys)" using assms(3) by simp_all
  have drop: "reserved t (xs @ ys) \<le> reserved t (xs @ p # ys)"
    by (rule reserved_mono) (auto simp: reserved_split)
  show ?thesis
  proof (cases p)
    case (Creating r)
    obtain err st1 where s: "store_custom e r st = (err, st1)" by fastforce
    note tab = store_custom_table [OF s assms(1)]
    show ?thesis
    proof (cases err)
      case None
      let ?t = "save_custom r t"
      have q: "q = Some (Created (cr_id r))" "st' = st1" using assms(4) s None Creating by (simp_all add: go_custom_def)
      have "reserved_ids ?t (xs @ Created (cr_id r) # ys) = insert (cr_id r) (reserved_ids t (xs @ ys))"
        by (auto simp: reserved_ids_def save_custom_keys edited_id_def)
      then have "reserved ?t (xs @ Created (cr_id r) # ys) \<le> reserved t (xs @ p # ys)"
        using card_insert_le_m1 [of "Suc (card (reserved_ids t (xs @ ys)))" "reserved_ids t (xs @ ys)" "cr_id r"]
        by (simp add: reserved_def Creating about_to_add_def reserved_split edited_id_def card_insert_if)
      moreover have "rows_fit ?t" using rows_fit_save [OF assms(2)] p Creating by (simp add: part_ok_def)
      ultimately show ?thesis using q None tab rest by (simp add: part_ok_def)
    next
      case (Some x)
      then have "q = None" "st' = st1" using assms(4) s Creating by (simp_all add: go_custom_def)
      then show ?thesis using Some tab rest assms(2) drop by simp
    qed
  next
    case (Created i)
    then have q: "q = None" "st' = snd (read_created e i st)" using assms(4) by (simp_all add: go_custom_def)
    have "reserved (AList.delete i t) (xs @ ys) \<le> reserved t (xs @ ys)"
      by (rule reserved_mono) (auto simp: reserved_ids_def delete_keys)
    then show ?thesis using read_created_table [OF assms(1), of e i] q rest assms(2) rows_fit_delete [OF assms(2)] drop by auto
  next
    case (Updating old new)
    obtain err st1 where s: "store_custom e new st = (err, st1)" by fastforce
    note tab = store_custom_table [OF s assms(1)]
    show ?thesis
    proof (cases err)
      case None
      let ?t = "save_custom new t"
      have q: "q = Some (Updated old)" "st' = st1" using assms(4) s None Updating by (simp_all add: go_custom_def)
      have new: "cr_id new = cr_id old" "fields_ok new" "fields_ok old" using p Updating by (simp_all add: part_ok_def)
      have "reserved ?t (xs @ Updated old # ys) \<le> reserved t (xs @ p # ys)"
        by (rule reserved_mono) (auto simp: reserved_ids_def save_custom_keys edited_id_def Updating new about_to_add_def)
      then show ?thesis using q None tab rest rows_fit_save [OF assms(2) new(2)] new by (simp add: part_ok_def)
    next
      case (Some x)
      then have "q = None" "st' = st1" using assms(4) s Updating by (simp_all add: go_custom_def)
      then show ?thesis using Some tab rest assms(2) drop by simp
    qed
  next
    case (Updated old)
    then have q: "q = None" "st' = snd (read_updated e (cr_id old) old st)" using assms(4) by (simp_all add: go_custom_def)
    have old: "fields_ok old" using p Updated by (simp add: part_ok_def)
    have "reserved (save_custom old t) (xs @ ys) \<le> reserved t (xs @ p # ys)"
      by (rule reserved_mono) (auto simp: reserved_ids_def save_custom_keys edited_id_def Updated)
    then show ?thesis using read_updated_table [OF assms(1), of e "cr_id old" old] q rest assms(2) rows_fit_save [OF assms(2) old] drop by auto
  qed
qed

lemma race_step_ok:
  assumes "races_ok k m" "length (ra_pending (race_step m ev)) \<le> k"
  shows "races_ok k (race_step m ev)"
proof -
  obtain t where t: "cs_table (ra_state m) = Some t" "rows_fit t" "list_all part_ok (ra_pending m)" "reserved t (ra_pending m) < max_agents + k"
    using assms(1) by (auto simp: races_ok_iff)
  show ?thesis
  proof (cases ev)
    case (Race_Create e req)
    obtain res st where c: "check_create e req (ra_state m) = (res, st)" by fastforce
    have tab: "cs_table st = Some t" using table_after [of e req "ra_state m"] t(1) unfolding c by simp
    show ?thesis
    proof (cases res)
      case (Inl err)
      then show ?thesis using Race_Create c tab t by (simp add: race_step_def begin_custom_def races_ok_iff)
    next
      case (Inr r)
      note ok = check_create_ok [OF c [unfolded Inr] t(1)]
      have step: "race_step m ev = \<lparr>ra_state = st, ra_pending = ra_pending m @ [Creating r]\<rparr>"
        using Race_Create c Inr by (simp add: race_step_def begin_custom_def)
      have "reserved t (ra_pending m @ [Creating r]) < max_agents + k"
        using reserved_le [of t "ra_pending m @ [Creating r]"] ok assms(2) unfolding step by simp
      then show ?thesis unfolding step using tab t ok by (simp add: races_ok_iff part_ok_def)
    qed
  next
    case (Race_Update e i up)
    show ?thesis
    proof (cases "check_update e i up (ra_state m)")
      case (Inr on)
      obtain old new where on: "on = (old, new)" by fastforce
      have u: "map_of t i = Some old" "fields_ok new" "cr_id new = cr_id old"
        using Inr t(1) by (auto simp: on check_update_def fields_ok_def Let_def split: option.splits if_splits)
      then have old: "cr_id old = i" "fields_ok old" using t(2) by (auto simp: rows_fit_def list_all_iff dest!: map_of_SomeD)
      have step: "race_step m ev = \<lparr>ra_state = ra_state m, ra_pending = ra_pending m @ [Updating old new]\<rparr>"
        using Race_Update Inr on by (simp add: race_step_def begin_custom_def)
      have "i \<in> fst ` set t" using map_of_SomeD [OF u(1)] by (rule rev_image_eqI) simp
      then have "reserved t (ra_pending m @ [Updating old new]) \<le> reserved t (ra_pending m)"
        by (intro reserved_mono) (auto simp: reserved_ids_def edited_id_def old about_to_add_def)
      then show ?thesis unfolding step using t u old by (simp add: races_ok_iff part_ok_def)
    qed (use Race_Update assms(1) in \<open>simp add: race_step_def\<close>)
  next
    case (Race_Delete e i)
    have "reserved (AList.delete i t) (ra_pending m) \<le> reserved t (ra_pending m)"
      by (rule reserved_mono) (auto simp: reserved_ids_def delete_keys)
    then show ?thesis using Race_Delete t delete_custom_table [OF t(1), of e i] rows_fit_delete [OF t(2)]
      by (auto simp: race_step_def races_ok_iff)
  next
    case (Race_Go e n)
    show ?thesis
    proof (cases "n < length (ra_pending m)")
      case True
      define xs ys p where "xs = take n (ra_pending m)" and "ys = drop (Suc n) (ra_pending m)" and "p = ra_pending m ! n"
      obtain q st where g: "go_custom e p (ra_state m) = (q, st)" by fastforce
      have all: "ra_pending m = xs @ p # ys" unfolding xs_def ys_def p_def by (rule id_take_nth_drop [OF True])
      obtain t' where t': "cs_table st = Some t'" "rows_fit t'" "list_all part_ok (xs @ (case q of None \<Rightarrow> [] | Some q \<Rightarrow> [q]) @ ys)"
        "reserved t' (xs @ (case q of None \<Rightarrow> [] | Some q \<Rightarrow> [q]) @ ys) \<le> reserved t (ra_pending m)"
        using go_custom_keeps [OF t(1,2) t(3) [unfolded all] g] unfolding all by blast
      have "race_step m ev = \<lparr>ra_state = st, ra_pending = xs @ (case q of None \<Rightarrow> [] | Some q \<Rightarrow> [q]) @ ys\<rparr>"
        using Race_Go True g by (simp add: race_step_def xs_def ys_def p_def)
      then show ?thesis using t' t(4) by (auto simp: races_ok_iff)
    qed (use Race_Go assms(1) in \<open>simp add: race_step_def\<close>)
  qed
qed

definition at_most_pending :: "nat \<Rightarrow> custom_races \<Rightarrow> custom_race list \<Rightarrow> bool" where
  "at_most_pending k m evs \<longleftrightarrow> list_all (\<lambda>n. length (ra_pending (run race_step m (take n evs))) \<le> k) [0..<Suc (length evs)]"

lemma races_ok_run:
  assumes "races_ok k m" "at_most_pending k m evs"
  shows "races_ok k (run race_step m evs)"
  using assms(2)
proof (induction evs rule: rev_induct)
  case (snoc ev evs)
  have "at_most_pending k m evs"
    unfolding at_most_pending_def list_all_iff
  proof
    fix n assume "n \<in> set [0..<Suc (length evs)]"
    then show "length (ra_pending (run race_step m (take n evs))) \<le> k"
      using snoc.prems unfolding at_most_pending_def list_all_iff by (auto dest!: bspec [of _ _ n])
  qed
  moreover have "length (ra_pending (run race_step m (evs @ [ev]))) \<le> k"
    using snoc.prems unfolding at_most_pending_def list_all_iff by (auto dest!: bspec [of _ _ "Suc (length evs)"])
  ultimately show ?case using race_step_ok [of k "run race_step m evs" ev] snoc.IH by (simp add: run_append)
qed (use assms(1) in simp)

text \<open>
  C29: However requests for custom agents overlap (\<^verbatim>\<open>Create\<close>, \<^verbatim>\<open>Update\<close> and \<^verbatim>\<open>Delete\<close> of \<^verbatim>\<open>internal/customagents/service.go\<close>),
  and whichever calls of the store fail: when at most k creations and edits are under way at any time, the table never
  holds 50 + k agents or more, so with one at a time at most fifty. The rows have distinct ids, each row is filed under its
  own id, and each has a name, a command and arguments within the documented limits.
\<close>

theorem custom_agents_bounded:
  assumes "m = run race_step \<lparr>ra_state = \<lparr>cs_table = Some [], cs_catalog = ct\<rparr>, ra_pending = []\<rparr> evs"
    and "at_most_pending k \<lparr>ra_state = \<lparr>cs_table = Some [], cs_catalog = ct\<rparr>, ra_pending = []\<rparr> evs"
  shows "\<exists>t. cs_table (ra_state m) = Some t \<and> length t < 50 + k \<and> distinct (map fst t) \<and>
    list_all (\<lambda>(i, r). cr_id r = i \<and> validate_custom_agent_fields (cr_name r) (cr_command r) (cr_args r) = None) t"
proof -
  have "races_ok k \<lparr>ra_state = \<lparr>cs_table = Some [], cs_catalog = ct\<rparr>, ra_pending = []\<rparr>"
    by (simp add: races_ok_iff rows_fit_def keys_distinct_def reserved_def reserved_ids_def max_agents_def)
  from races_ok_run [OF this assms(2)] obtain t where t: "cs_table (ra_state m) = Some t" "rows_fit t" "reserved t (ra_pending m) < 50 + k"
    unfolding assms(1) races_ok_iff max_agents_def by blast
  have "length t = card (fst ` set t)" using t(2) distinct_card [of "map fst t"] by (simp add: rows_fit_def keys_distinct_def)
  also have "\<dots> \<le> reserved t (ra_pending m)"
    using card_mono [of "reserved_ids t (ra_pending m)" "fst ` set t"] by (simp add: reserved_def) (auto simp: reserved_ids_def)
  finally show ?thesis using t by (auto simp: rows_fit_def keys_distinct_def fields_ok_def)
qed

definition no_customs :: custom_state where
  "no_customs = \<lparr>cs_table = Some [], cs_catalog = new_catalog (surroundings_of some_custom_env []) []\<rparr>"

definition some_create :: "string \<Rightarrow> custom_create" where
  "some_create name = \<lparr>cc_name = name, cc_command = ''/bin/mine'', cc_args = [], cc_hint = []\<rparr>"

definition two_creates :: "custom_race list" where
  "two_creates = [Race_Create some_custom_env (some_create ''Mine''), Race_Create some_custom_env (some_create ''Yours''),
     Race_Go some_custom_env 0, Race_Go some_custom_env 1, Race_Go some_custom_env 0, Race_Go some_custom_env 0]"

theorem custom_agents_bounded_witness:
  "\<exists>t. cs_table (ra_state (run race_step \<lparr>ra_state = no_customs, ra_pending = []\<rparr> two_creates)) = Some t \<and> length t < 52 \<and>
     map fst t = [''custom-mine'', ''custom-yours'']"
proof -
  have two: "at_most_pending 2 \<lparr>ra_state = no_customs, ra_pending = []\<rparr> two_creates" by code_simp
  have rows: "map_option (map fst) (cs_table (ra_state (run race_step \<lparr>ra_state = no_customs, ra_pending = []\<rparr> two_creates)))
      = Some [''custom-mine'', ''custom-yours'']"
    by code_simp
  show ?thesis using custom_agents_bounded [OF refl two [unfolded no_customs_def]] rows
    unfolding no_customs_def by auto
qed

section \<open>Races\<close>

text \<open>Two new agents that pass the checks before either is saved: the table ends one over the limit.\<close>

theorem overlapping_creates_exceed_limit:
  assumes "check_create e1 req1 st = (Inr r1, st1)" "check_create e2 req2 st1 = (Inr r2, st2)"
    and "cs_table st = Some t" "length t = max_agents - 1" "cr_id r1 \<noteq> cr_id r2" "map_of t (cr_id r1) = None" "map_of t (cr_id r2) = None"
    and "\<not> ce_fails e1 Call_Save" "\<not> ce_fails e2 Call_Save"
  shows "\<exists>t'. cs_table (snd (store_custom e2 r2 (snd (store_custom e1 r1 st2)))) = Some t' \<and> length t' = max_agents + 1"
proof -
  have "cs_table st2 = Some t" using table_after [of e1 req1 st] table_after [of e2 req2 st1] assms(1-3) by simp
  then show ?thesis using assms(4-9)
    by (simp add: store_custom_def save_custom_def update_conv' length_update_alist max_agents_def)
qed

end
