(* ===== verification/Git_Output.thy ===== *)
theory Git_Output
  imports Go_Paths
begin

text \<open>
  What the gateway reads out of git's output (\<^verbatim>\<open>internal/workspace/git.go\<close>, \<^verbatim>\<open>history.go\<close>, \<^verbatim>\<open>compare.go\<close>, \<^verbatim>\<open>base.go\<close>,
  \<^verbatim>\<open>listfiles.go\<close>, \<^verbatim>\<open>worktree.go\<close>): pure functions from the text a command printed to the rows the API answers with, the
  checks on names a client supplies, and the resolution of a path inside a working directory. An index out of range,
  which stops the request in Go, is the value \<open>Panic\<close>.
\<close>

abbreviation line_feed :: char where "line_feed \<equiv> CHR ''\<newline>''"
abbreviation tab :: char where "tab \<equiv> CHR 0x09"
abbreviation nul :: char where "nul \<equiv> CHR 0x00"
abbreviation record_separator :: char where "record_separator \<equiv> CHR 0x1E"

definition max_file_read_bytes :: nat where "max_file_read_bytes = 1024 * 1024"

section \<open>Paths inside a working directory\<close>

datatype path_error = Path_Required | Path_Escapes | No_Working_Directory

text \<open>\<^verbatim>\<open>filepath.Abs\<close> in a process whose directory is \<open>cwd\<close> (\<open>None\<close> when it cannot be told).\<close>

definition path_abs :: "string option \<Rightarrow> string \<Rightarrow> string option" where
  "path_abs cwd p = (if path_is_abs p then Some (path_clean p) else map_option (\<lambda>d. path_join [d, p]) cwd)"

text \<open>\<open>eval\<close> is \<^verbatim>\<open>filepath.EvalSymlinks\<close>: \<open>None\<close> for a path that does not exist.\<close>

definition resolve_within_root ::
  "string option \<Rightarrow> (string \<Rightarrow> string option) \<Rightarrow> string \<Rightarrow> string \<Rightarrow> path_error + string" where
  "resolve_within_root cwd eval root rel =
     (if rel = [] then Inl Path_Required
      else if path_is_abs rel then Inl Path_Escapes
      else case path_abs cwd root of
             None \<Rightarrow> Inl No_Working_Directory
           | Some root_abs \<Rightarrow>
               let root_eval = (case eval root_abs of None \<Rightarrow> root_abs | Some r \<Rightarrow> r);
                   joined = path_join [root_abs, rel];
                   joined_eval = (case eval joined of None \<Rightarrow> joined | Some r \<Rightarrow> r)
               in if \<not> subpath_of joined root_abs then Inl Path_Escapes
                  else if \<not> subpath_of joined_eval root_eval then Inl Path_Escapes
                  else Inr joined)"

section \<open>Changed files\<close>

record changed_file =
  cf_path :: string
  cf_status :: string
  cf_added :: int
  cf_removed :: int
  cf_binary :: bool
  cf_dir :: bool
  cf_old :: string
  cf_staged :: bool

definition changed :: "string \<Rightarrow> string \<Rightarrow> changed_file" where
  "changed path status = \<lparr>cf_path = path, cf_status = status, cf_added = 0, cf_removed = 0, cf_binary = False,
     cf_dir = False, cf_old = [], cf_staged = False\<rparr>"

datatype 'a line_result = Skip | Panic | Row 'a

text \<open>\<^verbatim>\<open>afterFields\<close>: the first field and what follows the first \<open>n\<close> fields.\<close>

fun skip_fields :: "nat \<Rightarrow> string \<Rightarrow> string option" where
  "skip_fields 0 s = Some s"
| "skip_fields (Suc n) s = (case cut_at (CHR '' '') s of None \<Rightarrow> None | Some (_, rest) \<Rightarrow> skip_fields n rest)"

definition after_fields :: "string \<Rightarrow> nat \<Rightarrow> (string \<times> string) option" where
  "after_fields s n =
     (case skip_fields n s of
        None \<Rightarrow> None
      | Some rest \<Rightarrow> Some ((if n = 0 then s else fst (the (cut_at (CHR '' '') s))), rest))"

definition untracked_line :: "string \<Rightarrow> changed_file" where
  "untracked_line line = (let p = trim_space (drop 1 line) in (changed p ''?'')\<lparr>cf_dir := has_suffix p ''/''\<rparr>)"

text \<open>A line for a tracked change; \<open>kind\<close> is its first character.\<close>

definition tracked_line :: "char \<Rightarrow> string \<Rightarrow> changed_file line_result" where
  "tracked_line kind rest0 =
     (let fixed = (if kind = CHR ''2'' then 8 else if kind = CHR ''u'' then 9 else 7)
      in case after_fields rest0 1 of
           None \<Rightarrow> Skip
         | Some (xy, rest1) \<Rightarrow>
             if rest1 = [] then Skip
             else case after_fields rest1 1 of
                    None \<Rightarrow> Skip
                  | Some (sub, rest2) \<Rightarrow>
                      if rest2 = [] then Skip
                      else case after_fields rest2 (fixed - 2) of
                             None \<Rightarrow> Skip
                           | Some (_, rest3) \<Rightarrow>
                               let path = (if kind = CHR ''2'' then (case cut_at tab rest3 of None \<Rightarrow> [] | Some (dest, _) \<Rightarrow> dest) else rest3)
                               in if rest3 = [] \<or> path = [] then Skip
                                  else if xy = [] \<or> (xy ! 0 = CHR ''.'' \<and> length xy < 2) then Panic
                                  else
                                    let status = (if kind = CHR ''u'' then ''U'' else if xy ! 0 = CHR ''.'' then [xy ! 1] else [xy ! 0])
                                    in Row ((changed path status)
                                         \<lparr>cf_dir := has_suffix path ''/'' \<or> has_prefix sub ''S'',
                                          cf_staged := kind \<noteq> CHR ''u'' \<and> xy ! 0 \<noteq> CHR ''.''\<rparr>))"

definition status_line :: "string \<Rightarrow> changed_file line_result" where
  "status_line line =
     (case line of
        k # sp # rest \<Rightarrow>
          if sp \<noteq> CHR '' '' then Skip
          else if k = CHR ''?'' then Row (untracked_line line)
          else if k = CHR ''1'' \<or> k = CHR ''2'' \<or> k = CHR ''u'' then tracked_line k rest
          else Skip
      | _ \<Rightarrow> Skip)"

fun collect_rows :: "'a line_result list \<Rightarrow> 'a list option" where
  "collect_rows [] = Some []"
| "collect_rows (r # rs) =
     (case r of Skip \<Rightarrow> collect_rows rs | Panic \<Rightarrow> None | Row x \<Rightarrow> map_option ((#) x) (collect_rows rs))"

definition parse_git_status :: "string \<Rightarrow> changed_file list option" where
  "parse_git_status out = collect_rows (map status_line (split_at line_feed out))"

definition numstat_line :: "string \<Rightarrow> (string \<rightharpoonup> changed_file) \<Rightarrow> (string \<rightharpoonup> changed_file)" where
  "numstat_line line stats =
     (let parts = split_at tab line
      in if line = [] \<or> length parts < 3 then stats
         else
           let path = last parts; entry = changed path []
           in stats(path \<mapsto>
                (case (parse_int64 (parts ! 0), parse_int64 (parts ! 1)) of
                   (Some a, Some r) \<Rightarrow> entry\<lparr>cf_added := a, cf_removed := r\<rparr>
                 | _ \<Rightarrow> entry\<lparr>cf_binary := True\<rparr>)))"

definition parse_git_numstat :: "string \<Rightarrow> string \<rightharpoonup> changed_file" where
  "parse_git_numstat out = fold numstat_line (split_at line_feed out) Map.empty"

text \<open>\<^verbatim>\<open>nameStatusChanges\<close>: the rows, in order, of paths not seen before.\<close>

definition name_status_line :: "string \<Rightarrow> changed_file list \<times> string set \<Rightarrow> changed_file list \<times> string set" where
  "name_status_line line acc =
     (let fs = split_at tab line; path = last fs
      in if length fs < 2 \<or> fs ! 0 = [] \<or> path \<in> snd acc then acc
         else (fst acc @ [changed path (take 1 (fs ! 0))], insert path (snd acc)))"

definition name_status_changes :: "string \<Rightarrow> string set \<Rightarrow> changed_file list" where
  "name_status_changes out seen = fst (fold name_status_line (split_at line_feed out) ([], seen))"

text \<open>
  \<^verbatim>\<open>CountFileLines\<close> on the chunks the reads return, each of which holds at least one byte; \<open>got\<close> counts what was read.
\<close>

fun count_chunks :: "nat \<Rightarrow> int \<Rightarrow> bool \<Rightarrow> string list \<Rightarrow> int \<times> bool" where
  "count_chunks got lines ended [] = ((if ended then lines else lines + 1), False)"
| "count_chunks got lines ended (c # cs) =
     (if nul \<in> set c then (0, True)
      else
        let n = lines + int (length (filter (\<lambda>x. x = line_feed) c)); e = (last c = line_feed); t = got + length c
        in if t > max_file_read_bytes then ((if e then n else n + 1), False) else count_chunks t n e cs)"

definition count_file_lines :: "string list option \<Rightarrow> int \<times> bool" where
  "count_file_lines reads = (case reads of None \<Rightarrow> (0, False) | Some cs \<Rightarrow> count_chunks 0 0 True cs)"

definition truncate_string :: "string \<Rightarrow> nat \<Rightarrow> string option" where
  "truncate_string s n = (let t = take n s in if t = [] then None else Some t)"

section \<open>Commits\<close>

record ref =
  ref_name :: string
  ref_kind :: string
  ref_head :: bool

record commit =
  co_sha :: string
  co_parents :: "string list"
  co_subject :: string
  co_body :: string
  co_author :: string
  co_email :: string
  co_author_time :: int
  co_commit_time :: int
  co_pushed :: bool
  co_refs :: "ref list"

definition max_body_bytes :: nat where "max_body_bytes = 4 * 1024"
definition max_log_bytes :: nat where "max_log_bytes = 2 * 1024 * 1024"

text \<open>\<^verbatim>\<open>strings.Split(d, ", ")\<close>.\<close>

fun split_comma :: "string \<Rightarrow> string list" where
  "split_comma [] = [[]]"
| "split_comma [c] = [[c]]"
| "split_comma (a # b # s) =
     (if a = CHR '','' \<and> b = CHR '' '' then [] # split_comma s
      else (case split_comma (b # s) of [] \<Rightarrow> [[a]] | w # ws \<Rightarrow> (a # w) # ws))"

definition parse_ref_part :: "string \<Rightarrow> ref option" where
  "parse_ref_part part0 =
     (let (part, is_head) = (case cut_prefix part0 ''HEAD -> '' of Some rest \<Rightarrow> (rest, True) | None \<Rightarrow> (part0, False))
      in if part = ''HEAD'' then Some \<lparr>ref_name = ''HEAD'', ref_kind = ''head'', ref_head = False\<rparr>
         else if has_prefix part ''refs/heads/'' then Some \<lparr>ref_name = trim_prefix ''refs/heads/'' part, ref_kind = ''branch'', ref_head = is_head\<rparr>
         else if has_prefix part ''refs/remotes/'' then
           (let name = trim_prefix ''refs/remotes/'' part
            in if has_suffix name ''/HEAD'' then None else Some \<lparr>ref_name = name, ref_kind = ''remote'', ref_head = False\<rparr>)
         else if has_prefix part ''tag: refs/tags/'' then Some \<lparr>ref_name = trim_prefix ''tag: refs/tags/'' part, ref_kind = ''tag'', ref_head = False\<rparr>
         else None)"

definition parse_refs :: "string \<Rightarrow> ref list" where
  "parse_refs d = List.map_filter parse_ref_part (split_comma d)"

definition parse_int_or_zero :: "string \<Rightarrow> int" where
  "parse_int_or_zero s = (case parse_int64 s of None \<Rightarrow> 0 | Some n \<Rightarrow> n)"

text \<open>
  One record of the log. \<^verbatim>\<open>ParseInt\<close>'s value for a number out of range (the nearest one in range) is not modelled: the
  times are read from what git printed.
\<close>

definition parse_log_record :: "string \<Rightarrow> commit option" where
  "parse_log_record rec0 =
     (let rec = trim_prefix [line_feed] rec0; f = split_n 9 nul rec
      in if rec = [] \<or> length f < 9 then None
         else
           let body = trim_right {CHR '' '', tab, CHR 0x0D, line_feed} (f ! 8)
           in Some \<lparr>co_sha = f ! 0, co_parents = str_fields (f ! 1), co_subject = f ! 7, co_body = take max_body_bytes body,
                 co_author = f ! 2, co_email = f ! 3, co_author_time = parse_int_or_zero (f ! 4),
                 co_commit_time = parse_int_or_zero (f ! 5), co_pushed = False, co_refs = parse_refs (f ! 6)\<rparr>)"

definition parse_git_log :: "string \<Rightarrow> nat \<Rightarrow> commit list \<times> bool" where
  "parse_git_log out n =
     (let records = split_at record_separator out; cut = length out > n
      in (List.map_filter parse_log_record (if cut then butlast records else records), cut))"

section \<open>The files of a commit\<close>

text \<open>
  \<^verbatim>\<open>ParseDiffTree\<close>: the loop over the tokens, with the rows so far and where each path's row is. A rename takes two more
  tokens, any other raw entry one, a renamed file's counts two.
\<close>

type_synonym diff_rows = "changed_file list \<times> (string \<rightharpoonup> nat)"

definition add_raw :: "changed_file \<Rightarrow> diff_rows \<Rightarrow> diff_rows" where
  "add_raw cf acc = (fst acc @ [cf], (snd acc)(cf_path cf \<mapsto> length (fst acc)))"

definition add_counts :: "string \<Rightarrow> string \<Rightarrow> string \<Rightarrow> diff_rows \<Rightarrow> diff_rows" where
  "add_counts path a r acc =
     (case snd acc path of
        None \<Rightarrow> acc
      | Some j \<Rightarrow>
          ((fst acc)[j := (case (parse_int64 a, parse_int64 r) of
              (Some added, Some removed) \<Rightarrow> (fst acc ! j)\<lparr>cf_added := added, cf_removed := removed\<rparr>
            | _ \<Rightarrow> (fst acc ! j)\<lparr>cf_binary := True\<rparr>)], snd acc))"

function diff_tokens :: "string list \<Rightarrow> diff_rows \<Rightarrow> diff_rows" where
  "diff_tokens [] acc = acc"
| "diff_tokens (t # ts) acc =
     (if has_prefix t '':'' then
        (let f = str_fields t
         in if length f < 5 \<or> ts = [] then diff_tokens ts acc
            else
              let status = take 1 (f ! 4); is_dir = (f ! 0 = '':160000'' \<or> f ! 1 = ''160000'')
              in if status = ''R'' \<or> status = ''C'' then
                   (if length ts < 2 then diff_tokens ts acc
                    else diff_tokens (drop 2 ts) (add_raw ((changed (ts ! 1) status)\<lparr>cf_dir := is_dir, cf_old := ts ! 0\<rparr>) acc))
                 else diff_tokens (drop 1 ts) (add_raw ((changed (ts ! 0) status)\<lparr>cf_dir := is_dir\<rparr>) acc))
      else
        (let parts = split_n 3 tab t
         in if length parts < 3 then diff_tokens ts acc
            else if parts ! 2 = [] \<and> length ts \<ge> 2
            then diff_tokens (drop 2 ts) (add_counts (ts ! 1) (parts ! 0) (parts ! 1) acc)
            else diff_tokens ts (add_counts (parts ! 2) (parts ! 0) (parts ! 1) acc)))"
  by pat_completeness auto
termination by (relation "measure (\<lambda>(ts, acc). length ts)") auto

definition parse_diff_tree :: "string \<Rightarrow> changed_file list" where
  "parse_diff_tree out = fst (diff_tokens (split_at nul out) ([], Map.empty))"

section \<open>Names a client supplies\<close>

definition valid_ref_name :: "string \<Rightarrow> bool" where
  "valid_ref_name name \<longleftrightarrow>
     name \<noteq> [] \<and> \<not> has_prefix name ''-'' \<and>
     list_all (\<lambda>c. (of_char c :: nat) > 32 \<and> (of_char c :: nat) \<noteq> 127) name \<and>
     \<not> str_contains name ''..'' \<and> \<not> str_contains name (CHR ''@'' # ''{'') \<and>
     \<not> contains_any name (''~^:?*['' @ [CHR 0x5C])"

text \<open>\<^verbatim>\<open>isDigits\<close> asks \<^verbatim>\<open>strconv.ParseUint(s, 10, 64)\<close>: digits only, and below \<open>2 ^ 64\<close>.\<close>

definition is_digits :: "string \<Rightarrow> bool" where
  "is_digits s \<longleftrightarrow> s \<noteq> [] \<and> list_all is_digit s \<and> digits_value 0 s < 2 ^ 64"

definition sha_pattern :: "string \<Rightarrow> bool" where
  "sha_pattern s \<longleftrightarrow> 7 \<le> length s \<and> length s \<le> 64 \<and>
     list_all (\<lambda>c. is_digit c \<or> (97 \<le> (of_char c :: nat) \<and> (of_char c :: nat) \<le> 102)) s"

definition parse_pr_ref :: "string \<Rightarrow> (string \<times> string) option" where
  "parse_pr_ref name =
     (case split_at slash name of
        [a, b] \<Rightarrow> if (a = ''pr'' \<or> a = ''pull'') \<and> is_digits b then Some (''origin'', b) else None
      | [r, a, b] \<Rightarrow> if (a = ''pr'' \<or> a = ''pull'') \<and> is_digits b then Some (r, b) else None
      | _ \<Rightarrow> None)"

fun parse_remote_branch :: "string list \<Rightarrow> string \<Rightarrow> (string \<times> string) option" where
  "parse_remote_branch [] base = None"
| "parse_remote_branch (r # rs) base =
     (case cut_prefix base (r @ ''/'') of
        None \<Rightarrow> parse_remote_branch rs base
      | Some b \<Rightarrow> if b \<noteq> [] then Some (r, b) else parse_remote_branch rs base)"

definition split_null_paths :: "string \<Rightarrow> string list" where
  "split_null_paths out = (let ps = split_at nul out in if last ps = [] then butlast ps else ps)"

text \<open>\<^verbatim>\<open>worktreeDirName\<close> maps runes: every character that is not plain, of however many bytes, becomes one dash.\<close>

definition plain_name_char :: "char \<Rightarrow> bool" where
  "plain_name_char c \<longleftrightarrow> (let n = of_char c :: nat in
     (97 \<le> n \<and> n \<le> 122) \<or> (65 \<le> n \<and> n \<le> 90) \<or> (48 \<le> n \<and> n \<le> 57) \<or> c = CHR ''.'' \<or> c = CHR ''_'' \<or> c = CHR ''-'')"

definition worktree_dir_name :: "string \<Rightarrow> string" where
  "worktree_dir_name branch =
     map (\<lambda>c. if plain_name_char c then c else CHR ''-'') (filter (\<lambda>c. \<not> continuation_byte c) branch)"

section \<open>Worktree lists\<close>

record porcelain_worktree =
  pw_path :: string
  pw_head :: string
  pw_branch :: string
  pw_detached :: bool
  pw_bare :: bool
  pw_prunable :: bool

definition no_worktree :: porcelain_worktree where
  "no_worktree = \<lparr>pw_path = [], pw_head = [], pw_branch = [], pw_detached = False, pw_bare = False, pw_prunable = False\<rparr>"

definition flush_worktree :: "porcelain_worktree list \<times> porcelain_worktree \<Rightarrow> porcelain_worktree list \<times> porcelain_worktree" where
  "flush_worktree acc = ((if pw_path (snd acc) \<noteq> [] then fst acc @ [snd acc] else fst acc), no_worktree)"

definition worktree_line :: "string \<Rightarrow> porcelain_worktree list \<times> porcelain_worktree \<Rightarrow> porcelain_worktree list \<times> porcelain_worktree" where
  "worktree_line line0 acc =
     (let line = trim_right {CHR 0x0D} line0; cur = snd acc
      in if line = [] then flush_worktree acc
         else if has_prefix line ''worktree '' then
           (let acc' = flush_worktree acc in (fst acc', (snd acc')\<lparr>pw_path := trim_prefix ''worktree '' line\<rparr>))
         else if has_prefix line ''HEAD '' then (fst acc, cur\<lparr>pw_head := trim_prefix ''HEAD '' line\<rparr>)
         else if has_prefix line ''branch '' then (fst acc, cur\<lparr>pw_branch := trim_prefix ''refs/heads/'' (trim_prefix ''branch '' line)\<rparr>)
         else if line = ''detached'' then (fst acc, cur\<lparr>pw_detached := True\<rparr>)
         else if line = ''bare'' then (fst acc, cur\<lparr>pw_bare := True\<rparr>)
         else if has_prefix line ''prunable'' then (fst acc, cur\<lparr>pw_prunable := True\<rparr>)
         else acc)"

definition parse_worktree_list :: "string \<Rightarrow> porcelain_worktree list" where
  "parse_worktree_list out = fst (flush_worktree (fold worktree_line (split_at line_feed out) ([], no_worktree)))"

text \<open>\<^verbatim>\<open>branchStart\<close>'s reading of a reflog, newest first: the last entry that says the branch was created.\<close>

definition reflog_start :: "string \<Rightarrow> string option" where
  "reflog_start out =
     (case filter (\<lambda>l. case cut_at nul l of None \<Rightarrow> False
             | Some (sha, subject) \<Rightarrow> has_prefix subject ''branch: Created from'' \<and> trim_space sha \<noteq> [])
           (split_at line_feed (trim_space out)) of
        [] \<Rightarrow> None
      | ls \<Rightarrow> Some (trim_space (fst (the (cut_at nul (last ls))))))"

definition last_line :: "string \<Rightarrow> string" where
  "last_line s = trim_space (last (split_at line_feed (trim_space s)))"

end
