(* ===== verification/Git_Output_Proofs.thy ===== *)
theory Git_Output_Proofs
  imports Git_Output
begin

text \<open>
  The readings of git's output are right where git prints what it documents: a resolved path lies inside the working
  directory, what \<^verbatim>\<open>git status\<close> and \<^verbatim>\<open>git log\<close> print is read back, line counts do not depend on how a file was read.
\<close>

section \<open>Paths stay inside\<close>

lemma path_join_abs:
  assumes "path_is_abs root" "rel \<noteq> []"
  shows "path_join [root, rel] = path_clean (root @ ''/'' @ rel)" "path_is_abs (root @ ''/'' @ rel)"
proof -
  have "root \<noteq> []" using assms(1) by (auto simp: path_is_abs_def has_prefix_def)
  then show "path_join [root, rel] = path_clean (root @ ''/'' @ rel)" using assms(2) by (simp add: path_join_def)
  show "path_is_abs (root @ ''/'' @ rel)" using assms(1) by (cases root) (auto simp: path_is_abs_def has_prefix_def)
qed

lemma clean_parts_clean:
  assumes "path_is_abs p"
  shows "clean_parts (path_clean p) = clean_parts p"
proof -
  have plain: "list_all plain_part (clean_parts p)" by (rule clean_parts_plain [OF assms])
  have fold_id: "fold (clean_step True) xs acc = rev xs @ acc" if "list_all plain_part xs" for xs acc
    using that by (induction xs arbitrary: acc) (auto simp: plain_part_def)
  have abs: "path_is_abs (path_clean p)" by (rule path_is_abs_clean [OF assms])
  show ?thesis
  proof (cases "clean_parts p")
    case Nil
    then have "path_clean p = ''/''" using assms by (simp add: path_clean_abs)
    then show ?thesis using Nil by (simp add: clean_parts_def path_is_abs_def has_prefix_def)
  next
    case (Cons c cs)
    have "split_at slash (path_clean p) = [] # clean_parts p"
      using assms plain Cons split_join_slash [of "clean_parts p"] by (simp add: path_clean_abs)
    then have "clean_parts (path_clean p) = rev (fold (clean_step True) (clean_parts p) [])"
      using abs by (simp add: clean_parts_def [of "path_clean p"])
    then show ?thesis using fold_id [OF plain] by simp
  qed
qed

lemma path_abs_abs: "path_abs cwd p = Some q \<Longrightarrow> (\<And>d. cwd = Some d \<Longrightarrow> path_is_abs d) \<Longrightarrow> p \<noteq> [] \<Longrightarrow> path_is_abs q"
  using path_join_abs by (auto simp: path_abs_def path_is_abs_clean split: if_splits)

lemma resolve_inside:
  assumes "resolve_within_root cwd eval root rel = Inr p"
    and "path_abs cwd root = Some root_abs" "path_is_abs root_abs"
    and "\<forall>q r. eval q = Some r \<longrightarrow> path_is_abs r"
  shows "prefix (clean_parts root_abs) (clean_parts p) \<and> ''..'' \<notin> set (clean_parts p) \<and>
    (\<forall>real. eval p = Some real \<longrightarrow>
      prefix (clean_parts (case eval root_abs of None \<Rightarrow> root_abs | Some r \<Rightarrow> r)) (clean_parts real))"
proof -
  let ?re = "case eval root_abs of None \<Rightarrow> root_abs | Some r \<Rightarrow> r"
  have rel: "rel \<noteq> []" "p = path_join [root_abs, rel]" "subpath_of p root_abs"
    "subpath_of (case eval p of None \<Rightarrow> p | Some r \<Rightarrow> r) ?re"
    using assms(1,2) by (auto simp: resolve_within_root_def Let_def split: if_splits)
  have abs: "path_is_abs p"
    using path_join_abs [OF assms(3) rel(1)] path_is_abs_clean unfolding rel(2) by simp
  have "list_all plain_part (clean_parts p)" by (rule clean_parts_plain [OF abs])
  then have nodots: "''..'' \<notin> set (clean_parts p)" by (auto simp: list_all_iff plain_part_def)
  have re: "path_is_abs ?re" using assms(3,4) by (auto split: option.splits)
  have "prefix (clean_parts ?re) (clean_parts real)" if "eval p = Some real" for real
    using rel(4) that assms(4) subpath_of_abs [OF _ re, of real] by simp
  then show ?thesis using rel(3) subpath_of_abs [OF abs assms(3)] nodots by auto
qed

text \<open>
  C35: No requested path leaves the working directory (\<^verbatim>\<open>ResolveWithinRoot\<close>). When a relative path is accepted, the components
  of the answer begin with those of the root and hold no \<^verbatim>\<open>..\<close>, and where the path exists its real location, symbolic
  links resolved, is inside the root's real location.
\<close>

theorem resolved_path_stays_inside:
  assumes "resolve_within_root cwd eval root rel = Inr p"
    and "path_abs cwd root = Some root_abs" "path_is_abs root_abs"
    and "\<forall>q r. eval q = Some r \<longrightarrow> path_is_abs r"
  shows "prefix (clean_parts root_abs) (clean_parts p) \<and> ''..'' \<notin> set (clean_parts p) \<and>
    (\<forall>real. eval p = Some real \<longrightarrow>
      prefix (clean_parts (case eval root_abs of None \<Rightarrow> root_abs | Some r \<Rightarrow> r)) (clean_parts real))"
  by (rule resolve_inside [OF assms])

text \<open>A link \<^verbatim>\<open>/r/out\<close> to \<^verbatim>\<open>/etc\<close>, and nothing below it but \<^verbatim>\<open>/r/out/passwd\<close>.\<close>

definition some_links :: "string \<Rightarrow> string option" where
  "some_links p = (if p = ''/r'' then Some ''/r'' else if p = ''/r/a'' then Some ''/r/a''
     else if p = ''/r/out'' then Some ''/etc'' else if p = ''/r/out/passwd'' then Some ''/etc/passwd'' else None)"

theorem resolved_path_stays_inside_witness:
  "resolve_within_root None some_links ''/r'' ''x/../a'' = Inr ''/r/a'' \<and> prefix (clean_parts ''/r'') (clean_parts ''/r/a'')"
proof -
  have r: "resolve_within_root None some_links ''/r'' ''x/../a'' = Inr ''/r/a''" by code_simp
  have a: "path_abs None ''/r'' = Some ''/r''" "path_is_abs ''/r''" by code_simp+
  have e: "\<forall>q r. some_links q = Some r \<longrightarrow> path_is_abs r"
    by (auto simp: some_links_def path_is_abs_def has_prefix_def split: if_splits)
  show ?thesis using resolved_path_stays_inside [OF r a e] r by simp
qed

text \<open>
  The check only follows links of paths that exist: below a link that leads outside, an existing file is refused and the
  path of a file that does not exist yet is accepted.
\<close>

theorem missing_file_behind_link_accepted:
  "resolve_within_root None some_links ''/r'' ''out/passwd'' = Inl Path_Escapes \<and>
   resolve_within_root None some_links ''/r'' ''out/new'' = Inr ''/r/out/new''"
  by code_simp

section \<open>git status is read back\<close>

text \<open>The lines of \<^verbatim>\<open>git status --porcelain=v2\<close>: the state, the submodule field, the fixed fields, the path.\<close>

datatype porcelain_entry =
    Untracked string
  | Ordinary char char string "string list" string
  | Renamed char char string "string list" string string
  | Unmerged char char string "string list" string

definition print_fields :: "string list \<Rightarrow> string" where
  "print_fields fs = concat (map (\<lambda>f. f @ '' '') fs)"

fun print_entry :: "porcelain_entry \<Rightarrow> string" where
  "print_entry (Untracked p) = ''? '' @ p"
| "print_entry (Ordinary x y sub fs p) = ''1 '' @ [x, y] @ '' '' @ sub @ '' '' @ print_fields fs @ p"
| "print_entry (Renamed x y sub fs p q) = ''2 '' @ [x, y] @ '' '' @ sub @ '' '' @ print_fields fs @ p @ [tab] @ q"
| "print_entry (Unmerged x y sub fs p) = ''u '' @ [x, y] @ '' '' @ sub @ '' '' @ print_fields fs @ p"

definition status_letter :: "char \<Rightarrow> char \<Rightarrow> string" where
  "status_letter x y = (if x = CHR ''.'' then [y] else [x])"

fun entry_row :: "porcelain_entry \<Rightarrow> changed_file" where
  "entry_row (Untracked p) = (changed p ''?'')\<lparr>cf_dir := has_suffix p ''/''\<rparr>"
| "entry_row (Ordinary x y sub fs p) = (changed p (status_letter x y))\<lparr>cf_dir := has_suffix p ''/'' \<or> has_prefix sub ''S'', cf_staged := x \<noteq> CHR ''.''\<rparr>"
| "entry_row (Renamed x y sub fs p q) = (changed p (status_letter x y))\<lparr>cf_dir := has_suffix p ''/'' \<or> has_prefix sub ''S'', cf_staged := x \<noteq> CHR ''.''\<rparr>"
| "entry_row (Unmerged x y sub fs p) = (changed p ''U'')\<lparr>cf_dir := has_suffix p ''/'' \<or> has_prefix sub ''S'', cf_staged := False\<rparr>"

definition field_ok :: "string \<Rightarrow> bool" where
  "field_ok f \<longleftrightarrow> CHR '' '' \<notin> set f \<and> line_feed \<notin> set f"

text \<open>
  With \<^verbatim>\<open>core.quotePath=false\<close> git still quotes a path that holds a double quote, a backslash or a control character; every
  other path is printed as it is.
\<close>

definition raw_char :: "char \<Rightarrow> bool" where
  "raw_char c \<longleftrightarrow> 32 \<le> (of_char c :: nat) \<and> of_char c \<noteq> (127 :: nat) \<and> c \<noteq> CHR 0x22 \<and> c \<noteq> CHR 0x5C"

definition path_ok :: "string \<Rightarrow> bool" where
  "path_ok p \<longleftrightarrow> p \<noteq> [] \<and> list_all raw_char p"

lemma path_ok_chars: "path_ok p \<Longrightarrow> p \<noteq> [] \<and> line_feed \<notin> set p \<and> tab \<notin> set p"
proof -
  have "\<not> raw_char line_feed" "\<not> raw_char tab" by (simp_all add: raw_char_def)
  then show "path_ok p \<Longrightarrow> p \<noteq> [] \<and> line_feed \<notin> set p \<and> tab \<notin> set p" by (auto simp: path_ok_def list_all_iff)
qed

fun entry_ok :: "porcelain_entry \<Rightarrow> bool" where
  "entry_ok (Untracked p) = (path_ok p \<and> trim_space p = p)"
| "entry_ok (Ordinary x y sub fs p) = (field_ok [x, y] \<and> field_ok sub \<and> length fs = 5 \<and> list_all field_ok fs \<and> path_ok p)"
| "entry_ok (Renamed x y sub fs p q) = (field_ok [x, y] \<and> field_ok sub \<and> length fs = 6 \<and> list_all field_ok fs \<and> path_ok p \<and> path_ok q)"
| "entry_ok (Unmerged x y sub fs p) = (field_ok [x, y] \<and> field_ok sub \<and> length fs = 7 \<and> list_all field_ok fs \<and> path_ok p)"

lemma skip_print_fields: "list_all field_ok fs \<Longrightarrow> skip_fields (length fs) (print_fields fs @ p) = Some p"
  by (induction fs) (auto simp: print_fields_def field_ok_def cut_at_append)

lemma after_one: "field_ok f \<Longrightarrow> after_fields (f @ CHR '' '' # rest) 1 = Some (f, rest)"
  by (simp add: after_fields_def cut_at_append field_ok_def)

lemma after_many: "list_all field_ok fs \<Longrightarrow> length fs = n \<Longrightarrow> 0 < n \<Longrightarrow> \<exists>f. after_fields (print_fields fs @ p) n = Some (f, p)"
  using skip_print_fields [of fs p] by (auto simp: after_fields_def)

lemma print_fields_nonempty: "fs \<noteq> [] \<Longrightarrow> print_fields fs \<noteq> []"
  by (cases fs) (simp_all add: print_fields_def)

lemma tracked_line_reads:
  assumes "field_ok [x, y]" "field_ok sub" "list_all field_ok fs" "rest \<noteq> []" "0 < length fs"
    and "length fs = (if kind = CHR ''2'' then 6 else if kind = CHR ''u'' then 7 else 5)"
    and "path = (if kind = CHR ''2'' then (case cut_at tab rest of None \<Rightarrow> [] | Some (dest, _) \<Rightarrow> dest) else rest)" "path \<noteq> []"
  shows "tracked_line kind ([x, y] @ '' '' @ sub @ '' '' @ print_fields fs @ rest) =
    Row ((changed path (if kind = CHR ''u'' then ''U'' else status_letter x y))
      \<lparr>cf_dir := has_suffix path ''/'' \<or> has_prefix sub ''S'', cf_staged := kind \<noteq> CHR ''u'' \<and> x \<noteq> CHR ''.''\<rparr>)"
proof -
  let ?r2 = "print_fields fs @ rest"
  let ?fixed = "(if kind = CHR ''2'' then 8 else if kind = CHR ''u'' then 9 else 7) - 2 :: nat"
  have n: "?fixed = length fs" using assms(6) by auto
  obtain f where f: "after_fields ?r2 ?fixed = Some (f, rest)" using after_many [OF assms(3) n [symmetric]] assms(5) n by auto
  have one: "after_fields ([x, y] @ '' '' @ sub @ '' '' @ ?r2) 1 = Some ([x, y], sub @ '' '' @ ?r2)"
    using after_one [OF assms(1), of "sub @ '' '' @ ?r2"] by simp
  have two: "after_fields (sub @ '' '' @ ?r2) 1 = Some (sub, ?r2)" using after_one [OF assms(2), of ?r2] by simp
  show ?thesis
    unfolding tracked_line_def Let_def one two prod.case option.case
    using f assms(4,7,8) by (simp add: status_letter_def)
qed

lemma status_line_reads: "entry_ok en \<Longrightarrow> status_line (print_entry en) = Row (entry_row en)"
proof (cases en)
  case (Untracked p)
  assume "entry_ok en"
  moreover have "trim_space (CHR '' '' # p) = trim_space p" by (simp add: trim_space_def is_space_def)
  ultimately show ?thesis using Untracked by (simp add: status_line_def untracked_line_def Let_def)
next
  case (Ordinary x y sub fs p)
  assume "entry_ok en"
  then show ?thesis using Ordinary tracked_line_reads [of x y sub fs p "CHR ''1''" p]
    by (auto simp: status_line_def dest!: path_ok_chars)
next
  case (Renamed x y sub fs p q)
  assume ok: "entry_ok en"
  then have "cut_at tab (p @ [tab] @ q) = Some (p, q)" using Renamed cut_at_append [of tab p q] path_ok_chars [of p] by simp
  then show ?thesis using ok Renamed tracked_line_reads [of x y sub fs "p @ [tab] @ q" "CHR ''2''" p]
    by (auto simp: status_line_def dest!: path_ok_chars)
next
  case (Unmerged x y sub fs p)
  assume "entry_ok en"
  then show ?thesis using Unmerged tracked_line_reads [of x y sub fs p "CHR ''u''" p]
    by (auto simp: status_line_def dest!: path_ok_chars)
qed

lemma print_entry_no_newline: "entry_ok en \<Longrightarrow> line_feed \<notin> set (print_entry en)"
  by (cases en) (auto simp: field_ok_def print_fields_def list_all_iff dest!: path_ok_chars)

lemma split_lines: "list_all (\<lambda>l. line_feed \<notin> set l) ls \<Longrightarrow> split_at line_feed (concat (map (\<lambda>l. l @ [line_feed]) ls)) = ls @ [[]]"
  by (induction ls) (auto simp: split_at_append)

text \<open>
  C36: \<^verbatim>\<open>ParseGitStatus\<close> reads back what \<^verbatim>\<open>git status --porcelain=v2\<close> prints, header lines in front included, for the paths
  git does not quote (no double quote, backslash or control character) and, of the untracked ones, those that neither begin
  nor end with a space: for every such list of untracked, changed, renamed and unmerged files, with any spaces inside their
  paths, the rows are exactly these files, in order, with the path, status letter, staged mark and directory mark the format
  carries.
\<close>

theorem git_status_roundtrip:
  assumes "list_all entry_ok es" "list_all (\<lambda>h. line_feed \<notin> set h) headers"
  shows "parse_git_status (concat (map (\<lambda>l. l @ [line_feed]) (map (\<lambda>h. ''# '' @ h) headers @ map print_entry es))) = Some (map entry_row es)"
proof -
  let ?ls = "map (\<lambda>h. ''# '' @ h) headers @ map print_entry es"
  have "list_all (\<lambda>l. line_feed \<notin> set l) ?ls" using assms print_entry_no_newline by (auto simp: list_all_iff)
  then have "parse_git_status (concat (map (\<lambda>l. l @ [line_feed]) ?ls)) = collect_rows (map status_line (?ls @ [[]]))"
    unfolding parse_git_status_def by (simp only: split_lines)
  also have "\<dots> = collect_rows (map status_line (map print_entry es @ [[]]))"
    by (induction headers) (simp_all add: status_line_def)
  also have "\<dots> = Some (map entry_row es)"
    using assms(1) by (induction es) (simp_all add: status_line_reads status_line_def [of "[]"])
  finally show ?thesis .
qed

theorem git_status_roundtrip_witness:
  "parse_git_status (''# branch.head main'' @ [line_feed] @ ''1 .M N... 100644 100644 100644 aa bb my file.txt'' @ [line_feed]) =
     Some [(changed ''my file.txt'' ''M'')\<lparr>cf_dir := False, cf_staged := False\<rparr>]"
proof -
  let ?en = "Ordinary CHR ''.'' CHR ''M'' ''N...'' [''100644'', ''100644'', ''100644'', ''aa'', ''bb''] ''my file.txt''"
  have "entry_ok ?en" by (simp add: field_ok_def path_ok_def raw_char_def)
  then have ok: "list_all entry_ok [?en]" "list_all (\<lambda>h. line_feed \<notin> set h) [''branch.head main'']" by simp_all
  show ?thesis using git_status_roundtrip [OF ok]
    by (simp add: print_fields_def status_letter_def has_suffix_def has_prefix_def)
qed

text \<open>
  The comment promises raw line suffixes, but the path of an untracked file is trimmed: a file whose name ends in a space
  is listed under a name that does not exist. And a line with an empty state field stops the request.
\<close>

theorem untracked_trailing_space_lost:
  "parse_git_status ''? notes '' = Some [changed ''notes'' ''?''] \<and>
   parse_git_status ''1  N... 100644 100644 100644 aa bb f'' = None"
  by code_simp

text \<open>
  A quoted path is not unquoted: the file \<^verbatim>\<open>a"b\<close>, which git prints as \<^verbatim>\<open>"a\"b"\<close>, is listed under the quoted text, quotes and
  backslash included.\<close>

theorem quoted_path_not_read_back:
  "parse_git_status (''? '' @ [CHR 0x22, CHR ''a'', CHR 0x5C, CHR 0x22, CHR ''b'', CHR 0x22]) =
     Some [changed [CHR 0x22, CHR ''a'', CHR 0x5C, CHR 0x22, CHR ''b'', CHR 0x22] ''?'']"
  by code_simp

section \<open>Counting lines\<close>

definition line_count :: "string \<Rightarrow> int" where
  "line_count s = int (length (filter (\<lambda>c. c = line_feed) s)) + (if s = [] \<or> last s = line_feed then 0 else 1)"

lemma count_chunks_spec:
  assumes "list_all (\<lambda>c. c \<noteq> []) cs" "nul \<notin> set (concat cs)" "got + length (concat cs) \<le> max_file_read_bytes"
  shows "count_chunks got n ended cs =
    (n + int (length (filter (\<lambda>c. c = line_feed) (concat cs))) +
      (if concat cs = [] then (if ended then 0 else 1) else if last (concat cs) = line_feed then 0 else 1), False)"
  using assms
proof (induction cs arbitrary: got n ended)
  case (Cons c cs)
  show ?case
  proof (cases cs)
    case Nil
    then show ?thesis using Cons.prems by (simp add: Let_def)
  next
    case (Cons d ds)
    then have "concat cs \<noteq> []" using \<open>list_all (\<lambda>c. c \<noteq> []) (c # cs)\<close> by simp
    then show ?thesis using Cons.IH [of "got + length c"] Cons.prems by (auto simp: Let_def)
  qed
qed simp

text \<open>
  The line count of an untracked file (\<^verbatim>\<open>CountFileLines\<close>) does not depend on how the reads cut it up: for a text of at
  most one MiB it is the number of newlines, plus one for a last line without one; a NUL byte anywhere in what is read
  makes the file binary with no lines.
\<close>

theorem line_count_any_chunks:
  assumes "list_all (\<lambda>c. c \<noteq> []) cs"
  shows "(nul \<notin> set (concat cs) \<and> length (concat cs) \<le> max_file_read_bytes \<longrightarrow> count_file_lines (Some cs) = (line_count (concat cs), False)) \<and>
    (nul \<in> set (concat cs) \<and> length (concat cs) \<le> max_file_read_bytes \<longrightarrow> count_file_lines (Some cs) = (0, True))"
proof -
  have bin: "count_chunks got n ended cs = (0, True)"
    if "list_ex (\<lambda>c. nul \<in> set c) cs" "got + length (concat cs) \<le> max_file_read_bytes" for got n ended
    using that
  proof (induction cs arbitrary: got n ended)
    case (Cons c cs)
    then show ?case by (cases "nul \<in> set c") (simp_all add: Let_def)
  qed simp
  have "nul \<in> set (concat cs) \<longleftrightarrow> list_ex (\<lambda>c. nul \<in> set c) cs" by (auto simp: list_ex_iff)
  then show ?thesis using count_chunks_spec [OF assms] bin by (simp add: count_file_lines_def line_count_def)
qed

theorem line_count_any_chunks_witness:
  "count_file_lines (Some [''one'' @ [line_feed] @ ''tw'', ''o'']) = (2, False)"
proof -
  have "count_file_lines (Some [''one'' @ [line_feed] @ ''tw'', ''o'']) = (line_count (concat [''one'' @ [line_feed] @ ''tw'', ''o'']), False)"
    using line_count_any_chunks [of "[''one'' @ [line_feed] @ ''tw'', ''o'']"] by (simp add: max_file_read_bytes_def)
  then show ?thesis by (simp add: line_count_def)
qed

section \<open>git log is read back\<close>

definition print_commit :: "commit \<Rightarrow> string \<Rightarrow> string \<Rightarrow> string \<Rightarrow> string \<Rightarrow> string" where
  "print_commit c at ct refs body =
     concat (map (\<lambda>f. f @ [nul]) [co_sha c, join_strings '' '' (co_parents c), co_author c, co_email c, at, ct, refs, co_subject c]) @
     body @ [record_separator]"

definition commit_text_ok :: "string \<Rightarrow> bool" where
  "commit_text_ok s \<longleftrightarrow> nul \<notin> set s \<and> record_separator \<notin> set s"

definition commit_ok :: "commit \<Rightarrow> string \<Rightarrow> string \<Rightarrow> string \<Rightarrow> string \<Rightarrow> bool" where
  "commit_ok c at ct refs body \<longleftrightarrow>
     co_sha c \<noteq> [] \<and> line_feed \<notin> set (co_sha c) \<and>
     list_all commit_text_ok [co_sha c, co_author c, co_email c, at, ct, refs, co_subject c] \<and> record_separator \<notin> set body \<and>
     list_all (\<lambda>p. p \<noteq> [] \<and> list_all (\<lambda>x. \<not> is_space x \<and> x \<noteq> nul \<and> x \<noteq> record_separator) p) (co_parents c) \<and>
     parse_int_or_zero at = co_author_time c \<and> parse_int_or_zero ct = co_commit_time c \<and> parse_refs refs = co_refs c \<and>
     co_body c = take max_body_bytes (trim_right {CHR '' '', tab, CHR 0x0D, line_feed} body) \<and> \<not> co_pushed c"

lemma words_of_word: "list_all (\<lambda>x. \<not> is_space x) w \<Longrightarrow> words_of w = [w]"
  by (induction w) auto

lemma words_of_append: "list_all (\<lambda>x. \<not> is_space x) w \<Longrightarrow> words_of (w @ CHR '' '' # s) = w # words_of s"
  by (induction w) (auto simp: is_space_def)

lemma fields_join:
  "list_all (\<lambda>p. p \<noteq> [] \<and> list_all (\<lambda>x. \<not> is_space x) p) ps \<Longrightarrow> str_fields (join_strings '' '' ps) = ps"
  by (induction "'' ''" ps rule: join_strings.induct) (auto simp: str_fields_def words_of_word words_of_append)

lemma join_nul: "list_all (\<lambda>p. nul \<notin> set p) ps \<Longrightarrow> nul \<notin> set (join_strings '' '' ps)"
  by (induction "'' ''" ps rule: join_strings.induct) auto

lemma join_sep: "list_all (\<lambda>p. record_separator \<notin> set p) ps \<Longrightarrow> record_separator \<notin> set (join_strings '' '' ps)"
  by (induction "'' ''" ps rule: join_strings.induct) auto

lemma print_commit_record:
  assumes "commit_ok c at ct refs body"
  shows "parse_log_record (butlast (print_commit c at ct refs body)) = Some c"
    and "parse_log_record (line_feed # butlast (print_commit c at ct refs body)) = Some c"
    and "record_separator \<notin> set (butlast (print_commit c at ct refs body))"
proof -
  let ?fs = "[co_sha c, join_strings '' '' (co_parents c), co_author c, co_email c, at, ct, refs, co_subject c]"
  let ?rec = "concat (map (\<lambda>f. f @ [nul]) ?fs) @ body"
  note ok = assms [unfolded commit_ok_def]
  have parents: "nul \<notin> set (join_strings '' '' (co_parents c))" "record_separator \<notin> set (join_strings '' '' (co_parents c))"
    "str_fields (join_strings '' '' (co_parents c)) = co_parents c"
  proof -
    have ps: "list_all (\<lambda>p. nul \<notin> set p) (co_parents c)" "list_all (\<lambda>p. record_separator \<notin> set p) (co_parents c)"
      "list_all (\<lambda>p. p \<noteq> [] \<and> list_all (\<lambda>x. \<not> is_space x) p) (co_parents c)"
      using ok unfolding list_all_iff by blast+
    show "nul \<notin> set (join_strings '' '' (co_parents c))" "record_separator \<notin> set (join_strings '' '' (co_parents c))"
      "str_fields (join_strings '' '' (co_parents c)) = co_parents c"
      by (rule join_nul [OF ps(1)], rule join_sep [OF ps(2)], rule fields_join [OF ps(3)])
  qed
  have "list_all (\<lambda>f. nul \<notin> set f) ?fs" using ok parents by (auto simp: commit_text_ok_def)
  then have split: "split_n 9 nul ?rec = ?fs @ [body]"
    using split_n_join [of nul ?fs body] by (simp add: eval_nat_numeral)
  obtain x xs where sha: "co_sha c = x # xs" "x \<noteq> line_feed" using ok by (cases "co_sha c") auto
  have eq: "butlast (print_commit c at ct refs body) = ?rec" by (simp add: print_commit_def butlast_append)
  have plain: "trim_prefix [line_feed] ?rec = ?rec" "?rec \<noteq> []" using sha by (simp_all add: trim_prefix_def has_prefix_def)
  have whole: "\<lparr>co_sha = co_sha c, co_parents = co_parents c, co_subject = co_subject c,
      co_body = take max_body_bytes (trim_right {CHR '' '', tab, CHR 0x0D, line_feed} body), co_author = co_author c, co_email = co_email c,
      co_author_time = parse_int_or_zero at, co_commit_time = parse_int_or_zero ct, co_pushed = False, co_refs = parse_refs refs\<rparr> = c"
    by (rule commit.equality) (use ok in simp_all)
  have nth: "(?fs @ [body]) ! 0 = co_sha c" "(?fs @ [body]) ! 1 = join_strings '' '' (co_parents c)" "(?fs @ [body]) ! 2 = co_author c"
    "(?fs @ [body]) ! 3 = co_email c" "(?fs @ [body]) ! 4 = at" "(?fs @ [body]) ! 5 = ct" "(?fs @ [body]) ! 6 = refs"
    "(?fs @ [body]) ! 7 = co_subject c" "(?fs @ [body]) ! 8 = body" "\<not> length (?fs @ [body]) < 9"
    by simp_all
  have parsed: "parse_log_record r = Some c" if "trim_prefix [line_feed] r = ?rec" for r
    unfolding parse_log_record_def Let_def that split nth(1-9) parents(3) whole using plain(2) nth(10) by (simp only: if_False simp_thms)
  show "parse_log_record (butlast (print_commit c at ct refs body)) = Some c"
    unfolding eq by (rule parsed [OF plain(1)])
  show "parse_log_record (line_feed # butlast (print_commit c at ct refs body)) = Some c"
    unfolding eq by (rule parsed) (simp add: trim_prefix_def has_prefix_def)
  show "record_separator \<notin> set (butlast (print_commit c at ct refs body))"
    unfolding eq using ok parents by (auto simp: commit_text_ok_def)
qed

text \<open>A commit with the texts git prints for it: the two times, the decorations and the raw body.\<close>

type_synonym printed_commit = "commit \<times> string \<times> string \<times> string \<times> string"

definition print_log :: "printed_commit list \<Rightarrow> string" where
  "print_log cs = join_strings [line_feed] (map (\<lambda>(c, at, ct, refs, body). print_commit c at ct refs body) cs) @ [line_feed]"

lemma print_commit_sep: "print_commit c at ct refs body = butlast (print_commit c at ct refs body) @ [record_separator]"
  by (simp add: print_commit_def butlast_append)

lemma split_log:
  assumes "list_all (\<lambda>(c, at, ct, refs, body). commit_ok c at ct refs body) cs" "cs \<noteq> []"
  shows "List.map_filter parse_log_record (split_at record_separator (print_log cs)) = map fst cs"
    and "List.map_filter parse_log_record (split_at record_separator (line_feed # print_log cs)) = map fst cs"
proof -
  have nl: "List.map_filter parse_log_record [[line_feed]] = []"
    by (simp add: parse_log_record_def trim_prefix_def has_prefix_def map_filter_simps Let_def)
  have "List.map_filter parse_log_record (split_at record_separator (print_log cs)) = map fst cs \<and>
    List.map_filter parse_log_record (split_at record_separator (line_feed # print_log cs)) = map fst cs"
    using assms
  proof (induction cs)
    case (Cons p cs)
    obtain c at ct refs body where p: "p = (c, at, ct, refs, body)" by (cases p) auto
    have ok: "commit_ok c at ct refs body" using Cons.prems(1) p by simp
    note rec = print_commit_record [OF ok]
    let ?rec = "butlast (print_commit c at ct refs body)"
    show ?case
    proof (cases "cs = []")
      case True
      then have "print_log (p # cs) = ?rec @ record_separator # [line_feed]"
        using print_commit_sep [of c at ct refs body] by (simp add: print_log_def p)
      then show ?thesis using rec True nl p by (simp add: split_at_append map_filter_simps)
    next
      case False
      have "print_log (p # cs) = ?rec @ record_separator # line_feed # print_log cs"
        using print_commit_sep [of c at ct refs body] False by (cases cs) (simp_all add: print_log_def p)
      moreover have "List.map_filter parse_log_record (split_at record_separator (line_feed # print_log cs)) = map fst cs"
        using Cons.IH Cons.prems(1) False by simp
      ultimately show ?thesis using rec p by (simp add: split_at_append map_filter_simps)
    qed
  qed simp
  then show "List.map_filter parse_log_record (split_at record_separator (print_log cs)) = map fst cs"
    "List.map_filter parse_log_record (split_at record_separator (line_feed # print_log cs)) = map fst cs" by simp_all
qed

text \<open>
  \<^verbatim>\<open>ParseGitLog\<close> reads back what \<^verbatim>\<open>git log\<close> prints in the gateway's format: every commit, in order, with its parents,
  times, decorations and its body cut to four KiB, as long as no text of a commit holds the record separator. Past the
  byte limit the last, possibly cut record is dropped and the page is marked as incomplete.
\<close>

theorem git_log_roundtrip:
  assumes "list_all (\<lambda>(c, at, ct, refs, body). commit_ok c at ct refs body) cs" "cs \<noteq> []"
  shows "(length (print_log cs) \<le> n \<longrightarrow> parse_git_log (print_log cs) n = (map fst cs, False)) \<and>
    (length (print_log cs) > n \<longrightarrow> snd (parse_git_log (print_log cs) n))"
  using split_log [OF assms] by (auto simp: parse_git_log_def Let_def)

definition some_commit :: commit where
  "some_commit = \<lparr>co_sha = ''c0ffee1'', co_parents = [''aa'', ''bb''], co_subject = ''Fix it'', co_body = ''why'', co_author = ''Ann'',
     co_email = ''a@h'', co_author_time = 17, co_commit_time = 18, co_pushed = False,
     co_refs = [\<lparr>ref_name = ''main'', ref_kind = ''branch'', ref_head = True\<rparr>]\<rparr>"

lemma some_commit_ok: "commit_ok some_commit ''17'' ''18'' ''HEAD -> refs/heads/main'' (''why'' @ [line_feed])"
  by code_simp

theorem git_log_roundtrip_witness:
  "parse_git_log (print_log [(some_commit, ''17'', ''18'', ''HEAD -> refs/heads/main'', ''why'' @ [line_feed])]) 1000 = ([some_commit], False)"
proof -
  let ?cs = "[(some_commit, ''17'', ''18'', ''HEAD -> refs/heads/main'', ''why'' @ [line_feed])]"
  have "length (print_log ?cs) \<le> 1000" by (simp add: print_log_def print_commit_def some_commit_def)
  moreover have "list_all (\<lambda>(c, at, ct, refs, body). commit_ok c at ct refs body) ?cs" using some_commit_ok by simp
  ultimately show ?thesis using git_log_roundtrip [of ?cs 1000] by simp
qed

text \<open>
  A message may hold the record separator, and nothing escapes it: the author of one commit makes the page show a second
  commit that does not exist, with a name, an author and a subject of his choice.
\<close>

theorem message_forges_commit:
  "map (\<lambda>c. (co_sha c, co_author c, co_subject c))
     (fst (parse_git_log (print_log [(some_commit, ''17'', ''18'', [],
        ''why'' @ [record_separator] @ concat (map (\<lambda>f. f @ [nul]) [''f00d'', [], ''Root'', [], ''1'', ''1'', [], ''Approved'']))]) 1000)) =
   [(''c0ffee1'', ''Ann'', ''Fix it''), (''f00d'', ''Root'', ''Approved'')]"
  by code_simp

end
