(* ===== verification/Git_Queries.thy ===== *)
theory Git_Queries
  imports Git_Output_Proofs
begin

text \<open>
  What the workspace endpoints ask git (\<^verbatim>\<open>internal/workspace/git.go\<close>, \<^verbatim>\<open>compare.go\<close>, \<^verbatim>\<open>history.go\<close>, \<^verbatim>\<open>listfiles.go\<close>): which
  commands, with which arguments, and what is made of the answers. Git is a parameter: a function from a directory
  and the arguments to an error text or what it printed, so these are the endpoints that only read. Reading a file is a
  parameter too.
\<close>

type_synonym git = "string \<Rightarrow> string list \<Rightarrow> string + string"

type_synonym status_error = "int \<times> string"

definition run_git_limited :: "git \<Rightarrow> string \<Rightarrow> nat \<Rightarrow> string list \<Rightarrow> string + string" where
  "run_git_limited git dir n args = (case git dir args of Inl e \<Rightarrow> Inl e | Inr out \<Rightarrow> Inr (take (n + 1) out))"

definition git_or_empty :: "git \<Rightarrow> string \<Rightarrow> string list \<Rightarrow> string" where
  "git_or_empty git dir args = (case git dir args of Inl _ \<Rightarrow> [] | Inr out \<Rightarrow> out)"

definition git_ok :: "git \<Rightarrow> string \<Rightarrow> string list \<Rightarrow> bool" where
  "git_ok git dir args \<longleftrightarrow> (case git dir args of Inl _ \<Rightarrow> False | Inr _ \<Rightarrow> True)"

definition commit_of :: "git \<Rightarrow> string \<Rightarrow> string \<Rightarrow> string option" where
  "commit_of git dir ref =
     (case git dir [''rev-parse'', ''--verify'', ''--quiet'', ''--end-of-options'', ref @ ''^{commit}''] of
        Inl _ \<Rightarrow> None | Inr out \<Rightarrow> Some (trim_space out))"

section \<open>Comparing with a ref\<close>

definition resolve_ref :: "git \<Rightarrow> string \<Rightarrow> string \<Rightarrow> status_error + string" where
  "resolve_ref git cwd name =
     (if \<not> valid_ref_name name then Inl (400, ''invalid ref: '' @ name)
      else case commit_of git cwd name of
             Some c \<Rightarrow> Inr c
           | None \<Rightarrow>
               (case git cwd [''rev-parse'', ''--git-dir''] of
                  Inl err \<Rightarrow> Inl (422, err)
                | Inr _ \<Rightarrow> Inl (400, ''unknown ref: '' @ name)))"

definition git_status :: "git \<Rightarrow> string \<Rightarrow> string + string" where
  "git_status git cwd = git cwd [''status'', ''--porcelain=v2'', ''--branch'', ''--untracked-files=all'', ''--'', ''.'']"

text \<open>\<open>None\<close> stands for the panic of \<open>parse_git_status\<close>.\<close>

definition changes :: "git \<Rightarrow> string \<Rightarrow> string \<Rightarrow> (string + string \<times> changed_file list) option" where
  "changes git cwd ref =
     (case git_status git cwd of
        Inl err \<Rightarrow> Some (Inl err)
      | Inr out \<Rightarrow>
          (case parse_git_status out of
             None \<Rightarrow> None
           | Some rows \<Rightarrow>
               if ref = ''HEAD'' then Some (Inr (out, rows))
               else
                 (case git cwd [''diff'', ''--name-status'', ''--relative'', ref, ''--'', ''.''] of
                    Inl err \<Rightarrow> Some (Inl err)
                  | Inr names \<Rightarrow> Some (Inr (out, rows @ name_status_changes names (set (map cf_path rows)))))))"

definition count_changed :: "(string \<Rightarrow> string list option) \<Rightarrow> string \<Rightarrow> (string \<rightharpoonup> changed_file) \<Rightarrow> changed_file \<Rightarrow> changed_file" where
  "count_changed reads cwd stats f =
     (if cf_status f = ''?'' then
        (if cf_dir f then f
         else case count_file_lines (reads (path_join [cwd, cf_path f])) of (n, bin) \<Rightarrow> f\<lparr>cf_added := n, cf_binary := bin\<rparr>)
      else if cf_status f = ''R'' then f
      else case stats (cf_path f) of
             None \<Rightarrow> f
           | Some s \<Rightarrow> f\<lparr>cf_added := cf_added s, cf_removed := cf_removed s, cf_binary := cf_binary s\<rparr>)"

definition compare_rows :: "string \<Rightarrow> string \<Rightarrow> changed_file list" where
  "compare_rows others names =
     (let untracked = split_null_paths others
      in filter (\<lambda>f. \<not> (cf_status f = ''D'' \<and> cf_path f \<in> set untracked)) (name_status_changes names {}) @
         map (\<lambda>p. (changed p ''?'')\<lparr>cf_dir := has_suffix p ''/''\<rparr>) untracked)"

definition compare_changes :: "git \<Rightarrow> (string \<Rightarrow> string list option) \<Rightarrow> string \<Rightarrow> string \<Rightarrow> string + changed_file list" where
  "compare_changes git reads cwd ref =
     (case git cwd [''ls-files'', ''-z'', ''--others'', ''--exclude-standard'', ''--'', ''.''] of
        Inl err \<Rightarrow> Inl err
      | Inr others \<Rightarrow>
          (case git cwd [''diff'', ''--name-status'', ''--relative'', ref, ''--'', ''.''] of
             Inl err \<Rightarrow> Inl err
           | Inr names \<Rightarrow>
               (case git cwd [''diff'', ref, ''--numstat'', ''--relative''] of
                  Inl err \<Rightarrow> Inl err
                | Inr numstat \<Rightarrow> Inr (map (count_changed reads cwd (parse_git_numstat numstat)) (compare_rows others names)))))"

section \<open>Refs\<close>

definition ref_line :: "string \<Rightarrow> string \<Rightarrow> ref option" where
  "ref_line head line =
     (let full = trim_space line
      in if has_prefix full ''refs/heads/'' then
           (let name = trim_prefix ''refs/heads/'' full in Some \<lparr>ref_name = name, ref_kind = ''branch'', ref_head = (name = head)\<rparr>)
         else if has_prefix full ''refs/remotes/'' then
           (let name = trim_prefix ''refs/remotes/'' full
            in if has_suffix name ''/HEAD'' then None else Some \<lparr>ref_name = name, ref_kind = ''remote'', ref_head = False\<rparr>)
         else if has_prefix full ''refs/tags/'' then Some \<lparr>ref_name = trim_prefix ''refs/tags/'' full, ref_kind = ''tag'', ref_head = False\<rparr>
         else None)"

definition default_ref :: "git \<Rightarrow> string \<Rightarrow> ref list \<Rightarrow> string" where
  "default_ref git cwd rs =
     (let local = (\<lambda>n. list_ex (\<lambda>r. ref_kind r = ''branch'' \<and> ref_name r = n) rs);
          target = trim_space (git_or_empty git cwd [''symbolic-ref'', ''--quiet'', ''--short'', ''refs/remotes/origin/HEAD''])
      in if target \<noteq> [] then
           (case cut_prefix target ''origin/'' of
              Some name \<Rightarrow> if local name then name else target
            | None \<Rightarrow> target)
         else if local ''main'' then ''main'' else if local ''master'' then ''master'' else [])"

definition repo_refs_of :: "git \<Rightarrow> string \<Rightarrow> status_error + string \<times> ref list" where
  "repo_refs_of git cwd =
     (case git cwd [''for-each-ref'', ''--format=%(refname)'', ''refs/heads'', ''refs/remotes'', ''refs/tags''] of
        Inl err \<Rightarrow> Inl (422, err)
      | Inr out \<Rightarrow>
          (let head = trim_space (git_or_empty git cwd [''symbolic-ref'', ''--quiet'', ''--short'', ''HEAD'']);
               rs = List.map_filter (ref_line head) (split_at line_feed out)
           in Inr (default_ref git cwd rs, rs)))"

definition repo_refs :: "git \<Rightarrow> string \<Rightarrow> status_error + string \<times> ref list" where
  "repo_refs git repo0 =
     (let repo = trim_space repo0
      in if \<not> path_is_abs repo then Inl (400, ''repo must be an absolute path'') else repo_refs_of git repo)"

section \<open>History\<close>

definition max_unpushed_bytes :: nat where "max_unpushed_bytes = 1024 * 1024"
definition max_target_beyond :: nat where "max_target_beyond = 50"

definition log_format :: string where
  "log_format = ''--format=%H%x00%P%x00%an%x00%ae%x00%at%x00%ct%x00%D%x00%s%x00%b%x1e''"

record log_page =
  lp_head :: string
  lp_more :: bool
  lp_total :: int
  lp_remote :: string
  lp_commits :: "commit list"
  lp_target :: "commit list"

definition empty_page :: log_page where
  "empty_page = \<lparr>lp_head = [], lp_more = False, lp_total = 0, lp_remote = [], lp_commits = [], lp_target = []\<rparr>"

definition resolve_commit :: "git \<Rightarrow> string \<Rightarrow> string \<Rightarrow> status_error + string" where
  "resolve_commit git cwd sha =
     (if \<not> sha_pattern sha then Inl (400, ''invalid commit sha'')
      else case git cwd [''rev-parse'', ''--verify'', ''--quiet'', sha @ ''^{commit}''] of
             Inl _ \<Rightarrow> Inl (400, ''unknown commit: '' @ sha)
           | Inr out \<Rightarrow> Inr (trim_space out))"

definition mark_pushed :: "git \<Rightarrow> string \<Rightarrow> string \<Rightarrow> commit list \<Rightarrow> commit list" where
  "mark_pushed git cwd head cs =
     (if cs = [] \<or> trim_space (git_or_empty git cwd [''for-each-ref'', ''--count=1'', ''refs/remotes/origin'']) = [] then cs
      else case run_git_limited git cwd max_unpushed_bytes [''rev-list'', head, ''--not'', ''--remotes=origin''] of
             Inl _ \<Rightarrow> cs
           | Inr out \<Rightarrow>
               if length out > max_unpushed_bytes then cs
               else map (\<lambda>c. c\<lparr>co_pushed := co_sha c \<notin> set (str_fields out)\<rparr>) cs)"

definition target_commits :: "git \<Rightarrow> string \<Rightarrow> string \<Rightarrow> nat \<Rightarrow> status_error + commit list" where
  "target_commits git cwd sha n =
     (case run_git_limited git cwd max_log_bytes [''-c'', ''log.showSignature=false'', ''log'', ''--no-color'', ''--topo-order'',
             ''--decorate=full'', ''-n'', decimal n, log_format, sha, ''--''] of
        Inl err \<Rightarrow> Inl (422, err)
      | Inr out \<Rightarrow> Inr (mark_pushed git cwd sha (fst (parse_git_log out max_log_bytes))))"

text \<open>\<open>strip\<close> is \<^verbatim>\<open>StripRemoteCredentials\<close>, which takes a URL apart with \<^verbatim>\<open>net/url\<close>.\<close>

definition strip_remote_credentials :: "(string \<Rightarrow> string option) \<Rightarrow> string \<Rightarrow> string" where
  "strip_remote_credentials without_user remote =
     (if \<not> str_contains remote ''://'' then remote
      else case without_user remote of None \<Rightarrow> [] | Some u \<Rightarrow> u)"

definition log_head :: "git \<Rightarrow> string \<Rightarrow> string \<Rightarrow> status_error + string option" where
  "log_head git cwd head =
     (if head \<noteq> [] then (case resolve_commit git cwd head of Inl e \<Rightarrow> Inl e | Inr c \<Rightarrow> Inr (Some c))
      else case git cwd [''rev-parse'', ''--verify'', ''--quiet'', ''HEAD^{commit}''] of
             Inr out \<Rightarrow> Inr (Some (trim_space out))
           | Inl _ \<Rightarrow>
               (case git cwd [''rev-parse'', ''--git-dir''] of
                  Inl err \<Rightarrow> Inl (422, err)
                | Inr _ \<Rightarrow> Inr None))"

definition log_count :: "git \<Rightarrow> string \<Rightarrow> string \<Rightarrow> string list \<Rightarrow> status_error + int" where
  "log_count git cwd head not_args =
     (case git cwd ([''rev-list'', ''--count'', head] @ not_args @ [''--'']) of
        Inl err \<Rightarrow> Inl (422, err)
      | Inr out \<Rightarrow> (case parse_int64 (trim_space out) of None \<Rightarrow> Inl (422, ''cannot count commits: '' @ out) | Some n \<Rightarrow> Inr n))"

text \<open>The page, once the head, the excluded commit and the size of the walk are known.\<close>

definition read_log_page ::
  "git \<Rightarrow> (string \<Rightarrow> string option) \<Rightarrow> string \<Rightarrow> string \<Rightarrow> nat \<Rightarrow> nat \<Rightarrow> string option \<Rightarrow> int \<Rightarrow> status_error + log_page" where
  "read_log_page git without_user cwd head skip limit target n =
     (case run_git_limited git cwd max_log_bytes
        ([''-c'', ''log.showSignature=false'', ''log'', ''--no-color'', ''--topo-order'', ''--decorate=full'',
          ''--skip='' @ decimal skip, ''-n'', decimal (limit + 1), log_format, head] @
         (case target of None \<Rightarrow> [] | Some sha \<Rightarrow> [''--not'', sha]) @ [''--'']) of
        Inl err \<Rightarrow> Inl (422, err)
      | Inr out \<Rightarrow>
          let parsed = parse_git_log out max_log_bytes
          in Inr \<lparr>lp_head = head, lp_more = snd parsed \<or> length (fst parsed) > limit, lp_total = n,
               lp_remote = strip_remote_credentials without_user (trim_space (git_or_empty git cwd [''remote'', ''get-url'', ''origin''])),
               lp_commits = mark_pushed git cwd head (take limit (fst parsed)), lp_target = []\<rparr>)"

definition with_target :: "git \<Rightarrow> string \<Rightarrow> string option \<Rightarrow> nat \<Rightarrow> log_page \<Rightarrow> status_error + log_page" where
  "with_target git cwd target beyond page =
     (case target of
        Some sha \<Rightarrow>
          if beyond > 0
          then (case target_commits git cwd sha (min beyond max_target_beyond) of
                  Inl e \<Rightarrow> Inl e
                | Inr ts \<Rightarrow> Inr (page\<lparr>lp_target := ts\<rparr>))
          else Inr page
      | None \<Rightarrow> Inr page)"

definition git_log ::
  "git \<Rightarrow> (string \<Rightarrow> string option) \<Rightarrow> string \<Rightarrow> string \<Rightarrow> nat \<Rightarrow> nat \<Rightarrow> string \<Rightarrow> nat \<Rightarrow> status_error + log_page" where
  "git_log git without_user cwd head0 skip limit exclude0 beyond =
     (let exclude = trim_space exclude0
      in case (if exclude = [] then Inr None else case resolve_ref git cwd exclude of Inl e \<Rightarrow> Inl e | Inr sha \<Rightarrow> Inr (Some sha)) of
           Inl e \<Rightarrow> Inl e
         | Inr target \<Rightarrow>
             (case log_head git cwd head0 of
                Inl e \<Rightarrow> Inl e
              | Inr None \<Rightarrow> Inr empty_page
              | Inr (Some head) \<Rightarrow>
                  (case log_count git cwd head (case target of None \<Rightarrow> [] | Some sha \<Rightarrow> [''--not'', sha]) of
                     Inl e \<Rightarrow> Inl e
                   | Inr n \<Rightarrow>
                       (case read_log_page git without_user cwd head skip limit target n of
                          Inl e \<Rightarrow> Inl e
                        | Inr page \<Rightarrow> with_target git cwd target beyond page))))"

definition commit_changes :: "git \<Rightarrow> string \<Rightarrow> string \<Rightarrow> status_error + changed_file list" where
  "commit_changes git cwd sha =
     (let revs = (if git_ok git cwd [''rev-parse'', ''--verify'', ''--quiet'', sha @ ''^1''] then [sha @ ''^1'', sha]
          else [''--root'', ''--no-commit-id'', sha])
      in case run_git_limited git cwd max_log_bytes
           ([''diff-tree'', ''-r'', ''-z'', ''-M'', ''--raw'', ''--numstat'', ''--relative''] @ revs @ [''--'', ''.'']) of
           Inl err \<Rightarrow> Inl (422, err)
         | Inr out \<Rightarrow> Inr (parse_diff_tree out))"

section \<open>Diffs of one file\<close>

record diff_entry =
  de_path :: string
  de_old :: "string option"
  de_new :: string

definition commit_diff_entry :: "git \<Rightarrow> string \<Rightarrow> string \<Rightarrow> string \<Rightarrow> string \<Rightarrow> status_error + diff_entry" where
  "commit_diff_entry git cwd sha rel old_rel =
     (if (case git cwd [''cat-file'', ''-t'', sha @ '':./'' @ rel] of Inr t \<Rightarrow> trim_space t = ''commit'' | Inl _ \<Rightarrow> False)
      then Inl (400, ''path is a submodule, not a file: '' @ rel)
      else
        let src = (if old_rel = [] then rel else old_rel);
            old = (case run_git_limited git cwd max_file_read_bytes [''show'', sha @ ''^1:./'' @ src] of
                     Inl _ \<Rightarrow> None | Inr t \<Rightarrow> truncate_string t max_file_read_bytes)
        in case run_git_limited git cwd max_file_read_bytes [''show'', sha @ '':./'' @ rel] of
             Inl _ \<Rightarrow> if old = None then Inl (422, ''path not in commit: '' @ rel)
                     else Inr \<lparr>de_path = rel, de_old = old, de_new = []\<rparr>
           | Inr t \<Rightarrow> Inr \<lparr>de_path = rel, de_old = old, de_new = take max_file_read_bytes t\<rparr>)"

text \<open>\<open>file\<close> is what the file holds, \<open>None\<close> when it cannot be read.\<close>

definition read_file_limited :: "string option \<Rightarrow> nat \<Rightarrow> string option" where
  "read_file_limited file n = map_option (take (n + 1)) file"

definition file_diff_entry :: "git \<Rightarrow> string \<Rightarrow> string \<Rightarrow> string \<Rightarrow> string option \<Rightarrow> diff_entry option" where
  "file_diff_entry git cwd ref rel file =
     (let old = (case run_git_limited git cwd max_file_read_bytes [''show'', ref @ '':./'' @ rel] of
                   Inl _ \<Rightarrow> None | Inr t \<Rightarrow> truncate_string t max_file_read_bytes)
      in case read_file_limited file max_file_read_bytes of
           None \<Rightarrow> if old \<noteq> None then Some \<lparr>de_path = rel, de_old = old, de_new = []\<rparr> else None
         | Some t \<Rightarrow> Some \<lparr>de_path = rel, de_old = old, de_new = take max_file_read_bytes t\<rparr>)"

section \<open>Listing files\<close>

definition list_files :: "git \<Rightarrow> string \<Rightarrow> int \<Rightarrow> status_error + string list \<times> bool" where
  "list_files git cwd limit =
     (case git cwd [''ls-files'', ''-z'', ''--cached'', ''--others'', ''--exclude-standard'', ''--'', ''.''] of
        Inl err \<Rightarrow> Inl (422, err)
      | Inr out \<Rightarrow>
          let unique = sort (remdups (split_null_paths out))
          in if limit > 0 \<and> int (length unique) > limit then Inr (take (nat limit) unique, True) else Inr (unique, False))"

section \<open>What the endpoints promise\<close>

text \<open>
  The file listing (\<^verbatim>\<open>ListFiles\<close>) holds each listed path once and in order, never more than the limit, and says it is cut
  exactly when more distinct paths exist; when it is not cut it holds every path git printed.
\<close>

theorem file_list_sorted_and_bounded:
  assumes "list_files git cwd limit = Inr (files, truncated)"
    and "git cwd [''ls-files'', ''-z'', ''--cached'', ''--others'', ''--exclude-standard'', ''--'', ''.''] = Inr out"
  shows "sorted_wrt (<) files \<and> (limit > 0 \<longrightarrow> int (length files) \<le> limit) \<and> set files \<subseteq> set (split_null_paths out) \<and>
    (truncated \<longleftrightarrow> limit > 0 \<and> int (card (set (split_null_paths out))) > limit) \<and>
    (\<not> truncated \<longrightarrow> set files = set (split_null_paths out))"
proof -
  let ?u = "sort (remdups (split_null_paths out))"
  have u: "sorted_wrt (<) ?u" "set ?u = set (split_null_paths out)" "length ?u = card (set (split_null_paths out))"
    by (simp_all add: strict_sorted_iff length_remdups_card_conv)
  have "sorted_wrt (<) (take n ?u)" for n using u(1) by (rule sorted_wrt_take)
  then show ?thesis
    using assms u set_take_subset [of "nat limit" ?u] by (auto simp: list_files_def Let_def split: if_splits)
qed

theorem file_list_sorted_and_bounded_witness:
  "list_files (\<lambda>d a. Inr (''b'' @ [nul] @ ''a'' @ [nul] @ ''b'' @ [nul])) ''/r'' 5 = Inr ([''a'', ''b''], False) \<and>
   sorted_wrt (<) [''a'', ''b''] \<and> set [''a'', ''b''] = set (split_null_paths (''b'' @ [nul] @ ''a'' @ [nul] @ ''b'' @ [nul]))"
proof -
  have l: "list_files (\<lambda>d a. Inr (''b'' @ [nul] @ ''a'' @ [nul] @ ''b'' @ [nul])) ''/r'' 5 = Inr ([''a'', ''b''], False)" by code_simp
  show ?thesis using file_list_sorted_and_bounded [OF l refl] l by simp
qed

lemma mark_pushed_length: "length (mark_pushed git cwd head cs) = length cs"
  by (simp add: mark_pushed_def split: sum.splits)

lemma mark_pushed_sound:
  assumes "c \<in> set (mark_pushed git cwd head cs)" "co_pushed c" "list_all (\<lambda>c. \<not> co_pushed c) cs"
  shows "\<exists>out. git cwd [''rev-list'', head, ''--not'', ''--remotes=origin''] = Inr out \<and> length out \<le> max_unpushed_bytes \<and> co_sha c \<notin> set (str_fields out)"
  using assms
  by (auto simp: mark_pushed_def run_git_limited_def list_all_iff split: if_splits sum.splits)

lemma map_filter_pred: "(\<And>x y. f x = Some y \<Longrightarrow> P y) \<Longrightarrow> list_all P (List.map_filter f xs)"
  by (auto simp: List.map_filter_def list_all_iff)

lemma parsed_not_pushed: "list_all (\<lambda>c. \<not> co_pushed c) (fst (parse_git_log out n))"
  unfolding parse_git_log_def Let_def fst_conv
  by (rule map_filter_pred) (auto simp: parse_log_record_def Let_def split: if_splits)

lemma read_log_page_commits:
  "read_log_page git wu cwd head skip limit target n = Inr page \<Longrightarrow>
    \<exists>cs. lp_commits page = mark_pushed git cwd (lp_head page) (take limit cs) \<and> list_all (\<lambda>c. \<not> co_pushed c) cs"
  using parsed_not_pushed by (auto simp: read_log_page_def Let_def split: sum.splits)

lemma with_target_commits: "with_target git cwd target beyond page = Inr page' \<Longrightarrow> lp_commits page' = lp_commits page \<and> lp_head page' = lp_head page"
  by (auto simp: with_target_def split: option.splits if_splits sum.splits)

lemma sum_case_Inr: "(case x of Inl e \<Rightarrow> Inl e | Inr v \<Rightarrow> f v) = Inr z \<Longrightarrow> (\<And>v. x = Inr v \<Longrightarrow> f v = Inr z \<Longrightarrow> P) \<Longrightarrow> P"
  by (cases x) auto

lemma option_case_Inr: "(case x of None \<Rightarrow> a | Some v \<Rightarrow> f v) = z \<Longrightarrow> (x = None \<Longrightarrow> a = z \<Longrightarrow> P) \<Longrightarrow> (\<And>v. x = Some v \<Longrightarrow> f v = z \<Longrightarrow> P) \<Longrightarrow> P"
  by (cases x) auto

lemma git_log_page:
  assumes "git_log git wu cwd head0 skip limit exclude beyond = Inr page"
  shows "page = empty_page \<or> (\<exists>cs. lp_commits page = mark_pushed git cwd (lp_head page) (take limit cs) \<and> list_all (\<lambda>c. \<not> co_pushed c) cs)"
proof -
  have "page = empty_page \<or> (\<exists>p target n head. read_log_page git wu cwd head skip limit target n = Inr p \<and> with_target git cwd target beyond p = Inr page)"
    using assms unfolding git_log_def Let_def
    apply -
    apply (erule sum_case_Inr)
    apply (erule sum_case_Inr)
    apply (erule option_case_Inr)
     apply simp
    apply (erule sum_case_Inr)
    apply (erule sum_case_Inr)
    apply (intro disjI2 exI conjI)
     apply assumption
    apply assumption
    done
  then show ?thesis
  proof
    assume "\<exists>p target n head. read_log_page git wu cwd head skip limit target n = Inr p \<and> with_target git cwd target beyond p = Inr page"
    then obtain p target n head where p: "read_log_page git wu cwd head skip limit target n = Inr p" "with_target git cwd target beyond p = Inr page" by blast
    show ?thesis using read_log_page_commits [OF p(1)] with_target_commits [OF p(2)] by simp
  qed simp
qed

text \<open>
  A page of the log (\<^verbatim>\<open>Log\<close>) never holds more commits than were asked for, and a commit it marks as pushed
  is one that is missing from the complete list of commits origin lacks: when git cannot tell, or the list is too long to
  be read whole, no commit is marked.
\<close>

theorem log_page_bounded:
  assumes "git_log git wu cwd head0 skip limit exclude beyond = Inr page"
  shows "length (lp_commits page) \<le> limit \<and>
    list_all (\<lambda>c. co_pushed c \<longrightarrow> (\<exists>out. git cwd [''rev-list'', lp_head page, ''--not'', ''--remotes=origin''] = Inr out \<and>
      length out \<le> max_unpushed_bytes \<and> co_sha c \<notin> set (str_fields out))) (lp_commits page)"
  using git_log_page [OF assms]
proof
  assume "page = empty_page"
  then show ?thesis by (simp add: empty_page_def)
next
  assume "\<exists>cs. lp_commits page = mark_pushed git cwd (lp_head page) (take limit cs) \<and> list_all (\<lambda>c. \<not> co_pushed c) cs"
  then obtain cs where cs: "lp_commits page = mark_pushed git cwd (lp_head page) (take limit cs)" "list_all (\<lambda>c. \<not> co_pushed c) cs" by blast
  have "list_all (\<lambda>c. \<not> co_pushed c) (take limit cs)" using cs(2) set_take_subset [of limit cs] by (auto simp: list_all_iff)
  then have "list_all (\<lambda>c. co_pushed c \<longrightarrow> (\<exists>out. git cwd [''rev-list'', lp_head page, ''--not'', ''--remotes=origin''] = Inr out \<and>
      length out \<le> max_unpushed_bytes \<and> co_sha c \<notin> set (str_fields out))) (mark_pushed git cwd (lp_head page) (take limit cs))"
    using mark_pushed_sound by (simp only: list_all_iff [of "\<lambda>c. co_pushed c \<longrightarrow> _ c"]) blast
  then show ?thesis unfolding cs(1) by (simp add: mark_pushed_length)
qed

text \<open>A repository with one commit, which origin has.\<close>

definition some_repo :: git where
  "some_repo dir args =
     (if hd args = ''rev-parse'' then Inr (co_sha some_commit @ [line_feed])
      else if hd args = ''rev-list'' then (if args ! 1 = ''--count'' then Inr (''1'' @ [line_feed]) else Inr [])
      else if hd args = ''-c'' then Inr (print_log [(some_commit, ''17'', ''18'', ''HEAD -> refs/heads/main'', ''why'')])
      else if hd args = ''for-each-ref'' then Inr ''refs/remotes/origin/main'' else Inl ''no'')"

theorem log_page_bounded_witness:
  "\<exists>page. git_log some_repo (\<lambda>u. None) ''/r'' [] 0 1 [] 0 = Inr page \<and> length (lp_commits page) \<le> 1 \<and> map co_pushed (lp_commits page) = [True]"
proof -
  let ?out = "print_log [(some_commit, ''17'', ''18'', ''HEAD -> refs/heads/main'', ''why'')]"
  have ok: "list_all (\<lambda>(c, at, ct, refs, body). commit_ok c at ct refs body) [(some_commit, ''17'', ''18'', ''HEAD -> refs/heads/main'', ''why'')]"
    by code_simp
  have len: "length ?out \<le> max_log_bytes" by (simp add: print_log_def print_commit_def some_commit_def max_log_bytes_def)
  have parsed: "parse_git_log ?out max_log_bytes = ([some_commit], False)" using git_log_roundtrip [OF ok, of max_log_bytes] len by simp
  have whole: "take (Suc max_log_bytes) ?out = ?out" using len by simp
  have head: "log_head some_repo ''/r'' [] = Inr (Some (co_sha some_commit))" by code_simp
  have count: "log_count some_repo ''/r'' (co_sha some_commit) [] = Inr 1" by code_simp
  have "trim_space (git_or_empty some_repo ''/r'' [''for-each-ref'', ''--count=1'', ''refs/remotes/origin'']) \<noteq> []" by code_simp
  moreover have "run_git_limited some_repo ''/r'' max_unpushed_bytes [''rev-list'', co_sha some_commit, ''--not'', ''--remotes=origin''] = Inr []"
    by (simp add: run_git_limited_def some_repo_def some_commit_def)
  ultimately have pushed: "mark_pushed some_repo ''/r'' (co_sha some_commit) [some_commit] = [some_commit\<lparr>co_pushed := True\<rparr>]"
    by (simp add: mark_pushed_def str_fields_def)
  have shown: "run_git_limited some_repo ''/r'' max_log_bytes (''-c'' # args) = Inr ?out" for args
    using whole by (simp add: run_git_limited_def some_repo_def)
  obtain page where read: "read_log_page some_repo (\<lambda>u. None) ''/r'' (co_sha some_commit) 0 1 None 1 = Inr page"
    "lp_commits page = [some_commit\<lparr>co_pushed := True\<rparr>]"
    unfolding read_log_page_def append.simps shown sum.case parsed Let_def fst_conv snd_conv by (simp add: pushed)
  have none: "trim_space [] = []" by (simp add: trim_space_def)
  have page: "git_log some_repo (\<lambda>u. None) ''/r'' [] 0 1 [] 0 = Inr page" "lp_commits page = [some_commit\<lparr>co_pushed := True\<rparr>]"
    using read by (simp_all add: git_log_def none head count with_target_def)
  then show ?thesis using log_page_bounded [OF page(1)] by (auto intro: exI [of _ page])
qed

end
