(* ===== verification/Worktrees.thy ===== *)
theory Worktrees
  imports Git_Queries
begin

text \<open>
  The managed worktrees (\<^verbatim>\<open>internal/workspace/worktree.go\<close>, \<^verbatim>\<open>base.go\<close>, \<^verbatim>\<open>finish.go\<close>, \<^verbatim>\<open>internal/storage/worktrees.go\<close>).
  What an operation changes outside the gateway is a list of effects: commands of git that change a repository, other
  tools, and changes of files. Everything the operation asks is a function of the effects so far, so a command may answer
  anything and leave anything behind, and a later question may be answered differently; between two effects of one
  operation the answers stay as they are. The store is a list of rows in insertion order, with a failure for every
  statement. The gateway always has a store here.
\<close>

section \<open>The world of an operation\<close>

datatype effect = Git string "string list" | Tool string string "string list" | Remove_All string
  | Mkdir_All string | Append_File string string

datatype file_kind = Absent | A_File | A_Folder | Unreadable

datatype wt_store_call = Store_List | Store_Save | Store_Delete

record worktree_record =
  wr_id :: string
  wr_repo :: string
  wr_path :: string
  wr_branch :: string
  wr_base :: string
  wr_ref :: string
  wr_created :: gtime

record worktree_status =
  ws_record :: worktree_record
  ws_ahead :: "int option"
  ws_behind :: "int option"
  ws_dirty :: "bool option"
  ws_merged :: "bool option"
  ws_chats :: "string list"

record wt_env =
  we_git :: "effect list \<Rightarrow> git"
  we_tool :: "effect list \<Rightarrow> string \<Rightarrow> git"
  we_stat :: "effect list \<Rightarrow> string \<Rightarrow> file_kind"
  we_text :: "effect list \<Rightarrow> string \<Rightarrow> string option option"
  we_works :: "effect list \<Rightarrow> effect \<Rightarrow> bool"
  we_canon :: "effect list \<Rightarrow> string \<Rightarrow> string"
  we_modified :: "string \<Rightarrow> gtime option"
  we_path_id :: "string \<Rightarrow> string"
  we_random :: "string option"
  we_now :: gtime
  we_stamp :: "gtime \<Rightarrow> string"
  we_fails :: "wt_store_call \<Rightarrow> bool"
  we_chats :: "(string \<times> string) list option"
  we_has :: "string \<Rightarrow> bool"

record wt_world =
  w_log :: "effect list"
  w_table :: "worktree_record list"
  w_creating :: "string list"
  w_repos :: "string list"

definition git_of :: "wt_env \<Rightarrow> wt_world \<Rightarrow> git" where
  "git_of e w = we_git e (w_log w)"

definition act :: "effect \<Rightarrow> wt_world \<Rightarrow> wt_world" where
  "act x w = w\<lparr>w_log := w_log w @ [x]\<rparr>"

definition run_git :: "wt_env \<Rightarrow> string \<Rightarrow> string list \<Rightarrow> wt_world \<Rightarrow> (string + string) \<times> wt_world" where
  "run_git e dir args w = (git_of e w dir args, act (Git dir args) w)"

definition run_tool :: "wt_env \<Rightarrow> string \<Rightarrow> string \<Rightarrow> string list \<Rightarrow> wt_world \<Rightarrow> (string + string) \<times> wt_world" where
  "run_tool e dir name args w = (we_tool e (w_log w) name dir args, act (Tool name dir args) w)"

definition stat_of :: "wt_env \<Rightarrow> wt_world \<Rightarrow> string \<Rightarrow> file_kind" where
  "stat_of e w p = we_stat e (w_log w) p"

definition folder_missing :: "wt_env \<Rightarrow> wt_world \<Rightarrow> string \<Rightarrow> bool" where
  "folder_missing e w p \<longleftrightarrow> stat_of e w p = Absent"

definition found :: "file_kind \<Rightarrow> bool" where
  "found k \<longleftrightarrow> k = A_File \<or> k = A_Folder"

definition branch_exists :: "git \<Rightarrow> string \<Rightarrow> string \<Rightarrow> bool" where
  "branch_exists git repo branch \<longleftrightarrow> git_ok git repo [''show-ref'', ''--verify'', ''--quiet'', ''refs/heads/'' @ branch]"

section \<open>The stored rows\<close>

datatype save_result = Saved | Path_Taken | Not_Saved

definition save_worktree :: "wt_env \<Rightarrow> worktree_record \<Rightarrow> wt_world \<Rightarrow> save_result \<times> wt_world" where
  "save_worktree e r w =
     (if we_fails e Store_Save \<or> wr_id r \<in> set (map wr_id (w_table w)) then (Not_Saved, w)
      else if wr_path r \<in> set (map wr_path (w_table w)) then (Path_Taken, w)
      else (Saved, w\<lparr>w_table := w_table w @ [r]\<rparr>))"

definition list_worktrees :: "wt_env \<Rightarrow> wt_world \<Rightarrow> worktree_record list option" where
  "list_worktrees e w = (if we_fails e Store_List then None else Some (sort_key (\<lambda>r. we_stamp e (wr_created r)) (w_table w)))"

definition delete_row :: "wt_env \<Rightarrow> string \<Rightarrow> wt_world \<Rightarrow> wt_world" where
  "delete_row e i w = (if we_fails e Store_Delete then w else w\<lparr>w_table := filter (\<lambda>r. wr_id r \<noteq> i) (w_table w)\<rparr>)"

definition find_worktree :: "wt_env \<Rightarrow> wt_world \<Rightarrow> (worktree_record \<Rightarrow> bool) \<Rightarrow> worktree_record option" where
  "find_worktree e w match = (case list_worktrees e w of None \<Rightarrow> None | Some rs \<Rightarrow> List.find match rs)"

definition prune_one :: "wt_env \<Rightarrow> worktree_record \<Rightarrow> wt_world \<Rightarrow> wt_world" where
  "prune_one e r w =
     (if folder_missing e w (wr_path r) then delete_row e (wr_id r) (snd (run_git e (wr_repo r) [''worktree'', ''prune''] w)) else w)"

definition prune_worktrees :: "wt_env \<Rightarrow> wt_world \<Rightarrow> wt_world" where
  "prune_worktrees e w = (case list_worktrees e w of None \<Rightarrow> w | Some rs \<Rightarrow> fold (prune_one e) rs w)"

section \<open>Bases\<close>

definition base_ref_of :: "git \<Rightarrow> string \<Rightarrow> string \<Rightarrow> string" where
  "base_ref_of git checkout base =
     (if base \<noteq> ''HEAD'' then base
      else case git checkout [''symbolic-ref'', ''--quiet'', ''--short'', ''HEAD''] of Inl _ \<Rightarrow> [] | Inr name \<Rightarrow> trim_space name)"

definition fetch_pr :: "wt_env \<Rightarrow> string \<Rightarrow> string \<Rightarrow> string \<Rightarrow> wt_world \<Rightarrow> (status_error + string \<times> string) \<times> wt_world" where
  "fetch_pr e checkout remote pr w =
     (let ref = remote @ ''/pr/'' @ pr; dst = ''refs/remotes/'' @ ref;
          (r1, w1) = run_git e checkout [''fetch'', ''--quiet'', ''--end-of-options'', remote, ''+refs/pull/'' @ pr @ ''/head:'' @ dst] w;
          (failed, w2) = (case r1 of
             Inr _ \<Rightarrow> (None, w1)
           | Inl err \<Rightarrow>
               (case run_git e checkout [''fetch'', ''--quiet'', ''--end-of-options'', remote, ''+refs/merge-requests/'' @ pr @ ''/head:'' @ dst] w1 of
                  (r2, w2) \<Rightarrow> (case r2 of Inr _ \<Rightarrow> None | Inl _ \<Rightarrow> Some err, w2)))
      in (case commit_of (git_of e w2) checkout dst of
            Some c \<Rightarrow> Inr (c, ref)
          | None \<Rightarrow>
              (case failed of
                 Some err \<Rightarrow> Inl (422, ''failed to fetch PR '' @ pr @ '' from '' @ remote @ '': '' @ err)
               | None \<Rightarrow> Inl (422, ''failed to resolve PR commit for '' @ pr)), w2))"

definition fetch_remote_branch :: "wt_env \<Rightarrow> string \<Rightarrow> string \<Rightarrow> string \<Rightarrow> wt_world \<Rightarrow> (status_error + string \<times> string) \<times> wt_world" where
  "fetch_remote_branch e checkout remote branch w =
     (let ref = remote @ ''/'' @ branch;
          (r, w1) = run_git e checkout [''fetch'', ''--quiet'', ''--end-of-options'', remote, ''+refs/heads/'' @ branch @ '':refs/remotes/'' @ ref] w
      in (case commit_of (git_of e w1) checkout (''refs/remotes/'' @ ref) of
            Some c \<Rightarrow> Inr (c, ref)
          | None \<Rightarrow>
              (case r of
                 Inl err \<Rightarrow> Inl (422, ''failed to fetch '' @ ref @ '': '' @ err)
               | Inr _ \<Rightarrow> Inl (422, ''failed to resolve ref '' @ ref)), w1))"

definition repo_remotes :: "git \<Rightarrow> string \<Rightarrow> string list" where
  "repo_remotes git checkout = str_fields (git_or_empty git checkout [''remote''])"

definition resolve_base :: "wt_env \<Rightarrow> string \<Rightarrow> string \<Rightarrow> wt_world \<Rightarrow> (status_error + string \<times> string) \<times> wt_world" where
  "resolve_base e checkout base0 w =
     (let base = (if base0 = [] then ''HEAD'' else base0); git = git_of e w
      in if base0 \<noteq> [] \<and> \<not> valid_ref_name base0 then (Inl (400, ''invalid base: '' @ base), w)
         else case commit_of git checkout (''refs/heads/'' @ base) of
                Some c \<Rightarrow> (Inr (c, base), w)
              | None \<Rightarrow>
                  (case parse_pr_ref base of
                     Some (remote, pr) \<Rightarrow> fetch_pr e checkout remote pr w
                   | None \<Rightarrow>
                       (case parse_remote_branch (repo_remotes git checkout) base of
                          Some (remote, branch) \<Rightarrow> fetch_remote_branch e checkout remote branch w
                        | None \<Rightarrow>
                            (case commit_of git checkout base of
                               Some c \<Rightarrow> (Inr (c, base_ref_of git checkout base), w)
                             | None \<Rightarrow> (Inl (422, ''unknown base: '' @ base), w)))))"

section \<open>Creating a worktree\<close>

definition exclude_worktrees_dir :: "wt_env \<Rightarrow> string \<Rightarrow> wt_world \<Rightarrow> wt_world" where
  "exclude_worktrees_dir e checkout w =
     (case git_of e w checkout [''rev-parse'', ''--git-path'', ''info/exclude''] of
        Inl _ \<Rightarrow> w
      | Inr out \<Rightarrow>
          let p = trim_space out; path = (if path_is_abs p then p else path_join [checkout, p])
          in case we_text e (w_log w) path of
               None \<Rightarrow> w
             | Some content \<Rightarrow>
                 let data = (case content of None \<Rightarrow> [] | Some t \<Rightarrow> t); dir = Mkdir_All (path_dir path)
                 in if list_ex (\<lambda>l. trim_space l = ''/.worktrees/'') (split_at line_feed data) then w
                    else if \<not> we_works e (w_log w) dir then act dir w
                    else act (Append_File path ((if data \<noteq> [] \<and> \<not> has_suffix data [line_feed] then [line_feed] else []) @
                           ''/.worktrees/'' @ [line_feed])) (act dir w))"

fun remove_retrying :: "wt_env \<Rightarrow> string \<Rightarrow> nat \<Rightarrow> wt_world \<Rightarrow> bool \<times> wt_world" where
  "remove_retrying e dir 0 w = (False, w)"
| "remove_retrying e dir (Suc n) w =
     (if we_works e (w_log w) (Remove_All dir) then (True, act (Remove_All dir) w)
      else remove_retrying e dir n (act (Remove_All dir) w))"

definition remove_all_retrying :: "wt_env \<Rightarrow> string \<Rightarrow> wt_world \<Rightarrow> bool \<times> wt_world" where
  "remove_all_retrying e dir w = remove_retrying e dir 10 w"

definition discard_worktree :: "wt_env \<Rightarrow> string \<Rightarrow> string \<Rightarrow> string \<Rightarrow> wt_world \<Rightarrow> wt_world" where
  "discard_worktree e checkout path branch w =
     (let w1 = snd (run_git e checkout [''worktree'', ''remove'', ''--force'', path] w);
          w2 = snd (remove_all_retrying e path w1);
          w3 = snd (run_git e checkout [''worktree'', ''prune''] w2)
      in snd (run_git e checkout [''branch'', ''-D'', branch] w3))"

record wt_create =
  wq_repo :: string
  wq_base :: string
  wq_branch :: string

text \<open>From \<^verbatim>\<open>git worktree add\<close> on: the folder and the branch did not exist.\<close>

definition add_worktree :: "wt_env \<Rightarrow> worktree_record \<Rightarrow> wt_world \<Rightarrow> (status_error + worktree_record) \<times> wt_world" where
  "add_worktree e r w =
     (case run_git e (wr_repo r) [''worktree'', ''add'', ''-b'', wr_branch r, wr_path r, wr_base r] w of
        (Inl err, w1) \<Rightarrow> (Inl (422, err), discard_worktree e (wr_repo r) (wr_path r) (wr_branch r) w1)
      | (Inr _, w1) \<Rightarrow>
          (case save_worktree e r w1 of
             (Saved, w2) \<Rightarrow> (Inr r, w2)
           | (Path_Taken, w2) \<Rightarrow> (Inl (409, ''worktree is already managed: '' @ wr_path r), discard_worktree e (wr_repo r) (wr_path r) (wr_branch r) w2)
           | (Not_Saved, w2) \<Rightarrow> (Inl (500, ''failed to save worktree''), discard_worktree e (wr_repo r) (wr_path r) (wr_branch r) w2)))"

text \<open>The checks on the branch and the folder, the claim on the folder included.\<close>

definition worktree_refused :: "wt_env \<Rightarrow> string \<Rightarrow> string \<Rightarrow> wt_world \<Rightarrow> status_error option" where
  "worktree_refused e checkout branch w =
     (let root = path_join [checkout, ''.worktrees'']; path = path_join [root, worktree_dir_name branch]
      in if has_prefix branch ''-'' \<or> \<not> git_ok (git_of e w) checkout [''check-ref-format'', ''--branch'', branch] \<or>
            \<not> subpath_of path root \<or> path = root then Some (400, ''invalid branch name'')
         else if path \<in> set (w_creating w) then Some (409, ''worktree folder is being created: '' @ path)
         else if branch_exists (git_of e w) checkout branch then Some (409, ''branch already exists: '' @ branch)
         else if found (stat_of e w path) then Some (409, ''worktree folder already exists: '' @ path)
         else None)"

definition create_worktree :: "wt_env \<Rightarrow> wt_create \<Rightarrow> wt_world \<Rightarrow> (status_error + worktree_record) \<times> wt_world" where
  "create_worktree e req w =
     (let repo = trim_space (wq_repo req)
      in if \<not> path_is_abs repo then (Inl (400, ''repo must be an absolute path''), w)
         else
           let w1 = prune_worktrees e w
           in case git_of e w1 repo [''rev-parse'', ''--show-toplevel''] of
                Inl err \<Rightarrow> (Inl (422, err), w1)
              | Inr out \<Rightarrow>
                  let checkout = path_clean (trim_space out)
                  in case resolve_base e checkout (trim_space (wq_base req)) w1 of
                       (Inl err, w2) \<Rightarrow> (Inl err, w2)
                     | (Inr (commit, ref), w2) \<Rightarrow>
                         (case we_random e of
                            None \<Rightarrow> (Inl (500, ''failed to generate id''), w2)
                          | Some i \<Rightarrow>
                              let asked = trim_space (wq_branch req);
                                  branch = (if asked = [] then ''ferngeist/'' @ i else asked)
                              in case worktree_refused e checkout branch w2 of
                                   Some err \<Rightarrow> (Inl err, w2)
                                 | None \<Rightarrow>
                                     add_worktree e
                                       \<lparr>wr_id = i, wr_repo = checkout, wr_path = path_join [path_join [checkout, ''.worktrees''], worktree_dir_name branch],
                                        wr_branch = branch, wr_base = commit, wr_ref = ref, wr_created = we_now e\<rparr>
                                       (exclude_worktrees_dir e checkout w2)))"

section \<open>The state of a worktree\<close>

definition chats_of :: "wt_env \<Rightarrow> worktree_record \<Rightarrow> string list" where
  "chats_of e r = (case we_chats e of None \<Rightarrow> [] | Some cs \<Rightarrow> map fst (filter (\<lambda>c. subpath_of (snd c) (wr_path r)) cs))"

definition in_use :: "wt_env \<Rightarrow> worktree_record \<Rightarrow> status_error option" where
  "in_use e r = (case chats_of e r of [] \<Rightarrow> None | c # _ \<Rightarrow> Some (409, ''worktree is in use by chat '' @ c))"

definition merged_of :: "git \<Rightarrow> worktree_record \<Rightarrow> int \<Rightarrow> bool" where
  "merged_of git r ahead =
     (if ahead = 0 then (case commit_of git (wr_path r) ''HEAD'' of None \<Rightarrow> False | Some head \<Rightarrow> head \<noteq> wr_base r)
      else case git (wr_path r) [''rev-parse'', ''--verify'', ''--quiet'', ''--end-of-options'', wr_ref r @ ''^{tree}''] of
             Inl _ \<Rightarrow> False
           | Inr base_tree \<Rightarrow>
               (case git (wr_path r) [''merge-tree'', ''--write-tree'', ''--end-of-options'', wr_ref r, ''HEAD''] of
                  Inl _ \<Rightarrow> False
                | Inr out \<Rightarrow> trim_space (hd (split_at line_feed out)) = trim_space base_tree))"

definition ahead_behind :: "git \<Rightarrow> worktree_record \<Rightarrow> (int \<times> int) option" where
  "ahead_behind git r =
     (if wr_ref r = [] then None
      else case git (wr_path r) [''rev-list'', ''--left-right'', ''--count'', ''--end-of-options'', wr_ref r @ ''...HEAD''] of
             Inl _ \<Rightarrow> None
           | Inr out \<Rightarrow>
               (case cut_at tab (trim_space out) of
                  None \<Rightarrow> None
                | Some (l, rt) \<Rightarrow>
                    (case (parse_int64 rt, parse_int64 l) of (Some ahead, Some behind) \<Rightarrow> Some (ahead, behind) | _ \<Rightarrow> None)))"

definition ahead_of_base :: "git \<Rightarrow> worktree_record \<Rightarrow> int option" where
  "ahead_of_base git r =
     (case git (wr_path r) [''rev-list'', ''--count'', ''--end-of-options'', wr_base r @ ''..HEAD''] of
        Inl _ \<Rightarrow> None | Inr n \<Rightarrow> parse_int64 (trim_space n))"

definition status_of :: "wt_env \<Rightarrow> wt_world \<Rightarrow> worktree_record \<Rightarrow> worktree_status" where
  "status_of e w r =
     (let git = git_of e w; ab = ahead_behind git r
      in \<lparr>ws_record = r,
          ws_ahead = (case ab of Some (ahead, _) \<Rightarrow> Some ahead | None \<Rightarrow> ahead_of_base git r),
          ws_behind = map_option snd ab,
          ws_dirty = (case git (wr_path r) [''status'', ''--porcelain''] of Inl _ \<Rightarrow> None | Inr st \<Rightarrow> Some (trim_space st \<noteq> [])),
          ws_merged = (case ab of Some (ahead, _) \<Rightarrow> Some (merged_of git r ahead) | None \<Rightarrow> None),
          ws_chats = chats_of e r\<rparr>)"

end
