(* ===== verification/Worktree_Finish.thy ===== *)
theory Worktree_Finish
  imports Worktrees
begin

text \<open>
  The worktrees the gateway shows and what a client can do with one: listing, deleting, rebasing, merging and pushing
  (\<^verbatim>\<open>internal/workspace/worktree.go\<close>, \<^verbatim>\<open>finish.go\<close>). Rebase, merge and push hold \<^verbatim>\<open>finishMu\<close>, so each is one operation here.
\<close>

section \<open>Discovering worktrees\<close>

definition default_ref_name :: "git \<Rightarrow> string \<Rightarrow> string" where
  "default_ref_name git cwd = trim_space (git_or_empty git cwd [''symbolic-ref'', ''--quiet'', ''--short'', ''refs/remotes/origin/HEAD''])"

definition add_trunk :: "git \<Rightarrow> string \<Rightarrow> string \<Rightarrow> string list \<Rightarrow> string list" where
  "add_trunk git checkout ref out =
     (if ref = [] \<or> ref \<in> set out \<or> commit_of git checkout ref = None then out else out @ [ref])"

definition trunk_refs :: "git \<Rightarrow> string \<Rightarrow> string list" where
  "trunk_refs git checkout =
     (let remote = default_ref_name git checkout;
          out = (case cut_prefix remote ''origin/'' of None \<Rightarrow> [] | Some name \<Rightarrow> add_trunk git checkout name [])
      in add_trunk git checkout remote (add_trunk git checkout (base_ref_of git checkout ''HEAD'') out))"

fun first_base :: "git \<Rightarrow> worktree_record \<Rightarrow> string list \<Rightarrow> (string \<times> string) option" where
  "first_base git r [] = None"
| "first_base git r (t # ts) =
     (if t = wr_branch r then first_base git r ts
      else case git (wr_path r) [''merge-base'', ''--end-of-options'', t, ''HEAD''] of
             Inl _ \<Rightarrow> first_base git r ts
           | Inr mb \<Rightarrow> if trim_space mb = [] then first_base git r ts else Some (t, trim_space mb))"

definition with_default_base :: "git \<Rightarrow> worktree_record \<Rightarrow> string list \<Rightarrow> worktree_record" where
  "with_default_base git r trunks =
     (if wr_base r \<noteq> [] then r
      else case first_base git r trunks of
             Some (t, mb) \<Rightarrow> r\<lparr>wr_ref := t, wr_base := mb\<rparr>
           | None \<Rightarrow> r\<lparr>wr_base := (case commit_of git (wr_path r) ''HEAD'' of None \<Rightarrow> [] | Some c \<Rightarrow> c)\<rparr>)"

text \<open>What a walk over the directories has gathered.\<close>

record discovery =
  dc_listed :: "string list"
  dc_seen :: "string list"
  dc_unmanaged :: "worktree_record list"
  dc_trunks :: "string \<rightharpoonup> string list"
  dc_repos :: "string list"

definition note_trunks :: "git \<Rightarrow> string \<Rightarrow> discovery \<Rightarrow> discovery" where
  "note_trunks git checkout d =
     (case dc_trunks d checkout of Some _ \<Rightarrow> d | None \<Rightarrow> d\<lparr>dc_trunks := (dc_trunks d)(checkout \<mapsto> trunk_refs git checkout)\<rparr>)"

definition unmanaged_record :: "wt_env \<Rightarrow> string \<Rightarrow> string \<Rightarrow> porcelain_worktree \<Rightarrow> worktree_record" where
  "unmanaged_record e checkout canon wt =
     \<lparr>wr_id = we_path_id e canon, wr_repo = checkout, wr_path = path_clean (pw_path wt), wr_branch = pw_branch wt,
      wr_base = [], wr_ref = [], wr_created = (case we_modified e (path_join [pw_path wt, ''.git'']) of None \<Rightarrow> zero_time | Some t \<Rightarrow> t)\<rparr>"

definition note_worktree :: "wt_env \<Rightarrow> wt_world \<Rightarrow> string set \<Rightarrow> string \<Rightarrow> nat \<times> porcelain_worktree \<Rightarrow> discovery \<Rightarrow> discovery" where
  "note_worktree e w managed checkout entry d =
     (let wt = snd entry; canon = we_canon e (w_log w) (pw_path wt); d1 = d\<lparr>dc_seen := dc_seen d @ [canon]\<rparr>
      in if fst entry = 0 \<or> pw_prunable wt \<or> folder_missing e w (pw_path wt) then d1
         else
           let d2 = d1\<lparr>dc_listed := dc_listed d1 @ [canon]\<rparr>
           in if canon \<in> managed then d2
              else (note_trunks (git_of e w) checkout d2)\<lparr>dc_unmanaged := dc_unmanaged d2 @ [unmanaged_record e checkout canon wt]\<rparr>)"

definition remember_repo :: "string \<Rightarrow> discovery \<Rightarrow> discovery" where
  "remember_repo checkout d = (if checkout \<in> set (dc_repos d) then d else d\<lparr>dc_repos := dc_repos d @ [checkout]\<rparr>)"

definition discover_dir :: "wt_env \<Rightarrow> wt_world \<Rightarrow> string set \<Rightarrow> bool \<Rightarrow> string \<Rightarrow> discovery \<Rightarrow> status_error + discovery" where
  "discover_dir e w managed named dir0 d =
     (let dir = we_canon e (w_log w) dir0
      in if list_ex (\<lambda>p. subpath_of dir p) (dc_seen d) then Inr d
         else case git_of e w dir [''worktree'', ''list'', ''--porcelain''] of
                Inl err \<Rightarrow> if named then Inl (422, err) else Inr d
              | Inr out \<Rightarrow>
                  (case parse_worktree_list out of
                     [] \<Rightarrow> Inr d
                   | p # ps \<Rightarrow>
                       let checkout = path_clean (pw_path p); d1 = (if named then remember_repo checkout d else d)
                       in Inr (fold (note_worktree e w managed checkout) (enumerate 0 (p # ps)) d1)))"

fun discover_dirs :: "wt_env \<Rightarrow> wt_world \<Rightarrow> string set \<Rightarrow> bool \<Rightarrow> string list \<Rightarrow> discovery \<Rightarrow> status_error + discovery" where
  "discover_dirs e w managed named [] d = Inr d"
| "discover_dirs e w managed named (x # xs) d =
     (case discover_dir e w managed named x d of
        Inl err \<Rightarrow> Inl err
      | Inr d1 \<Rightarrow> discover_dirs e w managed named xs d1)"

definition discover ::
  "wt_env \<Rightarrow> string \<Rightarrow> wt_world \<Rightarrow> (status_error + worktree_record list \<times> (string \<rightharpoonup> string list)) \<times> wt_world" where
  "discover e repo0 w =
     (case list_worktrees e w of
        None \<Rightarrow> (Inl (500, ''failed to list worktrees''), w)
      | Some rs \<Rightarrow>
          let repo = trim_space repo0; named = (repo \<noteq> []);
              dirs = (if named then [repo] else map wr_repo rs @ w_repos w @ (case we_chats e of None \<Rightarrow> [] | Some cs \<Rightarrow> map snd cs));
              canon = we_canon e (w_log w)
          in if named \<and> \<not> path_is_abs repo then (Inl (400, ''repo must be an absolute path''), w)
             else
               (case discover_dirs e w (canon ` wr_path ` set rs) named dirs
                  \<lparr>dc_listed = [], dc_seen = [], dc_unmanaged = [], dc_trunks = Map.empty, dc_repos = w_repos w\<rparr> of
                  Inl err \<Rightarrow> (Inl err, w)
                | Inr d \<Rightarrow>
                    (Inr (filter (\<lambda>r. canon (wr_path r) \<in> set (dc_listed d)) rs @ dc_unmanaged d, dc_trunks d),
                     w\<lparr>w_repos := dc_repos d\<rparr>)))"

definition trunks_of :: "(string \<rightharpoonup> string list) \<Rightarrow> worktree_record \<Rightarrow> string list" where
  "trunks_of trunks r = (case trunks (wr_repo r) of None \<Rightarrow> [] | Some ts \<Rightarrow> ts)"

definition worktree_statuses :: "wt_env \<Rightarrow> string \<Rightarrow> wt_world \<Rightarrow> (status_error + worktree_status list) \<times> wt_world" where
  "worktree_statuses e repo w =
     (case discover e repo w of
        (Inl err, w1) \<Rightarrow> (Inl err, w1)
      | (Inr (rs, trunks), w1) \<Rightarrow> (Inr (map (\<lambda>r. status_of e w1 (with_default_base (git_of e w1) r (trunks_of trunks r))) rs), w1))"

definition worktree_of :: "wt_env \<Rightarrow> wt_world \<Rightarrow> string \<Rightarrow> worktree_record option" where
  "worktree_of e w i =
     (case find_worktree e w (\<lambda>r. wr_id r = i) of
        Some r \<Rightarrow> Some r
      | None \<Rightarrow>
          (case fst (discover e [] w) of
             Inl _ \<Rightarrow> None
           | Inr (rs, trunks) \<Rightarrow>
               map_option (\<lambda>r. with_default_base (git_of e w) r (trunks_of trunks r)) (List.find (\<lambda>r. wr_id r = i) rs)))"

definition get_worktree :: "wt_env \<Rightarrow> wt_world \<Rightarrow> string \<Rightarrow> status_error + worktree_status" where
  "get_worktree e w i =
     (case worktree_of e w i of
        None \<Rightarrow> Inl (404, ''unknown worktree'')
      | Some r \<Rightarrow> if folder_missing e w (wr_path r) then Inl (404, ''unknown worktree'') else Inr (status_of e w r))"

section \<open>Deleting a worktree\<close>

definition is_clean :: "git \<Rightarrow> string \<Rightarrow> bool option" where
  "is_clean git dir = (case git dir [''status'', ''--porcelain''] of Inl _ \<Rightarrow> None | Inr st \<Rightarrow> Some (trim_space st = []))"

text \<open>Why the folder may not be removed, if it may not.\<close>

definition keep_reason :: "wt_env \<Rightarrow> bool \<Rightarrow> worktree_record \<Rightarrow> wt_world \<Rightarrow> status_error option" where
  "keep_reason e force r w =
     (if found (stat_of e w (wr_path r)) \<and> \<not> force \<and> found (stat_of e w (path_join [wr_path r, ''.git''])) then
        (case is_clean (git_of e w) (wr_path r) of
           None \<Rightarrow> Some (409, ''could not check worktree for uncommitted changes; delete with force to discard them'')
         | Some False \<Rightarrow> Some (409, ''worktree has uncommitted changes'')
         | Some True \<Rightarrow> None)
      else None)"

definition remove_folder :: "wt_env \<Rightarrow> worktree_record \<Rightarrow> wt_world \<Rightarrow> bool \<times> wt_world" where
  "remove_folder e r w =
     (if found (stat_of e w (wr_path r))
      then remove_all_retrying e (wr_path r) (snd (run_git e (wr_repo r) [''worktree'', ''remove'', ''--force'', wr_path r] w))
      else (True, w))"

definition delete_worktree :: "wt_env \<Rightarrow> string \<Rightarrow> bool \<Rightarrow> wt_world \<Rightarrow> (status_error + bool) \<times> wt_world" where
  "delete_worktree e i force w =
     (case worktree_of e w i of
        None \<Rightarrow> (Inl (404, ''unknown worktree''), w)
      | Some r \<Rightarrow>
          (case in_use e r of
             Some err \<Rightarrow> (Inl err, w)
           | None \<Rightarrow>
               if stat_of e w (path_join [wr_path r, ''.git'']) = A_Folder then (Inl (409, ''refusing to delete a main repository checkout''), w)
               else
                 (case keep_reason e force r w of
                    Some err \<Rightarrow> (Inl err, w)
                  | None \<Rightarrow>
                      let (gone, w1) = remove_folder e r w
                      in if \<not> gone then (Inl (500, ''worktree folder is still in use; close its chat and try again''), w1)
                         else
                           let w2 = snd (run_git e (wr_repo r) [''worktree'', ''prune''] w1);
                               (b, w3) = run_git e (wr_repo r) [''branch'', ''-d'', wr_branch r] w2
                           in (Inr (case b of Inl _ \<Rightarrow> False | Inr _ \<Rightarrow> True), delete_row e (wr_id r) w3))))"

section \<open>Finishing a worktree\<close>

definition clean_worktree :: "wt_env \<Rightarrow> wt_world \<Rightarrow> string \<Rightarrow> status_error + worktree_record" where
  "clean_worktree e w i =
     (case worktree_of e w i of
        None \<Rightarrow> Inl (404, ''unknown worktree'')
      | Some r \<Rightarrow>
          if \<not> found (stat_of e w (wr_path r)) then Inl (409, ''worktree folder is missing'')
          else case is_clean (git_of e w) (wr_path r) of
                 None \<Rightarrow> Inl (500, ''failed to check worktree status'')
               | Some False \<Rightarrow> Inl (409, ''worktree has uncommitted changes'')
               | Some True \<Rightarrow> Inr r)"

definition rebase_worktree :: "wt_env \<Rightarrow> string \<Rightarrow> wt_world \<Rightarrow> (status_error + worktree_status) \<times> wt_world" where
  "rebase_worktree e i w =
     (case clean_worktree e w i of
        Inl err \<Rightarrow> (Inl err, w)
      | Inr r \<Rightarrow>
          if wr_ref r = [] then (Inl (409, ''worktree has no base ref to rebase onto''), w)
          else
            (case run_git e (wr_path r) [''rebase'', ''--end-of-options'', wr_ref r] w of
               (Inl err, w1) \<Rightarrow>
                 (Inl (409, ''rebase onto '' @ wr_ref r @ '' failed and was aborted: '' @ err),
                  snd (run_git e (wr_path r) [''rebase'', ''--abort''] w1))
             | (Inr _, w1) \<Rightarrow> (Inr (status_of e w1 r), w1)))"

record merge_request =
  mq_squash :: bool
  mq_message :: string
  mq_delete :: bool

record merge_result =
  mr_commit :: string
  mr_worktree_deleted :: bool
  mr_branch_deleted :: bool

text \<open>Why the branch may not be merged, if it may not: the checks of \<^verbatim>\<open>Merge\<close> in their order.\<close>

definition merge_refused :: "wt_env \<Rightarrow> merge_request \<Rightarrow> worktree_record \<Rightarrow> wt_world \<Rightarrow> status_error option" where
  "merge_refused e req r w =
     (let git = git_of e w
      in if wr_ref r = [] then Some (409, ''worktree has no base branch to merge into'')
         else if wr_branch r = [] then Some (409, ''worktree is detached; check out a branch first'')
         else if \<not> branch_exists git (wr_repo r) (wr_ref r) then Some (409, ''base '' @ wr_ref r @ '' is not a local branch'')
         else if (case git (wr_repo r) [''symbolic-ref'', ''--quiet'', ''--short'', ''HEAD''] of Inl _ \<Rightarrow> True | Inr head \<Rightarrow> trim_space head \<noteq> wr_ref r)
           then Some (409, ''base branch '' @ wr_ref r @ '' is not checked out in the main checkout'')
         else case git (wr_repo r) [''status'', ''--porcelain'', ''--untracked-files=no''] of
                Inl _ \<Rightarrow> Some (500, ''failed to check the main checkout'')
              | Inr st \<Rightarrow>
                  if trim_space st \<noteq> [] then Some (409, ''main checkout has uncommitted changes'')
                  else if ws_ahead (status_of e w r) = Some 0 then Some (409, ''nothing to merge'')
                  else if mq_delete req then in_use e r else None)"

definition merge_branch :: "wt_env \<Rightarrow> merge_request \<Rightarrow> worktree_record \<Rightarrow> wt_world \<Rightarrow> status_error option \<times> wt_world" where
  "merge_branch e req r w =
     (if mq_squash req then
        let message = (if trim_space (mq_message req) = [] then ''Merge '' @ wr_branch r else trim_space (mq_message req))
        in case run_git e (wr_repo r) [''merge'', ''--squash'', ''--end-of-options'', wr_branch r] w of
             (Inl err, w1) \<Rightarrow> (Some (409, ''squash merge failed and was undone: '' @ err), snd (run_git e (wr_repo r) [''reset'', ''--merge''] w1))
           | (Inr _, w1) \<Rightarrow>
               (case run_git e (wr_repo r) [''commit'', ''-m'', message] w1 of
                  (Inl err, w2) \<Rightarrow> (Some (422, err), snd (run_git e (wr_repo r) [''reset'', ''--merge''] w2))
                | (Inr _, w2) \<Rightarrow> (None, w2))
      else
        (case run_git e (wr_repo r) [''merge'', ''--ff-only'', ''--end-of-options'', wr_branch r] w of
           (Inl err, w1) \<Rightarrow> (Some (409, ''cannot fast-forward '' @ wr_ref r @ '' (rebase first, or squash): '' @ err), w1)
         | (Inr _, w1) \<Rightarrow> (None, w1)))"

definition clean_up_merged :: "wt_env \<Rightarrow> merge_request \<Rightarrow> worktree_record \<Rightarrow> string \<Rightarrow> wt_world \<Rightarrow> merge_result \<times> wt_world" where
  "clean_up_merged e req r commit w =
     (if \<not> mq_delete req then (\<lparr>mr_commit = commit, mr_worktree_deleted = False, mr_branch_deleted = False\<rparr>, w)
      else
        (case delete_worktree e (wr_id r) False w of
           (Inl _, w1) \<Rightarrow> (\<lparr>mr_commit = commit, mr_worktree_deleted = False, mr_branch_deleted = False\<rparr>, w1)
         | (Inr deleted, w1) \<Rightarrow>
             if mq_squash req \<and> \<not> deleted then
               (case run_git e (wr_repo r) [''branch'', ''-D'', wr_branch r] w1 of
                  (b, w2) \<Rightarrow> (\<lparr>mr_commit = commit, mr_worktree_deleted = True, mr_branch_deleted = (case b of Inl _ \<Rightarrow> False | Inr _ \<Rightarrow> True)\<rparr>, w2))
             else (\<lparr>mr_commit = commit, mr_worktree_deleted = True, mr_branch_deleted = deleted\<rparr>, w1)))"

definition merge_worktree :: "wt_env \<Rightarrow> string \<Rightarrow> merge_request \<Rightarrow> wt_world \<Rightarrow> (status_error + merge_result) \<times> wt_world" where
  "merge_worktree e i req w =
     (case clean_worktree e w i of
        Inl err \<Rightarrow> (Inl err, w)
      | Inr r \<Rightarrow>
          (case merge_refused e req r w of
             Some err \<Rightarrow> (Inl err, w)
           | None \<Rightarrow>
               (case merge_branch e req r w of
                  (Some err, w1) \<Rightarrow> (Inl err, w1)
                | (None, w1) \<Rightarrow>
                    let commit = (case git_of e w1 (wr_repo r) [''rev-parse'', ''HEAD''] of Inl _ \<Rightarrow> [] | Inr c \<Rightarrow> trim_space c);
                        (res, w2) = clean_up_merged e req r commit w1
                    in (Inr res, w2))))"

record push_request =
  pq_pr :: bool
  pq_title :: string
  pq_body :: string

definition pr_base :: "git \<Rightarrow> worktree_record \<Rightarrow> string" where
  "pr_base git r =
     (if wr_ref r = [] then []
      else if branch_exists git (wr_repo r) (wr_ref r) then wr_ref r
      else if parse_pr_ref (wr_ref r) \<noteq> None then []
      else case cut_prefix (wr_ref r) ''origin/'' of None \<Rightarrow> [] | Some b \<Rightarrow> b)"

definition pr_args :: "git \<Rightarrow> push_request \<Rightarrow> worktree_record \<Rightarrow> string list" where
  "pr_args git req r =
     [''pr'', ''create'', ''--head'', wr_branch r] @
     (if pr_base git r = [] then [] else [''--base'', pr_base git r]) @
     (if trim_space (pq_title req) = [] then [''--fill''] else [''--title'', trim_space (pq_title req), ''--body'', pq_body req])"

definition push_worktree :: "wt_env \<Rightarrow> string \<Rightarrow> push_request \<Rightarrow> wt_world \<Rightarrow> (status_error + string) \<times> wt_world" where
  "push_worktree e i req w =
     (case clean_worktree e w i of
        Inl err \<Rightarrow> (Inl err, w)
      | Inr r \<Rightarrow>
          if wr_branch r = [] then (Inl (409, ''worktree is detached; check out a branch first''), w)
          else if pq_pr req \<and> \<not> we_has e ''gh'' then (Inl (422, ''gh is not installed''), w)
          else
            (case run_tool e (wr_path r) ''git'' [''push'', ''--set-upstream'', ''origin'', wr_branch r] w of
               (Inl msg, w1) \<Rightarrow>
                 (if str_contains msg ''(fetch first)'' \<or> str_contains msg ''(non-fast-forward)''
                  then (Inl (409, ''origin has commits this branch lacks; it was not overwritten: '' @ msg), w1)
                  else (Inl (422, msg), w1))
             | (Inr _, w1) \<Rightarrow>
                 if \<not> pq_pr req then (Inr [], w1)
                 else
                   (case run_tool e (wr_path r) ''gh'' (pr_args (git_of e w1) req r) w1 of
                      (Inl msg, w2) \<Rightarrow> (Inl (422, ''pushed, but opening the pull request failed: '' @ msg), w2)
                    | (Inr out, w2) \<Rightarrow> (Inr (last_line out), w2))))"

section \<open>What the review compares against\<close>

definition merge_base :: "git \<Rightarrow> worktree_record \<Rightarrow> string option" where
  "merge_base git r =
     (if wr_ref r = [] then None
      else case git (wr_path r) [''merge-base'', ''--end-of-options'', wr_ref r, ''HEAD''] of
             Inl _ \<Rightarrow> None
           | Inr mb \<Rightarrow> if trim_space mb = [] then None else Some (trim_space mb))"

definition base_of :: "git \<Rightarrow> worktree_record \<Rightarrow> string" where
  "base_of git r = (case merge_base git r of Some mb \<Rightarrow> mb | None \<Rightarrow> wr_base r)"

definition base_ref :: "wt_env \<Rightarrow> wt_world \<Rightarrow> string \<Rightarrow> string" where
  "base_ref e w cwd =
     (case find_worktree e w (\<lambda>r. subpath_of cwd (wr_path r)) of Some r \<Rightarrow> base_of (git_of e w) r | None \<Rightarrow> ''HEAD'')"

definition branch_of :: "wt_env \<Rightarrow> wt_world \<Rightarrow> string \<Rightarrow> string" where
  "branch_of e w cwd = (case find_worktree e w (\<lambda>r. subpath_of cwd (wr_path r)) of Some r \<Rightarrow> wr_branch r | None \<Rightarrow> [])"

definition branch_start :: "git \<Rightarrow> string \<Rightarrow> string option" where
  "branch_start git cwd =
     (case git cwd [''symbolic-ref'', ''--quiet'', ''--short'', ''HEAD''] of
        Inl _ \<Rightarrow> None
      | Inr name \<Rightarrow>
          if trim_space name = [] then None
          else case git cwd [''reflog'', ''show'', ''--no-abbrev'', ''--format=%H%x00%gs'', trim_space name] of
                 Inl _ \<Rightarrow> None | Inr out \<Rightarrow> reflog_start out)"

fun fork_from :: "git \<Rightarrow> string \<Rightarrow> string list \<Rightarrow> string" where
  "fork_from git cwd [] = ''HEAD''"
| "fork_from git cwd (ref # refs) =
     (if ref = [] \<or> ref = ''HEAD'' then fork_from git cwd refs
      else case git cwd [''merge-base'', ''--end-of-options'', ref, ''HEAD''] of
             Inl _ \<Rightarrow> fork_from git cwd refs
           | Inr mb \<Rightarrow>
               if trim_space mb = [] then fork_from git cwd refs
               else case git cwd [''rev-parse'', ''--verify'', ''HEAD''] of
                      Inl _ \<Rightarrow> fork_from git cwd refs
                    | Inr head \<Rightarrow> if trim_space mb \<noteq> trim_space head then trim_space mb else fork_from git cwd refs)"

definition fork_point :: "git \<Rightarrow> string \<Rightarrow> string" where
  "fork_point git cwd = fork_from git cwd [default_ref_name git cwd, ''main'', ''master'']"

definition log_base :: "wt_env \<Rightarrow> wt_world \<Rightarrow> string \<Rightarrow> string" where
  "log_base e w cwd =
     (let base = base_ref e w cwd
      in if base \<noteq> ''HEAD'' then base
         else case branch_start (git_of e w) cwd of Some s \<Rightarrow> s | None \<Rightarrow> fork_point (git_of e w) cwd)"

end
