(* ===== verification/Api_Workspace.thy ===== *)
theory Api_Workspace
  imports Http_Auth Worktree_Finish
begin

text \<open>
  The workspace and worktree endpoints (\<^verbatim>\<open>internal/api/workspace.go\<close>, \<^verbatim>\<open>internal/api/worktree.go\<close>, \<^verbatim>\<open>internal/api/auth.go\<close>):
  the gate, the handlers over the git queries and the worktree operations, and the table that names a handler for a
  route (\<^verbatim>\<open>routes\<close> in \<^verbatim>\<open>internal/api/server.go\<close>). A handler gets the query values, the path values and the decoded body of
  its request. How a payload is written as JSON, gzipped or given a deadline is not modelled.
\<close>

section \<open>Requests, answers and the gate\<close>

datatype 'a request_body = Malformed | Empty_Body | Decoded 'a

record git_status_reply =
  gs_branch :: string
  gs_ahead :: int
  gs_behind :: int
  gs_changed :: "changed_file list"
  gs_compare :: string
  gs_compare_commit :: string

datatype api_reply =
    Api_Auth reply
  | Api_Error int string
  | Api_Panic
  | Api_Text string string string int bool
  | Api_Blob string string string int bool
  | Api_Files "string list" bool
  | Api_Refs string "ref list"
  | Api_Git_Status git_status_reply
  | Api_Diff diff_entry
  | Api_Diffs "diff_entry list"
  | Api_Log log_page string
  | Api_Commit string "changed_file list"
  | Api_Worktree worktree_record
  | Api_Worktree_Status worktree_status
  | Api_Worktrees "worktree_status list"
  | Api_Worktree_Deleted string bool
  | Api_Merged merge_result
  | Api_Pushed string
  | Api_Missing "string list"

record auth_env =
  au_crypto :: crypto
  au_digest :: "string \<Rightarrow> string"
  au_io :: "string \<Rightarrow> bool"
  au_now :: gtime

definition with_scope ::
  "auth_env \<Rightarrow> string \<Rightarrow> http_request \<Rightarrow> (credential \<Rightarrow> 'w \<Rightarrow> api_reply \<times> 'w) \<Rightarrow> gateway \<times> 'w \<Rightarrow> api_reply \<times> gateway \<times> 'w" where
  "with_scope a scope r handler gw =
     (case require_gateway_scope (au_crypto a) (au_digest a) (au_io a) (au_now a) scope r (fst gw) of
        (g, Inl e) \<Rightarrow> (Api_Auth e, g, snd gw)
      | (g, Inr c) \<Rightarrow> (case handler c (snd gw) of (rep, w) \<Rightarrow> (rep, g, w)))"

text \<open>Where a runtime works, and the files there.\<close>

datatype cwd_answer = Works_In string | No_Session string | Lookup_Failed

record api_env =
  ap_wt :: wt_env
  ap_cwd :: "string \<Rightarrow> string \<Rightarrow> cwd_answer"
  ap_process_dir :: "string option"
  ap_eval :: "string \<Rightarrow> string option"
  ap_file :: "string \<Rightarrow> string option"
  ap_size :: "string \<Rightarrow> int"
  ap_chunks :: "string \<Rightarrow> string list option"
  ap_mime :: "string \<Rightarrow> string"
  ap_uri :: "string \<Rightarrow> string"
  ap_base64 :: "string \<Rightarrow> string"
  ap_without_user :: "string \<Rightarrow> string option"

record api_request =
  ar_query :: "string \<Rightarrow> string"
  ar_var :: "string \<Rightarrow> string"

definition resolve_workspace_cwd :: "api_env \<Rightarrow> api_request \<Rightarrow> api_reply + string" where
  "resolve_workspace_cwd e q =
     (case ap_cwd e (ar_var q ''runtimeId'') (trim_space (ar_query q ''acpSessionId'')) of
        Works_In cwd \<Rightarrow> Inr cwd
      | No_Session msg \<Rightarrow> Inl (Api_Error 404 msg)
      | Lookup_Failed \<Rightarrow> Inl (Api_Error 500 ''failed to resolve agent working directory''))"

definition workspace_error :: "status_error \<Rightarrow> api_reply" where
  "workspace_error err = Api_Error (fst err) (snd err)"

definition path_error_text :: "path_error \<Rightarrow> string" where
  "path_error_text err =
     (case err of
        Path_Required \<Rightarrow> ''path is required''
      | Path_Escapes \<Rightarrow> ''path escapes the agent's working directory''
      | No_Working_Directory \<Rightarrow> ''getwd failed'')"

definition resolve_path :: "api_env \<Rightarrow> string \<Rightarrow> string \<Rightarrow> api_reply + string" where
  "resolve_path e cwd rel =
     (case resolve_within_root (ap_process_dir e) (ap_eval e) cwd rel of
        Inl err \<Rightarrow> Inl (Api_Error 400 (path_error_text err))
      | Inr p \<Rightarrow> Inr p)"

section \<open>Files\<close>

definition max_workspace_file_bytes :: nat where "max_workspace_file_bytes = 8 * 1024 * 1024"

definition is_binary :: "string \<Rightarrow> bool" where "is_binary data \<longleftrightarrow> nul \<in> set data"

definition serve_workspace_file :: "api_env \<Rightarrow> string \<Rightarrow> string \<Rightarrow> api_reply" where
  "serve_workspace_file e p rel =
     (case read_file_limited (ap_file e p) max_workspace_file_bytes of
        None \<Rightarrow> Api_Error 500 ''failed to read file''
      | Some data0 \<Rightarrow>
          let truncated = length data0 > max_workspace_file_bytes; data = take max_workspace_file_bytes data0; mime = ap_mime e rel
          in if is_binary data \<or> has_prefix mime ''image/'' \<and> \<not> has_prefix mime ''image/svg+xml''
             then Api_Blob (ap_base64 e data) (ap_uri e p) mime (ap_size e p) truncated
             else Api_Text data (ap_uri e p) mime (ap_size e p) truncated)"

definition workspace_file :: "api_env \<Rightarrow> api_request \<Rightarrow> wt_world \<Rightarrow> api_reply" where
  "workspace_file e q w =
     (case resolve_workspace_cwd e q of
        Inl err \<Rightarrow> err
      | Inr cwd \<Rightarrow>
          let rel = trim_space (ar_query q ''path'')
          in case resolve_path e cwd rel of
               Inl err \<Rightarrow> err
             | Inr p \<Rightarrow>
                 if \<not> found (stat_of (ap_wt e) w p) then Api_Error 404 ''file not found''
                 else if stat_of (ap_wt e) w p = A_Folder then Api_Error 400 ''path is a directory''
                 else serve_workspace_file e p rel)"

definition max_file_list_entries :: int where "max_file_list_entries = 50000"

definition workspace_file_list :: "api_env \<Rightarrow> api_request \<Rightarrow> wt_world \<Rightarrow> api_reply" where
  "workspace_file_list e q w =
     (case resolve_workspace_cwd e q of
        Inl err \<Rightarrow> err
      | Inr cwd \<Rightarrow>
          (case list_files (git_of (ap_wt e) w) cwd max_file_list_entries of
             Inl err \<Rightarrow> Api_Error 422 (snd err)
           | Inr (files, truncated) \<Rightarrow> Api_Files files truncated))"

section \<open>The state of the checkout\<close>

definition workspace_refs :: "api_env \<Rightarrow> api_request \<Rightarrow> wt_world \<Rightarrow> api_reply" where
  "workspace_refs e q w =
     (case resolve_workspace_cwd e q of
        Inl err \<Rightarrow> err
      | Inr cwd \<Rightarrow>
          (case repo_refs_of (git_of (ap_wt e) w) cwd of
             Inl err \<Rightarrow> workspace_error err
           | Inr (dflt, rs) \<Rightarrow> Api_Refs dflt rs))"

text \<open>\<^verbatim>\<open>Sscanf\<close> with \<^verbatim>\<open>+%d -%d\<close> on what git prints: two numbers with their signs and one space.\<close>

definition ahead_behind_header :: "string \<Rightarrow> (int \<times> int) option" where
  "ahead_behind_header s =
     (case cut_at (CHR '' '') s of
        None \<Rightarrow> None
      | Some (a, b) \<Rightarrow>
          if has_prefix a ''+'' \<and> has_prefix b ''-'' then
            (case (parse_int64 (drop 1 a), parse_int64 (drop 1 b)) of (Some x, Some y) \<Rightarrow> Some (x, y) | _ \<Rightarrow> None)
          else None)"

definition branch_header_line :: "string \<Rightarrow> git_status_reply \<Rightarrow> git_status_reply" where
  "branch_header_line line g =
     (if has_prefix line ''# branch.head '' then g\<lparr>gs_branch := trim_space (trim_prefix ''# branch.head '' line)\<rparr>
      else if has_prefix line ''# branch.ab '' then
        (case ahead_behind_header (trim_space (trim_prefix ''# branch.ab '' line)) of
           None \<Rightarrow> g | Some (x, y) \<Rightarrow> g\<lparr>gs_ahead := x, gs_behind := y\<rparr>)
      else g)"

definition parse_branch_header :: "string \<Rightarrow> git_status_reply \<Rightarrow> git_status_reply" where
  "parse_branch_header out g = fold branch_header_line (split_at line_feed out) g"

definition status_reply :: "changed_file list \<Rightarrow> string \<Rightarrow> string \<Rightarrow> git_status_reply" where
  "status_reply rows compare commit =
     \<lparr>gs_branch = [], gs_ahead = 0, gs_behind = 0, gs_changed = rows, gs_compare = compare, gs_compare_commit = commit\<rparr>"

definition add_stats :: "(string \<rightharpoonup> changed_file) \<Rightarrow> changed_file \<Rightarrow> changed_file" where
  "add_stats stats f =
     (if cf_status f = ''R'' then f
      else case stats (cf_path f) of
             None \<Rightarrow> f
           | Some s \<Rightarrow> f\<lparr>cf_added := cf_added s, cf_removed := cf_removed s, cf_binary := cf_binary s\<rparr>)"

definition count_untracked :: "api_env \<Rightarrow> string \<Rightarrow> changed_file \<Rightarrow> changed_file" where
  "count_untracked e cwd f =
     (if cf_status f = ''?'' then
        (case count_file_lines (ap_chunks e (path_join [cwd, cf_path f])) of (n, bin) \<Rightarrow> f\<lparr>cf_added := n, cf_binary := bin\<rparr>)
      else f)"

definition head_numstat :: "git \<Rightarrow> string \<Rightarrow> string \<Rightarrow> string option" where
  "head_numstat git cwd ref =
     (case git cwd [''diff'', ref, ''--numstat'', ''--relative''] of
        Inr out \<Rightarrow> Some out
      | Inl _ \<Rightarrow>
          if ref = ''HEAD'' then
            (case git cwd [''diff'', ''--cached'', ''--numstat'', ''--relative''] of Inr out \<Rightarrow> Some out | Inl _ \<Rightarrow> None)
          else None)"

definition workspace_status :: "api_env \<Rightarrow> api_request \<Rightarrow> wt_world \<Rightarrow> api_reply" where
  "workspace_status e q w =
     (case resolve_workspace_cwd e q of
        Inl err \<Rightarrow> err
      | Inr cwd \<Rightarrow>
          let git = git_of (ap_wt e) w; compare = trim_space (ar_query q ''compare'')
          in if compare \<noteq> [] then
               (case resolve_ref git cwd compare of
                  Inl err \<Rightarrow> workspace_error err
                | Inr sha \<Rightarrow>
                    (case git_status git cwd of
                       Inl err \<Rightarrow> Api_Error 422 err
                     | Inr out \<Rightarrow>
                         (case compare_changes git (ap_chunks e) cwd sha of
                            Inl err \<Rightarrow> Api_Error 422 err
                          | Inr rows \<Rightarrow> Api_Git_Status (parse_branch_header out (status_reply rows compare sha)))))
             else
               let ref = base_ref (ap_wt e) w cwd
               in case changes git cwd ref of
                    None \<Rightarrow> Api_Panic
                  | Some (Inl err) \<Rightarrow> Api_Error 422 err
                  | Some (Inr (out, rows)) \<Rightarrow>
                      let counted = (case head_numstat git cwd ref of None \<Rightarrow> rows | Some n \<Rightarrow> map (add_stats (parse_git_numstat n)) rows)
                      in Api_Git_Status (parse_branch_header out (status_reply (map (count_untracked e cwd) counted) [] [])))"

section \<open>Differences\<close>

definition traversal_refused :: "api_env \<Rightarrow> string \<Rightarrow> string list \<Rightarrow> api_reply option" where
  "traversal_refused e cwd ps =
     (case List.find (\<lambda>p. p \<noteq> [] \<and> (case resolve_path e cwd p of Inl _ \<Rightarrow> True | Inr _ \<Rightarrow> False)) ps of
        None \<Rightarrow> None
      | Some p \<Rightarrow> (case resolve_path e cwd p of Inl err \<Rightarrow> Some err | Inr _ \<Rightarrow> None))"

definition commit_file_diff :: "api_env \<Rightarrow> api_request \<Rightarrow> string \<Rightarrow> string \<Rightarrow> wt_world \<Rightarrow> api_reply" where
  "commit_file_diff e q cwd commit w =
     (let rel = trim_space (ar_query q ''path''); old_rel = trim_space (ar_query q ''oldPath''); git = git_of (ap_wt e) w
      in if rel = [] then Api_Error 400 ''commit requires path''
         else case traversal_refused e cwd [rel, old_rel] of
                Some err \<Rightarrow> err
              | None \<Rightarrow>
                  (case resolve_commit git cwd commit of
                     Inl err \<Rightarrow> workspace_error err
                   | Inr sha \<Rightarrow>
                       (case commit_diff_entry git cwd sha rel old_rel of
                          Inl err \<Rightarrow> workspace_error err
                        | Inr d \<Rightarrow> Api_Diff d)))"

text \<open>The entries of the whole tree, in order, for the files that resolve inside the directory and can be read.\<close>

definition tree_diffs :: "api_env \<Rightarrow> git \<Rightarrow> string \<Rightarrow> string \<Rightarrow> changed_file list \<Rightarrow> diff_entry list" where
  "tree_diffs e git cwd ref fs =
     List.map_filter (\<lambda>f. if cf_dir f then None
       else case resolve_path e cwd (cf_path f) of
              Inl _ \<Rightarrow> None
            | Inr p \<Rightarrow> file_diff_entry git cwd ref (cf_path f) (ap_file e p)) fs"

definition workspace_diff :: "api_env \<Rightarrow> api_request \<Rightarrow> wt_world \<Rightarrow> api_reply" where
  "workspace_diff e q w =
     (case resolve_workspace_cwd e q of
        Inl err \<Rightarrow> err
      | Inr cwd \<Rightarrow>
          let git = git_of (ap_wt e) w; commit = trim_space (ar_query q ''commit''); compare = trim_space (ar_query q ''compare'')
          in if commit \<noteq> [] then commit_file_diff e q cwd commit w
             else
               (case (if compare = [] then Inr (base_ref (ap_wt e) w cwd) else resolve_ref git cwd compare) of
                  Inl err \<Rightarrow> workspace_error err
                | Inr ref \<Rightarrow>
                    let rel = trim_space (ar_query q ''path'')
                    in if rel \<noteq> [] then
                         (case resolve_path e cwd rel of
                            Inl err \<Rightarrow> err
                          | Inr p \<Rightarrow>
                              if stat_of (ap_wt e) w p = A_Folder then Api_Error 400 (''path is a directory or submodule, not a file: '' @ rel)
                              else case file_diff_entry git cwd ref rel (ap_file e p) of
                                     None \<Rightarrow> Api_Error 422 ''cannot read file''
                                   | Some d \<Rightarrow> Api_Diff d)
                       else if compare \<noteq> [] then
                         (case compare_changes git (ap_chunks e) cwd ref of
                            Inl err \<Rightarrow> Api_Error 422 err
                          | Inr rows \<Rightarrow> Api_Diffs (tree_diffs e git cwd ref rows))
                       else
                         (case changes git cwd ref of
                            None \<Rightarrow> Api_Panic
                          | Some (Inl err) \<Rightarrow> Api_Error 422 err
                          | Some (Inr (_, rows)) \<Rightarrow> Api_Diffs (tree_diffs e git cwd ref rows))))"

section \<open>History\<close>

text \<open>A number among the query values: \<open>None\<close> when it is given and cannot be used.\<close>

definition number_param :: "string \<Rightarrow> int \<Rightarrow> bool \<Rightarrow> int option" where
  "number_param v dflt signed =
     (if v = [] then Some dflt
      else case parse_int64 v of None \<Rightarrow> None | Some n \<Rightarrow> if n < 0 \<and> \<not> signed then None else Some n)"

definition clamp_limit :: "int \<Rightarrow> int" where
  "clamp_limit n = min (Orderings.max n 1) 200"

definition workspace_log :: "api_env \<Rightarrow> api_request \<Rightarrow> wt_world \<Rightarrow> api_reply" where
  "workspace_log e q w =
     (case resolve_workspace_cwd e q of
        Inl err \<Rightarrow> err
      | Inr cwd \<Rightarrow>
          (case number_param (ar_query q ''skip'') 0 False of
             None \<Rightarrow> Api_Error 400 ''invalid skip''
           | Some skip \<Rightarrow>
               (case number_param (ar_query q ''limit'') 50 True of
                  None \<Rightarrow> Api_Error 400 ''invalid limit''
                | Some limit \<Rightarrow>
                    (case number_param (ar_query q ''beyond'') 0 False of
                       None \<Rightarrow> Api_Error 400 ''invalid beyond''
                     | Some beyond \<Rightarrow>
                         (case git_log (git_of (ap_wt e) w) (ap_without_user e) cwd (trim_space (ar_query q ''head''))
                                 (nat skip) (nat (clamp_limit limit)) (ar_query q ''compare'') (nat beyond) of
                            Inl err \<Rightarrow> workspace_error err
                          | Inr page \<Rightarrow>
                              let base = log_base (ap_wt e) w cwd in Api_Log page (if base = ''HEAD'' then [] else base))))))"

definition workspace_commit :: "api_env \<Rightarrow> api_request \<Rightarrow> wt_world \<Rightarrow> api_reply" where
  "workspace_commit e q w =
     (case resolve_workspace_cwd e q of
        Inl err \<Rightarrow> err
      | Inr cwd \<Rightarrow>
          (case resolve_commit (git_of (ap_wt e) w) cwd (ar_var q ''sha'') of
             Inl err \<Rightarrow> workspace_error err
           | Inr sha \<Rightarrow>
               (case commit_changes (git_of (ap_wt e) w) cwd sha of
                  Inl err \<Rightarrow> workspace_error err
                | Inr rows \<Rightarrow> Api_Commit sha rows)))"

section \<open>Worktrees\<close>

definition api_result :: "('a \<Rightarrow> api_reply) \<Rightarrow> (status_error + 'a) \<times> wt_world \<Rightarrow> api_reply \<times> wt_world" where
  "api_result ok res = (case fst res of Inl err \<Rightarrow> workspace_error err | Inr x \<Rightarrow> ok x, snd res)"

definition worktree_create_handler :: "api_env \<Rightarrow> wt_create request_body \<Rightarrow> wt_world \<Rightarrow> api_reply \<times> wt_world" where
  "worktree_create_handler e body w =
     (case body of
        Decoded req \<Rightarrow> api_result Api_Worktree (create_worktree (ap_wt e) req w)
      | _ \<Rightarrow> (Api_Error 400 ''invalid request body'', w))"

definition worktree_list_handler :: "api_env \<Rightarrow> api_request \<Rightarrow> wt_world \<Rightarrow> api_reply \<times> wt_world" where
  "worktree_list_handler e q w = api_result Api_Worktrees (worktree_statuses (ap_wt e) (ar_query q ''repo'') w)"

definition worktree_refs_handler :: "api_env \<Rightarrow> api_request \<Rightarrow> wt_world \<Rightarrow> api_reply \<times> wt_world" where
  "worktree_refs_handler e q w =
     (case repo_refs (git_of (ap_wt e) w) (ar_query q ''repo'') of
        Inl err \<Rightarrow> workspace_error err
      | Inr (dflt, rs) \<Rightarrow> Api_Refs dflt rs, w)"

definition worktree_get_handler :: "api_env \<Rightarrow> api_request \<Rightarrow> wt_world \<Rightarrow> api_reply \<times> wt_world" where
  "worktree_get_handler e q w =
     (case get_worktree (ap_wt e) w (ar_var q ''worktreeId'') of
        Inl err \<Rightarrow> workspace_error err
      | Inr st \<Rightarrow> Api_Worktree_Status st, w)"

definition worktree_delete_handler :: "api_env \<Rightarrow> api_request \<Rightarrow> wt_world \<Rightarrow> api_reply \<times> wt_world" where
  "worktree_delete_handler e q w =
     (let i = ar_var q ''worktreeId''
      in api_result (Api_Worktree_Deleted i) (delete_worktree (ap_wt e) i (ar_query q ''force'' = ''true'') w))"

definition worktree_rebase_handler :: "api_env \<Rightarrow> api_request \<Rightarrow> wt_world \<Rightarrow> api_reply \<times> wt_world" where
  "worktree_rebase_handler e q w = api_result Api_Worktree_Status (rebase_worktree (ap_wt e) (ar_var q ''worktreeId'') w)"

definition worktree_merge_handler :: "api_env \<Rightarrow> api_request \<Rightarrow> merge_request request_body \<Rightarrow> wt_world \<Rightarrow> api_reply \<times> wt_world" where
  "worktree_merge_handler e q body w =
     (case body of
        Malformed \<Rightarrow> (Api_Error 400 ''invalid request body'', w)
      | Empty_Body \<Rightarrow> api_result Api_Merged (merge_worktree (ap_wt e) (ar_var q ''worktreeId'') \<lparr>mq_squash = False, mq_message = [], mq_delete = False\<rparr> w)
      | Decoded req \<Rightarrow> api_result Api_Merged (merge_worktree (ap_wt e) (ar_var q ''worktreeId'') req w))"

definition worktree_push_handler :: "api_env \<Rightarrow> api_request \<Rightarrow> push_request request_body \<Rightarrow> wt_world \<Rightarrow> api_reply \<times> wt_world" where
  "worktree_push_handler e q body w =
     (case body of
        Malformed \<Rightarrow> (Api_Error 400 ''invalid request body'', w)
      | Empty_Body \<Rightarrow> api_result Api_Pushed (push_worktree (ap_wt e) (ar_var q ''worktreeId'') \<lparr>pq_pr = False, pq_title = [], pq_body = []\<rparr> w)
      | Decoded req \<Rightarrow> api_result Api_Pushed (push_worktree (ap_wt e) (ar_var q ''worktreeId'') req w))"

definition paths_missing_handler :: "api_env \<Rightarrow> string list request_body \<Rightarrow> wt_world \<Rightarrow> api_reply \<times> wt_world" where
  "paths_missing_handler e body w =
     (case body of
        Decoded ps \<Rightarrow>
          (case List.find (\<lambda>p. \<not> path_is_abs p) ps of
             Some p \<Rightarrow> Api_Error 400 (''path must be absolute: '' @ p)
           | None \<Rightarrow> Api_Missing (filter (folder_missing (ap_wt e) w) ps))
      | _ \<Rightarrow> Api_Error 400 ''invalid request body'', w)"

section \<open>The routes\<close>

datatype workspace_route = Route_File | Route_File_List | Route_Refs | Route_Status | Route_Diff | Route_Log | Route_Commit
  | Route_Worktree_Create "wt_create request_body" | Route_Worktree_List | Route_Worktree_Refs | Route_Worktree_Get
  | Route_Worktree_Delete | Route_Worktree_Rebase | Route_Worktree_Merge "merge_request request_body"
  | Route_Worktree_Push "push_request request_body" | Route_Paths_Missing "string list request_body"

definition only_reads :: "(wt_world \<Rightarrow> api_reply) \<Rightarrow> credential \<Rightarrow> wt_world \<Rightarrow> api_reply \<times> wt_world" where
  "only_reads h c w = (h w, w)"

definition workspace_api ::
  "auth_env \<Rightarrow> api_env \<Rightarrow> workspace_route \<Rightarrow> http_request \<Rightarrow> api_request \<Rightarrow> gateway \<times> wt_world \<Rightarrow> api_reply \<times> gateway \<times> wt_world" where
  "workspace_api a e route r q gw =
     (case route of
        Route_File \<Rightarrow> with_scope a scope_read r (only_reads (workspace_file e q)) gw
      | Route_File_List \<Rightarrow> with_scope a scope_read r (only_reads (workspace_file_list e q)) gw
      | Route_Refs \<Rightarrow> with_scope a scope_read r (only_reads (workspace_refs e q)) gw
      | Route_Status \<Rightarrow> with_scope a scope_read r (only_reads (workspace_status e q)) gw
      | Route_Diff \<Rightarrow> with_scope a scope_read r (only_reads (workspace_diff e q)) gw
      | Route_Log \<Rightarrow> with_scope a scope_read r (only_reads (workspace_log e q)) gw
      | Route_Commit \<Rightarrow> with_scope a scope_read r (only_reads (workspace_commit e q)) gw
      | Route_Worktree_Create body \<Rightarrow> with_scope a scope_control r (\<lambda>c. worktree_create_handler e body) gw
      | Route_Worktree_List \<Rightarrow> with_scope a scope_read r (\<lambda>c. worktree_list_handler e q) gw
      | Route_Worktree_Refs \<Rightarrow> with_scope a scope_control r (\<lambda>c. worktree_refs_handler e q) gw
      | Route_Worktree_Get \<Rightarrow> with_scope a scope_read r (\<lambda>c. worktree_get_handler e q) gw
      | Route_Worktree_Delete \<Rightarrow> with_scope a scope_control r (\<lambda>c. worktree_delete_handler e q) gw
      | Route_Worktree_Rebase \<Rightarrow> with_scope a scope_control r (\<lambda>c. worktree_rebase_handler e q) gw
      | Route_Worktree_Merge body \<Rightarrow> with_scope a scope_control r (\<lambda>c. worktree_merge_handler e q body) gw
      | Route_Worktree_Push body \<Rightarrow> with_scope a scope_control r (\<lambda>c. worktree_push_handler e q body) gw
      | Route_Paths_Missing body \<Rightarrow> with_scope a scope_read r (\<lambda>c. paths_missing_handler e body) gw)"

end
