(* ===== verification/Worktree_Proofs.thy ===== *)
theory Worktree_Proofs
  imports Worktree_Finish
begin

text \<open>
  What a worktree operation may destroy: the effects each operation adds, the state they were issued in, and the rows of
  the store afterwards.
\<close>

section \<open>Effects\<close>

definition new_effects :: "wt_world \<Rightarrow> wt_world \<Rightarrow> effect list" where
  "new_effects w w' = drop (length (w_log w)) (w_log w')"

definition extends :: "wt_world \<Rightarrow> wt_world \<Rightarrow> effect list \<Rightarrow> bool" where
  "extends w w' xs \<longleftrightarrow> w_log w' = w_log w @ xs"

lemma extends_effects: "extends w w' xs \<Longrightarrow> new_effects w w' = xs"
  by (simp add: extends_def new_effects_def)

lemma extends_refl [simp]: "extends w w xs \<longleftrightarrow> xs = []"
  by (simp add: extends_def)

lemma extends_trans: "extends w w1 xs \<Longrightarrow> extends w1 w2 ys \<Longrightarrow> extends w w2 (xs @ ys)"
  by (simp add: extends_def)

lemma extends_same_log: "w_log w1 = w_log w \<Longrightarrow> extends w w1 []" "w_log w2 = w_log w1 \<Longrightarrow> extends w w1 xs \<Longrightarrow> extends w w2 xs"
  by (simp_all add: extends_def)

lemma act_simps [simp]: "w_log (act x w) = w_log w @ [x]" "w_table (act x w) = w_table w" "w_creating (act x w) = w_creating w" "w_repos (act x w) = w_repos w"
  by (simp_all add: act_def)

lemma run_git_simps [simp]: "fst (run_git e d a w) = git_of e w d a" "snd (run_git e d a w) = act (Git d a) w"
  by (simp_all add: run_git_def)

lemma run_git_eq: "run_git e d a w = (r, w') \<longleftrightarrow> r = git_of e w d a \<and> w' = act (Git d a) w"
  by (auto simp: run_git_def)

lemma run_tool_eq: "run_tool e d n a w = (r, w') \<longleftrightarrow> r = we_tool e (w_log w) n d a \<and> w' = act (Tool n d a) w"
  by (auto simp: run_tool_def)

lemma delete_row_simps [simp]: "w_log (delete_row e i w) = w_log w" "w_repos (delete_row e i w) = w_repos w" "w_creating (delete_row e i w) = w_creating w"
  by (simp_all add: delete_row_def)

lemma remove_retrying_extends:
  "\<exists>k \<le> n. (0 < n \<longrightarrow> 0 < k) \<and> extends w (snd (remove_retrying e dir n w)) (replicate k (Remove_All dir))"
proof (induction n arbitrary: w)
  case (Suc n)
  show ?case
  proof (cases "we_works e (w_log w) (Remove_All dir)")
    case True
    then show ?thesis by (intro exI [of _ 1]) (simp add: extends_def)
  next
    case False
    obtain k where "k \<le> n" "extends (act (Remove_All dir) w) (snd (remove_retrying e dir n (act (Remove_All dir) w))) (replicate k (Remove_All dir))"
      using Suc.IH [of "act (Remove_All dir) w"] by blast
    then show ?thesis using False by (intro exI [of _ "Suc k"]) (simp add: extends_def)
  qed
qed simp

lemma remove_retrying_table [simp]: "w_table (snd (remove_retrying e dir n w)) = w_table w"
  by (induction n arbitrary: w) auto

lemma remove_all_extends:
  assumes "remove_all_retrying e dir w = (ok, w')"
  obtains n where "extends w w' (replicate n (Remove_All dir))" "1 \<le> n" "n \<le> 10" "w_table w' = w_table w"
proof -
  have "w' = snd (remove_retrying e dir 10 w)" using assms by (simp add: remove_all_retrying_def)
  then show ?thesis using remove_retrying_extends [of 10 w e dir] that by auto
qed

definition discard_effects :: "string \<Rightarrow> string \<Rightarrow> string \<Rightarrow> nat \<Rightarrow> effect list" where
  "discard_effects repo path branch n =
     Git repo [''worktree'', ''remove'', ''--force'', path] # replicate n (Remove_All path) @
     [Git repo [''worktree'', ''prune''], Git repo [''branch'', ''-D'', branch]]"

lemma discard_extends: "\<exists>n \<ge> 1. n \<le> 10 \<and> extends w (discard_worktree e repo path branch w) (discard_effects repo path branch n)"
  "w_table (discard_worktree e repo path branch w) = w_table w"
proof -
  obtain ok w2 where r: "remove_all_retrying e path (act (Git repo [''worktree'', ''remove'', ''--force'', path]) w) = (ok, w2)"
    by (cases "remove_all_retrying e path (act (Git repo [''worktree'', ''remove'', ''--force'', path]) w)") auto
  from remove_all_extends [OF r] obtain n where n: "extends (act (Git repo [''worktree'', ''remove'', ''--force'', path]) w) w2 (replicate n (Remove_All path))"
    "1 \<le> n" "n \<le> 10" "w_table w2 = w_table w" by auto
  have d: "discard_worktree e repo path branch w = act (Git repo [''branch'', ''-D'', branch]) (act (Git repo [''worktree'', ''prune'']) w2)"
    by (simp add: discard_worktree_def r)
  show "\<exists>n \<ge> 1. n \<le> 10 \<and> extends w (discard_worktree e repo path branch w) (discard_effects repo path branch n)"
    using n unfolding d by (intro exI [of _ n]) (simp add: extends_def discard_effects_def)
  show "w_table (discard_worktree e repo path branch w) = w_table w" using n by (simp add: d)
qed

lemma remove_folder_extends:
  assumes "remove_folder e r w = (gone, w1)"
  shows "\<exists>n. extends w w1 (if found (stat_of e w (wr_path r))
    then Git (wr_repo r) [''worktree'', ''remove'', ''--force'', wr_path r] # replicate n (Remove_All (wr_path r)) else [])"
proof (cases "found (stat_of e w (wr_path r))")
  case True
  then have "remove_all_retrying e (wr_path r) (act (Git (wr_repo r) [''worktree'', ''remove'', ''--force'', wr_path r]) w) = (gone, w1)"
    using assms by (simp add: remove_folder_def)
  from remove_all_extends [OF this] show ?thesis using True by (auto simp: extends_def)
qed (use assms in \<open>auto simp: remove_folder_def\<close>)

section \<open>Deleting\<close>

text \<open>
  C12: A delete without force removes nothing but the folder it was asked for, and asks git first where it can (\<^verbatim>\<open>Delete\<close>).
  Whatever the operation removes, the forced removal by git included, is the folder of the worktree it was asked for; no
  running chat works there; its \<^verbatim>\<open>.git\<close> is not a folder, so it is no main checkout; and where a \<^verbatim>\<open>.git\<close> was found in it,
  git has just answered that nothing there is uncommitted. Where none was found, missing or unreadable, nothing is
  checked: \<open>unchecked_folder_removed\<close> below. Branches are only ever deleted by \<^verbatim>\<open>branch -d\<close>, which keeps unmerged ones.
\<close>

theorem delete_checks_before_removing:
  assumes "delete_worktree e i False w = (res, w')" "x \<in> set (new_effects w w')"
  shows "(\<exists>r. worktree_of e w i = Some r \<and>
      (x \<in> {Remove_All (wr_path r), Git (wr_repo r) [''worktree'', ''remove'', ''--force'', wr_path r]} \<and>
         chats_of e r = [] \<and> stat_of e w (path_join [wr_path r, ''.git'']) \<noteq> A_Folder \<and>
         (found (stat_of e w (path_join [wr_path r, ''.git''])) \<longrightarrow> is_clean (git_of e w) (wr_path r) = Some True) \<or>
       x \<in> {Git (wr_repo r) [''worktree'', ''prune''], Git (wr_repo r) [''branch'', ''-d'', wr_branch r]}))"
proof (cases "worktree_of e w i")
  case None
  then show ?thesis using assms by (auto simp: delete_worktree_def new_effects_def)
next
  case (Some r)
  show ?thesis
  proof (cases "in_use e r = None \<and> stat_of e w (path_join [wr_path r, ''.git'']) \<noteq> A_Folder \<and> keep_reason e False r w = None")
    case False
    then have "w' = w" using assms(1) Some by (auto simp: delete_worktree_def split: if_splits option.splits)
    then show ?thesis using assms(2) by (simp add: new_effects_def)
  next
    case True
    obtain gone w1 where rm: "remove_folder e r w = (gone, w1)" by (cases "remove_folder e r w") auto
    from remove_folder_extends [OF rm] obtain n where n: "extends w w1 (if found (stat_of e w (wr_path r))
        then Git (wr_repo r) [''worktree'', ''remove'', ''--force'', wr_path r] # replicate n (Remove_All (wr_path r)) else [])" by blast
    have "\<exists>ys. set ys \<subseteq> {Git (wr_repo r) [''worktree'', ''prune''], Git (wr_repo r) [''branch'', ''-d'', wr_branch r]} \<and> extends w1 w' ys"
      using assms(1) Some True rm by (cases gone) (auto simp: delete_worktree_def run_git_def extends_def Let_def)
    then obtain ys where ys: "set ys \<subseteq> {Git (wr_repo r) [''worktree'', ''prune''], Git (wr_repo r) [''branch'', ''-d'', wr_branch r]}" "extends w1 w' ys" by blast
    have chats: "chats_of e r = []" using True by (auto simp: in_use_def split: list.splits)
    have clean: "found (stat_of e w (wr_path r)) \<Longrightarrow> found (stat_of e w (path_join [wr_path r, ''.git''])) \<Longrightarrow> is_clean (git_of e w) (wr_path r) = Some True"
      using True by (auto simp: keep_reason_def split: option.splits bool.splits)
    have x: "x \<in> set (if found (stat_of e w (wr_path r))
        then Git (wr_repo r) [''worktree'', ''remove'', ''--force'', wr_path r] # replicate n (Remove_All (wr_path r)) else []) \<or> x \<in> set ys"
      using assms(2) extends_effects [OF extends_trans [OF n ys(2)]] by auto
    then show ?thesis
    proof
      assume "x \<in> set ys"
      then show ?thesis using ys(1) Some by blast
    next
      assume "x \<in> set (if found (stat_of e w (wr_path r))
        then Git (wr_repo r) [''worktree'', ''remove'', ''--force'', wr_path r] # replicate n (Remove_All (wr_path r)) else [])"
      then have "found (stat_of e w (wr_path r))" "x \<in> {Remove_All (wr_path r), Git (wr_repo r) [''worktree'', ''remove'', ''--force'', wr_path r]}"
        by (auto split: if_splits)
      then show ?thesis using Some chats clean True by blast
    qed
  qed
qed

text \<open>
  A folder whose \<^verbatim>\<open>.git\<close> is missing or cannot be read is removed without any check and without force, whatever git
  would say about it.
\<close>

theorem unchecked_folder_removed:
  assumes "worktree_of e w i = Some r" "in_use e r = None" "found (stat_of e w (wr_path r))"
    and "\<not> found (stat_of e w (path_join [wr_path r, ''.git'']))"
  shows "take 1 (new_effects w (snd (delete_worktree e i False w))) = [Git (wr_repo r) [''worktree'', ''remove'', ''--force'', wr_path r]]"
proof -
  have free: "stat_of e w (path_join [wr_path r, ''.git'']) \<noteq> A_Folder" "keep_reason e False r w = None"
    using assms(4) by (auto simp: found_def keep_reason_def)
  obtain gone w1 where rm: "remove_folder e r w = (gone, w1)" by (cases "remove_folder e r w") auto
  obtain n where n: "extends w w1 (Git (wr_repo r) [''worktree'', ''remove'', ''--force'', wr_path r] # replicate n (Remove_All (wr_path r)))"
    using remove_folder_extends [OF rm] assms(3) by auto
  have "\<exists>ys. extends w1 (snd (delete_worktree e i False w)) ys"
    using assms(1,2) free rm by (cases gone) (auto simp: delete_worktree_def run_git_def extends_def Let_def)
  then obtain ys where "extends w1 (snd (delete_worktree e i False w)) ys" by blast
  from extends_effects [OF extends_trans [OF n this]] show ?thesis by simp
qed

section \<open>Merging\<close>

definition main_ready :: "wt_env \<Rightarrow> wt_world \<Rightarrow> worktree_record \<Rightarrow> bool" where
  "main_ready e w r \<longleftrightarrow>
     (\<exists>head st. git_of e w (wr_repo r) [''symbolic-ref'', ''--quiet'', ''--short'', ''HEAD''] = Inr head \<and> trim_space head = wr_ref r \<and> wr_ref r \<noteq> [] \<and>
        git_of e w (wr_repo r) [''status'', ''--porcelain'', ''--untracked-files=no''] = Inr st \<and> trim_space st = [])"

definition squash_message :: "merge_request \<Rightarrow> worktree_record \<Rightarrow> string" where
  "squash_message req r = (if trim_space (mq_message req) = [] then ''Merge '' @ wr_branch r else trim_space (mq_message req))"

definition merge_commands :: "merge_request \<Rightarrow> worktree_record \<Rightarrow> effect list" where
  "merge_commands req r =
     (if mq_squash req
      then [Git (wr_repo r) [''merge'', ''--squash'', ''--end-of-options'', wr_branch r], Git (wr_repo r) [''commit'', ''-m'', squash_message req r]]
      else [Git (wr_repo r) [''merge'', ''--ff-only'', ''--end-of-options'', wr_branch r]])"

definition answered_well :: "wt_env \<Rightarrow> wt_world \<Rightarrow> effect list \<Rightarrow> bool" where
  "answered_well e w xs \<longleftrightarrow>
     list_all (\<lambda>n. case xs ! n of Git d a \<Rightarrow> (\<exists>out. we_git e (w_log w @ take n xs) d a = Inr out) | _ \<Rightarrow> True) [0..<length xs]"

text \<open>The first command of a list that git refused.\<close>

definition refused_at :: "wt_env \<Rightarrow> wt_world \<Rightarrow> effect list \<Rightarrow> nat \<Rightarrow> bool" where
  "refused_at e w xs n \<longleftrightarrow> n < length xs \<and> answered_well e w (take n xs) \<and>
     (case xs ! n of Git d a \<Rightarrow> (\<exists>msg. we_git e (w_log w @ take n xs) d a = Inl msg) | _ \<Rightarrow> False)"

lemma merge_refused_ready: "merge_refused e req r w = None \<Longrightarrow> main_ready e w r"
  by (auto simp: merge_refused_def main_ready_def Let_def split: if_splits sum.splits)

lemma merge_branch_landed:
  "merge_branch e req r w = (None, w') \<Longrightarrow> extends w w' (merge_commands req r) \<and> answered_well e w (merge_commands req r) \<and> w_table w' = w_table w"
  by (auto simp: merge_branch_def run_git_def git_of_def extends_def merge_commands_def squash_message_def answered_well_def Let_def
      split: if_splits sum.splits prod.splits)

lemma merge_branch_failed:
  "merge_branch e req r w = (Some err, w') \<Longrightarrow> w_table w' = w_table w \<and>
    (\<exists>n. refused_at e w (merge_commands req r) n \<and>
       extends w w' (take (Suc n) (merge_commands req r) @ (if mq_squash req then [Git (wr_repo r) [''reset'', ''--merge'']] else [])))"
  by (auto simp: merge_branch_def run_git_def git_of_def extends_def merge_commands_def squash_message_def refused_at_def answered_well_def Let_def
      split: if_splits sum.splits prod.splits intro: exI [of _ "0 :: nat"] exI [of _ "1 :: nat"])

lemma delete_extends: "delete_worktree e i force w = (res, w') \<Longrightarrow> \<exists>xs. extends w w' xs"
proof (cases "worktree_of e w i")
  case (Some r)
  assume d: "delete_worktree e i force w = (res, w')"
  obtain gone w1 where rm: "remove_folder e r w = (gone, w1)" by (cases "remove_folder e r w") auto
  obtain xs where xs: "extends w w1 xs" using remove_folder_extends [OF rm] by blast
  have "w' = w \<or> (\<exists>ys. extends w1 w' ys)"
    using d Some rm by (auto simp: delete_worktree_def run_git_def extends_def Let_def split: if_splits option.splits)
  then show ?thesis using extends_trans [OF xs] by auto
qed (auto simp: delete_worktree_def)

lemma clean_up_extends: "clean_up_merged e req r commit w = (m, w') \<Longrightarrow> \<exists>xs. extends w w' xs \<and> (\<not> mq_delete req \<longrightarrow> xs = [] \<and> w_table w' = w_table w)"
  by (auto simp: clean_up_merged_def run_git_def extends_def split: if_splits sum.splits prod.splits dest!: delete_extends)

text \<open>
  C13: A merge that answers with a result has landed, and one that answers with an error has not (\<^verbatim>\<open>Merge\<close>). It touches
  nothing unless the worktree is clean, the base branch is the one checked out in the main checkout and git reports
  nothing uncommitted there. It answers with a result only when git accepted every command of the merge, the commit of
  a squash included. It answers with an error only when git refused one of them, so the base branch was not moved: no
  later command of the merge was issued, and after a squash the last thing issued is \<^verbatim>\<open>reset --merge\<close>, to take the staged
  changes back. What the reset answers nobody looks at: \<open>failed_reset_called_undone\<close> below. No row changes and nothing
  else happens unless the worktree was to be deleted after a merge that landed.
\<close>

theorem merge_lands_or_resets:
  assumes "merge_worktree e i req w = (res, w')" "new_effects w w' \<noteq> []"
  shows "\<exists>r. clean_worktree e w i = Inr r \<and> main_ready e w r \<and>
    (case res of
       Inl err \<Rightarrow> w_table w' = w_table w \<and>
         (\<exists>n. refused_at e w (merge_commands req r) n \<and>
            new_effects w w' = take (Suc n) (merge_commands req r) @ (if mq_squash req then [Git (wr_repo r) [''reset'', ''--merge'']] else []))
     | Inr m \<Rightarrow> answered_well e w (merge_commands req r) \<and>
         (\<exists>rest. new_effects w w' = merge_commands req r @ rest \<and> (\<not> mq_delete req \<longrightarrow> rest = [] \<and> w_table w' = w_table w)))"
proof -
  obtain r where r: "clean_worktree e w i = Inr r" "merge_refused e req r w = None"
    using assms by (auto simp: merge_worktree_def new_effects_def split: sum.splits option.splits)
  obtain m w1 where mb: "merge_branch e req r w = (m, w1)" by (cases "merge_branch e req r w") auto
  show ?thesis
  proof (cases m)
    case (Some err)
    then have res: "res = Inl err" "w' = w1" using assms(1) r mb by (simp_all add: merge_worktree_def)
    from merge_branch_failed [of e req r w err w1] mb Some obtain n where n: "w_table w1 = w_table w" "refused_at e w (merge_commands req r) n"
      "extends w w1 (take (Suc n) (merge_commands req r) @ (if mq_squash req then [Git (wr_repo r) [''reset'', ''--merge'']] else []))" by blast
    show ?thesis using res n(1,2) extends_effects [OF n(3)] r merge_refused_ready [OF r(2)] by auto
  next
    case None
    let ?c = "case git_of e w1 (wr_repo r) [''rev-parse'', ''HEAD''] of Inl _ \<Rightarrow> [] | Inr c \<Rightarrow> trim_space c"
    obtain k w2 where cu: "clean_up_merged e req r ?c w1 = (k, w2)" by (cases "clean_up_merged e req r ?c w1") auto
    have res: "res = Inr k" "w' = w2" using assms(1) r mb None cu by (simp_all add: merge_worktree_def Let_def)
    have l: "extends w w1 (merge_commands req r)" "answered_well e w (merge_commands req r)" "w_table w1 = w_table w"
      using merge_branch_landed mb None by blast+
    obtain xs where xs: "extends w1 w2 xs" "\<not> mq_delete req \<longrightarrow> xs = [] \<and> w_table w2 = w_table w1" using clean_up_extends [OF cu] by blast
    show ?thesis using res l xs(2) r merge_refused_ready [OF r(2)] extends_effects [OF extends_trans [OF l(1) xs(1)]] by auto
  qed
qed

text \<open>
  The answer "squash merge failed and was undone" is given without looking at what \<^verbatim>\<open>reset --merge\<close> answered: when both the
  squash and the reset fail, the client is told the same as when the reset worked.
\<close>

theorem failed_reset_called_undone:
  assumes "mq_squash req" "git_of e w (wr_repo r) [''merge'', ''--squash'', ''--end-of-options'', wr_branch r] = Inl msg"
  shows "merge_branch e req r w =
    (Some (409, ''squash merge failed and was undone: '' @ msg),
     act (Git (wr_repo r) [''reset'', ''--merge'']) (act (Git (wr_repo r) [''merge'', ''--squash'', ''--end-of-options'', wr_branch r]) w))"
  using assms by (simp add: merge_branch_def run_git_def)

section \<open>Pushing\<close>

text \<open>
  What \<^verbatim>\<open>git push\<close> takes for a forced update: an option \<^verbatim>\<open>-f\<close> or \<^verbatim>\<open>--force\<close> in any of its forms, or a refspec with
  a leading plus sign.
\<close>

definition forces :: "effect \<Rightarrow> bool" where
  "forces x =
     (case x of
        Tool name dir args \<Rightarrow> name = ''git'' \<and> take 1 args = [''push''] \<and>
          list_ex (\<lambda>a. has_prefix a ''+'' \<or> has_prefix a ''-f'' \<or> has_prefix a ''--force'' \<or> has_prefix a ''--mirror'') (tl args)
      | Git dir args \<Rightarrow> take 1 args = [''push'']
      | _ \<Rightarrow> False)"

definition push_effect :: "worktree_record \<Rightarrow> effect" where
  "push_effect r = Tool ''git'' (wr_path r) [''push'', ''--set-upstream'', ''origin'', wr_branch r]"

definition tool_answer :: "wt_env \<Rightarrow> wt_world \<Rightarrow> effect \<Rightarrow> string + string" where
  "tool_answer e w x = (case x of Tool name dir args \<Rightarrow> we_tool e (w_log w) name dir args | _ \<Rightarrow> Inl [])"

text \<open>
  C14: A push publishes one branch and says so only when it did (\<^verbatim>\<open>Push\<close>). Unless the worktree is there and clean nothing
  happens, and no row ever changes. The only commands are one push of the worktree's branch to origin and, when a pull
  request is wanted and origin took the push, one \<^verbatim>\<open>gh pr create\<close>. The answer is a success only when the push succeeded
  and, where a pull request was wanted, \<^verbatim>\<open>gh\<close> succeeded too; it is then the last line \<^verbatim>\<open>gh\<close> printed. A refused push is an
  error. No command is a forced update as long as the branch has no leading plus or dash; with a plus it is one:
  \<open>plus_branch_is_forced\<close> in \<^verbatim>\<open>Worktree_Examples\<close>.
\<close>

theorem push_publishes_one_branch:
  assumes "push_worktree e i req w = (res, w')" "new_effects w w' \<noteq> []"
  shows "\<exists>r rest. clean_worktree e w i = Inr r \<and> w_table w' = w_table w \<and> new_effects w w' = push_effect r # rest \<and>
    (case tool_answer e w (push_effect r) of
       Inl msg \<Rightarrow> rest = [] \<and> (\<exists>err. res = Inl err \<and> fst err \<in> {409, 422})
     | Inr _ \<Rightarrow>
         if \<not> pq_pr req then rest = [] \<and> res = Inr []
         else \<exists>args. rest = [Tool ''gh'' (wr_path r) (''pr'' # ''create'' # args)] \<and>
           (case tool_answer e (act (push_effect r) w) (Tool ''gh'' (wr_path r) (''pr'' # ''create'' # args)) of
              Inl msg \<Rightarrow> res = Inl (422, ''pushed, but opening the pull request failed: '' @ msg)
            | Inr out \<Rightarrow> res = Inr (last_line out))) \<and>
    (\<not> has_prefix (wr_branch r) ''+'' \<and> \<not> has_prefix (wr_branch r) ''-'' \<longrightarrow> \<not> list_ex forces (new_effects w w'))"
proof (cases "clean_worktree e w i")
  case (Inl err)
  then show ?thesis using assms by (simp add: push_worktree_def new_effects_def)
next
  case (Inr r)
  have calm: "\<not> list_ex forces (push_effect r # rest)"
    if "\<not> has_prefix (wr_branch r) ''+'' \<and> \<not> has_prefix (wr_branch r) ''-''"
      and "rest = [] \<or> (\<exists>args. rest = [Tool ''gh'' (wr_path r) (''pr'' # ''create'' # args)])" for rest
    using that by (cases "wr_branch r") (auto simp: forces_def push_effect_def has_prefix_def)
  have go: "\<not> (wr_branch r = [] \<or> pq_pr req \<and> \<not> we_has e ''gh'')"
    using assms Inr by (auto simp: push_worktree_def new_effects_def split: if_splits)
  show ?thesis
  proof (cases "tool_answer e w (push_effect r)")
    case (Inl msg)
    then have "extends w w' [push_effect r]" "w_table w' = w_table w" "\<exists>err. res = Inl err \<and> fst err \<in> {409, 422}"
      using assms(1) Inr go
      by (auto simp: push_worktree_def run_tool_def tool_answer_def push_effect_def extends_def split: if_splits)
    then show ?thesis using Inr Inl calm [of "[]"] by (intro exI [of _ r] exI [of _ "[]"]) (simp add: extends_effects)
  next
    case ok: (Inr out)
    show ?thesis
    proof (cases "pq_pr req")
      case False
      then have "extends w w' [push_effect r]" "w_table w' = w_table w" "res = Inr []"
        using assms(1) Inr ok go
        by (auto simp: push_worktree_def run_tool_def tool_answer_def push_effect_def extends_def split: if_splits)
      then show ?thesis using Inr ok False calm [of "[]"] by (intro exI [of _ r] exI [of _ "[]"]) (simp add: extends_effects)
    next
      case True
      let ?w1 = "act (push_effect r) w"
      define args where "args = drop 2 (pr_args (git_of e ?w1) req r)"
      have args: "pr_args (git_of e ?w1) req r = ''pr'' # ''create'' # args" by (simp add: args_def pr_args_def)
      let ?gh = "Tool ''gh'' (wr_path r) (''pr'' # ''create'' # args)"
      have w': "extends w w' [push_effect r, ?gh] \<and> w_table w' = w_table w" and
        res: "case tool_answer e ?w1 ?gh of
              Inl msg \<Rightarrow> res = Inl (422, ''pushed, but opening the pull request failed: '' @ msg)
            | Inr out \<Rightarrow> res = Inr (last_line out)"
        using assms(1) Inr ok go True args
        by (auto simp: push_worktree_def run_tool_def tool_answer_def push_effect_def extends_def split: if_splits sum.splits)
      then show ?thesis using Inr ok True calm [of "[?gh]"]
        by (intro exI [of _ r] exI [of _ "[?gh]"]) (auto simp: extends_effects)
    qed
  qed
qed

section \<open>Creating\<close>

lemma save_worktree_log: "save_worktree e r w = (x, w') \<Longrightarrow> w_log w' = w_log w \<and>
   w_table w' = (if x = Saved then w_table w @ [r] else w_table w) \<and>
   (x = Saved \<longrightarrow> wr_id r \<notin> set (map wr_id (w_table w)) \<and> wr_path r \<notin> set (map wr_path (w_table w)))"
  by (auto simp: save_worktree_def split: if_splits)

definition add_effect :: "worktree_record \<Rightarrow> effect" where
  "add_effect r = Git (wr_repo r) [''worktree'', ''add'', ''-b'', wr_branch r, wr_path r, wr_base r]"

lemma add_worktree_outcome:
  assumes "add_worktree e r w = (res, w')"
  shows "case res of
      Inr r' \<Rightarrow> r' = r \<and> extends w w' [add_effect r] \<and> w_table w' = w_table w @ [r] \<and>
        wr_id r \<notin> set (map wr_id (w_table w)) \<and> wr_path r \<notin> set (map wr_path (w_table w))
    | Inl err \<Rightarrow> w_table w' = w_table w \<and> (\<exists>n \<ge> 1. n \<le> 10 \<and> extends w w' (add_effect r # discard_effects (wr_repo r) (wr_path r) (wr_branch r) n))"
proof -
  let ?w1 = "act (add_effect r) w"
  have d: "\<exists>n \<ge> 1. n \<le> 10 \<and> extends w (discard_worktree e (wr_repo r) (wr_path r) (wr_branch r) w2) (add_effect r # discard_effects (wr_repo r) (wr_path r) (wr_branch r) n)"
    "w_table (discard_worktree e (wr_repo r) (wr_path r) (wr_branch r) w2) = w_table w2" if "w_log w2 = w_log ?w1" for w2
    using discard_extends(1) [of w2 e "wr_repo r" "wr_path r" "wr_branch r"] discard_extends(2) [of e "wr_repo r" "wr_path r" "wr_branch r" w2] that
    by (auto simp: extends_def)
  show ?thesis
  proof (cases "git_of e w (wr_repo r) [''worktree'', ''add'', ''-b'', wr_branch r, wr_path r, wr_base r]")
    case (Inl err)
    then show ?thesis using assms d [of ?w1] by (auto simp: add_worktree_def run_git_def add_effect_def)
  next
    case (Inr out)
    obtain x w2 where sv: "save_worktree e r ?w1 = (x, w2)" by (cases "save_worktree e r ?w1") auto
    note l = save_worktree_log [OF sv]
    show ?thesis using assms Inr sv l d [of w2]
      by (cases x) (auto simp: add_worktree_def run_git_def add_effect_def extends_def)
  qed
qed

definition wt_root :: "worktree_record \<Rightarrow> string" where
  "wt_root r = path_join [wr_repo r, ''.worktrees'']"

text \<open>A row as the gateway writes it: its folder is a folder of its own inside the repository's \<^verbatim>\<open>.worktrees\<close>.\<close>

definition row_contained :: "worktree_record \<Rightarrow> bool" where
  "row_contained r \<longleftrightarrow> wr_path r = path_join [wt_root r, worktree_dir_name (wr_branch r)] \<and> subpath_of (wr_path r) (wt_root r) \<and>
     wr_path r \<noteq> wt_root r \<and> \<not> has_prefix (wr_branch r) ''-'' \<and> wr_branch r \<noteq> []"

text \<open>The commands that can take something away: folders, branches, or what a working tree holds.\<close>

definition destroys :: "effect \<Rightarrow> bool" where
  "destroys x =
     (case x of
        Remove_All p \<Rightarrow> True
      | Git dir args \<Rightarrow> take 2 args = [''worktree'', ''remove''] \<or> take 1 args \<in> {[''branch''], [''reset''], [''rebase''], [''merge'']}
      | _ \<Rightarrow> False)"

text \<open>The command that makes a folder and a branch.\<close>

definition makes :: "effect \<Rightarrow> bool" where
  "makes x = (case x of Git dir args \<Rightarrow> take 2 args = [''worktree'', ''add''] | _ \<Rightarrow> False)"

definition harmless :: "wt_world \<Rightarrow> wt_world \<Rightarrow> bool" where
  "harmless w w' \<longleftrightarrow> (\<exists>xs. extends w w' xs \<and> \<not> list_ex destroys xs \<and> \<not> list_ex makes xs)"

lemma harmless_refl [simp]: "harmless w w"
  by (simp add: harmless_def)

lemma harmless_act: "harmless w w1 \<Longrightarrow> \<not> destroys x \<Longrightarrow> \<not> makes x \<Longrightarrow> harmless w (act x w1)"
  by (auto simp: harmless_def extends_def)

lemma harmless_row [simp]: "harmless w (delete_row e i w1) = harmless w w1"
  by (simp add: harmless_def extends_def)

lemma destroys_reads [simp]: "\<not> destroys (Git d (''fetch'' # a))" "\<not> destroys (Git d [''worktree'', ''prune''])"
  "\<not> destroys (Git d (''worktree'' # ''add'' # a))" "\<not> destroys (Mkdir_All p)" "\<not> destroys (Append_File p t)"
  by (simp_all add: destroys_def)

lemma makes_reads [simp]: "\<not> makes (Git d (''fetch'' # a))" "\<not> makes (Git d [''worktree'', ''prune''])"
  "\<not> makes (Mkdir_All p)" "\<not> makes (Append_File p t)"
  by (simp_all add: makes_def)

lemma harmless_prune_one: "harmless w w1 \<Longrightarrow> harmless w (prune_one e r w1)"
  by (simp add: prune_one_def harmless_act)

lemma harmless_prune_fold: "harmless w w1 \<Longrightarrow> harmless w (fold (prune_one e) rs w1)"
  by (induction rs arbitrary: w1) (simp_all add: harmless_prune_one)

lemma harmless_prune: "harmless w (prune_worktrees e w)"
  by (simp add: prune_worktrees_def harmless_prune_fold split: option.split)

lemma harmless_fetch: "harmless w w1 \<Longrightarrow> harmless w (snd (fetch_pr e checkout remote pr w1))"
  "harmless w w1 \<Longrightarrow> harmless w (snd (fetch_remote_branch e checkout remote b w1))"
  by (simp_all add: fetch_pr_def fetch_remote_branch_def run_git_def harmless_act Let_def split: sum.split)

lemma harmless_resolve: "harmless w w1 \<Longrightarrow> harmless w (snd (resolve_base e checkout base w1))"
  by (auto simp: resolve_base_def Let_def harmless_fetch split: option.splits)

lemma harmless_exclude: "harmless w w1 \<Longrightarrow> harmless w (exclude_worktrees_dir e checkout w1)"
  by (simp add: exclude_worktrees_dir_def harmless_act Let_def split: sum.split option.split)

lemma exclude_simps [simp]: "w_table (exclude_worktrees_dir e checkout w) = w_table w"
  by (simp add: exclude_worktrees_dir_def Let_def split: sum.split option.split)

lemma fetch_keeps: "w_table (snd (fetch_pr e checkout remote pr w)) = w_table w" "w_table (snd (fetch_remote_branch e checkout remote b w)) = w_table w"
  by (simp_all add: fetch_pr_def fetch_remote_branch_def run_git_def Let_def split: sum.split)

lemma resolve_base_table [simp]: "w_table (snd (resolve_base e checkout base w)) = w_table w"
  by (auto simp: resolve_base_def Let_def fetch_keeps split: option.splits)

lemma create_worktree_cases:
  assumes "create_worktree e req w = (res, w')"
  shows "(\<exists>err. res = Inl err) \<and> harmless w w' \<and> w_table w' = w_table (if path_is_abs (trim_space (wq_repo req)) then prune_worktrees e w else w) \<or>
    (\<exists>r w2. row_contained r \<and> path_is_abs (trim_space (wq_repo req)) \<and> harmless w w2 \<and> w_table w2 = w_table (prune_worktrees e w) \<and>
       \<not> branch_exists (git_of e w2) (wr_repo r) (wr_branch r) \<and> \<not> found (stat_of e w2 (wr_path r)) \<and> wr_path r \<notin> set (w_creating w2) \<and>
       add_worktree e r (exclude_worktrees_dir e (wr_repo r) w2) = (res, w'))"
proof (cases "path_is_abs (trim_space (wq_repo req))")
  case True
  let ?w1 = "prune_worktrees e w"
  show ?thesis
  proof (cases "git_of e ?w1 (trim_space (wq_repo req)) [''rev-parse'', ''--show-toplevel'']")
    case (Inr out)
    let ?c = "path_clean (trim_space out)"
    obtain b w2 where b: "resolve_base e ?c (trim_space (wq_base req)) ?w1 = (b, w2)" by (cases "resolve_base e ?c (trim_space (wq_base req)) ?w1") auto
    have tab: "w_table w2 = w_table ?w1 \<and> harmless w w2"
      using resolve_base_table [of e ?c "trim_space (wq_base req)" ?w1] harmless_resolve [OF harmless_prune, of w e ?c "trim_space (wq_base req)" e] b by simp
    show ?thesis
    proof (cases b)
      case (Inr cr)
      obtain commit ref where cr: "cr = (commit, ref)" by (cases cr)
      show ?thesis
      proof (cases "we_random e")
        case (Some i)
        let ?br = "if trim_space (wq_branch req) = [] then ''ferngeist/'' @ i else trim_space (wq_branch req)"
        let ?r = "\<lparr>wr_id = i, wr_repo = ?c, wr_path = path_join [path_join [?c, ''.worktrees''], worktree_dir_name ?br],
                   wr_branch = ?br, wr_base = commit, wr_ref = ref, wr_created = we_now e\<rparr>"
        show ?thesis
        proof (cases "worktree_refused e ?c ?br w2")
          case None
          then have "row_contained ?r" "\<not> branch_exists (git_of e w2) ?c ?br" "\<not> found (stat_of e w2 (wr_path ?r))" "wr_path ?r \<notin> set (w_creating w2)"
            by (auto simp: worktree_refused_def row_contained_def wt_root_def Let_def split: if_splits)
          moreover have "add_worktree e ?r (exclude_worktrees_dir e ?c w2) = (res, w')"
            using assms True \<open>git_of e ?w1 _ _ = Inr out\<close> b Inr cr Some None by (simp add: create_worktree_def Let_def)
          ultimately show ?thesis using True tab by (intro disjI2 exI [of _ ?r] exI [of _ w2]) simp
        qed (use assms True \<open>git_of e ?w1 _ _ = Inr out\<close> b Inr cr Some tab in \<open>auto simp: create_worktree_def Let_def\<close>)
      qed (use assms True \<open>git_of e ?w1 _ _ = Inr out\<close> b Inr cr tab in \<open>auto simp: create_worktree_def Let_def\<close>)
    qed (use assms True \<open>git_of e ?w1 _ _ = Inr out\<close> b tab in \<open>auto simp: create_worktree_def Let_def\<close>)
  qed (use assms True harmless_prune [of w e] in \<open>auto simp: create_worktree_def Let_def\<close>)
qed (use assms in \<open>auto simp: create_worktree_def\<close>)

text \<open>
  C15: Creating a worktree is all or nothing (\<^verbatim>\<open>Create\<close>). An answered worktree is checked out by the very last command,
  recorded as the only new row, and its folder lies below the repository's \<^verbatim>\<open>.worktrees\<close>, whatever the branch is called.
  An error leaves the rows as pruning left them; and either nothing was made and nothing destroyed, or \<^verbatim>\<open>worktree add\<close>
  ran and what it may have left is taken away again right after: the worktree and its folder are removed (up to ten
  times, until a removal works), the repository's worktrees are pruned and the branch is deleted. Folder and branch did
  not exist before, so none of this destroys anything older; nothing else is destroyed.
\<close>

theorem create_all_or_nothing:
  assumes "create_worktree e req w = (res, w')"
  shows "case res of
      Inr r \<Rightarrow> row_contained r \<and> w_table w' = w_table (prune_worktrees e w) @ [r] \<and> last (new_effects w w') = add_effect r \<and>
        \<not> list_ex destroys (new_effects w w')
    | Inl err \<Rightarrow> w_table w' = w_table (if path_is_abs (trim_space (wq_repo req)) then prune_worktrees e w else w) \<and>
        (\<not> list_ex makes (new_effects w w') \<and> \<not> list_ex destroys (new_effects w w') \<or>
         (\<exists>r xs before n. row_contained r \<and> 1 \<le> n \<and> n \<le> 10 \<and> \<not> list_ex destroys xs \<and>
            new_effects w w' = xs @ add_effect r # discard_effects (wr_repo r) (wr_path r) (wr_branch r) n \<and>
            harmless w before \<and> \<not> branch_exists (git_of e before) (wr_repo r) (wr_branch r) \<and> \<not> found (stat_of e before (wr_path r))))"
  using create_worktree_cases [OF assms]
proof (elim disjE exE conjE)
  fix err assume "res = Inl err" "harmless w w'" "w_table w' = w_table (if path_is_abs (trim_space (wq_repo req)) then prune_worktrees e w else w)"
  then show ?thesis by (auto simp: harmless_def dest: extends_effects)
next
  fix r w2
  assume h: "row_contained r" "path_is_abs (trim_space (wq_repo req))" "harmless w w2" "w_table w2 = w_table (prune_worktrees e w)"
    "\<not> branch_exists (git_of e w2) (wr_repo r) (wr_branch r)" "\<not> found (stat_of e w2 (wr_path r))"
    and add: "add_worktree e r (exclude_worktrees_dir e (wr_repo r) w2) = (res, w')"
  obtain xs where xs: "extends w (exclude_worktrees_dir e (wr_repo r) w2) xs" "\<not> list_ex destroys xs"
    using harmless_exclude [OF h(3)] by (auto simp: harmless_def)
  have nd: "\<not> destroys (add_effect r)" by (simp add: add_effect_def)
  note out = add_worktree_outcome [OF add]
  show ?thesis
  proof (cases res)
    case (Inr r')
    then have "r' = r" "extends w w' (xs @ [add_effect r])" "w_table w' = w_table w2 @ [r]" using out xs(1) by (auto dest: extends_trans)
    then show ?thesis using Inr h xs(2) nd by (simp add: extends_effects)
  next
    case (Inl err)
    then obtain n where n: "1 \<le> n" "n \<le> 10" "extends w w' (xs @ add_effect r # discard_effects (wr_repo r) (wr_path r) (wr_branch r) n)"
      "w_table w' = w_table w2"
      using out extends_trans [OF xs(1)] by auto
    then show ?thesis using Inl h xs(2) extends_effects [OF n(3)] by (simp add: disjI2) blast
  qed
qed

section \<open>The rows over time\<close>

datatype wt_op = Op_Create wt_create | Op_Delete string bool | Op_Prune | Op_Rebase string | Op_Merge string merge_request
  | Op_Push string push_request

text \<open>One operation, in whatever surroundings it meets.\<close>

definition wt_step :: "wt_world \<Rightarrow> wt_env \<times> wt_op \<Rightarrow> wt_world" where
  "wt_step w ev =
     (case snd ev of
        Op_Create req \<Rightarrow> snd (create_worktree (fst ev) req w)
      | Op_Delete i force \<Rightarrow> snd (delete_worktree (fst ev) i force w)
      | Op_Prune \<Rightarrow> prune_worktrees (fst ev) w
      | Op_Rebase i \<Rightarrow> snd (rebase_worktree (fst ev) i w)
      | Op_Merge i req \<Rightarrow> snd (merge_worktree (fst ev) i req w)
      | Op_Push i req \<Rightarrow> snd (push_worktree (fst ev) i req w))"

definition rows_ok :: "worktree_record list \<Rightarrow> bool" where
  "rows_ok rs \<longleftrightarrow> distinct (map wr_id rs) \<and> distinct (map wr_path rs) \<and> list_all row_contained rs"

definition table_ok :: "wt_world \<Rightarrow> bool" where
  "table_ok w \<longleftrightarrow> rows_ok (w_table w)"

lemma rows_ok_filter: "rows_ok rs \<Longrightarrow> rows_ok (filter P rs)"
  by (auto simp: rows_ok_def distinct_map_filter list_all_iff)

lemma delete_row_ok: "table_ok w \<Longrightarrow> table_ok (delete_row e i w)"
  by (simp add: table_ok_def delete_row_def rows_ok_filter)

lemma table_ok_act [simp]: "table_ok (act x w) = table_ok w"
  by (simp add: table_ok_def)

lemma prune_ok: "table_ok w \<Longrightarrow> table_ok (prune_worktrees e w)"
proof -
  have "table_ok w \<Longrightarrow> table_ok (fold (prune_one e) rs w)" for rs
    by (induction rs arbitrary: w) (simp_all add: prune_one_def delete_row_ok)
  then show "table_ok w \<Longrightarrow> table_ok (prune_worktrees e w)" by (simp add: prune_worktrees_def split: option.split)
qed

lemma remove_folder_table: "w_table (snd (remove_folder e r w)) = w_table w"
  by (simp add: remove_folder_def remove_all_retrying_def)

lemma delete_ok: "table_ok w \<Longrightarrow> table_ok (snd (delete_worktree e i force w))"
  by (auto simp: delete_worktree_def Let_def run_git_def split_def table_ok_def [of "snd (remove_folder _ _ _)"] remove_folder_table
      intro!: delete_row_ok split: option.split) (simp_all add: table_ok_def remove_folder_table)

lemma rebase_table [simp]: "w_table (snd (rebase_worktree e i w)) = w_table w"
  by (simp add: rebase_worktree_def run_git_def split: sum.split)

lemma push_table [simp]: "w_table (snd (push_worktree e i req w)) = w_table w"
  by (simp add: push_worktree_def run_tool_def split: sum.split)

lemma merge_branch_table: "w_table (snd (merge_branch e req r w)) = w_table w"
  by (simp add: merge_branch_def run_git_def Let_def split: sum.split)

lemma clean_up_ok: "table_ok w \<Longrightarrow> table_ok (snd (clean_up_merged e req r commit w))"
  using delete_ok [of w e "wr_id r" False] by (auto simp: clean_up_merged_def run_git_def split: sum.split prod.split)

lemma merge_ok:
  assumes "table_ok w"
  shows "table_ok (snd (merge_worktree e i req w))"
proof (cases "clean_worktree e w i")
  case (Inr r)
  obtain m w1 where m: "merge_branch e req r w = (m, w1)" by (cases "merge_branch e req r w") auto
  then have "table_ok w1" using assms merge_branch_table [of e req r w] by (simp add: table_ok_def)
  then show ?thesis using assms Inr m clean_up_ok by (simp add: merge_worktree_def Let_def split_def split: option.split)
qed (use assms in \<open>simp add: merge_worktree_def\<close>)

lemma create_ok:
  assumes "table_ok w"
  shows "table_ok (snd (create_worktree e req w))"
proof -
  obtain res w' where c: "create_worktree e req w = (res, w')" by (cases "create_worktree e req w") auto
  show ?thesis using create_worktree_cases [OF c]
  proof (elim disjE exE conjE)
    assume "w_table w' = w_table (if path_is_abs (trim_space (wq_repo req)) then prune_worktrees e w else w)"
    then show ?thesis using c assms prune_ok [OF assms, of e] by (auto simp: table_ok_def)
  next
    fix r w2
    assume h: "row_contained r" "w_table w2 = w_table (prune_worktrees e w)" "add_worktree e r (exclude_worktrees_dir e (wr_repo r) w2) = (res, w')"
    show ?thesis using add_worktree_outcome [OF h(3)] h(1,2) c prune_ok [OF assms, of e]
      by (cases res) (auto simp: table_ok_def rows_ok_def)
  qed
qed

interpretation worktrees: invariant_machine wt_step table_ok "\<lambda>ev. True"
proof unfold_locales
  fix w ev assume "table_ok w"
  then show "table_ok (wt_step w ev)"
    by (cases "snd ev") (simp_all add: wt_step_def create_ok delete_ok prune_ok merge_ok, simp_all add: table_ok_def)
qed

text \<open>
  C16: Every row the store ever holds is a worktree of the gateway's own making: whatever operations run, in whatever order
  and whatever git, the disk and the store answer them, ids and folders are unique and each folder is a proper
  subfolder of its repository's \<^verbatim>\<open>.worktrees\<close>, so no row names a main checkout.
\<close>

theorem worktree_rows_contained:
  "rows_ok (w_table (run wt_step \<lparr>w_log = log, w_table = [], w_creating = claimed, w_repos = repos\<rparr> evs))"
proof -
  have "table_ok \<lparr>w_log = log, w_table = [], w_creating = claimed, w_repos = repos\<rparr>" by (simp add: table_ok_def rows_ok_def)
  from worktrees.run_inv [OF this, of evs] show ?thesis by (simp add: table_ok_def list_all_iff)
qed

end
