(* ===== verification/Worktree_Examples.thy ===== *)
theory Worktree_Examples
  imports Worktree_Proofs
begin

text \<open>
  One repository with a worktree on the branch \<^verbatim>\<open>feat\<close>: the theorems on worktrees at work, and what the code does with a
  branch whose name begins with a plus sign and with a rebase it did not start.
\<close>

definition some_git :: "effect list \<Rightarrow> git" where
  "some_git log dir args =
     (if take 2 args = [''rev-parse'', ''--show-toplevel''] then Inr (''/r'' @ [line_feed])
      else if take 1 args = [''show-ref''] then (if last args = ''refs/heads/main'' then Inr [] else Inl ''no'')
      else if take 1 args = [''symbolic-ref''] then Inr (''main'' @ [line_feed])
      else if take 1 args = [''rev-parse''] then Inr (''c0'' @ [line_feed])
      else if take 1 args = [''rev-list''] then Inr (''0'' @ [tab] @ ''1'' @ [line_feed])
      else Inr [])"

definition some_wt_env :: wt_env where
  "some_wt_env =
     \<lparr>we_git = some_git, we_tool = (\<lambda>log name dir args. Inr []),
      we_stat = (\<lambda>log p. if p = ''/r/.worktrees/feat'' then A_Folder else if p = ''/r/.worktrees/feat/.git'' then A_File else Absent),
      we_text = (\<lambda>log p. Some None), we_works = (\<lambda>log x. True), we_canon = (\<lambda>log p. p), we_modified = (\<lambda>p. None), we_path_id = (\<lambda>p. p),
      we_random = Some ''a1'', we_now = 1, we_stamp = (\<lambda>t. []), we_fails = (\<lambda>c. False), we_chats = None, we_has = (\<lambda>n. True)\<rparr>"

definition feat_row :: worktree_record where
  "feat_row = \<lparr>wr_id = ''a0'', wr_repo = ''/r'', wr_path = ''/r/.worktrees/feat'', wr_branch = ''feat'', wr_base = ''c0'', wr_ref = ''main'', wr_created = 0\<rparr>"

definition some_wt_world :: wt_world where
  "some_wt_world = \<lparr>w_log = [], w_table = [feat_row], w_creating = [], w_repos = []\<rparr>"

theorem delete_checks_before_removing_witness:
  "\<exists>res w'. delete_worktree some_wt_env ''a0'' False some_wt_world = (res, w') \<and> Remove_All ''/r/.worktrees/feat'' \<in> set (new_effects some_wt_world w') \<and>
    is_clean (git_of some_wt_env some_wt_world) ''/r/.worktrees/feat'' = Some True"
proof -
  let ?w' = "some_wt_world\<lparr>w_log := [Git ''/r'' [''worktree'', ''remove'', ''--force'', ''/r/.worktrees/feat''], Remove_All ''/r/.worktrees/feat'',
    Git ''/r'' [''worktree'', ''prune''], Git ''/r'' [''branch'', ''-d'', ''feat'']], w_table := []\<rparr>"
  have d: "delete_worktree some_wt_env ''a0'' False some_wt_world = (Inr True, ?w')" by code_simp
  have x: "Remove_All ''/r/.worktrees/feat'' \<in> set (new_effects some_wt_world ?w')" by code_simp
  have r: "worktree_of some_wt_env some_wt_world ''a0'' = Some feat_row" by code_simp
  have g: "found (stat_of some_wt_env some_wt_world (path_join [wr_path feat_row, ''.git'']))" by code_simp
  have p: "wr_path feat_row = ''/r/.worktrees/feat''" by (simp add: feat_row_def)
  show ?thesis using delete_checks_before_removing [OF d x] d x r g p by auto
qed

theorem merge_lands_or_resets_witness:
  "\<exists>res w'. merge_worktree some_wt_env ''a0'' \<lparr>mq_squash = True, mq_message = [], mq_delete = False\<rparr> some_wt_world = (res, w') \<and>
    main_ready some_wt_env some_wt_world feat_row \<and>
    new_effects some_wt_world w' = [Git ''/r'' [''merge'', ''--squash'', ''--end-of-options'', ''feat''], Git ''/r'' [''commit'', ''-m'', ''Merge feat'']]"
proof -
  let ?req = "\<lparr>mq_squash = True, mq_message = [], mq_delete = False\<rparr>"
  let ?xs = "[Git ''/r'' [''merge'', ''--squash'', ''--end-of-options'', ''feat''], Git ''/r'' [''commit'', ''-m'', ''Merge feat'']]"
  let ?w' = "some_wt_world\<lparr>w_log := ?xs\<rparr>"
  have m: "merge_worktree some_wt_env ''a0'' ?req some_wt_world = (Inr \<lparr>mr_commit = ''c0'', mr_worktree_deleted = False, mr_branch_deleted = False\<rparr>, ?w')" by code_simp
  have x: "new_effects some_wt_world ?w' = ?xs" by code_simp
  have r: "clean_worktree some_wt_env some_wt_world ''a0'' = Inr feat_row" by code_simp
  have "main_ready some_wt_env some_wt_world feat_row" using merge_lands_or_resets [OF m] x r by auto
  then show ?thesis using m x by blast
qed

theorem push_publishes_one_branch_witness:
  "\<exists>res w'. push_worktree some_wt_env ''a0'' \<lparr>pq_pr = False, pq_title = [], pq_body = []\<rparr> some_wt_world = (res, w') \<and>
    new_effects some_wt_world w' = [Tool ''git'' ''/r/.worktrees/feat'' [''push'', ''--set-upstream'', ''origin'', ''feat'']] \<and>
    \<not> list_ex forces (new_effects some_wt_world w')"
proof -
  let ?xs = "[Tool ''git'' ''/r/.worktrees/feat'' [''push'', ''--set-upstream'', ''origin'', ''feat'']]"
  let ?w' = "some_wt_world\<lparr>w_log := ?xs\<rparr>"
  have m: "push_worktree some_wt_env ''a0'' \<lparr>pq_pr = False, pq_title = [], pq_body = []\<rparr> some_wt_world = (Inr [], ?w')" by code_simp
  have x: "new_effects some_wt_world ?w' = ?xs" by code_simp
  have r: "clean_worktree some_wt_env some_wt_world ''a0'' = Inr feat_row" by code_simp
  have b: "\<not> has_prefix (wr_branch feat_row) ''+''" "\<not> has_prefix (wr_branch feat_row) ''-''" by code_simp+
  show ?thesis using push_publishes_one_branch [OF m] m x r b by auto
qed

theorem create_all_or_nothing_witness:
  "\<exists>r w'. create_worktree some_wt_env \<lparr>wq_repo = ''/r'', wq_base = [], wq_branch = ''x/../y''\<rparr> some_wt_world = (Inr r, w') \<and>
    wr_path r = ''/r/.worktrees/x-..-y'' \<and> row_contained r \<and> w_table w' = [feat_row, r]"
proof -
  let ?req = "\<lparr>wq_repo = ''/r'', wq_base = [], wq_branch = ''x/../y''\<rparr>"
  let ?r = "\<lparr>wr_id = ''a1'', wr_repo = ''/r'', wr_path = ''/r/.worktrees/x-..-y'', wr_branch = ''x/../y'', wr_base = ''c0'', wr_ref = ''HEAD'', wr_created = 1\<rparr>"
  have c: "fst (create_worktree some_wt_env ?req some_wt_world) = Inr ?r" by code_simp
  obtain w' where w: "create_worktree some_wt_env ?req some_wt_world = (Inr ?r, w')" using c by (cases "create_worktree some_wt_env ?req some_wt_world") auto
  have p: "w_table (prune_worktrees some_wt_env some_wt_world) = [feat_row]" by code_simp
  show ?thesis using create_all_or_nothing [OF w] w p by auto
qed

section \<open>Names git reads differently\<close>

text \<open>
  A branch called \<^verbatim>\<open>+main\<close> passes every check of \<^verbatim>\<open>Create\<close>, since git allows the name, and \<^verbatim>\<open>Push\<close> hands it to
  \<^verbatim>\<open>git push\<close> as a refspec, where the plus sign asks for a forced update of \<^verbatim>\<open>main\<close> on origin. The comment on
  \<^verbatim>\<open>Push\<close> says that it never forces.
\<close>

theorem plus_branch_is_forced:
  "case create_worktree some_wt_env \<lparr>wq_repo = ''/r'', wq_base = [], wq_branch = ''+main''\<rparr> some_wt_world of (res, w1) \<Rightarrow>
     (case push_worktree (some_wt_env\<lparr>we_stat := \<lambda>log p. A_Folder\<rparr>) ''a1'' \<lparr>pq_pr = False, pq_title = [], pq_body = []\<rparr> w1 of (pushed, w2) \<Rightarrow>
        pushed = Inr [] \<and> Tool ''git'' ''/r/.worktrees/-main'' [''push'', ''--set-upstream'', ''origin'', ''+main''] \<in> set (w_log w2) \<and>
        list_ex forces (w_log w2))"
  by code_simp

text \<open>
  Every failing rebase is followed by \<^verbatim>\<open>rebase --abort\<close>, also when it failed because the worktree is in the middle of
  a rebase of its user, stopped with a clean tree: that rebase is the one that is aborted.
\<close>

theorem foreign_rebase_aborted:
  "snd (rebase_worktree (some_wt_env\<lparr>we_git := \<lambda>log dir args. if take 1 args = [''rebase''] \<and> log = [] then Inl ''already a rebase-merge directory'' else some_git log dir args\<rparr>)
       ''a0'' some_wt_world) =
     some_wt_world\<lparr>w_log := [Git ''/r/.worktrees/feat'' [''rebase'', ''--end-of-options'', ''main''], Git ''/r/.worktrees/feat'' [''rebase'', ''--abort'']]\<rparr>"
  by code_simp

end
