(* ===== verification/Api_Workspace_Proofs.thy ===== *)
theory Api_Workspace_Proofs
  imports Api_Workspace Worktree_Examples Http_Auth_Proofs
begin

text \<open>
  What the workspace endpoints promise: nothing is answered, read or changed without a credential of the right scope, and
  no file outside the runtime's directory is served.
\<close>

section \<open>The gate in front of every route\<close>

text \<open>
  What a request with the read scope may leave behind: no effect, no row and no claim on a folder; the listing
  of one repository only adds it to the repositories that later listings walk (\<^verbatim>\<open>rememberRepo\<close>).
\<close>

definition only_remembers :: "workspace_route \<Rightarrow> wt_world \<Rightarrow> wt_world \<Rightarrow> bool" where
  "only_remembers route w w' \<longleftrightarrow>
     w' = w \<or> route = Route_Worktree_List \<and> (\<exists>repos. w' = w\<lparr>w_repos := w_repos w @ repos\<rparr>)"

definition guarded_by :: "workspace_route \<Rightarrow> auth_env \<Rightarrow> http_request \<Rightarrow> gateway \<Rightarrow> wt_world \<Rightarrow> api_reply \<times> gateway \<times> wt_world \<Rightarrow> bool" where
  "guarded_by route a r g w res \<longleftrightarrow>
     (case res of
        (rep, g', w') \<Rightarrow>
          (\<exists>err. rep = Api_Auth err \<and> w' = w) \<or>
          (\<exists>scope c. require_gateway_scope (au_crypto a) (au_digest a) (au_io a) (au_now a) scope r g = (g', Inr c) \<and>
             (scope = scope_control \<or> scope = scope_read \<and> only_remembers route w w')))"

lemma guarded_control: "guarded_by route a r g w (with_scope a scope_control r h (g, w))"
  by (auto simp: guarded_by_def with_scope_def split: prod.split sum.split)

lemma guarded_read:
  assumes "\<And>c. only_remembers route w (snd (h c w))"
  shows "guarded_by route a r g w (with_scope a scope_read r h (g, w))"
proof -
  obtain g' res where q: "require_gateway_scope (au_crypto a) (au_digest a) (au_io a) (au_now a) scope_read r g = (g', res)"
    by (cases "require_gateway_scope (au_crypto a) (au_digest a) (au_io a) (au_now a) scope_read r g") auto
  show ?thesis
  proof (cases res)
    case (Inr c)
    obtain rep w' where h: "h c w = (rep, w')" by (cases "h c w") auto
    then have "only_remembers route w w'" using assms [of c] by simp
    then show ?thesis using q Inr h by (auto simp: guarded_by_def with_scope_def)
  qed (use q in \<open>simp add: guarded_by_def with_scope_def\<close>)
qed

lemma note_worktree_repos [simp]: "dc_repos (note_worktree e w managed checkout x d) = dc_repos d"
  by (simp add: note_worktree_def note_trunks_def Let_def split: option.split)

lemma note_worktrees_repos [simp]: "dc_repos (fold (note_worktree e w managed checkout) xs d) = dc_repos d"
  by (induction xs arbitrary: d) simp_all

lemma discover_dir_repos: "discover_dir e w managed named dir d = Inr d' \<Longrightarrow> \<exists>new. dc_repos d' = dc_repos d @ new"
  by (auto simp: discover_dir_def remember_repo_def Let_def split: if_splits sum.splits list.splits)

lemma discover_dirs_repos: "discover_dirs e w managed named xs d = Inr d' \<Longrightarrow> \<exists>new. dc_repos d' = dc_repos d @ new"
proof (induction xs arbitrary: d)
  case (Cons x xs)
  then obtain d1 where d1: "discover_dir e w managed named x d = Inr d1" "discover_dirs e w managed named xs d1 = Inr d'"
    by (auto split: sum.splits)
  from discover_dir_repos [OF d1(1)] Cons.IH [OF d1(2)] show ?case by auto
qed simp

lemma discover_remembers: "discover e repo w = (res, w') \<Longrightarrow> \<exists>new. w' = w\<lparr>w_repos := w_repos w @ new\<rparr>"
proof -
  assume d: "discover e repo w = (res, w')"
  have "w' = w \<or> (\<exists>new. w' = w\<lparr>w_repos := w_repos w @ new\<rparr>)"
    using d by (auto simp: discover_def Let_def dest!: discover_dir_repos discover_dirs_repos split: option.splits sum.splits if_splits)
  then show ?thesis by (metis append_Nil2 wt_world.surjective wt_world.update_convs(4))
qed

lemma worktree_list_remembers: "only_remembers Route_Worktree_List w (snd (worktree_list_handler e q w))"
proof -
  obtain res w' where d: "discover (ap_wt e) (ar_query q ''repo'') w = (res, w')" by fastforce
  have "snd (worktree_list_handler e q w) = w'"
    using d by (auto simp: worktree_list_handler_def worktree_statuses_def api_result_def split: prod.split sum.split)
  then show ?thesis using discover_remembers [OF d] by (auto simp: only_remembers_def)
qed

text \<open>
  C17: Every workspace and worktree endpoint is behind the gate (\<^verbatim>\<open>internal/api/workspace.go\<close>, \<^verbatim>\<open>worktree.go\<close>). For each route,
  a request whose credential is refused gets the refusal and changes nothing; whatever else is answered was answered
  to a credential that the gate accepted for the route's scope. With the control scope anything may happen. With the read
  scope no changing command is issued and the stored worktrees and the claimed folders stay as they are: every such
  route leaves the whole state as it was, but for the listing of worktrees, which may add the repository it was asked
  for to the remembered ones.
\<close>

theorem workspace_routes_guarded: "guarded_by route a r g w (workspace_api a e route r q (g, w))"
proof (cases route)
  case Route_Worktree_List
  then show ?thesis by (simp add: workspace_api_def guarded_read worktree_list_remembers)
qed (simp_all add: workspace_api_def guarded_control guarded_read only_reads_def only_remembers_def worktree_get_handler_def paths_missing_handler_def)

section \<open>What is served\<close>

text \<open>
  C18: The file endpoint serves only what lies in the runtime's directory (\<^verbatim>\<open>handleWorkspaceFile\<close>). A body that is sent is the
  contents, cut at eight MiB, of one file; its path continues the path of the directory without any \<^verbatim>\<open>..\<close>, and its real
  location, with links resolved, continues the real location of the directory.
\<close>

theorem served_file_inside:
  assumes "workspace_file e q w \<in> {Api_Text data uri mime n short, Api_Blob (ap_base64 e data) uri mime n short}"
    and "\<forall>c. ap_cwd e (ar_var q ''runtimeId'') (trim_space (ar_query q ''acpSessionId'')) = Works_In c \<longrightarrow> path_is_abs c"
    and "\<forall>p r. ap_eval e p = Some r \<longrightarrow> path_is_abs r"
    and "inj (ap_base64 e)"
  shows "\<exists>cwd p contents. ap_cwd e (ar_var q ''runtimeId'') (trim_space (ar_query q ''acpSessionId'')) = Works_In cwd \<and>
    ap_file e p = Some contents \<and> data = take max_workspace_file_bytes contents \<and> short = (length contents > max_workspace_file_bytes) \<and>
    prefix (clean_parts (path_clean cwd)) (clean_parts p) \<and> ''..'' \<notin> set (clean_parts p) \<and>
    (\<forall>real. ap_eval e p = Some real \<longrightarrow>
      prefix (clean_parts (case ap_eval e (path_clean cwd) of None \<Rightarrow> path_clean cwd | Some x \<Rightarrow> x)) (clean_parts real))"
proof -
  obtain cwd where cwd: "ap_cwd e (ar_var q ''runtimeId'') (trim_space (ar_query q ''acpSessionId'')) = Works_In cwd"
    using assms(1) by (auto simp: workspace_file_def resolve_workspace_cwd_def split: cwd_answer.splits)
  obtain p where p: "resolve_within_root (ap_process_dir e) (ap_eval e) cwd (trim_space (ar_query q ''path'')) = Inr p"
    and s: "serve_workspace_file e p (trim_space (ar_query q ''path'')) \<in> {Api_Text data uri mime n short, Api_Blob (ap_base64 e data) uri mime n short}"
    using assms(1) cwd by (auto simp: workspace_file_def resolve_workspace_cwd_def resolve_path_def Let_def split: sum.splits if_splits)
  have abs: "path_is_abs cwd" using assms(2) cwd by blast
  have root: "path_abs (ap_process_dir e) cwd = Some (path_clean cwd)" using abs by (simp add: path_abs_def)
  have body: "\<exists>contents. ap_file e p = Some contents \<and> data = take max_workspace_file_bytes contents \<and> short = (length contents > max_workspace_file_bytes)"
    using s injD [OF assms(4)]
    by (auto simp: serve_workspace_file_def read_file_limited_def Let_def split: option.splits if_splits)
  have inside: "prefix (clean_parts (path_clean cwd)) (clean_parts p) \<and> ''..'' \<notin> set (clean_parts p) \<and>
    (\<forall>real. ap_eval e p = Some real \<longrightarrow>
      prefix (clean_parts (case ap_eval e (path_clean cwd) of None \<Rightarrow> path_clean cwd | Some x \<Rightarrow> x)) (clean_parts real))"
    by (rule resolve_inside [OF p root path_is_abs_clean [OF abs] assms(3)])
  then show ?thesis using cwd body by blast
qed

text \<open>One project with a text file, and a link that leads out of it.\<close>

definition some_api_env :: api_env where
  "some_api_env =
     \<lparr>ap_wt = some_wt_env\<lparr>we_stat := \<lambda>log p. A_File,
        we_git := \<lambda>log dir args. if take 1 args = [''status''] then Inr (''? link'' @ [line_feed]) else Inr []\<rparr>,
      ap_cwd = (\<lambda>i s. Works_In ''/r''), ap_process_dir = Some ''/'',
      ap_eval = (\<lambda>p. if p = ''/r'' then Some ''/r'' else if p = ''/r/a'' then Some ''/r/a'' else if p = ''/r/link'' then Some ''/etc/passwd'' else None),
      ap_file = (\<lambda>p. Some ''text''), ap_size = (\<lambda>p. 4),
      ap_chunks = (\<lambda>p. if p = ''/r/link'' then Some [''root'' @ [line_feed] @ ''bin'' @ [line_feed]] else None),
      ap_mime = (\<lambda>p. ''text/plain''), ap_uri = (\<lambda>p. ''file://'' @ p), ap_base64 = (\<lambda>t. t), ap_without_user = (\<lambda>u. None)\<rparr>"

definition some_query :: "string \<Rightarrow> api_request" where
  "some_query path = \<lparr>ar_query = (\<lambda>k. if k = ''path'' then path else []), ar_var = (\<lambda>k. ''rt1'')\<rparr>"

theorem served_file_inside_witness:
  "workspace_file some_api_env (some_query ''a'') some_wt_world = Api_Text ''text'' ''file:///r/a'' ''text/plain'' 4 False \<and>
   (\<exists>p. ''..'' \<notin> set (clean_parts p) \<and> prefix [''r''] (clean_parts p))"
proof -
  have f: "workspace_file some_api_env (some_query ''a'') some_wt_world = Api_Text ''text'' ''file:///r/a'' ''text/plain'' 4 False"
  proof -
    have "resolve_workspace_cwd some_api_env (some_query ''a'') = Inr ''/r''" by code_simp
    moreover have "resolve_path some_api_env ''/r'' (trim_space (ar_query (some_query ''a'') ''path'')) = Inr ''/r/a''" by code_simp
    moreover have "stat_of (ap_wt some_api_env) some_wt_world ''/r/a'' = A_File" by code_simp
    moreover have "serve_workspace_file some_api_env ''/r/a'' t = Api_Text ''text'' ''file:///r/a'' ''text/plain'' 4 False" for t
      by (simp add: serve_workspace_file_def some_api_env_def read_file_limited_def max_workspace_file_bytes_def is_binary_def has_prefix_def)
    ultimately show ?thesis by (simp add: workspace_file_def found_def)
  qed
  have "ap_cwd some_api_env i s = Works_In c \<Longrightarrow> path_is_abs c" for i s c by (auto simp: some_api_env_def path_is_abs_def has_prefix_def)
  moreover have "ap_eval some_api_env p = Some r \<Longrightarrow> path_is_abs r" for p r
    by (auto simp: some_api_env_def path_is_abs_def has_prefix_def split: if_splits)
  moreover have "inj (ap_base64 some_api_env)" by (simp add: some_api_env_def)
  ultimately obtain cwd p where "ap_cwd some_api_env (ar_var (some_query ''a'') ''runtimeId'') (trim_space (ar_query (some_query ''a'') ''acpSessionId'')) = Works_In cwd"
      "''..'' \<notin> set (clean_parts p)" "prefix (clean_parts (path_clean cwd)) (clean_parts p)"
    using served_file_inside [of some_api_env "some_query ''a''" some_wt_world "''text''" "''file:///r/a''" "''text/plain''" 4 False] f by auto
  moreover have "clean_parts (path_clean ''/r'') = [''r'']" by code_simp
  ultimately show ?thesis using f by (auto simp: some_api_env_def)
qed

text \<open>
  The same link on the other endpoints: the file endpoint refuses it, the whole-tree difference leaves it out, and the
  status follows it out of the project and reports how many lines the file behind it has.
\<close>

theorem status_counts_behind_link:
  "workspace_file some_api_env (some_query ''link'') some_wt_world = Api_Error 400 ''path escapes the agent's working directory'' \<and>
   workspace_diff some_api_env (some_query []) some_wt_world = Api_Diffs [] \<and>
   (case workspace_status some_api_env (some_query []) some_wt_world of
      Api_Git_Status g \<Rightarrow> map (\<lambda>f. (cf_path f, cf_added f)) (gs_changed g) = [(''link'', 2)]
    | _ \<Rightarrow> False)"
proof -
  have cwd: "resolve_workspace_cwd some_api_env (some_query t) = Inr ''/r''" for t by (simp add: resolve_workspace_cwd_def some_api_env_def)
  have link: "resolve_path some_api_env ''/r'' ''link'' = Inl (Api_Error 400 (path_error_text Path_Escapes))" by code_simp
  have "trim_space (ar_query (some_query ''link'') ''path'') = ''link''" by code_simp
  then have "workspace_file some_api_env (some_query ''link'') some_wt_world = Api_Error 400 (path_error_text Path_Escapes)"
    using cwd link by (simp add: workspace_file_def)
  moreover have base: "base_ref (ap_wt some_api_env) some_wt_world ''/r'' = ''HEAD''" by code_simp
  moreover have rows: "changes (git_of (ap_wt some_api_env) some_wt_world) ''/r'' ''HEAD'' = Some (Inr (''? link'' @ [line_feed], [changed ''link'' ''?'']))" by code_simp
  moreover have "tree_diffs some_api_env (git_of (ap_wt some_api_env) some_wt_world) ''/r'' ''HEAD'' [changed ''link'' ''?''] = []"
    using link by (simp add: tree_diffs_def List.map_filter_def changed_def)
  moreover have "trim_space (ar_query (some_query []) k) = []" for k by (simp add: some_query_def trim_space_def)
  moreover have "head_numstat (git_of (ap_wt some_api_env) some_wt_world) ''/r'' ''HEAD'' = Some []" by code_simp
  moreover have "map (count_untracked some_api_env ''/r'') (map (add_stats (parse_git_numstat [])) [changed ''link'' ''?'']) = [(changed ''link'' ''?'')\<lparr>cf_added := 2\<rparr>]"
  proof -
    have "add_stats (parse_git_numstat []) (changed ''link'' ''?'') = changed ''link'' ''?''" by code_simp
    moreover have "path_join [''/r'', ''link''] = ''/r/link''" by code_simp
    moreover have "count_file_lines (Some [''root'' @ [line_feed] @ ''bin'' @ [line_feed]]) = (2, False)"
      by (simp add: count_file_lines_def max_file_read_bytes_def)
    ultimately show ?thesis by (simp add: count_untracked_def changed_def some_api_env_def)
  qed
  moreover have "gs_changed (parse_branch_header (''? link'' @ [line_feed]) (status_reply rows [] [])) = rows" for rows
    by (simp add: parse_branch_header_def branch_header_line_def has_prefix_def status_reply_def)
  ultimately show ?thesis using cwd by (simp add: path_error_text_def workspace_diff_def workspace_status_def Let_def changed_def)
qed

end
