(* ===== verification/Agent_Install.thy ===== *)
theory Agent_Install
  imports Catalog Release_Update
begin

text \<open>
  How the binary of a registry agent comes to be installed (\<^verbatim>\<open>internal/acquire/installer.go\<close>, \<^verbatim>\<open>internal/storage/binaries.go\<close>).
  The disk is a tree: a map from the components of an absolute path to a folder, a file or a symbolic link. The
  operations of \<^verbatim>\<open>os.Root\<close> resolve a name below their root and follow links only there; \<^verbatim>\<open>os.Stat\<close> follows links
  anywhere. The managed directory is given by its real path. The network, the reading of an archive, SHA-256,
  \<^verbatim>\<open>url.Parse\<close>, the names of temporary folders, the operating system's refusals and the number of links a path may
  follow are parameters. A bundle folder that is there already is taken to hold something, so that a rename onto it fails.
\<close>

section \<open>The tree\<close>

datatype node = Folder | Plain nat string | Link string

type_synonym tree = "string list \<rightharpoonup> node"

definition components :: "string \<Rightarrow> string list" where
  "components name = filter (\<lambda>c. c \<noteq> [] \<and> c \<noteq> ''.'') (split_at slash name)"

text \<open>The folder that the components of a name lead to below a root, made on the way when asked for.\<close>

fun walk :: "nat \<Rightarrow> bool \<Rightarrow> string list \<Rightarrow> string list \<Rightarrow> string list \<Rightarrow> tree \<Rightarrow> (string list \<times> tree) option" where
  "walk links mk root here [] t = Some (here, t)"
| "walk links mk root here (c # cs) t =
     (if c = [] \<or> c = ''.'' then walk links mk root here cs t
      else if c = ''..'' then (if here = [] then None else walk links mk root (butlast here) cs t)
      else case t (root @ here @ [c]) of
             None \<Rightarrow> if mk then walk links mk root (here @ [c]) cs (t(root @ here @ [c] \<mapsto> Folder)) else None
           | Some Folder \<Rightarrow> walk links mk root (here @ [c]) cs t
           | Some (Plain _ _) \<Rightarrow> None
           | Some (Link l) \<Rightarrow>
               if links = 0 \<or> path_is_abs l then None else walk (links - 1) mk root here (split_at slash l @ cs) t)"

definition root_mkdir_all :: "nat \<Rightarrow> string list \<Rightarrow> string \<Rightarrow> tree \<Rightarrow> tree option" where
  "root_mkdir_all links root name t =
     (let cs = components name
      in if cs = [] then Some t
         else if last cs = ''..'' then map_option snd (walk links True root [] cs t)
         else case walk links True root [] (butlast cs) t of
                None \<Rightarrow> None
              | Some (here, t1) \<Rightarrow>
                  (case t1 (root @ here @ [last cs]) of
                     None \<Rightarrow> Some (t1(root @ here @ [last cs] \<mapsto> Folder))
                   | Some Folder \<Rightarrow> Some t1
                   | Some (Plain _ _) \<Rightarrow> None
                   | Some (Link _) \<Rightarrow> if walk links False root [] cs t1 = None then None else Some t1))"

text \<open>Where a new entry goes: the folder must be there and the name must be free.\<close>

definition root_fresh :: "nat \<Rightarrow> string list \<Rightarrow> string \<Rightarrow> tree \<Rightarrow> string list option" where
  "root_fresh links root name t =
     (let cs = components name; end = last (split_at slash name)
      in if end = [] \<or> end = ''.'' \<or> end = ''..'' then None
         else case walk links False root [] (butlast cs) t of
                None \<Rightarrow> None
              | Some (here, _) \<Rightarrow> if t (root @ here @ [end]) = None then Some (root @ here @ [end]) else None)"

text \<open>\<^verbatim>\<open>os.Stat\<close>: the node at the end of a path, links followed wherever they lead.\<close>

fun follow :: "nat \<Rightarrow> string list \<Rightarrow> string list \<Rightarrow> tree \<Rightarrow> string list option" where
  "follow links here [] t = Some here"
| "follow links here (c # cs) t =
     (if c = [] \<or> c = ''.'' then follow links here cs t
      else if c = ''..'' then follow links (butlast here) cs t
      else case t (here @ [c]) of
             None \<Rightarrow> None
           | Some Folder \<Rightarrow> follow links (here @ [c]) cs t
           | Some (Plain _ _) \<Rightarrow> if cs = [] then Some (here @ [c]) else None
           | Some (Link l) \<Rightarrow>
               if links = 0 then None
               else follow (links - 1) (if path_is_abs l then [] else here) (split_at slash l @ cs) t)"

definition is_file_at :: "nat \<Rightarrow> tree \<Rightarrow> string \<Rightarrow> bool" where
  "is_file_at links t p =
     (case follow links [] (split_at slash p) t of
        None \<Rightarrow> False
      | Some q \<Rightarrow> (case t q of Some (Plain _ _) \<Rightarrow> True | _ \<Rightarrow> False))"

definition drop_tree :: "string list \<Rightarrow> tree \<Rightarrow> tree" where
  "drop_tree p t = (\<lambda>q. if prefix p q then None else t q)"

definition move_tree :: "string list \<Rightarrow> string list \<Rightarrow> tree \<Rightarrow> tree" where
  "move_tree src dst t =
     (\<lambda>q. if prefix dst q then t (src @ drop (length dst) q) else if prefix src q then None else t q)"

text \<open>\<^verbatim>\<open>os.MkdirAll\<close> for a path without links: every folder on the way that is not there.\<close>

definition make_folders :: "string list \<Rightarrow> tree \<Rightarrow> tree option" where
  "make_folders p t =
     (if list_all (\<lambda>q. t q = None \<or> t q = Some Folder) (tl (prefixes p))
      then Some (\<lambda>q. if q \<noteq> [] \<and> prefix q p then Some Folder else t q)
      else None)"

section \<open>Extracting an archive\<close>

datatype entry_kind = Dir_Entry | File_Entry nat | Link_Entry | Other_Entry

record packed_entry =
  en_name :: string
  en_kind :: entry_kind
  en_data :: "string option"
  en_link :: string

text \<open>\<^verbatim>\<open>filepath.IsLocal\<close>.\<close>

definition is_local :: "string \<Rightarrow> bool" where
  "is_local p \<longleftrightarrow> p \<noteq> [] \<and> \<not> path_is_abs p \<and> (case clean_parts p of [] \<Rightarrow> True | c # _ \<Rightarrow> c \<noteq> ''..'')"

definition slashed :: "string \<Rightarrow> string" where
  "slashed s = map (\<lambda>c. if c = char_of (92 :: nat) then slash else c) s"

definition normalize_archive_entry :: "string \<Rightarrow> string" where
  "normalize_archive_entry p = trim_prefix ''./'' (slashed p)"

text \<open>The target of a link entry; a zip keeps it in the contents of the entry.\<close>

definition link_target :: "packed_entry \<Rightarrow> string option" where
  "link_target e = (if en_link e \<noteq> [] then Some (slashed (en_link e)) else map_option (\<lambda>d. slashed (take 4097 d)) (en_data e))"

definition link_unsafe :: "string \<Rightarrow> string \<Rightarrow> bool" where
  "link_unsafe name l \<longleftrightarrow> length l > 4096 \<or> \<not> is_local (path_join [path_dir name, l]) \<or> path_is_abs l"

definition extract_entry :: "nat \<Rightarrow> string list \<Rightarrow> packed_entry \<Rightarrow> tree \<Rightarrow> tree option" where
  "extract_entry links root e t =
     (let name = normalize_archive_entry (en_name e)
      in if name = ''.'' \<or> name = [] then Some t
         else if \<not> is_local name then None
         else if en_kind e = Dir_Entry then root_mkdir_all links root name t
         else case root_mkdir_all links root (path_dir name) t of
                None \<Rightarrow> None
              | Some t1 \<Rightarrow>
                  (case en_kind e of
                     Link_Entry \<Rightarrow>
                       (case link_target e of
                          None \<Rightarrow> None
                        | Some l \<Rightarrow>
                            if link_unsafe name l \<or> l = [] then None
                            else map_option (\<lambda>q. t1(q \<mapsto> Link l)) (root_fresh links root name t1))
                   | File_Entry m \<Rightarrow>
                       (case (root_fresh links root name t1, en_data e) of
                          (Some q, Some d) \<Rightarrow> Some (t1(q \<mapsto> Plain m d))
                        | _ \<Rightarrow> None)
                   | _ \<Rightarrow> None))"

fun extract_entries :: "nat \<Rightarrow> string list \<Rightarrow> packed_entry list \<Rightarrow> tree \<Rightarrow> tree option" where
  "extract_entries links root [] t = Some t"
| "extract_entries links root (e # es) t =
     (case extract_entry links root e t of None \<Rightarrow> None | Some t1 \<Rightarrow> extract_entries links root es t1)"

text \<open>
  A zip and a tar differ in how they are read; a tar refuses an entry of another kind before its name is looked at.
\<close>

definition unpack_archive :: "nat \<Rightarrow> bool \<Rightarrow> string list \<Rightarrow> packed_entry list \<Rightarrow> tree \<Rightarrow> (string list \<times> tree) option" where
  "unpack_archive links zipped root es t =
     (if \<not> zipped \<and> list_ex (\<lambda>e. en_kind e = Other_Entry) es then None
      else map_option
             (\<lambda>t1. (map (\<lambda>e. normalize_archive_entry (en_name e)) (filter (\<lambda>e. en_kind e \<noteq> Dir_Entry) es), t1))
             (extract_entries links root es t))"

section \<open>Installing\<close>

datatype install_error = Step_Failed | Not_Downloaded | Ambiguous_Entry | Entry_Not_Found | Entry_Not_Regular

datatype install_step = Make_Parent | Make_Temp | Write_Temp | Open_Copy | Copy_Binary | Make_Stage | Chmod_Entry | Rename_Stage
  | Load_Record | Save_Record

record acquired =
  aq_version :: string
  aq_path :: string
  aq_url :: string

record install_env =
  ie_links :: nat
  ie_managed :: string
  ie_digest :: "string \<Rightarrow> string"
  ie_url_path :: "string \<Rightarrow> string option"
  ie_fetch :: "string \<Rightarrow> string http_answer"
  ie_read :: "bool \<Rightarrow> string \<Rightarrow> packed_entry list option"
  ie_stage :: string
  ie_fails :: "install_step \<Rightarrow> bool"

record install_state =
  is_tree :: tree
  is_records :: "string \<rightharpoonup> acquired"

definition is_archive :: "string \<Rightarrow> bool" where
  "is_archive name \<longleftrightarrow> (let n = to_lower name in has_suffix n ''.zip'' \<or> has_suffix n ''.tar.gz'' \<or> has_suffix n ''.tgz'')"

definition bundle_dir :: "install_env \<Rightarrow> string \<Rightarrow> string \<Rightarrow> string \<Rightarrow> string" where
  "bundle_dir e parent version archive = path_join [parent, ''bundle-'' @ ie_digest e (version @ [char_of (0 :: nat)] @ archive)]"

text \<open>The loop over the entries: the one of that very name, or the only one with its base name.\<close>

fun pick_launch :: "string \<Rightarrow> string list \<Rightarrow> string \<Rightarrow> bool \<Rightarrow> string \<times> bool" where
  "pick_launch needle [] launch ambiguous = (launch, ambiguous)"
| "pick_launch needle (x # xs) launch ambiguous =
     (if x = needle then (x, False)
      else if path_base x = path_base needle then pick_launch needle xs x (ambiguous \<or> launch \<noteq> [])
      else pick_launch needle xs launch ambiguous)"

definition copy_file :: "install_env \<Rightarrow> string \<Rightarrow> string \<Rightarrow> tree \<Rightarrow> (install_error + string) \<times> tree" where
  "copy_file e data targ t =
     (let p = clean_parts targ; tmp = clean_parts (targ @ ''.download'')
      in if ie_fails e Open_Copy \<or> t tmp = Some Folder then (Inl Step_Failed, t)
         else if ie_fails e Copy_Binary \<or> t p = Some Folder then (Inl Step_Failed, t(tmp := None))
         else (Inr targ, t(tmp := None, p \<mapsto> Plain 493 data)))"

definition executable_mode :: "nat \<Rightarrow> nat" where
  "executable_mode m = or m 73"

text \<open>From the staged archive to the bundle: the entry to launch is made executable, then one rename.\<close>

definition publish_bundle :: "install_env \<Rightarrow> string \<Rightarrow> string \<Rightarrow> string \<Rightarrow> string list \<Rightarrow> string list \<Rightarrow> tree \<Rightarrow> (install_error + string) \<times> tree" where
  "publish_bundle e parent final wanted stage names t =
     (let (launch, ambiguous) = pick_launch (normalize_archive_entry wanted) names [] False
      in if ambiguous then (Inl Ambiguous_Entry, t)
         else if launch = [] then (Inl Entry_Not_Found, t)
         else
           (case follow (ie_links e) [] (stage @ split_at slash launch) t of
              None \<Rightarrow> (Inl Entry_Not_Regular, t)
            | Some q \<Rightarrow>
                (case t q of
                   Some (Plain m d) \<Rightarrow>
                     if ie_fails e Chmod_Entry then (Inl Step_Failed, t)
                     else
                       let t1 = t(q \<mapsto> Plain (executable_mode m) d);
                           dst = clean_parts final; path = path_join [final, launch]
                       in if \<not> ie_fails e Rename_Stage \<and> t1 dst = None
                          then (Inr path, move_tree stage dst t1)
                          else if is_file_at (ie_links e) t1 path then (Inr path, t1)
                          else (Inl Step_Failed, t1)
                 | _ \<Rightarrow> (Inl Entry_Not_Regular, t))))"

definition install_archive :: "install_env \<Rightarrow> string \<Rightarrow> string \<Rightarrow> string \<Rightarrow> string \<Rightarrow> string \<Rightarrow> tree \<Rightarrow> (install_error + string) \<times> tree" where
  "install_archive e data archive parent wanted version t =
     (let stage = clean_parts parent @ [''.archive-'' @ ie_stage e]; zipped = has_suffix (to_lower archive) ''.zip''
      in if ie_fails e Make_Stage \<or> t stage \<noteq> None then (Inl Step_Failed, t)
         else
           (case ie_read e zipped data of
              None \<Rightarrow> (Inl Step_Failed, t)
            | Some es \<Rightarrow>
                (case unpack_archive (ie_links e) zipped stage es (t(stage \<mapsto> Folder)) of
                   None \<Rightarrow> (Inl Step_Failed, t)
                 | Some (names, t1) \<Rightarrow>
                     (case publish_bundle e parent (bundle_dir e parent version archive) wanted stage names t1 of
                        (res, t2) \<Rightarrow> (res, drop_tree stage t2)))))"

definition install_artifact :: "install_env \<Rightarrow> string \<Rightarrow> string \<Rightarrow> string \<Rightarrow> string \<Rightarrow> string \<Rightarrow> tree \<Rightarrow> (install_error + string) \<times> tree" where
  "install_artifact e data archive targ wanted version t =
     (if is_archive archive then install_archive e data archive (path_dir targ) wanted version t
      else copy_file e data targ t)"

section \<open>Ensuring that an agent is installed\<close>

definition target_path :: "install_env \<Rightarrow> catalog_agent \<Rightarrow> string" where
  "target_path e a = path_join [ie_managed e, ca_id a, path_base (slashed (ri_binary_path (ca_registry a)))]"

definition archive_name :: "install_env \<Rightarrow> catalog_agent \<Rightarrow> string" where
  "archive_name e a = (case ie_url_path e (ri_binary_url (ca_registry a)) of None \<Rightarrow> ri_binary_url (ca_registry a) | Some p \<Rightarrow> p)"

definition use_binary :: "catalog_agent \<Rightarrow> string \<Rightarrow> catalog_agent" where
  "use_binary a p =
     a\<lparr>ca_launch := (ca_launch a)\<lparr>la_command := p\<rparr>, ca_detection := \<lparr>dt_mode = ''local_file'', dt_command = [], dt_path = p\<rparr>,
       ca_detected := True\<rparr>"

definition acquired_binary :: "install_env \<Rightarrow> string \<Rightarrow> install_state \<Rightarrow> acquired option" where
  "acquired_binary e i s = (if ie_fails e Load_Record then None else is_records s i)"

definition save_acquired_binary :: "install_env \<Rightarrow> string \<Rightarrow> acquired \<Rightarrow> install_state \<Rightarrow> install_state" where
  "save_acquired_binary e i r s = (if ie_fails e Save_Record then s else s\<lparr>is_records := (is_records s)(i \<mapsto> r)\<rparr>)"

text \<open>What is installed, and whether it is the version asked for.\<close>

definition cached_binary :: "install_env \<Rightarrow> catalog_agent \<Rightarrow> install_state \<Rightarrow> string \<times> bool" where
  "cached_binary e a s =
     (let targ = target_path e a; name = archive_name e a; archive = is_archive name; version = ri_version (ca_registry a);
          bundle = bundle_dir e (path_dir targ) version name;
          entry = normalize_archive_entry (ri_binary_path (ca_registry a));
          file = (\<lambda>p. is_file_at (ie_links e) (is_tree s) p);
          recorded = (case acquired_binary e (ca_id a) s of None \<Rightarrow> None | Some r \<Rightarrow> if file (aq_path r) then Some r else None)
      in case recorded of
           Some r \<Rightarrow> (aq_path r, aq_version r = version \<and> (archive \<longrightarrow> has_prefix (aq_path r) (bundle @ ''/'')))
         | None \<Rightarrow>
             if archive \<and> is_local entry \<and> file (path_join [bundle, entry]) then (path_join [bundle, entry], True)
             else if \<not> archive \<and> file targ then (targ, True)
             else ([], False))"

definition download :: "install_env \<Rightarrow> catalog_agent \<Rightarrow> tree \<Rightarrow> (install_error + string) \<times> tree" where
  "download e a t =
     (let targ = target_path e a; r = ca_registry a
      in case (if ie_fails e Make_Parent then None else make_folders (clean_parts (path_dir targ)) t) of
           None \<Rightarrow> (Inl Step_Failed, t)
         | Some t1 \<Rightarrow>
             if ie_fails e Make_Temp then (Inl Step_Failed, t1)
             else
               (case ie_fetch e (ri_binary_url r) of
                  Replied status (Some body) \<Rightarrow>
                    if status \<noteq> 200 then (Inl Not_Downloaded, t1)
                    else if ie_fails e Write_Temp then (Inl Step_Failed, t1)
                    else install_artifact e body (archive_name e a) targ (ri_binary_path r) (ri_version r) t1
                | _ \<Rightarrow> (Inl Not_Downloaded, t1)))"

definition ensure_binary ::
  "install_env \<Rightarrow> catalog_agent \<Rightarrow> install_state \<Rightarrow> (catalog_agent \<times> bool \<times> install_error option) \<times> install_state" where
  "ensure_binary e a s =
     (let r = ca_registry a
      in if la_mode (ca_launch a) \<noteq> ''external'' \<or> trim_space (ri_binary_url r) = [] \<or> trim_space (ri_binary_path r) = []
         then ((a, False, None), s)
         else
           let (installed, cached) = cached_binary e a s
           in if cached then ((use_binary a installed, False, None), s)
              else
                (case download e a (is_tree s) of
                   (Inl err, t) \<Rightarrow>
                     ((if installed = [] then (a, False, Some err) else (use_binary a installed, False, None)), s\<lparr>is_tree := t\<rparr>)
                 | (Inr p, t) \<Rightarrow>
                     ((use_binary a p, True, None),
                      save_acquired_binary e (ca_id a)
                        \<lparr>aq_version = ri_version r, aq_path = p, aq_url = ri_binary_url r\<rparr> (s\<lparr>is_tree := t\<rparr>))))"

end
