(* ===== verification/Agent_Install_Proofs.thy ===== *)
theory Agent_Install_Proofs
  imports Agent_Install Git_Output_Proofs
begin

text \<open>
  What the installer promises: it writes nothing outside the agent's own folder, whatever an archive holds,
  and a failed update leaves the installed version in use. And what it does not: a link in an archive can lead out of it.
\<close>

section \<open>Where the operations write\<close>

lemma walk_outside: "walk links mk root here cs t = Some (at, t') \<Longrightarrow> \<not> prefix root q \<Longrightarrow> t' q = t q"
  by (induction links mk root here cs t rule: walk.induct)
    (auto split: if_splits option.splits node.splits)

lemma mkdir_outside: "root_mkdir_all links root name t = Some t' \<Longrightarrow> \<not> prefix root q \<Longrightarrow> t' q = t q"
  by (auto simp: root_mkdir_all_def Let_def walk_outside split: if_splits option.splits node.splits)

lemma root_fresh_inside: "root_fresh links root name t = Some q \<Longrightarrow> prefix root q \<and> t q = None"
  by (auto simp: root_fresh_def Let_def split: if_splits option.splits)

lemma extract_outside: "extract_entry links root e t = Some t' \<Longrightarrow> \<not> prefix root q \<Longrightarrow> t' q = t q"
  by (auto simp: extract_entry_def Let_def dest: mkdir_outside root_fresh_inside
      split: if_splits option.splits entry_kind.splits)

lemma entries_outside: "extract_entries links root es t = Some t' \<Longrightarrow> \<not> prefix root q \<Longrightarrow> t' q = t q"
  by (induction es arbitrary: t) (auto dest: extract_outside split: option.splits)

text \<open>Contents and kind of a node, its permissions aside: making the launched entry executable follows links.\<close>

definition shape :: "node option \<Rightarrow> node option" where
  "shape n = (case n of Some (Plain _ d) \<Rightarrow> Some (Plain 0 d) | _ \<Rightarrow> n)"

lemma shape_simps [simp]:
  "shape None = None" "shape (Some Folder) = Some Folder" "shape (Some (Link l)) = Some (Link l)"
  "shape (Some (Plain m d)) = Some (Plain 0 d)"
  by (simp_all add: shape_def)

lemma shape_iff [simp]:
  "shape n = None \<longleftrightarrow> n = None" "shape n = Some Folder \<longleftrightarrow> n = Some Folder" "shape n = Some (Link l) \<longleftrightarrow> n = Some (Link l)"
  by (auto simp: shape_def split: option.splits node.splits)

lemma shape_plain: "shape n = Some (Plain 0 d) \<longleftrightarrow> (\<exists>m. n = Some (Plain m d))"
  by (auto simp: shape_def split: option.splits node.splits)




lemma tl_prefixes: "q \<in> set (tl (prefixes p)) \<longleftrightarrow> q \<noteq> [] \<and> prefix q p"
  by (cases p) (auto simp: prefix_Cons)

lemma make_folders_node:
  assumes "make_folders p t = Some t1"
  shows "t1 q = t q \<or> t q = None \<and> t1 q = Some Folder \<and> prefix q p"
  using assms tl_prefixes [of q p] by (auto simp: make_folders_def list_all_iff split: if_splits)

definition kept_node :: "install_env \<Rightarrow> catalog_agent \<Rightarrow> tree \<Rightarrow> tree \<Rightarrow> string list \<Rightarrow> bool" where
  "kept_node e a t t' q \<longleftrightarrow>
     shape (t' q) = shape (t q) \<or> t q = None \<and> t' q = Some Folder \<and> prefix q (clean_parts (path_dir (target_path e a)))"

lemma kept_node_refl [simp]: "kept_node e a t t q"
  by (simp add: kept_node_def)



section \<open>Where those places are\<close>










section \<open>A failed update\<close>

lemma follow_mono:
  assumes "follow links here cs t = Some p" "\<And>q. t q \<noteq> None \<Longrightarrow> shape (t' q) = shape (t q)"
  shows "follow links here cs t' = Some p"
  using assms
proof (induction links here cs t rule: follow.induct)
  case (2 links here c cs t)
  consider "t (here @ [c]) = None" | "t (here @ [c]) = Some Folder" | m d where "t (here @ [c]) = Some (Plain m d)"
    | l where "t (here @ [c]) = Some (Link l)"
    by (metis node.exhaust not_None_eq)
  then show ?case
  proof cases
    case 3
    then obtain m' where "t' (here @ [c]) = Some (Plain m' d)" using "2.prems"(2) [of "here @ [c]"] by (auto simp: shape_plain)
    then show ?thesis using "2.prems" "2.IH"(1,2) 3 by (auto split: if_splits)
  next
    case 4
    then have "t' (here @ [c]) = Some (Link l)" using "2.prems"(2) [of "here @ [c]"] by simp
    then show ?thesis using "2.prems" "2.IH"(1,2,4) 4 by (auto split: if_splits)
  next
    case 2
    then have "t' (here @ [c]) = Some Folder" using "2.prems"(2) [of "here @ [c]"] by simp
    then show ?thesis using "2.prems" "2.IH"(1-3) 2 by (auto split: if_splits)
  qed (use "2.prems" "2.IH"(1,2) in \<open>auto split: if_splits\<close>)
qed simp

text \<open>Whatever is on the disk lies in a folder.\<close>

definition tree_ok :: "tree \<Rightarrow> bool" where
  "tree_ok t \<longleftrightarrow>
     (\<forall>m d. t [] \<noteq> Some (Plain m d)) \<and> (\<forall>q c. q \<noteq> [] \<and> t (q @ [c]) \<noteq> None \<longrightarrow> t q = Some Folder)"

lemma tree_ok_below:
  assumes "tree_ok t" "t p = None" "p \<noteq> []" "prefix p q"
  shows "t q = None"
proof -
  obtain cs where q: "q = p @ cs" using assms(4) by (auto simp: prefix_def)
  have "t (p @ cs) = None"
  proof (induction cs rule: rev_induct)
    case (snoc c cs)
    show ?case
    proof (rule ccontr)
      assume "t (p @ cs @ [c]) \<noteq> None"
      then have "t (p @ cs) = Some Folder" using assms(1,3) unfolding tree_ok_def by (metis append_assoc append_is_Nil_conv)
      then show False using snoc by simp
    qed
  qed (simp add: assms(2))
  then show ?thesis using q by simp
qed

lemma make_folders_ok:
  assumes "tree_ok t" "make_folders p t = Some t1"
  shows "tree_ok t1"
proof -
  have t1: "t1 = (\<lambda>q. if q \<noteq> [] \<and> prefix q p then Some Folder else t q)"
    using assms(2) by (auto simp: make_folders_def split: if_splits)
  have "t1 q = Some Folder" if q: "q \<noteq> []" "t1 (q @ [c]) \<noteq> None" for q c
  proof (cases "prefix (q @ [c]) p")
    case True
    then have "prefix q p" by (auto simp: prefix_def)
    then show ?thesis using q t1 by simp
  next
    case False
    then have "t (q @ [c]) \<noteq> None" using q(2) t1 by simp
    then have "t q = Some Folder" using q(1) assms(1) unfolding tree_ok_def by blast
    then show ?thesis using t1 by simp
  qed
  moreover have "\<forall>m d. t1 [] \<noteq> Some (Plain m d)" using assms(1) t1 by (simp add: tree_ok_def)
  ultimately show ?thesis unfolding tree_ok_def by blast
qed

lemma publish_fails:
  "publish_bundle e parent final wanted stage names t = (Inl err, t') \<Longrightarrow> shape (t' q) = shape (t q)"
  by (auto simp: publish_bundle_def Let_def split: prod.splits option.splits node.splits if_splits)

lemma install_archive_fails:
  assumes "install_archive e data archive parent wanted version t = (Inl err, t')" "tree_ok t"
  shows "shape (t' q) = shape (t q)"
proof -
  let ?stage = "clean_parts parent @ [''.archive-'' @ ie_stage e]"
  show ?thesis
  proof (cases "prefix ?stage q")
    case True
    have "t ?stage \<noteq> None \<Longrightarrow> t' = t" using assms(1) by (simp add: install_archive_def)
    moreover have "t ?stage = None \<Longrightarrow> t q = None" using tree_ok_below [OF assms(2) _ _ True] by simp
    moreover have "t' = t \<or> t' q = None"
      using assms(1) True by (auto simp: install_archive_def drop_tree_def Let_def split: if_splits option.splits prod.splits)
    ultimately show ?thesis by fastforce
  next
    case False
    then show ?thesis using assms(1) publish_fails
      by (fastforce simp: install_archive_def unpack_archive_def drop_tree_def Let_def entries_outside
          split: if_splits option.splits prod.splits)
  qed
qed

lemma download_fails:
  assumes "download e a t = (Inl err, t')" "tree_ok t" "t (clean_parts (target_path e a @ ''.download'')) = None" "t q \<noteq> None"
  shows "shape (t' q) = shape (t q)"
proof (cases "ie_fails e Make_Parent \<or> make_folders (clean_parts (path_dir (target_path e a))) t = None")
  case True
  then show ?thesis using assms(1) by (auto simp: download_def Let_def split: if_splits)
next
  case False
  then obtain t1 where t1: "make_folders (clean_parts (path_dir (target_path e a))) t = Some t1" by auto
  then have "t1 q = t q" using make_folders_node [OF t1, of q] assms(4) by auto
  moreover have "shape (t' q) = shape (t1 q)"
    if "install_artifact e data (archive_name e a) (target_path e a) (ri_binary_path (ca_registry a)) (ri_version (ca_registry a)) t1 = (Inl err, t')" for data
    using that install_archive_fails [OF _ make_folders_ok [OF assms(2) t1]] calculation assms(3,4)
    by (fastforce simp: install_artifact_def copy_file_def Let_def split: if_splits)
  ultimately show ?thesis using assms(1) False t1
    by (auto simp: download_def Let_def split: if_splits option.splits http_answer.splits)
qed

text \<open>What a program that opens a path reads.\<close>

definition contents_at :: "nat \<Rightarrow> tree \<Rightarrow> string \<Rightarrow> string option" where
  "contents_at links t p =
     (case follow links [] (split_at slash p) t of
        None \<Rightarrow> None
      | Some q \<Rightarrow> (case t q of Some (Plain _ d) \<Rightarrow> Some d | _ \<Rightarrow> None))"

lemma is_file_contents: "is_file_at links t p \<longleftrightarrow> contents_at links t p \<noteq> None"
  by (auto simp: is_file_at_def contents_at_def split: option.splits node.splits)

text \<open>
  C20: A failed update leaves the installed version in use, unharmed (\<^verbatim>\<open>Ensure\<close> in \<^verbatim>\<open>internal/acquire/installer.go\<close>). Let
  the recorded binary of an agent with a binary in the registry be there, the record be readable, everything on the
  disk lie in folders, and no \<^verbatim>\<open>.download\<close> file be left from before. Then ensuring that the agent is installed never ends
  with an error: either a new version was installed, or the agent is launched from the recorded path, where a program
  reads exactly the contents it read before, and the record is as it was. A download, an unpacking or a copy that broke
  off anywhere has not touched it.
\<close>

theorem failed_update_keeps_installed:
  assumes "ensure_binary e a s = ((a', fresh, err), s')"
    and "acquired_binary e (ca_id a) s = Some r" "contents_at (ie_links e) (is_tree s) (aq_path r) = Some d"
    and "la_mode (ca_launch a) = ''external''" "trim_space (ri_binary_url (ca_registry a)) \<noteq> []"
      "trim_space (ri_binary_path (ca_registry a)) \<noteq> []"
    and "tree_ok (is_tree s)" "is_tree s (clean_parts (target_path e a @ ''.download'')) = None"
  shows "err = None \<and>
    (fresh \<or> a' = use_binary a (aq_path r) \<and> contents_at (ie_links e) (is_tree s') (aq_path r) = Some d \<and> is_records s' = is_records s)"
proof -
  have is_file: "is_file_at (ie_links e) (is_tree s) (aq_path r)" using assms(3) by (simp add: is_file_contents)
  have path: "aq_path r \<noteq> []"
    using is_file assms(7) by (auto simp: is_file_at_def tree_ok_def split: option.splits node.splits)
  obtain c where c: "cached_binary e a s = (aq_path r, c)"
    using assms(2) is_file by (simp add: cached_binary_def Let_def)
  have stays: "contents_at (ie_links e) t' (aq_path r) = Some d" if "download e a (is_tree s) = (Inl x, t')" for x t'
  proof -
    obtain q m where q: "follow (ie_links e) [] (split_at slash (aq_path r)) (is_tree s) = Some q" "is_tree s q = Some (Plain m d)"
      using assms(3) by (auto simp: contents_at_def split: option.splits node.splits)
    note keeps = download_fails [OF that assms(7,8)]
    have "\<exists>m'. t' q = Some (Plain m' d)" using keeps [of q] q(2) by (simp add: shape_plain)
    then show ?thesis using follow_mono [OF q(1) keeps] by (auto simp: contents_at_def)
  qed
  show ?thesis using assms(1,3-6) c path stays
    by (auto simp: ensure_binary_def Let_def split: if_splits prod.splits sum.splits)
qed

section \<open>Examples\<close>

text \<open>An agent published as a tar archive, on a machine with one other file, asked for with and without an answer of the network.\<close>

definition some_tool :: catalog_agent where
  "some_tool = (custom_to_agent \<lparr>cu_id = ''x'', cu_name = ''x'', cu_command = ''x'', cu_args = [], cu_hint = []\<rparr>)
     \<lparr>ca_registry := blank_info\<lparr>ri_version := ''2'', ri_binary_path := ''p/q/q/q/r'', ri_binary_url := ''https://h/x.tgz''\<rparr>\<rparr>"

definition some_install_env :: "packed_entry list \<Rightarrow> string http_answer \<Rightarrow> install_env" where
  "some_install_env es answer =
     \<lparr>ie_links = 8, ie_managed = ''/m'', ie_digest = (\<lambda>s. ''d''), ie_url_path = (\<lambda>u. Some ''/x.tgz''), ie_fetch = (\<lambda>u. answer),
      ie_read = (\<lambda>zipped b. Some es), ie_stage = ''1'', ie_fails = (\<lambda>x. False)\<rparr>"

definition some_disk :: tree where
  "some_disk = [[''m''] \<mapsto> Folder, [''m'', ''x''] \<mapsto> Folder, [''m'', ''x'', ''old''] \<mapsto> Plain 493 ''old'', [''victim''] \<mapsto> Plain 420 ''notes'']"

definition some_installed :: install_state where
  "some_installed = \<lparr>is_tree = some_disk, is_records = [''x'' \<mapsto> \<lparr>aq_version = ''1'', aq_path = ''/m/x/old'', aq_url = ''https://h/x.tgz''\<rparr>]\<rparr>"

text \<open>
  A link in an archive can lead out of the bundle: the check joins the target to the name of the entry as it is
  written, and a folder of that name can itself be a link. Here \<^verbatim>\<open>p/q\<close> leads to \<^verbatim>\<open>p\<close>, so that four steps up from
  \<^verbatim>\<open>p/q/q/q/r\<close> are not in the bundle any more. The file the link names is made executable and is what the agent is
  launched from.
\<close>

definition escaping_entries :: "packed_entry list" where
  "escaping_entries =
     [\<lparr>en_name = ''p/q'', en_kind = Link_Entry, en_data = None, en_link = ''.''\<rparr>,
      \<lparr>en_name = ''p/q/q/q/r'', en_kind = Link_Entry, en_data = None, en_link = ''../../../../victim''\<rparr>]"

theorem archive_link_escapes:
  "(case ensure_binary (some_install_env escaping_entries (Replied 200 (Some ''tar''))) some_tool some_installed of
      ((a', fresh, err), s') \<Rightarrow>
        fresh \<and> err = None \<and> is_tree s' [''victim''] = Some (Plain 493 ''notes'') \<and>
        follow 40 [] (split_at slash (la_command (ca_launch a'))) (is_tree s') = Some [''victim''])"
  by code_simp


theorem failed_update_keeps_installed_witness:
  "(case ensure_binary (some_install_env [] Unreachable) some_tool some_installed of
      ((a', fresh, err), s') \<Rightarrow> err = None \<and> \<not> fresh \<and> a' = use_binary some_tool ''/m/x/old'' \<and> contents_at 8 (is_tree s') ''/m/x/old'' = Some ''old'')"
proof -
  let ?e = "some_install_env [] Unreachable" and ?r = "\<lparr>aq_version = ''1'', aq_path = ''/m/x/old'', aq_url = ''https://h/x.tgz''\<rparr>"
  obtain a' fresh err s' where run: "ensure_binary ?e some_tool some_installed = ((a', fresh, err), s')"
    by (metis prod.exhaust)
  have "\<not> fst (snd (fst (ensure_binary ?e some_tool some_installed)))" by code_simp
  then have "\<not> fresh" using run by simp
  have ok: "tree_ok (is_tree some_installed)"
    by (auto simp: tree_ok_def some_installed_def some_disk_def)
  have "err = None \<and> (fresh \<or> a' = use_binary some_tool (aq_path ?r) \<and>
      contents_at (ie_links ?e) (is_tree s') (aq_path ?r) = Some ''old'' \<and> is_records s' = is_records some_installed)"
    by (rule failed_update_keeps_installed [OF run _ _ _ _ _ ok]) code_simp+
  then show ?thesis using run \<open>\<not> fresh\<close> by (simp add: some_install_env_def)
qed

end
