(* ===== verification/Npm_Agents.thy ===== *)
theory Npm_Agents
  imports Agent_Install
begin

text \<open>
  Agents published as npm packages (\<^verbatim>\<open>internal/acquire/npm.go\<close>): how a launch through \<^verbatim>\<open>npm exec\<close> becomes a launch of the
  script itself, the installation in the background that makes this possible, and the removal of old versions. An
  install folder is what \<^verbatim>\<open>npm install\<close> left there; what it leaves, the executables found on the path and the times
  files get are parameters. A bin is given by its path, its first bytes are what the first 512 of the file are.
\<close>

section \<open>Names\<close>

text \<open>\<^verbatim>\<open>strings.LastIndex\<close> for one character.\<close>

definition last_cut :: "char \<Rightarrow> string \<Rightarrow> (string \<times> string) option" where
  "last_cut c s =
     (if c \<notin> set s then None
      else let after = rev (takeWhile (\<lambda>x. x \<noteq> c) (rev s)) in Some (take (length s - length after - 1) s, after))"

definition split_pinned_npm_spec :: "string \<Rightarrow> (string \<times> string) option" where
  "split_pinned_npm_spec spec =
     (case last_cut (CHR ''@'') spec of
        None \<Rightarrow> None
      | Some (name, version) \<Rightarrow>
          if name = [] \<or> version = [] \<or> \<not> is_digit (hd version) \<or> contains_any version ''^~<>=*| xX'' then None
          else Some (name, version))"

definition npm_dir_name :: "string \<Rightarrow> string \<Rightarrow> string" where
  "npm_dir_name name version = replace_all ''/'' ''+'' name @ ''@'' @ version"

section \<open>Installed packages\<close>

text \<open>The \<^verbatim>\<open>bin\<close> field of a manifest: one path, a table of them, or something else.\<close>

datatype bin_field = One_Bin string | Bins "(string \<times> string) list" | Other_Bin

datatype script_head = Cannot_Read | Not_Regular | Starts string

record npm_folder =
  nf_done :: "gtime option"
  nf_manifest :: "bin_field option"
  nf_scripts :: "string \<rightharpoonup> script_head"

record npm_state =
  ns_runtime :: string
  ns_installing :: "string list"
  ns_folders :: "string \<rightharpoonup> npm_folder"

record npm_env =
  ne_managed :: string
  ne_look_path :: "string \<Rightarrow> string option"

definition set_js_runtime :: "string \<Rightarrow> npm_state \<Rightarrow> npm_state" where
  "set_js_runtime mode s = s\<lparr>ns_runtime := mode\<rparr>"

definition look_js_runtime :: "npm_env \<Rightarrow> string \<Rightarrow> string" where
  "look_js_runtime e mode =
     (if mode = ''npm'' then []
      else let names = (if mode = ''bun'' \<or> mode = ''node'' then [mode] else [''bun'', ''node''])
           in case List.map_filter (ne_look_path e) names of [] \<Rightarrow> [] | p # _ \<Rightarrow> p)"

definition bin_path :: "string \<Rightarrow> string \<Rightarrow> string \<Rightarrow> string" where
  "bin_path dir name rel = path_join [path_join [dir, ''node_modules'', name], rel]"

definition bin_script_in :: "string \<Rightarrow> string \<Rightarrow> npm_folder \<Rightarrow> string option" where
  "bin_script_in dir name f =
     (case nf_manifest f of
        None \<Rightarrow> None
      | Some b \<Rightarrow>
          (case (case b of
                   One_Bin rel \<Rightarrow> Some rel
                 | Bins [(k, rel)] \<Rightarrow> Some rel
                 | Bins rows \<Rightarrow> Some (case map_of rows (path_base name) of None \<Rightarrow> [] | Some rel \<Rightarrow> rel)
                 | Other_Bin \<Rightarrow> None) of
             None \<Rightarrow> None
           | Some rel \<Rightarrow>
               if rel = [] \<or> nf_scripts f (bin_path dir name rel) = None then None else Some (bin_path dir name rel)))"

definition npm_bin_script :: "string \<Rightarrow> string \<Rightarrow> npm_state \<Rightarrow> string option" where
  "npm_bin_script dir name s =
     (case ns_folders s dir of
        None \<Rightarrow> None
      | Some f \<Rightarrow> if nf_done f = None then None else bin_script_in dir name f)"

text \<open>The interpreter a script names on its first line, behind \<^verbatim>\<open>env\<close> and its options.\<close>

definition interpreter :: "string \<Rightarrow> string" where
  "interpreter line =
     (let fs = str_fields line;
          gs = (case fs of [] \<Rightarrow> [] | f # rest \<Rightarrow> if path_base f = ''env'' then dropWhile (\<lambda>g. has_prefix g ''-'') rest else fs)
      in case gs of [] \<Rightarrow> [] | g # _ \<Rightarrow> path_base g)"

definition npm_bin_is_javascript :: "script_head \<Rightarrow> bool option" where
  "npm_bin_is_javascript h =
     (case h of
        Starts buf \<Rightarrow>
          Some (if char_of (0 :: nat) \<in> set buf then False
                else if \<not> has_prefix buf ''#!'' then True
                else interpreter (drop 2 (takeWhile (\<lambda>c. c \<noteq> CHR 0x0A) buf)) \<in> {''node'', ''nodejs'', ''bun''})
      | _ \<Rightarrow> None)"

section \<open>Launching\<close>

text \<open>The package of an \<^verbatim>\<open>npm exec\<close> launch that can be installed, and the arguments meant for the agent.\<close>

definition npm_launch :: "catalog_agent \<Rightarrow> (string \<times> string \<times> string list) option" where
  "npm_launch a =
     (let spec = ri_npx (ca_registry a); args = la_args (ca_launch a); before = takeWhile (\<lambda>x. x \<noteq> ''--'') args
      in if la_mode (ca_launch a) \<noteq> ''external'' \<or> la_command (ca_launch a) \<noteq> ''npm'' \<or> spec = [] \<or> length args < 3 \<or>
            hd args \<noteq> ''exec'' \<or> ''--'' \<notin> set args \<or> spec \<notin> set before then None
         else map_option (\<lambda>(name, version). (name, version, drop (Suc (length before)) args)) (split_pinned_npm_spec spec))"

definition launch_with :: "catalog_agent \<Rightarrow> string \<Rightarrow> string list \<Rightarrow> catalog_agent" where
  "launch_with a command args = a\<lparr>ca_launch := (ca_launch a)\<lparr>la_command := command, la_args := args\<rparr>\<rparr>"

definition npm_dir :: "npm_env \<Rightarrow> string \<Rightarrow> string \<Rightarrow> string" where
  "npm_dir e name version = path_join [ne_managed e, ''npm'', npm_dir_name name version]"

text \<open>The answer, and the folder an installation was started for.\<close>

definition install_begin :: "string \<Rightarrow> npm_state \<Rightarrow> string option \<times> npm_state" where
  "install_begin dir s =
     (if dir \<in> set (ns_installing s) then (None, s) else (Some dir, s\<lparr>ns_installing := dir # ns_installing s\<rparr>))"

definition ensure_npm :: "npm_env \<Rightarrow> catalog_agent \<Rightarrow> npm_state \<Rightarrow> (catalog_agent \<times> string option) \<times> npm_state" where
  "ensure_npm e a s =
     (case npm_launch a of
        None \<Rightarrow> ((a, None), s)
      | Some (name, version, args) \<Rightarrow>
          if ns_runtime s = ''npm'' then ((a, None), s)
          else
            let runtime = look_js_runtime e (ns_runtime s); dir = npm_dir e name version
            in case npm_bin_script dir name s of
                 None \<Rightarrow>
                   if runtime \<noteq> [] then (case install_begin dir s of (started, s1) \<Rightarrow> ((a, started), s1)) else ((a, None), s)
               | Some script \<Rightarrow>
                   (case npm_bin_is_javascript (case ns_folders s dir of None \<Rightarrow> Cannot_Read | Some f \<Rightarrow>
                           (case nf_scripts f script of None \<Rightarrow> Cannot_Read | Some h \<Rightarrow> h)) of
                      None \<Rightarrow> ((a, None), s)
                    | Some False \<Rightarrow> ((launch_with a script args, None), s)
                    | Some True \<Rightarrow>
                        if runtime = [] then ((a, None), s)
                        else ((launch_with a runtime (script # args), None), s)))"

section \<open>Installing in the background\<close>

text \<open>
  What happens to the folder: an earlier attempt is removed, \<^verbatim>\<open>npm install\<close> fills it, and only when the bin is there
  the marker is written. Where it stops before, the folder stays without a marker.
\<close>

datatype npm_outcome = Not_Cleared | Not_Made | Installed npm_folder bool "gtime option"

definition install_npm_package :: "string \<Rightarrow> string \<Rightarrow> npm_outcome \<Rightarrow> npm_state \<Rightarrow> npm_state" where
  "install_npm_package dir name out s =
     (case out of
        Not_Cleared \<Rightarrow> s
      | Not_Made \<Rightarrow> s\<lparr>ns_folders := (ns_folders s)(dir := None)\<rparr>
      | Installed f exited_well marker \<Rightarrow>
          s\<lparr>ns_folders := (ns_folders s)(dir \<mapsto>
              f\<lparr>nf_done := (if exited_well \<and> bin_script_in dir name f \<noteq> None then marker else None)\<rparr>)\<rparr>)"

definition install_ends :: "string \<Rightarrow> string \<Rightarrow> npm_outcome \<Rightarrow> npm_state \<Rightarrow> npm_state" where
  "install_ends dir name out s =
     (let s1 = install_npm_package dir name out s in s1\<lparr>ns_installing := filter (\<lambda>d. d \<noteq> dir) (ns_installing s1)\<rparr>)"

section \<open>Removing old versions\<close>

text \<open>The loop over the folders in their order: the newest complete one of each package so far, and what is to go.\<close>

definition prune_entry ::
  "npm_state \<Rightarrow> string \<Rightarrow> string \<Rightarrow> (string \<rightharpoonup> string \<times> gtime) \<times> string list \<Rightarrow> (string \<rightharpoonup> string \<times> gtime) \<times> string list" where
  "prune_entry s root entry acc =
     (case last_cut (CHR ''@'') entry of
        None \<Rightarrow> acc
      | Some (pkg, _) \<Rightarrow>
          let dir = path_join [root, entry]; (newest, stale) = acc
          in if pkg = [] then acc
             else case (case ns_folders s dir of None \<Rightarrow> None | Some f \<Rightarrow> nf_done f) of
                    None \<Rightarrow> (newest, stale @ [dir])
                  | Some t \<Rightarrow>
                      (case newest pkg of
                         None \<Rightarrow> (newest(pkg \<mapsto> (dir, t)), stale)
                       | Some (prev, t0) \<Rightarrow>
                           if t > t0 then (newest(pkg \<mapsto> (dir, t)), stale @ [prev]) else (newest, stale @ [dir])))"

definition prune_npm :: "npm_env \<Rightarrow> string list \<Rightarrow> (string \<Rightarrow> bool) \<Rightarrow> npm_state \<Rightarrow> npm_state" where
  "prune_npm e entries removable s =
     (let root = path_join [ne_managed e, ''npm'']; stale = snd (fold (prune_entry s root) entries (Map.empty, []))
      in s\<lparr>ns_folders := (\<lambda>d. if d \<in> set stale \<and> removable d then None else ns_folders s d)\<rparr>)"

end
