(* ===== verification/Npm_Agents_Proofs.thy ===== *)
theory Npm_Agents_Proofs
  imports Npm_Agents
begin

text \<open>
  What the management of npm agents promises: a launch is rewritten only to the script of a complete installation and
  keeps its arguments, one installation at a time runs for a folder, and pruning keeps the newest installation of
  every package. And where it goes wrong: the version of a package names the folder as it is.
\<close>

section \<open>Launching\<close>

lemma last_cut_some: "last_cut c s = Some (a, b) \<Longrightarrow> s = a @ c # b \<and> c \<notin> set b"
proof -
  assume "last_cut c s = Some (a, b)"
  then have c: "c \<in> set s" and b: "b = rev (takeWhile (\<lambda>x. x \<noteq> c) (rev s))" and a: "a = take (length s - length b - 1) s"
    by (auto simp: last_cut_def Let_def split: if_splits)
  obtain u v where uv: "rev s = u @ c # v" "c \<notin> set u" using c by (metis set_rev split_list_first)
  then have "takeWhile (\<lambda>x. x \<noteq> c) (rev s) = u" using uv(1) by (subst uv(1), subst takeWhile_append2) auto
  moreover have "s = rev v @ c # rev u" using arg_cong [OF uv(1), of rev] by simp
  ultimately show ?thesis using a b uv(2) by simp
qed

lemma npm_launch_spec:
  assumes "npm_launch a = Some (name, version, args)"
  shows "\<exists>before. la_args (ca_launch a) = before @ ''--'' # args \<and> ri_npx (ca_registry a) \<in> set before \<and>
    ri_npx (ca_registry a) = name @ ''@'' @ version"
proof -
  let ?args = "la_args (ca_launch a)" and ?before = "takeWhile (\<lambda>x. x \<noteq> ''--'') (la_args (ca_launch a))"
  have spec: "split_pinned_npm_spec (ri_npx (ca_registry a)) = Some (name, version)" "ri_npx (ca_registry a) \<in> set ?before"
    "''--'' \<in> set ?args" "args = drop (Suc (length ?before)) ?args"
    using assms by (auto simp: npm_launch_def Let_def split: if_splits)
  obtain u v where uv: "?args = u @ ''--'' # v" "''--'' \<notin> set u" using spec(3) by (metis split_list_first)
  then have "?before = u" by (subst uv(1), subst takeWhile_append2) auto
  moreover have "args = v" using spec(4) uv(1) calculation by simp
  moreover have "ri_npx (ca_registry a) = name @ CHR ''@'' # version"
    using spec(1) last_cut_some by (fastforce simp: split_pinned_npm_spec_def split: option.splits prod.splits if_splits)
  ultimately show ?thesis using uv(1) spec(2) by auto
qed

text \<open>
  A rewritten launch runs what was installed (\<^verbatim>\<open>EnsureNpm\<close> in \<^verbatim>\<open>internal/acquire/npm.go\<close>). An agent is launched as before,
  or its command is the script of the completed installation of exactly the pinned version, alone or behind a
  JavaScript runtime, and it gets exactly the arguments that followed \<^verbatim>\<open>--\<close>.
\<close>

theorem npm_launch_runs_installed_script:
  assumes "ensure_npm e a s = ((a', started), s')"
  shows "a' = a \<or>
    (\<exists>name version before args script f.
       ri_npx (ca_registry a) = name @ ''@'' @ version \<and> la_args (ca_launch a) = before @ ''--'' # args \<and>
       ns_folders s (npm_dir e name version) = Some f \<and> nf_done f \<noteq> None \<and>
       bin_script_in (npm_dir e name version) name f = Some script \<and> s' = s \<and>
       (a' = launch_with a script args \<or> a' = launch_with a (look_js_runtime e (ns_runtime s)) (script # args)))"
proof (cases "npm_launch a")
  case (Some l)
  obtain name version args where l: "l = (name, version, args)" by (cases l) auto
  obtain before where before: "la_args (ca_launch a) = before @ ''--'' # args" "ri_npx (ca_registry a) = name @ ''@'' @ version"
    using npm_launch_spec Some l by blast
  show ?thesis
  proof (cases "npm_bin_script (npm_dir e name version) name s")
    case None
    then show ?thesis using assms Some l by (auto simp: ensure_npm_def Let_def split: if_splits prod.splits)
  next
    case (Some script)
    then obtain f where f: "ns_folders s (npm_dir e name version) = Some f" "nf_done f \<noteq> None"
      "bin_script_in (npm_dir e name version) name f = Some script"
      by (auto simp: npm_bin_script_def split: option.splits if_splits)
    have "a' = a \<or> s' = s \<and> (a' = launch_with a script args \<or> a' = launch_with a (look_js_runtime e (ns_runtime s)) (script # args))"
      using assms \<open>npm_launch a = Some l\<close> l Some
      by (auto simp: ensure_npm_def Let_def split: if_splits option.splits bool.splits)
    then show ?thesis using f before by blast
  qed
qed (use assms in \<open>simp add: ensure_npm_def\<close>)

section \<open>Pruning\<close>

lemma split_at_sep: "split_at d (a @ d # b) = split_at d a @ split_at d b"
proof (induction a)
  case (Cons c a)
  then show ?case by (cases "split_at d a") auto
qed simp

lemma join_plain:
  assumes "path_is_abs root" "plain_part n"
  shows "path_join [root, n] = path_clean (root @ ''/'' @ n) \<and> path_is_abs (root @ ''/'' @ n) \<and>
    clean_parts (root @ ''/'' @ n) = clean_parts root @ [n]"
proof -
  have abs: "path_is_abs (root @ ''/'' @ n)" using assms(1) by (cases root) (auto simp: path_is_abs_def has_prefix_def)
  have "root \<noteq> []" using assms(1) by (auto simp: path_is_abs_def has_prefix_def)
  moreover have "n \<noteq> []" using assms(2) by (simp add: plain_part_def)
  moreover have "split_at slash (root @ slash # n) = split_at slash root @ [n]"
    using assms(2) split_at_none [of slash n] by (simp add: plain_part_def split_at_sep)
  ultimately show ?thesis using abs assms by (simp add: path_join_def clean_parts_def plain_part_def)
qed

lemma join_plain_inject:
  assumes "path_is_abs root" "plain_part m" "plain_part n"
  shows "path_join [root, m] = path_join [root, n] \<longleftrightarrow> m = n"
  using join_plain [OF assms(1,2)] join_plain [OF assms(1,3)] by (simp add: abs_clean_eq_iff)

text \<open>The package of a folder of the install directory, and when its installation was completed.\<close>

definition package_of :: "string \<Rightarrow> string option" where
  "package_of entry = (case last_cut (CHR ''@'') entry of None \<Rightarrow> None | Some (pkg, _) \<Rightarrow> if pkg = [] then None else Some pkg)"

definition completed :: "npm_state \<Rightarrow> string \<Rightarrow> string \<Rightarrow> gtime option" where
  "completed s root entry = (case ns_folders s (path_join [root, entry]) of None \<Rightarrow> None | Some f \<Rightarrow> nf_done f)"

lemma prune_entry_cases:
  "prune_entry s root entry (newest, stale) =
     (case package_of entry of
        None \<Rightarrow> (newest, stale)
      | Some pkg \<Rightarrow>
          (case completed s root entry of
             None \<Rightarrow> (newest, stale @ [path_join [root, entry]])
           | Some t \<Rightarrow>
               (case newest pkg of
                  None \<Rightarrow> (newest(pkg \<mapsto> (path_join [root, entry], t)), stale)
                | Some (prev, t0) \<Rightarrow>
                    if t > t0 then (newest(pkg \<mapsto> (path_join [root, entry], t)), stale @ [prev])
                    else (newest, stale @ [path_join [root, entry]]))))"
  by (auto simp: prune_entry_def package_of_def completed_def Let_def split: option.splits prod.splits)

definition pruned_so_far :: "npm_state \<Rightarrow> string \<Rightarrow> string list \<Rightarrow> (string \<rightharpoonup> string \<times> gtime) \<times> string list \<Rightarrow> bool" where
  "pruned_so_far s root seen acc \<longleftrightarrow>
     (\<forall>pkg d t. fst acc pkg = Some (d, t) \<longrightarrow>
        d \<notin> set (snd acc) \<and> (\<exists>entry \<in> set seen. package_of entry = Some pkg \<and> d = path_join [root, entry] \<and> completed s root entry = Some t)) \<and>
     (\<forall>entry \<in> set seen. \<forall>pkg t. package_of entry = Some pkg \<and> completed s root entry = Some t \<longrightarrow>
        (\<exists>d t'. fst acc pkg = Some (d, t') \<and> t \<le> t')) \<and>
     (\<forall>d \<in> set (snd acc). \<exists>entry \<in> set seen. d = path_join [root, entry])"

lemma pruned_so_farI:
  assumes "\<And>pkg d t. newest pkg = Some (d, t) \<Longrightarrow> d \<notin> set stale"
    and "\<And>pkg d t. newest pkg = Some (d, t) \<Longrightarrow>
      \<exists>entry \<in> set seen. package_of entry = Some pkg \<and> d = path_join [root, entry] \<and> completed s root entry = Some t"
    and "\<And>entry pkg t. entry \<in> set seen \<Longrightarrow> package_of entry = Some pkg \<Longrightarrow> completed s root entry = Some t \<Longrightarrow>
      \<exists>d t'. newest pkg = Some (d, t') \<and> t \<le> t'"
    and "\<And>d. d \<in> set stale \<Longrightarrow> \<exists>entry \<in> set seen. d = path_join [root, entry]"
  shows "pruned_so_far s root seen (newest, stale)"
  unfolding pruned_so_far_def fst_conv snd_conv using assms by blast

lemma pruned_step:
  assumes "path_is_abs root" "list_all plain_part (x # seen)" "x \<notin> set seen" "pruned_so_far s root seen acc"
  shows "pruned_so_far s root (x # seen) (prune_entry s root x acc)"
proof -
  obtain newest stale where acc: "acc = (newest, stale)" by (cases acc) auto
  have other: "path_join [root, y] \<noteq> path_join [root, x]" if "y \<in> set seen" for y
    using join_plain_inject [OF assms(1), of y x] assms(2,3) that by (auto simp: list_all_iff)
  have diff: "path_join [root, y] \<noteq> path_join [root, z]" if "y \<in> set seen" "z \<in> set seen" "y \<noteq> z" for y z
    using join_plain_inject [OF assms(1), of y z] assms(2) that by (auto simp: list_all_iff)
  have new: "d \<notin> set stale \<and> (\<exists>entry \<in> set seen. package_of entry = Some pkg \<and> d = path_join [root, entry] \<and> completed s root entry = Some t)"
    if "newest pkg = Some (d, t)" for pkg d t
    using assms(4) that unfolding pruned_so_far_def acc by auto
  have best: "\<exists>d t'. newest pkg = Some (d, t') \<and> t \<le> t'" if "entry \<in> set seen" "package_of entry = Some pkg" "completed s root entry = Some t" for entry pkg t
    using assms(4) that unfolding pruned_so_far_def acc by auto
  have old: "\<exists>entry \<in> set seen. d = path_join [root, entry]" if "d \<in> set stale" for d
    using assms(4) that unfolding pruned_so_far_def acc by auto
  have fresh: "path_join [root, x] \<notin> set stale" using old other by metis
  show ?thesis
  proof (cases "package_of x")
    case None
    then show ?thesis using assms(4) unfolding acc prune_entry_cases by (auto simp: pruned_so_far_def)
  next
    case (Some pkg)
    show ?thesis
    proof (cases "completed s root x")
      case None
      have "d \<noteq> path_join [root, x]" if "newest p = Some (d, t)" for p d t using new [OF that] other by metis
      moreover have "prune_entry s root x acc = (newest, stale @ [path_join [root, x]])" using Some None by (simp add: acc prune_entry_cases)
      ultimately show ?thesis using new best old None by (auto intro!: pruned_so_farI)
    next
      case (Some t)
      note x = \<open>package_of x = Some pkg\<close> Some
      have apart: "d \<noteq> path_join [root, x]" if "newest p = Some (d, t)" for p d t using new [OF that] other by metis
      consider "newest pkg = None" | prev t0 where "newest pkg = Some (prev, t0)" "t0 < t" | prev t0 where "newest pkg = Some (prev, t0)" "t \<le> t0"
        by (metis linorder_not_less not_None_eq surj_pair)
      then show ?thesis
      proof cases
        case 1
        then have acc': "prune_entry s root x acc = (newest(pkg \<mapsto> (path_join [root, x], t)), stale)"
          using x by (simp add: acc prune_entry_cases)
        show ?thesis unfolding acc'
        proof (rule pruned_so_farI)
          show "\<exists>d t'. (newest(pkg \<mapsto> (path_join [root, x], t))) p = Some (d, t') \<and> u \<le> t'"
            if "entry \<in> set (x # seen)" "package_of entry = Some p" "completed s root entry = Some u" for entry p u
            using that best [of entry p u] x 1 by (cases "entry = x") auto
        qed (use x new old fresh in \<open>auto split: if_splits\<close>)
      next
        case 2
        then have acc': "prune_entry s root x acc = (newest(pkg \<mapsto> (path_join [root, x], t)), stale @ [prev])"
          using x by (simp add: acc prune_entry_cases)
        obtain y where y: "y \<in> set seen" "package_of y = Some pkg" "prev = path_join [root, y]" using new [OF 2(1)] by blast
        have "d \<noteq> prev" if "newest p = Some (d, u)" "p \<noteq> pkg" for p d u
          using new [OF that(1)] y that(2) diff by (metis option.inject)
        moreover have "path_join [root, x] \<noteq> prev" using other y by metis
        ultimately show ?thesis unfolding acc'
        proof (intro pruned_so_farI)
          show "\<exists>d t'. (newest(pkg \<mapsto> (path_join [root, x], t))) p = Some (d, t') \<and> u \<le> t'"
            if "entry \<in> set (x # seen)" "package_of entry = Some p" "completed s root entry = Some u" for entry p u
            using that best [of entry p u] x 2 by (cases "entry = x") auto
        qed (use x new old fresh y in \<open>auto split: if_splits\<close>)
      next
        case 3
        then have acc': "prune_entry s root x acc = (newest, stale @ [path_join [root, x]])"
          using x by (simp add: acc prune_entry_cases)
        show ?thesis unfolding acc'
        proof (rule pruned_so_farI)
          show "\<exists>d t'. newest p = Some (d, t') \<and> u \<le> t'"
            if "entry \<in> set (x # seen)" "package_of entry = Some p" "completed s root entry = Some u" for entry p u
            using that best [of entry p u] x 3 by (cases "entry = x") auto
        qed (use x new old fresh apart in auto)
      qed
    qed
  qed
qed

lemma pruned_fold:
  assumes "path_is_abs root" "pruned_so_far s root seen acc" "list_all plain_part (es @ seen)" "distinct (es @ seen)"
  shows "pruned_so_far s root (rev es @ seen) (fold (prune_entry s root) es acc)"
  using assms(2-)
proof (induction es arbitrary: seen acc)
  case (Cons e es)
  have "pruned_so_far s root (e # seen) (prune_entry s root e acc)"
    by (rule pruned_step [OF assms(1)]) (use Cons.prems in auto)
  then have "pruned_so_far s root (rev es @ e # seen) (fold (prune_entry s root) es (prune_entry s root e acc))"
    by (rule Cons.IH) (use Cons.prems in auto)
  then show ?case by simp
qed simp

text \<open>
  C21: Pruning keeps what can be launched (\<^verbatim>\<open>PruneNpm\<close> in \<^verbatim>\<open>internal/acquire/npm.go\<close>). Whatever the folders hold and whichever of
  them can be removed: for every completed installation of a package, one of the same package that was completed no
  earlier is still there.
\<close>

theorem prune_keeps_newest:
  assumes "path_is_abs (ne_managed e)" "distinct entries" "list_all plain_part entries"
    and "entry \<in> set entries" "package_of entry = Some pkg" "completed s (path_join [ne_managed e, ''npm'']) entry = Some t"
  shows "\<exists>kept \<in> set entries. package_of kept = Some pkg \<and>
    (\<exists>t'. completed (prune_npm e entries removable s) (path_join [ne_managed e, ''npm'']) kept = Some t' \<and> t \<le> t')"
proof -
  let ?root = "path_join [ne_managed e, ''npm'']"
  have "path_is_abs ?root" using join_plain [OF assms(1), of "''npm''"] path_is_abs_clean by (simp add: plain_part_def)
  moreover have "pruned_so_far s ?root [] (Map.empty, [])" by (simp add: pruned_so_far_def)
  ultimately have inv: "pruned_so_far s ?root (rev entries) (fold (prune_entry s ?root) entries (Map.empty, []))"
    using pruned_fold [of ?root s "[]" _ entries] assms(2,3) by simp
  then obtain d t' where d: "fst (fold (prune_entry s ?root) entries (Map.empty, [])) pkg = Some (d, t')" "t \<le> t'"
    using assms(4-6) unfolding pruned_so_far_def by (metis set_rev)
  obtain kept where kept: "kept \<in> set entries" "package_of kept = Some pkg" "d = path_join [?root, kept]" "completed s ?root kept = Some t'"
    using inv d(1) unfolding pruned_so_far_def by (metis set_rev)
  moreover have "d \<notin> set (snd (fold (prune_entry s ?root) entries (Map.empty, [])))"
    using inv d(1) unfolding pruned_so_far_def by blast
  ultimately have "completed (prune_npm e entries removable s) ?root kept = Some t'"
    by (simp add: completed_def prune_npm_def Let_def)
  then show ?thesis using kept d(2) by blast
qed

section \<open>Examples\<close>

definition npm_agent :: "string \<Rightarrow> catalog_agent" where
  "npm_agent spec = (custom_to_agent \<lparr>cu_id = ''x'', cu_name = ''x'', cu_command = ''npm'', cu_args = [''exec'', ''--yes'', spec, ''--'', ''acp''], cu_hint = []\<rparr>)
     \<lparr>ca_registry := blank_info\<lparr>ri_npx := spec\<rparr>\<rparr>"

definition some_npm_env :: npm_env where
  "some_npm_env = \<lparr>ne_managed = ''/m'', ne_look_path = (\<lambda>n. if n = ''node'' then Some ''/bin/node'' else None)\<rparr>"

definition some_npm_folder :: npm_folder where
  "some_npm_folder = \<lparr>nf_done = Some 7, nf_manifest = Some (One_Bin ''cli.js''),
     nf_scripts = [''/m/npm/tool@1.0/node_modules/tool/cli.js'' \<mapsto> Starts ''#!/usr/bin/env node'']\<rparr>"

definition some_npm_state :: npm_state where
  "some_npm_state = \<lparr>ns_runtime = ''auto'', ns_installing = [],
     ns_folders = [''/m/npm/tool@1.0'' \<mapsto> some_npm_folder, ''/m/npm/tool@0.9'' \<mapsto> some_npm_folder\<lparr>nf_done := Some 5\<rparr>]\<rparr>"

theorem npm_launch_runs_installed_script_witness:
  "ca_launch (fst (fst (ensure_npm some_npm_env (npm_agent ''tool@1.0'') some_npm_state))) =
     \<lparr>la_mode = ''external'', la_command = ''/bin/node'', la_args = [''/m/npm/tool@1.0/node_modules/tool/cli.js'', ''acp'']\<rparr> \<and>
   (\<exists>name version. ''tool@1.0'' = name @ ''@'' @ version \<and> ns_folders some_npm_state (npm_dir some_npm_env name version) \<noteq> None)"
proof -
  let ?run = "ensure_npm some_npm_env (npm_agent ''tool@1.0'') some_npm_state"
  have launch: "ca_launch (fst (fst ?run)) =
     \<lparr>la_mode = ''external'', la_command = ''/bin/node'', la_args = [''/m/npm/tool@1.0/node_modules/tool/cli.js'', ''acp'']\<rparr>"
    by code_simp
  moreover have "la_command (ca_launch (npm_agent ''tool@1.0'')) = ''npm''" by (simp add: npm_agent_def custom_to_agent_def)
  ultimately have "fst (fst ?run) \<noteq> npm_agent ''tool@1.0''" by auto
  then obtain name version where "ri_npx (ca_registry (npm_agent ''tool@1.0'')) = name @ ''@'' @ version"
    "ns_folders some_npm_state (npm_dir some_npm_env name version) \<noteq> None"
    using npm_launch_runs_installed_script [of some_npm_env "npm_agent ''tool@1.0''" some_npm_state "fst (fst ?run)" "snd (fst ?run)" "snd ?run"]
    by auto
  then show ?thesis using launch by (auto simp: npm_agent_def)
qed

theorem prune_keeps_newest_witness:
  "\<exists>kept \<in> {''tool@0.9'', ''tool@1.0''}. \<exists>t'. completed (prune_npm some_npm_env [''tool@0.9'', ''tool@1.0''] (\<lambda>d. True) some_npm_state) ''/m/npm'' kept = Some t' \<and> 7 \<le> t'"
proof -
  have root: "path_join [ne_managed some_npm_env, ''npm''] = ''/m/npm''" by code_simp
  have "\<exists>kept \<in> set [''tool@0.9'', ''tool@1.0'']. package_of kept = Some ''tool'' \<and>
    (\<exists>t'. completed (prune_npm some_npm_env [''tool@0.9'', ''tool@1.0''] (\<lambda>d. True) some_npm_state) (path_join [ne_managed some_npm_env, ''npm'']) kept = Some t' \<and> 7 \<le> t')"
    by (rule prune_keeps_newest [where entry = "''tool@1.0''"]) code_simp+
  then show ?thesis unfolding root by auto
qed

text \<open>
  The folder of an installation is not confined: only the first character of the version is looked at, and the
  version becomes part of a path. A package of the registry whose version leads upwards has its folder anywhere, and
  the installation begins by removing what is there.
\<close>

theorem npm_version_leaves_managed_dir:
  "snd (fst (ensure_npm some_npm_env (npm_agent ''tool@1/../../../home/u'') some_npm_state)) = Some ''/home/u'' \<and>
   ns_folders (install_npm_package ''/home/u'' ''tool'' Not_Made (some_npm_state\<lparr>ns_folders := [''/home/u'' \<mapsto> some_npm_folder]\<rparr>)) ''/home/u'' = None"
  by code_simp

end
