(* ===== verification/Project_Lister.thy ===== *)
theory Project_Lister
  imports Go_Text
begin

text \<open>
  The lister behind the project home (\<^verbatim>\<open>internal/projects/lister.go\<close>, \<^verbatim>\<open>queue.go\<close>, \<^verbatim>\<open>resources.go\<close>): it starts agents,
  asks them for their sessions and keeps their processes warm for a while. A listing is a goroutine; what it does
  under the lock, or between two of its waits, is one operation here, and the operations of all goroutines interleave.
  A process is a number, given out when it is spawned. The answers of the agents, the catalog and the clock are
  arguments of the operations. \<open>pl_stopping\<close> holds the processes that were handed to \<^verbatim>\<open>Discard\<close>.
\<close>

section \<open>Lines\<close>

datatype line_status = No_Status | Line_Ok | Line_Unsupported | Line_Failed | Line_Auth_Required

record chat =
  ch_session :: string
  ch_title :: "string option"
  ch_cwd :: string
  ch_updated :: "string option"
  ch_repo :: string
  ch_worktree :: "string option"

record agent_line =
  al_agent :: string
  al_status :: line_status
  al_error :: "string option"
  al_chats :: "chat list"
  al_launch :: "bool option"
  al_caps :: string

record session_info =
  si_id :: string
  si_title :: "string option"
  si_cwd :: string
  si_updated :: "string option"

text \<open>The errors a listing tells apart: no \<^verbatim>\<open>session/list\<close>, an ACP error, an agent that cannot be launched here, another.\<close>

datatype list_error = List_Unsupported | Request_Error int string string | Not_Launchable string | Other_Failure string

definition auth_required_code :: int where "auth_required_code = - 32000"
definition max_concurrent_agents :: nat where "max_concurrent_agents = 4"
definition max_pages :: nat where "max_pages = 5"
definition line_cache_ttl :: duration where "line_cache_ttl = 10 * second"

definition list_error_text :: "list_error \<Rightarrow> string" where
  "list_error_text err =
     (case err of
        List_Unsupported \<Rightarrow> ''agent does not support session/list''
      | Request_Error code msg full \<Rightarrow> full
      | Not_Launchable msg \<Rightarrow> msg
      | Other_Failure msg \<Rightarrow> msg)"

definition failed_line :: "line_status \<Rightarrow> list_error \<Rightarrow> agent_line \<Rightarrow> agent_line" where
  "failed_line st err l =
     l\<lparr>al_status := st, al_error := Some (list_error_text err),
       al_launch := (case err of Not_Launchable _ \<Rightarrow> Some False | _ \<Rightarrow> al_launch l)\<rparr>"

definition empty_line :: "string \<Rightarrow> line_status \<Rightarrow> agent_line" where
  "empty_line i st = \<lparr>al_agent = i, al_status = st, al_error = None, al_chats = [], al_launch = None, al_caps = []\<rparr>"

definition cancelled_line :: "string \<Rightarrow> agent_line" where
  "cancelled_line i = failed_line Line_Failed (Other_Failure ''context canceled'') (empty_line i No_Status)"

text \<open>\<^verbatim>\<open>session/list\<close>, page by page; \<open>ask n c\<close> is the agent's answer to the n-th request, made with cursor \<open>c\<close>.\<close>

fun list_pages :: "(nat \<Rightarrow> string option \<Rightarrow> list_error + session_info list \<times> string option) \<Rightarrow> nat \<Rightarrow> nat \<Rightarrow> string option \<Rightarrow>
    list_error + session_info list" where
  "list_pages ask n 0 cursor = Inr []"
| "list_pages ask n (Suc left) cursor =
     (case ask n cursor of
        Inl err \<Rightarrow> Inl err
      | Inr (ss, None) \<Rightarrow> Inr ss
      | Inr (ss, Some c) \<Rightarrow>
          (case list_pages ask (Suc n) left (Some c) of Inl err \<Rightarrow> Inl err | Inr rest \<Rightarrow> Inr (ss @ rest)))"

definition list_sessions :: "(nat \<Rightarrow> string option \<Rightarrow> list_error + session_info list \<times> string option) \<Rightarrow> list_error + session_info list" where
  "list_sessions ask = list_pages ask 0 max_pages None"

definition chat_of :: "session_info \<Rightarrow> chat" where
  "chat_of s = \<lparr>ch_session = si_id s, ch_title = si_title s, ch_cwd = si_cwd s, ch_updated = si_updated s, ch_repo = si_cwd s, ch_worktree = None\<rparr>"

text \<open>The line of a listing that ended in an error; \<open>over\<close> tells that its context had ended.\<close>

definition error_line :: "string \<Rightarrow> list_error \<Rightarrow> bool \<Rightarrow> agent_line" where
  "error_line i err over =
     (let line = empty_line i Line_Ok; timed_out = failed_line Line_Failed (Other_Failure ''timed out after 10s'') line
      in case err of
           List_Unsupported \<Rightarrow> failed_line Line_Unsupported err line
         | Request_Error code msg full \<Rightarrow>
             if code = auth_required_code then failed_line Line_Auth_Required (Other_Failure msg) line
             else if over then timed_out else failed_line Line_Failed err line
         | _ \<Rightarrow> if over then timed_out else failed_line Line_Failed err line)"

section \<open>The state\<close>

record agent_conn =
  cn_proc :: nat
  cn_caps :: string

text \<open>Where the goroutine of a listing is: \<open>Ended\<close> still has its slot, \<open>Returning\<close> not.\<close>

datatype call_phase = Queued | Slotted | Connecting | Starting | Asking agent_conn | Ended agent_line | Returning agent_line | Answered agent_line

record listing_call =
  lc_agent :: string
  lc_waiters :: nat
  lc_started :: bool
  lc_cancelled :: bool
  lc_phase :: call_phase

record lister =
  pl_slots :: nat
  pl_calls :: "listing_call list"
  pl_pending :: "string \<rightharpoonup> nat"
  pl_cached :: "string \<rightharpoonup> agent_line \<times> gtime"
  pl_warm :: "(string \<times> agent_conn \<times> gtime) list"
  pl_closed :: bool
  pl_maintained :: bool
  pl_next :: nat
  pl_stopping :: "nat list"
  pl_abandoned :: "nat list"

definition new_lister :: lister where
  "new_lister = \<lparr>pl_slots = 0, pl_calls = [], pl_pending = Map.empty, pl_cached = Map.empty, pl_warm = [], pl_closed = False,
     pl_maintained = False, pl_next = 0, pl_stopping = [], pl_abandoned = []\<rparr>"

definition upd_call :: "nat \<Rightarrow> (listing_call \<Rightarrow> listing_call) \<Rightarrow> lister \<Rightarrow> lister" where
  "upd_call k f l = l\<lparr>pl_calls := (pl_calls l)[k := f (pl_calls l ! k)]\<rparr>"

definition set_phase :: "nat \<Rightarrow> call_phase \<Rightarrow> lister \<Rightarrow> lister" where
  "set_phase k ph = upd_call k (\<lambda>c. c\<lparr>lc_phase := ph\<rparr>)"

definition drop_process :: "nat \<Rightarrow> lister \<Rightarrow> lister" where
  "drop_process p l = l\<lparr>pl_stopping := p # pl_stopping l\<rparr>"

section \<open>Requests\<close>

text \<open>What a request gets: a line at once, or a call to wait for.\<close>

datatype line_answer = Line_Now agent_line | Wait_For nat

definition ask_line :: "string \<Rightarrow> string option \<Rightarrow> gtime \<Rightarrow> lister \<Rightarrow> line_answer \<times> lister" where
  "ask_line i ctx_err now l =
     (case ctx_err of
        Some err \<Rightarrow> (Line_Now (failed_line Line_Failed (Other_Failure err) (empty_line i No_Status)), l)
      | None \<Rightarrow>
          if pl_closed l then (Line_Now (cancelled_line i), l)
          else
            (case (case pl_cached l i of None \<Rightarrow> None | Some (line, at) \<Rightarrow> if now - at < line_cache_ttl then Some line else None) of
               Some line \<Rightarrow> (Line_Now line, l)
             | None \<Rightarrow>
                 (case pl_pending l i of
                    Some k \<Rightarrow> (Wait_For k, upd_call k (\<lambda>c. c\<lparr>lc_waiters := Suc (lc_waiters c)\<rparr>) l)
                  | None \<Rightarrow>
                      (Wait_For (length (pl_calls l)),
                       l\<lparr>pl_calls := pl_calls l @ [\<lparr>lc_agent = i, lc_waiters = 1, lc_started = False, lc_cancelled = False, lc_phase = Queued\<rparr>],
                         pl_pending := (pl_pending l)(i \<mapsto> length (pl_calls l)), pl_maintained := True\<rparr>))))"

definition release_requester :: "nat \<Rightarrow> lister \<Rightarrow> lister" where
  "release_requester k l =
     (if k < length (pl_calls l) \<and> 0 < lc_waiters (pl_calls l ! k) then
        let l1 = upd_call k (\<lambda>c. c\<lparr>lc_waiters := lc_waiters c - 1\<rparr>) l; c = pl_calls l1 ! k
        in if lc_waiters c = 0 \<and> \<not> lc_started c then
             let l2 = upd_call k (\<lambda>c. c\<lparr>lc_cancelled := True\<rparr>) l1
             in if pl_pending l2 (lc_agent c) = Some k then l2\<lparr>pl_pending := (pl_pending l2)(lc_agent c := None)\<rparr> else l2
           else l1
      else l)"

section \<open>A listing\<close>

text \<open>The goroutine waits for a slot or for its context to end.\<close>

definition take_slot :: "nat \<Rightarrow> bool \<Rightarrow> lister \<Rightarrow> lister" where
  "take_slot k ended l =
     (let c = pl_calls l ! k
      in if ended then if lc_cancelled c then set_phase k (Returning (cancelled_line (lc_agent c))) l else l
         else if pl_slots l < max_concurrent_agents then (set_phase k Slotted l)\<lparr>pl_slots := Suc (pl_slots l)\<rparr> else l)"

definition admit_listing :: "nat \<Rightarrow> lister \<Rightarrow> lister" where
  "admit_listing k l =
     (let c = pl_calls l ! k
      in if lc_cancelled c \<or> pl_closed l \<or> lc_waiters c = 0
         then (set_phase k (Returning (cancelled_line (lc_agent c))) l)\<lparr>pl_slots := pl_slots l - 1\<rparr>
         else upd_call k (\<lambda>c. c\<lparr>lc_started := True, lc_phase := Connecting\<rparr>) l)"

text \<open>The warm process, when it still runs.\<close>

definition take_warm :: "nat \<Rightarrow> bool \<Rightarrow> lister \<Rightarrow> lister" where
  "take_warm k exited l =
     (let i = lc_agent (pl_calls l ! k); l1 = l\<lparr>pl_warm := filter (\<lambda>x. fst x \<noteq> i) (pl_warm l)\<rparr>
      in case map_of (pl_warm l) i of
           None \<Rightarrow> set_phase k Starting l1
         | Some (cn, used) \<Rightarrow> if exited then set_phase k Starting (drop_process (cn_proc cn) l1) else set_phase k (Asking cn) l1)"

text \<open>What became of starting an agent: no process, one that could not be initialized, or one with its capabilities.\<close>

datatype start_outcome = No_Process list_error | Bad_Start list_error | Good_Start string

definition start_agent :: "nat \<Rightarrow> start_outcome \<Rightarrow> bool \<Rightarrow> lister \<Rightarrow> lister" where
  "start_agent k out late l =
     (let c = pl_calls l ! k; i = lc_agent c; over = late \<or> lc_cancelled c; p = pl_next l
      in case out of
           No_Process err \<Rightarrow> set_phase k (Ended (error_line i err over)) l
         | Bad_Start err \<Rightarrow> drop_process p (set_phase k (Ended (error_line i err over)) (l\<lparr>pl_next := Suc p\<rparr>))
         | Good_Start caps \<Rightarrow> set_phase k (Asking \<lparr>cn_proc = p, cn_caps = caps\<rparr>) (l\<lparr>pl_next := Suc p\<rparr>))"

definition keep_warm :: "string \<Rightarrow> agent_conn \<Rightarrow> gtime \<Rightarrow> lister \<Rightarrow> lister" where
  "keep_warm i cn now l =
     (if pl_closed l then drop_process (cn_proc cn) l
      else l\<lparr>pl_warm := (i, cn, now) # filter (\<lambda>x. fst x \<noteq> i) (pl_warm l)\<rparr>)"

text \<open>
  The end of \<^verbatim>\<open>listAgent\<close>: a process whose listing failed is discarded. One whose listing succeeded is kept, unless the
  context has ended by then; nothing is done about the process in that case.
\<close>

definition end_listing :: "nat \<Rightarrow> list_error + session_info list \<Rightarrow> bool \<Rightarrow> gtime \<Rightarrow> lister \<Rightarrow> lister" where
  "end_listing k res late now l =
     (let c = pl_calls l ! k; i = lc_agent c; over = late \<or> lc_cancelled c
      in case lc_phase c of
           Asking cn \<Rightarrow>
             (case res of
                Inl err \<Rightarrow> drop_process (cn_proc cn) (set_phase k (Ended (error_line i err over)) l)
              | Inr ss \<Rightarrow>
                  if over then
                    (set_phase k (Ended (failed_line Line_Failed (Other_Failure ''timed out after 10s'') (empty_line i Line_Ok))) l)
                      \<lparr>pl_abandoned := cn_proc cn # pl_abandoned l\<rparr>
                  else
                    keep_warm i cn now
                      (set_phase k (Ended ((empty_line i Line_Ok)\<lparr>al_caps := cn_caps cn, al_chats := map chat_of ss\<rparr>)) l))
         | _ \<Rightarrow> l)"

definition release_slot :: "nat \<Rightarrow> lister \<Rightarrow> lister" where
  "release_slot k l =
     (case lc_phase (pl_calls l ! k) of
        Ended line \<Rightarrow> (set_phase k (Returning line) l)\<lparr>pl_slots := pl_slots l - 1\<rparr>
      | _ \<Rightarrow> l)"

definition finish_listing :: "nat \<Rightarrow> gtime \<Rightarrow> lister \<Rightarrow> lister" where
  "finish_listing k now l =
     (let c = pl_calls l ! k; i = lc_agent c
      in case lc_phase c of
           Returning line \<Rightarrow>
             let l1 = (if pl_pending l i = Some k then
                         (if \<not> pl_closed l \<and> \<not> lc_cancelled c then l\<lparr>pl_pending := (pl_pending l)(i := None), pl_cached := (pl_cached l)(i \<mapsto> (line, now))\<rparr>
                          else l\<lparr>pl_pending := (pl_pending l)(i := None)\<rparr>)
                       else l)
             in upd_call k (\<lambda>c. c\<lparr>lc_phase := Answered line, lc_cancelled := True\<rparr>) l1
         | _ \<Rightarrow> l)"

section \<open>Warm processes\<close>

text \<open>The timer of \<^verbatim>\<open>keepWarm\<close>, and the sampling once a second: under memory pressure the process idle for longest goes.\<close>

definition warm_expires :: "string \<Rightarrow> nat \<Rightarrow> lister \<Rightarrow> lister" where
  "warm_expires i p l =
     (case map_of (pl_warm l) i of
        Some (cn, used) \<Rightarrow> if cn_proc cn = p then drop_process p (l\<lparr>pl_warm := filter (\<lambda>x. fst x \<noteq> i) (pl_warm l)\<rparr>) else l
      | None \<Rightarrow> l)"

fun oldest_warm :: "(string \<times> agent_conn \<times> gtime) list \<Rightarrow> (string \<times> agent_conn \<times> gtime) option \<Rightarrow> (string \<times> agent_conn \<times> gtime) option" where
  "oldest_warm [] best = best"
| "oldest_warm (x # xs) best =
     (case best of
        None \<Rightarrow> oldest_warm xs (Some x)
      | Some b \<Rightarrow> oldest_warm xs (if snd (snd x) < snd (snd b) then Some x else best))"

definition maintain :: "gtime \<Rightarrow> bool \<Rightarrow> lister \<Rightarrow> lister" where
  "maintain now pressure l =
     (if pl_closed l then l
      else
        let l1 = l\<lparr>pl_cached := (\<lambda>i. case pl_cached l i of Some (line, at) \<Rightarrow> if now - at \<ge> line_cache_ttl then None else Some (line, at) | None \<Rightarrow> None)\<rparr>
        in if \<not> pressure then l1
           else case oldest_warm (pl_warm l1) None of
                  None \<Rightarrow> l1
                | Some (i, cn, used) \<Rightarrow> drop_process (cn_proc cn) (l1\<lparr>pl_warm := filter (\<lambda>x. fst x \<noteq> i) (pl_warm l1)\<rparr>))"

definition cancel_pending :: "(string \<rightharpoonup> nat) \<Rightarrow> nat \<Rightarrow> listing_call \<Rightarrow> listing_call" where
  "cancel_pending pending k c = (if pending (lc_agent c) = Some k then c\<lparr>lc_cancelled := True\<rparr> else c)"

definition close_lister :: "lister \<Rightarrow> lister" where
  "close_lister l =
     l\<lparr>pl_closed := True, pl_calls := map (\<lambda>(k, c). cancel_pending (pl_pending l) k c) (enumerate 0 (pl_calls l)), pl_warm := [],
       pl_stopping := map (\<lambda>x. cn_proc (fst (snd x))) (pl_warm l) @ pl_stopping l\<rparr>"

section \<open>Interleavings\<close>

datatype lister_event =
    Ask string "string option" gtime
  | Leave nat
  | Slot nat bool
  | Admit nat
  | Warm nat bool
  | Start nat start_outcome bool
  | List_Ended nat "list_error + session_info list" bool gtime
  | Free nat
  | Finish nat gtime
  | Warm_Expires string nat
  | Maintain gtime bool
  | Close_Lister

text \<open>A goroutine does its next step only when it is there.\<close>

definition at_phase :: "nat \<Rightarrow> call_phase \<Rightarrow> lister \<Rightarrow> bool" where
  "at_phase k ph l \<longleftrightarrow> k < length (pl_calls l) \<and> lc_phase (pl_calls l ! k) = ph"

fun lister_step :: "lister \<Rightarrow> lister_event \<Rightarrow> lister" where
  "lister_step l (Ask i err now) = snd (ask_line i err now l)"
| "lister_step l (Leave k) = release_requester k l"
| "lister_step l (Slot k ended) = (if at_phase k Queued l then take_slot k ended l else l)"
| "lister_step l (Admit k) = (if at_phase k Slotted l then admit_listing k l else l)"
| "lister_step l (Warm k exited) = (if at_phase k Connecting l then take_warm k exited l else l)"
| "lister_step l (Start k out late) = (if at_phase k Starting l then start_agent k out late l else l)"
| "lister_step l (List_Ended k res late now) = (if k < length (pl_calls l) then end_listing k res late now l else l)"
| "lister_step l (Free k) = (if k < length (pl_calls l) then release_slot k l else l)"
| "lister_step l (Finish k now) = (if k < length (pl_calls l) then finish_listing k now l else l)"
| "lister_step l (Warm_Expires i p) = warm_expires i p l"
| "lister_step l (Maintain now pressure) = maintain now pressure l"
| "lister_step l Close_Lister = close_lister l"

end
