(* ===== verification/Project_Lister_Proofs.thy ===== *)
theory Project_Lister_Proofs
  imports Project_Lister "HOL-Library.Multiset"
begin

text \<open>
  What the lister promises under every interleaving: at most four listings run, an agent has at most one process that
  is listing or warm, and every process that was started is in use, warm, or handed to be stopped. One way out of
  that is exhibited: a listing that succeeds when its context has just ended.
\<close>

section \<open>Calls\<close>

fun holds_slot :: "call_phase \<Rightarrow> bool" where
  "holds_slot Queued = False"
| "holds_slot (Returning _) = False"
| "holds_slot (Answered _) = False"
| "holds_slot _ = True"

fun waits :: "call_phase \<Rightarrow> bool" where
  "waits Queued = True" | "waits Slotted = True" | "waits _ = False"

fun answered :: "call_phase \<Rightarrow> bool" where
  "answered (Answered _) = True" | "answered _ = False"

fun works :: "call_phase \<Rightarrow> bool" where
  "works Connecting = True" | "works Starting = True" | "works (Asking _) = True" | "works (Ended _) = True" | "works _ = False"

definition call_ok :: "(string \<rightharpoonup> nat) \<Rightarrow> nat \<Rightarrow> listing_call \<Rightarrow> bool" where
  "call_ok pending k c \<longleftrightarrow>
     (waits (lc_phase c) \<longrightarrow> \<not> lc_started c) \<and> (works (lc_phase c) \<longrightarrow> lc_started c) \<and>
     (lc_started c \<and> \<not> answered (lc_phase c) \<longrightarrow> pending (lc_agent c) = Some k) \<and>
     (waits (lc_phase c) \<and> \<not> lc_cancelled c \<longrightarrow> pending (lc_agent c) = Some k)"

definition calls_ok :: "lister \<Rightarrow> bool" where
  "calls_ok l \<longleftrightarrow>
     (\<forall>k < length (pl_calls l). call_ok (pl_pending l) k (pl_calls l ! k)) \<and>
     (\<forall>i k. pl_pending l i = Some k \<longrightarrow> k < length (pl_calls l) \<and> lc_agent (pl_calls l ! k) = i)"

lemma calls_okI:
  assumes "\<And>k. k < length (pl_calls l) \<Longrightarrow> call_ok (pl_pending l) k (pl_calls l ! k)"
    and "\<And>i k. pl_pending l i = Some k \<Longrightarrow> k < length (pl_calls l) \<and> lc_agent (pl_calls l ! k) = i"
  shows "calls_ok l"
  using assms by (simp add: calls_ok_def)

lemma calls_okD:
  assumes "calls_ok l"
  shows "k < length (pl_calls l) \<Longrightarrow> call_ok (pl_pending l) k (pl_calls l ! k)"
    and "pl_pending l i = Some k \<Longrightarrow> k < length (pl_calls l) \<and> lc_agent (pl_calls l ! k) = i"
  using assms by (auto simp: calls_ok_def)

text \<open>Changing one call keeps the others, as long as the call keeps its agent and the table of pending calls keeps the rest.\<close>

lemma calls_ok_upd:
  assumes "calls_ok l" "k < length (pl_calls l)"
    and "pl_calls l' = (pl_calls l)[k := c]" "lc_agent c = lc_agent (pl_calls l ! k)"
    and "call_ok (pl_pending l') k c"
    and "pl_pending l' = pl_pending l \<or> pl_pending l (lc_agent c) = Some k \<and> pl_pending l' = (pl_pending l)(lc_agent c := None)"
  shows "calls_ok l'"
proof (rule calls_okI)
  fix n
  assume n: "n < length (pl_calls l')"
  show "call_ok (pl_pending l') n (pl_calls l' ! n)"
  proof (cases "n = k")
    case False
    then have "call_ok (pl_pending l) n (pl_calls l ! n)" using calls_okD(1) [OF assms(1)] n assms(3) by simp
    then show ?thesis using False assms(3,6) n by (auto simp: call_ok_def)
  qed (use assms(2,3,5) in simp)
next
  fix i n
  assume "pl_pending l' i = Some n"
  then have "pl_pending l i = Some n" using assms(6) by (auto split: if_splits)
  then have "n < length (pl_calls l) \<and> lc_agent (pl_calls l ! n) = i" by (rule calls_okD(2) [OF assms(1)])
  then show "n < length (pl_calls l') \<and> lc_agent (pl_calls l' ! n) = i" using assms(2-4) by (cases "n = k") auto
qed

lemma calls_ok_same:
  assumes "calls_ok l" "pl_calls l' = pl_calls l" "pl_pending l' = pl_pending l"
  shows "calls_ok l'"
  using assms by (simp add: calls_ok_def)

lemma upd_call_simps [simp]:
  "pl_slots (upd_call k f l) = pl_slots l" "pl_pending (upd_call k f l) = pl_pending l" "pl_cached (upd_call k f l) = pl_cached l"
  "pl_warm (upd_call k f l) = pl_warm l" "pl_closed (upd_call k f l) = pl_closed l" "pl_next (upd_call k f l) = pl_next l"
  "pl_stopping (upd_call k f l) = pl_stopping l" "pl_abandoned (upd_call k f l) = pl_abandoned l"
  "pl_calls (upd_call k f l) = (pl_calls l)[k := f (pl_calls l ! k)]"
  by (simp_all add: upd_call_def)

lemma drop_process_simps [simp]:
  "pl_slots (drop_process p l) = pl_slots l" "pl_pending (drop_process p l) = pl_pending l" "pl_calls (drop_process p l) = pl_calls l"
  "pl_warm (drop_process p l) = pl_warm l" "pl_closed (drop_process p l) = pl_closed l" "pl_next (drop_process p l) = pl_next l"
  "pl_stopping (drop_process p l) = p # pl_stopping l" "pl_abandoned (drop_process p l) = pl_abandoned l"
  by (simp_all add: drop_process_def)

lemma keep_warm_simps [simp]:
  "pl_calls (keep_warm i cn now l) = pl_calls l" "pl_pending (keep_warm i cn now l) = pl_pending l" "pl_slots (keep_warm i cn now l) = pl_slots l"
  "pl_next (keep_warm i cn now l) = pl_next l" "pl_abandoned (keep_warm i cn now l) = pl_abandoned l"
  by (simp_all add: keep_warm_def)

lemma calls_ok_ask: "calls_ok l \<Longrightarrow> calls_ok (snd (ask_line i err now l))"
proof -
  assume ok: "calls_ok l"
  have "calls_ok (l\<lparr>pl_calls := pl_calls l @ [\<lparr>lc_agent = i, lc_waiters = 1, lc_started = False, lc_cancelled = False, lc_phase = Queued\<rparr>],
      pl_pending := (pl_pending l)(i \<mapsto> length (pl_calls l)), pl_maintained := True\<rparr>)" if "pl_pending l i = None"
  proof (rule calls_okI)
    fix k
    assume "k < length (pl_calls (l\<lparr>pl_calls := pl_calls l @ [\<lparr>lc_agent = i, lc_waiters = 1, lc_started = False, lc_cancelled = False, lc_phase = Queued\<rparr>],
      pl_pending := (pl_pending l)(i \<mapsto> length (pl_calls l)), pl_maintained := True\<rparr>))"
    then show "call_ok (pl_pending (l\<lparr>pl_calls := pl_calls l @ [\<lparr>lc_agent = i, lc_waiters = 1, lc_started = False, lc_cancelled = False, lc_phase = Queued\<rparr>],
      pl_pending := (pl_pending l)(i \<mapsto> length (pl_calls l)), pl_maintained := True\<rparr>)) k
      (pl_calls (l\<lparr>pl_calls := pl_calls l @ [\<lparr>lc_agent = i, lc_waiters = 1, lc_started = False, lc_cancelled = False, lc_phase = Queued\<rparr>],
      pl_pending := (pl_pending l)(i \<mapsto> length (pl_calls l)), pl_maintained := True\<rparr>) ! k)"
      using calls_okD(1) [OF ok, of k] that by (auto simp: nth_append call_ok_def less_Suc_eq)
  qed (use calls_okD(2) [OF ok] in \<open>auto simp: nth_append split: if_splits\<close>)
  moreover have "calls_ok (upd_call k (\<lambda>c. c\<lparr>lc_waiters := Suc (lc_waiters c)\<rparr>) l)" if "pl_pending l i = Some k" for k
    using calls_okD [OF ok] that by (intro calls_ok_upd [OF ok, of k]) (auto simp: call_ok_def)
  ultimately show ?thesis using ok by (auto simp: ask_line_def split: option.splits)
qed

lemma calls_ok_leave:
  assumes "calls_ok l"
  shows "calls_ok (release_requester k l)"
proof (cases "k < length (pl_calls l) \<and> 0 < lc_waiters (pl_calls l ! k)")
  case True
  then show ?thesis using calls_okD(1) [OF assms, of k]
    by (intro calls_ok_upd [OF assms, of k _ "pl_calls (release_requester k l) ! k"]) (auto simp: release_requester_def Let_def call_ok_def)
qed (use assms in \<open>auto simp: release_requester_def\<close>)

lemma calls_ok_slot:
  assumes "calls_ok l" "at_phase k Queued l"
  shows "calls_ok (take_slot k ended l)"
  using assms(2) calls_okD(1) [OF assms(1), of k]
  by (auto simp: at_phase_def take_slot_def set_phase_def Let_def call_ok_def assms(1) intro!: calls_ok_upd [OF assms(1), of k])

lemma calls_ok_admit:
  assumes "calls_ok l" "at_phase k Slotted l"
  shows "calls_ok (admit_listing k l)"
  using assms(2) calls_okD(1) [OF assms(1), of k]
  by (auto simp: at_phase_def admit_listing_def set_phase_def Let_def call_ok_def intro!: calls_ok_upd [OF assms(1), of k])

text \<open>A started call may move on to any phase of its work, or to its return.\<close>

lemma calls_ok_phase:
  assumes "calls_ok l" "k < length (pl_calls l)" "works (lc_phase (pl_calls l ! k))" "works ph \<or> (\<exists>line. ph = Returning line)"
    and "pl_calls l' = (pl_calls l)[k := (pl_calls l ! k)\<lparr>lc_phase := ph\<rparr>]" "pl_pending l' = pl_pending l"
  shows "calls_ok l'"
proof (rule calls_ok_upd [OF assms(1,2,5)])
  show "call_ok (pl_pending l') k ((pl_calls l ! k)\<lparr>lc_phase := ph\<rparr>)"
    using calls_okD(1) [OF assms(1,2)] assms(3,4,6) by (cases "lc_phase (pl_calls l ! k)"; cases ph) (auto simp: call_ok_def)
qed (simp_all add: assms(6))

lemma take_warm_calls:
  "\<exists>ph. works ph \<and> pl_calls (take_warm k exited l) = (pl_calls l)[k := (pl_calls l ! k)\<lparr>lc_phase := ph\<rparr>]"
  "pl_pending (take_warm k exited l) = pl_pending l"
  by (auto simp: take_warm_def set_phase_def Let_def split: option.splits intro: exI [of _ Starting] exI [of _ "Asking cn" for cn])

lemma start_calls:
  "\<exists>ph. works ph \<and> pl_calls (start_agent k out late l) = (pl_calls l)[k := (pl_calls l ! k)\<lparr>lc_phase := ph\<rparr>]"
  "pl_pending (start_agent k out late l) = pl_pending l"
  by (auto simp: start_agent_def set_phase_def Let_def split: start_outcome.splits
      intro: exI [of _ "Ended line" for line] exI [of _ "Asking cn" for cn])

lemma calls_ok_warm:
  assumes "calls_ok l" "at_phase k Connecting l"
  shows "calls_ok (take_warm k exited l)"
proof -
  obtain ph where ph: "works ph" "pl_calls (take_warm k exited l) = (pl_calls l)[k := (pl_calls l ! k)\<lparr>lc_phase := ph\<rparr>]"
    using take_warm_calls(1) by blast
  show ?thesis using assms(2) ph(1)
    by (intro calls_ok_phase [OF assms(1) _ _ _ ph(2) take_warm_calls(2)]) (auto simp: at_phase_def)
qed

lemma calls_ok_start:
  assumes "calls_ok l" "at_phase k Starting l"
  shows "calls_ok (start_agent k out late l)"
proof -
  obtain ph where ph: "works ph" "pl_calls (start_agent k out late l) = (pl_calls l)[k := (pl_calls l ! k)\<lparr>lc_phase := ph\<rparr>]"
    using start_calls(1) by blast
  show ?thesis using assms(2) ph(1)
    by (intro calls_ok_phase [OF assms(1) _ _ _ ph(2) start_calls(2)]) (auto simp: at_phase_def)
qed

lemma end_listing_calls:
  assumes "k < length (pl_calls l)" "lc_phase (pl_calls l ! k) = Asking cn"
  shows "\<exists>line. pl_calls (end_listing k res late now l) = (pl_calls l)[k := (pl_calls l ! k)\<lparr>lc_phase := Ended line\<rparr>]"
    "pl_pending (end_listing k res late now l) = pl_pending l"
  using assms by (auto simp: end_listing_def set_phase_def Let_def split: sum.splits)

lemma calls_ok_end:
  assumes "calls_ok l" "k < length (pl_calls l)"
  shows "calls_ok (end_listing k res late now l)"
proof (cases "lc_phase (pl_calls l ! k)")
  case (Asking cn)
  then obtain line where "pl_calls (end_listing k res late now l) = (pl_calls l)[k := (pl_calls l ! k)\<lparr>lc_phase := Ended line\<rparr>]"
    using end_listing_calls(1) [OF assms(2)] by blast
  then show ?thesis by (rule calls_ok_phase [OF assms, rotated 2]) (simp_all add: Asking end_listing_calls(2) [OF assms(2) Asking])
qed (use assms in \<open>auto simp: end_listing_def Let_def\<close>)

lemma release_slot_calls:
  assumes "lc_phase (pl_calls l ! k) = Ended line"
  shows "pl_calls (release_slot k l) = (pl_calls l)[k := (pl_calls l ! k)\<lparr>lc_phase := Returning line\<rparr>]"
    "pl_pending (release_slot k l) = pl_pending l"
  using assms by (simp_all add: release_slot_def set_phase_def)

lemma calls_ok_free:
  assumes "calls_ok l" "k < length (pl_calls l)"
  shows "calls_ok (release_slot k l)"
proof (cases "lc_phase (pl_calls l ! k)")
  case (Ended line)
  show ?thesis by (rule calls_ok_phase [OF assms _ _ release_slot_calls [OF Ended]]) (simp_all add: Ended)
qed (use assms in \<open>auto simp: release_slot_def\<close>)

lemma finish_calls:
  assumes "lc_phase (pl_calls l ! k) = Returning line"
  shows "pl_calls (finish_listing k now l) = (pl_calls l)[k := (pl_calls l ! k)\<lparr>lc_phase := Answered line, lc_cancelled := True\<rparr>]"
    "pl_pending (finish_listing k now l) = (if pl_pending l (lc_agent (pl_calls l ! k)) = Some k
       then (pl_pending l)(lc_agent (pl_calls l ! k) := None) else pl_pending l)"
  using assms by (simp_all add: finish_listing_def Let_def)

lemma calls_ok_finish:
  assumes "calls_ok l" "k < length (pl_calls l)"
  shows "calls_ok (finish_listing k now l)"
proof (cases "lc_phase (pl_calls l ! k)")
  case (Returning line)
  show ?thesis
    by (rule calls_ok_upd [OF assms finish_calls(1) [OF Returning]]) (simp_all add: finish_calls(2) [OF Returning] call_ok_def)
qed (use assms in \<open>auto simp: finish_listing_def Let_def\<close>)

lemma close_calls:
  "pl_calls (close_lister l) = map (\<lambda>(k, c). cancel_pending (pl_pending l) k c) (enumerate 0 (pl_calls l))"
  "length (pl_calls (close_lister l)) = length (pl_calls l)"
  "k < length (pl_calls l) \<Longrightarrow> pl_calls (close_lister l) ! k = cancel_pending (pl_pending l) k (pl_calls l ! k)"
  by (simp_all add: close_lister_def nth_enumerate_eq)

lemma cancel_pending_simps [simp]:
  "lc_agent (cancel_pending pending k c) = lc_agent c" "lc_phase (cancel_pending pending k c) = lc_phase c"
  "lc_started (cancel_pending pending k c) = lc_started c" "lc_waiters (cancel_pending pending k c) = lc_waiters c"
  by (simp_all add: cancel_pending_def)

lemma calls_ok_close:
  assumes "calls_ok l"
  shows "calls_ok (close_lister l)"
proof (rule calls_okI)
  fix k
  assume k: "k < length (pl_calls (close_lister l))"
  then show "call_ok (pl_pending (close_lister l)) k (pl_calls (close_lister l) ! k)"
    using calls_okD(1) [OF assms, of k] by (auto simp: close_calls call_ok_def close_lister_def cancel_pending_def nth_enumerate_eq)
next
  fix i k
  assume "pl_pending (close_lister l) i = Some k"
  then have "pl_pending l i = Some k" by (simp add: close_lister_def)
  then show "k < length (pl_calls (close_lister l)) \<and> lc_agent (pl_calls (close_lister l) ! k) = i"
    using calls_okD(2) [OF assms, of i k] close_calls(2,3) by simp
qed

lemma maintain_calls [simp]: "pl_calls (maintain now pressure l) = pl_calls l" "pl_pending (maintain now pressure l) = pl_pending l"
  by (auto simp: maintain_def Let_def split: option.splits)

lemma calls_ok_step:
  assumes "calls_ok l"
  shows "calls_ok (lister_step l ev)"
proof (cases ev)
  case (Warm_Expires i p)
  then show ?thesis using assms by (auto simp: warm_expires_def intro: calls_ok_same split: option.splits)
next
  case (Maintain now pressure)
  then show ?thesis by (auto intro: calls_ok_same [OF assms])
qed (use assms in \<open>auto simp: calls_ok_ask calls_ok_leave calls_ok_slot calls_ok_admit calls_ok_warm calls_ok_start calls_ok_end
      calls_ok_free calls_ok_finish calls_ok_close\<close>)

section \<open>Slots\<close>

lemma sum_list_upd:
  fixes g :: "'a \<Rightarrow> 'b::comm_monoid_add"
  shows "k < length xs \<Longrightarrow> sum_list (map g (xs[k := x])) + g (xs ! k) = sum_list (map g xs) + g x"
proof (induction xs arbitrary: k)
  case (Cons y ys)
  then show ?case by (cases k) (auto simp: ac_simps)
qed simp

definition slot_count :: "listing_call \<Rightarrow> nat" where
  "slot_count c = (if holds_slot (lc_phase c) then 1 else 0)"

definition slots_ok :: "lister \<Rightarrow> bool" where
  "slots_ok l \<longleftrightarrow> pl_slots l = sum_list (map slot_count (pl_calls l)) \<and> pl_slots l \<le> max_concurrent_agents"

lemma slots_upd:
  assumes "slots_ok l" "k < length (pl_calls l)" "pl_calls l' = (pl_calls l)[k := c]"
    and "pl_slots l' + slot_count (pl_calls l ! k) = pl_slots l + slot_count c" "pl_slots l' \<le> max_concurrent_agents"
  shows "slots_ok l'"
  using assms sum_list_upd [OF assms(2), of slot_count c] by (simp add: slots_ok_def)

lemma slots_same: "slots_ok l \<Longrightarrow> pl_calls l' = pl_calls l \<Longrightarrow> pl_slots l' = pl_slots l \<Longrightarrow> slots_ok l'"
  by (simp add: slots_ok_def)

lemma slot_held: "slots_ok l \<Longrightarrow> k < length (pl_calls l) \<Longrightarrow> slot_count (pl_calls l ! k) \<le> pl_slots l"
  unfolding slots_ok_def by (metis elem_le_sum_list length_map nth_map)

lemma slots_ok_step:
  assumes "slots_ok l"
  shows "slots_ok (lister_step l ev)"
proof (cases ev)
  case (Ask i err now)
  have "slots_ok (upd_call k (\<lambda>c. c\<lparr>lc_waiters := Suc (lc_waiters c)\<rparr>) l)" for k
  proof (cases "k < length (pl_calls l)")
    case True
    show ?thesis by (rule slots_upd [OF assms True upd_call_simps(9)]) (use assms in \<open>auto simp: slot_count_def slots_ok_def\<close>)
  qed (use assms in \<open>simp add: slots_ok_def linorder_not_less list_update_beyond\<close>)
  then show ?thesis using Ask assms by (auto simp: ask_line_def slots_ok_def slot_count_def split: option.splits)
next
  case (Leave k)
  show ?thesis
  proof (cases "k < length (pl_calls l) \<and> 0 < lc_waiters (pl_calls l ! k)")
    case True
    then show ?thesis using Leave assms
      by (intro slots_upd [OF assms, of k _ "pl_calls (release_requester k l) ! k"])
        (auto simp: release_requester_def Let_def slot_count_def slots_ok_def)
  qed (use assms Leave in \<open>auto simp: release_requester_def\<close>)
next
  case (Slot k ended)
  have "slots_ok (take_slot k ended l)" if q: "at_phase k Queued l"
  proof -
    have k: "k < length (pl_calls l)" "lc_phase (pl_calls l ! k) = Queued" using q by (auto simp: at_phase_def)
    consider "take_slot k ended l = l"
      | "take_slot k ended l = set_phase k (Returning (cancelled_line (lc_agent (pl_calls l ! k)))) l"
      | "take_slot k ended l = (set_phase k Slotted l)\<lparr>pl_slots := Suc (pl_slots l)\<rparr>" "pl_slots l < max_concurrent_agents"
      unfolding take_slot_def Let_def
      by (cases ended; cases "lc_cancelled (pl_calls l ! k)"; cases "pl_slots l < max_concurrent_agents") auto
    then show ?thesis
    proof cases
      case 2
      show ?thesis unfolding 2 set_phase_def
        by (rule slots_upd [OF assms k(1) upd_call_simps(9)]) (use assms k in \<open>simp_all add: slot_count_def slots_ok_def\<close>)
    next
      case 3
      have calls: "pl_calls ((set_phase k Slotted l)\<lparr>pl_slots := Suc (pl_slots l)\<rparr>) = (pl_calls l)[k := (pl_calls l ! k)\<lparr>lc_phase := Slotted\<rparr>]"
        by (simp add: set_phase_def)
      show ?thesis unfolding 3(1)
        by (rule slots_upd [OF assms k(1) calls]) (use assms k 3(2) in \<open>simp_all add: slot_count_def slots_ok_def set_phase_def\<close>)
    qed (simp add: assms)
  qed
  then show ?thesis using Slot assms by simp
next
  case (Admit k)
  show ?thesis
  proof (cases "at_phase k Slotted l")
    case True
    then have k: "k < length (pl_calls l)" "slot_count (pl_calls l ! k) = 1" by (auto simp: at_phase_def slot_count_def)
    have "slots_ok ((set_phase k (Returning line) l)\<lparr>pl_slots := pl_slots l - 1\<rparr>)" for line
      by (rule slots_upd [OF assms k(1), of _ "(pl_calls l ! k)\<lparr>lc_phase := Returning line\<rparr>"])
        (use assms slot_held [OF assms k(1)] k(2) in \<open>auto simp: set_phase_def slot_count_def slots_ok_def\<close>)
    moreover have "slots_ok (upd_call k (\<lambda>c. c\<lparr>lc_started := True, lc_phase := Connecting\<rparr>) l)"
      by (rule slots_upd [OF assms k(1) upd_call_simps(9)]) (use assms k(2) in \<open>simp_all add: slot_count_def slots_ok_def\<close>)
    ultimately show ?thesis using Admit True by (simp add: admit_listing_def Let_def)
  qed (use assms Admit in simp)
next
  case (Warm k exited)
  obtain ph where ph: "works ph" "pl_calls (take_warm k exited l) = (pl_calls l)[k := (pl_calls l ! k)\<lparr>lc_phase := ph\<rparr>]"
    using take_warm_calls(1) by blast
  have "holds_slot ph" using ph(1) by (cases ph) auto
  moreover have "pl_slots (take_warm k exited l) = pl_slots l" by (auto simp: take_warm_def set_phase_def Let_def split: option.splits)
  ultimately have "slots_ok (take_warm k exited l)" if "at_phase k Connecting l"
    using that assms by (intro slots_upd [OF assms _ ph(2)]) (auto simp: at_phase_def slot_count_def slots_ok_def)
  then show ?thesis using Warm assms by simp
next
  case (Start k out late)
  obtain ph where ph: "works ph" "pl_calls (start_agent k out late l) = (pl_calls l)[k := (pl_calls l ! k)\<lparr>lc_phase := ph\<rparr>]"
    using start_calls(1) by blast
  have "holds_slot ph" using ph(1) by (cases ph) auto
  moreover have "pl_slots (start_agent k out late l) = pl_slots l" by (auto simp: start_agent_def set_phase_def Let_def split: start_outcome.splits)
  ultimately have "slots_ok (start_agent k out late l)" if "at_phase k Starting l"
    using that assms by (intro slots_upd [OF assms _ ph(2)]) (auto simp: at_phase_def slot_count_def slots_ok_def)
  then show ?thesis using Start assms by simp
next
  case (List_Ended k res late now)
  have "slots_ok (end_listing k res late now l)" if k: "k < length (pl_calls l)"
  proof (cases "lc_phase (pl_calls l ! k)")
    case (Asking cn)
    obtain line where line: "pl_calls (end_listing k res late now l) = (pl_calls l)[k := (pl_calls l ! k)\<lparr>lc_phase := Ended line\<rparr>]"
      using end_listing_calls(1) [OF k Asking] by blast
    have "pl_slots (end_listing k res late now l) = pl_slots l" by (auto simp: end_listing_def set_phase_def Let_def split: call_phase.splits sum.splits)
    then show ?thesis using Asking assms by (intro slots_upd [OF assms k line]) (auto simp: slot_count_def slots_ok_def)
  qed (use assms in \<open>auto simp: end_listing_def Let_def\<close>)
  then show ?thesis using List_Ended assms by simp
next
  case (Free k)
  have "slots_ok (release_slot k l)" if k: "k < length (pl_calls l)"
  proof (cases "lc_phase (pl_calls l ! k)")
    case (Ended line)
    then have "slot_count (pl_calls l ! k) = 1" by (simp add: slot_count_def)
    moreover have "pl_slots (release_slot k l) = pl_slots l - 1" using Ended by (simp add: release_slot_def set_phase_def)
    ultimately show ?thesis using assms slot_held [OF assms k]
      by (intro slots_upd [OF assms k release_slot_calls(1) [OF Ended]]) (auto simp: slot_count_def slots_ok_def)
  qed (use assms in \<open>auto simp: release_slot_def\<close>)
  then show ?thesis using Free assms by simp
next
  case (Finish k now)
  have "slots_ok (finish_listing k now l)" if k: "k < length (pl_calls l)"
  proof (cases "lc_phase (pl_calls l ! k)")
    case (Returning line)
    have "pl_slots (finish_listing k now l) = pl_slots l" using Returning by (simp add: finish_listing_def Let_def)
    then show ?thesis using assms Returning
      by (intro slots_upd [OF assms k finish_calls(1) [OF Returning]]) (auto simp: slot_count_def slots_ok_def)
  qed (use assms in \<open>auto simp: finish_listing_def Let_def\<close>)
  then show ?thesis using Finish assms by simp
next
  case (Warm_Expires i p)
  then show ?thesis using assms by (auto simp: warm_expires_def intro: slots_same split: option.splits)
next
  case (Maintain now pressure)
  have "pl_slots (maintain now pressure l) = pl_slots l" by (auto simp: maintain_def Let_def split: option.splits)
  then show ?thesis using Maintain by (auto intro: slots_same [OF assms])
next
  case Close_Lister
  have "map slot_count (pl_calls (close_lister l)) = map slot_count (pl_calls l)"
    by (rule nth_equalityI) (simp_all add: close_calls(2) close_calls(3) slot_count_def)
  moreover have "pl_slots (close_lister l) = pl_slots l" by (simp add: close_lister_def)
  ultimately show ?thesis using Close_Lister assms by (simp add: slots_ok_def)
qed

section \<open>Processes\<close>

definition call_holds :: "listing_call \<Rightarrow> nat multiset" where
  "call_holds c = (case lc_phase c of Asking cn \<Rightarrow> {#cn_proc cn#} | _ \<Rightarrow> {#})"

definition warm_procs :: "(string \<times> agent_conn \<times> gtime) list \<Rightarrow> nat multiset" where
  "warm_procs ws = mset (map (\<lambda>x. cn_proc (fst (snd x))) ws)"

definition starts_or_asks :: "listing_call \<Rightarrow> bool" where
  "starts_or_asks c \<longleftrightarrow> lc_phase c = Starting \<or> (\<exists>cn. lc_phase c = Asking cn)"

definition lister_procs_ok :: "lister \<Rightarrow> bool" where
  "lister_procs_ok l \<longleftrightarrow>
     distinct (map fst (pl_warm l)) \<and>
     (\<forall>k < length (pl_calls l). starts_or_asks (pl_calls l ! k) \<longrightarrow> lc_agent (pl_calls l ! k) \<notin> fst ` set (pl_warm l)) \<and>
     sum_list (map call_holds (pl_calls l)) + warm_procs (pl_warm l) + mset (pl_stopping l) + mset (pl_abandoned l) = mset [0..<pl_next l]"

lemma warm_take:
  assumes "distinct (map fst ws)" "map_of ws i = Some (cn, u)"
  shows "warm_procs ws = add_mset (cn_proc cn) (warm_procs (filter (\<lambda>x. fst x \<noteq> i) ws))"
  using assms
proof (induction ws)
  case (Cons w ws)
  show ?case
  proof (cases "fst w = i")
    case True
    then have "filter (\<lambda>x. fst x \<noteq> i) ws = ws" using Cons.prems(1) by (auto simp: filter_id_conv image_iff)
    then show ?thesis using True Cons.prems(2) by (cases w) (simp add: warm_procs_def)
  next
    case False
    then have "map_of ws i = Some (cn, u)" "distinct (map fst ws)" using Cons.prems by (cases w; simp)+
    then show ?thesis using Cons.IH False by (simp add: warm_procs_def)
  qed
qed simp

lemma warm_untouched: "i \<notin> fst ` set ws \<Longrightarrow> filter (\<lambda>x. fst x \<noteq> i) ws = ws"
  by (auto simp: filter_id_conv image_iff)

lemma distinct_warm_filter: "distinct (map fst ws) \<Longrightarrow> distinct (map fst (filter P ws))"
  by (induction ws) auto

lemma procs_same:
  assumes "lister_procs_ok l" "map call_holds (pl_calls l') = map call_holds (pl_calls l)" "map starts_or_asks (pl_calls l') = map starts_or_asks (pl_calls l)"
    "map lc_agent (pl_calls l') = map lc_agent (pl_calls l)"
    "pl_warm l' = pl_warm l" "pl_stopping l' = pl_stopping l" "pl_abandoned l' = pl_abandoned l" "pl_next l' = pl_next l"
  shows "lister_procs_ok l'"
proof -
  have len: "length (pl_calls l') = length (pl_calls l)" using assms(4) by (rule map_eq_imp_length_eq)
  have "starts_or_asks (pl_calls l' ! k) = starts_or_asks (pl_calls l ! k) \<and> lc_agent (pl_calls l' ! k) = lc_agent (pl_calls l ! k)"
    if "k < length (pl_calls l)" for k
    using assms(3,4) len that by (metis nth_map)
  then show ?thesis using assms len by (simp add: lister_procs_ok_def)
qed

lemma balance:
  fixes s :: "'a::cancel_comm_monoid_add"
  assumes "s' + h = s + c" "s + w + t + a = n" "c + w' + t' + a' + n = h + w + t + a + n'"
  shows "s' + w' + t' + a' = n'"
proof -
  have "(s' + w' + t' + a') + (h + n) = (s' + h) + (w' + t' + a' + n)" by (simp add: ac_simps)
  also have "\<dots> = s + (c + w' + t' + a' + n)" unfolding assms(1) by (simp add: ac_simps)
  also have "\<dots> = (s + w + t + a) + (h + n')" unfolding assms(3) by (simp add: ac_simps)
  also have "\<dots> = n' + (h + n)" unfolding assms(2) by (simp add: ac_simps)
  finally show ?thesis by simp
qed

text \<open>One call moves on, and the processes move with it.\<close>

lemma procs_upd:
  assumes "lister_procs_ok l" "k < length (pl_calls l)" "pl_calls l' = (pl_calls l)[k := c]" "lc_agent c = lc_agent (pl_calls l ! k)"
    and "distinct (map fst (pl_warm l'))"
    and "\<And>n. n < length (pl_calls l) \<Longrightarrow> n \<noteq> k \<Longrightarrow> starts_or_asks (pl_calls l ! n) \<Longrightarrow> lc_agent (pl_calls l ! n) \<notin> fst ` set (pl_warm l')"
    and "starts_or_asks c \<Longrightarrow> lc_agent c \<notin> fst ` set (pl_warm l')"
    and "call_holds c + warm_procs (pl_warm l') + mset (pl_stopping l') + mset (pl_abandoned l') + mset [0..<pl_next l] =
      call_holds (pl_calls l ! k) + warm_procs (pl_warm l) + mset (pl_stopping l) + mset (pl_abandoned l) + mset [0..<pl_next l']"
  shows "lister_procs_ok l'"
proof -
  have "sum_list (map call_holds (pl_calls l')) + call_holds (pl_calls l ! k) = sum_list (map call_holds (pl_calls l)) + call_holds c"
    using sum_list_upd [OF assms(2), of call_holds c] assms(3) by simp
  moreover have "sum_list (map call_holds (pl_calls l)) + warm_procs (pl_warm l) + mset (pl_stopping l) + mset (pl_abandoned l) = mset [0..<pl_next l]"
    using assms(1) by (simp add: lister_procs_ok_def)
  ultimately have "sum_list (map call_holds (pl_calls l')) + warm_procs (pl_warm l') + mset (pl_stopping l') + mset (pl_abandoned l') = mset [0..<pl_next l']"
    using assms(8) by (rule balance)
  moreover have "lc_agent (pl_calls l' ! n) \<notin> fst ` set (pl_warm l')" if "n < length (pl_calls l')" "starts_or_asks (pl_calls l' ! n)" for n
    using that assms(2-4,6,7) by (cases "n = k") auto
  ultimately show ?thesis using assms(5) by (simp add: lister_procs_ok_def)
qed

lemma procs_call:
  assumes "lister_procs_ok l" "k < length (pl_calls l)" "pl_calls l' = (pl_calls l)[k := c]" "lc_agent c = lc_agent (pl_calls l ! k)"
    and "call_holds c = call_holds (pl_calls l ! k)" "starts_or_asks c \<Longrightarrow> starts_or_asks (pl_calls l ! k)"
    and "pl_warm l' = pl_warm l" "pl_stopping l' = pl_stopping l" "pl_abandoned l' = pl_abandoned l" "pl_next l' = pl_next l"
  shows "lister_procs_ok l'"
  by (rule procs_upd [OF assms(1-4)]) (use assms in \<open>auto simp: lister_procs_ok_def\<close>)

lemma procs_ask:
  assumes "lister_procs_ok l"
  shows "lister_procs_ok (snd (ask_line i err now l))"
proof -
  have "lister_procs_ok (upd_call k (\<lambda>c. c\<lparr>lc_waiters := Suc (lc_waiters c)\<rparr>) l)" for k
  proof (cases "k < length (pl_calls l)")
    case True
    show ?thesis by (rule procs_call [OF assms True upd_call_simps(9)]) (simp_all add: call_holds_def starts_or_asks_def)
  qed (use assms in \<open>simp add: lister_procs_ok_def linorder_not_less list_update_beyond\<close>)
  then show ?thesis using assms
    by (auto simp: ask_line_def lister_procs_ok_def call_holds_def starts_or_asks_def nth_append less_Suc_eq split: option.splits)
qed

lemma leave_calls:
  assumes "k < length (pl_calls l)" "0 < lc_waiters (pl_calls l ! k)"
  shows "\<exists>c. pl_calls (release_requester k l) = (pl_calls l)[k := c] \<and> lc_agent c = lc_agent (pl_calls l ! k) \<and> lc_phase c = lc_phase (pl_calls l ! k)"
    "pl_warm (release_requester k l) = pl_warm l" "pl_stopping (release_requester k l) = pl_stopping l"
    "pl_abandoned (release_requester k l) = pl_abandoned l" "pl_next (release_requester k l) = pl_next l"
  using assms
  by (auto simp: release_requester_def Let_def intro: exI [of _ "(pl_calls l ! k)\<lparr>lc_waiters := n\<rparr>" for n]
      exI [of _ "(pl_calls l ! k)\<lparr>lc_waiters := n, lc_cancelled := True\<rparr>" for n])

lemma procs_leave:
  assumes "lister_procs_ok l"
  shows "lister_procs_ok (release_requester k l)"
proof (cases "k < length (pl_calls l) \<and> 0 < lc_waiters (pl_calls l ! k)")
  case True
  then obtain c where "pl_calls (release_requester k l) = (pl_calls l)[k := c]" "lc_agent c = lc_agent (pl_calls l ! k)" "lc_phase c = lc_phase (pl_calls l ! k)"
    using leave_calls(1) by blast
  then show ?thesis using True leave_calls(2-5)
    by (intro procs_call [OF assms, of k _ c]) (simp_all add: call_holds_def starts_or_asks_def)
qed (use assms in \<open>auto simp: release_requester_def\<close>)

lemma procs_slot:
  assumes "lister_procs_ok l" "at_phase k Queued l"
  shows "lister_procs_ok (take_slot k ended l)"
proof -
  have k: "k < length (pl_calls l)" "lc_phase (pl_calls l ! k) = Queued" using assms(2) by (auto simp: at_phase_def)
  have "lister_procs_ok ((set_phase k ph l)\<lparr>pl_slots := n\<rparr>)" if "ph = Slotted \<or> (\<exists>line. ph = Returning line)" for ph n
    by (rule procs_call [OF assms(1) k(1), of _ "(pl_calls l ! k)\<lparr>lc_phase := ph\<rparr>"])
      (use that k in \<open>auto simp: set_phase_def call_holds_def starts_or_asks_def\<close>)
  from this [of Slotted "Suc (pl_slots l)"] this [of "Returning (cancelled_line (lc_agent (pl_calls l ! k)))" "pl_slots l"]
  show ?thesis using assms(1) by (auto simp: take_slot_def Let_def set_phase_def upd_call_def)
qed

lemma procs_admit:
  assumes "lister_procs_ok l" "at_phase k Slotted l"
  shows "lister_procs_ok (admit_listing k l)"
proof -
  have k: "k < length (pl_calls l)" "lc_phase (pl_calls l ! k) = Slotted" using assms(2) by (auto simp: at_phase_def)
  have "lister_procs_ok ((set_phase k (Returning line) l)\<lparr>pl_slots := n\<rparr>)" for line n
    by (rule procs_call [OF assms(1) k(1), of _ "(pl_calls l ! k)\<lparr>lc_phase := Returning line\<rparr>"])
      (use k in \<open>auto simp: set_phase_def call_holds_def starts_or_asks_def\<close>)
  moreover have "lister_procs_ok (upd_call k (\<lambda>c. c\<lparr>lc_started := True, lc_phase := Connecting\<rparr>) l)"
    by (rule procs_call [OF assms(1) k(1) upd_call_simps(9)]) (use k in \<open>auto simp: call_holds_def starts_or_asks_def\<close>)
  ultimately show ?thesis by (simp add: admit_listing_def Let_def)
qed

lemma procs_free:
  assumes "lister_procs_ok l" "k < length (pl_calls l)"
  shows "lister_procs_ok (release_slot k l)"
proof (cases "lc_phase (pl_calls l ! k)")
  case (Ended line)
  show ?thesis
    by (rule procs_call [OF assms release_slot_calls(1) [OF Ended]]) (use Ended in \<open>simp_all add: call_holds_def starts_or_asks_def release_slot_def set_phase_def\<close>)
qed (use assms in \<open>auto simp: release_slot_def\<close>)

lemma procs_finish:
  assumes "lister_procs_ok l" "k < length (pl_calls l)"
  shows "lister_procs_ok (finish_listing k now l)"
proof (cases "lc_phase (pl_calls l ! k)")
  case (Returning line)
  show ?thesis
    by (rule procs_call [OF assms finish_calls(1) [OF Returning]]) (use Returning in \<open>simp_all add: call_holds_def starts_or_asks_def finish_listing_def Let_def\<close>)
qed (use assms in \<open>auto simp: finish_listing_def Let_def\<close>)

text \<open>In flight, an agent has one call.\<close>

lemma works_unanswered: "works ph \<Longrightarrow> \<not> answered ph"
  by (cases ph) auto

lemma one_call:
  assumes "calls_ok l" "n < length (pl_calls l)" "k < length (pl_calls l)" "works (lc_phase (pl_calls l ! n))" "works (lc_phase (pl_calls l ! k))"
    and "lc_agent (pl_calls l ! n) = lc_agent (pl_calls l ! k)"
  shows "n = k"
proof -
  have pending: "pl_pending l (lc_agent (pl_calls l ! m)) = Some m" if "m < length (pl_calls l)" "works (lc_phase (pl_calls l ! m))" for m
    using calls_okD(1) [OF assms(1) that(1)] that(2) works_unanswered unfolding call_ok_def by blast
  show ?thesis using pending [OF assms(2,4)] pending [OF assms(3,5)] assms(6) by (metis option.inject)
qed

lemma starts_works: "starts_or_asks c \<Longrightarrow> works (lc_phase c)"
  by (auto simp: starts_or_asks_def)

lemma procs_warm_parts:
  assumes "lister_procs_ok l"
  shows "distinct (map fst (pl_warm l))"
    "k < length (pl_calls l) \<Longrightarrow> starts_or_asks (pl_calls l ! k) \<Longrightarrow> lc_agent (pl_calls l ! k) \<notin> fst ` set (pl_warm l)"
  using assms by (auto simp: lister_procs_ok_def)

lemma procs_take_warm:
  assumes "lister_procs_ok l" "at_phase k Connecting l"
  shows "lister_procs_ok (take_warm k exited l)"
proof -
  let ?i = "lc_agent (pl_calls l ! k)" and ?ws = "filter (\<lambda>x. fst x \<noteq> lc_agent (pl_calls l ! k)) (pl_warm l)"
  have k: "k < length (pl_calls l)" "call_holds (pl_calls l ! k) = {#}" using assms(2) by (auto simp: at_phase_def call_holds_def)
  note parts = procs_warm_parts [OF assms(1)]
  have moved: "lister_procs_ok l'"
    if "pl_calls l' = (pl_calls l)[k := (pl_calls l ! k)\<lparr>lc_phase := ph\<rparr>]" "pl_warm l' = ?ws" "pl_abandoned l' = pl_abandoned l" "pl_next l' = pl_next l"
      and "call_holds ((pl_calls l ! k)\<lparr>lc_phase := ph\<rparr>) + warm_procs ?ws + mset (pl_stopping l') = warm_procs (pl_warm l) + mset (pl_stopping l)"
    for l' ph
  proof (rule procs_upd [OF assms(1) k(1) that(1)])
    show "call_holds ((pl_calls l ! k)\<lparr>lc_phase := ph\<rparr>) + warm_procs (pl_warm l') + mset (pl_stopping l') + mset (pl_abandoned l') + mset [0..<pl_next l] =
      call_holds (pl_calls l ! k) + warm_procs (pl_warm l) + mset (pl_stopping l) + mset (pl_abandoned l) + mset [0..<pl_next l']"
      using that(5) unfolding that(2-4) k(2) by simp
  qed (use that(2) parts in \<open>auto simp: distinct_warm_filter\<close>)
  show ?thesis
  proof (cases "map_of (pl_warm l) ?i")
    case None
    have "?ws = pl_warm l" using None by (intro warm_untouched) (auto simp: map_of_eq_None_iff)
    then show ?thesis using None by (intro moved [of _ Starting]) (simp_all add: take_warm_def set_phase_def call_holds_def)
  next
    case (Some cu)
    obtain cn u where cu: "cu = (cn, u)" by (cases cu) auto
    note taken = warm_take [OF parts(1) Some [unfolded cu]]
    show ?thesis
    proof (cases exited)
      case True
      then show ?thesis using Some cu taken by (intro moved [of _ Starting]) (simp_all add: take_warm_def set_phase_def call_holds_def)
    next
      case False
      then show ?thesis using Some cu taken by (intro moved [of _ "Asking cn"]) (simp_all add: take_warm_def set_phase_def call_holds_def)
    qed
  qed
qed

lemma procs_start:
  assumes "lister_procs_ok l" "at_phase k Starting l"
  shows "lister_procs_ok (start_agent k out late l)"
proof -
  have k: "k < length (pl_calls l)" "call_holds (pl_calls l ! k) = {#}" "starts_or_asks (pl_calls l ! k)"
    using assms(2) by (auto simp: at_phase_def call_holds_def starts_or_asks_def)
  note parts = procs_warm_parts [OF assms(1)]
  have moved: "lister_procs_ok l'"
    if "pl_calls l' = (pl_calls l)[k := (pl_calls l ! k)\<lparr>lc_phase := ph\<rparr>]" "pl_warm l' = pl_warm l" "pl_abandoned l' = pl_abandoned l"
      and "call_holds ((pl_calls l ! k)\<lparr>lc_phase := ph\<rparr>) + mset (pl_stopping l') + mset [0..<pl_next l] = mset (pl_stopping l) + mset [0..<pl_next l']"
    for l' ph
  proof (rule procs_upd [OF assms(1) k(1) that(1)])
    show "call_holds ((pl_calls l ! k)\<lparr>lc_phase := ph\<rparr>) + warm_procs (pl_warm l') + mset (pl_stopping l') + mset (pl_abandoned l') + mset [0..<pl_next l] =
      call_holds (pl_calls l ! k) + warm_procs (pl_warm l) + mset (pl_stopping l) + mset (pl_abandoned l) + mset [0..<pl_next l']"
      using that(4) unfolding that(2,3) k(2) by (simp add: ac_simps)
  qed (use that(2) parts(1) parts(2) [OF _ ] parts(2) [OF k(1,3)] in auto)
  show ?thesis
  proof (cases out)
    case (No_Process err)
    then show ?thesis by (intro moved [of _ "Ended (error_line (lc_agent (pl_calls l ! k)) err (late \<or> lc_cancelled (pl_calls l ! k)))"])
      (simp_all add: start_agent_def set_phase_def call_holds_def Let_def)
  next
    case (Bad_Start err)
    then show ?thesis by (intro moved [of _ "Ended (error_line (lc_agent (pl_calls l ! k)) err (late \<or> lc_cancelled (pl_calls l ! k)))"])
      (simp_all add: start_agent_def set_phase_def call_holds_def Let_def)
  next
    case (Good_Start caps)
    then show ?thesis by (intro moved [of _ "Asking \<lparr>cn_proc = pl_next l, cn_caps = caps\<rparr>"])
      (simp_all add: start_agent_def set_phase_def call_holds_def Let_def)
  qed
qed

lemma procs_end:
  assumes "lister_procs_ok l" "calls_ok l" "k < length (pl_calls l)"
  shows "lister_procs_ok (end_listing k res late now l)"
proof (cases "lc_phase (pl_calls l ! k)")
  case (Asking cn)
  let ?i = "lc_agent (pl_calls l ! k)" and ?l' = "end_listing k res late now l"
  have sa: "starts_or_asks (pl_calls l ! k)" and call_holds: "call_holds (pl_calls l ! k) = {#cn_proc cn#}"
    using Asking by (simp_all add: starts_or_asks_def call_holds_def)
  note parts = procs_warm_parts [OF assms(1)]
  note free = parts(2) [OF assms(3) sa]
  have alone: "lc_agent (pl_calls l ! n) \<noteq> ?i" if "n < length (pl_calls l)" "n \<noteq> k" "starts_or_asks (pl_calls l ! n)" for n
    using one_call [OF assms(2) that(1) assms(3) starts_works [OF that(3)] starts_works [OF sa]] that(2) by blast
  obtain line where line: "pl_calls ?l' = (pl_calls l)[k := (pl_calls l ! k)\<lparr>lc_phase := Ended line\<rparr>]"
    using end_listing_calls(1) [OF assms(3) Asking] by blast
  have nxt: "pl_next ?l' = pl_next l" by (auto simp: end_listing_def set_phase_def Let_def split: call_phase.splits sum.splits)
  have "pl_warm ?l' = pl_warm l \<and> mset (pl_stopping ?l') + mset (pl_abandoned ?l') = add_mset (cn_proc cn) (mset (pl_stopping l) + mset (pl_abandoned l)) \<or>
    pl_warm ?l' = (?i, cn, now) # pl_warm l \<and> pl_stopping ?l' = pl_stopping l \<and> pl_abandoned ?l' = pl_abandoned l"
    using Asking warm_untouched [OF free] by (auto simp: end_listing_def set_phase_def keep_warm_def Let_def split: sum.splits)
  then consider "pl_warm ?l' = pl_warm l" "mset (pl_stopping ?l') + mset (pl_abandoned ?l') = add_mset (cn_proc cn) (mset (pl_stopping l) + mset (pl_abandoned l))"
    | "pl_warm ?l' = (?i, cn, now) # pl_warm l" "pl_stopping ?l' = pl_stopping l" "pl_abandoned ?l' = pl_abandoned l"
    by blast
  then show ?thesis
  proof cases
    case 1
    show ?thesis
    proof (rule procs_upd [OF assms(1,3) line])
      show "call_holds ((pl_calls l ! k)\<lparr>lc_phase := Ended line\<rparr>) + warm_procs (pl_warm ?l') + mset (pl_stopping ?l') + mset (pl_abandoned ?l') + mset [0..<pl_next l] =
        call_holds (pl_calls l ! k) + warm_procs (pl_warm l) + mset (pl_stopping l) + mset (pl_abandoned l) + mset [0..<pl_next ?l']"
        using 1(2) unfolding 1(1) call_holds nxt by (simp add: call_holds_def add.assoc)
    qed (use 1(1) parts in \<open>simp_all add: starts_or_asks_def\<close>)
  next
    case 2
    show ?thesis
    proof (rule procs_upd [OF assms(1,3) line])
      show "call_holds ((pl_calls l ! k)\<lparr>lc_phase := Ended line\<rparr>) + warm_procs (pl_warm ?l') + mset (pl_stopping ?l') + mset (pl_abandoned ?l') + mset [0..<pl_next l] =
        call_holds (pl_calls l ! k) + warm_procs (pl_warm l) + mset (pl_stopping l) + mset (pl_abandoned l) + mset [0..<pl_next ?l']"
        unfolding 2 call_holds nxt by (simp add: call_holds_def warm_procs_def)
      show "lc_agent (pl_calls l ! n) \<notin> fst ` set (pl_warm ?l')" if "n < length (pl_calls l)" "n \<noteq> k" "starts_or_asks (pl_calls l ! n)" for n
        using alone [OF that] parts(2) [OF that(1,3)] by (simp add: 2(1))
    qed (use 2(1) parts(1) free in \<open>simp_all add: starts_or_asks_def\<close>)
  qed
qed (use assms in \<open>auto simp: end_listing_def Let_def\<close>)

lemma procs_drop_warm:
  assumes "lister_procs_ok l" "map_of (pl_warm l) i = Some (cn, u)" "pl_calls l' = pl_calls l" "pl_warm l' = filter (\<lambda>x. fst x \<noteq> i) (pl_warm l)"
    "pl_stopping l' = cn_proc cn # pl_stopping l" "pl_abandoned l' = pl_abandoned l" "pl_next l' = pl_next l"
  shows "lister_procs_ok l'"
proof -
  note parts = procs_warm_parts [OF assms(1)]
  have "sum_list (map call_holds (pl_calls l)) + warm_procs (pl_warm l) + mset (pl_stopping l) + mset (pl_abandoned l) = mset [0..<pl_next l]"
    using assms(1) by (simp add: lister_procs_ok_def)
  then show ?thesis using warm_take [OF parts(1) assms(2)] parts unfolding lister_procs_ok_def assms(3-7) by (auto simp: distinct_warm_filter)
qed

lemma oldest_warm_mem: "oldest_warm ws best = Some x \<Longrightarrow> x \<in> set ws \<or> best = Some x"
  by (induction ws best rule: oldest_warm.induct) (auto split: option.splits if_splits)

lemma procs_maintain:
  assumes "lister_procs_ok l"
  shows "lister_procs_ok (maintain now pressure l)"
proof (cases "pl_closed l \<or> \<not> pressure \<or> oldest_warm (pl_warm l) None = None")
  case True
  then show ?thesis by (intro procs_same [OF assms]) (auto simp: maintain_def Let_def)
next
  case False
  then obtain i cn u where best: "oldest_warm (pl_warm l) None = Some (i, cn, u)" by auto
  then have "map_of (pl_warm l) i = Some (cn, u)"
    using oldest_warm_mem [OF best] procs_warm_parts(1) [OF assms] by simp
  then show ?thesis by (rule procs_drop_warm [OF assms]) (use False best in \<open>simp_all add: maintain_def Let_def\<close>)
qed

lemma procs_close:
  assumes "lister_procs_ok l"
  shows "lister_procs_ok (close_lister l)"
proof -
  have "map call_holds (pl_calls (close_lister l)) = map call_holds (pl_calls l)"
    by (rule nth_equalityI) (simp_all add: close_calls(2) close_calls(3) call_holds_def)
  moreover have "sum_list (map call_holds (pl_calls l)) + warm_procs (pl_warm l) + mset (pl_stopping l) + mset (pl_abandoned l) = mset [0..<pl_next l]"
    using assms by (simp add: lister_procs_ok_def)
  moreover have "pl_warm (close_lister l) = []" "pl_stopping (close_lister l) = map (\<lambda>x. cn_proc (fst (snd x))) (pl_warm l) @ pl_stopping l"
    "pl_abandoned (close_lister l) = pl_abandoned l" "pl_next (close_lister l) = pl_next l"
    by (simp_all add: close_lister_def)
  ultimately show ?thesis unfolding lister_procs_ok_def by (simp add: warm_procs_def add.assoc)
qed

definition lister_ok :: "lister \<Rightarrow> bool" where
  "lister_ok l \<longleftrightarrow> calls_ok l \<and> slots_ok l \<and> lister_procs_ok l"

lemma lister_procs_ok_step:
  assumes "lister_procs_ok l" "calls_ok l"
  shows "lister_procs_ok (lister_step l ev)"
proof (cases ev)
  case (Warm_Expires i p)
  have "lister_procs_ok (warm_expires i p l)"
  proof (cases "\<exists>cn u. map_of (pl_warm l) i = Some (cn, u) \<and> cn_proc cn = p")
    case True
    then obtain cn u where cn: "map_of (pl_warm l) i = Some (cn, u)" "cn_proc cn = p" by auto
    show ?thesis by (rule procs_drop_warm [OF assms(1) cn(1)]) (simp_all add: warm_expires_def cn)
  qed (use assms(1) in \<open>auto simp: warm_expires_def split: option.splits\<close>)
  then show ?thesis using Warm_Expires by simp
qed (use assms in \<open>auto simp: procs_ask procs_leave procs_slot procs_admit procs_take_warm procs_start procs_end procs_free
      procs_finish procs_maintain procs_close\<close>)

lemma lister_ok_step: "lister_ok l \<Longrightarrow> lister_ok (lister_step l ev)"
  by (simp add: lister_ok_def calls_ok_step slots_ok_step lister_procs_ok_step)

interpretation lister: invariant_machine lister_step lister_ok "\<lambda>ev. True"
  by unfold_locales (rule lister_ok_step)

lemma lister_ok_new: "lister_ok new_lister"
  by (simp add: lister_ok_def calls_ok_def slots_ok_def lister_procs_ok_def new_lister_def warm_procs_def)

lemma lister_ok_run: "lister_ok (run lister_step new_lister evs)"
  by (rule lister.run_inv [OF lister_ok_new]) (simp add: list_all_iff)

section \<open>What follows\<close>

lemma distinct_filter_nth:
  assumes "\<And>m n. m < length xs \<Longrightarrow> n < length xs \<Longrightarrow> P (xs ! m) \<Longrightarrow> P (xs ! n) \<Longrightarrow> f (xs ! m) = f (xs ! n) \<Longrightarrow> m = n"
  shows "distinct (map f (filter P xs))"
  using assms
proof (induction xs)
  case (Cons x xs)
  have "f x \<notin> f ` {y \<in> set xs. P y}" if "P x"
  proof
    assume "f x \<in> f ` {y \<in> set xs. P y}"
    then obtain n where "n < length xs" "P (xs ! n)" "f x = f (xs ! n)" by (auto simp: in_set_conv_nth)
    then show False using Cons.prems [of 0 "Suc n"] that by simp
  qed
  moreover have "distinct (map f (filter P xs))"
    by (rule Cons.IH) (use Cons.prems [of "Suc m" "Suc n" for m n] in auto)
  ultimately show ?case by auto
qed simp

definition listings_running :: "lister \<Rightarrow> nat" where
  "listings_running l = length (filter (\<lambda>c. holds_slot (lc_phase c)) (pl_calls l))"

definition listed_agents :: "lister \<Rightarrow> string list" where
  "listed_agents l = map lc_agent (filter (\<lambda>c. works (lc_phase c)) (pl_calls l))"

definition agents_with_process :: "lister \<Rightarrow> string list" where
  "agents_with_process l = map fst (pl_warm l) @ map lc_agent (filter starts_or_asks (pl_calls l))"

lemma slot_sum: "sum_list (map slot_count cs) = length (filter (\<lambda>c. holds_slot (lc_phase c)) cs)"
  by (induction cs) (auto simp: slot_count_def)

lemma bounded_of_ok:
  assumes "lister_ok l"
  shows "listings_running l \<le> max_concurrent_agents" "distinct (listed_agents l)" "distinct (agents_with_process l)"
proof -
  have ok: "calls_ok l" "slots_ok l" "lister_procs_ok l" using assms by (auto simp: lister_ok_def)
  show "listings_running l \<le> max_concurrent_agents" using ok(2) by (simp add: slots_ok_def listings_running_def slot_sum)
  show "distinct (listed_agents l)" unfolding listed_agents_def
    by (rule distinct_filter_nth) (rule one_call [OF ok(1)])
  have "distinct (map lc_agent (filter starts_or_asks (pl_calls l)))"
    by (rule distinct_filter_nth) (rule one_call [OF ok(1)], auto intro: starts_works)
  moreover have "lc_agent c \<notin> fst ` set (pl_warm l)" if "c \<in> set (pl_calls l)" "starts_or_asks c" for c
    using procs_warm_parts(2) [OF ok(3)] that by (auto simp: in_set_conv_nth)
  ultimately show "distinct (agents_with_process l)"
    using procs_warm_parts(1) [OF ok(3)] unfolding agents_with_process_def by (force simp: image_iff)
qed

text \<open>
  C22: Listing is bounded (\<^verbatim>\<open>internal/projects/lister.go\<close>, \<^verbatim>\<open>queue.go\<close>). Whatever devices ask for and however requests, listings,
  timers, memory pressure and the shutdown interleave: at most four listings run, no agent is listed twice at a
  time, and no agent has two processes that are listing or kept warm.
\<close>

theorem lister_stays_bounded:
  "listings_running (run lister_step new_lister evs) \<le> max_concurrent_agents \<and>
   distinct (listed_agents (run lister_step new_lister evs)) \<and> distinct (agents_with_process (run lister_step new_lister evs))"
  using bounded_of_ok [OF lister_ok_run] by blast

lemma closed_step: "(pl_closed l \<longrightarrow> pl_warm l = []) \<Longrightarrow> pl_closed (lister_step l ev) \<longrightarrow> pl_warm (lister_step l ev) = []"
  by (cases ev)
    (auto simp: ask_line_def release_requester_def take_slot_def admit_listing_def take_warm_def start_agent_def end_listing_def
      keep_warm_def release_slot_def finish_listing_def warm_expires_def maintain_def close_lister_def set_phase_def Let_def
      split: option.splits start_outcome.splits sum.splits call_phase.splits)

interpretation closed_lister: invariant_machine lister_step "\<lambda>l. pl_closed l \<longrightarrow> pl_warm l = []" "\<lambda>ev. True"
  by unfold_locales (rule closed_step)

lemma closed_run: "pl_closed (run lister_step new_lister evs) \<Longrightarrow> pl_warm (run lister_step new_lister evs) = []"
  using closed_lister.run_inv [of new_lister evs] by (simp add: new_lister_def list_all_iff)

text \<open>
  C23: A closed lister leaves no process of its own (\<^verbatim>\<open>Close\<close> in \<^verbatim>\<open>internal/projects/lister.go\<close>). After any interleaving, once
  the lister is closed and no listing talks to a process any more, every process that was ever started has been
  handed to be stopped exactly once, but for those whose listing succeeded when its context had just ended.
\<close>

theorem closed_lister_stops_processes:
  assumes "l = run lister_step new_lister evs" "pl_closed l" "\<forall>c \<in> set (pl_calls l). \<not> starts_or_asks c"
  shows "mset (pl_stopping l) + mset (pl_abandoned l) = mset [0..<pl_next l]"
proof -
  have "lister_procs_ok l" using lister_ok_run [of evs] assms(1) by (simp add: lister_ok_def)
  then have "sum_list (map call_holds (pl_calls l)) + warm_procs (pl_warm l) + mset (pl_stopping l) + mset (pl_abandoned l) = mset [0..<pl_next l]"
    by (simp add: lister_procs_ok_def)
  moreover have "sum_list (map call_holds cs) = {#}" if "\<forall>c \<in> set cs. \<not> starts_or_asks c" for cs
    using that by (induction cs) (auto simp: call_holds_def starts_or_asks_def split: call_phase.splits)
  then have "sum_list (map call_holds (pl_calls l)) = {#}" using assms(3) by simp
  moreover have "pl_warm l = []" using closed_run assms(1,2) by simp
  ultimately show ?thesis by (simp add: warm_procs_def)
qed

section \<open>Examples\<close>

text \<open>One device asks for an agent, which is listed and kept warm; then the gateway shuts down.\<close>

definition listing_events :: "bool \<Rightarrow> lister_event list" where
  "listing_events late =
     [Ask ''a'' None 0, Slot 0 False, Admit 0, Warm 0 False, Start 0 (Good_Start ''{}'') False, List_Ended 0 (Inr []) late 1,
      Free 0, Finish 0 2, Leave 0, Close_Lister]"

theorem closed_lister_stops_processes_witness:
  "mset (pl_stopping (run lister_step new_lister (listing_events False))) + mset (pl_abandoned (run lister_step new_lister (listing_events False)))
     = mset [0..<1]"
proof -
  let ?l = "run lister_step new_lister (listing_events False)"
  have state: "pl_closed ?l \<and> list_all (\<lambda>c. \<not> starts_or_asks c) (pl_calls ?l) \<and> pl_next ?l = 1"
    by (simp add: listing_events_def new_lister_def ask_line_def take_slot_def admit_listing_def take_warm_def start_agent_def end_listing_def
        keep_warm_def release_slot_def finish_listing_def release_requester_def close_lister_def set_phase_def upd_call_def at_phase_def
        max_concurrent_agents_def cancel_pending_def starts_or_asks_def Let_def)
  then show ?thesis using closed_lister_stops_processes [OF refl, of "listing_events False"] by (simp add: list_all_iff)
qed

text \<open>
  A process is lost when the context of a listing ends after the agent's last answer and before it is looked at: the
  line is reported as timed out, and the process is neither kept warm nor discarded. It runs on after the shutdown.
\<close>

theorem listing_loses_process:
  "pl_closed (run lister_step new_lister (listing_events True)) \<and> pl_stopping (run lister_step new_lister (listing_events True)) = [] \<and>
   pl_next (run lister_step new_lister (listing_events True)) = 1"
  by (simp add: listing_events_def new_lister_def ask_line_def take_slot_def admit_listing_def take_warm_def start_agent_def end_listing_def
      keep_warm_def release_slot_def finish_listing_def release_requester_def close_lister_def set_phase_def upd_call_def at_phase_def
      max_concurrent_agents_def cancel_pending_def Let_def)

end
