(* ===== verification/Project_Home.thy ===== *)
theory Project_Home
  imports Project_Lister Api_Workspace
begin

text \<open>
  The project home: where a chat belongs (\<^verbatim>\<open>internal/projects/repo.go\<close>), the branches and worktrees of every repository
  (\<^verbatim>\<open>checkouts.go\<close>), the memory pressure the lister reacts to (\<^verbatim>\<open>pressure.go\<close>), and the endpoint that streams all of it
  (\<^verbatim>\<open>internal/api/projects.go\<close>). The order in which agents finish, the order of a Go map and whether the request has ended
  are arguments. The write deadline of each line is not modelled.
\<close>

section \<open>Repositories\<close>

record repo_info =
  rp_repo :: string
  rp_worktree :: "string option"

definition resolve_repo :: "git \<Rightarrow> (string \<Rightarrow> string option) \<Rightarrow> string \<Rightarrow> repo_info" where
  "resolve_repo git eval cwd =
     (let dir = (case eval cwd of None \<Rightarrow> cwd | Some r \<Rightarrow> r); outside = \<lparr>rp_repo = dir, rp_worktree = None\<rparr>
      in case git dir [''rev-parse'', ''--path-format=absolute'', ''--git-common-dir'', ''--git-dir'', ''--show-toplevel''] of
           Inl _ \<Rightarrow> outside
         | Inr out \<Rightarrow>
             (case split_at line_feed (trim_space out) of
                [common, git_dir, checkout] \<Rightarrow>
                  \<lparr>rp_repo = (if path_base common = ''.git'' then path_dir common else common),
                   rp_worktree = (if git_dir \<noteq> common then Some checkout else None)\<rparr>
              | _ \<Rightarrow> outside))"

type_synonym repo_cache = "string \<rightharpoonup> repo_info"

definition cached_resolve :: "git \<Rightarrow> (string \<Rightarrow> string option) \<Rightarrow> bool \<Rightarrow> string \<Rightarrow> repo_cache \<Rightarrow> repo_info \<times> repo_cache" where
  "cached_resolve git eval ended cwd cache =
     (case cache cwd of
        Some info \<Rightarrow> (info, cache)
      | None \<Rightarrow> let info = resolve_repo git eval cwd in (info, if ended then cache else cache(cwd \<mapsto> info)))"

definition missing_folder :: "(string \<Rightarrow> file_kind) \<Rightarrow> bool \<Rightarrow> string \<Rightarrow> bool" where
  "missing_folder stat ended p \<longleftrightarrow> \<not> ended \<and> p \<noteq> [] \<and> stat p = Absent"

section \<open>Placing chats\<close>

record placing =
  pg_cache :: repo_cache
  pg_known :: "string list"
  pg_chats :: "chat list"

definition place_chat :: "git \<Rightarrow> (string \<Rightarrow> string option) \<Rightarrow> (string \<Rightarrow> file_kind) \<Rightarrow> bool \<Rightarrow> chat \<Rightarrow> placing \<Rightarrow> placing" where
  "place_chat git eval stat ended c pg =
     (if missing_folder stat ended (ch_cwd c) then pg
      else
        let (info, cache) = cached_resolve git eval ended (ch_cwd c) (pg_cache pg);
            placed = c\<lparr>ch_repo := rp_repo info, ch_worktree := rp_worktree info\<rparr>
        in \<lparr>pg_cache = cache, pg_known = List.insert (rp_repo info) (pg_known pg),
            pg_chats = (if missing_folder stat ended (rp_repo info) then pg_chats pg else pg_chats pg @ [placed])\<rparr>)"

text \<open>The line with its chats placed, the caches, and the repositories known from then on.\<close>

definition place_chats ::
  "git \<Rightarrow> (string \<Rightarrow> string option) \<Rightarrow> (string \<Rightarrow> file_kind) \<Rightarrow> bool \<Rightarrow> bool \<Rightarrow> agent_line \<Rightarrow> repo_cache \<times> string list \<Rightarrow>
   agent_line \<times> repo_cache \<times> string list" where
  "place_chats git eval stat ended_before ended_after line state =
     (let ended_line = failed_line Line_Failed (Other_Failure ''context canceled'') line
      in if ended_before then (ended_line, state)
         else
           let pg = fold (place_chat git eval stat ended_after) (al_chats line) \<lparr>pg_cache = fst state, pg_known = snd state, pg_chats = []\<rparr>
           in (if ended_after then ended_line else line\<lparr>al_chats := pg_chats pg\<rparr>, pg_cache pg, pg_known pg))"

section \<open>Checkouts\<close>

record checkout_worktree =
  cw_id :: string
  cw_path :: string
  cw_branch :: string
  cw_ahead :: "int option"
  cw_dirty :: "bool option"

record checkout =
  co_repo :: string
  co_branch :: "string option"
  co_worktrees :: "checkout_worktree list"

record checkouts_line =
  cl_repos :: "checkout list"
  cl_missing :: "string list"

definition checkout_of :: "git \<Rightarrow> (string \<Rightarrow> file_kind) \<Rightarrow> bool \<Rightarrow> string \<Rightarrow> worktree_status list \<Rightarrow> checkout" where
  "checkout_of git stat ended repo wts =
     \<lparr>co_repo = repo,
      co_branch = (case git repo [''symbolic-ref'', ''--quiet'', ''--short'', ''HEAD''] of Inl _ \<Rightarrow> None | Inr out \<Rightarrow> Some (trim_space out)),
      co_worktrees = map (\<lambda>s. \<lparr>cw_id = wr_id (ws_record s), cw_path = wr_path (ws_record s), cw_branch = wr_branch (ws_record s),
          cw_ahead = ws_ahead s, cw_dirty = ws_dirty s\<rparr>)
        (filter (\<lambda>s. \<not> missing_folder stat ended (wr_path (ws_record s))) wts)\<rparr>"

text \<open>Worktrees by repository, as an association list; a repository is added once.\<close>

type_synonym by_repo = "(string \<times> worktree_status list) list"

definition add_status :: "worktree_status \<Rightarrow> by_repo \<Rightarrow> by_repo" where
  "add_status s rows =
     (let repo = wr_repo (ws_record s)
      in if repo \<in> fst ` set rows then map (\<lambda>(r, ss). (r, if r = repo then ss @ [s] else ss)) rows else rows @ [(repo, [s])])"

definition add_repo :: "wt_env \<Rightarrow> bool \<Rightarrow> string \<Rightarrow> by_repo \<times> wt_world \<Rightarrow> by_repo \<times> wt_world" where
  "add_repo e ended repo acc =
     (let (rows, w) = acc
      in if missing_folder (stat_of e w) ended repo \<or> repo \<in> fst ` set rows then acc
         else case worktree_statuses e repo w of
                (Inl _, w1) \<Rightarrow> (rows, w1)
              | (Inr ss, w1) \<Rightarrow> (rows @ [(repo, ss)], w1))"

definition checkouts :: "wt_env \<Rightarrow> bool \<Rightarrow> string list \<Rightarrow> string list \<Rightarrow> wt_world \<Rightarrow> checkouts_line \<times> wt_world" where
  "checkouts e ended asked known w =
     (let repos = asked @ known;
          (listed, w1) = worktree_statuses e [] w;
          start = (case listed of Inl _ \<Rightarrow> [] | Inr ss \<Rightarrow> fold add_status ss []);
          (rows, w2) = fold (add_repo e ended) repos (start, w1);
          missing = missing_folder (stat_of e w2) ended;
          names = filter (\<lambda>r. \<not> missing r) (sort (map fst rows))
      in (\<lparr>cl_repos = map (\<lambda>r. checkout_of (git_of e w2) (stat_of e w2) ended r (case map_of rows r of None \<Rightarrow> [] | Some ss \<Rightarrow> ss)) names,
           cl_missing = filter missing (remdups_adj (sort repos))\<rparr>, w2))"

section \<open>Memory pressure\<close>

record pressure_source =
  sp_path :: string
  sp_total :: nat
  sp_ready :: bool

definition pressure_at :: "string \<Rightarrow> pressure_source" where
  "pressure_at p = \<lparr>sp_path = p, sp_total = 0, sp_ready = False\<rparr>"

definition cgroup_source :: "string \<Rightarrow> pressure_source list" where
  "cgroup_source line =
     (case cut_prefix line ''0::/'' of
        None \<Rightarrow> []
      | Some p \<Rightarrow> if p = [] \<or> has_prefix (path_clean p) ''..'' then [] else [pressure_at (path_join [''/sys/fs/cgroup'', p, ''memory.pressure''])])"

definition memory_pressure_sources :: "string option \<Rightarrow> pressure_source list" where
  "memory_pressure_sources cgroups =
     [pressure_at ''/proc/pressure/memory'', pressure_at ''/sys/fs/cgroup/memory.pressure''] @
     (case cgroups of None \<Rightarrow> [] | Some text \<Rightarrow> concat (map cgroup_source (split_at line_feed text)))"

definition parse_uint64 :: "string \<Rightarrow> nat option" where
  "parse_uint64 s =
     (if s = [] \<or> \<not> list_all is_digit s then None
      else let n = nat (digits_value 0 s) in if n < 2 ^ 64 then Some n else None)"

fun pressure_total :: "string list \<Rightarrow> nat option" where
  "pressure_total [] = None"
| "pressure_total (f # fs) = (case cut_prefix f ''total='' of None \<Rightarrow> pressure_total fs | Some t \<Rightarrow> parse_uint64 t)"

definition parse_pressure_total :: "string \<Rightarrow> nat option" where
  "parse_pressure_total line = pressure_total (str_fields line)"

definition read_pressure_total :: "string option \<Rightarrow> nat option" where
  "read_pressure_total content =
     (case content of
        None \<Rightarrow> None
      | Some text \<Rightarrow> (case List.find (\<lambda>l. has_prefix l ''some '') (split_at line_feed text) of None \<Rightarrow> None | Some l \<Rightarrow> parse_pressure_total l))"

definition sample_source :: "(string \<Rightarrow> string option) \<Rightarrow> pressure_source \<Rightarrow> bool \<times> pressure_source" where
  "sample_source read s =
     (case read_pressure_total (read (sp_path s)) of
        None \<Rightarrow> (False, s\<lparr>sp_ready := False\<rparr>)
      | Some t \<Rightarrow> (sp_ready s \<and> t > sp_total s, s\<lparr>sp_total := t, sp_ready := True\<rparr>))"

definition pressure_increased :: "(string \<Rightarrow> string option) \<Rightarrow> pressure_source list \<Rightarrow> bool \<times> pressure_source list" where
  "pressure_increased read sources =
     (let res = map (sample_source read) sources in (list_ex fst res, map snd res))"

section \<open>The endpoint\<close>

definition max_projects_agents :: nat where "max_projects_agents = 64"
definition max_projects_repos :: nat where "max_projects_repos = 256"

definition agent_ids_param :: "string \<Rightarrow> string list" where
  "agent_ids_param raw = rev (remdups (rev (filter (\<lambda>i. i \<noteq> []) (map trim_space (split_at (CHR '','') raw)))))"

datatype repos_error = Not_An_Array | Too_Many_Repos | Bad_Repo_Path

definition known_repos_param :: "(string \<Rightarrow> string list option) \<Rightarrow> string \<Rightarrow> repos_error + string list" where
  "known_repos_param decode raw =
     (if raw = [] then Inr []
      else case decode raw of
             None \<Rightarrow> Inl Not_An_Array
           | Some repos \<Rightarrow>
               if length repos > max_projects_repos then Inl Too_Many_Repos
               else if list_ex (\<lambda>r. \<not> path_is_abs r \<or> nul \<in> set r) repos then Inl Bad_Repo_Path
               else Inr (remdups_adj (sort repos)))"

datatype projects_reply =
    Projects_Refused reply
  | Projects_Error int string
  | Projects_Stream "agent_line list" "checkouts_line option"

definition repos_error_text :: "repos_error \<Rightarrow> string" where
  "repos_error_text err =
     (case err of
        Not_An_Array \<Rightarrow> ''repos must be a JSON array of absolute paths''
      | Too_Many_Repos \<Rightarrow> ''at most 256 repos''
      | Bad_Repo_Path \<Rightarrow> ''repos must contain valid absolute paths'')"

text \<open>
  \<open>list_agents\<close> gives the lines of the agents named, in the order in which they finish, and the repositories the lister
  knows by then; \<open>ended\<close> and \<open>ended_after\<close> tell whether the request has ended before and after the checkouts are collected.
\<close>

definition projects_handler ::
  "auth_env \<Rightarrow> wt_env \<Rightarrow> (string \<Rightarrow> string list option) \<Rightarrow> bool \<Rightarrow> (string list \<Rightarrow> agent_line list \<times> string list) \<Rightarrow> bool \<Rightarrow> bool \<Rightarrow>
   http_request \<Rightarrow> api_request \<Rightarrow> gateway \<times> wt_world \<Rightarrow> projects_reply \<times> gateway \<times> wt_world" where
  "projects_handler a e decode available list_agents ended ended_after r q gw =
     (case require_gateway_credential (au_crypto a) (au_digest a) (au_io a) (au_now a) r (fst gw) of
        (g, Inl err) \<Rightarrow> (Projects_Refused err, g, snd gw)
      | (g, Inr c) \<Rightarrow>
          if \<not> available then (Projects_Error 503 ''project listing not available'', g, snd gw)
          else
            let agents = agent_ids_param (ar_query q ''agents'')
            in if length agents > max_projects_agents then (Projects_Error 400 ''at most 64 agents'', g, snd gw)
               else case known_repos_param decode (ar_query q ''repos'') of
                      Inl err \<Rightarrow> (Projects_Error 400 (repos_error_text err), g, snd gw)
                    | Inr repos \<Rightarrow>
                        let (lines, known) = list_agents agents;
                            asked = remdups_adj (sort (repos @ concat (map (\<lambda>l. map ch_repo (al_chats l)) lines)))
                        in if ended then (Projects_Stream lines None, g, snd gw)
                           else case checkouts e ended_after asked known (snd gw) of
                                  (line, w) \<Rightarrow> (Projects_Stream lines (if ended_after then None else Some line), g, w))"

section \<open>What the home shows\<close>

text \<open>Every agent is named once, so that naming it twice starts it once.\<close>

lemma agent_ids_param_distinct: "distinct (agent_ids_param raw)" and
  agent_ids_param_set: "set (agent_ids_param raw) = {i. i \<noteq> [] \<and> i \<in> trim_space ` set (split_at (CHR '','') raw)}"
  by (auto simp: agent_ids_param_def)

lemma add_status_keys: "distinct (map fst rows) \<Longrightarrow> distinct (map fst (add_status s rows))"
proof -
  assume d: "distinct (map fst rows)"
  have keys: "map (fst \<circ> (\<lambda>(r, ss). (r, if r = x then ss @ [s] else ss))) rows = map fst rows" for x
    by (induction rows) auto
  show ?thesis
  proof (cases "wr_repo (ws_record s) \<in> fst ` set rows")
    case True
    then show ?thesis using d by (simp add: add_status_def Let_def keys del: map_eq_conv)
  next
    case False
    then show ?thesis using d by (simp add: add_status_def Let_def)
  qed
qed

lemma fold_add_status_keys: "distinct (map fst rows) \<Longrightarrow> distinct (map fst (fold add_status ss rows))"
  by (induction ss arbitrary: rows) (auto simp: add_status_keys)

lemma add_repo_keys: "distinct (map fst (fst acc)) \<Longrightarrow> distinct (map fst (fst (add_repo e ended repo acc)))"
  by (auto simp: add_repo_def Let_def image_iff split: prod.splits sum.splits)

lemma fold_add_repo_keys: "distinct (map fst (fst acc)) \<Longrightarrow> distinct (map fst (fst (fold (add_repo e ended) repos acc)))"
  by (induction repos arbitrary: acc) (auto simp: add_repo_keys)

text \<open>
  The checkouts (\<^verbatim>\<open>internal/projects/checkouts.go\<close>): each repository is shown once, in order, and only while its folder is
  there; a repository is reported missing only when its folder is known to be gone.
\<close>

theorem checkouts_sorted_and_present:
  "case checkouts e ended asked known w of
     (line, w') \<Rightarrow>
       sorted (map co_repo (cl_repos line)) \<and> distinct (map co_repo (cl_repos line)) \<and>
       list_all (\<lambda>r. \<not> missing_folder (stat_of e w') ended r) (map co_repo (cl_repos line)) \<and>
       list_all (\<lambda>r. r \<in> set (asked @ known) \<and> stat_of e w' r = Absent \<and> \<not> ended) (cl_missing line)"
proof -
  obtain listed w1 where l: "worktree_statuses e [] w = (listed, w1)" by (cases "worktree_statuses e [] w") auto
  let ?start = "case listed of Inl _ \<Rightarrow> [] | Inr ss \<Rightarrow> fold add_status ss []"
  obtain rows w2 where rows: "fold (add_repo e ended) (asked @ known) (?start, w1) = (rows, w2)"
    by (cases "fold (add_repo e ended) (asked @ known) (?start, w1)") auto
  have "distinct (map fst ?start)" by (auto simp: fold_add_status_keys split: sum.splits)
  then have d: "distinct (map fst rows)" using fold_add_repo_keys [of "(?start, w1)" e ended "asked @ known"] rows by simp
  have names: "map co_repo (map (\<lambda>r. checkout_of g st ended r (f r)) rs) = rs" for g st f rs
    by (induction rs) (auto simp: checkout_of_def)
  have line: "checkouts e ended asked known w =
    (\<lparr>cl_repos = map (\<lambda>r. checkout_of (git_of e w2) (stat_of e w2) ended r (case map_of rows r of None \<Rightarrow> [] | Some ss \<Rightarrow> ss))
          (filter (\<lambda>r. \<not> missing_folder (stat_of e w2) ended r) (sort (map fst rows))),
      cl_missing = filter (missing_folder (stat_of e w2) ended) (remdups_adj (sort (asked @ known)))\<rparr>, w2)"
    by (simp add: checkouts_def l rows Let_def del: fold_append)
  show ?thesis unfolding line using d
    by (simp only: prod.case checkouts_line.select_convs names) (auto simp: list_all_iff missing_folder_def sorted_filter [of "\<lambda>x. x", simplified])
qed

end
