(* ===== verification/Quota.thy ===== *)
theory Quota
  imports Go_Paths Complex_Main
begin

text \<open>
  Provider quotas (\<^verbatim>\<open>internal/quota/quota.go\<close>, \<^verbatim>\<open>cache.go\<close>): what is kept of the answers of the \<^verbatim>\<open>codexbar\<close> command, and the
  cache in front of it. The command's outputs arrive decoded; a Go \<^verbatim>\<open>float64\<close> is a rational number. The regular
  expressions are written as the functions that decide them. The icons are a parameter.
\<close>

section \<open>Snapshots\<close>

record quota_window =
  qw_known :: "bool option"
  qw_used :: "rat option"
  qw_minutes :: "int option"
  qw_resets :: "string option"
  qw_description :: "string option"

record billing_row =
  br_label :: string
  br_value :: string

record billing_detail =
  bd_title :: string
  bd_rows :: "billing_row list"

record quota_balance =
  qb_balance :: "rat option"
  qb_currency :: string

record quota_usage =
  qu_details :: "billing_detail list"
  qu_cost :: "quota_balance option"
  qu_extra :: "(string \<times> string \<times> quota_window option) list"
  qu_windows :: "quota_window option list"
  qu_updated :: "string option"

record cost_row =
  cr_label :: string
  cr_amount :: rat
  cr_tokens :: "int option"
  cr_currency :: string
  cr_estimated :: bool

record quota_provider =
  qp_icon :: string
  qp_display :: string
  qp_plan :: string
  qp_account :: string
  qp_costs :: "cost_row list"
  qp_labels :: "(string \<times> string \<times> string) option"
  qp_provider :: string
  qp_source :: string
  qp_usage :: "quota_usage option"
  qp_error :: "string option"

record configured_provider =
  cp_display :: string
  cp_provider :: string
  cp_enabled :: bool

text \<open>What \<^verbatim>\<open>codexbar usage\<close> prints, decoded; the balance is \<open>None\<close> when it cannot be read.\<close>

record provider_snapshot =
  ps_provider :: string
  ps_source :: string
  ps_labels :: "(string \<times> string \<times> string) option"
  ps_usage :: "(quota_usage \<times> quota_balance option \<times> (string \<times> string) option) option"
  ps_error :: "string option"

text \<open>An answer of the command: it could not be run, or what it printed, and whether it exited with an error.\<close>

datatype 'a quota_answer = Not_Run | Printed bool "'a option"

definition blank_provider :: "string \<Rightarrow> quota_provider" where
  "blank_provider i = \<lparr>qp_icon = [], qp_display = [], qp_plan = [], qp_account = [], qp_costs = [], qp_labels = None, qp_provider = i,
     qp_source = [], qp_usage = None, qp_error = None\<rparr>"

definition unavailable_provider :: "string \<Rightarrow> quota_provider" where
  "unavailable_provider i = (blank_provider i)\<lparr>qp_error := Some ''provider''\<rparr>"

section \<open>Billing values\<close>

text \<open>\<^verbatim>\<open>[0-9]{1,12}\<close> or groups of three behind one to three digits.\<close>

definition digits_between :: "nat \<Rightarrow> nat \<Rightarrow> string \<Rightarrow> bool" where
  "digits_between lo hi s \<longleftrightarrow> lo \<le> length s \<and> length s \<le> hi \<and> list_all is_digit s"

definition grouped_number :: "string \<Rightarrow> bool" where
  "grouped_number s \<longleftrightarrow>
     (case split_at (CHR '','') s of
        [] \<Rightarrow> False
      | [d] \<Rightarrow> digits_between 1 12 d
      | d # ds \<Rightarrow> digits_between 1 3 d \<and> length ds \<le> 3 \<and> list_all (digits_between 3 3) ds)"

definition dollar_value :: "string \<Rightarrow> bool" where
  "dollar_value v \<longleftrightarrow>
     (let s = trim_prefix ''-'' v
      in case cut_at (CHR ''.'') s of
           None \<Rightarrow> False
         | Some (whole, cents) \<Rightarrow> has_prefix whole ''$'' \<and> grouped_number (drop 1 whole) \<and> digits_between 2 2 cents)"

definition drop_scale :: "string \<Rightarrow> string" where
  "drop_scale s = (if s \<noteq> [] \<and> last s \<in> {CHR ''K'', CHR ''M'', CHR ''B''} then butlast s else s)"

definition unit_value :: "string \<Rightarrow> bool" where
  "unit_value v \<longleftrightarrow>
     (case cut_at (CHR '' '') v of
        None \<Rightarrow> False
      | Some (amount, unit) \<Rightarrow>
          unit \<in> {''points'', ''credits'', ''HC''} \<and>
          (let n = drop_scale amount
           in case cut_at (CHR ''.'') n of
                None \<Rightarrow> grouped_number n
              | Some (whole, part) \<Rightarrow> grouped_number whole \<and> digits_between 1 2 part))"

definition billing_value :: "string \<Rightarrow> bool" where
  "billing_value v \<longleftrightarrow> dollar_value v \<or> unit_value v"

definition allowed_labels :: "string \<Rightarrow> string list" where
  "allowed_labels title =
     (if title = ''Credits'' then [''Remaining'', ''Used'', ''Total added'']
      else if title = ''API key'' then [''API key limit'', ''API key remaining'', ''API key used'', ''Today'', ''This week'', ''This month'']
      else if title = ''Team credits'' then [''Available balance'', ''Lifetime spend'']
      else if title = ''Personal budget'' then [''Spend'', ''Limit'', ''Remaining'']
      else if title = ''Points'' then [''Current balance'', ''Today'', ''Last 7 days'', ''Last 30 days'']
      else if title = ''Hypercredits'' then [''Balance'']
      else [])"

text \<open>The rows of a section that may be shown; each label of a title is used up by the first row that has it.\<close>

fun billing_rows :: "string \<Rightarrow> billing_row list \<Rightarrow> (string \<times> string) set \<Rightarrow> billing_row list \<times> (string \<times> string) set" where
  "billing_rows title [] used = ([], used)"
| "billing_rows title (r # rs) used =
     (if br_label r \<in> set (allowed_labels title) \<and> (title, br_label r) \<notin> used \<and> billing_value (br_value r) then
        (case billing_rows title rs (insert (title, br_label r) used) of (rows, used1) \<Rightarrow> (r # rows, used1))
      else billing_rows title rs used)"

fun billing_sections :: "billing_detail list \<Rightarrow> (string \<times> string) set \<Rightarrow> billing_detail list" where
  "billing_sections [] used = []"
| "billing_sections (d # ds) used =
     (case billing_rows (bd_title d) (bd_rows d) used of
        (rows, used1) \<Rightarrow>
          (if rows = [] then [] else [\<lparr>bd_title = bd_title d, bd_rows = rows\<rparr>]) @ billing_sections ds used1)"

definition billing_details :: "billing_detail list \<Rightarrow> billing_detail list" where
  "billing_details ds = billing_sections ds {}"

definition currency_code :: "string \<Rightarrow> bool" where
  "currency_code s \<longleftrightarrow> length s = 3 \<and> list_all (\<lambda>c. 65 \<le> (of_char c :: nat) \<and> (of_char c :: nat) \<le> 90) s"

definition provider_balance :: "quota_balance option \<Rightarrow> quota_balance option" where
  "provider_balance raw =
     (case raw of
        None \<Rightarrow> None
      | Some b \<Rightarrow>
          (case qb_balance b of
             None \<Rightarrow> None
           | Some n \<Rightarrow> if n < 0 \<or> n > 10 ^ 12 \<or> \<not> currency_code (qb_currency b) then None else Some b))"

section \<open>Collecting\<close>

definition provider_of_snapshot :: "string \<Rightarrow> bool \<Rightarrow> provider_snapshot \<Rightarrow> quota_provider" where
  "provider_of_snapshot i exited_badly s =
     (let p0 = (blank_provider (ps_provider s))\<lparr>qp_source := ps_source s, qp_labels := ps_labels s, qp_error := ps_error s\<rparr>;
          p = (case ps_usage s of
                 None \<Rightarrow> p0
               | Some (u, raw, identity) \<Rightarrow>
                   let p1 = p0\<lparr>qp_usage := Some (u\<lparr>qu_details := billing_details (qu_details u), qu_cost := provider_balance raw\<rparr>)\<rparr>
                   in case identity of None \<Rightarrow> p1 | Some (method, email) \<Rightarrow> p1\<lparr>qp_plan := method, qp_account := email\<rparr>)
      in if ps_provider s \<noteq> i \<or> qp_usage p = None \<and> qp_error p = None then unavailable_provider i
         else if qp_error p \<noteq> None then p\<lparr>qp_error := Some ''provider''\<rparr>
         else if exited_badly then unavailable_provider i
         else p)"

text \<open>A list is taken when it holds one snapshot.\<close>

definition collect_provider :: "string \<Rightarrow> provider_snapshot list quota_answer \<Rightarrow> quota_provider" where
  "collect_provider i answer =
     (case answer of
        Printed exited_badly (Some [s]) \<Rightarrow> provider_of_snapshot i exited_badly s
      | _ \<Rightarrow> unavailable_provider i)"

record cost_snapshot =
  cs_provider :: string
  cs_session :: "rat option"
  cs_session_tokens :: "int option"
  cs_month :: "rat option"
  cs_month_tokens :: "int option"
  cs_currency :: string
  cs_error :: bool

definition cost_row_of :: "string \<Rightarrow> rat option \<Rightarrow> int option \<Rightarrow> cost_row list" where
  "cost_row_of label amount tokens =
     (case amount of
        None \<Rightarrow> []
      | Some a \<Rightarrow>
          if a < 0 then []
          else [\<lparr>cr_label = label, cr_amount = a, cr_tokens = (case tokens of None \<Rightarrow> None | Some n \<Rightarrow> if n < 0 then None else Some n),
                 cr_currency = ''USD'', cr_estimated = True\<rparr>])"

definition cost_rows :: "cost_snapshot \<Rightarrow> cost_row list" where
  "cost_rows s = cost_row_of ''Today'' (cs_session s) (cs_session_tokens s) @ cost_row_of ''Last 30 days'' (cs_month s) (cs_month_tokens s)"

definition collect_costs :: "cost_snapshot list quota_answer \<Rightarrow> cost_snapshot list" where
  "collect_costs answer = (case answer of Printed exited_badly (Some ss) \<Rightarrow> ss | _ \<Rightarrow> [])"

definition attach_costs :: "quota_provider list \<Rightarrow> cost_snapshot list \<Rightarrow> quota_provider list" where
  "attach_costs ps ss =
     (let by = fold (\<lambda>s m. if cs_currency s \<noteq> ''USD'' \<or> cs_error s then m else m(cs_provider s := cost_rows s)) ss (\<lambda>i. [])
      in map (\<lambda>p. p\<lparr>qp_costs := by (qp_provider p)\<rparr>) ps)"

datatype quota_error = Codexbar_Missing | Invalid_Response | Collect_Failed

text \<open>
  \<^verbatim>\<open>Collect\<close>: the providers that are switched on, in the order of the configuration. \<open>out_of_time\<close> tells which of them did
  not get their turn before the fifteen seconds were over.
\<close>

definition collect_one :: "(string \<Rightarrow> string) \<Rightarrow> (string \<Rightarrow> provider_snapshot list quota_answer) \<Rightarrow> (string \<Rightarrow> bool) \<Rightarrow> configured_provider \<Rightarrow> quota_provider" where
  "collect_one icon usage out_of_time c =
     (let i = cp_provider c
      in (if out_of_time i then unavailable_provider i else collect_provider i (usage i))\<lparr>qp_display := cp_display c, qp_icon := icon i\<rparr>)"

definition collect_quotas ::
  "(string \<Rightarrow> string) \<Rightarrow> quota_error + configured_provider list option \<Rightarrow> (string \<Rightarrow> provider_snapshot list quota_answer) \<Rightarrow> (string \<Rightarrow> bool) \<Rightarrow>
   cost_snapshot list quota_answer \<Rightarrow> quota_error + quota_provider list" where
  "collect_quotas icon configured usage out_of_time costs =
     (case configured of
        Inl err \<Rightarrow> Inl err
      | Inr None \<Rightarrow> Inl Invalid_Response
      | Inr (Some cs) \<Rightarrow>
          let on = filter (\<lambda>c. cp_enabled c \<and> cp_provider c \<noteq> []) cs
          in if length on > 100 then Inl Collect_Failed
             else Inr (attach_costs (map (collect_one icon usage out_of_time) on) (collect_costs costs)))"

text \<open>\<^verbatim>\<open>providerIcon\<close>: the name of the artwork.\<close>

definition icon_name :: "string \<Rightarrow> string" where
  "icon_name i =
     (case map_of [(''alibabatokenplan'', ''alibaba''), (''azureopenai'', ''azure''), (''claudeplatform'', ''claude''), (''clinepass'', ''cline''),
        (''copilot'', ''githubcopilot''), (''kilo'', ''kilocode''), (''mimo'', ''xiaomimimo''), (''nous'', ''nousresearch''),
        (''opencodego'', ''opencode''), (''qwencloud'', ''qwen''), (''traecn'', ''trae''), (''typesafe'', ''typesafeai''), (''zed'', ''zedindustries'')] i of
        None \<Rightarrow> i | Some n \<Rightarrow> n)"

definition provider_icon :: "(string \<Rightarrow> string option) \<Rightarrow> string \<Rightarrow> string" where
  "provider_icon artwork i =
     (case artwork (''logos/'' @ icon_name i @ ''.svg'') of None \<Rightarrow> [] | Some data \<Rightarrow> ''data:image/svg+xml;base64,'' @ data)"

section \<open>The cache\<close>

text \<open>
  \<^verbatim>\<open>singleflight\<close> runs one refresh at a time and lets the others wait for it. A refresh that has begun is in the state with
  the time it was found stale; \<open>qc_collected\<close> records when collections began and ended.
\<close>

record quota_cache =
  qc_data :: "quota_provider list option"
  qc_at :: "gtime option"
  qc_err :: "quota_error option"
  qc_flight :: "gtime option"
  qc_collected :: "(gtime \<times> gtime) list"

definition new_quota_cache :: quota_cache where
  "new_quota_cache = \<lparr>qc_data = None, qc_at = None, qc_err = None, qc_flight = None, qc_collected = []\<rparr>"

definition quota_stale :: "duration \<Rightarrow> gtime \<Rightarrow> quota_cache \<Rightarrow> bool" where
  "quota_stale max_age now c \<longleftrightarrow> (case qc_at c of None \<Rightarrow> True | Some t \<Rightarrow> now - t \<ge> max_age)"

datatype quota_got = Quota_Now "quota_provider list" | Quota_Failed "quota_error option" | Quota_Waits

text \<open>
  \<^verbatim>\<open>Get\<close> reads under the lock, at \<open>now\<close>, and enters the flight afterwards, at \<open>later\<close>; \<^verbatim>\<open>refresh\<close> looks at the age again.
\<close>

definition enter_flight :: "duration \<Rightarrow> gtime \<Rightarrow> quota_cache \<Rightarrow> quota_cache" where
  "enter_flight max_age later c =
     (case qc_flight c of
        Some t \<Rightarrow> c
      | None \<Rightarrow> if quota_stale max_age later c then c\<lparr>qc_flight := Some later\<rparr> else c)"

definition quota_get :: "duration \<Rightarrow> gtime \<Rightarrow> quota_cache \<Rightarrow> quota_got \<times> bool" where
  "quota_get max_age now c =
     (let stale = quota_stale max_age now c
      in case qc_data c of
           Some d \<Rightarrow> (Quota_Now d, stale)
         | None \<Rightarrow> if \<not> stale then (Quota_Failed (qc_err c), False) else (Quota_Waits, True))"

definition end_refresh :: "gtime \<Rightarrow> quota_error + quota_provider list \<Rightarrow> quota_cache \<Rightarrow> quota_cache" where
  "end_refresh now res c =
     (case qc_flight c of
        None \<Rightarrow> c
      | Some t \<Rightarrow>
          let c1 = c\<lparr>qc_flight := None, qc_at := Some now, qc_collected := (t, now) # qc_collected c\<rparr>
          in case res of Inl err \<Rightarrow> c1\<lparr>qc_err := Some err\<rparr> | Inr d \<Rightarrow> c1\<lparr>qc_err := None, qc_data := Some d\<rparr>)"

datatype quota_event = Get_Enters gtime | Refresh_Ends gtime "quota_error + quota_provider list"

fun quota_step :: "duration \<Rightarrow> quota_cache \<Rightarrow> quota_event \<Rightarrow> quota_cache" where
  "quota_step max_age c (Get_Enters later) = enter_flight max_age later c"
| "quota_step max_age c (Refresh_Ends now res) = end_refresh now res c"

section \<open>What clients see\<close>

lemma billing_rows_spec:
  "billing_rows title rs used = (rows, used1) \<Longrightarrow>
     (\<forall>r \<in> set rows. br_label r \<in> set (allowed_labels title) \<and> billing_value (br_value r)) \<and>
     distinct (map (\<lambda>r. (title, br_label r)) rows) \<and> (\<lambda>r. (title, br_label r)) ` set rows \<inter> used = {} \<and>
     used1 = used \<union> (\<lambda>r. (title, br_label r)) ` set rows"
proof (induction rs arbitrary: used rows used1)
  case (Cons r rs)
  show ?case
  proof (cases "br_label r \<in> set (allowed_labels title) \<and> (title, br_label r) \<notin> used \<and> billing_value (br_value r)")
    case True
    obtain rows' used' where rec: "billing_rows title rs (insert (title, br_label r) used) = (rows', used')" by (cases "billing_rows title rs (insert (title, br_label r) used)") auto
    then have "rows = r # rows'" "used1 = used'" using Cons.prems True by auto
    then show ?thesis using Cons.IH [OF rec] True by auto
  next
    case False
    then have "billing_rows title rs used = (rows, used1)" using Cons.prems by auto
    then show ?thesis by (rule Cons.IH)
  qed
qed simp

definition shown_labels :: "billing_detail list \<Rightarrow> (string \<times> string) list" where
  "shown_labels ds = concat (map (\<lambda>d. map (\<lambda>r. (bd_title d, br_label r)) (bd_rows d)) ds)"

definition sanitized :: "billing_detail \<Rightarrow> bool" where
  "sanitized d \<longleftrightarrow> bd_rows d \<noteq> [] \<and> (\<forall>r \<in> set (bd_rows d). br_label r \<in> set (allowed_labels (bd_title d)) \<and> billing_value (br_value r))"

lemma shown_labels_simps:
  "shown_labels [] = []"
  "shown_labels (d # ds) = map (\<lambda>r. (bd_title d, br_label r)) (bd_rows d) @ shown_labels ds"
  by (simp_all add: shown_labels_def)

lemma billing_sections_spec:
  "(\<forall>d \<in> set (billing_sections ds used). sanitized d) \<and>
   distinct (shown_labels (billing_sections ds used)) \<and> set (shown_labels (billing_sections ds used)) \<inter> used = {}"
proof (induction ds arbitrary: used)
  case (Cons d ds)
  obtain rows used1 where rec: "billing_rows (bd_title d) (bd_rows d) used = (rows, used1)" by (cases "billing_rows (bd_title d) (bd_rows d) used") auto
  note row = billing_rows_spec [OF rec] and rest = Cons.IH [of used1]
  show ?case
  proof (cases "rows = []")
    case True
    then show ?thesis using rec row rest by simp
  next
    case False
    let ?d = "\<lparr>bd_title = bd_title d, bd_rows = rows\<rparr>"
    have "billing_sections (d # ds) used = ?d # billing_sections ds used1" using rec False by simp
    moreover have "sanitized ?d" using row False by (simp add: sanitized_def)
    moreover have "set (map (\<lambda>r. (bd_title d, br_label r)) rows) \<inter> set (shown_labels (billing_sections ds used1)) = {}"
      using row rest by auto
    ultimately show ?thesis using row rest by (auto simp: shown_labels_simps)
  qed
qed (simp add: shown_labels_def)

text \<open>
  C24: The billing details are sanitized (\<^verbatim>\<open>billingDetails\<close> in \<^verbatim>\<open>internal/quota/quota.go\<close>). Whatever the command prints: every row
  shown has a label that is on the list of its title and a value of one of the two billing shapes, no title shows a
  label twice, and no section is empty.
\<close>

theorem billing_details_sanitized:
  "list_all (\<lambda>d. bd_rows d \<noteq> [] \<and> list_all (\<lambda>r. br_label r \<in> set (allowed_labels (bd_title d)) \<and> billing_value (br_value r)) (bd_rows d))
     (billing_details ds) \<and> distinct (shown_labels (billing_details ds))"
  using billing_sections_spec [of ds "{}"] by (simp add: billing_details_def list_all_iff sanitized_def)

lemma provider_error_text: "qp_error (collect_one icon usage out_of_time c) \<in> {None, Some ''provider''}"
  by (auto simp: collect_one_def collect_provider_def provider_of_snapshot_def unavailable_provider_def blank_provider_def Let_def
      split: quota_answer.splits option.splits list.splits)

section \<open>How often the command runs\<close>

definition spaced :: "duration \<Rightarrow> (gtime \<times> gtime) list \<Rightarrow> bool" where
  "spaced max_age cs \<longleftrightarrow> successively (\<lambda>later earlier. fst later - snd earlier \<ge> max_age) cs"

definition quota_ok :: "duration \<Rightarrow> quota_cache \<Rightarrow> bool" where
  "quota_ok max_age c \<longleftrightarrow>
     (qc_at c = (case qc_collected c of [] \<Rightarrow> None | (a, b) # cs \<Rightarrow> Some b)) \<and>
     (case qc_flight c of None \<Rightarrow> True | Some t \<Rightarrow> (case qc_at c of None \<Rightarrow> True | Some b \<Rightarrow> t - b \<ge> max_age)) \<and>
     spaced max_age (qc_collected c)"

lemma enter_flight_ok: "quota_ok max_age c \<Longrightarrow> quota_ok max_age (enter_flight max_age later c)"
  by (auto simp: quota_ok_def enter_flight_def quota_stale_def split: option.splits list.splits)

lemma end_refresh_ok: "quota_ok max_age c \<Longrightarrow> quota_ok max_age (end_refresh now res c)"
  by (cases "qc_collected c")
    (auto simp: quota_ok_def end_refresh_def spaced_def Let_def split: option.splits sum.splits)

lemma quota_ok_step: "quota_ok max_age c \<Longrightarrow> quota_ok max_age (quota_step max_age c ev)"
  by (cases ev) (simp_all add: enter_flight_ok end_refresh_ok)

interpretation quota_cache_machine: invariant_machine "quota_step max_age" "quota_ok max_age" "\<lambda>ev. True" for max_age
  by unfold_locales (rule quota_ok_step)

lemma quota_ok_run: "quota_ok max_age (run (quota_step max_age) new_quota_cache evs)"
  by (rule quota_cache_machine.run_inv) (simp_all add: quota_ok_def new_quota_cache_def spaced_def list_all_iff)

text \<open>
  C25: The command runs no more often than the age allows (\<^verbatim>\<open>Cache\<close> in \<^verbatim>\<open>internal/quota/cache.go\<close>). However requests and the
  ends of refreshes are interleaved, and whether or not the collections succeed, every collection starts at least
  \<open>max_age\<close> after the one before it ended; so no two of them ever run at once, and a failure is not retried at once.
\<close>

theorem quota_collections_spaced: "spaced max_age (qc_collected (run (quota_step max_age) new_quota_cache evs))"
  using quota_ok_run [of max_age evs] by (simp add: quota_ok_def)

lemma failed_refresh_keeps_quotas:
  "qc_data (end_refresh now (Inl err) c) = qc_data c"
  "qc_data c = Some d \<Longrightarrow> fst (quota_get max_age later (end_refresh now (Inl err) c)) = Quota_Now d"
  by (auto simp: end_refresh_def quota_get_def Let_def split: option.splits)

end
