(* ===== verification/Gateway_Settings.thy ===== *)
theory Gateway_Settings
  imports Config Prelude
begin

text \<open>
  What the gateway remembers of itself (\<^verbatim>\<open>internal/storage/settings.go\<close>, \<^verbatim>\<open>discovery.go\<close>): the settings row, the identity and
  the Web Push keys that are created once, and the search for the databases of a directory. How the daemon takes over
  the settings row is \<^verbatim>\<open>ApplyPersistedSettings\<close> of \<^verbatim>\<open>internal/daemon/daemon.go\<close>. The failures of the database, random numbers,
  key generation and the file system are parameters.
\<close>

section \<open>The settings row\<close>

record gateway_settings =
  gs_registry_url :: string
  gs_public_url :: string
  gs_enable_lan :: bool
  gs_name :: string

datatype settings_answer = Settings gateway_settings | No_Settings | Settings_Error

definition get_gateway_settings :: "bool \<Rightarrow> gateway_settings option \<Rightarrow> settings_answer" where
  "get_gateway_settings fails row =
     (if fails then Settings_Error else case row of None \<Rightarrow> No_Settings | Some r \<Rightarrow> Settings r)"

definition save_gateway_settings :: "bool \<Rightarrow> gateway_settings \<Rightarrow> gateway_settings option \<Rightarrow> bool \<times> gateway_settings option" where
  "save_gateway_settings fails r row = (if fails then (False, row) else (True, Some r))"

text \<open>The daemon's \<^verbatim>\<open>ApplyPersistedSettings\<close>: the row wins where it may, and a gateway without a row seeds it.\<close>

definition adopt_settings :: "environment \<Rightarrow> bool \<Rightarrow> bool \<Rightarrow> config \<Rightarrow> gateway_settings option \<Rightarrow> config \<times> gateway_settings option" where
  "adopt_settings env get_fails save_fails c row =
     (case get_gateway_settings get_fails row of
        Settings r \<Rightarrow>
          (apply_persisted_settings env
             \<lparr>ps_registry_url = gs_registry_url r, ps_public_url = gs_public_url r, ps_enable_lan = Some (gs_enable_lan r),
               ps_gateway_name = gs_name r\<rparr> c, row)
      | _ \<Rightarrow>
          (c, snd (save_gateway_settings save_fails
             \<lparr>gs_registry_url = cf_registry_url c, gs_public_url = cf_public_url c, gs_enable_lan = cf_enable_lan c, gs_name = cf_gateway_name c\<rparr>
             row)))"

section \<open>What is created once\<close>

text \<open>
  \<^verbatim>\<open>EnsureGatewayID\<close> and \<^verbatim>\<open>EnsureVAPIDKeys\<close> do the same with a one-row table: read; if there is no row, make a value, insert
  it unless a row has appeared, and read again. Each of the three statements is a step, so that calls may race. A
  value that could not be made, or a failing statement, ends the call with an error.
\<close>

datatype 'a once_phase = First_Read | To_Insert 'a | Second_Read | Got 'a | Once_Failed

record 'a once_table =
  ot_row :: "'a option"
  ot_calls :: "'a once_phase list"

definition new_once :: "'a option \<Rightarrow> 'a once_table" where
  "new_once row = \<lparr>ot_row = row, ot_calls = []\<rparr>"

definition once_statement :: "bool \<Rightarrow> 'a option \<Rightarrow> 'a option \<Rightarrow> 'a once_phase \<Rightarrow> 'a once_phase \<times> 'a option" where
  "once_statement fails made row ph =
     (case ph of
        First_Read \<Rightarrow>
          (if fails then Once_Failed
           else case row of
                  Some v \<Rightarrow> Got v
                | None \<Rightarrow> (case made of None \<Rightarrow> Once_Failed | Some v \<Rightarrow> To_Insert v), row)
      | To_Insert v \<Rightarrow> if fails then (Once_Failed, row) else (Second_Read, case row of None \<Rightarrow> Some v | Some u \<Rightarrow> Some u)
      | Second_Read \<Rightarrow> (case row of Some v \<Rightarrow> if fails then Once_Failed else Got v | None \<Rightarrow> Once_Failed, row)
      | _ \<Rightarrow> (ph, row))"

datatype 'a once_event = Once_Called | Once_Steps nat bool "'a option"

fun once_step :: "'a once_table \<Rightarrow> 'a once_event \<Rightarrow> 'a once_table" where
  "once_step t Once_Called = t\<lparr>ot_calls := ot_calls t @ [First_Read]\<rparr>"
| "once_step t (Once_Steps k fails made) =
     (if k < length (ot_calls t) then
        (case once_statement fails made (ot_row t) (ot_calls t ! k) of
           (ph, row) \<Rightarrow> t\<lparr>ot_row := row, ot_calls := (ot_calls t)[k := ph]\<rparr>)
      else t)"

section \<open>Databases of a directory\<close>

text \<open>What an entry of a directory is: one that cannot be looked at, no regular file, or a file with what it holds.\<close>

datatype db_entry = Not_Statable | Not_A_File | Unreadable | Holds string "nat option"

definition sqlite_header :: string where
  "sqlite_header = ''SQLite format 3'' @ [char_of (0 :: nat)]"

text \<open>\<^verbatim>\<open>isGatewayDatabase\<close>; the number is that of the gateway's tables found by the query, which may fail.\<close>

definition is_gateway_database :: "db_entry \<Rightarrow> bool option" where
  "is_gateway_database en =
     (case en of
        Holds content found \<Rightarrow>
          if take 16 content \<noteq> sqlite_header then Some False else map_option (\<lambda>n. n = 2) found
      | _ \<Rightarrow> None)"

fun find_gateway_databases :: "(string \<times> db_entry) list \<Rightarrow> string list option" where
  "find_gateway_databases [] = Some []"
| "find_gateway_databases ((path, en) # es) =
     (if en = Not_Statable then None
      else if en = Not_A_File then find_gateway_databases es
      else case is_gateway_database en of
             None \<Rightarrow> None
           | Some yes \<Rightarrow> map_option (\<lambda>ps. if yes then path # ps else ps) (find_gateway_databases es))"

section \<open>The identity never changes\<close>

definition once_ok :: "'a option \<Rightarrow> 'a once_table \<Rightarrow> bool" where
  "once_ok first t \<longleftrightarrow>
     (first \<noteq> None \<longrightarrow> ot_row t = first) \<and> (\<forall>ph \<in> set (ot_calls t). \<forall>v. ph = Got v \<longrightarrow> ot_row t = Some v)"

lemma once_statement_row: "once_statement fails made row ph = (ph', row') \<Longrightarrow> row \<noteq> None \<Longrightarrow> row' = row"
  by (auto simp: once_statement_def split: once_phase.splits option.splits if_splits)

lemma once_statement_got: "once_statement fails made row ph = (Got v, row') \<Longrightarrow> ph = Got v \<and> row' = row \<or> row' = Some v"
  by (auto simp: once_statement_def split: once_phase.splits option.splits if_splits)

lemma once_ok_step: "once_ok first t \<Longrightarrow> once_ok first (once_step t ev)"
proof (cases ev)
  case (Once_Steps k fails made)
  assume ok: "once_ok first t"
  show ?thesis
  proof (cases "k < length (ot_calls t)")
    case True
    obtain ph row where st: "once_statement fails made (ot_row t) (ot_calls t ! k) = (ph, row)" by (metis prod.exhaust)
    have keep: "row = ot_row t" if "ot_row t \<noteq> None" using once_statement_row [OF st that] .
    have got: "row = Some v" if "ph = Got v" for v
    proof -
      have "ot_calls t ! k = Got v \<and> row = ot_row t \<or> row = Some v" using once_statement_got st that by metis
      moreover have "ot_row t = Some v" if "ot_calls t ! k = Got v" using ok nth_mem [OF True] that by (auto simp: once_ok_def)
      ultimately show ?thesis by auto
    qed
    have "row = Some v" if "ph' \<in> set ((ot_calls t)[k := ph])" "ph' = Got v" for ph' v
    proof -
      have "ph' = ph \<or> ph' \<in> set (ot_calls t)" using that(1) set_update_subset_insert by fastforce
      then show ?thesis using got keep ok that(2) by (auto simp: once_ok_def)
    qed
    then show ?thesis using Once_Steps True st keep ok by (auto simp: once_ok_def)
  qed (use Once_Steps ok in simp)
qed (auto simp: once_ok_def)

interpretation once: invariant_machine once_step "once_ok first" "\<lambda>ev. True" for first
  by unfold_locales (rule once_ok_step)

lemma once_ok_run: "once_ok first (run once_step (new_once first) evs)"
  by (rule once.run_inv) (simp_all add: once_ok_def new_once_def list_all_iff)

definition once_answers :: "'a once_table \<Rightarrow> 'a list" where
  "once_answers t = concat (map (\<lambda>ph. case ph of Got v \<Rightarrow> [v] | _ \<Rightarrow> []) (ot_calls t))"

lemma once_answers_iff: "v \<in> set (once_answers t) \<longleftrightarrow> Got v \<in> set (ot_calls t)"
  by (induction "ot_calls t") (auto simp: once_answers_def split: once_phase.splits)

text \<open>
  C28: The gateway's identity and its Web Push keys never change (\<^verbatim>\<open>EnsureGatewayID\<close>, \<^verbatim>\<open>EnsureVAPIDKeys\<close> in
  \<^verbatim>\<open>internal/storage/settings.go\<close>). However calls race at the first start and whatever they generate, all answers are one
  value: the one in the table, and the one that was there before if there was one.
\<close>

theorem identity_established_once:
  "length (remdups (once_answers (run once_step (new_once first) evs))) \<le> 1 \<and>
   set (once_answers (run once_step (new_once first) evs)) \<subseteq> set_option (ot_row (run once_step (new_once first) evs)) \<and>
   (case first of None \<Rightarrow> True | Some v \<Rightarrow> ot_row (run once_step (new_once first) evs) = Some v)"
proof -
  let ?t = "run once_step (new_once first) evs"
  have ok: "once_ok first ?t" by (rule once_ok_run)
  then have sub: "set (once_answers ?t) \<subseteq> set_option (ot_row ?t)" by (auto simp: once_answers_iff once_ok_def)
  then have "card (set (once_answers ?t)) \<le> 1"
    using card_mono [OF _ sub] by (cases "ot_row ?t") auto
  then have "length (remdups (once_answers ?t)) \<le> 1" by (simp add: length_remdups_card_conv)
  then show ?thesis using sub ok by (auto simp: once_ok_def split: option.splits)
qed

lemma find_gateway_databases_names: "find_gateway_databases es = Some ps \<Longrightarrow> set ps \<subseteq> fst ` set es"
  by (induction es arbitrary: ps rule: find_gateway_databases.induct) (fastforce split: if_splits option.splits)+

end
