(* ===== verification/Remote_Access.thy ===== *)
theory Remote_Access
  imports Push_Dispatch Gateway_Settings Http_Auth
begin

text \<open>
  Remote access over Tailscale (\<^verbatim>\<open>internal/remote\<close>): the command line of an installed Tailscale (\<^verbatim>\<open>cli.go\<close>), the embedded
  node (\<^verbatim>\<open>tsnet.go\<close>, \<^verbatim>\<open>state.go\<close>), the choice between them (\<^verbatim>\<open>provision.go\<close>) and the lifecycle with its retries
  (\<^verbatim>\<open>access.go\<close>). What the status makes of a pending login is in \<open>Http_Auth\<close>. The answers of the command, as functions of the commands so far, those of the embedded node, JSON,
  \<^verbatim>\<open>url.Parse\<close>, the file system, the lock and the clock are parameters; a wait is a list of what each of its rounds meets,
  and has no result when the list ends before it does.
\<close>

section \<open>Errors and what the status shows\<close>

datatype remote_error = Auth_Required string | Access_Closed | Remote_Error string

definition remote_error_text :: "remote_error \<Rightarrow> string" where
  "remote_error_text err =
     (case err of
        Auth_Required u \<Rightarrow> ''tailscale login required; open '' @ u
      | Access_Closed \<Rightarrow> ''remote access closed''
      | Remote_Error m \<Rightarrow> m)"

definition quoted :: "string \<Rightarrow> string" where
  "quoted s = CHR 0x22 # s @ [CHR 0x22]"

definition funnel_setup_hint :: "string \<Rightarrow> string" where
  "funnel_setup_hint msg =
     (if str_contains msg ''HTTPS must be enabled'' then
        ''Go to https://login.tailscale.com/admin/dns and turn on HTTPS Certificates, then the gateway will pick up automatically.''
      else if str_contains msg (quoted ''funnel'' @ '' node attribute'') \<or> str_contains msg ''node attribute not set'' then
        ''Go to https://login.tailscale.com/admin/acls and add the '' @ quoted ''funnel'' @
        '' node attribute, then the gateway will pick up automatically.''
      else if str_contains msg ''not allowed for funnel'' then
        ''Port 443 is not enabled for Funnel on this tailnet; allow port 443 in the funnel node attribute, then the gateway will pick up automatically.''
      else [])"

definition snapshot_for :: "remote_error \<Rightarrow> setup_snapshot" where
  "snapshot_for err =
     (case err of
        Auth_Required u \<Rightarrow> \<lparr>ss_auth_required = True, ss_auth_url = u, ss_hint = [], ss_last_err = []\<rparr>
      | _ \<Rightarrow> \<lparr>ss_auth_required = False, ss_auth_url = [], ss_hint = funnel_setup_hint (remote_error_text err), ss_last_err = remote_error_text err\<rparr>)"

section \<open>The command line\<close>

text \<open>A serve configuration: per host the handlers by path, the endpoint of port 443, the foreground configurations.\<close>

record tcp_endpoint =
  te_https :: bool
  te_forward :: string

datatype serve_config = Serve_Config
  (sv_web: "(string \<times> (string \<times> string option) list option) list")
  (sv_tcp: "tcp_endpoint option")
  (sv_foreground: "serve_config option list")

record proxy_url =
  pu_scheme :: string
  pu_host :: string
  pu_port :: string
  pu_path :: string
  pu_query :: string
  pu_user :: bool
  pu_fragment :: string

definition own_target :: "nat \<Rightarrow> proxy_url \<Rightarrow> bool" where
  "own_target port u \<longleftrightarrow>
     pu_scheme u = ''http'' \<and> pu_port u = decimal port \<and> pu_host u \<in> {''127.0.0.1'', ''localhost'', ''::1''} \<and>
     pu_path u \<in> {[], ''/''} \<and> pu_query u = [] \<and> \<not> pu_user u \<and> pu_fragment u = []"

text \<open>The handlers of one host: exactly one, at the root, a proxy to this gateway.\<close>

fun own_web :: "(string \<Rightarrow> proxy_url option) \<Rightarrow> nat \<Rightarrow> (string \<times> string option) list option \<Rightarrow> bool" where
  "own_web parse port (Some [(path, Some proxy)]) = (path = ''/'' \<and> (case parse proxy of None \<Rightarrow> False | Some u \<Rightarrow> own_target port u))"
| "own_web parse port _ = False"

fun conflicting_endpoint :: "(string \<Rightarrow> proxy_url option) \<Rightarrow> nat \<Rightarrow> serve_config \<Rightarrow> bool" where
  "conflicting_endpoint parse port (Serve_Config web tcp foreground) =
     (let on_443 = filter (\<lambda>w. has_suffix (fst w) '':443'') web
      in list_ex (\<lambda>w. \<not> own_web parse port (snd w)) on_443 \<or>
         (case tcp of None \<Rightarrow> False | Some t \<Rightarrow> on_443 = [] \<or> \<not> te_https t \<or> te_forward t \<noteq> []) \<or>
         list_ex (\<lambda>f. case f of None \<Rightarrow> False | Some g \<Rightarrow> sv_tcp g \<noteq> None \<or> conflicting_endpoint parse port g) foreground)"

type_synonym tailscale = "string list list \<Rightarrow> string list \<Rightarrow> string + string"

record remote_world =
  rw_commands :: "string list list"
  rw_made :: nat
  rw_closed :: "nat list"
  rw_links :: "string list"

record remote_env =
  re_tailscale :: tailscale
  re_serve :: "string \<Rightarrow> string + serve_config"
  re_dns :: "string \<Rightarrow> string + string"
  re_url :: "string \<Rightarrow> proxy_url option"
  re_open_lock :: "string option"
  re_lock :: "string option"

definition run_tailscale :: "remote_env \<Rightarrow> string list \<Rightarrow> remote_world \<Rightarrow> (string + string) \<times> remote_world" where
  "run_tailscale e args w = (re_tailscale e (rw_commands w) args, w\<lparr>rw_commands := rw_commands w @ [args]\<rparr>)"

definition detect_tailscale :: "remote_env \<Rightarrow> remote_world \<Rightarrow> (bool \<times> bool) \<times> remote_world" where
  "detect_tailscale e w =
     (case run_tailscale e [''version''] w of
        (Inl _, w1) \<Rightarrow> ((False, False), w1)
      | (Inr _, w1) \<Rightarrow> (case run_tailscale e [''status''] w1 of (Inl _, w2) \<Rightarrow> ((True, False), w2) | (Inr _, w2) \<Rightarrow> ((True, True), w2)))"

definition cli_funnel_url :: "remote_env \<Rightarrow> remote_world \<Rightarrow> (string + string) \<times> remote_world" where
  "cli_funnel_url e w =
     (case run_tailscale e [''status'', ''--json''] w of
        (Inl err, w1) \<Rightarrow> (Inl (''tailscale status: '' @ err), w1)
      | (Inr out, w1) \<Rightarrow>
          (case re_dns e out of
             Inl err \<Rightarrow> (Inl (''parse tailscale status: '' @ err), w1)
           | Inr name \<Rightarrow>
               if name = [] then (Inl ''tailscale status: empty Self.DNSName (is the node up?)'', w1)
               else (Inr (''https://'' @ trim_suffix ''.'' name), w1)))"

definition enable_remote :: "remote_env \<Rightarrow> nat \<Rightarrow> bool \<Rightarrow> remote_world \<Rightarrow> string option \<times> remote_world" where
  "enable_remote e port private w =
     (case re_open_lock e of
        Some err \<Rightarrow> (Some (''open Tailscale provisioning lock: '' @ err), w)
      | None \<Rightarrow>
     (case re_lock e of
        Some err \<Rightarrow> (Some (''another gateway may be provisioning the host Tailscale endpoint; retry: '' @ err), w)
      | None \<Rightarrow>
     (case run_tailscale e [''serve'', ''status'', ''--json''] w of
        (Inl err, w1) \<Rightarrow> (Some (''read tailscale serve config: '' @ err), w1)
      | (Inr out, w1) \<Rightarrow>
     (case re_serve e out of
        Inl err \<Rightarrow> (Some (''parse tailscale serve config: '' @ err), w1)
      | Inr cfg \<Rightarrow>
          if conflicting_endpoint (re_url e) port cfg then
            (Some ''tailscale HTTPS endpoint is already in use; use mode=tsnet with a separate gateway state database'', w1)
          else
            let command = (if private then ''serve'' else ''funnel'')
            in case run_tailscale e [command, ''--bg'', decimal port] w1 of
                 (Inl err, w2) \<Rightarrow>
                   (Some (''tailscale '' @ command @ '' --bg '' @ decimal port @ '' failed (run tailscale '' @ command @ '' '' @ decimal port @
                      '' once in a terminal to consent): '' @ err), w2)
               | (Inr _, w2) \<Rightarrow> (None, w2)))))"

text \<open>\<^verbatim>\<open>waitForURL\<close>: each round tells whether the thirty seconds are over and whether the context has ended.\<close>

fun wait_for_url :: "remote_env \<Rightarrow> (bool \<times> bool) list \<Rightarrow> remote_world \<Rightarrow> (remote_error + string) option \<times> remote_world" where
  "wait_for_url e [] w = (None, w)"
| "wait_for_url e ((late, ended) # rounds) w =
     (case cli_funnel_url e w of
        (Inr url, w1) \<Rightarrow> (Some (Inr url), w1)
      | (Inl err, w1) \<Rightarrow>
          if late then (Some (Inl (Remote_Error (''waiting for funnel URL: '' @ err))), w1)
          else if ended then (Some (Inl (Remote_Error ''context canceled'')), w1)
          else wait_for_url e rounds w1)"

section \<open>The embedded node\<close>

text \<open>
  \<^verbatim>\<open>WaitReady\<close> asks for the state until it means something; \<^verbatim>\<open>waitForLogin\<close> asks \<^verbatim>\<open>WaitReady\<close> until no login is pending and
  reports every new link. A round of the outer wait is the states met by the inner one and whether the context has ended.
\<close>

datatype backend_status = No_Client string | Status_Error string | Backend string string string

fun wait_ready :: "(backend_status \<times> bool) list \<Rightarrow> (remote_error + string) option" where
  "wait_ready [] = None"
| "wait_ready ((st, ended) # sts) =
     (case st of
        No_Client err \<Rightarrow> Some (Inl (Remote_Error (''tsnet local client: '' @ err)))
      | Status_Error err \<Rightarrow> Some (Inl (Remote_Error (''tsnet status: '' @ err)))
      | Backend state link name \<Rightarrow>
          if state = ''Running'' then Some (Inr name)
          else if state \<notin> {''NeedsLogin'', ''NoState'', ''Starting''} then Some (Inl (Remote_Error (''tsnet backend in state '' @ state)))
          else if link \<noteq> [] then Some (Inl (Auth_Required link))
          else if ended then Some (Inl (Remote_Error ''context canceled''))
          else wait_ready sts)"

fun wait_for_login :: "((backend_status \<times> bool) list \<times> bool) list \<Rightarrow> string \<Rightarrow> remote_world \<Rightarrow> (remote_error + string) option \<times> remote_world" where
  "wait_for_login [] reported w = (None, w)"
| "wait_for_login ((sts, ended) # rounds) reported w =
     (case wait_ready sts of
        None \<Rightarrow> (None, w)
      | Some (Inr name) \<Rightarrow> (Some (Inr name), w)
      | Some (Inl (Auth_Required link)) \<Rightarrow>
          let w1 = (if link \<noteq> reported then w\<lparr>rw_links := rw_links w @ [link]\<rparr> else w)
          in if ended then (Some (Inl (Remote_Error ''context canceled'')), w1) else wait_for_login rounds link w1
      | Some (Inl err) \<Rightarrow> (Some (Inl err), w))"

text \<open>\<^verbatim>\<open>embeddedStateDir\<close>: the folder of the node's identity, and whether an older folder is moved there.\<close>

datatype stat_answer = Is_There | Not_There | Stat_Error string

record node_env =
  nv_abs :: "string \<Rightarrow> string + string"
  nv_stat :: "string \<Rightarrow> stat_answer"
  nv_owners :: "string \<Rightarrow> string + string list"
  nv_rename :: "string option"
  nv_made :: bool
  nv_start :: "string option"
  nv_rounds :: "((backend_status \<times> bool) list \<times> bool) list"
  nv_listen :: "string option"
  nv_origin :: "string option"

definition embedded_state_dir :: "node_env \<Rightarrow> string \<Rightarrow> (string + string) \<times> bool" where
  "embedded_state_dir n db =
     (case nv_abs n db of
        Inl err \<Rightarrow> (Inl (''resolve gateway database: '' @ err), False)
      | Inr p \<Rightarrow>
          let dir = p @ ''.tsnet''; legacy = path_join [path_dir p, ''tsnet'']
          in case nv_stat n dir of
               Is_There \<Rightarrow> (Inr dir, False)
             | Stat_Error err \<Rightarrow> (Inl (''stat embedded state: '' @ err), False)
             | Not_There \<Rightarrow>
                 (case nv_stat n legacy of
                    Not_There \<Rightarrow> (Inr dir, False)
                  | Stat_Error err \<Rightarrow> (Inl (''stat legacy embedded state: '' @ err), False)
                  | Is_There \<Rightarrow>
                      (case nv_owners n (path_dir p) of
                         Inl err \<Rightarrow> (Inl (''identify legacy embedded state owner: '' @ err), False)
                       | Inr owners \<Rightarrow>
                           if owners \<noteq> [p] then
                             (Inl (''legacy Tailscale state at '' @ legacy @
                                '' has multiple possible database owners; stop its gateway and move it to <owning-database-path>.tsnet before provisioning (this database uses '' @
                                dir @ '')''), False)
                           else case nv_rename n of Some err \<Rightarrow> (Inl (''migrate embedded state: '' @ err), False) | None \<Rightarrow> (Inr dir, True))))"

text \<open>The three bytes of a dash in UTF-8.\<close>

definition em_dash :: string where
  "em_dash = map char_of [226 :: nat, 128, 148]"

text \<open>\<^verbatim>\<open>openListener\<close>; the listener is closed together with its node.\<close>

definition open_listener :: "node_env \<Rightarrow> bool \<Rightarrow> string \<Rightarrow> remote_error + string" where
  "open_listener n private name =
     (if name = [] then Inl (Remote_Error ''tsnet up: empty DNSName'')
      else case nv_listen n of
             Some err \<Rightarrow>
               Inl (Remote_Error (if private then ''tsnet listen tls: '' @ err
                 else ''tsnet funnel: '' @ err @ '' (enable Funnel in the tailnet admin console: https://login.tailscale.com/admin/acls '' @ em_dash @
                   '' add the funnel node attribute, and enable HTTPS in DNS settings)''))
           | None \<Rightarrow> Inr (''https://'' @ trim_suffix ''.'' (trim_space name)))"

record remote_result =
  rr_mode :: string
  rr_url :: string
  rr_node :: "nat option"

definition close_node :: "nat \<Rightarrow> remote_world \<Rightarrow> remote_world" where
  "close_node k w = w\<lparr>rw_closed := k # rw_closed w\<rparr>"

text \<open>A result is closed by closing its node; that of the command line leaves everything as it is.\<close>

definition close_result :: "remote_result \<Rightarrow> remote_world \<Rightarrow> remote_world" where
  "close_result r w = (case rr_node r of None \<Rightarrow> w | Some k \<Rightarrow> close_node k w)"

definition provision_embedded :: "node_env \<Rightarrow> config \<Rightarrow> remote_world \<Rightarrow> (remote_error + remote_result) option \<times> remote_world" where
  "provision_embedded n c w =
     (case embedded_state_dir n (cf_state_db c) of
        (Inl err, moved) \<Rightarrow> (Some (Inl (Remote_Error err)), w)
      | (Inr dir, moved) \<Rightarrow>
          if \<not> nv_made n then (Some (Inl (Remote_Error ''tsnet factory returned nil node'')), w)
          else
            let k = rw_made w; w1 = w\<lparr>rw_made := Suc k\<rparr>
            in case nv_start n of
                 Some err \<Rightarrow> (Some (Inl (Remote_Error err)), close_node k w1)
               | None \<Rightarrow>
                   (case wait_for_login (nv_rounds n) [] w1 of
                      (None, w2) \<Rightarrow> (None, w2)
                    | (Some (Inl err), w2) \<Rightarrow> (Some (Inl err), close_node k w2)
                    | (Some (Inr name), w2) \<Rightarrow>
                        (case open_listener n (cf_tailscale_private c) name of
                           Inl err \<Rightarrow> (Some (Inl err), close_node k w2)
                         | Inr url \<Rightarrow>
                             (case nv_origin n of
                                None \<Rightarrow> (Some (Inr \<lparr>rr_mode = ''tsnet'', rr_url = url, rr_node = Some k\<rparr>), w2)
                              | Some err \<Rightarrow> (Some (Inl (Remote_Error (''parse local origin: '' @ err))), close_node k w2)))))"

section \<open>Provisioning\<close>

definition provision_cli :: "remote_env \<Rightarrow> (bool \<times> bool) list \<Rightarrow> config \<Rightarrow> nat \<Rightarrow> remote_world \<Rightarrow> (remote_error + remote_result) option \<times> remote_world" where
  "provision_cli e rounds c port w =
     (case enable_remote e port (cf_tailscale_private c) w of
        (Some err, w1) \<Rightarrow> (Some (Inl (Remote_Error err)), w1)
      | (None, w1) \<Rightarrow>
          (case wait_for_url e rounds w1 of
             (None, w2) \<Rightarrow> (None, w2)
           | (Some (Inl err), w2) \<Rightarrow> (Some (Inl err), w2)
           | (Some (Inr url), w2) \<Rightarrow> (Some (Inr \<lparr>rr_mode = ''cli'', rr_url = url, rr_node = None\<rparr>), w2)))"

text \<open>\<^verbatim>\<open>Provision\<close>: no result at all means that it is still waiting; \<open>Inr None\<close> that remote access is off.\<close>

definition provision :: "remote_env \<Rightarrow> node_env \<Rightarrow> (bool \<times> bool) list \<Rightarrow> config \<Rightarrow> nat \<Rightarrow> remote_world \<Rightarrow>
    (remote_error + remote_result option) option \<times> remote_world" where
  "provision e n rounds c port w =
     (let mode = cf_tailscale_mode c;
          some = (\<lambda>(res, w). (map_option (\<lambda>r. case r of Inl err \<Rightarrow> Inl err | Inr x \<Rightarrow> Inr (Some x)) res, w))
      in if mode = ''off'' then (Some (Inr None), w)
         else if mode = ''auto'' \<or> mode = ''cli'' then
           (case detect_tailscale e w of
              ((found, logged_in), w1) \<Rightarrow>
                if found \<and> logged_in then some (provision_cli e rounds c port w1)
                else if mode = ''cli'' \<and> \<not> found then (Some (Inl (Remote_Error ''tailscale CLI not found; install it or use mode=tsnet'')), w1)
                else if mode = ''cli'' then
                  (Some (Inl (Remote_Error
                     ''tailscale is installed but not logged in; run `tailscale up` or set FERNGEIST_GATEWAY_TAILSCALE_AUTH_KEY'')), w1)
                else some (provision_embedded n c w1))
         else some (provision_embedded n c w))"

section \<open>The lifecycle\<close>

text \<open>
  \<open>Waiting\<close> is a provisioning that has not ended, with its node if it made one; \<open>Storing\<close> is between the hand-over
  of the result and the end of \<^verbatim>\<open>Provision\<close>; \<open>Paused\<close> waits for the retry interval.
\<close>

datatype access_phase = Not_Started | Trying | Waiting "nat option" | Storing remote_result | Paused | Access_Over

record access =
  ac_phase :: access_phase
  ac_snapshot :: "setup_snapshot option"
  ac_result :: "remote_result option"
  ac_closed :: bool
  ac_cancelled :: bool
  ac_world :: remote_world
  ac_settings :: "gateway_settings option"
  ac_tokens :: token_store

definition new_access :: "gateway_settings option \<Rightarrow> token_store \<Rightarrow> access" where
  "new_access row toks =
     \<lparr>ac_phase = Not_Started, ac_snapshot = None, ac_result = None, ac_closed = False, ac_cancelled = False,
       ac_world = \<lparr>rw_commands = [], rw_made = 0, rw_closed = [], rw_links = []\<rparr>, ac_settings = row, ac_tokens = toks\<rparr>"

definition login_link :: "string \<Rightarrow> access \<Rightarrow> access" where
  "login_link u a = a\<lparr>ac_snapshot := Some \<lparr>ss_auth_required = True, ss_auth_url = u, ss_hint = [], ss_last_err = []\<rparr>\<rparr>"

text \<open>
  The links reported on the way, and then the outcome; the last link is what the snapshot shows.
\<close>

definition access_provision :: "remote_env \<Rightarrow> node_env \<Rightarrow> (bool \<times> bool) list \<Rightarrow> config \<Rightarrow> nat \<Rightarrow> access \<Rightarrow> access" where
  "access_provision e n rounds c port a =
     (case provision e n rounds c port (ac_world a) of
        (res, w) \<Rightarrow>
          let a1 = (fold login_link (drop (length (rw_links (ac_world a))) (rw_links w)) a)\<lparr>ac_world := w\<rparr>
          in case res of
               None \<Rightarrow> a1\<lparr>ac_phase := Waiting (if rw_made w > rw_made (ac_world a) then Some (rw_made (ac_world a)) else None)\<rparr>
             | Some (Inl err) \<Rightarrow> a1\<lparr>ac_snapshot := Some (snapshot_for err), ac_phase := Paused\<rparr>
             | Some (Inr None) \<Rightarrow> a1\<lparr>ac_phase := Paused\<rparr>
             | Some (Inr (Some r)) \<Rightarrow>
                 if ac_closed a then a1\<lparr>ac_world := close_result r w, ac_phase := Access_Over\<rparr>
                 else a1\<lparr>ac_result := Some r, ac_phase := Storing r\<rparr>)"

definition url_notification :: "config \<Rightarrow> string \<Rightarrow> notification" where
  "url_notification c url =
     \<lparr>n_title = ''Gateway online'', n_body = url, n_category = ''gateway_url'', n_server = cf_gateway_id c, n_session = [], n_cwd = [],
       n_branch = []\<rparr>"

text \<open>The rest of \<^verbatim>\<open>Provision\<close>: the URL is stored, every paired device is told, and the snapshot is cleared.\<close>

definition access_store :: "providers \<Rightarrow> bool \<Rightarrow> bool \<Rightarrow> string list option \<Rightarrow> config \<Rightarrow> remote_result \<Rightarrow> access \<Rightarrow> access" where
  "access_store provs read_fails write_fails devices c r a =
     a\<lparr>ac_settings := (case get_gateway_settings read_fails (ac_settings a) of
           Settings rec \<Rightarrow> snd (save_gateway_settings write_fails (rec\<lparr>gs_public_url := rr_url r\<rparr>) (ac_settings a))
         | _ \<Rightarrow> ac_settings a),
       ac_tokens := (case devices of None \<Rightarrow> ac_tokens a
         | Some ds \<Rightarrow> fold (\<lambda>d st. snd (snd (push_notify provs d (url_notification c (rr_url r)) st))) ds (ac_tokens a)),
       ac_snapshot := None, ac_phase := Access_Over\<rparr>"

text \<open>\<^verbatim>\<open>Close\<close>, once it has cancelled the loop and waited for it or for half a second.\<close>

definition access_close :: "access \<Rightarrow> access" where
  "access_close a =
     a\<lparr>ac_closed := True, ac_result := None,
       ac_world := (case ac_result a of None \<Rightarrow> ac_world a | Some r \<Rightarrow> close_result r (ac_world a))\<rparr>"

datatype access_event =
    Start_Access
  | Attempt remote_env node_env "(bool \<times> bool) list"
  | Store_Result providers bool bool "string list option"
  | Retry
  | Cancel_Access
  | Give_Up
  | Close_Access

fun access_step :: "config \<Rightarrow> nat \<Rightarrow> access \<Rightarrow> access_event \<Rightarrow> access" where
  "access_step c port a Start_Access = (if ac_phase a = Not_Started then a\<lparr>ac_phase := Trying\<rparr> else a)"
| "access_step c port a (Attempt e n rounds) = (if ac_phase a = Trying then access_provision e n rounds c port a else a)"
| "access_step c port a (Store_Result provs read_fails write_fails devices) =
     (case ac_phase a of Storing r \<Rightarrow> access_store provs read_fails write_fails devices c r a | _ \<Rightarrow> a)"
| "access_step c port a Retry = (if ac_phase a = Paused then a\<lparr>ac_phase := Trying\<rparr> else a)"
| "access_step c port a Cancel_Access = a\<lparr>ac_cancelled := True\<rparr>"
| "access_step c port a Give_Up = (if ac_phase a = Paused \<and> ac_cancelled a then a\<lparr>ac_phase := Access_Over\<rparr> else a)"
| "access_step c port a Close_Access = (if ac_cancelled a \<or> ac_phase a = Not_Started then access_close a else a)"

end
