(* ===== verification/Remote_Access_Proofs.thy ===== *)
theory Remote_Access_Proofs
  imports Remote_Access "HOL-Library.Multiset"
begin

text \<open>
  What remote access keeps: the services of others on the shared endpoint, the identity of the node, and the node
  itself, which is closed exactly once however provisioning and closing overlap.
\<close>

section \<open>The shared endpoint\<close>

definition read_serve :: "string list" where
  "read_serve = [''serve'', ''status'', ''--json'']"

definition change_endpoint :: "bool \<Rightarrow> nat \<Rightarrow> string list" where
  "change_endpoint private port = [if private then ''serve'' else ''funnel'', ''--bg'', decimal port]"

text \<open>
  A configuration whose HTTPS endpoint is unused, or leads to this gateway and nowhere else, said without the
  functions of the code: every host on port 443 has the one handler, at the root, that hands requests to this gateway's
  port on the loopback interface; a listener on port 443 is one that serves HTTPS for such a host, and forwards
  nothing; and no foreground configuration has a listener there or serves anything else on it.
\<close>

definition leads_here :: "(string \<Rightarrow> proxy_url option) \<Rightarrow> nat \<Rightarrow> (string \<times> string option) list option \<Rightarrow> bool" where
  "leads_here parse port handlers \<longleftrightarrow>
     (\<exists>proxy u. handlers = Some [(''/'', Some proxy)] \<and> parse proxy = Some u \<and> pu_scheme u = ''http'' \<and> pu_port u = decimal port \<and>
        (pu_host u = ''127.0.0.1'' \<or> pu_host u = ''localhost'' \<or> pu_host u = ''::1'') \<and> (pu_path u = [] \<or> pu_path u = ''/'') \<and>
        pu_query u = [] \<and> \<not> pu_user u \<and> pu_fragment u = [])"

fun endpoint_own :: "(string \<Rightarrow> proxy_url option) \<Rightarrow> nat \<Rightarrow> serve_config \<Rightarrow> bool" where
  "endpoint_own parse port (Serve_Config web tcp foreground) \<longleftrightarrow>
     (\<forall>host handlers. (host, handlers) \<in> set web \<longrightarrow> has_suffix host '':443'' \<longrightarrow> leads_here parse port handlers) \<and>
     (\<forall>t. tcp = Some t \<longrightarrow> te_https t \<and> te_forward t = [] \<and> (\<exists>host handlers. (host, handlers) \<in> set web \<and> has_suffix host '':443'')) \<and>
     list_all (\<lambda>f. case f of None \<Rightarrow> True | Some g \<Rightarrow> sv_tcp g = None \<and> endpoint_own parse port g) foreground"

lemma own_web_leads_here: "own_web parse port handlers \<Longrightarrow> leads_here parse port handlers"
  by (cases "(parse, port, handlers)" rule: own_web.cases) (auto simp: leads_here_def own_target_def split: option.splits)

lemma not_conflicting_own: "\<not> conflicting_endpoint parse port cfg \<Longrightarrow> endpoint_own parse port cfg"
proof (induction parse port cfg rule: conflicting_endpoint.induct)
  case (1 parse port web tcp foreground)
  have web: "leads_here parse port h" if "(host, h) \<in> set web" "has_suffix host '':443''" for host h
    using 1(2) that own_web_leads_here by (fastforce simp: Let_def list_ex_iff)
  moreover have "te_https t \<and> te_forward t = [] \<and> (\<exists>host h. (host, h) \<in> set web \<and> has_suffix host '':443'')" if "tcp = Some t" for t
    using 1(2) that by (auto simp: Let_def filter_empty_conv)
  moreover have "sv_tcp g = None \<and> endpoint_own parse port g" if "Some g \<in> set foreground" for g
  proof -
    have "sv_tcp g = None \<and> \<not> conflicting_endpoint parse port g" using 1(2) that by (fastforce simp: Let_def list_ex_iff)
    then show ?thesis using 1(1) [OF refl that refl] by (cases "sv_tcp g") auto
  qed
  ultimately show ?case by (auto simp: list_all_iff split: option.split)
qed

lemma change_not_read: "read_serve \<noteq> change_endpoint private port"
  by (simp add: read_serve_def change_endpoint_def)

text \<open>
  C26: Another service's endpoint is never taken (\<^verbatim>\<open>EnableRemote\<close> in \<^verbatim>\<open>internal/remote/cli.go\<close>). The command that changes the host's
  endpoint runs at most once, under the lock, right after the configuration was read, and only when that configuration
  has nothing on port 443 that is not this gateway's: no other host or handler, no listener that forwards raw TCP or does
  not serve HTTPS, in the background configuration and in every foreground one (\<open>endpoint_own\<close>). Success is reported
  exactly when the command ran and worked.
\<close>

theorem endpoint_of_others_kept:
  assumes "enable_remote e port private w = (res, w')"
  shows "\<exists>more. rw_commands w' = rw_commands w @ more \<and> more \<in> {[], [read_serve], [read_serve, change_endpoint private port]} \<and>
    (change_endpoint private port \<in> set more \<longrightarrow>
       re_open_lock e = None \<and> re_lock e = None \<and>
       (\<exists>out cfg. re_tailscale e (rw_commands w) read_serve = Inr out \<and> re_serve e out = Inr cfg \<and> endpoint_own (re_url e) port cfg)) \<and>
    (res = None \<longleftrightarrow> change_endpoint private port \<in> set more \<and>
       (\<exists>out. re_tailscale e (rw_commands w @ [read_serve]) (change_endpoint private port) = Inr out))"
proof -
  have [simp]: "[''serve'', ''status'', ''--json''] = read_serve" "[if private then ''serve'' else ''funnel'', ''--bg'', decimal port] = change_endpoint private port"
    by (simp_all add: read_serve_def change_endpoint_def)
  show ?thesis
    using assms change_not_read [of "private" port]
    by (auto simp: enable_remote_def run_tailscale_def Let_def split: option.splits sum.splits if_splits dest: not_conflicting_own)
qed

section \<open>The identity of the node\<close>

text \<open>An older identity is moved only when this database is the one owner, and only to a place that was free.\<close>

lemma legacy_identity_moved:
  "embedded_state_dir n db = (res, True) \<Longrightarrow>
     \<exists>p. nv_abs n db = Inr p \<and> res = Inr (p @ ''.tsnet'') \<and> nv_stat n (p @ ''.tsnet'') = Not_There \<and> nv_owners n (path_dir p) = Inr [p]"
  by (auto simp: embedded_state_dir_def Let_def split: sum.splits stat_answer.splits option.splits if_splits)

section \<open>Every node is closed once\<close>

text \<open>The node a provisioning made, and what became of it.\<close>

definition node_kept :: "remote_world \<Rightarrow> (remote_error + remote_result) option \<Rightarrow> remote_world \<Rightarrow> bool" where
  "node_kept w res w' \<longleftrightarrow>
     (rw_made w' = rw_made w \<and> rw_closed w' = rw_closed w \<and> (\<forall>r. res = Some (Inr r) \<longrightarrow> rr_node r = None)) \<or>
     (rw_made w' = Suc (rw_made w) \<and>
        (case res of
           Some (Inl err) \<Rightarrow> rw_closed w' = rw_made w # rw_closed w
         | Some (Inr r) \<Rightarrow> rw_closed w' = rw_closed w \<and> rr_node r = Some (rw_made w)
         | None \<Rightarrow> rw_closed w' = rw_closed w))"

lemma run_tailscale_world: "run_tailscale e args w = (res, w') \<Longrightarrow> rw_made w' = rw_made w \<and> rw_closed w' = rw_closed w \<and> rw_links w' = rw_links w"
  by (auto simp: run_tailscale_def)

lemma cli_funnel_url_world: "cli_funnel_url e w = (res, w') \<Longrightarrow> rw_made w' = rw_made w \<and> rw_closed w' = rw_closed w"
  by (auto simp: cli_funnel_url_def split: prod.splits sum.splits if_splits dest: run_tailscale_world)

lemma wait_for_url_world: "wait_for_url e rounds w = (res, w') \<Longrightarrow> rw_made w' = rw_made w \<and> rw_closed w' = rw_closed w"
  by (induction e rounds w rule: wait_for_url.induct) (auto split: prod.splits sum.splits if_splits dest!: cli_funnel_url_world)

lemma enable_remote_world: "enable_remote e port private w = (res, w') \<Longrightarrow> rw_made w' = rw_made w \<and> rw_closed w' = rw_closed w"
  by (auto simp: enable_remote_def Let_def split: option.splits prod.splits sum.splits if_splits dest!: run_tailscale_world)

lemma detect_world: "detect_tailscale e w = (res, w') \<Longrightarrow> rw_made w' = rw_made w \<and> rw_closed w' = rw_closed w"
  by (auto simp: detect_tailscale_def split: prod.splits sum.splits dest!: run_tailscale_world)

lemma wait_for_login_world: "wait_for_login rounds reported w = (res, w') \<Longrightarrow> rw_made w' = rw_made w \<and> rw_closed w' = rw_closed w"
  by (induction rounds reported w rule: wait_for_login.induct)
    (auto simp: Let_def split: option.splits sum.splits remote_error.splits if_splits)

lemma provision_cli_kept: "provision_cli e rounds c port w = (res, w') \<Longrightarrow> node_kept w res w'"
  by (auto simp: provision_cli_def node_kept_def split: prod.splits option.splits sum.splits
      dest!: enable_remote_world wait_for_url_world)

lemma provision_embedded_kept: "provision_embedded n c w = (res, w') \<Longrightarrow> node_kept w res w'"
  by (auto simp: provision_embedded_def node_kept_def close_node_def Let_def split: prod.splits option.splits sum.splits if_splits
      dest!: wait_for_login_world)

definition result_node :: "remote_result option \<Rightarrow> nat multiset" where
  "result_node r = (case r of None \<Rightarrow> {#} | Some x \<Rightarrow> (case rr_node x of None \<Rightarrow> {#} | Some k \<Rightarrow> {#k#}))"

definition waiting_node :: "access_phase \<Rightarrow> nat multiset" where
  "waiting_node ph = (case ph of Waiting (Some k) \<Rightarrow> {#k#} | _ \<Rightarrow> {#})"

text \<open>What an outcome of \<^verbatim>\<open>Provision\<close> still holds.\<close>

definition outcome_node :: "remote_world \<Rightarrow> remote_world \<Rightarrow> (remote_error + remote_result option) option \<Rightarrow> nat multiset" where
  "outcome_node w w' res =
     (case res of
        None \<Rightarrow> if rw_made w' > rw_made w then {#rw_made w#} else {#}
      | Some (Inl err) \<Rightarrow> {#}
      | Some (Inr r) \<Rightarrow> result_node r)"

lemma node_kept_outcome:
  "node_kept w res w' \<Longrightarrow>
     mset (rw_closed w') + outcome_node w w' (map_option (\<lambda>r. case r of Inl err \<Rightarrow> Inl err | Inr x \<Rightarrow> Inr (Some x)) res) + mset [0..<rw_made w] =
     mset (rw_closed w) + mset [0..<rw_made w']"
  by (auto simp: node_kept_def outcome_node_def result_node_def simp del: mset_upt split: option.splits sum.splits)

lemma provision_nodes:
  assumes "provision e n rounds c port w = (res, w')"
  shows "mset (rw_closed w') + outcome_node w w' res + mset [0..<rw_made w] = mset (rw_closed w) + mset [0..<rw_made w']"
proof -
  obtain found logged_in w1 where d: "detect_tailscale e w = ((found, logged_in), w1)" by (metis prod.exhaust)
  obtain r2 w2 where c: "provision_cli e rounds c port w1 = (r2, w2)" by (metis prod.exhaust)
  obtain r3 w3 where m: "provision_embedded n c w1 = (r3, w3)" by (metis prod.exhaust)
  obtain r4 w4 where o: "provision_embedded n c w = (r4, w4)" by (metis prod.exhaust)
  have same: "outcome_node w = outcome_node w1" "rw_made w1 = rw_made w" "rw_closed w1 = rw_closed w"
    using detect_world [OF d] by (auto simp: outcome_node_def fun_eq_iff split: option.splits sum.splits)
  note kept = node_kept_outcome [OF provision_cli_kept [OF c]] node_kept_outcome [OF provision_embedded_kept [OF m]]
    node_kept_outcome [OF provision_embedded_kept [OF o]]
  have none: "outcome_node w1 w1 (Some (Inl err)) = {#}" "outcome_node w w (Some (Inr None)) = {#}" for err
    by (simp_all add: outcome_node_def result_node_def)
  show ?thesis
    using assms kept none same by (auto simp: provision_def Let_def d c m o simp del: mset_upt split: if_splits)
qed

definition access_ok :: "access \<Rightarrow> bool" where
  "access_ok a \<longleftrightarrow>
     mset (rw_closed (ac_world a)) + result_node (ac_result a) + waiting_node (ac_phase a) = mset [0..<rw_made (ac_world a)] \<and>
     (ac_closed a \<longrightarrow> ac_result a = None) \<and> (ac_result a \<noteq> None \<longrightarrow> ac_phase a = Access_Over \<or> (\<exists>r. ac_phase a = Storing r))"

lemma login_links_only [simp]:
  "ac_phase (fold login_link us a) = ac_phase a" "ac_result (fold login_link us a) = ac_result a" "ac_closed (fold login_link us a) = ac_closed a"
  "ac_world (fold login_link us a) = ac_world a"
  by (induction us arbitrary: a) (simp_all add: login_link_def)

lemma mset_close_result: "mset (rw_closed (close_result r w)) = mset (rw_closed w) + result_node (Some r)" "rw_made (close_result r w) = rw_made w"
  by (auto simp: close_result_def close_node_def result_node_def split: option.splits)

lemma access_provision_ok:
  assumes "access_ok a" "ac_phase a = Trying"
  shows "access_ok (access_provision e n rounds c port a)"
proof -
  obtain res w where p: "provision e n rounds c port (ac_world a) = (res, w)" by (metis prod.exhaust)
  have none: "ac_result a = None" using assms by (auto simp: access_ok_def)
  then have "mset (rw_closed (ac_world a)) = mset [0..<rw_made (ac_world a)]"
    using assms by (simp add: access_ok_def result_node_def waiting_node_def)
  then have "mset (rw_closed w) + outcome_node (ac_world a) w res = mset [0..<rw_made w]"
    using provision_nodes [OF p] by (metis add.assoc add.commute add_left_cancel)
  then show ?thesis
    using none by (auto simp: access_provision_def p Let_def access_ok_def outcome_node_def waiting_node_def mset_close_result
        simp del: mset_upt split: option.splits sum.splits) (simp_all add: result_node_def del: mset_upt)
qed

lemma access_ok_step: "access_ok a \<Longrightarrow> access_ok (access_step c port a ev)"
proof (cases ev)
  case (Attempt e n rounds)
  assume "access_ok a"
  then show ?thesis using Attempt access_provision_ok by simp
next
  case (Store_Result provs read_fails write_fails devices)
  assume "access_ok a"
  then show ?thesis using Store_Result
    by (cases "ac_phase a") (auto simp: access_ok_def access_store_def waiting_node_def simp del: mset_upt)
next
  case Close_Access
  assume "access_ok a"
  then show ?thesis using Close_Access
    by (cases "ac_result a") (auto simp: access_ok_def access_close_def mset_close_result result_node_def simp del: mset_upt)
qed (auto simp: access_ok_def waiting_node_def simp del: mset_upt)

interpretation access_machine: invariant_machine "access_step c port" access_ok "\<lambda>ev. True" for c port
  by unfold_locales (rule access_ok_step)

lemma access_ok_run: "access_ok (run (access_step c port) (new_access row toks) evs)"
  by (rule access_machine.run_inv) (simp_all add: access_ok_def new_access_def result_node_def waiting_node_def list_all_iff)

text \<open>
  C27: Every embedded node is closed exactly once (\<^verbatim>\<open>Access\<close> and \<^verbatim>\<open>Provisioner\<close> in \<^verbatim>\<open>internal/remote\<close>). However attempts, retries,
  cancellation and closing interleave, and wherever an attempt fails: once remote access is closed and its loop is over,
  every node that was made has been closed, none of them twice.
\<close>

theorem embedded_nodes_closed_once:
  assumes "a = run (access_step c port) (new_access row toks) evs" "ac_closed a" "ac_phase a = Access_Over"
  shows "set (rw_closed (ac_world a)) = {k. k < rw_made (ac_world a)} \<and> distinct (rw_closed (ac_world a))"
proof -
  have "mset (rw_closed (ac_world a)) = mset [0..<rw_made (ac_world a)]"
    using access_ok_run [of c port row toks evs] assms by (auto simp: access_ok_def result_node_def waiting_node_def simp del: mset_upt)
  then have "set (rw_closed (ac_world a)) = set [0..<rw_made (ac_world a)]" "distinct (rw_closed (ac_world a)) = distinct [0..<rw_made (ac_world a)]"
    by (rule mset_eq_setD, rule mset_eq_imp_distinct_iff)
  then show ?thesis by (simp add: atLeast0LessThan lessThan_def)
qed

section \<open>Examples\<close>

definition some_remote_env :: "remote_env" where
  "some_remote_env =
     \<lparr>re_tailscale = (\<lambda>done args. Inr []),
       re_serve = (\<lambda>out. Inr (Serve_Config [(''h:443'', Some [(''/'', Some ''p'')])] (Some \<lparr>te_https = True, te_forward = []\<rparr>) [])),
       re_dns = (\<lambda>out. Inr ''gw.ts.net.''),
       re_url = (\<lambda>p. Some \<lparr>pu_scheme = ''http'', pu_host = ''127.0.0.1'', pu_port = ''8'', pu_path = [], pu_query = [], pu_user = False, pu_fragment = []\<rparr>),
       re_open_lock = None, re_lock = None\<rparr>"

definition some_node_env :: "((backend_status \<times> bool) list \<times> bool) list \<Rightarrow> node_env" where
  "some_node_env rounds =
     \<lparr>nv_abs = Inr, nv_stat = (\<lambda>p. Not_There), nv_owners = (\<lambda>d. Inr []), nv_rename = None, nv_made = True, nv_start = None, nv_rounds = rounds,
       nv_listen = None, nv_origin = None\<rparr>"

text \<open>A login that is still pending, one that fails, and then a node that comes up while remote access is being closed.\<close>

definition access_events :: "access_event list" where
  "access_events =
     [Start_Access, Attempt some_remote_env (some_node_env [([(Backend ''NeedsLogin'' ''https://l'' [], False)], False), ([(Status_Error ''x'', False)], False)]) [],
      Retry, Cancel_Access, Close_Access, Attempt some_remote_env (some_node_env [([(Backend ''Running'' [] ''gw.ts.net.'', False)], False)]) []]"

theorem endpoint_of_others_kept_witness:
  "change_endpoint False 8 \<in> set (rw_commands (snd (enable_remote some_remote_env 8 False \<lparr>rw_commands = [], rw_made = 0, rw_closed = [], rw_links = []\<rparr>))) \<and>
   (\<exists>out cfg. re_tailscale some_remote_env [] read_serve = Inr out \<and> re_serve some_remote_env out = Inr cfg \<and> endpoint_own (re_url some_remote_env) 8 cfg)"
proof -
  let ?w = "\<lparr>rw_commands = [], rw_made = 0, rw_closed = [], rw_links = []\<rparr>"
  obtain res w' where run: "enable_remote some_remote_env 8 False ?w = (res, w')" by (metis prod.exhaust)
  have "fst (enable_remote some_remote_env 8 False ?w) = None"
    by code_simp
  then show ?thesis using endpoint_of_others_kept [OF run] run by auto
qed

definition no_tokens :: token_store where
  "no_tokens = \<lparr>tokens = Map.empty, get_fails = False, save_fails = False, delete_fails = False\<rparr>"

definition remote_config :: config where
  "remote_config =
     load_config \<lparr>mc_hostname = None, mc_home = None, mc_os = ''linux'', mc_join = join_strings ''/''\<rparr> [''FERNGEIST_GATEWAY_TAILSCALE_MODE'' \<mapsto> ''tsnet'']"

lemma remote_config_mode: "cf_tailscale_mode remote_config = ''tsnet''"
  by code_simp

theorem embedded_nodes_closed_once_witness:
  "set (rw_closed (ac_world (run (access_step remote_config 8) (new_access None no_tokens) access_events))) = {0, 1}"
proof -
  let ?a = "run (access_step remote_config 8) (new_access None no_tokens) access_events"
  have "ac_closed ?a \<and> (ac_phase ?a = Access_Over \<and> rw_made (ac_world ?a) = 2)"
    by (simp add: access_events_def new_access_def access_provision_def provision_def remote_config_mode provision_embedded_def embedded_state_dir_def
        some_node_env_def open_listener_def close_node_def close_result_def access_close_def login_link_def Let_def)
  then have state: "ac_closed ?a" "ac_phase ?a = Access_Over" "rw_made (ac_world ?a) = 2" by (rule conjunct1, rule conjunct1 [OF conjunct2], rule conjunct2 [OF conjunct2])
  have "set (rw_closed (ac_world ?a)) = {k. k < rw_made (ac_world ?a)}"
    by (rule conjunct1 [OF embedded_nodes_closed_once [OF refl state(1, 2)]])
  also have "\<dots> = {0, 1}" unfolding state(3) by auto
  finally show ?thesis .
qed

section \<open>What the status says\<close>

text \<open>While a login is pending, the status shows its link; the last one reported.\<close>

lemma pending_login_shown:
  "rs_auth_url (remote_status_of c parse url (ac_snapshot (login_link link a)) include_url) = link \<and>
   rs_auth_required (remote_status_of c parse url (ac_snapshot (login_link link a)) include_url)"
  by (simp add: login_link_def remote_status_of_def Let_def trim_space_def split: prod.splits)

text \<open>
  Finding: an embedded node that is open to the internet has an address that ends in \<^verbatim>\<open>.ts.net\<close>, which
  \<^verbatim>\<open>classifyRemoteURL\<close> takes for a private one, so that the warnings about public mode never appear for it.
\<close>

theorem funnel_counts_as_private:
  "open_listener (some_node_env []) False ''gw.tail1.ts.net.'' = Inr ''https://gw.tail1.ts.net'' \<and>
   (let st = remote_status_of (remote_config\<lparr>cf_allow_legacy := True, cf_require_proof := False\<rparr>) (\<lambda>u. Some (''https'', ''gw.tail1.ts.net'', ''gw.tail1.ts.net''))
               ''https://gw.tail1.ts.net'' None True
    in rs_scope st = ''private'' \<and> rs_warning st = [])"
  by (rule conjI, code_simp)
    (simp add: remote_status_of_def classify_remote_url_def remote_security_warning_def has_suffix_def str_contains_def to_lower_def Let_def, code_simp)

text \<open>Finding: a hint that is the first warning starts with the separator.\<close>

theorem first_hint_starts_with_separator:
  "rs_warning (remote_status_of remote_config (\<lambda>u. None) [] (Some \<lparr>ss_auth_required = False, ss_auth_url = [], ss_hint = ''hint'', ss_last_err = []\<rparr>) False) = ''; hint''"
proof -
  have "add_warning [] ''hint'' = ''; hint''" by code_simp
  moreover have "trim_space ''hint'' = ''hint''" "trim_space [] = []" by code_simp+
  ultimately show ?thesis by (simp add: remote_status_of_def Let_def)
qed

end
