(* ===== verification/Api_Turns.thy ===== *)
theory Api_Turns
  imports Http_Auth_Proofs Turn_Feed
begin

text \<open>
  The turn endpoints (\<^verbatim>\<open>internal/api/turns.go\<close>): the snapshot, and the stream with its slots, its credential checks and its
  close codes. What arrives at a stream is a list of events; each frame written is kept with the time and the gateway
  it was written under. JSON and the socket are not modelled: whether a payload could be encoded and written comes with
  the event.
\<close>

section \<open>The snapshot\<close>

datatype turns_reply = Turns_Refused reply | Turns_Error int string | Turns_Answer gtime snapshot

definition handle_turns ::
  "crypto \<Rightarrow> (string \<Rightarrow> string) \<Rightarrow> (string \<Rightarrow> bool) \<Rightarrow> gtime \<Rightarrow> gtime \<Rightarrow> snapshot option \<Rightarrow> http_request \<Rightarrow> gateway \<Rightarrow> gateway \<times> turns_reply" where
  "handle_turns cy digest io now started turns r g =
     (case require_gateway_scope cy digest io now scope_read r g of
        (g1, Inl e) \<Rightarrow> (g1, Turns_Refused e)
      | (g1, Inr c) \<Rightarrow>
          (g1, case turns of None \<Rightarrow> Turns_Error 503 ''session service not available'' | Some snap \<Rightarrow> Turns_Answer started snap))"

section \<open>Slots\<close>

definition turn_stream_snapshot_slots :: nat where "turn_stream_snapshot_slots = 8"

text \<open>
  The handler of a stream: it has entered, holds a slot while it builds and writes its snapshot, streams, or is gone.
\<close>

datatype handler_phase = Wants_Slot | Has_Slot | Streaming | Gone

record stream_server =
  sv_handlers :: "handler_phase list"
  sv_stopped :: bool

definition new_stream_server :: stream_server where
  "new_stream_server = \<lparr>sv_handlers = [], sv_stopped = False\<rparr>"

definition slots_taken :: "stream_server \<Rightarrow> nat" where
  "slots_taken s = length (filter (\<lambda>ph. ph = Has_Slot) (sv_handlers s))"

definition enter_turn_stream :: "stream_server \<Rightarrow> bool \<times> stream_server" where
  "enter_turn_stream s = (if sv_stopped s then (False, s) else (True, s\<lparr>sv_handlers := sv_handlers s @ [Wants_Slot]\<rparr>))"

definition put_phase :: "nat \<Rightarrow> handler_phase \<Rightarrow> stream_server \<Rightarrow> stream_server" where
  "put_phase k ph s = s\<lparr>sv_handlers := (sv_handlers s)[k := ph]\<rparr>"

text \<open>A free slot is taken; otherwise the handler waits until one is free, its time is over or the server stops.\<close>

definition acquire_stream_slot :: "nat \<Rightarrow> bool \<Rightarrow> stream_server \<Rightarrow> stream_server" where
  "acquire_stream_slot k gave_up s =
     (if slots_taken s < turn_stream_snapshot_slots then put_phase k Has_Slot s
      else if gave_up \<or> sv_stopped s then put_phase k Gone s
      else s)"

text \<open>
  \<open>Written\<close>: the snapshot is on its way and the slot free. \<open>Left\<close>: every other end of the handler, which frees the slot if
  it still has one.
\<close>

datatype slot_event = Enter | Acquire nat bool | Written nat | Left nat | Stop_Streams

definition in_phase :: "nat \<Rightarrow> handler_phase set \<Rightarrow> stream_server \<Rightarrow> bool" where
  "in_phase k phs s \<longleftrightarrow> k < length (sv_handlers s) \<and> sv_handlers s ! k \<in> phs"

fun slot_step :: "stream_server \<Rightarrow> slot_event \<Rightarrow> stream_server" where
  "slot_step s Enter = snd (enter_turn_stream s)"
| "slot_step s (Acquire k gave_up) = (if in_phase k {Wants_Slot} s then acquire_stream_slot k gave_up s else s)"
| "slot_step s (Written k) = (if in_phase k {Has_Slot} s then put_phase k Streaming s else s)"
| "slot_step s (Left k) = (if in_phase k {Has_Slot, Streaming} s then put_phase k Gone s else s)"
| "slot_step s Stop_Streams = s\<lparr>sv_stopped := True\<rparr>"

section \<open>The stream\<close>

datatype stream_frame = Snapshot_Frame gtime snapshot | Changes_Frame change

text \<open>How a stream ended: the close code, which is 0 when no close frame is sent, and the reason.\<close>

type_synonym stream_end = "int \<times> string"

definition turn_stream_close :: "feed_error option \<Rightarrow> stream_end" where
  "turn_stream_close err =
     (case err of
        Some ErrSlowConsumer \<Rightarrow> (4408, ''client fell behind'')
      | Some ErrSuperseded \<Rightarrow> (4409, ''superseded by a newer stream'')
      | Some ErrStopped \<Rightarrow> (1001, ''gateway shutting down'')
      | _ \<Rightarrow> (1011, ''turn stream failed''))"

text \<open>The check of an open stream: the reason to close, if the token is not good any more.\<close>

definition stream_auth_reason :: "pairing_error \<Rightarrow> string" where
  "stream_auth_reason e = (if auth_error_code e \<noteq> [] then auth_error_code e else credential_invalid)"

definition revalidate_stream_credential ::
  "(string \<Rightarrow> string) \<Rightarrow> (string \<Rightarrow> bool) \<Rightarrow> gtime \<Rightarrow> string \<Rightarrow> gateway \<Rightarrow> gateway \<times> string option" where
  "revalidate_stream_credential digest io now token g =
     (case validate_credential digest io now token (gw_pairing g) of
        (ps, res) \<Rightarrow>
          let g1 = g\<lparr>gw_pairing := ps\<rparr>
          in (g1, case res of
                Inl e \<Rightarrow> Some (stream_auth_reason e)
              | Inr c \<Rightarrow>
                  if legacy_refused c g1 then Some legacy_credentials_disabled
                  else map_option stream_auth_reason (require_scope scope_read c)))"

record turn_stream =
  ts_gateway :: gateway
  ts_frames :: "(stream_frame \<times> gtime \<times> gateway) list"
  ts_end :: "stream_end option"

definition write_stream_frame :: "bool \<Rightarrow> stream_frame \<Rightarrow> gtime \<Rightarrow> turn_stream \<Rightarrow> turn_stream" where
  "write_stream_frame written f now t =
     (if written then t\<lparr>ts_frames := ts_frames t @ [(f, now, ts_gateway t)]\<rparr> else t\<lparr>ts_end := Some (0, [])\<rparr>)"

definition begin_stream :: "bool \<Rightarrow> bool \<Rightarrow> gtime \<Rightarrow> gtime \<Rightarrow> snapshot \<Rightarrow> gateway \<Rightarrow> turn_stream" where
  "begin_stream encoded written started now snap g =
     (let t = \<lparr>ts_gateway = g, ts_frames = [], ts_end = None\<rparr>
      in if \<not> encoded then t\<lparr>ts_end := Some (1011, [])\<rparr> else write_stream_frame written (Snapshot_Frame started snap) now t)"

datatype stream_event =
    Others_Act "gateway \<Rightarrow> gateway"
  | Client_Gone
  | Server_Stops
  | Recheck gtime
  | Change_Comes gtime change bool bool
  | Feed_Over "feed_error option"

definition check_stream :: "(string \<Rightarrow> string) \<Rightarrow> (string \<Rightarrow> bool) \<Rightarrow> gtime \<Rightarrow> string \<Rightarrow> turn_stream \<Rightarrow> turn_stream" where
  "check_stream digest io now token t =
     (case revalidate_stream_credential digest io now token (ts_gateway t) of
        (g, None) \<Rightarrow> t\<lparr>ts_gateway := g\<rparr>
      | (g, Some reason) \<Rightarrow> t\<lparr>ts_gateway := g, ts_end := Some (4401, reason)\<rparr>)"

definition publish_change :: "(string \<Rightarrow> string) \<Rightarrow> (string \<Rightarrow> bool) \<Rightarrow> gtime \<Rightarrow> string \<Rightarrow> change \<Rightarrow> bool \<Rightarrow> bool \<Rightarrow> turn_stream \<Rightarrow> turn_stream" where
  "publish_change digest io now token ch encoded written t =
     (let t1 = check_stream digest io now token t
      in if ts_end t1 \<noteq> None then t1
         else if \<not> encoded then t1\<lparr>ts_end := Some (1011, [])\<rparr>
         else write_stream_frame written (Changes_Frame ch) now t1)"

fun stream_step :: "(string \<Rightarrow> string) \<Rightarrow> (string \<Rightarrow> bool) \<Rightarrow> string \<Rightarrow> turn_stream \<Rightarrow> stream_event \<Rightarrow> turn_stream" where
  "stream_step digest io token t (Others_Act f) = t\<lparr>ts_gateway := f (ts_gateway t)\<rparr>"
| "stream_step digest io token t Client_Gone = (if ts_end t = None then t\<lparr>ts_end := Some (0, [])\<rparr> else t)"
| "stream_step digest io token t Server_Stops = (if ts_end t = None then t\<lparr>ts_end := Some (1001, ''gateway shutting down'')\<rparr> else t)"
| "stream_step digest io token t (Recheck now) = (if ts_end t = None then check_stream digest io now token t else t)"
| "stream_step digest io token t (Change_Comes now ch encoded written) =
     (if ts_end t = None then publish_change digest io now token ch encoded written t else t)"
| "stream_step digest io token t (Feed_Over err) = (if ts_end t = None then t\<lparr>ts_end := Some (turn_stream_close err)\<rparr> else t)"

text \<open>
  \<^verbatim>\<open>handleTurnStream\<close> up to the stream itself: the gate, the services, the server and the subscription. \<open>entered\<close> and \<open>slot\<close>
  tell whether the handler was let in and whether it got a slot; \<open>subscribed\<close> is the feed's answer.
\<close>

datatype stream_opening = Stream_Refused reply | Stream_Error int string | Not_Upgraded | Opened snapshot

definition open_turn_stream ::
  "crypto \<Rightarrow> (string \<Rightarrow> string) \<Rightarrow> (string \<Rightarrow> bool) \<Rightarrow> gtime \<Rightarrow> bool \<Rightarrow> bool \<Rightarrow> bool \<Rightarrow> (feed_error + snapshot) \<Rightarrow> bool \<Rightarrow> http_request \<Rightarrow> gateway \<Rightarrow>
   gateway \<times> stream_opening" where
  "open_turn_stream cy digest io now available entered slot subscribed upgraded r g =
     (case require_gateway_scope cy digest io now scope_read r g of
        (g1, Inl e) \<Rightarrow> (g1, Stream_Refused e)
      | (g1, Inr c) \<Rightarrow>
          (g1,
           if \<not> available then Stream_Error 503 ''session service not available''
           else if \<not> entered then Stream_Error 503 ''gateway shutting down''
           else if \<not> slot then Stream_Error 503 ''turn stream is at capacity''
           else case subscribed of
                  Inl err \<Rightarrow> Stream_Error 503 ''turn stream is at capacity''
                | Inr snap \<Rightarrow> if upgraded then Opened snap else Not_Upgraded))"

section \<open>Slots are bounded and streams joined\<close>

definition stream_slots_ok :: "stream_server \<Rightarrow> bool" where
  "stream_slots_ok s \<longleftrightarrow> slots_taken s \<le> turn_stream_snapshot_slots"

lemma filter_upd_length:
  "k < length xs \<Longrightarrow> length (filter P (xs[k := x])) + (if P (xs ! k) then 1 else 0) = length (filter P xs) + (if P x then 1 else 0)"
proof (induction xs arbitrary: k)
  case (Cons y xs)
  then show ?case by (cases k) auto
qed simp

lemma slots_put:
  "in_phase k phs s \<Longrightarrow> slots_taken (put_phase k ph s) + (if sv_handlers s ! k = Has_Slot then 1 else 0) = slots_taken s + (if ph = Has_Slot then 1 else 0)"
  using filter_upd_length [of k "sv_handlers s" "\<lambda>ph. ph = Has_Slot" ph] by (simp add: in_phase_def slots_taken_def put_phase_def)

lemma stream_slots_step: "stream_slots_ok s \<Longrightarrow> stream_slots_ok (slot_step s ev)"
proof (cases ev)
  case (Acquire k gave_up)
  assume "stream_slots_ok s"
  then show ?thesis
    using Acquire slots_put [of k "{Wants_Slot}" s Has_Slot] slots_put [of k "{Wants_Slot}" s Gone]
    by (auto simp: stream_slots_ok_def acquire_stream_slot_def in_phase_def split: if_splits)
next
  case (Written k)
  assume "stream_slots_ok s"
  then show ?thesis using Written slots_put [of k "{Has_Slot}" s Streaming] by (auto simp: stream_slots_ok_def split: if_splits)
next
  case (Left k)
  assume "stream_slots_ok s"
  then show ?thesis using Left slots_put [of k "{Has_Slot, Streaming}" s Gone] by (auto simp: stream_slots_ok_def split: if_splits)
qed (auto simp: stream_slots_ok_def slots_taken_def enter_turn_stream_def)

interpretation slots: invariant_machine slot_step stream_slots_ok "\<lambda>ev. True"
  by unfold_locales (rule stream_slots_step)

text \<open>At most eight snapshots are built at a time, whatever the streams do.\<close>

lemma snapshot_slots_bounded: "slots_taken (run slot_step new_stream_server evs) \<le> turn_stream_snapshot_slots"
  using slots.run_inv [of new_stream_server evs]
  by (simp add: stream_slots_ok_def slots_taken_def new_stream_server_def list_all_iff)

lemma stopped_step: "sv_stopped s \<Longrightarrow> sv_stopped (slot_step s ev) \<and> length (sv_handlers (slot_step s ev)) = length (sv_handlers s)"
  by (cases ev) (auto simp: enter_turn_stream_def acquire_stream_slot_def put_phase_def)

text \<open>Once the server stops, no stream is added to those that shutting down waits for.\<close>

lemma no_stream_after_stop: "sv_stopped s \<Longrightarrow> length (sv_handlers (run slot_step s evs)) = length (sv_handlers s)"
  by (induction evs arbitrary: s) (simp_all add: stopped_step)

section \<open>Nothing is streamed without a live credential\<close>

definition live_frames :: "(string \<Rightarrow> string) \<Rightarrow> (string \<Rightarrow> bool) \<Rightarrow> string \<Rightarrow> turn_stream \<Rightarrow> bool" where
  "live_frames digest io token t \<longleftrightarrow>
     list_all (\<lambda>(f, now, g). case f of Snapshot_Frame _ _ \<Rightarrow> True
        | Changes_Frame ch \<Rightarrow> \<exists>g0. revalidate_stream_credential digest io now token g0 = (g, None)) (ts_frames t)"

lemma live_frames_step: "live_frames digest io token t \<Longrightarrow> live_frames digest io token (stream_step digest io token t ev)"
  by (cases ev)
    (auto simp: live_frames_def check_stream_def publish_change_def write_stream_frame_def Let_def split: prod.splits option.splits)

interpretation stream: invariant_machine "stream_step digest io token" "live_frames digest io token" "\<lambda>ev. True" for digest io token
  by unfold_locales (rule live_frames_step)

lemma live_frames_run: "live_frames digest io token (run (stream_step digest io token) (begin_stream encoded written started now snap g) evs)"
  by (rule stream.run_inv) (auto simp: live_frames_def begin_stream_def write_stream_frame_def Let_def list_all_iff)

lemma valid_keeps_service: "validate_credential digest io now token s = (s', Inr c) \<Longrightarrow> s' = s"
  by (auto simp: validate_credential_def validate_device_def Let_def split: option.splits if_splits)

lemma valid_credential_live:
  assumes "revalidate_stream_credential digest io now token g0 = (g, None)"
  shows "\<exists>c. snd (validate_credential digest io now token (gw_pairing g)) = Inr c \<and> \<not> legacy_refused c g \<and> require_scope scope_read c = None"
proof -
  obtain ps c where v: "validate_credential digest io now token (gw_pairing g0) = (ps, Inr c)" "g = g0\<lparr>gw_pairing := ps\<rparr>"
    "\<not> legacy_refused c g" "require_scope scope_read c = None"
    using assms by (auto simp: revalidate_stream_credential_def Let_def split: prod.splits sum.splits if_splits)
  moreover have "ps = gw_pairing g0" using valid_keeps_service [OF v(1)] .
  ultimately show ?thesis by auto
qed

lemma ended_stream_inert: "ts_end t \<noteq> None \<Longrightarrow> ts_end (stream_step digest io token t ev) = ts_end t \<and> ts_frames (stream_step digest io token t ev) = ts_frames t"
  by (cases ev) auto

text \<open>
  A stream carries nothing for a credential that has been revoked, has expired or lost its scope
  (\<^verbatim>\<open>internal/api/turns.go\<close>). Whatever happens to the gateway while a stream is open: every change written on it was
  written right after its token had been validated with the scope to read, by the gateway as it was then.
\<close>

theorem stream_needs_live_credential:
  assumes "(Changes_Frame ch, time, g') \<in> set (ts_frames (run (stream_step digest io token) (begin_stream encoded written started now snap g) evs))"
  shows "\<exists>c. snd (validate_credential digest io time token (gw_pairing g')) = Inr c \<and> \<not> legacy_refused c g' \<and> require_scope scope_read c = None"
proof -
  have "\<exists>g0. revalidate_stream_credential digest io time token g0 = (g', None)"
    using live_frames_run [of digest io token encoded written started now snap g evs] assms
    by (fastforce simp: live_frames_def list_all_iff)
  then show ?thesis using valid_credential_live by blast
qed

definition some_change :: change where
  "some_change = \<lparr>ch_at = 1, ch_upserts = [], ch_removed = []\<rparr>"

theorem stream_needs_live_credential_witness:
  "\<exists>c. snd (validate_credential (\<lambda>t. t) (\<lambda>_. True) (unix_second 900) ''tok'' (gw_pairing ex_gateway)) = Inr c \<and>
     \<not> legacy_refused c ex_gateway \<and> require_scope scope_read c = None"
proof -
  let ?t = "run (stream_step (\<lambda>t. t) (\<lambda>_. True) ''tok'') (begin_stream True True 0 0 \<lparr>sn_at = 0, sn_turns = []\<rparr> ex_gateway)
              [Change_Comes (unix_second 900) some_change True True]"
  have ok: "revalidate_stream_credential (\<lambda>t. t) (\<lambda>_. True) (unix_second 900) ''tok'' ex_gateway = (ex_gateway, None)"
  proof -
    have none: "snd (revalidate_stream_credential (\<lambda>t. t) (\<lambda>_. True) (unix_second 900) ''tok'' ex_gateway) = None" by code_simp
    then obtain g1 where r: "revalidate_stream_credential (\<lambda>t. t) (\<lambda>_. True) (unix_second 900) ''tok'' ex_gateway = (g1, None)" by (metis prod.collapse)
    obtain ps c where v: "validate_credential (\<lambda>t. t) (\<lambda>_. True) (unix_second 900) ''tok'' (gw_pairing ex_gateway) = (ps, Inr c)" "g1 = ex_gateway\<lparr>gw_pairing := ps\<rparr>"
      using r by (auto simp: revalidate_stream_credential_def Let_def split: prod.splits sum.splits)
    then have "g1 = ex_gateway" using valid_keeps_service [OF v(1)] by simp
    then show ?thesis using r by simp
  qed
  have "(Changes_Frame some_change, unix_second 900, ex_gateway) \<in> set (ts_frames ?t)"
    using ok by (simp add: begin_stream_def write_stream_frame_def publish_change_def check_stream_def Let_def)
  then show ?thesis by (rule stream_needs_live_credential)
qed

end
