(* ===== verification/Api_Agents.thy ===== *)
theory Api_Agents
  imports Api_Turns Api_Workspace Supervisor Custom_Agents Sessions Quota
begin

text \<open>
  The endpoints for agents, runtimes, sessions, quotas, custom agents and diagnostics (\<^verbatim>\<open>internal/api/runtime_handlers.go\<close>,
  \<^verbatim>\<open>session_handlers.go\<close>, \<^verbatim>\<open>quota.go\<close>, \<^verbatim>\<open>diagnostics.go\<close>, \<^verbatim>\<open>custom_agents.go\<close>), the WebSocket helpers (\<^verbatim>\<open>websocket.go\<close>) and what the
  server says of itself (\<^verbatim>\<open>server.go\<close>). The supervisor is the one of the model; the session service, whose operations run in
  several steps, and the catalog are given by the outcome and the effect of each of their operations on the rest of
  the gateway's state.
\<close>

section \<open>WebSocket addresses\<close>

definition websocket_scheme :: "bool \<Rightarrow> http_request \<Rightarrow> string" where
  "websocket_scheme tls r =
     (let forwarded = to_lower (trim_space (header r ''X-Forwarded-Proto''))
      in if forwarded = ''https'' \<or> forwarded = ''wss'' then ''wss''
         else if forwarded = ''http'' \<or> forwarded = ''ws'' then ''ws''
         else if tls then ''wss'' else ''ws'')"

definition websocket_host :: "string \<Rightarrow> http_request \<Rightarrow> string" where
  "websocket_host host r =
     (let forwarded = trim_space (header r ''X-Forwarded-Host'') in if forwarded \<noteq> [] then forwarded else host)"

definition websocket_host_with_path :: "string \<Rightarrow> http_request \<Rightarrow> string \<Rightarrow> string" where
  "websocket_host_with_path host r path = websocket_host host r @ path"

definition absolute_websocket_url :: "bool \<Rightarrow> string \<Rightarrow> http_request \<Rightarrow> string \<Rightarrow> string" where
  "absolute_websocket_url tls host r path = websocket_scheme tls r @ ''://'' @ websocket_host_with_path host r path"

text \<open>
  \<^verbatim>\<open>keepAliveWebSocket\<close>: each round is a ping, whether it was answered, whether the context has ended and how long ago the
  last write was completed. The answer tells whether the connection was closed; \<open>None\<close> while pinging goes on.
\<close>

definition ws_keep_alive_interval :: duration where "ws_keep_alive_interval = 30 * second"

fun keep_alive :: "(bool \<times> bool \<times> duration) list \<Rightarrow> bool option" where
  "keep_alive [] = None"
| "keep_alive ((answered, ended, idle) # rounds) =
     (if answered then keep_alive rounds
      else if \<not> ended \<and> idle < ws_keep_alive_interval then keep_alive rounds
      else Some (\<not> ended))"

text \<open>
  \<^verbatim>\<open>proxyWebSocketToStdio\<close>: what is read, and what becomes of each payload: logged, then written to the agent. The answer
  is how the loop ended, if it did.
\<close>

datatype ws_read = Ws_Frame bool string | Ws_Closed int | Ws_Broken
datatype proxy_end = Proxy_Eof | Proxy_Error

fun proxy_websocket :: "(string \<Rightarrow> bool) \<Rightarrow> ws_read list \<Rightarrow> string list \<times> string list \<times> proxy_end option" where
  "proxy_websocket writes [] = ([], [], None)"
| "proxy_websocket writes (x # xs) =
     (case x of
        Ws_Closed code \<Rightarrow> ([], [], Some (if code = 1000 \<or> code = 1001 then Proxy_Eof else Proxy_Error))
      | Ws_Broken \<Rightarrow> ([], [], Some Proxy_Error)
      | Ws_Frame data payload \<Rightarrow>
          if \<not> data then proxy_websocket writes xs
          else if writes payload then
            (case proxy_websocket writes xs of (logged, sent, e) \<Rightarrow> (payload # logged, payload # sent, e))
          else ([payload], [], Some Proxy_Error))"

section \<open>The server about itself\<close>

definition effective_public_url :: "string \<Rightarrow> config \<Rightarrow> string" where
  "effective_public_url live c = (if live \<noteq> [] then live else trim_space (cf_public_url c))"

definition set_public_url :: "string \<Rightarrow> string" where
  "set_public_url url = trim_space url"

definition gateway_display_name :: "config \<Rightarrow> string" where
  "gateway_display_name c = (let name = trim_space (cf_gateway_name c) in if name \<noteq> [] then name else ''ferngeist-gateway'')"

definition uptime_seconds :: "gtime \<Rightarrow> gtime \<Rightarrow> int" where
  "uptime_seconds started now = (if started = zero_time \<or> now < started then 0 else (now - started) div second)"

definition build_version_of :: "string \<Rightarrow> string" where
  "build_version_of v = (if trim_space v = [] then ''dev'' else v)"

definition registry_state :: "'s option \<Rightarrow> 's \<Rightarrow> 's" where
  "registry_state client disabled = (case client of None \<Rightarrow> disabled | Some st \<Rightarrow> st)"

definition admin_listen_addr :: "string \<Rightarrow> string" where
  "admin_listen_addr addr = (let a = trim_space addr in if a = [] then ''127.0.0.1:0'' else a)"

record status_snapshot =
  ss_name :: string
  ss_version :: string
  ss_protocol :: string
  ss_started :: gtime
  ss_server_time :: gtime
  ss_uptime :: int
  ss_listen :: string
  ss_lan :: bool
  ss_devices :: nat
  ss_remote :: remote_status
  ss_counts :: summary

definition protocol_version :: string where "protocol_version = ''v2''"

definition status_snapshot_of :: "config \<Rightarrow> string \<Rightarrow> gtime \<Rightarrow> gtime \<Rightarrow> nat \<Rightarrow> remote_status \<Rightarrow> summary \<Rightarrow> status_snapshot" where
  "status_snapshot_of c version started now devices remote counts =
     \<lparr>ss_name = gateway_display_name c, ss_version = build_version_of version, ss_protocol = protocol_version, ss_started = started,
       ss_server_time = now, ss_uptime = uptime_seconds started now, ss_listen = cf_listen_addr c, ss_lan = cf_enable_lan c,
       ss_devices = devices, ss_remote = remote, ss_counts = counts\<rparr>"

section \<open>Errors\<close>

datatype service_error = Run_Error supervisor_error | Session_Error session_error | Other_Error

text \<open>An answer with \<open>Agent_Failed\<close> carries the text of the error itself.\<close>

record agent_row =
  gr_agent :: catalog_agent
  gr_running :: bool
  gr_runtime :: string
  gr_status :: "runtime_status option"
  gr_runtimes :: "runtime list"

record connect_reply =
  cr_runtime :: string
  cr_protocol :: string
  cr_scheme :: string
  cr_host :: string
  cr_url :: string
  cr_path :: string
  cr_session :: string
  cr_token :: string

datatype agent_reply =
    Agent_Auth reply
  | Agent_Error int string
  | Agent_Failed int service_error
  | Agent_Unknown
  | Agent_List "agent_row list"
  | Runtime_List "runtime list"
  | Runtime_Logs string "log_entry list"
  | Runtime_Stopped runtime
  | Agent_Connected connect_reply
  | Session_Attached connect_reply string bool
  | Session_Resumed string
  | Session_List "session_summary list"
  | No_Content
  | Startup_Exit string
  | Quotas_Answer "quota_provider list"
  | Quotas_Coded string
  | Custom_Answer int
  | Diagnostics_Summary summary "(nat \<times> nat \<times> gtime) option"
  | Diagnostics_Export summary "runtime list" "(string \<times> log_entry list) list" "string list"

definition agent_launch_error :: "service_error \<Rightarrow> agent_reply" where
  "agent_launch_error err =
     (case err of
        Run_Error ErrAgentNotDetected \<Rightarrow> Agent_Failed 409 err
      | Run_Error ErrUnsupportedLaunch \<Rightarrow> Agent_Failed 409 err
      | Run_Error ErrRemoteStartNotAllowed \<Rightarrow> Agent_Failed 409 err
      | Session_Error ErrSessionLimitReached \<Rightarrow> Agent_Failed 409 err
      | Run_Error (ErrExecutableNotFound _) \<Rightarrow> Agent_Failed 424 err
      | Session_Error ErrSessionNotActive \<Rightarrow> Agent_Error 503 ''session service is shutting down''
      | _ \<Rightarrow> Agent_Error 500 ''failed to start agent'')"

section \<open>The services behind the handlers\<close>

record started_session =
  nw_id :: string
  nw_runtime :: string
  nw_token :: string

type_synonym 'w agents_world = "supervisor \<times> 'w"

record 'w agent_services =
  as_now :: gtime
  as_sessions :: bool
  as_agents :: "'w \<Rightarrow> catalog_agent list \<times> 'w"
  as_agent :: "string \<Rightarrow> 'w \<Rightarrow> catalog_agent option \<times> 'w"
  as_create :: "catalog_agent \<Rightarrow> string \<Rightarrow> 'w agents_world \<Rightarrow> (service_error + started_session) \<times> 'w agents_world"
  as_attach :: "catalog_agent \<Rightarrow> string \<Rightarrow> string \<Rightarrow> 'w agents_world \<Rightarrow> (service_error + started_session \<times> bool) \<times> 'w agents_world"
  as_restart :: "string \<Rightarrow> string \<Rightarrow> catalog_agent \<Rightarrow> (string \<times> string) list \<Rightarrow> 'w agents_world \<Rightarrow> (service_error + started_session) \<times> 'w agents_world"
  as_stop :: "string \<Rightarrow> string \<Rightarrow> 'w agents_world \<Rightarrow> (service_error + runtime) \<times> 'w agents_world"
  as_close :: "string \<Rightarrow> string \<Rightarrow> 'w agents_world \<Rightarrow> service_error option \<times> 'w agents_world"
  as_resume :: "string \<Rightarrow> string \<Rightarrow> 'w agents_world \<Rightarrow> (service_error + string) \<times> 'w agents_world"
  as_listed :: "string \<Rightarrow> 'w agents_world \<Rightarrow> service_error + session_summary list"
  as_epoch :: "string \<Rightarrow> 'w agents_world \<Rightarrow> string option"
  as_custom :: "(custom_state \<Rightarrow> int \<times> custom_state) \<Rightarrow> 'w \<Rightarrow> int \<times> 'w"
  as_quotas :: "(quota_error + quota_provider list) option"
  as_feed :: "(nat \<times> nat \<times> gtime) option"
  as_logs :: "nat \<Rightarrow> string list option"
  as_recorded :: bool

definition on_supervisor :: "(supervisor \<Rightarrow> supervisor \<times> 'a) \<Rightarrow> 'w agents_world \<Rightarrow> 'a \<times> 'w agents_world" where
  "on_supervisor f sw = (case f (fst sw) of (s, x) \<Rightarrow> (x, s, snd sw))"

definition on_rest :: "('w \<Rightarrow> 'a \<times> 'w) \<Rightarrow> 'w agents_world \<Rightarrow> 'a \<times> 'w agents_world" where
  "on_rest f sw = (case f (snd sw) of (x, w) \<Rightarrow> (x, fst sw, w))"

section \<open>Agents and runtimes\<close>

definition agent_row_of :: "runtime list \<Rightarrow> catalog_agent \<Rightarrow> agent_row" where
  "agent_row_of rts a =
     (let own = filter (\<lambda>rt. rt_agent rt = ca_id a) rts
      in case own of
           [] \<Rightarrow> \<lparr>gr_agent = a, gr_running = False, gr_runtime = [], gr_status = None, gr_runtimes = []\<rparr>
         | newest # _ \<Rightarrow> \<lparr>gr_agent = a, gr_running = (rt_status newest = RunRunning), gr_runtime = rt_id newest, gr_status = Some (rt_status newest), gr_runtimes = own\<rparr>)"

definition agents_handler :: "'w agent_services \<Rightarrow> 'w agents_world \<Rightarrow> agent_reply \<times> 'w agents_world" where
  "agents_handler s w =
     (case on_supervisor (list_runtimes (as_now s)) w of
        (rts, w1) \<Rightarrow> (case on_rest (as_agents s) w1 of (agents, w2) \<Rightarrow> (Agent_List (map (agent_row_of rts) agents), w2)))"

definition runtimes_handler :: "'w agent_services \<Rightarrow> 'w agents_world \<Rightarrow> agent_reply \<times> 'w agents_world" where
  "runtimes_handler s w = (case on_supervisor (list_runtimes (as_now s)) w of (rts, w1) \<Rightarrow> (Runtime_List rts, w1))"

definition runtime_logs_handler :: "'w agent_services \<Rightarrow> string \<Rightarrow> 'w agents_world \<Rightarrow> agent_reply \<times> 'w agents_world" where
  "runtime_logs_handler s rid w =
     (case on_supervisor (runtime_logs rid (as_now s)) w of
        (Inl err, w1) \<Rightarrow> (Agent_Failed 404 (Run_Error err), w1)
      | (Inr logs, w1) \<Rightarrow> (Runtime_Logs rid logs, w1))"

definition connect_reply_of :: "bool \<Rightarrow> string \<Rightarrow> http_request \<Rightarrow> connect_descriptor \<Rightarrow> started_session \<Rightarrow> connect_reply" where
  "connect_reply_of tls host r d ns =
     \<lparr>cr_runtime = cd_runtime d, cr_protocol = cd_protocol d, cr_scheme = websocket_scheme tls r,
       cr_host = websocket_host_with_path host r (cd_path d), cr_url = absolute_websocket_url tls host r (cd_path d), cr_path = cd_path d,
       cr_session = nw_id ns, cr_token = nw_token ns\<rparr>"

text \<open>\<^verbatim>\<open>writeStartupExit\<close>: the session is closed and the last error of the runtime named.\<close>

definition startup_exit :: "'w agent_services \<Rightarrow> started_session \<Rightarrow> string \<Rightarrow> 'w agents_world \<Rightarrow> agent_reply \<times> 'w agents_world" where
  "startup_exit s ns dev w =
     (let w1 = snd (as_close s (nw_id ns) dev w)
      in case on_supervisor (get_runtime (nw_runtime ns) (as_now s)) w1 of
           (Inr rt, w2) \<Rightarrow> (Startup_Exit (''agent exited during startup'' @ (if rt_last_error rt \<noteq> [] then '': '' @ rt_last_error rt else [])), w2)
         | (Inl err, w2) \<Rightarrow> (Startup_Exit ''agent exited during startup'', w2))"

text \<open>What a launch that succeeded is answered with.\<close>

definition connect_answer ::
  "'w agent_services \<Rightarrow> started_session \<Rightarrow> string \<Rightarrow> (connect_descriptor \<Rightarrow> 'w agents_world \<Rightarrow> agent_reply \<times> 'w agents_world) \<Rightarrow> 'w agents_world \<Rightarrow>
   agent_reply \<times> 'w agents_world" where
  "connect_answer s ns dev answer w =
     (case on_supervisor (connect (nw_runtime ns) (as_now s)) w of
        (Inl err, w1) \<Rightarrow> startup_exit s ns dev w1
      | (Inr d, w1) \<Rightarrow> answer d w1)"

definition agent_connect_handler :: "'w agent_services \<Rightarrow> bool \<Rightarrow> string \<Rightarrow> http_request \<Rightarrow> string \<Rightarrow> credential \<Rightarrow> 'w agents_world \<Rightarrow> agent_reply \<times> 'w agents_world" where
  "agent_connect_handler s tls host r i c w =
     (if \<not> as_sessions s then (Agent_Error 503 ''session service not available'', w)
      else case on_rest (as_agent s i) w of
             (None, w1) \<Rightarrow> (Agent_Unknown, w1)
           | (Some a, w1) \<Rightarrow>
               (case as_create s a (Pairing.cd_device c) w1 of
                  (Inl err, w2) \<Rightarrow> (agent_launch_error err, w2)
                | (Inr ns, w2) \<Rightarrow> connect_answer s ns (Pairing.cd_device c) (\<lambda>d w3. (Agent_Connected (connect_reply_of tls host r d ns), w3)) w2))"

definition agent_stop_handler :: "'w agent_services \<Rightarrow> string \<Rightarrow> credential \<Rightarrow> 'w agents_world \<Rightarrow> agent_reply \<times> 'w agents_world" where
  "agent_stop_handler s i c w =
     (if \<not> as_sessions s then (Agent_Error 503 ''session service not available'', w)
      else case as_stop s i (Pairing.cd_device c) w of
             (Inr rt, w1) \<Rightarrow> (Runtime_Stopped rt, w1)
           | (Inl (Session_Error ErrSessionNotFound), w1) \<Rightarrow> (Agent_Error 404 ''no runtimes for agent'', w1)
           | (Inl _, w1) \<Rightarrow> (Agent_Error 500 ''failed to stop agent'', w1))"

text \<open>The body of a restart: unreadable, or the environment it asks for.\<close>

definition restart_handler ::
  "'w agent_services \<Rightarrow> bool \<Rightarrow> string \<Rightarrow> http_request \<Rightarrow> string \<Rightarrow> (string \<times> string) list request_body \<Rightarrow> credential \<Rightarrow> 'w agents_world \<Rightarrow>
   agent_reply \<times> 'w agents_world" where
  "restart_handler s tls host r rid body c w =
     (let env = (case body of Decoded e \<Rightarrow> e | _ \<Rightarrow> [])
      in if \<not> as_sessions s then (Agent_Error 503 ''session service not available'', w)
         else if body = Malformed then (Agent_Error 400 ''invalid request body'', w)
         else if env \<noteq> [] \<and> require_scope scope_runtime_restart_env c \<noteq> None then (Agent_Auth (AuthRejected 403 credential_scope), w)
         else case on_supervisor (get_runtime rid (as_now s)) w of
                (Inl err, w1) \<Rightarrow> (Agent_Failed 404 (Run_Error err), w1)
              | (Inr rt, w1) \<Rightarrow>
                  if rt_status rt \<noteq> RunRunning then (Agent_Failed 409 (Run_Error ErrRuntimeNotRunning), w1)
                  else
                    (case on_rest (as_agent s (rt_agent rt)) w1 of
                       (None, w2) \<Rightarrow> (Agent_Unknown, w2)
                     | (Some a, w2) \<Rightarrow>
                         (case as_restart s rid (Pairing.cd_device c) a env w2 of
                            (Inl (Session_Error ErrSessionNotFound), w3) \<Rightarrow> (Agent_Error 409 ''runtime has no session to restart'', w3)
                          | (Inl (Session_Error ErrDeviceMismatch), w3) \<Rightarrow> (Agent_Error 403 ''runtime belongs to another device'', w3)
                          | (Inl err, w3) \<Rightarrow> (agent_launch_error err, w3)
                          | (Inr ns, w3) \<Rightarrow>
                              connect_answer s ns (Pairing.cd_device c) (\<lambda>d w4. (Agent_Connected (connect_reply_of tls host r d ns), w4)) w3)))"

section \<open>Sessions\<close>

record attach_request =
  at_agent :: string
  at_session :: string

definition session_attach_handler ::
  "'w agent_services \<Rightarrow> bool \<Rightarrow> string \<Rightarrow> http_request \<Rightarrow> attach_request option \<Rightarrow> credential \<Rightarrow> 'w agents_world \<Rightarrow> agent_reply \<times> 'w agents_world" where
  "session_attach_handler s tls host r body c w =
     (if \<not> as_sessions s then (Agent_Error 503 ''session service not available'', w)
      else case body of
             None \<Rightarrow> (Agent_Error 400 ''invalid request body'', w)
           | Some q \<Rightarrow>
               (case on_rest (as_agent s (at_agent q)) w of
                  (None, w1) \<Rightarrow> (Agent_Unknown, w1)
                | (Some a, w1) \<Rightarrow>
                    (case as_attach s a (Pairing.cd_device c) (at_session q) w1 of
                       (Inl err, w2) \<Rightarrow> (agent_launch_error err, w2)
                     | (Inr (ns, launched), w2) \<Rightarrow>
                         connect_answer s ns (Pairing.cd_device c)
                           (\<lambda>d w3. case as_epoch s (nw_id ns) w3 of
                               None \<Rightarrow> (Agent_Error 502 ''agent session ended during attach'', w3)
                             | Some epoch \<Rightarrow> (Session_Attached (connect_reply_of tls host r d ns) epoch (launched \<and> at_session q \<noteq> []), w3))
                           w2)))"

definition session_resume_handler :: "'w agent_services \<Rightarrow> string \<Rightarrow> credential \<Rightarrow> 'w agents_world \<Rightarrow> agent_reply \<times> 'w agents_world" where
  "session_resume_handler s i c w =
     (if \<not> as_sessions s then (Agent_Error 503 ''session service not available'', w)
      else case as_resume s i (Pairing.cd_device c) w of (Inl err, w1) \<Rightarrow> (Agent_Failed 400 err, w1) | (Inr token, w1) \<Rightarrow> (Session_Resumed token, w1))"

definition session_list_handler :: "'w agent_services \<Rightarrow> credential \<Rightarrow> 'w agents_world \<Rightarrow> agent_reply \<times> 'w agents_world" where
  "session_list_handler s c w =
     (if \<not> as_sessions s then (Agent_Error 503 ''session service not available'', w)
      else (case as_listed s (Pairing.cd_device c) w of Inl err \<Rightarrow> Agent_Failed 500 err | Inr ss \<Rightarrow> Session_List ss, w))"

definition session_close_handler :: "'w agent_services \<Rightarrow> string \<Rightarrow> credential \<Rightarrow> 'w agents_world \<Rightarrow> agent_reply \<times> 'w agents_world" where
  "session_close_handler s i c w =
     (if \<not> as_sessions s then (Agent_Error 503 ''session service not available'', w)
      else case as_close s i (Pairing.cd_device c) w of (Some err, w1) \<Rightarrow> (Agent_Failed 400 err, w1) | (None, w1) \<Rightarrow> (No_Content, w1))"

text \<open>
  \<^verbatim>\<open>handleACPWebSocket\<close> up to the proxy: the query values, the service, the attach token with the runtime it is for, the
  upgrade, and the binding of the connection. The second component tells whether the client is detached again.
\<close>

datatype ws_opening = Ws_Error int string | Ws_Not_Upgraded | Ws_Superseded | Ws_No_Pump | Ws_Proxied

definition acp_websocket :: "bool \<Rightarrow> string \<Rightarrow> string \<Rightarrow> string \<Rightarrow> (session_error + string) \<Rightarrow> bool \<Rightarrow> bool \<Rightarrow> bool \<Rightarrow> ws_opening \<times> bool" where
  "acp_websocket available rid sid token attached upgraded binds pump =
     (if sid = [] \<or> token = [] then (Ws_Error 400 ''sessionId and attachToken query parameters are required'', False)
      else if \<not> available then (Ws_Error 503 ''session service not available'', False)
      else case attached of
             Inl ErrAttachToken \<Rightarrow> (Ws_Error 401 ''attach token is invalid or expired'', False)
           | Inl err \<Rightarrow> (Ws_Error 409 [], False)
           | Inr rid1 \<Rightarrow>
               if rid1 \<noteq> rid then (Ws_Error 400 ''runtime ID does not match session'', True)
               else if \<not> upgraded then (Ws_Not_Upgraded, True)
               else if \<not> binds then (Ws_Superseded, True)
               else if \<not> pump then (Ws_No_Pump, True)
               else (Ws_Proxied, True))"

section \<open>Quotas, custom agents and diagnostics\<close>

definition quotas_handler :: "'w agent_services \<Rightarrow> agent_reply" where
  "quotas_handler s =
     (case as_quotas s of
        None \<Rightarrow> Agent_Error 503 ''quotas unavailable''
      | Some (Inr ps) \<Rightarrow> Quotas_Answer ps
      | Some (Inl Codexbar_Missing) \<Rightarrow> Quotas_Coded ''codexbar_not_found''
      | Some (Inl Invalid_Response) \<Rightarrow> Quotas_Coded ''codexbar_invalid_response''
      | Some (Inl Collect_Failed) \<Rightarrow> Agent_Error 503 ''quotas unavailable'')"

definition diagnostics_summary_handler :: "'w agent_services \<Rightarrow> 'w agents_world \<Rightarrow> agent_reply \<times> 'w agents_world" where
  "diagnostics_summary_handler s w =
     (case on_supervisor (summarize (as_now s) (as_recorded s)) w of (sm, w1) \<Rightarrow> (Diagnostics_Summary sm (if as_sessions s then as_feed s else None), w1))"

text \<open>The logs of every runtime that has some, one request after the other.\<close>

fun export_logs :: "gtime \<Rightarrow> runtime list \<Rightarrow> supervisor \<Rightarrow> supervisor \<times> (string \<times> log_entry list) list" where
  "export_logs now [] s = (s, [])"
| "export_logs now (rt # rts) s =
     (case runtime_logs (rt_id rt) now s of
        (s1, res) \<Rightarrow> (case export_logs now rts s1 of (s2, rest) \<Rightarrow> (s2, (case res of Inl _ \<Rightarrow> rest | Inr es \<Rightarrow> (rt_id rt, es) # rest))))"

definition diagnostics_export_handler :: "'w agent_services \<Rightarrow> 'w agents_world \<Rightarrow> agent_reply \<times> 'w agents_world" where
  "diagnostics_export_handler s w =
     (case on_supervisor (list_runtimes (as_now s)) w of
        (rts, w1) \<Rightarrow>
          (case on_supervisor (export_logs (as_now s) rts) w1 of
             (logs, w2) \<Rightarrow>
               (case as_logs s 200 of
                  None \<Rightarrow> (Agent_Error 500 ''failed to read gateway logs'', w2)
                | Some tail \<Rightarrow>
                    (case on_supervisor (summarize (as_now s) (as_recorded s)) w2 of (sm, w3) \<Rightarrow> (Diagnostics_Export sm rts logs tail, w3)))))"

section \<open>The routes\<close>

datatype agent_route =
    Route_Agents | Route_Runtimes | Route_Runtime_Logs string | Route_Connect string | Route_Stop string
  | Route_Restart string "(string \<times> string) list request_body" | Route_Attach "attach_request option" | Route_Resume string
  | Route_Sessions | Route_Close string | Route_Quotas | Route_Diagnostics | Route_Export
  | Route_Custom "custom_state \<Rightarrow> int \<times> custom_state"

text \<open>The scope a route asks for; a route without one asks for a credential only.\<close>

definition route_scope :: "agent_route \<Rightarrow> string option" where
  "route_scope route =
     (case route of
        Route_Connect _ \<Rightarrow> Some scope_control
      | Route_Stop _ \<Rightarrow> Some scope_control
      | Route_Restart _ _ \<Rightarrow> Some scope_control
      | Route_Attach _ \<Rightarrow> Some scope_control
      | Route_Custom _ \<Rightarrow> Some scope_control
      | Route_Export \<Rightarrow> Some scope_diagnostics_export
      | Route_Resume _ \<Rightarrow> None
      | Route_Sessions \<Rightarrow> None
      | Route_Close _ \<Rightarrow> None
      | _ \<Rightarrow> Some scope_read)"

definition agent_gate :: "auth_env \<Rightarrow> string option \<Rightarrow> http_request \<Rightarrow> gateway \<Rightarrow> gateway \<times> (reply + credential)" where
  "agent_gate a scope r g =
     (case scope of
        None \<Rightarrow> require_gateway_credential (au_crypto a) (au_digest a) (au_io a) (au_now a) r g
      | Some sc \<Rightarrow> require_gateway_scope (au_crypto a) (au_digest a) (au_io a) (au_now a) sc r g)"

definition agent_handler ::
  "'w agent_services \<Rightarrow> bool \<Rightarrow> string \<Rightarrow> agent_route \<Rightarrow> http_request \<Rightarrow> credential \<Rightarrow> 'w agents_world \<Rightarrow> agent_reply \<times> 'w agents_world" where
  "agent_handler s tls host route r c w =
     (case route of
        Route_Agents \<Rightarrow> agents_handler s w
      | Route_Runtimes \<Rightarrow> runtimes_handler s w
      | Route_Runtime_Logs rid \<Rightarrow> runtime_logs_handler s rid w
      | Route_Connect i \<Rightarrow> agent_connect_handler s tls host r i c w
      | Route_Stop i \<Rightarrow> agent_stop_handler s i c w
      | Route_Restart rid body \<Rightarrow> restart_handler s tls host r rid body c w
      | Route_Attach body \<Rightarrow> session_attach_handler s tls host r body c w
      | Route_Resume i \<Rightarrow> session_resume_handler s i c w
      | Route_Sessions \<Rightarrow> session_list_handler s c w
      | Route_Close i \<Rightarrow> session_close_handler s i c w
      | Route_Quotas \<Rightarrow> (quotas_handler s, w)
      | Route_Diagnostics \<Rightarrow> diagnostics_summary_handler s w
      | Route_Export \<Rightarrow> diagnostics_export_handler s w
      | Route_Custom f \<Rightarrow> (case on_rest (as_custom s f) w of (status, w1) \<Rightarrow> (Custom_Answer status, w1)))"

text \<open>The two listings whose method is not part of the route check it before anything else.\<close>

definition agents_api ::
  "auth_env \<Rightarrow> 'w agent_services \<Rightarrow> bool \<Rightarrow> string \<Rightarrow> agent_route \<Rightarrow> http_request \<Rightarrow> gateway \<times> 'w agents_world \<Rightarrow> agent_reply \<times> gateway \<times> 'w agents_world" where
  "agents_api a s tls host route r gw =
     (if (case route of Route_Agents \<Rightarrow> True | Route_Runtimes \<Rightarrow> True | _ \<Rightarrow> False) \<and> rq_method r \<noteq> ''GET'' then (Agent_Error 405 ''method not allowed'', gw)
      else case agent_gate a (route_scope route) r (fst gw) of
             (g, Inl e) \<Rightarrow> (Agent_Auth e, g, snd gw)
           | (g, Inr c) \<Rightarrow> (case agent_handler s tls host route r c (snd gw) of (rep, w) \<Rightarrow> (rep, g, w)))"

end
