(* ===== verification/Api_Agents_Proofs.thy ===== *)
theory Api_Agents_Proofs
  imports Api_Agents
begin

text \<open>
  What the agent and session endpoints promise: nothing happens without a credential of the route's scope, a device acts
  on its own sessions only, and a client is sent to a running agent or told that there is none.
\<close>

section \<open>A device acts for itself\<close>

text \<open>Two gateways that treat one device alike; what they do for other devices may differ.\<close>

definition serves_alike :: "string \<Rightarrow> 'w agent_services \<Rightarrow> 'w agent_services \<Rightarrow> bool" where
  "serves_alike dev s s' \<longleftrightarrow>
     as_now s = as_now s' \<and> as_sessions s = as_sessions s' \<and> as_agents s = as_agents s' \<and> as_agent s = as_agent s' \<and> as_epoch s = as_epoch s' \<and>
     as_custom s = as_custom s' \<and> as_quotas s = as_quotas s' \<and> as_feed s = as_feed s' \<and> as_logs s = as_logs s' \<and> as_recorded s = as_recorded s' \<and>
     (\<forall>a. as_create s a dev = as_create s' a dev) \<and> (\<forall>a. as_attach s a dev = as_attach s' a dev) \<and>
     (\<forall>rid. as_restart s rid dev = as_restart s' rid dev) \<and> (\<forall>i. as_stop s i dev = as_stop s' i dev) \<and>
     (\<forall>i. as_close s i dev = as_close s' i dev) \<and> (\<forall>i. as_resume s i dev = as_resume s' i dev) \<and> as_listed s dev = as_listed s' dev"

lemma alike_parts:
  assumes "serves_alike dev s s'"
  shows "as_now s = as_now s'" "as_sessions s = as_sessions s'" "as_agents s = as_agents s'" "as_agent s = as_agent s'" "as_epoch s = as_epoch s'"
    "as_custom s = as_custom s'" "as_quotas s = as_quotas s'" "as_feed s = as_feed s'" "as_logs s = as_logs s'" "as_recorded s = as_recorded s'"
    "as_create s a dev = as_create s' a dev" "as_attach s a dev = as_attach s' a dev" "as_restart s rid dev = as_restart s' rid dev"
    "as_stop s i dev = as_stop s' i dev" "as_close s i dev = as_close s' i dev" "as_resume s i dev = as_resume s' i dev"
    "as_listed s dev = as_listed s' dev"
  using assms by (simp_all add: serves_alike_def)

lemma startup_exit_alike: "serves_alike dev s s' \<Longrightarrow> startup_exit s ns dev w = startup_exit s' ns dev w"
  unfolding startup_exit_def alike_parts [of dev s s'] by (rule refl)

lemma connect_answer_alike: "serves_alike dev s s' \<Longrightarrow> connect_answer s ns dev f w = connect_answer s' ns dev f w"
  unfolding connect_answer_def alike_parts [of dev s s'] startup_exit_alike [of dev s s'] by (rule refl)

lemma agent_handler_alike:
  "serves_alike (Pairing.cd_device c) s s' \<Longrightarrow> agent_handler s tls host route r c w = agent_handler s' tls host route r c w"
  unfolding agent_handler_def agents_handler_def runtimes_handler_def runtime_logs_handler_def agent_connect_handler_def
    agent_stop_handler_def restart_handler_def session_attach_handler_def session_resume_handler_def session_list_handler_def
    session_close_handler_def quotas_handler_def diagnostics_summary_handler_def diagnostics_export_handler_def
    alike_parts [of "Pairing.cd_device c" s s'] connect_answer_alike [of "Pairing.cd_device c" s s'] by (rule refl)

text \<open>
  A device acts for itself (\<^verbatim>\<open>internal/api/runtime_handlers.go\<close>, \<^verbatim>\<open>session_handlers.go\<close>). Whatever a request asks for: if the gate
  lets it through for a device, its answer and its effect are those of a gateway that treats every other device in any
  other way, so no request launches, lists, resumes, stops or closes a session under another device's name; and if the
  gate refuses it, nothing happens at all.
\<close>

theorem device_acts_for_itself:
  assumes "agent_gate a (route_scope route) r g = (g', res)" "\<And>c. res = Inr c \<Longrightarrow> serves_alike (Pairing.cd_device c) s s'"
  shows "agents_api a s tls host route r (g, w) = agents_api a s' tls host route r (g, w) \<and>
    (case res of Inl e \<Rightarrow> snd (snd (agents_api a s tls host route r (g, w))) = w | Inr c \<Rightarrow> True)"
  using assms agent_handler_alike [of _ s s' tls host route r w] by (cases res) (simp_all add: agents_api_def)

section \<open>A client is sent to a running agent\<close>

lemma on_supervisor_connect:
  "on_supervisor (connect rid now) w = (Inr d, w1) \<Longrightarrow>
     \<exists>rt. map_of (sv_runtimes (fst w1)) rid = Some rt \<and> rt_status rt = RunRunning \<and> d = \<lparr>cd_runtime = rt_id rt, cd_agent = rt_agent rt, cd_protocol = ''acp'', cd_path = ''/v1/acp/'' @ rt_id rt\<rparr>"
  by (auto simp: on_supervisor_def connect_def Let_def split: prod.splits option.splits if_splits)

lemma connect_answer_running:
  assumes "connect_answer s ns dev (\<lambda>d w3. (f d w3, w3)) w = (rep, w')" "\<And>m. rep \<noteq> Startup_Exit m"
  shows "\<exists>rt d. map_of (sv_runtimes (fst w')) (nw_runtime ns) = Some rt \<and> rt_status rt = RunRunning \<and>
    d = \<lparr>cd_runtime = rt_id rt, cd_agent = rt_agent rt, cd_protocol = ''acp'', cd_path = ''/v1/acp/'' @ rt_id rt\<rparr> \<and> rep = f d w'"
proof -
  obtain res w1 where con: "on_supervisor (connect (nw_runtime ns) (as_now s)) w = (res, w1)" by (metis prod.exhaust)
  show ?thesis
  proof (cases res)
    case (Inl err)
    then have "startup_exit s ns dev w1 = (rep, w')" using assms(1) con by (simp add: connect_answer_def)
    then show ?thesis using assms(2) by (auto simp: startup_exit_def Let_def split: prod.splits sum.splits)
  next
    case (Inr d)
    then have "rep = f d w1" "w' = w1" using assms(1) con by (auto simp: connect_answer_def)
    then show ?thesis using on_supervisor_connect [of "nw_runtime ns" "as_now s" w d w1] con Inr by auto
  qed
qed

lemma launch_error_not_connected: "agent_launch_error err \<noteq> Agent_Connected x"
  by (auto simp: agent_launch_error_def split: service_error.splits supervisor_error.splits session_error.splits)

lemma startup_exit_reply: "startup_exit s ns dev w = (rep, w') \<Longrightarrow> \<exists>m. rep = Startup_Exit m"
  by (auto simp: startup_exit_def Let_def split: prod.splits sum.splits)

definition connected_well :: "bool \<Rightarrow> string \<Rightarrow> http_request \<Rightarrow> supervisor \<Rightarrow> connect_reply \<Rightarrow> bool" where
  "connected_well tls host r sv x \<longleftrightarrow>
     (\<exists>rid rt. map_of (sv_runtimes sv) rid = Some rt \<and> rt_status rt = RunRunning \<and> cr_runtime x = rt_id rt \<and> cr_path x = ''/v1/acp/'' @ rt_id rt \<and>
        cr_url x = cr_scheme x @ ''://'' @ cr_host x \<and> cr_scheme x \<in> {''ws'', ''wss''} \<and> cr_host x = websocket_host host r @ cr_path x)"

lemma connect_reply_well:
  assumes "map_of (sv_runtimes sv) rid = Some rt" "rt_status rt = RunRunning"
    "d = \<lparr>cd_runtime = rt_id rt, cd_agent = rt_agent rt, cd_protocol = ''acp'', cd_path = ''/v1/acp/'' @ rt_id rt\<rparr>"
  shows "connected_well tls host r sv (connect_reply_of tls host r d ns)"
  using assms
  by (auto simp: connected_well_def connect_reply_of_def websocket_host_with_path_def absolute_websocket_url_def websocket_scheme_def Let_def)

lemma answer_connected:
  assumes "connect_answer s ns dev (\<lambda>d w3. (Agent_Connected (connect_reply_of tls host r d ns), w3)) w = (Agent_Connected x, w')"
  shows "connected_well tls host r (fst w') x"
  using connect_answer_running [OF assms] connect_reply_well by fastforce

lemma connect_handler_connected:
  "agent_connect_handler s tls host r i c w = (Agent_Connected x, w') \<Longrightarrow> connected_well tls host r (fst w') x"
  by (auto simp: agent_connect_handler_def launch_error_not_connected [symmetric] split: if_splits prod.splits option.splits sum.splits
      dest: answer_connected) (metis launch_error_not_connected)+

lemma restart_handler_connected:
  "restart_handler s tls host r rid body c w = (Agent_Connected x, w') \<Longrightarrow> connected_well tls host r (fst w') x"
  by (auto simp: restart_handler_def Let_def split: if_splits prod.splits option.splits sum.splits service_error.splits session_error.splits
      dest: answer_connected) (metis launch_error_not_connected)+

lemma other_handlers_not_connected:
  assumes "agent_handler s tls host route r c w = (Agent_Connected x, w')"
  shows "(\<exists>i. route = Route_Connect i) \<or> (\<exists>rid body. route = Route_Restart rid body)"
proof (cases route)
  case (Route_Attach body)
  then show ?thesis using assms
    by (auto simp: agent_handler_def session_attach_handler_def connect_answer_def split: if_splits prod.splits option.splits sum.splits
        dest!: startup_exit_reply) (metis launch_error_not_connected)+
qed (use assms in \<open>auto simp: agent_handler_def agents_handler_def runtimes_handler_def runtime_logs_handler_def agent_stop_handler_def
      session_resume_handler_def session_list_handler_def session_close_handler_def quotas_handler_def diagnostics_summary_handler_def
      diagnostics_export_handler_def split: prod.splits sum.splits option.splits if_splits quota_error.splits service_error.splits session_error.splits\<close>)

text \<open>
  A client that is told to connect is told where a running agent is (\<^verbatim>\<open>handleAgentConnect\<close>, \<^verbatim>\<open>handleRuntimeRestart\<close> in
  \<^verbatim>\<open>internal/api/runtime_handlers.go\<close>). The runtime named is one the supervisor runs at the time of the answer, the path is
  the one its socket is served at, and the URL is made of the scheme, the host the client reached and that path.
\<close>

theorem connect_names_running_agent:
  assumes "agents_api a s tls host route r (g, w) = (Agent_Connected x, g', w')"
  shows "connected_well tls host r (fst w') x"
proof -
  obtain c where h: "agent_handler s tls host route r c w = (Agent_Connected x, w')"
    using assms by (auto simp: agents_api_def split: if_splits prod.splits sum.splits)
  then consider i where "route = Route_Connect i" | rid body where "route = Route_Restart rid body"
    using other_handlers_not_connected [OF h] by auto
  then show ?thesis
  proof cases
    case 1
    then have "agent_connect_handler s tls host r i c w = (Agent_Connected x, w')" using h by (simp add: agent_handler_def)
    then show ?thesis by (rule connect_handler_connected)
  next
    case 2
    then have "restart_handler s tls host r rid body c w = (Agent_Connected x, w')" using h by (simp add: agent_handler_def)
    then show ?thesis by (rule restart_handler_connected)
  qed
qed

section \<open>Examples\<close>

definition some_services :: "string list \<Rightarrow> nat agent_services" where
  "some_services strangers =
     \<lparr>as_now = unix_second 900, as_sessions = True, as_agents = (\<lambda>w. ([], w)), as_agent = (\<lambda>i w. (None, w)),
       as_create = (\<lambda>a d w. (Inl Other_Error, w)), as_attach = (\<lambda>a d i w. (Inl Other_Error, w)), as_restart = (\<lambda>rid d a env w. (Inl Other_Error, w)),
       as_stop = (\<lambda>i d w. (Inl Other_Error, w)), as_close = (\<lambda>i d w. (None, fst w, if d \<in> set strangers then 0 else Suc (snd w))),
       as_resume = (\<lambda>i d w. (Inl Other_Error, w)), as_listed = (\<lambda>d w. Inr []), as_epoch = (\<lambda>i w. None), as_custom = (\<lambda>f w. (400, w)),
       as_quotas = None, as_feed = None, as_logs = (\<lambda>n. None), as_recorded = True\<rparr>"

definition some_auth :: auth_env where
  "some_auth = \<lparr>au_crypto = plain_crypto, au_digest = (\<lambda>t. t), au_io = (\<lambda>_. True), au_now = unix_second 900\<rparr>"

lemma some_services_alike: "dev \<notin> set strangers \<Longrightarrow> serves_alike dev (some_services strangers) (some_services [])"
  by (simp add: serves_alike_def some_services_def fun_eq_iff)

theorem device_acts_for_itself_witness:
  "agents_api some_auth (some_services [''stranger'']) True ''h'' (Route_Close ''s'') ex_request (ex_gateway, new_supervisor None, 0) =
   agents_api some_auth (some_services []) True ''h'' (Route_Close ''s'') ex_request (ex_gateway, new_supervisor None, 0)"
proof -
  let ?q = "agent_gate some_auth (route_scope (Route_Close ''s'')) ex_request ex_gateway"
  have "(case snd ?q of Inl _ \<Rightarrow> False | Inr c \<Rightarrow> Pairing.cd_device c \<noteq> ''stranger'')" by code_simp
  then obtain c where c: "snd ?q = Inr c" "Pairing.cd_device c \<noteq> ''stranger''" by (auto split: sum.splits)
  have q: "?q = (fst ?q, Inr c)" using c(1) by (metis prod.collapse)
  show ?thesis
    by (rule conjunct1 [OF device_acts_for_itself [OF q]]) (use c(2) some_services_alike in auto)
qed

definition some_agent :: catalog_agent where
  "some_agent = custom_to_agent \<lparr>cu_id = ''a'', cu_name = ''A'', cu_command = ''a'', cu_args = [], cu_hint = []\<rparr>"

definition some_running :: supervisor where
  "some_running = (new_supervisor None)\<lparr>sv_runtimes :=
     [(''r'', \<lparr>rt_id = ''r'', rt_agent = ''a'', rt_name = ''A'', rt_status = RunRunning, rt_created = 1, rt_pid = 2, rt_command = ''a'', rt_last_error = [],
        rt_detected = True, rt_mode = ''external'', rt_failure_at = 0, rt_stopped_at = 0\<rparr>)]\<rparr>"

definition launching_services :: "nat agent_services" where
  "launching_services =
     (some_services [])\<lparr>as_agent := (\<lambda>i w. (Some some_agent, w)), as_create := (\<lambda>a d w. (Inr \<lparr>nw_id = ''s'', nw_runtime = ''r'', nw_token = ''t''\<rparr>, w))\<rparr>"

theorem connect_names_running_agent_witness:
  "\<exists>x g w. agents_api some_auth launching_services True ''h'' (Route_Connect ''a'') ex_request (ex_gateway, some_running, 0) = (Agent_Connected x, g, w) \<and>
     connected_well True ''h'' ex_request (fst w) x"
proof -
  let ?q = "agents_api some_auth launching_services True ''h'' (Route_Connect ''a'') ex_request (ex_gateway, some_running, 0)"
  have "case fst ?q of Agent_Connected x \<Rightarrow> True | _ \<Rightarrow> False" by code_simp
  then obtain x where x: "fst ?q = Agent_Connected x" by (auto split: agent_reply.splits)
  then have q: "?q = (Agent_Connected x, fst (snd ?q), snd (snd ?q))" by (metis prod.collapse)
  show ?thesis using connect_names_running_agent [OF q] q by metis
qed

end
