(* ===== verification/Spec2Isabelle.thy ===== *)
theory Spec2Isabelle
  imports Turn_Stream Attach_Tokens Request_Ids_Proofs Prompt_Delivery Acp_State Load_Recovery_Proofs Client_Link_Proofs
    Pump_Proofs Agent_Stdout Pairing_Restart Pairing_Approval Session_Safety Supervisor_Records
    Http_Auth_Proofs Http_Query Push_Dispatch Release_Update_Proofs Custom_Agents_Races Git_Queries Api_Workspace_Proofs
    Agent_Install_Proofs Npm_Agents_Proofs Project_Lister_Proofs Project_Home Quota Remote_Access_Proofs
    Api_Agents_Proofs
begin

text \<open>
  The Ferngeist ACP gateway, a daemon written in Go that runs coding agents on a host and lets paired devices talk to them.
  This development models its packages below \<^verbatim>\<open>internal/\<close> and the update command of \<^verbatim>\<open>cmd/ferngeist\<close>, and proves what makes
  each of them correct. Definitions carry the names of the code in snake case; every theory says which files it models.

  \<^bold>\<open>The program.\<close> A device is paired once (\<^verbatim>\<open>internal/pairing\<close>, with the lockout and rate limits of \<^verbatim>\<open>internal/api\<close>), and from
  then on signs its requests (\<^verbatim>\<open>proof.go\<close>, \<^verbatim>\<open>auth.go\<close>). It lists agents (\<^verbatim>\<open>internal/catalog\<close>, fed by \<^verbatim>\<open>internal/registry\<close> and
  \<^verbatim>\<open>internal/customagents\<close>, installed by \<^verbatim>\<open>internal/acquire\<close>), asks for one to be launched (\<^verbatim>\<open>internal/runtime\<close>) and attaches a
  WebSocket to its session (\<^verbatim>\<open>internal/session\<close>). The pump of the session carries JSON-RPC frames both ways, keeps them for
  a client that is away, and reports turns to the feed (\<^verbatim>\<open>internal/turns\<close>) and to push notifications (\<^verbatim>\<open>internal/push\<close>). Beside
  that the gateway serves files and git (\<^verbatim>\<open>internal/workspace\<close>), the project home (\<^verbatim>\<open>internal/projects\<close>), quotas
  (\<^verbatim>\<open>internal/quota\<close>), makes itself reachable (\<^verbatim>\<open>internal/remote\<close>) and updates itself (\<^verbatim>\<open>internal/update\<close>).

  \<^bold>\<open>Theories.\<close> A theory \<open>X\<close> holds state and operations, \<open>X_Proofs\<close> what they promise.

  \<^item> \<open>Prelude\<close>, \<open>Go_Text\<close>, \<open>Go_Paths\<close>: time, association lists, runs of a step function and the locale of machines with an
    invariant; the parts of \<^verbatim>\<open>strings\<close>, \<^verbatim>\<open>strconv\<close>, \<^verbatim>\<open>net\<close> and \<^verbatim>\<open>path/filepath\<close> the code uses, on byte strings.
  \<^item> \<open>Config\<close>, \<open>Gateway_Settings\<close>: the settings and where they come from; the identity that racing first starts agree on.
  \<^item> \<open>Pairing\<close>, \<open>Pairing_Proofs\<close>, \<open>Pairing_Approval\<close>, \<open>Pairing_Restart\<close>: challenges, credentials, rotation, revocation and
    the store; one approval per credential; a restart accepts the same tokens.
  \<^item> \<open>Pairing_Limits\<close>, \<open>Http_Proof\<close>, \<open>Http_Auth\<close>, \<open>Http_Query\<close>: lockout and token buckets, the signed message and the replay
    tracker, the gate in front of every route, what is logged.
  \<^item> \<open>Json_Frames\<close>, \<open>Request_Ids\<close>, \<open>Prompt_Delivery\<close>, \<open>Acp_State\<close>, \<open>Load_Recovery\<close>, \<open>Client_Link\<close>, \<open>Agent_Stdout\<close>, \<open>Pump\<close>: the parts of
    the pump, one stage of \<^verbatim>\<open>pipeline.go\<close> each, and their composition.
  \<^item> \<open>Attach_Tokens\<close>, \<open>Sessions\<close>, \<open>Session_Safety\<close>: the session layer, one step per section that holds its lock.
  \<^item> \<open>Supervisor\<close>, \<open>Supervisor_Records\<close>: processes, warm spares, the listing, log rings and the summary.
  \<^item> \<open>Turn_Store\<close>, \<open>Turn_Feed\<close>, \<open>Turn_Stream\<close>, \<open>Api_Turns\<close>: turn outcomes, the feed's goroutine, its endpoint.
  \<^item> \<open>Agent_Registry\<close>, \<open>Catalog\<close>, \<open>Custom_Agents\<close>, \<open>Custom_Agents_Races\<close>, \<open>Agent_Install\<close>, \<open>Npm_Agents\<close>: which agents there are and
    how they get on the disk.
  \<^item> \<open>Git_Output\<close>, \<open>Git_Queries\<close>, \<open>Worktrees\<close>, \<open>Worktree_Finish\<close>, \<open>Api_Workspace\<close>: parsers of git's output, the commands asked,
    managed worktrees and the endpoints in front of them.
  \<^item> \<open>Project_Lister\<close>, \<open>Project_Home\<close>, \<open>Quota\<close>, \<open>Push_Dispatch\<close>, \<open>Remote_Access\<close>, \<open>Release_Update\<close>, \<open>Api_Agents\<close>: the rest.

  \<^bold>\<open>What is shown.\<close> Invariants over every run of a component's steps, most by the locale \<open>invariant_machine\<close> and its
  interpretations; refinements to an abstract state (the log that never evicts behind the replay buffer, the table of issued
  tokens, the store behind the pairing service); what each operation answers and leaves behind on every branch, errors
  included; which effects an operation may have on disk, git and processes; round trips and bounds. Where the code does not
  do what its comments or documents say, a theorem exhibits it, next to the property it limits.

  \<^bold>\<open>Steps.\<close> What holds a lock throughout is one step. Goroutines that give the lock up are several: the session layer, the
  supervisor, the lister, the feed, remote access, the first start, pairing completions, and creating and editing custom
  agents. Two places are coarser than the code: a line of agent output and a client's frame are each handled to the end
  before the next (\<open>Pump\<close>), although \<^verbatim>\<open>pipeline.go\<close> holds no lock across its stages, so what is proved of the pump holds of
  handlers that do not overlap, and \<open>turn_reported_twice\<close> shows an overlap; and \<^verbatim>\<open>StartPairingWithLocalApproval\<close>, which locks
  twice, is one step.

  \<^bold>\<open>Outside.\<close> The operating system, the network, SQL, git, \<^verbatim>\<open>gh\<close>, Tailscale, codexbar, JSON decoders of the ACP SDK,
  \<^verbatim>\<open>net/url\<close>, SHA-256 and Ed25519 are arguments of the definitions: functions from what was asked (and, for git, from the effects
  so far) to an answer, so that a theorem holds for every answer. Every store call may fail when the environment says so. A hypothesis
  on such an argument is stated in the theorem: a digest without trailing space, an injective encoding, the length of a hash.

  \<^bold>\<open>Numbers and text.\<close> Strings are byte strings; of Unicode only ASCII case and space are modelled. Times and durations are
  \<open>int\<close> nanoseconds, with the wrap of int64 written out where a setting can reach it (\<open>wrap64\<close>); the tokens of a bucket are
  rationals for float64. A map is a partial function, or a list of pairs with distinct keys where its order or size
  matters.

  \<^bold>\<open>Bounds and fuel.\<close> All functions are total. Loops that the code bounds have the same bound: ten removals of a folder
  (\<open>remove_retrying\<close>), a hundred ids (\<open>max_slug_tries\<close>, enough while fewer ids are taken: \<open>id_search_ends\<close>), the pages of a listing, 64
  agent requests, 8 MiB of history. Reading, retrying and waiting loops run over the list of what the environment
  answers. Links on the disk are followed as often as the parameter \<open>ie_links\<close> allows, as the operating system limits them; the
  theorems hold for every value.

  \<^bold>\<open>Not modelled.\<close> The service managers of the operating systems (\<^verbatim>\<open>internal/service\<close>; for the update command stopping and
  restarting are parameters), the wiring in \<^verbatim>\<open>internal/daemon\<close> and the command line, the admin client, log files, the frame
  log, mDNS discovery, keeping the machine awake, lock files, schema migrations and the mock agent: input, output and
  construction without logic of their own.
\<close>

end
